(* ===== verification/Prelude.thy ===== *)
theory Prelude
  imports Main "HOL-Library.Word" "HOL-Library.Monad_Syntax"
begin

unbundle bit_operations_syntax

text \<open>
  Shared ground of the development: the type of computations that may throw, the loop
  combinator the components use, little-endian byte sequences, and the lemma collections.

  The C++ code signals every failure with \<open>drob_throw\<close> (\<open>drob_assert\<close> and
  \<open>drob_assert_not_reached\<close> call it), an exception that ends the rewriting of the
  function. A computation that may throw has a result of type \<open>'a option\<close>: \<open>None\<close> is
  "throws", and also stands for an access outside an array, which C++ leaves undefined.
\<close>

named_theorems elem_simps \<open>defining equations of the operations on tracked bytes\<close>
named_theorems mask_simps \<open>what an operation on register masks does to the register set\<close>

type_synonym byte = "8 word"
type_synonym u16 = "16 word"
type_synonym u32 = "32 word"
type_synonym u64 = "64 word"
type_synonym u128 = "128 word"

section \<open>Computations that may throw\<close>

abbreviation throw :: "'a option" where
  "throw \<equiv> None"

definition drob_assert :: "bool \<Rightarrow> unit option" where
  "drob_assert c = (if c then Some () else throw)"

lemma drob_assert_bind [simp]:
  "Option.bind (drob_assert c) f = (if c then f () else None)"
  by (simp add: drob_assert_def)

lemma drob_assert_Some [simp]: "drob_assert c = Some u \<longleftrightarrow> c"
  by (simp add: drob_assert_def)

text \<open>A \<open>for\<close> loop over a list of indices whose body may throw.\<close>

primrec for_each :: "'a list \<Rightarrow> ('a \<Rightarrow> 's \<Rightarrow> 's option) \<Rightarrow> 's \<Rightarrow> 's option" where
  "for_each [] f s = Some s"
| "for_each (x # xs) f s = Option.bind (f x s) (for_each xs f)"

lemma for_each_append:
  "for_each (xs @ ys) f s = Option.bind (for_each xs f s) (for_each ys f)"
  by (induction xs arbitrary: s) (auto split: Option.bind_splits)

lemma for_each_cong [fundef_cong]:
  "xs = ys \<Longrightarrow> s = t \<Longrightarrow> (\<And>x u. x \<in> set ys \<Longrightarrow> f x u = g x u) \<Longrightarrow>
   for_each xs f s = for_each ys g t"
proof (induction xs arbitrary: s t ys)
  case (Cons x xs)
  then show ?case by (auto intro!: Option.bind_cong)
qed simp

lemma for_each_inv:
  assumes "for_each xs f s = Some t" and "P s"
    and "\<And>x u v. x \<in> set xs \<Longrightarrow> P u \<Longrightarrow> f x u = Some v \<Longrightarrow> P v"
  shows "P t"
  using assms by (induction xs arbitrary: s) (auto simp: bind_eq_Some_conv)

lemma for_each_total:
  assumes "P s" and "\<And>x u. x \<in> set xs \<Longrightarrow> P u \<Longrightarrow> \<exists>v. f x u = Some v \<and> P v"
  shows "\<exists>t. for_each xs f s = Some t \<and> P t"
  using assms
proof (induction xs arbitrary: s)
  case (Cons x xs)
  then obtain v where v: "f x s = Some v" "P v" by (meson list.set_intros(1))
  with Cons.IH[of v] Cons.prems(2) show ?case by auto
qed simp

section \<open>Lists updated by index\<close>

lemma nth_list_update_if:
  "j < length xs \<Longrightarrow> xs[i := x] ! j = (if i = j then x else xs ! j)"
  by (auto simp: nth_list_update)

text \<open>The bytes from \<open>off\<close> on replaced by \<open>ys\<close>, as a block write does.\<close>

definition splice :: "'a list \<Rightarrow> nat \<Rightarrow> 'a list \<Rightarrow> 'a list" where
  "splice xs off ys = take off xs @ ys @ drop (off + length ys) xs"

lemma length_splice [simp]:
  "off + length ys \<le> length xs \<Longrightarrow> length (splice xs off ys) = length xs"
  by (simp add: splice_def)

lemma nth_splice:
  "off + length ys \<le> length xs \<Longrightarrow> i < length xs \<Longrightarrow>
   splice xs off ys ! i = (if off \<le> i \<and> i < off + length ys then ys ! (i - off) else xs ! i)"
  by (auto simp: splice_def nth_append)

definition segment :: "'a list \<Rightarrow> nat \<Rightarrow> nat \<Rightarrow> 'a list" where
  "segment xs off n = take n (drop off xs)"

lemma length_segment [simp]: "off + n \<le> length xs \<Longrightarrow> length (segment xs off n) = n"
  by (simp add: segment_def)

lemma nth_segment [simp]: "i < n \<Longrightarrow> off + n \<le> length xs \<Longrightarrow> segment xs off n ! i = xs ! (off + i)"
  by (simp add: segment_def)

lemma segment_eqI:
  "off + n \<le> length xs \<Longrightarrow> off' + n \<le> length ys \<Longrightarrow>
   (\<And>i. i < n \<Longrightarrow> xs ! (off + i) = ys ! (off' + i)) \<Longrightarrow> segment xs off n = segment ys off' n"
  by (rule nth_equalityI) auto

lemma segment_splice [simp]:
  "off + length ys \<le> length xs \<Longrightarrow> n = length ys \<Longrightarrow> segment (splice xs off ys) off n = ys"
  by (simp add: segment_def splice_def)

lemma splice_segment: "off + n \<le> length xs \<Longrightarrow> splice xs off (segment xs off n) = xs"
  by (simp add: splice_def segment_def min_def)
    (metis add.commute append_take_drop_id drop_drop take_add append.assoc)

section \<open>Little-endian integers\<close>

text \<open>\<open>le_bytes n w\<close>: the low \<open>n\<close> bytes of \<open>w\<close> as they lie in memory on x86-64.\<close>

definition le_bytes :: "nat \<Rightarrow> 'a::len word \<Rightarrow> byte list" where
  "le_bytes n w = map (\<lambda>i. ucast (drop_bit (8 * i) w)) [0..<n]"

primrec le_word :: "byte list \<Rightarrow> 'a::len word" where
  "le_word [] = 0"
| "le_word (b # bs) = ucast b OR push_bit 8 (le_word bs)"

lemma length_le_bytes [simp]: "length (le_bytes n w) = n"
  by (simp add: le_bytes_def)

lemma bit_le_word:
  "bit (le_word bs :: 'a::len word) k \<longleftrightarrow>
   k < LENGTH('a) \<and> k div 8 < length bs \<and> bit (bs ! (k div 8)) (k mod 8)"
proof (induction bs arbitrary: k)
  case (Cons b bs)
  show ?case
  proof (cases "k < 8")
    case True
    then show ?thesis by (auto simp: bit_simps)
  next
    case False
    then obtain m where "k = m + 8" by (metis add.commute le_Suc_ex not_less)
    moreover have "(m + 8) div 8 = Suc (m div 8)" by simp
    ultimately show ?thesis
      using Cons.IH[of m] by (auto simp: bit_simps dest: bit_imp_le_length)
  qed
qed simp

lemma bit_le_bytes_nth:
  "i < n \<Longrightarrow> bit (le_bytes n (w :: 'a::len word) ! i) k \<longleftrightarrow> k < 8 \<and> bit w (8 * i + k)"
  by (auto simp: le_bytes_def bit_simps)

lemma le_word_le_bytes:
  fixes w :: "'a::len word"
  assumes "LENGTH('b::len) \<le> 8 * n"
  shows "(le_word (le_bytes n w) :: 'b word) = ucast w"
proof (rule bit_word_eqI)
  fix k
  assume k: "k < LENGTH('b)"
  then have "k div 8 < n" using assms by auto
  then show "bit (le_word (le_bytes n w) :: 'b word) k = bit (ucast w :: 'b word) k"
    using k by (simp add: bit_le_word bit_le_bytes_nth bit_simps)
qed

lemma le_bytes_le_word:
  assumes "length bs = n" and "8 * n \<le> LENGTH('a::len)"
  shows "le_bytes n (le_word bs :: 'a word) = bs"
proof (rule nth_equalityI)
  show "length (le_bytes n (le_word bs :: 'a word)) = length bs" using assms by simp
next
  fix i
  assume "i < length (le_bytes n (le_word bs :: 'a word))"
  then have i: "i < n" by simp
  show "le_bytes n (le_word bs :: 'a word) ! i = bs ! i"
  proof (rule bit_word_eqI)
    fix k
    assume "k < LENGTH(8)"
    then have k: "k < 8" by simp
    then have "8 * i + k < LENGTH('a)" using i assms by linarith
    moreover have "(8 * i + k) div 8 = i" and "(8 * i + k) mod 8 = k" using k by auto
    ultimately show "bit (le_bytes n (le_word bs :: 'a word) ! i) k = bit (bs ! i) k"
      using i k assms by (simp add: bit_le_bytes_nth bit_le_word)
  qed
qed

end
