(* ===== verification/Dyn_Value.thy ===== *)
theory Dyn_Value
  imports Prelude
begin

text \<open>
  The values the analysis tracks: \<open>DynamicValue\<close> with its arithmetic
  (\<open>src/ProgramState.hpp\<close>, \<open>src/ProgramState.cpp\<close>), and the three-valued logic of
  \<open>src/Utils.hpp\<close>.

  A \<open>DynamicValue\<close> is a tagged union: the type, an immediate of 64 or 128 bits, or a pointer
  given by a number and a 64-bit offset. It is a datatype here, so the constructor's
  assertions (offset and number only with pointers, no tail types) hold by construction.
\<close>

section \<open>Three-valued logic\<close>

datatype tristate = TFalse | TTrue | TUnknown

definition tri_and :: "tristate \<Rightarrow> tristate \<Rightarrow> tristate" where
  "tri_and lhs rhs =
     (if rhs = TTrue \<and> lhs = TTrue then TTrue
      else if rhs = TFalse \<or> lhs = TFalse then TFalse
      else lhs)"

definition tri_or :: "tristate \<Rightarrow> tristate \<Rightarrow> tristate" where
  "tri_or lhs rhs =
     (if rhs = TTrue \<or> lhs = TTrue then TTrue
      else if rhs = TUnknown \<or> lhs = TUnknown then TUnknown
      else lhs)"

text \<open>The truth values a three-valued result allows.\<close>

definition tri_conc :: "tristate \<Rightarrow> bool set" where
  "tri_conc t = (case t of TFalse \<Rightarrow> {False} | TTrue \<Rightarrow> {True} | TUnknown \<Rightarrow> UNIV)"

lemma tri_or_sound: "a \<in> tri_conc x \<Longrightarrow> b \<in> tri_conc y \<Longrightarrow> (a \<or> b) \<in> tri_conc (tri_or x y)"
  by (cases x; cases y) (auto simp: tri_or_def tri_conc_def)

lemma tri_and_sound:
  "a \<in> tri_conc x \<Longrightarrow> b \<in> tri_conc y \<Longrightarrow> \<not> (x = TTrue \<and> y = TUnknown) \<Longrightarrow>
   (a \<and> b) \<in> tri_conc (tri_and x y)"
  by (cases x; cases y) (auto simp: tri_and_def tri_conc_def)

lemma tri_and_false_sound:
  "a \<in> tri_conc x \<Longrightarrow> b \<in> tri_conc y \<Longrightarrow> tri_and x y = TFalse \<Longrightarrow> \<not> (a \<and> b)"
  by (cases x; cases y) (auto simp: tri_and_def tri_conc_def)

section \<open>Dynamic values\<close>

datatype ptr_kind = StackPtr | UsrPtr | ReturnPtr

datatype dyn_value =
    Dead
  | Unknown
  | Tainted
  | Imm64 u64
  | Imm128 u128
  | Ptr ptr_kind u32 u64    \<comment> \<open>kind, number, offset\<close>

definition isImm :: "dyn_value \<Rightarrow> bool" where
  "isImm v = (case v of Imm64 _ \<Rightarrow> True | Imm128 _ \<Rightarrow> True | _ \<Rightarrow> False)"

definition isImm64 :: "dyn_value \<Rightarrow> bool" where
  "isImm64 v = (case v of Imm64 _ \<Rightarrow> True | _ \<Rightarrow> False)"

definition isPtr :: "dyn_value \<Rightarrow> bool" where
  "isPtr v = (case v of Ptr _ _ _ \<Rightarrow> True | _ \<Rightarrow> False)"

definition isStackPtr :: "dyn_value \<Rightarrow> bool" where
  "isStackPtr v = (case v of Ptr k _ _ \<Rightarrow> k = StackPtr | _ \<Rightarrow> False)"

definition isUsrPtr :: "dyn_value \<Rightarrow> bool" where
  "isUsrPtr v = (case v of Ptr k _ _ \<Rightarrow> k = UsrPtr | _ \<Rightarrow> False)"

definition isReturnPtr :: "dyn_value \<Rightarrow> bool" where
  "isReturnPtr v = (case v of Ptr k _ _ \<Rightarrow> k = ReturnPtr | _ \<Rightarrow> False)"

definition isTainted :: "dyn_value \<Rightarrow> bool" where
  "isTainted v \<longleftrightarrow> v = Tainted"

definition isUnknownOrDead :: "dyn_value \<Rightarrow> bool" where
  "isUnknownOrDead v \<longleftrightarrow> v = Unknown \<or> v = Dead"

text \<open>
  The readers of the union. The code calls them only on a value it has tested with
  \<open>isImm\<close> or \<open>isPtr\<close>; on other values they are 0 here.
\<close>

definition getImm64 :: "dyn_value \<Rightarrow> u64" where
  "getImm64 v = (case v of Imm64 w \<Rightarrow> w | Imm128 w \<Rightarrow> ucast w | _ \<Rightarrow> 0)"

definition getImm128 :: "dyn_value \<Rightarrow> u128" where
  "getImm128 v = (case v of Imm64 w \<Rightarrow> ucast w | Imm128 w \<Rightarrow> w | _ \<Rightarrow> 0)"

definition getNr :: "dyn_value \<Rightarrow> u32" where
  "getNr v = (case v of Ptr _ nr _ \<Rightarrow> nr | _ \<Rightarrow> 0)"

definition getPtrOffset :: "dyn_value \<Rightarrow> u64" where
  "getPtrOffset v = (case v of Ptr _ _ off \<Rightarrow> off | _ \<Rightarrow> 0)"

lemmas dyn_simps = isImm_def isImm64_def isPtr_def isStackPtr_def isUsrPtr_def isReturnPtr_def
  isTainted_def isUnknownOrDead_def getImm64_def getImm128_def getNr_def getPtrOffset_def

definition multiplyDynamicValue :: "dyn_value \<Rightarrow> byte \<Rightarrow> dyn_value" where
  "multiplyDynamicValue data scale =
     (if scale = 1 then data
      else if isImm data then Imm64 (ucast scale * getImm64 data)
      else if isStackPtr data then Tainted
      else if isPtr data then Unknown
      else data)"

definition add_to_ptr :: "dyn_value \<Rightarrow> u64 \<Rightarrow> dyn_value" where
  "add_to_ptr v w = (case v of Ptr k nr off \<Rightarrow> Ptr k nr (off + w) | _ \<Rightarrow> v)"

definition addDynamicValues :: "dyn_value \<Rightarrow> dyn_value \<Rightarrow> dyn_value" where
  "addDynamicValues ptr1 ptr2 =
     (if isImm ptr1 \<and> isImm ptr2 then Imm64 (getImm64 ptr1 + getImm64 ptr2)
      else if isPtr ptr1 \<and> isImm ptr2 then add_to_ptr ptr1 (getImm64 ptr2)
      else if isPtr ptr2 \<and> isImm ptr1 then add_to_ptr ptr2 (getImm64 ptr1)
      else if isTainted ptr1 \<or> isTainted ptr2 \<or> isStackPtr ptr1 \<or> isStackPtr ptr2 then Tainted
      else Unknown)"

section \<open>What a value says\<close>

text \<open>
  \<open>base k nr\<close> is the address the pointer with kind \<open>k\<close> and number \<open>nr\<close> starts at.
  \<open>word_conc base v w\<close>: the 64-bit word \<open>w\<close> is one the value \<open>v\<close> allows.
\<close>

type_synonym base = "ptr_kind \<Rightarrow> u32 \<Rightarrow> u64"

definition word_conc :: "base \<Rightarrow> dyn_value \<Rightarrow> u64 \<Rightarrow> bool" where
  "word_conc base v w =
     (case v of
        Imm64 i \<Rightarrow> w = i
      | Imm128 i \<Rightarrow> w = ucast i
      | Ptr k nr off \<Rightarrow> w = base k nr + off
      | _ \<Rightarrow> True)"

text \<open>A value that may carry (part of) a stack pointer.\<close>

definition may_be_stack :: "dyn_value \<Rightarrow> bool" where
  "may_be_stack v \<longleftrightarrow> isTainted v \<or> isStackPtr v"

lemma word_conc_imm: "isImm v \<Longrightarrow> word_conc base v w \<longleftrightarrow> w = getImm64 v"
  by (cases v) (auto simp: word_conc_def dyn_simps)

lemma add_sound:
  "word_conc base a x \<Longrightarrow> word_conc base b y \<Longrightarrow> word_conc base (addDynamicValues a b) (x + y)"
  by (cases a; cases b) (auto simp: addDynamicValues_def word_conc_def dyn_simps add_to_ptr_def)

lemma multiply_sound:
  "word_conc base a x \<Longrightarrow> word_conc base (multiplyDynamicValue a s) (ucast s * x)"
  by (cases a) (auto simp: multiplyDynamicValue_def word_conc_def dyn_simps)

lemma add_taint:
  "may_be_stack a \<or> may_be_stack b \<Longrightarrow> may_be_stack (addDynamicValues a b)"
  by (cases a; cases b) (auto simp: addDynamicValues_def may_be_stack_def dyn_simps add_to_ptr_def)

lemma multiply_taint: "may_be_stack a \<Longrightarrow> may_be_stack (multiplyDynamicValue a s)"
  by (cases a) (auto simp: multiplyDynamicValue_def may_be_stack_def dyn_simps)

end
