(* ===== verification/Elements.thy ===== *)
theory Elements
  imports Dyn_Value
begin

text \<open>
  Tracked bytes: the element arrays behind a register and behind the stack, and the
  operations of \<open>ProgramState\<close> on them (\<open>src/ProgramState.cpp\<close>: \<open>markUnknown\<close>,
  \<open>clearTail\<close>, \<open>setElements\<close>, \<open>getElements\<close>, \<open>moveElements\<close>, \<open>mergeElements\<close>).

  The code keeps two arrays of the same length, one of data bytes and one of metadata (type
  and pointer number); an element here is the two together. A pointer takes eight elements:
  the first carries its kind and number, the seven that follow are tails, and the eight data
  bytes hold its offset.
\<close>

section \<open>Elements\<close>

datatype elem_type = EDead | EUnknown | ETainted | EImmediate | EPtr ptr_kind
  | ETail | EStackPtrTail

record elem =
  etype :: elem_type
  enr :: byte
  edata :: byte

definition dead_elem :: elem where
  "dead_elem = \<lparr>etype = EDead, enr = 0, edata = 0\<rparr>"

fun is_tail :: "elem_type \<Rightarrow> bool" where
  "is_tail ETail = True"
| "is_tail EStackPtrTail = True"
| "is_tail _ = False"

fun is_head :: "elem_type \<Rightarrow> bool" where
  "is_head (EPtr _) = True"
| "is_head _ = False"

definition tail_of :: "ptr_kind \<Rightarrow> elem_type" where
  "tail_of k = (if k = StackPtr then EStackPtrTail else ETail)"

fun getType :: "dyn_value \<Rightarrow> elem_type" where
  "getType Dead = EDead"
| "getType Unknown = EUnknown"
| "getType Tainted = ETainted"
| "getType (Imm64 _) = EImmediate"
| "getType (Imm128 _) = EImmediate"
| "getType (Ptr k _ _) = EPtr k"

definition set_etype :: "nat \<Rightarrow> elem_type \<Rightarrow> elem list \<Rightarrow> elem list" where
  "set_etype i t es = es[i := (es ! i)\<lparr>etype := t\<rparr>]"

text \<open>A loop that rewrites the elements from \<open>a\<close> up to \<open>b\<close>, one by one.\<close>

definition upd_range :: "(elem \<Rightarrow> elem) \<Rightarrow> nat \<Rightarrow> nat \<Rightarrow> elem list \<Rightarrow> elem list" where
  "upd_range f a b es = map (\<lambda>i. if a \<le> i \<and> i < b then f (es ! i) else es ! i) [0..<length es]"

text \<open>A store of several data bytes at once, through a wider pointer or with \<open>memcpy\<close>.\<close>

definition write_data :: "nat \<Rightarrow> byte list \<Rightarrow> elem list \<Rightarrow> elem list" where
  "write_data off bs es =
     map (\<lambda>i. if off \<le> i \<and> i < off + length bs then (es ! i)\<lparr>edata := bs ! (i - off)\<rparr> else es ! i)
       [0..<length es]"

definition read_data :: "elem list \<Rightarrow> nat \<Rightarrow> nat \<Rightarrow> 'a::len word" where
  "read_data es off n = le_word (map edata (segment es off n))"

section \<open>Invalidating\<close>

text \<open>\<open>clearTail\<close>: the element at \<open>off\<close>, and the tails that follow it.\<close>

function clear_tail_loop :: "elem list \<Rightarrow> nat \<Rightarrow> elem list" where
  "clear_tail_loop es k =
     (if k < length es then
        case etype (es ! k) of
          ETail \<Rightarrow> clear_tail_loop (set_etype k EUnknown es) (Suc k)
        | EStackPtrTail \<Rightarrow> clear_tail_loop (set_etype k ETainted es) (Suc k)
        | _ \<Rightarrow> es
      else es)"
  by pat_completeness auto
termination
  by (relation "measure (\<lambda>(es, k). length es - k)") (auto simp: set_etype_def)

declare clear_tail_loop.simps [simp del]

lemma length_set_etype [simp]: "length (set_etype i t es) = length es"
  by (simp add: set_etype_def)

lemma length_upd_range [simp]: "length (upd_range f a b es) = length es"
  by (simp add: upd_range_def)

lemma length_write_data [simp]: "length (write_data off bs es) = length es"
  by (simp add: write_data_def)

lemma length_clear_tail_loop [simp]: "length (clear_tail_loop es k) = length es"
  by (induction es k rule: clear_tail_loop.induct)
    (subst clear_tail_loop.simps, simp split: elem_type.split)

definition clear_tail :: "elem list \<Rightarrow> nat \<Rightarrow> elem list option" where
  "clear_tail es off =
     (if off < length es then
        Some (clear_tail_loop
          (set_etype off (if etype (es ! off) = EPtr StackPtr then ETainted else EUnknown) es)
          (Suc off))
      else throw)"

text \<open>The search of \<open>markUnknown\<close> for the element a tail belongs to; running out below 0 throws.\<close>

primrec find_parent :: "elem list \<Rightarrow> nat \<Rightarrow> nat option" where
  "find_parent es 0 = throw"
| "find_parent es (Suc p) = (if is_tail (etype (es ! p)) then find_parent es p else Some p)"

text \<open>
  One round of the loop of \<open>markUnknown\<close>. In the last case the code clears from
  \<open>byteOffset\<close>, not from \<open>byteOffset + i\<close>.
\<close>

definition mark_unknown_at :: "nat \<Rightarrow> nat \<Rightarrow> elem list \<Rightarrow> elem list option" where
  "mark_unknown_at off i es =
     (if off + i < length es then
        case etype (es ! (off + i)) of
          EDead \<Rightarrow> Some (set_etype (off + i) EUnknown es)
        | EImmediate \<Rightarrow> Some (set_etype (off + i) EUnknown es)
        | ETail \<Rightarrow> do { drob_assert (i = 0); p \<leftarrow> find_parent es off; clear_tail es p }
        | EStackPtrTail \<Rightarrow> do { drob_assert (i = 0); p \<leftarrow> find_parent es off; clear_tail es p }
        | ETainted \<Rightarrow> Some es
        | EUnknown \<Rightarrow> Some es
        | EPtr _ \<Rightarrow> clear_tail es off
      else throw)"

definition mark_unknown :: "elem list \<Rightarrow> nat \<Rightarrow> nat \<Rightarrow> elem list option" where
  "mark_unknown es off bytes = for_each [0..<bytes] (mark_unknown_at off) es"

section \<open>Writing\<close>

definition set_ptr :: "elem list \<Rightarrow> nat \<Rightarrow> nat \<Rightarrow> dyn_value \<Rightarrow> elem list option" where
  "set_ptr es off bytes v =
     do { drob_assert (bytes = 8);
          let es = es[off := (es ! off)\<lparr>etype := getType v, enr := ucast (getNr v)\<rparr>];
          let es = upd_range (\<lambda>e. e\<lparr>etype := (if isStackPtr v then EStackPtrTail else ETail)\<rparr>)
                     (off + 1) (off + bytes) es;
          Some (write_data off (le_bytes 8 (getPtrOffset v)) es) }"

definition set_imm :: "elem list \<Rightarrow> nat \<Rightarrow> nat \<Rightarrow> dyn_value \<Rightarrow> elem list option" where
  "set_imm es off bytes v =
     (let es = upd_range (\<lambda>e. e\<lparr>etype := EImmediate\<rparr>) off (off + bytes) es in
      if bytes = 1 then Some (write_data off (le_bytes 1 (getImm64 v)) es)
      else if bytes = 2 then Some (write_data off (le_bytes 2 (getImm64 v)) es)
      else if bytes = 4 then Some (write_data off (le_bytes 4 (getImm64 v)) es)
      else if bytes = 8 then Some (write_data off (le_bytes 8 (getImm64 v)) es)
      else if bytes = 16 then Some (write_data off (le_bytes 16 (getImm128 v)) es)
      else throw)"

definition set_type :: "elem list \<Rightarrow> nat \<Rightarrow> nat \<Rightarrow> elem_type \<Rightarrow> elem list option" where
  "set_type es off bytes t =
     do { drob_assert (t = EDead \<or> t = EUnknown \<or> t = ETainted);
          Some (upd_range (\<lambda>e. e\<lparr>etype := t, edata := 0\<rparr>) off (off + bytes) es) }"

definition set_elements :: "elem list \<Rightarrow> nat \<Rightarrow> nat \<Rightarrow> dyn_value \<Rightarrow> bool \<Rightarrow> elem list option" where
  "set_elements es off bytes v cond =
     do { drob_assert (0 < bytes \<and> bytes + off \<le> length es);
          if cond then throw \<comment> \<open>Conditional setting not supported yet.\<close>
          else do {
            es \<leftarrow> mark_unknown es off bytes;
            case v of
              Ptr _ _ _ \<Rightarrow> set_ptr es off bytes v
            | Imm64 _ \<Rightarrow> set_imm es off bytes v
            | Imm128 _ \<Rightarrow> set_imm es off bytes v
            | _ \<Rightarrow> set_type es off bytes (getType v) } }"

section \<open>Reading\<close>

record scan =
  hasImm :: bool
  hasDead :: bool
  hasPtr :: bool
  hasStackPtr :: bool
  hasUnknown :: bool
  hasTainted :: bool
  isMixed :: bool

definition scan_init :: scan where
  "scan_init = \<lparr>hasImm = False, hasDead = False, hasPtr = False, hasStackPtr = False,
     hasUnknown = False, hasTainted = False, isMixed = False\<rparr>"

function scan_elements :: "elem list \<Rightarrow> nat \<Rightarrow> nat \<Rightarrow> nat \<Rightarrow> scan \<Rightarrow> scan option" where
  "scan_elements es off bytes i sc =
     (if i < bytes then
        if off + i < length es then
          case etype (es ! (off + i)) of
            EPtr StackPtr \<Rightarrow> scan_elements es off bytes (i + 8)
              (sc\<lparr>hasStackPtr := True, isMixed := isMixed sc \<or> i \<noteq> 0\<rparr>)
          | EPtr _ \<Rightarrow> scan_elements es off bytes (i + 8)
              (sc\<lparr>hasPtr := True, isMixed := isMixed sc \<or> i \<noteq> 0\<rparr>)
          | EImmediate \<Rightarrow> scan_elements es off bytes (i + 1) (sc\<lparr>hasImm := True\<rparr>)
          | EDead \<Rightarrow> scan_elements es off bytes (i + 1) (sc\<lparr>hasDead := True\<rparr>)
          | ETail \<Rightarrow> scan_elements es off bytes (i + 1) (sc\<lparr>isMixed := isMixed sc \<or> i = 0\<rparr>)
          | EStackPtrTail \<Rightarrow> scan_elements es off bytes (i + 1) (sc\<lparr>hasTainted := True\<rparr>)
          | EUnknown \<Rightarrow> scan_elements es off bytes (i + 1) (sc\<lparr>hasUnknown := True\<rparr>)
          | ETainted \<Rightarrow> scan_elements es off bytes (i + 1) (sc\<lparr>hasTainted := True\<rparr>)
        else throw
      else Some sc)"
  by pat_completeness auto
termination
  by (relation "measure (\<lambda>(es, off, bytes, i, sc). bytes - i)") auto

declare scan_elements.simps [simp del]

definition scan_count :: "scan \<Rightarrow> nat" where
  "scan_count sc = of_bool (hasImm sc) + of_bool (hasDead sc) + of_bool (hasPtr sc)
     + of_bool (hasStackPtr sc) + of_bool (hasUnknown sc) + of_bool (hasTainted sc)"

text \<open>The pointer that starts at \<open>off\<close>.\<close>

definition get_ptr :: "elem list \<Rightarrow> nat \<Rightarrow> dyn_value option" where
  "get_ptr es off =
     do { drob_assert (off + 8 \<le> length es);
          case etype (es ! off) of
            EPtr k \<Rightarrow> Some (Ptr k (ucast (enr (es ! off))) (read_data es off 8))
          | _ \<Rightarrow> throw }"

definition get_elements :: "elem list \<Rightarrow> nat \<Rightarrow> nat \<Rightarrow> dyn_value option" where
  "get_elements es off bytes =
     do { sc \<leftarrow> scan_elements es off bytes 0 scan_init;
          let mixed = isMixed sc \<or> scan_count sc > 1;
          if hasTainted sc \<or> hasStackPtr sc \<and> (mixed \<or> bytes \<noteq> 8) then Some Tainted
          else if \<not> mixed then
            if hasStackPtr sc then do { drob_assert (bytes = 8); get_ptr es off }
            else if hasPtr sc then
              if bytes \<noteq> 8 then Some Unknown else get_ptr es off
            else if hasImm sc then
              if bytes \<in> {1, 2, 4, 8} then Some (Imm64 (read_data es off bytes))
              else if bytes = 16 then Some (Imm128 (read_data es off 16))
              else throw
            else if hasDead sc then Some Dead
            else Some Unknown
          else Some Unknown }"

section \<open>Moving\<close>

text \<open>
  \<open>moveElements\<close> reads from one state and writes to another, which may be the same object
  (moves on the stack): then it reads what it has already written. \<open>alias\<close> says that
  the source is the destination.
\<close>

definition src_of :: "bool \<Rightarrow> elem list \<Rightarrow> elem list \<Rightarrow> elem list" where
  "src_of alias es1 es2 = (if alias then es2 else es1)"

definition copy_elem :: "bool \<Rightarrow> elem list \<Rightarrow> nat \<Rightarrow> nat \<Rightarrow> nat \<Rightarrow> elem list \<Rightarrow> elem list option" where
  "copy_elem alias es1 off1 off2 j es2 =
     (if off1 + j < length (src_of alias es1 es2) \<and> off2 + j < length es2
      then Some (es2[off2 + j := src_of alias es1 es2 ! (off1 + j)])
      else throw)"

text \<open>The tail end of a pointer that is not copied completely.\<close>

definition move_partial :: "ptr_kind \<Rightarrow> nat \<Rightarrow> nat \<Rightarrow> nat \<Rightarrow> elem list \<Rightarrow> elem list option" where
  "move_partial k off2 i bytes es2 =
     (if off2 + bytes \<le> length es2
      then Some (upd_range (\<lambda>e. e\<lparr>etype := (if k = StackPtr then ETainted else EUnknown)\<rparr>)
        (off2 + i) (off2 + bytes) es2)
      else throw)"

function move_loop :: "bool \<Rightarrow> elem list \<Rightarrow> nat \<Rightarrow> nat \<Rightarrow> nat \<Rightarrow> nat \<Rightarrow> elem list \<Rightarrow> elem list option" where
  "move_loop alias es1 off1 off2 bytes i es2 =
     (if i < bytes then
        if off1 + i < length (src_of alias es1 es2) \<and> off2 + i < length es2 then
          let e1 = src_of alias es1 es2 ! (off1 + i) in
          case etype e1 of
            EPtr k \<Rightarrow>
              (if bytes - i < 8 then
                 Option.bind (move_partial k off2 i bytes es2)
                   (move_loop alias es1 off1 off2 bytes (i + 8))
               else
                 Option.bind (for_each [i..<i + 8] (copy_elem alias es1 off1 off2) es2)
                   (move_loop alias es1 off1 off2 bytes (i + 8)))
          | EImmediate \<Rightarrow> move_loop alias es1 off1 off2 bytes (i + 1)
              (es2[off2 + i := (es2 ! (off2 + i))\<lparr>etype := EImmediate, edata := edata e1\<rparr>])
          | EDead \<Rightarrow> move_loop alias es1 off1 off2 bytes (i + 1)
              (es2[off2 + i := (es2 ! (off2 + i))\<lparr>etype := EDead, edata := edata e1\<rparr>])
          | ETail \<Rightarrow> move_loop alias es1 off1 off2 bytes (i + 1) (set_etype (off2 + i) EUnknown es2)
          | EUnknown \<Rightarrow> move_loop alias es1 off1 off2 bytes (i + 1) (set_etype (off2 + i) EUnknown es2)
          | EStackPtrTail \<Rightarrow> move_loop alias es1 off1 off2 bytes (i + 1) (set_etype (off2 + i) ETainted es2)
          | ETainted \<Rightarrow> move_loop alias es1 off1 off2 bytes (i + 1) (set_etype (off2 + i) ETainted es2)
        else throw
      else Some es2)"
  by pat_completeness auto
termination
  by (relation "measure (\<lambda>(alias, es1, off1, off2, bytes, i, es2). bytes - i)") auto

declare move_loop.simps [simp del]

definition move_elements ::
    "bool \<Rightarrow> elem list \<Rightarrow> nat \<Rightarrow> elem list \<Rightarrow> nat \<Rightarrow> nat \<Rightarrow> elem list option" where
  "move_elements alias es1 off1 es2 off2 bytes =
     (if off1 = off2 \<and> alias then Some es2
      else do { es2 \<leftarrow> mark_unknown es2 off2 bytes;
                move_loop alias es1 off1 off2 bytes 0 es2 })"

section \<open>Merging\<close>

definition stackish :: "elem_type \<Rightarrow> bool" where
  "stackish t \<longleftrightarrow> t = EPtr StackPtr \<or> t = EStackPtrTail \<or> t = ETainted"

text \<open>
  The loop of \<open>mergeElements\<close>: the flag says whether the left side lost information.
  Comparing two pointers reads eight data bytes of each side.
\<close>

function merge_loop :: "elem list \<Rightarrow> nat \<Rightarrow> bool \<Rightarrow> elem list \<Rightarrow> (bool \<times> elem list) option" where
  "merge_loop rhs i diff lhs =
     (if i < length lhs then
        let l = lhs ! i; r = rhs ! i in
        if etype l = etype r then
          if is_head (etype l) then
            if i + 8 \<le> length lhs then
              if enr l \<noteq> enr r \<or> (read_data lhs i 8 :: u64) \<noteq> read_data rhs i 8 then
                merge_loop rhs (i + 8) True
                  (clear_tail_loop
                    (set_etype i (if etype l = EPtr StackPtr then ETainted else EUnknown) lhs) (Suc i))
              else merge_loop rhs (i + 8) diff lhs
            else throw
          else if etype l = EImmediate \<and> edata l \<noteq> edata r then
            merge_loop rhs (i + 1) True (set_etype i EUnknown lhs)
          else merge_loop rhs (i + 1) diff lhs
        else if etype l = EDead \<and> etype r = EUnknown \<or> etype l = EUnknown \<and> etype r = EDead then
          merge_loop rhs (i + 1) diff (set_etype i EDead lhs)
        else if stackish (etype l) \<or> stackish (etype r) then
          if etype l \<noteq> ETainted then merge_loop rhs (i + 1) True (set_etype i ETainted lhs)
          else merge_loop rhs (i + 1) diff lhs
        else if etype l \<noteq> EUnknown then merge_loop rhs (i + 1) True (set_etype i EUnknown lhs)
        else merge_loop rhs (i + 1) diff lhs
      else Some (diff, lhs))"
  by pat_completeness auto
termination
  by (relation "measure (\<lambda>(rhs, i, diff, lhs). length lhs - i)") auto

declare merge_loop.simps [simp del]

definition merge_elements :: "elem list \<Rightarrow> elem list \<Rightarrow> (bool \<times> elem list) option" where
  "merge_elements lhs rhs =
     do { drob_assert (length lhs = length rhs); merge_loop rhs 0 False lhs }"

end
