(* ===== verification/Elements_Sound.thy ===== *)
theory Elements_Sound
  imports Elements
begin

text \<open>
  What the tracked bytes promise. \<open>wf_elems\<close> is the shape the operations rely on: every
  pointer is followed by its seven tails, every tail belongs to a pointer. \<open>conc\<close> relates
  an element array to the bytes it describes: an immediate is that byte, a pointer is the
  little-endian value of its base address plus its offset, everything else is unconstrained.
  The lemmas show that invalidating, writing, reading, moving and merging keep the shape and
  never claim a byte that is wrong.
\<close>

section \<open>Ranges\<close>

lemma nth_upd_range:
  "i < length es \<Longrightarrow> upd_range f a b es ! i = (if a \<le> i \<and> i < b then f (es ! i) else es ! i)"
  by (simp add: upd_range_def)

lemma nth_write_data:
  "i < length es \<Longrightarrow> write_data off bs es ! i =
    (if off \<le> i \<and> i < off + length bs then (es ! i)\<lparr>edata := bs ! (i - off)\<rparr> else es ! i)"
  by (simp add: write_data_def)

lemma nth_set_etype:
  "i < length es \<Longrightarrow> set_etype j t es ! i = (if i = j then (es ! i)\<lparr>etype := t\<rparr> else es ! i)"
  by (auto simp: set_etype_def)

lemmas nth_simps [elem_simps] = nth_upd_range nth_write_data nth_set_etype

lemma upd_range_empty: "b \<le> a \<Longrightarrow> upd_range f a b es = es"
  by (rule nth_equalityI) (auto simp: nth_upd_range)

lemma upd_range_single:
  "upd_range f a (Suc a) es = es[a := f (es ! a)]"
  by (rule nth_equalityI) (auto simp: nth_upd_range nth_list_update less_Suc_eq_le dest: le_antisym)

lemma upd_range_step:
  "a < b \<Longrightarrow> upd_range f (Suc a) b (upd_range f a (Suc a) es) = upd_range f a b es"
  by (rule nth_equalityI) (auto simp: nth_upd_range)

lemma upd_range_Suc:
  "a \<le> b \<Longrightarrow> upd_range f b (Suc b) (upd_range f a b es) = upd_range f a (Suc b) es"
  by (rule nth_equalityI) (auto simp: nth_upd_range)

section \<open>The shape of an element array\<close>

definition head_at :: "elem list \<Rightarrow> nat \<Rightarrow> bool" where
  "head_at es i \<longleftrightarrow> i < length es \<and> is_head (etype (es ! i))"

definition tail_at :: "elem list \<Rightarrow> nat \<Rightarrow> bool" where
  "tail_at es i \<longleftrightarrow> i < length es \<and> is_tail (etype (es ! i))"

fun tail_type :: "elem_type \<Rightarrow> elem_type" where
  "tail_type (EPtr k) = tail_of k"
| "tail_type t = t"

definition wf_head :: "elem list \<Rightarrow> nat \<Rightarrow> bool" where
  "wf_head es i \<longleftrightarrow> i + 8 \<le> length es \<and>
     list_all (\<lambda>j. etype (es ! (i + j)) = tail_type (etype (es ! i))) [1..<8]"

definition wf_tail :: "elem list \<Rightarrow> nat \<Rightarrow> bool" where
  "wf_tail es i \<longleftrightarrow> list_ex (\<lambda>j. j \<le> i \<and> head_at es (i - j)) [1..<8]"

definition wf_elems :: "elem list \<Rightarrow> bool" where
  "wf_elems es \<longleftrightarrow>
     list_all (\<lambda>i. (head_at es i \<longrightarrow> wf_head es i) \<and> (tail_at es i \<longrightarrow> wf_tail es i)) [0..<length es]"

lemma is_tail_tail_of [simp]: "is_tail (tail_of k)" "\<not> is_head (tail_of k)"
  by (simp_all add: tail_of_def)

lemma not_tail_head: "is_tail t \<Longrightarrow> \<not> is_head t"
  by (cases t) auto

lemma wf_elems_iff:
  "wf_elems es \<longleftrightarrow> (\<forall>i. head_at es i \<longrightarrow> wf_head es i) \<and> (\<forall>i. tail_at es i \<longrightarrow> wf_tail es i)"
  by (auto simp: wf_elems_def list_all_iff head_at_def tail_at_def)

lemma wf_head_tails:
  assumes "wf_elems es" and "head_at es p" and "p < i" and "i < p + 8"
  shows "i < length es" and "etype (es ! i) = tail_type (etype (es ! p))" and "tail_at es i" and "\<not> head_at es i"
proof -
  have w: "wf_head es p" using assms by (simp add: wf_elems_iff)
  then show l: "i < length es" using assms by (simp add: wf_head_def)
  have "i - p \<in> set [1..<8]" using assms by auto
  moreover have "list_all (\<lambda>j. etype (es ! (p + j)) = tail_type (etype (es ! p))) [1..<8]"
    using w unfolding wf_head_def by (rule conjunct2)
  ultimately have "etype (es ! (p + (i - p))) = tail_type (etype (es ! p))"
    unfolding list_all_iff by (rule bspec [rotated])
  then show t: "etype (es ! i) = tail_type (etype (es ! p))" using assms(3) by simp
  obtain k where "etype (es ! p) = EPtr k"
    using assms(2) by (cases "etype (es ! p)") (auto simp: head_at_def)
  then show "tail_at es i" "\<not> head_at es i" using l t by (simp_all add: tail_at_def head_at_def)
qed

lemma wf_head_room: "wf_elems es \<Longrightarrow> head_at es p \<Longrightarrow> p + 8 \<le> length es"
  by (auto simp: wf_elems_iff wf_head_def)

lemma wf_tail_owner:
  assumes "wf_elems es" and "tail_at es i"
  shows "\<exists>p. head_at es p \<and> p < i \<and> i < p + 8"
proof -
  have "wf_tail es i" using assms by (simp add: wf_elems_iff)
  then obtain j where "j \<in> set [1..<8]" "j \<le> i" "head_at es (i - j)"
    by (auto simp: wf_tail_def list_ex_iff)
  then show ?thesis by (intro exI[of _ "i - j"]) auto
qed

text \<open>Establishing the shape, in the form the proofs below use.\<close>

lemma wf_elemsI:
  assumes h: "\<And>i k. i < length es \<Longrightarrow> etype (es ! i) = EPtr k \<Longrightarrow>
      i + 8 \<le> length es \<and> (\<forall>j. i < j \<and> j < i + 8 \<longrightarrow> etype (es ! j) = tail_of k)"
    and t: "\<And>i. i < length es \<Longrightarrow> is_tail (etype (es ! i)) \<Longrightarrow>
      \<exists>p. head_at es p \<and> p < i \<and> i < p + 8"
  shows "wf_elems es"
  unfolding wf_elems_iff
proof (intro conjI allI impI)
  fix i
  assume "head_at es i"
  then obtain k where k: "i < length es" "etype (es ! i) = EPtr k"
    by (cases "etype (es ! i)") (auto simp: head_at_def)
  show "wf_head es i"
    using h[OF k] k by (auto simp: wf_head_def list_all_iff)
next
  fix i
  assume "tail_at es i"
  then obtain p where p: "head_at es p" "p < i" "i < p + 8"
    using t by (auto simp: tail_at_def)
  then show "wf_tail es i"
    by (auto simp: wf_tail_def list_ex_iff intro!: bexI[of _ "i - p"])
qed

section \<open>Invalidating a pointer\<close>

fun cleared :: "elem_type \<Rightarrow> elem_type" where
  "cleared (EPtr k) = (if k = StackPtr then ETainted else EUnknown)"
| "cleared ETail = EUnknown"
| "cleared EStackPtrTail = ETainted"
| "cleared t = t"

definition clr :: "elem \<Rightarrow> elem" where
  "clr e = e\<lparr>etype := cleared (etype e)\<rparr>"

lemma clr_simps [simp]:
  "etype (clr e) = cleared (etype e)" "enr (clr e) = enr e" "edata (clr e) = edata e"
  by (simp_all add: clr_def)

lemma cleared_plain [simp]: "\<not> is_tail (cleared t)" "\<not> is_head (cleared t)"
  by (cases t; simp)+

lemma set_etype_clr:
  "k < length es \<Longrightarrow> cleared (etype (es ! k)) = t \<Longrightarrow> set_etype k t es = upd_range clr k (Suc k) es"
  by (rule nth_equalityI) (auto simp: elem_simps clr_def)

lemma clear_tail_loop_range:
  assumes "k \<le> e" and "e \<le> length es" and "\<And>j. k \<le> j \<Longrightarrow> j < e \<Longrightarrow> is_tail (etype (es ! j))"
    and "e < length es \<Longrightarrow> \<not> is_tail (etype (es ! e))"
  shows "clear_tail_loop es k = upd_range clr k e es"
  using assms
proof (induction es k rule: clear_tail_loop.induct)
  case (1 es k)
  show ?case
  proof (cases "k < e")
    case False
    then have "k = e" using "1.prems" by simp
    then show ?thesis
      using "1.prems"(4) by (subst clear_tail_loop.simps) (auto simp: upd_range_empty split: elem_type.split)
  next
    case True
    then have k: "k < length es" using "1.prems" by simp
    have tk: "is_tail (etype (es ! k))" using "1.prems"(3)[of k] True by simp
    let ?es = "set_etype k (cleared (etype (es ! k))) es"
    have "clear_tail_loop es k = clear_tail_loop ?es (Suc k)"
      using k tk by (subst clear_tail_loop.simps) (cases "etype (es ! k)"; simp)
    also have "clear_tail_loop ?es (Suc k) = upd_range clr (Suc k) e ?es"
    proof (cases "etype (es ! k)")
      case ETail
      then show ?thesis using "1.IH"(1)[OF k] "1.prems" True by (auto simp: nth_set_etype)
    next
      case EStackPtrTail
      then show ?thesis using "1.IH"(2)[OF k] "1.prems" True by (auto simp: nth_set_etype)
    qed (use tk in simp_all)
    also have "\<dots> = upd_range clr k e es"
      using k True by (simp add: set_etype_clr upd_range_step)
    finally show ?thesis .
  qed
qed

lemma wf_after_tails:
  assumes "wf_elems es" and "head_at es p" and "p + 8 < length es"
  shows "\<not> is_tail (etype (es ! (p + 8)))"
proof
  assume "is_tail (etype (es ! (p + 8)))"
  then have "tail_at es (p + 8)" using assms by (simp add: tail_at_def)
  then obtain q where q: "head_at es q" "q < p + 8" "p + 8 < q + 8"
    using wf_tail_owner[OF assms(1)] by blast
  then have "p < q" "q < p + 8" by simp_all
  then show False using wf_head_tails(4)[OF assms(1,2)] q by blast
qed

lemma clear_pointer:
  assumes "wf_elems es" and "head_at es p"
  shows "clear_tail_loop (set_etype p (if etype (es ! p) = EPtr StackPtr then ETainted else EUnknown) es)
      (Suc p) = upd_range clr p (p + 8) es"
proof -
  obtain k where k: "etype (es ! p) = EPtr k" and p: "p < length es"
    using assms(2) by (cases "etype (es ! p)") (auto simp: head_at_def)
  let ?es = "set_etype p (cleared (etype (es ! p))) es"
  have room: "p + 8 \<le> length es" using wf_head_room[OF assms] .
  have "clear_tail_loop ?es (Suc p) = upd_range clr (Suc p) (p + 8) ?es"
  proof (rule clear_tail_loop_range)
    fix j
    assume "Suc p \<le> j" "j < p + 8"
    then show "is_tail (etype (?es ! j))"
      using wf_head_tails[OF assms, of j] by (auto simp: nth_set_etype tail_at_def)
  qed (use room wf_after_tails[OF assms] in \<open>auto simp: nth_set_etype\<close>)
  also have "\<dots> = upd_range clr p (p + 8) es"
    using p by (simp add: set_etype_clr upd_range_step)
  finally show ?thesis by (simp add: k)
qed

lemma clear_tail_pointer:
  "wf_elems es \<Longrightarrow> head_at es p \<Longrightarrow> clear_tail es p = Some (upd_range clr p (p + 8) es)"
  using clear_pointer by (auto simp: clear_tail_def head_at_def)

lemma find_parent_owner:
  assumes "p < i" and "\<And>j. p < j \<Longrightarrow> j < i \<Longrightarrow> is_tail (etype (es ! j))" and "\<not> is_tail (etype (es ! p))"
  shows "find_parent es i = Some p"
  using assms
proof (induction i)
  case (Suc i)
  then show ?case by (cases "p = i") auto
qed simp

section \<open>Invalidating a range\<close>

definition unk :: "elem \<Rightarrow> elem" where
  "unk e = (if etype e = EDead \<or> etype e = EImmediate then e\<lparr>etype := EUnknown\<rparr> else e)"

text \<open>No pointer starts inside the range, other than at its first byte.\<close>

definition no_inner_head :: "elem list \<Rightarrow> nat \<Rightarrow> nat \<Rightarrow> bool" where
  "no_inner_head es off n \<longleftrightarrow> list_all (\<lambda>i. \<not> head_at es i) [off + 1..<off + n]"

text \<open>The array with the pointer that covers the element at \<open>off\<close> cleared, if there is one.\<close>

definition owner_cleared :: "elem list \<Rightarrow> nat \<Rightarrow> elem list \<Rightarrow> bool" where
  "owner_cleared es off es' \<longleftrightarrow>
     (\<exists>p. head_at es p \<and> p \<le> off \<and> off < p + 8 \<and> es' = upd_range clr p (p + 8) es) \<or>
     (\<not> head_at es off \<and> \<not> tail_at es off \<and> es' = es)"

lemma mark_unknown_at_plain:
  assumes "off + i < length es" and "\<not> is_head (etype (es ! (off + i)))" and "\<not> is_tail (etype (es ! (off + i)))"
  shows "mark_unknown_at off i es = Some (upd_range unk (off + i) (Suc (off + i)) es)"
  using assms
  by (cases "etype (es ! (off + i))")
    (simp_all add: mark_unknown_at_def upd_range_single set_etype_def unk_def)

lemma unk_clr: "is_head (etype e) \<or> is_tail (etype e) \<Longrightarrow> unk (clr e) = clr e"
  by (cases "etype e") (auto simp: unk_def)

lemma mark_unknown_at_0:
  assumes wf: "wf_elems es" and off: "off < length es"
  shows "\<exists>es1. owner_cleared es off es1 \<and>
    mark_unknown_at off 0 es = Some (upd_range unk off (Suc off) es1)"
proof -
  have id: "upd_range unk off (Suc off) (upd_range clr p (p + 8) es) = upd_range clr p (p + 8) es"
    if "p \<le> off" "off < p + 8" "is_head (etype (es ! off)) \<or> is_tail (etype (es ! off))" for p
    using that off by (simp add: upd_range_single nth_upd_range unk_clr list_update_same_conv)
  consider (head) "head_at es off" | (tail) "tail_at es off" | (plain) "\<not> head_at es off" "\<not> tail_at es off"
    by blast
  then show ?thesis
  proof cases
    case head
    then have "mark_unknown_at off 0 es = clear_tail es off"
      by (cases "etype (es ! off)") (auto simp: head_at_def mark_unknown_at_def)
    then show ?thesis
      using head id[of off] clear_tail_pointer[OF wf head]
      by (intro exI[of _ "upd_range clr off (off + 8) es"]) (auto simp: owner_cleared_def head_at_def)
  next
    case tail
    then obtain p where p: "head_at es p" "p < off" "off < p + 8"
      using wf_tail_owner[OF wf] by blast
    have "find_parent es off = Some p"
    proof (rule find_parent_owner)
      fix j assume "p < j" "j < off"
      then show "is_tail (etype (es ! j))"
        using wf_head_tails(3)[OF wf p(1), of j] p(3) by (simp add: tail_at_def)
    qed (use p in \<open>auto simp: head_at_def dest: not_tail_head\<close>)
    then have "mark_unknown_at off 0 es = clear_tail es p"
      using tail by (cases "etype (es ! off)") (auto simp: tail_at_def mark_unknown_at_def)
    then show ?thesis
      using p tail id[of p] clear_tail_pointer[OF wf p(1)]
      by (intro exI[of _ "upd_range clr p (p + 8) es"]) (auto simp: owner_cleared_def tail_at_def)
  next
    case plain
    then have "mark_unknown_at off 0 es = Some (upd_range unk off (Suc off) es)"
      using off mark_unknown_at_plain[of off 0 es] by (auto simp: head_at_def tail_at_def)
    then show ?thesis using plain by (auto simp: owner_cleared_def)
  qed
qed

lemma owner_cleared_plain:
  assumes wf: "wf_elems es" and own: "owner_cleared es off es1" and inner: "no_inner_head es off n"
    and j: "off \<le> j" "j < off + n" "j < length es"
  shows "\<not> is_head (etype (es1 ! j)) \<and> \<not> is_tail (etype (es1 ! j))"
proof -
  have nohead: "\<not> head_at es q" if "off < q" "q < off + n" for q
    using inner that by (auto simp: no_inner_head_def list_all_iff)
  show ?thesis
    using own unfolding owner_cleared_def
  proof (elim disjE exE conjE)
    fix p
    assume p: "head_at es p" "p \<le> off" "off < p + 8" "es1 = upd_range clr p (p + 8) es"
    show ?thesis
    proof (cases "j < p + 8")
      case False
      have "\<not> tail_at es j"
      proof
        assume "tail_at es j"
        then obtain q where q: "head_at es q" "q < j" "j < q + 8" using wf_tail_owner[OF wf] by blast
        moreover have "\<not> (p < q \<and> q < p + 8)" using wf_head_tails(4)[OF wf p(1)] q(1) by blast
        ultimately show False using nohead[of q] False p(2,3) j by linarith
      qed
      then show ?thesis using p j False nohead[of j]
        by (auto simp: nth_upd_range head_at_def tail_at_def)
    qed (use p j in \<open>simp add: nth_upd_range\<close>)
  next
    assume n: "\<not> head_at es off" "\<not> tail_at es off" "es1 = es"
    have "\<not> tail_at es j"
    proof
      assume "tail_at es j"
      then obtain q where q: "head_at es q" "q < j" "j < q + 8" using wf_tail_owner[OF wf] by blast
      have "\<not> (q < off \<and> off < q + 8)" using wf_head_tails(3)[OF wf q(1)] n(2) by blast
      then show False
      proof (cases q off rule: linorder_cases)
        case less
        then show False using \<open>\<not> (q < off \<and> off < q + 8)\<close> q j by linarith
      next
        case equal
        then show False using n(1) q(1) by simp
      next
        case greater
        then show False using nohead[of q] q j by linarith
      qed
    qed
    moreover have "\<not> head_at es j" using nohead[of j] n(1) j by (cases "j = off") auto
    ultimately show ?thesis using n j by (auto simp: head_at_def tail_at_def)
  qed
qed

lemma mark_unknown_range:
  assumes wf: "wf_elems es" and n: "0 < n" "off + n \<le> length es" and inner: "no_inner_head es off n"
  shows "\<exists>es1. owner_cleared es off es1 \<and> mark_unknown es off n = Some (upd_range unk off (off + n) es1)"
proof -
  obtain es1 where own: "owner_cleared es off es1"
    and first: "mark_unknown_at off 0 es = Some (upd_range unk off (Suc off) es1)"
    using mark_unknown_at_0[OF wf, of off] n by auto
  have len: "length es1 = length es" using own by (auto simp: owner_cleared_def)
  have "for_each [0..<Suc m] (mark_unknown_at off) es = Some (upd_range unk off (off + Suc m) es1)"
    if "Suc m \<le> n" for m
    using that
  proof (induction m)
    case 0
    show ?case using first by simp
  next
    case (Suc m)
    let ?es = "upd_range unk off (off + Suc m) es1"
    have "\<not> is_head (etype (?es ! (off + Suc m))) \<and> \<not> is_tail (etype (?es ! (off + Suc m)))"
      using owner_cleared_plain[OF wf own inner, of "off + Suc m"] Suc.prems n len
      by (simp add: nth_upd_range)
    then have "mark_unknown_at off (Suc m) ?es =
        Some (upd_range unk (off + Suc m) (Suc (off + Suc m)) ?es)"
      using mark_unknown_at_plain[of off "Suc m" ?es] Suc.prems n len by simp
    moreover have "[0..<Suc (Suc m)] = [0..<Suc m] @ [Suc m]" by simp
    ultimately show ?case
      using Suc by (simp add: for_each_append upd_range_Suc del: upt_Suc)
  qed
  from this[of "n - 1"] n own show ?thesis by (auto simp: mark_unknown_def)
qed

text \<open>The elements an update at \<open>off\<close> touches: the range, and the pointer it cuts into.\<close>

definition erased :: "elem list \<Rightarrow> nat \<Rightarrow> nat \<Rightarrow> nat \<Rightarrow> bool" where
  "erased es off n i \<longleftrightarrow> off \<le> i \<and> i < off + n \<or>
     (\<exists>p. head_at es p \<and> p \<le> off \<and> off < p + 8 \<and> p \<le> i \<and> i < p + 8)"

definition plain :: "elem \<Rightarrow> bool" where
  "plain e \<longleftrightarrow> \<not> is_head (etype e) \<and> \<not> is_tail (etype e)"

lemma owner_unique:
  assumes "wf_elems es" and "head_at es p" "p \<le> off" "off < p + 8" and "head_at es q" "q \<le> off" "off < q + 8"
  shows "p = q"
proof -
  have "\<not> (p < q \<and> q < p + 8)" using wf_head_tails(4)[OF assms(1,2), of q] assms(5) by blast
  moreover have "\<not> (q < p \<and> p < q + 8)" using wf_head_tails(4)[OF assms(1,5), of p] assms(2) by blast
  ultimately show ?thesis using assms(3,4,6,7) by linarith
qed

lemma unk_clr_type:
  "etype (unk e) = EUnknown \<or> etype (unk e) = ETainted \<or> is_head (etype e) \<or> is_tail (etype e)"
  "etype (clr e) = EUnknown \<or> etype (clr e) = ETainted \<or> \<not> is_head (etype e) \<and> \<not> is_tail (etype e)"
  "stackish (etype e) \<Longrightarrow> stackish (etype (unk e))" "stackish (etype e) \<Longrightarrow> etype (clr e) = ETainted"
  by (cases "etype e"; auto simp: unk_def stackish_def)+

lemma mark_unknown_spec:
  assumes wf: "wf_elems es" and n: "0 < n" "off + n \<le> length es" and inner: "no_inner_head es off n"
  shows "\<exists>es'. mark_unknown es off n = Some es' \<and> length es' = length es \<and>
    (\<forall>i < length es. \<not> erased es off n i \<longrightarrow> es' ! i = es ! i) \<and>
    (\<forall>i < length es. erased es off n i \<longrightarrow> etype (es' ! i) = EUnknown \<or> etype (es' ! i) = ETainted) \<and>
    (\<forall>i < length es. stackish (etype (es ! i)) \<longrightarrow> stackish (etype (es' ! i)))"
proof -
  obtain es1 where own: "owner_cleared es off es1"
    and mk: "mark_unknown es off n = Some (upd_range unk off (off + n) es1)"
    using mark_unknown_range[OF assms] by blast
  let ?es = "upd_range unk off (off + n) es1"
  have len: "length es1 = length es" using own by (auto simp: owner_cleared_def)
  have out: "es1 ! i = es ! i" if "i < length es" "\<not> erased es off n i" for i
    using own that by (auto simp: owner_cleared_def erased_def nth_upd_range)
  have reg: "etype (es1 ! i) = EUnknown \<or> etype (es1 ! i) = ETainted"
    if "i < length es" "erased es off n i" "\<not> (off \<le> i \<and> i < off + n)" for i
  proof -
    note hyp = that
    obtain p where p: "head_at es p" "p \<le> off" "off < p + 8" "p \<le> i" "i < p + 8"
      using hyp unfolding erased_def by blast
    have "head_at es off \<or> tail_at es off"
      using p wf_head_tails(3)[OF wf p(1), of off] by (cases "p = off") auto
    then have "es1 = upd_range clr p (p + 8) es"
      using own owner_unique[OF wf p(1-3)] unfolding owner_cleared_def by blast
    moreover have "is_head (etype (es ! i)) \<or> is_tail (etype (es ! i))"
      using p wf_head_tails(3)[OF wf p(1), of i] by (cases "p = i") (auto simp: head_at_def tail_at_def)
    ultimately show ?thesis using unk_clr_type(2)[of "es ! i"] p hyp by (auto simp: nth_upd_range)
  qed
  have st1: "stackish (etype (es1 ! i))" if "i < length es" "stackish (etype (es ! i))" for i
    using own that unk_clr_type(4)[OF that(2)]
    by (auto simp: owner_cleared_def nth_upd_range stackish_def split: if_splits)
  have rng: "etype (?es ! i) = EUnknown \<or> etype (?es ! i) = ETainted"
    if "i < length es" "off \<le> i" "i < off + n" for i
    using owner_cleared_plain[OF wf own inner that(2,3,1)] unk_clr_type(1)[of "es1 ! i"] that len
    by (simp add: nth_upd_range)
  have "\<forall>i < length es. \<not> erased es off n i \<longrightarrow> ?es ! i = es ! i"
    using out len by (auto simp: nth_upd_range) (auto simp: erased_def)
  moreover have "\<forall>i < length es. erased es off n i \<longrightarrow> etype (?es ! i) = EUnknown \<or> etype (?es ! i) = ETainted"
  proof (intro allI impI)
    fix i assume i: "i < length es" "erased es off n i"
    show "etype (?es ! i) = EUnknown \<or> etype (?es ! i) = ETainted"
    proof (cases "off \<le> i \<and> i < off + n")
      case False
      then have "?es ! i = es1 ! i" using i len by (auto simp: nth_upd_range)
      then show ?thesis using reg[OF i False] by simp
    qed (use rng[OF i(1)] in blast)
  qed
  moreover have "\<forall>i < length es. stackish (etype (es ! i)) \<longrightarrow> stackish (etype (?es ! i))"
    using st1 len unk_clr_type(3) by (simp add: nth_upd_range)
  ultimately show ?thesis using mk len by auto
qed

section \<open>Overwriting keeps the shape\<close>

text \<open>A set of elements that holds all of a pointer or nothing of it.\<close>

definition closed_set :: "elem list \<Rightarrow> (nat \<Rightarrow> bool) \<Rightarrow> bool" where
  "closed_set es S \<longleftrightarrow>
     (\<forall>p. head_at es p \<longrightarrow> (\<forall>i. p \<le> i \<and> i < p + 8 \<longrightarrow> (S i \<longleftrightarrow> S p)))"

lemma closed_setD:
  "closed_set es S \<Longrightarrow> head_at es p \<Longrightarrow> p \<le> i \<Longrightarrow> i < p + 8 \<Longrightarrow> S i \<longleftrightarrow> S p"
  unfolding closed_set_def by blast

lemma closed_erased:
  assumes wf: "wf_elems es" and inner: "no_inner_head es off n"
  shows "closed_set es (erased es off n)"
  unfolding closed_set_def
proof (intro allI impI)
  fix p i
  assume p: "head_at es p" and i: "p \<le> i \<and> i < p + 8"
  have nohead: "\<not> (off < p \<and> p < off + n)"
    using inner p by (auto simp: no_inner_head_def list_all_iff)
  have other: "q = p" if "head_at es q" "q \<le> j" "j < q + 8" "p \<le> j" "j < p + 8" for q j
    using owner_unique[OF wf that(1-3) p that(4,5)] .
  show "erased es off n i \<longleftrightarrow> erased es off n p"
  proof
    assume "erased es off n i"
    then consider (range) "off \<le> i" "i < off + n"
      | (own) q where "head_at es q" "q \<le> off" "off < q + 8" "q \<le> i" "i < q + 8"
      by (auto simp: erased_def)
    then show "erased es off n p"
    proof cases
      case range
      then show ?thesis using nohead i p by (auto simp: erased_def)
    next
      case own
      then have "q = p" using other[of q i] i by simp
      then show ?thesis using own by (auto simp: erased_def)
    qed
  next
    assume "erased es off n p"
    then consider (at) "off = p" "0 < n" | (inner) "off < p" "p < off + n"
      | (own) q where "head_at es q" "q \<le> off" "off < q + 8" "q \<le> p" "p < q + 8"
      unfolding erased_def by (metis add.right_neutral le_neq_implies_less neq0_conv not_less)
    then show "erased es off n i"
    proof cases
      case at
      then show ?thesis using p i by (auto simp: erased_def)
    next
      case inner
      then show ?thesis using nohead by simp
    next
      case own
      then have "q = p" using other[of q p] by simp
      then show ?thesis using own p i by (auto simp: erased_def)
    qed
  qed
qed

lemma wf_overwrite:
  assumes wf: "wf_elems es" and len: "length es' = length es" and cl: "closed_set es S"
    and out: "\<And>i. i < length es \<Longrightarrow> \<not> S i \<Longrightarrow> etype (es' ! i) = etype (es ! i)"
    and ins: "\<And>i. i < length es \<Longrightarrow> S i \<Longrightarrow> plain (es' ! i)"
  shows "wf_elems es'"
proof (rule wf_elemsI)
  fix i k
  assume i: "i < length es'" "etype (es' ! i) = EPtr k"
  then have nS: "\<not> S i" using ins[of i] len by (auto simp: plain_def)
  then have h: "head_at es i" using i out len by (auto simp: head_at_def)
  have k: "etype (es ! i) = EPtr k" using i out nS len by simp
  show "i + 8 \<le> length es' \<and> (\<forall>j. i < j \<and> j < i + 8 \<longrightarrow> etype (es' ! j) = tail_of k)"
  proof (intro conjI allI impI)
    show "i + 8 \<le> length es'" using wf_head_room[OF wf h] len by simp
    fix j assume j: "i < j \<and> j < i + 8"
    have "\<not> S j" using closed_setD[OF cl h, of j] nS j by simp
    then show "etype (es' ! j) = tail_of k"
      using wf_head_tails(1,2)[OF wf h, of j] j k out[of j] by simp
  qed
next
  fix i
  assume i: "i < length es'" "is_tail (etype (es' ! i))"
  then have nS: "\<not> S i" using ins[of i] len by (auto simp: plain_def)
  then have "tail_at es i" using i out len by (simp add: tail_at_def)
  then obtain p where p: "head_at es p" "p < i" "i < p + 8" using wf_tail_owner[OF wf] by blast
  have "\<not> S p" using closed_setD[OF cl p(1), of i] nS p by simp
  then have "head_at es' p" using p(1) out len by (simp add: head_at_def)
  with p show "\<exists>p. head_at es' p \<and> p < i \<and> i < p + 8" by blast
qed

text \<open>A new pointer on plain elements.\<close>

lemma wf_install:
  assumes wf: "wf_elems es" and len: "length es' = length es" and room: "off + 8 \<le> length es"
    and was: "\<And>i. off \<le> i \<Longrightarrow> i < off + 8 \<Longrightarrow> plain (es ! i)"
    and out: "\<And>i. i < length es \<Longrightarrow> \<not> (off \<le> i \<and> i < off + 8) \<Longrightarrow> etype (es' ! i) = etype (es ! i)"
    and hd: "etype (es' ! off) = EPtr k"
    and tl: "\<And>i. off < i \<Longrightarrow> i < off + 8 \<Longrightarrow> etype (es' ! i) = tail_of k"
  shows "wf_elems es'"
proof (rule wf_elemsI)
  fix i k'
  assume i: "i < length es'" "etype (es' ! i) = EPtr k'"
  show "i + 8 \<le> length es' \<and> (\<forall>j. i < j \<and> j < i + 8 \<longrightarrow> etype (es' ! j) = tail_of k')"
  proof (cases "off \<le> i \<and> i < off + 8")
    case True
    have "\<not> off < i"
    proof
      assume "off < i"
      then have "EPtr k' = tail_of k" using tl[of i] i(2) True by simp
      then show False by (cases k) (auto simp: tail_of_def)
    qed
    then have "i = off" using True by simp
    then show ?thesis using room len i hd tl by simp
  next
    case False
    then have e: "etype (es ! i) = EPtr k'" and h: "head_at es i"
      using i out len by (auto simp: head_at_def)
    have tails: "tail_at es j" "etype (es ! j) = tail_of k'" if "i < j" "j < i + 8" for j
      using wf_head_tails(2,3)[OF wf h that] e by simp_all
    have "\<not> (off \<le> j \<and> j < off + 8)" if "i < j" "j < i + 8" for j
      using was[of j] tails(1)[OF that] by (auto simp: plain_def tail_at_def)
    then show ?thesis
      using wf_head_room[OF wf h] len tails out wf_head_tails(1)[OF wf h] by simp
  qed
next
  fix i
  assume i: "i < length es'" "is_tail (etype (es' ! i))"
  show "\<exists>p. head_at es' p \<and> p < i \<and> i < p + 8"
  proof (cases "off \<le> i \<and> i < off + 8")
    case True
    then show ?thesis using hd i room len
      by (intro exI[of _ off]) (auto simp: head_at_def le_less)
  next
    case False
    then have "tail_at es i" using i out len by (simp add: tail_at_def)
    then obtain p where p: "head_at es p" "p < i" "i < p + 8" using wf_tail_owner[OF wf] by blast
    have "\<not> (off \<le> p \<and> p < off + 8)" using was[of p] p(1) by (auto simp: plain_def head_at_def)
    then have "head_at es' p" using p(1) out len by (simp add: head_at_def)
    with p show ?thesis by blast
  qed
qed

end
