(* ===== verification/Elements_Conc.thy ===== *)
theory Elements_Conc
  imports Elements_Sound
begin

text \<open>
  The bytes an element array describes, and the soundness of writing and reading it.
\<close>

section \<open>Concrete bytes\<close>

definition conc_at :: "base \<Rightarrow> elem list \<Rightarrow> byte list \<Rightarrow> nat \<Rightarrow> bool" where
  "conc_at base es cs i =
     (case etype (es ! i) of
        EImmediate \<Rightarrow> cs ! i = edata (es ! i)
      | EPtr k \<Rightarrow> (le_word (segment cs i 8) :: u64) = base k (ucast (enr (es ! i))) + read_data es i 8
      | _ \<Rightarrow> True)"

definition conc :: "base \<Rightarrow> elem list \<Rightarrow> byte list \<Rightarrow> bool" where
  "conc base es cs \<longleftrightarrow> length cs = length es \<and> list_all (conc_at base es cs) [0..<length es]"

lemma concD: "conc base es cs \<Longrightarrow> i < length es \<Longrightarrow> conc_at base es cs i"
  by (simp add: conc_def list_all_iff)

lemma concI:
  "length cs = length es \<Longrightarrow> (\<And>i. i < length es \<Longrightarrow> conc_at base es cs i) \<Longrightarrow> conc base es cs"
  by (simp add: conc_def list_all_iff)

text \<open>The bytes a value of \<open>n\<close> bytes allows.\<close>

definition bytes_conc :: "base \<Rightarrow> dyn_value \<Rightarrow> byte list \<Rightarrow> bool" where
  "bytes_conc base v bs =
     (case v of
        Imm64 w \<Rightarrow> bs = le_bytes (length bs) w
      | Imm128 w \<Rightarrow> bs = le_bytes (length bs) w
      | Ptr k nr off \<Rightarrow> length bs = 8 \<and> le_word bs = base k nr + off
      | _ \<Rightarrow> True)"

lemma conc_at_cong:
  assumes "es' ! i = es ! i" and "cs' ! i = cs ! i"
    and "\<And>k. etype (es ! i) = EPtr k \<Longrightarrow>
      segment cs' i 8 = segment cs i 8 \<and> (read_data es' i 8 :: u64) = read_data es i 8"
  shows "conc_at base es' cs' i = conc_at base es cs i"
  using assms by (auto simp: conc_at_def split: elem_type.split)

lemma read_data_cong:
  "(\<And>j. j < n \<Longrightarrow> edata (es' ! (i + j)) = edata (es ! (i + j))) \<Longrightarrow>
   i + n \<le> length es \<Longrightarrow> length es' = length es \<Longrightarrow> read_data es' i n = read_data es i n"
  unfolding read_data_def by (rule arg_cong[of _ _ le_word]) (rule nth_equalityI; simp)

lemma conc_overwrite:
  assumes wf: "wf_elems es" and len: "length es' = length es" "length cs' = length cs"
    and cl: "closed_set es S" and c: "conc base es cs"
    and out: "\<And>i. i < length es \<Longrightarrow> \<not> S i \<Longrightarrow> es' ! i = es ! i"
    and cout: "\<And>i. i < length es \<Longrightarrow> \<not> S i \<Longrightarrow> cs' ! i = cs ! i"
    and ins: "\<And>i. i < length es \<Longrightarrow> S i \<Longrightarrow> conc_at base es' cs' i"
  shows "conc base es' cs'"
proof (rule concI)
  show "length cs' = length es'" using c len by (simp add: conc_def)
  fix i
  assume "i < length es'"
  then have i: "i < length es" using len by simp
  show "conc_at base es' cs' i"
  proof (cases "S i")
    case False
    have lc: "length cs = length es" using c by (simp add: conc_def)
    have "segment cs' i 8 = segment cs i 8 \<and> (read_data es' i 8 :: u64) = read_data es i 8"
      if k: "etype (es ! i) = EPtr k" for k
    proof
      have h: "head_at es i" using k i by (simp add: head_at_def)
      have room: "i + 8 \<le> length es" using wf_head_room[OF wf h] .
      have nS: "\<not> S (i + j)" if "j < 8" for j
        using closed_setD[OF cl h, of "i + j"] False that by simp
      then show "segment cs' i 8 = segment cs i 8"
        using room lc len cout by (intro segment_eqI) simp_all
      show "(read_data es' i 8 :: u64) = read_data es i 8"
        using room len nS out by (intro read_data_cong) simp_all
    qed
    then show ?thesis using conc_at_cong[of es' i es cs' cs base] out cout i False concD[OF c i] by blast
  qed (use ins i in blast)
qed

section \<open>Writing\<close>

text \<open>The sizes the code writes a value with: pointers have eight bytes.\<close>

definition size_ok :: "dyn_value \<Rightarrow> nat \<Rightarrow> bool" where
  "size_ok v n =
     (case v of
        Ptr _ nr _ \<Rightarrow> n = 8 \<and> nr < 256
      | Imm64 _ \<Rightarrow> n \<in> {1, 2, 4, 8, 16}
      | Imm128 _ \<Rightarrow> n \<in> {1, 2, 4, 8, 16}
      | _ \<Rightarrow> 0 < n)"

lemma le_bytes_ucast:
  assumes "8 * n \<le> LENGTH('b::len) \<or> LENGTH('a::len) \<le> LENGTH('b)"
  shows "le_bytes n (ucast (w :: 'a word) :: 'b word) = le_bytes n w"
proof (rule nth_equalityI)
  fix i
  assume "i < length (le_bytes n (ucast w :: 'b word))"
  then have i: "i < n" by simp
  show "le_bytes n (ucast w :: 'b word) ! i = le_bytes n w ! i"
  proof (rule bit_word_eqI)
    fix k
    assume "k < LENGTH(8)"
    then have "k < 8" by simp
    moreover have "8 * i + k < 8 * n" using i \<open>k < 8\<close> by simp
    ultimately show "bit (le_bytes n (ucast w :: 'b word) ! i) k = bit (le_bytes n w ! i) k"
      using i assms by (auto simp: bit_le_bytes_nth bit_simps dest: bit_imp_le_length)
  qed
qed simp

definition imm_bytes :: "dyn_value \<Rightarrow> nat \<Rightarrow> byte list" where
  "imm_bytes v n = le_bytes n (getImm128 v)"

lemma nr_fits:
  assumes "nr < 256"
  shows "ucast (ucast (nr :: u32) :: byte) = nr"
proof -
  have "unat nr < 256" using assms by (simp add: word_less_nat_alt)
  then show ?thesis by (simp add: word_unat_eq_iff unsigned_ucast_eq unsigned_take_bit_eq take_bit_nat_def)
qed

lemma set_imm_eq:
  assumes "isImm v" and "n \<in> {1, 2, 4, 8, 16}"
  shows "set_imm es off n v =
    Some (write_data off (imm_bytes v n) (upd_range (\<lambda>e. e\<lparr>etype := EImmediate\<rparr>) off (off + n) es))"
proof -
  have "le_bytes m (getImm64 v) = imm_bytes v m" if "m \<le> 8" for m
    using assms(1) that by (cases v) (auto simp: dyn_simps imm_bytes_def le_bytes_ucast)
  then show ?thesis using assms(2) by (auto simp: set_imm_def imm_bytes_def)
qed

lemma bytes_conc_imm:
  "isImm v \<Longrightarrow> bytes_conc base v bs \<longleftrightarrow> bs = imm_bytes v (length bs)"
  by (cases v) (auto simp: dyn_simps imm_bytes_def bytes_conc_def le_bytes_ucast)

text \<open>
  What the element array looks like after the write: the range holds the value, the rest of a
  pointer that was cut is Unknown or Tainted, everything else is untouched.
\<close>

definition holds_value :: "dyn_value \<Rightarrow> nat \<Rightarrow> nat \<Rightarrow> elem list \<Rightarrow> bool" where
  "holds_value v off n es =
     (case v of
        Ptr k nr p \<Rightarrow>
          etype (es ! off) = EPtr k \<and> enr (es ! off) = ucast nr \<and>
          (\<forall>j. off < j \<and> j < off + 8 \<longrightarrow> etype (es ! j) = tail_of k) \<and>
          map edata (segment es off 8) = le_bytes 8 p
      | _ \<Rightarrow>
          (\<forall>j. off \<le> j \<and> j < off + n \<longrightarrow> etype (es ! j) = getType v) \<and>
          (isImm v \<longrightarrow> map edata (segment es off n) = imm_bytes v n))"

lemma map_edata_segment:
  "off + n \<le> length es \<Longrightarrow> length bs = n \<Longrightarrow> (\<And>j. j < n \<Longrightarrow> edata (es ! (off + j)) = bs ! j) \<Longrightarrow>
   map edata (segment es off n) = bs"
  by (rule nth_equalityI) simp_all

lemma store_value:
  assumes ok: "size_ok v n" and room: "off + n \<le> length es"
  shows "\<exists>es'. (case v of Ptr _ _ _ \<Rightarrow> set_ptr es off n v | Imm64 _ \<Rightarrow> set_imm es off n v
       | Imm128 _ \<Rightarrow> set_imm es off n v | _ \<Rightarrow> set_type es off n (getType v)) = Some es' \<and>
     length es' = length es \<and> holds_value v off n es' \<and>
     (\<forall>i < length es. \<not> (off \<le> i \<and> i < off + n) \<longrightarrow> es' ! i = es ! i)"
proof -
  consider (ptr) k nr p where "v = Ptr k nr p" | (imm) "isImm v"
    | (ty) "v \<in> {Dead, Unknown, Tainted}"
    by (cases v) (auto simp: dyn_simps)
  then show ?thesis
  proof cases
    case ptr
    then have n: "n = 8" using ok by (simp add: size_ok_def)
    let ?es1 = "es[off := (es ! off)\<lparr>etype := EPtr k, enr := ucast nr\<rparr>]"
    let ?es2 = "upd_range (\<lambda>e. e\<lparr>etype := tail_of k\<rparr>) (off + 1) (off + 8) ?es1"
    let ?es3 = "write_data off (le_bytes 8 p) ?es2"
    have st: "set_ptr es off n v = Some ?es3"
      using ptr n by (simp add: set_ptr_def dyn_simps tail_of_def Let_def)
    have "map edata (segment ?es3 off 8) = le_bytes 8 p"
      using room n by (intro map_edata_segment) (simp_all add: elem_simps)
    then have "holds_value v off n ?es3"
      using room n ptr by (auto simp: holds_value_def elem_simps)
    moreover have "\<forall>i < length es. \<not> (off \<le> i \<and> i < off + n) \<longrightarrow> ?es3 ! i = es ! i"
      using room n by (auto simp: elem_simps)
    ultimately show ?thesis using st ptr by (intro exI[of _ ?es3]) simp
  next
    case imm
    then have n: "n \<in> {1, 2, 4, 8, 16}" using ok by (cases v) (simp_all add: size_ok_def dyn_simps)
    let ?es3 = "write_data off (imm_bytes v n) (upd_range (\<lambda>e. e\<lparr>etype := EImmediate\<rparr>) off (off + n) es)"
    have len: "length (imm_bytes v n) = n" by (simp add: imm_bytes_def)
    have gt: "getType v = EImmediate" using imm by (cases v) (simp_all add: dyn_simps)
    have "map edata (segment ?es3 off n) = imm_bytes v n"
      using room len by (intro map_edata_segment) (simp_all add: elem_simps)
    then have "holds_value v off n ?es3"
      using imm room len gt by (cases v) (auto simp: holds_value_def elem_simps dyn_simps)
    moreover have "\<forall>i < length es. \<not> (off \<le> i \<and> i < off + n) \<longrightarrow> ?es3 ! i = es ! i"
      using room len by (auto simp: elem_simps)
    ultimately show ?thesis
      using imm set_imm_eq[OF imm n] by (intro exI[of _ ?es3]) (cases v; simp add: dyn_simps)
  next
    case ty
    let ?es3 = "upd_range (\<lambda>e. e\<lparr>etype := getType v, edata := 0\<rparr>) off (off + n) es"
    have "set_type es off n (getType v) = Some ?es3" using ty by (auto simp: set_type_def)
    moreover have "holds_value v off n ?es3"
      using ty room by (auto simp: holds_value_def elem_simps dyn_simps)
    ultimately show ?thesis using ty by (intro exI[of _ ?es3]) (auto simp: elem_simps)
  qed
qed

lemma stored_plain:
  "holds_value v off n es \<Longrightarrow> \<not> isPtr v \<Longrightarrow> off \<le> i \<Longrightarrow> i < off + n \<Longrightarrow> plain (es ! i)"
  by (cases v) (auto simp: holds_value_def dyn_simps plain_def)

text \<open>The write as a whole: the specification of \<open>setElements\<close>.\<close>

lemma set_elements_spec:
  assumes wf: "wf_elems es" and n: "0 < n" "off + n \<le> length es"
    and inner: "no_inner_head es off n" and ok: "size_ok v n"
  shows "\<exists>es'. set_elements es off n v False = Some es' \<and> length es' = length es \<and>
    wf_elems es' \<and> holds_value v off n es' \<and>
    (\<forall>i < length es. \<not> erased es off n i \<longrightarrow> es' ! i = es ! i) \<and>
    (\<forall>i < length es. erased es off n i \<longrightarrow> \<not> (off \<le> i \<and> i < off + n) \<longrightarrow>
       etype (es' ! i) = EUnknown \<or> etype (es' ! i) = ETainted) \<and>
    (\<forall>i < length es. \<not> (off \<le> i \<and> i < off + n) \<longrightarrow> stackish (etype (es ! i)) \<longrightarrow> stackish (etype (es' ! i)))"
proof -
  obtain es1 where mk: "mark_unknown es off n = Some es1" "length es1 = length es"
    and out1: "\<forall>i < length es. \<not> erased es off n i \<longrightarrow> es1 ! i = es ! i"
    and in1: "\<forall>i < length es. erased es off n i \<longrightarrow> etype (es1 ! i) = EUnknown \<or> etype (es1 ! i) = ETainted"
    and st1: "\<forall>i < length es. stackish (etype (es ! i)) \<longrightarrow> stackish (etype (es1 ! i))"
    using mark_unknown_spec[OF wf n inner] by blast
  have cl: "closed_set es (erased es off n)" using closed_erased[OF wf inner] .
  have pl1: "plain (es1 ! i)" if "i < length es" "erased es off n i" for i
    using in1 that by (auto simp: plain_def)
  have wf1: "wf_elems es1" using wf_overwrite[OF wf mk(2) cl] out1 pl1 by simp
  obtain es2 where set2: "(case v of Ptr _ _ _ \<Rightarrow> set_ptr es1 off n v | Imm64 _ \<Rightarrow> set_imm es1 off n v
       | Imm128 _ \<Rightarrow> set_imm es1 off n v | _ \<Rightarrow> set_type es1 off n (getType v)) = Some es2"
    and len2: "length es2 = length es" and h2: "holds_value v off n es2"
    and out2: "\<forall>i < length es. \<not> (off \<le> i \<and> i < off + n) \<longrightarrow> es2 ! i = es1 ! i"
    using store_value[OF ok, of off es1] n mk(2) by auto
  have rng: "erased es off n i" if "off \<le> i" "i < off + n" for i
    using that by (simp add: erased_def)
  have "wf_elems es2"
  proof (cases "isPtr v")
    case True
    then obtain k nr p where v: "v = Ptr k nr p" by (cases v) (auto simp: dyn_simps)
    then have "n = 8" using ok by (simp add: size_ok_def)
    with v h2 show ?thesis
      using wf_install[OF wf1, of es2 off k] out2 len2 mk(2) n pl1 rng by (auto simp: holds_value_def)
  next
    case False
    have "plain (es2 ! i)" if "i < length es" "erased es off n i" for i
      using stored_plain[OF h2 False, of i] out2 pl1[OF that] that
      by (cases "off \<le> i \<and> i < off + n") auto
    moreover have "etype (es2 ! i) = etype (es ! i)" if "i < length es" "\<not> erased es off n i" for i
      using out1 out2 rng[of i] that by auto
    ultimately show ?thesis using wf_overwrite[OF wf len2 cl] by blast
  qed
  moreover have "set_elements es off n v False = Some es2"
    using set2 mk n by (simp add: set_elements_def add.commute)
  ultimately show ?thesis
    using len2 h2 out1 out2 in1 st1 rng by (intro exI[of _ es2]) auto
qed

lemma set_elements_conc:
  assumes wf: "wf_elems es" and n: "0 < n" "off + n \<le> length es"
    and inner: "no_inner_head es off n" and ok: "size_ok v n"
    and st: "set_elements es off n v False = Some es'"
    and c: "conc base es cs" and b: "bytes_conc base v bs" "length bs = n"
  shows "conc base es' (splice cs off bs)"
proof -
  obtain es2 where st2: "set_elements es off n v False = Some es2" "length es2 = length es"
    "holds_value v off n es2" "\<forall>i < length es. \<not> erased es off n i \<longrightarrow> es2 ! i = es ! i"
    "\<forall>i < length es. erased es off n i \<longrightarrow> \<not> (off \<le> i \<and> i < off + n) \<longrightarrow>
       etype (es2 ! i) = EUnknown \<or> etype (es2 ! i) = ETainted"
    using set_elements_spec[OF wf n inner ok] by blast
  have eq: "es2 = es'" using st st2(1) by simp
  note s = st2(2-5)[unfolded eq]
  have lc: "length cs = length es" using c by (simp add: conc_def)
  let ?cs = "splice cs off bs"
  have cs: "?cs ! i = (if off \<le> i \<and> i < off + n then bs ! (i - off) else cs ! i)" if "i < length es" for i
    using that lc n b by (simp add: nth_splice)
  have sl: "segment ?cs off n = bs" using lc n b by simp
  show ?thesis
  proof (rule conc_overwrite[OF wf s(1) _ closed_erased[OF wf inner] c])
    fix i
    assume i: "i < length es" "erased es off n i"
    show "conc_at base es' ?cs i"
    proof (cases "off \<le> i \<and> i < off + n")
      case False
      then show ?thesis using s(4) i by (auto simp: conc_at_def)
    next
      case rng: True
      consider (ptr) k nr p where "v = Ptr k nr p" | (imm) "isImm v" | (ty) "v \<in> {Dead, Unknown, Tainted}"
        by (cases v) (auto simp: dyn_simps)
      then show ?thesis
      proof cases
        case ptr
        then have n8: "n = 8" and "nr < 256" using ok by (simp_all add: size_ok_def)
        then have nr: "ucast (ucast nr :: byte) = nr" by (simp add: nr_fits)
        have h: "etype (es' ! off) = EPtr k" "enr (es' ! off) = ucast nr"
          "\<forall>j. off < j \<and> j < off + 8 \<longrightarrow> etype (es' ! j) = tail_of k"
          "map edata (segment es' off 8) = le_bytes 8 p"
          using s(2) ptr by (simp_all add: holds_value_def)
        have "(read_data es' off 8 :: u64) = p"
          using h(4) by (simp add: read_data_def le_word_le_bytes)
        then have "conc_at base es' ?cs off"
          using h(1,2) sl n8 nr b(1) ptr by (simp add: conc_at_def bytes_conc_def)
        moreover have "conc_at base es' ?cs i" if "off < i"
          using h(3) that rng n8 by (cases k) (auto simp: conc_at_def tail_of_def)
        ultimately show ?thesis using rng by (cases "off = i") auto
      next
        case imm
        then have gt: "getType v = EImmediate" by (cases v) (simp_all add: dyn_simps)
        have "\<forall>j. off \<le> j \<and> j < off + n \<longrightarrow> etype (es' ! j) = getType v"
          and d: "map edata (segment es' off n) = imm_bytes v n"
          using s(2) imm by (cases v; auto simp: holds_value_def dyn_simps)+
        then have t: "etype (es' ! i) = EImmediate" using rng gt by simp
        moreover have "bs = map edata (segment es' off n)" using d b imm by (simp add: bytes_conc_imm)
        moreover have "i - off < n" using rng by auto
        ultimately have "bs ! (i - off) = edata (es' ! i)" using rng n s(1) by simp
        then show ?thesis using t rng i cs by (simp add: conc_at_def)
      next
        case ty
        then have "etype (es' ! i) = getType v" using s(2) rng by (auto simp: holds_value_def)
        then show ?thesis using ty by (auto simp: conc_at_def)
      qed
    qed
  qed (use s(3) cs lc n b in \<open>auto simp: erased_def\<close>)
qed

section \<open>Reading\<close>

definition flagged :: "scan \<Rightarrow> elem_type \<Rightarrow> nat \<Rightarrow> bool" where
  "flagged sc t j \<longleftrightarrow>
     (case t of
        EImmediate \<Rightarrow> hasImm sc | EDead \<Rightarrow> hasDead sc | EUnknown \<Rightarrow> hasUnknown sc
      | ETainted \<Rightarrow> hasTainted sc | EStackPtrTail \<Rightarrow> True | ETail \<Rightarrow> True
      | EPtr k \<Rightarrow> (if k = StackPtr then hasStackPtr sc else hasPtr sc) \<and> (0 < j \<longrightarrow> isMixed sc))"

definition scan_le :: "scan \<Rightarrow> scan \<Rightarrow> bool" where
  "scan_le a b \<longleftrightarrow> (hasImm a \<longrightarrow> hasImm b) \<and> (hasDead a \<longrightarrow> hasDead b) \<and> (hasPtr a \<longrightarrow> hasPtr b) \<and>
     (hasStackPtr a \<longrightarrow> hasStackPtr b) \<and> (hasUnknown a \<longrightarrow> hasUnknown b) \<and>
     (hasTainted a \<longrightarrow> hasTainted b) \<and> (isMixed a \<longrightarrow> isMixed b)"

lemma scan_le_refl [simp]: "scan_le a a"
  by (simp add: scan_le_def)

lemma flagged_mono: "flagged a t j \<Longrightarrow> scan_le a b \<Longrightarrow> flagged b t j"
  by (auto simp: flagged_def scan_le_def split: elem_type.splits if_splits)

text \<open>One round of the scan: how far it moves, and the flags it sets.\<close>

definition scan_round :: "elem_type \<Rightarrow> nat \<Rightarrow> scan \<Rightarrow> scan" where
  "scan_round t i sc =
     (case t of
        EPtr k \<Rightarrow> (if k = StackPtr then sc\<lparr>hasStackPtr := True, isMixed := isMixed sc \<or> i \<noteq> 0\<rparr>
                    else sc\<lparr>hasPtr := True, isMixed := isMixed sc \<or> i \<noteq> 0\<rparr>)
      | EImmediate \<Rightarrow> sc\<lparr>hasImm := True\<rparr> | EDead \<Rightarrow> sc\<lparr>hasDead := True\<rparr>
      | ETail \<Rightarrow> sc\<lparr>isMixed := isMixed sc \<or> i = 0\<rparr> | EStackPtrTail \<Rightarrow> sc\<lparr>hasTainted := True\<rparr>
      | EUnknown \<Rightarrow> sc\<lparr>hasUnknown := True\<rparr> | ETainted \<Rightarrow> sc\<lparr>hasTainted := True\<rparr>)"

lemma scan_unfold:
  "scan_elements es off n i sc =
     (if i < n then
        if off + i < length es then
          scan_elements es off n (if is_head (etype (es ! (off + i))) then i + 8 else i + 1)
            (scan_round (etype (es ! (off + i))) i sc)
        else None
      else Some sc)"
  by (subst scan_elements.simps)
    (auto simp: scan_round_def split: elem_type.split ptr_kind.split)

lemma scan_round_le: "scan_le sc (scan_round t i sc)" "flagged (scan_round t i sc) t i"
  by (auto simp: scan_round_def scan_le_def flagged_def split: elem_type.split)

lemma scan_le_trans: "scan_le a b \<Longrightarrow> scan_le b c \<Longrightarrow> scan_le a c"
  by (auto simp: scan_le_def)

lemma scan_result:
  assumes wf: "wf_elems es"
  shows "scan_elements es off n i sc = Some sc' \<Longrightarrow>
    scan_le sc sc' \<and>
    (\<forall>j. i \<le> j \<and> j < n \<and> \<not> is_tail (etype (es ! (off + j))) \<longrightarrow> flagged sc' (etype (es ! (off + j))) j)"
proof (induction "n - i" arbitrary: i sc rule: less_induct)
  case less
  show ?case
  proof (cases "i < n")
    case False
    then show ?thesis using less.prems by (subst (asm) scan_unfold) auto
  next
    case True
    let ?t = "etype (es ! (off + i))"
    let ?i = "if is_head ?t then i + 8 else i + 1"
    let ?sc = "scan_round ?t i sc"
    have l: "off + i < length es" and r: "scan_elements es off n ?i ?sc = Some sc'"
      using less.prems True by (subst (asm) scan_unfold; simp split: if_splits)+
    have d: "n - ?i < n - i" using True by auto
    have IH: "scan_le ?sc sc'"
      "\<forall>j. ?i \<le> j \<and> j < n \<and> \<not> is_tail (etype (es ! (off + j))) \<longrightarrow> flagged sc' (etype (es ! (off + j))) j"
      using less.hyps[OF d r] by blast+
    have "flagged sc' (etype (es ! (off + j))) j"
      if j: "i \<le> j" "j < n" "\<not> is_tail (etype (es ! (off + j)))" for j
    proof -
      consider (same) "j = i" | (later) "?i \<le> j" | (skipped) "is_head ?t" "i < j" "j < i + 8"
        using j(1) by (cases "is_head ?t"; cases "j = i"; cases "j < i + 8") auto
      then show ?thesis
      proof cases
        case same
        then show ?thesis using flagged_mono[OF scan_round_le(2) IH(1)] by simp
      next
        case later
        then show ?thesis using IH(2) j by blast
      next
        case skipped
        then have "tail_at es (off + j)"
          using wf_head_tails(3)[OF wf, of "off + i" "off + j"] l by (simp add: head_at_def)
        then show ?thesis using j(3) by (simp add: tail_at_def)
      qed
    qed
    then show ?thesis using scan_le_trans[OF scan_round_le(1) IH(1)] by blast
  qed
qed

lemma scan_total: "off + n \<le> length es \<Longrightarrow> \<exists>sc'. scan_elements es off n i sc = Some sc'"
proof (induction "n - i" arbitrary: i sc rule: less_induct)
  case less
  then show ?case by (subst scan_unfold) auto
qed

lemma scan_first_tail:
  assumes "wf_elems es" and "0 < n" and "scan_elements es off n 0 sc = Some sc'"
    and "is_tail (etype (es ! off))"
  shows "if etype (es ! off) = EStackPtrTail then hasTainted sc' else isMixed sc'"
proof -
  have "scan_elements es off n 1 (scan_round (etype (es ! off)) 0 sc) = Some sc'"
    using assms(2,3,4) by (subst (asm) scan_unfold) (auto split: if_splits dest: not_tail_head)
  then have "scan_le (scan_round (etype (es ! off)) 0 sc) sc'"
    using scan_result[OF assms(1)] by blast
  then show ?thesis using assms(4) by (cases "etype (es ! off)") (auto simp: scan_round_def scan_le_def)
qed

text \<open>If only immediates are flagged, every element of the range is one.\<close>

lemma scan_all_imm:
  assumes wf: "wf_elems es" and n: "0 < n" "off + n \<le> length es"
    and sc: "scan_elements es off n 0 scan_init = Some sc"
    and only: "\<not> isMixed sc" "\<not> hasTainted sc" "\<not> hasStackPtr sc" "\<not> hasPtr sc" "\<not> hasDead sc" "\<not> hasUnknown sc"
    and j: "j < n"
  shows "etype (es ! (off + j)) = EImmediate"
proof -
  have fl: "flagged sc (etype (es ! (off + i))) i" if "i < n" "\<not> is_tail (etype (es ! (off + i)))" for i
    using scan_result[OF wf sc] that by blast
  have nohead: "\<not> head_at es (off + i)" if "i < n" for i
    using fl[OF that] only by (cases "etype (es ! (off + i))") (auto simp: flagged_def head_at_def split: if_splits)
  have "\<not> is_tail (etype (es ! (off + j)))"
  proof
    assume "is_tail (etype (es ! (off + j)))"
    then have "tail_at es (off + j)" using j n by (simp add: tail_at_def)
    then obtain p where p: "head_at es p" "p < off + j" "off + j < p + 8"
      using wf_tail_owner[OF wf] by blast
    have "p < off"
    proof (rule ccontr)
      assume "\<not> p < off"
      then have "off + (p - off) = p" and "p - off < n" using p j by linarith+
      then show False using p(1) nohead[of "p - off"] by simp
    qed
    then have "tail_at es off" using wf_head_tails(3)[OF wf p(1), of off] p by simp
    then show False using scan_first_tail[OF wf n(1) sc] only by (auto simp: tail_at_def split: if_splits)
  qed
  then show ?thesis using fl[OF j] only by (cases "etype (es ! (off + j))") (auto simp: flagged_def split: if_splits)
qed

lemma get_cases:
  assumes wf: "wf_elems es" and n: "0 < n" "off + n \<le> length es"
    and g: "get_elements es off n = Some v"
  obtains (opaque) "v \<in> {Dead, Unknown, Tainted}"
  | (ptr) k where "v = Ptr k (ucast (enr (es ! off))) (read_data es off 8)" "etype (es ! off) = EPtr k" "n = 8"
  | (imm64) "\<forall>j < n. etype (es ! (off + j)) = EImmediate" "n \<in> {1, 2, 4, 8}" "v = Imm64 (read_data es off n)"
  | (imm128) "\<forall>j < n. etype (es ! (off + j)) = EImmediate" "n = 16" "v = Imm128 (read_data es off 16)"
proof -
  obtain sc where sc: "scan_elements es off n 0 scan_init = Some sc"
    using scan_total[OF n(2)] by blast
  have ptr_case: thesis if "get_ptr es off = Some v" "n = 8"
  proof -
    obtain k where "etype (es ! off) = EPtr k" "v = Ptr k (ucast (enr (es ! off))) (read_data es off 8)"
      using \<open>get_ptr es off = Some v\<close>
      by (cases "etype (es ! off)") (auto simp: get_ptr_def split: if_splits)
    then show thesis using ptr \<open>n = 8\<close> by blast
  qed
  have allimm: "\<forall>j < n. etype (es ! (off + j)) = EImmediate"
    if "hasImm sc" "\<not> isMixed sc" "scan_count sc \<le> 1"
  proof (intro allI impI)
    fix j assume "j < n"
    then show "etype (es ! (off + j)) = EImmediate"
      using scan_all_imm[OF wf n sc] that by (auto simp: scan_count_def of_bool_def split: if_splits)
  qed
  show thesis
  proof (cases "hasTainted sc \<or> hasStackPtr sc \<and> (isMixed sc \<or> scan_count sc > 1 \<or> n \<noteq> 8)")
    case True
    then show thesis using g sc opaque by (auto simp: get_elements_def)
  next
    case nt: False
    show thesis
    proof (cases "isMixed sc \<or> scan_count sc > 1")
      case True
      then show thesis using g sc nt opaque by (auto simp: get_elements_def)
    next
      case nm: False
      consider (sp) "hasStackPtr sc" | (p) "\<not> hasStackPtr sc" "hasPtr sc"
        | (i) "\<not> hasStackPtr sc" "\<not> hasPtr sc" "hasImm sc"
        | (o) "\<not> hasStackPtr sc" "\<not> hasPtr sc" "\<not> hasImm sc" by blast
      then show thesis
      proof cases
        case sp
        then show thesis using g sc nt nm by (intro ptr_case) (auto simp: get_elements_def)
      next
        case p
        then show thesis using g sc nt nm opaque ptr_case
          by (cases "n = 8") (auto simp: get_elements_def)
      next
        case i
        then show thesis using g sc nt nm allimm imm64 imm128
          by (auto simp: get_elements_def Let_def split: if_splits)
      next
        case o
        then show thesis using g sc nt nm opaque by (auto simp: get_elements_def Let_def split: if_splits)
      qed
    qed
  qed
qed

lemma read_data_le_bytes:
  assumes "off + n \<le> length es" and "8 * n \<le> LENGTH('a::len)"
  shows "le_bytes n (read_data es off n :: 'a word) = map edata (segment es off n)"
  using assms by (simp add: read_data_def le_bytes_le_word)

lemma get_elements_conc:
  assumes wf: "wf_elems es" and n: "0 < n" "off + n \<le> length es"
    and g: "get_elements es off n = Some v" and c: "conc base es cs"
  shows "bytes_conc base v (segment cs off n)"
proof -
  have lc: "length cs = length es" using c by (simp add: conc_def)
  have imm: "segment cs off n = map edata (segment es off n)"
    if "\<forall>j < n. etype (es ! (off + j)) = EImmediate"
  proof (rule nth_equalityI)
    fix i assume "i < length (segment cs off n)"
    then have i: "i < n" using n lc by simp
    then show "segment cs off n ! i = map edata (segment es off n) ! i"
      using concD[OF c, of "off + i"] that n lc by (simp add: conc_at_def)
  qed (use n lc in simp)
  from wf n g show ?thesis
  proof (cases rule: get_cases)
    case (ptr k)
    then show ?thesis using concD[OF c, of off] n lc by (simp add: conc_at_def bytes_conc_def)
  next
    case imm64
    then show ?thesis using imm n lc by (auto simp: bytes_conc_def read_data_le_bytes)
  next
    case imm128
    then show ?thesis using imm n lc by (simp add: bytes_conc_def read_data_le_bytes)
  qed (auto simp: bytes_conc_def)
qed

text \<open>A range with any part of a stack pointer never reads as a harmless value.\<close>

lemma get_elements_taint:
  assumes wf: "wf_elems es" and n: "0 < n" "off + n \<le> length es"
    and g: "get_elements es off n = Some v"
    and j: "j < n" "stackish (etype (es ! (off + j)))"
  shows "may_be_stack v"
proof -
  obtain sc where sc: "scan_elements es off n 0 scan_init = Some sc"
    using scan_total[OF n(2)] by blast
  have fl: "flagged sc (etype (es ! (off + i))) i" if "i < n" "\<not> is_tail (etype (es ! (off + i)))" for i
    using scan_result[OF wf sc] that by blast
  have flag: "hasTainted sc \<or> hasStackPtr sc"
  proof (cases "etype (es ! (off + j)) = EStackPtrTail")
    case False
    then have "\<not> is_tail (etype (es ! (off + j)))" using j(2) by (auto simp: stackish_def)
    then show ?thesis using fl[OF j(1)] j(2) False by (auto simp: stackish_def flagged_def)
  next
    case True
    then have "tail_at es (off + j)" using j n by (simp add: tail_at_def)
    then obtain p where p: "head_at es p" "p < off + j" "off + j < p + 8"
      using wf_tail_owner[OF wf] by blast
    have tt: "tail_type (etype (es ! p)) = EStackPtrTail"
      using wf_head_tails(2)[OF wf p] True by simp
    show ?thesis
    proof (cases "p < off")
      case True
      then have "tail_at es off" "etype (es ! off) = EStackPtrTail"
        using wf_head_tails(2,3)[OF wf p(1), of off] p tt by simp_all
      then show ?thesis using scan_first_tail[OF wf n(1) sc] by (simp add: tail_at_def)
    next
      case False
      then have off: "off + (p - off) = p" "p - off < n" using p j by linarith+
      obtain k where k: "etype (es ! p) = EPtr k" "k = StackPtr"
        using p(1) tt by (cases "etype (es ! p)") (auto simp: head_at_def tail_of_def split: if_splits)
      then show ?thesis using fl[of "p - off"] off by (simp add: flagged_def)
    qed
  qed
  show ?thesis
  proof (cases "hasTainted sc \<or> hasStackPtr sc \<and> (isMixed sc \<or> scan_count sc > 1 \<or> n \<noteq> 8)")
    case True
    then have "v = Tainted" using g sc by (auto simp: get_elements_def)
    then show ?thesis by (simp add: may_be_stack_def dyn_simps)
  next
    case False
    then have sp: "hasStackPtr sc" "\<not> isMixed sc" "scan_count sc \<le> 1" "n = 8" using flag by auto
    then have "get_ptr es off = Some v" using g sc False by (simp add: get_elements_def)
    then obtain k where k: "etype (es ! off) = EPtr k" "v = Ptr k (ucast (enr (es ! off))) (read_data es off 8)"
      by (cases "etype (es ! off)") (auto simp: get_ptr_def split: if_splits)
    then have "k = StackPtr"
      using fl[of 0] sp by (auto simp: flagged_def scan_count_def of_bool_def split: if_splits)
    then show ?thesis using k by (simp add: may_be_stack_def dyn_simps)
  qed
qed

lemma scan_round_plain:
  assumes "\<not> is_head t" and "\<not> is_tail t"
  shows "scan_round t i sc = scan_round t 0 sc" "scan_round t 0 (scan_round t 0 sc) = scan_round t 0 sc"
  using assms by (cases t; simp add: scan_round_def)+

lemma scan_uniform:
  assumes "\<forall>j. i \<le> j \<and> j < n \<longrightarrow> etype (es ! (off + j)) = t" and "\<not> is_head t" and "\<not> is_tail t"
    and "off + n \<le> length es" and "i < n"
  shows "scan_elements es off n i sc = Some (scan_round t 0 sc)"
  using assms
proof (induction "n - i" arbitrary: i sc rule: less_induct)
  case less
  note r = scan_round_plain[OF less.prems(2,3)]
  have "scan_elements es off n i sc = scan_elements es off n (i + 1) (scan_round t 0 sc)"
    using less.prems by (subst scan_unfold) (simp add: r(1)[of i])
  also have "\<dots> = Some (scan_round t 0 sc)"
  proof (cases "i + 1 < n")
    case True
    have "scan_elements es off n (i + 1) (scan_round t 0 sc) = Some (scan_round t 0 (scan_round t 0 sc))"
      by (rule less.hyps) (use less.prems True in auto)
    then show ?thesis by (simp only: r(2))
  next
    case False
    then show ?thesis by (subst scan_unfold) simp
  qed
  finally show ?case .
qed

text \<open>What a value of \<open>n\<close> bytes reads back as: immediates are cut to the size.\<close>

definition read_back :: "dyn_value \<Rightarrow> nat \<Rightarrow> dyn_value" where
  "read_back v n =
     (if isImm v then (if n = 16 then Imm128 (getImm128 v) else Imm64 (take_bit (8 * n) (getImm64 v)))
      else v)"

lemma le_word_imm_bytes:
  assumes "isImm v" and "n \<in> {1, 2, 4, 8}"
  shows "(le_word (imm_bytes v n) :: u64) = take_bit (8 * n) (getImm64 v)"
proof (rule bit_word_eqI)
  fix k
  assume k: "k < LENGTH(64)"
  have low: "bit (getImm128 v) k = bit (getImm64 v) k"
    using assms(1) k by (cases v) (auto simp: dyn_simps bit_simps)
  show "bit (le_word (imm_bytes v n) :: u64) k = bit (take_bit (8 * n) (getImm64 v)) k"
    using k low by (cases "k < 8 * n") (auto simp: imm_bytes_def bit_le_word bit_le_bytes_nth bit_simps)
qed

lemma get_holds_value:
  assumes ok: "size_ok v n" and room: "off + n \<le> length es" and h: "holds_value v off n es"
  shows "get_elements es off n = Some (read_back v n)"
proof -
  consider (ptr) k nr p where "v = Ptr k nr p" | (imm) "isImm v" | (ty) "v \<in> {Dead, Unknown, Tainted}"
    by (cases v) (auto simp: dyn_simps)
  then show ?thesis
  proof cases
    case ptr
    then have n: "n = 8" and nr: "ucast (ucast nr :: byte) = nr" using ok by (simp_all add: size_ok_def nr_fits)
    have e: "etype (es ! off) = EPtr k" "enr (es ! off) = ucast nr" "map edata (segment es off 8) = le_bytes 8 p"
      using h ptr by (simp_all add: holds_value_def)
    have "scan_elements es off 8 0 scan_init = Some (scan_round (EPtr k) 0 scan_init)"
      using e(1) room n by (subst scan_unfold) (simp, subst scan_unfold, simp)
    moreover have "get_ptr es off = Some v"
      using e nr ptr room n by (simp add: get_ptr_def read_data_def le_word_le_bytes)
    ultimately show ?thesis using n ptr
      by (simp add: get_elements_def scan_round_def scan_init_def scan_count_def read_back_def dyn_simps Let_def)
  next
    case imm
    then have n: "n \<in> {1, 2, 4, 8, 16}" using ok by (cases v) (simp_all add: size_ok_def dyn_simps)
    have gt: "getType v = EImmediate" using imm by (cases v) (simp_all add: dyn_simps)
    have e: "\<forall>j. 0 \<le> j \<and> j < n \<longrightarrow> etype (es ! (off + j)) = EImmediate"
      and d: "map edata (segment es off n) = imm_bytes v n"
      using h imm gt by (cases v; auto simp: holds_value_def dyn_simps)+
    have sc: "scan_elements es off n 0 scan_init = Some (scan_round EImmediate 0 scan_init)"
      using scan_uniform[OF e _ _ room] n by auto
    have "read_data es off n = (take_bit (8 * n) (getImm64 v) :: u64)" if "n \<noteq> 16"
      using le_word_imm_bytes[OF imm] n d that by (simp add: read_data_def)
    moreover have "read_data es off n = getImm128 v" if "n = 16"
      using d that by (simp add: read_data_def imm_bytes_def le_word_le_bytes)
    ultimately show ?thesis using n sc imm
      by (auto simp: get_elements_def scan_round_def scan_init_def scan_count_def read_back_def Let_def)
  next
    case ty
    then have e: "\<forall>j. 0 \<le> j \<and> j < n \<longrightarrow> etype (es ! (off + j)) = getType v" and n: "0 < n"
      using h ok by (auto simp: holds_value_def size_ok_def)
    have sc: "scan_elements es off n 0 scan_init = Some (scan_round (getType v) 0 scan_init)"
      using scan_uniform[OF e _ _ room n] ty by auto
    then show ?thesis using ty
      by (cases v) (simp_all add: get_elements_def scan_round_def scan_init_def scan_count_def
          read_back_def dyn_simps Let_def)
  qed
qed

end
