(* ===== verification/Elements_Merge.thy ===== *)
theory Elements_Merge
  imports Elements_Conc
begin

text \<open>
  Merging two element arrays, as the stack analysis does where paths meet. The loop is first
  described element by element; soundness (the merge describes everything either side
  describes), taint, the meaning of the returned flag and the shape of the result follow.
\<close>

section \<open>The merge, element by element\<close>

definition merge_elem :: "elem \<Rightarrow> elem \<Rightarrow> elem" where
  "merge_elem l r =
     (if etype l = etype r then
        (if etype l = EImmediate \<and> edata l \<noteq> edata r then l\<lparr>etype := EUnknown\<rparr> else l)
      else if etype l = EDead \<and> etype r = EUnknown \<or> etype l = EUnknown \<and> etype r = EDead then
        l\<lparr>etype := EDead\<rparr>
      else if stackish (etype l) \<or> stackish (etype r) then l\<lparr>etype := ETainted\<rparr>
      else l\<lparr>etype := EUnknown\<rparr>)"

text \<open>Two pointers of the same kind at the same place, and whether they are the same pointer.\<close>

definition matched :: "elem list \<Rightarrow> elem list \<Rightarrow> nat \<Rightarrow> nat \<Rightarrow> nat \<Rightarrow> bool" where
  "matched l r i j p \<longleftrightarrow> i \<le> p \<and> p \<le> j \<and> j < p + 8 \<and> head_at l p \<and> etype (r ! p) = etype (l ! p)"

definition same_ptr :: "elem list \<Rightarrow> elem list \<Rightarrow> nat \<Rightarrow> bool" where
  "same_ptr l r p \<longleftrightarrow> enr (l ! p) = enr (r ! p) \<and> (read_data l p 8 :: u64) = read_data r p 8"

definition merge_at :: "elem list \<Rightarrow> elem list \<Rightarrow> nat \<Rightarrow> nat \<Rightarrow> elem \<Rightarrow> bool" where
  "merge_at l r i j e \<longleftrightarrow>
     (\<exists>p. matched l r i j p \<and> e = (if same_ptr l r p then l ! j else clr (l ! j))) \<or>
     (\<forall>p. \<not> matched l r i j p) \<and> e = merge_elem (l ! j) (r ! j)"

text \<open>The left element lost information; turning Unknown into Dead does not count.\<close>

definition lost :: "elem \<Rightarrow> elem \<Rightarrow> bool" where
  "lost l e \<longleftrightarrow> etype e \<noteq> etype l \<and> \<not> (etype l = EUnknown \<and> etype e = EDead)"

lemma matched_unique:
  assumes "wf_elems l" and "matched l r i j p" and "matched l r i' j q"
  shows "p = q"
  using owner_unique[OF assms(1), of p j q] assms(2,3) by (simp add: matched_def)

lemma clear_pointer_suffix:
  assumes wf: "wf_elems l" and h: "head_at l i" and len: "length lhs = length l"
    and same: "\<forall>j. i \<le> j \<and> j < length l \<longrightarrow> lhs ! j = l ! j"
  shows "clear_tail_loop (set_etype i (if etype (l ! i) = EPtr StackPtr then ETainted else EUnknown) lhs)
      (Suc i) = upd_range clr i (i + 8) lhs"
proof -
  have i: "i < length l" using h by (simp add: head_at_def)
  obtain k where k: "etype (l ! i) = EPtr k" using h by (cases "etype (l ! i)") (auto simp: head_at_def)
  let ?t = "if etype (l ! i) = EPtr StackPtr then ETainted else EUnknown"
  have room: "i + 8 \<le> length l" using wf_head_room[OF wf h] .
  have at: "lhs ! i = l ! i" using same i by simp
  have "clear_tail_loop (set_etype i ?t lhs) (Suc i) = upd_range clr (Suc i) (i + 8) (set_etype i ?t lhs)"
  proof (rule clear_tail_loop_range)
    fix j assume "Suc i \<le> j" "j < i + 8"
    then show "is_tail (etype (set_etype i ?t lhs ! j))"
      using wf_head_tails(3)[OF wf h, of j] same len by (auto simp: nth_set_etype tail_at_def)
  qed (use room wf_after_tails[OF wf h] same len in \<open>auto simp: nth_set_etype\<close>)
  moreover have "set_etype i ?t lhs = upd_range clr i (Suc i) lhs"
    using i len at k by (intro set_etype_clr) simp_all
  moreover have "upd_range clr (Suc i) (i + 8) (upd_range clr i (Suc i) lhs) = upd_range clr i (i + 8) lhs"
    by (rule upd_range_step) simp
  ultimately show ?thesis by simp
qed

text \<open>A round at an element where no pointer is matched.\<close>

lemma merge_loop_step:
  assumes "i < length lhs" and "\<not> (etype (lhs ! i) = etype (r ! i) \<and> is_head (etype (lhs ! i)))"
  shows "merge_loop r i d lhs =
    merge_loop r (i + 1) (d \<or> lost (lhs ! i) (merge_elem (lhs ! i) (r ! i)))
      (lhs[i := merge_elem (lhs ! i) (r ! i)])"
proof -
  have upd: "set_etype i t lhs = lhs[i := (lhs ! i)\<lparr>etype := t\<rparr>]" for t
    by (simp add: set_etype_def)
  have id: "lhs[i := (lhs ! i)\<lparr>etype := t\<rparr>] = lhs" if "etype (lhs ! i) = t" for t
    using that by (simp add: list_update_same_conv assms(1) flip: that)
  show ?thesis
    using assms by (subst merge_loop.simps) (auto simp: Let_def upd merge_elem_def lost_def id)
qed

lemma merge_loop_head:
  assumes wf: "wf_elems l" and h: "head_at l i" and len: "length lhs = length l"
    and same: "\<forall>j. i \<le> j \<and> j < length l \<longrightarrow> lhs ! j = l ! j" and eq: "etype (r ! i) = etype (l ! i)"
  shows "merge_loop r i d lhs =
    merge_loop r (i + 8) (d \<or> \<not> same_ptr l r i)
      (if same_ptr l r i then lhs else upd_range clr i (i + 8) lhs)"
proof -
  have i: "i < length l" "is_head (etype (l ! i))" using h by (simp_all add: head_at_def)
  have room: "i + 8 \<le> length l" using wf_head_room[OF wf h] .
  have "(read_data lhs i 8 :: u64) = read_data l i 8"
    using room same len by (intro read_data_cong) auto
  then show ?thesis
    using i room len same eq clear_pointer_suffix[OF wf h len same]
    by (subst merge_loop.simps) (auto simp: Let_def same_ptr_def)
qed

lemma merge_loop_spec:
  assumes wf: "wf_elems l"
  shows "length lhs = length l \<Longrightarrow> \<forall>j. i \<le> j \<and> j < length l \<longrightarrow> lhs ! j = l ! j \<Longrightarrow>
    \<exists>d' m. merge_loop r i d lhs = Some (d', m) \<and> length m = length l \<and>
      (\<forall>j. j < i \<and> j < length l \<longrightarrow> m ! j = lhs ! j) \<and>
      (\<forall>j. i \<le> j \<and> j < length l \<longrightarrow> merge_at l r i j (m ! j)) \<and>
      (d' \<longleftrightarrow> d \<or> (\<exists>j. i \<le> j \<and> j < length l \<and> lost (l ! j) (m ! j)))"
proof (induction "length l - i" arbitrary: i d lhs rule: less_induct)
  case less
  note len = less.prems(1) and same = less.prems(2)
  show ?case
  proof (cases "i < length l")
    case False
    then show ?thesis using len by (subst merge_loop.simps) auto
  next
    case i: True
    have at: "lhs ! i = l ! i" using same i by simp
    show ?thesis
    proof (cases "is_head (etype (l ! i)) \<and> etype (r ! i) = etype (l ! i)")
      case True
      then have h: "head_at l i" and eq: "etype (r ! i) = etype (l ! i)" using i by (auto simp: head_at_def)
      have room: "i + 8 \<le> length l" using wf_head_room[OF wf h] .
      let ?lhs = "if same_ptr l r i then lhs else upd_range clr i (i + 8) lhs"
      have "length l - (i + 8) < length l - i" using i by simp
      moreover have "length ?lhs = length l" using len by simp
      moreover have "\<forall>j. i + 8 \<le> j \<and> j < length l \<longrightarrow> ?lhs ! j = l ! j"
        using same len by (auto simp: nth_upd_range)
      ultimately obtain d' m where m: "merge_loop r (i + 8) (d \<or> \<not> same_ptr l r i) ?lhs = Some (d', m)"
        and lm: "length m = length l" and lo: "\<forall>j. j < i + 8 \<and> j < length l \<longrightarrow> m ! j = ?lhs ! j"
        and hi: "\<forall>j. i + 8 \<le> j \<and> j < length l \<longrightarrow> merge_at l r (i + 8) j (m ! j)"
        and df: "d' \<longleftrightarrow> (d \<or> \<not> same_ptr l r i) \<or> (\<exists>j. i + 8 \<le> j \<and> j < length l \<and> lost (l ! j) (m ! j))"
        using less.hyps[of "i + 8" ?lhs "d \<or> \<not> same_ptr l r i"] by blast
      have nofar: "matched l r i j p \<longleftrightarrow> matched l r (i + 8) j p" if "i + 8 \<le> j" for j p
      proof
        assume a: "matched l r i j p"
        then have "\<not> (i < p \<and> p < i + 8)" using wf_head_tails(4)[OF wf h, of p] by (auto simp: matched_def)
        then show "matched l r (i + 8) j p" using a that by (auto simp: matched_def)
      qed (auto simp: matched_def)
      have near: "m ! j = (if same_ptr l r i then l ! j else clr (l ! j))" if "i \<le> j" "j < i + 8" for j
        using lo same that room len by (auto simp: nth_upd_range)
      have "merge_at l r i j (m ! j)" if "i \<le> j" "j < length l" for j
      proof (cases "j < i + 8")
        case True
        then have "matched l r i j i" using h eq that by (simp add: matched_def)
        then show ?thesis using near that True by (auto simp: merge_at_def)
      next
        case False
        then show ?thesis using hi that nofar[of j] by (simp add: merge_at_def)
      qed
      moreover have "\<not> same_ptr l r i \<longleftrightarrow> (\<exists>j. i \<le> j \<and> j < i + 8 \<and> lost (l ! j) (m ! j))"
      proof -
        have "lost (l ! j) (clr (l ! j))" if "j = i" for j
          using h that by (cases "etype (l ! i)") (auto simp: lost_def head_at_def)
        then show ?thesis using near by (auto simp: lost_def intro!: exI[of _ i])
      qed
      then have "d' \<longleftrightarrow> d \<or> (\<exists>j. i \<le> j \<and> j < length l \<and> lost (l ! j) (m ! j))"
        using df room by (auto dest: less_le_trans) (meson add_leE not_less order.strict_trans2)
      ultimately show ?thesis
        using m lm lo merge_loop_head[OF wf h len same eq]
        by (intro exI[of _ d'] exI[of _ m]) (auto simp: nth_upd_range len)
    next
      case False
      let ?e = "merge_elem (l ! i) (r ! i)"
      let ?lhs = "lhs[i := ?e]"
      have "length l - (i + 1) < length l - i" using i by simp
      moreover have "length ?lhs = length l" using len by simp
      moreover have "\<forall>j. i + 1 \<le> j \<and> j < length l \<longrightarrow> ?lhs ! j = l ! j" using same by simp
      ultimately obtain d' m where m: "merge_loop r (i + 1) (d \<or> lost (l ! i) ?e) ?lhs = Some (d', m)"
        and lm: "length m = length l" and lo: "\<forall>j. j < i + 1 \<and> j < length l \<longrightarrow> m ! j = ?lhs ! j"
        and hi: "\<forall>j. i + 1 \<le> j \<and> j < length l \<longrightarrow> merge_at l r (i + 1) j (m ! j)"
        and df: "d' \<longleftrightarrow> (d \<or> lost (l ! i) ?e) \<or> (\<exists>j. i + 1 \<le> j \<and> j < length l \<and> lost (l ! j) (m ! j))"
        using less.hyps[of "i + 1" ?lhs "d \<or> lost (l ! i) ?e"] by blast
      have mi: "m ! i = ?e" using lo i len by simp
      have nom: "matched l r i j p \<longleftrightarrow> matched l r (i + 1) j p" for j p
        using False i by (cases "p = i") (auto simp: matched_def head_at_def)
      have "merge_at l r i j (m ! j)" if "i \<le> j" "j < length l" for j
      proof (cases "j = i")
        case True
        then have "\<forall>p. \<not> matched l r i j p" using nom by (auto simp: matched_def)
        then show ?thesis using mi True by (simp add: merge_at_def)
      next
        case False
        then show ?thesis using hi that nom by (simp add: merge_at_def)
      qed
      moreover have "d' \<longleftrightarrow> d \<or> (\<exists>j. i \<le> j \<and> j < length l \<and> lost (l ! j) (m ! j))"
      proof -
        have "(\<exists>j. i \<le> j \<and> j < length l \<and> lost (l ! j) (m ! j)) \<longleftrightarrow>
            lost (l ! i) (m ! i) \<or> (\<exists>j. i + 1 \<le> j \<and> j < length l \<and> lost (l ! j) (m ! j))"
          using i by (metis Suc_eq_plus1 Suc_leD Suc_leI le_neq_implies_less order_refl)
        then show ?thesis using df mi by auto
      qed
      moreover have "merge_loop r i d lhs = merge_loop r (i + 1) (d \<or> lost (l ! i) ?e) ?lhs"
      proof -
        have "\<not> (etype (lhs ! i) = etype (r ! i) \<and> is_head (etype (lhs ! i)))" using False at by metis
        then show ?thesis using merge_loop_step[of i lhs r d] i len at by simp
      qed
      ultimately show ?thesis
        using m lm lo by (intro exI[of _ d'] exI[of _ m]) auto
    qed
  qed
qed

lemma merge_elements_spec:
  assumes "wf_elems l" and "length r = length l"
  shows "\<exists>d m. merge_elements l r = Some (d, m) \<and> length m = length l \<and>
    (\<forall>j < length l. merge_at l r 0 j (m ! j)) \<and>
    (d \<longleftrightarrow> (\<exists>j < length l. lost (l ! j) (m ! j)))"
  using merge_loop_spec[OF assms(1), of l 0 r False] assms(2) by (auto simp: merge_elements_def)

section \<open>Soundness of the merge\<close>

text \<open>What an element of the result can be.\<close>

lemma merge_at_imm:
  assumes wf: "wf_elems l" and j: "j < length l" and m: "merge_at l r 0 j e" and t: "etype e = EImmediate"
  shows "e = l ! j \<and> etype (r ! j) = EImmediate \<and> edata (r ! j) = edata (l ! j)"
  using m unfolding merge_at_def
proof (elim disjE exE conjE)
  fix p
  assume p: "matched l r 0 j p" and e: "e = (if same_ptr l r p then l ! j else clr (l ! j))"
  have "is_head (etype (l ! j)) \<or> is_tail (etype (l ! j))"
    using p wf_head_tails(3)[OF wf, of p j] by (cases "p = j") (auto simp: matched_def head_at_def tail_at_def)
  then show ?thesis using e t by (cases "etype (l ! j)") (auto split: if_splits)
next
  assume "e = merge_elem (l ! j) (r ! j)"
  then show ?thesis using t by (auto simp: merge_elem_def stackish_def split: if_splits)
qed

lemma merge_at_head:
  assumes wf: "wf_elems l" and j: "j < length l" and m: "merge_at l r 0 j e" and t: "etype e = EPtr k"
  shows "head_at l j \<and> matched l r 0 j j \<and> same_ptr l r j \<and> e = l ! j"
  using m unfolding merge_at_def
proof (elim disjE exE conjE)
  fix p
  assume p: "matched l r 0 j p" and e: "e = (if same_ptr l r p then l ! j else clr (l ! j))"
  have "cleared (etype (l ! j)) \<noteq> EPtr k"
    using cleared_plain(2)[of "etype (l ! j)"] by (metis is_head.simps(1))
  then have s: "same_ptr l r p" "e = l ! j" using t e by (auto split: if_splits)
  then have h: "head_at l j" using t j by (simp add: head_at_def)
  have "\<not> (p < j \<and> j < p + 8)"
    using h p wf_head_tails(4)[OF wf, of p j] by (auto simp: matched_def)
  then have "p = j" using p by (simp add: matched_def)
  then show ?thesis using p s h by simp
next
  assume nm: "\<forall>p. \<not> matched l r 0 j p" and e: "e = merge_elem (l ! j) (r ! j)"
  have "etype (l ! j) = EPtr k" "etype (r ! j) = EPtr k"
    using e t by (auto simp: merge_elem_def split: if_splits)
  then have "matched l r 0 j j" using j by (simp add: matched_def head_at_def)
  then show ?thesis using nm by blast
qed

lemma merge_pointer_kept:
  assumes wf: "wf_elems l" and all: "\<forall>j < length l. merge_at l r 0 j (m ! j)"
    and p: "matched l r 0 p p" "same_ptr l r p" and j: "p \<le> j" "j < p + 8"
  shows "m ! j = l ! j"
proof -
  have h: "head_at l p" using p by (simp add: matched_def)
  then have jl: "j < length l" using wf_head_room[OF wf h] j by simp
  have mj: "matched l r 0 j p" using p j by (simp add: matched_def)
  then show ?thesis using all jl matched_unique[OF wf mj] p(2) unfolding merge_at_def by metis
qed

lemma merge_conc:
  assumes wf: "wf_elems l" and len: "length r = length l" and mg: "merge_elements l r = Some (d, m)"
    and c: "conc base l cs \<or> conc base r cs"
  shows "conc base m cs"
proof -
  have lm: "length m = length l" and all: "\<forall>j < length l. merge_at l r 0 j (m ! j)"
    using merge_elements_spec[OF wf len] mg by auto
  have lc: "length cs = length l" using c len by (auto simp: conc_def)
  show ?thesis
  proof (rule concI)
    show "length cs = length m" using lc lm by simp
    fix j
    assume "j < length m"
    then have j: "j < length l" using lm by simp
    have mj: "merge_at l r 0 j (m ! j)" using all j by blast
    consider (imm) "etype (m ! j) = EImmediate" | (ptr) k where "etype (m ! j) = EPtr k"
      | (other) "etype (m ! j) \<noteq> EImmediate" "\<forall>k. etype (m ! j) \<noteq> EPtr k" by blast
    then show "conc_at base m cs j"
    proof cases
      case imm
      have e: "m ! j = l ! j" "etype (r ! j) = EImmediate" "edata (r ! j) = edata (l ! j)"
        using merge_at_imm[OF wf j mj imm] by auto
      then show ?thesis using c concD[of base l cs j] concD[of base r cs j] j len imm
        by (auto simp: conc_at_def)
    next
      case (ptr k)
      have e: "head_at l j" "matched l r 0 j j" "same_ptr l r j" "m ! j = l ! j"
        using merge_at_head[OF wf j mj ptr] by auto
      have room: "j + 8 \<le> length l" using wf_head_room[OF wf e(1)] .
      have rd: "(read_data m j 8 :: u64) = read_data l j 8"
        using room lm merge_pointer_kept[OF wf all e(2,3)] by (intro read_data_cong) simp_all
      have "etype (r ! j) = EPtr k" using e(2) e(4) ptr by (simp add: matched_def)
      then show ?thesis
        using c concD[of base l cs j] concD[of base r cs j] j len ptr e rd
        by (auto simp: conc_at_def same_ptr_def)
    qed (auto simp: conc_at_def split: elem_type.split)
  qed
qed

lemma merge_taint:
  assumes wf: "wf_elems l" "wf_elems r" and len: "length r = length l"
    and mg: "merge_elements l r = Some (d, m)" and j: "j < length l"
    and s: "stackish (etype (l ! j)) \<or> stackish (etype (r ! j))"
  shows "stackish (etype (m ! j))"
proof -
  have "merge_at l r 0 j (m ! j)" using merge_elements_spec[OF wf(1) len] mg j by auto
  then show ?thesis unfolding merge_at_def
  proof (elim disjE exE conjE)
    fix p
    assume p: "matched l r 0 j p" and e: "m ! j = (if same_ptr l r p then l ! j else clr (l ! j))"
    then have h: "head_at l p" "head_at r p" "etype (r ! p) = etype (l ! p)"
      using len by (auto simp: matched_def head_at_def)
    have "etype (r ! j) = etype (l ! j)"
      using p h wf_head_tails(2)[OF wf(1) h(1), of j] wf_head_tails(2)[OF wf(2) h(2), of j]
      by (cases "p = j") (auto simp: matched_def)
    then have "stackish (etype (l ! j))" using s by simp
    then show ?thesis using e unk_clr_type(4)[of "l ! j"] by (auto simp: stackish_def split: if_splits)
  next
    assume "m ! j = merge_elem (l ! j) (r ! j)"
    then show ?thesis using s by (auto simp: merge_elem_def stackish_def)
  qed
qed

text \<open>A merge that reports no difference describes exactly what the left side described.\<close>

lemma merge_no_diff:
  assumes wf: "wf_elems l" and len: "length r = length l" and mg: "merge_elements l r = Some (False, m)"
  shows "conc base m cs \<longleftrightarrow> conc base l cs"
proof
  assume "conc base l cs"
  then show "conc base m cs" using merge_conc[OF wf len mg] by blast
next
  assume c: "conc base m cs"
  have lm: "length m = length l" and all: "\<forall>j < length l. merge_at l r 0 j (m ! j)"
    and nl: "\<forall>j < length l. \<not> lost (l ! j) (m ! j)"
    using merge_elements_spec[OF wf len] mg by auto
  show "conc base l cs"
  proof (rule concI)
    show "length cs = length l" using c lm by (simp add: conc_def)
    fix j assume j: "j < length l"
    have ty: "etype (m ! j) = etype (l ! j) \<or> etype (l ! j) = EUnknown"
      using nl j by (auto simp: lost_def)
    have mj: "merge_at l r 0 j (m ! j)" using all j by blast
    have cj: "conc_at base m cs j" using concD[OF c] j lm by simp
    consider (imm) "etype (l ! j) = EImmediate" | (ptr) k where "etype (l ! j) = EPtr k"
      | (other) "etype (l ! j) \<noteq> EImmediate" "\<forall>k. etype (l ! j) \<noteq> EPtr k" by blast
    then show "conc_at base l cs j"
    proof cases
      case imm
      then show ?thesis using ty merge_at_imm[OF wf j mj] cj by (simp add: conc_at_def)
    next
      case (ptr k)
      then have e: "head_at l j" "matched l r 0 j j" "same_ptr l r j" "m ! j = l ! j"
        using ty merge_at_head[OF wf j mj, of k] by auto
      have "(read_data m j 8 :: u64) = read_data l j 8"
        using wf_head_room[OF wf e(1)] lm merge_pointer_kept[OF wf all e(2,3)]
        by (intro read_data_cong) simp_all
      then show ?thesis using cj e ptr by (simp add: conc_at_def)
    qed (auto simp: conc_at_def split: elem_type.split)
  qed
qed

section \<open>The shape of the result\<close>

text \<open>
  The merge keeps the shape when two tails of the same type at the same place always belong to
  matched pointers. Two pointers that overlap at different offsets, or a user pointer on one
  side and a return pointer on the other, leave tails without a pointer.
\<close>

definition compatible :: "elem list \<Rightarrow> elem list \<Rightarrow> bool" where
  "compatible l r \<longleftrightarrow>
     list_all (\<lambda>i. is_tail (etype (l ! i)) \<and> etype (l ! i) = etype (r ! i) \<longrightarrow>
       list_ex (\<lambda>j. j \<le> i \<and> head_at l (i - j) \<and> etype (r ! (i - j)) = etype (l ! (i - j))) [1..<8])
     [0..<length l]"

lemma compatibleD:
  assumes "compatible l r" and "i < length l" and "is_tail (etype (l ! i))" and "etype (l ! i) = etype (r ! i)"
  shows "\<exists>p. matched l r 0 i p"
proof -
  have "list_ex (\<lambda>j. j \<le> i \<and> head_at l (i - j) \<and> etype (r ! (i - j)) = etype (l ! (i - j))) [1..<8]"
    using assms by (auto simp: compatible_def list_all_iff)
  then obtain j where "j \<in> set [1..<8]" "j \<le> i" "head_at l (i - j)" "etype (r ! (i - j)) = etype (l ! (i - j))"
    by (auto simp: list_ex_iff)
  then show ?thesis by (intro exI[of _ "i - j"]) (auto simp: matched_def)
qed

lemma merge_wf:
  assumes wf: "wf_elems l" and len: "length r = length l" and mg: "merge_elements l r = Some (d, m)"
    and cm: "compatible l r"
  shows "wf_elems m"
proof -
  have lm: "length m = length l" and all: "\<forall>j < length l. merge_at l r 0 j (m ! j)"
    using merge_elements_spec[OF wf len] mg by auto
  show ?thesis
  proof (rule wf_elemsI)
    fix i k
    assume i: "i < length m" "etype (m ! i) = EPtr k"
    then have e: "head_at l i" "matched l r 0 i i" "same_ptr l r i" "m ! i = l ! i"
      using merge_at_head[OF wf, of i r "m ! i" k] all lm by auto
    have "etype (m ! j) = tail_of k" if "i < j" "j < i + 8" for j
      using merge_pointer_kept[OF wf all e(2,3), of j] wf_head_tails(2)[OF wf e(1) that] that e(4) i(2) by simp
    then show "i + 8 \<le> length m \<and> (\<forall>j. i < j \<and> j < i + 8 \<longrightarrow> etype (m ! j) = tail_of k)"
      using wf_head_room[OF wf e(1)] lm by simp
  next
    fix i
    assume i: "i < length m" "is_tail (etype (m ! i))"
    have "\<exists>p. matched l r 0 i p \<and> same_ptr l r p"
    proof -
      have "merge_at l r 0 i (m ! i)" using all i lm by simp
      then show ?thesis unfolding merge_at_def
      proof (elim disjE exE conjE)
        fix p
        assume "matched l r 0 i p" "m ! i = (if same_ptr l r p then l ! i else clr (l ! i))"
        then show ?thesis using i(2) by (auto split: if_splits)
      next
        assume nm: "\<forall>p. \<not> matched l r 0 i p" and e: "m ! i = merge_elem (l ! i) (r ! i)"
        then have "is_tail (etype (l ! i))" "etype (l ! i) = etype (r ! i)"
          using i(2) by (auto simp: merge_elem_def split: if_splits)
        then show ?thesis using compatibleD[OF cm] nm i lm by auto
      qed
    qed
    then obtain p where p: "matched l r 0 i p" "same_ptr l r p" by blast
    then have pp: "matched l r 0 p p" and h: "head_at l p" by (auto simp: matched_def)
    have "m ! p = l ! p" using merge_pointer_kept[OF wf all pp p(2)] by simp
    then have "head_at m p" using h lm by (simp add: head_at_def)
    moreover have "p \<noteq> i" using \<open>m ! p = l ! p\<close> i(2) h by (auto simp: head_at_def dest: not_tail_head)
    ultimately show "\<exists>p. head_at m p \<and> p < i \<and> i < p + 8"
      using p(1) by (intro exI[of _ p]) (simp add: matched_def)
  qed
qed

section \<open>Progress\<close>

text \<open>
  How much an element still says. A merge never adds information; if it reports a difference,
  either the sum goes down or an element went from Dead to Unknown.
\<close>

fun rank :: "elem_type \<Rightarrow> nat" where
  "rank ETainted = 0"
| "rank EUnknown = 1"
| "rank EDead = 1"
| "rank _ = 2"

definition weight :: "elem list \<Rightarrow> nat" where
  "weight es = (\<Sum>e\<leftarrow>es. rank (etype e))"

lemma cleared_rank: "rank (cleared t) \<le> rank t" "is_head t \<or> is_tail t \<Longrightarrow> rank (cleared t) < rank t"
  by (cases t; auto)+

lemma merge_at_rank:
  assumes wf: "wf_elems l" and j: "j < length l" and m: "merge_at l r 0 j e"
  shows "rank (etype e) \<le> rank (etype (l ! j))"
    and "lost (l ! j) e \<Longrightarrow> rank (etype e) < rank (etype (l ! j)) \<or> etype (l ! j) = EDead \<and> etype e = EUnknown"
proof -
  have "rank (etype e) \<le> rank (etype (l ! j)) \<and>
    (lost (l ! j) e \<longrightarrow> rank (etype e) < rank (etype (l ! j)) \<or> etype (l ! j) = EDead \<and> etype e = EUnknown)"
    using m unfolding merge_at_def
  proof (elim disjE exE conjE)
    fix p
    assume p: "matched l r 0 j p" and e: "e = (if same_ptr l r p then l ! j else clr (l ! j))"
    have "is_head (etype (l ! j)) \<or> is_tail (etype (l ! j))"
      using p wf_head_tails(3)[OF wf, of p j] by (cases "p = j") (auto simp: matched_def head_at_def tail_at_def)
    then show ?thesis using e cleared_rank[of "etype (l ! j)"] by (auto simp: lost_def)
  next
    assume "e = merge_elem (l ! j) (r ! j)"
    then show ?thesis
      by (cases "etype (l ! j)"; cases "etype (r ! j)") (auto simp: merge_elem_def lost_def stackish_def)
  qed
  then show "rank (etype e) \<le> rank (etype (l ! j))"
    and "lost (l ! j) e \<Longrightarrow> rank (etype e) < rank (etype (l ! j)) \<or> etype (l ! j) = EDead \<and> etype e = EUnknown"
    by blast+
qed

lemma weight_sum: "weight es = (\<Sum>i < length es. rank (etype (es ! i)))"
  by (simp add: weight_def sum_list_sum_nth atLeast0LessThan)

lemma merge_weight:
  assumes wf: "wf_elems l" and len: "length r = length l" and mg: "merge_elements l r = Some (d, m)"
  shows "weight m \<le> weight l"
    and "d \<Longrightarrow> weight m < weight l \<or> (\<exists>j < length l. etype (l ! j) = EDead \<and> etype (m ! j) = EUnknown)"
proof -
  have lm: "length m = length l" and all: "\<forall>j < length l. merge_at l r 0 j (m ! j)"
    and df: "d \<longleftrightarrow> (\<exists>j < length l. lost (l ! j) (m ! j))"
    using merge_elements_spec[OF wf len] mg by auto
  have le: "rank (etype (m ! j)) \<le> rank (etype (l ! j))" if "j < length l" for j
    using merge_at_rank(1)[OF wf that] all that by blast
  show "weight m \<le> weight l"
    using le lm by (auto simp: weight_sum intro: sum_mono)
  assume d
  then obtain j where j: "j < length l" "lost (l ! j) (m ! j)" using df by blast
  show "weight m < weight l \<or> (\<exists>j < length l. etype (l ! j) = EDead \<and> etype (m ! j) = EUnknown)"
  proof (cases "etype (l ! j) = EDead \<and> etype (m ! j) = EUnknown")
    case False
    then have "rank (etype (m ! j)) < rank (etype (l ! j))"
      using merge_at_rank(2)[OF wf j(1)] all j by blast
    then have "weight m < weight l"
      using le lm j by (auto simp: weight_sum intro!: sum_strict_mono_ex1)
    then show ?thesis by blast
  qed (use j in blast)
qed

end
