(* ===== verification/Bitmap.thy ===== *)
theory Bitmap
  imports Prelude
begin

text \<open>
  The bitmaps of \<open>src/util/bitmap.h\<close> and \<open>src/util/bitmap.c\<close>: an array of 64-bit
  elements with a number of valid bits that every operation is told. The abstraction of a
  bitmap is the set of its valid bits (\<open>bits_of\<close>), and each operation is related to the
  operation on sets. The interface a client of the bitmaps relies on is the locale
  \<open>bit_set\<close>; its interpretation on the operations of the code discharges the laws.

  Where the number of bits is a multiple of 64 the code's mask of the last element shifts a
  64-bit value by 64, which C leaves undefined; the laws below are for the other sizes (the
  program uses one size, the 134 subregisters).
\<close>

type_synonym bitmap = "u64 list"

section \<open>The operations\<close>

definition bitmap_elements :: "nat \<Rightarrow> nat" where
  "bitmap_elements bits = (bits + 64 - 1) div 64"

definition bitmap_last_mask :: "nat \<Rightarrow> u64" where
  "bitmap_last_mask bits = drop_bit (64 - bits mod 64) (- 1)"

definition bitmap_zero :: "nat \<Rightarrow> bitmap" where
  "bitmap_zero bits = replicate (bitmap_elements bits) 0"

definition bitmap_fill :: "nat \<Rightarrow> bitmap" where
  "bitmap_fill bits =
     (replicate (bitmap_elements bits) (- 1)) [bitmap_elements bits - 1 := bitmap_last_mask bits]"

definition bitmap_andnot :: "bitmap \<Rightarrow> bitmap \<Rightarrow> nat \<Rightarrow> bitmap" where
  "bitmap_andnot src1 src2 bits =
     map (\<lambda>i. src1 ! i AND NOT (src2 ! i)) [0..<bitmap_elements bits]"

definition bitmap_or :: "bitmap \<Rightarrow> bitmap \<Rightarrow> nat \<Rightarrow> bitmap" where
  "bitmap_or src1 src2 bits = map (\<lambda>i. src1 ! i OR src2 ! i) [0..<bitmap_elements bits]"

definition bitmap_and :: "bitmap \<Rightarrow> bitmap \<Rightarrow> nat \<Rightarrow> bitmap" where
  "bitmap_and src1 src2 bits = map (\<lambda>i. src1 ! i AND src2 ! i) [0..<bitmap_elements bits]"

definition bitmap_equal :: "bitmap \<Rightarrow> bitmap \<Rightarrow> nat \<Rightarrow> bool" where
  "bitmap_equal src1 src2 bits =
     (let elements = bitmap_elements bits in
      (if 0 < elements then list_all (\<lambda>i. src1 ! i = src2 ! i) [0..<elements - 1] else True) \<and>
      src1 ! (elements - 1) AND bitmap_last_mask bits =
      src2 ! (elements - 1) AND bitmap_last_mask bits)"

definition bitmap_empty :: "bitmap \<Rightarrow> nat \<Rightarrow> bool" where
  "bitmap_empty bmap bits =
     (let elements = bitmap_elements bits in
      (if 0 < elements then list_all (\<lambda>i. bmap ! i = 0) [0..<elements - 1] else True) \<and>
      bmap ! (elements - 1) AND bitmap_last_mask bits = 0)"

definition bitmap_set_bit :: "bitmap \<Rightarrow> nat \<Rightarrow> bitmap" where
  "bitmap_set_bit bmap n =
     bmap[n div 64 := bmap ! (n div 64) OR push_bit (n mod 64) 1]"

section \<open>The set a bitmap stands for\<close>

definition wf_bitmap :: "nat \<Rightarrow> bitmap \<Rightarrow> bool" where
  "wf_bitmap bits bm \<longleftrightarrow> length bm = bitmap_elements bits"

definition bits_of :: "nat \<Rightarrow> bitmap \<Rightarrow> nat set" where
  "bits_of bits bm = {k. k < bits \<and> bit (bm ! (k div 64)) (k mod 64)}"

lemma elements_bound: "k < bits \<Longrightarrow> k div 64 < bitmap_elements bits"
  unfolding bitmap_elements_def by (simp add: div_less_iff_less_mult)

lemma bits_of_zero: "bits_of bits (bitmap_zero bits) = {}"
  by (auto simp: bits_of_def bitmap_zero_def elements_bound)

lemma bits_of_or: "bits_of bits (bitmap_or a b bits) = bits_of bits a \<union> bits_of bits b"
  by (auto simp: bits_of_def bitmap_or_def elements_bound bit_simps)

lemma bits_of_andnot: "bits_of bits (bitmap_andnot a b bits) = bits_of bits a - bits_of bits b"
  by (auto simp: bits_of_def bitmap_andnot_def elements_bound bit_simps)

lemma bits_of_and: "bits_of bits (bitmap_and a b bits) = bits_of bits a \<inter> bits_of bits b"
  by (auto simp: bits_of_def bitmap_and_def elements_bound bit_simps)

lemma bit_last_mask:
  "bits mod 64 \<noteq> 0 \<Longrightarrow> bit (bitmap_last_mask bits) k \<longleftrightarrow> k < bits mod 64"
  by (auto simp: bitmap_last_mask_def bit_simps)

lemma last_element:
  assumes "bits mod 64 \<noteq> 0"
  shows "bitmap_elements bits = Suc (bits div 64)"
proof -
  define q r where "q = bits div 64" and "r = bits mod 64"
  have eq: "bits = 64 * q + r" and "0 < r" and "r < 64" using assms by (simp_all add: q_def r_def)
  then have "(bits + 64 - 1) div 64 = Suc q"
    by (intro div_nat_eqI) simp_all
  then show ?thesis by (simp add: bitmap_elements_def q_def)
qed

text \<open>The valid bits, split into the full elements and the last one.\<close>

lemma valid_bit_cases:
  fixes k bits :: nat
  assumes "bits mod 64 \<noteq> 0"
  shows "k < bits \<longleftrightarrow> k div 64 < bits div 64 \<or> k div 64 = bits div 64 \<and> k mod 64 < bits mod 64"
  using div_mult_mod_eq[of k 64] div_mult_mod_eq[of bits 64]
    mod_less_divisor[of 64 k] mod_less_divisor[of 64 bits] by linarith

lemma nth_bitmap_fill:
  "i < bitmap_elements bits \<Longrightarrow>
   bitmap_fill bits ! i = (if i = bitmap_elements bits - 1 then bitmap_last_mask bits else - 1)"
  by (simp add: bitmap_fill_def)

lemma nth_bitmap_zero: "i < bitmap_elements bits \<Longrightarrow> bitmap_zero bits ! i = 0"
  by (simp add: bitmap_zero_def)

lemma bits_of_fill:
  assumes "bits mod 64 \<noteq> 0"
  shows "bits_of bits (bitmap_fill bits) = {..<bits}"
proof -
  have "bit (bitmap_fill bits ! (k div 64)) (k mod 64)" if "k < bits" for k
    using that valid_bit_cases[OF assms, of k] elements_bound[OF that]
    by (auto simp: nth_bitmap_fill last_element[OF assms] bit_last_mask[OF assms])
  then show ?thesis by (auto simp: bits_of_def)
qed

text \<open>Two bitmaps agree on the valid bits exactly when their elements agree, the last one masked.\<close>

lemma elements_agree:
  assumes "bits mod 64 \<noteq> 0"
  shows "bits_of bits a = bits_of bits b \<longleftrightarrow>
    (\<forall>i < bits div 64. a ! i = b ! i) \<and>
    a ! (bits div 64) AND bitmap_last_mask bits = b ! (bits div 64) AND bitmap_last_mask bits"
    (is "?l \<longleftrightarrow> ?full \<and> ?last")
proof
  assume ?l
  then have agree: "bit (a ! (k div 64)) (k mod 64) = bit (b ! (k div 64)) (k mod 64)" if "k < bits" for k
    using that by (auto simp: bits_of_def set_eq_iff)
  have ?full
  proof (intro allI impI)
    fix i
    assume i: "i < bits div 64"
    show "a ! i = b ! i"
    proof (rule bit_word_eqI)
      fix k
      assume "k < LENGTH(64)"
      then have "k < 64" by simp
      then show "bit (a ! i) k = bit (b ! i) k"
        using agree[of "64 * i + k"] i valid_bit_cases[OF assms, of "64 * i + k"] by simp
    qed
  qed
  moreover have ?last
  proof (rule bit_word_eqI)
    fix k
    assume "k < LENGTH(64)"
    then have "k < 64" by simp
    then show "bit (a ! (bits div 64) AND bitmap_last_mask bits) k =
        bit (b ! (bits div 64) AND bitmap_last_mask bits) k"
      using agree[of "64 * (bits div 64) + k"] valid_bit_cases[OF assms, of "64 * (bits div 64) + k"]
      by (auto simp: bit_simps bit_last_mask[OF assms])
  qed
  ultimately show "?full \<and> ?last" by simp
next
  assume r: "?full \<and> ?last"
  have "bit (a ! (k div 64)) (k mod 64) = bit (b ! (k div 64)) (k mod 64)" if "k < bits" for k
  proof (cases "k div 64 < bits div 64")
    case False
    then have "k div 64 = bits div 64" "k mod 64 < bits mod 64"
      using valid_bit_cases[OF assms, of k] that by auto
    then show ?thesis
      using arg_cong[OF conjunct2[OF r], of "\<lambda>w. bit w (k mod 64)"]
      by (simp add: bit_simps bit_last_mask[OF assms])
  qed (use r in simp)
  then show ?l by (auto simp: bits_of_def)
qed

lemma bitmap_equal_iff:
  "bits mod 64 \<noteq> 0 \<Longrightarrow> bitmap_equal a b bits \<longleftrightarrow> bits_of bits a = bits_of bits b"
  by (auto simp: bitmap_equal_def Let_def last_element elements_agree list_all_iff)

lemma bitmap_empty_iff:
  assumes "bits mod 64 \<noteq> 0"
  shows "bitmap_empty a bits \<longleftrightarrow> bits_of bits a = {}"
proof -
  have "bitmap_empty a bits \<longleftrightarrow> bits_of bits a = bits_of bits (bitmap_zero bits)"
    using assms
    by (auto simp: bitmap_empty_def Let_def last_element elements_agree list_all_iff nth_bitmap_zero)
  then show ?thesis by (simp add: bits_of_zero)
qed

lemma bits_of_set_bit:
  assumes "wf_bitmap bits bm" and "n < bits"
  shows "bits_of bits (bitmap_set_bit bm n) = insert n (bits_of bits bm)"
proof -
  have n: "n div 64 < length bm" using assms elements_bound by (simp add: wf_bitmap_def)
  have "bit (bitmap_set_bit bm n ! (k div 64)) (k mod 64) \<longleftrightarrow>
        k = n \<or> bit (bm ! (k div 64)) (k mod 64)" for k
  proof (cases "k div 64 = n div 64")
    case True
    then have "k = n \<longleftrightarrow> k mod 64 = n mod 64" by (metis div_mult_mod_eq)
    with True n show ?thesis by (auto simp: bitmap_set_bit_def bit_simps)
  qed (auto simp: bitmap_set_bit_def)
  then show ?thesis using assms(2) by (auto simp: bits_of_def)
qed

lemma wf_bitmap_ops:
  "wf_bitmap bits (bitmap_zero bits)" "wf_bitmap bits (bitmap_fill bits)"
  "wf_bitmap bits (bitmap_or a b bits)" "wf_bitmap bits (bitmap_andnot a b bits)"
  "wf_bitmap bits (bitmap_and a b bits)"
  "wf_bitmap bits a \<Longrightarrow> wf_bitmap bits (bitmap_set_bit a n)"
  by (simp_all add: wf_bitmap_def bitmap_zero_def bitmap_fill_def bitmap_or_def bitmap_andnot_def
      bitmap_and_def bitmap_set_bit_def)

section \<open>The interface of a register mask\<close>

text \<open>
  What the analyses rely on: the operators of \<open>SubRegisterMask\<close>, with the set a mask stands
  for. The client lemmas inside are the mask computations of the liveness analysis.
\<close>

locale bit_set =
  fixes univ :: "nat set"
    and zero :: 'm and full :: 'm
    and add :: "'m \<Rightarrow> 'm \<Rightarrow> 'm" and sub :: "'m \<Rightarrow> 'm \<Rightarrow> 'm" and inter :: "'m \<Rightarrow> 'm \<Rightarrow> 'm"
    and eq :: "'m \<Rightarrow> 'm \<Rightarrow> bool" and is_zero :: "'m \<Rightarrow> bool"
    and set_of :: "'m \<Rightarrow> nat set"
  assumes set_zero: "set_of zero = {}"
    and set_full: "set_of full = univ"
    and set_add: "set_of (add a b) = set_of a \<union> set_of b"
    and set_sub: "set_of (sub a b) = set_of a - set_of b"
    and set_inter: "set_of (inter a b) = set_of a \<inter> set_of b"
    and eq_iff: "eq a b \<longleftrightarrow> set_of a = set_of b"
    and is_zero_iff: "is_zero a \<longleftrightarrow> set_of a = {}"
    and set_bounded: "set_of a \<subseteq> univ"
begin

text \<open>Subtracting what an instruction writes changes a mask exactly if one of the written bits is in it.\<close>

lemma sub_unchanged:
  "eq (sub (sub a w) c) a \<longleftrightarrow> set_of a \<inter> (set_of w \<union> set_of c) = {}"
  by (auto simp: eq_iff set_sub)

text \<open>The transfer of a mask backwards over an instruction.\<close>

lemma set_transfer:
  "set_of (add (add (sub live w) r) p) = (set_of live - set_of w) \<union> set_of r \<union> set_of p"
  by (simp add: set_add set_sub)

lemma transfer_mono:
  "set_of a \<subseteq> set_of b \<Longrightarrow>
   set_of (add (add (sub a w) r) p) \<subseteq> set_of (add (add (sub b w) r) p)"
  by (auto simp: set_transfer)

lemma add_full: "eq (add a full) full"
  using set_bounded[of a] by (auto simp: eq_iff set_add set_full)

end

end
