(* ===== verification/Registers.thy ===== *)
theory Registers
  imports Bitmap
begin

text \<open>
  The registers of x86-64 as the program models them: the enumerations of
  \<open>src/x86/arch_def.h\<close>, the register masks that \<open>src/x86/gen/gen-defs.cpp\<close> generates,
  the register table of \<open>src/x86/RegisterInfo.cpp\<close>, and the mask lookup of
  \<open>src/RegisterInfo.cpp\<close>.

  The two enumerations are flat lists of 91 and 134 names built from families (a general
  purpose register with its parts, an XMM register with its parts). They are modelled by
  datatypes with one constructor per family and the member as an argument; the position
  functions \<open>register_index\<close> and \<open>subregister_index\<close> give the enumerators' values, and
  both are shown to number the families exactly as the source does.
\<close>

section \<open>Enumerations\<close>

datatype flag = FCF | FPF | FAF | FZF | FSF | FOF

datatype gpr = GA | GB | GC | GD | GSI | GDI | GBP | GSP
  | G8 | G9 | G10 | G11 | G12 | G13 | G14 | G15

datatype gpr_high = HA | HB | HC | HD

datatype xmm = X0 | X1 | X2 | X3 | X4 | X5 | X6 | X7
  | X8 | X9 | X10 | X11 | X12 | X13 | X14 | X15

datatype register =
    NoReg
  | FlagReg flag        \<comment> \<open>CF, PF, AF, ZF, SF, OF\<close>
  | Gpr64 gpr           \<comment> \<open>RAX, ..., RSP, R8, ..., R15\<close>
  | Gpr32 gpr           \<comment> \<open>EAX, ..., ESP, R8D, ..., R15D\<close>
  | Gpr16 gpr           \<comment> \<open>AX, ..., SP, R8W, ..., R15W\<close>
  | Gpr8 gpr            \<comment> \<open>AL, ..., SPL, R8B, ..., R15B\<close>
  | Gpr8H gpr_high      \<comment> \<open>AH, BH, CH, DH\<close>
  | XmmReg xmm          \<comment> \<open>XMM0, ..., XMM15\<close>

datatype gpr_part = B0 | B1 | W1 | D1
datatype xmm_part = XD0 | XD1 | XD2 | XD3

datatype subregister =
    FlagSub flag
  | GprSub gpr gpr_part   \<comment> \<open>A_B0, A_B1, A_W1, A_D1, ..., R15_D1\<close>
  | XmmSub xmm xmm_part   \<comment> \<open>XMM0_D0, ..., XMM15_D3\<close>

abbreviation "CF \<equiv> FlagReg FCF"
abbreviation "PF \<equiv> FlagReg FPF"
abbreviation "AF \<equiv> FlagReg FAF"
abbreviation "ZF \<equiv> FlagReg FZF"
abbreviation "SF \<equiv> FlagReg FSF"
abbreviation "OvF \<equiv> FlagReg FOF"
abbreviation "RAX \<equiv> Gpr64 GA"
abbreviation "EAX \<equiv> Gpr32 GA"
abbreviation "AX \<equiv> Gpr16 GA"
abbreviation "AL \<equiv> Gpr8 GA"
abbreviation "AH \<equiv> Gpr8H HA"
abbreviation "RBX \<equiv> Gpr64 GB"
abbreviation "RCX \<equiv> Gpr64 GC"
abbreviation "ECX \<equiv> Gpr32 GC"
abbreviation "RDX \<equiv> Gpr64 GD"
abbreviation "RSI \<equiv> Gpr64 GSI"
abbreviation "RDI \<equiv> Gpr64 GDI"
abbreviation "RBP \<equiv> Gpr64 GBP"
abbreviation "RSP \<equiv> Gpr64 GSP"
abbreviation "XMM0 \<equiv> XmmReg X0"

primrec flag_nr :: "flag \<Rightarrow> nat" where
  "flag_nr FCF = 0" | "flag_nr FPF = 1" | "flag_nr FAF = 2"
| "flag_nr FZF = 3" | "flag_nr FSF = 4" | "flag_nr FOF = 5"

primrec gpr_nr :: "gpr \<Rightarrow> nat" where
  "gpr_nr GA = 0" | "gpr_nr GB = 1" | "gpr_nr GC = 2" | "gpr_nr GD = 3"
| "gpr_nr GSI = 4" | "gpr_nr GDI = 5" | "gpr_nr GBP = 6" | "gpr_nr GSP = 7"
| "gpr_nr G8 = 8" | "gpr_nr G9 = 9" | "gpr_nr G10 = 10" | "gpr_nr G11 = 11"
| "gpr_nr G12 = 12" | "gpr_nr G13 = 13" | "gpr_nr G14 = 14" | "gpr_nr G15 = 15"

primrec gpr_of_high :: "gpr_high \<Rightarrow> gpr" where
  "gpr_of_high HA = GA" | "gpr_of_high HB = GB" | "gpr_of_high HC = GC" | "gpr_of_high HD = GD"

primrec xmm_nr :: "xmm \<Rightarrow> nat" where
  "xmm_nr X0 = 0" | "xmm_nr X1 = 1" | "xmm_nr X2 = 2" | "xmm_nr X3 = 3"
| "xmm_nr X4 = 4" | "xmm_nr X5 = 5" | "xmm_nr X6 = 6" | "xmm_nr X7 = 7"
| "xmm_nr X8 = 8" | "xmm_nr X9 = 9" | "xmm_nr X10 = 10" | "xmm_nr X11 = 11"
| "xmm_nr X12 = 12" | "xmm_nr X13 = 13" | "xmm_nr X14 = 14" | "xmm_nr X15 = 15"

primrec gpr_part_nr :: "gpr_part \<Rightarrow> nat" where
  "gpr_part_nr B0 = 0" | "gpr_part_nr B1 = 1" | "gpr_part_nr W1 = 2" | "gpr_part_nr D1 = 3"

primrec xmm_part_nr :: "xmm_part \<Rightarrow> nat" where
  "xmm_part_nr XD0 = 0" | "xmm_part_nr XD1 = 1" | "xmm_part_nr XD2 = 2" | "xmm_part_nr XD3 = 3"

text \<open>The value of an enumerator of \<open>SubRegister\<close>, and \<open>SubRegister::MAX\<close>.\<close>

primrec subregister_index :: "subregister \<Rightarrow> nat" where
  "subregister_index (FlagSub f) = flag_nr f"
| "subregister_index (GprSub g p) = 6 + 4 * gpr_nr g + gpr_part_nr p"
| "subregister_index (XmmSub x p) = 70 + 4 * xmm_nr x + xmm_part_nr p"

definition subregister_bits :: nat where
  "subregister_bits = 134"

text \<open>
  The value of an enumerator of \<open>Register\<close>: the four registers with a high byte take
  five values each (RAX, EAX, AX, AH, AL), the others four.
\<close>

definition gpr_base :: "gpr \<Rightarrow> nat" where
  "gpr_base g = (if gpr_nr g < 4 then 7 + 5 * gpr_nr g else 27 + 4 * (gpr_nr g - 4))"

primrec register_index :: "register \<Rightarrow> nat" where
  "register_index NoReg = 0"
| "register_index (FlagReg f) = 1 + flag_nr f"
| "register_index (Gpr64 g) = gpr_base g"
| "register_index (Gpr32 g) = gpr_base g + 1"
| "register_index (Gpr16 g) = gpr_base g + 2"
| "register_index (Gpr8H h) = gpr_base (gpr_of_high h) + 3"
| "register_index (Gpr8 g) = gpr_base g + (if gpr_nr g < 4 then 4 else 3)"
| "register_index (XmmReg x) = 75 + xmm_nr x"

definition all_flags :: "flag list" where
  "all_flags = [FCF, FPF, FAF, FZF, FSF, FOF]"
definition all_gprs :: "gpr list" where
  "all_gprs = [GA, GB, GC, GD, GSI, GDI, GBP, GSP, G8, G9, G10, G11, G12, G13, G14, G15]"
definition all_xmms :: "xmm list" where
  "all_xmms = [X0, X1, X2, X3, X4, X5, X6, X7, X8, X9, X10, X11, X12, X13, X14, X15]"

definition all_registers :: "register list" where
  "all_registers =
     NoReg # map FlagReg all_flags
     @ concat (map (\<lambda>h. [Gpr64 (gpr_of_high h), Gpr32 (gpr_of_high h), Gpr16 (gpr_of_high h),
         Gpr8H h, Gpr8 (gpr_of_high h)]) [HA, HB, HC, HD])
     @ concat (map (\<lambda>g. [Gpr64 g, Gpr32 g, Gpr16 g, Gpr8 g]) (drop 4 all_gprs))
     @ map XmmReg all_xmms"

definition all_subregisters :: "subregister list" where
  "all_subregisters = map FlagSub all_flags
     @ concat (map (\<lambda>g. [GprSub g B0, GprSub g B1, GprSub g W1, GprSub g D1]) all_gprs)
     @ concat (map (\<lambda>x. [XmmSub x XD0, XmmSub x XD1, XmmSub x XD2, XmmSub x XD3]) all_xmms)"

lemma in_all_registers: "r \<in> set all_registers"
proof (cases r)
  case (Gpr64 g) then show ?thesis by (cases g) (simp_all add: all_registers_def all_gprs_def)
next
  case (Gpr32 g) then show ?thesis by (cases g) (simp_all add: all_registers_def all_gprs_def)
next
  case (Gpr16 g) then show ?thesis by (cases g) (simp_all add: all_registers_def all_gprs_def)
next
  case (Gpr8 g) then show ?thesis by (cases g) (simp_all add: all_registers_def all_gprs_def)
next
  case (Gpr8H h) then show ?thesis by (cases h) (simp_all add: all_registers_def)
next
  case (FlagReg f) then show ?thesis by (cases f) (simp_all add: all_registers_def all_flags_def)
next
  case (XmmReg x) then show ?thesis by (cases x) (simp_all add: all_registers_def all_xmms_def)
qed (simp add: all_registers_def)

lemma in_all_subregisters: "s \<in> set all_subregisters"
proof (cases s)
  case (FlagSub f) then show ?thesis by (cases f) (simp_all add: all_subregisters_def all_flags_def)
next
  case (GprSub g p)
  have "g \<in> set all_gprs" by (cases g) (simp_all add: all_gprs_def)
  with GprSub show ?thesis by (cases p) (auto simp: all_subregisters_def)
next
  case (XmmSub x p)
  have "x \<in> set all_xmms" by (cases x) (simp_all add: all_xmms_def)
  with XmmSub show ?thesis by (cases p) (auto simp: all_subregisters_def)
qed

text \<open>The families enumerate the same numbers as the source's enumerations, without gaps.\<close>

lemma subregister_enumeration: "map subregister_index all_subregisters = [0..<subregister_bits]"
  by (simp add: all_subregisters_def all_flags_def all_gprs_def all_xmms_def
      subregister_bits_def upt_rec)

lemma register_enumeration: "map register_index all_registers = [0..<91]"
  by (simp add: all_registers_def all_flags_def all_gprs_def all_xmms_def gpr_base_def upt_rec)

lemma register_index_inj: "register_index r = register_index r' \<Longrightarrow> r = r'"
  by (metis register_enumeration in_all_registers distinct_map distinct_upt inj_onD)

lemma subregister_index_inj [simp]: "subregister_index s = subregister_index s' \<longleftrightarrow> s = s'"
  by (metis subregister_enumeration in_all_subregisters distinct_map distinct_upt inj_onD)

lemma subregister_index_bound [simp]: "subregister_index s < subregister_bits"
proof -
  have "subregister_index s \<in> set [0..<subregister_bits]"
    unfolding subregister_enumeration [symmetric] using in_all_subregisters by simp
  then show ?thesis by simp
qed

lemma subregister_index_onto: "k < subregister_bits \<Longrightarrow> \<exists>s. subregister_index s = k"
proof -
  assume "k < subregister_bits"
  then have "k \<in> set (map subregister_index all_subregisters)"
    by (simp only: subregister_enumeration) simp
  then show ?thesis by auto
qed

text \<open>Registers are ordered by their enumerators, as C++ compares them.\<close>

instantiation register :: linorder
begin

definition less_eq_register :: "register \<Rightarrow> register \<Rightarrow> bool" where
  "less_eq_register r r' \<longleftrightarrow> register_index r \<le> register_index r'"

definition less_register :: "register \<Rightarrow> register \<Rightarrow> bool" where
  "less_register r r' \<longleftrightarrow> register_index r < register_index r'"

instance
  by standard (auto simp: less_eq_register_def less_register_def dest: register_index_inj)

end

section \<open>Register masks\<close>

text \<open>
  \<open>SubRegisterMask\<close> wraps a bitmap of \<open>SUBREGISTER_BITS\<close>; its operators \<open>+=\<close>,
  \<open>-=\<close>, \<open>&\<close>, \<open>==\<close>, \<open>!\<close> are the bitmap operations at that size.
\<close>

type_synonym mask = bitmap

definition mask_zero :: mask where "mask_zero = bitmap_zero subregister_bits"
definition mask_fill :: mask where "mask_fill = bitmap_fill subregister_bits"
definition mask_add :: "mask \<Rightarrow> mask \<Rightarrow> mask" where
  "mask_add m rhs = bitmap_or m rhs subregister_bits"
definition mask_sub :: "mask \<Rightarrow> mask \<Rightarrow> mask" where
  "mask_sub m rhs = bitmap_andnot m rhs subregister_bits"
definition mask_and :: "mask \<Rightarrow> mask \<Rightarrow> mask" where
  "mask_and lhs rhs = bitmap_and lhs rhs subregister_bits"
definition mask_eq :: "mask \<Rightarrow> mask \<Rightarrow> bool" where
  "mask_eq m rhs = bitmap_equal m rhs subregister_bits"
definition mask_is_empty :: "mask \<Rightarrow> bool" where
  "mask_is_empty m = bitmap_empty m subregister_bits"

abbreviation mask_bits :: "mask \<Rightarrow> nat set" where
  "mask_bits m \<equiv> bits_of subregister_bits m"

text \<open>The registers a mask holds.\<close>

definition regs_in :: "mask \<Rightarrow> subregister set" where
  "regs_in m = {s. subregister_index s \<in> mask_bits m}"

lemma subregister_bits_mod: "subregister_bits mod 64 \<noteq> 0"
  by (simp add: subregister_bits_def)

interpretation rm: bit_set "{..<subregister_bits}" mask_zero mask_fill mask_add mask_sub mask_and
    mask_eq mask_is_empty mask_bits
  by unfold_locales
    (auto simp: mask_zero_def mask_fill_def mask_add_def mask_sub_def mask_and_def mask_eq_def
      mask_is_empty_def bits_of_zero bits_of_fill bits_of_or bits_of_andnot bits_of_and
      bitmap_equal_iff bitmap_empty_iff subregister_bits_mod, simp add: bits_of_def)

lemma regs_in_ops [mask_simps]:
  "regs_in mask_zero = {}" "regs_in mask_fill = UNIV"
  "regs_in (mask_add a b) = regs_in a \<union> regs_in b"
  "regs_in (mask_sub a b) = regs_in a - regs_in b"
  "regs_in (mask_and a b) = regs_in a \<inter> regs_in b"
  by (auto simp: regs_in_def rm.set_zero rm.set_full rm.set_add rm.set_sub rm.set_inter)

lemma mask_bits_regs_in: "mask_bits m = subregister_index ` regs_in m"
  using rm.set_bounded[of m] subregister_index_onto by (fastforce simp: regs_in_def)

lemma mask_eq_iff [mask_simps]: "mask_eq a b \<longleftrightarrow> regs_in a = regs_in b"
  unfolding rm.eq_iff mask_bits_regs_in by (rule inj_image_eq_iff) (simp add: inj_def)

lemma mask_is_empty_iff [mask_simps]: "mask_is_empty a \<longleftrightarrow> regs_in a = {}"
  unfolding rm.is_zero_iff mask_bits_regs_in by simp

section \<open>The generated masks\<close>

text \<open>
  The generator prints one mask per name. A name is a register, all the flags, or one
  double word or quad word of an XMM register.
\<close>

datatype mask_name = MaskEFLAGS | MaskReg register | MaskXmmD xmm xmm_part | MaskXmmQ0 xmm | MaskXmmQ1 xmm

fun subregs :: "mask_name \<Rightarrow> subregister list" where
  "subregs MaskEFLAGS = map FlagSub [FCF, FPF, FAF, FZF, FSF, FOF]"
| "subregs (MaskReg (FlagReg f)) = [FlagSub f]"
| "subregs (MaskReg (Gpr8 g)) = [GprSub g B0]"
| "subregs (MaskReg (Gpr8H h)) = [GprSub (gpr_of_high h) B1]"
| "subregs (MaskReg (Gpr16 g)) = [GprSub g B0, GprSub g B1]"
| "subregs (MaskReg (Gpr32 g)) = [GprSub g B0, GprSub g B1, GprSub g W1]"
| "subregs (MaskReg (Gpr64 g)) = [GprSub g B0, GprSub g B1, GprSub g W1, GprSub g D1]"
| "subregs (MaskReg (XmmReg x)) = [XmmSub x XD0, XmmSub x XD1, XmmSub x XD2, XmmSub x XD3]"
| "subregs (MaskXmmD x p) = [XmmSub x p]"
| "subregs (MaskXmmQ0 x) = [XmmSub x XD0, XmmSub x XD1]"
| "subregs (MaskXmmQ1 x) = [XmmSub x XD2, XmmSub x XD3]"
| "subregs (MaskReg NoReg) = []"

text \<open>The loop of \<open>set_subregs\<close>, and one line of the generated file.\<close>

primrec set_subregs :: "bitmap \<Rightarrow> subregister list \<Rightarrow> bitmap" where
  "set_subregs bm [] = bm"
| "set_subregs bm (s # ss) = set_subregs (bitmap_set_bit bm (subregister_index s)) ss"

definition subregister_mask :: "mask_name \<Rightarrow> mask" where
  "subregister_mask name = set_subregs (bitmap_zero subregister_bits) (subregs name)"

lemma regs_in_set_subregs:
  "wf_bitmap subregister_bits bm \<Longrightarrow> regs_in (set_subregs bm ss) = regs_in bm \<union> set ss"
proof (induction ss arbitrary: bm)
  case (Cons s ss)
  then show ?case
    by (auto simp: regs_in_def bits_of_set_bit wf_bitmap_ops)
qed simp

lemma regs_in_subregister_mask [mask_simps]: "regs_in (subregister_mask n) = set (subregs n)"
  by (simp add: subregister_mask_def regs_in_set_subregs wf_bitmap_ops)
    (simp add: regs_in_ops(1) [unfolded mask_zero_def])

section \<open>The register table\<close>

datatype reg_type = RTFlag1 | RTGprs8 | RTGprs16 | RTGprs32 | RTGprs64 | RTSse128

datatype reg_access = RANone | FullZeroParent | Full | H0 | H1 | F0 | F1 | F2 | F3

record register_info =
  ri_type :: reg_type
  ri_nr :: nat
  ri_byteOffs :: nat
  ri_parent :: register
  ri_full :: mask
  ri_h :: "mask list option"
  ri_f :: "mask list option"

primrec sizeInBytes :: "reg_type \<Rightarrow> nat" where
  "sizeInBytes RTFlag1 = 1"
| "sizeInBytes RTGprs8 = 1"
| "sizeInBytes RTGprs16 = 2"
| "sizeInBytes RTGprs32 = 4"
| "sizeInBytes RTGprs64 = 8"
| "sizeInBytes RTSse128 = 16"

definition def_reg_simple :: "register \<Rightarrow> reg_type \<Rightarrow> register \<Rightarrow> nat \<Rightarrow> nat \<Rightarrow> register_info" where
  "def_reg_simple reg type parent nr byteOffs =
     \<lparr>ri_type = type, ri_nr = nr, ri_byteOffs = byteOffs, ri_parent = parent,
      ri_full = subregister_mask (MaskReg reg), ri_h = None, ri_f = None\<rparr>"

definition def_reg_xmm :: "xmm \<Rightarrow> register_info" where
  "def_reg_xmm x =
     \<lparr>ri_type = RTSse128, ri_nr = xmm_nr x, ri_byteOffs = 0, ri_parent = NoReg,
      ri_full = subregister_mask (MaskReg (XmmReg x)),
      ri_h = Some [subregister_mask (MaskXmmQ0 x), subregister_mask (MaskXmmQ1 x)],
      ri_f = Some (map (\<lambda>p. subregister_mask (MaskXmmD x p)) [XD0, XD1, XD2, XD3])\<rparr>"

fun arch_get_register_info :: "register \<Rightarrow> register_info option" where
  "arch_get_register_info NoReg = None"
| "arch_get_register_info (FlagReg f) =
     Some (def_reg_simple (FlagReg f) RTFlag1 NoReg (flag_nr f) 0)"
| "arch_get_register_info (Gpr64 g) =
     Some (def_reg_simple (Gpr64 g) RTGprs64 NoReg (gpr_nr g) 0)"
| "arch_get_register_info (Gpr32 g) =
     Some (def_reg_simple (Gpr32 g) RTGprs32 (Gpr64 g) (gpr_nr g) 0)"
| "arch_get_register_info (Gpr16 g) =
     Some (def_reg_simple (Gpr16 g) RTGprs16 (Gpr64 g) (gpr_nr g) 0)"
| "arch_get_register_info (Gpr8H h) =
     Some (def_reg_simple (Gpr8H h) RTGprs8 (Gpr64 (gpr_of_high h)) (gpr_nr (gpr_of_high h)) 1)"
| "arch_get_register_info (Gpr8 g) =
     Some (def_reg_simple (Gpr8 g) RTGprs8 (Gpr64 g) (gpr_nr g) 0)"
| "arch_get_register_info (XmmReg x) = Some (def_reg_xmm x)"

text \<open>The lookup by type and number walks the table and takes the first root register that fits.\<close>

definition arch_get_register_info_nr :: "reg_type \<Rightarrow> nat \<Rightarrow> register_info option" where
  "arch_get_register_info_nr type nr =
     find (\<lambda>r. ri_parent r = NoReg \<and> ri_type r = type \<and> ri_nr r = nr)
       (List.map_filter arch_get_register_info all_registers)"

section \<open>Looking masks up\<close>

text \<open>
  \<open>None\<close> is the assertion at the end, and the null pointers the code would follow: the
  parent of a root register, and the missing halves and fourths.
\<close>

definition nth_opt :: "'a list option \<Rightarrow> nat \<Rightarrow> 'a option" where
  "nth_opt xs i = (case xs of None \<Rightarrow> None | Some ys \<Rightarrow> if i < length ys then Some (ys ! i) else None)"

fun getSubRegisterMaskFull :: "register \<Rightarrow> mask option" where
  "getSubRegisterMaskFull reg = map_option ri_full (arch_get_register_info reg)"

definition getSubRegisterMask :: "register \<Rightarrow> reg_access \<Rightarrow> mask option" where
  "getSubRegisterMask reg access =
     do { info \<leftarrow> arch_get_register_info reg;
          case access of
            FullZeroParent \<Rightarrow> getSubRegisterMaskFull (ri_parent info)
          | Full \<Rightarrow> Some (ri_full info)
          | H0 \<Rightarrow> nth_opt (ri_h info) 0
          | H1 \<Rightarrow> nth_opt (ri_h info) 1
          | F0 \<Rightarrow> nth_opt (ri_f info) 0
          | F1 \<Rightarrow> nth_opt (ri_f info) 1
          | F2 \<Rightarrow> nth_opt (ri_f info) 2
          | F3 \<Rightarrow> nth_opt (ri_f info) 3
          | RANone \<Rightarrow> None }"

text \<open>A register that is part of another one holds part of its subregisters.\<close>

lemma sub_of_parent:
  assumes "arch_get_register_info r = Some info" and "ri_parent info \<noteq> NoReg"
    and "getSubRegisterMask r Full = Some m"
  shows "\<exists>p. getSubRegisterMask r FullZeroParent = Some p \<and> regs_in m \<subseteq> regs_in p"
  using assms
  by (cases r) (auto simp: getSubRegisterMask_def def_reg_simple_def def_reg_xmm_def mask_simps)

lemma distinct_roots_disjoint:
  assumes "getSubRegisterMask (Gpr64 g) Full = Some m" and "getSubRegisterMask (Gpr64 g') Full = Some m'"
    and "g \<noteq> g'"
  shows "regs_in m \<inter> regs_in m' = {}"
  using assms by (auto simp: getSubRegisterMask_def def_reg_simple_def mask_simps)

end
