(* ===== verification/Operands.thy ===== *)
theory Operands
  imports Registers Dyn_Value
begin

text \<open>
  What an instruction's operands look like: the data model of \<open>src/OpcodeInfo.hpp\<close> and of
  \<open>src/InstructionInfo.hpp\<close>, with the access mode predicates. A C++ union that the code
  reads by a tag is a datatype here, with one constructor per tag.
\<close>

section \<open>Predicates\<close>

datatype pred_comparator = CmpEqual | CmpNotEqual

datatype pred_conjunction = ConNone | ConAnd | ConOr

datatype pred_comparand = PReg register | PImm u64

record pred_comparison =
  pc_lhs :: pred_comparand
  pc_comp :: pred_comparator
  pc_rhs :: pred_comparand
  pc_con :: pred_conjunction

text \<open>The array of a predicate; a conjunction \<open>ConNone\<close> ends it.\<close>

type_synonym predicate = "pred_comparison list"

section \<open>Operands\<close>

datatype operand_type =
    OtNone | OtRegister | OtMemPtr
  | OtImmediate8 | OtImmediate16 | OtImmediate32 | OtImmediate64
  | OtSignedImmediate8 | OtSignedImmediate16 | OtSignedImmediate32 | OtSignedImmediate64

text \<open>An immediate; a user pointer number of -1 says that it is not known to be a pointer.\<close>

record immediate64 =
  i64_val :: u64
  i64_usrPtrNr :: int
  i64_usrPtrOffset :: u64

record signed_immediate32 =
  s32_val :: u32
  s32_usrPtrNr :: int
  s32_usrPtrOffset :: u64

datatype static_mem_ptr =
    MpNone
  | MpDirect immediate64
  | MpSIB register register signed_immediate32 byte  \<comment> \<open>base, index, displacement, scale\<close>

datatype static_operand = SopReg register | SopImm immediate64 | SopMem static_mem_ptr

section \<open>Access modes\<close>

datatype access_mode =
    AmNone | AmAddress | AmRead | AmMayRead | AmWrite | AmMayWrite
  | AmReadWrite | AmMayReadWrite | AmReadMayWrite | AmMayReadMayWrite

fun isRead :: "access_mode \<Rightarrow> bool" where
  "isRead AmRead = True"
| "isRead AmMayRead = True"
| "isRead AmReadWrite = True"
| "isRead AmMayReadWrite = True"
| "isRead AmReadMayWrite = True"
| "isRead AmMayReadMayWrite = True"
| "isRead _ = False"

fun isWrite :: "access_mode \<Rightarrow> bool" where
  "isWrite AmWrite = True"
| "isWrite AmMayWrite = True"
| "isWrite AmReadWrite = True"
| "isWrite AmMayReadWrite = True"
| "isWrite AmReadMayWrite = True"
| "isWrite AmMayReadMayWrite = True"
| "isWrite _ = False"

fun isConditional :: "access_mode \<Rightarrow> bool" where
  "isConditional AmMayRead = True"
| "isConditional AmMayWrite = True"
| "isConditional AmMayReadWrite = True"
| "isConditional AmReadMayWrite = True"
| "isConditional AmMayReadMayWrite = True"
| "isConditional _ = False"

fun isSpecial :: "access_mode \<Rightarrow> bool" where
  "isSpecial AmAddress = True"
| "isSpecial _ = False"

text \<open>The number of bytes accessed is the enumerator's value; 0 is \<open>Unknown\<close>.\<close>

datatype mem_access_size = MUnknown | MB1 | MB2 | MB3 | MB4 | MB5 | MB6 | MB7 | MB8
  | MB9 | MB10 | MB11 | MB12 | MB13 | MB14 | MB15 | MB16

primrec mem_bytes :: "mem_access_size \<Rightarrow> nat" where
  "mem_bytes MUnknown = 0" | "mem_bytes MB1 = 1" | "mem_bytes MB2 = 2" | "mem_bytes MB3 = 3"
| "mem_bytes MB4 = 4" | "mem_bytes MB5 = 5" | "mem_bytes MB6 = 6" | "mem_bytes MB7 = 7"
| "mem_bytes MB8 = 8" | "mem_bytes MB9 = 9" | "mem_bytes MB10 = 10" | "mem_bytes MB11 = 11"
| "mem_bytes MB12 = 12" | "mem_bytes MB13 = 13" | "mem_bytes MB14 = 14" | "mem_bytes MB15 = 15"
| "mem_bytes MB16 = 16"

lemma mem_bytes_pos: "s \<noteq> MUnknown \<Longrightarrow> 0 < mem_bytes s"
  by (cases s) auto

lemma mem_bytes_le: "mem_bytes s \<le> 16"
  by (cases s) auto

section \<open>Operand information\<close>

record static_mem_access =
  sma_ptr :: static_mem_ptr
  sma_mode :: access_mode
  sma_size :: mem_access_size

record static_reg_access =
  sra_reg :: register
  sra_mode :: access_mode
  sra_r :: reg_access
  sra_w :: reg_access

text \<open>What an opcode says of an explicit operand.\<close>

datatype explicit_operand_info =
    EoiReg reg_type access_mode reg_access reg_access  \<comment> \<open>type, mode, part read, part written\<close>
  | EoiMem access_mode mem_access_size
  | EoiImm operand_type

text \<open>An implicit operand, or an explicit one once its encoding is known.\<close>

datatype static_operand_info =
    SoiReg static_reg_access
  | SoiMem static_mem_access
  | SoiImm operand_type immediate64

record operand_info =
  oi_info :: static_operand_info
  oi_nr :: nat
  oi_isImpl :: bool

datatype control_flow_type = CfOther | CfRet | CfCall | CfBranch

datatype emu_ret = EmuOk | EmuMov10 | EmuMov02 | EmuMov20

datatype opcode_flag = OfNone | OfEmuImm | OfEmuPtr | OfEmuFull

text \<open>An instruction's register masks, as far as they depend on its static properties.\<close>

record instruction_info =
  ii_nasty :: bool
  ii_operands :: "operand_info list"
  ii_mayWriteMem :: bool
  ii_predicateRegs :: mask
  ii_readRegs :: mask
  ii_writtenRegs :: mask
  ii_condWrittenRegs :: mask

section \<open>Operands evaluated in a program state\<close>

datatype mem_ptr =
    DmNone
  | DmDirect immediate64
  | DmSIB dyn_value dyn_value dyn_value byte  \<comment> \<open>base, index, displacement, scale\<close>

record mem_access =
  ma_ptrVal :: dyn_value
  ma_ptr :: mem_ptr
  ma_mode :: access_mode
  ma_size :: mem_access_size

datatype dyn_location =
    DlReg static_reg_access
  | DlMem mem_access
  | DlImm operand_type

record dyn_operand =
  do_loc :: dyn_location
  do_nr :: nat
  do_isImpl :: bool
  do_isInput :: bool
  do_isCondInput :: bool
  do_isOutput :: bool
  do_isCondOutput :: bool
  do_input :: dyn_value
  do_output :: dyn_value

record dyn_info =
  di_willExecute :: tristate
  di_nasty :: bool
  di_operands :: "dyn_operand list"
  di_numInput :: nat
  di_numInputEncodedImm :: nat
  di_numInputImm :: nat
  di_numInputPtr :: nat
  di_numInputStackPtr :: nat
  di_numInputTainted :: nat
  di_mayWriteMem :: bool
  di_predicateRegs :: mask
  di_readRegs :: mask
  di_writtenRegs :: mask
  di_condWrittenRegs :: mask

text \<open>
  The modes split into the plain ones, which name what happens, and the conditional ones,
  where at least one part may not happen.
\<close>

lemma conditional_mode: "isConditional m \<Longrightarrow> (isRead m \<or> isWrite m) \<and> \<not> isSpecial m"
  by (cases m) auto

lemma special_mode: "isSpecial m \<Longrightarrow> \<not> isRead m \<and> \<not> isWrite m"
  by (cases m) auto

end
