(* ===== verification/Program_State.thy ===== *)
theory Program_State
  imports Elements_Merge Operands
begin

text \<open>
  The state the stack analysis tracks: \<open>StackState\<close> and \<open>ProgramState\<close> of
  \<open>src/ProgramState.hpp\<close> and \<open>src/ProgramState.cpp\<close>. Every register class is an array
  of element arrays, the stack is one element array with the offset of the stack pointer at
  function entry. The operations find the elements an access means and hand them to the
  element operations.
\<close>

section \<open>The stack\<close>

record stack_state =
  st_elems :: "elem list"
  st_base :: int
  st_dead :: bool

definition stack_init :: stack_state where
  "stack_init = \<lparr>st_elems = [], st_base = 0, st_dead = False\<rparr>"

definition newStackSize :: "stack_state \<Rightarrow> int" where
  "newStackSize st = st_base st"

definition oldStackSize :: "stack_state \<Rightarrow> int" where
  "oldStackSize st = int (length (st_elems st)) - newStackSize st"

text \<open>The index is an \<open>unsigned int\<close>.\<close>

definition getStackIdx :: "stack_state \<Rightarrow> int \<Rightarrow> nat" where
  "getStackIdx st off = nat ((st_base st + off) mod 2 ^ 32)"

definition setDead :: "stack_state \<Rightarrow> stack_state" where
  "setDead st = \<lparr>st_elems = [], st_base = 0, st_dead = True\<rparr>"

text \<open>\<open>std::vector::resize\<close>; new elements are Dead.\<close>

definition resize :: "nat \<Rightarrow> elem list \<Rightarrow> elem list" where
  "resize n es = take n es @ replicate (n - length es) dead_elem"

definition grow_old :: "int \<Rightarrow> stack_state \<Rightarrow> stack_state" where
  "grow_old needed st =
     (if needed > oldStackSize st
      then st\<lparr>st_elems := resize (nat (newStackSize st + needed)) (st_elems st)\<rparr>
      else st)"

definition grow_new :: "int \<Rightarrow> stack_state \<Rightarrow> stack_state" where
  "grow_new needed st =
     (if needed > newStackSize st
      then let diff = needed - newStackSize st in
        st\<lparr>st_elems := replicate (nat diff) dead_elem @ st_elems st, st_base := st_base st + diff\<rparr>
      else st)"

definition grow :: "int \<Rightarrow> nat \<Rightarrow> stack_state \<Rightarrow> stack_state" where
  "grow baseOffset sz st =
     (if st_dead st then st
      else grow_new (- baseOffset) (grow_old (baseOffset + int sz) st))"

section \<open>The program state\<close>

record program_state =
  ps_stack :: stack_state
  ps_flag1 :: "elem list list"
  ps_gprs64 :: "elem list list"
  ps_sse128 :: "elem list list"

definition ps_init :: program_state where
  "ps_init = \<lparr>ps_stack = stack_init, ps_flag1 = replicate 6 [dead_elem],
     ps_gprs64 = replicate 16 (replicate 8 dead_elem),
     ps_sse128 = replicate 16 (replicate 16 dead_elem)\<rparr>"

text \<open>A reference to the \<open>State\<close> of one physical register.\<close>

datatype reg_loc = LFlag1 nat | LGprs64 nat | LSse128 nat

fun loc_size :: "reg_loc \<Rightarrow> nat" where
  "loc_size (LFlag1 _) = 1"
| "loc_size (LGprs64 _) = 8"
| "loc_size (LSse128 _) = 16"

fun loc_ok :: "reg_loc \<Rightarrow> bool" where
  "loc_ok (LFlag1 i) = (i < 6)"
| "loc_ok (LGprs64 i) = (i < 16)"
| "loc_ok (LSse128 i) = (i < 16)"

fun reg_elems :: "program_state \<Rightarrow> reg_loc \<Rightarrow> elem list" where
  "reg_elems ps (LFlag1 i) = ps_flag1 ps ! i"
| "reg_elems ps (LGprs64 i) = ps_gprs64 ps ! i"
| "reg_elems ps (LSse128 i) = ps_sse128 ps ! i"

fun put_reg :: "reg_loc \<Rightarrow> elem list \<Rightarrow> program_state \<Rightarrow> program_state" where
  "put_reg (LFlag1 i) es ps = ps\<lparr>ps_flag1 := (ps_flag1 ps)[i := es]\<rparr>"
| "put_reg (LGprs64 i) es ps = ps\<lparr>ps_gprs64 := (ps_gprs64 ps)[i := es]\<rparr>"
| "put_reg (LSse128 i) es ps = ps\<lparr>ps_sse128 := (ps_sse128 ps)[i := es]\<rparr>"

text \<open>
  \<open>getRegisterData\<close>: the physical register behind an access, with the first byte and the
  number of bytes. \<open>None\<close> is the assertion, and following the null pointer of a register
  without table entry or parent.
\<close>

fun access_range :: "reg_access \<Rightarrow> nat \<Rightarrow> nat \<Rightarrow> (nat \<times> nat) option" where
  "access_range Full off bytes = Some (off, bytes)"
| "access_range H0 off bytes = Some (off, bytes div 2)"
| "access_range H1 off bytes = Some (off + bytes div 2, bytes div 2)"
| "access_range F0 off bytes = Some (off, bytes div 4)"
| "access_range F1 off bytes = Some (off + bytes div 4, bytes div 4)"
| "access_range F2 off bytes = Some (off + bytes div 2, bytes div 4)"
| "access_range F3 off bytes = Some (off + 3 * bytes div 4, bytes div 4)"
| "access_range _ off bytes = throw"

fun physical :: "reg_type \<Rightarrow> nat \<Rightarrow> reg_loc option" where
  "physical RTFlag1 nr = Some (LFlag1 nr)"
| "physical RTGprs64 nr = Some (LGprs64 nr)"
| "physical RTSse128 nr = Some (LSse128 nr)"
| "physical _ nr = throw"

definition getRegisterData :: "register \<Rightarrow> reg_access \<Rightarrow> (reg_loc \<times> nat \<times> nat) option" where
  "getRegisterData reg access =
     do { ri \<leftarrow> arch_get_register_info reg;
          (ri, access) \<leftarrow>
            (if access = FullZeroParent then
               do { pri \<leftarrow> arch_get_register_info (ri_parent ri); Some (pri, Full) }
             else Some (ri, access));
          (parentType, parentNr) \<leftarrow>
            (if ri_parent ri \<noteq> NoReg then
               do { pri \<leftarrow> arch_get_register_info (ri_parent ri); Some (ri_type pri, ri_nr pri) }
             else Some (ri_type ri, ri_nr ri));
          (off, bytes) \<leftarrow> access_range access (ri_byteOffs ri) (sizeInBytes (ri_type ri));
          loc \<leftarrow> physical parentType parentNr;
          Some (loc, off, bytes) }"

section \<open>Register operations\<close>

definition setRegister :: "program_state \<Rightarrow> register \<Rightarrow> reg_access \<Rightarrow> dyn_value \<Rightarrow> bool \<Rightarrow>
    program_state option" where
  "setRegister ps reg access data cond =
     do { (ps, access) \<leftarrow>
            (if access = FullZeroParent \<and> \<not> cond then
               do { (loc, off, bytes) \<leftarrow> getRegisterData reg access;
                    es \<leftarrow> set_elements (reg_elems ps loc) off bytes (Imm64 0) cond;
                    Some (put_reg loc es ps, Full) }
             else Some (ps, access));
          (loc, off, bytes) \<leftarrow> getRegisterData reg access;
          es \<leftarrow> set_elements (reg_elems ps loc) off bytes data cond;
          Some (put_reg loc es ps) }"

definition getRegister :: "program_state \<Rightarrow> register \<Rightarrow> reg_access \<Rightarrow> dyn_value option" where
  "getRegister ps reg access =
     do { (loc, off, bytes) \<leftarrow> getRegisterData reg access;
          get_elements (reg_elems ps loc) off bytes }"

section \<open>Stack operations\<close>

definition isStackDead :: "program_state \<Rightarrow> bool" where
  "isStackDead ps = st_dead (ps_stack ps)"

definition grow_stack :: "int \<Rightarrow> nat \<Rightarrow> program_state \<Rightarrow> program_state" where
  "grow_stack off bytes ps = ps\<lparr>ps_stack := grow off bytes (ps_stack ps)\<rparr>"

definition put_stack :: "elem list \<Rightarrow> program_state \<Rightarrow> program_state" where
  "put_stack es ps = ps\<lparr>ps_stack := (ps_stack ps)\<lparr>st_elems := es\<rparr>\<rparr>"

definition setStack :: "program_state \<Rightarrow> int \<Rightarrow> mem_access_size \<Rightarrow> dyn_value \<Rightarrow> bool \<Rightarrow>
    program_state option" where
  "setStack ps baseOffset sz data cond =
     do { drob_assert (sz \<noteq> MUnknown);
          if isStackDead ps then Some ps
          else do {
            let ps = grow_stack baseOffset (mem_bytes sz) ps;
            es \<leftarrow> set_elements (st_elems (ps_stack ps)) (getStackIdx (ps_stack ps) baseOffset)
                    (mem_bytes sz) data cond;
            Some (put_stack es ps) } }"

text \<open>Reading grows the stack as well (it is \<open>mutable\<close>), so the new state is returned too.\<close>

definition getStack :: "program_state \<Rightarrow> int \<Rightarrow> mem_access_size \<Rightarrow>
    (dyn_value \<times> program_state) option" where
  "getStack ps baseOffset sz =
     do { drob_assert (sz \<noteq> MUnknown);
          if isStackDead ps then Some (Tainted, ps)
          else do {
            let ps = grow_stack baseOffset (mem_bytes sz) ps;
            v \<leftarrow> get_elements (st_elems (ps_stack ps)) (getStackIdx (ps_stack ps) baseOffset)
                   (mem_bytes sz);
            Some (v, ps) } }"

section \<open>Moves\<close>

definition moveStackStack :: "program_state \<Rightarrow> int \<Rightarrow> int \<Rightarrow> mem_access_size \<Rightarrow>
    program_state option" where
  "moveStackStack ps baseOffset1 baseOffset2 sz =
     do { drob_assert (sz \<noteq> MUnknown);
          if isStackDead ps then Some ps
          else do {
            let ps = grow_stack baseOffset2 (mem_bytes sz) (grow_stack baseOffset1 (mem_bytes sz) ps);
            es \<leftarrow> move_elements True (st_elems (ps_stack ps)) (getStackIdx (ps_stack ps) baseOffset1)
                    (st_elems (ps_stack ps)) (getStackIdx (ps_stack ps) baseOffset2) (mem_bytes sz);
            Some (put_stack es ps) } }"

definition moveRegisterRegister :: "program_state \<Rightarrow> register \<Rightarrow> reg_access \<Rightarrow> register \<Rightarrow> reg_access \<Rightarrow>
    program_state option" where
  "moveRegisterRegister ps reg1 access1 reg2 access2 =
     do { (loc1, off1, bytes1) \<leftarrow> getRegisterData reg1 access1;
          (ps, access2) \<leftarrow>
            (if access2 = FullZeroParent then
               do { ps \<leftarrow> setRegister ps reg2 access2 (Imm64 0) False; Some (ps, Full) }
             else Some (ps, access2));
          (loc2, off2, bytes2) \<leftarrow> getRegisterData reg2 access2;
          drob_assert (bytes1 = bytes2);
          es \<leftarrow> move_elements (loc1 = loc2) (reg_elems ps loc1) off1 (reg_elems ps loc2) off2 bytes1;
          Some (put_reg loc2 es ps) }"

definition moveStackRegister :: "program_state \<Rightarrow> int \<Rightarrow> mem_access_size \<Rightarrow> register \<Rightarrow> reg_access \<Rightarrow>
    program_state option" where
  "moveStackRegister ps baseOffset sz reg access =
     do { (ps, access) \<leftarrow>
            (if access = FullZeroParent then
               do { ps \<leftarrow> setRegister ps reg access (Imm64 0) False; Some (ps, Full) }
             else Some (ps, access));
          (loc, off2, bytes2) \<leftarrow> getRegisterData reg access;
          if isStackDead ps then setRegister ps reg access Tainted False
          else do {
            let ps = grow_stack baseOffset (mem_bytes sz) ps;
            drob_assert (mem_bytes sz = bytes2);
            es \<leftarrow> move_elements False (st_elems (ps_stack ps)) (getStackIdx (ps_stack ps) baseOffset)
                    (reg_elems ps loc) off2 (mem_bytes sz);
            Some (put_reg loc es ps) } }"

definition moveRegisterStack :: "program_state \<Rightarrow> register \<Rightarrow> reg_access \<Rightarrow> int \<Rightarrow> mem_access_size \<Rightarrow>
    program_state option" where
  "moveRegisterStack ps reg access baseOffset sz =
     (if isStackDead ps then Some ps
      else do {
        (loc, off1, bytes1) \<leftarrow> getRegisterData reg access;
        let ps = grow_stack baseOffset (mem_bytes sz) ps;
        drob_assert (bytes1 = mem_bytes sz);
        es \<leftarrow> move_elements False (reg_elems ps loc) off1
                (st_elems (ps_stack ps)) (getStackIdx (ps_stack ps) baseOffset) bytes1;
        Some (put_stack es ps) })"

section \<open>Whole states\<close>

definition untrackedStackAccess :: "program_state \<Rightarrow> program_state" where
  "untrackedStackAccess ps = ps\<lparr>ps_stack := setDead (ps_stack ps)\<rparr>"

definition set_loc :: "nat \<Rightarrow> dyn_value \<Rightarrow> reg_loc \<Rightarrow> program_state \<Rightarrow> program_state option" where
  "set_loc bytes v loc ps =
     do { es \<leftarrow> set_elements (reg_elems ps loc) 0 bytes v False; Some (put_reg loc es ps) }"

definition nastyInstruction :: "program_state \<Rightarrow> program_state option" where
  "nastyInstruction ps =
     do { let ps = untrackedStackAccess ps;
          ps \<leftarrow> for_each (map LFlag1 [0..<6]) (set_loc 1 Unknown) ps;
          ps \<leftarrow> for_each (map LGprs64 [0..<16]) (set_loc 8 Tainted) ps;
          for_each (map LSse128 [0..<16]) (set_loc 16 Tainted) ps }"

definition merge_loc :: "program_state \<Rightarrow> reg_loc \<Rightarrow> bool \<times> program_state \<Rightarrow>
    (bool \<times> program_state) option" where
  "merge_loc rhs loc = (\<lambda>(diff, ps).
     do { (d, es) \<leftarrow> merge_elements (reg_elems ps loc) (reg_elems rhs loc);
          Some (diff \<or> d, put_reg loc es ps) })"

definition all_locs :: "reg_loc list" where
  "all_locs = map LFlag1 [0..<6] @ map LGprs64 [0..<16] @ map LSse128 [0..<16]"

definition merge_stack :: "stack_state \<Rightarrow> stack_state \<Rightarrow>
    (bool \<times> stack_state \<times> stack_state) option" where
  "merge_stack l r =
     (if st_dead l \<and> \<not> st_dead r then Some (False, l, r)
      else if \<not> st_dead l \<and> st_dead r then Some (True, setDead l, r)
      else if \<not> st_dead l \<and> \<not> st_dead r then
        (let old = max (oldStackSize l) (oldStackSize r);
             new = max (newStackSize l) (newStackSize r);
             l = grow (- new) 0 (grow old 0 l);
             r = grow (- new) 0 (grow old 0 r)
         in do { (d, es) \<leftarrow> merge_elements (st_elems l) (st_elems r);
                 Some (d, l\<lparr>st_elems := es\<rparr>, r) })
      else Some (False, l, r))"

text \<open>The right side's stack is grown too, so it is part of the result.\<close>

definition merge :: "program_state \<Rightarrow> program_state \<Rightarrow>
    (bool \<times> program_state \<times> program_state) option" where
  "merge lhs rhs =
     do { (diff, ps) \<leftarrow> for_each all_locs (merge_loc rhs) (False, lhs);
          (d, l, r) \<leftarrow> merge_stack (ps_stack ps) (ps_stack rhs);
          Some (diff \<or> d, ps\<lparr>ps_stack := l\<rparr>, rhs\<lparr>ps_stack := r\<rparr>) }"

end
