(* ===== verification/Program_State_Sound.thy ===== *)
theory Program_State_Sound
  imports Program_State
begin

text \<open>
  Facts on the program state: growing the stack changes nothing that is tracked, every
  register access lies inside its physical register, and the elements a register mask names
  are the elements the access reads and writes. A concrete machine (\<open>machine\<close>) gives the
  states their meaning.
\<close>

section \<open>Growing the stack\<close>

definition wf_stack :: "stack_state \<Rightarrow> bool" where
  "wf_stack st \<longleftrightarrow> 0 \<le> st_base st \<and> st_base st \<le> int (length (st_elems st)) \<and> wf_elems (st_elems st)"

text \<open>What is tracked at an offset from the stack pointer at entry; untouched bytes are Dead.\<close>

definition stack_at :: "stack_state \<Rightarrow> int \<Rightarrow> elem" where
  "stack_at st off =
     (if 0 \<le> st_base st + off \<and> st_base st + off < int (length (st_elems st))
      then st_elems st ! nat (st_base st + off) else dead_elem)"

lemma dead_elem_plain [simp]: "\<not> is_head (etype dead_elem)" "\<not> is_tail (etype dead_elem)"
  "etype dead_elem = EDead"
  by (simp_all add: dead_elem_def)

lemma wf_pad:
  assumes "wf_elems es"
  shows "wf_elems (replicate a dead_elem @ es @ replicate b dead_elem)" (is "wf_elems ?l")
proof (rule wf_elemsI)
  have at: "?l ! i = (if a \<le> i \<and> i < a + length es then es ! (i - a) else dead_elem)"
    if "i < length ?l" for i
    using that by (auto simp: nth_append)
  fix i
  assume i: "i < length ?l"
  {
    fix k
    assume k: "etype (?l ! i) = EPtr k"
    then have h: "a \<le> i" "head_at es (i - a)" "etype (es ! (i - a)) = EPtr k"
      using at[OF i] by (auto simp: head_at_def split: if_splits)
    have room: "i - a + 8 \<le> length es" using wf_head_room[OF assms h(2)] .
    have "etype (?l ! j) = tail_of k" if "i < j" "j < i + 8" for j
    proof -
      have "j - a < length es" "a \<le> j" using that room h(1) by linarith+
      then have "?l ! j = es ! (j - a)" using at[of j] by simp
      moreover have "i - a < j - a" "j - a < i - a + 8" using that h(1) by linarith+
      ultimately show ?thesis using wf_head_tails(2)[OF assms h(2), of "j - a"] h(3) by simp
    qed
    then show "i + 8 \<le> length ?l \<and> (\<forall>j. i < j \<and> j < i + 8 \<longrightarrow> etype (?l ! j) = tail_of k)"
      using room h(1) by simp
  next
    assume t: "is_tail (etype (?l ! i))"
    then have h: "a \<le> i" "tail_at es (i - a)"
      using at[OF i] by (auto simp: tail_at_def split: if_splits)
    obtain p where p: "head_at es p" "p < i - a" "i - a < p + 8"
      using wf_tail_owner[OF assms h(2)] by blast
    then have "?l ! (p + a) = es ! p" by (auto simp: nth_append head_at_def)
    then have "head_at ?l (p + a)" using p(1) by (simp add: head_at_def)
    then show "\<exists>p. head_at ?l p \<and> p < i \<and> i < p + 8"
      using p h(1) by (intro exI[of _ "p + a"]) linarith
  }
qed

text \<open>Growing pads with Dead elements on both sides; the base moves with the front.\<close>

lemma grow_pads:
  assumes "\<not> st_dead st" and "wf_stack st"
  shows "\<exists>a b. grow off n st = st\<lparr>st_elems := replicate a dead_elem @ st_elems st @ replicate b dead_elem,
      st_base := st_base st + int a\<rparr> \<and>
    0 \<le> st_base st + int a + off \<and>
    st_base st + int a + off + int n \<le> int (a + length (st_elems st) + b)"
proof -
  obtain b where b: "grow_old (off + int n) st = st\<lparr>st_elems := st_elems st @ replicate b dead_elem\<rparr>"
    "st_base st + off + int n \<le> int (length (st_elems st) + b)"
  proof (cases "off + int n > oldStackSize st")
    case True
    then have gt: "int (length (st_elems st)) < st_base st + (off + int n)"
      by (simp add: oldStackSize_def newStackSize_def)
    then show ?thesis using that[of "nat (st_base st + (off + int n)) - length (st_elems st)"] True
      by (simp add: grow_old_def resize_def newStackSize_def)
  next
    case False
    then show ?thesis using that[of 0] by (simp add: grow_old_def oldStackSize_def newStackSize_def)
  qed
  show ?thesis
  proof (cases "- off > st_base st")
    case True
    then show ?thesis
      using b assms
      by (intro exI[of _ "nat (- off - st_base st)"] exI[of _ b])
        (simp add: grow_def grow_new_def newStackSize_def Let_def)
  next
    case False
    then show ?thesis
      using b assms by (intro exI[of _ 0] exI[of _ b]) (simp add: grow_def grow_new_def newStackSize_def)
  qed
qed

lemma grow_facts:
  assumes "\<not> st_dead st" and "wf_stack st"
  shows "wf_stack (grow off n st)" and "\<not> st_dead (grow off n st)"
    and "0 \<le> st_base (grow off n st) + off"
    and "st_base (grow off n st) + off + int n \<le> int (length (st_elems (grow off n st)))"
    and "stack_at (grow off n st) o' = stack_at st o'"
proof -
  obtain a b where g: "grow off n st = st\<lparr>st_elems := replicate a dead_elem @ st_elems st @ replicate b dead_elem,
      st_base := st_base st + int a\<rparr>"
    and r: "0 \<le> st_base st + int a + off"
      "st_base st + int a + off + int n \<le> int (a + length (st_elems st) + b)"
    using grow_pads[OF assms] by blast
  show "wf_stack (grow off n st)"
    using assms wf_pad g by (simp add: wf_stack_def)
  show "\<not> st_dead (grow off n st)" "0 \<le> st_base (grow off n st) + off"
    "st_base (grow off n st) + off + int n \<le> int (length (st_elems (grow off n st)))"
    using assms r g by simp_all
  let ?b = "st_base st"
  show "stack_at (grow off n st) o' = stack_at st o'"
  proof (cases "0 \<le> ?b + int a + o' \<and> ?b + int a + o' < int (a + length (st_elems st) + b)")
    case True
    consider "?b + o' < 0" | "0 \<le> ?b + o'" "?b + o' < int (length (st_elems st))"
      | "int (length (st_elems st)) \<le> ?b + o'" by linarith
    then show ?thesis
    proof cases
      case 1
      then have "nat (?b + int a + o') < a" using True by linarith
      then show ?thesis using 1 True by (simp add: g stack_at_def nth_append)
    next
      case 2
      then have "nat (?b + int a + o') = a + nat (?b + o')" "nat (?b + o') < length (st_elems st)"
        by linarith+
      then show ?thesis using 2 True by (simp add: g stack_at_def nth_append)
    next
      case 3
      then have "nat (?b + int a + o') = a + (length (st_elems st) + nat (?b + o' - int (length (st_elems st))))"
        "nat (?b + o' - int (length (st_elems st))) < b" using True by linarith+
      then show ?thesis using 3 True by (simp add: g stack_at_def nth_append)
    qed
  next
    case False
    then show ?thesis using assms(2) by (auto simp: g stack_at_def wf_stack_def)
  qed
qed

lemma grow_dead [simp]: "st_dead st \<Longrightarrow> grow off n st = st"
  by (simp add: grow_def)

section \<open>Register accesses\<close>

lemma in_all_locs: "loc \<in> set all_locs \<longleftrightarrow> loc_ok loc"
  by (cases loc) (auto simp: all_locs_def)

lemma gpr_nr_less [simp]: "gpr_nr g < 16"
  by (cases g) simp_all

lemma gpr_nr_inj [simp]: "gpr_nr g = gpr_nr g' \<longleftrightarrow> g = g'"
  by (cases g; cases g') simp_all

lemma xmm_nr_less [simp]: "xmm_nr x < 16"
  by (cases x) simp_all

lemma xmm_nr_inj [simp]: "xmm_nr x = xmm_nr x' \<longleftrightarrow> x = x'"
  by (cases x; cases x') simp_all

lemma flag_nr_less [simp]: "flag_nr f < 6"
  by (cases f) simp_all

lemma flag_nr_inj [simp]: "flag_nr f = flag_nr f' \<longleftrightarrow> f = f'"
  by (cases f; cases f') simp_all

text \<open>An access the mask tables know.\<close>

definition access_ok :: "register \<Rightarrow> reg_access \<Rightarrow> bool" where
  "access_ok reg access \<longleftrightarrow> getSubRegisterMask reg access \<noteq> None"

lemmas reg_data_simps = getRegisterData_def def_reg_simple_def def_reg_xmm_def

lemma access_cases:
  assumes "access_ok reg access"
  obtains (flag) f where "reg = FlagReg f" "access = Full" "getRegisterData reg access = Some (LFlag1 (flag_nr f), 0, 1)"
  | (g64) g where "reg = Gpr64 g" "access = Full" "getRegisterData reg access = Some (LGprs64 (gpr_nr g), 0, 8)"
  | (g32) g where "reg = Gpr32 g" "access = Full" "getRegisterData reg access = Some (LGprs64 (gpr_nr g), 0, 4)"
  | (g16) g where "reg = Gpr16 g" "access = Full" "getRegisterData reg access = Some (LGprs64 (gpr_nr g), 0, 2)"
  | (g8) g where "reg = Gpr8 g" "access = Full" "getRegisterData reg access = Some (LGprs64 (gpr_nr g), 0, 1)"
  | (g8h) h where "reg = Gpr8H h" "access = Full"
      "getRegisterData reg access = Some (LGprs64 (gpr_nr (gpr_of_high h)), 1, 1)"
  | (parent) g where "reg \<in> {Gpr32 g, Gpr16 g, Gpr8 g}" "access = FullZeroParent"
      "getRegisterData reg access = Some (LGprs64 (gpr_nr g), 0, 8)"
  | (parent_h) h where "reg = Gpr8H h" "access = FullZeroParent"
      "getRegisterData reg access = Some (LGprs64 (gpr_nr (gpr_of_high h)), 0, 8)"
  | (xmm) x off n where "reg = XmmReg x" "getRegisterData reg access = Some (LSse128 (xmm_nr x), off, n)"
      "(access, off, n) \<in> {(Full, 0, 16), (H0, 0, 8), (H1, 8, 8), (F0, 0, 4), (F1, 4, 4), (F2, 8, 4), (F3, 12, 4)}"
  using assms unfolding access_ok_def
  by (cases reg; cases access)
    (auto simp: getSubRegisterMask_def reg_data_simps nth_opt_def split: if_splits)

lemma access_bounds:
  assumes "access_ok reg access"
  shows "\<exists>loc off n. getRegisterData reg access = Some (loc, off, n) \<and> loc_ok loc \<and> 0 < n \<and>
    off + n \<le> loc_size loc \<and> n \<in> {1, 2, 4, 8, 16}"
  using assms by (rule access_cases) auto

text \<open>
  The bytes of the physical registers that a subregister names, and the agreement of the two
  tables: an access touches exactly the bytes of the subregisters in its mask.
\<close>

fun sub_bytes :: "subregister \<Rightarrow> reg_loc \<times> nat \<times> nat" where
  "sub_bytes (FlagSub f) = (LFlag1 (flag_nr f), 0, 1)"
| "sub_bytes (GprSub g B0) = (LGprs64 (gpr_nr g), 0, 1)"
| "sub_bytes (GprSub g B1) = (LGprs64 (gpr_nr g), 1, 1)"
| "sub_bytes (GprSub g W1) = (LGprs64 (gpr_nr g), 2, 2)"
| "sub_bytes (GprSub g D1) = (LGprs64 (gpr_nr g), 4, 4)"
| "sub_bytes (XmmSub x p) = (LSse128 (xmm_nr x), 4 * xmm_part_nr p, 4)"

definition byte_of :: "reg_loc \<Rightarrow> nat \<Rightarrow> subregister \<Rightarrow> bool" where
  "byte_of loc i s = (case sub_bytes s of (l, a, k) \<Rightarrow> l = loc \<and> a \<le> i \<and> i < a + k)"

lemma access_mask_bytes:
  assumes m: "getSubRegisterMask reg access = Some m" and d: "getRegisterData reg access = Some (loc, off, n)"
  shows "(off \<le> i \<and> i < off + n) \<longleftrightarrow> (\<exists>s \<in> regs_in m. byte_of loc i s)"
proof -
  have ok: "access_ok reg access" using m by (simp add: access_ok_def)
  show ?thesis
    using ok
  proof (cases rule: access_cases)
    case (xmm x off' n')
    then show ?thesis using m d
      by (auto simp: getSubRegisterMask_def def_reg_xmm_def nth_opt_def mask_simps byte_of_def)
  next
    case (parent g)
    then show ?thesis using m d
      by (auto simp: getSubRegisterMask_def def_reg_simple_def mask_simps byte_of_def)
  qed (use m d in \<open>auto simp: getSubRegisterMask_def def_reg_simple_def mask_simps byte_of_def\<close>)
qed

lemma byte_of_unique: "byte_of loc i s \<Longrightarrow> byte_of loc i s' \<Longrightarrow> s = s'"
  by (cases s rule: sub_bytes.cases; cases s' rule: sub_bytes.cases)
    (auto simp: byte_of_def split: xmm_part.split_asm, (case_tac p; case_tac pa; simp)?)

section \<open>Well-formed states\<close>

definition wf_ps :: "program_state \<Rightarrow> bool" where
  "wf_ps ps \<longleftrightarrow>
     length (ps_flag1 ps) = 6 \<and> length (ps_gprs64 ps) = 16 \<and> length (ps_sse128 ps) = 16 \<and>
     list_all (\<lambda>loc. length (reg_elems ps loc) = loc_size loc \<and> wf_elems (reg_elems ps loc)) all_locs \<and>
     wf_stack (ps_stack ps)"

lemma wf_psD:
  assumes "wf_ps ps" and "loc_ok loc"
  shows "length (reg_elems ps loc) = loc_size loc" and "wf_elems (reg_elems ps loc)"
  using assms by (auto simp: wf_ps_def list_all_iff in_all_locs)

lemma reg_elems_put [simp]:
  "wf_ps ps \<Longrightarrow> loc_ok loc \<Longrightarrow> loc_ok loc' \<Longrightarrow>
   reg_elems (put_reg loc es ps) loc' = (if loc' = loc then es else reg_elems ps loc')"
  by (cases loc; cases loc') (auto simp: wf_ps_def)

lemma put_reg_stack [simp]: "ps_stack (put_reg loc es ps) = ps_stack ps"
  by (cases loc) simp_all

lemma put_reg_same [simp]: "wf_ps ps \<Longrightarrow> loc_ok loc \<Longrightarrow> put_reg loc (reg_elems ps loc) ps = ps"
  by (cases loc) (simp_all add: wf_ps_def)

lemma wf_put_reg:
  assumes "wf_ps ps" and "loc_ok loc" and "length es = loc_size loc" and "wf_elems es"
  shows "wf_ps (put_reg loc es ps)"
proof -
  have "length (ps_flag1 (put_reg loc es ps)) = 6 \<and> length (ps_gprs64 (put_reg loc es ps)) = 16 \<and>
    length (ps_sse128 (put_reg loc es ps)) = 16"
    using assms(1) by (cases loc) (auto simp: wf_ps_def)
  then show ?thesis
    using assms wf_psD[OF assms(1)] by (auto simp: wf_ps_def list_all_iff in_all_locs)
qed

lemma reg_elems_stack [simp]: "reg_elems (ps\<lparr>ps_stack := st\<rparr>) loc = reg_elems ps loc"
  by (cases loc) simp_all

lemma wf_put_stack_state: "wf_ps ps \<Longrightarrow> wf_stack st \<Longrightarrow> wf_ps (ps\<lparr>ps_stack := st\<rparr>)"
  by (simp add: wf_ps_def)

lemma wf_ps_stack: "wf_ps ps \<Longrightarrow> wf_stack (ps_stack ps)"
  by (simp add: wf_ps_def)

lemma wf_setDead [simp]: "wf_stack (setDead st)"
  by (simp add: wf_stack_def setDead_def wf_elems_def)

lemma wf_replicate_dead: "wf_elems (replicate n dead_elem)"
  using wf_pad[of "[]" n 0] by (simp add: wf_elems_def)

lemma reg_elems_init: "loc_ok loc \<Longrightarrow> reg_elems ps_init loc = replicate (loc_size loc) dead_elem"
  by (cases loc) (simp_all add: ps_init_def)

lemma wf_ps_init: "wf_ps ps_init"
proof -
  have "wf_stack (ps_stack ps_init)"
    by (simp add: ps_init_def stack_init_def wf_stack_def wf_elems_def)
  moreover have "length (ps_flag1 ps_init) = 6 \<and> length (ps_gprs64 ps_init) = 16 \<and> length (ps_sse128 ps_init) = 16"
    by (simp add: ps_init_def)
  ultimately show ?thesis
    by (simp add: wf_ps_def list_all_iff in_all_locs reg_elems_init wf_replicate_dead)
qed

section \<open>Machines\<close>

text \<open>The bytes of the physical registers and of the stack, by offset from the stack pointer at entry.\<close>

record machine =
  m_reg :: "reg_loc \<Rightarrow> byte list"
  m_stack :: "int \<Rightarrow> byte"

definition stack_bytes :: "stack_state \<Rightarrow> (int \<Rightarrow> byte) \<Rightarrow> byte list" where
  "stack_bytes st mem = map (\<lambda>i. mem (int i - st_base st)) [0..<length (st_elems st)]"

definition stack_conc :: "base \<Rightarrow> stack_state \<Rightarrow> (int \<Rightarrow> byte) \<Rightarrow> bool" where
  "stack_conc base st mem \<longleftrightarrow> st_dead st \<or> conc base (st_elems st) (stack_bytes st mem)"

definition ps_conc :: "base \<Rightarrow> program_state \<Rightarrow> machine \<Rightarrow> bool" where
  "ps_conc base ps m \<longleftrightarrow>
     list_all (\<lambda>loc. conc base (reg_elems ps loc) (m_reg m loc)) all_locs \<and>
     stack_conc base (ps_stack ps) (m_stack m)"

lemma ps_conc_reg: "ps_conc base ps m \<Longrightarrow> loc_ok loc \<Longrightarrow> conc base (reg_elems ps loc) (m_reg m loc)"
  by (simp add: ps_conc_def list_all_iff in_all_locs)

lemma ps_conc_stack: "ps_conc base ps m \<Longrightarrow> stack_conc base (ps_stack ps) (m_stack m)"
  by (simp add: ps_conc_def)

lemma length_stack_bytes [simp]: "length (stack_bytes st mem) = length (st_elems st)"
  by (simp add: stack_bytes_def)

lemma nth_stack_bytes:
  "i < length (st_elems st) \<Longrightarrow> stack_bytes st mem ! i = mem (int i - st_base st)"
  by (simp add: stack_bytes_def)

text \<open>A padded array describes the same bytes, with unconstrained ones around them.\<close>

lemma conc_pad:
  assumes wf: "wf_elems es" and len: "length cs = a + length es + b"
  shows "conc base (replicate a dead_elem @ es @ replicate b dead_elem) cs \<longleftrightarrow>
    conc base es (segment cs a (length es))"
    (is "conc base ?l cs \<longleftrightarrow> conc base es ?c")
proof -
  have lc: "length ?c = length es" using len by simp
  have at: "?l ! (a + i) = es ! i" if "i < length es" for i
    using that by (simp add: nth_append)
  have ca: "conc_at base ?l cs (a + i) \<longleftrightarrow> conc_at base es ?c i" if i: "i < length es" for i
  proof (cases "etype (es ! i)")
    case (EPtr k)
    then have room: "i + 8 \<le> length es"
      using wf_head_room[OF wf, of i] i by (simp add: head_at_def)
    have "segment cs (a + i) 8 = segment ?c i 8"
      using room len by (intro segment_eqI) (simp_all add: add.assoc)
    moreover have "(read_data ?l (a + i) 8 :: u64) = read_data es i 8"
    proof -
      have "map edata (segment ?l (a + i) 8) = map edata (segment es i 8)"
      proof (rule arg_cong[of _ _ "map edata"], rule segment_eqI)
        fix j assume "j < (8 :: nat)"
        then show "?l ! (a + i + j) = es ! (i + j)" using at[of "i + j"] room by (simp add: add.assoc)
      qed (use room in simp_all)
      then show ?thesis by (simp add: read_data_def)
    qed
    ultimately show ?thesis using EPtr at[OF i] by (simp add: conc_at_def)
  next
    case EImmediate
    then show ?thesis using at[OF i] len i by (simp add: conc_at_def)
  qed (use at[OF i] in \<open>simp_all add: conc_at_def\<close>)
  have out: "conc_at base ?l cs i" if "i < length ?l" "\<not> (a \<le> i \<and> i < a + length es)" for i
  proof -
    have "?l ! i = dead_elem" using that by (auto simp: nth_append)
    then show ?thesis by (simp add: conc_at_def)
  qed
  show ?thesis
  proof
    assume c: "conc base ?l cs"
    show "conc base es ?c"
    proof (rule concI)
      fix i assume i: "i < length es"
      show "conc_at base es ?c i" using concD[OF c, of "a + i"] ca[OF i] i by simp
    qed (simp add: lc)
  next
    assume c: "conc base es ?c"
    show "conc base ?l cs"
    proof (rule concI)
      fix i assume i: "i < length ?l"
      show "conc_at base ?l cs i"
      proof (cases "a \<le> i \<and> i < a + length es")
        case True
        then have j: "i - a < length es" "a + (i - a) = i" by linarith+
        then show ?thesis using concD[OF c j(1)] ca[OF j(1)] by simp
      qed (use out i in blast)
    qed (simp add: len)
  qed
qed

lemma grow_conc:
  assumes "wf_stack st"
  shows "stack_conc base (grow off n st) mem \<longleftrightarrow> stack_conc base st mem"
proof (cases "st_dead st")
  case False
  obtain a b where g: "grow off n st = st\<lparr>st_elems := replicate a dead_elem @ st_elems st @ replicate b dead_elem,
      st_base := st_base st + int a\<rparr>"
    using grow_pads[OF False assms] by blast
  have "segment (stack_bytes (grow off n st) mem) a (length (st_elems st)) = stack_bytes st mem"
    by (rule nth_equalityI) (simp_all add: g nth_stack_bytes add.assoc)
  moreover have "wf_elems (st_elems st)" using assms by (simp add: wf_stack_def)
  ultimately show ?thesis
    using False conc_pad[of "st_elems st" "stack_bytes (grow off n st) mem" a b base]
    by (simp add: stack_conc_def g add.assoc)
qed simp

end
