(* ===== verification/Places.thy ===== *)
theory Places
  imports Program_State_Sound
begin

text \<open>
  Reading and writing the program state through a place, which is a register access or a
  range of the stack, the two things an operand can be tracked in. The interface
  \<open>tracked_store\<close> says what the emulator relies on: every write succeeds, keeps the state
  well formed and keeps it a description of the machine; every read succeeds and returns a
  value that describes the bytes the machine has there. The program state is shown to
  provide it.
\<close>

section \<open>The interface\<close>

locale tracked_store =
  fixes inv :: "'s \<Rightarrow> bool"
    and rel :: "base \<Rightarrow> 's \<Rightarrow> 'm \<Rightarrow> bool"
    and rd :: "'s \<Rightarrow> 'a \<Rightarrow> (dyn_value \<times> 's) option"
    and wr :: "'s \<Rightarrow> 'a \<Rightarrow> dyn_value \<Rightarrow> 's option"
    and read_ok :: "'s \<Rightarrow> 'a \<Rightarrow> bool"
    and write_ok :: "'s \<Rightarrow> 'a \<Rightarrow> dyn_value \<Rightarrow> bool"
    and width :: "'a \<Rightarrow> nat"
    and load :: "'m \<Rightarrow> 'a \<Rightarrow> byte list"
    and store :: "'m \<Rightarrow> 'a \<Rightarrow> byte list \<Rightarrow> 'm"
  assumes read_total: "inv s \<Longrightarrow> read_ok s a \<Longrightarrow> \<exists>v s'. rd s a = Some (v, s') \<and> inv s'"
    and read_rel: "inv s \<Longrightarrow> read_ok s a \<Longrightarrow> rd s a = Some (v, s') \<Longrightarrow> rel base s m \<Longrightarrow>
        rel base s' m \<and> bytes_conc base v (load m a)"
    and write_total: "inv s \<Longrightarrow> write_ok s a v \<Longrightarrow> \<exists>s'. wr s a v = Some s' \<and> inv s'"
    and write_rel: "inv s \<Longrightarrow> write_ok s a v \<Longrightarrow> wr s a v = Some s' \<Longrightarrow> rel base s m \<Longrightarrow>
        bytes_conc base v bs \<Longrightarrow> length bs = width a \<Longrightarrow> rel base s' (store m a bs)"
begin

text \<open>A sequence of writes, and a machine that does the same with bytes the values allow.\<close>

fun write_all :: "'s \<Rightarrow> ('a \<times> dyn_value) list \<Rightarrow> 's option" where
  "write_all s [] = Some s"
| "write_all s ((a, v) # ws) = Option.bind (wr s a v) (\<lambda>s. write_all s ws)"

fun store_all :: "'m \<Rightarrow> ('a \<times> byte list) list \<Rightarrow> 'm" where
  "store_all m [] = m"
| "store_all m ((a, bs) # ws) = store_all (store m a bs) ws"

fun all_ok :: "'s \<Rightarrow> ('a \<times> dyn_value) list \<Rightarrow> bool" where
  "all_ok s [] = True"
| "all_ok s ((a, v) # ws) = (write_ok s a v \<and> (case wr s a v of None \<Rightarrow> False | Some s' \<Rightarrow> all_ok s' ws))"

definition allows :: "base \<Rightarrow> ('a \<times> dyn_value) list \<Rightarrow> ('a \<times> byte list) list \<Rightarrow> bool" where
  "allows base ws cs \<longleftrightarrow>
     list_all2 (\<lambda>(a, v) (a', bs). a = a' \<and> bytes_conc base v bs \<and> length bs = width a) ws cs"

lemma write_all_sound:
  assumes "inv s" and "all_ok s ws" and "rel base s m" and "allows base ws cs"
  shows "\<exists>s'. write_all s ws = Some s' \<and> inv s' \<and> rel base s' (store_all m cs)"
  using assms
proof (induction ws arbitrary: s m cs)
  case Nil
  then show ?case by (simp add: allows_def)
next
  case (Cons w ws)
  obtain a v where w: "w = (a, v)" by (cases w)
  obtain bs cs' where cs: "cs = (a, bs) # cs'" "bytes_conc base v bs" "length bs = width a"
    and rest: "allows base ws cs'"
    using Cons.prems(4) w by (auto simp: allows_def list_all2_Cons1)
  have ok: "write_ok s a v" using Cons.prems(2) w by simp
  obtain s' where s': "wr s a v = Some s'" "inv s'" using write_total[OF Cons.prems(1) ok] by blast
  have r: "rel base s' (store m a bs)" using write_rel[OF Cons.prems(1) ok s'(1) Cons.prems(3) cs(2,3)] .
  have "all_ok s' ws" using Cons.prems(2) w s' by simp
  then show ?case using Cons.IH[OF s'(2) _ r rest] w cs(1) s'(1) by simp
qed

text \<open>What is read after a sequence of writes describes the machine after the same writes.\<close>

lemma read_after_writes:
  assumes "inv s" and "all_ok s ws" and "rel base s m" and "allows base ws cs"
    and "write_all s ws = Some s'" and "read_ok s' a"
  shows "\<exists>v s''. rd s' a = Some (v, s'') \<and> inv s'' \<and> bytes_conc base v (load (store_all m cs) a)"
proof -
  have i: "inv s'" "rel base s' (store_all m cs)" using write_all_sound[OF assms(1-4)] assms(5) by auto
  then show ?thesis using read_total[OF i(1) assms(6)] read_rel[OF i(1) assms(6) _ i(2)] by blast
qed

end

section \<open>Places of the program state\<close>

datatype place = PlReg register reg_access | PlStack int mem_access_size

fun read_place :: "program_state \<Rightarrow> place \<Rightarrow> (dyn_value \<times> program_state) option" where
  "read_place ps (PlReg r a) = map_option (\<lambda>v. (v, ps)) (getRegister ps r a)"
| "read_place ps (PlStack off sz) = getStack ps off sz"

fun write_place :: "program_state \<Rightarrow> place \<Rightarrow> dyn_value \<Rightarrow> program_state option" where
  "write_place ps (PlReg r a) v = setRegister ps r a v False"
| "write_place ps (PlStack off sz) v = setStack ps off sz v False"

text \<open>
  The range of a register access. When the parent is cleared first (\<open>FullZeroParent\<close>) the
  value itself goes to the register's own bytes.
\<close>

definition own_access :: "reg_access \<Rightarrow> reg_access" where
  "own_access a = (if a = FullZeroParent then Full else a)"

definition reg_range :: "register \<Rightarrow> reg_access \<Rightarrow> reg_loc \<times> nat \<times> nat" where
  "reg_range r a = (case getRegisterData r a of Some x \<Rightarrow> x | None \<Rightarrow> (LFlag1 0, 0, 0))"

fun place_width :: "place \<Rightarrow> nat" where
  "place_width (PlReg r a) = snd (snd (reg_range r (own_access a)))"
| "place_width (PlStack off sz) = mem_bytes sz"

fun load_place :: "machine \<Rightarrow> place \<Rightarrow> byte list" where
  "load_place m (PlReg r a) = (case reg_range r a of (loc, off, n) \<Rightarrow> segment (m_reg m loc) off n)"
| "load_place m (PlStack off sz) = map (\<lambda>i. m_stack m (off + int i)) [0..<mem_bytes sz]"

definition splice_reg :: "reg_loc \<Rightarrow> nat \<Rightarrow> byte list \<Rightarrow> machine \<Rightarrow> machine" where
  "splice_reg loc off bs m = m\<lparr>m_reg := (m_reg m)(loc := splice (m_reg m loc) off bs)\<rparr>"

fun store_place :: "machine \<Rightarrow> place \<Rightarrow> byte list \<Rightarrow> machine" where
  "store_place m (PlReg r a) bs =
     (let m = (if a = FullZeroParent
               then case reg_range r a of (loc, off, n) \<Rightarrow> splice_reg loc off (replicate n 0) m
               else m)
      in case reg_range r (own_access a) of (loc, off, n) \<Rightarrow> splice_reg loc off bs m)"
| "store_place m (PlStack off sz) bs =
     m\<lparr>m_stack := (\<lambda>a. if off \<le> a \<and> a < off + int (length bs) then bs ! nat (a - off) else m_stack m a)\<rparr>"

text \<open>
  The stack is indexed by 32 bits; the program state can only be asked for offsets that stay
  below that. A write must not start in front of a tracked pointer and reach into it.
\<close>

definition stack_room :: "program_state \<Rightarrow> int \<Rightarrow> mem_access_size \<Rightarrow> bool" where
  "stack_room ps off sz \<longleftrightarrow>
     length (st_elems (grow off (mem_bytes sz) (ps_stack ps))) < 2 ^ 32 \<and>
     mem_bytes sz \<in> {1, 2, 4, 8, 16}"

lemma stack_room_code [code]:
  "stack_room ps off sz \<longleftrightarrow>
     int (length (st_elems (grow off (mem_bytes sz) (ps_stack ps)))) < 4294967296 \<and>
     mem_bytes sz \<in> {1, 2, 4, 8, 16}"
  by (simp add: stack_room_def)

fun read_place_ok :: "program_state \<Rightarrow> place \<Rightarrow> bool" where
  "read_place_ok ps (PlReg r a) = access_ok r a"
| "read_place_ok ps (PlStack off sz) = stack_room ps off sz"

fun write_place_ok :: "program_state \<Rightarrow> place \<Rightarrow> dyn_value \<Rightarrow> bool" where
  "write_place_ok ps (PlReg r a) v =
     (access_ok r a \<and>
      (case reg_range r (own_access a) of (loc, off, n) \<Rightarrow>
         size_ok v n \<and> no_inner_head (reg_elems ps loc) off n))"
| "write_place_ok ps (PlStack off sz) v =
     (stack_room ps off sz \<and> size_ok v (mem_bytes sz) \<and>
      (let st = grow off (mem_bytes sz) (ps_stack ps) in
       no_inner_head (st_elems st) (getStackIdx st off) (mem_bytes sz)))"

section \<open>Reading succeeds\<close>

lemma scan_heads:
  assumes wf: "wf_elems es"
  shows "scan_elements es off n i sc = Some sc' \<Longrightarrow> hasPtr sc' \<or> hasStackPtr sc' \<Longrightarrow>
    isMixed sc' \<or> hasPtr sc \<or> hasStackPtr sc \<or> i = 0 \<and> is_head (etype (es ! off))"
proof (induction "n - i" arbitrary: i sc rule: less_induct)
  case less
  show ?case
  proof (cases "i < n \<and> off + i < length es")
    case False
    then show ?thesis using less.prems by (subst (asm) scan_unfold) (auto split: if_splits)
  next
    case True
    let ?t = "etype (es ! (off + i))"
    let ?i = "if is_head ?t then i + 8 else i + 1"
    let ?sc = "scan_round ?t i sc"
    have step: "scan_elements es off n ?i ?sc = Some sc'"
      using less.prems(1) True by (subst (asm) scan_unfold) simp
    have "isMixed ?sc \<longrightarrow> isMixed sc'"
      using scan_result[OF wf step] by (simp add: scan_le_def)
    moreover have "n - (i + 8) < n - i" "n - (i + 1) < n - i" using True by linarith+
    then have "n - ?i < n - i" "?i \<noteq> 0" by (presburger, simp)
    then have "isMixed sc' \<or> hasPtr ?sc \<or> hasStackPtr ?sc"
      using less.hyps[OF _ step less.prems(2)] by argo
    ultimately show ?thesis
      by (cases ?t) (auto simp: scan_round_def split: if_splits)
  qed
qed

lemma get_elements_total:
  assumes wf: "wf_elems es" and n: "n \<in> {1, 2, 4, 8, 16}" "off + n \<le> length es"
  shows "\<exists>v. get_elements es off n = Some v"
proof -
  obtain sc where sc: "scan_elements es off n 0 scan_init = Some sc"
    using scan_total[OF n(2)] by blast
  have head: "is_head (etype (es ! off))" if "hasPtr sc \<or> hasStackPtr sc" "\<not> isMixed sc"
    using scan_heads[OF wf sc] that by (simp add: scan_init_def)
  have "\<exists>v. get_ptr es off = Some v" if "is_head (etype (es ! off))"
  proof -
    have "off + 8 \<le> length es" using wf_head_room[OF wf, of off] that n by (auto simp: head_at_def)
    then show ?thesis using that by (cases "etype (es ! off)") (auto simp: get_ptr_def)
  qed
  then show ?thesis using head sc n by (auto simp: get_elements_def Let_def)
qed

section \<open>Registers\<close>

lemma reg_range_own:
  assumes "access_ok r a"
  shows "\<exists>loc off n. reg_range r (own_access a) = (loc, off, n) \<and>
    getRegisterData r (own_access a) = Some (loc, off, n) \<and> access_ok r (own_access a) \<and>
    loc_ok loc \<and> 0 < n \<and> off + n \<le> loc_size loc \<and> n \<in> {1, 2, 4, 8, 16}"
proof -
  have "access_ok r (own_access a)"
    using assms by (cases r) (auto simp: own_access_def access_ok_def getSubRegisterMask_def)
  then show ?thesis using access_bounds by (fastforce simp: reg_range_def)
qed

lemma reg_range_parent:
  assumes "access_ok r FullZeroParent"
  shows "\<exists>g. reg_range r FullZeroParent = (LGprs64 (gpr_nr g), 0, 8) \<and>
    getRegisterData r FullZeroParent = Some (LGprs64 (gpr_nr g), 0, 8) \<and>
    fst (reg_range r Full) = LGprs64 (gpr_nr g)"
  using assms
proof (cases rule: access_cases)
  case (parent g)
  then show ?thesis
    by (intro exI[of _ g]) (auto simp: reg_range_def reg_data_simps)
next
  case (parent_h h)
  then show ?thesis
    by (intro exI[of _ "gpr_of_high h"]) (auto simp: reg_range_def reg_data_simps)
qed auto

text \<open>A pointer fills a general purpose register, so no write can start in front of one.\<close>

lemma gpr_no_inner:
  assumes "wf_elems es" and "length es \<le> 8"
  shows "no_inner_head es off n"
  using wf_head_room[OF assms(1)] assms(2) by (fastforce simp: no_inner_head_def list_all_iff)

lemma set_loc_elements:
  assumes wf: "wf_ps ps" and loc: "loc_ok loc" and n: "0 < n" "off + n \<le> loc_size loc"
    and inner: "no_inner_head (reg_elems ps loc) off n" and ok: "size_ok v n"
  shows "\<exists>es. set_elements (reg_elems ps loc) off n v False = Some es \<and> wf_ps (put_reg loc es ps) \<and>
    holds_value v off n es \<and> length es = loc_size loc \<and>
    (\<forall>base m bs. ps_conc base ps m \<longrightarrow> bytes_conc base v bs \<longrightarrow> length bs = n \<longrightarrow>
       ps_conc base (put_reg loc es ps) (splice_reg loc off bs m))"
proof -
  let ?es = "reg_elems ps loc"
  have l: "length ?es = loc_size loc" "wf_elems ?es" using wf_psD[OF wf loc] by auto
  obtain es where es: "set_elements ?es off n v False = Some es" "length es = loc_size loc" "wf_elems es"
    "holds_value v off n es"
    using set_elements_spec[OF l(2) n(1) _ inner ok] n(2) l(1) by auto
  have "ps_conc base (put_reg loc es ps) (splice_reg loc off bs m)"
    if c: "ps_conc base ps m" and b: "bytes_conc base v bs" "length bs = n" for base m bs
  proof -
    have "conc base es (splice (m_reg m loc) off bs)"
      using set_elements_conc[OF l(2) n(1) _ inner ok es(1) ps_conc_reg[OF c loc] b] n(2) l(1) by simp
    then show ?thesis
      using c wf loc by (auto simp: ps_conc_def list_all_iff in_all_locs splice_reg_def)
  qed
  then show ?thesis using es wf_put_reg[OF wf loc es(2,3)] by blast
qed

lemma write_reg_place:
  assumes wf: "wf_ps ps" and ok: "write_place_ok ps (PlReg r a) v"
  shows "\<exists>ps'. setRegister ps r a v False = Some ps' \<and> wf_ps ps' \<and>
    (case reg_range r (own_access a) of (loc, off, n) \<Rightarrow> holds_value v off n (reg_elems ps' loc)) \<and>
    (\<forall>base m bs. ps_conc base ps m \<longrightarrow> bytes_conc base v bs \<longrightarrow> length bs = place_width (PlReg r a) \<longrightarrow>
       ps_conc base ps' (store_place m (PlReg r a) bs))"
proof -
  have acc: "access_ok r a" using ok by simp
  obtain loc off n where rr: "reg_range r (own_access a) = (loc, off, n)"
    "getRegisterData r (own_access a) = Some (loc, off, n)" "loc_ok loc" "0 < n" "off + n \<le> loc_size loc"
    using reg_range_own[OF acc] by (elim exE conjE) (rule that)
  have sz: "size_ok v n" "no_inner_head (reg_elems ps loc) off n" using ok rr(1) by simp_all
  show ?thesis
  proof (cases "a = FullZeroParent")
    case False
    then have oa: "own_access a = a" by (simp add: own_access_def)
    obtain es where "set_elements (reg_elems ps loc) off n v False = Some es" "wf_ps (put_reg loc es ps)"
      "holds_value v off n es"
      "\<forall>base m bs. ps_conc base ps m \<longrightarrow> bytes_conc base v bs \<longrightarrow> length bs = n \<longrightarrow>
         ps_conc base (put_reg loc es ps) (splice_reg loc off bs m)"
      using set_loc_elements[OF wf rr(3,4,5) sz(2,1)] by blast
    then show ?thesis using False rr(1,2,3) oa wf
      by (intro exI[of _ "put_reg loc es ps"]) (simp add: setRegister_def)
  next
    case True
    then have oa: "own_access a = Full" by (simp add: own_access_def)
    obtain g where g: "reg_range r FullZeroParent = (LGprs64 (gpr_nr g), 0, 8)"
      "getRegisterData r FullZeroParent = Some (LGprs64 (gpr_nr g), 0, 8)" "loc = LGprs64 (gpr_nr g)"
      using reg_range_parent[of r] acc True rr(1) oa by auto
    have z: "size_ok (Imm64 0) 8" by (simp add: size_ok_def)
    obtain es0 where e0: "set_elements (reg_elems ps loc) 0 8 (Imm64 0) False = Some es0"
      "wf_ps (put_reg loc es0 ps)" "length es0 = 8"
      "\<forall>base m bs. ps_conc base ps m \<longrightarrow> bytes_conc base (Imm64 0) bs \<longrightarrow> length bs = 8 \<longrightarrow>
         ps_conc base (put_reg loc es0 ps) (splice_reg loc 0 bs m)"
      using set_loc_elements[OF wf rr(3), of 8 0 "Imm64 0"] g(3) z wf_psD[OF wf rr(3)] gpr_no_inner
      by auto
    have "no_inner_head (reg_elems (put_reg loc es0 ps) loc) off n"
      using wf_psD[OF e0(2) rr(3)] g(3) by (intro gpr_no_inner) auto
    then obtain es where e: "set_elements (reg_elems (put_reg loc es0 ps) loc) off n v False = Some es"
      "wf_ps (put_reg loc es (put_reg loc es0 ps))" "holds_value v off n es"
      "\<forall>base m bs. ps_conc base (put_reg loc es0 ps) m \<longrightarrow> bytes_conc base v bs \<longrightarrow> length bs = n \<longrightarrow>
         ps_conc base (put_reg loc es (put_reg loc es0 ps)) (splice_reg loc off bs m)"
      using set_loc_elements[OF e0(2) rr(3,4,5) _ sz(1)] by blast
    have zero: "bytes_conc base (Imm64 0) (replicate 8 0)" for base
      by (simp add: bytes_conc_def le_bytes_def list_eq_iff_nth_eq)
    have at: "reg_elems (put_reg loc es (put_reg loc es0 ps)) loc = es"
      using e0(2) rr(3) by simp
    show ?thesis using True g e0(1,4) e rr(1,2) oa zero at
      by (intro exI[of _ "put_reg loc es (put_reg loc es0 ps)"]) (simp add: setRegister_def)
  qed
qed

lemma read_reg_place:
  assumes wf: "wf_ps ps" and acc: "access_ok r a"
  shows "\<exists>v. getRegister ps r a = Some v \<and>
    (\<forall>base m. ps_conc base ps m \<longrightarrow> bytes_conc base v (load_place m (PlReg r a)))"
proof -
  obtain loc off n where rr: "getRegisterData r a = Some (loc, off, n)" "loc_ok loc" "0 < n"
    "off + n \<le> loc_size loc" "n \<in> {1, 2, 4, 8, 16}"
    using access_bounds[OF acc] by (elim exE conjE) (rule that)
  have l: "length (reg_elems ps loc) = loc_size loc" "wf_elems (reg_elems ps loc)"
    using wf_psD[OF wf rr(2)] by auto
  then obtain v where v: "get_elements (reg_elems ps loc) off n = Some v"
    using get_elements_total[OF l(2) rr(5)] rr(4) by auto
  have "bytes_conc base v (segment (m_reg m loc) off n)" if "ps_conc base ps m" for base m
    using get_elements_conc[OF l(2) rr(3) _ v ps_conc_reg[OF that rr(2)]] rr(4) l(1) by simp
  then show ?thesis using v rr(1) by (simp add: getRegister_def reg_range_def)
qed

section \<open>The stack\<close>

lemma stack_index:
  assumes "\<not> st_dead st" and "wf_stack st" and "length (st_elems (grow off n st)) < 2 ^ 32"
  shows "int (getStackIdx (grow off n st) off) = st_base (grow off n st) + off"
    and "getStackIdx (grow off n st) off + n \<le> length (st_elems (grow off n st))"
proof -
  let ?st = "grow off n st"
  have r: "0 \<le> st_base ?st + off" "st_base ?st + off + int n \<le> int (length (st_elems ?st))"
    using grow_facts[OF assms(1,2)] by auto
  moreover have "int (length (st_elems ?st)) < 2 ^ 32" using assms(3) by simp
  ultimately have "st_base ?st + off < 2 ^ 32" by linarith
  with r show i: "int (getStackIdx ?st off) = st_base ?st + off"
    using r(1) by (simp add: getStackIdx_def)
  show "getStackIdx ?st off + n \<le> length (st_elems ?st)"
    using i grow_facts(4)[OF assms(1,2), of off n] by linarith
qed

lemma grow_stack_simps [simp]:
  "ps_stack (grow_stack off n ps) = grow off n (ps_stack ps)"
  "reg_elems (grow_stack off n ps) loc = reg_elems ps loc"
  "isStackDead (grow_stack off n ps) = isStackDead ps"
  by (simp_all add: grow_stack_def isStackDead_def grow_def grow_old_def grow_new_def Let_def)

lemma wf_grow_stack: "wf_ps ps \<Longrightarrow> wf_ps (grow_stack off n ps)"
  using grow_facts(1)[of "ps_stack ps"] wf_ps_stack[of ps]
  by (cases "st_dead (ps_stack ps)") (auto simp: grow_stack_def intro: wf_put_stack_state)

lemma ps_conc_grow [simp]:
  "wf_ps ps \<Longrightarrow> ps_conc base (grow_stack off n ps) m \<longleftrightarrow> ps_conc base ps m"
  using grow_conc[OF wf_ps_stack] by (simp add: ps_conc_def)

lemma read_stack_place:
  assumes wf: "wf_ps ps" and room: "stack_room ps off sz"
  shows "\<exists>v ps'. getStack ps off sz = Some (v, ps') \<and> wf_ps ps' \<and>
    (\<forall>base m. ps_conc base ps m \<longrightarrow>
       ps_conc base ps' m \<and> bytes_conc base v (load_place m (PlStack off sz)))"
proof -
  let ?n = "mem_bytes sz"
  have n: "?n \<in> {1, 2, 4, 8, 16}" and su: "sz \<noteq> MUnknown"
    using room by (auto simp: stack_room_def)
  show ?thesis
  proof (cases "isStackDead ps")
    case True
    then show ?thesis using wf su by (simp add: getStack_def bytes_conc_def)
  next
    case False
    let ?st = "grow off ?n (ps_stack ps)"
    have nd: "\<not> st_dead (ps_stack ps)" using False by (simp add: isStackDead_def)
    have wst: "wf_elems (st_elems ?st)"
      using grow_facts(1)[OF nd wf_ps_stack[OF wf]] by (simp add: wf_stack_def)
    have len: "length (st_elems ?st) < 2 ^ 32" using room by (simp add: stack_room_def)
    have idx: "int (getStackIdx ?st off) = st_base ?st + off"
      "getStackIdx ?st off + ?n \<le> length (st_elems ?st)"
      using stack_index[OF nd wf_ps_stack[OF wf] len] by auto
    obtain v where v: "get_elements (st_elems ?st) (getStackIdx ?st off) ?n = Some v"
      using get_elements_total[OF wst n idx(2)] by blast
    have "bytes_conc base v (load_place m (PlStack off sz))" if c: "ps_conc base ps m" for base m
    proof -
      have "\<not> st_dead ?st" using grow_facts(2)[OF nd wf_ps_stack[OF wf]] .
      then have "conc base (st_elems ?st) (stack_bytes ?st (m_stack m))"
        using ps_conc_stack[OF c] grow_conc[OF wf_ps_stack[OF wf]] by (auto simp: stack_conc_def)
      then have "bytes_conc base v (segment (stack_bytes ?st (m_stack m)) (getStackIdx ?st off) ?n)"
        using get_elements_conc[OF wst _ idx(2) v] mem_bytes_pos[OF su] by blast
      moreover have "segment (stack_bytes ?st (m_stack m)) (getStackIdx ?st off) ?n = load_place m (PlStack off sz)"
        using idx by (intro nth_equalityI) (simp_all add: nth_stack_bytes)
      ultimately show ?thesis by simp
    qed
    then show ?thesis
      using v su False wf wf_grow_stack[OF wf]
      by (simp add: getStack_def Let_def)
  qed
qed

lemma write_stack_place:
  assumes wf: "wf_ps ps" and ok: "write_place_ok ps (PlStack off sz) v"
  shows "\<exists>ps'. setStack ps off sz v False = Some ps' \<and> wf_ps ps' \<and>
    (\<forall>base m bs. ps_conc base ps m \<longrightarrow> bytes_conc base v bs \<longrightarrow> length bs = mem_bytes sz \<longrightarrow>
       ps_conc base ps' (store_place m (PlStack off sz) bs))"
proof -
  let ?n = "mem_bytes sz"
  have room: "stack_room ps off sz" and sok: "size_ok v ?n" using ok by auto
  have n: "?n \<in> {1, 2, 4, 8, 16}" and su: "sz \<noteq> MUnknown"
    using room by (auto simp: stack_room_def)
  show ?thesis
  proof (cases "isStackDead ps")
    case True
    then show ?thesis using wf su
      by (simp add: setStack_def isStackDead_def ps_conc_def stack_conc_def)
  next
    case False
    let ?st = "grow off ?n (ps_stack ps)"
    let ?i = "getStackIdx ?st off"
    have nd: "\<not> st_dead (ps_stack ps)" using False by (simp add: isStackDead_def)
    note gf = grow_facts[OF nd wf_ps_stack[OF wf], of off ?n]
    have wst: "wf_elems (st_elems ?st)" using gf(1) by (simp add: wf_stack_def)
    have len: "length (st_elems ?st) < 2 ^ 32" using room by (simp add: stack_room_def)
    have idx: "int ?i = st_base ?st + off" "?i + ?n \<le> length (st_elems ?st)"
      using stack_index[OF nd wf_ps_stack[OF wf] len] by auto
    have inner: "no_inner_head (st_elems ?st) ?i ?n" using ok by (simp add: Let_def)
    obtain es where es: "set_elements (st_elems ?st) ?i ?n v False = Some es"
      "length es = length (st_elems ?st)" "wf_elems es"
      using set_elements_spec[OF wst mem_bytes_pos[OF su] idx(2) inner sok] by blast
    let ?ps = "put_stack es (grow_stack off ?n ps)"
    have w: "wf_ps ?ps"
      using wf_put_stack_state[OF wf_grow_stack[OF wf, of off ?n], of "?st\<lparr>st_elems := es\<rparr>"] gf(1) es(2,3)
      by (simp add: put_stack_def wf_stack_def)
    have "ps_conc base ?ps (store_place m (PlStack off sz) bs)"
      if c: "ps_conc base ps m" and b: "bytes_conc base v bs" "length bs = ?n" for base m bs
    proof -
      have "conc base (st_elems ?st) (stack_bytes ?st (m_stack m))"
        using ps_conc_stack[OF c] grow_conc[OF wf_ps_stack[OF wf]] gf(2) by (auto simp: stack_conc_def)
      then have "conc base es (splice (stack_bytes ?st (m_stack m)) ?i bs)"
        using set_elements_conc[OF wst mem_bytes_pos[OF su] idx(2) inner sok es(1) _ b] by blast
      moreover have "splice (stack_bytes ?st (m_stack m)) ?i bs =
        stack_bytes (?st\<lparr>st_elems := es\<rparr>) (m_stack (store_place m (PlStack off sz) bs))" (is "?l = ?r")
      proof (rule nth_equalityI)
        show ll: "length ?l = length ?r" using idx(2) b es(2) by simp
        fix j assume "j < length ?l"
        then have j: "j < length (st_elems ?st)" using ll es(2) by simp
        have e: "nat (int j - st_base ?st - off) = j - ?i" if "?i \<le> j" using idx(1) that by linarith
        have r: "off \<le> int j - st_base ?st \<longleftrightarrow> ?i \<le> j"
          "int j - st_base ?st < off + int ?n \<longleftrightarrow> j < ?i + ?n" using idx(1) by linarith+
        show "?l ! j = ?r ! j"
          using j idx(2) b es(2) e r by (simp add: nth_splice nth_stack_bytes)
      qed
      ultimately show ?thesis
        using c gf(2) by (simp add: ps_conc_def put_stack_def stack_conc_def grow_stack_def)
    qed
    then show ?thesis using es(1) w su False
      by (simp add: setStack_def Let_def)
  qed
qed

section \<open>The program state provides the interface\<close>

interpretation ps: tracked_store wf_ps ps_conc read_place write_place read_place_ok write_place_ok
    place_width load_place store_place
proof unfold_locales
  fix s a
  assume i: "wf_ps s" and ok: "read_place_ok s a"
  show "\<exists>v s'. read_place s a = Some (v, s') \<and> wf_ps s'"
    using read_reg_place[OF i] read_stack_place[OF i] ok i by (cases a) fastforce+
next
  fix s a v s' base m
  assume i: "wf_ps s" and ok: "read_place_ok s a" and r: "read_place s a = Some (v, s')" "ps_conc base s m"
  show "ps_conc base s' m \<and> bytes_conc base v (load_place m a)"
  proof (cases a)
    case (PlReg x y)
    then show ?thesis using read_reg_place[OF i, of x y] ok r by auto
  next
    case (PlStack x y)
    then show ?thesis using read_stack_place[OF i, of x y] ok r by auto
  qed
next
  fix s a v
  assume i: "wf_ps s" and ok: "write_place_ok s a v"
  show "\<exists>s'. write_place s a v = Some s' \<and> wf_ps s'"
    using write_reg_place[OF i] write_stack_place[OF i] ok by (cases a) fastforce+
next
  fix s a v s' base m bs
  assume i: "wf_ps s" and ok: "write_place_ok s a v" and w: "write_place s a v = Some s'"
    and c: "ps_conc base s m" and b: "bytes_conc base v bs" "length bs = place_width a"
  show "ps_conc base s' (store_place m a bs)"
  proof (cases a)
    case (PlReg x y)
    then show ?thesis using write_reg_place[OF i, of x y v] ok w c b by auto
  next
    case (PlStack x y)
    then show ?thesis using write_stack_place[OF i, of x y v] ok w c b by auto
  qed
qed

end
