(* ===== verification/Mem_Prot.thy ===== *)
theory Mem_Prot
  imports Prelude
begin

text \<open>
  Which memory may be read while rewriting and taken as constant: \<open>MemProtCache\<close>
  (\<open>src/MemProtCache.cpp\<close>). The mappings of the process and the ranges the user declared
  constant are lists of ranges of 64-bit addresses; the arithmetic on addresses wraps.
\<close>

section \<open>The model\<close>

record memory_range =
  mr_start :: u64
  mr_end :: u64
  mr_r :: bool
  mr_w :: bool
  mr_x :: bool

record mem_cfg =
  mc_start :: u64
  mc_size :: u64

record mem_prot =
  mp_ranges :: "memory_range list"  \<comment> \<open>\<open>memoryRanges\<close>\<close>
  mp_cfg :: "mem_cfg list"          \<comment> \<open>\<open>cfg.ranges\<close>, \<open>cfg.range_count\<close> of them\<close>

definition findMemoryRange :: "mem_prot \<Rightarrow> u64 \<Rightarrow> memory_range option" where
  "findMemoryRange mp addr = find (\<lambda>r. mr_start r \<le> addr \<and> addr < mr_end r) (mp_ranges mp)"

definition mc_end :: "mem_cfg \<Rightarrow> u64" where
  "mc_end m = mc_start m + mc_size m"

definition find_mem_cfg :: "mem_prot \<Rightarrow> u64 \<Rightarrow> mem_cfg option" where
  "find_mem_cfg mp addr = find (\<lambda>m. mc_start m \<le> addr \<and> addr < mc_end m) (mp_cfg mp)"

lemma find_mem_cfg_advance: "find_mem_cfg mp addr = Some m \<Longrightarrow> unat addr < unat (mc_end m)"
  by (auto simp: find_mem_cfg_def find_Some_iff word_less_nat_alt)

lemma findMemoryRange_advance: "findMemoryRange mp addr = Some r \<Longrightarrow> unat addr < unat (mr_end r)"
  by (auto simp: findMemoryRange_def find_Some_iff word_less_nat_alt)

text \<open>The two loops; every round moves the address up, so both end.\<close>

function configured_loop :: "mem_prot \<Rightarrow> u64 \<Rightarrow> u64 \<Rightarrow> bool" where
  "configured_loop mp addr end_addr =
     (if addr < end_addr then
        case find_mem_cfg mp addr of
          None \<Rightarrow> False
        | Some m \<Rightarrow> configured_loop mp (mc_end m) end_addr
      else True)"
  by pat_completeness auto
termination
proof (relation "measure (\<lambda>(mp, addr, end_addr). unat end_addr - unat addr)")
  fix mp addr end_addr m
  assume "addr < (end_addr :: u64)" and "find_mem_cfg mp addr = Some m"
  then show "((mp, mc_end m, end_addr), (mp, addr, end_addr)) \<in>
      measure (\<lambda>(mp, addr, end_addr). unat end_addr - unat addr)"
    using find_mem_cfg_advance[of mp addr m] by (simp add: word_less_nat_alt)
qed simp

declare configured_loop.simps [simp del]

definition isConfiguredConstant :: "mem_prot \<Rightarrow> u64 \<Rightarrow> u64 \<Rightarrow> bool option" where
  "isConfiguredConstant mp addr sz =
     (if sz = 0 then Some True
      else do { drob_assert (addr + sz > addr);
                if mp_cfg mp = [] then Some False
                else Some (configured_loop mp addr (addr + sz)) })"

function constant_loop :: "mem_prot \<Rightarrow> u64 \<Rightarrow> u64 \<Rightarrow> u64 \<Rightarrow> bool option" where
  "constant_loop mp sz addr end_addr =
     (if addr < end_addr then
        case findMemoryRange mp addr of
          None \<Rightarrow> Some False
        | Some r \<Rightarrow>
            if \<not> mr_r r then Some False
            else if mr_w r then
              case isConfiguredConstant mp addr sz of
                None \<Rightarrow> throw
              | Some c \<Rightarrow> if \<not> c then Some False else constant_loop mp sz (mr_end r) end_addr
            else constant_loop mp sz (mr_end r) end_addr
      else Some True)"
  by pat_completeness auto
termination
proof (relation "measure (\<lambda>(mp, sz, addr, end_addr). unat end_addr - unat addr)")
  fix mp sz addr end_addr r
  assume a: "addr < (end_addr :: u64)" "findMemoryRange mp addr = Some r"
  then have less: "unat end_addr - unat (mr_end r) < unat end_addr - unat addr"
    using findMemoryRange_advance[of mp addr r] by (simp add: word_less_nat_alt)
  show "((mp, sz, mr_end r, end_addr), (mp, sz, addr, end_addr)) \<in>
      measure (\<lambda>(mp, sz, addr, end_addr). unat end_addr - unat addr)"
    using less by simp
  show "((mp, sz, mr_end r, end_addr), (mp, sz, addr, end_addr)) \<in>
      measure (\<lambda>(mp, sz, addr, end_addr). unat end_addr - unat addr)"
    using less by simp
qed simp

declare constant_loop.simps [simp del]

definition isConstant :: "mem_prot \<Rightarrow> u64 \<Rightarrow> u64 \<Rightarrow> bool option" where
  "isConstant mp addr sz =
     (if sz = 0 then Some True
      else do { drob_assert (addr + sz > addr); constant_loop mp sz addr (addr + sz) })"

section \<open>What an answer means\<close>

text \<open>The byte at an address is covered by a range the user declared constant.\<close>

definition configured_at :: "mem_prot \<Rightarrow> u64 \<Rightarrow> bool" where
  "configured_at mp x \<longleftrightarrow> list_ex (\<lambda>m. mc_start m \<le> x \<and> x < mc_end m) (mp_cfg mp)"

text \<open>The byte is mapped readable, and either not writable or declared constant.\<close>

definition constant_at :: "mem_prot \<Rightarrow> u64 \<Rightarrow> bool" where
  "constant_at mp x \<longleftrightarrow>
     list_ex (\<lambda>r. mr_start r \<le> x \<and> x < mr_end r \<and> mr_r r \<and> (mr_w r \<longrightarrow> configured_at mp x)) (mp_ranges mp)"

lemma no_wrap: "(a :: u64) < a + s \<Longrightarrow> unat (a + s) = unat a + unat s"
  by (simp add: unat_plus_simple [symmetric])

lemma configured_loop_sound:
  "configured_loop mp addr end_addr \<Longrightarrow> addr \<le> x \<Longrightarrow> x < end_addr \<Longrightarrow> configured_at mp x"
proof (induction mp addr end_addr rule: configured_loop.induct)
  case (1 mp addr end_addr)
  have lt: "addr < end_addr" using "1.prems"(2,3) by simp
  then obtain m where m: "find_mem_cfg mp addr = Some m" "configured_loop mp (mc_end m) end_addr"
    using "1.prems"(1) by (subst (asm) configured_loop.simps) (auto split: option.splits)
  then have h: "m \<in> set (mp_cfg mp)" "mc_start m \<le> addr"
    by (auto simp: find_mem_cfg_def find_Some_iff)
  show ?case
  proof (cases "x < mc_end m")
    case True
    moreover have "mc_start m \<le> x" using h(2) "1.prems"(2) by simp
    ultimately show ?thesis using h(1) by (auto simp: configured_at_def list_ex_iff)
  next
    case False
    then show ?thesis using "1.IH"[OF lt m] "1.prems"(3) by simp
  qed
qed

lemma isConfiguredConstant_sound:
  assumes "isConfiguredConstant mp addr sz = Some True" and "addr \<le> x" and "x < addr + sz"
  shows "configured_at mp x"
  using assms configured_loop_sound
  by (auto simp: isConfiguredConstant_def split: if_splits)

text \<open>
  In a later round the code asks about the full size again, from the later address, so what it
  asks for covers the rest of the range.
\<close>

lemma constant_loop_sound:
  "constant_loop mp sz addr end_addr = Some True \<Longrightarrow> a \<le> addr \<Longrightarrow> end_addr = a + sz \<Longrightarrow> a < a + sz \<Longrightarrow>
   addr \<le> x \<Longrightarrow> x < end_addr \<Longrightarrow> constant_at mp x"
proof (induction mp sz addr end_addr rule: constant_loop.induct)
  case (1 mp sz addr end_addr)
  have lt: "addr < end_addr" using "1.prems"(5,6) by simp
  obtain r where r: "findMemoryRange mp addr = Some r" "mr_r r"
    and cfg: "mr_w r \<longrightarrow> isConfiguredConstant mp addr sz = Some True"
    and rest: "constant_loop mp sz (mr_end r) end_addr = Some True"
    using "1.prems"(1) lt by (subst (asm) constant_loop.simps) (auto split: option.splits if_splits)
  have h: "r \<in> set (mp_ranges mp)" "mr_start r \<le> addr" "addr < mr_end r"
    using r(1) by (auto simp: findMemoryRange_def find_Some_iff)
  show ?case
  proof (cases "x < mr_end r")
    case True
    have "configured_at mp x" if "mr_w r"
    proof -
      have c: "isConfiguredConstant mp addr sz = Some True" using cfg that by blast
      have "sz \<noteq> 0" using "1.prems"(4) by auto
      then have up: "addr < addr + sz"
        using c by (auto simp: isConfiguredConstant_def split: if_splits)
      have "end_addr \<le> addr + sz"
        using "1.prems"(2,3) no_wrap[OF "1.prems"(4)] no_wrap[OF up] by (simp add: word_le_nat_alt)
      then show ?thesis using isConfiguredConstant_sound[OF c "1.prems"(5)] "1.prems"(6) by simp
    qed
    moreover have "mr_start r \<le> x" using h(2) "1.prems"(5) by simp
    ultimately show ?thesis using h(1) True r(2) by (auto simp: constant_at_def list_ex_iff)
  next
    case False
    have nx: "mr_end r \<le> x" using False by simp
    have an: "a \<le> mr_end r" using "1.prems"(2) h(3) by simp
    show ?thesis
    proof (cases "mr_w r")
      case True
      then show ?thesis
        using "1.IH"(1)[OF lt r(1) _ True _ _ rest an "1.prems"(3,4) nx "1.prems"(6)] r(2) cfg by auto
    next
      case False
      then show ?thesis
        using "1.IH"(2)[OF lt r(1) _ False rest an "1.prems"(3,4) nx "1.prems"(6)] r(2) by auto
    qed
  qed
qed

lemma isConstant_bytes:
  assumes "isConstant mp addr sz = Some True" and "addr \<le> x" and "x < addr + sz"
  shows "constant_at mp x"
proof -
  have "sz \<noteq> 0" using assms(2,3) by auto
  then have "addr < addr + sz" "constant_loop mp sz addr (addr + sz) = Some True"
    using assms(1) by (auto simp: isConstant_def split: if_splits)
  then show ?thesis using constant_loop_sound[of mp sz addr "addr + sz" addr x] assms(2,3) by simp
qed

text \<open>When nothing in the range is writable, the answer is exact.\<close>

lemma constant_loop_complete:
  "\<forall>x. addr \<le> x \<and> x < end_addr \<longrightarrow> (\<exists>r. findMemoryRange mp x = Some r \<and> mr_r r \<and> \<not> mr_w r) \<Longrightarrow>
   constant_loop mp sz addr end_addr = Some True"
proof (induction mp sz addr end_addr rule: constant_loop.induct)
  case (1 mp sz addr end_addr)
  show ?case
  proof (cases "addr < end_addr")
    case False
    then show ?thesis by (subst constant_loop.simps) simp
  next
    case True
    then obtain r where r: "findMemoryRange mp addr = Some r" "mr_r r" "\<not> mr_w r"
      using "1.prems" by blast
    have "addr < mr_end r" using r(1) by (auto simp: findMemoryRange_def find_Some_iff)
    then have "constant_loop mp sz (mr_end r) end_addr = Some True"
      using "1.IH"(2)[OF True r(1) _ r(3)] r(2) "1.prems" by fastforce
    then show ?thesis using True r by (subst constant_loop.simps) simp
  qed
qed

end
