(* ===== verification/Opcodes.thy ===== *)
theory Opcodes
  imports Operands
begin

text \<open>
  The instruction table: the opcodes of \<open>src/x86/Opcodes.inc.h\<close> with what the table says
  of each, the operand and handler tables of \<open>src/x86/OpcodeInfo.cpp\<close>, the branch predicates
  of \<open>src/x86/Predicate.cpp\<close>, and \<open>arch_invert_branch\<close>.

  \<open>Opcode\<close> is one enumeration of 165 names in the source. Here the enumerators of one
  instruction form a datatype of their own and \<open>opcode\<close> is the sum of these; each name of
  the source appears exactly once. Handlers are named, a component that models one gives
  the name its meaning.
\<close>

section \<open>Opcodes and handlers\<close>

datatype add_opcode =
    ADD8mr | ADD8rr | ADD8rm | ADD8mi | ADD8ri | ADD16mr | ADD16rr | ADD16rm | ADD16mi | ADD16ri
    | ADD32mr | ADD32rr | ADD32rm | ADD32mi | ADD32ri | ADD64mr | ADD64rr | ADD64rm | ADD64mi
    | ADD64ri

datatype sse_opcode =
    ADDPDrm | ADDPDrr | ADDSDrm | ADDSDrr | MULPDrm | MULPDrr | MULSDrm | MULSDrr | PXOR128rm
    | PXOR128rr

datatype call_opcode =
    CALLa | CALLm | CALLr

datatype cmp_opcode =
    CMP8mr | CMP8mi | CMP8rm | CMP8rr | CMP8ri | CMP16mr | CMP16mi | CMP16rm | CMP16rr | CMP16ri
    | CMP32mr | CMP32mi | CMP32rm | CMP32rr | CMP32ri | CMP64mr | CMP64mi | CMP64rm | CMP64rr
    | CMP64ri

datatype jcc_opcode =
    JNBEa | JNBa | JBa | JBEa | JCXZ32a | JCXZ64a | JZa | JNLEa | JNLa | JLa | JLEa | JNZa
    | JNOa | JNPa | JNSa | JOa | JPa | JSa

datatype jmp_opcode =
    JMPa | JMPm | JMPr

datatype lea_opcode =
    LEA64ra | LEA32ra | LEA16ra

datatype mov_opcode =
    MOV64mr | MOV64rr | MOV64rm | MOV64mi | MOV64ri | MOV32mr | MOV32rr | MOV32rm | MOV32mi
    | MOV32ri

datatype movx_opcode =
    MOVAPDrm | MOVAPDrr | MOVAPDmr | MOVSDrm | MOVSDrr | MOVSDmr | MOVUPDmr | MOVUPDrr
    | MOVUPDrm | MOVUPSmr | MOVUPSrr | MOVUPSrm

datatype stack_opcode =
    POP16m | POP16r | POP64m | POP64r | PUSH16m | PUSH16r | PUSH16i | PUSH64m | PUSH64r
    | PUSH64i | RET

datatype shift_opcode =
    SHL64m | SHL64r | SHL64mi | SHL64ri | SHR64m | SHR64r | SHR64mi | SHR64ri

datatype sub_opcode =
    SUB8mr | SUB8rr | SUB8rm | SUB8mi | SUB8ri | SUB16mr | SUB16rr | SUB16rm | SUB16mi | SUB16ri
    | SUB32mr | SUB32rr | SUB32rm | SUB32mi | SUB32ri | SUB64mr | SUB64rr | SUB64rm | SUB64mi
    | SUB64ri

datatype test_opcode =
    TEST8mr | TEST8mi | TEST8rr | TEST8ri | TEST16mr | TEST16mi | TEST16rr | TEST16ri | TEST32mr
    | TEST32mi | TEST32rr | TEST32ri | TEST64mr | TEST64mi | TEST64rr | TEST64ri

datatype xor_opcode =
    XOR64mr | XOR64rr | XOR64rm | XOR64mi | XOR64ri | XOR32mr | XOR32rr | XOR32rm | XOR32mi
    | XOR32ri

datatype opcode =
    NONE
  | Add add_opcode
  | Sse sse_opcode
  | Call call_opcode
  | Cmp cmp_opcode
  | Jcc jcc_opcode
  | Jmp jmp_opcode
  | Lea lea_opcode
  | Mov mov_opcode
  | MovX movx_opcode
  | Stack stack_opcode
  | Shift shift_opcode
  | Sub sub_opcode
  | Test test_opcode
  | Xor xor_opcode

datatype refine_fn = Ref_xor_rr | Ref_sh

datatype encode_fn =
    Enc_add | Enc_addpd | Enc_addsd | Enc_call | Enc_cmp | Enc_jcc | Enc_jmp | Enc_lea | Enc_mov
    | Enc_movapd | Enc_movsd | Enc_movupd | Enc_movups | Enc_mulpd | Enc_mulsd | Enc_pop
    | Enc_push | Enc_pxor | Enc_ret | Enc_shl | Enc_shr | Enc_sub | Enc_test | Enc_xor

datatype emulate_fn =
    Emu_add8 | Emu_add16 | Emu_add32 | Emu_add64 | Emu_addpd | Emu_addsd | Emu_call | Emu_cmp8
    | Emu_cmp16 | Emu_cmp32 | Emu_cmp64 | Emu_lea | Emu_mov | Emu_mulpd | Emu_mulsd | Emu_pop
    | Emu_push | Emu_pxor | Emu_ret | Emu_shl64 | Emu_shr64 | Emu_sub8 | Emu_sub16 | Emu_sub32
    | Emu_sub64 | Emu_test8 | Emu_test16 | Emu_test32 | Emu_test64 | Emu_xor64 | Emu_xor32

datatype specialize_fn =
    Spec_add64 | Spec_addpd | Spec_addsd | Spec_cmp8 | Spec_cmp16 | Spec_cmp32 | Spec_cmp64
    | Spec_lea64 | Spec_lea32 | Spec_lea16 | Spec_mov64 | Spec_mov32 | Spec_movapd | Spec_movsd
    | Spec_movupd | Spec_movups | Spec_mulpd | Spec_mulsd | Spec_pop | Spec_push16 | Spec_push64
    | Spec_pxor | Spec_shl64 | Spec_shr64 | Spec_test8 | Spec_test16 | Spec_test32 | Spec_test64
    | Spec_xor64 | Spec_xor32

section \<open>Predicates\<close>

definition pred_ri :: "register \<Rightarrow> pred_comparator \<Rightarrow> u64 \<Rightarrow> pred_conjunction \<Rightarrow> pred_comparison" where
  "pred_ri l0 c l1 conn = \<lparr>pc_lhs = PReg l0, pc_comp = c, pc_rhs = PImm l1, pc_con = conn\<rparr>"

definition pred_rr :: "register \<Rightarrow> pred_comparator \<Rightarrow> register \<Rightarrow> pred_conjunction \<Rightarrow> pred_comparison" where
  "pred_rr l0 c l1 conn = \<lparr>pc_lhs = PReg l0, pc_comp = c, pc_rhs = PReg l1, pc_con = conn\<rparr>"

definition pred_B :: predicate where
  "pred_B = [pred_ri CF CmpEqual 1 ConNone]"
definition pred_Z :: predicate where
  "pred_Z = [pred_ri ZF CmpEqual 1 ConNone]"
definition pred_S :: predicate where
  "pred_S = [pred_ri SF CmpEqual 1 ConNone]"
definition pred_P :: predicate where
  "pred_P = [pred_ri PF CmpEqual 1 ConNone]"
definition pred_O :: predicate where
  "pred_O = [pred_ri OvF CmpEqual 1 ConNone]"
definition pred_NB :: predicate where
  "pred_NB = [pred_ri CF CmpEqual 0 ConNone]"
definition pred_NZ :: predicate where
  "pred_NZ = [pred_ri ZF CmpEqual 0 ConNone]"
definition pred_NS :: predicate where
  "pred_NS = [pred_ri SF CmpEqual 0 ConNone]"
definition pred_NP :: predicate where
  "pred_NP = [pred_ri PF CmpEqual 0 ConNone]"
definition pred_NO :: predicate where
  "pred_NO = [pred_ri OvF CmpEqual 0 ConNone]"
definition pred_ECX0 :: predicate where
  "pred_ECX0 = [pred_ri ECX CmpEqual 0 ConNone]"
definition pred_RCX0 :: predicate where
  "pred_RCX0 = [pred_ri RCX CmpEqual 0 ConNone]"
definition pred_NL :: predicate where
  "pred_NL = [pred_rr SF CmpEqual OvF ConNone]"
definition pred_L :: predicate where
  "pred_L = [pred_rr SF CmpNotEqual OvF ConNone]"
definition pred_BE :: predicate where
  "pred_BE = [pred_ri CF CmpEqual 1 ConOr, pred_ri ZF CmpEqual 1 ConNone]"
definition pred_LE :: predicate where
  "pred_LE = [pred_ri ZF CmpEqual 1 ConOr, pred_rr SF CmpNotEqual OvF ConNone]"
definition pred_NBE :: predicate where
  "pred_NBE = [pred_ri CF CmpEqual 0 ConAnd, pred_ri ZF CmpEqual 0 ConNone]"
definition pred_NLE :: predicate where
  "pred_NLE = [pred_ri ZF CmpEqual 0 ConAnd, pred_rr SF CmpEqual OvF ConNone]"

lemmas pred_defs = pred_ri_def pred_rr_def pred_B_def pred_Z_def pred_S_def pred_P_def pred_O_def
  pred_NB_def pred_NZ_def pred_NS_def pred_NP_def pred_NO_def pred_ECX0_def pred_RCX0_def
  pred_NL_def pred_L_def pred_BE_def pred_LE_def pred_NBE_def pred_NLE_def

section \<open>Operand tables\<close>

abbreviation "mA \<equiv> EoiMem AmAddress MUnknown"
abbreviation "m8R \<equiv> EoiMem AmRead MB1"
abbreviation "m8W \<equiv> EoiMem AmWrite MB1"
abbreviation "m8RW \<equiv> EoiMem AmReadWrite MB1"
abbreviation "m16R \<equiv> EoiMem AmRead MB2"
abbreviation "m16W \<equiv> EoiMem AmWrite MB2"
abbreviation "m16RW \<equiv> EoiMem AmReadWrite MB2"
abbreviation "m32R \<equiv> EoiMem AmRead MB4"
abbreviation "m32W \<equiv> EoiMem AmWrite MB4"
abbreviation "m32RW \<equiv> EoiMem AmReadWrite MB4"
abbreviation "m64R \<equiv> EoiMem AmRead MB8"
abbreviation "m64W \<equiv> EoiMem AmWrite MB8"
abbreviation "m64RW \<equiv> EoiMem AmReadWrite MB8"
abbreviation "m128R \<equiv> EoiMem AmRead MB16"
abbreviation "m128W \<equiv> EoiMem AmWrite MB16"
abbreviation "r8R \<equiv> EoiReg RTGprs8 AmRead Full RANone"
abbreviation "r8W \<equiv> EoiReg RTGprs8 AmWrite RANone Full"
abbreviation "r8RW \<equiv> EoiReg RTGprs8 AmReadWrite Full Full"
abbreviation "r16R \<equiv> EoiReg RTGprs16 AmRead Full RANone"
abbreviation "r16W \<equiv> EoiReg RTGprs16 AmWrite RANone Full"
abbreviation "r16RW \<equiv> EoiReg RTGprs16 AmReadWrite Full Full"
abbreviation "r32R \<equiv> EoiReg RTGprs32 AmRead Full RANone"
abbreviation "r32W \<equiv> EoiReg RTGprs32 AmWrite RANone FullZeroParent"
abbreviation "r32RW \<equiv> EoiReg RTGprs32 AmReadWrite Full FullZeroParent"
abbreviation "r32MR \<equiv> EoiReg RTGprs32 AmMayRead Full RANone"
abbreviation "r32MRW \<equiv> EoiReg RTGprs32 AmMayReadWrite Full FullZeroParent"
abbreviation "r64R \<equiv> EoiReg RTGprs64 AmRead Full RANone"
abbreviation "r64W \<equiv> EoiReg RTGprs64 AmWrite RANone Full"
abbreviation "r64RW \<equiv> EoiReg RTGprs64 AmReadWrite Full Full"
abbreviation "r64MR \<equiv> EoiReg RTGprs64 AmMayRead Full RANone"
abbreviation "r64MRW \<equiv> EoiReg RTGprs64 AmMayReadWrite Full Full"
abbreviation "x64R \<equiv> EoiReg RTSse128 AmRead H0 RANone"
abbreviation "x64W \<equiv> EoiReg RTSse128 AmWrite RANone H0"
abbreviation "x64RW \<equiv> EoiReg RTSse128 AmReadWrite H0 H0"
abbreviation "x64MR \<equiv> EoiReg RTSse128 AmMayRead H0 RANone"
abbreviation "x128R \<equiv> EoiReg RTSse128 AmRead Full RANone"
abbreviation "x128W \<equiv> EoiReg RTSse128 AmWrite RANone Full"
abbreviation "x128RW \<equiv> EoiReg RTSse128 AmReadWrite Full Full"
abbreviation "x128MR \<equiv> EoiReg RTSse128 AmMayRead Full RANone"
abbreviation "x128MRW \<equiv> EoiReg RTSse128 AmMayReadWrite Full Full"
abbreviation "i8 \<equiv> EoiImm OtImmediate8"
abbreviation "i16 \<equiv> EoiImm OtImmediate16"
abbreviation "i32 \<equiv> EoiImm OtImmediate32"
abbreviation "i64 \<equiv> EoiImm OtImmediate64"
abbreviation "s32 \<equiv> EoiImm OtSignedImmediate32"

definition ioi_reg :: "register \<Rightarrow> access_mode \<Rightarrow> reg_access \<Rightarrow> reg_access \<Rightarrow> static_operand_info" where
  "ioi_reg reg mode r w = SoiReg \<lparr>sra_reg = reg, sra_mode = mode, sra_r = r, sra_w = w\<rparr>"

text \<open>A memory operand at RSP plus a displacement.\<close>

definition ioi_stack :: "u32 \<Rightarrow> access_mode \<Rightarrow> mem_access_size \<Rightarrow> static_operand_info" where
  "ioi_stack disp mode sz =
     SoiMem \<lparr>sma_ptr = MpSIB RSP NoReg
         \<lparr>s32_val = disp, s32_usrPtrNr = -1, s32_usrPtrOffset = 0\<rparr> 0,
       sma_mode = mode, sma_size = sz\<rparr>"

definition ioi_none :: "static_operand_info list" where
  "ioi_none = []"

definition ioi_eflagsW :: "static_operand_info list" where
  "ioi_eflagsW =
     [ioi_reg CF AmWrite RANone Full,
      ioi_reg PF AmWrite RANone Full,
      ioi_reg AF AmWrite RANone Full,
      ioi_reg ZF AmWrite RANone Full,
      ioi_reg SF AmWrite RANone Full,
      ioi_reg OvF AmWrite RANone Full]"

definition ioi_eflagsMW :: "static_operand_info list" where
  "ioi_eflagsMW =
     [ioi_reg CF AmMayWrite RANone Full,
      ioi_reg PF AmMayWrite RANone Full,
      ioi_reg AF AmMayWrite RANone Full,
      ioi_reg ZF AmMayWrite RANone Full,
      ioi_reg SF AmMayWrite RANone Full,
      ioi_reg OvF AmMayWrite RANone Full]"

definition ioi_pop64 :: "static_operand_info list" where
  "ioi_pop64 = [ioi_reg RSP AmReadWrite Full Full, ioi_stack 0 AmRead MB8]"

definition ioi_pop16 :: "static_operand_info list" where
  "ioi_pop16 = [ioi_reg RSP AmReadWrite Full Full, ioi_stack 0 AmRead MB2]"

definition ioi_ret :: "static_operand_info list" where
  "ioi_ret = [ioi_reg RSP AmReadWrite Full Full, ioi_stack 0 AmRead MB8]"

definition ioi_push64 :: "static_operand_info list" where
  "ioi_push64 = [ioi_reg RSP AmReadWrite Full Full, ioi_stack (- 8) AmWrite MB8]"

definition ioi_push16 :: "static_operand_info list" where
  "ioi_push16 = [ioi_reg RSP AmReadWrite Full Full, ioi_stack (- 2) AmWrite MB2]"

text \<open>In this table the parts read and written of CL are the wrong way round.\<close>

definition ioi_sh :: "static_operand_info list" where
  "ioi_sh =
     [ioi_reg (Gpr8 GC) AmRead RANone Full,
      ioi_reg CF AmMayWrite RANone Full,
      ioi_reg PF AmMayWrite RANone Full,
      ioi_reg AF AmMayWrite RANone Full,
      ioi_reg ZF AmMayWrite RANone Full,
      ioi_reg SF AmMayWrite RANone Full,
      ioi_reg OvF AmMayWrite RANone Full]"

lemmas ioi_defs = ioi_reg_def ioi_stack_def ioi_none_def ioi_eflagsW_def ioi_eflagsMW_def
  ioi_pop64_def ioi_pop16_def ioi_ret_def ioi_push64_def ioi_push16_def ioi_sh_def

section \<open>The opcode table\<close>

record opcode_info =
  oc_opInfo :: "explicit_operand_info list"
  oc_iOpInfo :: "static_operand_info list"
  oc_predicate :: "predicate option"
  oc_type :: control_flow_type
  oc_refine :: "refine_fn option"
  oc_encode :: encode_fn
  oc_emulate :: "emulate_fn option"
  oc_specialize :: "specialize_fn option"
  oc_flags :: opcode_flag

definition def_opc :: "explicit_operand_info list \<Rightarrow> static_operand_info list \<Rightarrow> predicate option \<Rightarrow>
    control_flow_type \<Rightarrow> refine_fn option \<Rightarrow> encode_fn \<Rightarrow> emulate_fn option \<Rightarrow>
    specialize_fn option \<Rightarrow> opcode_flag \<Rightarrow> opcode_info" where
  "def_opc eoi ioi pred type ref enc emu spec flags =
     \<lparr>oc_opInfo = eoi, oc_iOpInfo = ioi, oc_predicate = pred, oc_type = type, oc_refine = ref,
      oc_encode = enc, oc_emulate = emu, oc_specialize = spec, oc_flags = flags\<rparr>"

primrec add_info :: "add_opcode \<Rightarrow> opcode_info" where
  "add_info ADD8mr = def_opc [m8RW, r8R] ioi_eflagsW None CfOther None Enc_add (Some Emu_add8)
    None OfEmuImm"
| "add_info ADD8rr = def_opc [r8RW, r8R] ioi_eflagsW None CfOther None Enc_add (Some Emu_add8)
    None OfEmuImm"
| "add_info ADD8rm = def_opc [r8RW, m8R] ioi_eflagsW None CfOther None Enc_add (Some Emu_add8)
    None OfEmuImm"
| "add_info ADD8mi = def_opc [m8RW, i8] ioi_eflagsW None CfOther None Enc_add (Some Emu_add8)
    None OfEmuImm"
| "add_info ADD8ri = def_opc [r8RW, i8] ioi_eflagsW None CfOther None Enc_add (Some Emu_add8)
    None OfEmuImm"
| "add_info ADD16mr = def_opc [m16RW, r16R] ioi_eflagsW None CfOther None Enc_add (Some
    Emu_add16) None OfEmuImm"
| "add_info ADD16rr = def_opc [r16RW, r16R] ioi_eflagsW None CfOther None Enc_add (Some
    Emu_add16) None OfEmuImm"
| "add_info ADD16rm = def_opc [r16RW, m16R] ioi_eflagsW None CfOther None Enc_add (Some
    Emu_add16) None OfEmuImm"
| "add_info ADD16mi = def_opc [m16RW, i16] ioi_eflagsW None CfOther None Enc_add (Some Emu_add16)
    None OfEmuImm"
| "add_info ADD16ri = def_opc [r16RW, i16] ioi_eflagsW None CfOther None Enc_add (Some Emu_add16)
    None OfEmuImm"
| "add_info ADD32mr = def_opc [m32RW, r32R] ioi_eflagsW None CfOther None Enc_add (Some
    Emu_add32) None OfEmuImm"
| "add_info ADD32rr = def_opc [r32RW, r32R] ioi_eflagsW None CfOther None Enc_add (Some
    Emu_add32) None OfEmuImm"
| "add_info ADD32rm = def_opc [r32RW, m32R] ioi_eflagsW None CfOther None Enc_add (Some
    Emu_add32) None OfEmuImm"
| "add_info ADD32mi = def_opc [m32RW, i32] ioi_eflagsW None CfOther None Enc_add (Some Emu_add32)
    None OfEmuImm"
| "add_info ADD32ri = def_opc [r32RW, i32] ioi_eflagsW None CfOther None Enc_add (Some Emu_add32)
    None OfEmuImm"
| "add_info ADD64mr = def_opc [m64RW, r64R] ioi_eflagsW None CfOther None Enc_add (Some
    Emu_add64) (Some Spec_add64) OfEmuPtr"
| "add_info ADD64rr = def_opc [r64RW, r64R] ioi_eflagsW None CfOther None Enc_add (Some
    Emu_add64) (Some Spec_add64) OfEmuPtr"
| "add_info ADD64rm = def_opc [r64RW, m64R] ioi_eflagsW None CfOther None Enc_add (Some
    Emu_add64) (Some Spec_add64) OfEmuPtr"
| "add_info ADD64mi = def_opc [m64RW, s32] ioi_eflagsW None CfOther None Enc_add (Some Emu_add64)
    (Some Spec_add64) OfEmuPtr"
| "add_info ADD64ri = def_opc [r64RW, s32] ioi_eflagsW None CfOther None Enc_add (Some Emu_add64)
    (Some Spec_add64) OfEmuPtr"

primrec sse_info :: "sse_opcode \<Rightarrow> opcode_info" where
  "sse_info ADDPDrm = def_opc [x128RW, m128R] [] None CfOther None Enc_addpd (Some Emu_addpd)
    (Some Spec_addpd) OfEmuImm"
| "sse_info ADDPDrr = def_opc [x128RW, x128R] [] None CfOther None Enc_addpd (Some Emu_addpd)
    (Some Spec_addpd) OfEmuImm"
| "sse_info ADDSDrm = def_opc [x64RW, m64R] [] None CfOther None Enc_addsd (Some Emu_addsd) (Some
    Spec_addsd) OfEmuImm"
| "sse_info ADDSDrr = def_opc [x64RW, x64R] [] None CfOther None Enc_addsd (Some Emu_addsd) (Some
    Spec_addsd) OfEmuImm"
| "sse_info MULPDrm = def_opc [x128RW, m128R] [] None CfOther None Enc_mulpd (Some Emu_mulpd)
    (Some Spec_mulpd) OfEmuImm"
| "sse_info MULPDrr = def_opc [x128RW, x128R] [] None CfOther None Enc_mulpd (Some Emu_mulpd)
    (Some Spec_mulpd) OfEmuImm"
| "sse_info MULSDrm = def_opc [x64RW, m64R] [] None CfOther None Enc_mulsd (Some Emu_mulsd) (Some
    Spec_mulsd) OfEmuImm"
| "sse_info MULSDrr = def_opc [x64RW, x64R] [] None CfOther None Enc_mulsd (Some Emu_mulsd) (Some
    Spec_mulsd) OfEmuImm"
| "sse_info PXOR128rm = def_opc [x128RW, m128R] [] None CfOther None Enc_pxor (Some Emu_pxor)
    (Some Spec_pxor) OfEmuFull"
| "sse_info PXOR128rr = def_opc [x128MRW, x128MR] [] None CfOther (Some Ref_xor_rr) Enc_pxor
    (Some Emu_pxor) (Some Spec_pxor) OfEmuFull"

primrec call_info :: "call_opcode \<Rightarrow> opcode_info" where
  "call_info CALLa = def_opc [mA] ioi_push64 None CfCall None Enc_call (Some Emu_call) None
    OfEmuFull"
| "call_info CALLm = def_opc [m64R] ioi_push64 None CfCall None Enc_call (Some Emu_call) None
    OfEmuFull"
| "call_info CALLr = def_opc [r64R] ioi_push64 None CfCall None Enc_call (Some Emu_call) None
    OfEmuFull"

primrec cmp_info :: "cmp_opcode \<Rightarrow> opcode_info" where
  "cmp_info CMP8mr = def_opc [m8R, r8R] ioi_eflagsW None CfOther None Enc_cmp (Some Emu_cmp8)
    (Some Spec_cmp8) OfEmuImm"
| "cmp_info CMP8mi = def_opc [m8R, i8] ioi_eflagsW None CfOther None Enc_cmp (Some Emu_cmp8) None
    OfEmuImm"
| "cmp_info CMP8rm = def_opc [r8R, m8R] ioi_eflagsW None CfOther None Enc_cmp (Some Emu_cmp8)
    (Some Spec_cmp8) OfEmuImm"
| "cmp_info CMP8rr = def_opc [r8R, r8R] ioi_eflagsW None CfOther None Enc_cmp (Some Emu_cmp8)
    (Some Spec_cmp8) OfEmuImm"
| "cmp_info CMP8ri = def_opc [r8R, i8] ioi_eflagsW None CfOther None Enc_cmp (Some Emu_cmp16)
    None OfEmuImm"
| "cmp_info CMP16mr = def_opc [m16R, r16R] ioi_eflagsW None CfOther None Enc_cmp (Some Emu_cmp16)
    (Some Spec_cmp16) OfEmuImm"
| "cmp_info CMP16mi = def_opc [m16R, i16] ioi_eflagsW None CfOther None Enc_cmp (Some Emu_cmp16)
    None OfEmuImm"
| "cmp_info CMP16rm = def_opc [r16R, m16R] ioi_eflagsW None CfOther None Enc_cmp (Some Emu_cmp16)
    (Some Spec_cmp16) OfEmuImm"
| "cmp_info CMP16rr = def_opc [r16R, r16R] ioi_eflagsW None CfOther None Enc_cmp (Some Emu_cmp16)
    (Some Spec_cmp16) OfEmuImm"
| "cmp_info CMP16ri = def_opc [r16R, i16] ioi_eflagsW None CfOther None Enc_cmp (Some Emu_cmp16)
    None OfEmuImm"
| "cmp_info CMP32mr = def_opc [m32R, r32R] ioi_eflagsW None CfOther None Enc_cmp (Some Emu_cmp32)
    (Some Spec_cmp32) OfEmuImm"
| "cmp_info CMP32mi = def_opc [m32R, i32] ioi_eflagsW None CfOther None Enc_cmp (Some Emu_cmp32)
    None OfEmuImm"
| "cmp_info CMP32rm = def_opc [r32R, m32R] ioi_eflagsW None CfOther None Enc_cmp (Some Emu_cmp32)
    (Some Spec_cmp32) OfEmuImm"
| "cmp_info CMP32rr = def_opc [r32R, r32R] ioi_eflagsW None CfOther None Enc_cmp (Some Emu_cmp32)
    (Some Spec_cmp32) OfEmuImm"
| "cmp_info CMP32ri = def_opc [r32R, i32] ioi_eflagsW None CfOther None Enc_cmp (Some Emu_cmp32)
    None OfEmuImm"
| "cmp_info CMP64mr = def_opc [m64R, r64R] ioi_eflagsW None CfOther None Enc_cmp (Some Emu_cmp64)
    (Some Spec_cmp64) OfEmuPtr"
| "cmp_info CMP64mi = def_opc [m64R, s32] ioi_eflagsW None CfOther None Enc_cmp (Some Emu_cmp64)
    None OfEmuPtr"
| "cmp_info CMP64rm = def_opc [r64R, m64R] ioi_eflagsW None CfOther None Enc_cmp (Some Emu_cmp64)
    (Some Spec_cmp64) OfEmuPtr"
| "cmp_info CMP64rr = def_opc [r64R, r64R] ioi_eflagsW None CfOther None Enc_cmp (Some Emu_cmp64)
    (Some Spec_cmp64) OfEmuPtr"
| "cmp_info CMP64ri = def_opc [r64R, s32] ioi_eflagsW None CfOther None Enc_cmp (Some Emu_cmp64)
    None OfEmuPtr"

primrec jcc_info :: "jcc_opcode \<Rightarrow> opcode_info" where
  "jcc_info JNBEa = def_opc [mA] [] (Some pred_NBE) CfBranch None Enc_jcc None None OfNone"
| "jcc_info JNBa = def_opc [mA] [] (Some pred_NB) CfBranch None Enc_jcc None None OfNone"
| "jcc_info JBa = def_opc [mA] [] (Some pred_B) CfBranch None Enc_jcc None None OfNone"
| "jcc_info JBEa = def_opc [mA] [] (Some pred_BE) CfBranch None Enc_jcc None None OfNone"
| "jcc_info JCXZ32a = def_opc [mA] [] (Some pred_ECX0) CfBranch None Enc_jcc None None OfNone"
| "jcc_info JCXZ64a = def_opc [mA] [] (Some pred_RCX0) CfBranch None Enc_jcc None None OfNone"
| "jcc_info JZa = def_opc [mA] [] (Some pred_Z) CfBranch None Enc_jcc None None OfNone"
| "jcc_info JNLEa = def_opc [mA] [] (Some pred_NLE) CfBranch None Enc_jcc None None OfNone"
| "jcc_info JNLa = def_opc [mA] [] (Some pred_NL) CfBranch None Enc_jcc None None OfNone"
| "jcc_info JLa = def_opc [mA] [] (Some pred_L) CfBranch None Enc_jcc None None OfNone"
| "jcc_info JLEa = def_opc [mA] [] (Some pred_LE) CfBranch None Enc_jcc None None OfNone"
| "jcc_info JNZa = def_opc [mA] [] (Some pred_NZ) CfBranch None Enc_jcc None None OfNone"
| "jcc_info JNOa = def_opc [mA] [] (Some pred_NO) CfBranch None Enc_jcc None None OfNone"
| "jcc_info JNPa = def_opc [mA] [] (Some pred_NP) CfBranch None Enc_jcc None None OfNone"
| "jcc_info JNSa = def_opc [mA] [] (Some pred_NS) CfBranch None Enc_jcc None None OfNone"
| "jcc_info JOa = def_opc [mA] [] (Some pred_O) CfBranch None Enc_jcc None None OfNone"
| "jcc_info JPa = def_opc [mA] [] (Some pred_P) CfBranch None Enc_jcc None None OfNone"
| "jcc_info JSa = def_opc [mA] [] (Some pred_S) CfBranch None Enc_jcc None None OfNone"

primrec jmp_info :: "jmp_opcode \<Rightarrow> opcode_info" where
  "jmp_info JMPa = def_opc [mA] [] None CfBranch None Enc_jmp None None OfNone"
| "jmp_info JMPm = def_opc [m64R] [] None CfBranch None Enc_jmp None None OfNone"
| "jmp_info JMPr = def_opc [r64R] [] None CfBranch None Enc_jmp None None OfNone"

primrec lea_info :: "lea_opcode \<Rightarrow> opcode_info" where
  "lea_info LEA64ra = def_opc [r64W, mA] [] None CfOther None Enc_lea (Some Emu_lea) (Some
    Spec_lea64) OfEmuFull"
| "lea_info LEA32ra = def_opc [r32W, mA] [] None CfOther None Enc_lea (Some Emu_lea) (Some
    Spec_lea32) OfEmuFull"
| "lea_info LEA16ra = def_opc [r16W, mA] [] None CfOther None Enc_lea (Some Emu_lea) (Some
    Spec_lea16) OfEmuFull"

primrec mov_info :: "mov_opcode \<Rightarrow> opcode_info" where
  "mov_info MOV64mr = def_opc [m64W, r64R] [] None CfOther None Enc_mov (Some Emu_mov) (Some
    Spec_mov64) OfEmuFull"
| "mov_info MOV64rr = def_opc [r64W, r64R] [] None CfOther None Enc_mov (Some Emu_mov) (Some
    Spec_mov64) OfEmuFull"
| "mov_info MOV64rm = def_opc [r64W, m64R] [] None CfOther None Enc_mov (Some Emu_mov) (Some
    Spec_mov64) OfEmuFull"
| "mov_info MOV64mi = def_opc [m64W, s32] [] None CfOther None Enc_mov (Some Emu_mov) None
    OfEmuFull"
| "mov_info MOV64ri = def_opc [r64W, i64] [] None CfOther None Enc_mov (Some Emu_mov) None
    OfEmuFull"
| "mov_info MOV32mr = def_opc [m32W, r32R] [] None CfOther None Enc_mov (Some Emu_mov) (Some
    Spec_mov32) OfEmuFull"
| "mov_info MOV32rr = def_opc [r32W, r32R] [] None CfOther None Enc_mov (Some Emu_mov) (Some
    Spec_mov32) OfEmuFull"
| "mov_info MOV32rm = def_opc [r32W, m32R] [] None CfOther None Enc_mov (Some Emu_mov) (Some
    Spec_mov32) OfEmuFull"
| "mov_info MOV32mi = def_opc [m32W, i32] [] None CfOther None Enc_mov (Some Emu_mov) None
    OfEmuFull"
| "mov_info MOV32ri = def_opc [r32W, i32] [] None CfOther None Enc_mov (Some Emu_mov) None
    OfEmuFull"

primrec movx_info :: "movx_opcode \<Rightarrow> opcode_info" where
  "movx_info MOVAPDrm = def_opc [x128W, m128R] [] None CfOther None Enc_movapd (Some Emu_mov)
    (Some Spec_movapd) OfEmuFull"
| "movx_info MOVAPDrr = def_opc [x128W, x128R] [] None CfOther None Enc_movapd (Some Emu_mov)
    (Some Spec_movapd) OfEmuFull"
| "movx_info MOVAPDmr = def_opc [m128W, x128R] [] None CfOther None Enc_movapd (Some Emu_mov)
    None OfEmuFull"
| "movx_info MOVSDrm = def_opc [x64W, m64R] [] None CfOther None Enc_movsd (Some Emu_mov) (Some
    Spec_movsd) OfEmuFull"
| "movx_info MOVSDrr = def_opc [x64W, x64R] [] None CfOther None Enc_movsd (Some Emu_mov) (Some
    Spec_movsd) OfEmuFull"
| "movx_info MOVSDmr = def_opc [m64W, x64R] [] None CfOther None Enc_movsd (Some Emu_mov) (Some
    Spec_movsd) OfEmuFull"
| "movx_info MOVUPDmr = def_opc [m128W, x128R] [] None CfOther None Enc_movupd (Some Emu_mov)
    None OfEmuFull"
| "movx_info MOVUPDrr = def_opc [x128W, x128R] [] None CfOther None Enc_movupd (Some Emu_mov)
    (Some Spec_movupd) OfEmuFull"
| "movx_info MOVUPDrm = def_opc [x128W, m128R] [] None CfOther None Enc_movupd (Some Emu_mov)
    (Some Spec_movupd) OfEmuFull"
| "movx_info MOVUPSmr = def_opc [m128W, x128R] [] None CfOther None Enc_movups (Some Emu_mov)
    None OfEmuFull"
| "movx_info MOVUPSrr = def_opc [x128W, x128R] [] None CfOther None Enc_movups (Some Emu_mov)
    (Some Spec_movups) OfEmuFull"
| "movx_info MOVUPSrm = def_opc [x128W, m128R] [] None CfOther None Enc_movups (Some Emu_mov)
    (Some Spec_movups) OfEmuFull"

primrec stack_info :: "stack_opcode \<Rightarrow> opcode_info" where
  "stack_info POP16m = def_opc [m16W] ioi_pop16 None CfOther None Enc_pop (Some Emu_pop) None
    OfEmuFull"
| "stack_info POP16r = def_opc [r16W] ioi_pop16 None CfOther None Enc_pop (Some Emu_pop) (Some
    Spec_pop) OfEmuFull"
| "stack_info POP64m = def_opc [m64W] ioi_pop64 None CfOther None Enc_pop (Some Emu_pop) None
    OfEmuFull"
| "stack_info POP64r = def_opc [r64W] ioi_pop64 None CfOther None Enc_pop (Some Emu_pop) (Some
    Spec_pop) OfEmuFull"
| "stack_info PUSH16m = def_opc [m16R] ioi_push16 None CfOther None Enc_push (Some Emu_push)
    (Some Spec_push16) OfEmuFull"
| "stack_info PUSH16r = def_opc [r16R] ioi_push16 None CfOther None Enc_push (Some Emu_push)
    (Some Spec_push16) OfEmuFull"
| "stack_info PUSH16i = def_opc [i16] ioi_push16 None CfOther None Enc_push (Some Emu_push) None
    OfEmuFull"
| "stack_info PUSH64m = def_opc [m64R] ioi_push64 None CfOther None Enc_push (Some Emu_push)
    (Some Spec_push64) OfEmuFull"
| "stack_info PUSH64r = def_opc [r64R] ioi_push64 None CfOther None Enc_push (Some Emu_push)
    (Some Spec_push64) OfEmuFull"
| "stack_info PUSH64i = def_opc [s32] ioi_push64 None CfOther None Enc_push (Some Emu_push) None
    OfEmuFull"
| "stack_info RET = def_opc [] ioi_ret None CfRet None Enc_ret (Some Emu_ret) None OfEmuFull"

primrec shift_info :: "shift_opcode \<Rightarrow> opcode_info" where
  "shift_info SHL64m = def_opc [m64RW] ioi_sh None CfOther (Some Ref_sh) Enc_shl (Some Emu_shl64)
    (Some Spec_shl64) OfEmuFull"
| "shift_info SHL64r = def_opc [r64RW] ioi_sh None CfOther (Some Ref_sh) Enc_shl (Some Emu_shl64)
    (Some Spec_shl64) OfEmuFull"
| "shift_info SHL64mi = def_opc [m64RW, i8] ioi_eflagsMW None CfOther (Some Ref_sh) Enc_shl (Some
    Emu_shl64) (Some Spec_shl64) OfEmuFull"
| "shift_info SHL64ri = def_opc [r64RW, i8] ioi_eflagsMW None CfOther (Some Ref_sh) Enc_shl (Some
    Emu_shl64) (Some Spec_shl64) OfEmuFull"
| "shift_info SHR64m = def_opc [m64RW] ioi_sh None CfOther (Some Ref_sh) Enc_shr (Some Emu_shr64)
    (Some Spec_shr64) OfEmuFull"
| "shift_info SHR64r = def_opc [r64RW] ioi_sh None CfOther (Some Ref_sh) Enc_shr (Some Emu_shr64)
    (Some Spec_shr64) OfEmuFull"
| "shift_info SHR64mi = def_opc [m64RW, i8] ioi_eflagsMW None CfOther (Some Ref_sh) Enc_shr (Some
    Emu_shr64) (Some Spec_shr64) OfEmuFull"
| "shift_info SHR64ri = def_opc [r64RW, i8] ioi_eflagsMW None CfOther (Some Ref_sh) Enc_shr (Some
    Emu_shr64) (Some Spec_shr64) OfEmuFull"

primrec sub_info :: "sub_opcode \<Rightarrow> opcode_info" where
  "sub_info SUB8mr = def_opc [m8RW, r8R] ioi_eflagsW None CfOther None Enc_sub (Some Emu_sub8)
    None OfEmuImm"
| "sub_info SUB8rr = def_opc [r8RW, r8R] ioi_eflagsW None CfOther None Enc_sub (Some Emu_sub8)
    None OfEmuImm"
| "sub_info SUB8rm = def_opc [r8RW, m8R] ioi_eflagsW None CfOther None Enc_sub (Some Emu_sub8)
    None OfEmuImm"
| "sub_info SUB8mi = def_opc [m8RW, i8] ioi_eflagsW None CfOther None Enc_sub (Some Emu_sub8)
    None OfEmuImm"
| "sub_info SUB8ri = def_opc [r8RW, i8] ioi_eflagsW None CfOther None Enc_sub (Some Emu_sub8)
    None OfEmuImm"
| "sub_info SUB16mr = def_opc [m16RW, r16R] ioi_eflagsW None CfOther None Enc_sub (Some
    Emu_sub16) None OfEmuImm"
| "sub_info SUB16rr = def_opc [r16RW, r16R] ioi_eflagsW None CfOther None Enc_sub (Some
    Emu_sub16) None OfEmuImm"
| "sub_info SUB16rm = def_opc [r16RW, m16R] ioi_eflagsW None CfOther None Enc_sub (Some
    Emu_sub16) None OfEmuImm"
| "sub_info SUB16mi = def_opc [m16RW, i16] ioi_eflagsW None CfOther None Enc_sub (Some Emu_sub16)
    None OfEmuImm"
| "sub_info SUB16ri = def_opc [r16RW, i16] ioi_eflagsW None CfOther None Enc_sub (Some Emu_sub16)
    None OfEmuImm"
| "sub_info SUB32mr = def_opc [m32RW, r32R] ioi_eflagsW None CfOther None Enc_sub (Some
    Emu_sub32) None OfEmuImm"
| "sub_info SUB32rr = def_opc [r32RW, r32R] ioi_eflagsW None CfOther None Enc_sub (Some
    Emu_sub32) None OfEmuImm"
| "sub_info SUB32rm = def_opc [r32RW, m32R] ioi_eflagsW None CfOther None Enc_sub (Some
    Emu_sub32) None OfEmuImm"
| "sub_info SUB32mi = def_opc [m32RW, i32] ioi_eflagsW None CfOther None Enc_sub (Some Emu_sub32)
    None OfEmuImm"
| "sub_info SUB32ri = def_opc [r32RW, i32] ioi_eflagsW None CfOther None Enc_sub (Some Emu_sub32)
    None OfEmuImm"
| "sub_info SUB64mr = def_opc [m64RW, r64R] ioi_eflagsW None CfOther None Enc_sub (Some
    Emu_sub64) None OfEmuPtr"
| "sub_info SUB64rr = def_opc [r64RW, r64R] ioi_eflagsW None CfOther None Enc_sub (Some
    Emu_sub64) None OfEmuPtr"
| "sub_info SUB64rm = def_opc [r64RW, m64R] ioi_eflagsW None CfOther None Enc_sub (Some
    Emu_sub64) None OfEmuPtr"
| "sub_info SUB64mi = def_opc [m64RW, s32] ioi_eflagsW None CfOther None Enc_sub (Some Emu_sub64)
    None OfEmuPtr"
| "sub_info SUB64ri = def_opc [r64RW, s32] ioi_eflagsW None CfOther None Enc_sub (Some Emu_sub64)
    None OfEmuPtr"

primrec test_info :: "test_opcode \<Rightarrow> opcode_info" where
  "test_info TEST8mr = def_opc [m8R, r8R] ioi_eflagsW None CfOther None Enc_test (Some Emu_test8)
    (Some Spec_test8) OfEmuFull"
| "test_info TEST8mi = def_opc [m8R, i8] ioi_eflagsW None CfOther None Enc_test (Some Emu_test8)
    None OfEmuFull"
| "test_info TEST8rr = def_opc [r8R, r8R] ioi_eflagsW None CfOther None Enc_test (Some Emu_test8)
    (Some Spec_test8) OfEmuFull"
| "test_info TEST8ri = def_opc [r8R, i8] ioi_eflagsW None CfOther None Enc_test (Some Emu_test8)
    None OfEmuFull"
| "test_info TEST16mr = def_opc [m16R, r16R] ioi_eflagsW None CfOther None Enc_test (Some
    Emu_test16) (Some Spec_test16) OfEmuFull"
| "test_info TEST16mi = def_opc [m16R, i16] ioi_eflagsW None CfOther None Enc_test (Some
    Emu_test16) None OfEmuFull"
| "test_info TEST16rr = def_opc [r16R, r16R] ioi_eflagsW None CfOther None Enc_test (Some
    Emu_test16) (Some Spec_test16) OfEmuFull"
| "test_info TEST16ri = def_opc [r16R, i16] ioi_eflagsW None CfOther None Enc_test (Some
    Emu_test16) None OfEmuFull"
| "test_info TEST32mr = def_opc [m32R, r32R] ioi_eflagsW None CfOther None Enc_test (Some
    Emu_test32) (Some Spec_test32) OfEmuFull"
| "test_info TEST32mi = def_opc [m32R, i32] ioi_eflagsW None CfOther None Enc_test (Some
    Emu_test32) None OfEmuFull"
| "test_info TEST32rr = def_opc [r32R, r32R] ioi_eflagsW None CfOther None Enc_test (Some
    Emu_test32) (Some Spec_test32) OfEmuFull"
| "test_info TEST32ri = def_opc [r32R, i32] ioi_eflagsW None CfOther None Enc_test (Some
    Emu_test32) None OfEmuFull"
| "test_info TEST64mr = def_opc [m64R, r64R] ioi_eflagsW None CfOther None Enc_test (Some
    Emu_test64) (Some Spec_test64) OfEmuFull"
| "test_info TEST64mi = def_opc [m64R, s32] ioi_eflagsW None CfOther None Enc_test (Some
    Emu_test64) None OfEmuFull"
| "test_info TEST64rr = def_opc [r64R, r64R] ioi_eflagsW None CfOther None Enc_test (Some
    Emu_test64) (Some Spec_test64) OfEmuFull"
| "test_info TEST64ri = def_opc [r64R, s32] ioi_eflagsW None CfOther None Enc_test (Some
    Emu_test64) None OfEmuFull"

primrec xor_info :: "xor_opcode \<Rightarrow> opcode_info" where
  "xor_info XOR64mr = def_opc [m64RW, r64R] ioi_eflagsW None CfOther None Enc_xor (Some
    Emu_xor64) (Some Spec_xor64) OfEmuImm"
| "xor_info XOR64rr = def_opc [r64MRW, r64MR] ioi_eflagsW None CfOther (Some Ref_xor_rr) Enc_xor
    (Some Emu_xor64) (Some Spec_xor64) OfEmuImm"
| "xor_info XOR64rm = def_opc [r64RW, m64R] ioi_eflagsW None CfOther None Enc_xor (Some
    Emu_xor64) (Some Spec_xor64) OfEmuImm"
| "xor_info XOR64mi = def_opc [m64RW, s32] ioi_eflagsW None CfOther None Enc_xor (Some Emu_xor64)
    (Some Spec_xor64) OfEmuImm"
| "xor_info XOR64ri = def_opc [r64RW, s32] ioi_eflagsW None CfOther None Enc_xor (Some Emu_xor64)
    (Some Spec_xor64) OfEmuImm"
| "xor_info XOR32mr = def_opc [m32RW, r32R] ioi_eflagsW None CfOther None Enc_xor (Some
    Emu_xor32) (Some Spec_xor32) OfEmuImm"
| "xor_info XOR32rr = def_opc [r32MRW, r32MR] ioi_eflagsW None CfOther (Some Ref_xor_rr) Enc_xor
    (Some Emu_xor32) (Some Spec_xor32) OfEmuImm"
| "xor_info XOR32rm = def_opc [r32RW, m32R] ioi_eflagsW None CfOther None Enc_xor (Some
    Emu_xor32) (Some Spec_xor32) OfEmuImm"
| "xor_info XOR32mi = def_opc [m32RW, i32] ioi_eflagsW None CfOther None Enc_xor (Some Emu_xor32)
    (Some Spec_xor32) OfEmuImm"
| "xor_info XOR32ri = def_opc [r32RW, i32] ioi_eflagsW None CfOther None Enc_xor (Some Emu_xor32)
    (Some Spec_xor32) OfEmuImm"

primrec arch_get_opcode_info :: "opcode \<Rightarrow> opcode_info option" where
  "arch_get_opcode_info NONE = None"
| "arch_get_opcode_info (Add opc) = Some (add_info opc)"
| "arch_get_opcode_info (Sse opc) = Some (sse_info opc)"
| "arch_get_opcode_info (Call opc) = Some (call_info opc)"
| "arch_get_opcode_info (Cmp opc) = Some (cmp_info opc)"
| "arch_get_opcode_info (Jcc opc) = Some (jcc_info opc)"
| "arch_get_opcode_info (Jmp opc) = Some (jmp_info opc)"
| "arch_get_opcode_info (Lea opc) = Some (lea_info opc)"
| "arch_get_opcode_info (Mov opc) = Some (mov_info opc)"
| "arch_get_opcode_info (MovX opc) = Some (movx_info opc)"
| "arch_get_opcode_info (Stack opc) = Some (stack_info opc)"
| "arch_get_opcode_info (Shift opc) = Some (shift_info opc)"
| "arch_get_opcode_info (Sub opc) = Some (sub_info opc)"
| "arch_get_opcode_info (Test opc) = Some (test_info opc)"
| "arch_get_opcode_info (Xor opc) = Some (xor_info opc)"

section \<open>Inverting a branch\<close>

fun arch_invert_branch :: "opcode \<Rightarrow> opcode" where
  "arch_invert_branch (Jcc JNBEa) = Jcc JBEa"
| "arch_invert_branch (Jcc JNBa) = Jcc JBa"
| "arch_invert_branch (Jcc JBa) = Jcc JNBa"
| "arch_invert_branch (Jcc JBEa) = Jcc JNBEa"
| "arch_invert_branch (Jcc JZa) = Jcc JNZa"
| "arch_invert_branch (Jcc JNLEa) = Jcc JLEa"
| "arch_invert_branch (Jcc JNLa) = Jcc JLa"
| "arch_invert_branch (Jcc JLa) = Jcc JNLa"
| "arch_invert_branch (Jcc JLEa) = Jcc JNLEa"
| "arch_invert_branch (Jcc JNZa) = Jcc JZa"
| "arch_invert_branch (Jcc JNOa) = Jcc JOa"
| "arch_invert_branch (Jcc JNPa) = Jcc JPa"
| "arch_invert_branch (Jcc JNSa) = Jcc JSa"
| "arch_invert_branch (Jcc JOa) = Jcc JNOa"
| "arch_invert_branch (Jcc JPa) = Jcc JNPa"
| "arch_invert_branch (Jcc JSa) = Jcc JNSa"
| "arch_invert_branch _ = NONE"

end
