(* ===== verification/Emulator.thy ===== *)
theory Emulator
  imports Opcodes
begin

text \<open>
  The opcode specific emulation handlers of \<open>src/x86/Emulator.cpp\<close>. They run the instruction
  itself on the inputs, as inline assembly; what the processor computes is a parameter, a
  record with one function per assembly statement. \<open>cpu_ok\<close> is what the processor's manual
  says of the integer instructions, as far as the lemmas here need it.
\<close>

section \<open>The processor\<close>

record eflags =
  fl_cf :: bool
  fl_pf :: bool
  fl_af :: bool
  fl_zf :: bool
  fl_sf :: bool
  fl_of :: bool

record cpu =
  cpu_add8 :: "byte \<Rightarrow> byte \<Rightarrow> byte \<times> eflags"
  cpu_add16 :: "u16 \<Rightarrow> u16 \<Rightarrow> u16 \<times> eflags"
  cpu_add32 :: "u32 \<Rightarrow> u32 \<Rightarrow> u32 \<times> eflags"
  cpu_add64 :: "u64 \<Rightarrow> u64 \<Rightarrow> u64 \<times> eflags"
  cpu_sub8 :: "byte \<Rightarrow> byte \<Rightarrow> byte \<times> eflags"
  cpu_sub16 :: "u16 \<Rightarrow> u16 \<Rightarrow> u16 \<times> eflags"
  cpu_sub32 :: "u32 \<Rightarrow> u32 \<Rightarrow> u32 \<times> eflags"
  cpu_sub64 :: "u64 \<Rightarrow> u64 \<Rightarrow> u64 \<times> eflags"
  cpu_xor32 :: "u32 \<Rightarrow> u32 \<Rightarrow> u32 \<times> eflags"
  cpu_xor64 :: "u64 \<Rightarrow> u64 \<Rightarrow> u64 \<times> eflags"
  cpu_cmp8 :: "byte \<Rightarrow> byte \<Rightarrow> eflags"
  cpu_cmp16 :: "u16 \<Rightarrow> u16 \<Rightarrow> eflags"
  cpu_cmp32 :: "u32 \<Rightarrow> u32 \<Rightarrow> eflags"
  cpu_cmp64 :: "u64 \<Rightarrow> u64 \<Rightarrow> eflags"
  cpu_test8 :: "byte \<Rightarrow> byte \<Rightarrow> eflags"
  cpu_test16 :: "u16 \<Rightarrow> u16 \<Rightarrow> eflags"
  cpu_test32 :: "u32 \<Rightarrow> u32 \<Rightarrow> eflags"
  cpu_test64 :: "u64 \<Rightarrow> u64 \<Rightarrow> eflags"
  cpu_shl64 :: "u64 \<Rightarrow> byte \<Rightarrow> u64 \<times> eflags"
  cpu_shr64 :: "u64 \<Rightarrow> byte \<Rightarrow> u64 \<times> eflags"
  cpu_addpd :: "u128 \<Rightarrow> u128 \<Rightarrow> u128"
  cpu_mulpd :: "u128 \<Rightarrow> u128 \<Rightarrow> u128"
  cpu_pxor :: "u128 \<Rightarrow> u128 \<Rightarrow> u128"
  cpu_addsd :: "u64 \<Rightarrow> u64 \<Rightarrow> u64"
  cpu_mulsd :: "u64 \<Rightarrow> u64 \<Rightarrow> u64"

section \<open>Access to the operands\<close>

definition dyn_op :: "dyn_info \<Rightarrow> nat \<Rightarrow> dyn_operand option" where
  "dyn_op di i = (if i < length (di_operands di) then Some (di_operands di ! i) else throw)"

definition set_output :: "nat \<Rightarrow> dyn_value \<Rightarrow> dyn_info \<Rightarrow> dyn_info option" where
  "set_output i v di =
     (if i < length (di_operands di)
      then Some (di\<lparr>di_operands := (di_operands di)[i := (di_operands di ! i)\<lparr>do_output := v\<rparr>]\<rparr>)
      else throw)"

text \<open>The assertions that an operand is the named flag register.\<close>

definition assert_reg :: "register \<Rightarrow> nat \<Rightarrow> dyn_info \<Rightarrow> unit option" where
  "assert_reg reg i di =
     do { op \<leftarrow> dyn_op di i;
          drob_assert (case do_loc op of DlReg a \<Rightarrow> sra_reg a = reg | _ \<Rightarrow> False) }"

definition flag_value :: "bool \<Rightarrow> dyn_value" where
  "flag_value b = Imm64 (of_bool b)"

definition setEflags :: "nat \<Rightarrow> eflags \<Rightarrow> dyn_info \<Rightarrow> dyn_info option" where
  "setEflags startIdx fl di =
     do { assert_reg CF startIdx di;
          di \<leftarrow> set_output startIdx (flag_value (fl_cf fl)) di;
          di \<leftarrow> set_output (startIdx + 1) (flag_value (fl_pf fl)) di;
          di \<leftarrow> set_output (startIdx + 2) (flag_value (fl_af fl)) di;
          di \<leftarrow> set_output (startIdx + 3) (flag_value (fl_zf fl)) di;
          di \<leftarrow> set_output (startIdx + 4) (flag_value (fl_sf fl)) di;
          set_output (startIdx + 5) (flag_value (fl_of fl)) di }"

definition setAF :: "nat \<Rightarrow> dyn_value \<Rightarrow> dyn_info \<Rightarrow> dyn_info option" where
  "setAF i v di = do { assert_reg AF i di; set_output i v di }"

definition setCF :: "nat \<Rightarrow> dyn_value \<Rightarrow> dyn_info \<Rightarrow> dyn_info option" where
  "setCF i v di = do { assert_reg CF i di; set_output i v di }"

definition setOF :: "nat \<Rightarrow> dyn_value \<Rightarrow> dyn_info \<Rightarrow> dyn_info option" where
  "setOF i v di = do { assert_reg OvF i di; set_output i v di }"

text \<open>The size of a memory operand, as \<open>push\<close> and \<open>pop\<close> read it.\<close>

definition mem_size_of :: "dyn_operand \<Rightarrow> u64 option" where
  "mem_size_of op = (case do_loc op of DlMem a \<Rightarrow> Some (of_nat (mem_bytes (ma_size a))) | _ \<Rightarrow> throw)"

section \<open>Arithmetic\<close>

text \<open>What the macros \<open>GEN_EMULATE_ADD\<close> and \<open>GEN_EMULATE_SUB\<close> and the two xor handlers do.\<close>

definition emulate_arith :: "('a::len word \<Rightarrow> 'a word \<Rightarrow> 'a word \<times> eflags) \<Rightarrow> dyn_info \<Rightarrow>
    (emu_ret \<times> dyn_info) option" where
  "emulate_arith f di =
     do { inout \<leftarrow> dyn_op di 0;
          in1 \<leftarrow> dyn_op di 1;
          let (res, fl) = f (ucast (getImm64 (do_input inout))) (ucast (getImm64 (do_input in1)));
          di \<leftarrow> set_output 0 (Imm64 (ucast res)) di;
          di \<leftarrow> setEflags 2 fl di;
          Some (EmuOk, di) }"

definition emulate_add8 where "emulate_add8 cpu = emulate_arith (cpu_add8 cpu)"
definition emulate_add16 where "emulate_add16 cpu = emulate_arith (cpu_add16 cpu)"
definition emulate_add32 where "emulate_add32 cpu = emulate_arith (cpu_add32 cpu)"
definition emulate_sub8 where "emulate_sub8 cpu = emulate_arith (cpu_sub8 cpu)"
definition emulate_sub16 where "emulate_sub16 cpu = emulate_arith (cpu_sub16 cpu)"
definition emulate_sub32 where "emulate_sub32 cpu = emulate_arith (cpu_sub32 cpu)"
definition emulate_xor32 where "emulate_xor32 cpu = emulate_arith (cpu_xor32 cpu)"
definition emulate_xor64 where "emulate_xor64 cpu = emulate_arith (cpu_xor64 cpu)"

text \<open>
  The 64-bit addition and subtraction also work on pointers; the two handlers have the same
  text. The value and, if they are known, the flags: flags that are not set stay Unknown.
\<close>

definition with_offset :: "dyn_value \<Rightarrow> u64 \<Rightarrow> dyn_value" where
  "with_offset p off = (case p of Ptr k nr _ \<Rightarrow> Ptr k nr off | _ \<Rightarrow> p)"

definition arith64_result :: "(u64 \<Rightarrow> u64 \<Rightarrow> u64 \<times> eflags) \<Rightarrow> dyn_value \<Rightarrow> dyn_value \<Rightarrow>
    dyn_value \<times> eflags option" where
  "arith64_result f inout in1 =
     (if isImm inout \<and> isImm in1 then
        (let (res, fl) = f (getImm64 inout) (getImm64 in1) in (Imm64 res, Some fl))
      else if isPtr inout \<and> isImm in1 then
        (with_offset inout (fst (f (getPtrOffset inout) (getImm64 in1))), None)
      else if isPtr in1 \<and> isImm inout then
        (with_offset in1 (fst (f (getPtrOffset in1) (getImm64 inout))), None)
      else if isStackPtr inout \<or> isStackPtr in1 then (Tainted, None)
      else (Unknown, None))"

definition emulate_arith64 :: "(u64 \<Rightarrow> u64 \<Rightarrow> u64 \<times> eflags) \<Rightarrow> dyn_info \<Rightarrow> (emu_ret \<times> dyn_info) option" where
  "emulate_arith64 f di =
     do { inout \<leftarrow> dyn_op di 0;
          in1 \<leftarrow> dyn_op di 1;
          let (v, fl) = arith64_result f (do_input inout) (do_input in1);
          di \<leftarrow> set_output 0 v di;
          di \<leftarrow> (case fl of Some fl \<Rightarrow> setEflags 2 fl di | None \<Rightarrow> Some di);
          Some (EmuOk, di) }"

definition emulate_add64 where "emulate_add64 cpu = emulate_arith64 (cpu_add64 cpu)"
definition emulate_sub64 where "emulate_sub64 cpu = emulate_arith64 (cpu_sub64 cpu)"

text \<open>The vector handlers: two inputs of the whole or the low half, no flags.\<close>

definition emulate_vec :: "(u128 \<Rightarrow> u128 \<Rightarrow> u128) \<Rightarrow> dyn_info \<Rightarrow> (emu_ret \<times> dyn_info) option" where
  "emulate_vec f di =
     do { inout \<leftarrow> dyn_op di 0;
          in1 \<leftarrow> dyn_op di 1;
          di \<leftarrow> set_output 0 (Imm128 (f (getImm128 (do_input inout)) (getImm128 (do_input in1)))) di;
          Some (EmuOk, di) }"

definition emulate_scalar :: "(u64 \<Rightarrow> u64 \<Rightarrow> u64) \<Rightarrow> dyn_info \<Rightarrow> (emu_ret \<times> dyn_info) option" where
  "emulate_scalar f di =
     do { inout \<leftarrow> dyn_op di 0;
          in1 \<leftarrow> dyn_op di 1;
          di \<leftarrow> set_output 0 (Imm64 (f (getImm64 (do_input inout)) (getImm64 (do_input in1)))) di;
          Some (EmuOk, di) }"

definition emulate_addpd where "emulate_addpd cpu = emulate_vec (cpu_addpd cpu)"
definition emulate_mulpd where "emulate_mulpd cpu = emulate_vec (cpu_mulpd cpu)"
definition emulate_pxor where "emulate_pxor cpu = emulate_vec (cpu_pxor cpu)"
definition emulate_addsd where "emulate_addsd cpu = emulate_scalar (cpu_addsd cpu)"
definition emulate_mulsd where "emulate_mulsd cpu = emulate_scalar (cpu_mulsd cpu)"

section \<open>Stack and moves\<close>

text \<open>The stack pointer moved by a constant.\<close>

definition adjust_sp :: "dyn_value \<Rightarrow> u64 \<Rightarrow> dyn_value" where
  "adjust_sp rsp d =
     (if isImm rsp then Imm64 (getImm64 rsp + d)
      else case rsp of Ptr k nr off \<Rightarrow> Ptr k nr (off + d) | _ \<Rightarrow> rsp)"

definition emulate_call :: "dyn_info \<Rightarrow> (emu_ret \<times> dyn_info) option" where
  "emulate_call di =
     do { rsp \<leftarrow> dyn_op di 1;
          di \<leftarrow> set_output 1 (adjust_sp (do_input rsp) (- 8)) di;
          di \<leftarrow> set_output 2 (Ptr ReturnPtr 1 0) di;
          Some (EmuOk, di) }"

definition emulate_ret :: "dyn_info \<Rightarrow> (emu_ret \<times> dyn_info) option" where
  "emulate_ret di =
     do { rsp \<leftarrow> dyn_op di 0;
          di \<leftarrow> set_output 0 (adjust_sp (do_input rsp) 8) di;
          Some (EmuOk, di) }"

definition emulate_pop :: "dyn_info \<Rightarrow> (emu_ret \<times> dyn_info) option" where
  "emulate_pop di =
     do { mem \<leftarrow> dyn_op di 2;
          size \<leftarrow> mem_size_of mem;
          rsp \<leftarrow> dyn_op di 1;
          di \<leftarrow> set_output 1 (adjust_sp (do_input rsp) size) di;
          di \<leftarrow> set_output 0 (do_input mem) di;
          Some (EmuMov20, di) }"

definition emulate_push :: "dyn_info \<Rightarrow> (emu_ret \<times> dyn_info) option" where
  "emulate_push di =
     do { mem \<leftarrow> dyn_op di 2;
          size \<leftarrow> mem_size_of mem;
          rsp \<leftarrow> dyn_op di 1;
          val \<leftarrow> dyn_op di 0;
          di \<leftarrow> set_output 1 (adjust_sp (do_input rsp) (- size)) di;
          di \<leftarrow> set_output 2 (do_input val) di;
          Some (EmuMov02, di) }"

definition emulate_lea :: "dyn_info \<Rightarrow> (emu_ret \<times> dyn_info) option" where
  "emulate_lea di =
     do { src \<leftarrow> dyn_op di 1; di \<leftarrow> set_output 0 (do_input src) di; Some (EmuOk, di) }"

definition emulate_mov :: "dyn_info \<Rightarrow> (emu_ret \<times> dyn_info) option" where
  "emulate_mov di =
     do { src \<leftarrow> dyn_op di 1; di \<leftarrow> set_output 0 (do_input src) di; Some (EmuMov10, di) }"

section \<open>Comparisons, tests, shifts\<close>

definition emulate_cmp :: "('a::len word \<Rightarrow> 'a word \<Rightarrow> eflags) \<Rightarrow> dyn_info \<Rightarrow> (emu_ret \<times> dyn_info) option" where
  "emulate_cmp f di =
     do { in0 \<leftarrow> dyn_op di 0;
          in1 \<leftarrow> dyn_op di 1;
          di \<leftarrow> setEflags 2 (f (ucast (getImm64 (do_input in0))) (ucast (getImm64 (do_input in1)))) di;
          Some (EmuOk, di) }"

definition emulate_cmp8 where "emulate_cmp8 cpu = emulate_cmp (cpu_cmp8 cpu)"
definition emulate_cmp16 where "emulate_cmp16 cpu = emulate_cmp (cpu_cmp16 cpu)"
definition emulate_cmp32 where "emulate_cmp32 cpu = emulate_cmp (cpu_cmp32 cpu)"

definition emulate_cmp64 :: "cpu \<Rightarrow> dyn_info \<Rightarrow> (emu_ret \<times> dyn_info) option" where
  "emulate_cmp64 cpu di =
     do { in0 \<leftarrow> dyn_op di 0;
          in1 \<leftarrow> dyn_op di 1;
          let a = do_input in0;
          let b = do_input in1;
          di \<leftarrow>
            (if isImm a \<and> isImm b then setEflags 2 (cpu_cmp64 cpu (getImm64 a) (getImm64 b)) di
             else case (a, b) of
               (Ptr k nr off, Ptr k' nr' off') \<Rightarrow>
                 if k = k' \<and> nr = nr' then setEflags 2 (cpu_cmp64 cpu off off') di else Some di
             | _ \<Rightarrow> Some di);
          Some (EmuOk, di) }"

definition emulate_test :: "('a::len word \<Rightarrow> 'a word \<Rightarrow> eflags) \<Rightarrow> dyn_info \<Rightarrow> (emu_ret \<times> dyn_info) option" where
  "emulate_test f di =
     do { in0 \<leftarrow> dyn_op di 0;
          in1 \<leftarrow> dyn_op di 1;
          let a = do_input in0;
          let b = do_input in1;
          di \<leftarrow>
            (if isImm a \<and> isImm b then setEflags 2 (f (ucast (getImm64 a)) (ucast (getImm64 b))) di
             else Some di);
          di \<leftarrow> setCF 2 (Imm64 0) di;
          di \<leftarrow> setAF 4 Unknown di;
          di \<leftarrow> setOF 7 (Imm64 0) di;
          Some (EmuOk, di) }"

definition emulate_test8 where "emulate_test8 cpu = emulate_test (cpu_test8 cpu)"
definition emulate_test16 where "emulate_test16 cpu = emulate_test (cpu_test16 cpu)"
definition emulate_test32 where "emulate_test32 cpu = emulate_test (cpu_test32 cpu)"
definition emulate_test64 where "emulate_test64 cpu = emulate_test (cpu_test64 cpu)"

text \<open>
  The two shift handlers have the same text. When the count is not known the handler passes
  the unshifted input on, also when that is an immediate.
\<close>

definition shift_result :: "(u64 \<Rightarrow> byte \<Rightarrow> u64 \<times> eflags) \<Rightarrow> dyn_value \<Rightarrow> dyn_value \<Rightarrow>
    dyn_value \<times> eflags option" where
  "shift_result f inout shift =
     (if isImm inout \<and> isImm shift then
        (let (res, fl) = f (getImm64 inout) (ucast (getImm64 shift)) in (Imm64 res, Some fl))
      else if isStackPtr inout then (Tainted, None)
      else if isPtr inout then (Unknown, None)
      else (inout, None))"

definition emulate_shift :: "(u64 \<Rightarrow> byte \<Rightarrow> u64 \<times> eflags) \<Rightarrow> dyn_info \<Rightarrow> (emu_ret \<times> dyn_info) option" where
  "emulate_shift f di =
     do { inout \<leftarrow> dyn_op di 0;
          shift \<leftarrow> dyn_op di 1;
          let s = do_input shift;
          let (v, fl) = shift_result f (do_input inout) s;
          di \<leftarrow> set_output 0 v di;
          di \<leftarrow> (case fl of Some fl \<Rightarrow> setEflags 2 fl di | None \<Rightarrow> Some di);
          di \<leftarrow> (if \<not> isImm s \<or> getImm64 s \<noteq> 1 then setOF 7 Unknown di else Some di);
          di \<leftarrow> (if \<not> isImm s \<or> getImm64 s \<ge> 64 then setCF 2 Unknown di else Some di);
          di \<leftarrow> setAF 4 Unknown di;
          Some (EmuOk, di) }"

definition emulate_shl64 where "emulate_shl64 cpu = emulate_shift (cpu_shl64 cpu)"
definition emulate_shr64 where "emulate_shr64 cpu = emulate_shift (cpu_shr64 cpu)"

section \<open>Dispatch\<close>

primrec run_emulator :: "cpu \<Rightarrow> emulate_fn \<Rightarrow> dyn_info \<Rightarrow> (emu_ret \<times> dyn_info) option" where
  "run_emulator cpu Emu_add8 = emulate_add8 cpu"
| "run_emulator cpu Emu_add16 = emulate_add16 cpu"
| "run_emulator cpu Emu_add32 = emulate_add32 cpu"
| "run_emulator cpu Emu_add64 = emulate_add64 cpu"
| "run_emulator cpu Emu_addpd = emulate_addpd cpu"
| "run_emulator cpu Emu_addsd = emulate_addsd cpu"
| "run_emulator cpu Emu_call = emulate_call"
| "run_emulator cpu Emu_cmp8 = emulate_cmp8 cpu"
| "run_emulator cpu Emu_cmp16 = emulate_cmp16 cpu"
| "run_emulator cpu Emu_cmp32 = emulate_cmp32 cpu"
| "run_emulator cpu Emu_cmp64 = emulate_cmp64 cpu"
| "run_emulator cpu Emu_lea = emulate_lea"
| "run_emulator cpu Emu_mov = emulate_mov"
| "run_emulator cpu Emu_mulpd = emulate_mulpd cpu"
| "run_emulator cpu Emu_mulsd = emulate_mulsd cpu"
| "run_emulator cpu Emu_pop = emulate_pop"
| "run_emulator cpu Emu_push = emulate_push"
| "run_emulator cpu Emu_pxor = emulate_pxor cpu"
| "run_emulator cpu Emu_ret = emulate_ret"
| "run_emulator cpu Emu_shl64 = emulate_shl64 cpu"
| "run_emulator cpu Emu_shr64 = emulate_shr64 cpu"
| "run_emulator cpu Emu_sub8 = emulate_sub8 cpu"
| "run_emulator cpu Emu_sub16 = emulate_sub16 cpu"
| "run_emulator cpu Emu_sub32 = emulate_sub32 cpu"
| "run_emulator cpu Emu_sub64 = emulate_sub64 cpu"
| "run_emulator cpu Emu_test8 = emulate_test8 cpu"
| "run_emulator cpu Emu_test16 = emulate_test16 cpu"
| "run_emulator cpu Emu_test32 = emulate_test32 cpu"
| "run_emulator cpu Emu_test64 = emulate_test64 cpu"
| "run_emulator cpu Emu_xor64 = emulate_xor64 cpu"
| "run_emulator cpu Emu_xor32 = emulate_xor32 cpu"

end
