(* ===== verification/Instr.thy ===== *)
theory Instr
  imports Places Mem_Prot Emulator
begin

text \<open>
  Instructions and what the analyses ask of them (\<open>src/Instruction.hpp\<close>,
  \<open>src/Instruction.cpp\<close>): the registers an instruction may touch, whether it executes, its
  operands evaluated in a program state, and its effect on that state. The refine handlers
  come from \<open>src/x86/OpcodeInfo.cpp\<close>, user pointers from \<open>src/RewriterCfg.hpp\<close>.
\<close>

section \<open>Instructions and configuration\<close>

record instruction =
  in_opcode :: opcode
  in_operands :: "static_operand list"  \<comment> \<open>\<open>rawOperands.op\<close>\<close>
  in_info :: "opcode_info option"       \<comment> \<open>\<open>opcodeInfo\<close>, None is the null pointer\<close>

record usr_ptr_cfg =
  up_isKnown :: bool
  up_isConst :: bool
  up_isRestrict :: bool
  up_isNotNull :: bool
  up_align :: u16
  up_val :: u64

text \<open>
  The part of the configuration the emulation reads, the protection of the process memory,
  and the bytes of that memory.
\<close>

record rw_env =
  env_usrPtrs :: "usr_ptr_cfg list"
  env_prot :: mem_prot
  env_host :: "u64 \<Rightarrow> byte"
  env_cpu :: cpu

definition getUsrPtrCfg :: "rw_env \<Rightarrow> u32 \<Rightarrow> usr_ptr_cfg option" where
  "getUsrPtrCfg env nr =
     (if unat nr < length (env_usrPtrs env) then Some (env_usrPtrs env ! unat nr) else throw)"

definition ptrToInt :: "rw_env \<Rightarrow> dyn_value \<Rightarrow> u64 option option" where
  "ptrToInt env ptr =
     (if isImm ptr then Some (Some (getImm64 ptr))
      else if isUsrPtr ptr then
        do { c \<leftarrow> getUsrPtrCfg env (getNr ptr);
             Some (if up_isKnown c then Some (up_val c + getPtrOffset ptr) else None) }
      else Some None)"

definition raw_op :: "static_operand list \<Rightarrow> nat \<Rightarrow> static_operand option" where
  "raw_op ops i = (if i < length ops then Some (ops ! i) else throw)"

definition op_reg :: "static_operand list \<Rightarrow> nat \<Rightarrow> register option" where
  "op_reg ops i = do { op \<leftarrow> raw_op ops i; case op of SopReg r \<Rightarrow> Some r | _ \<Rightarrow> throw }"

definition op_imm :: "static_operand list \<Rightarrow> nat \<Rightarrow> u64 option" where
  "op_imm ops i = do { op \<leftarrow> raw_op ops i; case op of SopImm v \<Rightarrow> Some (i64_val v) | _ \<Rightarrow> throw }"

section \<open>Refining an operand\<close>

definition set_mode :: "access_mode \<Rightarrow> operand_info \<Rightarrow> operand_info option" where
  "set_mode m oi =
     (case oi_info oi of SoiReg a \<Rightarrow> Some (oi\<lparr>oi_info := SoiReg (a\<lparr>sra_mode := m\<rparr>)\<rparr>) | _ \<Rightarrow> throw)"

definition refine_sh :: "operand_info \<Rightarrow> opcode \<Rightarrow> static_operand list \<Rightarrow> program_state option \<Rightarrow>
    operand_info option" where
  "refine_sh oi opc ops ps =
     (if opc \<in> {Shift SHL64mi, Shift SHL64ri, Shift SHR64mi, Shift SHR64ri} then
        if oi_isImpl oi then
          do { v \<leftarrow> op_imm ops 1; set_mode (if v = 0 then AmNone else AmWrite) oi }
        else Some oi
      else if opc \<in> {Shift SHL64r, Shift SHL64m, Shift SHR64r, Shift SHR64m} then
        (case ps of
           Some s \<Rightarrow>
             if oi_nr oi > 1 then
               do { drob_assert (case oi_info oi of SoiReg _ \<Rightarrow> True | _ \<Rightarrow> False);
                    data \<leftarrow> getRegister s (Gpr8 GC) Full;
                    if isImm data
                    then set_mode (if getImm64 data = 0 then AmNone else AmWrite) oi
                    else Some oi }
             else Some oi
         | None \<Rightarrow> Some oi)
      else throw)"

definition refine_xor_rr :: "operand_info \<Rightarrow> opcode \<Rightarrow> static_operand list \<Rightarrow> program_state option \<Rightarrow>
    operand_info option" where
  "refine_xor_rr oi opc ops ps =
     do { drob_assert (opc \<in> {Sse PXOR128rr, Xor XOR64rr, Xor XOR32rr});
          if oi_nr oi = 0 then
            do { r0 \<leftarrow> op_reg ops 0; r1 \<leftarrow> op_reg ops 1;
                 set_mode (if r0 = r1 then AmWrite else AmReadWrite) oi }
          else if oi_nr oi = 1 then
            do { r0 \<leftarrow> op_reg ops 0; r1 \<leftarrow> op_reg ops 1;
                 set_mode (if r0 = r1 then AmNone else AmRead) oi }
          else Some oi }"

primrec run_refine :: "refine_fn \<Rightarrow> operand_info \<Rightarrow> opcode \<Rightarrow> static_operand list \<Rightarrow>
    program_state option \<Rightarrow> operand_info option" where
  "run_refine Ref_sh = refine_sh"
| "run_refine Ref_xor_rr = refine_xor_rr"

definition refine_operand :: "instruction \<Rightarrow> program_state option \<Rightarrow> operand_info \<Rightarrow> operand_info option" where
  "refine_operand ins ps oi =
     (case in_info ins of
        Some oc \<Rightarrow>
          (case oc_refine oc of
             Some f \<Rightarrow> run_refine f oi (in_opcode ins) (in_operands ins) ps
           | None \<Rightarrow> Some oi)
      | None \<Rightarrow> Some oi)"

section \<open>Static information\<close>

definition addAddrRegs :: "mask \<Rightarrow> static_mem_ptr \<Rightarrow> mask option" where
  "addAddrRegs m ptr =
     (case ptr of
        MpSIB b idx _ _ \<Rightarrow>
          do { m \<leftarrow> (if b \<noteq> NoReg
                     then map_option (mask_add m) (getSubRegisterMaskFull b) else Some m);
               (if idx \<noteq> NoReg
                then map_option (mask_add m) (getSubRegisterMaskFull idx) else Some m) }
      | _ \<Rightarrow> Some m)"

definition createRawOperandInfo :: "explicit_operand_info \<Rightarrow> static_operand \<Rightarrow> static_operand_info option" where
  "createRawOperandInfo expl op =
     (case (expl, op) of
        (EoiReg _ mode r w, SopReg reg) \<Rightarrow>
          Some (SoiReg \<lparr>sra_reg = reg, sra_mode = mode, sra_r = r, sra_w = w\<rparr>)
      | (EoiMem mode sz, SopMem ptr) \<Rightarrow>
          Some (SoiMem \<lparr>sma_ptr = ptr, sma_mode = mode, sma_size = sz\<rparr>)
      | (EoiImm t, SopImm imm) \<Rightarrow> Some (SoiImm t imm)
      | _ \<Rightarrow> throw)"

definition createOperandInfo :: "instruction \<Rightarrow> static_operand_info \<Rightarrow> nat \<Rightarrow> bool \<Rightarrow> operand_info option" where
  "createOperandInfo ins raw nr isImpl =
     refine_operand ins None \<lparr>oi_info = raw, oi_nr = nr, oi_isImpl = isImpl\<rparr>"

definition add_mask :: "register \<Rightarrow> reg_access \<Rightarrow> mask \<Rightarrow> mask option" where
  "add_mask reg access m = map_option (mask_add m) (getSubRegisterMask reg access)"

definition addOperandToRegisterMasks :: "operand_info \<Rightarrow> instruction_info \<Rightarrow> instruction_info option" where
  "addOperandToRegisterMasks oi info =
     (case oi_info oi of
        SoiMem a \<Rightarrow>
          do { rd \<leftarrow> (if sma_mode a \<noteq> AmNone then addAddrRegs (ii_readRegs info) (sma_ptr a)
                      else Some (ii_readRegs info));
               Some (info\<lparr>ii_readRegs := rd, ii_mayWriteMem := ii_mayWriteMem info \<or> isWrite (sma_mode a)\<rparr>) }
      | SoiReg a \<Rightarrow>
          do { rd \<leftarrow> (if isRead (sra_mode a) then add_mask (sra_reg a) (sra_r a) (ii_readRegs info)
                      else Some (ii_readRegs info));
               let info = info\<lparr>ii_readRegs := rd\<rparr>;
               if isWrite (sra_mode a) then
                 if isConditional (sra_mode a) then
                   do { w \<leftarrow> add_mask (sra_reg a) (sra_w a) (ii_condWrittenRegs info);
                        Some (info\<lparr>ii_condWrittenRegs := w\<rparr>) }
                 else
                   do { w \<leftarrow> add_mask (sra_reg a) (sra_w a) (ii_writtenRegs info);
                        Some (info\<lparr>ii_writtenRegs := w\<rparr>) }
               else Some info }
      | SoiImm _ _ \<Rightarrow> Some info)"

definition add_comparand :: "pred_comparand \<Rightarrow> mask \<Rightarrow> mask option" where
  "add_comparand c m =
     (case c of PReg r \<Rightarrow> map_option (mask_add m) (getSubRegisterMaskFull r) | PImm _ \<Rightarrow> Some m)"

text \<open>The loop over the comparisons of a predicate: at most two, \<open>None\<close> ends it.\<close>

fun predicate_regs :: "nat \<Rightarrow> predicate \<Rightarrow> mask \<Rightarrow> mask option" where
  "predicate_regs 0 cs m = Some m"
| "predicate_regs (Suc n) [] m = throw"
| "predicate_regs (Suc n) (c # cs) m =
     do { m \<leftarrow> add_comparand (pc_lhs c) m;
          m \<leftarrow> add_comparand (pc_rhs c) m;
          if pc_con c = ConNone then Some m else predicate_regs n cs m }"

definition info_unknown :: instruction_info where
  "info_unknown = \<lparr>ii_nasty = True, ii_operands = [], ii_mayWriteMem = False,
     ii_predicateRegs = mask_zero, ii_readRegs = mask_fill, ii_writtenRegs = mask_fill,
     ii_condWrittenRegs = mask_zero\<rparr>"

definition info_empty :: instruction_info where
  "info_empty = \<lparr>ii_nasty = False, ii_operands = [], ii_mayWriteMem = False,
     ii_predicateRegs = mask_zero, ii_readRegs = mask_zero, ii_writtenRegs = mask_zero,
     ii_condWrittenRegs = mask_zero\<rparr>"

definition info_operand :: "instruction \<Rightarrow> static_operand_info \<Rightarrow> nat \<Rightarrow> bool \<Rightarrow> instruction_info \<Rightarrow>
    instruction_info option" where
  "info_operand ins raw nr isImpl info =
     do { oi \<leftarrow> createOperandInfo ins raw nr isImpl;
          info \<leftarrow> addOperandToRegisterMasks oi info;
          Some (info\<lparr>ii_operands := ii_operands info @ [oi]\<rparr>) }"

definition getInfo :: "instruction \<Rightarrow> instruction_info option" where
  "getInfo ins =
     (case in_info ins of
        None \<Rightarrow> Some info_unknown
      | Some oc \<Rightarrow>
          do { info \<leftarrow> for_each [0..<length (oc_opInfo oc)]
                 (\<lambda>i info. do { op \<leftarrow> raw_op (in_operands ins) i;
                                raw \<leftarrow> createRawOperandInfo (oc_opInfo oc ! i) op;
                                info_operand ins raw i False info }) info_empty;
               info \<leftarrow> for_each [0..<length (oc_iOpInfo oc)]
                 (\<lambda>i info. info_operand ins (oc_iOpInfo oc ! i) (i + length (oc_opInfo oc)) True info) info;
               case oc_predicate oc of
                 None \<Rightarrow> Some info
               | Some p \<Rightarrow>
                   do { m \<leftarrow> predicate_regs 2 p (ii_predicateRegs info);
                        Some (info\<lparr>ii_predicateRegs := m\<rparr>) } })"

section \<open>Whether an instruction executes\<close>

definition comparand_value :: "program_state \<Rightarrow> pred_comparand \<Rightarrow> u64 option option" where
  "comparand_value ps c =
     (case c of
        PImm v \<Rightarrow> Some (Some v)
      | PReg r \<Rightarrow>
          do { data \<leftarrow> getRegister ps r Full;
               Some (if isImm data then Some (getImm64 data) else None) })"

definition eval_comparison :: "program_state \<Rightarrow> pred_comparison \<Rightarrow> tristate option" where
  "eval_comparison ps c =
     do { l \<leftarrow> comparand_value ps (pc_lhs c);
          r \<leftarrow> comparand_value ps (pc_rhs c);
          Some (case (l, r) of
             (Some a, Some b) \<Rightarrow>
               (case pc_comp c of
                  CmpEqual \<Rightarrow> if a = b then TTrue else TFalse
                | CmpNotEqual \<Rightarrow> if a \<noteq> b then TTrue else TFalse)
           | _ \<Rightarrow> TUnknown) }"

definition combine :: "pred_conjunction \<Rightarrow> tristate \<Rightarrow> tristate \<Rightarrow> tristate" where
  "combine con result tmp =
     (case con of ConNone \<Rightarrow> tmp | ConAnd \<Rightarrow> tri_and result tmp | ConOr \<Rightarrow> tri_or result tmp)"

fun eval_predicate :: "program_state \<Rightarrow> pred_conjunction \<Rightarrow> tristate \<Rightarrow> predicate \<Rightarrow> tristate option" where
  "eval_predicate ps lastCon result [] = throw"
| "eval_predicate ps lastCon result (c # cs) =
     do { tmp \<leftarrow> eval_comparison ps c;
          let result = combine lastCon result tmp;
          if pc_con c = ConNone then Some result else eval_predicate ps (pc_con c) result cs }"

definition willExecute :: "instruction \<Rightarrow> program_state \<Rightarrow> tristate option" where
  "willExecute ins ps =
     (case in_info ins of
        None \<Rightarrow> Some TUnknown
      | Some oc \<Rightarrow>
          (case oc_predicate oc of
             None \<Rightarrow> Some TTrue
           | Some p \<Rightarrow> eval_predicate ps ConNone TUnknown p))"

section \<open>Operands in a program state\<close>

definition calculateMemPtr :: "mem_ptr \<Rightarrow> dyn_value option" where
  "calculateMemPtr ptr =
     (case ptr of
        DmSIB b idx disp scale \<Rightarrow>
          if isImm b \<and> isImm idx \<and> isImm disp
          then Some (Imm64 (getImm64 b + ucast scale * getImm64 idx + getImm64 disp))
          else Some (addDynamicValues disp (addDynamicValues b (multiplyDynamicValue idx scale)))
      | _ \<Rightarrow> throw)"

text \<open>A read of the process memory at a known address.\<close>

definition read_host :: "(u64 \<Rightarrow> byte) \<Rightarrow> u64 \<Rightarrow> nat \<Rightarrow> 'a::len word" where
  "read_host host ptr n = le_word (map (\<lambda>i. host (ptr + of_nat i)) [0..<n])"

definition emulateReadAccess :: "rw_env \<Rightarrow> mem_access \<Rightarrow> program_state \<Rightarrow> (dyn_value \<times> program_state) option" where
  "emulateReadAccess env ma ps =
     (let p = ma_ptrVal ma in
      if isTainted p then Some (Tainted, ps)
      else if isUnknownOrDead p then Some (Unknown, ps)
      else if isReturnPtr p then throw
      else if isStackPtr p then getStack ps (sint (getPtrOffset p)) (ma_size ma)
      else do {
        tgt \<leftarrow>
          (if isUsrPtr p then
             do { c \<leftarrow> getUsrPtrCfg env (getNr p);
                  Some (if up_isKnown c then Some (up_isConst c, up_val c + getPtrOffset p) else None) }
           else do { drob_assert (isImm p); Some (Some (False, getImm64 p)) });
        case tgt of
          None \<Rightarrow> Some (Unknown, ps)
        | Some (isConst, ptr) \<Rightarrow>
            do { c \<leftarrow> (if isConst then Some True
                       else isConstant (env_prot env) ptr (of_nat (mem_bytes (ma_size ma))));
                 if \<not> c then Some (Unknown, ps)
                 else case ma_size ma of
                   MB1 \<Rightarrow> Some (Imm64 (read_host (env_host env) ptr 1), ps)
                 | MB2 \<Rightarrow> Some (Imm64 (read_host (env_host env) ptr 2), ps)
                 | MB4 \<Rightarrow> Some (Imm64 (read_host (env_host env) ptr 4), ps)
                 | MB8 \<Rightarrow> Some (Imm64 (read_host (env_host env) ptr 8), ps)
                 | MB16 \<Rightarrow> Some (Imm128 (read_host (env_host env) ptr 16), ps)
                 | _ \<Rightarrow> throw } })"

definition addr_register :: "program_state \<Rightarrow> register \<Rightarrow> dyn_value option" where
  "addr_register ps r = (if r \<noteq> NoReg then getRegister ps r Full else Some (Imm64 0))"

definition usr_or_imm :: "int \<Rightarrow> u64 \<Rightarrow> u64 \<Rightarrow> dyn_value" where
  "usr_or_imm nr off val = (if nr < 0 then Imm64 val else Ptr UsrPtr (word_of_int nr) off)"

definition createMemAccess :: "static_mem_access \<Rightarrow> program_state \<Rightarrow> mem_access option" where
  "createMemAccess raw ps =
     (case sma_ptr raw of
        MpDirect addr \<Rightarrow>
          Some \<lparr>ma_ptrVal = usr_or_imm (i64_usrPtrNr addr) (i64_usrPtrOffset addr) (i64_val addr),
            ma_ptr = DmDirect addr, ma_mode = sma_mode raw, ma_size = sma_size raw\<rparr>
      | MpSIB b idx disp scale \<Rightarrow>
          do { bv \<leftarrow> addr_register ps b;
               iv \<leftarrow> addr_register ps idx;
               let ptr = DmSIB bv iv
                 (usr_or_imm (s32_usrPtrNr disp) (s32_usrPtrOffset disp) (scast (s32_val disp))) scale;
               v \<leftarrow> calculateMemPtr ptr;
               Some \<lparr>ma_ptrVal = v, ma_ptr = ptr, ma_mode = sma_mode raw, ma_size = sma_size raw\<rparr> }
      | MpNone \<Rightarrow> throw)"

definition dyn_operand_init :: "operand_info \<Rightarrow> dyn_location \<Rightarrow> dyn_operand" where
  "dyn_operand_init oi loc =
     \<lparr>do_loc = loc, do_nr = oi_nr oi, do_isImpl = oi_isImpl oi, do_isInput = False,
      do_isCondInput = False, do_isOutput = False, do_isCondOutput = False,
      do_input = Imm64 0, do_output = Unknown\<rparr>"

text \<open>The flags of an operand that is read or written with the given mode.\<close>

definition mark_output :: "access_mode \<Rightarrow> dyn_operand \<Rightarrow> dyn_operand" where
  "mark_output mode op =
     (if isWrite mode then op\<lparr>do_isOutput := True, do_isCondOutput := isConditional mode\<rparr> else op)"

definition mark_input :: "access_mode \<Rightarrow> dyn_value \<Rightarrow> dyn_operand \<Rightarrow> dyn_operand" where
  "mark_input mode v op =
     op\<lparr>do_input := v, do_isInput := True, do_isCondInput := isConditional mode\<rparr>"

definition createDynOpInfo :: "rw_env \<Rightarrow> instruction \<Rightarrow> operand_info \<Rightarrow> program_state \<Rightarrow>
    (dyn_operand \<times> program_state) option" where
  "createDynOpInfo env ins oi ps =
     (case oi_info oi of
        SoiReg _ \<Rightarrow>
          do { copy \<leftarrow> refine_operand ins (Some ps) oi;
               case oi_info copy of
                 SoiReg a \<Rightarrow>
                   do { op \<leftarrow> (if isRead (sra_mode a) then
                                 do { v \<leftarrow> getRegister ps (sra_reg a) (sra_r a);
                                      Some (mark_input (sra_mode a) v (dyn_operand_init oi (DlReg a))) }
                               else Some (dyn_operand_init oi (DlReg a)));
                        Some (mark_output (sra_mode a) op, ps) }
               | _ \<Rightarrow> throw }
      | SoiMem _ \<Rightarrow>
          do { copy \<leftarrow> refine_operand ins (Some ps) oi;
               case oi_info copy of
                 SoiMem a \<Rightarrow>
                   do { ma \<leftarrow> createMemAccess a ps;
                        let op = dyn_operand_init oi (DlMem ma);
                        (op, ps) \<leftarrow>
                          (if isRead (ma_mode ma) then
                             do { (v, ps) \<leftarrow> emulateReadAccess env ma ps; Some (mark_input (ma_mode ma) v op, ps) }
                           else Some (op, ps));
                        let op = (if isSpecial (ma_mode ma)
                                  then mark_input (ma_mode ma) (ma_ptrVal ma) op else op);
                        Some (mark_output (ma_mode ma) op, ps) }
               | _ \<Rightarrow> throw }
      | SoiImm t imm \<Rightarrow>
          Some ((dyn_operand_init oi (DlImm t))\<lparr>do_isInput := True,
            do_input := usr_or_imm (i64_usrPtrNr imm) (i64_usrPtrOffset imm) (i64_val imm)\<rparr>, ps))"

text \<open>Counting the inputs, and the register masks of an evaluated operand.\<close>

definition count_input :: "dyn_operand \<Rightarrow> dyn_info \<Rightarrow> dyn_info" where
  "count_input op di =
     (if do_isInput op then
        let di = di\<lparr>di_numInput := di_numInput di + 1\<rparr> in
        if isImm (do_input op) then
          let di = di\<lparr>di_numInputImm := di_numInputImm di + 1\<rparr> in
          (case do_loc op of
             DlImm _ \<Rightarrow> di\<lparr>di_numInputEncodedImm := di_numInputEncodedImm di + 1\<rparr>
           | _ \<Rightarrow> di)
        else if isTainted (do_input op) then di\<lparr>di_numInputTainted := di_numInputTainted di + 1\<rparr>
        else if isPtr (do_input op) then
          let di = di\<lparr>di_numInputPtr := di_numInputPtr di + 1\<rparr> in
          if isStackPtr (do_input op) then di\<lparr>di_numInputStackPtr := di_numInputStackPtr di + 1\<rparr> else di
        else di
      else di)"

definition operand_ptr :: "operand_info \<Rightarrow> static_mem_ptr" where
  "operand_ptr oi = (case oi_info oi of SoiMem a \<Rightarrow> sma_ptr a | _ \<Rightarrow> MpNone)"

definition dyn_masks :: "operand_info \<Rightarrow> dyn_operand \<Rightarrow> dyn_info \<Rightarrow> dyn_info option" where
  "dyn_masks oi op di =
     do { rd \<leftarrow>
            (if do_isInput op then
               case do_loc op of
                 DlReg a \<Rightarrow> add_mask (sra_reg a) (sra_r a) (di_readRegs di)
               | DlMem _ \<Rightarrow> addAddrRegs (di_readRegs di) (operand_ptr oi)
               | DlImm _ \<Rightarrow> Some (di_readRegs di)
             else Some (di_readRegs di));
          let di = di\<lparr>di_readRegs := rd\<rparr>;
          if do_isOutput op then
            case do_loc op of
              DlReg a \<Rightarrow>
                if do_isCondOutput op then
                  do { w \<leftarrow> add_mask (sra_reg a) (sra_w a) (di_condWrittenRegs di);
                       Some (di\<lparr>di_condWrittenRegs := w\<rparr>) }
                else
                  do { w \<leftarrow> add_mask (sra_reg a) (sra_w a) (di_writtenRegs di);
                       Some (di\<lparr>di_writtenRegs := w\<rparr>) }
            | DlMem _ \<Rightarrow>
                do { rd \<leftarrow> addAddrRegs (di_readRegs di) (operand_ptr oi);
                     Some (di\<lparr>di_readRegs := rd, di_mayWriteMem := True\<rparr>) }
            | DlImm _ \<Rightarrow> Some di
          else Some di }"

definition dyn_info_init :: "instruction_info \<Rightarrow> tristate \<Rightarrow> dyn_info" where
  "dyn_info_init info we =
     \<lparr>di_willExecute = we, di_nasty = ii_nasty info, di_operands = [], di_numInput = 0,
      di_numInputEncodedImm = 0, di_numInputImm = 0, di_numInputPtr = 0,
      di_numInputStackPtr = 0, di_numInputTainted = 0, di_mayWriteMem = False,
      di_predicateRegs = ii_predicateRegs info,
      di_readRegs = (if ii_nasty info then mask_fill else mask_zero),
      di_writtenRegs = (if ii_nasty info then mask_fill else mask_zero),
      di_condWrittenRegs = mask_zero\<rparr>"

definition dyn_operand_step :: "rw_env \<Rightarrow> instruction \<Rightarrow> operand_info \<Rightarrow> dyn_info \<times> program_state \<Rightarrow>
    (dyn_info \<times> program_state) option" where
  "dyn_operand_step env ins oi = (\<lambda>(di, ps).
     do { (op, ps) \<leftarrow> createDynOpInfo env ins oi ps;
          di \<leftarrow> dyn_masks oi op (count_input op di);
          Some (di\<lparr>di_operands := di_operands di @ [op]\<rparr>, ps) })"

definition genDynInfo :: "rw_env \<Rightarrow> instruction \<Rightarrow> program_state \<Rightarrow> (dyn_info \<times> program_state) option" where
  "genDynInfo env ins ps =
     do { info \<leftarrow> getInfo ins;
          we \<leftarrow> willExecute ins ps;
          for_each (ii_operands info) (dyn_operand_step env ins) (dyn_info_init info we, ps) }"

section \<open>The effect on the program state\<close>

definition performDirectMove :: "dyn_operand \<Rightarrow> dyn_operand \<Rightarrow> bool \<Rightarrow> program_state \<Rightarrow> program_state option" where
  "performDirectMove src out cond ps =
     (if cond then Some ps
      else case (do_loc src, do_loc out) of
        (DlReg a, DlReg b) \<Rightarrow> moveRegisterRegister ps (sra_reg a) (sra_r a) (sra_reg b) (sra_w b)
      | (DlReg a, DlMem m) \<Rightarrow>
          if isStackPtr (ma_ptrVal m)
          then moveRegisterStack ps (sra_reg a) (sra_r a) (sint (getPtrOffset (ma_ptrVal m))) (ma_size m)
          else Some ps
      | (DlReg a, DlImm _) \<Rightarrow> throw
      | (DlMem m, DlReg b) \<Rightarrow>
          if isStackPtr (ma_ptrVal m)
          then moveStackRegister ps (sint (getPtrOffset (ma_ptrVal m))) (ma_size m) (sra_reg b) (sra_w b)
          else Some ps
      | (DlMem m, DlMem n) \<Rightarrow>
          if isStackPtr (ma_ptrVal m) \<and> isStackPtr (ma_ptrVal n)
          then do { drob_assert (ma_size m = ma_size n);
                    moveStackStack ps (sint (getPtrOffset (ma_ptrVal m)))
                      (sint (getPtrOffset (ma_ptrVal n))) (ma_size n) }
          else Some ps
      | (DlMem m, DlImm _) \<Rightarrow> throw
      | (DlImm _, _) \<Rightarrow> Some ps)"

definition emulateGeneric :: "dyn_info \<Rightarrow> emu_ret \<times> dyn_info" where
  "emulateGeneric di =
     (let data = (if di_numInputTainted di \<noteq> 0 \<or> di_numInputStackPtr di \<noteq> 0 then Tainted else Unknown)
      in (EmuOk, di\<lparr>di_operands :=
            map (\<lambda>op. if do_isOutput op then op\<lparr>do_output := data\<rparr> else op) (di_operands di)\<rparr>))"

definition choose_emulator :: "cpu \<Rightarrow> opcode_info \<Rightarrow> dyn_info \<Rightarrow> (emu_ret \<times> dyn_info) option" where
  "choose_emulator cpu oc di =
     (case oc_emulate oc of
        None \<Rightarrow> Some (emulateGeneric di)
      | Some f \<Rightarrow>
          if oc_flags oc = OfEmuFull then run_emulator cpu f di
          else if oc_flags oc = OfEmuPtr then
            if di_numInput di = di_numInputImm di + di_numInputPtr di then run_emulator cpu f di
            else Some (emulateGeneric di)
          else if di_numInput di = di_numInputImm di then run_emulator cpu f di
          else Some (emulateGeneric di))"

definition write_output :: "tristate \<Rightarrow> dyn_operand \<Rightarrow> program_state \<Rightarrow> program_state option" where
  "write_output we op ps =
     (let cond = do_isCondOutput op \<or> we = TUnknown in
      if \<not> do_isOutput op then Some ps
      else case do_loc op of
        DlReg a \<Rightarrow> setRegister ps (sra_reg a) (sra_w a) (do_output op) cond
      | DlMem m \<Rightarrow>
          if isStackPtr (ma_ptrVal m)
          then setStack ps (sint (getPtrOffset (ma_ptrVal m))) (ma_size m) (do_output op) cond
          else if isTainted (ma_ptrVal m) then Some (untrackedStackAccess ps)
          else if isStackPtr (do_output op) \<or> isTainted (do_output op) then Some (untrackedStackAccess ps)
          else Some ps
      | DlImm _ \<Rightarrow> throw)"

definition direct_move :: "emu_ret \<Rightarrow> dyn_info \<Rightarrow> program_state \<Rightarrow> program_state option" where
  "direct_move ret di ps =
     (let move = (\<lambda>i j. do { src \<leftarrow> dyn_op di i; out \<leftarrow> dyn_op di j;
                            performDirectMove src out (do_isCondOutput out \<or> di_willExecute di = TUnknown) ps })
      in case ret of
           EmuMov10 \<Rightarrow> move 1 0 | EmuMov02 \<Rightarrow> move 0 2 | EmuMov20 \<Rightarrow> move 2 0 | EmuOk \<Rightarrow> Some ps)"

text \<open>The new state, and the information that is cached when the caller asks for it.\<close>

definition emulate :: "rw_env \<Rightarrow> instruction \<Rightarrow> program_state \<Rightarrow> (dyn_info \<times> program_state) option" where
  "emulate env ins ps =
     do { (di, ps) \<leftarrow> genDynInfo env ins ps;
          if di_willExecute di = TFalse then Some (di, ps)
          else if di_nasty di then do { ps \<leftarrow> nastyInstruction ps; Some (di, ps) }
          else do {
            oc \<leftarrow> in_info ins;
            (ret, di) \<leftarrow> choose_emulator (env_cpu env) oc di;
            ps \<leftarrow> for_each (di_operands di) (write_output (di_willExecute di)) ps;
            ps \<leftarrow> direct_move ret di ps;
            Some (di, ps) } }"

end
