(* ===== verification/Icfg.thy ===== *)
theory Icfg
  imports Instr
begin

text \<open>
  The graph the passes work on (\<open>src/Node.hpp\<close>, \<open>src/SuperBlock.hpp\<close>, \<open>src/SuperBlock.cpp\<close>,
  \<open>src/Function.hpp\<close>, \<open>src/Function.cpp\<close>, \<open>src/ICFG.hpp\<close>). Functions, blocks, instructions and
  edges are objects other objects point to and that are changed in place, so the model is a
  store: one partial map per class, from addresses to objects, and every method is a function
  on the store. Following a pointer to an object that was deleted, a failed assertion and an
  exception are all None.
\<close>

section \<open>Objects\<close>

record node =
  nd_visited :: bool
  nd_livenessValid :: bool
  nd_stackValid :: bool
  nd_queued :: bool

definition node_init :: node where
  "node_init = \<lparr>nd_visited = False, nd_livenessValid = False, nd_stackValid = False, nd_queued = False\<rparr>"

record liveness_data =
  ld_out :: mask
  ld_in :: mask

text \<open>An instruction as an object: the edges and the analysis data attached to it.\<close>

record instr =
  is_ins :: instruction
  is_itext :: u64
  is_ilen :: byte
  is_reencode :: bool
  is_branchEdge :: "nat option"
  is_callEdge :: "nat option"
  is_returnEdge :: "nat option"
  is_dynInfo :: "dyn_info option"
  is_liveness :: "liveness_data option"

record branch_edge =
  be_dst :: nat
  be_src :: nat
  be_instr :: nat
  be_invalidated :: bool

record call_edge =
  ce_dst :: nat
  ce_src :: nat
  ce_instr :: nat
  ce_invalidated :: bool

record return_edge =
  re_dst :: nat
  re_src :: nat
  re_instr :: nat
  re_invalidated :: bool

record super_block =
  sb_node :: node
  sb_function :: nat
  sb_instrs :: "nat list"
  sb_next :: "nat option"
  sb_prev :: "nat option"
  sb_in :: "nat list"       \<comment> \<open>\<open>incomingEdges\<close>\<close>
  sb_out :: "nat list"      \<comment> \<open>\<open>outgoingEdges\<close>\<close>
  sb_entryState :: "program_state option"
  sb_liveness :: "liveness_data option"

record reg_operands =
  ro_in :: mask
  ro_out :: mask
  ro_preserved :: mask

record func =
  fn_node :: node
  fn_itext :: u64
  fn_entry :: "nat option"
  fn_blocks :: "nat list"
  fn_in :: "nat list"
  fn_out :: "nat list"
  fn_returns :: "nat list"
  fn_info :: "reg_operands option"   \<comment> \<open>the registers of the \<open>FunctionSpecification\<close>\<close>

record icfg =
  ic_node :: node
  ic_entry :: "nat option"
  ic_functions :: "nat list"
  ic_fn :: "nat \<rightharpoonup> func"
  ic_sb :: "nat \<rightharpoonup> super_block"
  ic_is :: "nat \<rightharpoonup> instr"
  ic_be :: "nat \<rightharpoonup> branch_edge"
  ic_ce :: "nat \<rightharpoonup> call_edge"
  ic_re :: "nat \<rightharpoonup> return_edge"
  ic_fresh :: nat   \<comment> \<open>no object at this address or above\<close>

definition icfg_init :: icfg where
  "icfg_init = \<lparr>ic_node = node_init, ic_entry = None, ic_functions = [], ic_fn = Map.empty, ic_sb = Map.empty,
     ic_is = Map.empty, ic_be = Map.empty, ic_ce = Map.empty, ic_re = Map.empty, ic_fresh = 0\<rparr>"

section \<open>The store\<close>

definition upd_fn :: "nat \<Rightarrow> (func \<Rightarrow> func) \<Rightarrow> icfg \<Rightarrow> icfg option" where
  "upd_fn a f g = do { x \<leftarrow> ic_fn g a; Some (g\<lparr>ic_fn := (ic_fn g)(a \<mapsto> f x)\<rparr>) }"

definition upd_sb :: "nat \<Rightarrow> (super_block \<Rightarrow> super_block) \<Rightarrow> icfg \<Rightarrow> icfg option" where
  "upd_sb a f g = do { x \<leftarrow> ic_sb g a; Some (g\<lparr>ic_sb := (ic_sb g)(a \<mapsto> f x)\<rparr>) }"

definition upd_is :: "nat \<Rightarrow> (instr \<Rightarrow> instr) \<Rightarrow> icfg \<Rightarrow> icfg option" where
  "upd_is a f g = do { x \<leftarrow> ic_is g a; Some (g\<lparr>ic_is := (ic_is g)(a \<mapsto> f x)\<rparr>) }"

definition upd_be :: "nat \<Rightarrow> (branch_edge \<Rightarrow> branch_edge) \<Rightarrow> icfg \<Rightarrow> icfg option" where
  "upd_be a f g = do { x \<leftarrow> ic_be g a; Some (g\<lparr>ic_be := (ic_be g)(a \<mapsto> f x)\<rparr>) }"

definition upd_ce :: "nat \<Rightarrow> (call_edge \<Rightarrow> call_edge) \<Rightarrow> icfg \<Rightarrow> icfg option" where
  "upd_ce a f g = do { x \<leftarrow> ic_ce g a; Some (g\<lparr>ic_ce := (ic_ce g)(a \<mapsto> f x)\<rparr>) }"

definition upd_re :: "nat \<Rightarrow> (return_edge \<Rightarrow> return_edge) \<Rightarrow> icfg \<Rightarrow> icfg option" where
  "upd_re a f g = do { x \<leftarrow> ic_re g a; Some (g\<lparr>ic_re := (ic_re g)(a \<mapsto> f x)\<rparr>) }"

lemmas upd_defs = upd_fn_def upd_sb_def upd_is_def upd_be_def upd_ce_def upd_re_def

definition new_sb :: "super_block \<Rightarrow> icfg \<Rightarrow> nat \<times> icfg" where
  "new_sb x g = (ic_fresh g, g\<lparr>ic_sb := (ic_sb g)(ic_fresh g \<mapsto> x), ic_fresh := ic_fresh g + 1\<rparr>)"

definition new_is :: "instr \<Rightarrow> icfg \<Rightarrow> nat \<times> icfg" where
  "new_is x g = (ic_fresh g, g\<lparr>ic_is := (ic_is g)(ic_fresh g \<mapsto> x), ic_fresh := ic_fresh g + 1\<rparr>)"

definition new_be :: "branch_edge \<Rightarrow> icfg \<Rightarrow> nat \<times> icfg" where
  "new_be x g = (ic_fresh g, g\<lparr>ic_be := (ic_be g)(ic_fresh g \<mapsto> x), ic_fresh := ic_fresh g + 1\<rparr>)"

definition new_ce :: "call_edge \<Rightarrow> icfg \<Rightarrow> nat \<times> icfg" where
  "new_ce x g = (ic_fresh g, g\<lparr>ic_ce := (ic_ce g)(ic_fresh g \<mapsto> x), ic_fresh := ic_fresh g + 1\<rparr>)"

definition new_re :: "return_edge \<Rightarrow> icfg \<Rightarrow> nat \<times> icfg" where
  "new_re x g = (ic_fresh g, g\<lparr>ic_re := (ic_re g)(ic_fresh g \<mapsto> x), ic_fresh := ic_fresh g + 1\<rparr>)"

lemmas new_defs = new_sb_def new_is_def new_be_def new_ce_def new_re_def

section \<open>Validity of the analyses\<close>

text \<open>
  A node whose analysis is invalidated passes this on to its parent, unless it was invalid
  already. The parent of a block is its function and the parent of that the graph.
\<close>

datatype analysis = AnStack | AnLiveness

primrec analysis_valid :: "analysis \<Rightarrow> node \<Rightarrow> bool" where
  "analysis_valid AnStack nd = nd_stackValid nd"
| "analysis_valid AnLiveness nd = nd_livenessValid nd"

primrec set_invalid :: "analysis \<Rightarrow> node \<Rightarrow> node" where
  "set_invalid AnStack nd = nd\<lparr>nd_stackValid := False\<rparr>"
| "set_invalid AnLiveness nd = nd\<lparr>nd_livenessValid := False\<rparr>"

definition invalidate_icfg :: "analysis \<Rightarrow> icfg \<Rightarrow> icfg" where
  "invalidate_icfg an g =
     (if analysis_valid an (ic_node g) then g\<lparr>ic_node := set_invalid an (ic_node g)\<rparr> else g)"

definition invalidate_fn :: "analysis \<Rightarrow> nat \<Rightarrow> icfg \<Rightarrow> icfg option" where
  "invalidate_fn an f g =
     do { fn \<leftarrow> ic_fn g f;
          if analysis_valid an (fn_node fn) then
            do { g \<leftarrow> upd_fn f (\<lambda>fn. fn\<lparr>fn_node := set_invalid an (fn_node fn)\<rparr>) g;
                 Some (invalidate_icfg an g) }
          else Some g }"

definition invalidate_sb :: "analysis \<Rightarrow> nat \<Rightarrow> icfg \<Rightarrow> icfg option" where
  "invalidate_sb an b g =
     do { sb \<leftarrow> ic_sb g b;
          if analysis_valid an (sb_node sb) then
            do { g \<leftarrow> upd_sb b (\<lambda>sb. sb\<lparr>sb_node := set_invalid an (sb_node sb)\<rparr>) g;
                 invalidate_fn an (sb_function sb) g }
          else Some g }"

section \<open>Instructions as objects\<close>

definition has_type :: "control_flow_type \<Rightarrow> instr \<Rightarrow> bool" where
  "has_type t i = (case in_info (is_ins i) of Some oc \<Rightarrow> oc_type oc = t | None \<Rightarrow> False)"

definition isBranch :: "instr \<Rightarrow> bool" where "isBranch = has_type CfBranch"
definition isCall :: "instr \<Rightarrow> bool" where "isCall = has_type CfCall"
definition isRet :: "instr \<Rightarrow> bool" where "isRet = has_type CfRet"

lemma one_type: "isBranch i \<Longrightarrow> \<not> isCall i" "isBranch i \<Longrightarrow> \<not> isRet i" "isCall i \<Longrightarrow> \<not> isRet i"
  "isCall i \<Longrightarrow> \<not> isBranch i" "isRet i \<Longrightarrow> \<not> isBranch i" "isRet i \<Longrightarrow> \<not> isCall i"
  by (auto simp: isBranch_def isCall_def isRet_def has_type_def split: option.splits)

definition getPredicate :: "instr \<Rightarrow> predicate option" where
  "getPredicate i = (case in_info (is_ins i) of Some oc \<Rightarrow> oc_predicate oc | None \<Rightarrow> None)"

definition getBranchEdge :: "instr \<Rightarrow> nat option option" where
  "getBranchEdge i = do { drob_assert (isBranch i); Some (is_branchEdge i) }"

definition getCallEdge :: "instr \<Rightarrow> nat option option" where
  "getCallEdge i = do { drob_assert (isCall i); Some (is_callEdge i) }"

definition getReturnEdge :: "instr \<Rightarrow> nat option option" where
  "getReturnEdge i = do { drob_assert (isRet i); Some (is_returnEdge i) }"

definition setBranchEdge :: "nat option \<Rightarrow> instr \<Rightarrow> instr option" where
  "setBranchEdge e i = do { drob_assert (isBranch i); Some (i\<lparr>is_branchEdge := e\<rparr>) }"

definition setCallEdge :: "nat option \<Rightarrow> instr \<Rightarrow> instr option" where
  "setCallEdge e i = do { drob_assert (isCall i); Some (i\<lparr>is_callEdge := e\<rparr>) }"

definition setReturnEdge :: "nat option \<Rightarrow> instr \<Rightarrow> instr option" where
  "setReturnEdge e i = do { drob_assert (isRet i); Some (i\<lparr>is_returnEdge := e\<rparr>) }"

text \<open>Any change throws away what was computed for the instruction.\<close>

definition modified :: "instr \<Rightarrow> instr" where
  "modified i = i\<lparr>is_reencode := True, is_dynInfo := None, is_liveness := None\<rparr>"

definition setOpcode :: "opcode \<Rightarrow> instr \<Rightarrow> instr" where
  "setOpcode opc i = (modified i)\<lparr>is_ins :=
     (is_ins i)\<lparr>in_opcode := opc, in_info := arch_get_opcode_info opc\<rparr>\<rparr>"

definition getNumOperands :: "instr \<Rightarrow> nat" where
  "getNumOperands i = (case in_info (is_ins i) of Some oc \<Rightarrow> length (oc_opInfo oc) | None \<Rightarrow> 0)"

abbreviation "ARCH_MAX_OPERANDS \<equiv> 3 :: nat"

definition setOperand :: "nat \<Rightarrow> static_operand \<Rightarrow> instr \<Rightarrow> instr option" where
  "setOperand idx op i =
     do { drob_assert (idx < ARCH_MAX_OPERANDS);
          Some ((modified i)\<lparr>is_ins := (is_ins i)\<lparr>in_operands := (in_operands (is_ins i))[idx := op]\<rparr>\<rparr>) }"

definition clear_instr :: "instr \<Rightarrow> instr" where
  "clear_instr i = (modified i)\<lparr>is_ins := (is_ins i)\<lparr>in_opcode := NONE, in_info := None\<rparr>\<rparr>"

text \<open>The constructor for new code, and the copy, which takes neither edges nor analysis data.\<close>

definition new_instruction :: "opcode \<Rightarrow> static_operand list \<Rightarrow> instr" where
  "new_instruction opc ops =
     \<lparr>is_ins = \<lparr>in_opcode = opc, in_operands = ops, in_info = arch_get_opcode_info opc\<rparr>,
      is_itext = 0, is_ilen = 0, is_reencode = True,
      is_branchEdge = None, is_callEdge = None, is_returnEdge = None, is_dynInfo = None, is_liveness = None\<rparr>"

definition copy_instruction :: "instr \<Rightarrow> instr" where
  "copy_instruction i = i\<lparr>is_branchEdge := None, is_callEdge := None, is_returnEdge := None,
     is_dynInfo := None, is_liveness := None\<rparr>"

end
