(* ===== verification/Config.thy ===== *)
theory Config
  imports Mem_Prot
begin

text \<open>
  The configuration the user builds: \<open>drob_cfg\<close> and its parameters
  (\<open>include/drob.h\<close>, \<open>src/drob_internal.h\<close>), and the functions of \<open>src/drob.c\<close> that
  create and fill it. These are C functions: they return \<open>NULL\<close> or a negative error number.
  An access outside the parameter array is undefined in C and is \<open>None\<close> here.
\<close>

section \<open>Types\<close>

text \<open>A value of the enumeration from \<open>DROB_PARAM_TYPE_MAX\<close> on is \<open>TyOther\<close>.\<close>

datatype param_type = TyVoid | TyBool | TyChar | TyUchar | TyShort | TyUshort | TyInt | TyUint
  | TyLong | TyUlong | TyLonglong | TyUlonglong | TyInt8 | TyInt16 | TyInt32 | TyInt64
  | TyUint8 | TyUint16 | TyUint32 | TyUint64 | TyInt128 | TyUint128 | TyFloat | TyDouble
  | TyM128 | TyFloat128 | TyPtr | TyOther u32

datatype ptr_flag = FlagConst | FlagRestrict | FlagNotnull | FlagOther u32

datatype error_handling = ReturnNull | ReturnOriginal | Abort | HandlingOther u32

datatype param_state = ParamUnknown | ParamConst

text \<open>
  The union of the values is its 16 bytes, the first one lowest; a member is its first
  bytes.
\<close>

record param_cfg =
  pc_type :: param_type
  pc_state :: param_state
  pc_value :: u128
  pc_ptr_flags :: u64
  pc_ptr_align :: u16

record drob_cfg =
  dc_ret :: param_type
  dc_count :: int
  dc_params :: "param_cfg list"
  dc_range_count :: int
  dc_ranges :: "mem_cfg list option"   \<comment> \<open>None is the null pointer\<close>
  dc_fail :: bool
  dc_handling :: error_handling
  dc_unroll :: u16

abbreviation EINVAL :: int where "EINVAL \<equiv> 22"
abbreviation ENOMEM :: int where "ENOMEM \<equiv> 12"

text \<open>The size of the member of the union that belongs to a type, in bytes.\<close>

fun member_size :: "param_type \<Rightarrow> nat" where
  "member_size t =
     (if t \<in> {TyBool, TyChar, TyUchar, TyInt8, TyUint8} then 1
      else if t \<in> {TyShort, TyUshort, TyInt16, TyUint16} then 2
      else if t \<in> {TyInt, TyUint, TyInt32, TyUint32, TyFloat} then 4
      else if t \<in> {TyInt128, TyUint128, TyM128, TyFloat128} then 16
      else 8)"

definition set_member :: "param_type \<Rightarrow> u128 \<Rightarrow> u128 \<Rightarrow> u128" where
  "set_member t v old = (let n = 8 * member_size t in or (take_bit n v) (and old (not (mask n))))"

section \<open>Creating a configuration\<close>

text \<open>
  Whether an allocation of a number of bytes succeeds, and what the memory holds then, are
  parameters. The arguments after the fixed ones are a list; taking more is undefined.
\<close>

type_synonym allocator = "nat \<Rightarrow> bool"

definition param_size :: nat where
  "param_size = 48"

primrec new_params_loop :: "nat \<Rightarrow> param_type list \<Rightarrow> param_cfg list \<Rightarrow> param_cfg list option option" where
  "new_params_loop 0 args junk = Some (Some [])"
| "new_params_loop (Suc n) args junk =
     (case (args, junk) of
        (t # args, p # junk) \<Rightarrow>
          (if \<exists>x. t = TyOther x then Some None
           else if t = TyVoid then Some None
           else do { rest \<leftarrow> new_params_loop n args junk;
                     Some (map_option ((#) (p\<lparr>pc_type := t, pc_state := ParamUnknown\<rparr>)) rest) })
      | _ \<Rightarrow> None)"

definition param_cfg_new_va :: "allocator \<Rightarrow> (nat \<Rightarrow> param_cfg) \<Rightarrow> nat \<Rightarrow> param_type list \<Rightarrow>
    param_cfg list option option" where
  "param_cfg_new_va can junk cnt args =
     (if can (cnt * param_size) then new_params_loop cnt args (map junk [0..<cnt]) else Some None)"

definition drob_cfg_size :: nat where
  "drob_cfg_size = 48"

text \<open>\<open>memset\<close> clears everything; the enumerator 0 of the return type is \<open>void\<close>.\<close>

definition cfg_cleared :: drob_cfg where
  "cfg_cleared = \<lparr>dc_ret = TyVoid, dc_count = 0, dc_params = [], dc_range_count = 0, dc_ranges = None,
     dc_fail = False, dc_handling = ReturnNull, dc_unroll = 0\<rparr>"

definition drob_cfg_new_va :: "allocator \<Rightarrow> (nat \<Rightarrow> param_cfg) \<Rightarrow> param_type \<Rightarrow> u32 \<Rightarrow> param_type list \<Rightarrow>
    drob_cfg option option" where
  "drob_cfg_new_va can junk ret cnt args =
     (if can drob_cfg_size then
        do { ps \<leftarrow> param_cfg_new_va can junk (unat cnt) args;
             Some (map_option (\<lambda>ps. cfg_cleared\<lparr>dc_ret := ret, dc_count := sint cnt, dc_params := ps,
                                 dc_unroll := 10\<rparr>) ps) }
      else Some None)"

definition drob_cfg_new :: "allocator \<Rightarrow> (nat \<Rightarrow> param_cfg) \<Rightarrow> param_type \<Rightarrow> u32 \<Rightarrow> param_type list \<Rightarrow>
    drob_cfg option option" where
  "drob_cfg_new can junk ret cnt args = drob_cfg_new_va can junk ret cnt args"

definition drob_cfg_new0 where "drob_cfg_new0 can junk ret args = drob_cfg_new_va can junk ret 0 args"
definition drob_cfg_new1 where "drob_cfg_new1 can junk ret args = drob_cfg_new_va can junk ret 1 args"
definition drob_cfg_new2 where "drob_cfg_new2 can junk ret args = drob_cfg_new_va can junk ret 2 args"
definition drob_cfg_new3 where "drob_cfg_new3 can junk ret args = drob_cfg_new_va can junk ret 3 args"
definition drob_cfg_new4 where "drob_cfg_new4 can junk ret args = drob_cfg_new_va can junk ret 4 args"
definition drob_cfg_new5 where "drob_cfg_new5 can junk ret args = drob_cfg_new_va can junk ret 5 args"

section \<open>Setting parameters\<close>

text \<open>
  \<open>params[nr]\<close>, which is undefined outside the array, and the checks all setters begin
  with. The first test is the code's: it lets the number of parameters and every negative
  number through.
\<close>

definition param_at :: "drob_cfg \<Rightarrow> int \<Rightarrow> param_cfg option" where
  "param_at cfg nr =
     (if 0 \<le> nr \<and> nat nr < length (dc_params cfg) then Some (dc_params cfg ! nat nr) else None)"

definition put_param :: "int \<Rightarrow> param_cfg \<Rightarrow> drob_cfg \<Rightarrow> drob_cfg" where
  "put_param nr p cfg = cfg\<lparr>dc_params := (dc_params cfg)[nat nr := p]\<rparr>"

text \<open>The functions the macro \<open>DEF_DROB_CFG_SET_PARAM\<close> makes, one for each type.\<close>

definition drob_cfg_set_param :: "param_type \<Rightarrow> drob_cfg \<Rightarrow> int \<Rightarrow> u128 \<Rightarrow> (int \<times> drob_cfg) option" where
  "drob_cfg_set_param t cfg nr v =
     (if nr > dc_count cfg then Some (- EINVAL, cfg)
      else do { p \<leftarrow> param_at cfg nr;
                if pc_type p \<noteq> t then Some (- EINVAL, cfg)
                else Some (0, put_param nr
                       (p\<lparr>pc_value := set_member t v (pc_value p), pc_state := ParamConst\<rparr>) cfg) })"

fun ptr_flag_bit :: "ptr_flag \<Rightarrow> nat option" where
  "ptr_flag_bit FlagConst = Some 0"
| "ptr_flag_bit FlagRestrict = Some 1"
| "ptr_flag_bit FlagNotnull = Some 2"
| "ptr_flag_bit (FlagOther _) = None"

definition drob_cfg_set_ptr_flag :: "drob_cfg \<Rightarrow> int \<Rightarrow> ptr_flag \<Rightarrow> (int \<times> drob_cfg) option" where
  "drob_cfg_set_ptr_flag cfg nr flag =
     (if nr > dc_count cfg then Some (- EINVAL, cfg)
      else do { p \<leftarrow> param_at cfg nr;
                if pc_type p \<noteq> TyPtr then Some (- EINVAL, cfg)
                else case ptr_flag_bit flag of
                       None \<Rightarrow> Some (- EINVAL, cfg)
                     | Some k \<Rightarrow> Some (0, put_param nr (p\<lparr>pc_ptr_flags := set_bit k (pc_ptr_flags p)\<rparr>) cfg) })"

definition IS_POWER_OF_2 :: "u16 \<Rightarrow> bool" where
  "IS_POWER_OF_2 x \<longleftrightarrow> x \<noteq> 0 \<and> and x (x - 1) = 0"

definition drob_cfg_set_ptr_align :: "drob_cfg \<Rightarrow> int \<Rightarrow> u16 \<Rightarrow> (int \<times> drob_cfg) option" where
  "drob_cfg_set_ptr_align cfg nr al =
     (if nr > dc_count cfg then Some (- EINVAL, cfg)
      else do { p \<leftarrow> param_at cfg nr;
                if pc_type p \<noteq> TyPtr then Some (- EINVAL, cfg)
                else if al \<noteq> 0 \<and> \<not> IS_POWER_OF_2 al then Some (- EINVAL, cfg)
                else Some (0, put_param nr (p\<lparr>pc_ptr_align := al\<rparr>) cfg) })"

section \<open>Other settings\<close>

text \<open>The ranges are 16 bytes each; a failing \<open>realloc\<close> leaves the old ones alone.\<close>

definition drob_cfg_add_const_range :: "allocator \<Rightarrow> drob_cfg \<Rightarrow> u64 \<Rightarrow> u64 \<Rightarrow> int \<times> drob_cfg" where
  "drob_cfg_add_const_range can cfg start sz =
     (case dc_ranges cfg of
        Some rs \<Rightarrow>
          if can (nat (dc_range_count cfg + 1) * 16)
          then (0, cfg\<lparr>dc_ranges := Some (rs @ [\<lparr>mc_start = start, mc_size = sz\<rparr>]),
                       dc_range_count := dc_range_count cfg + 1\<rparr>)
          else (- ENOMEM, cfg)
      | None \<Rightarrow>
          if can 16
          then (0, cfg\<lparr>dc_ranges := Some [\<lparr>mc_start = start, mc_size = sz\<rparr>], dc_range_count := 1\<rparr>)
          else (- ENOMEM, cfg))"

definition drob_cfg_fail_on_unmodelled :: "drob_cfg \<Rightarrow> bool \<Rightarrow> drob_cfg" where
  "drob_cfg_fail_on_unmodelled cfg fail = cfg\<lparr>dc_fail := fail\<rparr>"

definition drob_cfg_set_simple_loop_unroll_count :: "drob_cfg \<Rightarrow> u16 \<Rightarrow> drob_cfg" where
  "drob_cfg_set_simple_loop_unroll_count cfg cnt = cfg\<lparr>dc_unroll := cnt\<rparr>"

definition drob_cfg_set_error_handling :: "drob_cfg \<Rightarrow> error_handling \<Rightarrow> drob_cfg" where
  "drob_cfg_set_error_handling cfg h = cfg\<lparr>dc_handling := h\<rparr>"

section \<open>Logging\<close>

text \<open>The log level is the enumerator's number. Without \<open>DEBUG\<close> it stops at warnings.\<close>

record logging =
  lg_level :: nat
  lg_file :: nat

definition drob_set_logging :: "bool \<Rightarrow> nat option \<Rightarrow> nat \<Rightarrow> logging \<Rightarrow> int \<times> logging" where
  "drob_set_logging debug file level lg =
     (case file of
        None \<Rightarrow> (- EINVAL, lg)
      | Some f \<Rightarrow>
          if level > 4 then (- EINVAL, lg)
          else (0, \<lparr>lg_level = (if \<not> debug \<and> level \<ge> 2 then 2 else level), lg_file = f\<rparr>))"

section \<open>Well-formed configurations\<close>

definition param_ok :: "param_type \<Rightarrow> bool" where
  "param_ok t \<longleftrightarrow> t \<noteq> TyVoid \<and> (case t of TyOther _ \<Rightarrow> False | _ \<Rightarrow> True)"

definition cfg_ok :: "drob_cfg \<Rightarrow> bool" where
  "cfg_ok cfg \<longleftrightarrow>
     dc_count cfg = int (length (dc_params cfg)) \<and> list_all (\<lambda>p. param_ok (pc_type p)) (dc_params cfg) \<and>
     dc_range_count cfg = (case dc_ranges cfg of None \<Rightarrow> 0 | Some rs \<Rightarrow> int (length rs)) \<and>
     dc_ranges cfg \<noteq> Some []"

lemma new_params_loop_spec:
  "length junk = n \<Longrightarrow> new_params_loop n args junk = Some (Some ps) \<Longrightarrow>
   length ps = n \<and> map pc_type ps = take n args \<and> n \<le> length args \<and>
   list_all (\<lambda>p. param_ok (pc_type p) \<and> pc_state p = ParamUnknown) ps"
proof (induction n arbitrary: args junk ps)
  case (Suc n)
  obtain j js where j: "junk = j # js" "length js = n" using Suc.prems(1) by (cases junk) auto
  obtain t as where a: "args = t # as" using Suc.prems(2) by (cases args) auto
  have t: "\<forall>x. t \<noteq> TyOther x" "t \<noteq> TyVoid" using Suc.prems(2) a j by (auto split: if_splits)
  then obtain qs where q: "new_params_loop n as js = Some (Some qs)"
    "ps = j\<lparr>pc_type := t, pc_state := ParamUnknown\<rparr> # qs"
    using Suc.prems(2) a j by (auto simp: bind_eq_Some_conv)
  show ?case using Suc.IH[OF j(2) q(1)] q(2) a t by (auto simp: param_ok_def split: param_type.split)
qed simp

lemma cfg_new_ok:
  assumes "drob_cfg_new_va can junk ret cnt args = Some (Some cfg)" and "unat cnt < 2 ^ 31"
  shows "cfg_ok cfg" and "map pc_type (dc_params cfg) = take (unat cnt) args" and "dc_ret cfg = ret"
    and "list_all (\<lambda>p. pc_state p = ParamUnknown) (dc_params cfg)"
proof -
  obtain ps where ps: "new_params_loop (unat cnt) args (map junk [0..<unat cnt]) = Some (Some ps)"
    and c: "cfg = cfg_cleared\<lparr>dc_ret := ret, dc_count := sint cnt, dc_params := ps, dc_unroll := 10\<rparr>"
    using assms(1) by (auto simp: drob_cfg_new_va_def param_cfg_new_va_def bind_eq_Some_conv split: if_splits)
  have s: "sint cnt = int (unat cnt)"
  proof -
    have "int (unat cnt) < int (2 ^ 31)" using assms(2) by (simp only: of_nat_less_iff)
    then have "uint cnt < 2 ^ 31" by (simp only: of_nat_power of_nat_numeral of_nat_unat ucast_id uint_nat [symmetric])
    moreover have "- 2147483648 \<le> uint cnt" by (rule order_trans[of _ 0]; simp)
    ultimately show ?thesis by (simp add: sint_uint signed_take_bit_int_eq_self_iff)
  qed
  note * = new_params_loop_spec[OF _ ps]
  show "cfg_ok cfg" "map pc_type (dc_params cfg) = take (unat cnt) args" "dc_ret cfg = ret"
    "list_all (\<lambda>p. pc_state p = ParamUnknown) (dc_params cfg)"
    using * s by (auto simp: c cfg_ok_def cfg_cleared_def list_all_iff)
qed

lemma param_at_ok: "cfg_ok cfg \<Longrightarrow> 0 \<le> nr \<Longrightarrow> nr < dc_count cfg \<Longrightarrow>
  param_at cfg nr = Some (dc_params cfg ! nat nr) \<and> nat nr < length (dc_params cfg)"
  by (auto simp: param_at_def cfg_ok_def)

lemma put_param_ok:
  assumes "cfg_ok cfg" and "param_at cfg nr = Some p" and "pc_type q = pc_type p"
  shows "cfg_ok (put_param nr q cfg)"
proof -
  have "param_ok (pc_type q)"
    using assms by (auto simp: cfg_ok_def param_at_def list_all_iff split: if_splits)
  then show ?thesis
    using assms(1) by (auto simp: cfg_ok_def put_param_def list_all_iff dest!: set_update_subset_insert [THEN subsetD])
qed

end
