(* ===== verification/Converter.thy ===== *)
theory Converter
  imports Icfg Config
begin

text \<open>
  From decoded instructions to the program's own (\<open>src/x86/Converter.cpp\<close>,
  \<open>src/x86/Decoder.cpp\<close>). Decoding itself is done by the library XED: what it says of an
  instruction is a record with a field for each of its functions the code calls, and decoding
  is a parameter. The names of XED are those the code uses, every other one is \<open>OTHER\<close>.
\<close>

section \<open>What XED says of an instruction\<close>

text \<open>The names of registers by kind, each name once.\<close>

datatype xed_gpr64 =
    XED_REG_RAX | XED_REG_RBX | XED_REG_RCX | XED_REG_RDX | XED_REG_RSI | XED_REG_RDI | XED_REG_RBP
    | XED_REG_RSP | XED_REG_R8 | XED_REG_R9 | XED_REG_R10 | XED_REG_R11 | XED_REG_R12 | XED_REG_R13
    | XED_REG_R14 | XED_REG_R15

datatype xed_gpr32 =
    XED_REG_EAX | XED_REG_EBX | XED_REG_ECX | XED_REG_EDX | XED_REG_ESI | XED_REG_EDI | XED_REG_EBP
    | XED_REG_ESP | XED_REG_R8D | XED_REG_R9D | XED_REG_R10D | XED_REG_R11D | XED_REG_R12D | XED_REG_R13D
    | XED_REG_R14D | XED_REG_R15D

datatype xed_gpr16 =
    XED_REG_AX | XED_REG_BX | XED_REG_CX | XED_REG_DX | XED_REG_SI | XED_REG_DI | XED_REG_BP | XED_REG_SP
    | XED_REG_R8W | XED_REG_R9W | XED_REG_R10W | XED_REG_R11W | XED_REG_R12W | XED_REG_R13W | XED_REG_R14W
    | XED_REG_R15W

datatype xed_gpr8 =
    XED_REG_AH | XED_REG_AL | XED_REG_BH | XED_REG_BL | XED_REG_CH | XED_REG_CL | XED_REG_DH | XED_REG_DL
    | XED_REG_SIL | XED_REG_DIL | XED_REG_BPL | XED_REG_SPL | XED_REG_R8B | XED_REG_R9B | XED_REG_R10B
    | XED_REG_R11B | XED_REG_R12B | XED_REG_R13B | XED_REG_R14B | XED_REG_R15B

datatype xed_xmm =
    XED_REG_XMM0 | XED_REG_XMM1 | XED_REG_XMM2 | XED_REG_XMM3 | XED_REG_XMM4 | XED_REG_XMM5 | XED_REG_XMM6
    | XED_REG_XMM7 | XED_REG_XMM8 | XED_REG_XMM9 | XED_REG_XMM10 | XED_REG_XMM11 | XED_REG_XMM12
    | XED_REG_XMM13 | XED_REG_XMM14 | XED_REG_XMM15

datatype xed_reg =
    XedGpr64 xed_gpr64 | XedGpr32 xed_gpr32 | XedGpr16 xed_gpr16 | XedGpr8 xed_gpr8 | XedXmm xed_xmm
  | XED_REG_INVALID | XED_REG_RIP | XED_REG_EIP | XED_REG_OTHER

datatype xed_iclass =
    XED_ICLASS_JCXZ | XED_ICLASS_JNBE | XED_ICLASS_JNB | XED_ICLASS_JB | XED_ICLASS_JBE | XED_ICLASS_JZ
     | XED_ICLASS_JNLE | XED_ICLASS_JNL | XED_ICLASS_JL | XED_ICLASS_JLE | XED_ICLASS_JNZ | XED_ICLASS_JNO
     | XED_ICLASS_JNP | XED_ICLASS_JNS | XED_ICLASS_JO | XED_ICLASS_JP | XED_ICLASS_JS | XED_ICLASS_ADD
     | XED_ICLASS_ADDPD | XED_ICLASS_ADDSD | XED_ICLASS_CALL_NEAR | XED_ICLASS_CMP | XED_ICLASS_JMP
     | XED_ICLASS_LEA | XED_ICLASS_MOV | XED_ICLASS_MOVAPD | XED_ICLASS_MOVSD_XMM | XED_ICLASS_MOVUPD
     | XED_ICLASS_MOVUPS | XED_ICLASS_MULPD | XED_ICLASS_MULSD | XED_ICLASS_POP | XED_ICLASS_PUSH
     | XED_ICLASS_PXOR | XED_ICLASS_RET_NEAR | XED_ICLASS_SHL | XED_ICLASS_SHR | XED_ICLASS_SUB
     | XED_ICLASS_TEST | XED_ICLASS_XOR | XED_ICLASS_LOOPE | XED_ICLASS_LOOPNE | XED_ICLASS_LOOP
     | XED_ICLASS_OTHER

datatype xed_category =
    XED_CATEGORY_NOP | XED_CATEGORY_WIDENOP | XED_CATEGORY_CALL | XED_CATEGORY_UNCOND_BR | XED_CATEGORY_RET
  | XED_CATEGORY_COND_BR | XED_CATEGORY_OTHER

datatype xed_operand =
    XED_OPERAND_AGEN | XED_OPERAND_MEM0 | XED_OPERAND_MEM1 | XED_OPERAND_REG0 | XED_OPERAND_REG1
  | XED_OPERAND_IMM0 | XED_OPERAND_RELBR | XED_OPERAND_OTHER

record xed_mem =
  xm_seg :: xed_reg
  xm_base :: xed_reg
  xm_index :: xed_reg
  xm_scale :: u32
  xm_disp :: u64

record xed_inst =
  xd_dec :: u64                        \<comment> \<open>\<open>_byte_array._dec\<close>\<close>
  xd_length :: u32
  xd_iclass :: xed_iclass
  xd_category :: xed_category
  xd_sse2 :: bool                      \<comment> \<open>the extension is \<open>XED_EXTENSION_SSE2\<close>\<close>
  xd_operand_width :: u32
  xd_operand :: "nat \<Rightarrow> xed_operand"
  xd_reg0 :: xed_reg
  xd_reg1 :: xed_reg
  xd_nmem :: nat
  xd_mem :: "nat \<Rightarrow> xed_mem"
  xd_branch_width :: u32
  xd_branch_disp :: u32
  xd_imm_width :: u32
  xd_imm_signed :: bool
  xd_unsigned_imm :: u64
  xd_signed_imm :: u32
  xd_prefix67 :: bool

section \<open>Operands\<close>

primrec reg_of_gpr64 :: "xed_gpr64 \<Rightarrow> register" where
  "reg_of_gpr64 XED_REG_RAX = Gpr64 GA" | "reg_of_gpr64 XED_REG_RBX = Gpr64 GB"
| "reg_of_gpr64 XED_REG_RCX = Gpr64 GC" | "reg_of_gpr64 XED_REG_RDX = Gpr64 GD"
| "reg_of_gpr64 XED_REG_RSI = Gpr64 GSI" | "reg_of_gpr64 XED_REG_RDI = Gpr64 GDI"
| "reg_of_gpr64 XED_REG_RBP = Gpr64 GBP" | "reg_of_gpr64 XED_REG_RSP = Gpr64 GSP"
| "reg_of_gpr64 XED_REG_R8 = Gpr64 G8" | "reg_of_gpr64 XED_REG_R9 = Gpr64 G9"
| "reg_of_gpr64 XED_REG_R10 = Gpr64 G10" | "reg_of_gpr64 XED_REG_R11 = Gpr64 G11"
| "reg_of_gpr64 XED_REG_R12 = Gpr64 G12" | "reg_of_gpr64 XED_REG_R13 = Gpr64 G13"
| "reg_of_gpr64 XED_REG_R14 = Gpr64 G14" | "reg_of_gpr64 XED_REG_R15 = Gpr64 G15"

primrec reg_of_gpr32 :: "xed_gpr32 \<Rightarrow> register" where
  "reg_of_gpr32 XED_REG_EAX = Gpr32 GA" | "reg_of_gpr32 XED_REG_EBX = Gpr32 GB"
| "reg_of_gpr32 XED_REG_ECX = Gpr32 GC" | "reg_of_gpr32 XED_REG_EDX = Gpr32 GD"
| "reg_of_gpr32 XED_REG_ESI = Gpr32 GSI" | "reg_of_gpr32 XED_REG_EDI = Gpr32 GDI"
| "reg_of_gpr32 XED_REG_EBP = Gpr32 GBP" | "reg_of_gpr32 XED_REG_ESP = Gpr32 GSP"
| "reg_of_gpr32 XED_REG_R8D = Gpr32 G8" | "reg_of_gpr32 XED_REG_R9D = Gpr32 G9"
| "reg_of_gpr32 XED_REG_R10D = Gpr32 G10" | "reg_of_gpr32 XED_REG_R11D = Gpr32 G11"
| "reg_of_gpr32 XED_REG_R12D = Gpr32 G12" | "reg_of_gpr32 XED_REG_R13D = Gpr32 G13"
| "reg_of_gpr32 XED_REG_R14D = Gpr32 G14" | "reg_of_gpr32 XED_REG_R15D = Gpr32 G15"

primrec reg_of_gpr16 :: "xed_gpr16 \<Rightarrow> register" where
  "reg_of_gpr16 XED_REG_AX = Gpr16 GA" | "reg_of_gpr16 XED_REG_BX = Gpr16 GB"
| "reg_of_gpr16 XED_REG_CX = Gpr16 GC" | "reg_of_gpr16 XED_REG_DX = Gpr16 GD"
| "reg_of_gpr16 XED_REG_SI = Gpr16 GSI" | "reg_of_gpr16 XED_REG_DI = Gpr16 GDI"
| "reg_of_gpr16 XED_REG_BP = Gpr16 GBP" | "reg_of_gpr16 XED_REG_SP = Gpr16 GSP"
| "reg_of_gpr16 XED_REG_R8W = Gpr16 G8" | "reg_of_gpr16 XED_REG_R9W = Gpr16 G9"
| "reg_of_gpr16 XED_REG_R10W = Gpr16 G10" | "reg_of_gpr16 XED_REG_R11W = Gpr16 G11"
| "reg_of_gpr16 XED_REG_R12W = Gpr16 G12" | "reg_of_gpr16 XED_REG_R13W = Gpr16 G13"
| "reg_of_gpr16 XED_REG_R14W = Gpr16 G14" | "reg_of_gpr16 XED_REG_R15W = Gpr16 G15"

primrec reg_of_gpr8 :: "xed_gpr8 \<Rightarrow> register" where
  "reg_of_gpr8 XED_REG_AH = Gpr8H HA" | "reg_of_gpr8 XED_REG_AL = Gpr8 GA"
| "reg_of_gpr8 XED_REG_BH = Gpr8H HB" | "reg_of_gpr8 XED_REG_BL = Gpr8 GB"
| "reg_of_gpr8 XED_REG_CH = Gpr8H HC" | "reg_of_gpr8 XED_REG_CL = Gpr8 GC"
| "reg_of_gpr8 XED_REG_DH = Gpr8H HD" | "reg_of_gpr8 XED_REG_DL = Gpr8 GD"
| "reg_of_gpr8 XED_REG_SIL = Gpr8 GSI" | "reg_of_gpr8 XED_REG_DIL = Gpr8 GDI"
| "reg_of_gpr8 XED_REG_BPL = Gpr8 GBP" | "reg_of_gpr8 XED_REG_SPL = Gpr8 GSP"
| "reg_of_gpr8 XED_REG_R8B = Gpr8 G8" | "reg_of_gpr8 XED_REG_R9B = Gpr8 G9"
| "reg_of_gpr8 XED_REG_R10B = Gpr8 G10" | "reg_of_gpr8 XED_REG_R11B = Gpr8 G11"
| "reg_of_gpr8 XED_REG_R12B = Gpr8 G12" | "reg_of_gpr8 XED_REG_R13B = Gpr8 G13"
| "reg_of_gpr8 XED_REG_R14B = Gpr8 G14" | "reg_of_gpr8 XED_REG_R15B = Gpr8 G15"

primrec reg_of_xmm :: "xed_xmm \<Rightarrow> register" where
  "reg_of_xmm XED_REG_XMM0 = XmmReg X0" | "reg_of_xmm XED_REG_XMM1 = XmmReg X1"
| "reg_of_xmm XED_REG_XMM2 = XmmReg X2" | "reg_of_xmm XED_REG_XMM3 = XmmReg X3"
| "reg_of_xmm XED_REG_XMM4 = XmmReg X4" | "reg_of_xmm XED_REG_XMM5 = XmmReg X5"
| "reg_of_xmm XED_REG_XMM6 = XmmReg X6" | "reg_of_xmm XED_REG_XMM7 = XmmReg X7"
| "reg_of_xmm XED_REG_XMM8 = XmmReg X8" | "reg_of_xmm XED_REG_XMM9 = XmmReg X9"
| "reg_of_xmm XED_REG_XMM10 = XmmReg X10" | "reg_of_xmm XED_REG_XMM11 = XmmReg X11"
| "reg_of_xmm XED_REG_XMM12 = XmmReg X12" | "reg_of_xmm XED_REG_XMM13 = XmmReg X13"
| "reg_of_xmm XED_REG_XMM14 = XmmReg X14" | "reg_of_xmm XED_REG_XMM15 = XmmReg X15"

fun translate_reg :: "xed_reg \<Rightarrow> register option" where
  "translate_reg (XedGpr64 r) = Some (reg_of_gpr64 r)"
| "translate_reg (XedGpr32 r) = Some (reg_of_gpr32 r)"
| "translate_reg (XedGpr16 r) = Some (reg_of_gpr16 r)"
| "translate_reg (XedGpr8 r) = Some (reg_of_gpr8 r)"
| "translate_reg (XedXmm r) = Some (reg_of_xmm r)"
| "translate_reg XED_REG_INVALID = Some NoReg"
| "translate_reg _ = None"

definition translate_regop :: "xed_inst \<Rightarrow> nat \<Rightarrow> static_operand option" where
  "translate_regop x i =
     (if i = 0 then map_option SopReg (translate_reg (xd_reg0 x))
      else if i = 1 then map_option SopReg (translate_reg (xd_reg1 x))
      else throw)"

definition direct_operand :: "u64 \<Rightarrow> static_operand" where
  "direct_operand a = SopMem (MpDirect \<lparr>i64_val = a, i64_usrPtrNr = -1, i64_usrPtrOffset = 0\<rparr>)"

definition next_addr :: "xed_inst \<Rightarrow> u64" where
  "next_addr x = xd_dec x + ucast (xd_length x)"

definition translate_memop :: "xed_inst \<Rightarrow> nat \<Rightarrow> static_operand option" where
  "translate_memop x i =
     (let m = xd_mem x i in
      if xm_base m = XED_REG_RIP then Some (direct_operand (next_addr x + xm_disp m))
      else if xm_base m = XED_REG_INVALID \<and> xm_index m = XED_REG_INVALID then
        Some (direct_operand (ucast (ucast (xm_disp m) :: u32)))
      else
        do { b \<leftarrow> translate_reg (xm_base m);
             idx \<leftarrow> translate_reg (xm_index m);
             Some (SopMem (MpSIB b idx \<lparr>s32_val = ucast (xm_disp m), s32_usrPtrNr = -1, s32_usrPtrOffset = 0\<rparr>
               (ucast (xm_scale m)))) })"

definition translate_rel :: "xed_inst \<Rightarrow> static_operand" where
  "translate_rel x = direct_operand (next_addr x + scast (xd_branch_disp x))"

definition translate_imm :: "xed_inst \<Rightarrow> static_operand" where
  "translate_imm x =
     SopImm \<lparr>i64_val = (if \<not> xd_imm_signed x then xd_unsigned_imm x else scast (xd_signed_imm x)),
       i64_usrPtrNr = -1, i64_usrPtrOffset = 0\<rparr>"

definition has_imm :: "xed_inst \<Rightarrow> bool" where
  "has_imm x \<longleftrightarrow> xd_imm_width x \<noteq> 0"

definition is_memop :: "xed_inst \<Rightarrow> nat \<Rightarrow> bool" where
  "is_memop x i \<longleftrightarrow> xd_operand x i \<in> {XED_OPERAND_AGEN, XED_OPERAND_MEM0, XED_OPERAND_MEM1}"

text \<open>The array of operands is not initialised; what is not set is never read.\<close>

type_synonym operands = "static_operand list"

definition translate_m :: "xed_inst \<Rightarrow> operands \<Rightarrow> operands option" where
  "translate_m x ops = do { m \<leftarrow> translate_memop x 0; Some (ops[0 := m]) }"

definition translate_r :: "xed_inst \<Rightarrow> operands \<Rightarrow> operands option" where
  "translate_r x ops = do { r \<leftarrow> translate_regop x 0; Some (ops[0 := r]) }"

definition translate_mr :: "xed_inst \<Rightarrow> operands \<Rightarrow> operands option" where
  "translate_mr x ops = do { m \<leftarrow> translate_memop x 0; r \<leftarrow> translate_regop x 0; Some (ops[0 := m, 1 := r]) }"

definition translate_rm :: "xed_inst \<Rightarrow> operands \<Rightarrow> operands option" where
  "translate_rm x ops = do { r \<leftarrow> translate_regop x 0; m \<leftarrow> translate_memop x 0; Some (ops[0 := r, 1 := m]) }"

definition translate_rr :: "xed_inst \<Rightarrow> operands \<Rightarrow> operands option" where
  "translate_rr x ops = do { r \<leftarrow> translate_regop x 0; s \<leftarrow> translate_regop x 1; Some (ops[0 := r, 1 := s]) }"

definition translate_mi :: "xed_inst \<Rightarrow> operands \<Rightarrow> operands option" where
  "translate_mi x ops = do { m \<leftarrow> translate_memop x 0; Some (ops[0 := m, 1 := translate_imm x]) }"

definition translate_ri :: "xed_inst \<Rightarrow> operands \<Rightarrow> operands option" where
  "translate_ri x ops = do { r \<leftarrow> translate_regop x 0; Some (ops[0 := r, 1 := translate_imm x]) }"

section \<open>Forms of an instruction\<close>

text \<open>
  The opcode, the operands and the row of the table; a null pointer for the row says that the
  instruction is not modelled, the opcode is then \<open>NONE\<close>.
\<close>

type_synonym conversion = "(opcode \<times> operands \<times> opcode_info option) option"

definition return_opcode :: "opcode \<Rightarrow> operands \<Rightarrow> conversion" where
  "return_opcode opc ops = Some (opc, ops, arch_get_opcode_info opc)"

definition unmodelled :: "operands \<Rightarrow> conversion" where
  "unmodelled ops = Some (NONE, ops, None)"

definition convert_rm :: "xed_inst \<Rightarrow> operands \<Rightarrow> opcode \<Rightarrow> conversion" where
  "convert_rm x ops rm = do { ops \<leftarrow> translate_rm x ops; return_opcode rm ops }"

definition convert_rm_rr :: "xed_inst \<Rightarrow> operands \<Rightarrow> opcode \<Rightarrow> opcode \<Rightarrow> conversion" where
  "convert_rm_rr x ops rm rr =
     (if is_memop x 1 then do { ops \<leftarrow> translate_rm x ops; return_opcode rm ops }
      else do { ops \<leftarrow> translate_rr x ops; return_opcode rr ops })"

definition convert_m_r :: "xed_inst \<Rightarrow> operands \<Rightarrow> opcode \<Rightarrow> opcode \<Rightarrow> conversion" where
  "convert_m_r x ops m r =
     (if is_memop x 0 then do { ops \<leftarrow> translate_m x ops; return_opcode m ops }
      else do { ops \<leftarrow> translate_r x ops; return_opcode r ops })"

definition convert_m_r_i :: "xed_inst \<Rightarrow> operands \<Rightarrow> opcode \<Rightarrow> opcode \<Rightarrow> opcode \<Rightarrow> conversion" where
  "convert_m_r_i x ops m r s =
     (if is_memop x 0 then do { ops \<leftarrow> translate_m x ops; return_opcode m ops }
      else if has_imm x then return_opcode s (ops[0 := translate_imm x])
      else do { ops \<leftarrow> translate_r x ops; return_opcode r ops })"

definition convert_mr_rm_rr :: "xed_inst \<Rightarrow> operands \<Rightarrow> opcode \<Rightarrow> opcode \<Rightarrow> opcode \<Rightarrow> conversion" where
  "convert_mr_rm_rr x ops mr rm rr =
     (if is_memop x 1 then do { ops \<leftarrow> translate_rm x ops; return_opcode rm ops }
      else if is_memop x 0 then do { ops \<leftarrow> translate_mr x ops; return_opcode mr ops }
      else do { ops \<leftarrow> translate_rr x ops; return_opcode rr ops })"

definition convert_mr_mi_rr_ri :: "xed_inst \<Rightarrow> operands \<Rightarrow> opcode \<Rightarrow> opcode \<Rightarrow> opcode \<Rightarrow> opcode \<Rightarrow> conversion" where
  "convert_mr_mi_rr_ri x ops mr ms rr rs =
     (if is_memop x 0 then
        if has_imm x then do { ops \<leftarrow> translate_mi x ops; return_opcode ms ops }
        else do { ops \<leftarrow> translate_mr x ops; return_opcode mr ops }
      else if has_imm x then do { ops \<leftarrow> translate_ri x ops; return_opcode rs ops }
      else do { ops \<leftarrow> translate_rr x ops; return_opcode rr ops })"

definition convert_mr_mi_rm_rr_ri :: "xed_inst \<Rightarrow> operands \<Rightarrow> opcode \<Rightarrow> opcode \<Rightarrow> opcode \<Rightarrow> opcode \<Rightarrow> opcode \<Rightarrow>
    conversion" where
  "convert_mr_mi_rm_rr_ri x ops mr ms rm rr rs =
     (if is_memop x 0 then
        if has_imm x then do { ops \<leftarrow> translate_mi x ops; return_opcode ms ops }
        else do { ops \<leftarrow> translate_mr x ops; return_opcode mr ops }
      else if is_memop x 1 then do { ops \<leftarrow> translate_rm x ops; return_opcode rm ops }
      else if has_imm x then do { ops \<leftarrow> translate_ri x ops; return_opcode rs ops }
      else do { ops \<leftarrow> translate_rr x ops; return_opcode rr ops })"

lemmas convert_form_defs = convert_rm_def convert_rm_rr_def convert_m_r_def convert_m_r_i_def convert_mr_rm_rr_def
  convert_mr_mi_rr_ri_def convert_mr_mi_rm_rr_ri_def

section \<open>Instructions\<close>

definition convert_add :: "xed_inst \<Rightarrow> operands \<Rightarrow> conversion" where
  "convert_add x ops =
     (if xd_operand_width x = 8 then
        convert_mr_mi_rm_rr_ri x ops (Add ADD8mr) (Add ADD8mi) (Add ADD8rm) (Add ADD8rr) (Add ADD8ri)
      else if xd_operand_width x = 16 then
        convert_mr_mi_rm_rr_ri x ops (Add ADD16mr) (Add ADD16mi) (Add ADD16rm) (Add ADD16rr) (Add ADD16ri)
      else if xd_operand_width x = 32 then
        convert_mr_mi_rm_rr_ri x ops (Add ADD32mr) (Add ADD32mi) (Add ADD32rm) (Add ADD32rr) (Add ADD32ri)
      else if xd_operand_width x = 64 then
        convert_mr_mi_rm_rr_ri x ops (Add ADD64mr) (Add ADD64mi) (Add ADD64rm) (Add ADD64rr) (Add ADD64ri)
      else unmodelled ops)"

definition convert_addpd :: "xed_inst \<Rightarrow> operands \<Rightarrow> conversion" where
  "convert_addpd x ops = convert_rm_rr x ops (Sse ADDPDrm) (Sse ADDPDrr)"

definition convert_addsd :: "xed_inst \<Rightarrow> operands \<Rightarrow> conversion" where
  "convert_addsd x ops = convert_rm_rr x ops (Sse ADDSDrm) (Sse ADDSDrr)"

definition convert_call :: "xed_inst \<Rightarrow> operands \<Rightarrow> conversion" where
  "convert_call x ops =
     (if xd_prefix67 x then unmodelled ops
      else if xd_branch_width x \<noteq> 0 then return_opcode (Call CALLa) (ops[0 := translate_rel x])
      else convert_m_r x ops (Call CALLm) (Call CALLr))"

definition convert_cmp :: "xed_inst \<Rightarrow> operands \<Rightarrow> conversion" where
  "convert_cmp x ops =
     (if xd_operand_width x = 8 then
        convert_mr_mi_rm_rr_ri x ops (Cmp CMP8mr) (Cmp CMP8mi) (Cmp CMP8rm) (Cmp CMP8rr) (Cmp CMP8ri)
      else if xd_operand_width x = 16 then
        convert_mr_mi_rm_rr_ri x ops (Cmp CMP16mr) (Cmp CMP16mi) (Cmp CMP16rm) (Cmp CMP16rr) (Cmp CMP16ri)
      else if xd_operand_width x = 32 then
        convert_mr_mi_rm_rr_ri x ops (Cmp CMP32mr) (Cmp CMP32mi) (Cmp CMP32rm) (Cmp CMP32rr) (Cmp CMP32ri)
      else if xd_operand_width x = 64 then
        convert_mr_mi_rm_rr_ri x ops (Cmp CMP64mr) (Cmp CMP64mi) (Cmp CMP64rm) (Cmp CMP64rr) (Cmp CMP64ri)
      else throw)"

text \<open>Without the prefix \<open>0x67\<close>; with it there is only \<open>JCXZ\<close>.\<close>

fun jcc_of :: "xed_iclass \<Rightarrow> jcc_opcode option" where
  "jcc_of XED_ICLASS_JNBE = Some JNBEa" | "jcc_of XED_ICLASS_JNB = Some JNBa"
| "jcc_of XED_ICLASS_JB = Some JBa" | "jcc_of XED_ICLASS_JBE = Some JBEa"
| "jcc_of XED_ICLASS_JCXZ = Some JCXZ32a" | "jcc_of XED_ICLASS_JZ = Some JZa"
| "jcc_of XED_ICLASS_JNLE = Some JNLEa" | "jcc_of XED_ICLASS_JNL = Some JNLa"
| "jcc_of XED_ICLASS_JL = Some JLa" | "jcc_of XED_ICLASS_JLE = Some JLEa"
| "jcc_of XED_ICLASS_JNZ = Some JNZa" | "jcc_of XED_ICLASS_JNO = Some JNOa"
| "jcc_of XED_ICLASS_JNP = Some JNPa" | "jcc_of XED_ICLASS_JNS = Some JNSa"
| "jcc_of XED_ICLASS_JO = Some JOa" | "jcc_of XED_ICLASS_JP = Some JPa"
| "jcc_of XED_ICLASS_JS = Some JSa" | "jcc_of _ = None"

definition convert_jcc :: "xed_inst \<Rightarrow> operands \<Rightarrow> conversion" where
  "convert_jcc x ops =
     (let ops = ops[0 := translate_rel x] in
      if xd_prefix67 x then
        if xd_iclass x = XED_ICLASS_JCXZ then return_opcode (Jcc JCXZ64a) ops else unmodelled ops
      else do { opc \<leftarrow> jcc_of (xd_iclass x); return_opcode (Jcc opc) ops })"

definition convert_jmp :: "xed_inst \<Rightarrow> operands \<Rightarrow> conversion" where
  "convert_jmp x ops =
     (if xd_prefix67 x then throw
      else if xd_branch_width x \<noteq> 0 then return_opcode (Jmp JMPa) (ops[0 := translate_rel x])
      else convert_m_r x ops (Jmp JMPm) (Jmp JMPr))"

definition convert_lea :: "xed_inst \<Rightarrow> operands \<Rightarrow> conversion" where
  "convert_lea x ops =
     (if xd_operand_width x = 16 then convert_rm x ops (Lea LEA16ra)
      else if xd_operand_width x = 32 then convert_rm x ops (Lea LEA32ra)
      else if xd_operand_width x = 64 then convert_rm x ops (Lea LEA64ra)
      else throw)"

definition convert_mov :: "xed_inst \<Rightarrow> operands \<Rightarrow> conversion" where
  "convert_mov x ops =
     (if xd_operand_width x = 32 then
        convert_mr_mi_rm_rr_ri x ops (Mov MOV32mr) (Mov MOV32mi) (Mov MOV32rm) (Mov MOV32rr) (Mov MOV32ri)
      else if xd_operand_width x = 64 then
        convert_mr_mi_rm_rr_ri x ops (Mov MOV64mr) (Mov MOV64mi) (Mov MOV64rm) (Mov MOV64rr) (Mov MOV64ri)
      else throw)"

definition convert_movapd :: "xed_inst \<Rightarrow> operands \<Rightarrow> conversion" where
  "convert_movapd x ops = convert_mr_rm_rr x ops (MovX MOVAPDmr) (MovX MOVAPDrm) (MovX MOVAPDrr)"

definition convert_movsd :: "xed_inst \<Rightarrow> operands \<Rightarrow> conversion" where
  "convert_movsd x ops = convert_mr_rm_rr x ops (MovX MOVSDmr) (MovX MOVSDrm) (MovX MOVSDrr)"

definition convert_movupd :: "xed_inst \<Rightarrow> operands \<Rightarrow> conversion" where
  "convert_movupd x ops = convert_mr_rm_rr x ops (MovX MOVUPDmr) (MovX MOVUPDrm) (MovX MOVUPDrr)"

definition convert_movups :: "xed_inst \<Rightarrow> operands \<Rightarrow> conversion" where
  "convert_movups x ops = convert_mr_rm_rr x ops (MovX MOVUPSmr) (MovX MOVUPSrm) (MovX MOVUPSrr)"

definition convert_mulpd :: "xed_inst \<Rightarrow> operands \<Rightarrow> conversion" where
  "convert_mulpd x ops = convert_rm_rr x ops (Sse MULPDrm) (Sse MULPDrr)"

definition convert_mulsd :: "xed_inst \<Rightarrow> operands \<Rightarrow> conversion" where
  "convert_mulsd x ops = convert_rm_rr x ops (Sse MULSDrm) (Sse MULSDrr)"

definition convert_pop :: "xed_inst \<Rightarrow> operands \<Rightarrow> conversion" where
  "convert_pop x ops =
     (if xd_operand_width x = 16 then convert_m_r x ops (Stack POP16m) (Stack POP16r)
      else if xd_operand_width x = 64 then convert_m_r x ops (Stack POP64m) (Stack POP64r)
      else throw)"

definition convert_push :: "xed_inst \<Rightarrow> operands \<Rightarrow> conversion" where
  "convert_push x ops =
     (if xd_operand_width x = 16 then convert_m_r_i x ops (Stack PUSH16m) (Stack PUSH16r) (Stack PUSH16i)
      else if xd_operand_width x = 64 then convert_m_r_i x ops (Stack PUSH64m) (Stack PUSH64r) (Stack PUSH64i)
      else throw)"

definition convert_pxor :: "xed_inst \<Rightarrow> operands \<Rightarrow> conversion" where
  "convert_pxor x ops =
     (if \<not> xd_sse2 x then unmodelled ops else convert_rm_rr x ops (Sse PXOR128rm) (Sse PXOR128rr))"

definition convert_ret :: "xed_inst \<Rightarrow> operands \<Rightarrow> conversion" where
  "convert_ret x ops =
     (if xd_prefix67 x \<or> xd_unsigned_imm x \<noteq> 0 then unmodelled ops else return_opcode (Stack RET) ops)"

definition convert_shl :: "xed_inst \<Rightarrow> operands \<Rightarrow> conversion" where
  "convert_shl x ops =
     (if xd_operand_width x \<noteq> 64 then unmodelled ops
      else if is_memop x 0 then
        if has_imm x then do { ops \<leftarrow> translate_mi x ops; return_opcode (Shift SHL64mi) ops }
        else do { ops \<leftarrow> translate_m x ops; return_opcode (Shift SHL64m) ops }
      else if has_imm x then do { ops \<leftarrow> translate_ri x ops; return_opcode (Shift SHL64ri) ops }
      else do { ops \<leftarrow> translate_r x ops; return_opcode (Shift SHL64r) ops })"

definition convert_shr :: "xed_inst \<Rightarrow> operands \<Rightarrow> conversion" where
  "convert_shr x ops =
     (if xd_operand_width x \<noteq> 64 then unmodelled ops
      else if is_memop x 0 then
        if has_imm x then do { ops \<leftarrow> translate_mi x ops; return_opcode (Shift SHR64mi) ops }
        else do { ops \<leftarrow> translate_m x ops; return_opcode (Shift SHR64m) ops }
      else if has_imm x then do { ops \<leftarrow> translate_ri x ops; return_opcode (Shift SHR64ri) ops }
      else do { ops \<leftarrow> translate_r x ops; return_opcode (Shift SHR64r) ops })"

definition convert_sub :: "xed_inst \<Rightarrow> operands \<Rightarrow> conversion" where
  "convert_sub x ops =
     (if xd_operand_width x = 8 then
        convert_mr_mi_rm_rr_ri x ops (Sub SUB8mr) (Sub SUB8mi) (Sub SUB8rm) (Sub SUB8rr) (Sub SUB8ri)
      else if xd_operand_width x = 16 then
        convert_mr_mi_rm_rr_ri x ops (Sub SUB16mr) (Sub SUB16mi) (Sub SUB16rm) (Sub SUB16rr) (Sub SUB16ri)
      else if xd_operand_width x = 32 then
        convert_mr_mi_rm_rr_ri x ops (Sub SUB32mr) (Sub SUB32mi) (Sub SUB32rm) (Sub SUB32rr) (Sub SUB32ri)
      else if xd_operand_width x = 64 then
        convert_mr_mi_rm_rr_ri x ops (Sub SUB64mr) (Sub SUB64mi) (Sub SUB64rm) (Sub SUB64rr) (Sub SUB64ri)
      else unmodelled ops)"

definition convert_test :: "xed_inst \<Rightarrow> operands \<Rightarrow> conversion" where
  "convert_test x ops =
     (if xd_operand_width x = 8 then
        convert_mr_mi_rr_ri x ops (Test TEST8mr) (Test TEST8mi) (Test TEST8rr) (Test TEST8ri)
      else if xd_operand_width x = 16 then
        convert_mr_mi_rr_ri x ops (Test TEST16mr) (Test TEST16mi) (Test TEST16rr) (Test TEST16ri)
      else if xd_operand_width x = 32 then
        convert_mr_mi_rr_ri x ops (Test TEST32mr) (Test TEST32mi) (Test TEST32rr) (Test TEST32ri)
      else if xd_operand_width x = 64 then
        convert_mr_mi_rr_ri x ops (Test TEST64mr) (Test TEST64mi) (Test TEST64rr) (Test TEST64ri)
      else throw)"

definition convert_xor :: "xed_inst \<Rightarrow> operands \<Rightarrow> conversion" where
  "convert_xor x ops =
     (if xd_operand_width x = 32 then
        convert_mr_mi_rm_rr_ri x ops (Xor XOR32mr) (Xor XOR32mi) (Xor XOR32rm) (Xor XOR32rr) (Xor XOR32ri)
      else if xd_operand_width x = 64 then
        convert_mr_mi_rm_rr_ri x ops (Xor XOR64mr) (Xor XOR64mi) (Xor XOR64rm) (Xor XOR64rr) (Xor XOR64ri)
      else unmodelled ops)"

definition convert_simple :: "xed_inst \<Rightarrow> operands \<Rightarrow> conversion" where
  "convert_simple x ops =
     (case xd_iclass x of
        XED_ICLASS_ADD \<Rightarrow> convert_add x ops | XED_ICLASS_ADDPD \<Rightarrow> convert_addpd x ops
      | XED_ICLASS_ADDSD \<Rightarrow> convert_addsd x ops | XED_ICLASS_CALL_NEAR \<Rightarrow> convert_call x ops
      | XED_ICLASS_CMP \<Rightarrow> convert_cmp x ops | XED_ICLASS_JNBE \<Rightarrow> convert_jcc x ops
      | XED_ICLASS_JNB \<Rightarrow> convert_jcc x ops | XED_ICLASS_JB \<Rightarrow> convert_jcc x ops
      | XED_ICLASS_JBE \<Rightarrow> convert_jcc x ops | XED_ICLASS_JCXZ \<Rightarrow> convert_jcc x ops
      | XED_ICLASS_JZ \<Rightarrow> convert_jcc x ops | XED_ICLASS_JNLE \<Rightarrow> convert_jcc x ops
      | XED_ICLASS_JNL \<Rightarrow> convert_jcc x ops | XED_ICLASS_JL \<Rightarrow> convert_jcc x ops
      | XED_ICLASS_JLE \<Rightarrow> convert_jcc x ops | XED_ICLASS_JNZ \<Rightarrow> convert_jcc x ops
      | XED_ICLASS_JNO \<Rightarrow> convert_jcc x ops | XED_ICLASS_JNP \<Rightarrow> convert_jcc x ops
      | XED_ICLASS_JNS \<Rightarrow> convert_jcc x ops | XED_ICLASS_JO \<Rightarrow> convert_jcc x ops
      | XED_ICLASS_JP \<Rightarrow> convert_jcc x ops | XED_ICLASS_JS \<Rightarrow> convert_jcc x ops
      | XED_ICLASS_JMP \<Rightarrow> convert_jmp x ops | XED_ICLASS_LEA \<Rightarrow> convert_lea x ops
      | XED_ICLASS_MOV \<Rightarrow> convert_mov x ops | XED_ICLASS_MOVAPD \<Rightarrow> convert_movapd x ops
      | XED_ICLASS_MOVSD_XMM \<Rightarrow> convert_movsd x ops | XED_ICLASS_MOVUPD \<Rightarrow> convert_movupd x ops
      | XED_ICLASS_MOVUPS \<Rightarrow> convert_movups x ops | XED_ICLASS_MULPD \<Rightarrow> convert_mulpd x ops
      | XED_ICLASS_MULSD \<Rightarrow> convert_mulsd x ops | XED_ICLASS_POP \<Rightarrow> convert_pop x ops
      | XED_ICLASS_PUSH \<Rightarrow> convert_push x ops | XED_ICLASS_PXOR \<Rightarrow> convert_pxor x ops
      | XED_ICLASS_RET_NEAR \<Rightarrow> convert_ret x ops | XED_ICLASS_SHL \<Rightarrow> convert_shl x ops
      | XED_ICLASS_SHR \<Rightarrow> convert_shr x ops | XED_ICLASS_SUB \<Rightarrow> convert_sub x ops
      | XED_ICLASS_TEST \<Rightarrow> convert_test x ops | XED_ICLASS_XOR \<Rightarrow> convert_xor x ops
      | _ \<Rightarrow> unmodelled ops)"

lemmas convert_defs = convert_add_def convert_addpd_def convert_addsd_def convert_call_def convert_cmp_def convert_jcc_def
  convert_jmp_def convert_lea_def convert_mov_def convert_movapd_def convert_movsd_def convert_movupd_def
  convert_movups_def convert_mulpd_def convert_mulsd_def convert_pop_def convert_push_def convert_pxor_def
  convert_ret_def convert_shl_def convert_shr_def convert_sub_def convert_test_def convert_xor_def

section \<open>Decoding\<close>

datatype decode_ret = DecOk | DecNOP | DecUnhandled | DecUnsupported | DecBroken | DecEOB

definition decoded_instruction :: "u64 \<Rightarrow> byte \<Rightarrow> opcode \<Rightarrow> operands \<Rightarrow> opcode_info option \<Rightarrow> bool \<Rightarrow> instr" where
  "decoded_instruction itext ilen opc ops info reencode =
     \<lparr>is_ins = \<lparr>in_opcode = opc, in_operands = ops, in_info = info\<rparr>,
      is_itext = itext, is_ilen = ilen, is_reencode = reencode,
      is_branchEdge = None, is_callEdge = None, is_returnEdge = None, is_dynInfo = None, is_liveness = None\<rparr>"

definition is_rip_relative :: "xed_inst \<Rightarrow> bool" where
  "is_rip_relative x \<longleftrightarrow> list_ex (\<lambda>i. xm_base (xd_mem x i) \<in> {XED_REG_RIP, XED_REG_EIP}) [0..<xd_nmem x]"

text \<open>\<open>{}\<close> for the operands: all zero.\<close>

definition zero_operands :: operands where
  "zero_operands = [SopReg NoReg, SopReg NoReg, SopReg NoReg]"

text \<open>LOOP becomes LEA, a branch out when the count is zero, one on ZF, and a jump back.\<close>

definition convert_loop :: "xed_inst \<Rightarrow> instr list \<Rightarrow> decode_ret \<times> instr list" where
  "convert_loop x instrs =
     (let ilen = ucast (xd_length x) :: byte;
          is64bit = xd_prefix67 x;
          isLOOPE = (xd_iclass x = XED_ICLASS_LOOPE);
          isLOOPNE = (xd_iclass x = XED_ICLASS_LOOPNE);
          new = (\<lambda>opc ops. decoded_instruction (xd_dec x) ilen opc ops (arch_get_opcode_info opc) True);
          count = (if is64bit then RCX else ECX);
          lea = new (Lea (if is64bit then LEA64ra else LEA32ra))
                  (zero_operands[0 := SopReg count,
                     1 := SopMem (MpSIB count NoReg \<lparr>s32_val = -1, s32_usrPtrNr = -1, s32_usrPtrOffset = 0\<rparr> 0)]);
          out = zero_operands[0 := direct_operand (xd_dec x + ucast ilen)];
          jcxz = new (Jcc (if is64bit then JCXZ64a else JCXZ32a)) out;
          jz = (if isLOOPE \<or> isLOOPNE then [new (Jcc (if isLOOPE then JNZa else JZa)) out] else []);
          jmp = new (Jmp JMPa) (zero_operands[0 := translate_rel x])
      in (DecEOB, instrs @ [lea, jcxz] @ jz @ [jmp]))"

definition convert_decoded :: "drob_cfg \<Rightarrow> operands \<Rightarrow> xed_inst \<Rightarrow> instr list \<Rightarrow> (decode_ret \<times> instr list) option" where
  "convert_decoded cfg stale x instrs =
     (if xd_iclass x \<in> {XED_ICLASS_LOOP, XED_ICLASS_LOOPE, XED_ICLASS_LOOPNE} then Some (convert_loop x instrs)
      else
        do { let reencode = is_rip_relative x;
             (opc, ops, info) \<leftarrow> convert_simple x stale;
             drob_assert (info \<noteq> None \<or> \<not> dc_fail cfg \<and> \<not> reencode);
             let opc = (if info = None then NONE else opc);
             let i = decoded_instruction (xd_dec x) (ucast (xd_length x)) opc ops info reencode;
             case xd_category x of
               XED_CATEGORY_CALL \<Rightarrow> do { drob_assert (info \<noteq> None); Some (DecEOB, instrs @ [i]) }
             | XED_CATEGORY_UNCOND_BR \<Rightarrow> do { drob_assert (info \<noteq> None); Some (DecEOB, instrs @ [i]) }
             | XED_CATEGORY_RET \<Rightarrow> do { drob_assert (info \<noteq> None); Some (DecEOB, instrs @ [i]) }
             | XED_CATEGORY_COND_BR \<Rightarrow> do { drob_assert (info \<noteq> None); Some (DecOk, instrs @ [i]) }
             | _ \<Rightarrow> Some (DecOk, instrs @ [i]) })"

text \<open>\<open>xed_decode\<close> on the bytes at an address, at most so many of them; None is an error.\<close>

type_synonym xed_decode = "u64 \<Rightarrow> u16 \<Rightarrow> xed_inst option"

definition check_segment_override :: "xed_inst \<Rightarrow> unit option" where
  "check_segment_override x = drob_assert (list_all (\<lambda>i. xm_seg (xd_mem x i) = XED_REG_INVALID) [0..<xd_nmem x])"

definition arch_decode_one :: "xed_decode \<Rightarrow> drob_cfg \<Rightarrow> operands \<Rightarrow> u64 \<Rightarrow> u16 \<Rightarrow> instr list \<Rightarrow>
    (decode_ret \<times> u64 \<times> instr list) option" where
  "arch_decode_one xed cfg stale itext max_ilen instrs =
     (case xed itext max_ilen of
        None \<Rightarrow> Some (DecBroken, itext, instrs)
      | Some x \<Rightarrow>
          do { let itext = itext + ucast (ucast (xd_length x) :: byte);
               check_segment_override x;
               if xd_category x \<in> {XED_CATEGORY_NOP, XED_CATEGORY_WIDENOP} then Some (DecNOP, itext, instrs)
               else do { (ret, instrs) \<leftarrow> convert_decoded cfg stale x instrs; Some (ret, itext, instrs) } })"

end
