(* ===== verification/Binary_Pool.thy ===== *)
theory Binary_Pool
  imports Prelude
begin

text \<open>
  The memory generated code and its constants live in (\<open>src/BinaryPool.hpp\<close>,
  \<open>src/BinaryPool.cpp\<close>): one reserved region, instructions growing up from its start and
  constants growing down from its end, each a page at a time. The system call that maps pages
  and the bytes of a padding of NOPs are parameters.
\<close>

section \<open>The model\<close>

abbreviation page_size :: u64 where "page_size \<equiv> 4096"

text \<open>\<open>ALIGN_DOWN\<close>, \<open>ALIGN_UP\<close>, \<open>IS_ALIGNED\<close>, \<open>IS_POWER_OF_2\<close> of \<open>src/Utils.hpp\<close>.\<close>

definition align_down :: "u64 \<Rightarrow> u64 \<Rightarrow> u64" where
  "align_down v s = and v (not (s - 1))"

definition align_up :: "u64 \<Rightarrow> u64 \<Rightarrow> u64" where
  "align_up v s = align_down (v + s - 1) s"

definition is_aligned :: "u64 \<Rightarrow> u64 \<Rightarrow> bool" where
  "is_aligned v s \<longleftrightarrow> and v (s - 1) = 0"

definition is_power_of_2 :: "u64 \<Rightarrow> bool" where
  "is_power_of_2 v \<longleftrightarrow> v \<noteq> 0 \<and> and v (v - 1) = 0"

datatype prot = ProtNone | ProtRW | ProtRWX

text \<open>
  \<open>mmap\<close> with the protection, the address when it is fixed, and the length; the result is the
  address of the mapping, or -1.
\<close>

type_synonym mmap_fn = "prot \<Rightarrow> u64 option \<Rightarrow> u64 \<Rightarrow> u64"

record pool =
  pl_start :: u64      \<comment> \<open>\<open>mmapStart\<close>\<close>
  pl_size :: u64       \<comment> \<open>\<open>mmapSize\<close>\<close>
  pl_instrPage :: u64  \<comment> \<open>\<open>curInstrPage\<close>\<close>
  pl_nextInstr :: u64
  pl_constPage :: u64  \<comment> \<open>\<open>curConstPage\<close>\<close>
  pl_nextConst :: u64
  pl_map64 :: "u64 \<rightharpoonup> u64"
  pl_map128 :: "u128 \<rightharpoonup> u64"
  pl_mem :: "u64 \<Rightarrow> byte"

definition write_bytes :: "u64 \<Rightarrow> byte list \<Rightarrow> (u64 \<Rightarrow> byte) \<Rightarrow> u64 \<Rightarrow> byte" where
  "write_bytes a bs mem x = (if unat (x - a) < length bs then bs ! unat (x - a) else mem x)"

text \<open>Pages that have just been mapped hold zeros.\<close>

definition fresh :: "u64 \<Rightarrow> u64 \<Rightarrow> (u64 \<Rightarrow> byte) \<Rightarrow> u64 \<Rightarrow> byte" where
  "fresh a n mem x = (if unat (x - a) < unat n then 0 else mem x)"

definition resetCodePool :: "mmap_fn \<Rightarrow> pool \<Rightarrow> pool option" where
  "resetCodePool os p =
     do { p \<leftarrow>
            (if pl_instrPage p \<noteq> 0 then
               do { let poolSize = pl_instrPage p + page_size - pl_start p;
                    drob_assert (os ProtNone (Some (pl_start p)) poolSize = pl_start p);
                    Some (p\<lparr>pl_instrPage := 0, pl_nextInstr := 0, pl_mem := fresh (pl_start p) poolSize (pl_mem p)\<rparr>) }
             else Some p);
          let page = os ProtRWX (Some (pl_start p)) page_size;
          drob_assert (page = pl_start p);
          Some (p\<lparr>pl_instrPage := page, pl_nextInstr := page, pl_mem := fresh page page_size (pl_mem p)\<rparr>) }"

definition resetConstantPool :: "mmap_fn \<Rightarrow> pool \<Rightarrow> pool option" where
  "resetConstantPool os p =
     do { let p = p\<lparr>pl_map64 := Map.empty, pl_map128 := Map.empty\<rparr>;
          p \<leftarrow>
            (if pl_constPage p \<noteq> 0 then
               do { let poolSize = pl_start p + pl_size p - pl_constPage p;
                    drob_assert (os ProtNone (Some (pl_constPage p)) poolSize \<noteq> - 1);
                    Some (p\<lparr>pl_constPage := 0, pl_nextConst := 0, pl_mem := fresh (pl_constPage p) poolSize (pl_mem p)\<rparr>) }
             else Some p);
          let tmp = pl_start p + pl_size p - page_size;
          let page = os ProtRW (Some tmp) page_size;
          drob_assert (page = tmp);
          Some (p\<lparr>pl_constPage := page, pl_nextConst := page + page_size - 1, pl_mem := fresh page page_size (pl_mem p)\<rparr>) }"

text \<open>The constructor; the memory holds anything.\<close>

definition newPool :: "mmap_fn \<Rightarrow> (u64 \<Rightarrow> byte) \<Rightarrow> u64 \<Rightarrow> pool option" where
  "newPool os mem mmapSize =
     do { drob_assert (is_aligned mmapSize page_size);
          drob_assert (\<not> mmapSize > 2 ^ 31);
          drob_assert (\<not> mmapSize < 2 * page_size);
          let start = os ProtNone None mmapSize;
          drob_assert (start \<noteq> - 1);
          p \<leftarrow> resetCodePool os
                 \<lparr>pl_start = start, pl_size = mmapSize, pl_instrPage = 0, pl_nextInstr = 0,
                  pl_constPage = 0, pl_nextConst = 0, pl_map64 = Map.empty, pl_map128 = Map.empty, pl_mem = mem\<rparr>;
          resetConstantPool os p }"

definition allocCode :: "mmap_fn \<Rightarrow> u64 \<Rightarrow> pool \<Rightarrow> (u64 \<times> pool) option" where
  "allocCode os sz p =
     do { p \<leftarrow>
            (if align_down (pl_nextInstr p + sz - 1) page_size \<noteq> pl_instrPage p then
               do { let tmp = pl_instrPage p + 1;
                    drob_assert (tmp \<noteq> pl_constPage p);
                    let page = os ProtRWX (Some tmp) page_size;
                    drob_assert (page = tmp);
                    Some (p\<lparr>pl_instrPage := page, pl_mem := fresh page page_size (pl_mem p)\<rparr>) }
             else Some p);
          Some (pl_nextInstr p, p\<lparr>pl_nextInstr := pl_nextInstr p + sz\<rparr>) }"

definition nextCode :: "pool \<Rightarrow> u64" where
  "nextCode p = pl_nextInstr p"

definition newBlock :: "(nat \<Rightarrow> byte list) \<Rightarrow> bool \<Rightarrow> pool \<Rightarrow> u64 \<times> pool" where
  "newBlock nops write_it p =
     (let p = (if \<not> is_aligned (pl_nextInstr p) 16 then
                 let aligned = align_up (pl_nextInstr p) 16;
                     p = (if write_it
                          then p\<lparr>pl_mem := write_bytes (pl_nextInstr p)
                                   (nops (unat (aligned - pl_nextInstr p))) (pl_mem p)\<rparr>
                          else p)
                 in p\<lparr>pl_nextInstr := aligned\<rparr>
               else p)
      in (pl_nextInstr p, p))"

text \<open>The bytes of a constant; its size is the number of bytes.\<close>

definition allocBytes :: "mmap_fn \<Rightarrow> byte list \<Rightarrow> pool \<Rightarrow> (u64 \<times> pool) option" where
  "allocBytes os bs p =
     do { let sz = of_nat (length bs);
          drob_assert (is_power_of_2 sz);
          let current = align_down (pl_nextConst p - sz + 1) sz;
          p \<leftarrow>
            (if align_down current page_size \<noteq> pl_constPage p then
               do { let tmp = pl_constPage p - 1;
                    drob_assert (tmp \<noteq> pl_instrPage p);
                    let page = os ProtRW (Some tmp) page_size;
                    drob_assert (page = tmp);
                    Some (p\<lparr>pl_constPage := page, pl_mem := fresh page page_size (pl_mem p)\<rparr>) }
             else Some p);
          Some (current, p\<lparr>pl_mem := write_bytes current bs (pl_mem p), pl_nextConst := current - 1\<rparr>) }"

definition allocConstant64 :: "mmap_fn \<Rightarrow> u64 \<Rightarrow> pool \<Rightarrow> (u64 \<times> pool) option" where
  "allocConstant64 os v p =
     (case pl_map64 p v of
        Some a \<Rightarrow> Some (a, p)
      | None \<Rightarrow>
          do { (a, p) \<leftarrow> allocBytes os (le_bytes 8 v) p;
               Some (a, p\<lparr>pl_map64 := (pl_map64 p)(v \<mapsto> a)\<rparr>) })"

definition allocConstant128 :: "mmap_fn \<Rightarrow> u128 \<Rightarrow> pool \<Rightarrow> (u64 \<times> pool) option" where
  "allocConstant128 os v p =
     (case pl_map128 p v of
        Some a \<Rightarrow> Some (a, p)
      | None \<Rightarrow>
          do { (a, p) \<leftarrow> allocBytes os (le_bytes 16 v) p;
               Some (a, p\<lparr>pl_map128 := (pl_map128 p)(v \<mapsto> a)\<rparr>) })"

definition allocConstant32 :: "mmap_fn \<Rightarrow> u32 \<Rightarrow> pool \<Rightarrow> (u64 \<times> pool) option" where
  "allocConstant32 os v p = allocBytes os (le_bytes 4 v) p"

definition allocConstant16 :: "mmap_fn \<Rightarrow> u16 \<Rightarrow> pool \<Rightarrow> (u64 \<times> pool) option" where
  "allocConstant16 os v p = allocBytes os (le_bytes 2 v) p"

definition allocConstant8 :: "mmap_fn \<Rightarrow> byte \<Rightarrow> pool \<Rightarrow> (u64 \<times> pool) option" where
  "allocConstant8 os v p = allocBytes os (le_bytes 1 v) p"

definition getEntry :: "pool \<Rightarrow> u64 option" where
  "getEntry p = (if pl_start p \<ge> pl_nextInstr p then throw else Some (pl_start p))"

definition getEndAddr :: "pool \<Rightarrow> u64" where
  "getEndAddr p = pl_start p + pl_size p - 1"

definition isAddrContained :: "pool \<Rightarrow> u64 \<Rightarrow> bool" where
  "isAddrContained p a \<longleftrightarrow> pl_start p \<le> a \<and> a \<le> getEndAddr p"

definition getCodeSize :: "pool \<Rightarrow> u64" where
  "getCodeSize p = pl_nextInstr p - pl_start p"

definition getConstantPoolSize :: "pool \<Rightarrow> u64" where
  "getConstantPoolSize p = pl_start p + pl_size p - 1 - pl_nextConst p"

section \<open>Alignment\<close>

lemma align_down_unat: "unat (align_down v (2 ^ k)) = unat v - unat v mod 2 ^ k" if "k < 64"
proof -
  have "align_down v (2 ^ k) = push_bit k (drop_bit k v)"
    by (rule bit_word_eqI) (use that in \<open>auto simp: align_down_def bit_simps simp flip: mask_eq_exp_minus_1\<close>)
  moreover have "unat (push_bit k (drop_bit k v)) = take_bit 64 (unat v div 2 ^ k * 2 ^ k)"
    unfolding unsigned_push_bit_eq unsigned_drop_bit_eq
    by (simp add: push_bit_eq_mult drop_bit_eq_div [where 'a = nat]
        take_bit_nat_eq_self [of "unat v" 64, simplified] unsigned_less [of v, simplified])
  moreover have "unat v div 2 ^ k * 2 ^ k < 2 ^ 64"
    using le_less_trans[OF div_times_less_eq_dividend unsigned_less[of v]] by simp
  ultimately show ?thesis by (simp add: minus_mod_eq_div_mult take_bit_nat_eq_self)
qed

lemma is_aligned_unat: "is_aligned v (2 ^ k) \<longleftrightarrow> unat v mod 2 ^ k = 0" if "k < 64"
proof -
  have "and v (2 ^ k - 1) = take_bit k v"
    by (simp add: take_bit_eq_mask mask_eq_exp_minus_1)
  moreover have "unat (take_bit k v) = unat v mod 2 ^ k"
    unfolding unsigned_take_bit_eq by (rule take_bit_eq_mod)
  ultimately show ?thesis by (simp add: is_aligned_def word_unat_eq_iff)
qed


lemma align_down_cases: "unat (align_down v (2 ^ k)) = m * 2 ^ k \<longleftrightarrow> m * 2 ^ k \<le> unat v \<and> unat v < (m + 1) * 2 ^ k"
  if "k < 64"
proof -
  have "unat (align_down v (2 ^ k)) = unat v div 2 ^ k * 2 ^ k"
    by (simp add: align_down_unat[OF that] minus_mod_eq_div_mult)
  moreover have "unat v div 2 ^ k = m \<longleftrightarrow> m \<le> unat v div 2 ^ k \<and> unat v div 2 ^ k < m + 1" by auto
  moreover have "m \<le> unat v div 2 ^ k \<longleftrightarrow> m * 2 ^ k \<le> unat v"
    "unat v div 2 ^ k < m + 1 \<longleftrightarrow> unat v < (m + 1) * 2 ^ k"
    by (simp_all add: less_eq_div_iff_mult_less_eq div_less_iff_less_mult)
  ultimately show ?thesis by simp
qed

section \<open>The system call\<close>

text \<open>
  What is relied on of \<open>mmap\<close>: a fixed mapping is made at the address asked for or not at all,
  and not at all when that is not the start of a page; a region is whole pages of the address
  space and does not start at 0.
\<close>

definition os_ok :: "mmap_fn \<Rightarrow> bool" where
  "os_ok os \<longleftrightarrow>
     (\<forall>pr a n. os pr (Some a) n = a \<and> unat a mod 4096 = 0 \<or> os pr (Some a) n = - 1) \<and>
     (\<forall>pr n. os pr None n = - 1 \<or>
        os pr None n \<noteq> 0 \<and> unat (os pr None n) mod 4096 = 0 \<and> unat (os pr None n) + unat n < 2 ^ 64)"

text \<open>A system that never runs out of memory.\<close>

definition os_total :: "mmap_fn \<Rightarrow> bool" where
  "os_total os \<longleftrightarrow> (\<forall>pr a n. unat a mod 4096 = 0 \<longrightarrow> os pr (Some a) n = a)"

end
