(* ===== verification/Specialize.thy ===== *)
theory Specialize
  imports Instr Binary_Pool
begin

text \<open>
  The specialization handlers of \<open>src/x86/Specialize.cpp\<close>: given what is known of an
  instruction's operands when it runs and which registers are read afterwards, a handler keeps
  it, asks for its deletion, or replaces its opcode and operands. Every handler takes the
  opcode and the operands it may overwrite, the rest of its arguments as a record, and the
  pool it may put a constant into.

  An operand is a union in the source; writing one of its members replaces the whole operand
  here. The offset of a user pointer is left unset next to a pointer number of -1 and is 0
  here; it is read only next to another number.
\<close>

section \<open>Arguments and results\<close>

datatype spec_ret = NoChange | Change | Delete

record spec_ctx =
  sc_di :: dyn_info        \<comment> \<open>\<open>dynInfo\<close>\<close>
  sc_live :: mask          \<comment> \<open>\<open>livenessData.live_out\<close>\<close>
  sc_env :: rw_env         \<comment> \<open>\<open>cfg\<close>\<close>
  sc_os :: mmap_fn

type_synonym specialize_f = "spec_ctx \<Rightarrow> opcode \<Rightarrow> static_operand list \<Rightarrow> pool \<Rightarrow>
  (spec_ret \<times> opcode \<times> static_operand list \<times> pool) option"

definition eflags_mask :: mask where
  "eflags_mask = subregister_mask MaskEFLAGS"

definition registersWillBeRead :: "mask \<Rightarrow> mask \<Rightarrow> bool" where
  "registersWillBeRead live_out registers \<longleftrightarrow> \<not> mask_is_empty (mask_and live_out registers)"

definition is_simm32 :: "u64 \<Rightarrow> bool" where
  "is_simm32 val \<longleftrightarrow> scast (ucast val :: u32) = val"

definition plain_imm :: "u64 \<Rightarrow> immediate64" where
  "plain_imm v = \<lparr>i64_val = v, i64_usrPtrNr = -1, i64_usrPtrOffset = 0\<rparr>"

lemma plain_imm_val [simp]: "i64_val (plain_imm v) = v"
  by (simp add: plain_imm_def)

definition getImm :: "dyn_value \<Rightarrow> rw_env \<Rightarrow> immediate64 option option" where
  "getImm data cfg =
     (if isImm data then
        do { drob_assert (\<not> (case data of Imm128 _ \<Rightarrow> True | _ \<Rightarrow> False));
             Some (Some (plain_imm (getImm64 data))) }
      else if isUsrPtr data then
        do { ptrCfg \<leftarrow> getUsrPtrCfg cfg (getNr data);
             Some (if up_isKnown ptrCfg
                   then Some \<lparr>i64_val = up_val ptrCfg + getPtrOffset data,
                     i64_usrPtrNr = sint (getNr data), i64_usrPtrOffset = getPtrOffset data\<rparr>
                   else None) }
      else Some None)"

text \<open>What the handlers look at, and the ways they end.\<close>

definition op_input :: "spec_ctx \<Rightarrow> nat \<Rightarrow> dyn_value option" where
  "op_input c i = map_option do_input (dyn_op (sc_di c) i)"

definition op_output :: "spec_ctx \<Rightarrow> nat \<Rightarrow> dyn_value option" where
  "op_output c i = map_option do_output (dyn_op (sc_di c) i)"

definition known_input :: "spec_ctx \<Rightarrow> nat \<Rightarrow> immediate64 option option" where
  "known_input c i = do { v \<leftarrow> op_input c i; getImm v (sc_env c) }"

definition known_output :: "spec_ctx \<Rightarrow> nat \<Rightarrow> immediate64 option option" where
  "known_output c i = do { v \<leftarrow> op_output c i; getImm v (sc_env c) }"

definition keep :: specialize_f where
  "keep c opc ops p = Some (NoChange, opc, ops, p)"

definition delete_it :: specialize_f where
  "delete_it c opc ops p = Some (Delete, opc, ops, p)"

definition change_opcode :: "opcode \<Rightarrow> specialize_f" where
  "change_opcode opc' c opc ops p = Some (Change, opc', ops, p)"

definition change_imm :: "opcode \<Rightarrow> nat \<Rightarrow> immediate64 \<Rightarrow> specialize_f" where
  "change_imm opc' i imm c opc ops p = Some (Change, opc', ops[i := SopImm imm], p)"

text \<open>Operand 1 becomes the register of operand 0, which makes the result zero.\<close>

definition change_same :: "opcode \<Rightarrow> specialize_f" where
  "change_same opc' c opc ops p =
     do { r \<leftarrow> op_reg ops 0; Some (Change, opc', ops[1 := SopReg r], p) }"

text \<open>Operand 1 becomes a constant in the pool.\<close>

definition pool_operand :: "u64 \<Rightarrow> static_operand" where
  "pool_operand a = SopMem (MpDirect (plain_imm a))"

definition change_const64 :: "opcode \<Rightarrow> u64 \<Rightarrow> specialize_f" where
  "change_const64 opc' v c opc ops p =
     do { (a, p) \<leftarrow> allocConstant64 (sc_os c) v p; Some (Change, opc', ops[1 := pool_operand a], p) }"

definition change_const128 :: "opcode \<Rightarrow> u128 \<Rightarrow> specialize_f" where
  "change_const128 opc' v c opc ops p =
     do { (a, p) \<leftarrow> allocConstant128 (sc_os c) v p; Some (Change, opc', ops[1 := pool_operand a], p) }"

lemmas ending_defs = keep_def delete_it_def change_opcode_def change_imm_def change_same_def
  change_const64_def change_const128_def

definition same_regs :: "static_operand list \<Rightarrow> bool option" where
  "same_regs ops = do { r0 \<leftarrow> op_reg ops 0; r1 \<leftarrow> op_reg ops 1; Some (r0 = r1) }"

text \<open>The test at the start of many handlers: the opcode is this one and its registers are equal.\<close>

definition is_self :: "opcode \<Rightarrow> opcode \<Rightarrow> static_operand list \<Rightarrow> bool option" where
  "is_self which opc ops = (if opc = which then same_regs ops else Some False)"

definition eflags_read :: "spec_ctx \<Rightarrow> bool" where
  "eflags_read c = registersWillBeRead (sc_live c) eflags_mask"

section \<open>Addition\<close>

definition specialize_add64 :: specialize_f where
  "specialize_add64 c opc ops p =
     do { let rest =
            (if opc \<in> {Add ADD64mi, Add ADD64ri} then keep c opc ops p
             else do { rhs \<leftarrow> known_input c 1;
               case rhs of
                 Some imm \<Rightarrow>
                   if opc = Add ADD64mr then
                     if is_simm32 (i64_val imm) then change_imm (Add ADD64mi) 1 imm c opc ops p
                     else keep c opc ops p
                   else if is_simm32 (i64_val imm) then change_imm (Add ADD64ri) 1 imm c opc ops p
                   else if i64_usrPtrNr imm < 0 then change_const64 (Add ADD64rm) (i64_val imm) c opc ops p
                   else keep c opc ops p
               | None \<Rightarrow> keep c opc ops p });
          let lhs_zero =
            do { lhs \<leftarrow> known_input c 0;
                 if case lhs of Some imm \<Rightarrow> i64_val imm = 0 | None \<Rightarrow> False then
                   if opc = Add ADD64rr then change_opcode (Mov MOV64rr) c opc ops p
                   else if opc = Add ADD64mr then change_opcode (Mov MOV64mr) c opc ops p
                   else if opc = Add ADD64rm then change_opcode (Mov MOV64rm) c opc ops p
                   else rest
                 else rest };
          if \<not> eflags_read c then
            do { rhs \<leftarrow> known_input c 1;
                 if case rhs of Some imm \<Rightarrow> i64_val imm = 0 | None \<Rightarrow> False then delete_it c opc ops p
                 else do {
                   out \<leftarrow> known_output c 0;
                   case out of
                     Some imm \<Rightarrow>
                       if opc \<in> {Add ADD64mr, Add ADD64mi} then
                         if is_simm32 (i64_val imm) then change_imm (Mov MOV64mi) 1 imm c opc ops p
                         else lhs_zero
                       else if i64_val imm = 0 then change_same (Xor XOR64rr) c opc ops p
                       else change_imm (Mov MOV64ri) 1 imm c opc ops p
                   | None \<Rightarrow> lhs_zero } }
          else rest }"

section \<open>Vector arithmetic\<close>

definition specialize_addpd :: specialize_f where
  "specialize_addpd c opc ops p =
     do { out \<leftarrow> op_output c 0;
          if isImm out then
            if getImm128 out = 0 then change_same (Sse PXOR128rr) c opc ops p
            else change_const128 (MovX MOVAPDrm) (getImm128 out) c opc ops p
          else do {
            rhs \<leftarrow> op_input c 1;
            if isImm rhs then change_const128 (Sse ADDPDrm) (getImm128 rhs) c opc ops p
            else keep c opc ops p } }"

definition specialize_addsd :: specialize_f where
  "specialize_addsd c opc ops p =
     do { out \<leftarrow> op_output c 0;
          if isImm out then change_const64 (MovX MOVSDrm) (getImm64 out) c opc ops p
          else do {
            rhs \<leftarrow> op_input c 1;
            if isImm rhs then change_const64 (Sse ADDSDrm) (getImm64 rhs) c opc ops p
            else keep c opc ops p } }"

section \<open>Comparisons\<close>

definition specialize_cmp8 :: specialize_f where
  "specialize_cmp8 c opc ops p =
     do { rhs \<leftarrow> known_input c 1;
          case rhs of
            Some imm \<Rightarrow>
              if opc = Cmp CMP8mr then change_imm (Cmp CMP8mi) 1 imm c opc ops p
              else change_imm (Cmp CMP8ri) 1 imm c opc ops p
          | None \<Rightarrow> keep c opc ops p }"

definition specialize_cmp16 :: specialize_f where
  "specialize_cmp16 c opc ops p =
     do { rhs \<leftarrow> known_input c 1;
          case rhs of
            Some imm \<Rightarrow>
              if opc = Cmp CMP16mr then change_imm (Cmp CMP16mi) 1 imm c opc ops p
              else change_imm (Cmp CMP16ri) 1 imm c opc ops p
          | None \<Rightarrow> keep c opc ops p }"

definition specialize_cmp32 :: specialize_f where
  "specialize_cmp32 c opc ops p =
     do { rhs \<leftarrow> known_input c 1;
          case rhs of
            Some imm \<Rightarrow>
              if opc = Cmp CMP32mr then change_imm (Cmp CMP32mi) 1 imm c opc ops p
              else change_imm (Cmp CMP32ri) 1 imm c opc ops p
          | None \<Rightarrow> keep c opc ops p }"

definition specialize_cmp64 :: specialize_f where
  "specialize_cmp64 c opc ops p =
     do { rhs \<leftarrow> known_input c 1;
          case rhs of
            Some imm \<Rightarrow>
              if is_simm32 (i64_val imm) then
                if opc = Cmp CMP64mr then change_imm (Cmp CMP64mi) 1 imm c opc ops p
                else change_imm (Cmp CMP64ri) 1 imm c opc ops p
              else if i64_usrPtrNr imm < 0 \<and> opc \<in> {Cmp CMP64rr, Cmp CMP64rm} then
                change_const64 (Cmp CMP64rm) (i64_val imm) c opc ops p
              else keep c opc ops p
          | None \<Rightarrow> keep c opc ops p }"

section \<open>Addresses and moves\<close>

definition specialize_lea64 :: specialize_f where
  "specialize_lea64 c opc ops p =
     do { out \<leftarrow> known_output c 0;
          case out of
            Some imm \<Rightarrow>
              if i64_usrPtrNr imm < 0 \<and> i64_val imm = 0 \<and> \<not> eflags_read c
              then change_same (Xor XOR64rr) c opc ops p
              else change_imm (Mov MOV64ri) 1 imm c opc ops p
          | None \<Rightarrow> keep c opc ops p }"

definition specialize_lea32 :: specialize_f where
  "specialize_lea32 c opc ops p =
     do { out \<leftarrow> known_output c 0;
          case out of
            Some imm \<Rightarrow> change_imm (Mov MOV32ri) 1 imm c opc ops p
          | None \<Rightarrow> keep c opc ops p }"

definition specialize_lea16 :: specialize_f where
  "specialize_lea16 c opc ops p = keep c opc ops p"

text \<open>The operand is written before the opcode is looked at; both branches change it.\<close>

definition specialize_mov32 :: specialize_f where
  "specialize_mov32 c opc ops p =
     do { self \<leftarrow> is_self (Mov MOV32rr) opc ops;
          if self then delete_it c opc ops p
          else do {
            src \<leftarrow> known_input c 1;
            case src of
              Some imm \<Rightarrow>
                if opc = Mov MOV32mr then change_imm (Mov MOV32mi) 1 imm c opc ops p
                else change_imm (Mov MOV32ri) 1 imm c opc ops p
            | None \<Rightarrow> keep c opc ops p } }"

definition specialize_mov64 :: specialize_f where
  "specialize_mov64 c opc ops p =
     do { self \<leftarrow> is_self (Mov MOV64rr) opc ops;
          if self then delete_it c opc ops p
          else do {
            src \<leftarrow> known_input c 1;
            case src of
              Some imm \<Rightarrow>
                if opc = Mov MOV64mr then
                  if is_simm32 (i64_val imm) then change_imm (Mov MOV64mi) 1 imm c opc ops p
                  else keep c opc ops p
                else change_imm (Mov MOV64ri) 1 imm c opc ops p
            | None \<Rightarrow> keep c opc ops p } }"

definition specialize_movapd :: specialize_f where
  "specialize_movapd c opc ops p =
     do { self \<leftarrow> is_self (MovX MOVAPDrr) opc ops;
          if self then delete_it c opc ops p
          else do {
            out \<leftarrow> op_output c 0;
            if isImm out then
              if getImm128 out = 0 then change_same (Sse PXOR128rr) c opc ops p
              else if opc = MovX MOVAPDrm then change_const128 (MovX MOVAPDrm) (getImm128 out) c opc ops p
              else keep c opc ops p
            else keep c opc ops p } }"

definition specialize_movsd :: specialize_f where
  "specialize_movsd c opc ops p =
     do { self \<leftarrow> is_self (MovX MOVSDrr) opc ops;
          if self then delete_it c opc ops p
          else do {
            out \<leftarrow> op_output c 0;
            if isImm out then
              if opc = MovX MOVSDrm then change_const64 (MovX MOVSDrm) (getImm64 out) c opc ops p
              else if opc = MovX MOVSDmr then
                if is_simm32 (getImm64 out)
                then change_imm (Mov MOV64mi) 1 (plain_imm (getImm64 out)) c opc ops p
                else keep c opc ops p
              else keep c opc ops p
            else keep c opc ops p } }"

definition specialize_movupd :: specialize_f where
  "specialize_movupd c opc ops p =
     do { self \<leftarrow> is_self (MovX MOVUPDrr) opc ops;
          if self then delete_it c opc ops p
          else do {
            out \<leftarrow> op_output c 0;
            if isImm out then
              if getImm128 out = 0 then change_same (Sse PXOR128rr) c opc ops p
              else if opc = MovX MOVUPDrm then change_const128 (MovX MOVAPDrm) (getImm128 out) c opc ops p
              else keep c opc ops p
            else keep c opc ops p } }"

definition specialize_movups :: specialize_f where
  "specialize_movups c opc ops p =
     do { self \<leftarrow> is_self (MovX MOVUPSrr) opc ops;
          if self then delete_it c opc ops p
          else do {
            out \<leftarrow> op_output c 0;
            if isImm out \<and> opc = MovX MOVUPSrm then change_const128 (MovX MOVUPSrm) (getImm128 out) c opc ops p
            else keep c opc ops p } }"

definition specialize_mulpd :: specialize_f where
  "specialize_mulpd c opc ops p =
     do { out \<leftarrow> op_output c 0;
          if isImm out then
            if getImm128 out = 0 then change_same (Sse PXOR128rr) c opc ops p
            else change_const128 (MovX MOVAPDrm) (getImm128 out) c opc ops p
          else do {
            rhs \<leftarrow> op_input c 1;
            if isImm rhs then change_const128 (Sse MULPDrm) (getImm128 rhs) c opc ops p
            else keep c opc ops p } }"

definition specialize_mulsd :: specialize_f where
  "specialize_mulsd c opc ops p =
     do { out \<leftarrow> op_output c 0;
          if isImm out then change_const64 (MovX MOVSDrm) (getImm64 out) c opc ops p
          else do {
            rhs \<leftarrow> op_input c 1;
            if isImm rhs then change_const64 (Sse MULSDrm) (getImm64 rhs) c opc ops p
            else keep c opc ops p } }"

section \<open>Stack\<close>

text \<open>
  The handler of \<open>pop\<close> overwrites opcode and operands and still answers NoChange. The opcode
  it asks for to choose the size is the one it has just written, so the displacement is 2.
\<close>

definition specialize_pop :: specialize_f where
  "specialize_pop c opc ops p =
     do { r \<leftarrow> op_reg ops 0;
          m \<leftarrow> getSubRegisterMaskFull r;
          if \<not> registersWillBeRead (sc_live c) m then
            (let opc = Lea LEA64ra;
                 disp = (if opc = Stack POP64r then 8 else 2)
             in Some (NoChange, opc, ops[0 := SopReg RSP,
                  1 := SopMem (MpSIB RSP NoReg \<lparr>s32_val = disp, s32_usrPtrNr = -1, s32_usrPtrOffset = 0\<rparr>
                    (case ops ! 1 of SopMem (MpSIB _ _ _ s) \<Rightarrow> s | _ \<Rightarrow> 0))], p))
          else keep c opc ops p }"

definition specialize_push16 :: specialize_f where
  "specialize_push16 c opc ops p =
     do { src \<leftarrow> known_input c 0;
          case src of
            Some imm \<Rightarrow> change_imm (Stack PUSH16i) 0 imm c opc ops p
          | None \<Rightarrow> keep c opc ops p }"

definition specialize_push64 :: specialize_f where
  "specialize_push64 c opc ops p =
     do { src \<leftarrow> known_input c 0;
          case src of
            Some imm \<Rightarrow>
              if is_simm32 (i64_val imm) then change_imm (Stack PUSH64i) 0 imm c opc ops p
              else keep c opc ops p
          | None \<Rightarrow> keep c opc ops p }"

definition specialize_pxor :: specialize_f where
  "specialize_pxor c opc ops p =
     do { self \<leftarrow> is_self (Sse PXOR128rr) opc ops;
          if self then keep c opc ops p
          else do {
            out \<leftarrow> op_output c 0;
            if isImm out then change_const128 (MovX MOVAPDrm) (getImm128 out) c opc ops p
            else do {
              rhs \<leftarrow> op_input c 1;
              if isImm rhs then change_const128 (Sse PXOR128rm) (getImm128 rhs) c opc ops p
              else keep c opc ops p } } }"

section \<open>Shifts\<close>

definition specialize_shl64 :: specialize_f where
  "specialize_shl64 c opc ops p =
     do { count \<leftarrow> known_input c 1;
          if case count of Some imm \<Rightarrow> and (i64_val imm) 0x3f = 0 | None \<Rightarrow> False then delete_it c opc ops p
          else do {
            out \<leftarrow> known_output c 0;
            let rest =
              (if opc \<in> {Shift SHL64m, Shift SHL64r} then
                 do { count \<leftarrow> known_input c 1;
                      case count of
                        Some imm \<Rightarrow>
                          if opc = Shift SHL64m then change_imm (Shift SHL64mi) 1 imm c opc ops p
                          else change_imm (Shift SHL64ri) 1 imm c opc ops p
                      | None \<Rightarrow> keep c opc ops p }
               else keep c opc ops p);
            case out of
              Some imm \<Rightarrow>
                if \<not> eflags_read c then
                  if opc \<in> {Shift SHL64m, Shift SHL64mi} then
                    if is_simm32 (i64_val imm) then change_imm (Mov MOV64mi) 1 imm c opc ops p
                    else rest
                  else if i64_val imm = 0 then change_same (Xor XOR64rr) c opc ops p
                  else change_imm (Mov MOV64ri) 1 imm c opc ops p
                else rest
            | None \<Rightarrow> rest } }"

definition specialize_shr64 :: specialize_f where
  "specialize_shr64 c opc ops p =
     do { count \<leftarrow> known_input c 1;
          if case count of Some imm \<Rightarrow> and (i64_val imm) 0x3f = 0 | None \<Rightarrow> False then delete_it c opc ops p
          else do {
            out \<leftarrow> known_output c 0;
            let rest =
              (if opc \<in> {Shift SHR64m, Shift SHR64r} then
                 do { count \<leftarrow> known_input c 1;
                      case count of
                        Some imm \<Rightarrow>
                          if opc = Shift SHR64m then change_imm (Shift SHR64mi) 1 imm c opc ops p
                          else change_imm (Shift SHR64ri) 1 imm c opc ops p
                      | None \<Rightarrow> keep c opc ops p }
               else keep c opc ops p);
            case out of
              Some imm \<Rightarrow>
                if \<not> eflags_read c then
                  if opc \<in> {Shift SHR64m, Shift SHR64mi} then
                    if is_simm32 (i64_val imm) then change_imm (Mov MOV64mi) 1 imm c opc ops p
                    else rest
                  else if i64_val imm = 0 then change_same (Xor XOR64rr) c opc ops p
                  else change_imm (Mov MOV64ri) 1 imm c opc ops p
                else rest
            | None \<Rightarrow> rest } }"

section \<open>Tests and exclusive or\<close>

text \<open>A test is symmetric, so a known operand 0 can become the immediate as well.\<close>

definition change_swapped :: "opcode \<Rightarrow> immediate64 \<Rightarrow> specialize_f" where
  "change_swapped opc' imm c opc ops p =
     do { r \<leftarrow> op_reg ops 1; Some (Change, opc', ops[0 := SopReg r, 1 := SopImm imm], p) }"

definition specialize_test8 :: specialize_f where
  "specialize_test8 c opc ops p =
     do { self \<leftarrow> is_self (Test TEST8rr) opc ops;
          if self then keep c opc ops p
          else do {
            rhs \<leftarrow> known_input c 1;
            case rhs of
              Some imm \<Rightarrow>
                if opc = Test TEST8mr then change_imm (Test TEST8mi) 1 imm c opc ops p
                else change_imm (Test TEST8ri) 1 imm c opc ops p
            | None \<Rightarrow>
                do { lhs \<leftarrow> known_input c 0;
                     case lhs of
                       Some imm \<Rightarrow> change_swapped (Test TEST8ri) imm c opc ops p
                     | None \<Rightarrow> keep c opc ops p } } }"

definition specialize_test16 :: specialize_f where
  "specialize_test16 c opc ops p =
     do { self \<leftarrow> is_self (Test TEST16rr) opc ops;
          if self then keep c opc ops p
          else do {
            rhs \<leftarrow> known_input c 1;
            case rhs of
              Some imm \<Rightarrow>
                if opc = Test TEST16mr then change_imm (Test TEST16mi) 1 imm c opc ops p
                else change_imm (Test TEST16ri) 1 imm c opc ops p
            | None \<Rightarrow>
                do { lhs \<leftarrow> known_input c 0;
                     case lhs of
                       Some imm \<Rightarrow> change_swapped (Test TEST16ri) imm c opc ops p
                     | None \<Rightarrow> keep c opc ops p } } }"

definition specialize_test32 :: specialize_f where
  "specialize_test32 c opc ops p =
     do { self \<leftarrow> is_self (Test TEST32rr) opc ops;
          if self then keep c opc ops p
          else do {
            rhs \<leftarrow> known_input c 1;
            case rhs of
              Some imm \<Rightarrow>
                if opc = Test TEST32mr then change_imm (Test TEST32mi) 1 imm c opc ops p
                else change_imm (Test TEST32ri) 1 imm c opc ops p
            | None \<Rightarrow>
                do { lhs \<leftarrow> known_input c 0;
                     case lhs of
                       Some imm \<Rightarrow> change_swapped (Test TEST32ri) imm c opc ops p
                     | None \<Rightarrow> keep c opc ops p } } }"

definition specialize_test64 :: specialize_f where
  "specialize_test64 c opc ops p =
     do { self \<leftarrow> is_self (Test TEST64rr) opc ops;
          if self then keep c opc ops p
          else do {
            rhs \<leftarrow> known_input c 1;
            let rest =
              do { lhs \<leftarrow> known_input c 0;
                   case lhs of
                     Some imm \<Rightarrow>
                       if is_simm32 (i64_val imm) then change_swapped (Test TEST64ri) imm c opc ops p
                       else keep c opc ops p
                   | None \<Rightarrow> keep c opc ops p };
            case rhs of
              Some imm \<Rightarrow>
                if is_simm32 (i64_val imm) then
                  if opc = Test TEST64mr then change_imm (Test TEST64mi) 1 imm c opc ops p
                  else change_imm (Test TEST64ri) 1 imm c opc ops p
                else rest
            | None \<Rightarrow> rest } }"

definition specialize_xor32 :: specialize_f where
  "specialize_xor32 c opc ops p =
     do { self \<leftarrow> is_self (Xor XOR32rr) opc ops;
          if self then keep c opc ops p
          else do {
            rhs \<leftarrow> known_input c 1;
            case rhs of
              Some imm \<Rightarrow>
                if i64_val imm = 0 \<and> \<not> eflags_read c then delete_it c opc ops p
                else if opc = Xor XOR32mr then change_imm (Xor XOR32mi) 1 imm c opc ops p
                else if opc \<in> {Xor XOR32rr, Xor XOR32rm} then change_imm (Xor XOR32ri) 1 imm c opc ops p
                else keep c opc ops p
            | None \<Rightarrow> keep c opc ops p } }"

definition specialize_xor64 :: specialize_f where
  "specialize_xor64 c opc ops p =
     do { self \<leftarrow> is_self (Xor XOR64rr) opc ops;
          if self then keep c opc ops p
          else do {
            rhs \<leftarrow> known_input c 1;
            case rhs of
              Some imm \<Rightarrow>
                if i64_val imm = 0 \<and> \<not> eflags_read c then delete_it c opc ops p
                else if is_simm32 (i64_val imm) then
                  if opc = Xor XOR64mr then change_imm (Xor XOR64mi) 1 imm c opc ops p
                  else if opc \<in> {Xor XOR64rr, Xor XOR64rm} then change_imm (Xor XOR64ri) 1 imm c opc ops p
                  else keep c opc ops p
                else if i64_usrPtrNr imm < 0 \<and> opc \<in> {Xor XOR64rr, Xor XOR64rm} then
                  change_const64 (Xor XOR64rm) (i64_val imm) c opc ops p
                else keep c opc ops p
            | None \<Rightarrow> keep c opc ops p } }"

section \<open>Dispatch\<close>

primrec run_specialize :: "specialize_fn \<Rightarrow> specialize_f" where
  "run_specialize Spec_add64 = specialize_add64"
| "run_specialize Spec_addpd = specialize_addpd"
| "run_specialize Spec_addsd = specialize_addsd"
| "run_specialize Spec_cmp8 = specialize_cmp8"
| "run_specialize Spec_cmp16 = specialize_cmp16"
| "run_specialize Spec_cmp32 = specialize_cmp32"
| "run_specialize Spec_cmp64 = specialize_cmp64"
| "run_specialize Spec_lea64 = specialize_lea64"
| "run_specialize Spec_lea32 = specialize_lea32"
| "run_specialize Spec_lea16 = specialize_lea16"
| "run_specialize Spec_mov64 = specialize_mov64"
| "run_specialize Spec_mov32 = specialize_mov32"
| "run_specialize Spec_movapd = specialize_movapd"
| "run_specialize Spec_movsd = specialize_movsd"
| "run_specialize Spec_movupd = specialize_movupd"
| "run_specialize Spec_movups = specialize_movups"
| "run_specialize Spec_mulpd = specialize_mulpd"
| "run_specialize Spec_mulsd = specialize_mulsd"
| "run_specialize Spec_pop = specialize_pop"
| "run_specialize Spec_push16 = specialize_push16"
| "run_specialize Spec_push64 = specialize_push64"
| "run_specialize Spec_pxor = specialize_pxor"
| "run_specialize Spec_shl64 = specialize_shl64"
| "run_specialize Spec_shr64 = specialize_shr64"
| "run_specialize Spec_test8 = specialize_test8"
| "run_specialize Spec_test16 = specialize_test16"
| "run_specialize Spec_test32 = specialize_test32"
| "run_specialize Spec_test64 = specialize_test64"
| "run_specialize Spec_xor64 = specialize_xor64"
| "run_specialize Spec_xor32 = specialize_xor32"

text \<open>
  \<open>InstructionSpecializationPass::handleInstruction\<close> for an instruction with known inputs and
  liveness; the second component says that it is to be deleted. Only the operands the new opcode
  has are stored.
\<close>

definition set_operands :: "nat \<Rightarrow> static_operand list \<Rightarrow> static_operand list \<Rightarrow> static_operand list" where
  "set_operands n new old = take n new @ drop n old"

definition handle_instruction :: "mmap_fn \<Rightarrow> rw_env \<Rightarrow> dyn_info \<Rightarrow> mask \<Rightarrow> instruction \<Rightarrow> pool \<Rightarrow>
    (instruction \<times> bool \<times> pool) option" where
  "handle_instruction os cfg di live_out ins p =
     (case in_info ins of
        None \<Rightarrow> Some (ins, False, p)
      | Some opi \<Rightarrow>
          (case oc_specialize opi of
             None \<Rightarrow> Some (ins, False, p)
           | Some f \<Rightarrow>
               do { (ret, opc, ops, p) \<leftarrow> run_specialize f
                      \<lparr>sc_di = di, sc_live = live_out, sc_env = cfg, sc_os = os\<rparr>
                      (in_opcode ins) (in_operands ins) p;
                    Some (case ret of
                        Change \<Rightarrow>
                          (let oc = arch_get_opcode_info opc;
                               n = (case oc of Some oc \<Rightarrow> length (oc_opInfo oc) | None \<Rightarrow> 0)
                           in (\<lparr>in_opcode = opc, in_operands = set_operands n ops (in_operands ins), in_info = oc\<rparr>,
                               False, p))
                      | Delete \<Rightarrow> (ins, True, p)
                      | NoChange \<Rightarrow> (ins, False, p)) }))"

end
