(* ===== verification/Encoder.thy ===== *)
theory Encoder
  imports Specialize
begin

text \<open>
  The encoder (\<open>src/x86/Encoder.cpp\<close>): from an opcode and its explicit operands to the bytes
  of the instruction. The buffer the code writes is the list of its bytes here, and the length
  it returns the length of the list.
\<close>

section \<open>Numbers that fit\<close>

definition is_rel8 :: "u64 \<Rightarrow> bool" where
  "is_rel8 v \<longleftrightarrow> scast (ucast v :: byte) = v"

definition is_rel32 :: "u64 \<Rightarrow> bool" where
  "is_rel32 v \<longleftrightarrow> scast (ucast v :: u32) = v"

definition is_simm8 :: "u64 \<Rightarrow> bool" where
  "is_simm8 v \<longleftrightarrow> scast (ucast v :: byte) = v"

definition isDisp32 :: "u64 \<Rightarrow> bool" where
  "isDisp32 v \<longleftrightarrow> scast (ucast v :: u32) = v"

section \<open>Numbers of registers\<close>

primrec gpr_code :: "gpr \<Rightarrow> byte" where
  "gpr_code GA = 0" | "gpr_code GC = 1" | "gpr_code GD = 2" | "gpr_code GB = 3"
| "gpr_code GSP = 4" | "gpr_code GBP = 5" | "gpr_code GSI = 6" | "gpr_code GDI = 7"
| "gpr_code G8 = 8" | "gpr_code G9 = 9" | "gpr_code G10 = 10" | "gpr_code G11 = 11"
| "gpr_code G12 = 12" | "gpr_code G13 = 13" | "gpr_code G14 = 14" | "gpr_code G15 = 15"

primrec high_code :: "gpr_high \<Rightarrow> byte" where
  "high_code HA = 4" | "high_code HC = 5" | "high_code HD = 6" | "high_code HB = 7"

fun encodeReg :: "register \<Rightarrow> byte option" where
  "encodeReg (Gpr8 g) = Some (gpr_code g)"
| "encodeReg (Gpr16 g) = Some (gpr_code g)"
| "encodeReg (Gpr32 g) = Some (gpr_code g)"
| "encodeReg (Gpr64 g) = Some (gpr_code g)"
| "encodeReg (Gpr8H h) = Some (high_code h)"
| "encodeReg (XmmReg x) = Some (of_nat (xmm_nr x))"
| "encodeReg _ = throw"

text \<open>The second result is the value of \<open>is32\<close> afterwards.\<close>

fun encodeAddrReg :: "register \<Rightarrow> bool \<Rightarrow> (byte \<times> bool) option" where
  "encodeAddrReg (Gpr64 g) is32 = Some (gpr_code g, is32)"
| "encodeAddrReg (Gpr32 g) is32 = (if gpr_code g < 8 then Some (gpr_code g, True) else throw)"
| "encodeAddrReg _ is32 = throw"

section \<open>The parts of an instruction\<close>

record REX =
  rex_w :: bool
  rex_r :: bool
  rex_x :: bool
  rex_b :: bool

definition rex_new :: REX where
  "rex_new = \<lparr>rex_w = False, rex_r = False, rex_x = False, rex_b = False\<rparr>"

definition rex_val :: "REX \<Rightarrow> byte" where
  "rex_val r = 0x40 + (if rex_w r then 8 else 0) + (if rex_r r then 4 else 0) + (if rex_x r then 2 else 0)
     + (if rex_b r then 1 else 0)"

definition rex_isRequired :: "REX \<Rightarrow> bool" where
  "rex_isRequired r \<longleftrightarrow> rex_val r \<noteq> 0x40"

text \<open>The fields of the two bytes keep their low two or three bits.\<close>

record SIB =
  sib_required :: bool
  sib_base :: byte
  sib_index :: byte
  sib_scale :: byte

record ModRM =
  mr_rm :: byte
  mr_reg :: byte
  mr_mod :: byte

definition pack_fields :: "byte \<Rightarrow> byte \<Rightarrow> byte \<Rightarrow> byte" where
  "pack_fields hi mid lo = or (push_bit 6 hi) (or (push_bit 3 (and mid 7)) (and lo 7))"

definition sib_val :: "SIB \<Rightarrow> byte" where
  "sib_val s = pack_fields (sib_scale s) (sib_index s) (sib_base s)"

definition modrm_val :: "ModRM \<Rightarrow> byte" where
  "modrm_val m = pack_fields (mr_mod m) (mr_reg m) (mr_rm m)"

record Disp =
  dp_required :: bool
  dp_isDisp32 :: bool
  dp_disp32 :: u32      \<comment> \<open>\<open>disp8\<close> is its low byte\<close>

record encoding =
  en_oc :: "byte list"
  en_imm :: u64
  en_immLen :: nat
  en_is32bit :: bool
  en_p66 :: bool
  en_pf2 :: bool
  en_rex :: REX
  en_modrm :: ModRM
  en_sib :: SIB
  en_disp :: Disp

type_synonym enc_flags = u32

abbreviation ENC_FLAG_NONE :: enc_flags where "ENC_FLAG_NONE \<equiv> 0"
abbreviation ENC_FLAG_REXW :: enc_flags where "ENC_FLAG_REXW \<equiv> 1"
abbreviation ENC_FLAG_66 :: enc_flags where "ENC_FLAG_66 \<equiv> 2"
abbreviation ENC_FLAG_F2 :: enc_flags where "ENC_FLAG_F2 \<equiv> 4"

definition encoding_new :: "byte list \<Rightarrow> u64 \<Rightarrow> nat \<Rightarrow> enc_flags \<Rightarrow> encoding" where
  "encoding_new oc imm immLen flags =
     \<lparr>en_oc = oc, en_imm = imm, en_immLen = immLen, en_is32bit = False,
      en_p66 = (and flags ENC_FLAG_66 \<noteq> 0), en_pf2 = (and flags ENC_FLAG_F2 \<noteq> 0),
      en_rex = rex_new\<lparr>rex_w := (and flags ENC_FLAG_REXW \<noteq> 0)\<rparr>,
      en_modrm = \<lparr>mr_rm = 0, mr_reg = 0, mr_mod = 0\<rparr>,
      en_sib = \<lparr>sib_required = False, sib_base = 0, sib_index = 0, sib_scale = 0\<rparr>,
      en_disp = \<lparr>dp_required = False, dp_isDisp32 = False, dp_disp32 = 0\<rparr>\<rparr>"

definition set_modrm :: "(ModRM \<Rightarrow> ModRM) \<Rightarrow> encoding \<Rightarrow> encoding" where
  "set_modrm f e = e\<lparr>en_modrm := f (en_modrm e)\<rparr>"

definition set_sib :: "(SIB \<Rightarrow> SIB) \<Rightarrow> encoding \<Rightarrow> encoding" where
  "set_sib f e = e\<lparr>en_sib := f (en_sib e)\<rparr>"

definition set_disp :: "(Disp \<Rightarrow> Disp) \<Rightarrow> encoding \<Rightarrow> encoding" where
  "set_disp f e = e\<lparr>en_disp := f (en_disp e)\<rparr>"

definition set_rex :: "(REX \<Rightarrow> REX) \<Rightarrow> encoding \<Rightarrow> encoding" where
  "set_rex f e = e\<lparr>en_rex := f (en_rex e)\<rparr>"

definition encode_reg_field :: "byte \<Rightarrow> encoding \<Rightarrow> encoding" where
  "encode_reg_field r e = set_modrm (\<lambda>m. m\<lparr>mr_reg := and r 7\<rparr>) (set_rex (\<lambda>x. x\<lparr>rex_r := and r 8 \<noteq> 0\<rparr>) e)"

definition encode_rm_field :: "byte \<Rightarrow> encoding \<Rightarrow> encoding" where
  "encode_rm_field b e =
     set_modrm (\<lambda>m. m\<lparr>mr_rm := and b 7, mr_mod := 3\<rparr>) (set_rex (\<lambda>x. x\<lparr>rex_b := and b 8 \<noteq> 0\<rparr>) e)"

section \<open>Writing an instruction\<close>

text \<open>An immediate of another length than 1, 2 and 4 must be empty.\<close>

definition write_imm :: "encoding \<Rightarrow> byte list option" where
  "write_imm e =
     (if en_immLen e \<in> {1, 2, 4} then Some (le_bytes (en_immLen e) (en_imm e))
      else do { drob_assert (en_immLen e = 0); Some [] })"

definition write_enc :: "encoding \<Rightarrow> byte list option" where
  "write_enc e =
     do { imm \<leftarrow> write_imm e;
          Some ((if en_p66 e then [0x66] else []) @ (if en_is32bit e then [0x67] else []) @
            (if en_pf2 e then [0xf2] else []) @ (if rex_isRequired (en_rex e) then [rex_val (en_rex e)] else []) @
            en_oc e @ [modrm_val (en_modrm e)] @
            (if sib_required (en_sib e) then [sib_val (en_sib e)] else []) @
            (if dp_required (en_disp e) then
               (if dp_isDisp32 (en_disp e) then le_bytes 4 (dp_disp32 (en_disp e))
                else [ucast (dp_disp32 (en_disp e))])
             else []) @ imm) }"

section \<open>Memory operands\<close>

text \<open>
  An address is reached by its 32 bits or relative to the next instruction. When neither is
  possible the code logs that and leaves the operand as it is.
\<close>

definition encodeMemoryDirect :: "u64 \<Rightarrow> u64 \<Rightarrow> encoding \<Rightarrow> encoding option" where
  "encodeMemoryDirect val addr e =
     (if scast (ucast val :: u32) = val then
        Some (set_disp (\<lambda>d. d\<lparr>dp_required := True, dp_isDisp32 := True, dp_disp32 := ucast val\<rparr>)
          (set_sib (\<lambda>s. s\<lparr>sib_required := True, sib_base := 5, sib_index := 4\<rparr>)
            (set_modrm (\<lambda>m. m\<lparr>mr_mod := 0, mr_rm := 4\<rparr>) e)))
      else
        do { let ilen = length (en_oc e) + 5 + en_immLen e + (if en_p66 e then 1 else 0) + (if en_is32bit e then 1 else 0)
               + (if en_pf2 e then 1 else 0) + (if rex_isRequired (en_rex e) then 1 else 0);
             drob_assert (\<not> sib_required (en_sib e));
             let rel = val - (addr + of_nat ilen);
             Some (if is_rel32 rel then
                     set_disp (\<lambda>d. d\<lparr>dp_required := True, dp_isDisp32 := True, dp_disp32 := ucast rel\<rparr>)
                       (set_modrm (\<lambda>m. m\<lparr>mr_mod := 0, mr_rm := 5\<rparr>) e)
                   else e) })"

fun encode_scale :: "byte \<Rightarrow> byte option" where
  "encode_scale s =
     (if s = 0 \<or> s = 1 then Some 0 else if s = 2 then Some 1 else if s = 4 then Some 2
      else if s = 8 then Some 3 else throw)"

text \<open>A displacement of 0 is left out, one that fits 8 bits takes a byte.\<close>

definition compress_disp :: "u32 \<Rightarrow> encoding \<Rightarrow> encoding" where
  "compress_disp v e =
     (let e = (if v \<noteq> 0 then
                 set_disp (\<lambda>d. if scast (ucast v :: byte) = v
                               then d\<lparr>dp_required := True, dp_disp32 := ucast (ucast v :: byte)\<rparr>
                               else d\<lparr>dp_required := True, dp_isDisp32 := True, dp_disp32 := v\<rparr>) e
               else e)
      in set_modrm (\<lambda>m. m\<lparr>mr_mod := (if dp_required (en_disp e) then if dp_isDisp32 (en_disp e) then 2 else 1 else 0)\<rparr>) e)"

definition encode_base_only :: "register \<Rightarrow> u32 \<Rightarrow> encoding \<Rightarrow> encoding option" where
  "encode_base_only bs v e =
     do { let e = compress_disp v e;
          (r, is32) \<leftarrow> encodeAddrReg bs (en_is32bit e);
          Some (set_rex (\<lambda>x. x\<lparr>rex_b := and r 8 \<noteq> 0\<rparr>) (set_modrm (\<lambda>m. m\<lparr>mr_rm := and r 7\<rparr>) (e\<lparr>en_is32bit := is32\<rparr>))) }"

definition encode_index_only :: "register \<Rightarrow> u32 \<Rightarrow> encoding \<Rightarrow> encoding option" where
  "encode_index_only ix v e =
     do { let e = set_sib (\<lambda>s. s\<lparr>sib_required := True, sib_base := 5\<rparr>) (set_modrm (\<lambda>m. m\<lparr>mr_mod := 0, mr_rm := 4\<rparr>) e);
          (r, is32) \<leftarrow> encodeAddrReg ix (en_is32bit e);
          Some (set_disp (\<lambda>d. d\<lparr>dp_required := True, dp_isDisp32 := True, dp_disp32 := v\<rparr>)
            (set_rex (\<lambda>x. x\<lparr>rex_x := and r 8 \<noteq> 0\<rparr>) (set_sib (\<lambda>s. s\<lparr>sib_index := and r 7\<rparr>) (e\<lparr>en_is32bit := is32\<rparr>)))) }"

definition encode_base_index :: "register \<Rightarrow> register \<Rightarrow> u32 \<Rightarrow> encoding \<Rightarrow> encoding option" where
  "encode_base_index bs ix v e =
     do { let e = set_sib (\<lambda>s. s\<lparr>sib_required := True\<rparr>) (set_modrm (\<lambda>m. m\<lparr>mr_rm := 4\<rparr>) (compress_disp v e));
          (r, is32) \<leftarrow> encodeAddrReg bs (en_is32bit e);
          let e = set_rex (\<lambda>x. x\<lparr>rex_b := and r 8 \<noteq> 0\<rparr>) (set_sib (\<lambda>s. s\<lparr>sib_base := and r 7\<rparr>) (e\<lparr>en_is32bit := is32\<rparr>));
          (r, needs32) \<leftarrow> encodeAddrReg ix False;
          let e = set_rex (\<lambda>x. x\<lparr>rex_x := and r 8 \<noteq> 0\<rparr>) (set_sib (\<lambda>s. s\<lparr>sib_index := and r 7\<rparr>) e);
          drob_assert (en_is32bit e = needs32);
          Some e }"

text \<open>The stack pointer is refused as a base, whatever the comment says of the index.\<close>

definition encodeMemoryIndirect :: "register \<Rightarrow> register \<Rightarrow> u32 \<Rightarrow> byte \<Rightarrow> encoding \<Rightarrow> encoding option" where
  "encodeMemoryIndirect bs ix v scale e =
     do { let e = (if bs = Gpr32 GBP then e\<lparr>en_is32bit := True\<rparr> else e);
          let e = (if bs \<in> {Gpr32 GBP, Gpr64 GBP, Gpr64 G13} then set_disp (\<lambda>d. d\<lparr>dp_required := True\<rparr>) e else e);
          drob_assert (bs \<noteq> Gpr32 GSP \<and> bs \<noteq> Gpr64 GSP);
          sc \<leftarrow> encode_scale scale;
          let e = set_sib (\<lambda>s. s\<lparr>sib_scale := sc\<rparr>) e;
          drob_assert (bs \<noteq> NoReg \<or> ix \<noteq> NoReg);
          if ix = NoReg then encode_base_only bs v e
          else if bs = NoReg then encode_index_only ix v e
          else encode_base_index bs ix v e }"

definition encodeMemory :: "static_mem_ptr \<Rightarrow> u64 \<Rightarrow> encoding \<Rightarrow> encoding option" where
  "encodeMemory rm addr e =
     (case rm of
        MpDirect a \<Rightarrow> encodeMemoryDirect (i64_val a) addr e
      | MpSIB bs ix d sc \<Rightarrow> encodeMemoryIndirect bs ix (s32_val d) sc e
      | MpNone \<Rightarrow> throw)"

section \<open>The constructors\<close>

text \<open>Register and register, register and extension of the opcode, and the same with memory.\<close>

definition ModRM_reg_reg :: "byte list \<Rightarrow> register \<Rightarrow> register \<Rightarrow> enc_flags \<Rightarrow> encoding option" where
  "ModRM_reg_reg oc reg rm flags =
     do { r \<leftarrow> encodeReg reg;
          b \<leftarrow> encodeReg rm;
          Some (encode_rm_field b (encode_reg_field r (encoding_new oc 0 0 flags))) }"

definition ModRM_ext_reg :: "byte list \<Rightarrow> byte \<Rightarrow> register \<Rightarrow> enc_flags \<Rightarrow> encoding option" where
  "ModRM_ext_reg oc reg rm flags =
     do { b \<leftarrow> encodeReg rm;
          Some (encode_rm_field b (encode_reg_field reg (encoding_new oc 0 0 flags))) }"

definition ModRM_ext_reg_imm :: "byte list \<Rightarrow> byte \<Rightarrow> register \<Rightarrow> u64 \<Rightarrow> nat \<Rightarrow> enc_flags \<Rightarrow> encoding option" where
  "ModRM_ext_reg_imm oc reg rm imm immLen flags =
     do { b \<leftarrow> encodeReg rm;
          Some (encode_rm_field b (encode_reg_field reg (encoding_new oc imm immLen flags))) }"

definition ModRM_reg_mem :: "byte list \<Rightarrow> register \<Rightarrow> static_mem_ptr \<Rightarrow> enc_flags \<Rightarrow> u64 \<Rightarrow> encoding option" where
  "ModRM_reg_mem oc reg rm flags addr =
     do { r \<leftarrow> encodeReg reg;
          encodeMemory rm addr (encode_reg_field r (encoding_new oc 0 0 flags)) }"

definition ModRM_ext_mem :: "byte list \<Rightarrow> byte \<Rightarrow> static_mem_ptr \<Rightarrow> enc_flags \<Rightarrow> u64 \<Rightarrow> encoding option" where
  "ModRM_ext_mem oc reg rm flags addr =
     encodeMemory rm addr (encode_reg_field reg (encoding_new oc 0 0 flags))"

definition ModRM_ext_mem_imm :: "byte list \<Rightarrow> byte \<Rightarrow> static_mem_ptr \<Rightarrow> u64 \<Rightarrow> nat \<Rightarrow> enc_flags \<Rightarrow> u64 \<Rightarrow> encoding option" where
  "ModRM_ext_mem_imm oc reg rm imm immLen flags addr =
     encodeMemory rm addr (encode_reg_field reg (encoding_new oc imm immLen flags))"

end
