(* ===== verification/Encode_Ops.thy ===== *)
theory Encode_Ops
  imports Encoder
begin

text \<open>
  The encoding of every opcode (\<open>src/x86/Encoder.cpp\<close>): the writers of the instruction
  formats, the functions \<open>encode_*\<close> the opcode table names, and the padding with NOPs.
  \<open>addr\<close> is the address the instruction is going to be at.
\<close>

section \<open>Formats\<close>

definition op_mem :: "static_operand list \<Rightarrow> nat \<Rightarrow> static_mem_ptr option" where
  "op_mem ops i = do { op \<leftarrow> raw_op ops i; case op of SopMem m \<Rightarrow> Some m | _ \<Rightarrow> throw }"

definition write_modrm_m_reg :: "byte \<Rightarrow> static_operand list \<Rightarrow> enc_flags \<Rightarrow> u64 \<Rightarrow> byte list option" where
  "write_modrm_m_reg oc ops flags addr =
     do { r \<leftarrow> op_reg ops 1; m \<leftarrow> op_mem ops 0; e \<leftarrow> ModRM_reg_mem [oc] r m flags addr; write_enc e }"

definition write_modrm_m_reg2 :: "byte \<Rightarrow> byte \<Rightarrow> static_operand list \<Rightarrow> enc_flags \<Rightarrow> u64 \<Rightarrow> byte list option" where
  "write_modrm_m_reg2 oc1 oc2 ops flags addr =
     do { r \<leftarrow> op_reg ops 1; m \<leftarrow> op_mem ops 0; e \<leftarrow> ModRM_reg_mem [oc1, oc2] r m flags addr; write_enc e }"

definition write_modrm_reg_m :: "byte \<Rightarrow> static_operand list \<Rightarrow> enc_flags \<Rightarrow> u64 \<Rightarrow> byte list option" where
  "write_modrm_reg_m oc ops flags addr =
     do { r \<leftarrow> op_reg ops 0; m \<leftarrow> op_mem ops 1; e \<leftarrow> ModRM_reg_mem [oc] r m flags addr; write_enc e }"

definition write_modrm_reg_m2 :: "byte \<Rightarrow> byte \<Rightarrow> static_operand list \<Rightarrow> enc_flags \<Rightarrow> u64 \<Rightarrow> byte list option" where
  "write_modrm_reg_m2 oc1 oc2 ops flags addr =
     do { r \<leftarrow> op_reg ops 0; m \<leftarrow> op_mem ops 1; e \<leftarrow> ModRM_reg_mem [oc1, oc2] r m flags addr; write_enc e }"

definition write_modrm_r_reg :: "byte \<Rightarrow> static_operand list \<Rightarrow> enc_flags \<Rightarrow> byte list option" where
  "write_modrm_r_reg oc ops flags =
     do { r \<leftarrow> op_reg ops 1; b \<leftarrow> op_reg ops 0; e \<leftarrow> ModRM_reg_reg [oc] r b flags; write_enc e }"

definition write_modrm_r_reg2 :: "byte \<Rightarrow> byte \<Rightarrow> static_operand list \<Rightarrow> enc_flags \<Rightarrow> byte list option" where
  "write_modrm_r_reg2 oc1 oc2 ops flags =
     do { r \<leftarrow> op_reg ops 1; b \<leftarrow> op_reg ops 0; e \<leftarrow> ModRM_reg_reg [oc1, oc2] r b flags; write_enc e }"

definition write_modrm_reg_r :: "byte \<Rightarrow> static_operand list \<Rightarrow> enc_flags \<Rightarrow> byte list option" where
  "write_modrm_reg_r oc ops flags =
     do { r \<leftarrow> op_reg ops 0; b \<leftarrow> op_reg ops 1; e \<leftarrow> ModRM_reg_reg [oc] r b flags; write_enc e }"

definition write_modrm_reg_r2 :: "byte \<Rightarrow> byte \<Rightarrow> static_operand list \<Rightarrow> enc_flags \<Rightarrow> byte list option" where
  "write_modrm_reg_r2 oc1 oc2 ops flags =
     do { r \<leftarrow> op_reg ops 0; b \<leftarrow> op_reg ops 1; e \<leftarrow> ModRM_reg_reg [oc1, oc2] r b flags; write_enc e }"

definition write_modrm_m :: "byte \<Rightarrow> byte \<Rightarrow> static_operand list \<Rightarrow> enc_flags \<Rightarrow> u64 \<Rightarrow> byte list option" where
  "write_modrm_m oc oce ops flags addr =
     do { m \<leftarrow> op_mem ops 0; e \<leftarrow> ModRM_ext_mem [oc] oce m flags addr; write_enc e }"

definition write_modrm_r :: "byte \<Rightarrow> byte \<Rightarrow> static_operand list \<Rightarrow> enc_flags \<Rightarrow> byte list option" where
  "write_modrm_r oc oce ops flags =
     do { b \<leftarrow> op_reg ops 0; e \<leftarrow> ModRM_ext_reg [oc] oce b flags; write_enc e }"

definition write_modrm_m_imm8 :: "byte \<Rightarrow> byte \<Rightarrow> static_operand list \<Rightarrow> enc_flags \<Rightarrow> u64 \<Rightarrow> byte list option" where
  "write_modrm_m_imm8 oc oce ops flags addr =
     do { m \<leftarrow> op_mem ops 0; v \<leftarrow> op_imm ops 1; e \<leftarrow> ModRM_ext_mem_imm [oc] oce m v 1 flags addr; write_enc e }"

definition write_modrm_m_imm16 :: "byte \<Rightarrow> byte \<Rightarrow> static_operand list \<Rightarrow> enc_flags \<Rightarrow> u64 \<Rightarrow> byte list option" where
  "write_modrm_m_imm16 oc oce ops flags addr =
     do { m \<leftarrow> op_mem ops 0; v \<leftarrow> op_imm ops 1; e \<leftarrow> ModRM_ext_mem_imm [oc] oce m v 2 flags addr; write_enc e }"

definition write_modrm_m_imm32 :: "byte \<Rightarrow> byte \<Rightarrow> static_operand list \<Rightarrow> enc_flags \<Rightarrow> u64 \<Rightarrow> byte list option" where
  "write_modrm_m_imm32 oc oce ops flags addr =
     do { m \<leftarrow> op_mem ops 0; v \<leftarrow> op_imm ops 1; e \<leftarrow> ModRM_ext_mem_imm [oc] oce m v 4 flags addr; write_enc e }"

definition write_modrm_r_imm8 :: "byte \<Rightarrow> byte \<Rightarrow> static_operand list \<Rightarrow> enc_flags \<Rightarrow> byte list option" where
  "write_modrm_r_imm8 oc oce ops flags =
     do { b \<leftarrow> op_reg ops 0; v \<leftarrow> op_imm ops 1; e \<leftarrow> ModRM_ext_reg_imm [oc] oce b v 1 flags; write_enc e }"

definition write_modrm_r_imm16 :: "byte \<Rightarrow> byte \<Rightarrow> static_operand list \<Rightarrow> enc_flags \<Rightarrow> byte list option" where
  "write_modrm_r_imm16 oc oce ops flags =
     do { b \<leftarrow> op_reg ops 0; v \<leftarrow> op_imm ops 1; e \<leftarrow> ModRM_ext_reg_imm [oc] oce b v 2 flags; write_enc e }"

definition write_modrm_r_imm32 :: "byte \<Rightarrow> byte \<Rightarrow> static_operand list \<Rightarrow> enc_flags \<Rightarrow> byte list option" where
  "write_modrm_r_imm32 oc oce ops flags =
     do { b \<leftarrow> op_reg ops 0; v \<leftarrow> op_imm ops 1; e \<leftarrow> ModRM_ext_reg_imm [oc] oce b v 4 flags; write_enc e }"

text \<open>The formats without the byte for registers and memory: prefixes and opcode.\<close>

definition write_prefixes :: "enc_flags \<Rightarrow> bool \<Rightarrow> byte list" where
  "write_prefixes flags b =
     (let rex = rex_new\<lparr>rex_w := (and flags ENC_FLAG_REXW \<noteq> 0), rex_b := b\<rparr>
      in (if and flags ENC_FLAG_66 \<noteq> 0 then [0x66] else []) @ (if and flags ENC_FLAG_F2 \<noteq> 0 then [0xf2] else []) @
         (if rex_isRequired rex then [rex_val rex] else []))"

definition write_reg :: "byte \<Rightarrow> static_operand list \<Rightarrow> enc_flags \<Rightarrow> byte list option" where
  "write_reg oc ops flags =
     do { r \<leftarrow> op_reg ops 0;
          reg \<leftarrow> encodeReg r;
          Some (write_prefixes flags (and reg 8 \<noteq> 0) @ [or oc (and reg 7)]) }"

definition write_reg_imm64 :: "byte \<Rightarrow> static_operand list \<Rightarrow> enc_flags \<Rightarrow> byte list option" where
  "write_reg_imm64 oc ops flags =
     do { bs \<leftarrow> write_reg oc ops flags; v \<leftarrow> op_imm ops 1; Some (bs @ le_bytes 8 v) }"

definition write_reg_imm32 :: "byte \<Rightarrow> static_operand list \<Rightarrow> enc_flags \<Rightarrow> byte list option" where
  "write_reg_imm32 oc ops flags =
     do { bs \<leftarrow> write_reg oc ops flags; v \<leftarrow> op_imm ops 1; Some (bs @ le_bytes 4 v) }"

definition write_imm8 :: "byte \<Rightarrow> byte \<Rightarrow> enc_flags \<Rightarrow> byte list option" where
  "write_imm8 oc imm flags = Some (write_prefixes flags False @ [oc] @ le_bytes 1 imm)"

definition write_imm16 :: "byte \<Rightarrow> u16 \<Rightarrow> enc_flags \<Rightarrow> byte list option" where
  "write_imm16 oc imm flags = Some (write_prefixes flags False @ [oc] @ le_bytes 2 imm)"

definition write_imm32 :: "byte \<Rightarrow> u32 \<Rightarrow> enc_flags \<Rightarrow> byte list option" where
  "write_imm32 oc imm flags = Some (write_prefixes flags False @ [oc] @ le_bytes 4 imm)"

section \<open>Opcodes\<close>

text \<open>
  Operands are unions in the code. Where it reads an immediate from an operand that holds none,
  the bytes the operand does not define are whatever the memory has there: \<open>stale i\<close> are the
  eight bytes of operand \<open>i\<close>, a register defines the lowest.
\<close>

definition union_imm :: "(nat \<Rightarrow> u64) \<Rightarrow> static_operand list \<Rightarrow> nat \<Rightarrow> u64" where
  "union_imm stale ops i =
     (if i < length ops then
        case ops ! i of
          SopImm v \<Rightarrow> i64_val v
        | SopReg r \<Rightarrow> or (and (stale i) (not 0xff)) (of_nat (register_index r))
        | SopMem _ \<Rightarrow> stale i
      else stale i)"

primrec encode_add :: "add_opcode \<Rightarrow> static_operand list \<Rightarrow> u64 \<Rightarrow> byte list option" where
  "encode_add ADD8mr ops addr =
     write_modrm_m_reg 0x00 ops ENC_FLAG_NONE addr"
| "encode_add ADD16mr ops addr =
     write_modrm_m_reg 0x01 ops ENC_FLAG_66 addr"
| "encode_add ADD32mr ops addr =
     write_modrm_m_reg 0x01 ops ENC_FLAG_NONE addr"
| "encode_add ADD64mr ops addr =
     write_modrm_m_reg 0x01 ops ENC_FLAG_REXW addr"
| "encode_add ADD8rr ops addr =
     write_modrm_r_reg 0x00 ops ENC_FLAG_NONE"
| "encode_add ADD16rr ops addr =
     write_modrm_r_reg 0x01 ops ENC_FLAG_66"
| "encode_add ADD32rr ops addr =
     write_modrm_r_reg 0x01 ops ENC_FLAG_NONE"
| "encode_add ADD64rr ops addr =
     write_modrm_r_reg 0x01 ops ENC_FLAG_REXW"
| "encode_add ADD8rm ops addr =
     write_modrm_reg_m 0x02 ops ENC_FLAG_NONE addr"
| "encode_add ADD16rm ops addr =
     write_modrm_reg_m 0x03 ops ENC_FLAG_66 addr"
| "encode_add ADD32rm ops addr =
     write_modrm_reg_m 0x03 ops ENC_FLAG_NONE addr"
| "encode_add ADD64rm ops addr =
     write_modrm_reg_m 0x03 ops ENC_FLAG_REXW addr"
| "encode_add ADD8mi ops addr =
     write_modrm_m_imm8 0x80 0 ops ENC_FLAG_NONE addr"
| "encode_add ADD16mi ops addr =
     do { v \<leftarrow> op_imm ops 1;
          if is_simm8 v then write_modrm_m_imm8 0x83 0 ops ENC_FLAG_66 addr
          else write_modrm_m_imm16 0x81 0 ops ENC_FLAG_66 addr }"
| "encode_add ADD32mi ops addr =
     do { v \<leftarrow> op_imm ops 1;
          if is_simm8 v then write_modrm_m_imm8 0x83 0 ops ENC_FLAG_NONE addr
          else write_modrm_m_imm32 0x81 0 ops ENC_FLAG_NONE addr }"
| "encode_add ADD64mi ops addr =
     do { v \<leftarrow> op_imm ops 1;
          if is_simm8 v then write_modrm_m_imm8 0x83 0 ops ENC_FLAG_REXW addr
          else write_modrm_m_imm32 0x81 0 ops ENC_FLAG_REXW addr }"
| "encode_add ADD8ri ops addr =
     do { v \<leftarrow> op_imm ops 1;
          r \<leftarrow> op_reg ops 0;
          if r = Gpr8 GA then write_imm8 0x04 (ucast v) ENC_FLAG_NONE
          else write_modrm_r_imm8 0x80 0 ops ENC_FLAG_NONE }"
| "encode_add ADD16ri ops addr =
     do { v \<leftarrow> op_imm ops 1;
          r \<leftarrow> op_reg ops 0;
          if is_simm8 v then write_modrm_r_imm8 0x83 0 ops ENC_FLAG_66
          else if r = Gpr16 GA then write_imm16 0x05 (ucast v) ENC_FLAG_66
          else write_modrm_r_imm16 0x81 0 ops ENC_FLAG_66 }"
| "encode_add ADD32ri ops addr =
     do { v \<leftarrow> op_imm ops 1;
          r \<leftarrow> op_reg ops 0;
          if is_simm8 v then write_modrm_r_imm8 0x83 0 ops ENC_FLAG_NONE
          else if r = Gpr32 GA then write_imm32 0x05 (ucast v) ENC_FLAG_NONE
          else write_modrm_r_imm32 0x81 0 ops ENC_FLAG_NONE }"
| "encode_add ADD64ri ops addr =
     do { v \<leftarrow> op_imm ops 1;
          r \<leftarrow> op_reg ops 0;
          if is_simm8 v then write_modrm_r_imm8 0x83 0 ops ENC_FLAG_REXW
          else if r = Gpr64 GA then write_imm32 0x05 (ucast v) ENC_FLAG_REXW
          else write_modrm_r_imm32 0x81 0 ops ENC_FLAG_REXW }"

definition encode_addpd :: "sse_opcode \<Rightarrow> static_operand list \<Rightarrow> u64 \<Rightarrow> byte list option" where
  "encode_addpd opc ops addr =
     (case opc of
          ADDPDrr \<Rightarrow> write_modrm_reg_r2 0x0f 0x58 ops ENC_FLAG_66
      | ADDPDrm \<Rightarrow> write_modrm_reg_m2 0x0f 0x58 ops ENC_FLAG_66 addr
      | _ \<Rightarrow> throw)"

definition encode_addsd :: "sse_opcode \<Rightarrow> static_operand list \<Rightarrow> u64 \<Rightarrow> byte list option" where
  "encode_addsd opc ops addr =
     (case opc of
          ADDSDrr \<Rightarrow> write_modrm_reg_r2 0x0f 0x58 ops ENC_FLAG_F2
      | ADDSDrm \<Rightarrow> write_modrm_reg_m2 0x0f 0x58 ops ENC_FLAG_F2 addr
      | _ \<Rightarrow> throw)"

primrec encode_call :: "call_opcode \<Rightarrow> static_operand list \<Rightarrow> u64 \<Rightarrow> byte list option" where
  "encode_call CALLr ops addr =
     write_modrm_r 0xff 0x03 ops ENC_FLAG_NONE"
| "encode_call CALLm ops addr =
     write_modrm_m 0xff 0x03 ops ENC_FLAG_NONE addr"
| "encode_call CALLa ops addr = throw"

primrec encode_cmp :: "cmp_opcode \<Rightarrow> static_operand list \<Rightarrow> u64 \<Rightarrow> byte list option" where
  "encode_cmp CMP8mr ops addr =
     write_modrm_m_reg 0x38 ops ENC_FLAG_NONE addr"
| "encode_cmp CMP8mi ops addr =
     write_modrm_m_imm8 0x80 7 ops ENC_FLAG_NONE addr"
| "encode_cmp CMP8rm ops addr =
     write_modrm_reg_m 0x3a ops ENC_FLAG_NONE addr"
| "encode_cmp CMP8rr ops addr =
     write_modrm_r_reg 0x38 ops ENC_FLAG_NONE"
| "encode_cmp CMP8ri ops addr =
     do { v \<leftarrow> op_imm ops 1;
          r \<leftarrow> op_reg ops 0;
          if r = Gpr8 GA then write_imm8 0x3c (ucast v) ENC_FLAG_NONE
          else write_modrm_r_imm8 0x80 7 ops ENC_FLAG_NONE }"
| "encode_cmp CMP16mr ops addr =
     write_modrm_m_reg 0x39 ops ENC_FLAG_66 addr"
| "encode_cmp CMP16mi ops addr =
     do { v \<leftarrow> op_imm ops 1;
          if is_simm8 v then write_modrm_m_imm8 0x83 7 ops ENC_FLAG_66 addr
          else write_modrm_m_imm16 0x81 7 ops ENC_FLAG_66 addr }"
| "encode_cmp CMP16rm ops addr =
     write_modrm_reg_m 0x3b ops ENC_FLAG_66 addr"
| "encode_cmp CMP16rr ops addr =
     write_modrm_r_reg 0x39 ops ENC_FLAG_66"
| "encode_cmp CMP16ri ops addr =
     do { v \<leftarrow> op_imm ops 1;
          r \<leftarrow> op_reg ops 0;
          if is_simm8 v then write_modrm_r_imm8 0x83 7 ops ENC_FLAG_66
          else if r = Gpr32 GA then write_imm16 0x3d (ucast v) ENC_FLAG_66
          else write_modrm_r_imm16 0x81 7 ops ENC_FLAG_66 }"
| "encode_cmp CMP32mr ops addr =
     write_modrm_m_reg 0x39 ops ENC_FLAG_NONE addr"
| "encode_cmp CMP32mi ops addr =
     do { v \<leftarrow> op_imm ops 1;
          if is_simm8 v then write_modrm_m_imm8 0x83 7 ops ENC_FLAG_NONE addr
          else write_modrm_m_imm32 0x81 7 ops ENC_FLAG_NONE addr }"
| "encode_cmp CMP32rm ops addr =
     write_modrm_reg_m 0x3b ops ENC_FLAG_NONE addr"
| "encode_cmp CMP32rr ops addr =
     write_modrm_r_reg 0x39 ops ENC_FLAG_NONE"
| "encode_cmp CMP32ri ops addr =
     do { v \<leftarrow> op_imm ops 1;
          r \<leftarrow> op_reg ops 0;
          if is_simm8 v then write_modrm_r_imm8 0x83 7 ops ENC_FLAG_NONE
          else if r = Gpr32 GA then write_imm32 0x3d (ucast v) ENC_FLAG_NONE
          else write_modrm_r_imm32 0x81 7 ops ENC_FLAG_NONE }"
| "encode_cmp CMP64mr ops addr =
     write_modrm_m_reg 0x39 ops ENC_FLAG_REXW addr"
| "encode_cmp CMP64mi ops addr =
     do { v \<leftarrow> op_imm ops 1;
          if is_simm8 v then write_modrm_m_imm8 0x83 7 ops ENC_FLAG_REXW addr
          else write_modrm_m_imm32 0x81 7 ops ENC_FLAG_REXW addr }"
| "encode_cmp CMP64rm ops addr =
     write_modrm_reg_m 0x3b ops ENC_FLAG_REXW addr"
| "encode_cmp CMP64rr ops addr =
     write_modrm_r_reg 0x39 ops ENC_FLAG_REXW"
| "encode_cmp CMP64ri ops addr =
     do { v \<leftarrow> op_imm ops 1;
          r \<leftarrow> op_reg ops 0;
          if is_simm8 v then write_modrm_r_imm8 0x83 7 ops ENC_FLAG_REXW
          else if r = Gpr64 GA then write_imm32 0x3d (ucast v) ENC_FLAG_REXW
          else write_modrm_r_imm32 0x81 7 ops ENC_FLAG_REXW }"

primrec encode_jmp :: "jmp_opcode \<Rightarrow> static_operand list \<Rightarrow> u64 \<Rightarrow> byte list option" where
  "encode_jmp JMPr ops addr =
     write_modrm_r 0xff 0x04 ops ENC_FLAG_66"
| "encode_jmp JMPm ops addr =
     write_modrm_m 0xff 0x04 ops ENC_FLAG_66 addr"
| "encode_jmp JMPa ops addr = throw"

primrec encode_lea :: "lea_opcode \<Rightarrow> static_operand list \<Rightarrow> u64 \<Rightarrow> byte list option" where
  "encode_lea LEA16ra ops addr =
     write_modrm_reg_m 0x8d ops ENC_FLAG_66 addr"
| "encode_lea LEA32ra ops addr =
     write_modrm_reg_m 0x8d ops ENC_FLAG_NONE addr"
| "encode_lea LEA64ra ops addr =
     write_modrm_reg_m 0x8d ops ENC_FLAG_REXW addr"

text \<open>The 64-bit offset of the accumulator form.\<close>

definition write_moffs :: "byte \<Rightarrow> u64 \<Rightarrow> byte list" where
  "write_moffs oc a = [rex_val (rex_new\<lparr>rex_w := True\<rparr>), oc] @ le_bytes 8 a"

definition uses_moffs :: "static_operand list \<Rightarrow> nat \<Rightarrow> nat \<Rightarrow> u64 option option" where
  "uses_moffs ops i j =
     do { m \<leftarrow> op_mem ops i;
            r \<leftarrow> op_reg ops j;
            Some (case m of
                    MpDirect a \<Rightarrow> if r = Gpr64 GA \<and> \<not> isDisp32 (i64_val a) then Some (i64_val a) else None
                  | _ \<Rightarrow> None) }"

primrec encode_mov :: "(nat \<Rightarrow> u64) \<Rightarrow> mov_opcode \<Rightarrow> static_operand list \<Rightarrow> u64 \<Rightarrow> byte list option" where
  "encode_mov stale MOV64mr ops addr =
     do { moffs \<leftarrow> uses_moffs ops 0 1;
            case moffs of Some a \<Rightarrow> Some (write_moffs 0xa3 a) | None \<Rightarrow> write_modrm_m_reg 0x89 ops ENC_FLAG_REXW addr }"
| "encode_mov stale MOV64rr ops addr = write_modrm_r_reg 0x89 ops ENC_FLAG_REXW"
| "encode_mov stale MOV64rm ops addr =
     do { moffs \<leftarrow> uses_moffs ops 1 0;
            case moffs of Some a \<Rightarrow> Some (write_moffs 0xa1 a) | None \<Rightarrow> write_modrm_reg_m 0x8b ops ENC_FLAG_REXW addr }"
| "encode_mov stale MOV64mi ops addr = write_modrm_m_imm32 0xc7 0 ops ENC_FLAG_REXW addr"
| "encode_mov stale MOV64ri ops addr =
     (if is_simm32 (union_imm stale ops 0) then write_modrm_r_imm32 0xc7 0 ops ENC_FLAG_REXW
      else write_reg_imm64 0xb8 ops ENC_FLAG_REXW)"
| "encode_mov stale MOV32mr ops addr = write_modrm_m_reg 0x89 ops ENC_FLAG_NONE addr"
| "encode_mov stale MOV32rr ops addr = write_modrm_r_reg 0x89 ops ENC_FLAG_NONE"
| "encode_mov stale MOV32rm ops addr = write_modrm_reg_m 0x8b ops ENC_FLAG_NONE addr"
| "encode_mov stale MOV32mi ops addr = write_modrm_m_imm32 0xc7 0 ops ENC_FLAG_NONE addr"
| "encode_mov stale MOV32ri ops addr = write_reg_imm32 0xb8 ops ENC_FLAG_NONE"

definition encode_movapd :: "movx_opcode \<Rightarrow> static_operand list \<Rightarrow> u64 \<Rightarrow> byte list option" where
  "encode_movapd opc ops addr =
     (case opc of
          MOVAPDrm \<Rightarrow> write_modrm_reg_m2 0x0f 0x28 ops ENC_FLAG_66 addr
      | MOVAPDrr \<Rightarrow> write_modrm_reg_r2 0x0f 0x28 ops ENC_FLAG_66
      | MOVAPDmr \<Rightarrow> write_modrm_m_reg2 0x0f 0x29 ops ENC_FLAG_66 addr
      | _ \<Rightarrow> throw)"

definition encode_movsd :: "movx_opcode \<Rightarrow> static_operand list \<Rightarrow> u64 \<Rightarrow> byte list option" where
  "encode_movsd opc ops addr =
     (case opc of
          MOVSDrm \<Rightarrow> write_modrm_reg_m2 0x0f 0x10 ops ENC_FLAG_F2 addr
      | MOVSDrr \<Rightarrow> write_modrm_reg_r2 0x0f 0x10 ops ENC_FLAG_F2
      | MOVSDmr \<Rightarrow> write_modrm_m_reg2 0x0f 0x11 ops ENC_FLAG_F2 addr
      | _ \<Rightarrow> throw)"

definition encode_movupd :: "movx_opcode \<Rightarrow> static_operand list \<Rightarrow> u64 \<Rightarrow> byte list option" where
  "encode_movupd opc ops addr =
     (case opc of
          MOVUPDmr \<Rightarrow> write_modrm_m_reg2 0x0f 0x11 ops ENC_FLAG_66 addr
      | MOVUPDrr \<Rightarrow> write_modrm_reg_r2 0x0f 0x10 ops ENC_FLAG_66
      | MOVUPDrm \<Rightarrow> write_modrm_reg_m2 0x0f 0x10 ops ENC_FLAG_66 addr
      | _ \<Rightarrow> throw)"

definition encode_movups :: "movx_opcode \<Rightarrow> static_operand list \<Rightarrow> u64 \<Rightarrow> byte list option" where
  "encode_movups opc ops addr =
     (case opc of
          MOVUPSmr \<Rightarrow> write_modrm_m_reg2 0x0f 0x11 ops ENC_FLAG_NONE addr
      | MOVUPSrr \<Rightarrow> write_modrm_reg_r2 0x0f 0x10 ops ENC_FLAG_NONE
      | MOVUPSrm \<Rightarrow> write_modrm_reg_m2 0x0f 0x10 ops ENC_FLAG_NONE addr
      | _ \<Rightarrow> throw)"

definition encode_mulpd :: "sse_opcode \<Rightarrow> static_operand list \<Rightarrow> u64 \<Rightarrow> byte list option" where
  "encode_mulpd opc ops addr =
     (case opc of
          MULPDrr \<Rightarrow> write_modrm_reg_r2 0x0f 0x59 ops ENC_FLAG_66
      | MULPDrm \<Rightarrow> write_modrm_reg_m2 0x0f 0x59 ops ENC_FLAG_66 addr
      | _ \<Rightarrow> throw)"

definition encode_mulsd :: "sse_opcode \<Rightarrow> static_operand list \<Rightarrow> u64 \<Rightarrow> byte list option" where
  "encode_mulsd opc ops addr =
     (case opc of
          MULSDrr \<Rightarrow> write_modrm_reg_r2 0x0f 0x59 ops ENC_FLAG_F2
      | MULSDrm \<Rightarrow> write_modrm_reg_m2 0x0f 0x59 ops ENC_FLAG_F2 addr
      | _ \<Rightarrow> throw)"

definition encode_pop :: "stack_opcode \<Rightarrow> static_operand list \<Rightarrow> u64 \<Rightarrow> byte list option" where
  "encode_pop opc ops addr =
     (case opc of
          POP16m \<Rightarrow> write_modrm_m 0x8f 0 ops ENC_FLAG_66 addr
      | POP16r \<Rightarrow> write_reg 0x58 ops ENC_FLAG_66
      | POP64m \<Rightarrow> write_modrm_m 0x8f 0 ops ENC_FLAG_NONE addr
      | POP64r \<Rightarrow> write_reg 0x58 ops ENC_FLAG_NONE
      | _ \<Rightarrow> throw)"

definition encode_push :: "stack_opcode \<Rightarrow> static_operand list \<Rightarrow> u64 \<Rightarrow> byte list option" where
  "encode_push opc ops addr =
     (case opc of
          PUSH16m \<Rightarrow> write_modrm_m 0xff 6 ops ENC_FLAG_66 addr
      | PUSH16r \<Rightarrow> write_reg 0x50 ops ENC_FLAG_66
      | PUSH16i \<Rightarrow> do { v \<leftarrow> op_imm ops 0; write_imm16 0x68 (ucast v) ENC_FLAG_66 }
      | PUSH64m \<Rightarrow> write_modrm_m 0xff 6 ops ENC_FLAG_NONE addr
      | PUSH64r \<Rightarrow> write_reg 0x50 ops ENC_FLAG_NONE
      | PUSH64i \<Rightarrow> do { v \<leftarrow> op_imm ops 0;
          if is_simm8 v then write_imm8 0x6a (ucast v) ENC_FLAG_NONE
          else write_imm32 0x68 (ucast v) ENC_FLAG_NONE }
      | _ \<Rightarrow> throw)"

definition encode_pxor :: "sse_opcode \<Rightarrow> static_operand list \<Rightarrow> u64 \<Rightarrow> byte list option" where
  "encode_pxor opc ops addr =
     (case opc of
          PXOR128rr \<Rightarrow> write_modrm_reg_r2 0x0f 0xef ops ENC_FLAG_66
      | PXOR128rm \<Rightarrow> write_modrm_reg_m2 0x0f 0xef ops ENC_FLAG_66 addr
      | _ \<Rightarrow> throw)"

definition encode_shl :: "(nat \<Rightarrow> u64) \<Rightarrow> shift_opcode \<Rightarrow> static_operand list \<Rightarrow> u64 \<Rightarrow> byte list option" where
  "encode_shl stale opc ops addr =
     (case opc of
          SHL64m \<Rightarrow> write_modrm_m 0xd3 4 ops ENC_FLAG_REXW addr
      | SHL64r \<Rightarrow> write_modrm_r 0xd3 4 ops ENC_FLAG_REXW
      | SHL64mi \<Rightarrow> (if union_imm stale ops 2 = 1 then write_modrm_m 0xd1 4 ops ENC_FLAG_REXW addr
          else write_modrm_m_imm8 0xc1 4 ops ENC_FLAG_REXW addr)
      | SHL64ri \<Rightarrow> (if union_imm stale ops 2 = 1 then write_modrm_r 0xd1 4 ops ENC_FLAG_REXW
          else write_modrm_r_imm8 0xc1 4 ops ENC_FLAG_REXW)
      | _ \<Rightarrow> throw)"

definition encode_shr :: "(nat \<Rightarrow> u64) \<Rightarrow> shift_opcode \<Rightarrow> static_operand list \<Rightarrow> u64 \<Rightarrow> byte list option" where
  "encode_shr stale opc ops addr =
     (case opc of
          SHR64m \<Rightarrow> write_modrm_m 0xd3 5 ops ENC_FLAG_REXW addr
      | SHR64r \<Rightarrow> write_modrm_r 0xd3 5 ops ENC_FLAG_REXW
      | SHR64mi \<Rightarrow> (if union_imm stale ops 2 = 1 then write_modrm_m 0xd1 5 ops ENC_FLAG_REXW addr
          else write_modrm_m_imm8 0xc1 5 ops ENC_FLAG_REXW addr)
      | SHR64ri \<Rightarrow> (if union_imm stale ops 2 = 1 then write_modrm_r 0xd1 5 ops ENC_FLAG_REXW
          else write_modrm_r_imm8 0xc1 5 ops ENC_FLAG_REXW)
      | _ \<Rightarrow> throw)"

primrec encode_sub :: "sub_opcode \<Rightarrow> static_operand list \<Rightarrow> u64 \<Rightarrow> byte list option" where
  "encode_sub SUB8mr ops addr =
     write_modrm_m_reg 0x28 ops ENC_FLAG_NONE addr"
| "encode_sub SUB16mr ops addr =
     write_modrm_m_reg 0x29 ops ENC_FLAG_66 addr"
| "encode_sub SUB32mr ops addr =
     write_modrm_m_reg 0x29 ops ENC_FLAG_NONE addr"
| "encode_sub SUB64mr ops addr =
     write_modrm_m_reg 0x29 ops ENC_FLAG_REXW addr"
| "encode_sub SUB8rr ops addr =
     write_modrm_r_reg 0x28 ops ENC_FLAG_NONE"
| "encode_sub SUB16rr ops addr =
     write_modrm_r_reg 0x29 ops ENC_FLAG_66"
| "encode_sub SUB32rr ops addr =
     write_modrm_r_reg 0x29 ops ENC_FLAG_NONE"
| "encode_sub SUB64rr ops addr =
     write_modrm_r_reg 0x29 ops ENC_FLAG_REXW"
| "encode_sub SUB8rm ops addr =
     write_modrm_reg_m 0x28 ops ENC_FLAG_NONE addr"
| "encode_sub SUB16rm ops addr =
     write_modrm_reg_m 0x29 ops ENC_FLAG_66 addr"
| "encode_sub SUB32rm ops addr =
     write_modrm_reg_m 0x29 ops ENC_FLAG_NONE addr"
| "encode_sub SUB64rm ops addr =
     write_modrm_reg_m 0x29 ops ENC_FLAG_REXW addr"
| "encode_sub SUB8mi ops addr =
     write_modrm_m_imm8 0x80 5 ops ENC_FLAG_NONE addr"
| "encode_sub SUB16mi ops addr =
     do { v \<leftarrow> op_imm ops 1;
          if is_simm8 v then write_modrm_m_imm8 0x83 5 ops ENC_FLAG_66 addr
          else write_modrm_m_imm16 0x81 5 ops ENC_FLAG_66 addr }"
| "encode_sub SUB32mi ops addr =
     do { v \<leftarrow> op_imm ops 1;
          if is_simm8 v then write_modrm_m_imm8 0x83 5 ops ENC_FLAG_NONE addr
          else write_modrm_m_imm32 0x81 5 ops ENC_FLAG_NONE addr }"
| "encode_sub SUB64mi ops addr =
     do { v \<leftarrow> op_imm ops 1;
          if is_simm8 v then write_modrm_m_imm8 0x83 5 ops ENC_FLAG_REXW addr
          else write_modrm_m_imm32 0x81 5 ops ENC_FLAG_REXW addr }"
| "encode_sub SUB8ri ops addr =
     do { v \<leftarrow> op_imm ops 1;
          r \<leftarrow> op_reg ops 0;
          if r = Gpr8 GA then write_imm8 0x2c (ucast v) ENC_FLAG_NONE
          else write_modrm_r_imm8 0x80 5 ops ENC_FLAG_NONE }"
| "encode_sub SUB16ri ops addr =
     do { v \<leftarrow> op_imm ops 1;
          r \<leftarrow> op_reg ops 0;
          if is_simm8 v then write_modrm_r_imm8 0x83 5 ops ENC_FLAG_66
          else if r = Gpr16 GA then write_imm16 0x2d (ucast v) ENC_FLAG_66
          else write_modrm_r_imm16 0x81 5 ops ENC_FLAG_66 }"
| "encode_sub SUB32ri ops addr =
     do { v \<leftarrow> op_imm ops 1;
          r \<leftarrow> op_reg ops 0;
          if is_simm8 v then write_modrm_r_imm8 0x83 5 ops ENC_FLAG_NONE
          else if r = Gpr32 GA then write_imm32 0x2d (ucast v) ENC_FLAG_NONE
          else write_modrm_r_imm32 0x81 5 ops ENC_FLAG_NONE }"
| "encode_sub SUB64ri ops addr =
     do { v \<leftarrow> op_imm ops 1;
          r \<leftarrow> op_reg ops 0;
          if is_simm8 v then write_modrm_r_imm8 0x83 5 ops ENC_FLAG_REXW
          else if r = Gpr64 GA then write_imm32 0x2d (ucast v) ENC_FLAG_REXW
          else write_modrm_r_imm32 0x81 5 ops ENC_FLAG_REXW }"

primrec encode_test :: "test_opcode \<Rightarrow> static_operand list \<Rightarrow> u64 \<Rightarrow> byte list option" where
  "encode_test TEST8mr ops addr =
     write_modrm_m_reg 0x84 ops ENC_FLAG_NONE addr"
| "encode_test TEST8mi ops addr =
     write_modrm_m_imm8 0xf6 0 ops ENC_FLAG_NONE addr"
| "encode_test TEST8rr ops addr =
     write_modrm_r_reg 0x84 ops ENC_FLAG_66"
| "encode_test TEST8ri ops addr =
     do { v \<leftarrow> op_imm ops 1;
          r \<leftarrow> op_reg ops 0;
          if r = Gpr8 GA then write_imm8 0xa8 (ucast v) ENC_FLAG_66
          else write_modrm_r_imm8 0xf6 0 ops ENC_FLAG_NONE }"
| "encode_test TEST16mr ops addr =
     write_modrm_m_reg 0x85 ops ENC_FLAG_66 addr"
| "encode_test TEST16mi ops addr =
     write_modrm_m_imm16 0xf7 0 ops ENC_FLAG_66 addr"
| "encode_test TEST16rr ops addr =
     write_modrm_r_reg 0x85 ops ENC_FLAG_66"
| "encode_test TEST16ri ops addr =
     do { v \<leftarrow> op_imm ops 1;
          r \<leftarrow> op_reg ops 0;
          if r = Gpr16 GA then write_imm16 0xa9 (ucast v) ENC_FLAG_66
          else write_modrm_r_imm16 0xf7 0 ops ENC_FLAG_66 }"
| "encode_test TEST32mr ops addr =
     write_modrm_m_reg 0x85 ops ENC_FLAG_NONE addr"
| "encode_test TEST32mi ops addr =
     write_modrm_m_imm32 0xf7 0 ops ENC_FLAG_NONE addr"
| "encode_test TEST32rr ops addr =
     write_modrm_r_reg 0x85 ops ENC_FLAG_NONE"
| "encode_test TEST32ri ops addr =
     do { v \<leftarrow> op_imm ops 1;
          r \<leftarrow> op_reg ops 0;
          if r = Gpr32 GA then write_imm32 0xa9 (ucast v) ENC_FLAG_NONE
          else write_modrm_r_imm32 0xf7 0 ops ENC_FLAG_NONE }"
| "encode_test TEST64mr ops addr =
     write_modrm_m_reg 0x85 ops ENC_FLAG_REXW addr"
| "encode_test TEST64mi ops addr =
     write_modrm_m_imm32 0xf7 0 ops ENC_FLAG_REXW addr"
| "encode_test TEST64rr ops addr =
     write_modrm_r_reg 0x85 ops ENC_FLAG_REXW"
| "encode_test TEST64ri ops addr =
     do { v \<leftarrow> op_imm ops 1;
          r \<leftarrow> op_reg ops 0;
          if r = Gpr64 GA then write_imm32 0xa9 (ucast v) ENC_FLAG_REXW
          else write_modrm_r_imm32 0xf7 0 ops ENC_FLAG_REXW }"

primrec encode_xor :: "xor_opcode \<Rightarrow> static_operand list \<Rightarrow> u64 \<Rightarrow> byte list option" where
  "encode_xor XOR64mr ops addr =
     write_modrm_m_reg 0x31 ops ENC_FLAG_REXW addr"
| "encode_xor XOR64rr ops addr =
     write_modrm_r_reg 0x31 ops ENC_FLAG_REXW"
| "encode_xor XOR64rm ops addr =
     write_modrm_reg_m 0x33 ops ENC_FLAG_REXW addr"
| "encode_xor XOR64mi ops addr =
     do { v \<leftarrow> op_imm ops 1;
          if is_simm8 v then write_modrm_m_imm8 0x83 6 ops ENC_FLAG_REXW addr
          else write_modrm_m_imm32 0x81 6 ops ENC_FLAG_REXW addr }"
| "encode_xor XOR64ri ops addr =
     do { v \<leftarrow> op_imm ops 1;
          r \<leftarrow> op_reg ops 0;
          if is_simm8 v then write_modrm_r_imm8 0x83 6 ops ENC_FLAG_REXW
          else if r = Gpr64 GA then write_imm32 0x35 (ucast v) ENC_FLAG_REXW
          else write_modrm_r_imm32 0x81 6 ops ENC_FLAG_REXW }"
| "encode_xor XOR32mr ops addr =
     write_modrm_m_reg 0x31 ops ENC_FLAG_NONE addr"
| "encode_xor XOR32rr ops addr =
     write_modrm_r_reg 0x31 ops ENC_FLAG_NONE"
| "encode_xor XOR32rm ops addr =
     write_modrm_reg_m 0x33 ops ENC_FLAG_NONE addr"
| "encode_xor XOR32mi ops addr =
     do { v \<leftarrow> op_imm ops 1;
          if is_simm8 v then write_modrm_m_imm8 0x83 6 ops ENC_FLAG_NONE addr
          else write_modrm_m_imm32 0x81 6 ops ENC_FLAG_REXW addr }"
| "encode_xor XOR32ri ops addr =
     do { v \<leftarrow> op_imm ops 1;
          r \<leftarrow> op_reg ops 0;
          if is_simm8 v then write_modrm_r_imm8 0x83 6 ops ENC_FLAG_NONE
          else if r = Gpr64 GA then write_imm32 0x35 (ucast v) ENC_FLAG_NONE
          else write_modrm_r_imm32 0x81 6 ops ENC_FLAG_NONE }"

definition encode_ret :: "byte list" where
  "encode_ret = [0xc3]"

text \<open>Branches and calls with a known target are written by the code generation.\<close>

definition encode_jcc :: "byte list option" where
  "encode_jcc = throw"

definition run_encode :: "(nat \<Rightarrow> u64) \<Rightarrow> encode_fn \<Rightarrow> opcode \<Rightarrow> static_operand list \<Rightarrow> u64 \<Rightarrow> byte list option" where
  "run_encode stale fn opc ops addr =
     (case fn of
  Enc_add \<Rightarrow> (case opc of Add x \<Rightarrow> encode_add x ops addr | _ \<Rightarrow> throw)
      |   Enc_addpd \<Rightarrow> (case opc of Sse x \<Rightarrow> encode_addpd x ops addr | _ \<Rightarrow> throw)
      |   Enc_addsd \<Rightarrow> (case opc of Sse x \<Rightarrow> encode_addsd x ops addr | _ \<Rightarrow> throw)
      |   Enc_call \<Rightarrow> (case opc of Call x \<Rightarrow> encode_call x ops addr | _ \<Rightarrow> throw)
      |   Enc_cmp \<Rightarrow> (case opc of Cmp x \<Rightarrow> encode_cmp x ops addr | _ \<Rightarrow> throw)
      |   Enc_jmp \<Rightarrow> (case opc of Jmp x \<Rightarrow> encode_jmp x ops addr | _ \<Rightarrow> throw)
      |   Enc_lea \<Rightarrow> (case opc of Lea x \<Rightarrow> encode_lea x ops addr | _ \<Rightarrow> throw)
      |   Enc_mov \<Rightarrow> (case opc of Mov x \<Rightarrow> encode_mov stale x ops addr | _ \<Rightarrow> throw)
      |   Enc_movapd \<Rightarrow> (case opc of MovX x \<Rightarrow> encode_movapd x ops addr | _ \<Rightarrow> throw)
      |   Enc_movsd \<Rightarrow> (case opc of MovX x \<Rightarrow> encode_movsd x ops addr | _ \<Rightarrow> throw)
      |   Enc_movupd \<Rightarrow> (case opc of MovX x \<Rightarrow> encode_movupd x ops addr | _ \<Rightarrow> throw)
      |   Enc_movups \<Rightarrow> (case opc of MovX x \<Rightarrow> encode_movups x ops addr | _ \<Rightarrow> throw)
      |   Enc_mulpd \<Rightarrow> (case opc of Sse x \<Rightarrow> encode_mulpd x ops addr | _ \<Rightarrow> throw)
      |   Enc_mulsd \<Rightarrow> (case opc of Sse x \<Rightarrow> encode_mulsd x ops addr | _ \<Rightarrow> throw)
      |   Enc_pop \<Rightarrow> (case opc of Stack x \<Rightarrow> encode_pop x ops addr | _ \<Rightarrow> throw)
      |   Enc_push \<Rightarrow> (case opc of Stack x \<Rightarrow> encode_push x ops addr | _ \<Rightarrow> throw)
      |   Enc_pxor \<Rightarrow> (case opc of Sse x \<Rightarrow> encode_pxor x ops addr | _ \<Rightarrow> throw)
      |   Enc_shl \<Rightarrow> (case opc of Shift x \<Rightarrow> encode_shl stale x ops addr | _ \<Rightarrow> throw)
      |   Enc_shr \<Rightarrow> (case opc of Shift x \<Rightarrow> encode_shr stale x ops addr | _ \<Rightarrow> throw)
      |   Enc_sub \<Rightarrow> (case opc of Sub x \<Rightarrow> encode_sub x ops addr | _ \<Rightarrow> throw)
      |   Enc_test \<Rightarrow> (case opc of Test x \<Rightarrow> encode_test x ops addr | _ \<Rightarrow> throw)
      |   Enc_xor \<Rightarrow> (case opc of Xor x \<Rightarrow> encode_xor x ops addr | _ \<Rightarrow> throw)
      |   Enc_jcc \<Rightarrow> encode_jcc
      |   Enc_ret \<Rightarrow> Some encode_ret)"

section \<open>Padding\<close>

fun nops_table :: "nat \<Rightarrow> byte list" where
  "nops_table n =
     (if n = 1 then [0x90] else if n = 2 then [0x66, 0x90] else if n = 3 then [0x0f, 0x1f, 0x00]
      else if n = 4 then [0x0f, 0x1f, 0x40, 0x00] else if n = 5 then [0x0f, 0x1f, 0x44, 0x00, 0x00]
      else if n = 6 then [0x66, 0x0f, 0x1f, 0x44, 0x00, 0x00]
      else if n = 7 then [0x0f, 0x1f, 0x80, 0x00, 0x00, 0x00, 0x00]
      else if n = 8 then [0x0f, 0x1f, 0x84, 0x00, 0x00, 0x00, 0x00, 0x00]
      else if n = 9 then [0x66, 0x0f, 0x1f, 0x84, 0x00, 0x00, 0x00, 0x00, 0x00] else [])"

fun arch_fill_with_nops :: "nat \<Rightarrow> byte list" where
  "arch_fill_with_nops n =
     (if n > 9 then nops_table 9 @ arch_fill_with_nops (n - 9) else nops_table n)"

declare nops_table.simps [simp del] arch_fill_with_nops.simps [simp del]

end
