(* ===== verification/Encode_Spec.thy ===== *)
theory Encode_Spec
  imports Encode_Ops
begin

text \<open>
  What the bytes of an instruction mean, as the processor manual has it and independent of the
  encoder: prefixes, REX, opcode, the byte for register and memory operands with what follows
  it, immediates. A format says how an instruction is written; \<open>encodes\<close> says that bytes
  are a given instruction with given operands.
\<close>

section \<open>The front of an instruction\<close>

record front =
  fr_66 :: bool
  fr_67 :: bool
  fr_F2 :: bool
  fr_rex :: "byte option"
  fr_oc :: "byte list"

definition rex_bit :: "nat \<Rightarrow> front \<Rightarrow> bool" where
  "rex_bit n fr = (case fr_rex fr of None \<Rightarrow> False | Some b \<Rightarrow> bit b n)"

fun take_prefixes :: "bool \<times> bool \<times> bool \<Rightarrow> byte list \<Rightarrow> (bool \<times> bool \<times> bool) \<times> byte list" where
  "take_prefixes (p, a, r) (b # bs) =
     (if b = 0x66 then take_prefixes (True, a, r) bs
      else if b = 0x67 then take_prefixes (p, True, r) bs
      else if b = 0xf2 then take_prefixes (p, a, True) bs
      else ((p, a, r), b # bs))"
| "take_prefixes f [] = (f, [])"

fun take_rex :: "byte list \<Rightarrow> byte option \<times> byte list" where
  "take_rex (b # bs) = (if drop_bit 4 b = 4 then (Some b, bs) else (None, b # bs))"
| "take_rex [] = (None, [])"

fun take_opcode :: "byte list \<Rightarrow> (byte list \<times> byte list) option" where
  "take_opcode (b # bs) = (if b = 0x0f then (case bs of c # bs \<Rightarrow> Some ([b, c], bs) | [] \<Rightarrow> None) else Some ([b], bs))"
| "take_opcode [] = None"

definition take_front :: "byte list \<Rightarrow> (front \<times> byte list) option" where
  "take_front bs =
     (case take_prefixes (False, False, False) bs of ((p, a, r), bs) \<Rightarrow>
        (case take_rex bs of (rex, bs) \<Rightarrow>
           map_option (\<lambda>(oc, bs). (\<lparr>fr_66 = p, fr_67 = a, fr_F2 = r, fr_rex = rex, fr_oc = oc\<rparr>, bs)) (take_opcode bs)))"

section \<open>Register and memory operands\<close>

definition gpr_list :: "gpr list" where
  "gpr_list = [GA, GC, GD, GB, GSP, GBP, GSI, GDI, G8, G9, G10, G11, G12, G13, G14, G15]"

definition high_list :: "gpr_high list" where
  "high_list = [HA, HC, HD, HB]"

datatype reg_class = C8 | C16 | C32 | C64 | CX

text \<open>With a REX byte the numbers 4 to 7 are the low bytes of RSP to RDI, without it high bytes.\<close>

fun reg_of :: "reg_class \<Rightarrow> bool \<Rightarrow> nat \<Rightarrow> register" where
  "reg_of C8 rex n = (if 4 \<le> n \<and> n < 8 \<and> \<not> rex then Gpr8H (high_list ! (n - 4)) else Gpr8 (gpr_list ! n))"
| "reg_of C16 rex n = Gpr16 (gpr_list ! n)"
| "reg_of C32 rex n = Gpr32 (gpr_list ! n)"
| "reg_of C64 rex n = Gpr64 (gpr_list ! n)"
| "reg_of CX rex n = XmmReg (all_xmms ! n)"

definition addr_reg :: "bool \<Rightarrow> nat \<Rightarrow> register" where
  "addr_reg a32 n = (if a32 then Gpr32 else Gpr64) (gpr_list ! n)"

text \<open>An operand as it is decoded: base, index, scale and displacement, or the number of a register.\<close>

datatype rm = RmReg nat | RmMem register register nat u64 | RmRip u64

definition wide :: "bool \<Rightarrow> byte \<Rightarrow> nat" where
  "wide ext n = (if ext then 8 else 0) + unat n"

fun take_disp :: "nat \<Rightarrow> byte list \<Rightarrow> (u64 \<times> byte list) option" where
  "take_disp n bs =
     (if n = 0 then Some (0, bs)
      else if length bs < n then None
      else if n = 1 then Some (scast (le_word (take 1 bs) :: byte), drop 1 bs)
      else Some (scast (le_word (take 4 bs) :: u32), drop 4 bs))"

definition disp_bytes :: "byte \<Rightarrow> nat" where
  "disp_bytes md = (if md = 0 then 0 else if md = 1 then 1 else 4)"

definition take_mem :: "front \<Rightarrow> byte \<Rightarrow> byte \<Rightarrow> byte list \<Rightarrow> (rm \<times> byte list) option" where
  "take_mem fr md r bs =
     (if r = 4 then
        (case bs of
           [] \<Rightarrow> None
         | s # bs \<Rightarrow>
             let n = wide (rex_bit 1 fr) (and (drop_bit 3 s) 7);
                 index = (if n = 4 then NoReg else addr_reg (fr_67 fr) n);
                 based = (and s 7 \<noteq> 5 \<or> md \<noteq> 0);
                 base = (if based then addr_reg (fr_67 fr) (wide (rex_bit 0 fr) (and s 7)) else NoReg)
             in map_option (\<lambda>(d, bs). (RmMem base index (2 ^ unat (drop_bit 6 s)) d, bs))
                  (take_disp (if based then disp_bytes md else 4) bs))
      else if r = 5 \<and> md = 0 then map_option (\<lambda>(d, bs). (RmRip d, bs)) (take_disp 4 bs)
      else map_option (\<lambda>(d, bs). (RmMem (addr_reg (fr_67 fr) (wide (rex_bit 0 fr) r)) NoReg 1 d, bs))
             (take_disp (disp_bytes md) bs))"

text \<open>The number in the middle field, the operand, and what follows.\<close>

fun take_modrm :: "front \<Rightarrow> byte list \<Rightarrow> (byte \<times> rm \<times> byte list) option" where
  "take_modrm fr (m # bs) =
     (let md = drop_bit 6 m; r = and m 7 in
      map_option (Pair (and (drop_bit 3 m) 7))
        (if md = 3 then Some (RmReg (wide (rex_bit 0 fr) r), bs) else take_mem fr md r bs))"
| "take_modrm fr [] = None"

section \<open>Formats\<close>

datatype field =
    FReg reg_class    \<comment> \<open>the middle field\<close>
  | FRm reg_class     \<comment> \<open>register or memory\<close>
  | FOc reg_class     \<comment> \<open>in the low bits of the opcode\<close>
  | FAcc reg_class    \<comment> \<open>the accumulator\<close>
  | FMoffs            \<comment> \<open>an address of 64 bits\<close>
  | FImm nat nat      \<comment> \<open>an immediate of some bytes, extended by its sign to some bits\<close>

text \<open>\<open>fm_66\<close> is None where the prefix has no effect.\<close>

record format =
  fm_66 :: "bool option"
  fm_F2 :: bool
  fm_W :: bool
  fm_oc :: "byte list"
  fm_ext :: "byte option"
  fm_fields :: "field list"

text \<open>A decoded operand: a register, a memory operand, an address, an immediate of some bits.\<close>

datatype operand = OpReg register | OpMem register register nat u64 | OpAddr u64 | OpImm nat u64

definition has_modrm :: "format \<Rightarrow> bool" where
  "has_modrm fm \<longleftrightarrow> list_ex (\<lambda>f. case f of FReg _ \<Rightarrow> True | FRm _ \<Rightarrow> True | _ \<Rightarrow> False) (fm_fields fm)"

definition in_opcode_field :: "format \<Rightarrow> bool" where
  "in_opcode_field fm \<longleftrightarrow> list_ex (\<lambda>f. case f of FOc _ \<Rightarrow> True | _ \<Rightarrow> False) (fm_fields fm)"

text \<open>\<open>after\<close> is the address behind the instruction, \<open>bs\<close> what follows the fields before.\<close>

definition address :: "front \<Rightarrow> u64 \<Rightarrow> u64" where
  "address fr a = (if fr_67 fr then take_bit 32 a else a)"

fun rm_operand :: "reg_class \<Rightarrow> front \<Rightarrow> u64 \<Rightarrow> rm \<Rightarrow> operand" where
  "rm_operand c fr after (RmReg n) = OpReg (reg_of c (fr_rex fr \<noteq> None) n)"
| "rm_operand c fr after (RmRip d) = OpAddr (address fr (after + d))"
| "rm_operand c fr after (RmMem b i s d) = (if b = NoReg \<and> i = NoReg then OpAddr (address fr d) else OpMem b i s d)"

definition sign_extended :: "byte list \<Rightarrow> u64" where
  "sign_extended bs = signed_take_bit (8 * length bs - 1) (le_word bs)"

fun read_fields :: "front \<Rightarrow> u64 \<Rightarrow> byte \<Rightarrow> rm \<Rightarrow> field list \<Rightarrow> byte list \<Rightarrow> operand list option" where
  "read_fields fr after r x [] bs = (if bs = [] then Some [] else None)"
| "read_fields fr after r x (f # fs) bs =
     (let rex = (fr_rex fr \<noteq> None) in
      case f of
        FReg c \<Rightarrow> map_option ((#) (OpReg (reg_of c rex (wide (rex_bit 2 fr) r)))) (read_fields fr after r x fs bs)
      | FRm c \<Rightarrow> map_option ((#) (rm_operand c fr after x)) (read_fields fr after r x fs bs)
      | FOc c \<Rightarrow> map_option ((#) (OpReg (reg_of c rex (wide (rex_bit 0 fr) (and (hd (fr_oc fr)) 7)))))
                   (read_fields fr after r x fs bs)
      | FAcc c \<Rightarrow> map_option ((#) (OpReg (reg_of c rex 0))) (read_fields fr after r x fs bs)
      | FMoffs \<Rightarrow> (if length bs < 8 then None
                   else map_option ((#) (OpAddr (le_word (take 8 bs)))) (read_fields fr after r x fs (drop 8 bs)))
      | FImm k w \<Rightarrow> (if length bs < k then None
                     else map_option ((#) (OpImm w (take_bit w (sign_extended (take k bs)))))
                            (read_fields fr after r x fs (drop k bs))))"

definition front_fits :: "format \<Rightarrow> front \<Rightarrow> bool" where
  "front_fits fm fr \<longleftrightarrow>
     (fm_66 fm = None \<or> fm_66 fm = Some (fr_66 fr)) \<and> fm_F2 fm = fr_F2 fr \<and> fm_W fm = rex_bit 3 fr \<and>
     (if in_opcode_field fm then [and (hd (fr_oc fr)) 0xf8] = fm_oc fm \<and> length (fr_oc fr) = 1
      else fr_oc fr = fm_oc fm)"

definition read_format :: "format \<Rightarrow> u64 \<Rightarrow> byte list \<Rightarrow> operand list option" where
  "read_format fm addr bytes =
     do { (fr, bs) \<leftarrow> take_front bytes;
          drob_assert (front_fits fm fr);
          (r, x, bs) \<leftarrow> (if has_modrm fm then take_modrm fr bs else Some (0, RmReg 0, bs));
          drob_assert (fm_ext fm = None \<or> fm_ext fm = Some r);
          read_fields fr (addr + of_nat (length bytes)) r x (fm_fields fm) bs }"

section \<open>The manual\<close>

definition mk :: "reg_class \<Rightarrow> byte list \<Rightarrow> byte option \<Rightarrow> field list \<Rightarrow> format" where
  "mk c oc ext fs =
     \<lparr>fm_66 = (case c of C8 \<Rightarrow> None | C16 \<Rightarrow> Some True | _ \<Rightarrow> Some False), fm_F2 = False, fm_W = (c = C64),
      fm_oc = oc, fm_ext = ext, fm_fields = fs\<rparr>"

text \<open>Instructions with 64 bits by default need no REX.W.\<close>

definition mk64 :: "reg_class \<Rightarrow> byte list \<Rightarrow> byte option \<Rightarrow> field list \<Rightarrow> format" where
  "mk64 c oc ext fs = (mk c oc ext fs)\<lparr>fm_W := False\<rparr>"

definition sse :: "bool \<Rightarrow> bool \<Rightarrow> byte \<Rightarrow> field list \<Rightarrow> format" where
  "sse p f2 oc fs =
     \<lparr>fm_66 = Some p, fm_F2 = f2, fm_W = False, fm_oc = [0x0f, oc], fm_ext = None, fm_fields = fs\<rparr>"

definition bits_of_class :: "reg_class \<Rightarrow> nat" where
  "bits_of_class c = (case c of C8 \<Rightarrow> 8 | C16 \<Rightarrow> 16 | C32 \<Rightarrow> 32 | C64 \<Rightarrow> 64 | CX \<Rightarrow> 128)"

text \<open>The long immediate of an operation: one, two or four bytes.\<close>

definition imm_field :: "reg_class \<Rightarrow> field" where
  "imm_field c = FImm (case c of C8 \<Rightarrow> 1 | C16 \<Rightarrow> 2 | _ \<Rightarrow> 4) (bits_of_class c)"

definition imm8_field :: "reg_class \<Rightarrow> field" where
  "imm8_field c = FImm 1 (bits_of_class c)"

datatype shape = Mr | Rr | Rm | Mi | Ri

text \<open>The byte form of an opcode is one below the others.\<close>

definition wide_oc :: "reg_class \<Rightarrow> byte \<Rightarrow> byte" where
  "wide_oc c b = (if c = C8 then b else b + 1)"

text \<open>Arithmetic and logic: the opcodes from \<open>b\<close> on, and \<open>/k\<close> in the group of immediates.\<close>

definition alu_forms :: "byte \<Rightarrow> byte \<Rightarrow> shape \<times> reg_class \<Rightarrow> format list" where
  "alu_forms b k = (\<lambda>(s, c).
     let mr = mk c [wide_oc c b] None [FRm c, FReg c];
         rm = mk c [wide_oc c (b + 2)] None [FReg c, FRm c];
         mi = (if c = C8 then [mk c [0x80] (Some k) [FRm c, imm_field c]]
               else [mk c [0x83] (Some k) [FRm c, imm8_field c], mk c [0x81] (Some k) [FRm c, imm_field c]])
     in case s of Mr \<Rightarrow> [mr] | Rr \<Rightarrow> [mr, rm] | Rm \<Rightarrow> [rm] | Mi \<Rightarrow> mi
        | Ri \<Rightarrow> mk c [wide_oc c (b + 4)] None [FAcc c, imm_field c] # mi)"

definition test_forms :: "shape \<times> reg_class \<Rightarrow> format list" where
  "test_forms = (\<lambda>(s, c).
     let mr = mk c [wide_oc c 0x84] None [FRm c, FReg c]; mi = mk c [wide_oc c 0xf6] (Some 0) [FRm c, imm_field c]
     in case s of Mr \<Rightarrow> [mr] | Rr \<Rightarrow> [mr] | Rm \<Rightarrow> [] | Mi \<Rightarrow> [mi]
        | Ri \<Rightarrow> [mk c [wide_oc c 0xa8] None [FAcc c, imm_field c], mi])"

primrec add_shape :: "add_opcode \<Rightarrow> shape \<times> reg_class" where
  "add_shape ADD8mr = (Mr, C8)" | "add_shape ADD8rr = (Rr, C8)" | "add_shape ADD8rm = (Rm, C8)"
| "add_shape ADD8mi = (Mi, C8)" | "add_shape ADD8ri = (Ri, C8)"
| "add_shape ADD16mr = (Mr, C16)" | "add_shape ADD16rr = (Rr, C16)" | "add_shape ADD16rm = (Rm, C16)"
| "add_shape ADD16mi = (Mi, C16)" | "add_shape ADD16ri = (Ri, C16)"
| "add_shape ADD32mr = (Mr, C32)" | "add_shape ADD32rr = (Rr, C32)" | "add_shape ADD32rm = (Rm, C32)"
| "add_shape ADD32mi = (Mi, C32)" | "add_shape ADD32ri = (Ri, C32)"
| "add_shape ADD64mr = (Mr, C64)" | "add_shape ADD64rr = (Rr, C64)" | "add_shape ADD64rm = (Rm, C64)"
| "add_shape ADD64mi = (Mi, C64)" | "add_shape ADD64ri = (Ri, C64)"

primrec cmp_shape :: "cmp_opcode \<Rightarrow> shape \<times> reg_class" where
  "cmp_shape CMP8mr = (Mr, C8)" | "cmp_shape CMP8rr = (Rr, C8)" | "cmp_shape CMP8rm = (Rm, C8)"
| "cmp_shape CMP8mi = (Mi, C8)" | "cmp_shape CMP8ri = (Ri, C8)"
| "cmp_shape CMP16mr = (Mr, C16)" | "cmp_shape CMP16rr = (Rr, C16)" | "cmp_shape CMP16rm = (Rm, C16)"
| "cmp_shape CMP16mi = (Mi, C16)" | "cmp_shape CMP16ri = (Ri, C16)"
| "cmp_shape CMP32mr = (Mr, C32)" | "cmp_shape CMP32rr = (Rr, C32)" | "cmp_shape CMP32rm = (Rm, C32)"
| "cmp_shape CMP32mi = (Mi, C32)" | "cmp_shape CMP32ri = (Ri, C32)"
| "cmp_shape CMP64mr = (Mr, C64)" | "cmp_shape CMP64rr = (Rr, C64)" | "cmp_shape CMP64rm = (Rm, C64)"
| "cmp_shape CMP64mi = (Mi, C64)" | "cmp_shape CMP64ri = (Ri, C64)"

primrec sub_shape :: "sub_opcode \<Rightarrow> shape \<times> reg_class" where
  "sub_shape SUB8mr = (Mr, C8)" | "sub_shape SUB8rr = (Rr, C8)" | "sub_shape SUB8rm = (Rm, C8)"
| "sub_shape SUB8mi = (Mi, C8)" | "sub_shape SUB8ri = (Ri, C8)"
| "sub_shape SUB16mr = (Mr, C16)" | "sub_shape SUB16rr = (Rr, C16)" | "sub_shape SUB16rm = (Rm, C16)"
| "sub_shape SUB16mi = (Mi, C16)" | "sub_shape SUB16ri = (Ri, C16)"
| "sub_shape SUB32mr = (Mr, C32)" | "sub_shape SUB32rr = (Rr, C32)" | "sub_shape SUB32rm = (Rm, C32)"
| "sub_shape SUB32mi = (Mi, C32)" | "sub_shape SUB32ri = (Ri, C32)"
| "sub_shape SUB64mr = (Mr, C64)" | "sub_shape SUB64rr = (Rr, C64)" | "sub_shape SUB64rm = (Rm, C64)"
| "sub_shape SUB64mi = (Mi, C64)" | "sub_shape SUB64ri = (Ri, C64)"

primrec test_shape :: "test_opcode \<Rightarrow> shape \<times> reg_class" where
  "test_shape TEST8mr = (Mr, C8)" | "test_shape TEST8mi = (Mi, C8)" | "test_shape TEST8rr = (Rr, C8)"
| "test_shape TEST8ri = (Ri, C8)"
| "test_shape TEST16mr = (Mr, C16)" | "test_shape TEST16mi = (Mi, C16)" | "test_shape TEST16rr = (Rr, C16)"
| "test_shape TEST16ri = (Ri, C16)"
| "test_shape TEST32mr = (Mr, C32)" | "test_shape TEST32mi = (Mi, C32)" | "test_shape TEST32rr = (Rr, C32)"
| "test_shape TEST32ri = (Ri, C32)"
| "test_shape TEST64mr = (Mr, C64)" | "test_shape TEST64mi = (Mi, C64)" | "test_shape TEST64rr = (Rr, C64)"
| "test_shape TEST64ri = (Ri, C64)"

primrec xor_shape :: "xor_opcode \<Rightarrow> shape \<times> reg_class" where
  "xor_shape XOR64mr = (Mr, C64)" | "xor_shape XOR64rr = (Rr, C64)" | "xor_shape XOR64rm = (Rm, C64)"
| "xor_shape XOR64mi = (Mi, C64)" | "xor_shape XOR64ri = (Ri, C64)"
| "xor_shape XOR32mr = (Mr, C32)" | "xor_shape XOR32rr = (Rr, C32)" | "xor_shape XOR32rm = (Rm, C32)"
| "xor_shape XOR32mi = (Mi, C32)" | "xor_shape XOR32ri = (Ri, C32)"

primrec mov_forms :: "mov_opcode \<Rightarrow> format list" where
  "mov_forms MOV64mr = [mk C64 [0x89] None [FRm C64, FReg C64], mk C64 [0xa3] None [FMoffs, FAcc C64]]"
| "mov_forms MOV64rr = [mk C64 [0x89] None [FRm C64, FReg C64], mk C64 [0x8b] None [FReg C64, FRm C64]]"
| "mov_forms MOV64rm = [mk C64 [0x8b] None [FReg C64, FRm C64], mk C64 [0xa1] None [FAcc C64, FMoffs]]"
| "mov_forms MOV64mi = [mk C64 [0xc7] (Some 0) [FRm C64, FImm 4 64]]"
| "mov_forms MOV64ri = [mk C64 [0xc7] (Some 0) [FRm C64, FImm 4 64], mk C64 [0xb8] None [FOc C64, FImm 8 64]]"
| "mov_forms MOV32mr = [mk C32 [0x89] None [FRm C32, FReg C32]]"
| "mov_forms MOV32rr = [mk C32 [0x89] None [FRm C32, FReg C32], mk C32 [0x8b] None [FReg C32, FRm C32]]"
| "mov_forms MOV32rm = [mk C32 [0x8b] None [FReg C32, FRm C32]]"
| "mov_forms MOV32mi = [mk C32 [0xc7] (Some 0) [FRm C32, FImm 4 32]]"
| "mov_forms MOV32ri = [mk C32 [0xc7] (Some 0) [FRm C32, FImm 4 32], mk C32 [0xb8] None [FOc C32, FImm 4 32]]"

primrec lea_forms :: "lea_opcode \<Rightarrow> format list" where
  "lea_forms LEA64ra = [mk C64 [0x8d] None [FReg C64, FRm C64]]"
| "lea_forms LEA32ra = [mk C32 [0x8d] None [FReg C32, FRm C32]]"
| "lea_forms LEA16ra = [mk C16 [0x8d] None [FReg C16, FRm C16]]"

definition sse_load :: "bool \<Rightarrow> bool \<Rightarrow> byte \<Rightarrow> format list" where
  "sse_load p f2 oc = [sse p f2 oc [FReg CX, FRm CX]]"

definition sse_store :: "bool \<Rightarrow> bool \<Rightarrow> byte \<Rightarrow> format list" where
  "sse_store p f2 oc = [sse p f2 oc [FRm CX, FReg CX]]"

primrec sse_forms :: "sse_opcode \<Rightarrow> format list" where
  "sse_forms ADDPDrm = sse_load True False 0x58" | "sse_forms ADDPDrr = sse_load True False 0x58"
| "sse_forms ADDSDrm = sse_load False True 0x58" | "sse_forms ADDSDrr = sse_load False True 0x58"
| "sse_forms MULPDrm = sse_load True False 0x59" | "sse_forms MULPDrr = sse_load True False 0x59"
| "sse_forms MULSDrm = sse_load False True 0x59" | "sse_forms MULSDrr = sse_load False True 0x59"
| "sse_forms PXOR128rm = sse_load True False 0xef" | "sse_forms PXOR128rr = sse_load True False 0xef"

primrec movx_forms :: "movx_opcode \<Rightarrow> format list" where
  "movx_forms MOVAPDrm = sse_load True False 0x28" | "movx_forms MOVAPDrr = sse_load True False 0x28"
| "movx_forms MOVAPDmr = sse_store True False 0x29"
| "movx_forms MOVSDrm = sse_load False True 0x10" | "movx_forms MOVSDrr = sse_load False True 0x10"
| "movx_forms MOVSDmr = sse_store False True 0x11"
| "movx_forms MOVUPDrm = sse_load True False 0x10" | "movx_forms MOVUPDrr = sse_load True False 0x10"
| "movx_forms MOVUPDmr = sse_store True False 0x11"
| "movx_forms MOVUPSrm = sse_load False False 0x10" | "movx_forms MOVUPSrr = sse_load False False 0x10"
| "movx_forms MOVUPSmr = sse_store False False 0x11"

primrec stack_forms :: "stack_opcode \<Rightarrow> format list" where
  "stack_forms POP16m = [mk C16 [0x8f] (Some 0) [FRm C16]]" | "stack_forms POP16r = [mk C16 [0x58] None [FOc C16]]"
| "stack_forms POP64m = [mk64 C64 [0x8f] (Some 0) [FRm C64]]" | "stack_forms POP64r = [mk64 C64 [0x58] None [FOc C64]]"
| "stack_forms PUSH16m = [mk C16 [0xff] (Some 6) [FRm C16]]" | "stack_forms PUSH16r = [mk C16 [0x50] None [FOc C16]]"
| "stack_forms PUSH16i = [mk C16 [0x68] None [FImm 2 16]]"
| "stack_forms PUSH64m = [mk64 C64 [0xff] (Some 6) [FRm C64]]" | "stack_forms PUSH64r = [mk64 C64 [0x50] None [FOc C64]]"
| "stack_forms PUSH64i = [mk64 C64 [0x6a] None [FImm 1 64], mk64 C64 [0x68] None [FImm 4 64]]"
| "stack_forms RET = [mk64 C64 [0xc3] None []]"

primrec shift_forms :: "shift_opcode \<Rightarrow> format list" where
  "shift_forms SHL64m = [mk C64 [0xd3] (Some 4) [FRm C64]]" | "shift_forms SHL64r = [mk C64 [0xd3] (Some 4) [FRm C64]]"
| "shift_forms SHL64mi = [mk C64 [0xc1] (Some 4) [FRm C64, FImm 1 8]]"
| "shift_forms SHL64ri = [mk C64 [0xc1] (Some 4) [FRm C64, FImm 1 8]]"
| "shift_forms SHR64m = [mk C64 [0xd3] (Some 5) [FRm C64]]" | "shift_forms SHR64r = [mk C64 [0xd3] (Some 5) [FRm C64]]"
| "shift_forms SHR64mi = [mk C64 [0xc1] (Some 5) [FRm C64, FImm 1 8]]"
| "shift_forms SHR64ri = [mk C64 [0xc1] (Some 5) [FRm C64, FImm 1 8]]"

text \<open>Calls and jumps through a register or memory are the near ones.\<close>

primrec forms :: "opcode \<Rightarrow> format list" where
  "forms NONE = []"
| "forms (Add x) = alu_forms 0x00 0 (add_shape x)"
| "forms (Sse x) = sse_forms x"
| "forms (Call x) = (case x of CALLa \<Rightarrow> [] | _ \<Rightarrow> [mk64 C64 [0xff] (Some 2) [FRm C64]])"
| "forms (Cmp x) = alu_forms 0x38 7 (cmp_shape x)"
| "forms (Jcc x) = []"
| "forms (Jmp x) = (case x of JMPa \<Rightarrow> [] | _ \<Rightarrow> [mk64 C64 [0xff] (Some 4) [FRm C64]])"
| "forms (Lea x) = lea_forms x"
| "forms (Mov x) = mov_forms x"
| "forms (MovX x) = movx_forms x"
| "forms (Stack x) = stack_forms x"
| "forms (Shift x) = shift_forms x"
| "forms (Sub x) = alu_forms 0x28 5 (sub_shape x)"
| "forms (Test x) = test_forms (test_shape x)"
| "forms (Xor x) = alu_forms 0x30 6 (xor_shape x)"

section \<open>Bytes that are an instruction\<close>

text \<open>Without an index the scale has no meaning; a scale of 0 is one of 1.\<close>

fun same_operand :: "static_operand \<Rightarrow> operand \<Rightarrow> bool" where
  "same_operand (SopReg r) (OpReg r') \<longleftrightarrow> r = r'"
| "same_operand (SopImm i) (OpImm w v) \<longleftrightarrow> take_bit w (i64_val i) = v"
| "same_operand (SopMem (MpDirect a)) (OpAddr a') \<longleftrightarrow> i64_val a = a'"
| "same_operand (SopMem (MpSIB b i d s)) (OpMem b' i' s' d') \<longleftrightarrow>
     b = b' \<and> i = i' \<and> (i = NoReg \<or> max 1 (unat s) = s') \<and> scast (s32_val d) = d'"
| "same_operand _ _ \<longleftrightarrow> False"

definition encodes :: "opcode \<Rightarrow> static_operand list \<Rightarrow> u64 \<Rightarrow> byte list \<Rightarrow> bool" where
  "encodes opc ops addr bytes \<longleftrightarrow>
     list_ex (\<lambda>fm. case read_format fm addr bytes of None \<Rightarrow> False | Some os \<Rightarrow> list_all2 same_operand ops os) (forms opc)"

end
