(* ===== verification/Convert_Sound.thy ===== *)
theory Convert_Sound
  imports Converter Encode_Spec
begin

text \<open>
  What the converter makes of an instruction: the opcode is one of the mnemonic and width XED
  names, and its operands are XED's, in order. The meaning of an operand is the one bytes have
  in \<open>Encode_Spec\<close>.
\<close>

section \<open>What XED's operands mean\<close>

abbreviation "MEM0 \<equiv> XED_OPERAND_MEM0"
abbreviation "AGEN \<equiv> XED_OPERAND_AGEN"
abbreviation "REG0 \<equiv> XED_OPERAND_REG0"
abbreviation "REG1 \<equiv> XED_OPERAND_REG1"
abbreviation "IMM0 \<equiv> XED_OPERAND_IMM0"
abbreviation "RELBR \<equiv> XED_OPERAND_RELBR"

definition mem_meaning :: "xed_inst \<Rightarrow> operand option" where
  "mem_meaning x =
     (let m = xd_mem x 0 in
      if xm_base m = XED_REG_RIP then Some (OpAddr (next_addr x + xm_disp m))
      else if xm_base m = XED_REG_INVALID \<and> xm_index m = XED_REG_INVALID then Some (OpAddr (xm_disp m))
      else do { b \<leftarrow> translate_reg (xm_base m);
                i \<leftarrow> translate_reg (xm_index m);
                Some (OpMem b i (unat (xm_scale m)) (xm_disp m)) })"

fun meaning :: "xed_inst \<Rightarrow> xed_operand \<Rightarrow> operand option" where
  "meaning x XED_OPERAND_REG0 = map_option OpReg (translate_reg (xd_reg0 x))"
| "meaning x XED_OPERAND_REG1 = map_option OpReg (translate_reg (xd_reg1 x))"
| "meaning x XED_OPERAND_MEM0 = mem_meaning x"
| "meaning x XED_OPERAND_AGEN = mem_meaning x"
| "meaning x XED_OPERAND_IMM0 =
     Some (OpImm 64 (if xd_imm_signed x then scast (xd_signed_imm x) else xd_unsigned_imm x))"
| "meaning x XED_OPERAND_RELBR = Some (OpAddr (next_addr x + scast (xd_branch_disp x)))"
| "meaning x _ = None"

definition operands_mean :: "xed_inst \<Rightarrow> static_operand list \<Rightarrow> xed_operand list \<Rightarrow> bool" where
  "operands_mean x ops ks \<longleftrightarrow> list_all2 (\<lambda>op k. \<exists>o'. meaning x k = Some o' \<and> same_operand op o') (take (length ks) ops) ks"

text \<open>
  The memory operands that are converted as they are. Of one with registers the displacement has
  32 bits and the scale is a power of two, as in every instruction of 64-bit mode. An address
  without registers has to be one of 32 bits without sign; that is not so of all of them.
\<close>

definition absolute :: "xed_inst \<Rightarrow> bool" where
  "absolute x \<longleftrightarrow> xm_base (xd_mem x 0) = XED_REG_INVALID \<and> xm_index (xd_mem x 0) = XED_REG_INVALID"

definition mem_described :: "xed_inst \<Rightarrow> bool" where
  "mem_described x \<longleftrightarrow>
     (let m = xd_mem x 0 in
      if absolute x then xm_disp m = ucast (ucast (xm_disp m) :: u32)
      else xm_disp m = scast (ucast (xm_disp m) :: u32) \<and> xm_scale m < 256 \<and>
        (xm_index m \<noteq> XED_REG_INVALID \<longrightarrow> xm_scale m \<noteq> 0))"

text \<open>The explicit operands of an instruction, and the lists of them there are.\<close>

definition explicit_operands :: "xed_inst \<Rightarrow> xed_operand list \<Rightarrow> bool" where
  "explicit_operands x ks \<longleftrightarrow>
     (\<forall>i<length ks. xd_operand x i = ks ! i) \<and> has_imm x = (IMM0 \<in> set ks) \<and> (xd_branch_width x \<noteq> 0) = (RELBR \<in> set ks)"

definition two_operands :: "xed_operand list list" where
  "two_operands = [[MEM0, REG0], [MEM0, IMM0], [REG0, MEM0], [REG0, REG1], [REG0, IMM0]]"

fun operand_lists :: "xed_iclass \<Rightarrow> xed_operand list list" where
  "operand_lists c =
     (if c \<in> {XED_ICLASS_ADD, XED_ICLASS_CMP, XED_ICLASS_SUB, XED_ICLASS_XOR, XED_ICLASS_MOV} then two_operands
      else if c = XED_ICLASS_TEST then [[MEM0, REG0], [MEM0, IMM0], [REG0, REG1], [REG0, IMM0]]
      else if c \<in> {XED_ICLASS_ADDPD, XED_ICLASS_ADDSD, XED_ICLASS_MULPD, XED_ICLASS_MULSD, XED_ICLASS_PXOR} then
        [[REG0, MEM0], [REG0, REG1]]
      else if c \<in> {XED_ICLASS_MOVAPD, XED_ICLASS_MOVSD_XMM, XED_ICLASS_MOVUPD, XED_ICLASS_MOVUPS} then
        [[MEM0, REG0], [REG0, MEM0], [REG0, REG1]]
      else if c \<in> {XED_ICLASS_CALL_NEAR, XED_ICLASS_JMP} then [[RELBR], [MEM0], [REG0]]
      else if c = XED_ICLASS_LEA then [[REG0, AGEN]]
      else if c = XED_ICLASS_POP then [[MEM0], [REG0]]
      else if c = XED_ICLASS_PUSH then [[MEM0], [REG0], [IMM0]]
      else if c = XED_ICLASS_RET_NEAR then [[]]
      else if c \<in> {XED_ICLASS_SHL, XED_ICLASS_SHR} then [[MEM0, IMM0], [MEM0], [REG0, IMM0], [REG0]]
      else [[RELBR]])"

section \<open>What a row stands for\<close>

fun jcc_mnemonic :: "jcc_opcode \<Rightarrow> xed_iclass" where
  "jcc_mnemonic JNBEa = XED_ICLASS_JNBE" | "jcc_mnemonic JNBa = XED_ICLASS_JNB" | "jcc_mnemonic JBa = XED_ICLASS_JB"
| "jcc_mnemonic JBEa = XED_ICLASS_JBE" | "jcc_mnemonic JCXZ32a = XED_ICLASS_JCXZ" | "jcc_mnemonic JCXZ64a = XED_ICLASS_JCXZ"
| "jcc_mnemonic JZa = XED_ICLASS_JZ" | "jcc_mnemonic JNLEa = XED_ICLASS_JNLE" | "jcc_mnemonic JNLa = XED_ICLASS_JNL"
| "jcc_mnemonic JLa = XED_ICLASS_JL" | "jcc_mnemonic JLEa = XED_ICLASS_JLE" | "jcc_mnemonic JNZa = XED_ICLASS_JNZ"
| "jcc_mnemonic JNOa = XED_ICLASS_JNO" | "jcc_mnemonic JNPa = XED_ICLASS_JNP" | "jcc_mnemonic JNSa = XED_ICLASS_JNS"
| "jcc_mnemonic JOa = XED_ICLASS_JO" | "jcc_mnemonic JPa = XED_ICLASS_JP" | "jcc_mnemonic JSa = XED_ICLASS_JS"

primrec mnemonic :: "opcode \<Rightarrow> xed_iclass" where
  "mnemonic NONE = XED_ICLASS_OTHER"
| "mnemonic (Add x) = XED_ICLASS_ADD"
| "mnemonic (Sse x) =
     (case x of ADDPDrm \<Rightarrow> XED_ICLASS_ADDPD | ADDPDrr \<Rightarrow> XED_ICLASS_ADDPD | ADDSDrm \<Rightarrow> XED_ICLASS_ADDSD
      | ADDSDrr \<Rightarrow> XED_ICLASS_ADDSD | MULPDrm \<Rightarrow> XED_ICLASS_MULPD | MULPDrr \<Rightarrow> XED_ICLASS_MULPD
      | MULSDrm \<Rightarrow> XED_ICLASS_MULSD | MULSDrr \<Rightarrow> XED_ICLASS_MULSD | _ \<Rightarrow> XED_ICLASS_PXOR)"
| "mnemonic (Call x) = XED_ICLASS_CALL_NEAR"
| "mnemonic (Cmp x) = XED_ICLASS_CMP"
| "mnemonic (Jcc x) = jcc_mnemonic x"
| "mnemonic (Jmp x) = XED_ICLASS_JMP"
| "mnemonic (Lea x) = XED_ICLASS_LEA"
| "mnemonic (Mov x) = XED_ICLASS_MOV"
| "mnemonic (MovX x) =
     (if x \<in> {MOVAPDrm, MOVAPDrr, MOVAPDmr} then XED_ICLASS_MOVAPD
      else if x \<in> {MOVSDrm, MOVSDrr, MOVSDmr} then XED_ICLASS_MOVSD_XMM
      else if x \<in> {MOVUPDrm, MOVUPDrr, MOVUPDmr} then XED_ICLASS_MOVUPD else XED_ICLASS_MOVUPS)"
| "mnemonic (Stack x) =
     (if x = RET then XED_ICLASS_RET_NEAR
      else if x \<in> {POP16m, POP16r, POP64m, POP64r} then XED_ICLASS_POP else XED_ICLASS_PUSH)"
| "mnemonic (Shift x) = (if x \<in> {SHL64m, SHL64r, SHL64mi, SHL64ri} then XED_ICLASS_SHL else XED_ICLASS_SHR)"
| "mnemonic (Sub x) = XED_ICLASS_SUB"
| "mnemonic (Test x) = XED_ICLASS_TEST"
| "mnemonic (Xor x) = XED_ICLASS_XOR"

text \<open>Instructions whose operands have a width of their own.\<close>

fun own_width :: "opcode \<Rightarrow> bool" where
  "own_width (Sse _) = True" | "own_width (MovX _) = True" | "own_width (Call _) = True" | "own_width (Jmp _) = True"
| "own_width _ = False"

fun row_operand :: "opcode \<Rightarrow> nat \<Rightarrow> explicit_operand_info \<Rightarrow> xed_operand \<Rightarrow> bool" where
  "row_operand opc w (EoiReg t m r s) k \<longleftrightarrow> k \<in> {REG0, REG1} \<and> (own_width opc \<or> 8 * sizeInBytes t = w)"
| "row_operand opc w (EoiMem m sz) k \<longleftrightarrow>
     (if m = AmAddress then k \<in> {AGEN, RELBR} else k = MEM0 \<and> (own_width opc \<or> 8 * mem_bytes sz = w))"
| "row_operand opc w (EoiImm t) k \<longleftrightarrow> k = IMM0"

definition row_of :: "xed_inst \<Rightarrow> xed_operand list \<Rightarrow> opcode \<Rightarrow> opcode_info \<Rightarrow> bool" where
  "row_of x ks opc oc \<longleftrightarrow>
     mnemonic opc = xd_iclass x \<and> arch_get_opcode_info opc = Some oc \<and>
     list_all2 (row_operand opc (unat (xd_operand_width x))) (oc_opInfo oc) ks"

section \<open>Operands\<close>

lemma memop_meaning:
  assumes "translate_memop x 0 = Some op" and "mem_described x"
  shows "\<exists>o'. mem_meaning x = Some o' \<and> same_operand op o'"
proof -
  obtain m where m: "xd_mem x 0 = m" by blast
  have sc: "unat (ucast s :: byte) = unat s" if "s < (256 :: u32)" for s
    using that by (simp add: unsigned_ucast_eq take_bit_nat_eq_self_iff word_less_nat_alt)
  have one: "Suc 0 \<le> unat s \<longleftrightarrow> s \<noteq> 0" for s :: u32 by (auto simp: Suc_le_eq unat_gt_0)
  show ?thesis
    using assms
    by (auto simp: translate_memop_def one mem_meaning_def mem_described_def absolute_def m Let_def direct_operand_def sc
        word_less_nat_alt unat_eq_0 max_def split: if_splits bind_splits)
qed

lemma regop_meaning:
  "translate_regop x 0 = Some op \<Longrightarrow> \<exists>o'. meaning x REG0 = Some o' \<and> same_operand op o'"
  "translate_regop x 1 = Some op \<Longrightarrow> \<exists>o'. meaning x REG1 = Some o' \<and> same_operand op o'"
  "translate_regop x (Suc 0) = Some op \<Longrightarrow> \<exists>o'. meaning x REG1 = Some o' \<and> same_operand op o'"
  by (auto simp: translate_regop_def)

lemma imm_meaning: "\<exists>o'. meaning x IMM0 = Some o' \<and> same_operand (translate_imm x) o'"
  by (simp add: translate_imm_def take_bit_word_eq_self)

lemma rel_meaning: "\<exists>o'. meaning x RELBR = Some o' \<and> same_operand (translate_rel x) o'"
  by (simp add: translate_rel_def direct_operand_def)

lemma three_operands: "length ops = 3 \<Longrightarrow> \<exists>a b c. ops = [a, b, c]"
  by (auto simp: numeral_3_eq_3 length_Suc_conv)


text \<open>What a form stores, and what it needs of the operands for that.\<close>

lemma stored:
  assumes "length ops = 3" and "mem_described x"
  shows "translate_m x ops = Some ops' \<Longrightarrow> operands_mean x ops' [MEM0]"
    and "translate_r x ops = Some ops' \<Longrightarrow> operands_mean x ops' [REG0]"
    and "translate_mr x ops = Some ops' \<Longrightarrow> operands_mean x ops' [MEM0, REG0]"
    and "translate_rm x ops = Some ops' \<Longrightarrow> operands_mean x ops' [REG0, MEM0]"
    and "translate_rm x ops = Some ops' \<Longrightarrow> operands_mean x ops' [REG0, AGEN]"
    and "translate_rr x ops = Some ops' \<Longrightarrow> operands_mean x ops' [REG0, REG1]"
    and "translate_mi x ops = Some ops' \<Longrightarrow> operands_mean x ops' [MEM0, IMM0]"
    and "translate_ri x ops = Some ops' \<Longrightarrow> operands_mean x ops' [REG0, IMM0]"
    and "operands_mean x (ops[0 := translate_imm x]) [IMM0]"
    and "operands_mean x (ops[0 := translate_rel x]) [RELBR]"
    and "operands_mean x ops []"
  using three_operands[OF assms(1)] memop_meaning[OF _ assms(2)] regop_meaning[of x] imm_meaning[of x] rel_meaning[of x]
  by (auto simp: operands_mean_def translate_m_def translate_r_def translate_mr_def translate_rm_def translate_rr_def
      translate_mi_def translate_ri_def numeral_2_eq_2 simp del: meaning.simps(1,2,5,6) split: bind_splits)

text \<open>
  The opcode a form chooses goes by the operands; \<open>chosen\<close> is its result for one list of them.
\<close>

definition chosen :: "xed_inst \<Rightarrow> xed_operand list \<Rightarrow> opcode \<Rightarrow> conversion \<Rightarrow> bool" where
  "chosen x ks opc r \<longleftrightarrow>
     (\<forall>opc' ops oc. r = Some (opc', ops, Some oc) \<longrightarrow>
        opc' = opc \<and> arch_get_opcode_info opc = Some oc \<and> operands_mean x ops ks)"

lemma chosen_return: "operands_mean x ops ks \<Longrightarrow> chosen x ks opc (return_opcode opc ops)"
  by (simp add: chosen_def return_opcode_def)

lemma chosen_bind:
  "(\<And>ops. t = Some ops \<Longrightarrow> operands_mean x ops ks) \<Longrightarrow> chosen x ks opc (Option.bind t (return_opcode opc))"
  by (cases t) (simp_all add: chosen_def return_opcode_def)

lemma chosen_unmodelled: "chosen x ks opc (unmodelled ops)"
  by (simp add: chosen_def unmodelled_def)

lemma chosen_throw: "chosen x ks opc throw"
  by (simp add: chosen_def)

lemmas choose = chosen_return chosen_bind chosen_unmodelled chosen_throw

lemma operand_at:
  assumes "explicit_operands x ks"
  shows "0 < length ks \<Longrightarrow> is_memop x 0 \<longleftrightarrow> ks ! 0 \<in> {AGEN, MEM0, XED_OPERAND_MEM1}"
    and "1 < length ks \<Longrightarrow> is_memop x 1 \<longleftrightarrow> ks ! 1 \<in> {AGEN, MEM0, XED_OPERAND_MEM1}"
    and "has_imm x \<longleftrightarrow> IMM0 \<in> set ks" and "xd_branch_width x \<noteq> 0 \<longleftrightarrow> RELBR \<in> set ks"
  using assms by (auto simp: explicit_operands_def is_memop_def)

text \<open>Which of the opcodes of a form belongs to a list of operands.\<close>

fun opcode_for :: "xed_operand list \<Rightarrow> opcode \<Rightarrow> opcode \<Rightarrow> opcode \<Rightarrow> opcode \<Rightarrow> opcode \<Rightarrow> opcode" where
  "opcode_for ks mr mi rm rr ri =
     (if ks = [MEM0, REG0] then mr else if ks = [MEM0, IMM0] then mi
      else if ks \<in> {[REG0, MEM0], [REG0, AGEN]} then rm else if ks = [REG0, REG1] then rr else ri)"

fun opcode_of_one :: "xed_operand list \<Rightarrow> opcode \<Rightarrow> opcode \<Rightarrow> opcode \<Rightarrow> opcode" where
  "opcode_of_one ks m r i = (if ks = [MEM0] then m else if ks = [REG0] then r else i)"

lemma forms_choose:
  assumes "length ops = 3" and "mem_described x" and ex: "explicit_operands x ks"
  shows "ks \<in> set two_operands \<Longrightarrow>
      chosen x ks (opcode_for ks mr mi rm rr ri) (convert_mr_mi_rm_rr_ri x ops mr mi rm rr ri)"
    and "ks \<in> set [[MEM0, REG0], [MEM0, IMM0], [REG0, REG1], [REG0, IMM0]] \<Longrightarrow>
      chosen x ks (opcode_for ks mr mi rm rr ri) (convert_mr_mi_rr_ri x ops mr mi rr ri)"
    and "ks \<in> set [[REG0, MEM0], [REG0, REG1]] \<Longrightarrow> chosen x ks (opcode_for ks mr mi rm rr ri) (convert_rm_rr x ops rm rr)"
    and "ks \<in> set [[MEM0, REG0], [REG0, MEM0], [REG0, REG1]] \<Longrightarrow>
      chosen x ks (opcode_for ks mr mi rm rr ri) (convert_mr_rm_rr x ops mr rm rr)"
    and "ks \<in> set [[MEM0], [REG0]] \<Longrightarrow> chosen x ks (opcode_of_one ks m r i) (convert_m_r x ops m r)"
    and "ks \<in> set [[MEM0], [REG0], [IMM0]] \<Longrightarrow> chosen x ks (opcode_of_one ks m r i) (convert_m_r_i x ops m r i)"
    and "ks = [REG0, AGEN] \<Longrightarrow> chosen x ks rm (convert_rm x ops rm)"
  using operand_at[OF ex] stored[OF assms(1,2)]
  by (auto simp: two_operands_def convert_form_defs intro!: choose)


section \<open>Every instruction\<close>

definition well_converted :: "xed_inst \<Rightarrow> xed_operand list \<Rightarrow> conversion \<Rightarrow> bool" where
  "well_converted x ks r \<longleftrightarrow>
     (\<forall>opc ops oc. r = Some (opc, ops, Some oc) \<longrightarrow> row_of x ks opc oc \<and> operands_mean x ops ks)"

lemma well_chosen:
  assumes "chosen x ks opc r" and "mnemonic opc = xd_iclass x"
    and "\<And>oc. arch_get_opcode_info opc = Some oc \<Longrightarrow>
      list_all2 (row_operand opc (unat (xd_operand_width x))) (oc_opInfo oc) ks"
  shows "well_converted x ks r"
  using assms by (auto simp: well_converted_def chosen_def row_of_def)

lemma well_nothing: "well_converted x ks (unmodelled ops)" "well_converted x ks throw"
  by (simp_all add: well_converted_def unmodelled_def)

lemma well_if:
  "(c \<Longrightarrow> well_converted x ks a) \<Longrightarrow> (\<not> c \<Longrightarrow> well_converted x ks b) \<Longrightarrow> well_converted x ks (if c then a else b)"
  by simp

lemmas well_intros = well_if well_nothing

lemma alu_converted:
  assumes "length ops = 3" "mem_described x" "explicit_operands x ks" "ks \<in> set two_operands"
  shows "xd_iclass x = XED_ICLASS_ADD \<Longrightarrow> well_converted x ks (convert_add x ops)"
    and "xd_iclass x = XED_ICLASS_CMP \<Longrightarrow> well_converted x ks (convert_cmp x ops)"
    and "xd_iclass x = XED_ICLASS_SUB \<Longrightarrow> well_converted x ks (convert_sub x ops)"
    and "xd_iclass x = XED_ICLASS_XOR \<Longrightarrow> well_converted x ks (convert_xor x ops)"
    and "xd_iclass x = XED_ICLASS_MOV \<Longrightarrow> well_converted x ks (convert_mov x ops)"
  unfolding convert_add_def convert_cmp_def convert_sub_def convert_xor_def convert_mov_def
  using assms(4)
  by (intro well_intros well_chosen[OF forms_choose(1)[OF assms]]; auto simp: two_operands_def def_opc_def)+

lemma test_converted:
  assumes "length ops = 3" "mem_described x" "explicit_operands x ks"
    and "ks \<in> set [[MEM0, REG0], [MEM0, IMM0], [REG0, REG1], [REG0, IMM0]]" and "xd_iclass x = XED_ICLASS_TEST"
  shows "well_converted x ks (convert_test x ops)"
  unfolding convert_test_def
  using assms(4,5)
  by (intro well_intros well_chosen[OF forms_choose(2)[OF assms(1-4), where rm = NONE]]; auto simp: def_opc_def)+

lemma sse_converted:
  assumes "length ops = 3" "mem_described x" "explicit_operands x ks" "ks \<in> set [[REG0, MEM0], [REG0, REG1]]"
  shows "xd_iclass x = XED_ICLASS_ADDPD \<Longrightarrow> well_converted x ks (convert_addpd x ops)"
    and "xd_iclass x = XED_ICLASS_ADDSD \<Longrightarrow> well_converted x ks (convert_addsd x ops)"
    and "xd_iclass x = XED_ICLASS_MULPD \<Longrightarrow> well_converted x ks (convert_mulpd x ops)"
    and "xd_iclass x = XED_ICLASS_MULSD \<Longrightarrow> well_converted x ks (convert_mulsd x ops)"
    and "xd_iclass x = XED_ICLASS_PXOR \<Longrightarrow> well_converted x ks (convert_pxor x ops)"
  unfolding convert_addpd_def convert_addsd_def convert_mulpd_def convert_mulsd_def convert_pxor_def
  using assms(4)
  by (intro well_intros well_chosen[OF forms_choose(3)[OF assms, where mr = NONE and mi = NONE and ri = NONE]];
      auto simp: def_opc_def)+

lemma movx_converted:
  assumes "length ops = 3" "mem_described x" "explicit_operands x ks" "ks \<in> set [[MEM0, REG0], [REG0, MEM0], [REG0, REG1]]"
  shows "xd_iclass x = XED_ICLASS_MOVAPD \<Longrightarrow> well_converted x ks (convert_movapd x ops)"
    and "xd_iclass x = XED_ICLASS_MOVSD_XMM \<Longrightarrow> well_converted x ks (convert_movsd x ops)"
    and "xd_iclass x = XED_ICLASS_MOVUPD \<Longrightarrow> well_converted x ks (convert_movupd x ops)"
    and "xd_iclass x = XED_ICLASS_MOVUPS \<Longrightarrow> well_converted x ks (convert_movups x ops)"
  unfolding convert_movapd_def convert_movsd_def convert_movupd_def convert_movups_def
  using assms(4)
  by (intro well_chosen[OF forms_choose(4)[OF assms, where mi = NONE and ri = NONE]]; auto simp: def_opc_def)+

lemma stack_converted:
  assumes "length ops = 3" "mem_described x" "explicit_operands x ks"
  shows "ks \<in> set [[MEM0], [REG0]] \<Longrightarrow> xd_iclass x = XED_ICLASS_POP \<Longrightarrow> well_converted x ks (convert_pop x ops)"
    and "ks \<in> set [[MEM0], [REG0], [IMM0]] \<Longrightarrow> xd_iclass x = XED_ICLASS_PUSH \<Longrightarrow> well_converted x ks (convert_push x ops)"
    and "ks = [] \<Longrightarrow> xd_iclass x = XED_ICLASS_RET_NEAR \<Longrightarrow> well_converted x ks (convert_ret x ops)"
  unfolding convert_pop_def convert_push_def convert_ret_def
  by (intro well_intros well_chosen[OF forms_choose(5)[OF assms, where i = NONE]] well_chosen[OF forms_choose(6)[OF assms]];
      auto simp: def_opc_def intro!: well_chosen[OF chosen_return[OF stored(11)[OF assms(1,2)]]])+

lemma transfer_converted:
  assumes "length ops = 3" "mem_described x" "explicit_operands x ks" "ks \<in> set [[RELBR], [MEM0], [REG0]]"
  shows "xd_iclass x = XED_ICLASS_CALL_NEAR \<Longrightarrow> well_converted x ks (convert_call x ops)"
    and "xd_iclass x = XED_ICLASS_JMP \<Longrightarrow> well_converted x ks (convert_jmp x ops)"
  unfolding convert_call_def convert_jmp_def
  using assms(4) operand_at(4)[OF assms(3)]
  by (intro well_intros well_chosen[OF forms_choose(5)[OF assms(1-3), where i = NONE]];
      auto simp: def_opc_def intro!: well_chosen[OF chosen_return[OF stored(10)[OF assms(1,2)]]])+

lemma jcc_converted:
  assumes "length ops = 3" "mem_described x" and "ks = [RELBR]" and "jcc_of (xd_iclass x) \<noteq> None"
  shows "well_converted x ks (convert_jcc x ops)"
proof -
  obtain j where j: "jcc_of (xd_iclass x) = Some j" using assms(4) by blast
  have m: "jcc_mnemonic j = xd_iclass x" using j by (cases "xd_iclass x") auto
  have row: "list_all2 (row_operand (Jcc i) n) (oc_opInfo (jcc_info i)) [RELBR]" for i n
    by (cases i) (simp_all add: def_opc_def)
  show ?thesis
    unfolding convert_jcc_def Let_def j assms(3)
    by (auto simp: m row simp del: jcc_info.simps intro!: well_nothing
        well_chosen[OF chosen_return[OF stored(10)[OF assms(1,2)]]])
qed

lemma lea_converted:
  assumes "length ops = 3" "mem_described x" "explicit_operands x ks" "ks = [REG0, AGEN]" and "xd_iclass x = XED_ICLASS_LEA"
  shows "well_converted x ks (convert_lea x ops)"
  unfolding convert_lea_def
  using assms(5) by (auto simp: def_opc_def assms(4) intro!: well_nothing well_chosen[OF forms_choose(7)[OF assms(1-4), unfolded assms(4)]])

lemma shift_converted:
  assumes "length ops = 3" "mem_described x" "explicit_operands x ks"
    and "ks \<in> set [[MEM0, IMM0], [MEM0], [REG0, IMM0], [REG0]]"
  shows "xd_iclass x = XED_ICLASS_SHL \<Longrightarrow> well_converted x ks (convert_shl x ops)"
    and "xd_iclass x = XED_ICLASS_SHR \<Longrightarrow> well_converted x ks (convert_shr x ops)"
  unfolding convert_shl_def convert_shr_def
  using assms(4) operand_at(1,3)[OF assms(3)] stored[OF assms(1,2)]
  by (auto simp: def_opc_def intro!: well_nothing well_chosen[OF chosen_bind])

lemma simple_converted:
  assumes "length ops = 3" "mem_described x" "explicit_operands x ks" "ks \<in> set (operand_lists (xd_iclass x))"
  shows "well_converted x ks (convert_simple x ops)"
proof -
  have "ks = [REG0, AGEN] \<Longrightarrow> xd_iclass x = XED_ICLASS_LEA \<Longrightarrow> well_converted x [REG0, AGEN] (convert_lea x ops)"
    and "ks = [] \<Longrightarrow> xd_iclass x = XED_ICLASS_RET_NEAR \<Longrightarrow> well_converted x [] (convert_ret x ops)"
    using lea_converted[OF assms(1-3)] stack_converted(3)[OF assms(1-3)] by simp_all
  then show ?thesis
    using assms(4)
    by (cases "xd_iclass x")
       (simp_all add: convert_simple_def well_nothing alu_converted[OF assms(1-3)] test_converted[OF assms(1-3)]
         sse_converted[OF assms(1-3)] movx_converted[OF assms(1-3)] stack_converted[OF assms(1-3)]
         transfer_converted[OF assms(1-3)] jcc_converted[OF assms(1,2)] shift_converted[OF assms(1-3)])
qed


section \<open>Addresses without registers\<close>

text \<open>The instruction with the lower 32 bits of its address; it is converted to the same.\<close>

definition cut_address :: "xed_inst \<Rightarrow> xed_inst" where
  "cut_address x = x\<lparr>xd_mem := (xd_mem x)(0 := (xd_mem x 0)\<lparr>xm_disp := ucast (ucast (xm_disp (xd_mem x 0)) :: u32)\<rparr>)\<rparr>"

lemma cut_fields [simp]:
  "xd_iclass (cut_address x) = xd_iclass x" "xd_operand_width (cut_address x) = xd_operand_width x"
  "xd_operand (cut_address x) = xd_operand x" "xd_branch_width (cut_address x) = xd_branch_width x"
  "is_memop (cut_address x) = is_memop x" "has_imm (cut_address x) = has_imm x"
  "translate_regop (cut_address x) = translate_regop x" "translate_rel (cut_address x) = translate_rel x"
  "translate_imm (cut_address x) = translate_imm x" "explicit_operands (cut_address x) = explicit_operands x"
  "absolute (cut_address x) = absolute x" "xd_prefix67 (cut_address x) = xd_prefix67 x"
  "xd_sse2 (cut_address x) = xd_sse2 x" "xd_unsigned_imm (cut_address x) = xd_unsigned_imm x"
  by (simp_all add: cut_address_def is_memop_def has_imm_def translate_regop_def translate_rel_def translate_imm_def
      next_addr_def explicit_operands_def absolute_def fun_eq_iff)

lemma cut_low: "(ucast (ucast (ucast (ucast (a :: u64) :: u32) :: u64) :: u32) :: u64) = ucast (ucast a :: u32)"
  by (rule bit_word_eqI) (auto simp: bit_simps)

lemma cut_memop: "absolute x \<Longrightarrow> translate_memop (cut_address x) 0 = translate_memop x 0"
  by (auto simp: translate_memop_def cut_address_def absolute_def Let_def cut_low)

lemma cut_stored:
  assumes "absolute x"
  shows "translate_m (cut_address x) = translate_m x" "translate_r (cut_address x) = translate_r x"
    "translate_mr (cut_address x) = translate_mr x" "translate_rm (cut_address x) = translate_rm x"
    "translate_rr (cut_address x) = translate_rr x" "translate_mi (cut_address x) = translate_mi x"
    "translate_ri (cut_address x) = translate_ri x"
  by (simp_all add: translate_m_def translate_r_def translate_mr_def translate_rm_def translate_rr_def
      translate_mi_def translate_ri_def cut_memop[OF assms] fun_eq_iff)

lemma cut_converted: "absolute x \<Longrightarrow> convert_simple (cut_address x) ops = convert_simple x ops"
  by (cases "xd_iclass x") (simp_all add: convert_simple_def convert_defs convert_form_defs cut_stored Let_def)

lemma cut_described: "absolute x \<Longrightarrow> mem_described (cut_address x)"
  by (simp add: mem_described_def Let_def) (simp add: cut_address_def cut_low)

lemma meaning_unique: "same_operand (SopMem m) (OpAddr a) \<Longrightarrow> same_operand (SopMem m) (OpAddr b) \<Longrightarrow> a = b"
  by (cases m) auto

text \<open>What the code makes of such an instruction is the instruction with the cut address.\<close>

lemma absolute_converted:
  assumes "convert_simple x stale = Some (opc, ops, Some oc)" and "length stale = ARCH_MAX_OPERANDS"
    and "explicit_operands x ks" and "ks \<in> set (operand_lists (xd_iclass x))"
    and abs: "absolute x" and k: "MEM0 \<in> set ks \<or> AGEN \<in> set ks"
  shows "row_of x ks opc oc \<and> operands_mean (cut_address x) ops ks"
    and "xm_disp (xd_mem x 0) \<noteq> ucast (ucast (xm_disp (xd_mem x 0)) :: u32) \<Longrightarrow> \<not> operands_mean x ops ks"
proof -
  have W: "row_of (cut_address x) ks opc oc \<and> operands_mean (cut_address x) ops ks"
    using simple_converted[OF assms(2) cut_described[OF abs], of ks] assms(1,3,4)
    by (simp add: cut_converted[OF abs] well_converted_def)
  then show "row_of x ks opc oc \<and> operands_mean (cut_address x) ops ks" by (simp add: row_of_def)
  assume far: "xm_disp (xd_mem x 0) \<noteq> ucast (ucast (xm_disp (xd_mem x 0)) :: u32)"
  show "\<not> operands_mean x ops ks"
  proof
    assume M: "operands_mean x ops ks"
    obtain k i where i: "i < length ks" "ks ! i = k" "k = MEM0 \<or> k = AGEN" using k by (auto simp: in_set_conv_nth)
    let ?op = "take (length ks) ops ! i"
    have m: "meaning x k = Some (OpAddr (xm_disp (xd_mem x 0)))"
      "meaning (cut_address x) k = Some (OpAddr (ucast (ucast (xm_disp (xd_mem x 0)) :: u32)))"
      using i(3) abs by (auto simp: mem_meaning_def absolute_def cut_address_def Let_def)
    have s: "same_operand ?op (OpAddr (xm_disp (xd_mem x 0)))"
      "same_operand ?op (OpAddr (ucast (ucast (xm_disp (xd_mem x 0)) :: u32)))"
      using list_all2_nthD2[OF M[unfolded operands_mean_def] i(1)]
        list_all2_nthD2[OF conjunct2[OF W, unfolded operands_mean_def] i(1)] i(2) m by auto
    then obtain p where "?op = SopMem p" by (cases ?op) auto
    then show False using meaning_unique s far by metis
  qed
qed

end
