(* ===== verification/State_Merge.thy ===== *)
theory State_Merge
  imports Places
begin

text \<open>
  Merging program states, as the analysis does where paths meet. The interface \<open>join_state\<close>
  says what a merge is for: it describes everything either side describes, and when it
  reports no difference the left side already described the right one, which is why the
  analysis may stop. Element arrays and program states provide it.
\<close>

section \<open>The interface\<close>

locale join_state =
  fixes ok :: "'s \<Rightarrow> 's \<Rightarrow> bool"
    and rel :: "base \<Rightarrow> 's \<Rightarrow> 'm \<Rightarrow> bool"
    and join :: "'s \<Rightarrow> 's \<Rightarrow> (bool \<times> 's) option"
  assumes join_total: "ok l r \<Longrightarrow> \<exists>d m. join l r = Some (d, m)"
    and join_upper: "ok l r \<Longrightarrow> join l r = Some (d, m) \<Longrightarrow> rel base l c \<or> rel base r c \<Longrightarrow> rel base m c"
    and join_stable: "ok l r \<Longrightarrow> join l r = Some (False, m) \<Longrightarrow> rel base m c \<Longrightarrow> rel base l c"
begin

lemma join_covers:
  "ok l r \<Longrightarrow> join l r = Some (False, m) \<Longrightarrow> rel base r c \<Longrightarrow> rel base l c"
  using join_upper join_stable by blast

text \<open>Merging what arrives over several edges, one after the other.\<close>

fun join_all :: "'s \<Rightarrow> 's list \<Rightarrow> (bool \<times> 's) option" where
  "join_all l [] = Some (False, l)"
| "join_all l (r # rs) =
     do { (d, m) \<leftarrow> join l r; (d', m') \<leftarrow> join_all m rs; Some (d \<or> d', m') }"

fun all_joinable :: "'s \<Rightarrow> 's list \<Rightarrow> bool" where
  "all_joinable l [] = True"
| "all_joinable l (r # rs) =
     (ok l r \<and> (case join l r of None \<Rightarrow> False | Some (d, m) \<Rightarrow> all_joinable m rs))"

lemma join_all_upper:
  "all_joinable l rs \<Longrightarrow> \<exists>s \<in> set (l # rs). rel base s c \<Longrightarrow>
   \<exists>d m. join_all l rs = Some (d, m) \<and> rel base m c"
proof (induction rs arbitrary: l)
  case Nil
  then have "rel base l c" by simp
  then show ?case by (intro exI[of _ False] exI[of _ l]) simp
next
  case (Cons r rs)
  obtain d m where m: "join l r = Some (d, m)" "all_joinable m rs" "ok l r"
    using Cons.prems(1) by (auto split: option.splits)
  have "\<exists>s \<in> set (m # rs). rel base s c"
    using Cons.prems(2) join_upper[OF m(3,1)] by auto
  then obtain d' m' where "join_all m rs = Some (d', m')" "rel base m' c"
    using Cons.IH[OF m(2)] by blast
  then show ?case using m(1) by (intro exI[of _ "d \<or> d'"] exI[of _ m']) simp
qed

lemma join_all_stable:
  "all_joinable l rs \<Longrightarrow> join_all l rs = Some (False, m) \<Longrightarrow> s \<in> set rs \<Longrightarrow> rel base s c \<Longrightarrow> rel base l c"
proof (induction rs arbitrary: l m s)
  case (Cons r rs)
  obtain n where n: "join l r = Some (False, n)" "join_all n rs = Some (False, m)" "ok l r" "all_joinable n rs"
    using Cons.prems(1,2) by (auto simp: bind_eq_Some_conv split: option.splits)
  show ?case
  proof (cases "s = r")
    case True
    then show ?thesis using join_covers[OF n(3,1)] Cons.prems(4) by blast
  next
    case False
    then have "s \<in> set rs" using Cons.prems(3) by simp
    then have "rel base n c" using Cons.IH[OF n(4,2)] Cons.prems(4) by blast
    then show ?thesis using join_stable[OF n(3,1)] by blast
  qed
qed simp

end

section \<open>Element arrays\<close>

definition elems_joinable :: "elem list \<Rightarrow> elem list \<Rightarrow> bool" where
  "elems_joinable l r \<longleftrightarrow> wf_elems l \<and> length r = length l"

interpretation elems: join_state elems_joinable conc merge_elements
proof unfold_locales
  show "elems_joinable l r \<Longrightarrow> \<exists>d m. merge_elements l r = Some (d, m)" for l r
    using merge_elements_spec by (fastforce simp: elems_joinable_def)
  show "elems_joinable l r \<Longrightarrow> merge_elements l r = Some (d, m) \<Longrightarrow>
    conc base l c \<or> conc base r c \<Longrightarrow> conc base m c" for l r d m base c
    using merge_conc by (auto simp: elems_joinable_def)
  show "elems_joinable l r \<Longrightarrow> merge_elements l r = Some (False, m) \<Longrightarrow>
    conc base m c \<Longrightarrow> conc base l c" for l r m base c
    using merge_no_diff by (auto simp: elems_joinable_def)
qed

section \<open>Registers\<close>

definition shape_ps :: "program_state \<Rightarrow> bool" where
  "shape_ps ps \<longleftrightarrow> length (ps_flag1 ps) = 6 \<and> length (ps_gprs64 ps) = 16 \<and> length (ps_sse128 ps) = 16"

lemma wf_shape: "wf_ps ps \<Longrightarrow> shape_ps ps"
  by (simp add: wf_ps_def shape_ps_def)

lemma shape_put [simp]: "shape_ps (put_reg loc es ps) = shape_ps ps"
  by (cases loc) (auto simp: shape_ps_def)

lemma reg_elems_put_shape:
  "shape_ps ps \<Longrightarrow> loc_ok loc \<Longrightarrow> loc_ok loc' \<Longrightarrow>
   reg_elems (put_reg loc es ps) loc' = (if loc' = loc then es else reg_elems ps loc')"
  by (cases loc; cases loc') (auto simp: shape_ps_def)

lemma distinct_all_locs: "distinct all_locs"
  by (auto simp: all_locs_def distinct_map inj_on_def)

lemma merge_locs:
  assumes "distinct locs" and "\<forall>loc \<in> set locs. loc_ok loc" and "shape_ps ps"
    and "\<forall>loc \<in> set locs. elems_joinable (reg_elems ps loc) (reg_elems rhs loc)"
  shows "\<exists>d' ps'. for_each locs (merge_loc rhs) (d, ps) = Some (d', ps') \<and>
    shape_ps ps' \<and> ps_stack ps' = ps_stack ps \<and>
    (\<forall>loc. loc_ok loc \<longrightarrow> loc \<notin> set locs \<longrightarrow> reg_elems ps' loc = reg_elems ps loc) \<and>
    (\<forall>loc \<in> set locs. \<exists>b. merge_elements (reg_elems ps loc) (reg_elems rhs loc) = Some (b, reg_elems ps' loc) \<and>
       (b \<longrightarrow> d')) \<and>
    (d \<longrightarrow> d') \<and>
    (d' \<longrightarrow> d \<or> (\<exists>loc \<in> set locs. merge_elements (reg_elems ps loc) (reg_elems rhs loc) =
       Some (True, reg_elems ps' loc)))"
  using assms
proof (induction locs arbitrary: d ps)
  case (Cons loc locs)
  have lo: "loc_ok loc" using Cons.prems(2) by simp
  obtain b es where m: "merge_elements (reg_elems ps loc) (reg_elems rhs loc) = Some (b, es)"
    using elems.join_total[of "reg_elems ps loc" "reg_elems rhs loc"] Cons.prems(4) by auto
  let ?ps = "put_reg loc es ps"
  have at: "reg_elems ?ps l = (if l = loc then es else reg_elems ps l)" if "loc_ok l" for l
    using reg_elems_put_shape[OF Cons.prems(3) lo that] .
  have same: "reg_elems ?ps l = reg_elems ps l" if "l \<in> set locs" for l
    using at[of l] that Cons.prems(1,2) by auto
  obtain d' ps' where ih: "for_each locs (merge_loc rhs) (d \<or> b, ?ps) = Some (d', ps')"
    "shape_ps ps'" "ps_stack ps' = ps_stack ps"
    "\<forall>l. loc_ok l \<longrightarrow> l \<notin> set locs \<longrightarrow> reg_elems ps' l = reg_elems ?ps l"
    "\<forall>l \<in> set locs. \<exists>b. merge_elements (reg_elems ?ps l) (reg_elems rhs l) = Some (b, reg_elems ps' l) \<and> (b \<longrightarrow> d')"
    "d \<or> b \<longrightarrow> d'"
    "d' \<longrightarrow> (d \<or> b) \<or> (\<exists>l \<in> set locs. merge_elements (reg_elems ?ps l) (reg_elems rhs l) = Some (True, reg_elems ps' l))"
    using Cons.IH[of ?ps "d \<or> b"] Cons.prems same by auto
  have own: "reg_elems ps' loc = es"
    using ih(4) at[OF lo] lo Cons.prems(1) by auto
  have run: "for_each (loc # locs) (merge_loc rhs) (d, ps) = Some (d', ps')"
    using m ih(1) by (simp add: merge_loc_def)
  show ?case
  proof (intro exI[of _ d'] exI[of _ ps'] conjI run ih(2,3))
    show "\<forall>l. loc_ok l \<longrightarrow> l \<notin> set (loc # locs) \<longrightarrow> reg_elems ps' l = reg_elems ps l"
      using ih(4) at by auto
    show "\<forall>l \<in> set (loc # locs). \<exists>b. merge_elements (reg_elems ps l) (reg_elems rhs l) =
        Some (b, reg_elems ps' l) \<and> (b \<longrightarrow> d')"
      using ih(5,6) same m own by auto
    show "d \<longrightarrow> d'" using ih(6) by blast
    show "d' \<longrightarrow> d \<or> (\<exists>l \<in> set (loc # locs). merge_elements (reg_elems ps l) (reg_elems rhs l) =
        Some (True, reg_elems ps' l))"
      using ih(7) same m own by auto
  qed
qed simp

section \<open>The stack\<close>

text \<open>Growing to the larger sizes gives both stacks the same layout.\<close>

lemma grow_layout:
  assumes "\<not> st_dead st" and "wf_stack st" and "oldStackSize st \<le> old" and "newStackSize st \<le> new"
  shows "st_base (grow (- new) 0 (grow old 0 st)) = new"
    and "int (length (st_elems (grow (- new) 0 (grow old 0 st)))) = new + old"
proof -
  have b: "0 \<le> st_base st" "st_base st \<le> int (length (st_elems st))"
    using assms(2) by (auto simp: wf_stack_def)
  have o: "0 \<le> old" "0 \<le> new" using assms(3,4) b by (auto simp: oldStackSize_def newStackSize_def)
  let ?s1 = "grow_old old st"
  have g1: "grow old 0 st = ?s1"
    using assms(1) o b by (auto simp: grow_def grow_new_def newStackSize_def grow_old_def)
  have l1: "int (length (st_elems ?s1)) = st_base st + old" "st_base ?s1 = st_base st" "\<not> st_dead ?s1"
    using assms(1,3) b o by (auto simp: grow_old_def oldStackSize_def newStackSize_def resize_def)
  have "grow (- new) 0 ?s1 = grow_new new ?s1"
    using l1 o by (simp add: grow_def grow_old_def oldStackSize_def newStackSize_def)
  then show "st_base (grow (- new) 0 (grow old 0 st)) = new"
    and "int (length (st_elems (grow (- new) 0 (grow old 0 st)))) = new + old"
    using g1 l1 assms(4) by (auto simp: grow_new_def newStackSize_def Let_def)
qed

definition stacks_joinable :: "stack_state \<Rightarrow> stack_state \<Rightarrow> bool" where
  "stacks_joinable l r \<longleftrightarrow> wf_stack l \<and> wf_stack r"

lemma merge_stack_spec:
  assumes wf: "wf_stack l" "wf_stack r"
  shows "\<exists>d l' r'. merge_stack l r = Some (d, l', r') \<and>
    (stack_conc base l mem \<or> stack_conc base r mem \<longrightarrow> stack_conc base l' mem) \<and>
    (\<not> d \<longrightarrow> stack_conc base l' mem \<longrightarrow> stack_conc base l mem) \<and>
    (stack_conc base r' mem \<longleftrightarrow> stack_conc base r mem)"
proof (cases "\<not> st_dead l \<and> \<not> st_dead r")
  case False
  then show ?thesis by (auto simp: merge_stack_def stack_conc_def setDead_def)
next
  case True
  define old where "old = max (oldStackSize l) (oldStackSize r)"
  define new where "new = max (newStackSize l) (newStackSize r)"
  have mx: "oldStackSize l \<le> old" "newStackSize l \<le> new" "oldStackSize r \<le> old" "newStackSize r \<le> new"
    by (simp_all add: old_def new_def)
  let ?l = "grow (- new) 0 (grow old 0 l)"
  let ?r = "grow (- new) 0 (grow old 0 r)"
  have nd: "\<not> st_dead l" "\<not> st_dead r" using True by simp_all
  note lay = grow_layout[OF nd(1) wf(1) mx(1,2)] grow_layout[OF nd(2) wf(2) mx(3,4)]
  then have len: "length (st_elems ?r) = length (st_elems ?l)" by linarith
  note w1 = grow_facts(1)[OF nd(1) wf(1), of old 0] grow_facts(1)[OF nd(2) wf(2), of old 0]
    grow_facts(2)[OF nd(1) wf(1), of old 0] grow_facts(2)[OF nd(2) wf(2), of old 0]
  note w2 = grow_facts(1)[OF w1(3,1), of "- new" 0] grow_facts(2)[OF w1(3,1), of "- new" 0]
    grow_facts(2)[OF w1(4,2), of "- new" 0]
  have same: "stack_bytes ?r mem = stack_bytes ?l mem" using lay len by (simp add: stack_bytes_def)
  have gl: "stack_conc base l mem \<longleftrightarrow> conc base (st_elems ?l) (stack_bytes ?l mem)"
    using grow_conc[OF wf(1), of base old 0 mem] grow_conc[OF w1(1), of base "- new" 0 mem] w2(2)
    by (simp add: stack_conc_def)
  have gr: "stack_conc base r mem \<longleftrightarrow> conc base (st_elems ?r) (stack_bytes ?l mem)"
    using grow_conc[OF wf(2), of base old 0 mem] grow_conc[OF w1(2), of base "- new" 0 mem] w2(3) same
    by (simp add: stack_conc_def)
  have ok: "elems_joinable (st_elems ?l) (st_elems ?r)"
    using w2(1) len by (simp add: elems_joinable_def wf_stack_def)
  obtain d es where m: "merge_elements (st_elems ?l) (st_elems ?r) = Some (d, es)"
    using elems.join_total[OF ok] by blast
  have le: "length es = length (st_elems ?l)"
    using merge_elements_spec[of "st_elems ?l" "st_elems ?r"] ok m by (auto simp: elems_joinable_def)
  have "stack_bytes (?l\<lparr>st_elems := es\<rparr>) mem = stack_bytes ?l mem"
    using le by (simp add: stack_bytes_def)
  then have gm: "stack_conc base (?l\<lparr>st_elems := es\<rparr>) mem \<longleftrightarrow> conc base es (stack_bytes ?l mem)"
    using w2(2) by (simp add: stack_conc_def)
  have gr': "stack_conc base ?r mem \<longleftrightarrow> stack_conc base r mem"
    using grow_conc[OF wf(2)] grow_conc[OF w1(2)] by simp
  have run: "merge_stack l r = Some (d, ?l\<lparr>st_elems := es\<rparr>, ?r)"
    using nd m by (simp add: merge_stack_def Let_def old_def new_def)
  have "stack_conc base (?l\<lparr>st_elems := es\<rparr>) mem" if "stack_conc base l mem \<or> stack_conc base r mem"
    using elems.join_upper[OF ok m] that unfolding gm gl gr .
  moreover have "stack_conc base l mem" if "\<not> d" "stack_conc base (?l\<lparr>st_elems := es\<rparr>) mem"
    using elems.join_stable[OF ok, of es] m that unfolding gm gl by simp
  ultimately show ?thesis using run gr' by blast
qed

section \<open>Program states\<close>

definition ps_joinable :: "program_state \<Rightarrow> program_state \<Rightarrow> bool" where
  "ps_joinable l r \<longleftrightarrow> wf_ps l \<and> wf_ps r"

definition ps_join :: "program_state \<Rightarrow> program_state \<Rightarrow> (bool \<times> program_state) option" where
  "ps_join l r = map_option (\<lambda>(d, l', r'). (d, l')) (merge l r)"

lemma merge_spec:
  assumes wf: "wf_ps l" "wf_ps r"
  shows "\<exists>d l' r'. merge l r = Some (d, l', r') \<and>
    (ps_conc base l m \<or> ps_conc base r m \<longrightarrow> ps_conc base l' m) \<and>
    (\<not> d \<longrightarrow> ps_conc base l' m \<longrightarrow> ps_conc base l m) \<and>
    (ps_conc base r' m \<longleftrightarrow> ps_conc base r m)"
proof -
  have jo: "elems_joinable (reg_elems l loc) (reg_elems r loc)" if "loc_ok loc" for loc
    using wf_psD[OF wf(1) that] wf_psD[OF wf(2) that] by (simp add: elems_joinable_def)
  obtain d1 l1 where f: "for_each all_locs (merge_loc r) (False, l) = Some (d1, l1)"
    "shape_ps l1" "ps_stack l1 = ps_stack l"
    and per: "\<forall>loc \<in> set all_locs. \<exists>b. merge_elements (reg_elems l loc) (reg_elems r loc) =
        Some (b, reg_elems l1 loc) \<and> (b \<longrightarrow> d1)"
    using merge_locs[OF distinct_all_locs _ wf_shape[OF wf(1)], of r False] jo
    by (auto simp: in_all_locs)
  obtain d2 s1 s2 where s: "merge_stack (ps_stack l) (ps_stack r) = Some (d2, s1, s2)"
    "stack_conc base (ps_stack l) (m_stack m) \<or> stack_conc base (ps_stack r) (m_stack m) \<longrightarrow>
       stack_conc base s1 (m_stack m)"
    "\<not> d2 \<longrightarrow> stack_conc base s1 (m_stack m) \<longrightarrow> stack_conc base (ps_stack l) (m_stack m)"
    "stack_conc base s2 (m_stack m) \<longleftrightarrow> stack_conc base (ps_stack r) (m_stack m)"
    using merge_stack_spec[OF wf_ps_stack[OF wf(1)] wf_ps_stack[OF wf(2)]] by blast
  have up: "conc base (reg_elems l loc) bs \<or> conc base (reg_elems r loc) bs \<longrightarrow> conc base (reg_elems l1 loc) bs"
    and st: "\<not> d1 \<longrightarrow> conc base (reg_elems l1 loc) bs \<longrightarrow> conc base (reg_elems l loc) bs"
    if "loc_ok loc" for loc bs
  proof -
    have mem: "loc \<in> set all_locs" using that by (simp only: in_all_locs)
    obtain b where b: "merge_elements (reg_elems l loc) (reg_elems r loc) = Some (b, reg_elems l1 loc)" "b \<longrightarrow> d1"
      using bspec[OF per mem] by (elim exE conjE) (rule that)
    show "conc base (reg_elems l loc) bs \<or> conc base (reg_elems r loc) bs \<longrightarrow> conc base (reg_elems l1 loc) bs"
      using elems.join_upper[OF jo[OF that] b(1)] by blast
    show "\<not> d1 \<longrightarrow> conc base (reg_elems l1 loc) bs \<longrightarrow> conc base (reg_elems l loc) bs"
      using elems.join_stable[OF jo[OF that]] b by (cases b) auto
  qed
  have run: "merge l r = Some (d1 \<or> d2, l1\<lparr>ps_stack := s1\<rparr>, r\<lparr>ps_stack := s2\<rparr>)"
    using f s(1) by (simp add: merge_def)
  let ?l = "l1\<lparr>ps_stack := s1\<rparr>" and ?r = "r\<lparr>ps_stack := s2\<rparr>"
  have iff: "ps_conc base ps m \<longleftrightarrow> (\<forall>loc. loc_ok loc \<longrightarrow> conc base (reg_elems ps loc) (m_reg m loc)) \<and>
      stack_conc base (ps_stack ps) (m_stack m)" for ps
    by (simp add: ps_conc_def list_all_iff Ball_def in_all_locs)
  have "ps_conc base l m \<or> ps_conc base r m \<longrightarrow> ps_conc base ?l m"
    using up s(2) by (simp add: iff)
  moreover have "\<not> (d1 \<or> d2) \<longrightarrow> ps_conc base ?l m \<longrightarrow> ps_conc base l m"
    using st s(3) by (simp add: iff)
  moreover have "ps_conc base ?r m \<longleftrightarrow> ps_conc base r m"
    using s(4) by (simp add: iff)
  ultimately show ?thesis using run by blast
qed

interpretation pj: join_state ps_joinable ps_conc ps_join
proof unfold_locales
  show "ps_joinable l r \<Longrightarrow> \<exists>d m. ps_join l r = Some (d, m)" for l r
    using merge_spec by (fastforce simp: ps_joinable_def ps_join_def)
  show "ps_joinable l r \<Longrightarrow> ps_join l r = Some (d, m) \<Longrightarrow>
    ps_conc base l c \<or> ps_conc base r c \<Longrightarrow> ps_conc base m c" for l r d m base c
    using merge_spec[of l r base c] by (auto simp: ps_joinable_def ps_join_def)
  show "ps_joinable l r \<Longrightarrow> ps_join l r = Some (False, m) \<Longrightarrow>
    ps_conc base m c \<Longrightarrow> ps_conc base l c" for l r m base c
    using merge_spec[of l r base c] by (auto simp: ps_joinable_def ps_join_def)
qed

end
