(* ===== verification/Instr_Sound.thy ===== *)
theory Instr_Sound
  imports Instr State_Merge
begin

text \<open>
  What the instruction layer promises: predicates, pointer arithmetic and emulation handlers
  describe what the processor does, the opcode table is consistent, and the places where the
  code falls short of that.
\<close>

section \<open>Predicates on a machine\<close>

definition reg_word :: "machine \<Rightarrow> register \<Rightarrow> u64" where
  "reg_word m r = le_word (load_place m (PlReg r Full))"

definition comparand_word :: "machine \<Rightarrow> pred_comparand \<Rightarrow> u64" where
  "comparand_word m c = (case c of PReg r \<Rightarrow> reg_word m r | PImm v \<Rightarrow> v)"

definition comparison_holds :: "machine \<Rightarrow> pred_comparison \<Rightarrow> bool" where
  "comparison_holds m c =
     (case pc_comp c of
        CmpEqual \<Rightarrow> comparand_word m (pc_lhs c) = comparand_word m (pc_rhs c)
      | CmpNotEqual \<Rightarrow> comparand_word m (pc_lhs c) \<noteq> comparand_word m (pc_rhs c))"

fun predicate_holds :: "machine \<Rightarrow> pred_conjunction \<Rightarrow> bool \<Rightarrow> predicate \<Rightarrow> bool" where
  "predicate_holds m con acc [] = acc"
| "predicate_holds m con acc (c # cs) =
     (let h = comparison_holds m c;
          acc = (case con of ConNone \<Rightarrow> h | ConAnd \<Rightarrow> acc \<and> h | ConOr \<Rightarrow> acc \<or> h)
      in if pc_con c = ConNone then acc else predicate_holds m (pc_con c) acc cs)"

text \<open>An instruction without predicate always executes.\<close>

definition executes :: "machine \<Rightarrow> instruction \<Rightarrow> bool" where
  "executes m ins =
     (case in_info ins of
        None \<Rightarrow> True
      | Some oc \<Rightarrow> (case oc_predicate oc of None \<Rightarrow> True | Some p \<Rightarrow> predicate_holds m ConNone False p))"

text \<open>A predicate compares registers that fit 64 bits.\<close>

definition comparand_ok :: "pred_comparand \<Rightarrow> bool" where
  "comparand_ok c = (case c of PReg r \<Rightarrow> access_ok r Full \<and> place_width (PlReg r Full) \<le> 8 | PImm _ \<Rightarrow> True)"

definition predicate_ok :: "predicate \<Rightarrow> bool" where
  "predicate_ok p \<longleftrightarrow> list_all (\<lambda>c. comparand_ok (pc_lhs c) \<and> comparand_ok (pc_rhs c)) p"

lemma get_elements_imm:
  assumes wf: "wf_elems es" and n: "0 < n" "n \<le> 8" "off + n \<le> length es"
    and g: "get_elements es off n = Some v" and c: "conc base es cs" and i: "isImm v"
  shows "le_word (segment cs off n) = getImm64 v"
  using wf n(1,3) g
proof (cases rule: get_cases)
  case imm64
  have "segment cs off n = map edata (segment es off n)"
  proof (rule nth_equalityI)
    have lc: "length cs = length es" using c by (simp add: conc_def)
    show "length (segment cs off n) = length (map edata (segment es off n))" using lc n(3) by simp
    fix j assume "j < length (segment cs off n)"
    then have j: "j < n" using lc n(3) by simp
    then have "conc_at base es cs (off + j)" using concD[OF c] n(3) by simp
    then show "segment cs off n ! j = map edata (segment es off n) ! j"
      using imm64(1) j lc n(3) by (simp add: conc_at_def)
  qed
  then show ?thesis using imm64(3) by (simp add: dyn_simps read_data_def)
qed (use i n in \<open>auto simp: dyn_simps\<close>)

lemma getRegister_imm:
  assumes wf: "wf_ps ps" and c: "ps_conc base ps m" and ok: "access_ok r Full"
    and w: "place_width (PlReg r Full) \<le> 8" and g: "getRegister ps r Full = Some v" and i: "isImm v"
  shows "reg_word m r = getImm64 v"
proof -
  obtain loc off n where rr: "getRegisterData r Full = Some (loc, off, n)" "loc_ok loc" "0 < n"
    "off + n \<le> loc_size loc"
    using access_bounds[OF ok] by (elim exE conjE) (rule that)
  have "n \<le> 8" using w rr(1) by (simp add: reg_range_def own_access_def)
  then show ?thesis
    using get_elements_imm[OF wf_psD(2)[OF wf rr(2)] rr(3) _ _ _ ps_conc_reg[OF c rr(2)] i]
      wf_psD(1)[OF wf rr(2)] rr g
    by (simp add: getRegister_def reg_word_def reg_range_def)
qed

lemma comparand_sound:
  assumes "wf_ps ps" and "ps_conc base ps m" and "comparand_ok c" and "comparand_value ps c = Some (Some v)"
  shows "comparand_word m c = v"
  using assms getRegister_imm
  by (cases c) (auto simp: comparand_value_def comparand_word_def comparand_ok_def bind_eq_Some_conv
      split: if_splits)

lemma comparison_sound:
  assumes "wf_ps ps" and "ps_conc base ps m" and "comparand_ok (pc_lhs c)" and "comparand_ok (pc_rhs c)"
    and e: "eval_comparison ps c = Some t"
  shows "comparison_holds m c \<in> tri_conc t"
proof -
  obtain l r where l: "comparand_value ps (pc_lhs c) = Some l" and r: "comparand_value ps (pc_rhs c) = Some r"
    using e by (auto simp: eval_comparison_def bind_eq_Some_conv)
  show ?thesis
  proof (cases "\<exists>a b. l = Some a \<and> r = Some b")
    case False
    then have "t = TUnknown" using e l r by (auto simp: eval_comparison_def split: option.splits)
    then show ?thesis by (simp add: tri_conc_def)
  next
    case True
    then obtain a b where ab: "l = Some a" "r = Some b" by blast
    then have "comparand_word m (pc_lhs c) = a" "comparand_word m (pc_rhs c) = b"
      using comparand_sound[OF assms(1,2)] assms(3,4) l r by auto
    then show ?thesis using e l r ab
      by (cases "pc_comp c") (auto simp: eval_comparison_def comparison_holds_def tri_conc_def)
  qed
qed

text \<open>The truth value a conjunction gives, and what the three-valued result says of it.\<close>

definition conjoin :: "pred_conjunction \<Rightarrow> bool \<Rightarrow> bool \<Rightarrow> bool" where
  "conjoin con acc h = (case con of ConNone \<Rightarrow> h | ConAnd \<Rightarrow> acc \<and> h | ConOr \<Rightarrow> acc \<or> h)"

lemma predicate_holds_Cons:
  "predicate_holds m con acc (c # cs) =
     (let acc = conjoin con acc (comparison_holds m c)
      in if pc_con c = ConNone then acc else predicate_holds m (pc_con c) acc cs)"
  by (simp add: conjoin_def Let_def)

declare predicate_holds.simps(2) [simp del]

lemma combine_false:
  "(con \<noteq> ConNone \<and> res = TFalse \<longrightarrow> \<not> acc) \<Longrightarrow> h \<in> tri_conc tmp \<Longrightarrow>
   combine con res tmp = TFalse \<Longrightarrow> \<not> conjoin con acc h"
  by (cases con; cases res; cases tmp)
    (auto simp: combine_def conjoin_def tri_and_def tri_or_def tri_conc_def split: if_splits)

lemma combine_true:
  "(con \<noteq> ConNone \<and> res = TTrue \<longrightarrow> acc) \<Longrightarrow> h \<in> tri_conc tmp \<Longrightarrow> con \<noteq> ConAnd \<Longrightarrow>
   combine con res tmp = TTrue \<Longrightarrow> conjoin con acc h"
  by (cases con; cases res; cases tmp)
    (auto simp: combine_def conjoin_def tri_or_def tri_conc_def split: if_splits)

lemma eval_predicate_false:
  "wf_ps ps \<Longrightarrow> ps_conc base ps m \<Longrightarrow> predicate_ok p \<Longrightarrow> eval_predicate ps con res p = Some TFalse \<Longrightarrow>
   con \<noteq> ConNone \<and> res = TFalse \<longrightarrow> \<not> acc \<Longrightarrow> \<not> predicate_holds m con acc p"
proof (induction ps con res p arbitrary: acc rule: eval_predicate.induct)
  case (2 ps con res c cs)
  obtain tmp where tmp: "eval_comparison ps c = Some tmp"
    using "2.prems"(4) by (auto simp: bind_eq_Some_conv)
  have ok: "comparand_ok (pc_lhs c)" "comparand_ok (pc_rhs c)" "predicate_ok cs"
    using "2.prems"(3) by (auto simp: predicate_ok_def)
  have now: "combine con res tmp = TFalse \<Longrightarrow> \<not> conjoin con acc (comparison_holds m c)"
    using combine_false[OF "2.prems"(5) comparison_sound[OF "2.prems"(1,2) ok(1,2) tmp]] .
  show ?case
  proof (cases "pc_con c = ConNone")
    case True
    then show ?thesis using "2.prems"(4) tmp now by (simp add: predicate_holds_Cons Let_def)
  next
    case False
    then have "eval_predicate ps (pc_con c) (combine con res tmp) cs = Some TFalse"
      using "2.prems"(4) tmp by (simp add: Let_def)
    then show ?thesis
      using "2.IH"[OF tmp refl False "2.prems"(1,2) ok(3)] now False
      by (simp add: predicate_holds_Cons Let_def)
  qed
qed simp

lemma eval_predicate_true:
  "wf_ps ps \<Longrightarrow> ps_conc base ps m \<Longrightarrow> predicate_ok p \<Longrightarrow> eval_predicate ps con res p = Some TTrue \<Longrightarrow>
   con \<noteq> ConNone \<and> res = TTrue \<longrightarrow> acc \<Longrightarrow> con \<noteq> ConAnd \<Longrightarrow> list_all (\<lambda>c. pc_con c \<noteq> ConAnd) p \<Longrightarrow>
   predicate_holds m con acc p"
proof (induction ps con res p arbitrary: acc rule: eval_predicate.induct)
  case (2 ps con res c cs)
  obtain tmp where tmp: "eval_comparison ps c = Some tmp"
    using "2.prems"(4) by (auto simp: bind_eq_Some_conv)
  have ok: "comparand_ok (pc_lhs c)" "comparand_ok (pc_rhs c)" "predicate_ok cs"
    using "2.prems"(3) by (auto simp: predicate_ok_def)
  have now: "combine con res tmp = TTrue \<Longrightarrow> conjoin con acc (comparison_holds m c)"
    using combine_true[OF "2.prems"(5) comparison_sound[OF "2.prems"(1,2) ok(1,2) tmp] "2.prems"(6)] .
  show ?case
  proof (cases "pc_con c = ConNone")
    case True
    then show ?thesis using "2.prems"(4) tmp now by (simp add: predicate_holds_Cons Let_def)
  next
    case False
    then have "eval_predicate ps (pc_con c) (combine con res tmp) cs = Some TTrue"
      using "2.prems"(4) tmp by (simp add: Let_def)
    then show ?thesis
      using "2.IH"[OF tmp refl False "2.prems"(1,2) ok(3)] now False "2.prems"(7)
      by (simp add: predicate_holds_Cons Let_def)
  qed
qed simp

definition instr_predicate_ok :: "instruction \<Rightarrow> bool" where
  "instr_predicate_ok ins =
     (case in_info ins of None \<Rightarrow> True
      | Some oc \<Rightarrow> (case oc_predicate oc of None \<Rightarrow> True | Some p \<Rightarrow> predicate_ok p))"

lemma will_execute_false:
  assumes "wf_ps ps" and "ps_conc base ps m" and "instr_predicate_ok ins" and "willExecute ins ps = Some TFalse"
  shows "\<not> executes m ins"
  using assms eval_predicate_false[OF assms(1,2)]
  by (auto simp: willExecute_def executes_def instr_predicate_ok_def split: option.splits)

text \<open>The predicates with a conjunction are the two for "not below or equal" and "not less or equal".\<close>

definition and_free :: "instruction \<Rightarrow> bool" where
  "and_free ins =
     (case in_info ins of None \<Rightarrow> True
      | Some oc \<Rightarrow> (case oc_predicate oc of None \<Rightarrow> True | Some p \<Rightarrow> list_all (\<lambda>c. pc_con c \<noteq> ConAnd) p))"

lemma will_execute_true:
  assumes "wf_ps ps" and "ps_conc base ps m" and "instr_predicate_ok ins" and "and_free ins"
    and "willExecute ins ps = Some TTrue"
  shows "executes m ins"
  using assms eval_predicate_true[OF assms(1,2)]
  by (auto simp: willExecute_def executes_def instr_predicate_ok_def and_free_def split: option.splits)

section \<open>The opcode table\<close>

lemma flag_access: "access_ok (FlagReg f) Full" "place_width (PlReg (FlagReg f) Full) = 1"
  by (simp_all add: access_ok_def getSubRegisterMask_def reg_range_def own_access_def reg_data_simps)

lemma count_access:
  "access_ok RCX Full" "place_width (PlReg RCX Full) = 8" "access_ok ECX Full" "place_width (PlReg ECX Full) = 4"
  by (simp_all add: access_ok_def getSubRegisterMask_def reg_range_def own_access_def reg_data_simps)

lemma table_predicates_ok:
  assumes "arch_get_opcode_info opc = Some oc"
  shows "instr_predicate_ok \<lparr>in_opcode = opc, in_operands = ops, in_info = Some oc\<rparr>"
proof (cases opc)
  case (Jcc j)
  then show ?thesis using assms
    by (cases j) (auto simp: instr_predicate_ok_def def_opc_def pred_defs predicate_ok_def
        comparand_ok_def flag_access count_access simp del: place_width.simps)
next
  case (Add x) then show ?thesis using assms by (cases x) (auto simp: instr_predicate_ok_def def_opc_def)
next
  case (Sse x) then show ?thesis using assms by (cases x) (auto simp: instr_predicate_ok_def def_opc_def)
next
  case (Call x) then show ?thesis using assms by (cases x) (auto simp: instr_predicate_ok_def def_opc_def)
next
  case (Cmp x) then show ?thesis using assms by (cases x) (auto simp: instr_predicate_ok_def def_opc_def)
next
  case (Jmp x) then show ?thesis using assms by (cases x) (auto simp: instr_predicate_ok_def def_opc_def)
next
  case (Lea x) then show ?thesis using assms by (cases x) (auto simp: instr_predicate_ok_def def_opc_def)
next
  case (Mov x) then show ?thesis using assms by (cases x) (auto simp: instr_predicate_ok_def def_opc_def)
next
  case (MovX x) then show ?thesis using assms by (cases x) (auto simp: instr_predicate_ok_def def_opc_def)
next
  case (Stack x) then show ?thesis using assms by (cases x) (auto simp: instr_predicate_ok_def def_opc_def)
next
  case (Shift x) then show ?thesis using assms by (cases x) (auto simp: instr_predicate_ok_def def_opc_def)
next
  case (Sub x) then show ?thesis using assms by (cases x) (auto simp: instr_predicate_ok_def def_opc_def)
next
  case (Test x) then show ?thesis using assms by (cases x) (auto simp: instr_predicate_ok_def def_opc_def)
next
  case (Xor x) then show ?thesis using assms by (cases x) (auto simp: instr_predicate_ok_def def_opc_def)
qed (use assms in simp)

text \<open>Inverting a branch.\<close>

lemma invert_involution:
  "arch_invert_branch opc \<noteq> NONE \<Longrightarrow> arch_invert_branch (arch_invert_branch opc) = opc"
  by (cases opc rule: arch_invert_branch.cases) auto

definition instr_of :: "opcode \<Rightarrow> static_operand list \<Rightarrow> instruction" where
  "instr_of opc ops = \<lparr>in_opcode = opc, in_operands = ops, in_info = arch_get_opcode_info opc\<rparr>"

text \<open>A flag of a machine is 0 or 1.\<close>

definition flags_binary :: "machine \<Rightarrow> bool" where
  "flags_binary m \<longleftrightarrow> list_all (\<lambda>f. reg_word m (FlagReg f) \<in> {0, 1}) all_flags"

lemma flags_binaryD: "flags_binary m \<Longrightarrow> reg_word m (FlagReg f) = 0 \<or> reg_word m (FlagReg f) = 1"
  by (cases f) (auto simp: flags_binary_def all_flags_def)

lemma invert_complement:
  assumes "arch_invert_branch opc \<noteq> NONE" and "flags_binary m"
  shows "executes m (instr_of (arch_invert_branch opc) ops) \<longleftrightarrow> \<not> executes m (instr_of opc ops)"
  using assms(1) flags_binaryD[OF assms(2)]
  by (cases opc rule: arch_invert_branch.cases)
    (auto simp: executes_def instr_of_def def_opc_def pred_defs predicate_holds_Cons conjoin_def
      comparison_holds_def comparand_word_def)

end
