(* ===== verification/Operand_Sound.thy ===== *)
theory Operand_Sound
  imports Instr_Sound
begin

text \<open>
  The operands of an instruction evaluated in a program state: the address of a memory
  operand and the value read there describe what the machine computes and reads.
\<close>

section \<open>Addresses\<close>

text \<open>The address the machine computes; a configured pointer stands for its value.\<close>

definition addr_word :: "machine \<Rightarrow> register \<Rightarrow> u64" where
  "addr_word m r = (if r = NoReg then 0 else reg_word m r)"

definition disp_word :: "base \<Rightarrow> signed_immediate32 \<Rightarrow> u64" where
  "disp_word base d =
     (if s32_usrPtrNr d < 0 then scast (s32_val d)
      else base UsrPtr (word_of_int (s32_usrPtrNr d)) + s32_usrPtrOffset d)"

definition imm_word :: "base \<Rightarrow> immediate64 \<Rightarrow> u64" where
  "imm_word base d =
     (if i64_usrPtrNr d < 0 then i64_val d
      else base UsrPtr (word_of_int (i64_usrPtrNr d)) + i64_usrPtrOffset d)"

fun address_of :: "base \<Rightarrow> machine \<Rightarrow> static_mem_ptr \<Rightarrow> u64" where
  "address_of base m MpNone = 0"
| "address_of base m (MpDirect a) = imm_word base a"
| "address_of base m (MpSIB b i d s) = addr_word m b + ucast s * addr_word m i + disp_word base d"

definition addr_reg_ok :: "register \<Rightarrow> bool" where
  "addr_reg_ok r \<longleftrightarrow> (case r of NoReg \<Rightarrow> True | Gpr64 _ \<Rightarrow> True | _ \<Rightarrow> False)"

fun ptr_ok :: "static_mem_ptr \<Rightarrow> bool" where
  "ptr_ok MpNone = False"
| "ptr_ok (MpDirect _) = True"
| "ptr_ok (MpSIB b i _ _) = (addr_reg_ok b \<and> addr_reg_ok i)"

lemma word_of_bytes: "bytes_conc base v bs \<Longrightarrow> length bs = 8 \<Longrightarrow> word_conc base v (le_word bs)"
proof (cases v)
  case (Imm128 w)
  assume "bytes_conc base v bs" "length bs = 8"
  then have "bs = le_bytes 8 (ucast w :: u64)" using Imm128 by (simp add: bytes_conc_def le_bytes_ucast)
  then show ?thesis using Imm128 by (simp add: word_conc_def le_word_le_bytes)
qed (auto simp: bytes_conc_def word_conc_def le_word_le_bytes dest!: arg_cong[of _ _ "le_word :: byte list \<Rightarrow> u64"])

lemma gpr64_range: "reg_range (Gpr64 g) Full = (LGprs64 (gpr_nr g), 0, 8)" "access_ok (Gpr64 g) Full"
  by (simp_all add: reg_range_def reg_data_simps access_ok_def getSubRegisterMask_def)

lemma gpr64_word:
  assumes "wf_ps ps" and "ps_conc base ps m"
  shows "\<exists>v. getRegister ps (Gpr64 g) Full = Some v \<and> word_conc base v (reg_word m (Gpr64 g))"
proof -
  obtain v where v: "getRegister ps (Gpr64 g) Full = Some v"
    "bytes_conc base v (load_place m (PlReg (Gpr64 g) Full))"
    using read_reg_place[OF assms(1) gpr64_range(2)[of g]] assms(2) by blast
  have "length (load_place m (PlReg (Gpr64 g) Full)) = 8"
    using ps_conc_reg[OF assms(2), of "LGprs64 (gpr_nr g)"] wf_psD(1)[OF assms(1), of "LGprs64 (gpr_nr g)"]
    by (simp add: gpr64_range conc_def)
  then show ?thesis using v word_of_bytes by (auto simp: reg_word_def)
qed

lemma addr_register_word:
  assumes "wf_ps ps" and "ps_conc base ps m" and "addr_reg_ok r"
  shows "\<exists>v. addr_register ps r = Some v \<and> word_conc base v (addr_word m r)"
  using assms gpr64_word[OF assms(1,2)]
  by (cases r) (auto simp: addr_register_def addr_word_def addr_reg_ok_def word_conc_def)

lemma calculateMemPtr_sound:
  assumes "word_conc base b x" and "word_conc base i y" and "word_conc base d z"
  shows "\<exists>v. calculateMemPtr (DmSIB b i d s) = Some v \<and> word_conc base v (x + ucast s * y + z)"
proof (cases "isImm b \<and> isImm i \<and> isImm d")
  case True
  then show ?thesis using assms by (simp add: calculateMemPtr_def word_conc_imm) (simp add: word_conc_def)
next
  case False
  let ?v = "addDynamicValues d (addDynamicValues b (multiplyDynamicValue i s))"
  have "word_conc base ?v (z + (x + ucast s * y))"
    using assms by (intro add_sound multiply_sound)
  moreover have "calculateMemPtr (DmSIB b i d s) = Some ?v" using False by (auto simp: calculateMemPtr_def)
  ultimately show ?thesis by (simp add: add.commute)
qed

lemma calculateMemPtr_taint:
  assumes "may_be_stack b \<or> may_be_stack i \<or> may_be_stack d" and "calculateMemPtr (DmSIB b i d s) = Some v"
  shows "may_be_stack v"
proof -
  have "\<not> (isImm b \<and> isImm i \<and> isImm d)"
    using assms(1) by (cases b; cases i; cases d) (auto simp: may_be_stack_def dyn_simps)
  moreover have "may_be_stack (addDynamicValues d (addDynamicValues b (multiplyDynamicValue i s)))"
    using assms(1) add_taint multiply_taint by blast
  ultimately show ?thesis using assms(2) by (auto simp: calculateMemPtr_def)
qed

lemma createMemAccess_sound:
  assumes "wf_ps ps" and "ps_conc base ps m" and "ptr_ok (sma_ptr raw)"
  shows "\<exists>ma. createMemAccess raw ps = Some ma \<and> ma_mode ma = sma_mode raw \<and> ma_size ma = sma_size raw \<and>
    word_conc base (ma_ptrVal ma) (address_of base m (sma_ptr raw))"
proof (cases "sma_ptr raw")
  case (MpSIB b i d s)
  obtain x where x: "addr_register ps b = Some x" "word_conc base x (addr_word m b)"
    using addr_register_word[OF assms(1,2), of b] assms(3) MpSIB by auto
  obtain y where y: "addr_register ps i = Some y" "word_conc base y (addr_word m i)"
    using addr_register_word[OF assms(1,2), of i] assms(3) MpSIB by auto
  let ?z = "usr_or_imm (s32_usrPtrNr d) (s32_usrPtrOffset d) (scast (s32_val d))"
  have z: "word_conc base ?z (disp_word base d)"
    by (simp add: usr_or_imm_def disp_word_def word_conc_def)
  show ?thesis
    using calculateMemPtr_sound[OF x(2) y(2) z, of s] x(1) y(1) MpSIB
    by (auto simp: createMemAccess_def Let_def)
qed (use assms(3) in \<open>auto simp: createMemAccess_def usr_or_imm_def imm_word_def word_conc_def\<close>)

section \<open>Reading memory\<close>

definition host_bytes :: "(u64 \<Rightarrow> byte) \<Rightarrow> u64 \<Rightarrow> nat \<Rightarrow> byte list" where
  "host_bytes host p n = map (\<lambda>i. host (p + of_nat i)) [0..<n]"

text \<open>The address an access can be resolved to, when the value says so.\<close>

definition known_address :: "rw_env \<Rightarrow> dyn_value \<Rightarrow> u64 option" where
  "known_address env p =
     (case p of
        Imm64 a \<Rightarrow> Some a
      | Imm128 a \<Rightarrow> Some (ucast a)
      | Ptr UsrPtr nr off \<Rightarrow>
          if unat nr < length (env_usrPtrs env) \<and> up_isKnown (env_usrPtrs env ! unat nr)
          then Some (up_val (env_usrPtrs env ! unat nr) + off) else None
      | _ \<Rightarrow> None)"

definition declared_const :: "rw_env \<Rightarrow> dyn_value \<Rightarrow> bool" where
  "declared_const env p =
     (case p of Ptr UsrPtr nr off \<Rightarrow> up_isConst (env_usrPtrs env ! unat nr) | _ \<Rightarrow> False)"

lemma length_host_bytes [simp]: "length (host_bytes host p n) = n"
  by (simp add: host_bytes_def)

lemma le_bytes_read_host:
  "le_bytes n (read_host host p n :: 'a::len word) = host_bytes host p n" if "8 * n \<le> LENGTH('a)"
  using that by (simp add: read_host_def host_bytes_def le_bytes_le_word)

text \<open>
  A read that gives a number read memory that is constant, through a pointer that is known, and
  the number is what is there; through any other pointer that is not to the stack the result
  says nothing.
\<close>

lemma read_known:
  assumes g: "emulateReadAccess env ma ps = Some (v, ps')" and s: "\<not> isStackPtr (ma_ptrVal ma)"
  shows "ps' = ps \<and> (v \<in> {Unknown, Tainted} \<or>
    (\<exists>a. known_address env (ma_ptrVal ma) = Some a \<and>
       (\<forall>base. bytes_conc base v (host_bytes (env_host env) a (mem_bytes (ma_size ma)))) \<and>
       (declared_const env (ma_ptrVal ma) \<or>
        isConstant (env_prot env) a (of_nat (mem_bytes (ma_size ma))) = Some True)))"
proof -
  let ?p = "ma_ptrVal ma" and ?n = "mem_bytes (ma_size ma)"
  have load: "ps' = ps \<and> bytes_conc base v (host_bytes (env_host env) a ?n)"
    if "(case ma_size ma of
        MB1 \<Rightarrow> Some (Imm64 (read_host (env_host env) a 1), ps)
      | MB2 \<Rightarrow> Some (Imm64 (read_host (env_host env) a 2), ps)
      | MB4 \<Rightarrow> Some (Imm64 (read_host (env_host env) a 4), ps)
      | MB8 \<Rightarrow> Some (Imm64 (read_host (env_host env) a 8), ps)
      | MB16 \<Rightarrow> Some (Imm128 (read_host (env_host env) a 16), ps)
      | _ \<Rightarrow> throw) = Some (v, ps')" for base a
    using that by (cases "ma_size ma")
      (auto simp: bytes_conc_def le_bytes_read_host)
  show ?thesis
    using g s load
    by (cases ?p)
      (auto simp: emulateReadAccess_def dyn_simps getUsrPtrCfg_def known_address_def declared_const_def Let_def
        bind_eq_Some_conv split: if_splits ptr_kind.splits)
qed

end
