(* ===== verification/Table_Sound.thy ===== *)
theory Table_Sound
  imports Instr_Sound
begin

text \<open>
  The opcode table read through \<open>getInfo\<close>: for every opcode whose operands fit the table the
  static information exists, with one entry per operand, except for the four shifts by CL,
  whose table entry makes the query throw.
\<close>

section \<open>Entries that name valid parts\<close>

definition access_valid :: "reg_type \<Rightarrow> reg_access \<Rightarrow> bool" where
  "access_valid t a =
     (case t of
        RTSse128 \<Rightarrow> a \<notin> {RANone, FullZeroParent}
      | RTFlag1 \<Rightarrow> a = Full
      | RTGprs64 \<Rightarrow> a = Full
      | _ \<Rightarrow> a \<in> {Full, FullZeroParent})"

definition reg_has_type :: "register \<Rightarrow> reg_type \<Rightarrow> bool" where
  "reg_has_type r t = (case arch_get_register_info r of Some i \<Rightarrow> ri_type i = t | None \<Rightarrow> False)"

lemma reg_has_type_access: "reg_has_type r t \<Longrightarrow> access_valid t a \<Longrightarrow> access_ok r a"
  by (cases r; cases a)
    (auto simp: reg_has_type_def access_valid_def access_ok_def getSubRegisterMask_def
      def_reg_simple_def def_reg_xmm_def nth_opt_def split: reg_type.splits)

fun eoi_ok :: "explicit_operand_info \<Rightarrow> bool" where
  "eoi_ok (EoiReg t mode r w) = ((isRead mode \<longrightarrow> access_valid t r) \<and> (isWrite mode \<longrightarrow> access_valid t w))"
| "eoi_ok _ = True"

fun soi_ok :: "static_operand_info \<Rightarrow> bool" where
  "soi_ok (SoiReg a) =
     ((isRead (sra_mode a) \<longrightarrow> access_ok (sra_reg a) (sra_r a)) \<and>
      (isWrite (sra_mode a) \<longrightarrow> access_ok (sra_reg a) (sra_w a)))"
| "soi_ok _ = True"

text \<open>An operand of the form the table asks for.\<close>

fun operand_fits :: "explicit_operand_info \<Rightarrow> static_operand \<Rightarrow> bool" where
  "operand_fits (EoiReg t _ _ _) (SopReg r) = reg_has_type r t"
| "operand_fits (EoiMem _ _) (SopMem _) = True"
| "operand_fits (EoiImm _) (SopImm _) = True"
| "operand_fits _ _ = False"

definition operands_fit :: "opcode_info \<Rightarrow> static_operand list \<Rightarrow> bool" where
  "operands_fit oc ops \<longleftrightarrow>
     length (oc_opInfo oc) \<le> length ops \<and>
     list_all (\<lambda>i. operand_fits (oc_opInfo oc ! i) (ops ! i)) [0..<length (oc_opInfo oc)]"

lemma raw_operand_ok:
  "eoi_ok e \<Longrightarrow> operand_fits e op \<Longrightarrow> \<exists>raw. createRawOperandInfo e op = Some raw \<and> soi_ok raw"
  by (cases e; cases op) (auto simp: createRawOperandInfo_def intro: reg_has_type_access)

lemma full_mask_total: "r \<noteq> NoReg \<Longrightarrow> \<exists>m. getSubRegisterMaskFull r = Some m"
  by (cases r) auto

lemma addAddrRegs_total: "\<exists>m'. addAddrRegs m ptr = Some m'"
proof (cases ptr)
  case (MpSIB b idx d s)
  then show ?thesis using full_mask_total[of b] full_mask_total[of idx]
    by (cases "b = NoReg"; cases "idx = NoReg") (auto simp: addAddrRegs_def)
qed (simp_all add: addAddrRegs_def)

lemma add_masks_total:
  assumes "soi_ok (oi_info oi)"
  shows "\<exists>info'. addOperandToRegisterMasks oi info = Some info' \<and>
    ii_operands info' = ii_operands info \<and> ii_nasty info' = ii_nasty info"
proof (cases "oi_info oi")
  case (SoiReg a)
  have m: "\<exists>m'. add_mask r acc m = Some m'" if "access_ok r acc" for r acc m
    using that by (auto simp: add_mask_def access_ok_def)
  obtain rd where rd: "(if isRead (sra_mode a) then add_mask (sra_reg a) (sra_r a) (ii_readRegs info)
      else Some (ii_readRegs info)) = Some rd"
    using m[of "sra_reg a" "sra_r a" "ii_readRegs info"] assms SoiReg
    by (cases "isRead (sra_mode a)") auto
  show ?thesis
  proof (cases "isWrite (sra_mode a)")
    case True
    then obtain w c where "add_mask (sra_reg a) (sra_w a) (ii_writtenRegs info) = Some w"
      "add_mask (sra_reg a) (sra_w a) (ii_condWrittenRegs info) = Some c"
      using m[of "sra_reg a" "sra_w a"] assms SoiReg by fastforce
    then show ?thesis using True rd SoiReg by (simp add: addOperandToRegisterMasks_def Let_def)
  next
    case False
    then show ?thesis using rd SoiReg by (simp add: addOperandToRegisterMasks_def Let_def)
  qed
next
  case (SoiMem a)
  then show ?thesis using addAddrRegs_total[of "ii_readRegs info" "sma_ptr a"]
    by (auto simp: addOperandToRegisterMasks_def)
qed (simp add: addOperandToRegisterMasks_def)

lemma info_operand_total:
  assumes "createOperandInfo ins raw nr impl = Some oi" and "soi_ok (oi_info oi)"
  shows "\<exists>info'. info_operand ins raw nr impl info = Some info' \<and>
    length (ii_operands info') = length (ii_operands info) + 1 \<and> ii_nasty info' = ii_nasty info"
  using add_masks_total[OF assms(2), of info] assms(1) by (auto simp: info_operand_def)

section \<open>The information exists\<close>

lemma counted_loop:
  assumes "\<And>i s. i < n \<Longrightarrow> \<exists>s'. f i s = Some s' \<and> length (ii_operands s') = length (ii_operands s) + 1 \<and>
      ii_nasty s' = ii_nasty s"
  shows "\<exists>s'. for_each [0..<n] f s = Some s' \<and> length (ii_operands s') = length (ii_operands s) + n \<and>
      ii_nasty s' = ii_nasty s"
  using assms
proof (induction n)
  case (Suc n)
  then obtain t where t: "for_each [0..<n] f s = Some t" "length (ii_operands t) = length (ii_operands s) + n"
    "ii_nasty t = ii_nasty s"
    by (metis less_SucI)
  then show ?case using Suc.prems[of n t] by (auto simp: for_each_append)
qed simp

definition predicate_closed :: "predicate \<Rightarrow> bool" where
  "predicate_closed p \<longleftrightarrow> p \<noteq> [] \<and> pc_con (last p) = ConNone"

lemma add_comparand_total: "comparand_ok x \<Longrightarrow> \<exists>m'. add_comparand x m = Some m'"
proof (cases x)
  case (PReg r)
  moreover assume "comparand_ok x"
  ultimately have "r \<noteq> NoReg" by (auto simp: comparand_ok_def access_ok_def getSubRegisterMask_def)
  then show ?thesis using full_mask_total[of r] PReg by (auto simp: add_comparand_def)
qed (simp add: add_comparand_def)

lemma predicate_regs_total:
  "predicate_ok p \<Longrightarrow> predicate_closed p \<Longrightarrow> \<exists>m'. predicate_regs n p m = Some m'"
proof (induction n p m rule: predicate_regs.induct)
  case (3 n c cs m)
  obtain m1 where m1: "add_comparand (pc_lhs c) m = Some m1"
    using add_comparand_total[of "pc_lhs c"] "3.prems"(1) by (auto simp: predicate_ok_def)
  obtain m2 where m2: "add_comparand (pc_rhs c) m1 = Some m2"
    using add_comparand_total[of "pc_rhs c"] "3.prems"(1) by (auto simp: predicate_ok_def)
  show ?case
  proof (cases "pc_con c = ConNone")
    case False
    then have "predicate_closed cs" "predicate_ok cs"
      using "3.prems" by (auto simp: predicate_closed_def predicate_ok_def split: if_splits)
    then show ?thesis using "3.IH"[OF m1 m2 False] m1 m2 False by simp
  qed (simp add: m1 m2)
qed (simp_all add: predicate_closed_def)

text \<open>An entry is consistent if its operands, refined for these operands, name valid parts.\<close>

definition entry_ok :: "instruction \<Rightarrow> opcode_info \<Rightarrow> bool" where
  "entry_ok ins oc \<longleftrightarrow>
     (\<forall>i < length (oc_opInfo oc). \<forall>raw. createRawOperandInfo (oc_opInfo oc ! i) (in_operands ins ! i) = Some raw \<longrightarrow>
        (\<exists>oi. createOperandInfo ins raw i False = Some oi \<and> soi_ok (oi_info oi))) \<and>
     (\<forall>i < length (oc_iOpInfo oc).
        (\<exists>oi. createOperandInfo ins (oc_iOpInfo oc ! i) (i + length (oc_opInfo oc)) True = Some oi \<and> soi_ok (oi_info oi)))"

lemma getInfo_total:
  assumes oc: "in_info ins = Some oc" and fit: "operands_fit oc (in_operands ins)"
    and eo: "list_all eoi_ok (oc_opInfo oc)" and e: "entry_ok ins oc"
    and p: "\<forall>p. oc_predicate oc = Some p \<longrightarrow> predicate_ok p \<and> predicate_closed p"
  shows "\<exists>info. getInfo ins = Some info \<and> \<not> ii_nasty info \<and>
    length (ii_operands info) = length (oc_opInfo oc) + length (oc_iOpInfo oc)"
proof -
  have ex: "\<exists>s'. (do { op \<leftarrow> raw_op (in_operands ins) i;
                      raw \<leftarrow> createRawOperandInfo (oc_opInfo oc ! i) op;
                      info_operand ins raw i False s }) = Some s' \<and>
      length (ii_operands s') = length (ii_operands s) + 1 \<and> ii_nasty s' = ii_nasty s"
    if i: "i < length (oc_opInfo oc)" for i s
  proof -
    have op: "raw_op (in_operands ins) i = Some (in_operands ins ! i)"
      using fit i by (auto simp: raw_op_def operands_fit_def)
    have "eoi_ok (oc_opInfo oc ! i)" "operand_fits (oc_opInfo oc ! i) (in_operands ins ! i)"
      using eo fit i by (auto simp: operands_fit_def list_all_iff list_all_length)
    then obtain raw where raw: "createRawOperandInfo (oc_opInfo oc ! i) (in_operands ins ! i) = Some raw"
      using raw_operand_ok by blast
    then obtain oi where "createOperandInfo ins raw i False = Some oi" "soi_ok (oi_info oi)"
      using e i unfolding entry_ok_def by blast
    then show ?thesis using info_operand_total[of ins raw i False oi s] op raw by simp
  qed
  obtain s1 where s1: "for_each [0..<length (oc_opInfo oc)]
      (\<lambda>i info. do { op \<leftarrow> raw_op (in_operands ins) i;
                     raw \<leftarrow> createRawOperandInfo (oc_opInfo oc ! i) op;
                     info_operand ins raw i False info }) info_empty = Some s1"
    "length (ii_operands s1) = length (oc_opInfo oc)" "\<not> ii_nasty s1"
    using counted_loop[of "length (oc_opInfo oc)" "\<lambda>i info. do { op \<leftarrow> raw_op (in_operands ins) i;
        raw \<leftarrow> createRawOperandInfo (oc_opInfo oc ! i) op; info_operand ins raw i False info }" info_empty, OF ex]
    by (auto simp: info_empty_def)
  have im: "\<exists>s'. info_operand ins (oc_iOpInfo oc ! i) (i + length (oc_opInfo oc)) True s = Some s' \<and>
      length (ii_operands s') = length (ii_operands s) + 1 \<and> ii_nasty s' = ii_nasty s"
    if "i < length (oc_iOpInfo oc)" for i s
    using e that info_operand_total by (fastforce simp: entry_ok_def)
  obtain s2 where s2: "for_each [0..<length (oc_iOpInfo oc)]
      (\<lambda>i info. info_operand ins (oc_iOpInfo oc ! i) (i + length (oc_opInfo oc)) True info) s1 = Some s2"
    "length (ii_operands s2) = length (ii_operands s1) + length (oc_iOpInfo oc)" "ii_nasty s2 = ii_nasty s1"
    using counted_loop[of "length (oc_iOpInfo oc)"
        "\<lambda>i info. info_operand ins (oc_iOpInfo oc ! i) (i + length (oc_opInfo oc)) True info" s1] im
    by blast
  show ?thesis
  proof (cases "oc_predicate oc")
    case None
    then show ?thesis using oc s1 s2 by (simp add: getInfo_def)
  next
    case (Some q)
    then obtain m' where "predicate_regs 2 q (ii_predicateRegs s2) = Some m'"
      using predicate_regs_total p by blast
    then show ?thesis using Some oc s1 s2 by (simp add: getInfo_def)
  qed
qed

section \<open>Every row of the table\<close>

definition row_ok :: "opcode_info \<Rightarrow> bool" where
  "row_ok oc \<longleftrightarrow> list_all eoi_ok (oc_opInfo oc) \<and>
     (oc_refine oc = None \<longrightarrow> list_all soi_ok (oc_iOpInfo oc)) \<and>
     (case oc_predicate oc of None \<Rightarrow> True | Some p \<Rightarrow> predicate_closed p)"

lemma implicit_ok [simp]:
  "list_all soi_ok ioi_none" "list_all soi_ok ioi_eflagsW" "list_all soi_ok ioi_pop64"
  "list_all soi_ok ioi_pop16" "list_all soi_ok ioi_ret" "list_all soi_ok ioi_push64" "list_all soi_ok ioi_push16"
  by (simp_all add: ioi_defs access_ok_def getSubRegisterMask_def)

lemma predicates_closed [simp]:
  "predicate_closed pred_B" "predicate_closed pred_Z" "predicate_closed pred_S" "predicate_closed pred_P"
  "predicate_closed pred_O" "predicate_closed pred_NB" "predicate_closed pred_NZ" "predicate_closed pred_NS"
  "predicate_closed pred_NP" "predicate_closed pred_NO" "predicate_closed pred_ECX0" "predicate_closed pred_RCX0"
  "predicate_closed pred_NL" "predicate_closed pred_L" "predicate_closed pred_BE" "predicate_closed pred_LE"
  "predicate_closed pred_NBE" "predicate_closed pred_NLE"
  by (simp_all add: pred_defs predicate_closed_def)

lemmas row_simps = row_ok_def def_opc_def access_valid_def

lemma rows_ok:
  "row_ok (add_info a1)" "row_ok (sse_info a2)" "row_ok (call_info a3)" "row_ok (cmp_info a4)"
  "row_ok (jcc_info a5)" "row_ok (jmp_info a6)" "row_ok (lea_info a7)" "row_ok (mov_info a8)"
  "row_ok (movx_info a9)" "row_ok (stack_info a10)" "row_ok (shift_info a11)" "row_ok (sub_info a12)"
  "row_ok (test_info a13)" "row_ok (xor_info a14)"
proof -
  show "row_ok (add_info a1)" by (cases a1) (simp_all add: row_simps)
  show "row_ok (sse_info a2)" by (cases a2) (simp_all add: row_simps)
  show "row_ok (call_info a3)" by (cases a3) (simp_all add: row_simps)
  show "row_ok (cmp_info a4)" by (cases a4) (simp_all add: row_simps)
  show "row_ok (jcc_info a5)" by (cases a5) (simp_all add: row_simps)
  show "row_ok (jmp_info a6)" by (cases a6) (simp_all add: row_simps)
  show "row_ok (lea_info a7)" by (cases a7) (simp_all add: row_simps)
  show "row_ok (mov_info a8)" by (cases a8) (simp_all add: row_simps)
  show "row_ok (movx_info a9)" by (cases a9) (simp_all add: row_simps)
  show "row_ok (stack_info a10)" by (cases a10) (simp_all add: row_simps)
  show "row_ok (shift_info a11)" by (cases a11) (simp_all add: row_simps)
  show "row_ok (sub_info a12)" by (cases a12) (simp_all add: row_simps)
  show "row_ok (test_info a13)" by (cases a13) (simp_all add: row_simps)
  show "row_ok (xor_info a14)" by (cases a14) (simp_all add: row_simps)
qed

lemma table_row_ok: "arch_get_opcode_info opc = Some oc \<Longrightarrow> row_ok oc"
  by (cases opc) (auto simp: rows_ok)

text \<open>The four shifts by CL.\<close>

definition shift_by_cl :: "opcode \<Rightarrow> bool" where
  "shift_by_cl opc \<longleftrightarrow> opc \<in> {Shift SHL64m, Shift SHL64r, Shift SHR64m, Shift SHR64r}"

definition shift_by_imm :: "opcode \<Rightarrow> bool" where
  "shift_by_imm opc \<longleftrightarrow> opc \<in> {Shift SHL64mi, Shift SHL64ri, Shift SHR64mi, Shift SHR64ri}"

definition xor_pair :: "opcode \<Rightarrow> bool" where
  "xor_pair opc \<longleftrightarrow> opc \<in> {Sse PXOR128rr, Xor XOR64rr, Xor XOR32rr}"

lemma entry_plain:
  assumes "oc_refine oc = None" and "list_all soi_ok (oc_iOpInfo oc)" and "list_all eoi_ok (oc_opInfo oc)"
    and "operands_fit oc (in_operands ins)" and "in_info ins = Some oc"
  shows "entry_ok ins oc"
proof -
  have c: "createOperandInfo ins raw nr impl = Some \<lparr>oi_info = raw, oi_nr = nr, oi_isImpl = impl\<rparr>" for raw nr impl
    using assms(1,5) by (simp add: createOperandInfo_def refine_operand_def)
  have "soi_ok raw" if "i < length (oc_opInfo oc)"
    "createRawOperandInfo (oc_opInfo oc ! i) (in_operands ins ! i) = Some raw" for i raw
  proof -
    have "eoi_ok (oc_opInfo oc ! i)" "operand_fits (oc_opInfo oc ! i) (in_operands ins ! i)"
      using assms(3,4) that(1) by (auto simp: operands_fit_def list_all_iff list_all_length)
    then show ?thesis using raw_operand_ok that(2) by fastforce
  qed
  moreover have "soi_ok (oc_iOpInfo oc ! i)" if "i < length (oc_iOpInfo oc)" for i
    using assms(2) that by (simp add: list_all_length)
  ultimately show ?thesis by (simp add: entry_ok_def c)
qed

lemma fits_reg: "operand_fits (EoiReg t m r w) op \<Longrightarrow> \<exists>reg. op = SopReg reg \<and> reg_has_type reg t"
  by (cases op) auto

lemma entry_xor:
  assumes ins: "in_info ins = Some oc" "xor_pair (in_opcode ins)" and ref: "oc_refine oc = Some Ref_xor_rr"
    and eoi: "oc_opInfo oc = [EoiReg t AmMayReadWrite Full w, EoiReg t AmMayRead Full RANone]"
    and v: "access_valid t Full" "access_valid t w"
    and ioi: "list_all soi_ok (oc_iOpInfo oc)" and fit: "operands_fit oc (in_operands ins)"
  shows "entry_ok ins oc"
proof -
  have "operand_fits (EoiReg t AmMayReadWrite Full w) (in_operands ins ! 0)"
    "operand_fits (EoiReg t AmMayRead Full RANone) (in_operands ins ! 1)"
    and len: "2 \<le> length (in_operands ins)"
    using fit eoi by (simp_all add: operands_fit_def upt_rec)
  then obtain r0 r1 where r: "in_operands ins ! 0 = SopReg r0" "reg_has_type r0 t"
    "in_operands ins ! 1 = SopReg r1" "reg_has_type r1 t"
    using fits_reg by metis
  have raw: "op_reg (in_operands ins) 0 = Some r0" "op_reg (in_operands ins) 1 = Some r1"
    using r len by (auto simp: op_reg_def raw_op_def)
  have ok: "access_ok r0 Full" "access_ok r0 w" "access_ok r1 Full"
    using r v reg_has_type_access by blast+
  have "\<exists>oi. createOperandInfo ins raw i False = Some oi \<and> soi_ok (oi_info oi)"
    if i: "i < 2" and c: "createRawOperandInfo (oc_opInfo oc ! i) (in_operands ins ! i) = Some raw" for i raw
  proof -
    from i consider "i = 0" | "i = 1" by linarith
    then show ?thesis
      using c ins ref ok raw
      by cases (auto simp: eoi r r(3)[simplified] createRawOperandInfo_def createOperandInfo_def refine_operand_def
          refine_xor_rr_def set_mode_def xor_pair_def)
  qed
  moreover have "\<exists>oi. createOperandInfo ins (oc_iOpInfo oc ! i) (i + 2) True = Some oi \<and> soi_ok (oi_info oi)"
    if "i < length (oc_iOpInfo oc)" for i
    using that ins ref ioi
    by (auto simp: createOperandInfo_def refine_operand_def refine_xor_rr_def xor_pair_def list_all_length)
  ultimately show ?thesis using eoi by (simp add: entry_ok_def numeral_2_eq_2)
qed

lemma eflagsMW_nth:
  "i < 6 \<Longrightarrow> \<exists>f. ioi_eflagsMW ! i = SoiReg \<lparr>sra_reg = FlagReg f, sra_mode = AmMayWrite, sra_r = RANone, sra_w = Full\<rparr>"
  by (auto simp: ioi_defs less_Suc_eq numeral_eq_Suc)

lemma entry_shift_imm:
  assumes ins: "in_info ins = Some oc" "shift_by_imm (in_opcode ins)" and ref: "oc_refine oc = Some Ref_sh"
    and eoi: "oc_opInfo oc = [e, EoiImm t]" "eoi_ok e" and ioi: "oc_iOpInfo oc = ioi_eflagsMW"
    and fit: "operands_fit oc (in_operands ins)"
  shows "entry_ok ins oc"
proof -
  have f: "operand_fits e (in_operands ins ! 0)" "operand_fits (EoiImm t) (in_operands ins ! 1)"
    and len: "2 \<le> length (in_operands ins)"
    using fit eoi by (simp_all add: operands_fit_def upt_rec)
  then obtain imm where imm: "in_operands ins ! 1 = SopImm imm" by (cases "in_operands ins ! 1") auto
  have v: "op_imm (in_operands ins) 1 = Some (i64_val imm)"
    using imm len by (simp add: op_imm_def raw_op_def)
  have ex: "createOperandInfo ins raw i False = Some \<lparr>oi_info = raw, oi_nr = i, oi_isImpl = False\<rparr>" for raw i
    using ins ref by (auto simp: createOperandInfo_def refine_operand_def refine_sh_def shift_by_imm_def)
  have "soi_ok raw" if i: "i < 2" and c: "createRawOperandInfo (oc_opInfo oc ! i) (in_operands ins ! i) = Some raw" for i raw
  proof -
    from i consider "i = 0" | "i = 1" by linarith
    then show ?thesis
      using c f raw_operand_ok[OF eoi(2) f(1)] imm imm[simplified] by cases (auto simp: eoi createRawOperandInfo_def)
  qed
  moreover have "\<exists>oi. createOperandInfo ins (oc_iOpInfo oc ! i) (i + 2) True = Some oi \<and> soi_ok (oi_info oi)"
    if i: "i < 6" for i
  proof -
    obtain fl where "oc_iOpInfo oc ! i =
        SoiReg \<lparr>sra_reg = FlagReg fl, sra_mode = AmMayWrite, sra_r = RANone, sra_w = Full\<rparr>"
      using eflagsMW_nth[OF i] ioi by auto
    then show ?thesis
      using ins ref v flag_access(1)[of fl]
      by (auto simp: createOperandInfo_def refine_operand_def refine_sh_def shift_by_imm_def set_mode_def)
  qed
  moreover have "length (oc_iOpInfo oc) = 6" by (simp add: ioi ioi_eflagsMW_def)
  ultimately show ?thesis using eoi by (simp add: entry_ok_def ex numeral_2_eq_2)
qed

lemma table_entry_ok:
  assumes oc: "arch_get_opcode_info opc = Some oc" and ns: "\<not> shift_by_cl opc" and fit: "operands_fit oc ops"
  shows "entry_ok (instr_of opc ops) oc"
proof -
  let ?ins = "instr_of opc ops"
  have ins: "in_info ?ins = Some oc" "in_operands ?ins = ops" "in_opcode ?ins = opc"
    using oc by (simp_all add: instr_of_def)
  have row: "row_ok oc" using table_row_ok[OF oc] .
  consider (plain) "oc_refine oc = None" | (xor) "xor_pair opc" | (sh) "shift_by_imm opc"
  proof (cases opc)
    case (Sse x) then show thesis using oc that by (cases x) (auto simp: def_opc_def xor_pair_def)
  next
    case (Shift x) then show thesis using oc ns that by (cases x) (auto simp: shift_by_imm_def shift_by_cl_def)
  next
    case (Xor x) then show thesis using oc that by (cases x) (auto simp: def_opc_def xor_pair_def)
  next
    case (Add x) then show thesis using oc that by (cases x) (auto simp: def_opc_def)
  next
    case (Call x) then show thesis using oc that by (cases x) (auto simp: def_opc_def)
  next
    case (Cmp x) then show thesis using oc that by (cases x) (auto simp: def_opc_def)
  next
    case (Jcc x) then show thesis using oc that by (cases x) (auto simp: def_opc_def)
  next
    case (Jmp x) then show thesis using oc that by (cases x) (auto simp: def_opc_def)
  next
    case (Lea x) then show thesis using oc that by (cases x) (auto simp: def_opc_def)
  next
    case (Mov x) then show thesis using oc that by (cases x) (auto simp: def_opc_def)
  next
    case (MovX x) then show thesis using oc that by (cases x) (auto simp: def_opc_def)
  next
    case (Stack x) then show thesis using oc that by (cases x) (auto simp: def_opc_def)
  next
    case (Sub x) then show thesis using oc that by (cases x) (auto simp: def_opc_def)
  next
    case (Test x) then show thesis using oc that by (cases x) (auto simp: def_opc_def)
  qed (use oc in simp)
  then show ?thesis
  proof cases
    case plain
    then show ?thesis using entry_plain row fit ins by (simp add: row_ok_def)
  next
    case xor
    then have "oc_refine oc = Some Ref_xor_rr \<and> list_all soi_ok (oc_iOpInfo oc) \<and>
      (\<exists>t w. oc_opInfo oc = [EoiReg t AmMayReadWrite Full w, EoiReg t AmMayRead Full RANone] \<and>
        access_valid t Full \<and> access_valid t w)"
      using oc by (auto simp: xor_pair_def def_opc_def access_valid_def ioi_none_def)
    then show ?thesis using entry_xor[of ?ins oc] xor fit ins by auto
  next
    case sh
    then have "oc_refine oc = Some Ref_sh \<and> oc_iOpInfo oc = ioi_eflagsMW \<and>
      (\<exists>e t. oc_opInfo oc = [e, EoiImm t] \<and> eoi_ok e)"
      using oc by (auto simp: shift_by_imm_def def_opc_def access_valid_def)
    then show ?thesis using entry_shift_imm[of ?ins oc] sh fit ins by auto
  qed
qed

lemma table_info:
  assumes oc: "arch_get_opcode_info opc = Some oc" and ns: "\<not> shift_by_cl opc" and fit: "operands_fit oc ops"
  shows "\<exists>info. getInfo (instr_of opc ops) = Some info \<and> \<not> ii_nasty info \<and>
    length (ii_operands info) = length (oc_opInfo oc) + length (oc_iOpInfo oc)"
proof -
  have ins: "in_info (instr_of opc ops) = Some oc" "in_operands (instr_of opc ops) = ops"
    using oc by (simp_all add: instr_of_def)
  have row: "row_ok oc" using table_row_ok[OF oc] .
  have "\<forall>p. oc_predicate oc = Some p \<longrightarrow> predicate_ok p \<and> predicate_closed p"
    using row table_predicates_ok[OF oc, of ops] by (auto simp: row_ok_def instr_predicate_ok_def)
  then show ?thesis
    using getInfo_total[OF ins(1) _ _ table_entry_ok[OF assms]] ins(2) fit row by (simp add: row_ok_def)
qed

text \<open>For a shift by CL the part of CL to read is \<open>None\<close>, for which there is no mask.\<close>

lemma no_mask_for_none: "add_mask r RANone m = None"
  by (cases r) (simp_all add: add_mask_def getSubRegisterMask_def)

lemma shift_by_cl_throws:
  assumes "shift_by_cl opc"
  shows "getInfo (instr_of opc ops) = None"
proof -
  obtain oc where oc: "arch_get_opcode_info opc = Some oc" "length (oc_opInfo oc) = 1" "oc_iOpInfo oc = ioi_sh"
    "oc_refine oc = Some Ref_sh"
    using assms by (auto simp: shift_by_cl_def def_opc_def)
  have cl: "info_operand (instr_of opc ops) (ioi_sh ! 0) 1 True info = None" for info
    using assms oc(1,4)
    by (auto simp: info_operand_def createOperandInfo_def refine_operand_def instr_of_def refine_sh_def
        shift_by_cl_def ioi_sh_def ioi_reg_def addOperandToRegisterMasks_def no_mask_for_none)
  have "for_each [0..<length ioi_sh] (\<lambda>i. info_operand (instr_of opc ops) (ioi_sh ! i) (i + 1) True) info = None" for info
    using cl by (simp add: ioi_sh_def upt_rec)
  then show ?thesis
    using oc by (simp add: getInfo_def instr_of_def bind_eq_None_conv split: option.splits)
qed

end
