(* ===== verification/Processor.thy ===== *)
theory Processor
  imports Operand_Sound Table_Sound
begin

text \<open>
  What the processor does when it executes one of the instructions the specialization knows:
  the bytes it reads as operands, the value and flags it computes, and where they go. This is
  the reference the rewritten instructions are compared with; it follows the processor's
  manual and not the emulator of the program.
\<close>

section \<open>The machine with its memory\<close>

record hw =
  hw_m :: machine
  hw_mem :: "u64 \<Rightarrow> byte"

definition hw_ok :: "hw \<Rightarrow> bool" where
  "hw_ok h \<longleftrightarrow> (\<forall>loc. loc_ok loc \<longrightarrow> length (m_reg (hw_m h) loc) = loc_size loc)"

text \<open>The bytes an immediate stands for; a signed 32-bit immediate is extended to 64 bits.\<close>

fun imm_operand :: "operand_type \<Rightarrow> u64 \<Rightarrow> byte list" where
  "imm_operand OtImmediate8 v = le_bytes 1 v"
| "imm_operand OtImmediate16 v = le_bytes 2 v"
| "imm_operand OtImmediate32 v = le_bytes 4 v"
| "imm_operand OtImmediate64 v = le_bytes 8 v"
| "imm_operand OtSignedImmediate8 v = le_bytes 1 v"
| "imm_operand OtSignedImmediate16 v = le_bytes 2 v"
| "imm_operand OtSignedImmediate32 v = le_bytes 8 (scast (ucast v :: u32) :: u64)"
| "imm_operand OtSignedImmediate64 v = le_bytes 8 v"
| "imm_operand _ v = []"

text \<open>The operand of an instruction; of an operand that is only an address, the address.\<close>

fun operand_bytes :: "base \<Rightarrow> hw \<Rightarrow> explicit_operand_info \<Rightarrow> static_operand \<Rightarrow> byte list" where
  "operand_bytes base h (EoiReg t mode r w) (SopReg reg) = load_place (hw_m h) (PlReg reg r)"
| "operand_bytes base h (EoiMem mode sz) (SopMem ptr) =
     (let a = address_of base (hw_m h) ptr in
      if mode = AmAddress then le_bytes 8 a else host_bytes (hw_mem h) a (mem_bytes sz))"
| "operand_bytes base h (EoiImm t) (SopImm v) = imm_operand t (i64_val v)"
| "operand_bytes base h _ _ = []"

datatype target = TgNone | TgReg register reg_access | TgMem u64 | TgPush

fun operand_target :: "base \<Rightarrow> hw \<Rightarrow> explicit_operand_info \<Rightarrow> static_operand \<Rightarrow> target" where
  "operand_target base h (EoiReg t mode r w) (SopReg reg) = (if isWrite mode then TgReg reg w else TgNone)"
| "operand_target base h (EoiMem mode sz) (SopMem ptr) =
     (if isWrite mode then TgMem (address_of base (hw_m h) ptr) else TgNone)"
| "operand_target base h _ _ = TgNone"

section \<open>Values and flags\<close>

definition alu_arith :: "('a::len word \<Rightarrow> 'a word \<Rightarrow> 'a word \<times> eflags) \<Rightarrow> nat \<Rightarrow> byte list \<Rightarrow> byte list \<Rightarrow>
    (byte list \<times> eflags option) option" where
  "alu_arith f n a b = (let (r, fl) = f (le_word a) (le_word b) in Some (le_bytes n r, Some fl))"

definition alu_flags :: "('a::len word \<Rightarrow> 'a word \<Rightarrow> eflags) \<Rightarrow> byte list \<Rightarrow> byte list \<Rightarrow>
    (byte list \<times> eflags option) option" where
  "alu_flags f a b = Some ([], Some (f (le_word a) (le_word b)))"

definition alu_plain :: "('a::len word \<Rightarrow> 'a word \<Rightarrow> 'a word) \<Rightarrow> nat \<Rightarrow> byte list \<Rightarrow> byte list \<Rightarrow>
    (byte list \<times> eflags option) option" where
  "alu_plain f n a b = Some (le_bytes n (f (le_word a) (le_word b)), None)"

text \<open>A shift by a multiple of 64 leaves the flags alone.\<close>

definition alu_shift :: "(u64 \<Rightarrow> byte \<Rightarrow> u64 \<times> eflags) \<Rightarrow> byte list \<Rightarrow> byte list \<Rightarrow>
    (byte list \<times> eflags option) option" where
  "alu_shift f a b =
     (let n = le_word b; (r, fl) = f (le_word a) n in
      Some (le_bytes 8 r, if unat n mod 64 = 0 then None else Some fl))"

definition alu_move :: "nat \<Rightarrow> byte list \<Rightarrow> (byte list \<times> eflags option) option" where
  "alu_move n b = Some (take n b, None)"

fun alu :: "cpu \<Rightarrow> opcode \<Rightarrow> byte list \<Rightarrow> byte list \<Rightarrow> (byte list \<times> eflags option) option" where
  "alu cpu (Add opc) a b =
     (if opc \<in> {ADD64mr, ADD64rr, ADD64rm, ADD64mi, ADD64ri} then alu_arith (cpu_add64 cpu) 8 a b else None)"
| "alu cpu (Sse opc) a b =
     (if opc \<in> {ADDPDrm, ADDPDrr} then alu_plain (cpu_addpd cpu) 16 a b
      else if opc \<in> {MULPDrm, MULPDrr} then alu_plain (cpu_mulpd cpu) 16 a b
      else if opc \<in> {ADDSDrm, ADDSDrr} then alu_plain (cpu_addsd cpu) 8 a b
      else if opc \<in> {MULSDrm, MULSDrr} then alu_plain (cpu_mulsd cpu) 8 a b
      else alu_plain (cpu_pxor cpu) 16 a b)"
| "alu cpu (Cmp opc) a b =
     (if opc \<in> {CMP8mr, CMP8mi, CMP8rm, CMP8rr, CMP8ri} then alu_flags (cpu_cmp8 cpu) a b
      else if opc \<in> {CMP16mr, CMP16mi, CMP16rm, CMP16rr, CMP16ri} then alu_flags (cpu_cmp16 cpu) a b
      else if opc \<in> {CMP32mr, CMP32mi, CMP32rm, CMP32rr, CMP32ri} then alu_flags (cpu_cmp32 cpu) a b
      else alu_flags (cpu_cmp64 cpu) a b)"
| "alu cpu (Test opc) a b =
     (if opc \<in> {TEST8mr, TEST8mi, TEST8rr, TEST8ri} then alu_flags (cpu_test8 cpu) a b
      else if opc \<in> {TEST16mr, TEST16mi, TEST16rr, TEST16ri} then alu_flags (cpu_test16 cpu) a b
      else if opc \<in> {TEST32mr, TEST32mi, TEST32rr, TEST32ri} then alu_flags (cpu_test32 cpu) a b
      else alu_flags (cpu_test64 cpu) a b)"
| "alu cpu (Lea opc) a b =
     (case opc of LEA64ra \<Rightarrow> alu_move 8 b | LEA32ra \<Rightarrow> alu_move 4 b | LEA16ra \<Rightarrow> alu_move 2 b)"
| "alu cpu (Mov opc) a b =
     (if opc \<in> {MOV64mr, MOV64rr, MOV64rm, MOV64mi, MOV64ri} then alu_move 8 b else alu_move 4 b)"
| "alu cpu (MovX opc) a b =
     (if opc \<in> {MOVSDrm, MOVSDrr, MOVSDmr} then alu_move 8 b else alu_move 16 b)"
| "alu cpu (Stack opc) a b =
     (if opc \<in> {PUSH16m, PUSH16r, PUSH16i} then alu_move 2 a
      else if opc \<in> {PUSH64m, PUSH64r, PUSH64i} then alu_move 8 a else None)"
| "alu cpu (Shift opc) a b =
     (if opc \<in> {SHL64m, SHL64r, SHL64mi, SHL64ri} then alu_shift (cpu_shl64 cpu) a b
      else alu_shift (cpu_shr64 cpu) a b)"
| "alu cpu (Xor opc) a b =
     (if opc \<in> {XOR64mr, XOR64rr, XOR64rm, XOR64mi, XOR64ri} then alu_arith (cpu_xor64 cpu) 8 a b
      else alu_arith (cpu_xor32 cpu) 4 a b)"
| "alu cpu _ a b = None"

lemmas alu_defs = alu_arith_def alu_flags_def alu_plain_def alu_shift_def alu_move_def

section \<open>Effects\<close>

text \<open>
  Loading a scalar double from memory clears the upper half of the register; \<open>ef_clears\<close>.
\<close>

record effect =
  ef_target :: target
  ef_value :: "byte list"
  ef_clears :: bool
  ef_flags :: "eflags option"

definition count_in_cl :: "opcode \<Rightarrow> bool" where
  "count_in_cl opc \<longleftrightarrow> opc \<in> {Shift SHL64m, Shift SHL64r, Shift SHR64m, Shift SHR64r}"

definition in_bytes :: "base \<Rightarrow> hw \<Rightarrow> opcode \<Rightarrow> static_operand list \<Rightarrow> nat \<Rightarrow> byte list" where
  "in_bytes base h opc ops i =
     (if count_in_cl opc \<and> i = 1 then load_place (hw_m h) (PlReg (Gpr8 GC) Full)
      else case arch_get_opcode_info opc of
        Some oc \<Rightarrow>
          if i < length (oc_opInfo oc) then operand_bytes base h (oc_opInfo oc ! i) (ops ! i) else []
      | None \<Rightarrow> [])"

text \<open>These fault when their memory operand is not at a multiple of 16.\<close>

definition needs_alignment :: "opcode \<Rightarrow> bool" where
  "needs_alignment opc \<longleftrightarrow> opc \<in> {Sse ADDPDrm, Sse MULPDrm, Sse PXOR128rm, MovX MOVAPDrm}"

definition faults :: "base \<Rightarrow> hw \<Rightarrow> opcode \<Rightarrow> static_operand list \<Rightarrow> bool" where
  "faults base h opc ops \<longleftrightarrow>
     needs_alignment opc \<and>
     (case ops ! 1 of SopMem ptr \<Rightarrow> unat (address_of base (hw_m h) ptr) mod 16 \<noteq> 0 | _ \<Rightarrow> True)"

definition target_of :: "base \<Rightarrow> hw \<Rightarrow> opcode \<Rightarrow> static_operand list \<Rightarrow> target" where
  "target_of base h opc ops =
     (case opc of
        Stack _ \<Rightarrow> TgPush
      | _ \<Rightarrow> (case arch_get_opcode_info opc of
                Some oc \<Rightarrow>
                  if oc_opInfo oc \<noteq> [] then operand_target base h (oc_opInfo oc ! 0) (ops ! 0) else TgNone
              | None \<Rightarrow> TgNone))"

definition effect_of :: "cpu \<Rightarrow> base \<Rightarrow> hw \<Rightarrow> opcode \<Rightarrow> static_operand list \<Rightarrow> effect option" where
  "effect_of cpu base h opc ops =
     (if faults base h opc ops then None
      else do { (v, fl) \<leftarrow> alu cpu opc (in_bytes base h opc ops 0) (in_bytes base h opc ops 1);
                Some \<lparr>ef_target = target_of base h opc ops, ef_value = v,
                  ef_clears = (opc = MovX MOVSDrm), ef_flags = fl\<rparr> })"

text \<open>Two effects that differ at most in flags nobody reads.\<close>

definition same_effect :: "bool \<Rightarrow> effect \<Rightarrow> effect \<Rightarrow> bool" where
  "same_effect flags e e' \<longleftrightarrow>
     ef_target e' = ef_target e \<and> ef_value e' = ef_value e \<and> ef_clears e' = ef_clears e \<and>
     (flags \<longrightarrow> ef_flags e' = ef_flags e)"

text \<open>An effect that changes nothing but flags nobody reads.\<close>

fun target_keeps :: "hw \<Rightarrow> target \<Rightarrow> byte list \<Rightarrow> bool" where
  "target_keeps h TgNone v = True"
| "target_keeps h (TgReg r acc) v = (store_place (hw_m h) (PlReg r acc) v = hw_m h)"
| "target_keeps h (TgMem a) v = (host_bytes (hw_mem h) a (length v) = v)"
| "target_keeps h TgPush v = False"

definition no_effect :: "bool \<Rightarrow> hw \<Rightarrow> effect \<Rightarrow> bool" where
  "no_effect flags h e \<longleftrightarrow>
     target_keeps h (ef_target e) (ef_value e) \<and> \<not> ef_clears e \<and> (flags \<longrightarrow> ef_flags e = None)"

end
