(* ===== verification/Convert_Loop.thy ===== *)
theory Convert_Loop
  imports Converter Processor
begin

text \<open>
  The instructions LOOP, LOOPE and LOOPNE are converted to (\<open>convert_loop\<close> of
  \<open>src/x86/Converter.cpp\<close>), run on a machine, against what these instructions do.
\<close>

section \<open>Running the instructions\<close>

definition goes_to :: "instr \<Rightarrow> u64" where
  "goes_to i = (case in_operands (is_ins i) of SopMem (MpDirect a) # _ \<Rightarrow> i64_val a | _ \<Rightarrow> 0)"

text \<open>Of the effects only writing a register is needed here.\<close>

definition put_effect :: "effect \<Rightarrow> hw \<Rightarrow> hw option" where
  "put_effect e h =
     (case ef_target e of
        TgReg r acc \<Rightarrow> Some (h\<lparr>hw_m := store_place (hw_m h) (PlReg r acc) (ef_value e)\<rparr>)
      | _ \<Rightarrow> None)"

text \<open>The machine behind the instructions, and where control goes when it does not fall through.\<close>

fun run_converted :: "cpu \<Rightarrow> base \<Rightarrow> instr list \<Rightarrow> hw \<Rightarrow> (hw \<times> u64 option) option" where
  "run_converted cpu base [] h = Some (h, None)"
| "run_converted cpu base (i # is) h =
     (if isBranch i then
        if executes (hw_m h) (is_ins i) then Some (h, Some (goes_to i)) else run_converted cpu base is h
      else
        do { e \<leftarrow> effect_of cpu base h (in_opcode (is_ins i)) (in_operands (is_ins i));
             h \<leftarrow> put_effect e h;
             run_converted cpu base is h })"

text \<open>
  The manual: the count is RCX, or ECX where the address size is 32 bits; it is decreased, and
  the branch is taken unless it is zero or, for LOOPE and LOOPNE, ZF is against it.
\<close>

definition loop_count :: "bool \<Rightarrow> machine \<Rightarrow> u64" where
  "loop_count wide m =
     (if wide then reg_word m RCX - 1 else ucast (ucast (reg_word m RCX) - 1 :: u32))"

definition loop_taken :: "bool \<Rightarrow> xed_iclass \<Rightarrow> machine \<Rightarrow> bool" where
  "loop_taken wide c m \<longleftrightarrow>
     loop_count wide m \<noteq> 0 \<and> (c = XED_ICLASS_LOOPE \<longrightarrow> reg_word m ZF = 1) \<and> (c = XED_ICLASS_LOOPNE \<longrightarrow> reg_word m ZF = 0)"

definition loop_instruction :: "bool \<Rightarrow> xed_inst \<Rightarrow> hw \<Rightarrow> hw \<times> u64 option" where
  "loop_instruction wide x h =
     (h\<lparr>hw_m := store_place (hw_m h) (PlReg RCX Full) (le_bytes 8 (loop_count wide (hw_m h)))\<rparr>,
      Some (if loop_taken wide (xd_iclass x) (hw_m h) then next_addr x + scast (xd_branch_disp x) else next_addr x))"

text \<open>A machine whose RCX has its eight bytes and whose ZF is a bit.\<close>

definition loop_ready :: "machine \<Rightarrow> bool" where
  "loop_ready m \<longleftrightarrow> length (m_reg m (LGprs64 2)) = 8 \<and> reg_word m ZF \<in> {0, 1}"

section \<open>The address calculation\<close>

lemma rcx_places:
  "reg_range RCX Full = (LGprs64 2, 0, 8)" "reg_range ECX Full = (LGprs64 2, 0, 4)"
  "reg_range ECX FullZeroParent = (LGprs64 2, 0, 8)" "reg_range ZF Full = (LFlag1 3, 0, 1)"
  by code_simp+

lemma low_word: "length bs = 8 \<Longrightarrow> (le_word (take 4 bs) :: u64) = ucast (ucast (le_word bs :: u64) :: u32)"
  by (rule bit_word_eqI) (auto simp: bit_le_word bit_simps)

lemma low_extended: "(ucast (ucast (ucast (w :: u32) :: u64) :: u32) :: u64) = ucast w"
  by (rule bit_word_eqI) (auto simp: bit_simps dest: bit_imp_le_length)

lemma low_difference: "(ucast (ucast (ucast x :: u32) - 1 :: u64) :: u32) = ucast (x :: u64) - 1"
proof (transfer, simp add: take_bit_eq_mod mod_mod_cancel mod_simps)
  fix x :: int
  show "(x - 1) mod 4294967296 = (x mod 18446744073709551616 - 1) mod 4294967296"
    using mod_diff_left_eq[of "x mod 18446744073709551616" 4294967296 1] mod_diff_left_eq[of x 4294967296 1]
    by (simp add: mod_mod_cancel)
qed

lemma cleared_parent: "take 4 (le_bytes 8 (w :: u64)) @ replicate 4 0 = le_bytes 8 (ucast (ucast w :: u32) :: u64)"
proof (rule nth_equalityI)
  fix i assume "i < length (take 4 (le_bytes 8 w) @ replicate 4 0)"
  then have i: "i < 8" by simp
  show "(take 4 (le_bytes 8 w) @ replicate 4 0) ! i = le_bytes 8 (ucast (ucast w :: u32) :: u64) ! i"
    by (rule bit_word_eqI) (use i in \<open>auto simp: nth_append bit_le_bytes_nth bit_simps\<close>)
qed simp

lemma rcx_stored:
  assumes "length (m_reg m (LGprs64 2)) = 8" and "length bs = 8"
  shows "store_place m (PlReg RCX Full) bs = m\<lparr>m_reg := (m_reg m)(LGprs64 2 := bs)\<rparr>"
  using assms by (simp add: rcx_places own_access_def splice_reg_def splice_def)

lemma ecx_stored:
  assumes "length (m_reg m (LGprs64 2)) = 8" and "length bs = 4"
  shows "store_place m (PlReg ECX FullZeroParent) bs = m\<lparr>m_reg := (m_reg m)(LGprs64 2 := bs @ replicate 4 0)\<rparr>"
  using assms by (simp add: rcx_places own_access_def splice_reg_def splice_def)

abbreviation minus_one :: signed_immediate32 where
  "minus_one \<equiv> \<lparr>s32_val = - 1, s32_usrPtrNr = - 1, s32_usrPtrOffset = 0\<rparr>"

lemma lea_effect:
  "effect_of cpu base h (Lea LEA64ra) (SopReg RCX # SopMem (MpSIB RCX NoReg minus_one 0) # ops) =
     Some \<lparr>ef_target = TgReg RCX Full, ef_value = le_bytes 8 (reg_word (hw_m h) RCX - 1), ef_clears = False, ef_flags = None\<rparr>"
  "effect_of cpu base h (Lea LEA32ra) (SopReg ECX # SopMem (MpSIB ECX NoReg minus_one 0) # ops) =
     Some \<lparr>ef_target = TgReg ECX FullZeroParent, ef_value = take 4 (le_bytes 8 (reg_word (hw_m h) ECX - 1)),
       ef_clears = False, ef_flags = None\<rparr>"
  by (simp_all add: effect_of_def faults_def needs_alignment_def in_bytes_def count_in_cl_def target_of_def def_opc_def
      alu_move_def addr_word_def disp_word_def)

lemma counted:
  assumes "length (m_reg (hw_m h) (LGprs64 2)) = 8"
  defines "h' \<equiv> \<lambda>wide. h\<lparr>hw_m := store_place (hw_m h) (PlReg RCX Full) (le_bytes 8 (loop_count wide (hw_m h)))\<rparr>"
  shows "run_converted cpu base
      (decoded_instruction a n (Lea LEA64ra) (SopReg RCX # SopMem (MpSIB RCX NoReg minus_one 0) # ops)
         (arch_get_opcode_info (Lea LEA64ra)) True # is) h = run_converted cpu base is (h' True)"
    and "run_converted cpu base
      (decoded_instruction a n (Lea LEA32ra) (SopReg ECX # SopMem (MpSIB ECX NoReg minus_one 0) # ops)
         (arch_get_opcode_info (Lea LEA32ra)) True # is) h = run_converted cpu base is (h' False)"
proof -
  have ecx: "reg_word (hw_m h) ECX = ucast (ucast (reg_word (hw_m h) RCX) :: u32)"
    using assms(1) low_word[of "m_reg (hw_m h) (LGprs64 2)"] by (simp add: reg_word_def rcx_places segment_def)
  have w: "(ucast (reg_word (hw_m h) ECX - 1) :: u32) = ucast (reg_word (hw_m h) RCX) - 1"
    by (simp only: ecx low_difference)
  have "take 4 (le_bytes 8 (reg_word (hw_m h) ECX - 1)) @ replicate 4 0 = le_bytes 8 (loop_count False (hw_m h))"
    by (simp only: cleared_parent w loop_count_def if_False)
  then show "run_converted cpu base
      (decoded_instruction a n (Lea LEA32ra) (SopReg ECX # SopMem (MpSIB ECX NoReg minus_one 0) # ops)
         (arch_get_opcode_info (Lea LEA32ra)) True # is) h = run_converted cpu base is (h' False)"
    using assms(1)
    by (simp add: isBranch_def has_type_def decoded_instruction_def def_opc_def lea_effect put_effect_def ecx_stored rcx_stored h'_def
        del: store_place.simps)
  show "run_converted cpu base
      (decoded_instruction a n (Lea LEA64ra) (SopReg RCX # SopMem (MpSIB RCX NoReg minus_one 0) # ops)
         (arch_get_opcode_info (Lea LEA64ra)) True # is) h = run_converted cpu base is (h' True)"
    by (simp add: isBranch_def has_type_def decoded_instruction_def def_opc_def lea_effect put_effect_def h'_def loop_count_def
        del: store_place.simps)
qed


section \<open>The whole expansion\<close>

lemma after_count:
  fixes wide :: bool and m :: machine
  assumes "length (m_reg m (LGprs64 2)) = 8"
  defines "m' \<equiv> store_place m (PlReg RCX Full) (le_bytes 8 (loop_count wide m))"
  shows "reg_word m' RCX = loop_count wide m" and "reg_word m' ZF = reg_word m ZF"
    and "\<not> wide \<Longrightarrow> reg_word m' ECX = loop_count wide m"
proof -
  have m': "m' = m\<lparr>m_reg := (m_reg m)(LGprs64 2 := le_bytes 8 (loop_count wide m))\<rparr>"
    unfolding m'_def by (rule rcx_stored[OF assms(1)]) simp
  show rcx: "reg_word m' RCX = loop_count wide m" and "reg_word m' ZF = reg_word m ZF"
    by (simp_all add: m' reg_word_def rcx_places segment_def le_word_le_bytes)
  assume n: "\<not> wide"
  have "reg_word m' ECX = ucast (ucast (reg_word m' RCX) :: u32)"
    using low_word[of "m_reg m' (LGprs64 2)"] by (simp add: m' reg_word_def rcx_places segment_def)
  also have "\<dots> = loop_count wide m"
    unfolding rcx using n by (simp only: loop_count_def if_False low_extended)
  finally show "reg_word m' ECX = loop_count wide m" .
qed

lemma run_branch:
  "run_converted cpu base (decoded_instruction a n (Jcc j) ops (arch_get_opcode_info (Jcc j)) r # is) h =
     (if executes (hw_m h) (is_ins (decoded_instruction a n (Jcc j) ops (arch_get_opcode_info (Jcc j)) r))
      then Some (h, Some (goes_to (decoded_instruction a n (Jcc j) ops (arch_get_opcode_info (Jcc j)) r)))
      else run_converted cpu base is h)"
  by (cases j) (simp_all add: isBranch_def has_type_def decoded_instruction_def def_opc_def)

lemma run_jump:
  "run_converted cpu base (decoded_instruction a n (Jmp JMPa) ops (arch_get_opcode_info (Jmp JMPa)) r # is) h =
     Some (h, Some (goes_to (decoded_instruction a n (Jmp JMPa) ops (arch_get_opcode_info (Jmp JMPa)) r)))"
  by (simp add: isBranch_def has_type_def decoded_instruction_def def_opc_def executes_def)

lemma branch_conditions:
  "executes m (is_ins (decoded_instruction a n (Jcc JCXZ64a) ops (arch_get_opcode_info (Jcc JCXZ64a)) r)) \<longleftrightarrow> reg_word m RCX = 0"
  "executes m (is_ins (decoded_instruction a n (Jcc JCXZ32a) ops (arch_get_opcode_info (Jcc JCXZ32a)) r)) \<longleftrightarrow> reg_word m ECX = 0"
  "executes m (is_ins (decoded_instruction a n (Jcc JNZa) ops (arch_get_opcode_info (Jcc JNZa)) r)) \<longleftrightarrow> reg_word m ZF = 0"
  "executes m (is_ins (decoded_instruction a n (Jcc JZa) ops (arch_get_opcode_info (Jcc JZa)) r)) \<longleftrightarrow> reg_word m ZF = 1"
  by (simp_all add: executes_def decoded_instruction_def def_opc_def pred_defs predicate_holds_Cons conjoin_def comparison_holds_def comparand_word_def)

lemma branch_targets_of:
  "goes_to (decoded_instruction a n opc (direct_operand t # ops) info r) = t"
  by (simp add: goes_to_def decoded_instruction_def direct_operand_def)

text \<open>The expansion is the instruction with a count of 64 bits where there is a prefix, of 32 where there is none.\<close>

lemma run_loop:
  assumes "loop_ready (hw_m h)" and "xd_length x < 256"
    and "xd_iclass x \<in> {XED_ICLASS_LOOP, XED_ICLASS_LOOPE, XED_ICLASS_LOOPNE}"
  shows "run_converted cpu base (snd (convert_loop x [])) h = Some (loop_instruction (xd_prefix67 x) x h)"
proof -
  have len: "length (m_reg (hw_m h) (LGprs64 2)) = 8" and zf: "reg_word (hw_m h) ZF = 0 \<or> reg_word (hw_m h) ZF = 1"
    using assms(1) by (auto simp: loop_ready_def)
  have nxt: "xd_dec x + ucast (ucast (xd_length x) :: byte) = next_addr x"
  proof -
    have "(ucast (ucast (xd_length x) :: byte) :: u64) = ucast (xd_length x)"
      using assms(2) unsigned_less[of "xd_length x", where 'a = nat]
      by (intro word_unat_eq_iff[THEN iffD2]) (simp add: unsigned_ucast_eq unsigned_take_bit_eq take_bit_nat_eq_self word_less_nat_alt)
    then show ?thesis by (simp add: next_addr_def)
  qed
  note simps = convert_loop_def Let_def zero_operands_def counted[OF len] run_branch run_jump branch_conditions
    branch_targets_of translate_rel_def after_count[OF len] nxt loop_instruction_def loop_taken_def
  show ?thesis
    using assms(3) zf by (cases "xd_prefix67 x") (auto simp: simps simp del: store_place.simps run_converted.simps(2) arch_get_opcode_info.simps)
qed

section \<open>Against the manual\<close>

lemma low_minus_one: "(ucast (w :: u64) - 1 :: u32) = ucast (w - 1)"
proof (transfer, simp add: take_bit_eq_mod mod_mod_cancel mod_simps)
  fix w :: int
  show "(w mod 18446744073709551616 - 1) mod 4294967296 = (w - 1) mod 4294967296"
    using mod_diff_left_eq[of "w mod 18446744073709551616" 4294967296 1] mod_diff_left_eq[of w 4294967296 1]
    by (simp add: mod_mod_cancel)
qed

lemma low_only: "(ucast (ucast (v :: u64) :: u32) :: u64) = v \<longleftrightarrow> unat v < 2 ^ 32"
proof -
  have "(ucast (ucast v :: u32) :: u64) = take_bit 32 v" by (rule bit_word_eqI) (auto simp: bit_simps)
  moreover have "take_bit 32 v = v \<longleftrightarrow> unat v < 2 ^ 32"
    by (simp add: word_unat_eq_iff unsigned_take_bit_eq take_bit_nat_eq_self_iff)
  ultimately show ?thesis by simp
qed

lemma same_counts: "loop_count True m = loop_count False m \<longleftrightarrow> 1 \<le> reg_word m RCX \<and> reg_word m RCX \<le> 0x100000000"
proof -
  let ?w = "reg_word m RCX"
  have "loop_count True m = loop_count False m \<longleftrightarrow> unat (?w - 1) < 2 ^ 32"
    using low_only[of "?w - 1"] by (auto simp: loop_count_def low_minus_one)
  also have "\<dots> \<longleftrightarrow> 1 \<le> ?w \<and> ?w \<le> 0x100000000"
  proof (cases "?w = 0")
    case False
    then have "unat (?w - 1) = unat ?w - 1" "0 < unat ?w" by (simp_all add: unat_minus_one unat_gt_0)
    then show ?thesis by (auto simp: word_le_nat_alt)
  qed (simp add: word_le_nat_alt unsigned_minus_1_eq_mask mask_eq_exp_minus_1)
  finally show ?thesis .
qed

text \<open>The two counts are the same in this range only, and so are the two instructions.\<close>

lemma same_loops:
  assumes "length (m_reg (hw_m h) (LGprs64 2)) = 8"
  shows "loop_instruction True x h = loop_instruction False x h \<longleftrightarrow>
    1 \<le> reg_word (hw_m h) RCX \<and> reg_word (hw_m h) RCX \<le> 0x100000000"
proof -
  have "loop_count True (hw_m h) = loop_count False (hw_m h)" if e: "loop_instruction True x h = loop_instruction False x h"
    using arg_cong[OF e, of "\<lambda>r. reg_word (hw_m (fst r)) RCX"] after_count(1)[OF assms]
    by (simp add: loop_instruction_def del: store_place.simps)
  moreover have "loop_instruction True x h = loop_instruction False x h" if "loop_count True (hw_m h) = loop_count False (hw_m h)"
    using that by (simp add: loop_instruction_def loop_taken_def del: store_place.simps)
  ultimately show ?thesis using same_counts[of "hw_m h"] by blast
qed

text \<open>
  The instruction as it is: without the address size prefix the count is RCX, with it ECX. The
  expansion takes the other width.
\<close>

lemma run_loop_right:
  assumes "loop_ready (hw_m h)" and "xd_length x < 256"
    and "xd_iclass x \<in> {XED_ICLASS_LOOP, XED_ICLASS_LOOPE, XED_ICLASS_LOOPNE}"
  shows "run_converted cpu base (snd (convert_loop x [])) h = Some (loop_instruction (\<not> xd_prefix67 x) x h) \<longleftrightarrow>
    1 \<le> reg_word (hw_m h) RCX \<and> reg_word (hw_m h) RCX \<le> 0x100000000"
proof -
  have "length (m_reg (hw_m h) (LGprs64 2)) = 8" using assms(1) by (simp add: loop_ready_def)
  from same_loops[OF this, of x] show ?thesis
    unfolding run_loop[OF assms] by (cases "xd_prefix67 x") auto
qed

end
