(* ===== verification/Emulator_Sound.thy ===== *)
theory Emulator_Sound
  imports Instr_Sound
begin

text \<open>
  The emulation handlers against the processor. A handler is sound when, for inputs that
  describe two words, its output describes the word the instruction computes. \<open>cpu_ok\<close> says
  what the integer instructions compute; \<open>ref_cpu\<close> is a processor that satisfies it.
\<close>

section \<open>What the processor computes\<close>

definition cpu_ok :: "cpu \<Rightarrow> bool" where
  "cpu_ok cpu \<longleftrightarrow>
     (\<forall>a b. fst (cpu_add8 cpu a b) = a + b) \<and> (\<forall>a b. fst (cpu_add16 cpu a b) = a + b) \<and>
     (\<forall>a b. fst (cpu_add32 cpu a b) = a + b) \<and> (\<forall>a b. fst (cpu_add64 cpu a b) = a + b) \<and>
     (\<forall>a b. fst (cpu_sub8 cpu a b) = a - b) \<and> (\<forall>a b. fst (cpu_sub16 cpu a b) = a - b) \<and>
     (\<forall>a b. fst (cpu_sub32 cpu a b) = a - b) \<and> (\<forall>a b. fst (cpu_sub64 cpu a b) = a - b) \<and>
     (\<forall>a b. fst (cpu_xor32 cpu a b) = a XOR b) \<and> (\<forall>a b. fst (cpu_xor64 cpu a b) = a XOR b) \<and>
     (\<forall>a s. fst (cpu_shl64 cpu a s) = push_bit (unat s mod 64) a) \<and>
     (\<forall>a s. fst (cpu_shr64 cpu a s) = drop_bit (unat s mod 64) a)"

text \<open>A processor for concrete runs: the arithmetic flags as the manual defines them.\<close>

definition parity8 :: "'a::len word \<Rightarrow> bool" where
  "parity8 r \<longleftrightarrow> even (length (filter (bit r) [0..<8]))"

definition msb_of :: "'a::len word \<Rightarrow> bool" where
  "msb_of r = bit r (LENGTH('a) - 1)"

definition add_flags :: "'a::len word \<Rightarrow> 'a word \<Rightarrow> 'a word \<times> eflags" where
  "add_flags a b =
     (let r = a + b in
      (r, \<lparr>fl_cf = r < a, fl_pf = parity8 r, fl_af = bit (a XOR b XOR r) 4, fl_zf = r = 0,
           fl_sf = msb_of r, fl_of = msb_of ((a XOR r) AND (b XOR r))\<rparr>))"

definition sub_flags :: "'a::len word \<Rightarrow> 'a word \<Rightarrow> 'a word \<times> eflags" where
  "sub_flags a b =
     (let r = a - b in
      (r, \<lparr>fl_cf = a < b, fl_pf = parity8 r, fl_af = bit (a XOR b XOR r) 4, fl_zf = r = 0,
           fl_sf = msb_of r, fl_of = msb_of ((a XOR b) AND (a XOR r))\<rparr>))"

definition logic_flags :: "'a::len word \<Rightarrow> 'a word \<times> eflags" where
  "logic_flags r =
     (r, \<lparr>fl_cf = False, fl_pf = parity8 r, fl_af = False, fl_zf = r = 0, fl_sf = msb_of r, fl_of = False\<rparr>)"

definition ref_cpu :: cpu where
  "ref_cpu =
     \<lparr>cpu_add8 = add_flags, cpu_add16 = add_flags, cpu_add32 = add_flags, cpu_add64 = add_flags,
      cpu_sub8 = sub_flags, cpu_sub16 = sub_flags, cpu_sub32 = sub_flags, cpu_sub64 = sub_flags,
      cpu_xor32 = (\<lambda>a b. logic_flags (a XOR b)), cpu_xor64 = (\<lambda>a b. logic_flags (a XOR b)),
      cpu_cmp8 = (\<lambda>a b. snd (sub_flags a b)), cpu_cmp16 = (\<lambda>a b. snd (sub_flags a b)),
      cpu_cmp32 = (\<lambda>a b. snd (sub_flags a b)), cpu_cmp64 = (\<lambda>a b. snd (sub_flags a b)),
      cpu_test8 = (\<lambda>a b. snd (logic_flags (a AND b))), cpu_test16 = (\<lambda>a b. snd (logic_flags (a AND b))),
      cpu_test32 = (\<lambda>a b. snd (logic_flags (a AND b))), cpu_test64 = (\<lambda>a b. snd (logic_flags (a AND b))),
      cpu_shl64 = (\<lambda>a s. logic_flags (push_bit (unat s mod 64) a)),
      cpu_shr64 = (\<lambda>a s. logic_flags (drop_bit (unat s mod 64) a)),
      cpu_addpd = (+), cpu_mulpd = (*), cpu_pxor = (XOR), cpu_addsd = (+), cpu_mulsd = (*)\<rparr>"

lemma ref_cpu_ok: "cpu_ok ref_cpu"
  by (simp add: cpu_ok_def ref_cpu_def add_flags_def sub_flags_def logic_flags_def Let_def)

section \<open>Outputs\<close>

definition out_of :: "dyn_info \<Rightarrow> nat \<Rightarrow> dyn_value" where
  "out_of di i = do_output (di_operands di ! i)"

definition in_of :: "dyn_info \<Rightarrow> nat \<Rightarrow> dyn_value" where
  "in_of di i = do_input (di_operands di ! i)"

lemma set_output_out:
  "set_output i v di = Some di' \<Longrightarrow> i < length (di_operands di) \<and> out_of di' i = v \<and>
   length (di_operands di') = length (di_operands di) \<and> (\<forall>j. j \<noteq> i \<longrightarrow> out_of di' j = out_of di j)"
  by (auto simp: set_output_def out_of_def split: if_splits)

lemma setEflags_out:
  assumes "setEflags i fl di = Some di'"
  shows "length (di_operands di') = length (di_operands di) \<and> (\<forall>j. j < i \<longrightarrow> out_of di' j = out_of di j)"
  using assms by (auto simp: setEflags_def bind_eq_Some_conv dest!: set_output_out)

lemma setX_out:
  "setAF i v di = Some di' \<Longrightarrow> (\<forall>j. j \<noteq> i \<longrightarrow> out_of di' j = out_of di j)"
  "setCF i v di = Some di' \<Longrightarrow> (\<forall>j. j \<noteq> i \<longrightarrow> out_of di' j = out_of di j)"
  "setOF i v di = Some di' \<Longrightarrow> (\<forall>j. j \<noteq> i \<longrightarrow> out_of di' j = out_of di j)"
  by (auto simp: setAF_def setCF_def setOF_def bind_eq_Some_conv dest!: set_output_out)

lemma dyn_op_in: "dyn_op di i = Some op \<Longrightarrow> do_input op = in_of di i"
  by (auto simp: dyn_op_def in_of_def split: if_splits)

section \<open>Soundness\<close>

lemma opt_flags_out:
  assumes "(case fl of Some f \<Rightarrow> setEflags 2 f di | None \<Rightarrow> Some di) = Some di'"
  shows "out_of di' 0 = out_of di 0"
  using assms setEflags_out by (cases fl) auto

lemma arith64_out:
  assumes "emulate_arith64 f di = Some (ret, di')"
  shows "out_of di' 0 = fst (arith64_result f (in_of di 0) (in_of di 1))"
proof -
  obtain o0 o1 di1 where o: "dyn_op di 0 = Some o0" "dyn_op di 1 = Some o1"
    "set_output 0 (fst (arith64_result f (do_input o0) (do_input o1))) di = Some di1"
    "(case snd (arith64_result f (do_input o0) (do_input o1)) of Some f \<Rightarrow> setEflags 2 f di1 | None \<Rightarrow> Some di1) = Some di'"
    using assms by (auto simp: emulate_arith64_def bind_eq_Some_conv Let_def split_def)
  then show ?thesis
    using opt_flags_out[OF o(4)] set_output_out[OF o(3)] dyn_op_in[OF o(1)] dyn_op_in[OF o(2)] by simp
qed

lemma add64_sound:
  assumes cpu: "cpu_ok cpu" and e: "emulate_add64 cpu di = Some (ret, di')"
    and x: "word_conc base (in_of di 0) x" and y: "word_conc base (in_of di 1) y"
  shows "word_conc base (out_of di' 0) (x + y)"
proof -
  have add: "fst (cpu_add64 cpu a b) = a + b" for a b using cpu by (simp add: cpu_ok_def)
  have o: "out_of di' 0 = fst (arith64_result (cpu_add64 cpu) (in_of di 0) (in_of di 1))"
    using arith64_out e by (simp add: emulate_add64_def)
  show ?thesis
    using x y unfolding o
    by (cases "in_of di 0"; cases "in_of di 1")
      (simp_all add: arith64_result_def with_offset_def dyn_simps word_conc_def split_def add)
qed

lemma sub64_sound:
  assumes cpu: "cpu_ok cpu" and e: "emulate_sub64 cpu di = Some (ret, di')"
    and x: "word_conc base (in_of di 0) x" and y: "word_conc base (in_of di 1) y"
    and np: "\<not> (isImm (in_of di 0) \<and> isPtr (in_of di 1))"
  shows "word_conc base (out_of di' 0) (x - y)"
proof -
  have sub: "fst (cpu_sub64 cpu a b) = a - b" for a b using cpu by (simp add: cpu_ok_def)
  have o: "out_of di' 0 = fst (arith64_result (cpu_sub64 cpu) (in_of di 0) (in_of di 1))"
    using arith64_out e by (simp add: emulate_sub64_def)
  show ?thesis
    using x y np unfolding o
    by (cases "in_of di 0"; cases "in_of di 1")
      (simp_all add: arith64_result_def with_offset_def dyn_simps word_conc_def split_def sub)
qed

text \<open>A stack pointer among the inputs taints what the 64-bit handlers put out.\<close>

lemma arith64_taint:
  assumes "isStackPtr a \<or> isStackPtr b"
  shows "may_be_stack (fst (arith64_result f a b))"
  using assms
  by (cases a; cases b)
    (auto simp: arith64_result_def with_offset_def dyn_simps may_be_stack_def split_def)

lemma adjust_sp_sound: "word_conc base v x \<Longrightarrow> word_conc base (adjust_sp v d) (x + d)"
  by (cases v) (auto simp: adjust_sp_def word_conc_def dyn_simps)

lemma adjust_sp_taint: "may_be_stack v \<Longrightarrow> may_be_stack (adjust_sp v d)"
  by (cases v) (auto simp: adjust_sp_def may_be_stack_def dyn_simps)

lemma shift_out:
  assumes "emulate_shift f di = Some (ret, di')"
  shows "out_of di' 0 = fst (shift_result f (in_of di 0) (in_of di 1))"
proof -
  obtain o0 o1 di1 di2 di3 di4 where o: "dyn_op di 0 = Some o0" "dyn_op di 1 = Some o1"
    "set_output 0 (fst (shift_result f (do_input o0) (do_input o1))) di = Some di1"
    "(case snd (shift_result f (do_input o0) (do_input o1)) of Some f \<Rightarrow> setEflags 2 f di1 | None \<Rightarrow> Some di1) = Some di2"
    "(if \<not> isImm (do_input o1) \<or> getImm64 (do_input o1) \<noteq> 1 then setOF 7 Unknown di2 else Some di2) = Some di3"
    "(if \<not> isImm (do_input o1) \<or> getImm64 (do_input o1) \<ge> 64 then setCF 2 Unknown di3 else Some di3) = Some di4"
    "setAF 4 Unknown di4 = Some di'"
    using assms unfolding emulate_shift_def bind_eq_Some_conv Let_def split_def by blast
  have "out_of di' 0 = out_of di1 0"
    using opt_flags_out[OF o(4)] o(5,6) setX_out(1)[OF o(7)] setX_out(3)[of 7 _ di2 di3] setX_out(2)[of 2 _ di3 di4]
    by (auto split: if_splits)
  then show ?thesis
    using set_output_out[OF o(3)] dyn_op_in[OF o(1)] dyn_op_in[OF o(2)] by simp
qed

lemma shift_sound:
  assumes e: "emulate_shift f di = Some (ret, di')"
    and x: "word_conc base (in_of di 0) x" and y: "word_conc base (in_of di 1) s"
    and known: "isImm (in_of di 1) \<or> \<not> isImm (in_of di 0)"
  shows "word_conc base (out_of di' 0) (fst (f x (ucast s)))"
  using x y known unfolding shift_out[OF e]
  by (cases "in_of di 0"; cases "in_of di 1")
    (simp_all add: shift_result_def dyn_simps word_conc_def split_def Let_def)

lemma arith_out:
  assumes "emulate_arith f di = Some (ret, di')"
  shows "out_of di' 0 = Imm64 (ucast (fst (f (ucast (getImm64 (in_of di 0))) (ucast (getImm64 (in_of di 1))))))"
  using assms
  by (auto simp: emulate_arith_def bind_eq_Some_conv split_def Let_def
      dest!: dyn_op_in set_output_out setEflags_out)

end
