(* ===== verification/State_Props.thy ===== *)
theory State_Props
  imports State_Merge
begin

text \<open>
  Functional facts on registers and stack that span the operations: what is written is read
  back, writing a 32-bit register clears the upper half of its parent, a value that may be
  part of a stack pointer stays marked, and a dead stack tells nothing.
\<close>

section \<open>Reading back\<close>

lemma register_read_back:
  assumes wf: "wf_ps ps" and ok: "write_place_ok ps (PlReg r a) v"
  shows "\<exists>ps'. setRegister ps r a v False = Some ps' \<and> wf_ps ps' \<and>
    getRegister ps' r (own_access a) = Some (read_back v (place_width (PlReg r a)))"
proof -
  obtain ps' where s: "setRegister ps r a v False = Some ps'" "wf_ps ps'"
    "case reg_range r (own_access a) of (loc, off, n) \<Rightarrow> holds_value v off n (reg_elems ps' loc)"
    using write_reg_place[OF assms] by (elim exE conjE) (rule that)
  have acc: "access_ok r a" using ok by simp
  obtain loc off n where rr: "reg_range r (own_access a) = (loc, off, n)"
    "getRegisterData r (own_access a) = Some (loc, off, n)" "loc_ok loc" "off + n \<le> loc_size loc"
    using reg_range_own[OF acc] by (elim exE conjE) (rule that)
  have "get_elements (reg_elems ps' loc) off n = Some (read_back v n)"
    using get_holds_value[of v n off "reg_elems ps' loc"] wf_psD(1)[OF s(2) rr(3)] rr s(3) ok by simp
  then show ?thesis using s rr by (simp add: getRegister_def)
qed

lemma stack_read_back:
  assumes wf: "wf_ps ps" and alive: "\<not> isStackDead ps" and ok: "write_place_ok ps (PlStack off sz) v"
  shows "\<exists>ps'. setStack ps off sz v False = Some ps' \<and>
    map_option fst (getStack ps' off sz) = Some (read_back v (mem_bytes sz))"
proof -
  let ?n = "mem_bytes sz"
  let ?st = "grow off ?n (ps_stack ps)"
  let ?i = "getStackIdx ?st off"
  have room: "stack_room ps off sz" and sok: "size_ok v ?n" using ok by auto
  have su: "sz \<noteq> MUnknown" using room by (auto simp: stack_room_def)
  have nd: "\<not> st_dead (ps_stack ps)" using alive by (simp add: isStackDead_def)
  note gf = grow_facts[OF nd wf_ps_stack[OF wf], of off ?n]
  have wst: "wf_elems (st_elems ?st)" using gf(1) by (simp add: wf_stack_def)
  have idx: "?i + ?n \<le> length (st_elems ?st)"
    using stack_index[OF nd wf_ps_stack[OF wf]] room by (simp add: stack_room_def)
  have inner: "no_inner_head (st_elems ?st) ?i ?n" using ok by (simp add: Let_def)
  obtain es where es: "set_elements (st_elems ?st) ?i ?n v False = Some es"
    "length es = length (st_elems ?st)" "holds_value v ?i ?n es"
    using set_elements_spec[OF wst mem_bytes_pos[OF su] idx inner sok] by blast
  let ?ps = "put_stack es (grow_stack off ?n ps)"
  have same: "grow off ?n (?st\<lparr>st_elems := es\<rparr>) = ?st\<lparr>st_elems := es\<rparr>"
    using gf(2,3,4) es(2)
    by (simp add: grow_def grow_old_def grow_new_def oldStackSize_def newStackSize_def)
  have g: "get_elements es ?i ?n = Some (read_back v ?n)"
    using get_holds_value[OF sok _ es(3)] idx es(2) by simp
  have "getStack ?ps off sz = Some (read_back v ?n, grow_stack off ?n ?ps)"
    using su gf(2) same g by (simp add: getStack_def isStackDead_def put_stack_def getStackIdx_def)
  moreover have "setStack ps off sz v False = Some ?ps"
    using su alive es(1) by (simp add: setStack_def Let_def)
  ultimately show ?thesis by simp
qed

section \<open>Writing a part of a register\<close>

lemma nth_le_bytes: "i < n \<Longrightarrow> le_bytes n w ! i = ucast (drop_bit (8 * i) w)"
  by (simp add: le_bytes_def)

lemma zero_extended_bytes:
  "le_bytes 8 (take_bit 32 (w :: u64)) = le_bytes 4 w @ replicate 4 0"
proof (rule nth_equalityI)
  fix i assume "i < length (le_bytes 8 (take_bit 32 w))"
  then have i: "i < 8" by simp
  show "le_bytes 8 (take_bit 32 w) ! i = (le_bytes 4 w @ replicate 4 0) ! i"
  proof (cases "i < 4")
    case True
    then show ?thesis using i
      by (auto simp: nth_append nth_le_bytes intro!: bit_word_eqI)
        (auto simp: bit_simps)
  next
    case False
    then show ?thesis using i
      by (auto simp: nth_append nth_le_bytes intro!: bit_word_eqI) (auto simp: bit_simps)
  qed
qed simp

lemma segment_data_nth:
  assumes "map edata (segment es off n) = bs" and "off + n \<le> length es" and "i < n"
  shows "edata (es ! (off + i)) = bs ! i"
proof -
  have "map edata (segment es off n) ! i = edata (es ! (off + i))" using assms(2,3) by simp
  then show ?thesis using assms(1) by simp
qed

lemma set_low_keeps:
  assumes wf: "wf_elems es" and len: "length es = 8" and z: "holds_value (Imm64 0) 0 8 es"
    and s: "set_elements es 0 4 (Imm64 w) False = Some es'"
  shows "holds_value (Imm64 (take_bit 32 w)) 0 8 es' \<and> length es' = 8"
proof -
  have t: "etype (es ! i) = EImmediate" if "i < 8" for i
    using z that by (simp add: holds_value_def)
  have d: "map edata (segment es 0 8) = le_bytes 8 (0 :: u64)"
    using z by (simp add: holds_value_def imm_bytes_def dyn_simps le_bytes_def)
  have noh: "\<not> head_at es p" for p using t len by (cases "p < 8") (auto simp: head_at_def)
  obtain es2 where e: "set_elements es 0 4 (Imm64 w) False = Some es2" "length es2 = 8"
    "holds_value (Imm64 w) 0 4 es2" "\<forall>i < 8. \<not> erased es 0 4 i \<longrightarrow> es2 ! i = es ! i"
    using set_elements_spec[OF wf, of 4 0 "Imm64 w"] len noh
    by (auto simp: size_ok_def no_inner_head_def list_all_iff)
  have eq: "es2 = es'" using e(1) s by simp
  have keep: "es' ! i = es ! i" if "4 \<le> i" "i < 8" for i
    using e(4) that noh by (auto simp: eq erased_def)
  have low: "etype (es' ! i) = EImmediate" if "i < 4" for i
    using e(3) that by (simp add: eq holds_value_def)
  have "map edata (segment es' 0 4) = le_bytes 4 w"
    using e(3) by (simp add: eq holds_value_def imm_bytes_def dyn_simps le_bytes_ucast)
  then have dl: "edata (es' ! i) = le_bytes 4 w ! i" if "i < 4" for i
    using segment_data_nth[of es' 0 4 _ i] that e(2) eq by simp
  have "edata (es ! i) = 0" if "i < 8" for i
    using segment_data_nth[OF d _ that] len that by (simp add: nth_le_bytes)
  then have dh: "edata (es' ! i) = 0" if "4 \<le> i" "i < 8" for i
    using keep[OF that] that by simp
  have "map edata (segment es' 0 8) = le_bytes 8 (take_bit 32 w)"
    unfolding zero_extended_bytes
  proof (rule map_edata_segment)
    fix j assume "j < (8 :: nat)"
    then show "edata (es' ! (0 + j)) = (le_bytes 4 w @ replicate 4 0) ! j"
      using dl[of j] dh[of j] by (simp add: nth_append)
  qed (use e(2) eq in simp_all)
  moreover have "etype (es' ! i) = EImmediate" if "i < 8" for i
    using low[of i] keep[of i] t[of i] that by (cases "i < 4") auto
  ultimately show ?thesis
    using e(2) eq by (simp add: holds_value_def imm_bytes_def dyn_simps le_bytes_ucast)
qed

text \<open>Writing a 32-bit register, as the instructions do, leaves its zero extension in the parent.\<close>

lemma zero_extension:
  assumes wf: "wf_ps ps"
  shows "\<exists>ps'. setRegister ps (Gpr32 g) FullZeroParent (Imm64 w) False = Some ps' \<and>
    getRegister ps' (Gpr64 g) Full = Some (Imm64 (take_bit 32 w))"
proof -
  let ?l = "LGprs64 (gpr_nr g)"
  have loc: "loc_ok ?l" by simp
  have d: "getRegisterData (Gpr32 g) FullZeroParent = Some (?l, 0, 8)"
    "getRegisterData (Gpr32 g) Full = Some (?l, 0, 4)" "getRegisterData (Gpr64 g) Full = Some (?l, 0, 8)"
    by (simp_all add: reg_data_simps)
  have inner: "no_inner_head (reg_elems ps ?l) 0 8"
    using wf_psD[OF wf loc] by (intro gpr_no_inner) simp_all
  have sz: "size_ok (Imm64 0) 8" and w: "0 < (8 :: nat)" "0 + 8 \<le> loc_size ?l" by (simp_all add: size_ok_def)
  obtain es0 where e0: "set_elements (reg_elems ps ?l) 0 8 (Imm64 0) False = Some es0"
    "wf_ps (put_reg ?l es0 ps)" "holds_value (Imm64 0) 0 8 es0" "length es0 = loc_size ?l"
    using set_loc_elements[OF wf loc w inner sz] by (elim exE conjE) (rule that)
  then have l0: "length es0 = 8" by simp
  have at0: "reg_elems (put_reg ?l es0 ps) ?l = es0" using wf loc by (simp del: put_reg.simps reg_elems.simps)
  have w0: "wf_elems es0" using wf_psD(2)[OF e0(2) loc] at0 by simp
  have sz4: "size_ok (Imm64 w) 4" and w4: "0 < (4 :: nat)" "0 + 4 \<le> loc_size ?l" by (simp_all add: size_ok_def)
  have inner4: "no_inner_head (reg_elems (put_reg ?l es0 ps) ?l) 0 4"
    unfolding at0 using gpr_no_inner[OF w0] l0 by simp
  obtain es where e: "set_elements es0 0 4 (Imm64 w) False = Some es" "wf_ps (put_reg ?l es (put_reg ?l es0 ps))"
    using set_loc_elements[OF e0(2) loc w4 inner4 sz4] unfolding at0 by (elim exE conjE) (rule that)
  have at: "reg_elems (put_reg ?l es (put_reg ?l es0 ps)) ?l = es"
    using e0(2) loc by (simp del: put_reg.simps reg_elems.simps)
  note h = set_low_keeps[OF w0 l0 e0(3) e(1)]
  have "get_elements es 0 8 = Some (Imm64 (take_bit 32 w))"
    using get_holds_value[of "Imm64 (take_bit 32 w)" 8 0 es] h
    by (simp add: size_ok_def read_back_def dyn_simps take_bit_word_eq_self)
  then have "getRegister (put_reg ?l es (put_reg ?l es0 ps)) (Gpr64 g) Full = Some (Imm64 (take_bit 32 w))"
    using d(3) at by (simp add: getRegister_def del: put_reg.simps reg_elems.simps)
  moreover have "setRegister ps (Gpr32 g) FullZeroParent (Imm64 w) False = Some (put_reg ?l es (put_reg ?l es0 ps))"
    using d(1,2) e0(1) e(1) at0 by (simp add: setRegister_def del: put_reg.simps reg_elems.simps)
  ultimately show ?thesis by blast
qed

section \<open>Stack pointers stay marked\<close>

text \<open>Some byte the access covers may be part of a stack pointer.\<close>

definition touches_stackish :: "program_state \<Rightarrow> register \<Rightarrow> reg_access \<Rightarrow> bool" where
  "touches_stackish ps r a \<longleftrightarrow>
     (case reg_range r a of (loc, off, n) \<Rightarrow>
        list_ex (\<lambda>i. stackish (etype (reg_elems ps loc ! i))) [off..<off + n])"

lemma register_taint:
  assumes wf: "wf_ps ps" and ok: "access_ok r a" and g: "getRegister ps r a = Some v"
    and t: "touches_stackish ps r a"
  shows "may_be_stack v"
proof -
  obtain loc off n where rr: "getRegisterData r a = Some (loc, off, n)" "loc_ok loc" "0 < n" "off + n \<le> loc_size loc"
    using access_bounds[OF ok] by (elim exE conjE) (rule that)
  obtain i where i: "off \<le> i" "i < off + n" "stackish (etype (reg_elems ps loc ! i))"
    using t rr(1) by (auto simp: touches_stackish_def reg_range_def list_ex_iff)
  have "i - off < n" "off + (i - off) = i" using i(1,2) by linarith+
  then show ?thesis
    using get_elements_taint[OF wf_psD(2)[OF wf rr(2)] rr(3), of off v "i - off"]
      wf_psD(1)[OF wf rr(2)] rr(1,4) g i(3) by (simp add: getRegister_def)
qed

section \<open>A nasty instruction\<close>

text \<open>After an instruction nothing is known of, the state describes every machine.\<close>

lemma set_loc_opaque:
  assumes wf: "wf_ps ps" and loc: "loc_ok loc" and v: "v \<in> {Unknown, Tainted}"
    and inner: "no_inner_head (reg_elems ps loc) 0 (loc_size loc)"
  shows "\<exists>ps'. set_loc (loc_size loc) v loc ps = Some ps' \<and> wf_ps ps' \<and> ps_stack ps' = ps_stack ps \<and>
    (\<forall>i < loc_size loc. etype (reg_elems ps' loc ! i) \<in> {EUnknown, ETainted}) \<and>
    (\<forall>l. loc_ok l \<longrightarrow> l \<noteq> loc \<longrightarrow> reg_elems ps' l = reg_elems ps l)"
proof -
  have sz: "0 < loc_size loc" "size_ok v (loc_size loc)" using v by (cases loc; auto simp: size_ok_def)+
  obtain es where "set_elements (reg_elems ps loc) 0 (loc_size loc) v False = Some es"
    "wf_ps (put_reg loc es ps)" "holds_value v 0 (loc_size loc) es"
    using set_loc_elements[OF wf loc sz(1) _ inner sz(2)] by auto
  then show ?thesis using v wf loc
    by (intro exI[of _ "put_reg loc es ps"])
      (auto simp: set_loc_def holds_value_def)
qed

lemma opaque_conc:
  assumes "\<forall>i < length es. etype (es ! i) \<in> {EUnknown, ETainted}" and "length cs = length es"
  shows "conc base es cs"
  using assms by (intro concI) (auto simp: conc_at_def)

text \<open>Some registers are opaque, the other ones as they were.\<close>

definition opaque_loc :: "program_state \<Rightarrow> reg_loc \<Rightarrow> bool" where
  "opaque_loc ps loc \<longleftrightarrow> list_all (\<lambda>e. etype e \<in> {EUnknown, ETainted}) (reg_elems ps loc)"

definition inner_free :: "program_state \<Rightarrow> reg_loc \<Rightarrow> bool" where
  "inner_free ps loc \<longleftrightarrow> no_inner_head (reg_elems ps loc) 0 (loc_size loc)"

lemma inner_free_cong: "reg_elems p l = reg_elems q l \<Longrightarrow> inner_free p l = inner_free q l"
  by (simp add: inner_free_def)

lemma opaque_loc_cong: "reg_elems p l = reg_elems q l \<Longrightarrow> opaque_loc p l = opaque_loc q l"
  by (simp add: opaque_loc_def)

lemma set_locs_opaque:
  assumes "wf_ps ps" and "\<forall>loc \<in> set locs. loc_ok loc \<and> loc_size loc = n \<and> inner_free ps loc"
    and "v \<in> {Unknown, Tainted}" and "distinct locs"
  shows "\<exists>ps'. for_each locs (set_loc n v) ps = Some ps' \<and> wf_ps ps' \<and> ps_stack ps' = ps_stack ps \<and>
    (\<forall>loc \<in> set locs. opaque_loc ps' loc) \<and>
    (\<forall>l. loc_ok l \<longrightarrow> l \<notin> set locs \<longrightarrow> reg_elems ps' l = reg_elems ps l)"
  using assms
proof (induction locs arbitrary: ps)
  case (Cons loc locs)
  have ok: "loc_ok loc" "loc_size loc = n" "no_inner_head (reg_elems ps loc) 0 (loc_size loc)"
    using Cons.prems(2) by (auto simp: inner_free_def)
  obtain ps1 where s: "set_loc n v loc ps = Some ps1" "wf_ps ps1" "ps_stack ps1 = ps_stack ps"
    "\<forall>i < loc_size loc. etype (reg_elems ps1 loc ! i) \<in> {EUnknown, ETainted}"
    "\<forall>l. loc_ok l \<longrightarrow> l \<noteq> loc \<longrightarrow> reg_elems ps1 l = reg_elems ps l"
    using set_loc_opaque[OF Cons.prems(1) ok(1) Cons.prems(3) ok(3)] ok(2) by blast
  have rest: "\<forall>l \<in> set locs. loc_ok l \<and> loc_size l = n \<and> inner_free ps1 l"
    using Cons.prems(2,4) s(5) inner_free_cong by (metis distinct.simps(2) list.set_intros(2))
  obtain ps2 where r: "for_each locs (set_loc n v) ps1 = Some ps2" "wf_ps ps2" "ps_stack ps2 = ps_stack ps1"
    "\<forall>l \<in> set locs. opaque_loc ps2 l"
    "\<forall>l. loc_ok l \<longrightarrow> l \<notin> set locs \<longrightarrow> reg_elems ps2 l = reg_elems ps1 l"
    using Cons.IH[OF s(2) rest Cons.prems(3)] Cons.prems(4) by auto
  have "opaque_loc ps2 loc"
    using r(5) ok(1) s(4) wf_psD(1)[OF s(2) ok(1)] Cons.prems(4)
    by (simp add: opaque_loc_def list_all_length)
  then show ?case using s r Cons.prems(4) by (intro exI[of _ ps2]) auto
qed simp

lemma nasty_opaque:
  assumes wf: "wf_ps ps" and xmm: "\<forall>x < 16. inner_free ps (LSse128 x)"
  shows "\<exists>ps'. nastyInstruction ps = Some ps' \<and> wf_ps ps' \<and>
    (\<forall>base m. (\<forall>loc. loc_ok loc \<longrightarrow> length (m_reg m loc) = loc_size loc) \<longrightarrow> ps_conc base ps' m)"
proof -
  let ?p0 = "untrackedStackAccess ps"
  have w0: "wf_ps ?p0" "\<And>l. reg_elems ?p0 l = reg_elems ps l" "st_dead (ps_stack ?p0)"
    using wf by (auto simp: untrackedStackAccess_def wf_put_stack_state setDead_def [symmetric])
      (simp add: setDead_def)
  have inner: "inner_free ps loc" if "loc_ok loc" for loc
    using gpr_no_inner[OF wf_psD(2)[OF wf that]] wf_psD(1)[OF wf that] xmm that
    by (cases loc) (auto simp: inner_free_def)
  have i1: "\<forall>loc \<in> set (map LFlag1 [0..<6]). loc_ok loc \<and> loc_size loc = 1 \<and> inner_free ?p0 loc"
    using inner inner_free_cong[OF w0(2)] by (simp add: atLeast0LessThan)
  have d1: "distinct (map LFlag1 [0..<6])" by (simp add: distinct_map inj_on_def)
  obtain p1 where p1: "for_each (map LFlag1 [0..<6]) (set_loc 1 Unknown) ?p0 = Some p1" "wf_ps p1"
    "ps_stack p1 = ps_stack ?p0" "\<forall>loc \<in> set (map LFlag1 [0..<6]). opaque_loc p1 loc"
    "\<forall>l. loc_ok l \<longrightarrow> l \<notin> set (map LFlag1 [0..<6]) \<longrightarrow> reg_elems p1 l = reg_elems ?p0 l"
    using set_locs_opaque[OF w0(1) i1 _ d1, of Unknown] by blast
  have j2: "inner_free p1 loc" if "loc_ok loc" "\<forall>i. loc \<noteq> LFlag1 i" for loc
    using inner_free_cong[of p1 loc ps] p1(5) w0(2) inner that by auto
  have i2: "\<forall>loc \<in> set (map LGprs64 [0..<16]). loc_ok loc \<and> loc_size loc = 8 \<and> inner_free p1 loc"
    by (auto intro!: j2)
  have d2: "distinct (map LGprs64 [0..<16])" by (simp add: distinct_map inj_on_def)
  obtain p2 where p2: "for_each (map LGprs64 [0..<16]) (set_loc 8 Tainted) p1 = Some p2" "wf_ps p2"
    "ps_stack p2 = ps_stack p1" "\<forall>loc \<in> set (map LGprs64 [0..<16]). opaque_loc p2 loc"
    "\<forall>l. loc_ok l \<longrightarrow> l \<notin> set (map LGprs64 [0..<16]) \<longrightarrow> reg_elems p2 l = reg_elems p1 l"
    using set_locs_opaque[OF p1(2) i2 _ d2, of Tainted] by blast
  have j3: "inner_free p2 loc" if "loc_ok loc" "\<forall>i. loc \<noteq> LFlag1 i" "\<forall>i. loc \<noteq> LGprs64 i" for loc
    using inner_free_cong[of p2 loc p1] p2(5) j2 that by auto
  have i3: "\<forall>loc \<in> set (map LSse128 [0..<16]). loc_ok loc \<and> loc_size loc = 16 \<and> inner_free p2 loc"
    by (auto intro!: j3)
  have d3: "distinct (map LSse128 [0..<16])" by (simp add: distinct_map inj_on_def)
  obtain p3 where p3: "for_each (map LSse128 [0..<16]) (set_loc 16 Tainted) p2 = Some p3" "wf_ps p3"
    "ps_stack p3 = ps_stack p2" "\<forall>loc \<in> set (map LSse128 [0..<16]). opaque_loc p3 loc"
    "\<forall>l. loc_ok l \<longrightarrow> l \<notin> set (map LSse128 [0..<16]) \<longrightarrow> reg_elems p3 l = reg_elems p2 l"
    using set_locs_opaque[OF p2(2) i3 _ d3, of Tainted] by blast
  have e3: "opaque_loc p3 loc = opaque_loc p2 loc" if "loc_ok loc" "\<forall>i. loc \<noteq> LSse128 i" for loc
    using opaque_loc_cong[of p3 loc p2] p3(5) that by auto
  have e2: "opaque_loc p2 loc = opaque_loc p1 loc" if "loc_ok loc" "\<forall>i. loc \<noteq> LGprs64 i" for loc
    using opaque_loc_cong[of p2 loc p1] p2(5) that by auto
  have "opaque_loc p3 loc" if "loc_ok loc" for loc
    using p1(4) p2(4) p3(4) that e3[OF that] e2[OF that] by (cases loc) auto
  then have "conc base (reg_elems p3 loc) (m_reg m loc)"
    if "loc_ok loc" "length (m_reg m loc) = loc_size loc" for base m loc
    using that wf_psD(1)[OF p3(2)] by (intro opaque_conc) (auto simp: opaque_loc_def list_all_length)
  moreover have "stack_conc base (ps_stack p3) mem" for base mem
    using p1(3) p2(3) p3(3) w0(3) by (simp add: stack_conc_def)
  ultimately have "ps_conc base p3 m" if "\<forall>loc. loc_ok loc \<longrightarrow> length (m_reg m loc) = loc_size loc" for base m
    using that by (simp add: ps_conc_def list_all_iff Ball_def in_all_locs) blast
  then show ?thesis using p1(1) p2(1) p3(1,2) by (simp add: nastyInstruction_def Let_def)
qed

end
