(* ===== verification/Divergences.thy ===== *)
theory Divergences
  imports Emulator_Sound State_Props Table_Sound
begin

text \<open>
  Concrete states and inputs on which the code does not do what it is meant to do. Each is
  evaluated on the definitions of the model, with no parameter left open.
\<close>

section \<open>Element arrays\<close>

definition imm_elem :: "byte \<Rightarrow> elem" where
  "imm_elem b = \<lparr>etype = EImmediate, enr = 0, edata = b\<rparr>"

definition type_elem :: "elem_type \<Rightarrow> elem" where
  "type_elem t = \<lparr>etype = t, enr = 0, edata = 0\<rparr>"

text \<open>A pointer of the given kind with number 0, and eight elements that tell nothing.\<close>

definition ptr_elems :: "ptr_kind \<Rightarrow> elem list" where
  "ptr_elems k = type_elem (EPtr k) # replicate 7 (type_elem (tail_of k))"

definition any_elems :: "nat \<Rightarrow> elem list" where
  "any_elems n = replicate n (type_elem EUnknown)"

lemma overwrite_inner_pointer:
  "set_elements (any_elems 8 @ ptr_elems UsrPtr) 0 16 (Imm128 0) False = None"
  by code_simp

lemma overwrite_inner_pointer_wf: "wf_elems (any_elems 8 @ ptr_elems UsrPtr)"
  by code_simp

text \<open>Merging pointers of two kinds leaves the tails of one of them behind.\<close>

lemma merge_two_kinds:
  "map_option (\<lambda>(d, es). (d, map etype es, wf_elems es)) (merge_elements (ptr_elems UsrPtr) (ptr_elems ReturnPtr)) =
   Some (True, EUnknown # replicate 7 ETail, False)"
  by code_simp

definition merged_kinds :: "elem list" where
  "merged_kinds = (case merge_elements (ptr_elems UsrPtr) (ptr_elems ReturnPtr) of
     Some (d, es) \<Rightarrow> es | None \<Rightarrow> [])"

lemma merged_kinds_read:
  "Option.bind (set_elements merged_kinds 0 1 (Imm64 7) False) (\<lambda>es. get_elements es 0 8) = Some (Imm64 7)"
  by code_simp

section \<open>Registers\<close>

definition ps_cf0 :: program_state where
  "ps_cf0 = put_reg (LFlag1 0) [imm_elem 0] ps_init"

definition m_zf :: machine where
  "m_zf = \<lparr>m_reg = (\<lambda>loc. replicate (loc_size loc) (if loc = LFlag1 3 then 1 else 0)), m_stack = (\<lambda>_. 0)\<rparr>"

lemma cf0_describes_zf: "ps_conc (\<lambda>_ _. 0) ps_cf0 m_zf"
  by code_simp

lemma jnbe_will_execute:
  "willExecute (instr_of (Jcc JNBEa) []) ps_cf0 = Some TTrue"
  "\<not> executes m_zf (instr_of (Jcc JNBEa) [])"
  by code_simp+

section \<open>Whole instructions\<close>

text \<open>An environment with no configured pointers and no known memory, and the reference CPU.\<close>

definition bare_env :: rw_env where
  "bare_env = \<lparr>env_usrPtrs = [], env_prot = \<lparr>mp_ranges = [], mp_cfg = []\<rparr>,
     env_host = (\<lambda>_. 0), env_cpu = ref_cpu\<rparr>"

text \<open>Setting a register, running an instruction, reading a register.\<close>

definition run_one :: "(register \<times> dyn_value) list \<Rightarrow> opcode \<Rightarrow> static_operand list \<Rightarrow> register \<Rightarrow>
    dyn_value option" where
  "run_one ws opc ops out =
     do { ps \<leftarrow> for_each ws (\<lambda>(r, v) ps. setRegister ps r Full v False) ps_init;
          (di, ps) \<leftarrow> emulate bare_env (instr_of opc ops) ps;
          getRegister ps out Full }"

definition imm_op :: "u64 \<Rightarrow> static_operand" where
  "imm_op w = SopImm \<lparr>i64_val = w, i64_usrPtrNr = -1, i64_usrPtrOffset = 0\<rparr>"

lemma run_mov_same: "run_one [(RAX, Imm64 5)] (Mov MOV32rr) [SopReg EAX, SopReg EAX] RAX = Some (Imm64 0)"
  by code_simp

lemma run_mov_other:
  "run_one [(RAX, Imm64 5)] (Mov MOV32rr) [SopReg (Gpr32 GB), SopReg EAX] RBX = Some (Imm64 5)"
  by code_simp

lemma run_cmp8: "run_one [(AL, Imm64 0x80)] (Cmp CMP8ri) [SopReg AL, imm_op 1] OvF = Some (Imm64 0)"
  by code_simp

lemma run_cmp8_rr:
  "run_one [(AL, Imm64 0x80), (Gpr8 GB, Imm64 1)] (Cmp CMP8rr) [SopReg AL, SopReg (Gpr8 GB)] OvF = Some (Imm64 1)"
  by code_simp

lemma run_sub_ptr:
  "run_one [(RAX, Imm64 5), (RBX, Ptr UsrPtr 0 3)] (Sub SUB64rr) [SopReg RAX, SopReg RBX] RAX =
   Some (Ptr UsrPtr 0 (-2))"
  by code_simp

end
