(* ===== verification/Binary_Pool_Sound.thy ===== *)
theory Binary_Pool_Sound
  imports Binary_Pool
begin

text \<open>
  What the pool keeps: its pointers stay in the region, code and constants stay apart, and an
  address handed out for a constant holds it until the constants are thrown away.
\<close>

section \<open>The invariant\<close>

definition const_at :: "pool \<Rightarrow> u64 \<Rightarrow> byte list \<Rightarrow> bool" where
  "const_at p a bs \<longleftrightarrow>
     unat (pl_nextConst p) < unat a \<and> unat a + length bs \<le> unat (pl_start p) + unat (pl_size p) \<and>
     unat a mod length bs = 0 \<and> list_all (\<lambda>i. pl_mem p (a + of_nat i) = bs ! i) [0..<length bs]"

definition pool_area :: "pool \<Rightarrow> bool" where
  "pool_area p \<longleftrightarrow>
     pl_start p \<noteq> 0 \<and> unat (pl_start p) mod 4096 = 0 \<and> unat (pl_size p) mod 4096 = 0 \<and>
     8192 \<le> unat (pl_size p) \<and> unat (pl_size p) \<le> 2 ^ 31 \<and> unat (pl_start p) + unat (pl_size p) < 2 ^ 64"

definition pool_code :: "pool \<Rightarrow> bool" where
  "pool_code p \<longleftrightarrow>
     pl_instrPage p = pl_start p \<and> unat (pl_start p) \<le> unat (pl_nextInstr p) \<and>
     unat (pl_nextInstr p) \<le> unat (pl_start p) + 4096"

definition pool_const :: "pool \<Rightarrow> bool" where
  "pool_const p \<longleftrightarrow>
     unat (pl_constPage p) = unat (pl_start p) + unat (pl_size p) - 4096 \<and>
     unat (pl_constPage p) \<le> unat (pl_nextConst p) + 1 \<and>
     unat (pl_nextConst p) < unat (pl_constPage p) + 4096"

definition pool_maps :: "pool \<Rightarrow> bool" where
  "pool_maps p \<longleftrightarrow>
     (\<forall>v a. pl_map64 p v = Some a \<longrightarrow> const_at p a (le_bytes 8 v)) \<and>
     (\<forall>v a. pl_map128 p v = Some a \<longrightarrow> const_at p a (le_bytes 16 v))"

definition pool_ok :: "pool \<Rightarrow> bool" where
  "pool_ok p \<longleftrightarrow> pool_area p \<and> pool_code p \<and> pool_const p \<and> pool_maps p"

lemmas pool_parts = pool_area_def pool_code_def pool_const_def

lemma pool_okD: "pool_ok p \<Longrightarrow> pool_area p" "pool_ok p \<Longrightarrow> pool_code p" "pool_ok p \<Longrightarrow> pool_const p"
  "pool_ok p \<Longrightarrow> pool_maps p"
  by (simp_all add: pool_ok_def)

section \<open>Bytes\<close>

lemma unat_offset: "unat (a :: u64) + n \<le> 2 ^ 64 \<Longrightarrow> i < n \<Longrightarrow> unat (a + of_nat i) = unat a + i"
  by (simp add: unat_word_ariths unat_of_nat)

lemma write_bytes_in:
  "length bs \<le> 2 ^ 64 \<Longrightarrow> i < length bs \<Longrightarrow> write_bytes a bs mem (a + of_nat i) = bs ! i"
  by (simp add: write_bytes_def unat_of_nat)

lemma write_bytes_out:
  assumes "unat a + length bs \<le> 2 ^ 64" and "unat x < unat a \<or> unat a + length bs \<le> unat x"
  shows "write_bytes a bs mem x = mem x"
proof -
  have "length bs \<le> unat (x - a)"
  proof (cases "unat x < unat a")
    case True
    then have "unat (x - a) = 2 ^ 64 + unat x - unat a"
      by (simp add: unat_sub_if_size word_size)
    then show ?thesis using assms(1) True by linarith
  next
    case False
    then show ?thesis using assms(2) by (simp add: unat_sub_if_size)
  qed
  then show ?thesis by (simp add: write_bytes_def)
qed

text \<open>A write below a constant, or in the page of the code, leaves it alone.\<close>

lemma const_at_write:
  assumes c: "const_at p a cs" and ar: "unat (pl_start p) + unat (pl_size p) < 2 ^ 64"
    and w: "unat b + length bs \<le> unat (pl_nextConst p) + 1"
  shows "const_at (p\<lparr>pl_mem := write_bytes b bs (pl_mem p)\<rparr>) a cs"
proof -
  have "write_bytes b bs (pl_mem p) (a + of_nat i) = pl_mem p (a + of_nat i)" if "i < length cs" for i
  proof (rule write_bytes_out)
    have "unat (a + of_nat i) = unat a + i"
      using c ar that by (intro unat_offset[of a "length cs"]) (auto simp: const_at_def)
    then show "unat (a + of_nat i) < unat b \<or> unat b + length bs \<le> unat (a + of_nat i)"
      using c w by (simp add: const_at_def)
    have "unat (pl_nextConst p) < 2 ^ 64" using unsigned_less[of "pl_nextConst p"] by simp
    then show "unat b + length bs \<le> 2 ^ 64" using w by simp
  qed
  then show ?thesis using c by (simp add: const_at_def list_all_iff)
qed

lemma const_at_cong:
  "pl_mem q = pl_mem p \<Longrightarrow> pl_start q = pl_start p \<Longrightarrow> pl_size q = pl_size p \<Longrightarrow>
   pl_nextConst q = pl_nextConst p \<Longrightarrow> const_at q a bs = const_at p a bs"
  by (simp add: const_at_def)

lemma const_at_lower:
  "const_at p a bs \<Longrightarrow> unat n \<le> unat (pl_nextConst p) \<Longrightarrow> const_at (p\<lparr>pl_nextConst := n\<rparr>) a bs"
  by (simp add: const_at_def)

section \<open>Code\<close>

lemma instr_page:
  assumes ok: "pool_area p" "pool_code p" and sz: "0 < unat sz" "unat sz \<le> 4096"
  shows "align_down (pl_nextInstr p + sz - 1) page_size = pl_instrPage p \<longleftrightarrow>
    unat (pl_nextInstr p) + unat sz \<le> unat (pl_start p) + 4096"
proof -
  obtain m where m: "unat (pl_start p) = m * 2 ^ 12"
    using ok(1) by (auto simp: pool_area_def mod_eq_0_iff_dvd dvd_def mult.commute)
  have up: "unat (pl_nextInstr p) + unat sz < 2 ^ 64"
    using ok sz by (simp add: pool_parts)
  have u: "unat (pl_nextInstr p + sz - 1) = unat (pl_nextInstr p) + unat sz - 1"
    using up sz by (simp add: unat_sub_if_size unat_word_ariths word_less_nat_alt word_le_nat_alt)
  have "align_down (pl_nextInstr p + sz - 1) page_size = pl_instrPage p \<longleftrightarrow>
      unat (align_down (pl_nextInstr p + sz - 1) (2 ^ 12)) = m * 2 ^ 12"
    using ok(2) m by (simp add: pool_code_def word_unat_eq_iff)
  also have "\<dots> \<longleftrightarrow> m * 2 ^ 12 \<le> unat (pl_nextInstr p + sz - 1) \<and>
      unat (pl_nextInstr p + sz - 1) < (m + 1) * 2 ^ 12"
    by (rule align_down_cases) simp
  finally show ?thesis using u m ok sz by (simp add: pool_code_def) linarith
qed

text \<open>Code is handed out exactly as long as it fits into the first page.\<close>

text \<open>The address of a second page is not the start of a page.\<close>

lemma no_next_page:
  assumes os: "os_ok os" and ok: "pool_area p" "pool_code p"
  shows "os ProtRWX (Some (pl_instrPage p + 1)) page_size \<noteq> pl_instrPage p + 1"
proof
  assume eq: "os ProtRWX (Some (pl_instrPage p + 1)) page_size = pl_instrPage p + 1"
  have u: "unat (pl_instrPage p + 1) = unat (pl_start p) + 1"
    using ok by (simp add: pool_parts unat_word_ariths)
  then have "unat (pl_instrPage p + 1) mod 4096 = 1"
    using ok(1) by (simp add: pool_area_def mod_Suc)
  then have "pl_instrPage p + 1 = - 1"
    using os eq unfolding os_ok_def by (metis zero_neq_one)
  then have "unat (- 1 :: u64) = unat (pl_start p) + 1" using u by (simp only:)
  moreover have "unat (- 1 :: u64) = 2 ^ 64 - 1"
    by (simp add: unsigned_minus_1_eq_mask mask_eq_exp_minus_1)
  ultimately show False using ok(1) by (simp add: pool_area_def)
qed

lemma allocCode_result:
  assumes os: "os_ok os" and ok: "pool_area p" "pool_code p" and sz: "0 < unat sz" "unat sz \<le> 4096"
  shows "allocCode os sz p =
    (if unat (pl_nextInstr p) + unat sz \<le> unat (pl_start p) + 4096
     then Some (pl_nextInstr p, p\<lparr>pl_nextInstr := pl_nextInstr p + sz\<rparr>) else None)"
  using instr_page[OF ok sz] no_next_page[OF os ok] by (simp add: allocCode_def Let_def)

section \<open>Constants\<close>

definition const_size :: "nat \<Rightarrow> bool" where
  "const_size n \<longleftrightarrow> n \<in> {1, 2, 4, 8, 16}"

lemma const_size_power: "const_size n \<Longrightarrow> is_power_of_2 (of_nat n)"
  by (auto simp: const_size_def is_power_of_2_def)

lemma const_page:
  assumes "pool_area p" and "pool_const p"
  shows "unat (pl_constPage p) mod 4096 = 0" and "4096 \<le> unat (pl_constPage p)"
    and "unat (pl_constPage p) + 4096 = unat (pl_start p) + unat (pl_size p)"
proof -
  obtain a where a: "unat (pl_start p) = 4096 * a"
    using assms(1) by (auto simp: pool_area_def mod_eq_0_iff_dvd)
  obtain b where b: "unat (pl_size p) = 4096 * b"
    using assms(1) by (auto simp: pool_area_def mod_eq_0_iff_dvd)
  have b2: "2 \<le> b" using assms(1) b by (simp add: pool_area_def)
  then have "unat (pl_constPage p) = 4096 * (a + b - 1)"
    using assms(2) a b by (simp add: pool_const_def)
  then show "unat (pl_constPage p) mod 4096 = 0" "4096 \<le> unat (pl_constPage p)"
    "unat (pl_constPage p) + 4096 = unat (pl_start p) + unat (pl_size p)"
    using a b b2 by simp_all
qed

lemma const_slot:
  assumes ok: "pool_area p" "pool_const p" and n: "const_size n"
  defines "c \<equiv> align_down (pl_nextConst p - of_nat n + 1) (of_nat n)"
  shows "align_down c page_size = pl_constPage p \<longleftrightarrow> unat (pl_constPage p) + n \<le> unat (pl_nextConst p) + 1"
    and "unat c mod n = 0" and "unat c + n \<le> unat (pl_nextConst p) + 1"
    and "unat (pl_constPage p) + n \<le> unat (pl_nextConst p) + 1 \<Longrightarrow> unat (pl_constPage p) \<le> unat c"
    and "0 < unat c"
proof -
  obtain k where k: "n = 2 ^ k" "k < 5"
  proof -
    have "n = 2 ^ 0 \<or> n = 2 ^ 1 \<or> n = 2 ^ 2 \<or> n = 2 ^ 3 \<or> n = 2 ^ 4" using n by (auto simp: const_size_def)
    then show thesis by (elim disjE) (rule that, assumption, simp)+
  qed
  obtain m where m: "unat (pl_constPage p) = m * 2 ^ 12" "1 \<le> m"
  proof -
    note const_page(1,2)[OF ok]
    then show thesis using that by (auto simp: mod_eq_0_iff_dvd dvd_def mult.commute)
  qed
  let ?x = "pl_nextConst p - of_nat n + 1"
  have n16: "0 < n" "n \<le> 16" using n by (auto simp: const_size_def)
  have big: "4096 \<le> unat (pl_nextConst p) + 1" using ok(2) m by (simp add: pool_const_def)
  have on: "unat (of_nat n :: u64) = n" using n16 by (simp add: unat_of_nat)
  have x: "unat ?x = unat (pl_nextConst p) + 1 - n"
  proof -
    have s: "unat (pl_nextConst p - of_nat n) = unat (pl_nextConst p) - n"
      using big n16 on by (simp add: unat_sub_if_size)
    have "unat (pl_nextConst p) < 2 ^ 64" using unsigned_less[of "pl_nextConst p"] by simp
    then show ?thesis using s big n16 by (simp add: unat_word_ariths)
  qed
  have cn: "unat c = unat ?x - unat ?x mod n"
    using align_down_unat[of k ?x] k by (simp add: c_def)
  show mod: "unat c mod n = 0" using cn by (simp add: minus_mod_eq_mult_div)
  show le: "unat c + n \<le> unat (pl_nextConst p) + 1" using cn x big n16 by linarith
  have lt: "unat ?x mod n < n" using n16 by simp
  show "0 < unat c" using cn x big n16 lt by linarith
  have low: "m * 2 ^ 12 \<le> unat c \<longleftrightarrow> m * 2 ^ 12 \<le> unat ?x"
  proof
    assume "m * 2 ^ 12 \<le> unat ?x"
    have "(2 :: nat) ^ 12 = 2 ^ (12 - k) * 2 ^ k" using k by (simp flip: power_add)
    then obtain j where j: "m * 2 ^ 12 = j * n" using k by (metis mult.assoc)
    have "j \<le> unat ?x div n" using \<open>m * 2 ^ 12 \<le> unat ?x\<close> j n16 by (simp add: less_eq_div_iff_mult_less_eq)
    then have "j * n \<le> unat ?x div n * n" by simp
    then show "m * 2 ^ 12 \<le> unat c" using cn j by (simp add: minus_mod_eq_div_mult)
  qed (use cn in linarith)
  have "align_down c page_size = pl_constPage p \<longleftrightarrow> unat (align_down c (2 ^ 12)) = m * 2 ^ 12"
    using m by (simp add: word_unat_eq_iff)
  also have "\<dots> \<longleftrightarrow> m * 2 ^ 12 \<le> unat c \<and> unat c < (m + 1) * 2 ^ 12" by (rule align_down_cases) simp
  finally show "align_down c page_size = pl_constPage p \<longleftrightarrow> unat (pl_constPage p) + n \<le> unat (pl_nextConst p) + 1"
    using low x m ok(2) big n16 le by (simp add: pool_const_def) linarith
  show "unat (pl_constPage p) + n \<le> unat (pl_nextConst p) + 1 \<Longrightarrow> unat (pl_constPage p) \<le> unat c"
    using low x m by simp
qed


text \<open>A constant is stored exactly as long as it fits into the last page.\<close>

lemma allocBytes_result:
  assumes os: "os_ok os" and ok: "pool_area p" "pool_const p" and n: "const_size (length bs)"
  shows "allocBytes os bs p =
    (let c = align_down (pl_nextConst p - of_nat (length bs) + 1) (of_nat (length bs)) in
     if unat (pl_constPage p) + length bs \<le> unat (pl_nextConst p) + 1
     then Some (c, p\<lparr>pl_mem := write_bytes c bs (pl_mem p), pl_nextConst := c - 1\<rparr>) else None)"
proof -
  have "os ProtRW (Some (pl_constPage p - 1)) page_size \<noteq> pl_constPage p - 1"
  proof
    assume eq: "os ProtRW (Some (pl_constPage p - 1)) page_size = pl_constPage p - 1"
    have big: "4096 \<le> unat (pl_constPage p)" using const_page[OF ok] by simp
    have u: "unat (pl_constPage p - 1) = unat (pl_constPage p) - 1"
      using big by (simp add: unat_sub_if_size)
    have "(unat (pl_constPage p) - 1) mod 4096 = 4095"
      using const_page(1)[OF ok] big mod_Suc[of "unat (pl_constPage p) - 1" 4096] by (simp split: if_splits)
    then have "pl_constPage p - 1 = - 1"
      using os eq u unfolding os_ok_def by (metis zero_neq_numeral)
    then have "pl_constPage p = 0" by simp
    then show False using big by simp
  qed
  then show ?thesis
    using const_slot(1)[OF ok n] const_size_power[OF n] by (simp add: allocBytes_def Let_def)
qed

lemma allocBytes_ok:
  assumes os: "os_ok os" and ok: "pool_ok p" and n: "const_size (length bs)"
    and al: "allocBytes os bs p = Some (a, p')"
  shows "pool_ok p'" and "const_at p' a bs" and "unat (pl_constPage p) \<le> unat a"
    and "const_at p b cs \<Longrightarrow> const_at p' b cs"
    and "pl_nextInstr p' = pl_nextInstr p" "pl_map64 p' = pl_map64 p" "pl_map128 p' = pl_map128 p"
    and "pl_start p' = pl_start p" "pl_size p' = pl_size p"
proof -
  note parts = pool_okD[OF ok]
  note slot = const_slot[OF parts(1,3) n]
  let ?c = "align_down (pl_nextConst p - of_nat (length bs) + 1) (of_nat (length bs))"
  have fits: "unat (pl_constPage p) + length bs \<le> unat (pl_nextConst p) + 1" and a: "a = ?c"
    and p': "p' = p\<lparr>pl_mem := write_bytes a bs (pl_mem p), pl_nextConst := a - 1\<rparr>"
    using al allocBytes_result[OF os parts(1,3) n] by (auto simp: Let_def split: if_splits)
  have n0: "0 < length bs" "length bs \<le> 16" using n by (auto simp: const_size_def)
  have am: "unat a mod length bs = 0" "unat a + length bs \<le> unat (pl_nextConst p) + 1" "0 < unat a"
    "unat (pl_constPage p) \<le> unat a"
    using slot(2,3,5) slot(4)[OF fits] a by simp_all
  have a1: "unat (a - 1) = unat a - 1" using am(3) by (simp add: unat_sub_if_size)
  have ar: "unat (pl_start p) + unat (pl_size p) < 2 ^ 64" using parts(1) by (simp add: pool_area_def)
  have keep: "const_at p' b cs" if "const_at p b cs" for b cs
    unfolding p'
  proof (rule const_at_lower)
    show "const_at (p\<lparr>pl_mem := write_bytes a bs (pl_mem p)\<rparr>) b cs"
      using const_at_write[OF that ar am(2)] .
    show "unat (a - 1) \<le> unat (pl_nextConst (p\<lparr>pl_mem := write_bytes a bs (pl_mem p)\<rparr>))"
      using a1 am(2) n0 by simp
  qed
  then show "const_at p b cs \<Longrightarrow> const_at p' b cs" .
  have end_le: "unat (pl_nextConst p) + 1 \<le> unat (pl_start p) + unat (pl_size p)"
    using parts(1,3) unfolding pool_parts by linarith
  have b64: "length bs \<le> 2 ^ 64" using n0 by simp
  show "const_at p' a bs"
    unfolding const_at_def p' using am a1 end_le write_bytes_in[OF b64] by (simp add: list_all_iff)
  have "pool_const p'"
    using parts(3) a1 am n0 const_page[OF parts(1,3)] unfolding pool_const_def p' by simp linarith
  then show "pool_ok p'"
    using parts keep by (simp add: pool_ok_def pool_area_def pool_code_def pool_maps_def p')
  show "unat (pl_constPage p) \<le> unat a" by (rule am(4))
  show "pl_nextInstr p' = pl_nextInstr p" "pl_map64 p' = pl_map64 p" "pl_map128 p' = pl_map128 p"
    "pl_start p' = pl_start p" "pl_size p' = pl_size p"
    by (simp_all add: p')
qed

lemma const_sizes [simp]: "const_size 8" "const_size 16"
  by (simp_all add: const_size_def)

lemma pool_ok_new_const:
  assumes "pool_ok p" and "const_at p a (le_bytes 8 v)"
  shows "pool_ok (p\<lparr>pl_map64 := (pl_map64 p)(v \<mapsto> a)\<rparr>)"
  using assms by (auto simp: pool_ok_def pool_area_def pool_code_def pool_const_def pool_maps_def const_at_def)

lemma pool_ok_new_const128:
  assumes "pool_ok p" and "const_at p a (le_bytes 16 v)"
  shows "pool_ok (p\<lparr>pl_map128 := (pl_map128 p)(v \<mapsto> a)\<rparr>)"
  using assms by (auto simp: pool_ok_def pool_area_def pool_code_def pool_const_def pool_maps_def const_at_def)

section \<open>Code and padding\<close>

text \<open>Whatever is written over the page of the code, the constants stay.\<close>

lemma pool_ok_code:
  assumes ok: "pool_ok p" and n: "unat (pl_start p) \<le> unat n" "unat n \<le> unat (pl_start p) + 4096"
    and b: "unat b + length bs \<le> unat (pl_start p) + 4096"
  defines "q \<equiv> p\<lparr>pl_mem := write_bytes b bs (pl_mem p), pl_nextInstr := n\<rparr>"
  shows "pool_ok q" and "const_at p a cs \<Longrightarrow> const_at q a cs"
proof -
  note parts = pool_okD[OF ok]
  have ar: "unat (pl_start p) + unat (pl_size p) < 2 ^ 64" using parts(1) by (simp add: pool_area_def)
  have low: "unat b + length bs \<le> unat (pl_nextConst p) + 1"
    using b parts(1,3) unfolding pool_parts by linarith
  have keep: "const_at q a cs" if "const_at p a cs" for a cs
    using const_at_write[OF that ar low] by (simp add: q_def const_at_def)
  then show "const_at p a cs \<Longrightarrow> const_at q a cs" .
  have "pool_maps q" using parts(4) keep by (simp add: pool_maps_def q_def)
  moreover have "pool_area q" using parts(1) by (simp add: pool_area_def q_def)
  moreover have "pool_code q" using parts(2) n by (simp add: pool_code_def q_def)
  moreover have "pool_const q" using parts(3) by (simp add: pool_const_def q_def)
  ultimately show "pool_ok q" by (simp add: pool_ok_def)
qed

lemma write_no_bytes [simp]: "write_bytes b [] mem = mem"
  by (simp add: write_bytes_def fun_eq_iff)

lemma round_up_le: "(n + 15) - (n + 15) mod 16 \<le> 16 * m" if "n \<le> 16 * m" for n m :: nat
proof -
  have "(n + 15) div 16 < m + 1" using that by (simp add: div_less_iff_less_mult)
  then show ?thesis by (simp add: minus_mod_eq_mult_div)
qed

lemma newBlock_up:
  assumes ok: "pool_area p" "pool_code p"
  shows "unat (align_up (pl_nextInstr p) 16) \<le> unat (pl_start p) + 4096"
    and "unat (pl_nextInstr p) \<le> unat (align_up (pl_nextInstr p) 16)"
    and "unat (align_up (pl_nextInstr p) 16) mod 16 = 0"
proof -
  let ?x = "pl_nextInstr p + 16 - 1"
  obtain m where m: "unat (pl_start p) + 4096 = 16 * m"
  proof -
    obtain j where "unat (pl_start p) = 4096 * j" using ok(1) by (auto simp: pool_area_def mod_eq_0_iff_dvd)
    then show thesis using that[of "256 * (j + 1)"] by simp
  qed
  have x: "unat ?x = unat (pl_nextInstr p) + 15"
    using ok by (simp add: pool_parts unat_word_ariths)
  have c: "unat (align_up (pl_nextInstr p) 16) = unat ?x - unat ?x mod 16"
    using align_down_unat[of 4 ?x] by (simp add: align_up_def)
  have le: "unat (pl_nextInstr p) \<le> 16 * m" using ok(2) m by (simp add: pool_code_def)
  have "unat ?x - unat ?x mod 16 \<le> 16 * m" unfolding x by (rule round_up_le[OF le])
  then show "unat (align_up (pl_nextInstr p) 16) \<le> unat (pl_start p) + 4096" using c m by simp
  show "unat (pl_nextInstr p) \<le> unat (align_up (pl_nextInstr p) 16)" using c x by linarith
  show "unat (align_up (pl_nextInstr p) 16) mod 16 = 0" using c by (simp add: minus_mod_eq_mult_div)
qed

lemma newBlock_ok:
  assumes ok: "pool_ok p" and nops: "\<And>n. length (nops n) = n" and nb: "newBlock nops w p = (a, p')"
  shows "pool_ok p'" and "const_at p b cs \<Longrightarrow> const_at p' b cs" and "unat a mod 16 = 0"
    and "unat (pl_nextInstr p) \<le> unat a" and "pl_map64 p' = pl_map64 p" and "pl_map128 p' = pl_map128 p"
proof -
  note parts = pool_okD[OF ok]
  note up = newBlock_up[OF parts(1,2)]
  let ?a = "align_up (pl_nextInstr p) 16"
  let ?bs = "if w then nops (unat (?a - pl_nextInstr p)) else []"
  have al: "is_aligned (pl_nextInstr p) 16 \<longleftrightarrow> unat (pl_nextInstr p) mod 16 = 0"
    using is_aligned_unat[of 4 "pl_nextInstr p"] by simp
  consider (aligned) "unat (pl_nextInstr p) mod 16 = 0" "p' = p" "a = pl_nextInstr p"
    | (pad) "a = ?a" "p' = p\<lparr>pl_mem := write_bytes (pl_nextInstr p) ?bs (pl_mem p), pl_nextInstr := ?a\<rparr>"
  proof (cases "unat (pl_nextInstr p) mod 16 = 0")
    case True
    then have "is_aligned (pl_nextInstr p) 16" by (simp only: al)
    then have "newBlock nops w p = (pl_nextInstr p, p)" by (simp add: newBlock_def)
    then show thesis using nb aligned[OF True] by simp
  next
    case False
    then have na: "\<not> is_aligned (pl_nextInstr p) 16" by (simp only: al not_False_eq_True)
    have "newBlock nops w p = (?a, p\<lparr>pl_mem := write_bytes (pl_nextInstr p) ?bs (pl_mem p), pl_nextInstr := ?a\<rparr>)"
      unfolding newBlock_def Let_def if_not_P[OF na] if_P[OF na] by (cases w) simp_all
    then have "a = ?a" "p' = p\<lparr>pl_mem := write_bytes (pl_nextInstr p) ?bs (pl_mem p), pl_nextInstr := ?a\<rparr>"
      unfolding nb prod.inject by simp_all
    then show thesis using pad by blast
  qed
  then have "pool_ok p' \<and> (const_at p b cs \<longrightarrow> const_at p' b cs) \<and> unat a mod 16 = 0
    \<and> unat (pl_nextInstr p) \<le> unat a \<and> pl_map64 p' = pl_map64 p \<and> pl_map128 p' = pl_map128 p"
  proof cases
    case aligned
    then show ?thesis using ok by simp
  next
    case pad
    have lo: "unat (pl_start p) \<le> unat ?a" using parts(2) up(2) by (simp add: pool_code_def)
    have "length ?bs \<le> unat ?a - unat (pl_nextInstr p)"
      using up(2) nops by (simp add: unat_sub_if_size)
    then have "unat (pl_nextInstr p) + length ?bs \<le> unat (pl_start p) + 4096" using up(1,2) by linarith
    from pool_ok_code[OF ok lo up(1) this] up show ?thesis unfolding pad by simp
  qed
  then show "pool_ok p'" "const_at p b cs \<Longrightarrow> const_at p' b cs" "unat a mod 16 = 0"
    "unat (pl_nextInstr p) \<le> unat a" "pl_map64 p' = pl_map64 p" "pl_map128 p' = pl_map128 p"
    by simp_all
qed

end
