(* ===== verification/Pool_Steps.thy ===== *)
theory Pool_Steps
  imports Binary_Pool_Sound
begin

text \<open>
  The pool as a state machine: what the code generator does to it between two resets, the
  resets, the states reached from a fresh pool, and the interface the passes rely on when they
  put a constant into memory.
\<close>

section \<open>Resets\<close>

lemma os_okD:
  assumes "os_ok os"
  shows "os pr (Some a) n = a \<Longrightarrow> a \<noteq> - 1 \<Longrightarrow> unat a mod 4096 = 0"
    and "os pr None n \<noteq> - 1 \<Longrightarrow> os pr None n \<noteq> 0 \<and> unat (os pr None n) mod 4096 = 0 \<and>
      unat (os pr None n) + unat n < 2 ^ 64"
  using assms unfolding os_ok_def by metis+

lemma resetCodePool_ok:
  assumes ar: "pool_area p" and r: "resetCodePool os p = Some p'"
  obtains m where "p' = p\<lparr>pl_instrPage := pl_start p, pl_nextInstr := pl_start p, pl_mem := m\<rparr>" and "pool_code p'"
    and "pool_code p \<Longrightarrow> m = fresh (pl_start p) page_size (pl_mem p)"
proof -
  have nz: "pl_start p \<noteq> 0" using ar by (simp add: pool_area_def)
  have twice: "fresh a n (fresh a n f) = fresh a n f" for a n f by (rule ext) (simp add: fresh_def)
  let ?m = "fresh (pl_start p) page_size (if pl_instrPage p \<noteq> 0
    then fresh (pl_start p) (pl_instrPage p + page_size - pl_start p) (pl_mem p) else pl_mem p)"
  have p': "p' = p\<lparr>pl_instrPage := pl_start p, pl_nextInstr := pl_start p, pl_mem := ?m\<rparr>"
    using r by (auto simp: resetCodePool_def Let_def drob_assert_def split: bind_splits if_splits)
  show ?thesis
    by (rule that[OF p']) (use nz in \<open>simp_all add: p' pool_code_def twice\<close>)
qed

lemma const_top:
  assumes "pool_area p"
  shows "unat (pl_start p + pl_size p - page_size) = unat (pl_start p) + unat (pl_size p) - 4096"
    and "unat (pl_start p + pl_size p - page_size + page_size - 1) = unat (pl_start p) + unat (pl_size p) - 1"
proof -
  have s: "unat (pl_start p + pl_size p) = unat (pl_start p) + unat (pl_size p)"
    using assms by (simp add: pool_area_def unat_word_ariths)
  have "4096 \<le> unat (pl_start p) + unat (pl_size p)" using assms by (simp add: pool_area_def)
  then show "unat (pl_start p + pl_size p - page_size) = unat (pl_start p) + unat (pl_size p) - 4096"
    "unat (pl_start p + pl_size p - page_size + page_size - 1) = unat (pl_start p) + unat (pl_size p) - 1"
    using s by (simp_all add: unat_sub_if_size)
qed

lemma resetConstantPool_ok:
  assumes ar: "pool_area p" and r: "resetConstantPool os p = Some p'"
  obtains m where "p' = p\<lparr>pl_constPage := pl_start p + pl_size p - page_size,
      pl_nextConst := pl_start p + pl_size p - page_size + page_size - 1, pl_map64 := Map.empty, pl_map128 := Map.empty,
      pl_mem := m\<rparr>"
    and "pool_const p'" and "pool_maps p'"
proof -
  let ?m = "fresh (pl_start p + pl_size p - page_size) page_size (if pl_constPage p \<noteq> 0
    then fresh (pl_constPage p) (pl_start p + pl_size p - pl_constPage p) (pl_mem p) else pl_mem p)"
  have p': "p' = p\<lparr>pl_constPage := pl_start p + pl_size p - page_size,
      pl_nextConst := pl_start p + pl_size p - page_size + page_size - 1, pl_map64 := Map.empty, pl_map128 := Map.empty,
      pl_mem := ?m\<rparr>"
    using r by (auto simp: resetConstantPool_def Let_def drob_assert_def split: bind_splits if_splits)
  moreover have "pool_const p'" unfolding pool_const_def p'
    using const_top[OF ar] ar by (simp add: pool_area_def)
  moreover have "pool_maps p'" by (simp add: p' pool_maps_def)
  ultimately show ?thesis by (rule that)
qed

text \<open>The first page is in front of the constants.\<close>

lemma const_at_fresh_code:
  assumes ok: "pool_ok p" and c: "const_at p a bs"
  shows "const_at (p\<lparr>pl_mem := fresh (pl_start p) page_size (pl_mem p)\<rparr>) a bs"
proof -
  note P = pool_okD[OF ok, unfolded pool_area_def pool_const_def]
  have "unat (pl_start p) + 4096 \<le> unat (a + of_nat i)" if "i < length bs" for i
  proof -
    have "unat (a + of_nat i) = unat a + i"
      using c P that by (auto simp: const_at_def unat_word_ariths unat_of_nat)
    then show ?thesis using c P by (auto simp: const_at_def)
  qed
  then have "fresh (pl_start p) page_size (pl_mem p) (a + of_nat i) = pl_mem p (a + of_nat i)" if "i < length bs" for i
    using that by (fastforce simp: fresh_def unat_sub_if_size)
  then show ?thesis using c by (simp add: const_at_def list_all_iff)
qed

lemma resets_keep_ok:
  assumes "pool_ok p"
  shows "resetCodePool os p = Some p' \<Longrightarrow> pool_ok p'"
    and "resetConstantPool os p = Some p' \<Longrightarrow> pool_ok p'"
    and "resetCodePool os p = Some p' \<Longrightarrow> const_at p a bs \<Longrightarrow> const_at p' a bs"
    and "resetCodePool os p = Some p' \<Longrightarrow> pl_map64 p' = pl_map64 p \<and> pl_map128 p' = pl_map128 p"
    and "resetCodePool os p = Some p' \<Longrightarrow> pl_start p' = pl_start p \<and> pl_nextInstr p' = pl_start p"
proof -
  note parts = pool_okD[OF assms]
  {
    assume r: "resetCodePool os p = Some p'"
    obtain m where c: "p' = p\<lparr>pl_instrPage := pl_start p, pl_nextInstr := pl_start p, pl_mem := m\<rparr>" "pool_code p'"
      "m = fresh (pl_start p) page_size (pl_mem p)"
      using resetCodePool_ok[OF parts(1) r] parts(2) by metis
    have kept: "const_at p' a bs" if "const_at p a bs" for a bs
      using const_at_fresh_code[OF assms that] by (simp add: c(1,3) const_at_def)
    have "pool_area p'" using parts(1) by (simp add: c(1) pool_area_def)
    moreover have "pool_const p'" using parts(3) by (simp add: c(1) pool_const_def)
    moreover have "pool_maps p'" using parts(4) kept by (simp add: pool_maps_def c(1))
    ultimately show "pool_ok p'" using c(2) by (simp add: pool_ok_def)
    show "const_at p a bs \<Longrightarrow> const_at p' a bs" by (rule kept)
    show "pl_map64 p' = pl_map64 p \<and> pl_map128 p' = pl_map128 p" by (simp add: c(1))
    show "pl_start p' = pl_start p \<and> pl_nextInstr p' = pl_start p" by (simp add: c(1))
  next
    assume r: "resetConstantPool os p = Some p'"
    show "pool_ok p'"
      by (rule resetConstantPool_ok[OF parts(1) r])
        (use parts(1,2) in \<open>simp add: pool_ok_def pool_area_def pool_code_def\<close>)
  }
qed

lemma newPool_ok:
  assumes os: "os_ok os" and n: "newPool os mem sz = Some p"
  shows "pool_ok p"
proof -
  let ?p0 = "\<lparr>pl_start = os ProtNone None sz, pl_size = sz, pl_instrPage = 0, pl_nextInstr = 0,
    pl_constPage = 0, pl_nextConst = 0, pl_map64 = Map.empty, pl_map128 = Map.empty, pl_mem = mem\<rparr>"
  from n obtain p1 where al: "is_aligned sz (2 ^ 12)" "sz \<le> 2 ^ 31" "2 * page_size \<le> sz"
      "os ProtNone None sz \<noteq> - 1"
    and p1: "resetCodePool os ?p0 = Some p1" and p: "resetConstantPool os p1 = Some p"
    by (auto simp: newPool_def Let_def drob_assert_def not_less split: bind_splits if_splits)
  have "unat sz mod 4096 = 0" using al(1) is_aligned_unat[of 12 sz] by simp
  moreover have "8192 \<le> unat sz" "unat sz \<le> 2 ^ 31" using al(2,3) by (simp_all add: word_le_nat_alt)
  ultimately have ar: "pool_area ?p0"
    using os_okD(2)[OF os al(4)] by (simp add: pool_area_def)
  obtain m where c1: "p1 = ?p0\<lparr>pl_instrPage := pl_start ?p0, pl_nextInstr := pl_start ?p0, pl_mem := m\<rparr>" "pool_code p1"
    by (rule resetCodePool_ok[OF ar p1])
  have ar1: "pool_area p1" using ar by (simp add: c1(1) pool_area_def)
  show ?thesis
    by (rule resetConstantPool_ok[OF ar1 p]) (use ar1 c1(2) in \<open>simp add: pool_ok_def pool_area_def pool_code_def\<close>)
qed

section \<open>The constants\<close>

lemma const_at_new_const [simp]:
  "const_at (q\<lparr>pl_map64 := m\<rparr>) a bs = const_at q a bs"
  "const_at (q\<lparr>pl_map128 := m'\<rparr>) a bs = const_at q a bs"
  by (simp_all add: const_at_def)

lemma allocConstant64_ok:
  assumes os: "os_ok os" and ok: "pool_ok p" and al: "allocConstant64 os v p = Some (a, p')"
  shows "pool_ok p'" and "const_at p' a (le_bytes 8 v)" and "pl_map64 p' v = Some a"
    and "const_at p b bs \<Longrightarrow> const_at p' b bs"
    and "pl_map64 p w = Some b \<Longrightarrow> pl_map64 p' w = Some b" and "pl_map128 p' = pl_map128 p"
    and "pl_nextInstr p' = pl_nextInstr p"
proof -
  have "pool_ok p' \<and> const_at p' a (le_bytes 8 v) \<and> pl_map64 p' v = Some a \<and>
    (const_at p b bs \<longrightarrow> const_at p' b bs) \<and> (pl_map64 p w = Some b \<longrightarrow> pl_map64 p' w = Some b) \<and>
    pl_map128 p' = pl_map128 p \<and> pl_nextInstr p' = pl_nextInstr p"
  proof (cases "pl_map64 p v")
    case None
    with al obtain q where q: "allocBytes os (le_bytes 8 v) p = Some (a, q)"
      and p': "p' = q\<lparr>pl_map64 := (pl_map64 q)(v \<mapsto> a)\<rparr>"
      by (auto simp: allocConstant64_def split: bind_splits)
    have "const_size (length (le_bytes 8 v))" by simp
    note B = allocBytes_ok[OF os ok this q]
    have "pool_ok p'" using pool_ok_new_const[OF B(1,2)] by (simp add: p')
    then show ?thesis using B(2,4,5,6,7) None by (auto simp: p')
  next
    case (Some c)
    then show ?thesis using al ok pool_okD(4)[OF ok] by (auto simp: allocConstant64_def pool_maps_def)
  qed
  then show "pool_ok p'" "const_at p' a (le_bytes 8 v)" "pl_map64 p' v = Some a"
    "const_at p b bs \<Longrightarrow> const_at p' b bs" "pl_map64 p w = Some b \<Longrightarrow> pl_map64 p' w = Some b"
    "pl_map128 p' = pl_map128 p" "pl_nextInstr p' = pl_nextInstr p"
    by simp_all
qed

lemma allocConstant128_ok:
  assumes os: "os_ok os" and ok: "pool_ok p" and al: "allocConstant128 os v p = Some (a, p')"
  shows "pool_ok p'" and "const_at p' a (le_bytes 16 v)" and "pl_map128 p' v = Some a"
    and "const_at p b bs \<Longrightarrow> const_at p' b bs"
    and "pl_map128 p w = Some b \<Longrightarrow> pl_map128 p' w = Some b" and "pl_map64 p' = pl_map64 p"
    and "pl_nextInstr p' = pl_nextInstr p"
proof -
  have "pool_ok p' \<and> const_at p' a (le_bytes 16 v) \<and> pl_map128 p' v = Some a \<and>
    (const_at p b bs \<longrightarrow> const_at p' b bs) \<and> (pl_map128 p w = Some b \<longrightarrow> pl_map128 p' w = Some b) \<and>
    pl_map64 p' = pl_map64 p \<and> pl_nextInstr p' = pl_nextInstr p"
  proof (cases "pl_map128 p v")
    case None
    with al obtain q where q: "allocBytes os (le_bytes 16 v) p = Some (a, q)"
      and p': "p' = q\<lparr>pl_map128 := (pl_map128 q)(v \<mapsto> a)\<rparr>"
      by (auto simp: allocConstant128_def split: bind_splits)
    have "const_size (length (le_bytes 16 v))" by simp
    note B = allocBytes_ok[OF os ok this q]
    have "pool_ok p'" using pool_ok_new_const128[OF B(1,2)] by (simp add: p')
    then show ?thesis using B(2,4,5,6,7) None by (auto simp: p')
  next
    case (Some c)
    then show ?thesis using al ok pool_okD(4)[OF ok] by (auto simp: allocConstant128_def pool_maps_def)
  qed
  then show "pool_ok p'" "const_at p' a (le_bytes 16 v)" "pl_map128 p' v = Some a"
    "const_at p b bs \<Longrightarrow> const_at p' b bs" "pl_map128 p w = Some b \<Longrightarrow> pl_map128 p' w = Some b"
    "pl_map64 p' = pl_map64 p" "pl_nextInstr p' = pl_nextInstr p"
    by simp_all
qed

section \<open>Steps\<close>

text \<open>
  What happens to the pool between two resets of the constants; \<open>resetConstantPool\<close>, which
  forgets them, is a step of \<open>pool_reachable\<close> below and not of this relation. Code is written to
  the address it was given; a single x86 instruction has at most 15 bytes.
\<close>

inductive pool_step :: "mmap_fn \<Rightarrow> (nat \<Rightarrow> byte list) \<Rightarrow> pool \<Rightarrow> pool \<Rightarrow> bool" for os nops where
  code: "allocCode os (of_nat (length bs)) p = Some (a, q) \<Longrightarrow> bs \<noteq> [] \<Longrightarrow> length bs \<le> 15 \<Longrightarrow>
    pool_step os nops p (q\<lparr>pl_mem := write_bytes a bs (pl_mem q)\<rparr>)"
| block: "newBlock nops w p = (a, q) \<Longrightarrow> pool_step os nops p q"
| const64: "allocConstant64 os v p = Some (a, q) \<Longrightarrow> pool_step os nops p q"
| const128: "allocConstant128 os x p = Some (a, q) \<Longrightarrow> pool_step os nops p q"
| const32: "allocConstant32 os d p = Some (a, q) \<Longrightarrow> pool_step os nops p q"
| const16: "allocConstant16 os h p = Some (a, q) \<Longrightarrow> pool_step os nops p q"
| const8: "allocConstant8 os b p = Some (a, q) \<Longrightarrow> pool_step os nops p q"
| again: "resetCodePool os p = Some q \<Longrightarrow> pool_step os nops p q"

inductive_cases pool_stepE: "pool_step os nops p q"

inductive pool_run :: "mmap_fn \<Rightarrow> (nat \<Rightarrow> byte list) \<Rightarrow> pool \<Rightarrow> pool \<Rightarrow> bool" for os nops p where
  stop: "pool_run os nops p p"
| more: "pool_run os nops p q \<Longrightarrow> pool_step os nops q r \<Longrightarrow> pool_run os nops p r"

inductive pool_reachable :: "mmap_fn \<Rightarrow> (nat \<Rightarrow> byte list) \<Rightarrow> pool \<Rightarrow> bool" for os nops where
  new: "newPool os mem sz = Some p \<Longrightarrow> pool_reachable os nops p"
| step: "pool_reachable os nops p \<Longrightarrow> pool_step os nops p q \<Longrightarrow> pool_reachable os nops q"
| reset: "pool_reachable os nops p \<Longrightarrow> resetConstantPool os p = Some q \<Longrightarrow> pool_reachable os nops q"

abbreviation nops_ok :: "(nat \<Rightarrow> byte list) \<Rightarrow> bool" where
  "nops_ok nops \<equiv> \<forall>n. length (nops n) = n"

definition pool_kept :: "pool \<Rightarrow> pool \<Rightarrow> bool" where
  "pool_kept p q \<longleftrightarrow> pool_ok q \<and> (\<forall>a bs. const_at p a bs \<longrightarrow> const_at q a bs) \<and>
     (\<forall>v a. pl_map64 p v = Some a \<longrightarrow> pl_map64 q v = Some a) \<and>
     (\<forall>v a. pl_map128 p v = Some a \<longrightarrow> pl_map128 q v = Some a)"

lemma pool_kept_trans: "pool_kept p q \<Longrightarrow> pool_kept q r \<Longrightarrow> pool_kept p r"
  by (simp add: pool_kept_def)

lemma allocCode_kept:
  assumes os: "os_ok os" and ok: "pool_ok p" and bs: "bs \<noteq> []" "length bs \<le> 15"
    and al: "allocCode os (of_nat (length bs)) p = Some (a, q)"
  shows "pool_kept p (q\<lparr>pl_mem := write_bytes a bs (pl_mem q)\<rparr>)"
    and "a = pl_nextInstr p" and "unat a + length bs \<le> unat (pl_start p) + 4096"
proof -
  note parts = pool_okD[OF ok]
  have n: "unat (of_nat (length bs) :: u64) = length bs" using bs by (simp add: unat_of_nat)
  have "0 < unat (of_nat (length bs) :: u64)" "unat (of_nat (length bs) :: u64) \<le> 4096"
    using bs unfolding n by auto
  note R = allocCode_result[OF os parts(1,2) this, unfolded n]
  then have fits: "unat (pl_nextInstr p) + length bs \<le> unat (pl_start p) + 4096" and a: "a = pl_nextInstr p"
    and q: "q = p\<lparr>pl_nextInstr := pl_nextInstr p + of_nat (length bs)\<rparr>"
    using al by (auto split: if_splits)
  have up: "unat (pl_nextInstr p + of_nat (length bs)) = unat (pl_nextInstr p) + length bs"
    using fits parts(1) n by (simp add: pool_area_def unat_word_ariths)
  then have "unat (pl_start p) \<le> unat (pl_nextInstr p + of_nat (length bs))"
    using parts(2) by (simp add: pool_code_def)
  note C = pool_ok_code[OF ok this _ fits, unfolded up, OF fits]
  have "q\<lparr>pl_mem := write_bytes a bs (pl_mem q)\<rparr> = p\<lparr>pl_mem := write_bytes (pl_nextInstr p) bs (pl_mem p),
      pl_nextInstr := pl_nextInstr p + of_nat (length bs)\<rparr>"
    by (simp add: q a)
  then show "pool_kept p (q\<lparr>pl_mem := write_bytes a bs (pl_mem q)\<rparr>)"
    using C by (simp add: pool_kept_def)
  show "a = pl_nextInstr p" by (rule a)
  show "unat a + length bs \<le> unat (pl_start p) + 4096" using fits a by simp
qed

lemma small_const_kept:
  assumes "os_ok os" and "pool_ok p" and "const_size (length bs)" and "allocBytes os bs p = Some (a, q)"
  shows "pool_kept p q"
  using allocBytes_ok[OF assms] by (simp add: pool_kept_def)

lemma pool_step_kept:
  assumes os: "os_ok os" and nops: "nops_ok nops" and st: "pool_step os nops p q" and ok: "pool_ok p"
  shows "pool_kept p q"
  using st
proof cases
  case (code bs a r)
  then show ?thesis using allocCode_kept(1)[OF os ok] by simp
next
  case (block w a)
  then show ?thesis using newBlock_ok[OF ok _ block] nops by (simp add: pool_kept_def)
next
  case (const64 v a)
  then show ?thesis using allocConstant64_ok[OF os ok const64] by (simp add: pool_kept_def)
next
  case (const128 v a)
  then show ?thesis using allocConstant128_ok[OF os ok const128] by (simp add: pool_kept_def)
next
  case again
  then show ?thesis using resets_keep_ok[OF ok] by (simp add: pool_kept_def)
qed (auto simp: allocConstant32_def allocConstant16_def allocConstant8_def const_size_def
    intro!: small_const_kept[OF os ok])

lemma pool_run_kept:
  assumes os: "os_ok os" and nops: "nops_ok nops" and st: "pool_run os nops p q" and ok: "pool_ok p"
  shows "pool_kept p q"
  using st
proof induction
  case stop
  then show ?case using ok by (simp add: pool_kept_def)
next
  case (more q r)
  then have "pool_ok q" by (simp add: pool_kept_def)
  then show ?case using pool_kept_trans[OF more.IH] pool_step_kept[OF os nops more.hyps(2)] by simp
qed

lemma pool_reachable_ok:
  assumes os: "os_ok os" and nops: "nops_ok nops" and r: "pool_reachable os nops p"
  shows "pool_ok p"
  using r
proof induction
  case (new mem sz p)
  then show ?case by (rule newPool_ok[OF os])
next
  case (step p q)
  then show ?case using pool_step_kept[OF os nops] by (auto simp: pool_kept_def)
next
  case (reset p q)
  then show ?case using resets_keep_ok(2) by blast
qed

section \<open>The interface of the constants\<close>

text \<open>
  What a pass relies on when it replaces an operand by a constant in memory: the address it
  gets holds the value, it is the same one when the value is asked for again, and neither
  changes when other constants follow.
\<close>

fun alloc_list :: "('v \<Rightarrow> 's \<Rightarrow> ('a \<times> 's) option) \<Rightarrow> 'v list \<Rightarrow> 's \<Rightarrow> ('a list \<times> 's) option" where
  "alloc_list alloc [] s = Some ([], s)"
| "alloc_list alloc (v # vs) s =
     do { (a, s) \<leftarrow> alloc v s;
          (as, s) \<leftarrow> alloc_list alloc vs s;
          Some (a # as, s) }"

locale constant_pool =
  fixes ok :: "'s \<Rightarrow> bool"
    and alloc :: "'v \<Rightarrow> 's \<Rightarrow> ('a \<times> 's) option"
    and holds :: "'s \<Rightarrow> 'a \<Rightarrow> 'v \<Rightarrow> bool"
  assumes alloc_ok: "ok s \<Longrightarrow> alloc v s = Some (a, t) \<Longrightarrow> ok t"
    and alloc_holds: "ok s \<Longrightarrow> alloc v s = Some (a, t) \<Longrightarrow> holds t a v"
    and alloc_again: "ok s \<Longrightarrow> alloc v s = Some (a, t) \<Longrightarrow> alloc v t = Some (a, t)"
    and others_hold: "ok s \<Longrightarrow> alloc v s = Some (a, t) \<Longrightarrow> holds s b w \<Longrightarrow> holds t b w"
    and others_again: "ok s \<Longrightarrow> alloc v s = Some (a, t) \<Longrightarrow> alloc w s = Some (b, s) \<Longrightarrow> alloc w t = Some (b, t)"
    and one_value: "holds s a v \<Longrightarrow> holds s a w \<Longrightarrow> v = w"
begin

lemma list_keeps:
  assumes "ok s" and "alloc_list alloc vs s = Some (as, t)"
  shows "ok t" and "holds s b w \<Longrightarrow> holds t b w" and "alloc w s = Some (b, s) \<Longrightarrow> alloc w t = Some (b, t)"
proof -
  have "ok t \<and> (holds s b w \<longrightarrow> holds t b w) \<and> (alloc w s = Some (b, s) \<longrightarrow> alloc w t = Some (b, t))"
    using assms
  proof (induction vs arbitrary: s as)
    case (Cons v vs)
    then obtain a s1 bs where a: "alloc v s = Some (a, s1)" and rest: "alloc_list alloc vs s1 = Some (bs, t)"
      by (auto split: bind_splits)
    show ?case
      using Cons.IH[OF alloc_ok[OF Cons.prems(1) a] rest] others_hold[OF Cons.prems(1) a]
        others_again[OF Cons.prems(1) a] by blast
  qed simp
  then show "ok t" "holds s b w \<Longrightarrow> holds t b w" "alloc w s = Some (b, s) \<Longrightarrow> alloc w t = Some (b, t)"
    by simp_all
qed

lemma list_holds:
  "ok s \<Longrightarrow> alloc_list alloc vs s = Some (as, t) \<Longrightarrow>
    list_all2 (\<lambda>v a. holds t a v \<and> alloc v t = Some (a, t)) vs as"
proof (induction vs arbitrary: s as)
  case (Cons v vs)
  then obtain a s1 bs where a: "alloc v s = Some (a, s1)" and rest: "alloc_list alloc vs s1 = Some (bs, t)"
    and as: "as = a # bs"
    by (auto split: bind_splits)
  note s1 = alloc_ok[OF Cons.prems(1) a]
  have "holds t a v" by (rule list_keeps(2)[OF s1 rest alloc_holds[OF Cons.prems(1) a]])
  moreover have "alloc v t = Some (a, t)" by (rule list_keeps(3)[OF s1 rest alloc_again[OF Cons.prems(1) a]])
  ultimately show ?case using Cons.IH[OF s1 rest] by (simp add: as)
qed simp

text \<open>Equal values share an address and different ones do not.\<close>

lemma list_shares:
  assumes "ok s" and "alloc_list alloc vs s = Some (as, t)" and "i < length vs" "j < length vs"
  shows "as ! i = as ! j \<longleftrightarrow> vs ! i = vs ! j"
proof -
  note L = list_holds[OF assms(1,2)]
  have "holds t (as ! i) (vs ! i)" "holds t (as ! j) (vs ! j)"
    "alloc (vs ! i) t = Some (as ! i, t)" "alloc (vs ! j) t = Some (as ! j, t)"
    using list_all2_nthD[OF L assms(3)] list_all2_nthD[OF L assms(4)] by simp_all
  then show ?thesis using one_value by auto
qed

end

lemma const_at_inj:
  assumes "const_at p a (le_bytes n (v :: 'a :: len word))" and "const_at p a (le_bytes n w)"
    and "LENGTH('a) \<le> 8 * n"
  shows "v = w"
proof -
  have "le_bytes n v = le_bytes n w"
    by (rule nth_equalityI) (use assms(1,2) in \<open>auto simp: const_at_def list_all_iff\<close>)
  then have "(le_word (le_bytes n v) :: 'a word) = le_word (le_bytes n w)" by simp
  then show ?thesis using assms(3) by (simp add: le_word_le_bytes)
qed

interpretation c64: constant_pool "\<lambda>p. os_ok os \<and> pool_ok p" "allocConstant64 os"
  "\<lambda>p a v. const_at p a (le_bytes 8 v)" for os
proof (unfold_locales, goal_cases)
  case (3 s v a t)
  then show ?case using allocConstant64_ok(3) by (auto simp: allocConstant64_def)
next
  case (4 s v a t b w)
  then show ?case using allocConstant64_ok(4)[of os s v a t b] by blast
next
  case (5 s v a t w b)
  then have "pl_map64 s w = Some b"
    using allocConstant64_ok(3)[of os s w b s] by simp
  then show ?case using 5 allocConstant64_ok(5) by (auto simp: allocConstant64_def[of os w])
next
  case (6 s a v w)
  then show ?case by (rule const_at_inj) simp
qed (use allocConstant64_ok in blast)+

interpretation c128: constant_pool "\<lambda>p. os_ok os \<and> pool_ok p" "allocConstant128 os"
  "\<lambda>p a v. const_at p a (le_bytes 16 v)" for os
proof (unfold_locales, goal_cases)
  case (3 s v a t)
  then show ?case using allocConstant128_ok(3) by (auto simp: allocConstant128_def)
next
  case (4 s v a t b w)
  then show ?case using allocConstant128_ok(4)[of os s v a t b] by blast
next
  case (5 s v a t w b)
  then have "pl_map128 s w = Some b"
    using allocConstant128_ok(3)[of os s w b s] by simp
  then show ?case using 5 allocConstant128_ok(5) by (auto simp: allocConstant128_def[of os w])
next
  case (6 s a v w)
  then show ?case by (rule const_at_inj) simp
qed (use allocConstant128_ok in blast)+

end
