(* ===== verification/Spec_Rules.thy ===== *)
theory Spec_Rules
  imports Specialize Processor Pool_Steps Emulator_Sound
begin

text \<open>
  The rewriting rules behind the specialization: what may replace an instruction when the value
  of an operand or of the result is known, which instructions may go, and that every rule keeps
  the effect on the processor and gives the new opcode operands of the form it asks for.
\<close>

section \<open>Known values\<close>

text \<open>The configuration's known pointers have the values the machine has.\<close>

definition cfg_base :: "rw_env \<Rightarrow> base \<Rightarrow> bool" where
  "cfg_base cfg base \<longleftrightarrow>
     (\<forall>i < length (env_usrPtrs cfg). up_isKnown (env_usrPtrs cfg ! i) \<longrightarrow>
        (\<forall>nr. unat nr = i \<longrightarrow> base UsrPtr nr = up_val (env_usrPtrs cfg ! i)))"

definition knows :: "rw_env \<Rightarrow> dyn_value \<Rightarrow> nat \<Rightarrow> 'a::len word \<Rightarrow> bool" where
  "knows cfg v n w \<longleftrightarrow>
     (\<forall>base bs. cfg_base cfg base \<longrightarrow> bytes_conc base v bs \<longrightarrow> length bs = n \<longrightarrow> bs = le_bytes n w)"

lemma knowsD: "knows cfg v n w \<Longrightarrow> cfg_base cfg base \<Longrightarrow> bytes_conc base v bs \<Longrightarrow> length bs = n \<Longrightarrow> bs = le_bytes n w"
  by (simp add: knows_def)

lemma knows_getImm:
  assumes g: "getImm v cfg = Some (Some imm)" and n: "n \<le> 8"
  shows "knows cfg v n (i64_val imm)"
proof (cases v)
  case (Ptr k nr off)
  then have k: "k = UsrPtr" "unat nr < length (env_usrPtrs cfg)" "up_isKnown (env_usrPtrs cfg ! unat nr)"
    and i: "i64_val imm = up_val (env_usrPtrs cfg ! unat nr) + off"
    using g by (auto simp: getImm_def dyn_simps getUsrPtrCfg_def split: if_splits)
  have "bs = le_bytes n (i64_val imm)"
    if "cfg_base cfg base" "bytes_conc base v bs" "length bs = n" for base bs
  proof -
    have w: "length bs = 8" "(le_word bs :: u64) = base UsrPtr nr + off"
      using that(2) Ptr k by (auto simp: bytes_conc_def)
    moreover have "base UsrPtr nr = up_val (env_usrPtrs cfg ! unat nr)"
      using that(1) k by (simp add: cfg_base_def)
    ultimately have "(le_word bs :: u64) = i64_val imm" using i by simp
    then show ?thesis using le_bytes_le_word[of bs 8, where 'a = 64] w that(3) by simp
  qed
  then show ?thesis by (simp add: knows_def)
qed (use g in \<open>auto simp: getImm_def dyn_simps knows_def bytes_conc_def plain_imm_def split: if_splits\<close>)

lemma knows_imm64: "isImm v \<Longrightarrow> n \<le> 8 \<Longrightarrow> knows cfg v n (getImm64 v)"
  by (cases v) (auto simp: knows_def bytes_conc_def dyn_simps le_bytes_ucast)

lemma knows_imm128: "isImm v \<Longrightarrow> n \<le> 16 \<Longrightarrow> knows cfg v n (getImm128 v)"
  by (cases v) (auto simp: knows_def bytes_conc_def dyn_simps le_bytes_ucast)

definition input_knows :: "spec_ctx \<Rightarrow> nat \<Rightarrow> nat \<Rightarrow> 'a::len word \<Rightarrow> bool" where
  "input_knows c i n w \<longleftrightarrow> (\<exists>v. op_input c i = Some v \<and> knows (sc_env c) v n w)"

definition output_knows :: "spec_ctx \<Rightarrow> nat \<Rightarrow> 'a::len word \<Rightarrow> bool" where
  "output_knows c n w \<longleftrightarrow> (\<exists>v. op_output c 0 = Some v \<and> knows (sc_env c) v n w)"

lemma input_knowsI:
  "known_input c i = Some (Some imm) \<Longrightarrow> n \<le> 8 \<Longrightarrow> input_knows c i n (i64_val imm)"
  "op_input c i = Some v \<Longrightarrow> isImm v \<Longrightarrow> n \<le> 8 \<Longrightarrow> input_knows c i n (getImm64 v)"
  "op_input c i = Some v \<Longrightarrow> isImm v \<Longrightarrow> n \<le> 16 \<Longrightarrow> input_knows c i n (getImm128 v)"
  by (auto simp: input_knows_def known_input_def bind_eq_Some_conv
      intro: knows_getImm knows_imm64 knows_imm128)

lemma output_knowsI:
  "known_output c 0 = Some (Some imm) \<Longrightarrow> n \<le> 8 \<Longrightarrow> output_knows c n (i64_val imm)"
  "op_output c 0 = Some v \<Longrightarrow> isImm v \<Longrightarrow> n \<le> 8 \<Longrightarrow> output_knows c n (getImm64 v)"
  "op_output c 0 = Some v \<Longrightarrow> isImm v \<Longrightarrow> n \<le> 16 \<Longrightarrow> output_knows c n (getImm128 v)"
  by (auto simp: output_knows_def known_output_def bind_eq_Some_conv
      intro: knows_getImm knows_imm64 knows_imm128)

section \<open>Forms of an opcode\<close>

text \<open>With an immediate for operand 1: the opcode, the immediate's type, the operand's size.\<close>

fun imm_form :: "opcode \<Rightarrow> (opcode \<times> operand_type \<times> nat) option" where
  "imm_form (Add opc) =
     (if opc = ADD64mr then Some (Add ADD64mi, OtSignedImmediate32, 8)
      else if opc \<in> {ADD64rr, ADD64rm} then Some (Add ADD64ri, OtSignedImmediate32, 8) else None)"
| "imm_form (Cmp opc) =
     (if opc = CMP8mr then Some (Cmp CMP8mi, OtImmediate8, 1)
      else if opc \<in> {CMP8rr, CMP8rm} then Some (Cmp CMP8ri, OtImmediate8, 1)
      else if opc = CMP16mr then Some (Cmp CMP16mi, OtImmediate16, 2)
      else if opc \<in> {CMP16rr, CMP16rm} then Some (Cmp CMP16ri, OtImmediate16, 2)
      else if opc = CMP32mr then Some (Cmp CMP32mi, OtImmediate32, 4)
      else if opc \<in> {CMP32rr, CMP32rm} then Some (Cmp CMP32ri, OtImmediate32, 4)
      else if opc = CMP64mr then Some (Cmp CMP64mi, OtSignedImmediate32, 8)
      else if opc \<in> {CMP64rr, CMP64rm} then Some (Cmp CMP64ri, OtSignedImmediate32, 8) else None)"
| "imm_form (Mov opc) =
     (if opc = MOV32mr then Some (Mov MOV32mi, OtImmediate32, 4)
      else if opc \<in> {MOV32rr, MOV32rm} then Some (Mov MOV32ri, OtImmediate32, 4)
      else if opc = MOV64mr then Some (Mov MOV64mi, OtSignedImmediate32, 8)
      else if opc \<in> {MOV64rr, MOV64rm} then Some (Mov MOV64ri, OtImmediate64, 8) else None)"
| "imm_form (Test opc) =
     (if opc = TEST8mr then Some (Test TEST8mi, OtImmediate8, 1)
      else if opc = TEST8rr then Some (Test TEST8ri, OtImmediate8, 1)
      else if opc = TEST16mr then Some (Test TEST16mi, OtImmediate16, 2)
      else if opc = TEST16rr then Some (Test TEST16ri, OtImmediate16, 2)
      else if opc = TEST32mr then Some (Test TEST32mi, OtImmediate32, 4)
      else if opc = TEST32rr then Some (Test TEST32ri, OtImmediate32, 4)
      else if opc = TEST64mr then Some (Test TEST64mi, OtSignedImmediate32, 8)
      else if opc = TEST64rr then Some (Test TEST64ri, OtSignedImmediate32, 8) else None)"
| "imm_form (Xor opc) =
     (if opc = XOR32mr then Some (Xor XOR32mi, OtImmediate32, 4)
      else if opc \<in> {XOR32rr, XOR32rm} then Some (Xor XOR32ri, OtImmediate32, 4)
      else if opc = XOR64mr then Some (Xor XOR64mi, OtSignedImmediate32, 8)
      else if opc \<in> {XOR64rr, XOR64rm} then Some (Xor XOR64ri, OtSignedImmediate32, 8) else None)"
| "imm_form (Shift opc) =
     (if opc = SHL64m then Some (Shift SHL64mi, OtImmediate8, 1)
      else if opc = SHL64r then Some (Shift SHL64ri, OtImmediate8, 1)
      else if opc = SHR64m then Some (Shift SHR64mi, OtImmediate8, 1)
      else if opc = SHR64r then Some (Shift SHR64ri, OtImmediate8, 1) else None)"
| "imm_form _ = None"

text \<open>With a constant in memory for operand 1, and the constant's size.\<close>

fun mem_form :: "opcode \<Rightarrow> (opcode \<times> nat) option" where
  "mem_form (Add opc) = (if opc \<in> {ADD64rr, ADD64rm} then Some (Add ADD64rm, 8) else None)"
| "mem_form (Cmp opc) = (if opc \<in> {CMP64rr, CMP64rm} then Some (Cmp CMP64rm, 8) else None)"
| "mem_form (Xor opc) = (if opc \<in> {XOR64rr, XOR64rm} then Some (Xor XOR64rm, 8) else None)"
| "mem_form (Sse opc) =
     (if opc \<in> {ADDSDrr, ADDSDrm} then Some (Sse ADDSDrm, 8)
      else if opc \<in> {MULSDrr, MULSDrm} then Some (Sse MULSDrm, 8)
      else if opc \<in> {ADDPDrr, ADDPDrm} then Some (Sse ADDPDrm, 16)
      else if opc \<in> {MULPDrr, MULPDrm} then Some (Sse MULPDrm, 16)
      else if opc \<in> {PXOR128rr, PXOR128rm} then Some (Sse PXOR128rm, 16) else None)"
| "mem_form _ = None"

text \<open>
  A move of the known result: to a register or to memory as an immediate, or from a constant;
  with whether the opcode sets the flags.
\<close>

fun result_move :: "opcode \<Rightarrow> (opcode \<times> operand_type \<times> nat \<times> bool) option" where
  "result_move (Add opc) =
     (if opc \<in> {ADD64mr, ADD64mi} then Some (Mov MOV64mi, OtSignedImmediate32, 8, True)
      else if opc \<in> {ADD64rr, ADD64rm, ADD64ri} then Some (Mov MOV64ri, OtImmediate64, 8, True) else None)"
| "result_move (Shift opc) =
     (if opc \<in> {SHL64m, SHL64mi, SHR64m, SHR64mi} then Some (Mov MOV64mi, OtSignedImmediate32, 8, True)
      else if opc \<in> {SHL64r, SHL64ri, SHR64r, SHR64ri} then Some (Mov MOV64ri, OtImmediate64, 8, True) else None)"
| "result_move (Lea opc) =
     (if opc = LEA64ra then Some (Mov MOV64ri, OtImmediate64, 8, False)
      else if opc = LEA32ra then Some (Mov MOV32ri, OtImmediate32, 4, False) else None)"
| "result_move (MovX opc) =
     (if opc = MOVSDmr then Some (Mov MOV64mi, OtSignedImmediate32, 8, False) else None)"
| "result_move _ = None"

fun result_load :: "opcode \<Rightarrow> (opcode \<times> nat) option" where
  "result_load (Sse opc) =
     (if opc \<in> {ADDPDrm, ADDPDrr, MULPDrm, MULPDrr, PXOR128rm, PXOR128rr} then Some (MovX MOVAPDrm, 16) else None)"
| "result_load (MovX opc) =
     (if opc \<in> {MOVAPDrm, MOVUPDrm} then Some (MovX MOVAPDrm, 16)
      else if opc = MOVUPSrm then Some (MovX MOVUPSrm, 16)
      else if opc = MOVSDrm then Some (MovX MOVSDrm, 8) else None)"
| "result_load _ = None"

text \<open>An exclusive or of a register with itself, for the result zero; again with the flags.\<close>

fun zero_form :: "opcode \<Rightarrow> (opcode \<times> nat \<times> bool) option" where
  "zero_form (Add opc) =
     (if opc \<in> {ADD64rr, ADD64rm, ADD64ri} then Some (Xor XOR64rr, 8, True) else None)"
| "zero_form (Shift opc) =
     (if opc \<in> {SHL64r, SHL64ri, SHR64r, SHR64ri} then Some (Xor XOR64rr, 8, True) else None)"
| "zero_form (Lea opc) = (if opc = LEA64ra then Some (Xor XOR64rr, 8, True) else None)"
| "zero_form (Sse opc) =
     (if opc \<in> {ADDPDrm, ADDPDrr, MULPDrm, MULPDrr} then Some (Sse PXOR128rr, 16, False) else None)"
| "zero_form (MovX opc) =
     (if opc \<in> {MOVAPDrm, MOVAPDrr, MOVUPDrm, MOVUPDrr} then Some (Sse PXOR128rr, 16, False) else None)"
| "zero_form _ = None"

fun add_to_move :: "opcode \<Rightarrow> opcode option" where
  "add_to_move (Add opc) =
     (if opc = ADD64rr then Some (Mov MOV64rr) else if opc = ADD64mr then Some (Mov MOV64mr)
      else if opc = ADD64rm then Some (Mov MOV64rm) else None)"
| "add_to_move _ = None"

fun swap_form :: "opcode \<Rightarrow> (opcode \<times> operand_type \<times> nat) option" where
  "swap_form (Test opc) =
     (if opc \<in> {TEST8mr, TEST8rr} then Some (Test TEST8ri, OtImmediate8, 1)
      else if opc \<in> {TEST16mr, TEST16rr} then Some (Test TEST16ri, OtImmediate16, 2)
      else if opc \<in> {TEST32mr, TEST32rr} then Some (Test TEST32ri, OtImmediate32, 4)
      else if opc \<in> {TEST64mr, TEST64rr} then Some (Test TEST64ri, OtSignedImmediate32, 8) else None)"
| "swap_form _ = None"

fun push_form :: "opcode \<Rightarrow> (opcode \<times> operand_type \<times> nat) option" where
  "push_form (Stack opc) =
     (if opc \<in> {PUSH16m, PUSH16r} then Some (Stack PUSH16i, OtImmediate16, 2)
      else if opc \<in> {PUSH64m, PUSH64r} then Some (Stack PUSH64i, OtSignedImmediate32, 8) else None)"
| "push_form _ = None"

text \<open>Nothing is done with a zero for operand 1, or when both registers are the same.\<close>

fun neutral_zero :: "opcode \<Rightarrow> nat option" where
  "neutral_zero (Add opc) =
     (if opc \<in> {ADD64mr, ADD64rr, ADD64rm, ADD64mi, ADD64ri} then Some 8 else None)"
| "neutral_zero (Xor opc) =
     (if opc \<in> {XOR64mr, XOR64rr, XOR64rm, XOR64mi, XOR64ri} then Some 8
      else if opc \<in> {XOR32mr, XOR32mi} then Some 4 else None)"
| "neutral_zero _ = None"

definition self_move :: "opcode \<Rightarrow> bool" where
  "self_move opc \<longleftrightarrow> opc \<in> {Mov MOV64rr, MovX MOVAPDrr, MovX MOVSDrr, MovX MOVUPDrr, MovX MOVUPSrr}"

definition imm_fits :: "operand_type \<Rightarrow> u64 \<Rightarrow> bool" where
  "imm_fits t v \<longleftrightarrow> (t = OtSignedImmediate32 \<longrightarrow> is_simm32 v)"

text \<open>An exclusive or of a register with itself does not read it.\<close>

definition reads_operands :: "opcode \<Rightarrow> static_operand list \<Rightarrow> bool" where
  "reads_operands opc ops \<longleftrightarrow>
     \<not> (opc \<in> {Xor XOR64rr, Xor XOR32rr, Sse PXOR128rr} \<and> same_regs ops = Some True)"

section \<open>The rules\<close>

inductive spec_rule :: "spec_ctx \<Rightarrow> opcode \<Rightarrow> static_operand list \<Rightarrow> pool \<Rightarrow> spec_ret \<Rightarrow> opcode \<Rightarrow>
    static_operand list \<Rightarrow> pool \<Rightarrow> bool" for c opc ops p where
  rule_keep: "spec_rule c opc ops p NoChange opc' ops' p"
| rule_imm: "imm_form opc = Some (opc', t, n) \<Longrightarrow> reads_operands opc ops \<Longrightarrow> input_knows c 1 n (i64_val imm) \<Longrightarrow>
    imm_fits t (i64_val imm) \<Longrightarrow> spec_rule c opc ops p Change opc' (ops[1 := SopImm imm]) p"
| rule_const64: "mem_form opc = Some (opc', 8) \<Longrightarrow> reads_operands opc ops \<Longrightarrow> input_knows c 1 8 v \<Longrightarrow>
    allocConstant64 (sc_os c) v p = Some (a, p') \<Longrightarrow>
    spec_rule c opc ops p Change opc' (ops[1 := pool_operand a]) p'"
| rule_const128: "mem_form opc = Some (opc', 16) \<Longrightarrow> reads_operands opc ops \<Longrightarrow> input_knows c 1 16 w \<Longrightarrow>
    allocConstant128 (sc_os c) w p = Some (a, p') \<Longrightarrow>
    spec_rule c opc ops p Change opc' (ops[1 := pool_operand a]) p'"
| rule_result: "result_move opc = Some (opc', t, n, fl) \<Longrightarrow> output_knows c n (i64_val imm) \<Longrightarrow>
    imm_fits t (i64_val imm) \<Longrightarrow> fl \<longrightarrow> \<not> eflags_read c \<Longrightarrow>
    spec_rule c opc ops p Change opc' (ops[1 := SopImm imm]) p"
| rule_load64: "result_load opc = Some (opc', 8) \<Longrightarrow> output_knows c 8 v \<Longrightarrow>
    allocConstant64 (sc_os c) v p = Some (a, p') \<Longrightarrow>
    spec_rule c opc ops p Change opc' (ops[1 := pool_operand a]) p'"
| rule_load128: "result_load opc = Some (opc', 16) \<Longrightarrow> output_knows c 16 w \<Longrightarrow>
    allocConstant128 (sc_os c) w p = Some (a, p') \<Longrightarrow>
    spec_rule c opc ops p Change opc' (ops[1 := pool_operand a]) p'"
| rule_zero: "zero_form opc = Some (opc', n, fl) \<Longrightarrow> output_knows c n (0 :: u128) \<Longrightarrow>
    fl \<longrightarrow> \<not> eflags_read c \<Longrightarrow> op_reg ops 0 = Some r \<Longrightarrow>
    spec_rule c opc ops p Change opc' (ops[1 := SopReg r]) p"
| rule_move: "add_to_move opc = Some opc' \<Longrightarrow> input_knows c 0 8 (0 :: u64) \<Longrightarrow> \<not> eflags_read c \<Longrightarrow>
    spec_rule c opc ops p Change opc' ops p"
| rule_swap: "swap_form opc = Some (opc', t, n) \<Longrightarrow> input_knows c 0 n (i64_val imm) \<Longrightarrow>
    imm_fits t (i64_val imm) \<Longrightarrow> op_reg ops 1 = Some r \<Longrightarrow>
    spec_rule c opc ops p Change opc' (ops[0 := SopReg r, 1 := SopImm imm]) p"
| rule_push: "push_form opc = Some (opc', t, n) \<Longrightarrow> input_knows c 0 n (i64_val imm) \<Longrightarrow>
    imm_fits t (i64_val imm) \<Longrightarrow> spec_rule c opc ops p Change opc' (ops[0 := SopImm imm]) p"
| rule_neutral: "neutral_zero opc = Some n \<Longrightarrow> input_knows c 1 n (0 :: u64) \<Longrightarrow> \<not> eflags_read c \<Longrightarrow>
    reads_operands opc ops \<Longrightarrow> spec_rule c opc ops p Delete opc ops p"
| rule_no_shift: "opc = Shift s \<Longrightarrow> input_knows c 1 1 (v :: u64) \<Longrightarrow> and v 0x3f = 0 \<Longrightarrow>
    spec_rule c opc ops p Delete opc ops p"
| rule_self: "self_move opc \<Longrightarrow> same_regs ops = Some True \<Longrightarrow> spec_rule c opc ops p Delete opc ops p"


inductive_cases spec_ruleE: "spec_rule c opc ops p ret opc' ops' p'"

section \<open>The handlers follow the rules\<close>

primrec spec_opcodes :: "specialize_fn \<Rightarrow> opcode set" where
  "spec_opcodes Spec_add64 = {Add ADD64mr, Add ADD64rr, Add ADD64rm, Add ADD64mi, Add ADD64ri}"
| "spec_opcodes Spec_addpd = {Sse ADDPDrm, Sse ADDPDrr}"
| "spec_opcodes Spec_addsd = {Sse ADDSDrm, Sse ADDSDrr}"
| "spec_opcodes Spec_cmp8 = {Cmp CMP8mr, Cmp CMP8rm, Cmp CMP8rr}"
| "spec_opcodes Spec_cmp16 = {Cmp CMP16mr, Cmp CMP16rm, Cmp CMP16rr}"
| "spec_opcodes Spec_cmp32 = {Cmp CMP32mr, Cmp CMP32rm, Cmp CMP32rr}"
| "spec_opcodes Spec_cmp64 = {Cmp CMP64mr, Cmp CMP64rm, Cmp CMP64rr}"
| "spec_opcodes Spec_lea64 = {Lea LEA64ra}"
| "spec_opcodes Spec_lea32 = {Lea LEA32ra}"
| "spec_opcodes Spec_lea16 = {Lea LEA16ra}"
| "spec_opcodes Spec_mov64 = {Mov MOV64mr, Mov MOV64rr, Mov MOV64rm}"
| "spec_opcodes Spec_mov32 = {Mov MOV32mr, Mov MOV32rr, Mov MOV32rm}"
| "spec_opcodes Spec_movapd = {MovX MOVAPDrm, MovX MOVAPDrr}"
| "spec_opcodes Spec_movsd = {MovX MOVSDrm, MovX MOVSDrr, MovX MOVSDmr}"
| "spec_opcodes Spec_movupd = {MovX MOVUPDrr, MovX MOVUPDrm}"
| "spec_opcodes Spec_movups = {MovX MOVUPSrr, MovX MOVUPSrm}"
| "spec_opcodes Spec_mulpd = {Sse MULPDrm, Sse MULPDrr}"
| "spec_opcodes Spec_mulsd = {Sse MULSDrm, Sse MULSDrr}"
| "spec_opcodes Spec_pop = {Stack POP16r, Stack POP64r}"
| "spec_opcodes Spec_push16 = {Stack PUSH16m, Stack PUSH16r}"
| "spec_opcodes Spec_push64 = {Stack PUSH64m, Stack PUSH64r}"
| "spec_opcodes Spec_pxor = {Sse PXOR128rm, Sse PXOR128rr}"
| "spec_opcodes Spec_shl64 = {Shift SHL64m, Shift SHL64r, Shift SHL64mi, Shift SHL64ri}"
| "spec_opcodes Spec_shr64 = {Shift SHR64m, Shift SHR64r, Shift SHR64mi, Shift SHR64ri}"
| "spec_opcodes Spec_test8 = {Test TEST8mr, Test TEST8rr}"
| "spec_opcodes Spec_test16 = {Test TEST16mr, Test TEST16rr}"
| "spec_opcodes Spec_test32 = {Test TEST32mr, Test TEST32rr}"
| "spec_opcodes Spec_test64 = {Test TEST64mr, Test TEST64rr}"
| "spec_opcodes Spec_xor64 = {Xor XOR64mr, Xor XOR64rr, Xor XOR64rm, Xor XOR64mi, Xor XOR64ri}"
| "spec_opcodes Spec_xor32 = {Xor XOR32mr, Xor XOR32rr, Xor XOR32rm, Xor XOR32mi, Xor XOR32ri}"

lemma spec_rows:
  "arch_get_opcode_info opc = Some oc \<Longrightarrow> oc_specialize oc = Some f \<Longrightarrow> opc \<in> spec_opcodes f"
  by (cases opc) (simp, (rename_tac x, case_tac x; auto simp: def_opc_def)+)

text \<open>
  Three rewritings are not among the rules, since a 32-bit write clears the upper half of the
  register and a scalar load from memory clears the upper half of a vector register.
\<close>

definition drops_upper_half :: "opcode \<Rightarrow> spec_ret \<Rightarrow> opcode \<Rightarrow> bool" where
  "drops_upper_half opc ret opc' \<longleftrightarrow>
     ret = Delete \<and> opc \<in> {Mov MOV32rr, Xor XOR32rr, Xor XOR32rm, Xor XOR32ri} \<or>
     ret = Change \<and> opc' = MovX MOVSDrm \<and> opc \<noteq> MovX MOVSDrm"

lemma output_zero:
  "known_output c 0 = Some (Some imm) \<Longrightarrow> i64_val imm = 0 \<Longrightarrow> n \<le> 8 \<Longrightarrow> output_knows c n (0 :: u128)"
  using output_knowsI(1)[of c imm n] by (simp add: output_knows_def knows_def le_bytes_def)

lemma is_self_Some: "is_self which opc ops = Some b \<Longrightarrow> opc = which \<Longrightarrow> same_regs ops = Some b"
  "is_self which opc ops = Some True \<Longrightarrow> opc = which"
  by (auto simp: is_self_def split: if_splits)

lemma const_forms:
  "imm_fits OtImmediate8 v" "imm_fits OtImmediate16 v" "imm_fits OtImmediate32 v" "imm_fits OtImmediate64 v"
  "imm_fits OtSignedImmediate32 v = is_simm32 v"
  by (simp_all add: imm_fits_def)

definition ok_result :: "spec_ctx \<Rightarrow> opcode \<Rightarrow> static_operand list \<Rightarrow> pool \<Rightarrow>
    (spec_ret \<times> opcode \<times> static_operand list \<times> pool) option \<Rightarrow> bool" where
  "ok_result c opc ops p res \<longleftrightarrow> (\<forall>ret opc' ops' p'. res = Some (ret, opc', ops', p') \<longrightarrow>
     drops_upper_half opc ret opc' \<and> (ret = Change \<longrightarrow>
       (\<exists>x. opc = Sse x) \<and> (\<exists>v a. ops' = ops[1 := pool_operand a] \<and> allocConstant64 (sc_os c) v p = Some (a, p'))) \<or>
     spec_rule c opc ops p ret opc' ops' p')"

named_theorems ok_rules

lemma ok_bind [ok_rules]: "(\<And>x. m = Some x \<Longrightarrow> ok_result c opc ops p (f x)) \<Longrightarrow> ok_result c opc ops p (Option.bind m f)"
  by (cases m) (simp_all add: ok_result_def)

lemma ok_if [ok_rules]: "(b \<Longrightarrow> ok_result c opc ops p x) \<Longrightarrow> (\<not> b \<Longrightarrow> ok_result c opc ops p y) \<Longrightarrow>
    ok_result c opc ops p (if b then x else y)"
  by simp

lemma ok_option [ok_rules]: "(\<And>x. v = Some x \<Longrightarrow> ok_result c opc ops p (f x)) \<Longrightarrow>
    (v = None \<Longrightarrow> ok_result c opc ops p g) \<Longrightarrow>
    ok_result c opc ops p (case v of Some x \<Rightarrow> f x | None \<Rightarrow> g)"
  by (cases v) simp_all

lemma ok_keep [ok_rules]: "ok_result c opc ops p (keep c opc ops p)"
  by (simp add: ok_result_def keep_def rule_keep)

text \<open>The leaves of a handler, each with the rules it may be an instance of.\<close>

lemma ok_imm [ok_rules]:
  assumes "(known_input c 1 = Some (Some imm) \<and> reads_operands opc ops \<and>
       (case imm_form opc of Some (q, t, n) \<Rightarrow> q = opc' \<and> n \<le> 8 \<and> imm_fits t (i64_val imm) | None \<Rightarrow> False)) \<or>
     (known_output c 0 = Some (Some imm) \<and>
       (case result_move opc of Some (q, t, n, fl) \<Rightarrow> q = opc' \<and> n \<le> 8 \<and> imm_fits t (i64_val imm) \<and>
          (fl \<longrightarrow> \<not> eflags_read c) | None \<Rightarrow> False)) \<or>
     (\<exists>v. op_output c 0 = Some v \<and> isImm v \<and> i64_val imm = getImm64 v \<and>
       (case result_move opc of Some (q, t, n, fl) \<Rightarrow> q = opc' \<and> n \<le> 8 \<and> imm_fits t (i64_val imm) \<and>
          (fl \<longrightarrow> \<not> eflags_read c) | None \<Rightarrow> False))"
  shows "ok_result c opc ops p (change_imm opc' 1 imm c opc ops p)"
  using assms
proof (elim disjE exE conjE)
  assume a: "known_input c 1 = Some (Some imm)" "reads_operands opc ops"
    "case imm_form opc of Some (q, t, n) \<Rightarrow> q = opc' \<and> n \<le> 8 \<and> imm_fits t (i64_val imm) | None \<Rightarrow> False"
  then obtain t n where f: "imm_form opc = Some (opc', t, n)" "n \<le> 8" "imm_fits t (i64_val imm)"
    by (auto split: option.splits)
  show ?thesis
    using rule_imm[OF f(1) a(2) input_knowsI(1)[OF a(1) f(2)] f(3)] by (simp add: ok_result_def change_imm_def)
next
  assume a: "known_output c 0 = Some (Some imm)"
    "case result_move opc of Some (q, t, n, fl) \<Rightarrow> q = opc' \<and> n \<le> 8 \<and> imm_fits t (i64_val imm) \<and>
       (fl \<longrightarrow> \<not> eflags_read c) | None \<Rightarrow> False"
  then obtain t n fl where f: "result_move opc = Some (opc', t, n, fl)" "n \<le> 8" "imm_fits t (i64_val imm)"
    "fl \<longrightarrow> \<not> eflags_read c"
    by (auto split: option.splits)
  show ?thesis
    using rule_result[OF f(1) output_knowsI(1)[OF a(1) f(2)] f(3,4)] by (simp add: ok_result_def change_imm_def)
next
  fix v
  assume a: "op_output c 0 = Some v" "isImm v" "i64_val imm = getImm64 v"
    "case result_move opc of Some (q, t, n, fl) \<Rightarrow> q = opc' \<and> n \<le> 8 \<and> imm_fits t (i64_val imm) \<and>
       (fl \<longrightarrow> \<not> eflags_read c) | None \<Rightarrow> False"
  then obtain t n fl where f: "result_move opc = Some (opc', t, n, fl)" "n \<le> 8" "imm_fits t (i64_val imm)"
    "fl \<longrightarrow> \<not> eflags_read c"
    by (auto split: option.splits)
  have "output_knows c n (i64_val imm)" using output_knowsI(2)[OF a(1,2) f(2)] a(3) by simp
  from rule_result[OF f(1) this f(3,4)] show ?thesis by (simp add: ok_result_def change_imm_def)
qed

lemma ok_push [ok_rules]:
  assumes "known_input c 0 = Some (Some imm)"
    "case push_form opc of Some (q, t, n) \<Rightarrow> q = opc' \<and> n \<le> 8 \<and> imm_fits t (i64_val imm) | None \<Rightarrow> False"
  shows "ok_result c opc ops p (change_imm opc' 0 imm c opc ops p)"
proof -
  obtain t n where f: "push_form opc = Some (opc', t, n)" "n \<le> 8" "imm_fits t (i64_val imm)"
    using assms(2) by (auto split: option.splits)
  show ?thesis
    using rule_push[OF f(1) input_knowsI(1)[OF assms(1) f(2)] f(3)] by (simp add: ok_result_def change_imm_def)
qed

lemma ok_swap [ok_rules]:
  assumes "known_input c 0 = Some (Some imm)"
    "case swap_form opc of Some (q, t, n) \<Rightarrow> q = opc' \<and> n \<le> 8 \<and> imm_fits t (i64_val imm) | None \<Rightarrow> False"
  shows "ok_result c opc ops p (change_swapped opc' imm c opc ops p)"
proof -
  obtain t n where f: "swap_form opc = Some (opc', t, n)" "n \<le> 8" "imm_fits t (i64_val imm)"
    using assms(2) by (auto split: option.splits)
  show ?thesis
    using rule_swap[OF f(1) input_knowsI(1)[OF assms(1) f(2)] f(3)]
    by (auto simp: ok_result_def change_swapped_def bind_eq_Some_conv)
qed

lemma ok_same [ok_rules]:
  assumes "case zero_form opc of Some (q, n, fl) \<Rightarrow> q = opc' \<and> (fl \<longrightarrow> \<not> eflags_read c) \<and>
      ((\<exists>imm. known_output c 0 = Some (Some imm) \<and> i64_val imm = 0 \<and> n \<le> 8) \<or>
       (\<exists>v. op_output c 0 = Some v \<and> isImm v \<and> getImm128 v = 0 \<and> n \<le> 16)) | None \<Rightarrow> False"
  shows "ok_result c opc ops p (change_same opc' c opc ops p)"
proof -
  obtain n fl where f: "zero_form opc = Some (opc', n, fl)" "fl \<longrightarrow> \<not> eflags_read c"
    and "output_knows c n (0 :: u128)"
    using assms output_zero output_knowsI(3)[of c] by (fastforce split: option.splits)
  then show ?thesis
    using rule_zero[OF f(1) _ f(2)] by (auto simp: ok_result_def change_same_def bind_eq_Some_conv)
qed

lemma ok_const64 [ok_rules]:
  assumes "(\<exists>imm. known_input c 1 = Some (Some imm) \<and> v = i64_val imm \<and> reads_operands opc ops \<and>
       mem_form opc = Some (opc', 8)) \<or>
     (\<exists>w. op_input c 1 = Some w \<and> isImm w \<and> v = getImm64 w \<and> reads_operands opc ops \<and>
       mem_form opc = Some (opc', 8)) \<or>
     (\<exists>w. op_output c 0 = Some w \<and> isImm w \<and> v = getImm64 w \<and> result_load opc = Some (opc', 8)) \<or>
     drops_upper_half opc Change opc' \<and> (\<exists>x. opc = Sse x)"
  shows "ok_result c opc ops p (change_const64 opc' v c opc ops p)"
  using assms input_knowsI(1)[of c 1 _ 8] input_knowsI(2)[of c 1 _ 8] output_knowsI(2)[of c _ 8]
  by (auto simp: ok_result_def change_const64_def bind_eq_Some_conv simp del: One_nat_def
      intro: rule_const64 rule_load64)

lemma ok_const128 [ok_rules]:
  assumes "(\<exists>w. op_input c 1 = Some w \<and> isImm w \<and> v = getImm128 w \<and> reads_operands opc ops \<and>
       mem_form opc = Some (opc', 16)) \<or>
     (\<exists>w. op_output c 0 = Some w \<and> isImm w \<and> v = getImm128 w \<and> result_load opc = Some (opc', 16))"
  shows "ok_result c opc ops p (change_const128 opc' v c opc ops p)"
  using assms input_knowsI(3)[of c 1 _ 16] output_knowsI(3)[of c _ 16]
  by (auto simp: ok_result_def change_const128_def bind_eq_Some_conv simp del: One_nat_def
      intro: rule_const128 rule_load128)

lemma ok_opcode [ok_rules]:
  assumes "\<exists>imm. known_input c 0 = Some (Some imm) \<and> i64_val imm = 0" "\<not> eflags_read c"
    "add_to_move opc = Some opc'"
  shows "ok_result c opc ops p (change_opcode opc' c opc ops p)"
proof -
  have "input_knows c 0 8 (0 :: u64)" using assms(1) input_knowsI(1)[of c 0 _ 8] by fastforce
  then show ?thesis using assms by (simp add: ok_result_def change_opcode_def rule_move)
qed

lemma ok_delete [ok_rules]:
  assumes "(\<exists>imm. known_input c 1 = Some (Some imm) \<and> i64_val imm = 0 \<and> \<not> eflags_read c \<and>
       reads_operands opc ops \<and> (case neutral_zero opc of Some n \<Rightarrow> n \<le> 8 | None \<Rightarrow> False)) \<or>
     (\<exists>imm s. known_input c 1 = Some (Some imm) \<and> opc = Shift s \<and> and (i64_val imm) 0x3f = 0) \<or>
     (self_move opc \<and> same_regs ops = Some True) \<or> drops_upper_half opc Delete opc"
  shows "ok_result c opc ops p (delete_it c opc ops p)"
  using assms
proof (elim disjE exE conjE)
  fix imm
  assume a: "known_input c 1 = Some (Some imm)" "i64_val imm = 0" "\<not> eflags_read c" "reads_operands opc ops"
    "case neutral_zero opc of Some n \<Rightarrow> n \<le> 8 | None \<Rightarrow> False"
  then obtain n where n: "neutral_zero opc = Some n" "n \<le> 8" by (auto split: option.splits)
  show ?thesis
    using rule_neutral[OF n(1) _ a(3,4)] input_knowsI(1)[OF a(1) n(2)] a(2) by (simp add: ok_result_def delete_it_def)
next
  fix imm s
  assume a: "known_input c 1 = Some (Some imm)" "opc = Shift s" "and (i64_val imm) 0x3f = 0"
  show ?thesis
    using rule_no_shift[OF a(2) input_knowsI(1)[OF a(1), of 1] a(3)] by (simp add: ok_result_def delete_it_def)
qed (simp_all add: ok_result_def delete_it_def rule_self)

end
