(* ===== verification/Spec_Handlers.thy ===== *)
theory Spec_Handlers
  imports Spec_Rules
begin

text \<open>Every specialization handler only does what a rule allows.\<close>

lemmas follow_simps = Let_def const_forms reads_operands_def drops_upper_half_def self_move_def
  bind_eq_Some_conv

lemma is_self_cases:
  "is_self which opc ops = Some b \<Longrightarrow> (opc = which \<and> same_regs ops = Some b) \<or> (opc \<noteq> which \<and> \<not> b)"
  by (auto simp: is_self_def split: if_splits)

lemma ok_add64:
  "opc \<in> spec_opcodes Spec_add64 \<Longrightarrow> ok_result c opc ops p (specialize_add64 c opc ops p)"
  unfolding specialize_add64_def
  by (auto simp: follow_simps simp del: One_nat_def dest!: is_self_cases intro!: ok_rules split: option.splits)

lemma ok_addpd:
  "opc \<in> spec_opcodes Spec_addpd \<Longrightarrow> ok_result c opc ops p (specialize_addpd c opc ops p)"
  unfolding specialize_addpd_def
  by (auto simp: follow_simps simp del: One_nat_def dest!: is_self_cases intro!: ok_rules split: option.splits)

lemma ok_addsd:
  "opc \<in> spec_opcodes Spec_addsd \<Longrightarrow> ok_result c opc ops p (specialize_addsd c opc ops p)"
  unfolding specialize_addsd_def
  by (auto simp: follow_simps simp del: One_nat_def dest!: is_self_cases intro!: ok_rules split: option.splits)

lemma ok_cmp8:
  "opc \<in> spec_opcodes Spec_cmp8 \<Longrightarrow> ok_result c opc ops p (specialize_cmp8 c opc ops p)"
  unfolding specialize_cmp8_def
  by (auto simp: follow_simps simp del: One_nat_def dest!: is_self_cases intro!: ok_rules split: option.splits)

lemma ok_cmp16:
  "opc \<in> spec_opcodes Spec_cmp16 \<Longrightarrow> ok_result c opc ops p (specialize_cmp16 c opc ops p)"
  unfolding specialize_cmp16_def
  by (auto simp: follow_simps simp del: One_nat_def dest!: is_self_cases intro!: ok_rules split: option.splits)

lemma ok_cmp32:
  "opc \<in> spec_opcodes Spec_cmp32 \<Longrightarrow> ok_result c opc ops p (specialize_cmp32 c opc ops p)"
  unfolding specialize_cmp32_def
  by (auto simp: follow_simps simp del: One_nat_def dest!: is_self_cases intro!: ok_rules split: option.splits)

lemma ok_cmp64:
  "opc \<in> spec_opcodes Spec_cmp64 \<Longrightarrow> ok_result c opc ops p (specialize_cmp64 c opc ops p)"
  unfolding specialize_cmp64_def
  by (auto simp: follow_simps simp del: One_nat_def dest!: is_self_cases intro!: ok_rules split: option.splits)

lemma ok_lea64:
  "opc \<in> spec_opcodes Spec_lea64 \<Longrightarrow> ok_result c opc ops p (specialize_lea64 c opc ops p)"
  unfolding specialize_lea64_def
  by (auto simp: follow_simps simp del: One_nat_def dest!: is_self_cases intro!: ok_rules split: option.splits)

lemma ok_lea32:
  "opc \<in> spec_opcodes Spec_lea32 \<Longrightarrow> ok_result c opc ops p (specialize_lea32 c opc ops p)"
  unfolding specialize_lea32_def
  by (auto simp: follow_simps simp del: One_nat_def dest!: is_self_cases intro!: ok_rules split: option.splits)

lemma ok_lea16:
  "opc \<in> spec_opcodes Spec_lea16 \<Longrightarrow> ok_result c opc ops p (specialize_lea16 c opc ops p)"
  unfolding specialize_lea16_def
  by (auto simp: follow_simps simp del: One_nat_def dest!: is_self_cases intro!: ok_rules split: option.splits)

lemma ok_mov64:
  "opc \<in> spec_opcodes Spec_mov64 \<Longrightarrow> ok_result c opc ops p (specialize_mov64 c opc ops p)"
  unfolding specialize_mov64_def
  by (auto simp: follow_simps simp del: One_nat_def dest!: is_self_cases intro!: ok_rules split: option.splits)

lemma ok_mov32:
  "opc \<in> spec_opcodes Spec_mov32 \<Longrightarrow> ok_result c opc ops p (specialize_mov32 c opc ops p)"
  unfolding specialize_mov32_def
  by (auto simp: follow_simps simp del: One_nat_def dest!: is_self_cases intro!: ok_rules split: option.splits)

lemma ok_movapd:
  "opc \<in> spec_opcodes Spec_movapd \<Longrightarrow> ok_result c opc ops p (specialize_movapd c opc ops p)"
  unfolding specialize_movapd_def
  by (auto simp: follow_simps simp del: One_nat_def dest!: is_self_cases intro!: ok_rules split: option.splits)

lemma ok_movsd:
  "opc \<in> spec_opcodes Spec_movsd \<Longrightarrow> ok_result c opc ops p (specialize_movsd c opc ops p)"
  unfolding specialize_movsd_def
  by (auto simp: follow_simps simp del: One_nat_def dest!: is_self_cases intro!: ok_rules split: option.splits)

lemma ok_movupd:
  "opc \<in> spec_opcodes Spec_movupd \<Longrightarrow> ok_result c opc ops p (specialize_movupd c opc ops p)"
  unfolding specialize_movupd_def
  by (auto simp: follow_simps simp del: One_nat_def dest!: is_self_cases intro!: ok_rules split: option.splits)

lemma ok_movups:
  "opc \<in> spec_opcodes Spec_movups \<Longrightarrow> ok_result c opc ops p (specialize_movups c opc ops p)"
  unfolding specialize_movups_def
  by (auto simp: follow_simps simp del: One_nat_def dest!: is_self_cases intro!: ok_rules split: option.splits)

lemma ok_mulpd:
  "opc \<in> spec_opcodes Spec_mulpd \<Longrightarrow> ok_result c opc ops p (specialize_mulpd c opc ops p)"
  unfolding specialize_mulpd_def
  by (auto simp: follow_simps simp del: One_nat_def dest!: is_self_cases intro!: ok_rules split: option.splits)

lemma ok_mulsd:
  "opc \<in> spec_opcodes Spec_mulsd \<Longrightarrow> ok_result c opc ops p (specialize_mulsd c opc ops p)"
  unfolding specialize_mulsd_def
  by (auto simp: follow_simps simp del: One_nat_def dest!: is_self_cases intro!: ok_rules split: option.splits)

lemma ok_push16:
  "opc \<in> spec_opcodes Spec_push16 \<Longrightarrow> ok_result c opc ops p (specialize_push16 c opc ops p)"
  unfolding specialize_push16_def
  by (auto simp: follow_simps simp del: One_nat_def dest!: is_self_cases intro!: ok_rules split: option.splits)

lemma ok_push64:
  "opc \<in> spec_opcodes Spec_push64 \<Longrightarrow> ok_result c opc ops p (specialize_push64 c opc ops p)"
  unfolding specialize_push64_def
  by (auto simp: follow_simps simp del: One_nat_def dest!: is_self_cases intro!: ok_rules split: option.splits)

lemma ok_pxor:
  "opc \<in> spec_opcodes Spec_pxor \<Longrightarrow> ok_result c opc ops p (specialize_pxor c opc ops p)"
  unfolding specialize_pxor_def
  by (auto simp: follow_simps simp del: One_nat_def dest!: is_self_cases intro!: ok_rules split: option.splits)

lemma ok_shl64:
  "opc \<in> spec_opcodes Spec_shl64 \<Longrightarrow> ok_result c opc ops p (specialize_shl64 c opc ops p)"
  unfolding specialize_shl64_def
  by (auto simp: follow_simps simp del: One_nat_def dest!: is_self_cases intro!: ok_rules split: option.splits)

lemma ok_shr64:
  "opc \<in> spec_opcodes Spec_shr64 \<Longrightarrow> ok_result c opc ops p (specialize_shr64 c opc ops p)"
  unfolding specialize_shr64_def
  by (auto simp: follow_simps simp del: One_nat_def dest!: is_self_cases intro!: ok_rules split: option.splits)

lemma ok_test8:
  "opc \<in> spec_opcodes Spec_test8 \<Longrightarrow> ok_result c opc ops p (specialize_test8 c opc ops p)"
  unfolding specialize_test8_def
  by (auto simp: follow_simps simp del: One_nat_def dest!: is_self_cases intro!: ok_rules split: option.splits)

lemma ok_test16:
  "opc \<in> spec_opcodes Spec_test16 \<Longrightarrow> ok_result c opc ops p (specialize_test16 c opc ops p)"
  unfolding specialize_test16_def
  by (auto simp: follow_simps simp del: One_nat_def dest!: is_self_cases intro!: ok_rules split: option.splits)

lemma ok_test32:
  "opc \<in> spec_opcodes Spec_test32 \<Longrightarrow> ok_result c opc ops p (specialize_test32 c opc ops p)"
  unfolding specialize_test32_def
  by (auto simp: follow_simps simp del: One_nat_def dest!: is_self_cases intro!: ok_rules split: option.splits)

lemma ok_test64:
  "opc \<in> spec_opcodes Spec_test64 \<Longrightarrow> ok_result c opc ops p (specialize_test64 c opc ops p)"
  unfolding specialize_test64_def
  by (auto simp: follow_simps simp del: One_nat_def dest!: is_self_cases intro!: ok_rules split: option.splits)

lemma ok_xor64:
  "opc \<in> spec_opcodes Spec_xor64 \<Longrightarrow> ok_result c opc ops p (specialize_xor64 c opc ops p)"
  unfolding specialize_xor64_def
  by (auto simp: follow_simps simp del: One_nat_def dest!: is_self_cases intro!: ok_rules split: option.splits)

lemma ok_xor32:
  "opc \<in> spec_opcodes Spec_xor32 \<Longrightarrow> ok_result c opc ops p (specialize_xor32 c opc ops p)"
  unfolding specialize_xor32_def
  by (auto simp: follow_simps simp del: One_nat_def dest!: is_self_cases intro!: ok_rules split: option.splits)

lemma ok_pop:
  "opc \<in> spec_opcodes Spec_pop \<Longrightarrow> ok_result c opc ops p (specialize_pop c opc ops p)"
  by (auto simp: specialize_pop_def ok_result_def Let_def keep_def bind_eq_Some_conv rule_keep split: if_splits)

lemmas ok_handlers = ok_add64 ok_addpd ok_addsd ok_cmp8 ok_cmp16 ok_cmp32 ok_cmp64 ok_lea64 ok_lea32
  ok_lea16 ok_mov64 ok_mov32 ok_movapd ok_movsd ok_movupd ok_movups ok_mulpd ok_mulsd ok_pop
  ok_push16 ok_push64 ok_pxor ok_shl64 ok_shr64 ok_test8 ok_test16 ok_test32 ok_test64 ok_xor64
  ok_xor32

end
