(* ===== verification/Spec_Forms.thy ===== *)
theory Spec_Forms
  imports Spec_Handlers
begin

text \<open>
  What each form of an opcode has in common with the opcode it replaces: the rows of the
  table, the operands read, the target and the value computed. One group of lemmas per form,
  the last of each saying that the effect is the same.
\<close>

section \<open>The operands of a form\<close>

lemma operands_fit_2:
  "length (oc_opInfo oc) = 2 \<Longrightarrow> operands_fit oc ops \<longleftrightarrow>
     2 \<le> length ops \<and> operand_fits (oc_opInfo oc ! 0) (ops ! 0) \<and> operand_fits (oc_opInfo oc ! 1) (ops ! 1)"
  by (auto simp: operands_fit_def list_all_iff numeral_2_eq_2 less_Suc_eq)

lemma operands_fit_1:
  "length (oc_opInfo oc) = 1 \<Longrightarrow> operands_fit oc ops \<longleftrightarrow>
     1 \<le> length ops \<and> operand_fits (oc_opInfo oc ! 0) (ops ! 0)"
  by (auto simp: operands_fit_def list_all_iff less_Suc_eq)

lemma reg_fits: "operand_fits (EoiReg t m r w) op \<longleftrightarrow> (\<exists>reg. op = SopReg reg \<and> reg_has_type reg t)"
  by (cases op) auto

lemma fits_mem: "operand_fits (EoiMem m s) op \<longleftrightarrow> (\<exists>ptr. op = SopMem ptr)"
  by (cases op) auto

lemma fits_imm: "operand_fits (EoiImm t) op \<longleftrightarrow> (\<exists>v. op = SopImm v)"
  by (cases op) auto

abbreviation row_fits :: "opcode \<Rightarrow> static_operand list \<Rightarrow> bool" where
  "row_fits opc ops \<equiv> case arch_get_opcode_info opc of Some oc \<Rightarrow> operands_fit oc ops | None \<Rightarrow> False"

lemmas row_simps = operands_fit_2 operands_fit_1 reg_fits fits_mem fits_imm def_opc_def

lemma imm_form_fits:
  assumes "imm_form opc = Some (opc', t, n)" and "row_fits opc ops" and "2 \<le> length ops"
  shows "row_fits opc' (ops[1 := SopImm imm])"
  using assms by (cases opc rule: imm_form.cases) (auto simp: row_simps split: if_splits)

section \<open>Lengths\<close>

lemma load_length:
  assumes "hw_ok h" and "reg_has_type r t"
  shows "t \<noteq> RTFlag1 \<Longrightarrow> length (load_place (hw_m h) (PlReg r Full)) = sizeInBytes t"
    and "t = RTSse128 \<Longrightarrow> length (load_place (hw_m h) (PlReg r H0)) = 8"
  using assms
  by (cases r; simp add: reg_has_type_def def_reg_simple_def def_reg_xmm_def reg_range_def reg_data_simps hw_ok_def)+

lemma load_lengths:
  assumes "hw_ok h"
  shows "reg_has_type r RTGprs8 \<Longrightarrow> length (load_place (hw_m h) (PlReg r Full)) = 1"
    and "reg_has_type r RTGprs16 \<Longrightarrow> length (load_place (hw_m h) (PlReg r Full)) = 2"
    and "reg_has_type r RTGprs32 \<Longrightarrow> length (load_place (hw_m h) (PlReg r Full)) = 4"
    and "reg_has_type r RTGprs64 \<Longrightarrow> length (load_place (hw_m h) (PlReg r Full)) = 8"
    and "reg_has_type r RTSse128 \<Longrightarrow> length (load_place (hw_m h) (PlReg r Full)) = 16"
    and "reg_has_type r RTSse128 \<Longrightarrow> length (load_place (hw_m h) (PlReg r H0)) = 8"
    and "length (load_place (hw_m h) (PlReg (Gpr8 GC) Full)) = 1"
  using load_length[OF assms] load_length(1)[OF assms, of "Gpr8 GC" RTGprs8]
  by (simp_all add: reg_has_type_def def_reg_simple_def del: load_place.simps)

section \<open>What is described\<close>

fun operand_read :: "explicit_operand_info \<Rightarrow> bool" where
  "operand_read (EoiReg t m r w) = isRead m"
| "operand_read (EoiMem m sz) = isRead m"
| "operand_read (EoiImm t) = True"

text \<open>The operand is a value the instruction reads.\<close>

definition reads_at :: "opcode \<Rightarrow> static_operand list \<Rightarrow> nat \<Rightarrow> bool" where
  "reads_at opc ops i \<longleftrightarrow> reads_operands opc ops \<and>
     (count_in_cl opc \<and> i = 1 \<or>
      (case arch_get_opcode_info opc of
         Some oc \<Rightarrow> i < length (oc_opInfo oc) \<and> operand_read (oc_opInfo oc ! i)
       | None \<Rightarrow> False))"

text \<open>
  The evaluated operands describe what the processor reads and computes: \<open>e\<close> is the effect
  of the instruction on this machine.
\<close>

definition described :: "base \<Rightarrow> hw \<Rightarrow> spec_ctx \<Rightarrow> opcode \<Rightarrow> static_operand list \<Rightarrow> effect \<Rightarrow> bool" where
  "described base h c opc ops e \<longleftrightarrow>
     cfg_base (sc_env c) base \<and> hw_ok h \<and>
     list_all (\<lambda>i. reads_at opc ops i \<longrightarrow>
       (case op_input c i of Some v \<Rightarrow> bytes_conc base v (in_bytes base h opc ops i) | None \<Rightarrow> True)) [0, 1] \<and>
     (case op_output c 0 of Some v \<Rightarrow> bytes_conc base v (ef_value e) | None \<Rightarrow> True)"

lemma described_input:
  assumes "described base h c opc ops e" and "input_knows c i n w" and "reads_at opc ops i" and "i \<in> {0, 1}"
    and "length (in_bytes base h opc ops i) = n"
  shows "in_bytes base h opc ops i = le_bytes n w"
  using assms by (auto simp: described_def input_knows_def dest: knowsD)

lemma described_output:
  assumes "described base h c opc ops e" and "output_knows c n w" and "length (ef_value e) = n"
  shows "ef_value e = le_bytes n w"
  using assms by (auto simp: described_def output_knows_def dest: knowsD)

lemma imm_fits_bytes: "imm_fits t v \<Longrightarrow>
    (t, n) \<in> {(OtImmediate8, 1), (OtImmediate16, 2), (OtImmediate32, 4), (OtImmediate64, 8), (OtSignedImmediate32, 8)} \<Longrightarrow>
    imm_operand t v = le_bytes n v"
  by (auto simp: imm_fits_def is_simm32_def)

lemmas effect_simps = in_bytes_def count_in_cl_def target_of_def faults_def needs_alignment_def effect_of_def
  row_simps

section \<open>An immediate for operand 1\<close>

lemma imm_form_type:
  "imm_form opc = Some (opc', t, n) \<Longrightarrow>
   (t, n) \<in> {(OtImmediate8, 1), (OtImmediate16, 2), (OtImmediate32, 4), (OtImmediate64, 8), (OtSignedImmediate32, 8)}"
  by (cases opc rule: imm_form.cases) (auto split: if_splits)

lemma imm_form_reads:
  "imm_form opc = Some (opc', t, n) \<Longrightarrow> reads_operands opc ops \<Longrightarrow> reads_at opc ops 1"
  by (cases opc rule: imm_form.cases) (auto simp: reads_at_def count_in_cl_def def_opc_def split: if_splits)

lemma imm_form_length:
  assumes "imm_form opc = Some (opc', t, n)" and "row_fits opc ops" and "hw_ok h"
  shows "length (in_bytes base h opc ops 1) = n"
  using assms
  by (cases opc rule: imm_form.cases)
    (auto simp: effect_simps load_lengths Let_def simp del: load_place.simps split: if_splits)

text \<open>
  Rows of the table that write the same place through operand 0, and rows that also read the
  same through it.
\<close>

fun is_stack :: "opcode \<Rightarrow> bool" where
  "is_stack (Stack _) = True"
| "is_stack _ = False"

definition first_row :: "opcode \<Rightarrow> explicit_operand_info option" where
  "first_row opc =
     (case arch_get_opcode_info opc of
        Some oc \<Rightarrow> if oc_opInfo oc \<noteq> [] \<and> \<not> is_stack opc then Some (oc_opInfo oc ! 0) else None
      | None \<Rightarrow> None)"

definition same_target :: "opcode \<Rightarrow> opcode \<Rightarrow> bool" where
  "same_target opc opc' \<longleftrightarrow>
     (case (first_row opc, first_row opc') of
        (Some (EoiReg t m r w), Some (EoiReg t' m' r' w')) \<Rightarrow> isWrite m' = isWrite m \<and> w' = w
      | (Some (EoiMem m sz), Some (EoiMem m' sz')) \<Rightarrow> isWrite m' = isWrite m
      | _ \<Rightarrow> False)"

definition same_first :: "opcode \<Rightarrow> opcode \<Rightarrow> bool" where
  "same_first opc opc' \<longleftrightarrow>
     (case (first_row opc, first_row opc') of
        (Some (EoiReg t m r w), Some (EoiReg t' m' r' w')) \<Rightarrow> r' = r
      | (Some (EoiMem m sz), Some (EoiMem m' sz')) \<Rightarrow> (m' = AmAddress) = (m = AmAddress) \<and> sz' = sz
      | _ \<Rightarrow> False)"

lemma target_first: "target_of base h opc ops =
    (if is_stack opc then TgPush else case first_row opc of Some e \<Rightarrow> operand_target base h e (ops ! 0) | None \<Rightarrow> TgNone)"
  by (cases opc) (simp_all add: target_of_def first_row_def)

lemma bytes_first: "first_row opc = Some e \<Longrightarrow> in_bytes base h opc ops 0 = operand_bytes base h e (ops ! 0)"
  by (auto simp: first_row_def in_bytes_def split: option.splits if_splits)

lemma same_target_of:
  assumes "same_target opc opc'" and "ops' ! 0 = ops ! 0"
  shows "target_of base h opc' ops' = target_of base h opc ops"
proof -
  obtain e e' where e: "first_row opc = Some e" "first_row opc' = Some e'"
    "case (e, e') of (EoiReg t m r w, EoiReg t' m' r' w') \<Rightarrow> isWrite m' = isWrite m \<and> w' = w
       | (EoiMem m sz, EoiMem m' sz') \<Rightarrow> isWrite m' = isWrite m | _ \<Rightarrow> False"
    using assms(1) by (auto simp: same_target_def split: option.splits explicit_operand_info.splits)
  have "operand_target base h e' op = operand_target base h e op" for op
    using e(3) by (cases e; cases e'; cases op; simp)
  moreover have "\<not> is_stack opc" "\<not> is_stack opc'"
    using e(1,2) by (auto simp: first_row_def split: option.splits if_splits)
  ultimately show ?thesis using e(1,2) assms(2) by (simp add: target_first)
qed

lemma same_first_bytes:
  assumes "same_first opc opc'" and "ops' ! 0 = ops ! 0"
  shows "in_bytes base h opc' ops' 0 = in_bytes base h opc ops 0"
proof -
  obtain e e' where e: "first_row opc = Some e" "first_row opc' = Some e'"
    "case (e, e') of (EoiReg t m r w, EoiReg t' m' r' w') \<Rightarrow> r' = r
       | (EoiMem m sz, EoiMem m' sz') \<Rightarrow> (m' = AmAddress) = (m = AmAddress) \<and> sz' = sz | _ \<Rightarrow> False"
    using assms(1) by (auto simp: same_first_def split: option.splits explicit_operand_info.splits)
  have "operand_bytes base h e' op = operand_bytes base h e op" for op
    using e(3) by (cases e; cases e'; cases op; simp)
  then show ?thesis using e assms(2) by (simp add: bytes_first)
qed

lemma in_bytes_1:
  assumes "\<not> count_in_cl opc" and "arch_get_opcode_info opc = Some oc" and "length (oc_opInfo oc) = 2"
    and "2 \<le> length ops"
  shows "in_bytes base h opc (ops[1 := x]) 1 = operand_bytes base h (oc_opInfo oc ! 1) x"
  using assms by (simp add: in_bytes_def)

lemma effect_cong:
  assumes "\<not> faults base h opc ops" "\<not> faults base h opc' ops'"
    and "(opc = MovX MOVSDrm) = (opc' = MovX MOVSDrm)"
    and "alu cpu opc' (in_bytes base h opc' ops' 0) (in_bytes base h opc' ops' 1) =
      alu cpu opc (in_bytes base h opc ops 0) (in_bytes base h opc ops 1)"
    and "target_of base h opc' ops' = target_of base h opc ops"
  shows "effect_of cpu base h opc' ops' = effect_of cpu base h opc ops"
  using assms by (simp add: effect_of_def)

lemma imm_form_rows:
  assumes "imm_form opc = Some (opc', t, n)"
  shows "same_target opc opc'" "same_first opc opc'" and "alu cpu opc' = alu cpu opc"
    and "\<exists>oc'. arch_get_opcode_info opc' = Some oc' \<and> length (oc_opInfo oc') = 2 \<and> oc_opInfo oc' ! 1 = EoiImm t"
    and "\<not> count_in_cl opc'" "\<not> needs_alignment opc" "\<not> needs_alignment opc'"
    and "opc \<noteq> MovX MOVSDrm" "opc' \<noteq> MovX MOVSDrm"
  using assms
  by (cases opc rule: imm_form.cases;
      auto simp: def_opc_def count_in_cl_def needs_alignment_def same_target_def
        same_first_def first_row_def fun_eq_iff split: if_splits)+

lemma imm_form_effect:
  assumes f: "imm_form opc = Some (opc', t, n)" and len: "2 \<le> length ops"
    and b: "imm_operand t (i64_val imm) = in_bytes base h opc ops 1"
  shows "effect_of cpu base h opc' (ops[1 := SopImm imm]) = effect_of cpu base h opc ops"
proof -
  note R = imm_form_rows[OF f]
  obtain oc' where "arch_get_opcode_info opc' = Some oc'" "length (oc_opInfo oc') = 2" "oc_opInfo oc' ! 1 = EoiImm t"
    using R(4) by blast
  then have "in_bytes base h opc' (ops[1 := SopImm imm]) 1 = in_bytes base h opc ops 1"
    using in_bytes_1[OF R(5) _ _ len] b by simp
  then show ?thesis
    using R same_target_of[OF R(1)] same_first_bytes[OF R(2)] by (intro effect_cong) (simp_all add: faults_def)
qed

section \<open>A constant in memory for operand 1\<close>

text \<open>The machine's memory holds the constants of the pool.\<close>

definition pool_loaded :: "hw \<Rightarrow> pool \<Rightarrow> bool" where
  "pool_loaded h p \<longleftrightarrow> (\<forall>a bs. const_at p a bs \<longrightarrow> host_bytes (hw_mem h) a (length bs) = bs)"

lemma pool_operand_bytes:
  assumes "pool_loaded h p" and "const_at p a (le_bytes n v)" and "mem_bytes sz = n" and "m \<noteq> AmAddress"
  shows "operand_bytes base h (EoiMem m sz) (pool_operand a) = le_bytes n v"
  using assms by (fastforce simp: pool_operand_def plain_imm_def imm_word_def pool_loaded_def Let_def)

lemma pool_operand_aligned:
  assumes "const_at p a (le_bytes 16 v)" and "2 \<le> length ops"
  shows "\<not> faults base h opc (ops[1 := pool_operand a])"
  using assms by (simp add: faults_def pool_operand_def plain_imm_def imm_word_def const_at_def)

lemma plain_never_faults: "\<not> needs_alignment opc \<Longrightarrow> \<not> faults base h opc ops"
  by (simp add: faults_def)

lemma mem_form_rows:
  assumes "mem_form opc = Some (opc', n)"
  shows "same_target opc opc'" "same_first opc opc'" and "alu cpu opc' = alu cpu opc"
    and "\<exists>oc' sz. arch_get_opcode_info opc' = Some oc' \<and> length (oc_opInfo oc') = 2 \<and>
      oc_opInfo oc' ! 1 = EoiMem AmRead sz \<and> mem_bytes sz = n"
    and "\<not> count_in_cl opc'" "n = 8 \<Longrightarrow> \<not> needs_alignment opc'"
    and "opc \<noteq> MovX MOVSDrm" "opc' \<noteq> MovX MOVSDrm"
    and "reads_operands opc ops \<Longrightarrow> reads_at opc ops 1"
  using assms
  by (cases opc rule: mem_form.cases;
      auto simp: def_opc_def count_in_cl_def needs_alignment_def same_target_def reads_at_def
        same_first_def first_row_def fun_eq_iff split: if_splits)+

lemma mem_form_length:
  assumes "mem_form opc = Some (opc', n)" and "row_fits opc ops" and "hw_ok h"
  shows "length (in_bytes base h opc ops 1) = n"
  using assms
  by (cases opc rule: mem_form.cases)
    (auto simp: effect_simps load_lengths Let_def simp del: load_place.simps split: if_splits)

lemma mem_form_effect:
  assumes f: "mem_form opc = Some (opc', n)" and len: "2 \<le> length ops" and nf: "\<not> faults base h opc ops"
    and ld: "pool_loaded h p" and c: "const_at p a (le_bytes n v)" and n: "n = 8 \<or> n = 16"
    and b: "in_bytes base h opc ops 1 = le_bytes n v"
  shows "effect_of cpu base h opc' (ops[1 := pool_operand a]) = effect_of cpu base h opc ops"
proof -
  note R = mem_form_rows[OF f]
  obtain oc' sz where oc': "arch_get_opcode_info opc' = Some oc'" "length (oc_opInfo oc') = 2"
    "oc_opInfo oc' ! 1 = EoiMem AmRead sz" "mem_bytes sz = n"
    using R(4) by blast
  have "in_bytes base h opc' (ops[1 := pool_operand a]) 1 = le_bytes n v"
    using in_bytes_1[OF R(5) oc'(1,2) len] pool_operand_bytes[OF ld c oc'(4)] oc'(3) by simp
  moreover have "\<not> faults base h opc' (ops[1 := pool_operand a])"
    using n R(6) c pool_operand_aligned[OF _ len] plain_never_faults by blast
  ultimately show ?thesis
    using R same_target_of[OF R(1)] same_first_bytes[OF R(2)] nf b by (intro effect_cong) simp_all
qed

section \<open>A known result\<close>

lemma effect_ofD:
  assumes "effect_of cpu base h opc ops = Some e"
  shows "\<not> faults base h opc ops" and "ef_target e = target_of base h opc ops"
    and "ef_clears e = (opc = MovX MOVSDrm)"
    and "alu cpu opc (in_bytes base h opc ops 0) (in_bytes base h opc ops 1) = Some (ef_value e, ef_flags e)"
  using assms by (auto simp: effect_of_def split: if_splits bind_splits)

lemma effect_ofI:
  assumes "\<not> faults base h opc ops"
    and "alu cpu opc (in_bytes base h opc ops 0) (in_bytes base h opc ops 1) = Some (v, fl)"
  shows "effect_of cpu base h opc ops =
    Some \<lparr>ef_target = target_of base h opc ops, ef_value = v, ef_clears = (opc = MovX MOVSDrm), ef_flags = fl\<rparr>"
  using assms by (simp add: effect_of_def)

lemma take_le_bytes [simp]: "take n (le_bytes n v) = le_bytes n v"
  by (rule take_all) simp

lemma result_move_rows:
  assumes "result_move opc = Some (opc', t, n, fl)"
  shows "same_target opc opc'"
    and "\<exists>oc'. arch_get_opcode_info opc' = Some oc' \<and> length (oc_opInfo oc') = 2 \<and> oc_opInfo oc' ! 1 = EoiImm t \<and>
      (\<forall>a b. alu cpu opc' a b = Some (take n b, None))"
    and "\<not> count_in_cl opc'" "\<not> needs_alignment opc'" "opc \<noteq> MovX MOVSDrm" "opc' \<noteq> MovX MOVSDrm"
    and "(t, n) \<in> {(OtImmediate32, 4), (OtImmediate64, 8), (OtSignedImmediate32, 8)}"
    and "\<not> fl \<Longrightarrow> alu cpu opc a b = Some (v, f) \<Longrightarrow> f = None"
  using assms
  by (cases opc rule: result_move.cases;
      auto simp: def_opc_def count_in_cl_def needs_alignment_def same_target_def alu_defs
        first_row_def split: if_splits)+

lemma result_move_length:
  assumes "result_move opc = Some (opc', t, n, fl)" and "row_fits opc ops" and "hw_ok h"
    and "alu cpu opc (in_bytes base h opc ops 0) (in_bytes base h opc ops 1) = Some (v, f)"
  shows "length v = n"
  using assms
  by (cases opc rule: result_move.cases)
    (auto simp: effect_simps load_lengths Let_def alu_defs simp del: load_place.simps
      split: if_splits prod.splits)

lemma result_move_effect:
  assumes f: "result_move opc = Some (opc', t, n, fl)" and len: "2 \<le> length ops"
    and e: "effect_of cpu base h opc ops = Some e" and v: "ef_value e = le_bytes n (i64_val imm)"
    and fit: "imm_fits t (i64_val imm)" and flags: "fl \<longrightarrow> \<not> flags_read"
  shows "\<exists>e'. effect_of cpu base h opc' (ops[1 := SopImm imm]) = Some e' \<and> same_effect flags_read e e'"
proof -
  note R = result_move_rows[OF f] and E = effect_ofD[OF e]
  obtain oc' where oc': "arch_get_opcode_info opc' = Some oc'" "length (oc_opInfo oc') = 2"
    "oc_opInfo oc' ! 1 = EoiImm t" and al: "\<And>a b. alu cpu opc' a b = Some (take n b, None)"
    using R(2)[of cpu] by (elim exE conjE) (rule that; simp)
  have "imm_operand t (i64_val imm) = le_bytes n (i64_val imm)"
    using R(7) fit imm_fits_bytes by auto
  then have "in_bytes base h opc' (ops[1 := SopImm imm]) 1 = le_bytes n (i64_val imm)"
    using in_bytes_1[OF R(3) oc'(1,2) len] oc'(3) by simp
  then have "alu cpu opc' (in_bytes base h opc' (ops[1 := SopImm imm]) 0) (in_bytes base h opc' (ops[1 := SopImm imm]) 1) =
      Some (le_bytes n (i64_val imm), None)"
    using al by simp
  from effect_ofI[OF plain_never_faults[OF R(4)] this]
  have e': "effect_of cpu base h opc' (ops[1 := SopImm imm]) =
    Some \<lparr>ef_target = ef_target e, ef_value = ef_value e, ef_clears = ef_clears e, ef_flags = None\<rparr>"
    using same_target_of[OF R(1)] E(2,3) v R(5,6) by simp
  have "\<not> fl \<longrightarrow> ef_flags e = None" using R(8)[OF _ E(4)] by blast
  then show ?thesis using e' flags by (auto simp: same_effect_def)
qed

lemma result_load_rows:
  assumes "result_load opc = Some (opc', n)"
  shows "same_target opc opc'"
    and "\<exists>oc' sz. arch_get_opcode_info opc' = Some oc' \<and> length (oc_opInfo oc') = 2 \<and>
      oc_opInfo oc' ! 1 = EoiMem AmRead sz \<and> mem_bytes sz = n \<and> (\<forall>a b. alu cpu opc' a b = Some (take n b, None))"
    and "\<not> count_in_cl opc'" "n = 8 \<Longrightarrow> \<not> needs_alignment opc'"
    and "(opc = MovX MOVSDrm) = (opc' = MovX MOVSDrm)" and "n = 8 \<or> n = 16"
    and "alu cpu opc a b = Some (v, f) \<Longrightarrow> f = None"
  using assms
  by (cases opc rule: result_load.cases;
      auto simp: def_opc_def count_in_cl_def needs_alignment_def same_target_def alu_defs
        first_row_def split: if_splits)+

lemma result_load_length:
  assumes "result_load opc = Some (opc', n)" and "row_fits opc ops" and "hw_ok h"
    and "alu cpu opc (in_bytes base h opc ops 0) (in_bytes base h opc ops 1) = Some (v, f)"
  shows "length v = n"
  using assms
  by (cases opc rule: result_load.cases)
    (auto simp: effect_simps load_lengths Let_def alu_defs simp del: load_place.simps
      split: if_splits prod.splits)

lemma result_load_effect:
  assumes f: "result_load opc = Some (opc', n)" and len: "2 \<le> length ops"
    and e: "effect_of cpu base h opc ops = Some e" and v: "ef_value e = le_bytes n w"
    and ld: "pool_loaded h p" and c: "const_at p a (le_bytes n w)"
  shows "\<exists>e'. effect_of cpu base h opc' (ops[1 := pool_operand a]) = Some e' \<and> same_effect flags_read e e'"
proof -
  note R = result_load_rows[OF f] and E = effect_ofD[OF e]
  obtain oc' sz where oc': "arch_get_opcode_info opc' = Some oc'" "length (oc_opInfo oc') = 2"
    "oc_opInfo oc' ! 1 = EoiMem AmRead sz" "mem_bytes sz = n"
    and al: "\<And>a b. alu cpu opc' a b = Some (take n b, None)"
    using R(2)[of cpu] by (elim exE conjE) (rule that; simp)
  have "in_bytes base h opc' (ops[1 := pool_operand a]) 1 = le_bytes n w"
    using in_bytes_1[OF R(3) oc'(1,2) len] pool_operand_bytes[OF ld c oc'(4)] oc'(3) by simp
  then have v': "alu cpu opc' (in_bytes base h opc' (ops[1 := pool_operand a]) 0)
      (in_bytes base h opc' (ops[1 := pool_operand a]) 1) = Some (le_bytes n w, None)"
    using al by simp
  have "\<not> faults base h opc' (ops[1 := pool_operand a])"
    using R(4,6) c pool_operand_aligned[OF _ len] plain_never_faults by blast
  from effect_ofI[OF this v'] have e': "effect_of cpu base h opc' (ops[1 := pool_operand a]) =
    Some \<lparr>ef_target = ef_target e, ef_value = ef_value e, ef_clears = ef_clears e, ef_flags = None\<rparr>"
    using same_target_of[OF R(1)] E(2,3) v R(5) by simp
  have "ef_flags e = None" by (rule R(7)[OF E(4)])
  then show ?thesis using e' by (simp add: same_effect_def)
qed

section \<open>The result zero\<close>

text \<open>What is used of the logic instructions besides \<open>cpu_ok\<close>.\<close>

definition cpu_logic_ok :: "cpu \<Rightarrow> bool" where
  "cpu_logic_ok cpu \<longleftrightarrow>
     (\<forall>a. cpu_pxor cpu a a = 0) \<and>
     (\<forall>a b. cpu_test8 cpu a b = cpu_test8 cpu b a) \<and> (\<forall>a b. cpu_test16 cpu a b = cpu_test16 cpu b a) \<and>
     (\<forall>a b. cpu_test32 cpu a b = cpu_test32 cpu b a) \<and> (\<forall>a b. cpu_test64 cpu a b = cpu_test64 cpu b a)"

lemma ref_cpu_logic: "cpu_logic_ok ref_cpu"
  by (simp add: cpu_logic_ok_def ref_cpu_def and.commute)

lemma zero_bytes: "le_bytes n (0 :: 'a::len word) = replicate n 0"
  by (simp add: le_bytes_def list_eq_iff_nth_eq)

lemma zero_form_rows:
  assumes "zero_form opc = Some (opc', n, fl)"
  shows "same_target opc opc'" and "opc \<noteq> MovX MOVSDrm"
    and "(opc' = Xor XOR64rr \<and> n = 8) \<or> (opc' = Sse PXOR128rr \<and> n = 16 \<and> \<not> fl)"
    and "\<not> fl \<Longrightarrow> alu cpu opc a b = Some (v, f) \<Longrightarrow> f = None"
  using assms
  by (cases opc rule: zero_form.cases;
      auto simp: def_opc_def count_in_cl_def same_target_def alu_defs first_row_def split: if_splits)+

lemma zero_form_length:
  assumes "zero_form opc = Some (opc', n, fl)" and "row_fits opc ops" and "hw_ok h"
    and "alu cpu opc (in_bytes base h opc ops 0) (in_bytes base h opc ops 1) = Some (v, f)"
  shows "length v = n"
  using assms
  by (cases opc rule: zero_form.cases)
    (auto simp: effect_simps load_lengths Let_def alu_defs simp del: load_place.simps
      split: if_splits prod.splits)

lemma op_reg_0: "op_reg ops 0 = Some r \<Longrightarrow> ops ! 0 = SopReg r"
  by (auto simp: op_reg_def raw_op_def bind_eq_Some_conv split: if_splits static_operand.splits)

lemma op_reg_1: "op_reg ops 1 = Some r \<Longrightarrow> ops ! 1 = SopReg r"
  by (auto simp: op_reg_def raw_op_def bind_eq_Some_conv split: if_splits static_operand.splits)

lemma zero_form_effect:
  assumes cpu: "cpu_ok cpu" "cpu_logic_ok cpu"
    and f: "zero_form opc = Some (opc', n, fl)" and len: "2 \<le> length ops"
    and e: "effect_of cpu base h opc ops = Some e" and v: "ef_value e = le_bytes n (0 :: u128)"
    and r: "op_reg ops 0 = Some r" and flags: "fl \<longrightarrow> \<not> flags_read"
  shows "\<exists>e'. effect_of cpu base h opc' (ops[1 := SopReg r]) = Some e' \<and> same_effect flags_read e e'"
proof -
  note R = zero_form_rows[OF f] and E = effect_ofD[OF e]
  let ?ops = "ops[1 := SopReg r]"
  have o: "?ops ! 0 = SopReg r" "?ops ! 1 = SopReg r" using op_reg_0[OF r] len by simp_all
  have nf: "\<not> faults base h opc' ?ops" using R(3) by (auto intro!: plain_never_faults simp: needs_alignment_def)
  have zero: "le_bytes n (0 :: u128) = replicate n 0" by (rule zero_bytes)
  have "\<exists>fl'. alu cpu opc' (in_bytes base h opc' ?ops 0) (in_bytes base h opc' ?ops 1) = Some (replicate n 0, fl') \<and>
      (opc' = Sse PXOR128rr \<longrightarrow> fl' = None)"
    using R(3)
  proof
    assume x: "opc' = Xor XOR64rr \<and> n = 8"
    obtain w flg where "cpu_xor64 cpu (le_word (load_place (hw_m h) (PlReg r Full)))
        (le_word (load_place (hw_m h) (PlReg r Full))) = (w, flg)" "w = 0"
      using cpu(1) by (cases "cpu_xor64 cpu (le_word (load_place (hw_m h) (PlReg r Full)))
        (le_word (load_place (hw_m h) (PlReg r Full)))") (simp add: cpu_ok_def, metis fst_conv xor_self_eq)
    then show ?thesis
      using x o by (simp add: in_bytes_def count_in_cl_def def_opc_def alu_arith_def zero_bytes del: load_place.simps)
  next
    assume "opc' = Sse PXOR128rr \<and> n = 16 \<and> \<not> fl"
    then show ?thesis
      using o cpu(2)
      by (simp add: in_bytes_def count_in_cl_def def_opc_def alu_plain_def cpu_logic_ok_def zero_bytes del: load_place.simps)
  qed
  then obtain fl' where al: "alu cpu opc' (in_bytes base h opc' ?ops 0) (in_bytes base h opc' ?ops 1) =
      Some (replicate n 0, fl')" "opc' = Sse PXOR128rr \<longrightarrow> fl' = None"
    by blast
  have c: "(opc' = MovX MOVSDrm) = ef_clears e" using R(2,3) E(3) by auto
  have e': "effect_of cpu base h opc' ?ops = Some \<lparr>ef_target = ef_target e, ef_value = ef_value e,
      ef_clears = ef_clears e, ef_flags = fl'\<rparr>"
    using effect_ofI[OF nf al(1)] same_target_of[OF R(1), of ?ops ops] E(2) c v zero by simp
  have "\<not> fl \<Longrightarrow> ef_flags e = None" using R(4) E(4) by blast
  moreover have "\<not> fl \<Longrightarrow> fl' = None \<or> opc' = Xor XOR64rr" using al(2) R(3) by blast
  moreover have "opc' = Xor XOR64rr \<Longrightarrow> fl"
    using f by (cases opc rule: zero_form.cases) (auto split: if_splits)
  ultimately show ?thesis using e' flags by (auto simp: same_effect_def)
qed

section \<open>Adding to zero, swapped tests, pushes\<close>

lemma add_to_move_rows:
  assumes "add_to_move opc = Some opc'"
  shows "same_target opc opc'" and "\<exists>x. opc = Add x \<and> x \<in> {ADD64rr, ADD64mr, ADD64rm}"
    and "\<not> needs_alignment opc'" "opc \<noteq> MovX MOVSDrm" "opc' \<noteq> MovX MOVSDrm"
    and "alu cpu opc' a b = Some (take 8 b, None)"
    and "in_bytes base h opc' ops 1 = in_bytes base h opc ops 1"
  using assms
  by (cases opc rule: add_to_move.cases;
      auto simp: def_opc_def needs_alignment_def same_target_def first_row_def alu_defs in_bytes_def
        count_in_cl_def split: if_splits)+

lemma add_to_move_length:
  assumes "add_to_move opc = Some opc'" and "row_fits opc ops" and "hw_ok h"
  shows "length (in_bytes base h opc ops 0) = 8" "length (in_bytes base h opc ops 1) = 8"
  using assms
  by (cases opc rule: add_to_move.cases;
      auto simp: effect_simps load_lengths Let_def simp del: load_place.simps split: if_splits)+

lemma add_to_move_effect:
  assumes cpu: "cpu_ok cpu" and f: "add_to_move opc = Some opc'"
    and b: "length (in_bytes base h opc ops 1) = 8"
    and e: "effect_of cpu base h opc ops = Some e"
    and a: "in_bytes base h opc ops 0 = le_bytes 8 (0 :: u64)"
  shows "\<exists>e'. effect_of cpu base h opc' ops = Some e' \<and> same_effect False e e'"
proof -
  note R = add_to_move_rows[OF f] and E = effect_ofD[OF e]
  let ?b = "in_bytes base h opc ops 1"
  obtain x where x: "opc = Add x" "x \<in> {ADD64rr, ADD64mr, ADD64rm}" using R(2) by blast
  have z: "(le_word (le_bytes 8 (0 :: u64)) :: u64) = 0" by (simp add: le_word_le_bytes)
  have "fst (cpu_add64 cpu 0 (le_word ?b)) = le_word ?b" using cpu by (simp add: cpu_ok_def)
  then have "ef_value e = ?b"
    using E(4) x a z b by (auto simp: alu_arith_def le_bytes_le_word split: prod.splits)
  then have "alu cpu opc' (in_bytes base h opc' ops 0) (in_bytes base h opc' ops 1) = Some (ef_value e, None)"
    using R(6,7) b by simp
  from effect_ofI[OF plain_never_faults[OF R(3)] this] show ?thesis
    using same_target_of[OF R(1), of ops ops] E(2,3) R(4,5) by (simp add: same_effect_def)
qed

lemma swap_form_static:
  assumes "swap_form opc = Some (opc', t, n)"
  shows "\<not> needs_alignment opc'" "opc \<noteq> MovX MOVSDrm" "opc' \<noteq> MovX MOVSDrm"
    and "\<not> is_stack opc" "\<not> is_stack opc'" "\<not> count_in_cl opc" "\<not> count_in_cl opc'"
    and "\<exists>oc oc' e0 rt rt'. arch_get_opcode_info opc = Some oc \<and> arch_get_opcode_info opc' = Some oc' \<and>
      oc_opInfo oc = [e0, EoiReg rt AmRead Full RANone] \<and>
      oc_opInfo oc' = [EoiReg rt' AmRead Full RANone, EoiImm t] \<and>
      (e0 = EoiReg rt AmRead Full RANone \<and> sizeInBytes rt = n \<and> rt \<in> {RTGprs8, RTGprs16, RTGprs32, RTGprs64} \<or>
       (\<exists>sz. e0 = EoiMem AmRead sz \<and> mem_bytes sz = n))"
  using assms
  by (cases opc rule: swap_form.cases;
      auto simp: needs_alignment_def def_opc_def count_in_cl_def split: if_splits)+

lemma first_read_length:
  assumes "operand_fits (EoiReg rt m Full w) op" and "hw_ok h" and "rt \<in> {RTGprs8, RTGprs16, RTGprs32, RTGprs64}"
  shows "length (operand_bytes base h (EoiReg rt m Full w) op) = sizeInBytes rt"
  using assms load_lengths[OF assms(2)] by (cases op) (auto simp del: load_place.simps)

lemma swap_form_rows:
  assumes f: "swap_form opc = Some (opc', t, n)" and fit: "row_fits opc ops" and h: "hw_ok h"
    and r: "op_reg ops 1 = Some r"
  shows "in_bytes base h opc' (ops[0 := SopReg r, 1 := SopImm imm]) 0 = in_bytes base h opc ops 1"
    and "in_bytes base h opc' (ops[0 := SopReg r, 1 := SopImm imm]) 1 = imm_operand t (i64_val imm)"
    and "length (in_bytes base h opc ops 0) = n"
    and "target_of base h opc' (ops[0 := SopReg r, 1 := SopImm imm]) = TgNone" "target_of base h opc ops = TgNone"
proof -
  note S = swap_form_static[OF f]
  obtain oc oc' e0 rt rt' where o: "arch_get_opcode_info opc = Some oc" "arch_get_opcode_info opc' = Some oc'"
    "oc_opInfo oc = [e0, EoiReg rt AmRead Full RANone]" "oc_opInfo oc' = [EoiReg rt' AmRead Full RANone, EoiImm t]"
    and e0: "e0 = EoiReg rt AmRead Full RANone \<and> sizeInBytes rt = n \<and> rt \<in> {RTGprs8, RTGprs16, RTGprs32, RTGprs64} \<or>
       (\<exists>sz. e0 = EoiMem AmRead sz \<and> mem_bytes sz = n)"
    using S(8) by blast
  have ft: "2 \<le> length ops" "operand_fits e0 (ops ! 0)" "ops ! 1 = SopReg r"
    using fit o(1,3) op_reg_1[OF r] by (simp_all add: operands_fit_2)
  have ne: "ops \<noteq> []" using ft(1) by auto
  show "in_bytes base h opc' (ops[0 := SopReg r, 1 := SopImm imm]) 0 = in_bytes base h opc ops 1"
    "in_bytes base h opc' (ops[0 := SopReg r, 1 := SopImm imm]) 1 = imm_operand t (i64_val imm)"
    using S(6,7) o ft ne by (simp_all add: in_bytes_def del: load_place.simps)
  show "length (in_bytes base h opc ops 0) = n"
    using e0 S(6) o ft h first_read_length[of rt AmRead RANone "ops ! 0" h base]
    by (cases "ops ! 0") (auto simp: in_bytes_def Let_def simp del: load_place.simps)
  show "target_of base h opc' (ops[0 := SopReg r, 1 := SopImm imm]) = TgNone" "target_of base h opc ops = TgNone"
    using S(4,5) o ft ne e0 by (cases "ops ! 0"; auto simp: target_first first_row_def)+
qed

lemma swap_form_type:
  "swap_form opc = Some (opc', t, n) \<Longrightarrow>
   (t, n) \<in> {(OtImmediate8, 1), (OtImmediate16, 2), (OtImmediate32, 4), (OtSignedImmediate32, 8)}"
  "swap_form opc = Some (opc', t, n) \<Longrightarrow> reads_at opc ops 0"
  "cpu_logic_ok cpu \<Longrightarrow> swap_form opc = Some (opc', t, n) \<Longrightarrow> alu cpu opc' b a = alu cpu opc a b"
  by (cases opc rule: swap_form.cases;
      auto simp: alu_flags_def cpu_logic_ok_def reads_at_def reads_operands_def def_opc_def split: if_splits)+

lemma swap_form_effect:
  assumes cpu: "cpu_logic_ok cpu" and f: "swap_form opc = Some (opc', t, n)"
    and fit: "row_fits opc ops" "hw_ok h" "op_reg ops 1 = Some r"
    and e: "effect_of cpu base h opc ops = Some e"
    and a: "in_bytes base h opc ops 0 = imm_operand t (i64_val imm)"
  shows "effect_of cpu base h opc' (ops[0 := SopReg r, 1 := SopImm imm]) = Some e"
proof -
  note R = swap_form_rows[OF f fit] and S = swap_form_static[OF f] and E = effect_ofD[OF e]
  have "effect_of cpu base h opc' (ops[0 := SopReg r, 1 := SopImm imm]) = effect_of cpu base h opc ops"
    using R(1,2,4,5) S(2,3) a swap_form_type(3)[OF cpu f] E(1) plain_never_faults[OF S(1)]
    by (intro effect_cong) simp_all
  then show ?thesis using e by simp
qed

lemma push_form_static:
  assumes "push_form opc = Some (opc', t, n)"
  shows "\<not> needs_alignment opc'" "opc \<noteq> MovX MOVSDrm" "opc' \<noteq> MovX MOVSDrm"
    and "is_stack opc" "is_stack opc'" "\<not> count_in_cl opc" "\<not> count_in_cl opc'"
    and "reads_at opc ops 0" and "alu cpu opc' x y = alu cpu opc x z"
    and "(t, n) \<in> {(OtImmediate16, 2), (OtSignedImmediate32, 8)}"
    and "\<exists>oc oc' e0 rt. arch_get_opcode_info opc = Some oc \<and> arch_get_opcode_info opc' = Some oc' \<and>
      oc_opInfo oc = [e0] \<and> oc_opInfo oc' = [EoiImm t] \<and>
      (e0 = EoiReg rt AmRead Full RANone \<and> sizeInBytes rt = n \<and> rt \<in> {RTGprs8, RTGprs16, RTGprs32, RTGprs64} \<or>
       (\<exists>sz. e0 = EoiMem AmRead sz \<and> mem_bytes sz = n))"
  using assms
  by (cases opc rule: push_form.cases;
      auto simp: needs_alignment_def def_opc_def count_in_cl_def reads_at_def reads_operands_def split: if_splits)+

lemma push_form_rows:
  assumes f: "push_form opc = Some (opc', t, n)" and fit: "row_fits opc ops" and h: "hw_ok h"
  shows "in_bytes base h opc' (ops[0 := SopImm imm]) 0 = imm_operand t (i64_val imm)"
    and "length (in_bytes base h opc ops 0) = n"
    and "target_of base h opc' ops' = target_of base h opc ops"
proof -
  note S = push_form_static[OF f]
  obtain oc oc' e0 rt where o: "arch_get_opcode_info opc = Some oc" "arch_get_opcode_info opc' = Some oc'"
    "oc_opInfo oc = [e0]" "oc_opInfo oc' = [EoiImm t]"
    and e0: "e0 = EoiReg rt AmRead Full RANone \<and> sizeInBytes rt = n \<and> rt \<in> {RTGprs8, RTGprs16, RTGprs32, RTGprs64} \<or>
       (\<exists>sz. e0 = EoiMem AmRead sz \<and> mem_bytes sz = n)"
    using S(11) by blast
  have ft: "1 \<le> length ops" "operand_fits e0 (ops ! 0)" using fit o(1,3) by (simp_all add: operands_fit_1)
  have ne: "ops \<noteq> []" using ft(1) by auto
  show "in_bytes base h opc' (ops[0 := SopImm imm]) 0 = imm_operand t (i64_val imm)"
    using S(7) o ne by (simp add: in_bytes_def)
  show "length (in_bytes base h opc ops 0) = n"
    using e0 S(6) o ft h first_read_length[of rt AmRead RANone "ops ! 0" h base]
    by (cases "ops ! 0") (auto simp: in_bytes_def Let_def simp del: load_place.simps)
  show "target_of base h opc' ops' = target_of base h opc ops"
    using S(4,5) by (simp add: target_first)
qed

lemma push_form_effect:
  assumes f: "push_form opc = Some (opc', t, n)" and fit: "row_fits opc ops" "hw_ok h"
    and e: "effect_of cpu base h opc ops = Some e"
    and a: "in_bytes base h opc ops 0 = imm_operand t (i64_val imm)"
  shows "effect_of cpu base h opc' (ops[0 := SopImm imm]) = Some e"
proof -
  note S = push_form_static[OF f] and R = push_form_rows[OF f fit] and E = effect_ofD[OF e]
  have "effect_of cpu base h opc' (ops[0 := SopImm imm]) = effect_of cpu base h opc ops"
  proof (rule effect_cong[OF E(1) plain_never_faults[OF S(1)]])
    show "alu cpu opc' (in_bytes base h opc' (ops[0 := SopImm imm]) 0) (in_bytes base h opc' (ops[0 := SopImm imm]) 1) =
        alu cpu opc (in_bytes base h opc ops 0) (in_bytes base h opc ops 1)"
      unfolding R(1) a by (rule S(9))
  qed (use S(2,3) R(3) in simp_all)
  then show ?thesis using e by simp
qed

section \<open>Instructions without an effect\<close>

lemma store_same:
  assumes "hw_ok h" and "reg_range r a = (loc, off, n)" and "loc_ok loc" and "off + n \<le> loc_size loc"
    and "a \<noteq> FullZeroParent"
  shows "store_place (hw_m h) (PlReg r a) (load_place (hw_m h) (PlReg r a)) = hw_m h"
  using assms by (simp add: own_access_def splice_reg_def splice_segment hw_ok_def)

lemma store_same_reg:
  assumes "hw_ok h" and "reg_has_type r t" and "(t, a) \<in> {(RTGprs64, Full), (RTSse128, Full), (RTSse128, H0)}"
  shows "store_place (hw_m h) (PlReg r a) (load_place (hw_m h) (PlReg r a)) = hw_m h"
proof -
  have acc: "access_ok r a"
    using assms(2,3) by (cases r) (auto simp: reg_has_type_def def_reg_simple_def def_reg_xmm_def access_ok_def
        getSubRegisterMask_def nth_opt_def)
  have na: "a \<noteq> FullZeroParent" using assms(3) by auto
  obtain loc off n where "reg_range r (own_access a) = (loc, off, n)" "loc_ok loc" "off + n \<le> loc_size loc"
    using reg_range_own[OF acc] by blast
  then show ?thesis using store_same[OF assms(1) _ _ _ na] na by (simp add: own_access_def)
qed

lemma target_keeps_operand:
  assumes "operand_fits e op" and "hw_ok h"
    and "(\<exists>m. e = EoiReg RTGprs64 m Full Full) \<or> (\<exists>m sz. e = EoiMem m sz \<and> m \<noteq> AmAddress)"
  shows "target_keeps h (operand_target base h e op) (operand_bytes base h e op)"
  using assms store_same_reg[OF assms(2), of _ RTGprs64 Full]
  by (cases e; cases op) (auto simp: Let_def simp del: load_place.simps store_place.simps)

lemma alu_arith_zero:
  fixes g :: "'w::len word \<Rightarrow> 'w word \<Rightarrow> 'w word \<times> eflags"
  assumes "alu_arith g n a (replicate n 0) = Some (v, f)" and "(le_word (replicate n 0) :: 'w word) = 0"
    and "\<And>x. fst (g x 0) = x" and "8 * n = LENGTH('w)" and "length a = n"
  shows "v = a"
proof -
  have "v = le_bytes n (fst (g (le_word a) 0))"
    using assms(1,2) by (auto simp: alu_arith_def split: prod.splits)
  then show ?thesis using assms(3-5) by (simp add: le_bytes_le_word)
qed

lemma neutral_rows:
  assumes "neutral_zero opc = Some n"
  shows "\<exists>e0. first_row opc = Some e0 \<and> ((\<exists>m. e0 = EoiReg RTGprs64 m Full Full \<and> n = 8) \<or>
      (\<exists>m sz. e0 = EoiMem m sz \<and> m \<noteq> AmAddress \<and> mem_bytes sz = n))"
    and "opc \<noteq> MovX MOVSDrm" "\<not> is_stack opc" "reads_operands opc ops \<Longrightarrow> reads_at opc ops 1"
    and "length a = n \<Longrightarrow> cpu_ok cpu \<Longrightarrow> alu cpu opc a (replicate n 0) = Some (v, f) \<Longrightarrow> v = a"
  using assms
proof -
  have z: "(le_word (replicate 8 0) :: u64) = 0" "(le_word (replicate 4 0) :: u32) = 0"
    using le_word_le_bytes[where 'b = 64 and n = 8 and w = "0 :: u64"]
      le_word_le_bytes[where 'b = 32 and n = 4 and w = "0 :: u32"] by (simp_all add: zero_bytes)
  show "\<exists>e0. first_row opc = Some e0 \<and> ((\<exists>m. e0 = EoiReg RTGprs64 m Full Full \<and> n = 8) \<or>
      (\<exists>m sz. e0 = EoiMem m sz \<and> m \<noteq> AmAddress \<and> mem_bytes sz = n))"
    "opc \<noteq> MovX MOVSDrm" "\<not> is_stack opc" "reads_operands opc ops \<Longrightarrow> reads_at opc ops 1"
    using assms
    by (cases opc rule: neutral_zero.cases;
        auto simp: first_row_def def_opc_def reads_at_def split: if_splits)+
  assume l: "length a = n" and c: "cpu_ok cpu" and al: "alu cpu opc a (replicate n 0) = Some (v, f)"
  show "v = a"
    using assms al c z l
    by (cases opc rule: neutral_zero.cases)
      (auto simp: cpu_ok_def split: if_splits dest!: alu_arith_zero)
qed

lemma neutral_effect:
  assumes cpu: "cpu_ok cpu" and f: "neutral_zero opc = Some n" and fit: "row_fits opc ops" and h: "hw_ok h"
    and e: "effect_of cpu base h opc ops = Some e"
    and b: "in_bytes base h opc ops 1 = le_bytes n (0 :: u64)"
  shows "no_effect False h e"
proof -
  note R = neutral_rows[OF f] and E = effect_ofD[OF e]
  obtain e0 where e0: "first_row opc = Some e0"
    "(\<exists>m. e0 = EoiReg RTGprs64 m Full Full \<and> n = 8) \<or> (\<exists>m sz. e0 = EoiMem m sz \<and> m \<noteq> AmAddress \<and> mem_bytes sz = n)"
    using R(1) by blast
  have fit0: "operand_fits e0 (ops ! 0)"
    using e0(1) fit by (auto simp: first_row_def operands_fit_def list_all_iff split: option.splits if_splits)
  have a: "in_bytes base h opc ops 0 = operand_bytes base h e0 (ops ! 0)" by (rule bytes_first[OF e0(1)])
  have "length (in_bytes base h opc ops 0) = n"
    using a e0(2) fit0 load_lengths(4)[OF h] by (cases "ops ! 0") (auto simp: Let_def simp del: load_place.simps)
  then have "ef_value e = operand_bytes base h e0 (ops ! 0)"
    using R(5)[OF _ cpu] E(4) b a by (simp add: zero_bytes)
  moreover have "ef_target e = operand_target base h e0 (ops ! 0)"
    using E(2) R(3) e0(1) by (simp add: target_first)
  ultimately show ?thesis
    using target_keeps_operand[OF fit0 h] e0(2) E(3) R(2) by (auto simp: no_effect_def)
qed

lemma count_zero:
  assumes "and v 0x3f = (0 :: u64)"
  shows "unat (le_word (le_bytes 1 v) :: byte) mod 64 = 0"
proof -
  have "and v 0x3f = take_bit 6 v" by (simp add: take_bit_eq_mask mask_eq_exp_minus_1)
  then have "unat (take_bit 6 v) = 0" using assms by simp
  then have m: "unat v mod 64 = 0" by (simp add: unsigned_take_bit_eq take_bit_nat_def)
  have "unat (ucast v :: byte) = unat v mod 256"
    by (simp add: unsigned_ucast_eq take_bit_nat_def)
  then have "unat (ucast v :: byte) mod 64 = unat v mod 64" by (simp add: mod_mod_cancel)
  then show ?thesis using m by (simp add: le_word_le_bytes)
qed

lemma shift_rows:
  assumes "row_fits (Shift x) ops" and "hw_ok h"
  shows "\<exists>e0. first_row (Shift x) = Some e0 \<and> operand_fits e0 (ops ! 0) \<and>
      ((\<exists>m. e0 = EoiReg RTGprs64 m Full Full) \<or> (\<exists>m sz. e0 = EoiMem m sz \<and> m \<noteq> AmAddress \<and> mem_bytes sz = 8))"
    and "length (in_bytes base h (Shift x) ops 1) = 1" and "reads_at (Shift x) ops 1"
  using assms
  by (cases x; auto simp: first_row_def row_simps reads_at_def reads_operands_def in_bytes_def count_in_cl_def
      load_lengths simp del: load_place.simps)+

lemma no_shift_effect:
  assumes cpu: "cpu_ok cpu" and fit: "row_fits (Shift x) ops" and h: "hw_ok h"
    and e: "effect_of cpu base h (Shift x) ops = Some e"
    and b: "in_bytes base h (Shift x) ops 1 = le_bytes 1 v" and v: "and v 0x3f = (0 :: u64)"
  shows "no_effect True h e"
proof -
  note R = shift_rows[OF fit h] and E = effect_ofD[OF e]
  obtain e0 where e0: "first_row (Shift x) = Some e0" "operand_fits e0 (ops ! 0)"
    "(\<exists>m. e0 = EoiReg RTGprs64 m Full Full) \<or> (\<exists>m sz. e0 = EoiMem m sz \<and> m \<noteq> AmAddress \<and> mem_bytes sz = 8)"
    using R(1) by blast
  have a: "in_bytes base h (Shift x) ops 0 = operand_bytes base h e0 (ops ! 0)" by (rule bytes_first[OF e0(1)])
  have l: "length (in_bytes base h (Shift x) ops 0) = 8"
    using a e0(2,3) load_lengths(4)[OF h] by (cases "ops ! 0") (auto simp: Let_def simp del: load_place.simps)
  have n: "unat (le_word (le_bytes 1 v) :: byte) mod 64 = 0" by (rule count_zero[OF v])
  have f: "fst (cpu_shl64 cpu w (le_word (le_bytes 1 v))) = w" "fst (cpu_shr64 cpu w (le_word (le_bytes 1 v))) = w" for w
    using cpu n by (simp_all add: cpu_ok_def)
  have "ef_value e = le_bytes 8 (le_word (in_bytes base h (Shift x) ops 0) :: u64) \<and> ef_flags e = None"
    using E(4) f n unfolding b by (auto simp: alu_shift_def split: prod.splits if_splits) (metis fst_conv)+
  then have "ef_value e = operand_bytes base h e0 (ops ! 0)" "ef_flags e = None"
    using a l by (simp_all add: le_bytes_le_word)
  moreover have "ef_target e = operand_target base h e0 (ops ! 0)"
    using E(2) e0(1) by (simp add: target_first)
  ultimately show ?thesis
    using target_keeps_operand[OF e0(2) h] e0(3) E(3) by (auto simp: no_effect_def)
qed

lemma self_move_effect:
  assumes f: "self_move opc" and fit: "row_fits opc ops" and h: "hw_ok h" and s: "same_regs ops = Some True"
    and e: "effect_of cpu base h opc ops = Some e"
  shows "no_effect True h e"
proof -
  obtain r where r: "ops ! 0 = SopReg r" "ops ! 1 = SopReg r"
    using s op_reg_0[of ops] op_reg_1[of ops] by (auto simp: same_regs_def bind_eq_Some_conv simp del: One_nat_def)
  note E = effect_ofD[OF e]
  consider (gpr) "opc = Mov MOV64rr" | (low) "opc = MovX MOVSDrr"
    | (xmm) "opc \<in> {MovX MOVAPDrr, MovX MOVUPDrr, MovX MOVUPSrr}"
    using f by (auto simp: self_move_def)
  then show ?thesis
  proof cases
    case gpr
    then show ?thesis
      using E r fit load_lengths(4)[OF h] store_same_reg[OF h, of r RTGprs64 Full]
      by (simp add: no_effect_def target_first first_row_def in_bytes_def count_in_cl_def row_simps alu_defs
          del: load_place.simps store_place.simps)
  next
    case low
    then show ?thesis
      using E r fit load_lengths(6)[OF h] store_same_reg[OF h, of r RTSse128 H0]
      by (simp add: no_effect_def target_first first_row_def in_bytes_def count_in_cl_def row_simps alu_defs
          del: load_place.simps store_place.simps)
  next
    case xmm
    then show ?thesis
      using E r fit load_lengths(5)[OF h] store_same_reg[OF h, of r RTSse128 Full]
      by (auto simp: no_effect_def target_first first_row_def in_bytes_def count_in_cl_def row_simps alu_defs
          simp del: load_place.simps store_place.simps)
  qed
qed

end
