(* ===== verification/Spec_Sound.thy ===== *)
theory Spec_Sound
  imports Spec_Forms
begin

text \<open>
  The rules of the specialization keep the form of the operands and the effect of the
  instruction, and so does the pass that applies the handlers.
\<close>

section \<open>Every rule is sound\<close>

definition rewrites_to :: "cpu \<Rightarrow> base \<Rightarrow> hw \<Rightarrow> bool \<Rightarrow> effect \<Rightarrow> spec_ret \<Rightarrow> opcode \<Rightarrow> static_operand list \<Rightarrow> bool" where
  "rewrites_to cpu base h flags_read e ret opc' ops' =
     (case ret of
        NoChange \<Rightarrow> True
      | Change \<Rightarrow> (case effect_of cpu base h opc' ops' of Some e' \<Rightarrow> same_effect flags_read e e' | None \<Rightarrow> False)
      | Delete \<Rightarrow> no_effect flags_read h e)"

lemma same_effect_refl [simp]: "same_effect fl e e"
  by (simp add: same_effect_def)

lemma same_effect_mono: "same_effect fl e e' \<Longrightarrow> (fl' \<Longrightarrow> fl) \<Longrightarrow> same_effect fl' e e'"
  by (auto simp: same_effect_def)

lemma no_effect_mono: "no_effect fl h e \<Longrightarrow> (fl' \<Longrightarrow> fl) \<Longrightarrow> no_effect fl' h e"
  by (auto simp: no_effect_def)

lemma spec_rule_effect:
  assumes rule: "spec_rule c opc ops p ret opc' ops' p'"
    and cpu: "cpu_ok cpu" "cpu_logic_ok cpu" and os: "os_ok (sc_os c)" "pool_ok p" and ld: "pool_loaded h p'"
    and fit: "row_fits opc ops" and len: "2 \<le> length ops"
    and e: "effect_of cpu base h opc ops = Some e" and d: "described base h c opc ops e"
  shows "rewrites_to cpu base h (eflags_read c) e ret opc' ops'"
proof -
  have h: "hw_ok h" using d by (simp add: described_def)
  note E = effect_ofD[OF e]
  note in_of = described_input[OF d] and out_of = described_output[OF d]
  from rule show ?thesis
  proof cases
    case rule_keep
    then show ?thesis by (simp add: rewrites_to_def)
  next
    case (rule_imm t n imm)
    have "in_bytes base h opc ops 1 = le_bytes n (i64_val imm)"
      using in_of[OF rule_imm(6) imm_form_reads[OF rule_imm(4,5)] _ imm_form_length[OF rule_imm(4) fit h]] by simp
    then have "imm_operand t (i64_val imm) = in_bytes base h opc ops 1"
      using imm_fits_bytes[OF rule_imm(7) ] imm_form_type[OF rule_imm(4)] by simp
    then show ?thesis
      using imm_form_effect[OF rule_imm(4) len] rule_imm(1,2) e by (simp add: rewrites_to_def)
  next
    case (rule_const64 v a)
    have "in_bytes base h opc ops 1 = le_bytes 8 v"
      using in_of[OF rule_const64(5) mem_form_rows(9)[OF rule_const64(3,4)] _ mem_form_length[OF rule_const64(3) fit h]]
      by simp
    then have "effect_of cpu base h opc' (ops[1 := pool_operand a]) = Some e"
      using mem_form_effect[OF rule_const64(3) len E(1) ld allocConstant64_ok(2)[OF os rule_const64(6)], of cpu] e
      by simp
    then show ?thesis using rule_const64(1,2) by (simp add: rewrites_to_def)
  next
    case (rule_const128 v a)
    have "in_bytes base h opc ops 1 = le_bytes 16 v"
      using in_of[OF rule_const128(5) mem_form_rows(9)[OF rule_const128(3,4)] _ mem_form_length[OF rule_const128(3) fit h]]
      by simp
    then have "effect_of cpu base h opc' (ops[1 := pool_operand a]) = Some e"
      using mem_form_effect[OF rule_const128(3) len E(1) ld allocConstant128_ok(2)[OF os rule_const128(6)], of cpu] e
      by simp
    then show ?thesis using rule_const128(1,2) by (simp add: rewrites_to_def)
  next
    case (rule_result t n fl imm)
    have "ef_value e = le_bytes n (i64_val imm)"
      using out_of[OF rule_result(5)] result_move_length[OF rule_result(4) fit h E(4)] by simp
    from result_move_effect[OF rule_result(4) len e this rule_result(6,7)]
    show ?thesis using rule_result(1,2) by (auto simp: rewrites_to_def)
  next
    case (rule_load64 v a)
    have "ef_value e = le_bytes 8 v"
      using out_of[OF rule_load64(4)] result_load_length[OF rule_load64(3) fit h E(4)] by simp
    from result_load_effect[OF rule_load64(3) len e this ld allocConstant64_ok(2)[OF os rule_load64(5)], of "eflags_read c"]
    show ?thesis using rule_load64(1,2) by (auto simp: rewrites_to_def)
  next
    case (rule_load128 v a)
    have "ef_value e = le_bytes 16 v"
      using out_of[OF rule_load128(4)] result_load_length[OF rule_load128(3) fit h E(4)] by simp
    from result_load_effect[OF rule_load128(3) len e this ld allocConstant128_ok(2)[OF os rule_load128(5)], of "eflags_read c"]
    show ?thesis using rule_load128(1,2) by (auto simp: rewrites_to_def)
  next
    case (rule_zero n fl r)
    have "ef_value e = le_bytes n (0 :: u128)"
      using out_of[OF rule_zero(5)] zero_form_length[OF rule_zero(4) fit h E(4)] by simp
    from zero_form_effect[OF cpu rule_zero(4) len e this rule_zero(7,6)]
    show ?thesis using rule_zero(1,2) by (auto simp: rewrites_to_def)
  next
    case rule_move
    note L = add_to_move_length[OF rule_move(4) fit h]
    have "reads_at opc ops 0"
      using rule_move(4) by (cases opc rule: add_to_move.cases)
        (auto simp: reads_at_def reads_operands_def def_opc_def split: if_splits)
    then have "in_bytes base h opc ops 0 = le_bytes 8 (0 :: u64)" using in_of[OF rule_move(5) _ _ L(1)] by simp
    from add_to_move_effect[OF cpu(1) rule_move(4) L(2) e this]
    show ?thesis using rule_move(1-3,6) by (auto simp: rewrites_to_def)
  next
    case (rule_swap t n imm r)
    have "in_bytes base h opc ops 0 = le_bytes n (i64_val imm)"
      using in_of[OF rule_swap(5) swap_form_type(2)[OF rule_swap(4)] _ swap_form_rows(3)[OF rule_swap(4) fit h rule_swap(7)]]
      by simp
    then have "in_bytes base h opc ops 0 = imm_operand t (i64_val imm)"
      using imm_fits_bytes[OF rule_swap(6)] swap_form_type(1)[OF rule_swap(4)] by auto
    from swap_form_effect[OF cpu(2) rule_swap(4) fit h rule_swap(7) e this]
    show ?thesis using rule_swap(1,2) by (simp add: rewrites_to_def)
  next
    case (rule_push t n imm)
    have "in_bytes base h opc ops 0 = le_bytes n (i64_val imm)"
      using in_of[OF rule_push(5) push_form_static(8)[OF rule_push(4)] _ push_form_rows(2)[OF rule_push(4) fit h]] by simp
    then have "in_bytes base h opc ops 0 = imm_operand t (i64_val imm)"
      using imm_fits_bytes[OF rule_push(6)] push_form_static(10)[OF rule_push(4)] by auto
    from push_form_effect[OF rule_push(4) fit h e this]
    show ?thesis using rule_push(1,2) by (simp add: rewrites_to_def)
  next
    case (rule_neutral n)
    have "length (in_bytes base h opc ops 1) = n"
      using rule_neutral(5) fit h by (cases opc rule: neutral_zero.cases)
        (auto simp: in_bytes_def count_in_cl_def row_simps load_lengths Let_def simp del: load_place.simps split: if_splits)
    then have "in_bytes base h opc ops 1 = le_bytes n (0 :: u64)"
      using in_of[OF rule_neutral(6) neutral_rows(4)[OF rule_neutral(5,8)]] by simp
    from neutral_effect[OF cpu(1) rule_neutral(5) fit h e this]
    show ?thesis using rule_neutral(1,7) by (simp add: rewrites_to_def)
  next
    case (rule_no_shift s v)
    note R = shift_rows[OF fit[unfolded rule_no_shift(5)] h]
    have "in_bytes base h (Shift s) ops 1 = le_bytes 1 v"
      using in_of[OF rule_no_shift(6)] R(2,3) rule_no_shift(5) by simp
    from no_shift_effect[OF cpu(1) fit[unfolded rule_no_shift(5)] h e[unfolded rule_no_shift(5)] this rule_no_shift(7)]
    show ?thesis using rule_no_shift(1) no_effect_mono by (simp add: rewrites_to_def)
  next
    case rule_self
    from self_move_effect[OF rule_self(5) fit h rule_self(6) e]
    show ?thesis using rule_self(1) no_effect_mono by (simp add: rewrites_to_def)
  qed
qed

section \<open>The form of the operands\<close>

lemma spec_rule_fits:
  assumes rule: "spec_rule c opc ops p Change opc' ops' p'" and fit: "row_fits opc ops" and len: "2 \<le> length ops"
  shows "row_fits opc' ops'" and "length ops' = length ops"
proof -
  have ne: "ops \<noteq> []" using len by auto
  have "row_fits opc' ops' \<and> length ops' = length ops"
    using rule
  proof cases
    case (rule_imm t n imm)
    then show ?thesis using imm_form_rows(4)[OF rule_imm(3)] fit len
      by (cases opc rule: imm_form.cases) (auto simp: row_simps split: if_splits)
  next
    case (rule_const64 v a)
    then show ?thesis using fit len
      by (cases opc rule: mem_form.cases) (auto simp: row_simps pool_operand_def split: if_splits)
  next
    case (rule_const128 v a)
    then show ?thesis using fit len
      by (cases opc rule: mem_form.cases) (auto simp: row_simps pool_operand_def split: if_splits)
  next
    case (rule_result t n fl imm)
    then show ?thesis using fit len
      by (cases opc rule: result_move.cases) (auto simp: row_simps split: if_splits)
  next
    case (rule_load64 v a)
    then show ?thesis using fit len
      by (cases opc rule: result_load.cases) (auto simp: row_simps pool_operand_def split: if_splits)
  next
    case (rule_load128 v a)
    then show ?thesis using fit len
      by (cases opc rule: result_load.cases) (auto simp: row_simps pool_operand_def split: if_splits)
  next
    case (rule_zero n fl r)
    then show ?thesis using fit len op_reg_0[OF rule_zero(6)]
      by (cases opc rule: zero_form.cases) (auto simp: row_simps split: if_splits)
  next
    case rule_move
    then show ?thesis using fit len
      by (cases opc rule: add_to_move.cases) (auto simp: row_simps split: if_splits)
  next
    case (rule_swap t n imm r)
    then show ?thesis using fit len ne op_reg_1[OF rule_swap(6)]
      by (cases opc rule: swap_form.cases) (auto simp: row_simps split: if_splits)
  next
    case (rule_push t n imm)
    then show ?thesis using fit len ne
      by (cases opc rule: push_form.cases) (auto simp: row_simps split: if_splits)
  qed
  then show "row_fits opc' ops'" "length ops' = length ops" by simp_all
qed

lemma run_specialize_follows:
  assumes "arch_get_opcode_info opc = Some oc" and "oc_specialize oc = Some f"
    and "run_specialize f c opc ops p = Some (ret, opc', ops', p')" and "\<not> drops_upper_half opc ret opc'"
  shows "spec_rule c opc ops p ret opc' ops' p'"
proof -
  have "ok_result c opc ops p (run_specialize f c opc ops p)"
    using spec_rows[OF assms(1,2)]
    by (cases f) (simp_all only: run_specialize.simps ok_handlers)
  then show ?thesis using assms(3,4) by (simp add: ok_result_def)
qed

lemma run_specialize_result:
  assumes "arch_get_opcode_info opc = Some oc" and "oc_specialize oc = Some f"
  shows "ok_result c opc ops p (run_specialize f c opc ops p)"
  using spec_rows[OF assms] by (cases f) (simp_all only: run_specialize.simps ok_handlers)

lemma spec_rule_pool:
  assumes "spec_rule c opc ops p ret opc' ops' p'" and "os_ok (sc_os c)" and "pool_ok p"
  shows "pool_kept p p'"
  using assms(1)
proof cases
  case (rule_const64 v a)
  then show ?thesis using allocConstant64_ok[OF assms(2,3) rule_const64(6)] by (simp add: pool_kept_def)
next
  case (rule_const128 v a)
  then show ?thesis using allocConstant128_ok[OF assms(2,3) rule_const128(6)] by (simp add: pool_kept_def)
next
  case (rule_load64 v a)
  then show ?thesis using allocConstant64_ok[OF assms(2,3) rule_load64(5)] by (simp add: pool_kept_def)
next
  case (rule_load128 v a)
  then show ?thesis using allocConstant128_ok[OF assms(2,3) rule_load128(5)] by (simp add: pool_kept_def)
qed (use assms(3) in \<open>simp_all add: pool_kept_def\<close>)

section \<open>The pass\<close>

text \<open>An instruction as the passes see it: its row is the one of its opcode, and its operands fit.\<close>

definition instr_ok :: "instruction \<Rightarrow> bool" where
  "instr_ok ins \<longleftrightarrow>
     in_info ins = arch_get_opcode_info (in_opcode ins) \<and> 2 \<le> length (in_operands ins) \<and>
     (case in_info ins of Some oc \<Rightarrow> operands_fit oc (in_operands ins) | None \<Rightarrow> True)"

lemma row_length: "arch_get_opcode_info opc = Some oc \<Longrightarrow> length (oc_opInfo oc) \<le> 2"
  by (cases opc) (simp, (rename_tac x, case_tac x; auto simp: def_opc_def)+)

text \<open>Storing only the operands of the new row loses nothing.\<close>

lemma set_operands_take:
  assumes "length new = length old" and "n \<le> length old"
  shows "length (set_operands n new old) = length old" and "i < n \<Longrightarrow> set_operands n new old ! i = new ! i"
  using assms by (simp_all add: set_operands_def nth_append)

lemma set_operands_effect:
  assumes "length new = length old" and "2 \<le> length old" and "arch_get_opcode_info opc = Some oc"
    and "operands_fit oc new"
  defines "ops \<equiv> set_operands (length (oc_opInfo oc)) new old"
  shows "effect_of cpu base h opc ops = effect_of cpu base h opc new" and "operands_fit oc ops"
proof -
  note len = row_length[OF assms(3)]
  have n: "length (oc_opInfo oc) \<le> length old" using len assms(2) by simp
  have at: "i < length (oc_opInfo oc) \<Longrightarrow> ops ! i = new ! i" for i
    using set_operands_take[OF assms(1) n] by (simp add: ops_def)
  show "operands_fit oc ops"
    using assms(4) at set_operands_take(1)[OF assms(1) n] assms(1) n
    by (simp add: operands_fit_def list_all_iff ops_def)
  have i: "in_bytes base h opc ops i = in_bytes base h opc new i" for i
    using at assms(3) by (simp add: in_bytes_def)
  have t: "target_of base h opc ops = target_of base h opc new"
    using at assms(3) by (auto simp: target_first first_row_def)
  have "faults base h opc ops = faults base h opc new"
  proof (cases "needs_alignment opc")
    case True
    then have "length (oc_opInfo oc) = 2" using assms(3) by (auto simp: needs_alignment_def def_opc_def)
    then show ?thesis using at by (simp add: faults_def)
  qed (simp add: faults_def)
  then show "effect_of cpu base h opc ops = effect_of cpu base h opc new" using i t by (simp add: effect_of_def)
qed

lemma handle_instruction_cases:
  assumes "handle_instruction os cfg di live ins p = Some (ins', del, p')" and "instr_ok ins"
  obtains (same) "ins' = ins" "\<not> del" "pool_ok p \<Longrightarrow> os_ok os \<Longrightarrow> pool_kept p p'"
    | (spec) oc f ret opc' ops' where "in_info ins = Some oc" "oc_specialize oc = Some f"
      "run_specialize f \<lparr>sc_di = di, sc_live = live, sc_env = cfg, sc_os = os\<rparr> (in_opcode ins) (in_operands ins) p =
         Some (ret, opc', ops', p')"
      "ret = Change \<and> \<not> del \<and> in_opcode ins' = opc' \<and> in_info ins' = arch_get_opcode_info opc' \<and>
         in_operands ins' = set_operands (case arch_get_opcode_info opc' of Some oc \<Rightarrow> length (oc_opInfo oc) | None \<Rightarrow> 0)
           ops' (in_operands ins) \<or> ret = Delete \<and> del \<and> ins' = ins"
proof -
  consider (none) "ins' = ins" "\<not> del" "p' = p"
    | (keeps) oc f opc' ops' where "in_info ins = Some oc" "oc_specialize oc = Some f"
      "run_specialize f \<lparr>sc_di = di, sc_live = live, sc_env = cfg, sc_os = os\<rparr> (in_opcode ins) (in_operands ins) p =
         Some (NoChange, opc', ops', p')" "ins' = ins" "\<not> del"
    | (does) oc f ret opc' ops' where "in_info ins = Some oc" "oc_specialize oc = Some f"
      "run_specialize f \<lparr>sc_di = di, sc_live = live, sc_env = cfg, sc_os = os\<rparr> (in_opcode ins) (in_operands ins) p =
         Some (ret, opc', ops', p')"
      "ret = Change \<and> \<not> del \<and> in_opcode ins' = opc' \<and> in_info ins' = arch_get_opcode_info opc' \<and>
         in_operands ins' = set_operands (case arch_get_opcode_info opc' of Some oc \<Rightarrow> length (oc_opInfo oc) | None \<Rightarrow> 0)
           ops' (in_operands ins) \<or> ret = Delete \<and> del \<and> ins' = ins"
  proof (cases "in_info ins")
    case None
    then show thesis using assms(1) none by (simp add: handle_instruction_def)
  next
    case (Some oc)
    show thesis
    proof (cases "oc_specialize oc")
      case None
      then show thesis using assms(1) Some none by (simp add: handle_instruction_def)
    next
      case f: (Some f)
      let ?run = "run_specialize f \<lparr>sc_di = di, sc_live = live, sc_env = cfg, sc_os = os\<rparr>
        (in_opcode ins) (in_operands ins) p"
      obtain ret opc' ops' p'' where r: "?run = Some (ret, opc', ops', p'')"
        using assms(1) Some f by (cases ?run) (auto simp: handle_instruction_def)
      have H: "handle_instruction os cfg di live ins p = Some (case ret of
          Change \<Rightarrow> (\<lparr>in_opcode = opc', in_operands =
             set_operands (case arch_get_opcode_info opc' of Some oc \<Rightarrow> length (oc_opInfo oc) | None \<Rightarrow> 0) ops' (in_operands ins),
             in_info = arch_get_opcode_info opc'\<rparr>, False, p'')
        | Delete \<Rightarrow> (ins, True, p'') | NoChange \<Rightarrow> (ins, False, p''))"
        using Some f r by (simp add: handle_instruction_def Let_def split: spec_ret.split)
      show thesis
      proof (cases ret)
        case NoChange
        then have "ins' = ins" "\<not> del" "p'' = p'" using H assms(1) by simp_all
        then show thesis using keeps[OF Some f] r NoChange by blast
      next
        case Change
        then have "in_opcode ins' = opc'" "in_info ins' = arch_get_opcode_info opc'" "\<not> del" "p'' = p'"
          "in_operands ins' = set_operands (case arch_get_opcode_info opc' of Some oc \<Rightarrow> length (oc_opInfo oc) | None \<Rightarrow> 0)
             ops' (in_operands ins)"
          using H assms(1) by auto
        then show thesis using does[OF Some f] r Change by blast
      next
        case Delete
        then have "ins' = ins" "del" "p'' = p'" using H assms(1) by simp_all
        then show thesis using does[OF Some f] r Delete by blast
      qed
    qed
  qed
  then show thesis
  proof cases
    case none
    then show thesis using same by (simp add: pool_kept_def)
  next
    case keeps
    have row: "arch_get_opcode_info (in_opcode ins) = Some oc"
      using assms(2) keeps(1) by (auto simp: instr_ok_def)
    have nd: "\<not> drops_upper_half (in_opcode ins) NoChange opc'" by (simp add: drops_upper_half_def)
    from run_specialize_follows[OF row keeps(2,3) nd] show thesis
      using same keeps(4,5) spec_rule_pool[of _ _ _ p _ _ _ p'] by fastforce
  next
    case does
    then show thesis using spec by blast
  qed
qed

lemma handle_instruction_change:
  assumes "arch_get_opcode_info opc = Some oc" and fit: "operands_fit oc ops" and len: "2 \<le> length ops"
    and "oc_specialize oc = Some f" and r: "run_specialize f c opc ops p = Some (Change, opc', ops', p')"
  shows "\<exists>oc'. arch_get_opcode_info opc' = Some oc' \<and> operands_fit oc' ops' \<and> length ops' = length ops"
proof -
  have ok: "ok_result c opc ops p (Some (Change, opc', ops', p'))"
    using run_specialize_result[OF assms(1,4)] r by metis
  show ?thesis
  proof (cases "spec_rule c opc ops p Change opc' ops' p'")
    case True
    then have "row_fits opc' ops'" "length ops' = length ops"
      using spec_rule_fits[OF True] fit len assms(1) by simp_all
    then show ?thesis by (auto split: option.splits)
  next
    case False
    then obtain x a where x: "opc = Sse x" "ops' = ops[1 := pool_operand a]" "opc' = MovX MOVSDrm"
      using ok by (auto simp: ok_result_def drops_upper_half_def)
    then show ?thesis
      using fit len assms(1) by (cases x) (auto simp: row_simps pool_operand_def)
  qed
qed

text \<open>The pass keeps every instruction in order, and the pool.\<close>

lemma handle_instruction_ok:
  assumes h: "handle_instruction os cfg di live ins p = Some (ins', del, p')" and ok: "instr_ok ins"
  shows "instr_ok ins'"
  using h ok
proof (cases rule: handle_instruction_cases)
  case same
  then show ?thesis using ok by simp
next
  case (spec oc f ret opc' ops')
  have row: "arch_get_opcode_info (in_opcode ins) = Some oc" and fit: "operands_fit oc (in_operands ins)"
    and len: "2 \<le> length (in_operands ins)"
    using ok spec(1) by (auto simp: instr_ok_def)
  from spec(4) show ?thesis
  proof (elim disjE conjE)
    assume c: "ret = Change" "in_opcode ins' = opc'" "in_info ins' = arch_get_opcode_info opc'"
      "in_operands ins' = set_operands (case arch_get_opcode_info opc' of Some oc \<Rightarrow> length (oc_opInfo oc) | None \<Rightarrow> 0)
           ops' (in_operands ins)"
    obtain oc' where oc': "arch_get_opcode_info opc' = Some oc'" "operands_fit oc' ops'"
      "length ops' = length (in_operands ins)"
      using handle_instruction_change[OF row fit len spec(2)] spec(3) c(1) by blast
    have n: "length (oc_opInfo oc') \<le> length (in_operands ins)" using row_length[OF oc'(1)] len by simp
    show ?thesis
      using c oc' set_operands_effect(2)[OF oc'(3) len oc'(1,2)] set_operands_take(1)[OF oc'(3) n] len
      by (simp add: instr_ok_def)
  qed (use ok in simp)
qed

lemma handle_instruction_effect:
  assumes h: "handle_instruction os cfg di live ins p = Some (ins', del, p')" and ok: "instr_ok ins"
    and nd: "\<not> drops_upper_half (in_opcode ins) (if del then Delete else Change) (in_opcode ins')"
    and cpu: "cpu_ok cpu" "cpu_logic_ok cpu" and os: "os_ok os" "pool_ok p" and ld: "pool_loaded hw p'"
    and e: "effect_of cpu base hw (in_opcode ins) (in_operands ins) = Some e"
    and d: "described base hw \<lparr>sc_di = di, sc_live = live, sc_env = cfg, sc_os = os\<rparr> (in_opcode ins) (in_operands ins) e"
  shows "(if del then no_effect (registersWillBeRead live eflags_mask) hw e
    else \<exists>e'. effect_of cpu base hw (in_opcode ins') (in_operands ins') = Some e' \<and>
      same_effect (registersWillBeRead live eflags_mask) e e') \<and> pool_kept p p'"
  using h ok
proof (cases rule: handle_instruction_cases)
  case same
  then show ?thesis using e os by simp
next
  case (spec oc f ret opc' ops')
  let ?c = "\<lparr>sc_di = di, sc_live = live, sc_env = cfg, sc_os = os\<rparr>"
  have row: "arch_get_opcode_info (in_opcode ins) = Some oc" and fit: "operands_fit oc (in_operands ins)"
    and len: "2 \<le> length (in_operands ins)"
    using ok spec(1) by (auto simp: instr_ok_def)
  have nd': "\<not> drops_upper_half (in_opcode ins) ret opc'"
    using spec(4) nd by (auto simp: drops_upper_half_def)
  note rule = run_specialize_follows[OF row spec(2,3) nd']
  have rw: "rewrites_to cpu base hw (eflags_read ?c) e ret opc' ops'"
    using spec_rule_effect[OF rule cpu _ _ ld _ len e d] row fit os by simp
  have kept: "pool_kept p p'" using spec_rule_pool[OF rule] os by simp
  from spec(4) show ?thesis
  proof (elim disjE conjE)
    assume c: "ret = Change" "\<not> del" "in_opcode ins' = opc'"
      "in_operands ins' = set_operands (case arch_get_opcode_info opc' of Some oc \<Rightarrow> length (oc_opInfo oc) | None \<Rightarrow> 0)
           ops' (in_operands ins)"
    obtain oc' where oc': "arch_get_opcode_info opc' = Some oc'" "operands_fit oc' ops'"
      "length ops' = length (in_operands ins)"
      using handle_instruction_change[OF row fit len spec(2)] spec(3) c(1) by blast
    have "effect_of cpu base hw (in_opcode ins') (in_operands ins') = effect_of cpu base hw opc' ops'"
      using c oc'(1) set_operands_effect(1)[OF oc'(3) len oc'(1,2)] by simp
    then show ?thesis
      using rw c(1,2) kept by (auto simp: rewrites_to_def eflags_read_def split: option.splits)
  next
    assume "ret = Delete" "del"
    then show ?thesis using rw kept by (simp add: rewrites_to_def eflags_read_def)
  qed
qed

end
