(* ===== verification/Spec_Demo.thy ===== *)
theory Spec_Demo
  imports Divergences Spec_Sound
begin

text \<open>
  Concrete instructions for the specialization: one that is rewritten, and those whose upper
  half is lost.
\<close>

section \<open>Contexts\<close>

text \<open>An operand with the given input and output.\<close>

definition io_operand :: "dyn_value \<Rightarrow> dyn_value \<Rightarrow> dyn_operand" where
  "io_operand i out = \<lparr>do_loc = DlImm OtNone, do_nr = 0, do_isImpl = False, do_isInput = True, do_isCondInput = False,
     do_isOutput = True, do_isCondOutput = False, do_input = i, do_output = out\<rparr>"

definition io_info :: "dyn_operand list \<Rightarrow> dyn_info" where
  "io_info ops = (dyn_info_init info_empty TTrue)\<lparr>di_operands := ops\<rparr>"

definition small_os :: mmap_fn where
  "small_os pr addr n = (case addr of
     Some a \<Rightarrow> if take_bit 12 a = 0 then a else - 1
   | None \<Rightarrow> if n \<le> 0x80000000 then 0x10000 else - 1)"

definition demo_pool :: pool where
  "demo_pool = (case newPool small_os (\<lambda>_. 0) 0x2000 of Some p \<Rightarrow> p
     | None \<Rightarrow> \<lparr>pl_start = 0, pl_size = 0, pl_instrPage = 0, pl_nextInstr = 0, pl_constPage = 0, pl_nextConst = 0,
         pl_map64 = Map.empty, pl_map128 = Map.empty, pl_mem = (\<lambda>_. 0)\<rparr>)"

definition demo_ins :: "opcode \<Rightarrow> static_operand list \<Rightarrow> instruction" where
  "demo_ins opc ops = \<lparr>in_opcode = opc, in_operands = ops, in_info = arch_get_opcode_info opc\<rparr>"

text \<open>A machine whose registers are all ones.\<close>

definition ones_hw :: hw where
  "ones_hw = \<lparr>hw_m = \<lparr>m_reg = (\<lambda>loc. replicate (loc_size loc) 0xff), m_stack = (\<lambda>_. 0)\<rparr>, hw_mem = (\<lambda>_. 0)\<rparr>"

lemma small_os_ok: "os_ok small_os"
proof -
  have p: "unat (a :: u64) mod 4096 = 0" if "take_bit 12 a = 0" for a
  proof -
    have "unat (take_bit 12 a) = 0" using that by simp
    then show ?thesis by (simp add: unsigned_take_bit_eq take_bit_nat_def)
  qed
  have n: "unat (n :: u64) \<le> 2147483648" if "n \<le> 0x80000000" for n
    using that by (simp add: word_le_nat_alt)
  show ?thesis using p n by (fastforce simp: os_ok_def small_os_def)
qed

lemma demo_pool_new: "newPool small_os (\<lambda>_. 0) 0x2000 = Some demo_pool"
proof -
  have "newPool small_os (\<lambda>_. 0) 0x2000 \<noteq> None"
    by (simp add: newPool_def small_os_def resetCodePool_def resetConstantPool_def is_aligned_def Let_def)
  then show ?thesis by (auto simp: demo_pool_def)
qed

lemma demo_pool_ok: "pool_ok demo_pool"
  by (rule newPool_ok[OF small_os_ok demo_pool_new])

lemma demo_pool_fields: "pl_nextInstr demo_pool = 0x10000" "pl_start demo_pool = 0x10000"
  "pl_size demo_pool = 0x2000" "pl_nextConst demo_pool = 0x11fff"
  by (simp_all add: demo_pool_def newPool_def small_os_def resetCodePool_def resetConstantPool_def is_aligned_def
      Let_def)

lemma demo_pool_loaded: "pool_loaded ones_hw demo_pool"
proof -
  have "bs = []" if "const_at demo_pool a bs" for a bs
  proof -
    have "unat (pl_nextConst demo_pool) + 1 = unat (pl_start demo_pool) + unat (pl_size demo_pool)"
      by (simp add: demo_pool_fields)
    then show ?thesis using that by (cases bs) (auto simp: const_at_def)
  qed
  then have "host_bytes (hw_mem ones_hw) a (length bs) = bs" if "const_at demo_pool a bs" for a bs
    using that length_host_bytes[of "hw_mem ones_hw" a 0] by fastforce
  then show ?thesis by (simp add: pool_loaded_def)
qed

lemma ones_hw_ok: "hw_ok ones_hw"
  by (simp add: hw_ok_def ones_hw_def)

section \<open>Rewritings that lose the upper half\<close>

abbreviation "no_flags \<equiv> mask_zero"

text \<open>\<open>mov eax, eax\<close> and \<open>xor eax, 0\<close> are deleted, and they clear the upper half of RAX.\<close>

lemma mov32_deleted:
  "map_option (\<lambda>(i, del, p). del) (handle_instruction small_os bare_env (io_info [io_operand Unknown Unknown, io_operand Unknown Unknown])
     no_flags (demo_ins (Mov MOV32rr) [SopReg EAX, SopReg EAX]) demo_pool) = Some True"
  by (simp add: handle_instruction_def demo_ins_def def_opc_def specialize_mov32_def is_self_def same_regs_def
      op_reg_def raw_op_def delete_it_def)

lemma mov32_effect:
  "\<exists>e. effect_of ref_cpu (\<lambda>_ _. 0) ones_hw (Mov MOV32rr) [SopReg EAX, SopReg EAX] = Some e \<and> \<not> no_effect False ones_hw e"
proof -
  let ?e = "\<lparr>ef_target = TgReg EAX FullZeroParent, ef_value = replicate 4 0xff, ef_clears = False, ef_flags = None\<rparr>"
  have "effect_of ref_cpu (\<lambda>_ _. 0) ones_hw (Mov MOV32rr) [SopReg EAX, SopReg EAX] = Some ?e"
    by code_simp
  moreover have "m_reg (store_place (hw_m ones_hw) (PlReg EAX FullZeroParent) (replicate 4 0xff)) (LGprs64 0) \<noteq>
      m_reg (hw_m ones_hw) (LGprs64 0)"
    by code_simp
  then have "store_place (hw_m ones_hw) (PlReg EAX FullZeroParent) (replicate 4 0xff) \<noteq> hw_m ones_hw" by metis
  ultimately show ?thesis by (simp add: no_effect_def del: store_place.simps)
qed

lemma xor32_deleted:
  "map_option (\<lambda>(i, del, p). del) (handle_instruction small_os bare_env (io_info [io_operand Unknown Unknown, io_operand (Imm64 0) Unknown])
     no_flags (demo_ins (Xor XOR32ri) [SopReg EAX, SopImm (plain_imm 0)]) demo_pool) = Some True"
proof -
  have "\<not> eflags_read \<lparr>sc_di = di, sc_live = no_flags, sc_env = cfg, sc_os = os\<rparr>" for di cfg os
    by (simp add: eflags_read_def registersWillBeRead_def) code_simp
  then show ?thesis
    by (simp add: handle_instruction_def demo_ins_def def_opc_def specialize_xor32_def is_self_def
        known_input_def op_input_def dyn_op_def io_info_def io_operand_def getImm_def dyn_simps delete_it_def)
qed

lemma xor32_effect:
  "\<exists>e. effect_of ref_cpu (\<lambda>_ _. 0) ones_hw (Xor XOR32ri) [SopReg EAX, SopImm (plain_imm 0)] = Some e \<and>
     \<not> no_effect False ones_hw e"
proof -
  have "map_option (\<lambda>e. (ef_target e, ef_value e)) (effect_of ref_cpu (\<lambda>_ _. 0) ones_hw (Xor XOR32ri)
      [SopReg EAX, SopImm (plain_imm 0)]) = Some (TgReg EAX FullZeroParent, replicate 4 0xff)"
    by code_simp
  then obtain e where "effect_of ref_cpu (\<lambda>_ _. 0) ones_hw (Xor XOR32ri) [SopReg EAX, SopImm (plain_imm 0)] = Some e"
    "ef_target e = TgReg EAX FullZeroParent" "ef_value e = replicate 4 0xff"
    by auto
  moreover have "m_reg (store_place (hw_m ones_hw) (PlReg EAX FullZeroParent) (replicate 4 0xff)) (LGprs64 0) \<noteq>
      m_reg (hw_m ones_hw) (LGprs64 0)"
    by code_simp
  then have "store_place (hw_m ones_hw) (PlReg EAX FullZeroParent) (replicate 4 0xff) \<noteq> hw_m ones_hw" by metis
  ultimately show ?thesis by (simp add: no_effect_def del: store_place.simps)
qed

text \<open>A scalar addition with a known sum becomes a load, which clears what the addition keeps.\<close>

lemma addsd_becomes_load:
  "map_option (\<lambda>(i, del, p). in_opcode i) (handle_instruction small_os bare_env
     (io_info [io_operand Unknown (Imm64 5), io_operand Unknown Unknown])
     no_flags (demo_ins (Sse ADDSDrr) [SopReg (XmmReg X0), SopReg (XmmReg X1)]) demo_pool) = Some (MovX MOVSDrm)"
proof -
  have "allocConstant64 small_os 5 demo_pool \<noteq> None"
    using demo_pool_new by (code_simp)
  then show ?thesis
    by (auto simp: handle_instruction_def demo_ins_def def_opc_def specialize_addsd_def change_const64_def
        op_output_def dyn_op_def io_info_def io_operand_def dyn_simps)
qed

lemma load_clears:
  "effect_of cpu base h (Sse ADDSDrr) ops = Some e \<Longrightarrow> effect_of cpu base h (MovX MOVSDrm) ops' = Some e' \<Longrightarrow>
   \<not> same_effect flags e e'"
  by (auto simp: same_effect_def dest!: effect_ofD(3))

section \<open>An addition with a known operand\<close>

abbreviation "live_all \<equiv> mask_fill"

definition add_ins :: instruction where
  "add_ins = demo_ins (Add ADD64rr) [SopReg RAX, SopReg RBX]"

definition add_info_known :: dyn_info where
  "add_info_known = io_info [io_operand Unknown Unknown, io_operand (Imm64 (- 1)) Unknown]"

lemma add_rewritten:
  "handle_instruction small_os bare_env add_info_known live_all add_ins demo_pool =
   Some (demo_ins (Add ADD64ri) [SopReg RAX, SopImm (plain_imm (- 1))], False, demo_pool)"
proof -
  have "eflags_read \<lparr>sc_di = di, sc_live = live_all, sc_env = cfg, sc_os = os\<rparr>" for di cfg os
    by (simp add: eflags_read_def registersWillBeRead_def) code_simp
  moreover have "is_simm32 (- 1)" by code_simp
  ultimately show ?thesis
    by (simp add: handle_instruction_def add_ins_def demo_ins_def def_opc_def specialize_add64_def Let_def
        known_input_def op_input_def dyn_op_def add_info_known_def io_info_def io_operand_def getImm_def dyn_simps
        change_imm_def set_operands_def)
qed

lemma add_effect:
  "\<exists>e. effect_of ref_cpu (\<lambda>_ _. 0) ones_hw (Add ADD64rr) [SopReg RAX, SopReg RBX] = Some e \<and>
     described (\<lambda>_ _. 0) ones_hw \<lparr>sc_di = add_info_known, sc_live = live_all, sc_env = bare_env, sc_os = small_os\<rparr>
       (Add ADD64rr) [SopReg RAX, SopReg RBX] e"
proof -
  obtain e where e: "effect_of ref_cpu (\<lambda>_ _. 0) ones_hw (Add ADD64rr) [SopReg RAX, SopReg RBX] = Some e"
  proof -
    have "effect_of ref_cpu (\<lambda>_ _. 0) ones_hw (Add ADD64rr) [SopReg RAX, SopReg RBX] \<noteq> None"
      by code_simp
    then show thesis using that by blast
  qed
  have b: "in_bytes (\<lambda>_ _. 0) ones_hw (Add ADD64rr) [SopReg RAX, SopReg RBX] 1 = le_bytes 8 (- 1 :: u64)"
    by code_simp
  have "cfg_base bare_env (\<lambda>_ _. 0)" by (simp add: cfg_base_def bare_env_def)
  then show ?thesis
    using e ones_hw_ok b
    by (auto simp: described_def op_input_def op_output_def dyn_op_def add_info_known_def io_info_def io_operand_def
        bytes_conc_def)
qed

end
