(* ===== verification/Convert_Demo.thy ===== *)
theory Convert_Demo
  imports Convert_Sound Convert_Loop Spec_Demo
begin

text \<open>Concrete instructions for the theorems about the converter.\<close>

definition no_mem :: xed_mem where
  "no_mem = \<lparr>xm_seg = XED_REG_INVALID, xm_base = XED_REG_INVALID, xm_index = XED_REG_INVALID, xm_scale = 0, xm_disp = 0\<rparr>"

definition nothing_decoded :: xed_inst where
  "nothing_decoded = \<lparr>xd_dec = 0x1000, xd_length = 2, xd_iclass = XED_ICLASS_OTHER, xd_category = XED_CATEGORY_OTHER,
     xd_sse2 = False, xd_operand_width = 64, xd_operand = (\<lambda>_. XED_OPERAND_OTHER),
     xd_reg0 = XED_REG_INVALID, xd_reg1 = XED_REG_INVALID, xd_nmem = 0, xd_mem = (\<lambda>_. no_mem),
     xd_branch_width = 0, xd_branch_disp = 0, xd_imm_width = 0, xd_imm_signed = False, xd_unsigned_imm = 0,
     xd_signed_imm = 0, xd_prefix67 = False\<rparr>"

text \<open>\<open>add rax, [rbx + 4 * rcx - 8]\<close>\<close>

definition add_decoded :: xed_inst where
  "add_decoded = nothing_decoded\<lparr>xd_length := 5, xd_iclass := XED_ICLASS_ADD, xd_reg0 := XedGpr64 XED_REG_RAX, xd_nmem := 1,
     xd_operand := (\<lambda>i. if i = 0 then REG0 else if i = 1 then MEM0 else XED_OPERAND_OTHER),
     xd_mem := (\<lambda>_. no_mem\<lparr>xm_base := XedGpr64 XED_REG_RBX, xm_index := XedGpr64 XED_REG_RCX, xm_scale := 4, xm_disp := - 8\<rparr>)\<rparr>"

definition add_operands :: "static_operand list" where
  "add_operands = [SopReg RAX, SopMem (MpSIB RBX RCX \<lparr>s32_val = - 8, s32_usrPtrNr = - 1, s32_usrPtrOffset = 0\<rparr> 4), SopReg NoReg]"

lemma add_fields:
  "xd_iclass add_decoded = XED_ICLASS_ADD" "xd_operand_width add_decoded = 64" "\<not> is_memop add_decoded 0"
  "is_memop add_decoded 1" "is_memop add_decoded (Suc 0)" "translate_regop add_decoded 0 = Some (SopReg RAX)"
  "translate_memop add_decoded 0 = Some (add_operands ! 1)"
  by (simp_all add: add_decoded_def nothing_decoded_def no_mem_def is_memop_def translate_regop_def translate_memop_def
      add_operands_def Let_def)

lemma add_converted:
  "convert_simple add_decoded zero_operands = Some (Add ADD64rm, add_operands, Some (add_info ADD64rm))"
  by (simp add: convert_simple_def convert_add_def convert_form_defs translate_rm_def add_fields return_opcode_def
      add_operands_def zero_operands_def del: add_info.simps)

lemma add_described: "mem_described add_decoded" "explicit_operands add_decoded [REG0, MEM0]"
proof -
  show "mem_described add_decoded"
    by (simp add: mem_described_def absolute_def add_decoded_def nothing_decoded_def no_mem_def Let_def)
  have "xd_operand add_decoded 0 = REG0" "xd_operand add_decoded (Suc 0) = MEM0" "\<not> has_imm add_decoded"
    "xd_branch_width add_decoded = 0"
    by (simp_all add: add_decoded_def nothing_decoded_def has_imm_def)
  then show "explicit_operands add_decoded [REG0, MEM0]" by (simp add: explicit_operands_def All_less_Suc)
qed

text \<open>\<open>mov rax, [0xffffffff80000000]\<close>, an address without registers.\<close>

definition high_load :: xed_inst where
  "high_load = nothing_decoded\<lparr>xd_length := 8, xd_iclass := XED_ICLASS_MOV, xd_reg0 := XedGpr64 XED_REG_RAX, xd_nmem := 1,
     xd_operand := (\<lambda>i. if i = 0 then REG0 else if i = 1 then MEM0 else XED_OPERAND_OTHER),
     xd_mem := (\<lambda>_. no_mem\<lparr>xm_disp := 0xffffffff80000000\<rparr>)\<rparr>"

lemma high_load_fields:
  "xd_iclass high_load = XED_ICLASS_MOV" "xd_operand_width high_load = 64" "\<not> is_memop high_load 0"
  "is_memop high_load 1" "is_memop high_load (Suc 0)" "translate_regop high_load 0 = Some (SopReg RAX)"
  "translate_memop high_load 0 = Some (direct_operand 0x80000000)"
  "meaning high_load MEM0 = Some (OpAddr 0xffffffff80000000)"
  by (simp_all add: high_load_def nothing_decoded_def no_mem_def is_memop_def translate_regop_def translate_memop_def
      mem_meaning_def Let_def)

lemma high_load_converted:
  "convert_simple high_load zero_operands =
     Some (Mov MOV64rm, [SopReg RAX, direct_operand 0x80000000, SopReg NoReg], Some (mov_info MOV64rm))"
  by (simp add: convert_simple_def convert_mov_def convert_form_defs translate_rm_def high_load_fields return_opcode_def
      zero_operands_def del: mov_info.simps)

lemma high_load_operands: "explicit_operands high_load [REG0, MEM0]" "absolute high_load"
  "xm_disp (xd_mem high_load 0) = 0xffffffff80000000"
proof -
  have "xd_operand high_load 0 = REG0" "xd_operand high_load (Suc 0) = MEM0" "\<not> has_imm high_load"
    "xd_branch_width high_load = 0"
    by (simp_all add: high_load_def nothing_decoded_def has_imm_def)
  then show "explicit_operands high_load [REG0, MEM0]" by (simp add: explicit_operands_def All_less_Suc)
qed (simp_all add: high_load_def nothing_decoded_def no_mem_def absolute_def)

text \<open>\<open>loop\<close> back by ten bytes, with the number of iterations in RCX.\<close>

definition loop_decoded :: xed_inst where
  "loop_decoded = nothing_decoded\<lparr>xd_iclass := XED_ICLASS_LOOP, xd_branch_width := 8, xd_branch_disp := - 10\<rparr>"

definition count_hw :: "byte list \<Rightarrow> hw" where
  "count_hw bs = ones_hw\<lparr>hw_m := (hw_m ones_hw)\<lparr>m_reg := (m_reg (hw_m ones_hw))(LGprs64 2 := bs, LFlag1 3 := [0])\<rparr>\<rparr>"

lemma count_ready: "length bs = 8 \<Longrightarrow> loop_ready (hw_m (count_hw bs))"
  by (simp add: loop_ready_def count_hw_def reg_word_def rcx_places segment_def le_word_def)

lemma count_word: "length bs = 8 \<Longrightarrow> reg_word (hw_m (count_hw bs)) RCX = le_word bs"
  by (simp add: count_hw_def reg_word_def rcx_places segment_def)

lemma high_count:
  "loop_instruction False loop_decoded (count_hw [1, 0, 0, 0, 1, 0, 0, 0]) \<noteq>
     loop_instruction True loop_decoded (count_hw [1, 0, 0, 0, 1, 0, 0, 0])"
  "snd (loop_instruction False loop_decoded (count_hw [1, 0, 0, 0, 1, 0, 0, 0])) = Some 0x1002"
  "snd (loop_instruction True loop_decoded (count_hw [1, 0, 0, 0, 1, 0, 0, 0])) = Some 0xff8"
proof -
  have w: "reg_word (hw_m (count_hw [1, 0, 0, 0, 1, 0, 0, 0])) RCX = 0x100000001"
    using count_word[of "[1, 0, 0, 0, 1, 0, 0, 0]"] by (simp add: le_word_def)
  show f: "snd (loop_instruction False loop_decoded (count_hw [1, 0, 0, 0, 1, 0, 0, 0])) = Some 0x1002"
    and t: "snd (loop_instruction True loop_decoded (count_hw [1, 0, 0, 0, 1, 0, 0, 0])) = Some 0xff8"
    by (simp_all add: loop_instruction_def loop_taken_def loop_count_def w loop_decoded_def nothing_decoded_def next_addr_def)
  show "loop_instruction False loop_decoded (count_hw [1, 0, 0, 0, 1, 0, 0, 0]) \<noteq>
     loop_instruction True loop_decoded (count_hw [1, 0, 0, 0, 1, 0, 0, 0])"
    using f t by auto
qed

text \<open>A move of 16 bits.\<close>

lemma narrow_move:
  assumes "xd_iclass x = XED_ICLASS_MOV" and "xd_operand_width x \<notin> {32, 64}"
  shows "convert_decoded cfg stale x instrs = None"
  using assms by (simp add: convert_decoded_def convert_simple_def convert_mov_def)

end
