(* ===== verification/Icfg_Ops.thy ===== *)
theory Icfg_Ops
  imports Icfg
begin

text \<open>
  The operations on edges, blocks, functions and the graph (\<open>src/SuperBlock.hpp\<close>,
  \<open>src/SuperBlock.cpp\<close>, \<open>src/Function.hpp\<close>, \<open>src/Function.cpp\<close>, \<open>src/ICFG.hpp\<close>).
\<close>

section \<open>The edge lists of a block\<close>

definition addIncomingEdge :: "nat \<Rightarrow> nat \<Rightarrow> icfg \<Rightarrow> icfg option" where
  "addIncomingEdge b e g =
     do { g \<leftarrow> invalidate_sb AnStack b g;
          ed \<leftarrow> ic_be g e;
          drob_assert (be_dst ed = b);
          upd_sb b (\<lambda>sb. sb\<lparr>sb_in := sb_in sb @ [e]\<rparr>) g }"

definition removeIncomingEdge :: "nat \<Rightarrow> nat \<Rightarrow> icfg \<Rightarrow> icfg option" where
  "removeIncomingEdge b e g =
     do { g \<leftarrow> invalidate_sb AnStack b g;
          sb \<leftarrow> ic_sb g b;
          drob_assert (e \<in> set (sb_in sb));
          upd_sb b (\<lambda>sb. sb\<lparr>sb_in := remove1 e (sb_in sb)\<rparr>) g }"

definition addOutgoingEdge :: "nat \<Rightarrow> nat \<Rightarrow> icfg \<Rightarrow> icfg option" where
  "addOutgoingEdge b e g =
     do { g \<leftarrow> invalidate_sb AnLiveness b g;
          ed \<leftarrow> ic_be g e;
          drob_assert (be_src ed = b);
          upd_sb b (\<lambda>sb. sb\<lparr>sb_out := sb_out sb @ [e]\<rparr>) g }"

definition removeOutgoingEdge :: "nat \<Rightarrow> nat \<Rightarrow> icfg \<Rightarrow> icfg option" where
  "removeOutgoingEdge b e g =
     do { g \<leftarrow> invalidate_sb AnLiveness b g;
          sb \<leftarrow> ic_sb g b;
          drob_assert (e \<in> set (sb_out sb));
          upd_sb b (\<lambda>sb. sb\<lparr>sb_out := remove1 e (sb_out sb)\<rparr>) g }"

section \<open>The edge lists of a function\<close>

definition addIncomingCall :: "nat \<Rightarrow> nat \<Rightarrow> icfg \<Rightarrow> icfg option" where
  "addIncomingCall f e g =
     do { ed \<leftarrow> ic_ce g e; drob_assert (ce_dst ed = f); upd_fn f (\<lambda>fn. fn\<lparr>fn_in := fn_in fn @ [e]\<rparr>) g }"

definition removeIncomingCall :: "nat \<Rightarrow> nat \<Rightarrow> icfg \<Rightarrow> icfg option" where
  "removeIncomingCall f e g =
     do { fn \<leftarrow> ic_fn g f; drob_assert (e \<in> set (fn_in fn)); upd_fn f (\<lambda>fn. fn\<lparr>fn_in := remove1 e (fn_in fn)\<rparr>) g }"

definition addOutgoingCall :: "nat \<Rightarrow> nat \<Rightarrow> icfg \<Rightarrow> icfg option" where
  "addOutgoingCall f e g =
     do { ed \<leftarrow> ic_ce g e; drob_assert (ce_src ed = f); upd_fn f (\<lambda>fn. fn\<lparr>fn_out := fn_out fn @ [e]\<rparr>) g }"

definition removeOutgoingCall :: "nat \<Rightarrow> nat \<Rightarrow> icfg \<Rightarrow> icfg option" where
  "removeOutgoingCall f e g =
     do { fn \<leftarrow> ic_fn g f; drob_assert (e \<in> set (fn_out fn)); upd_fn f (\<lambda>fn. fn\<lparr>fn_out := remove1 e (fn_out fn)\<rparr>) g }"

definition addReturnEdge :: "nat \<Rightarrow> nat \<Rightarrow> icfg \<Rightarrow> icfg option" where
  "addReturnEdge f e g =
     do { ed \<leftarrow> ic_re g e; drob_assert (re_dst ed = f); upd_fn f (\<lambda>fn. fn\<lparr>fn_returns := fn_returns fn @ [e]\<rparr>) g }"

definition removeReturnEdge :: "nat \<Rightarrow> nat \<Rightarrow> icfg \<Rightarrow> icfg option" where
  "removeReturnEdge f e g =
     do { fn \<leftarrow> ic_fn g f; drob_assert (e \<in> set (fn_returns fn));
          upd_fn f (\<lambda>fn. fn\<lparr>fn_returns := remove1 e (fn_returns fn)\<rparr>) g }"

section \<open>Taking an edge out\<close>

definition store_is :: "nat \<Rightarrow> instr option \<Rightarrow> icfg \<Rightarrow> icfg option" where
  "store_is a i g = do { i \<leftarrow> i; upd_is a (\<lambda>_. i) g }"

definition invalidate_branch :: "nat \<Rightarrow> icfg \<Rightarrow> icfg option" where
  "invalidate_branch e g =
     do { ed \<leftarrow> ic_be g e;
          drob_assert (\<not> be_invalidated ed);
          i \<leftarrow> ic_is g (be_instr ed);
          own \<leftarrow> getBranchEdge i;
          drob_assert (own = Some e);
          g \<leftarrow> removeOutgoingEdge (be_src ed) e g;
          g \<leftarrow> removeIncomingEdge (be_dst ed) e g;
          g \<leftarrow> upd_be e (\<lambda>ed. ed\<lparr>be_invalidated := True\<rparr>) g;
          store_is (be_instr ed) (setBranchEdge None i) g }"

definition invalidate_call :: "nat \<Rightarrow> icfg \<Rightarrow> icfg option" where
  "invalidate_call e g =
     do { ed \<leftarrow> ic_ce g e;
          drob_assert (\<not> ce_invalidated ed);
          i \<leftarrow> ic_is g (ce_instr ed);
          own \<leftarrow> getCallEdge i;
          drob_assert (own = Some e);
          g \<leftarrow> removeOutgoingCall (ce_src ed) e g;
          g \<leftarrow> removeIncomingCall (ce_dst ed) e g;
          g \<leftarrow> upd_ce e (\<lambda>ed. ed\<lparr>ce_invalidated := True\<rparr>) g;
          store_is (ce_instr ed) (setCallEdge None i) g }"

definition invalidate_return :: "nat \<Rightarrow> icfg \<Rightarrow> icfg option" where
  "invalidate_return e g =
     do { ed \<leftarrow> ic_re g e;
          drob_assert (\<not> re_invalidated ed);
          i \<leftarrow> ic_is g (re_instr ed);
          own \<leftarrow> getReturnEdge i;
          drob_assert (own = Some e);
          g \<leftarrow> removeReturnEdge (re_dst ed) e g;
          g \<leftarrow> upd_re e (\<lambda>ed. ed\<lparr>re_invalidated := True\<rparr>) g;
          store_is (re_instr ed) (setReturnEdge None i) g }"

definition cleanupInstruction :: "nat \<Rightarrow> icfg \<Rightarrow> icfg option" where
  "cleanupInstruction a g =
     do { i \<leftarrow> ic_is g a;
          if isBranch i then (case is_branchEdge i of Some e \<Rightarrow> invalidate_branch e g | None \<Rightarrow> Some g)
          else if isCall i then (case is_callEdge i of Some e \<Rightarrow> invalidate_call e g | None \<Rightarrow> Some g)
          else if isRet i then (case is_returnEdge i of Some e \<Rightarrow> invalidate_return e g | None \<Rightarrow> Some g)
          else Some g }"

section \<open>The instructions of a block\<close>

definition delete_is :: "nat list \<Rightarrow> icfg \<Rightarrow> icfg" where
  "delete_is as g = g\<lparr>ic_is := (\<lambda>a. if a \<in> set as then None else ic_is g a)\<rparr>"

definition appendInstruction :: "nat \<Rightarrow> nat \<Rightarrow> icfg \<Rightarrow> icfg option" where
  "appendInstruction b a g = upd_sb b (\<lambda>sb. sb\<lparr>sb_instrs := sb_instrs sb @ [a]\<rparr>) g"

definition removeInstruction :: "nat \<Rightarrow> nat \<Rightarrow> icfg \<Rightarrow> icfg option" where
  "removeInstruction b a g =
     do { g \<leftarrow> invalidate_sb AnLiveness b g;
          g \<leftarrow> invalidate_sb AnStack b g;
          g \<leftarrow> cleanupInstruction a g;
          sb \<leftarrow> ic_sb g b;
          drob_assert (a \<in> set (sb_instrs sb));
          g \<leftarrow> upd_sb b (\<lambda>sb. sb\<lparr>sb_instrs := remove1 a (sb_instrs sb)\<rparr>) g;
          Some (delete_is [a] g) }"

definition removeAllInstructions :: "nat \<Rightarrow> icfg \<Rightarrow> icfg option" where
  "removeAllInstructions b g =
     do { g \<leftarrow> invalidate_sb AnLiveness b g;
          g \<leftarrow> invalidate_sb AnStack b g;
          sb \<leftarrow> ic_sb g b;
          g \<leftarrow> for_each (sb_instrs sb) cleanupInstruction g;
          sb \<leftarrow> ic_sb g b;
          drob_assert (sb_out sb = []);
          g \<leftarrow> for_each (sb_in sb) invalidate_branch g;
          sb \<leftarrow> ic_sb g b;
          drob_assert (sb_in sb = []);
          g \<leftarrow> upd_sb b (\<lambda>sb. sb\<lparr>sb_instrs := []\<rparr>) g;
          Some (delete_is (sb_instrs sb) g) }"

text \<open>The operands of the jump are zero but for the kind of the first; it has an edge.\<close>

definition dummy_operands :: "static_operand list" where
  "dummy_operands = [SopMem (MpDirect \<lparr>i64_val = 0, i64_usrPtrNr = 0, i64_usrPtrOffset = 0\<rparr>), SopReg NoReg, SopReg NoReg]"

definition unchainNext :: "nat \<Rightarrow> icfg \<Rightarrow> icfg option" where
  "unchainNext b g =
     do { sb \<leftarrow> ic_sb g b;
          case sb_next sb of
            None \<Rightarrow> Some g
          | Some n \<Rightarrow>
              do { let (a, g) = new_is (new_instruction (Jmp JMPa) dummy_operands) g;
                   let (e, g) = new_be \<lparr>be_dst = n, be_src = b, be_instr = a, be_invalidated = False\<rparr> g;
                   i \<leftarrow> ic_is g a;
                   g \<leftarrow> store_is a (setBranchEdge (Some e) i) g;
                   g \<leftarrow> appendInstruction b a g;
                   g \<leftarrow> addOutgoingEdge b e g;
                   g \<leftarrow> addIncomingEdge n e g;
                   g \<leftarrow> upd_sb n (\<lambda>sb. sb\<lparr>sb_prev := None\<rparr>) g;
                   upd_sb b (\<lambda>sb. sb\<lparr>sb_next := None\<rparr>) g } }"

definition setNext :: "nat \<Rightarrow> nat option \<Rightarrow> icfg \<Rightarrow> icfg option" where
  "setNext b n = upd_sb b (\<lambda>sb. sb\<lparr>sb_next := n\<rparr>)"

definition setPrev :: "nat \<Rightarrow> nat option \<Rightarrow> icfg \<Rightarrow> icfg option" where
  "setPrev b p = upd_sb b (\<lambda>sb. sb\<lparr>sb_prev := p\<rparr>)"

section \<open>The blocks of a function\<close>

definition block_init :: "nat \<Rightarrow> super_block" where
  "block_init f = \<lparr>sb_node = node_init, sb_function = f, sb_instrs = [], sb_next = None, sb_prev = None,
     sb_in = [], sb_out = [], sb_entryState = None, sb_liveness = None\<rparr>"

definition addBlock :: "nat \<Rightarrow> nat \<Rightarrow> icfg \<Rightarrow> icfg option" where
  "addBlock f b = upd_fn f (\<lambda>fn. fn\<lparr>fn_entry := (case fn_entry fn of None \<Rightarrow> Some b | Some x \<Rightarrow> Some x),
     fn_blocks := fn_blocks fn @ [b]\<rparr>)"

definition cleanupBlock :: "nat \<Rightarrow> icfg \<Rightarrow> icfg option" where
  "cleanupBlock b g =
     do { g \<leftarrow> removeAllInstructions b g;
          sb \<leftarrow> ic_sb g b;
          g \<leftarrow> (case sb_prev sb of Some p \<Rightarrow> setNext p (sb_next sb) g | None \<Rightarrow> Some g);
          sb \<leftarrow> ic_sb g b;
          (case sb_next sb of Some n \<Rightarrow> setPrev n (sb_prev sb) g | None \<Rightarrow> Some g) }"

definition removeBlock :: "nat \<Rightarrow> nat \<Rightarrow> icfg \<Rightarrow> icfg option" where
  "removeBlock f b g =
     do { g \<leftarrow> upd_fn f (\<lambda>fn. if fn_entry fn = Some b then fn\<lparr>fn_entry := None\<rparr> else fn) g;
          sb \<leftarrow> ic_sb g b;
          g \<leftarrow> (case sb_next sb of Some n \<Rightarrow> invalidate_sb AnStack n g | None \<Rightarrow> Some g);
          g \<leftarrow> (case sb_prev sb of Some p \<Rightarrow> invalidate_sb AnLiveness p g | None \<Rightarrow> Some g);
          g \<leftarrow> cleanupBlock b g;
          fn \<leftarrow> ic_fn g f;
          drob_assert (b \<in> set (fn_blocks fn));
          g \<leftarrow> upd_fn f (\<lambda>fn. fn\<lparr>fn_blocks := remove1 b (fn_blocks fn)\<rparr>) g;
          Some (g\<lparr>ic_sb := (ic_sb g)(b := None)\<rparr>) }"

definition removeAllBlocks :: "nat \<Rightarrow> icfg \<Rightarrow> icfg option" where
  "removeAllBlocks f g =
     do { g \<leftarrow> upd_fn f (\<lambda>fn. fn\<lparr>fn_entry := None\<rparr>) g;
          g \<leftarrow> invalidate_fn AnLiveness f g;
          g \<leftarrow> invalidate_fn AnStack f g;
          fn \<leftarrow> ic_fn g f;
          g \<leftarrow> for_each (fn_blocks fn) cleanupBlock g;
          g \<leftarrow> upd_fn f (\<lambda>fn. fn\<lparr>fn_blocks := []\<rparr>) g;
          Some (g\<lparr>ic_sb := (\<lambda>b. if b \<in> set (fn_blocks fn) then None else ic_sb g b)\<rparr>) }"

section \<open>Merging a block into its successor\<close>

definition own_edge :: "nat \<Rightarrow> branch_edge \<Rightarrow> icfg \<Rightarrow> bool option" where
  "own_edge e ed g = do { i \<leftarrow> ic_is g (be_instr ed); own \<leftarrow> getBranchEdge i; Some (own = Some e) }"

definition move_dst :: "nat \<Rightarrow> nat \<Rightarrow> nat \<Rightarrow> icfg \<Rightarrow> icfg option" where
  "move_dst b n e g =
     do { ed \<leftarrow> ic_be g e;
          drob_assert (\<not> be_invalidated ed);
          own \<leftarrow> own_edge e ed g; drob_assert own;
          drob_assert (be_dst ed = b);
          upd_be e (\<lambda>ed. ed\<lparr>be_dst := n\<rparr>) g }"

definition move_src :: "nat \<Rightarrow> nat \<Rightarrow> nat \<Rightarrow> icfg \<Rightarrow> icfg option" where
  "move_src b n e g =
     do { ed \<leftarrow> ic_be g e;
          drob_assert (\<not> be_invalidated ed);
          own \<leftarrow> own_edge e ed g; drob_assert own;
          drob_assert (be_src ed = b);
          upd_be e (\<lambda>ed. ed\<lparr>be_src := n\<rparr>) g }"

definition move_return :: "nat \<Rightarrow> nat \<Rightarrow> nat \<Rightarrow> icfg \<Rightarrow> icfg option" where
  "move_return b n a g =
     do { i \<leftarrow> ic_is g a;
          case (if isRet i then is_returnEdge i else None) of
            None \<Rightarrow> Some g
          | Some e \<Rightarrow> do { ed \<leftarrow> ic_re g e; drob_assert (re_src ed = b); upd_re e (\<lambda>ed. ed\<lparr>re_src := n\<rparr>) g } }"

definition mergeBlockIntoNext :: "nat \<Rightarrow> nat \<Rightarrow> icfg \<Rightarrow> icfg option" where
  "mergeBlockIntoNext f b g =
     do { sb \<leftarrow> ic_sb g b;
          n \<leftarrow> sb_next sb;
          nb \<leftarrow> ic_sb g n;
          drob_assert (sb_in nb = []);
          g \<leftarrow> upd_fn f (\<lambda>fn. if fn_entry fn = Some b then fn\<lparr>fn_entry := Some n\<rparr> else fn) g;
          g \<leftarrow> (case sb_prev sb of Some p \<Rightarrow> setNext p (Some n) g | None \<Rightarrow> Some g);
          g \<leftarrow> setPrev n (sb_prev sb) g;
          g \<leftarrow> for_each (sb_in sb) (move_dst b n) g;
          g \<leftarrow> for_each (sb_out sb) (move_src b n) g;
          sb \<leftarrow> ic_sb g b;
          g \<leftarrow> upd_sb n (\<lambda>nb. nb\<lparr>sb_in := sb_in nb @ sb_in sb\<rparr>) g;
          g \<leftarrow> upd_sb b (\<lambda>sb. sb\<lparr>sb_in := []\<rparr>) g;
          g \<leftarrow> upd_sb n (\<lambda>nb. nb\<lparr>sb_out := sb_out sb @ sb_out nb\<rparr>) g;
          g \<leftarrow> upd_sb b (\<lambda>sb. sb\<lparr>sb_out := []\<rparr>) g;
          sb \<leftarrow> ic_sb g b;
          g \<leftarrow> for_each (sb_instrs sb) (move_return b n) g;
          g \<leftarrow> upd_sb b (\<lambda>sb. sb\<lparr>sb_instrs := []\<rparr>) g;
          g \<leftarrow> upd_sb n (\<lambda>nb. nb\<lparr>sb_instrs := sb_instrs sb @ sb_instrs nb\<rparr>) g;
          sb \<leftarrow> ic_sb g b;
          g \<leftarrow> upd_sb n (\<lambda>nb. nb\<lparr>sb_liveness :=
                 (case (sb_liveness sb, sb_liveness nb) of
                    (Some l, Some ln) \<Rightarrow> Some (ln\<lparr>ld_in := ld_in l\<rparr>)
                  | _ \<Rightarrow> sb_liveness nb),
               sb_entryState := (case sb_entryState sb of Some s \<Rightarrow> Some s | None \<Rightarrow> sb_entryState nb),
               sb_node := (sb_node nb)\<lparr>
                 nd_livenessValid := nd_livenessValid (sb_node nb) \<and> nd_livenessValid (sb_node sb),
                 nd_stackValid := nd_stackValid (sb_node nb) \<and> nd_stackValid (sb_node sb)\<rparr>\<rparr>) g;
          removeBlock f b g }"

section \<open>Splitting a block\<close>

text \<open>The edges of an instruction that has moved from block \<open>b\<close> to block \<open>n\<close>.\<close>

definition split_edges :: "nat \<Rightarrow> nat \<Rightarrow> nat \<Rightarrow> icfg \<Rightarrow> icfg option" where
  "split_edges b n a g =
     do { i \<leftarrow> ic_is g a;
          if isBranch i \<and> is_branchEdge i \<noteq> None then
            do { e \<leftarrow> is_branchEdge i;
                 ed \<leftarrow> ic_be g e;
                 drob_assert (\<not> be_invalidated ed);
                 own \<leftarrow> own_edge e ed g; drob_assert own;
                 if be_src ed = b then
                   do { g \<leftarrow> upd_be e (\<lambda>ed. ed\<lparr>be_src := n\<rparr>) g;
                        g \<leftarrow> upd_sb n (\<lambda>nb. nb\<lparr>sb_out := sb_out nb @ [e]\<rparr>) g;
                        removeOutgoingEdge b e g }
                 else Some g }
          else if isRet i \<and> is_returnEdge i \<noteq> None then
            do { e \<leftarrow> is_returnEdge i;
                 ed \<leftarrow> ic_re g e;
                 drob_assert (\<not> re_invalidated ed);
                 j \<leftarrow> ic_is g (re_instr ed);
                 own \<leftarrow> getReturnEdge j; drob_assert (own = Some e);
                 if re_src ed = b then upd_re e (\<lambda>ed. ed\<lparr>re_src := n\<rparr>) g else Some g }
          else Some g }"

text \<open>The instructions from position \<open>k\<close> on move to a new block behind the old one.\<close>

definition splitBlock :: "nat \<Rightarrow> nat \<Rightarrow> nat \<Rightarrow> icfg \<Rightarrow> (nat \<times> icfg) option" where
  "splitBlock f b k g =
     do { let (n, g) = new_sb (block_init f) g;
          sb \<leftarrow> ic_sb g b;
          g \<leftarrow> (case sb_next sb of
                 None \<Rightarrow> Some g
               | Some x \<Rightarrow> do { g \<leftarrow> setPrev x (Some n) g; setNext n (Some x) g });
          g \<leftarrow> setPrev n (Some b) g;
          g \<leftarrow> setNext b (Some n) g;
          g \<leftarrow> upd_sb n (\<lambda>nb. nb\<lparr>sb_instrs := drop k (sb_instrs sb)\<rparr>) g;
          g \<leftarrow> upd_sb b (\<lambda>sb. sb\<lparr>sb_instrs := take k (sb_instrs sb)\<rparr>) g;
          g \<leftarrow> for_each (drop k (sb_instrs sb)) (split_edges b n) g;
          g \<leftarrow> invalidate_sb AnStack b g;
          g \<leftarrow> invalidate_sb AnLiveness n g;
          g \<leftarrow> invalidate_sb AnStack n g;
          g \<leftarrow> addBlock f n g;
          Some (n, g) }"

text \<open>The position of an instruction, or the length of the list when it is not there.\<close>

primrec position :: "nat \<Rightarrow> nat list \<Rightarrow> nat" where
  "position a [] = 0"
| "position a (x # xs) = (if x = a then 0 else Suc (position a xs))"

definition splitBlockAt :: "nat \<Rightarrow> nat \<Rightarrow> nat \<Rightarrow> icfg \<Rightarrow> (nat \<times> icfg) option" where
  "splitBlockAt f b a g = do { sb \<leftarrow> ic_sb g b; splitBlock f b (position a (sb_instrs sb)) g }"

definition splitBlockAfter :: "nat \<Rightarrow> nat \<Rightarrow> nat \<Rightarrow> icfg \<Rightarrow> (nat \<times> icfg) option" where
  "splitBlockAfter f b a g = do { sb \<leftarrow> ic_sb g b; splitBlock f b (Suc (position a (sb_instrs sb))) g }"

section \<open>Copying a block\<close>

definition copy_edges :: "nat \<Rightarrow> nat \<Rightarrow> instr \<Rightarrow> nat \<Rightarrow> icfg \<Rightarrow> icfg option" where
  "copy_edges b n i a g =
     (if isBranch i \<and> is_branchEdge i \<noteq> None then
        do { e \<leftarrow> is_branchEdge i;
             ed \<leftarrow> ic_be g e;
             let d = (if be_dst ed = b then n else be_dst ed);
             let (e', g) = new_be \<lparr>be_dst = d, be_src = n, be_instr = a, be_invalidated = False\<rparr> g;
             j \<leftarrow> ic_is g a;
             g \<leftarrow> store_is a (setBranchEdge (Some e') j) g;
             g \<leftarrow> addOutgoingEdge n e' g;
             addIncomingEdge d e' g }
      else if isCall i \<and> is_callEdge i \<noteq> None then
        do { e \<leftarrow> is_callEdge i;
             ed \<leftarrow> ic_ce g e;
             let (e', g) = new_ce \<lparr>ce_dst = ce_dst ed, ce_src = ce_src ed, ce_instr = a, ce_invalidated = False\<rparr> g;
             j \<leftarrow> ic_is g a;
             g \<leftarrow> store_is a (setCallEdge (Some e') j) g;
             g \<leftarrow> addOutgoingCall (ce_src ed) e' g;
             addIncomingCall (ce_dst ed) e' g }
      else if isRet i \<and> is_returnEdge i \<noteq> None then
        do { e \<leftarrow> is_returnEdge i;
             ed \<leftarrow> ic_re g e;
             let (e', g) = new_re \<lparr>re_dst = re_dst ed, re_src = n, re_instr = a, re_invalidated = False\<rparr> g;
             j \<leftarrow> ic_is g a;
             g \<leftarrow> store_is a (setReturnEdge (Some e') j) g;
             addReturnEdge (re_dst ed) e' g }
      else Some g)"

definition copy_one :: "nat \<Rightarrow> nat \<Rightarrow> nat \<Rightarrow> icfg \<Rightarrow> icfg option" where
  "copy_one b n a g =
     do { i \<leftarrow> ic_is g a;
          let (a', g) = new_is (copy_instruction i) g;
          g \<leftarrow> copy_edges b n i a' g;
          appendInstruction n a' g }"

definition copyBlock :: "nat \<Rightarrow> nat \<Rightarrow> icfg \<Rightarrow> (nat \<times> icfg) option" where
  "copyBlock f b g =
     do { let (n, g) = new_sb (block_init f) g;
          sb \<leftarrow> ic_sb g b;
          g \<leftarrow> for_each (sb_instrs sb) (copy_one b n) g;
          g \<leftarrow> addBlock f n g;
          Some (n, g) }"

section \<open>The functions of the graph\<close>

definition func_init :: "u64 \<Rightarrow> func" where
  "func_init itext = \<lparr>fn_node = node_init, fn_itext = itext, fn_entry = None, fn_blocks = [], fn_in = [], fn_out = [],
     fn_returns = [], fn_info = None\<rparr>"

definition new_fn :: "func \<Rightarrow> icfg \<Rightarrow> nat \<times> icfg" where
  "new_fn x g = (ic_fresh g, g\<lparr>ic_fn := (ic_fn g)(ic_fresh g \<mapsto> x), ic_fresh := ic_fresh g + 1\<rparr>)"

definition addFunction :: "nat \<Rightarrow> icfg \<Rightarrow> icfg" where
  "addFunction f g = g\<lparr>ic_entry := (case ic_entry g of None \<Rightarrow> Some f | Some x \<Rightarrow> Some x),
     ic_functions := ic_functions g @ [f]\<rparr>"

definition removeFunction :: "nat \<Rightarrow> icfg \<Rightarrow> icfg option" where
  "removeFunction f g =
     do { let g = (if ic_entry g = Some f then g\<lparr>ic_entry := None\<rparr> else g);
          g \<leftarrow> removeAllBlocks f g;
          drob_assert (f \<in> set (ic_functions g));
          Some (g\<lparr>ic_functions := remove1 f (ic_functions g), ic_fn := (ic_fn g)(f := None)\<rparr>) }"

definition for_each_block_any :: "(nat \<Rightarrow> icfg \<Rightarrow> icfg option) \<Rightarrow> nat \<Rightarrow> icfg \<Rightarrow> icfg option" where
  "for_each_block_any cb f g = do { fn \<leftarrow> ic_fn g f; for_each (fn_blocks fn) cb g }"

definition for_each_function_any :: "(nat \<Rightarrow> icfg \<Rightarrow> icfg option) \<Rightarrow> icfg \<Rightarrow> icfg option" where
  "for_each_function_any cb g = for_each (ic_functions g) cb g"

end
