(* ===== verification/Traverse.thy ===== *)
theory Traverse
  imports Icfg_Ops
begin

text \<open>
  The traversals of the graph in depth-first and breadth-first order (\<open>src/Function.hpp\<close>,
  \<open>src/ICFG.hpp\<close>). They mark what they have visited; a block and the blocks it falls through
  to are visited in a row. The loops may not end, so they have no value then. The last part
  shows that a traversal visits every reachable block once when no chain of blocks is a
  cycle, and that it does not end when it comes to such a cycle.
\<close>

section \<open>The traversals\<close>

text \<open>
  A callback sees the graph and a state of its own; its first result stops the traversal.
  The two orders differ in where the targets of the branches are put.
\<close>

type_synonym 'x visitor = "nat \<Rightarrow> 'x \<times> icfg \<Rightarrow> (bool \<times> 'x \<times> icfg) option"

definition set_visited :: "bool \<Rightarrow> super_block \<Rightarrow> super_block" where
  "set_visited v sb = sb\<lparr>sb_node := (sb_node sb)\<lparr>nd_visited := v\<rparr>\<rparr>"

definition is_visited :: "icfg \<Rightarrow> nat \<Rightarrow> bool option" where
  "is_visited g b = do { sb \<leftarrow> ic_sb g b; Some (nd_visited (sb_node sb)) }"

text \<open>The branch targets that are not visited, in the order of the edges.\<close>

primrec branch_targets :: "icfg \<Rightarrow> nat \<Rightarrow> nat list \<Rightarrow> nat list option" where
  "branch_targets g b [] = Some []"
| "branch_targets g b (e # es) =
     do { ed \<leftarrow> ic_be g e;
          drob_assert (\<not> be_invalidated ed);
          v \<leftarrow> is_visited g (be_dst ed);
          ts \<leftarrow> branch_targets g b es;
          Some (if be_dst ed \<noteq> b \<and> \<not> v then be_dst ed # ts else ts) }"

definition push_bfs :: "nat list \<Rightarrow> nat list \<Rightarrow> nat list" where
  "push_bfs ts ws = ws @ ts"

definition push_dfs :: "nat list \<Rightarrow> nat list \<Rightarrow> nat list" where
  "push_dfs ts ws = ts @ ws"

text \<open>\<open>cur\<close> is the block of the inner loop, none in the outer loop, \<open>ws\<close> the blocks still to go to.\<close>

partial_function (option) walk :: "(nat list \<Rightarrow> nat list \<Rightarrow> nat list) \<Rightarrow> 'x visitor \<Rightarrow> nat option \<Rightarrow> nat list \<Rightarrow>
    'x \<times> icfg \<Rightarrow> (bool \<times> 'x \<times> icfg) option" where
  "walk push cb cur ws s =
     (case cur of
        None \<Rightarrow>
          (case ws of
             [] \<Rightarrow> Some (False, s)
           | b # ws \<Rightarrow> do { v \<leftarrow> is_visited (snd s) b; walk push cb (if v then None else Some b) ws s })
      | Some b \<Rightarrow>
          do { sb \<leftarrow> ic_sb (snd s) b;
               if nd_visited (sb_node sb) then walk push cb (sb_next sb) ws s
               else
                 do { g \<leftarrow> upd_sb b (set_visited True) (snd s);
                      (stop, s) \<leftarrow> cb b (fst s, g);
                      if stop then Some (True, s)
                      else
                        do { sb \<leftarrow> ic_sb (snd s) b;
                             ts \<leftarrow> branch_targets (snd s) b (sb_out sb);
                             walk push cb (sb_next sb) (push ts ws) s } } })"

declare walk.simps [code]

definition mark_all_blocks :: "nat \<Rightarrow> bool \<Rightarrow> icfg \<Rightarrow> icfg option" where
  "mark_all_blocks f v g = do { fn \<leftarrow> ic_fn g f; for_each (fn_blocks fn) (\<lambda>b. upd_sb b (set_visited v)) g }"

definition walk_function :: "(nat list \<Rightarrow> nat list \<Rightarrow> nat list) \<Rightarrow> nat \<Rightarrow> 'x visitor \<Rightarrow> 'x \<times> icfg \<Rightarrow>
    (bool \<times> 'x \<times> icfg) option" where
  "walk_function push f cb s =
     do { fn \<leftarrow> ic_fn (snd s) f;
          case fn_entry fn of
            None \<Rightarrow> Some (False, s)
          | Some e \<Rightarrow>
              do { v \<leftarrow> is_visited (snd s) e;
                   g \<leftarrow> (if v then mark_all_blocks f False (snd s) else Some (snd s));
                   walk push cb None [e] (fst s, g) } }"

definition for_each_block_dfs :: "nat \<Rightarrow> 'x visitor \<Rightarrow> 'x \<times> icfg \<Rightarrow> (bool \<times> 'x \<times> icfg) option" where
  "for_each_block_dfs = walk_function push_dfs"

definition for_each_block_bfs :: "nat \<Rightarrow> 'x visitor \<Rightarrow> 'x \<times> icfg \<Rightarrow> (bool \<times> 'x \<times> icfg) option" where
  "for_each_block_bfs = walk_function push_bfs"

section \<open>Functions\<close>

definition set_fn_visited :: "bool \<Rightarrow> func \<Rightarrow> func" where
  "set_fn_visited v fn = fn\<lparr>fn_node := (fn_node fn)\<lparr>nd_visited := v\<rparr>\<rparr>"

definition fn_visited :: "icfg \<Rightarrow> nat \<Rightarrow> bool option" where
  "fn_visited g f = do { fn \<leftarrow> ic_fn g f; Some (nd_visited (fn_node fn)) }"

text \<open>
  The calls to follow: in depth-first order those to functions not visited. The breadth-first
  order asks whether the caller is visited, which it always is.
\<close>

primrec call_targets :: "(nat \<Rightarrow> nat \<Rightarrow> nat) \<Rightarrow> icfg \<Rightarrow> nat \<Rightarrow> nat list \<Rightarrow> nat list option" where
  "call_targets asked g f [] = Some []"
| "call_targets asked g f (e # es) =
     do { ed \<leftarrow> ic_ce g e;
          drob_assert (\<not> ce_invalidated ed);
          v \<leftarrow> fn_visited g (asked f (ce_dst ed));
          ts \<leftarrow> call_targets asked g f es;
          Some (if ce_dst ed \<noteq> f \<and> \<not> v then ce_dst ed # ts else ts) }"

partial_function (option) walk_functions :: "(nat list \<Rightarrow> nat list \<Rightarrow> nat list) \<Rightarrow> (nat \<Rightarrow> nat \<Rightarrow> nat) \<Rightarrow> 'x visitor \<Rightarrow>
    nat list \<Rightarrow> 'x \<times> icfg \<Rightarrow> (bool \<times> 'x \<times> icfg) option" where
  "walk_functions push asked cb ws s =
     (case ws of
        [] \<Rightarrow> Some (False, s)
      | f # ws \<Rightarrow>
          do { v \<leftarrow> fn_visited (snd s) f;
               if v then walk_functions push asked cb ws s
               else
                 do { g \<leftarrow> upd_fn f (set_fn_visited True) (snd s);
                      (stop, s) \<leftarrow> cb f (fst s, g);
                      if stop then Some (True, s)
                      else
                        do { fn \<leftarrow> ic_fn (snd s) f;
                             ts \<leftarrow> call_targets asked (snd s) f (fn_out fn);
                             walk_functions push asked cb (push ts ws) s } } })"

declare walk_functions.simps [code]

definition mark_all_functions :: "bool \<Rightarrow> icfg \<Rightarrow> icfg option" where
  "mark_all_functions v g = for_each (ic_functions g) (\<lambda>f. upd_fn f (set_fn_visited v)) g"

definition walk_icfg :: "(nat list \<Rightarrow> nat list \<Rightarrow> nat list) \<Rightarrow> (nat \<Rightarrow> nat \<Rightarrow> nat) \<Rightarrow> 'x visitor \<Rightarrow> 'x \<times> icfg \<Rightarrow>
    (bool \<times> 'x \<times> icfg) option" where
  "walk_icfg push asked cb s =
     (case ic_entry (snd s) of
        None \<Rightarrow> Some (False, s)
      | Some f \<Rightarrow>
          do { v \<leftarrow> fn_visited (snd s) f;
               g \<leftarrow> (if v then mark_all_functions False (snd s) else Some (snd s));
               walk_functions push asked cb [f] (fst s, g) })"

definition for_each_function_dfs :: "'x visitor \<Rightarrow> 'x \<times> icfg \<Rightarrow> (bool \<times> 'x \<times> icfg) option" where
  "for_each_function_dfs = walk_icfg push_dfs (\<lambda>f d. d)"

definition for_each_function_bfs :: "'x visitor \<Rightarrow> 'x \<times> icfg \<Rightarrow> (bool \<times> 'x \<times> icfg) option" where
  "for_each_function_bfs = walk_icfg push_bfs (\<lambda>f d. f)"

section \<open>What is reachable\<close>

text \<open>What the traversal reads of the graph, besides the marks.\<close>

definition succ_next :: "icfg \<Rightarrow> nat \<Rightarrow> nat option" where
  "succ_next g b = do { sb \<leftarrow> ic_sb g b; sb_next sb }"

definition succ_branch :: "icfg \<Rightarrow> nat \<Rightarrow> nat set" where
  "succ_branch g b = {d. \<exists>sb e ed. ic_sb g b = Some sb \<and> e \<in> set (sb_out sb) \<and> ic_be g e = Some ed \<and> be_dst ed = d}"

definition succs :: "icfg \<Rightarrow> nat \<Rightarrow> nat set" where
  "succs g b = succ_branch g b \<union> set_option (succ_next g b)"

inductive_set reached :: "icfg \<Rightarrow> nat \<Rightarrow> nat set" for g e where
  start: "e \<in> reached g e"
| step: "b \<in> reached g e \<Longrightarrow> d \<in> succs g b \<Longrightarrow> d \<in> reached g e"

definition block_view :: "super_block \<Rightarrow> nat option \<times> nat list" where
  "block_view sb = (sb_next sb, sb_out sb)"

definition edge_view :: "branch_edge \<Rightarrow> nat \<times> bool" where
  "edge_view ed = (be_dst ed, be_invalidated ed)"

definition same_shape :: "icfg \<Rightarrow> icfg \<Rightarrow> bool" where
  "same_shape g h \<longleftrightarrow> (\<forall>b. map_option block_view (ic_sb h b) = map_option block_view (ic_sb g b)) \<and>
     (\<forall>e. map_option edge_view (ic_be h e) = map_option edge_view (ic_be g e))"

definition visited :: "icfg \<Rightarrow> nat set" where
  "visited g = {b. is_visited g b = Some True}"

text \<open>A callback that lets the traversal go on and leaves alone what it reads.\<close>

definition harmless :: "'x visitor \<Rightarrow> bool" where
  "harmless cb \<longleftrightarrow> (\<forall>b x g. ic_sb g b \<noteq> None \<longrightarrow>
     (\<exists>x' g'. cb b (x, g) = Some (False, x', g') \<and> same_shape g g' \<and> visited g' = visited g))"

definition visit :: "'x visitor \<Rightarrow> nat \<Rightarrow> 'x \<times> icfg \<Rightarrow> ('x \<times> icfg) option" where
  "visit cb b s = do { g \<leftarrow> upd_sb b (set_visited True) (snd s); (stop, s) \<leftarrow> cb b (fst s, g); Some s }"

text \<open>Every block of the set is there with its successors, and no chain of blocks is a cycle.\<close>

definition walkable :: "icfg \<Rightarrow> nat set \<Rightarrow> bool" where
  "walkable g B \<longleftrightarrow> finite B \<and>
     (\<forall>b \<in> B. \<exists>sb. ic_sb g b = Some sb \<and> (\<forall>n. sb_next sb = Some n \<longrightarrow> n \<in> B) \<and>
        (\<forall>e \<in> set (sb_out sb). \<exists>ed. ic_be g e = Some ed \<and> \<not> be_invalidated ed \<and> be_dst ed \<in> B))"

definition chains_end :: "icfg \<Rightarrow> nat set \<Rightarrow> bool" where
  "chains_end g B \<longleftrightarrow> (\<exists>rank :: nat \<Rightarrow> nat. \<forall>b \<in> B. \<forall>n. succ_next g b = Some n \<longrightarrow> rank n < rank b)"

lemma same_shape_refl [simp]: "same_shape g g"
  by (simp add: same_shape_def)

lemma same_shape_trans: "same_shape g h \<Longrightarrow> same_shape h k \<Longrightarrow> same_shape g k"
  by (simp add: same_shape_def)

lemma same_shapeD:
  assumes "same_shape g h" and "ic_sb g b = Some sb"
  shows "\<exists>sb'. ic_sb h b = Some sb' \<and> sb_next sb' = sb_next sb \<and> sb_out sb' = sb_out sb"
  using assms by (auto simp: same_shape_def block_view_def dest!: spec[of _ b])

lemma same_shape_edge:
  assumes "same_shape g h" and "ic_be g e = Some ed"
  shows "\<exists>ed'. ic_be h e = Some ed' \<and> be_dst ed' = be_dst ed \<and> be_invalidated ed' = be_invalidated ed"
  using assms by (auto simp: same_shape_def edge_view_def dest!: spec[of _ e])

lemma same_shape_sym: "same_shape g h \<Longrightarrow> same_shape h g"
  by (simp add: same_shape_def)

lemma succ_next_shape: "same_shape g h \<Longrightarrow> succ_next h b = succ_next g b"
  using same_shapeD[of g h b] same_shapeD[of h g b] same_shape_sym[of g h]
  by (cases "ic_sb g b"; cases "ic_sb h b") (auto simp: succ_next_def)

lemma succ_branch_mono: "same_shape g h \<Longrightarrow> d \<in> succ_branch g b \<Longrightarrow> d \<in> succ_branch h b"
  using same_shapeD[of g h b] same_shape_edge[of g h] by (fastforce simp: succ_branch_def)

lemma succs_shape: "same_shape g h \<Longrightarrow> succs h b = succs g b"
  using succ_branch_mono[of g h] succ_branch_mono[of h g] same_shape_sym[of g h] succ_next_shape[of g h b]
  by (auto simp: succs_def)

lemma walkable_block: "walkable g B \<Longrightarrow> b \<in> B \<Longrightarrow> \<exists>sb. ic_sb g b = Some sb"
  unfolding walkable_def by blast

lemma walkable_shape:
  assumes "same_shape g h" and "walkable g B"
  shows "walkable h B"
  unfolding walkable_def
proof (intro conjI ballI)
  show "finite B" using assms(2) by (simp add: walkable_def)
next
  fix b assume "b \<in> B"
  then obtain sb where sb: "ic_sb g b = Some sb" "\<forall>n. sb_next sb = Some n \<longrightarrow> n \<in> B"
    "\<forall>e \<in> set (sb_out sb). \<exists>ed. ic_be g e = Some ed \<and> \<not> be_invalidated ed \<and> be_dst ed \<in> B"
    using assms(2) unfolding walkable_def by blast
  obtain sb' where sb': "ic_sb h b = Some sb'" "sb_next sb' = sb_next sb" "sb_out sb' = sb_out sb"
    using same_shapeD[OF assms(1) sb(1)] by blast
  have "\<exists>ed. ic_be h e = Some ed \<and> \<not> be_invalidated ed \<and> be_dst ed \<in> B" if "e \<in> set (sb_out sb')" for e
    using sb(3) that sb'(3) same_shape_edge[OF assms(1), of e] by metis
  then show "\<exists>sb. ic_sb h b = Some sb \<and> (\<forall>n. sb_next sb = Some n \<longrightarrow> n \<in> B) \<and>
        (\<forall>e \<in> set (sb_out sb). \<exists>ed. ic_be h e = Some ed \<and> \<not> be_invalidated ed \<and> be_dst ed \<in> B)"
    using sb sb' by auto
qed

section \<open>A traversal visits what is reachable\<close>

lemma mark_shape:
  assumes "upd_sb b (set_visited v) g = Some g'"
  shows "same_shape g g'" and "visited g' = (if v then insert b (visited g) else visited g - {b})"
  using assms
  by (auto simp: upd_sb_def bind_eq_Some_conv same_shape_def block_view_def set_visited_def visited_def is_visited_def
      split: if_splits)

lemma visit_facts:
  assumes cb: "harmless cb" and b: "ic_sb (snd s) b = Some sb"
  shows "\<exists>s'. visit cb b s = Some s' \<and> same_shape (snd s) (snd s') \<and> visited (snd s') = insert b (visited (snd s)) \<and>
    (\<exists>g. upd_sb b (set_visited True) (snd s) = Some g \<and> cb b (fst s, g) = Some (False, s'))"
proof -
  obtain g where g: "upd_sb b (set_visited True) (snd s) = Some g" "ic_sb g b \<noteq> None"
    using b by (auto simp: upd_sb_def)
  obtain x' g' where c: "cb b (fst s, g) = Some (False, x', g')" "same_shape g g'" "visited g' = visited g"
    using cb g(2) unfolding harmless_def by blast
  show ?thesis
    using g(1) c mark_shape[OF g(1)] same_shape_trans by (auto simp: visit_def)
qed

text \<open>The targets pushed, as a set: those not visited, the block itself left out.\<close>

definition edge_dst :: "icfg \<Rightarrow> nat \<Rightarrow> nat" where
  "edge_dst g e = be_dst (the (ic_be g e))"

lemma branch_targets_ok:
  assumes "\<forall>e \<in> set es. \<exists>ed. ic_be g e = Some ed \<and> \<not> be_invalidated ed \<and> ic_sb g (be_dst ed) \<noteq> None"
  shows "\<exists>ts. branch_targets g b es = Some ts \<and> set ts = edge_dst g ` set es - insert b (visited g)"
  using assms
proof (induction es)
  case (Cons e es)
  obtain ed where ed: "ic_be g e = Some ed" "\<not> be_invalidated ed" "ic_sb g (be_dst ed) \<noteq> None"
    using Cons.prems by auto
  then obtain v where v: "is_visited g (be_dst ed) = Some v" by (auto simp: is_visited_def)
  then have "v = (be_dst ed \<in> visited g)" by (auto simp: visited_def)
  then show ?case using Cons ed v by (auto simp: edge_dst_def)
qed simp

lemma succ_branch_eq:
  assumes "ic_sb g b = Some sb" and "\<forall>e \<in> set (sb_out sb). ic_be g e \<noteq> None"
  shows "succ_branch g b = edge_dst g ` set (sb_out sb)"
proof
  show "succ_branch g b \<subseteq> edge_dst g ` set (sb_out sb)"
    using assms(1) by (force simp: succ_branch_def edge_dst_def)
  show "edge_dst g ` set (sb_out sb) \<subseteq> succ_branch g b"
    using assms by (fastforce simp: succ_branch_def edge_dst_def)
qed

definition push_ok :: "(nat list \<Rightarrow> nat list \<Rightarrow> nat list) \<Rightarrow> bool" where
  "push_ok push \<longleftrightarrow> (\<forall>ts ws. set (push ts ws) = set ts \<union> set ws)"

lemma push_ok [simp]: "push_ok push_bfs" "push_ok push_dfs"
  by (auto simp: push_ok_def push_bfs_def push_dfs_def)

text \<open>
  Between two rounds: the successors of a visited block are visited or still to come, and
  everything still to come is reachable.
\<close>

definition walk_inv :: "icfg \<Rightarrow> nat set \<Rightarrow> nat \<Rightarrow> nat option \<Rightarrow> nat list \<Rightarrow> icfg \<Rightarrow> bool" where
  "walk_inv g0 B e cur ws g \<longleftrightarrow> same_shape g0 g \<and> walkable g0 B \<and> reached g0 e \<subseteq> B \<and>
     visited g \<inter> B \<subseteq> reached g0 e \<and> set ws \<subseteq> reached g0 e \<and> set_option cur \<subseteq> reached g0 e \<and>
     e \<in> visited g \<union> set ws \<union> set_option cur \<and>
     (\<forall>b \<in> visited g \<inter> B. succ_branch g0 b \<subseteq> visited g \<union> set ws \<union> set_option cur \<union> {b} \<and> set_option (succ_next g0 b) \<subseteq> visited g \<union> set_option cur)"

lemma walk_done:
  assumes "walk_inv g0 B e None [] g"
  shows "visited g \<inter> B = reached g0 e"
proof -
  have "d \<in> visited g \<inter> B" if "d \<in> reached g0 e" for d
    using that
  proof induction
    case start
    then show ?case using assms reached.start by (auto simp: walk_inv_def)
  next
    case (step b d)
    have "d \<in> B" using step(1,2) reached.step[OF step(1,2)] assms by (auto simp: walk_inv_def)
    moreover have "d \<in> visited g" using step(2,3) assms by (auto simp: walk_inv_def succs_def)
    ultimately show ?case by simp
  qed
  then show ?thesis using assms by (auto simp: walk_inv_def)
qed

text \<open>One round of the loop over a block that was not visited.\<close>

lemma walk_visit:
  assumes inv: "walk_inv g0 B e (Some b) ws (snd s)" and cb: "harmless cb" and push: "push_ok push"
    and new: "b \<notin> visited (snd s)"
  shows "\<exists>s' ts. visit cb b s = Some s' \<and> walk push cb (Some b) ws s = walk push cb (succ_next g0 b) (push ts ws) s' \<and>
    walk_inv g0 B e (succ_next g0 b) (push ts ws) (snd s') \<and> visited (snd s') = insert b (visited (snd s))"
proof -
  let ?g = "snd s"
  have b: "b \<in> reached g0 e" "b \<in> B" using inv by (auto simp: walk_inv_def)
  have sh: "same_shape g0 ?g" and wk: "walkable g0 B" using inv by (auto simp: walk_inv_def)
  obtain sb where sb: "ic_sb ?g b = Some sb"
    using walkable_block[OF walkable_shape[OF sh wk] b(2)] by blast
  have nv: "\<not> nd_visited (sb_node sb)" using new sb by (simp add: visited_def is_visited_def)
  obtain s' g' where s': "visit cb b s = Some s'" "same_shape ?g (snd s')" "visited (snd s') = insert b (visited ?g)"
    "upd_sb b (set_visited True) ?g = Some g'" "cb b (fst s, g') = Some (False, s')"
    using visit_facts[OF cb sb] by blast
  have sh': "same_shape g0 (snd s')" using same_shape_trans[OF sh s'(2)] .
  have wk': "walkable (snd s') B" using walkable_shape[OF sh' wk] .
  obtain sb' where sb': "ic_sb (snd s') b = Some sb'" "\<forall>e \<in> set (sb_out sb'). \<exists>ed. ic_be (snd s') e = Some ed \<and>
      \<not> be_invalidated ed \<and> be_dst ed \<in> B"
    using wk' b(2) unfolding walkable_def by blast
  have dst: "\<forall>e \<in> set (sb_out sb'). \<exists>ed. ic_be (snd s') e = Some ed \<and> \<not> be_invalidated ed \<and> ic_sb (snd s') (be_dst ed) \<noteq> None"
    using sb'(2) wk' unfolding walkable_def by fastforce
  obtain ts where ts: "branch_targets (snd s') b (sb_out sb') = Some ts"
    "set ts = edge_dst (snd s') ` set (sb_out sb') - insert b (visited (snd s'))"
    using branch_targets_ok[OF dst] by blast
  have br: "succ_branch (snd s') b = succ_branch g0 b"
    using succ_branch_mono[OF sh'] succ_branch_mono[OF same_shape_sym[OF sh']] by blast
  have nx: "sb_next sb' = succ_next g0 b" using succ_next_shape[OF sh', of b] sb'(1) by (simp add: succ_next_def)
  have "\<forall>e \<in> set (sb_out sb'). ic_be (snd s') e \<noteq> None" using dst by auto
  then have tset: "set ts = succ_branch g0 b - insert b (visited (snd s'))"
    using ts(2) succ_branch_eq[OF sb'(1)] br by simp
  have "walk push cb (Some b) ws s = walk push cb (succ_next g0 b) (push ts ws) s'"
    by (subst walk.simps) (use sb nv s'(4,5) sb'(1) ts(1) nx in simp)
  moreover have "walk_inv g0 B e (succ_next g0 b) (push ts ws) (snd s')"
  proof -
    have r: "succ_branch g0 b \<subseteq> reached g0 e" "set_option (succ_next g0 b) \<subseteq> reached g0 e"
      using reached.step[OF b(1)] by (auto simp: succs_def)
    have pw: "set (push ts ws) = set ts \<union> set ws" using push by (simp add: push_ok_def)
    have old: "succ_branch g0 c \<subseteq> visited ?g \<union> set ws \<union> {b} \<union> {c}" "set_option (succ_next g0 c) \<subseteq> visited ?g \<union> {b}"
      if "c \<in> visited ?g \<inter> B" for c
      using inv that unfolding walk_inv_def by auto
    have "succ_branch g0 c \<subseteq> visited (snd s') \<union> set (push ts ws) \<union> set_option (succ_next g0 b) \<union> {c} \<and>
        set_option (succ_next g0 c) \<subseteq> visited (snd s') \<union> set_option (succ_next g0 b)"
      if "c \<in> visited (snd s') \<inter> B" for c
    proof (cases "c = b")
      case True
      then show ?thesis unfolding pw tset by auto
    next
      case False
      then have "c \<in> visited ?g \<inter> B" using that s'(3) by auto
      from old[OF this] show ?thesis unfolding pw s'(3) by auto
    qed
    moreover have "e \<in> visited (snd s') \<union> set (push ts ws) \<union> set_option (succ_next g0 b)"
      using inv s'(3) pw by (auto simp: walk_inv_def)
    moreover have "set (push ts ws) \<subseteq> reached g0 e" using pw tset r(1) inv by (auto simp: walk_inv_def)
    moreover have "visited (snd s') \<inter> B \<subseteq> reached g0 e" using s'(3) b(1) inv by (auto simp: walk_inv_def)
    moreover have "reached g0 e \<subseteq> B" using inv by (simp add: walk_inv_def)
    ultimately show ?thesis using sh' wk r(2) by (simp add: walk_inv_def)
  qed
  ultimately show ?thesis using s'(1,3) by blast
qed

text \<open>The whole loop: it ends, having visited the reachable blocks in some order, each once.\<close>

lemma walk_total:
  fixes rank :: "nat \<Rightarrow> nat"
  assumes "walk_inv g0 B e cur ws (snd s)" and cb: "harmless cb" and push: "push_ok push"
    and rank: "\<forall>b \<in> reached g0 e. \<forall>n. succ_next g0 b = Some n \<longrightarrow> rank n < rank b"
  shows "\<exists>bs s'. walk push cb cur ws s = Some (False, s') \<and> for_each bs (visit cb) s = Some s' \<and> distinct bs \<and>
    set bs = reached g0 e - visited (snd s) \<and> same_shape g0 (snd s')"
  using assms(1)
proof (induction "(card (B - visited (snd s)), length ws, case cur of None \<Rightarrow> 0 | Some b \<Rightarrow> rank b + 1)"
    arbitrary: cur ws s rule: wf_induct_rule[OF wf_lex_prod[OF wf_less_than wf_lex_prod[OF wf_less_than wf_less_than]]])
  case (1 cur ws s)
  note inv = 1(2)
  have fin: "finite B" and sh: "same_shape g0 (snd s)" using inv by (auto simp: walk_inv_def walkable_def)
  show ?case
  proof (cases cur)
    case None
    show ?thesis
    proof (cases ws)
      case Nil
      have i: "walk_inv g0 B e None [] (snd s)" using inv None Nil by simp
      have "reached g0 e - visited (snd s) = {}" using walk_done[OF i] by blast
      moreover have "walk push cb cur ws s = Some (False, s)" by (subst walk.simps) (simp add: None Nil)
      ultimately show ?thesis using sh by (intro exI[of _ "[]"]) simp
    next
      case (Cons b ws')
      have "b \<in> B" using inv Cons by (auto simp: walk_inv_def)
      moreover have "walkable (snd s) B" using walkable_shape[OF sh] inv by (simp add: walk_inv_def)
      ultimately obtain sb where "ic_sb (snd s) b = Some sb" using walkable_block by blast
      then have v: "is_visited (snd s) b = Some (b \<in> visited (snd s))" by (auto simp: is_visited_def visited_def)
      have st: "walk push cb cur ws s = walk push cb (if b \<in> visited (snd s) then None else Some b) ws' s"
        by (subst walk.simps) (use v None Cons in simp)
      have i: "walk_inv g0 B e (if b \<in> visited (snd s) then None else Some b) ws' (snd s)"
        using inv None Cons unfolding walk_inv_def by auto
      show ?thesis unfolding st by (rule 1(1)[OF _ i]) (simp add: Cons)
    qed
  next
    case (Some b)
    have b: "b \<in> B" "b \<in> reached g0 e" using inv Some by (auto simp: walk_inv_def)
    show ?thesis
    proof (cases "b \<in> visited (snd s)")
      case True
      obtain sb where sb: "ic_sb (snd s) b = Some sb" "nd_visited (sb_node sb)"
        using True by (auto simp: visited_def is_visited_def bind_eq_Some_conv)
      have nx: "sb_next sb = succ_next g0 b" using succ_next_shape[OF sh, of b] sb(1) by (simp add: succ_next_def)
      have st: "walk push cb cur ws s = walk push cb (succ_next g0 b) ws s"
        by (subst walk.simps) (use sb nx Some in simp)
      have r: "set_option (succ_next g0 b) \<subseteq> reached g0 e"
        using reached.step[of b g0 e] inv Some by (auto simp: walk_inv_def succs_def)
      have i: "walk_inv g0 B e (succ_next g0 b) ws (snd s)"
        using inv Some True r unfolding walk_inv_def by auto
      show ?thesis unfolding st
        by (rule 1(1)[OF _ i]) (use rank b(2) Some in \<open>auto split: option.split\<close>)
    next
      case False
      obtain s1 ts where v: "visit cb b s = Some s1" "walk push cb (Some b) ws s = walk push cb (succ_next g0 b) (push ts ws) s1"
        "walk_inv g0 B e (succ_next g0 b) (push ts ws) (snd s1)" "visited (snd s1) = insert b (visited (snd s))"
        using walk_visit[OF inv[unfolded Some] cb push False] by blast
      have less: "card (B - visited (snd s1)) < card (B - visited (snd s))"
        using v(4) b(1) False fin by (intro psubset_card_mono) auto
      obtain bs s' where h: "walk push cb (succ_next g0 b) (push ts ws) s1 = Some (False, s')"
        "for_each bs (visit cb) s1 = Some s'" "distinct bs" "set bs = reached g0 e - visited (snd s1)" "same_shape g0 (snd s')"
        using 1(1)[OF _ v(3)] less by auto
      have "set (b # bs) = reached g0 e - visited (snd s)"
        using h(4) v(4) False inv Some by (auto simp: walk_inv_def)
      moreover have "distinct (b # bs)" using h(3,4) v(4) by auto
      ultimately show ?thesis using v(1,2) h(1,2,5) Some
        by (intro exI[of _ "b # bs"] exI[of _ s']) simp
    qed
  qed
qed

lemma unmark_all:
  "\<forall>b \<in> set bs. ic_sb g b \<noteq> None \<Longrightarrow>
   \<exists>g'. for_each bs (\<lambda>b. upd_sb b (set_visited False)) g = Some g' \<and> same_shape g g' \<and> visited g' = visited g - set bs"
proof (induction bs arbitrary: g)
  case (Cons b bs)
  obtain g1 where g1: "upd_sb b (set_visited False) g = Some g1" using Cons.prems by (auto simp: upd_sb_def)
  have sh: "same_shape g g1" "visited g1 = visited g - {b}" using mark_shape[OF g1] by auto
  have "\<forall>c \<in> set bs. ic_sb g1 c \<noteq> None" using Cons.prems same_shapeD[OF sh(1)] by fastforce
  then obtain g' where "for_each bs (\<lambda>b. upd_sb b (set_visited False)) g1 = Some g'" "same_shape g1 g'"
    "visited g' = visited g1 - set bs" using Cons.IH by blast
  then show ?case using g1 sh same_shape_trans by auto
qed simp

text \<open>
  The marks are in order when a traversal that starts with an entry block not visited finds no
  block visited; every traversal leaves them so.
\<close>

definition marks_ok :: "icfg \<Rightarrow> nat \<Rightarrow> bool" where
  "marks_ok g f \<longleftrightarrow> (\<forall>fn e. ic_fn g f = Some fn \<longrightarrow> fn_entry fn = Some e \<longrightarrow> e \<notin> visited g \<longrightarrow>
     visited g \<inter> set (fn_blocks fn) = {})"

lemma reached_in:
  assumes "walkable g B" and "e \<in> B"
  shows "reached g e \<subseteq> B"
proof
  fix d assume "d \<in> reached g e"
  then show "d \<in> B"
  proof induction
    case (step b d)
    obtain sb where sb: "ic_sb g b = Some sb" "\<forall>n. sb_next sb = Some n \<longrightarrow> n \<in> B"
      "\<forall>e \<in> set (sb_out sb). \<exists>ed. ic_be g e = Some ed \<and> \<not> be_invalidated ed \<and> be_dst ed \<in> B"
      using assms(1) step(3) unfolding walkable_def by blast
    show ?case using step(2) sb by (fastforce simp: succs_def succ_branch_def succ_next_def)
  qed (rule assms(2))
qed

lemma walk_function_start:
  assumes fn: "ic_fn g f = Some fn" "fn_entry fn = Some e" "e \<in> set (fn_blocks fn)"
    and wk: "walkable g (set (fn_blocks fn))" and marks: "marks_ok g f"
  shows "\<exists>g0. walk_function push f cb (x, g) = walk push cb None [e] (x, g0) \<and> same_shape g g0 \<and>
    visited g0 \<inter> set (fn_blocks fn) = {} \<and> walk_inv g (set (fn_blocks fn)) e None [e] g0"
proof -
  let ?B = "set (fn_blocks fn)"
  have ex: "\<forall>b \<in> ?B. ic_sb g b \<noteq> None" using wk by (auto simp: walkable_def)
  then have v: "is_visited g e = Some (e \<in> visited g)" using fn(3) by (auto simp: visited_def is_visited_def)
  obtain g0 where g0: "(if e \<in> visited g then mark_all_blocks f False g else Some g) = Some g0" "same_shape g g0"
    "visited g0 \<inter> ?B = {}"
  proof (cases "e \<in> visited g")
    case True
    obtain g' where "for_each (fn_blocks fn) (\<lambda>b. upd_sb b (set_visited False)) g = Some g'" "same_shape g g'"
      "visited g' = visited g - ?B" using unmark_all[OF ex] by blast
    then show ?thesis using that[of g'] True fn(1) by (auto simp: mark_all_blocks_def)
  next
    case False
    then show ?thesis using that[of g] marks fn by (auto simp: marks_ok_def)
  qed
  have "reached g e \<subseteq> ?B" using reached_in[OF wk fn(3)] .
  then have "walk_inv g ?B e None [e] g0"
    using g0(2,3) wk reached.start[of e g] by (auto simp: walk_inv_def)
  moreover have "walk_function push f cb (x, g) = walk push cb None [e] (x, g0)"
    unfolding walk_function_def using fn(1,2) v g0(1) by (simp split del: if_split cong: if_cong)
  ultimately show ?thesis using g0(2,3) by blast
qed

lemma walk_function_total:
  assumes fn: "ic_fn g f = Some fn" "fn_entry fn = Some e" "e \<in> set (fn_blocks fn)"
    and wk: "walkable g (set (fn_blocks fn))" and ch: "chains_end g (reached g e)" and marks: "marks_ok g f"
    and cb: "harmless cb" and push: "push_ok push"
  shows "\<exists>bs g0 s'. walk_function push f cb (x, g) = Some (False, s') \<and> distinct bs \<and> set bs = reached g e \<and>
    same_shape g g0 \<and> for_each bs (visit cb) (x, g0) = Some s' \<and> same_shape g (snd s')"
proof -
  let ?B = "set (fn_blocks fn)"
  obtain rank :: "nat \<Rightarrow> nat" where rank: "\<forall>b \<in> reached g e. \<forall>n. succ_next g b = Some n \<longrightarrow> rank n < rank b"
    using ch by (auto simp: chains_end_def)
  obtain g0 where g0: "walk_function push f cb (x, g) = walk push cb None [e] (x, g0)" "same_shape g g0"
    "visited g0 \<inter> ?B = {}" "walk_inv g ?B e None [e] (snd (x, g0))"
    using walk_function_start[OF fn wk marks, of push cb x] by auto
  obtain bs s' where w: "walk push cb None [e] (x, g0) = Some (False, s')" "for_each bs (visit cb) (x, g0) = Some s'"
    "distinct bs" "set bs = reached g e - visited g0" "same_shape g (snd s')"
    using walk_total[OF g0(4) cb push rank] by auto
  have "set bs = reached g e" using w(4) reached_in[OF wk fn(3)] g0(3) by auto
  then show ?thesis using w g0(1,2) by auto
qed

section \<open>Cyclic chains\<close>

definition next_closed :: "icfg \<Rightarrow> nat set \<Rightarrow> bool" where
  "next_closed g C \<longleftrightarrow> (\<forall>b \<in> C. \<exists>n \<in> C. succ_next g b = Some n)"

lemma walk_diverges:
  assumes cb: "harmless cb" and b: "b \<in> C" and C: "next_closed (snd s) C"
  shows "walk push cb (Some b) ws s = None"
proof -
  let ?P = "\<lambda>push cb cur ws s r. harmless cb \<longrightarrow> (\<forall>b \<in> C. cur = Some b \<longrightarrow> \<not> next_closed (snd s) C)"
  have "?P push cb cur ws s r" if "walk push cb cur ws s = Some r" for push and cb :: "'x visitor" and cur ws s r
    using that
  proof (rule walk.raw_induct[of ?P, rotated], intro impI ballI notI)
    fix walk' :: "(nat list \<Rightarrow> nat list \<Rightarrow> nat list) \<Rightarrow> 'x visitor \<Rightarrow> nat option \<Rightarrow> nat list \<Rightarrow> 'x \<times> icfg \<Rightarrow>
        (bool \<times> 'x \<times> icfg) option"
      and push and cb :: "'x visitor" and cur ws s r b
    assume IH: "\<And>push cb cur ws s r. walk' push cb cur ws s = Some r \<Longrightarrow> ?P push cb cur ws s r"
      and body: "(case cur of
        None \<Rightarrow>
          (case ws of
             [] \<Rightarrow> Some (False, s)
           | b # ws \<Rightarrow> do { v \<leftarrow> is_visited (snd s) b; walk' push cb (if v then None else Some b) ws s })
      | Some b \<Rightarrow>
          do { sb \<leftarrow> ic_sb (snd s) b;
               if nd_visited (sb_node sb) then walk' push cb (sb_next sb) ws s
               else
                 do { g \<leftarrow> upd_sb b (set_visited True) (snd s);
                      (stop, s) \<leftarrow> cb b (fst s, g);
                      if stop then Some (True, s)
                      else
                        do { sb \<leftarrow> ic_sb (snd s) b;
                             ts \<leftarrow> branch_targets (snd s) b (sb_out sb);
                             walk' push cb (sb_next sb) (push ts ws) s } } }) = Some r"
      and cb: "harmless cb" and b: "b \<in> C" and cur: "cur = Some b" and C: "next_closed (snd s) C"
    obtain n where n: "n \<in> C" "succ_next (snd s) b = Some n" using C b by (auto simp: next_closed_def)
    then obtain sb where sb: "ic_sb (snd s) b = Some sb" "sb_next sb = Some n"
      by (auto simp: succ_next_def bind_eq_Some_conv)
    show False
    proof (cases "nd_visited (sb_node sb)")
      case True
      then have "walk' push cb (Some n) ws s = Some r" using body cur sb by simp
      then show False using IH cb n(1) C by blast
    next
      case False
      obtain s' g' where s': "same_shape (snd s) (snd s')" "upd_sb b (set_visited True) (snd s) = Some g'"
        "cb b (fst s, g') = Some (False, s')"
        using visit_facts[OF cb sb(1)] by blast
      obtain sb' where sb': "ic_sb (snd s') b = Some sb'" "sb_next sb' = Some n"
        using same_shapeD[OF s'(1) sb(1)] sb(2) by auto
      have "next_closed (snd s') C" using C succ_next_shape[OF s'(1)] by (simp add: next_closed_def)
      moreover obtain ts where "walk' push cb (Some n) (push ts ws) s' = Some r"
        using body cur sb False s'(2,3) sb' by (auto simp: bind_eq_Some_conv)
      ultimately show False using IH cb n(1) by blast
    qed
  qed
  then show ?thesis using cb b C by (cases "walk push cb (Some b) ws s") blast+
qed

text \<open>Blocks whose chain goes on for ever, and the length of the other chains.\<close>

definition circling :: "icfg \<Rightarrow> nat set \<Rightarrow> nat set" where
  "circling g R = \<Union> {C. C \<subseteq> R \<and> next_closed g C}"

primrec chain_at :: "icfg \<Rightarrow> nat \<Rightarrow> nat \<Rightarrow> nat option" where
  "chain_at g b 0 = Some b"
| "chain_at g b (Suc k) = Option.bind (chain_at g b k) (succ_next g)"

lemma circling_closed: "next_closed g (circling g R)" "circling g R \<subseteq> R"
proof -
  show "next_closed g (circling g R)" unfolding next_closed_def
  proof
    fix b assume "b \<in> circling g R"
    then obtain C where C: "C \<subseteq> R" "next_closed g C" "b \<in> C" by (auto simp: circling_def)
    then obtain n where n: "n \<in> C" "succ_next g b = Some n" by (auto simp: next_closed_def)
    have "n \<in> circling g R" using C n(1) unfolding circling_def by blast
    then show "\<exists>n \<in> circling g R. succ_next g b = Some n" using n(2) by blast
  qed
qed (auto simp: circling_def)

lemma circlingI: "C \<subseteq> R \<Longrightarrow> next_closed g C \<Longrightarrow> C \<subseteq> circling g R"
  by (auto simp: circling_def)

lemma chain_at_shift: "succ_next g b = Some n \<Longrightarrow> chain_at g b (Suc k) = chain_at g n k"
  by (induction k) simp_all

lemma chain_ends:
  assumes "b \<in> reached g e" and "b \<notin> circling g (reached g e)"
  shows "\<exists>k. chain_at g b k = None"
proof (rule ccontr)
  assume "\<not> ?thesis"
  then have t: "\<forall>k. \<exists>c. chain_at g b k = Some c" by simp
  let ?C = "{c. \<exists>k. chain_at g b k = Some c}"
  have "c \<in> reached g e" if "chain_at g b k = Some c" for k c
    using that
  proof (induction k arbitrary: c)
    case (Suc k)
    then obtain d where "chain_at g b k = Some d" "succ_next g d = Some c" by (auto simp: bind_eq_Some_conv)
    then show ?case using Suc.IH reached.step[of d g e c] by (auto simp: succs_def)
  qed (use assms(1) in simp)
  then have sub: "?C \<subseteq> reached g e" by blast
  have "next_closed g ?C" unfolding next_closed_def
  proof
    fix c assume "c \<in> ?C"
    then obtain k where k: "chain_at g b k = Some c" by blast
    obtain n where "chain_at g b (Suc k) = Some n" using t by blast
    moreover from this have "succ_next g c = Some n" using k by simp
    ultimately show "\<exists>n \<in> ?C. succ_next g c = Some n" by blast
  qed
  from circlingI[OF sub this] have "b \<in> circling g (reached g e)" using chain_at.simps(1) by blast
  then show False using assms(2) by simp
qed

lemma chain_rank:
  "\<exists>rank :: nat \<Rightarrow> nat. \<forall>b \<in> reached g e - circling g (reached g e). \<forall>n. succ_next g b = Some n \<longrightarrow> rank n < rank b"
proof -
  let ?rank = "\<lambda>b. LEAST k. chain_at g b k = None"
  have less: "?rank n < ?rank b"
    if b: "b \<in> reached g e" "b \<notin> circling g (reached g e)" and n: "succ_next g b = Some n" for b n
  proof -
    obtain m where m: "chain_at g b m = None" using chain_ends[OF b] by blast
    let ?k = "LEAST k. chain_at g b k = None"
    have none: "chain_at g b ?k = None" using m by (rule LeastI)
    show "?rank n < ?rank b"
    proof (cases ?k)
      case 0
      then show ?thesis using none by (metis chain_at.simps(1) option.distinct(1))
    next
      case (Suc k)
      have "chain_at g b (Suc k) = None" using none Suc by metis
      with chain_at_shift[OF n, of k] have "chain_at g n k = None" by (rule trans[OF sym])
      then have "?rank n \<le> k" by (rule Least_le)
      then show ?thesis using Suc by linarith
    qed
  qed
  show ?thesis
    by (rule exI[of _ ?rank], intro ballI allI impI, erule DiffE, rule less)
qed

text \<open>A traversal that can come to such a block does not end.\<close>

lemma walk_circle:
  fixes rank :: "nat \<Rightarrow> nat"
  assumes "walk_inv g0 B e cur ws (snd s)" and cb: "harmless cb" and push: "push_ok push"
    and rank: "\<forall>b \<in> reached g0 e - D. \<forall>n. succ_next g0 b = Some n \<longrightarrow> rank n < rank b"
    and D: "next_closed g0 D" "D \<subseteq> reached g0 e" "D \<noteq> {}" and "D \<inter> visited (snd s) = {}"
  shows "walk push cb cur ws s = None"
  using assms(1,8)
proof (induction "(card (B - visited (snd s)), length ws, case cur of None \<Rightarrow> 0 | Some b \<Rightarrow> rank b + 1)"
    arbitrary: cur ws s rule: wf_induct_rule[OF wf_lex_prod[OF wf_less_than wf_lex_prod[OF wf_less_than wf_less_than]]])
  case (1 cur ws s)
  note inv = 1(2) and un = 1(3)
  have fin: "finite B" and sh: "same_shape g0 (snd s)" using inv by (auto simp: walk_inv_def walkable_def)
  have closed: "next_closed (snd s) D" using D(1) succ_next_shape[OF sh] by (simp add: next_closed_def)
  show ?case
  proof (cases cur)
    case None
    show ?thesis
    proof (cases ws)
      case Nil
      have i: "walk_inv g0 B e None [] (snd s)" using inv None Nil by simp
      have "reached g0 e \<subseteq> visited (snd s)" using walk_done[OF i] by blast
      then have False using D(2,3) un by blast
      then show ?thesis ..
    next
      case (Cons b ws')
      have "b \<in> B" using inv Cons by (auto simp: walk_inv_def)
      moreover have "walkable (snd s) B" using walkable_shape[OF sh] inv by (simp add: walk_inv_def)
      ultimately obtain sb where "ic_sb (snd s) b = Some sb" using walkable_block by blast
      then have v: "is_visited (snd s) b = Some (b \<in> visited (snd s))" by (auto simp: is_visited_def visited_def)
      have st: "walk push cb cur ws s = walk push cb (if b \<in> visited (snd s) then None else Some b) ws' s"
        by (subst walk.simps) (use v None Cons in simp)
      have i: "walk_inv g0 B e (if b \<in> visited (snd s) then None else Some b) ws' (snd s)"
        using inv None Cons unfolding walk_inv_def by auto
      show ?thesis unfolding st by (rule 1(1)[OF _ i un]) (simp add: Cons)
    qed
  next
    case (Some b)
    have b: "b \<in> B" "b \<in> reached g0 e" using inv Some by (auto simp: walk_inv_def)
    show ?thesis
    proof (cases "b \<in> D")
      case True
      then show ?thesis using walk_diverges[OF cb True closed] Some by simp
    next
      case bD: False
      show ?thesis
      proof (cases "b \<in> visited (snd s)")
        case True
        obtain sb where sb: "ic_sb (snd s) b = Some sb" "nd_visited (sb_node sb)"
          using True by (auto simp: visited_def is_visited_def bind_eq_Some_conv)
        have nx: "sb_next sb = succ_next g0 b" using succ_next_shape[OF sh, of b] sb(1) by (simp add: succ_next_def)
        have st: "walk push cb cur ws s = walk push cb (succ_next g0 b) ws s"
          by (subst walk.simps) (use sb nx Some in simp)
        have r: "set_option (succ_next g0 b) \<subseteq> reached g0 e"
          using reached.step[of b g0 e] inv Some by (auto simp: walk_inv_def succs_def)
        have i: "walk_inv g0 B e (succ_next g0 b) ws (snd s)"
          using inv Some True r unfolding walk_inv_def by auto
        show ?thesis unfolding st
          by (rule 1(1)[OF _ i un]) (use rank b(2) bD Some in \<open>auto split: option.split\<close>)
      next
        case False
        obtain s1 ts where v: "visit cb b s = Some s1" "walk push cb (Some b) ws s = walk push cb (succ_next g0 b) (push ts ws) s1"
          "walk_inv g0 B e (succ_next g0 b) (push ts ws) (snd s1)" "visited (snd s1) = insert b (visited (snd s))"
          using walk_visit[OF inv[unfolded Some] cb push False] by blast
        have less: "card (B - visited (snd s1)) < card (B - visited (snd s))"
          using v(4) b(1) False fin by (intro psubset_card_mono) auto
        have "D \<inter> visited (snd s1) = {}" using un v(4) bD by auto
        then have "walk push cb (succ_next g0 b) (push ts ws) s1 = None" using 1(1)[OF _ v(3)] less by auto
        then show ?thesis using v(2) Some by simp
      qed
    qed
  qed
qed

text \<open>So a traversal ends exactly if no chain of reachable blocks is a cycle.\<close>

lemma walk_function_ends_iff:
  assumes fn: "ic_fn g f = Some fn" "fn_entry fn = Some e" "e \<in> set (fn_blocks fn)"
    and wk: "walkable g (set (fn_blocks fn))" and marks: "marks_ok g f" and cb: "harmless cb" and push: "push_ok push"
  shows "walk_function push f cb (x, g) \<noteq> None \<longleftrightarrow> circling g (reached g e) = {}"
proof
  assume n: "walk_function push f cb (x, g) \<noteq> None"
  obtain g0 where g0: "walk_function push f cb (x, g) = walk push cb None [e] (x, g0)"
    "visited g0 \<inter> set (fn_blocks fn) = {}" "walk_inv g (set (fn_blocks fn)) e None [e] (snd (x, g0))"
    using walk_function_start[OF fn wk marks, of push cb x] by auto
  obtain rank :: "nat \<Rightarrow> nat" where
    rank: "\<forall>b \<in> reached g e - circling g (reached g e). \<forall>n. succ_next g b = Some n \<longrightarrow> rank n < rank b"
    using chain_rank by blast
  show "circling g (reached g e) = {}"
  proof (rule ccontr)
    assume c: "circling g (reached g e) \<noteq> {}"
    have "circling g (reached g e) \<inter> visited (snd (x, g0)) = {}"
      using circling_closed(2)[of g "reached g e"] reached_in[OF wk fn(3)] g0(2) by auto
    then have "walk push cb None [e] (x, g0) = None"
      using walk_circle[OF g0(3) cb push rank circling_closed c] by blast
    then show False using n g0(1) by simp
  qed
next
  assume "circling g (reached g e) = {}"
  then have "chains_end g (reached g e)" using chain_rank[of g e] by (simp add: chains_end_def)
  then show "walk_function push f cb (x, g) \<noteq> None" using walk_function_total[OF fn wk _ marks cb push] by fastforce
qed

text \<open>In breadth-first order no call of a visited function is followed.\<close>

lemma bfs_follows_no_call:
  "call_targets (\<lambda>f d. f) g f es = Some ts \<Longrightarrow> fn_visited g f = Some True \<Longrightarrow> ts = []"
  by (induction es arbitrary: ts) (auto simp: bind_eq_Some_conv split: if_splits)

end
