(* ===== verification/Codegen.thy ===== *)
theory Codegen
  imports Traverse Binary_Pool Encode_Ops
begin

text \<open>
  The generation of code (\<open>src/passes/CodeGenerationPass.hpp\<close>, \<open>generateCode\<close> of
  \<open>src/Instruction.cpp\<close>, the preparation and the fixup of branches and calls of
  \<open>src/x86/Encoder.cpp\<close>). The pass runs twice: once without writing, to see which branches are
  short, once to write the code.
\<close>

section \<open>State\<close>

text \<open>\<open>BranchLocation\<close> and \<open>CallLocation\<close>: space in the code to be filled when the target is known.\<close>

record location =
  lo_itext :: u64
  lo_ilen :: nat
  lo_instr :: nat

text \<open>
  The pass with the pool it writes to. \<open>cg_short\<close> are the instructions whose
  \<open>useShortBranch\<close> is set; the memory of the pool is in the pool.
\<close>

record codegen =
  cg_write :: bool
  cg_functionMap :: "nat \<rightharpoonup> u64"
  cg_blockMap :: "nat \<rightharpoonup> u64"
  cg_branches :: "location list"
  cg_calls :: "location list"
  cg_pool :: pool
  cg_short :: "nat set"

definition codegen_init :: "pool \<Rightarrow> codegen" where
  "codegen_init p = \<lparr>cg_write = False, cg_functionMap = Map.empty, cg_blockMap = Map.empty, cg_branches = [],
     cg_calls = [], cg_pool = p, cg_short = {}\<rparr>"

text \<open>
  What the pass runs on: the system, the bytes of the original code, and the bytes operands
  leave undefined.
\<close>

record codegen_env =
  ge_os :: mmap_fn
  ge_host :: "u64 \<Rightarrow> byte"
  ge_stale :: "nat \<Rightarrow> nat \<Rightarrow> u64"

definition alloc :: "codegen_env \<Rightarrow> nat \<Rightarrow> codegen \<Rightarrow> (u64 \<times> codegen) option" where
  "alloc env n st =
     do { (a, p) \<leftarrow> allocCode (ge_os env) (of_nat n) (cg_pool st); Some (a, st\<lparr>cg_pool := p\<rparr>) }"

definition poke :: "u64 \<Rightarrow> byte list \<Rightarrow> codegen \<Rightarrow> codegen" where
  "poke a bs st = st\<lparr>cg_pool := (cg_pool st)\<lparr>pl_mem := write_bytes a bs (pl_mem (cg_pool st))\<rparr>\<rparr>"

definition setUseShortBranch :: "nat \<Rightarrow> codegen \<Rightarrow> codegen" where
  "setUseShortBranch i st = st\<lparr>cg_short := insert i (cg_short st)\<rparr>"

section \<open>Branches and calls\<close>

text \<open>The displacement is cut to 32 bits.\<close>

definition disp32 :: "u64 \<Rightarrow> u64 \<Rightarrow> u32" where
  "disp32 target from = ucast (target - from)"

definition fits8 :: "u32 \<Rightarrow> bool" where
  "fits8 d = is_rel8 (scast d)"

definition arch_fixup_call :: "location \<Rightarrow> u64 \<Rightarrow> bool \<Rightarrow> codegen \<Rightarrow> codegen option" where
  "arch_fixup_call lo target w st =
     do { let disp = disp32 target (lo_itext lo + of_nat (lo_ilen lo));
          drob_assert (lo_ilen lo = 5);
          Some (if \<not> w then st else poke (lo_itext lo) (0xe8 # le_bytes 4 disp) st) }"

text \<open>In the first run a branch that would be in reach of 8 bits is noted.\<close>

definition note_short :: "location \<Rightarrow> u64 \<Rightarrow> nat \<Rightarrow> codegen \<Rightarrow> codegen" where
  "note_short lo target short_ilen st =
     (if fits8 (disp32 target (lo_itext lo + of_nat short_ilen)) then setUseShortBranch (lo_instr lo) st else st)"

definition fixupBranch :: "location \<Rightarrow> u64 \<Rightarrow> bool \<Rightarrow> codegen \<Rightarrow> codegen option" where
  "fixupBranch lo target w st =
     (if \<not> w then Some (note_short lo target 2 st)
      else
        do { let disp = disp32 target (lo_itext lo + of_nat (lo_ilen lo));
             if lo_instr lo \<in> cg_short st then
               do { drob_assert (lo_ilen lo = 2);
                    drob_assert (fits8 disp);
                    Some (poke (lo_itext lo) [0xeb, ucast disp] st) }
             else
               do { drob_assert (lo_ilen lo = 5);
                    Some (poke (lo_itext lo) (0xe9 # le_bytes 4 disp) st) } })"

text \<open>The address prefix is written where the opcode goes next.\<close>

definition fixupSpecialCondBranch :: "bool \<Rightarrow> location \<Rightarrow> u64 \<Rightarrow> bool \<Rightarrow> codegen \<Rightarrow> codegen option" where
  "fixupSpecialCondBranch addr_prefix lo target w st =
     (let short_ilen = (if addr_prefix then 3 else 2); long_ilen = (if addr_prefix then 10 else 9);
          prefix = (\<lambda>st. if addr_prefix then poke (lo_itext lo) [0x67] st else st) in
      if \<not> w then Some (note_short lo target short_ilen st)
      else if lo_instr lo \<in> cg_short st then
        do { drob_assert (short_ilen = lo_ilen lo);
             let disp = disp32 target (lo_itext lo + of_nat short_ilen);
             drob_assert (fits8 disp);
             Some (poke (lo_itext lo) [0xe3, ucast disp] (prefix st)) }
      else
        do { drob_assert (long_ilen = lo_ilen lo);
             let disp = disp32 target (lo_itext lo + 5 + 5);
             Some (poke (lo_itext lo) ([0xe3, 2, 0xeb, 5, 0xe9] @ le_bytes 4 disp) (prefix st)) })"

primrec cond_opcode :: "jcc_opcode \<Rightarrow> byte option" where
  "cond_opcode JOa = Some 0x80" | "cond_opcode JNOa = Some 0x81" | "cond_opcode JBa = Some 0x82"
| "cond_opcode JNBa = Some 0x83" | "cond_opcode JZa = Some 0x84" | "cond_opcode JNZa = Some 0x85"
| "cond_opcode JBEa = Some 0x86" | "cond_opcode JNBEa = Some 0x87" | "cond_opcode JSa = Some 0x88"
| "cond_opcode JNSa = Some 0x89" | "cond_opcode JPa = Some 0x8a" | "cond_opcode JNPa = Some 0x8b"
| "cond_opcode JLa = Some 0x8c" | "cond_opcode JNLa = Some 0x8d" | "cond_opcode JLEa = Some 0x8e"
| "cond_opcode JNLEa = Some 0x8f" | "cond_opcode JCXZ32a = None" | "cond_opcode JCXZ64a = None"

definition arch_fixup_branch :: "opcode \<Rightarrow> location \<Rightarrow> u64 \<Rightarrow> bool \<Rightarrow> codegen \<Rightarrow> codegen option" where
  "arch_fixup_branch opc lo target w st =
     (case opc of
        Jmp _ \<Rightarrow> fixupBranch lo target w st
      | Jcc x \<Rightarrow>
          (case cond_opcode x of
             None \<Rightarrow> fixupSpecialCondBranch (x = JCXZ64a) lo target w st
           | Some opcode \<Rightarrow>
               if \<not> w then Some (note_short lo target 2 st)
               else
                 do { let disp = disp32 target (lo_itext lo + of_nat (lo_ilen lo));
                      if lo_instr lo \<in> cg_short st then
                        do { drob_assert (lo_ilen lo = 2);
                             drob_assert (fits8 disp);
                             Some (poke (lo_itext lo) [opcode - 0x10, ucast disp] st) }
                      else
                        do { drob_assert (lo_ilen lo = 6);
                             Some (poke (lo_itext lo) ([0x0f, opcode] @ le_bytes 4 disp) st) } })
      | _ \<Rightarrow> throw)"

text \<open>The space a branch takes.\<close>

definition branch_ilen :: "opcode \<Rightarrow> bool \<Rightarrow> nat option" where
  "branch_ilen opc short =
     (case opc of
        Jmp _ \<Rightarrow> Some (if short then 2 else 5)
      | Jcc x \<Rightarrow> Some (if x = JCXZ32a then if short then 2 else 9
                      else if x = JCXZ64a then if short then 3 else 10
                      else if short then 2 else 6)
      | _ \<Rightarrow> throw)"

definition arch_prepare_branch :: "codegen_env \<Rightarrow> opcode \<Rightarrow> nat \<Rightarrow> codegen \<Rightarrow> (location \<times> codegen) option" where
  "arch_prepare_branch env opc i st =
     do { n \<leftarrow> branch_ilen opc (i \<in> cg_short st);
          (a, st) \<leftarrow> alloc env n st;
          Some (\<lparr>lo_itext = a, lo_ilen = n, lo_instr = i\<rparr>, st) }"

definition arch_prepare_call :: "codegen_env \<Rightarrow> nat \<Rightarrow> codegen \<Rightarrow> (location \<times> codegen) option" where
  "arch_prepare_call env i st =
     do { (a, st) \<leftarrow> alloc env 5 st; Some (\<lparr>lo_itext = a, lo_ilen = 5, lo_instr = i\<rparr>, st) }"

section \<open>Instructions\<close>

text \<open>
  An instruction that was changed is encoded anew; when nothing is known of its opcode it is
  left out with a warning. Any other is copied.
\<close>

definition original :: "codegen_env \<Rightarrow> instr \<Rightarrow> byte list" where
  "original env i = map (\<lambda>k. ge_host env (is_itext i + of_nat k)) [0..<unat (is_ilen i)]"

definition emit :: "codegen_env \<Rightarrow> byte list \<Rightarrow> codegen \<Rightarrow> codegen option" where
  "emit env bs st =
     do { (a, st) \<leftarrow> alloc env (length bs) st; Some (if cg_write st then poke a bs st else st) }"

definition generateCode :: "codegen_env \<Rightarrow> nat \<Rightarrow> instr \<Rightarrow> codegen \<Rightarrow> codegen option" where
  "generateCode env a i st =
     (if is_reencode i then
        (case in_info (is_ins i) of
           Some oc \<Rightarrow>
             do { bs \<leftarrow> run_encode (ge_stale env a) (oc_encode oc) (in_opcode (is_ins i)) (in_operands (is_ins i))
                    (nextCode (cg_pool st));
                  emit env bs st }
         | None \<Rightarrow> Some st)
      else
        do { drob_assert (is_itext i \<noteq> 0); emit env (original env i) st })"

definition cg_instruction :: "codegen_env \<Rightarrow> icfg \<Rightarrow> nat \<Rightarrow> codegen \<Rightarrow> codegen option" where
  "cg_instruction env g a st =
     do { i \<leftarrow> ic_is g a;
          case (if isBranch i then is_branchEdge i else None) of
            Some e \<Rightarrow>
              do { (lo, st) \<leftarrow> arch_prepare_branch env (in_opcode (is_ins i)) a st;
                   ed \<leftarrow> ic_be g e;
                   case cg_blockMap st (be_dst ed) of
                     Some target \<Rightarrow> arch_fixup_branch (in_opcode (is_ins i)) lo target (cg_write st) st
                   | None \<Rightarrow> Some (st\<lparr>cg_branches := cg_branches st @ [lo]\<rparr>) }
          | None \<Rightarrow>
              if isCall i \<and> is_callEdge i \<noteq> None then
                do { (lo, st) \<leftarrow> arch_prepare_call env a st; Some (st\<lparr>cg_calls := cg_calls st @ [lo]\<rparr>) }
              else
                do { drob_assert (\<not> isRet i \<or> is_returnEdge i \<noteq> None);
                     generateCode env a i st } }"

section \<open>Blocks and functions\<close>

text \<open>An entry of a map that is there is kept.\<close>

definition map_insert :: "nat \<Rightarrow> u64 \<Rightarrow> (nat \<rightharpoonup> u64) \<Rightarrow> (nat \<rightharpoonup> u64)" where
  "map_insert k v m = (case m k of None \<Rightarrow> m(k \<mapsto> v) | Some _ \<Rightarrow> m)"

definition new_block :: "codegen \<Rightarrow> u64 \<times> codegen" where
  "new_block st = (case newBlock arch_fill_with_nops (cg_write st) (cg_pool st) of (a, p) \<Rightarrow> (a, st\<lparr>cg_pool := p\<rparr>))"

definition cg_block :: "codegen_env \<Rightarrow> codegen visitor" where
  "cg_block env b = (\<lambda>(st, g).
     do { sb \<leftarrow> ic_sb g b;
          let (a, st) = new_block st;
          let st = st\<lparr>cg_blockMap := map_insert b a (cg_blockMap st)\<rparr>;
          drob_assert (sb_instrs sb \<noteq> []);
          st \<leftarrow> for_each (sb_instrs sb) (cg_instruction env g) st;
          Some (False, st, g) })"

definition fixup_branch :: "icfg \<Rightarrow> location \<Rightarrow> codegen \<Rightarrow> codegen option" where
  "fixup_branch g lo st =
     do { i \<leftarrow> ic_is g (lo_instr lo);
          e \<leftarrow> is_branchEdge i;
          ed \<leftarrow> ic_be g e;
          target \<leftarrow> cg_blockMap st (be_dst ed);
          arch_fixup_branch (in_opcode (is_ins i)) lo target (cg_write st) st }"

definition fixup_call :: "icfg \<Rightarrow> location \<Rightarrow> codegen \<Rightarrow> codegen option" where
  "fixup_call g lo st =
     do { i \<leftarrow> ic_is g (lo_instr lo);
          e \<leftarrow> is_callEdge i;
          ed \<leftarrow> ic_ce g e;
          target \<leftarrow> cg_functionMap st (ce_dst ed);
          arch_fixup_call lo target (cg_write st) st }"

definition cg_function :: "codegen_env \<Rightarrow> codegen visitor" where
  "cg_function env f = (\<lambda>(st, g).
     do { fn \<leftarrow> ic_fn g f;
          drob_assert (fn_entry fn \<noteq> None);
          let (a, st) = new_block st;
          let st = st\<lparr>cg_functionMap := map_insert f a (cg_functionMap st)\<rparr>;
          (_, st, g) \<leftarrow> for_each_block_dfs f (cg_block env) (st, g);
          st \<leftarrow> for_each (cg_branches st) (fixup_branch g) st;
          Some (False, st\<lparr>cg_branches := []\<rparr>, g) })"

section \<open>The pass\<close>

text \<open>One run up to the point where the maps are cleared, and the whole run; true asks for another.\<close>

definition cg_generate :: "codegen_env \<Rightarrow> codegen \<times> icfg \<Rightarrow> (codegen \<times> icfg) option" where
  "cg_generate env s =
     do { p \<leftarrow> resetCodePool (ge_os env) (cg_pool (fst s));
          (_, st, g) \<leftarrow> for_each_function_dfs (cg_function env) ((fst s)\<lparr>cg_pool := p\<rparr>, snd s);
          st \<leftarrow> for_each (cg_calls st) (fixup_call g) st;
          Some (st, g) }"

definition cg_run :: "codegen_env \<Rightarrow> codegen \<times> icfg \<Rightarrow> (bool \<times> codegen \<times> icfg) option" where
  "cg_run env s =
     do { (st, g) \<leftarrow> cg_generate env s;
          let st = st\<lparr>cg_calls := [], cg_functionMap := Map.empty, cg_blockMap := Map.empty\<rparr>;
          Some (\<not> cg_write st, st\<lparr>cg_write := True\<rparr>, g) }"

definition cg_reset :: "codegen \<Rightarrow> codegen" where
  "cg_reset st = st\<lparr>cg_write := False, cg_functionMap := Map.empty, cg_blockMap := Map.empty\<rparr>"

end
