(* ===== verification/Code_Length.thy ===== *)
theory Code_Length
  imports Encode_Ops
begin

text \<open>
  No function of the encoder writes more than 32 bytes, whatever operands it is given: what a
  place in the code has to be able to hold. (That an instruction of the table takes at most 15
  is part of \<open>Encode_Table\<close>, for operands that fit their row.)
\<close>

section \<open>The opcode of an encoding\<close>

lemma encoding_oc [simp]:
  "en_oc (set_modrm f e) = en_oc e" "en_oc (set_sib h e) = en_oc e" "en_oc (set_disp k e) = en_oc e"
  "en_oc (set_rex m e) = en_oc e" "en_oc (encode_reg_field r e) = en_oc e" "en_oc (encode_rm_field r e) = en_oc e"
  "en_oc (encoding_new oc imm len fl) = oc" "en_oc (compress_disp v e) = en_oc e"
  by (simp_all add: set_modrm_def set_sib_def set_disp_def set_rex_def encode_reg_field_def encode_rm_field_def
      encoding_new_def compress_disp_def Let_def)

lemma encodeMemoryDirect_oc: "encodeMemoryDirect val addr e = Some e' \<Longrightarrow> en_oc e' = en_oc e"
  by (auto simp: encodeMemoryDirect_def Let_def bind_eq_Some_conv split: if_splits)

lemma encodeMemoryIndirect_oc: "encodeMemoryIndirect bs ix v sc e = Some e' \<Longrightarrow> en_oc e' = en_oc e"
  by (auto simp: encodeMemoryIndirect_def encode_base_only_def encode_index_only_def encode_base_index_def Let_def
      bind_eq_Some_conv split: if_splits)

lemma encodeMemory_oc: "encodeMemory m addr e = Some e' \<Longrightarrow> en_oc e' = en_oc e"
  using encodeMemoryDirect_oc encodeMemoryIndirect_oc by (auto simp: encodeMemory_def split: static_mem_ptr.splits)

lemma write_enc_length: "write_enc e = Some bs \<Longrightarrow> length bs \<le> length (en_oc e) + 14"
  by (auto simp: write_enc_def write_imm_def bind_eq_Some_conv split: if_splits)

section \<open>Short code\<close>

definition short_code :: "byte list option \<Rightarrow> bool" where
  "short_code r \<longleftrightarrow> (\<forall>bs. r = Some bs \<longrightarrow> length bs \<le> 32)"

named_theorems code_len

lemma short_code_basic [code_len]:
  "short_code None" "length bs \<le> 32 \<Longrightarrow> short_code (Some bs)"
  "(\<And>x. short_code (f x)) \<Longrightarrow> short_code (Option.bind m f)"
  by (auto simp: short_code_def bind_eq_Some_conv)

lemma write_enc_short:
  "(\<And>e. m = Some e \<Longrightarrow> length (en_oc e) \<le> 2) \<Longrightarrow> short_code (Option.bind m write_enc)"
  using write_enc_length by (fastforce simp: short_code_def bind_eq_Some_conv)

lemma constructors_oc:
  "ModRM_reg_reg oc a b fl = Some e \<Longrightarrow> en_oc e = oc" "ModRM_ext_reg oc k b fl = Some e \<Longrightarrow> en_oc e = oc"
  "ModRM_ext_reg_imm oc k b v len fl = Some e \<Longrightarrow> en_oc e = oc"
  "ModRM_reg_mem oc a m fl addr = Some e \<Longrightarrow> en_oc e = oc" "ModRM_ext_mem oc k m fl addr = Some e \<Longrightarrow> en_oc e = oc"
  "ModRM_ext_mem_imm oc k m v len fl addr = Some e \<Longrightarrow> en_oc e = oc"
  using encodeMemory_oc
  by (fastforce simp: ModRM_reg_reg_def ModRM_ext_reg_def ModRM_ext_reg_imm_def ModRM_reg_mem_def ModRM_ext_mem_def
      ModRM_ext_mem_imm_def bind_eq_Some_conv)+

lemma formats_short [code_len]:
  "short_code (write_modrm_m_reg oc ops fl addr)" "short_code (write_modrm_m_reg2 oc oc2 ops fl addr)"
  "short_code (write_modrm_reg_m oc ops fl addr)" "short_code (write_modrm_reg_m2 oc oc2 ops fl addr)"
  "short_code (write_modrm_r_reg oc ops fl)" "short_code (write_modrm_r_reg2 oc oc2 ops fl)"
  "short_code (write_modrm_reg_r oc ops fl)" "short_code (write_modrm_reg_r2 oc oc2 ops fl)"
  "short_code (write_modrm_m oc k ops fl addr)" "short_code (write_modrm_r oc k ops fl)"
  "short_code (write_modrm_m_imm8 oc k ops fl addr)" "short_code (write_modrm_m_imm16 oc k ops fl addr)"
  "short_code (write_modrm_m_imm32 oc k ops fl addr)" "short_code (write_modrm_r_imm8 oc k ops fl)"
  "short_code (write_modrm_r_imm16 oc k ops fl)" "short_code (write_modrm_r_imm32 oc k ops fl)"
  unfolding write_modrm_m_reg_def write_modrm_m_reg2_def write_modrm_reg_m_def write_modrm_reg_m2_def
    write_modrm_r_reg_def write_modrm_r_reg2_def write_modrm_reg_r_def write_modrm_reg_r2_def write_modrm_m_def
    write_modrm_r_def write_modrm_m_imm8_def write_modrm_m_imm16_def write_modrm_m_imm32_def write_modrm_r_imm8_def
    write_modrm_r_imm16_def write_modrm_r_imm32_def
  by (intro short_code_basic(3) write_enc_short; simp add: constructors_oc)+

lemma prefixes_length: "length (write_prefixes fl b) \<le> 3"
  by (simp add: write_prefixes_def Let_def)

lemma plain_short [code_len]:
  "short_code (write_reg oc ops fl)" "short_code (write_reg_imm64 oc ops fl)" "short_code (write_reg_imm32 oc ops fl)"
  "short_code (write_imm8 oc v fl)" "short_code (write_imm16 oc w fl)" "short_code (write_imm32 oc x fl)"
  "short_code (Some (write_moffs oc y))" "short_code (Some encode_ret)" "short_code encode_jcc"
  "short_code (Some (c # write_moffs oc y))"
  using prefixes_length[of fl]
  by (auto simp: short_code_def write_reg_def write_reg_imm64_def write_reg_imm32_def write_imm8_def write_imm16_def
      write_imm32_def write_moffs_def encode_ret_def encode_jcc_def bind_eq_Some_conv numeral_eq_Suc le_SucI)

section \<open>Every opcode\<close>

lemma encode_short [code_len]:
  "short_code (encode_add a ops addr)" "short_code (encode_call c ops addr)" "short_code (encode_cmp d ops addr)"
  "short_code (encode_jmp j ops addr)" "short_code (encode_lea l ops addr)" "short_code (encode_mov stale m ops addr)"
  "short_code (encode_sub s ops addr)" "short_code (encode_test t ops addr)" "short_code (encode_xor x ops addr)"
  subgoal by (cases a) (simp_all add: code_len)
  subgoal by (cases c) (simp_all add: code_len)
  subgoal by (cases d) (simp_all add: code_len)
  subgoal by (cases j) (simp_all add: code_len)
  subgoal by (cases l) (simp_all add: code_len)
  subgoal by (cases m) (simp_all add: code_len split: option.split)
  subgoal by (cases s) (simp_all add: code_len)
  subgoal by (cases t) (simp_all add: code_len)
  subgoal by (cases x) (simp_all add: code_len)
  done

lemma encode_vector_short [code_len]:
  "short_code (encode_addpd v ops addr)" "short_code (encode_addsd v ops addr)" "short_code (encode_mulpd v ops addr)"
  "short_code (encode_mulsd v ops addr)" "short_code (encode_pxor v ops addr)" "short_code (encode_movapd w ops addr)"
  "short_code (encode_movsd w ops addr)" "short_code (encode_movupd w ops addr)" "short_code (encode_movups w ops addr)"
  by (simp_all add: encode_addpd_def encode_addsd_def encode_mulpd_def encode_mulsd_def encode_pxor_def
      encode_movapd_def encode_movsd_def encode_movupd_def encode_movups_def code_len split: sse_opcode.split movx_opcode.split)

lemma encode_stack_short [code_len]:
  "short_code (encode_pop k ops addr)" "short_code (encode_push k ops addr)" "short_code (encode_shl stale h ops addr)"
  "short_code (encode_shr stale h ops addr)"
  by (simp_all add: encode_pop_def encode_push_def encode_shl_def encode_shr_def code_len split: stack_opcode.split
      shift_opcode.split)

lemma run_encode_short: "run_encode stale fn opc ops addr = Some bs \<Longrightarrow> length bs \<le> 32"
proof -
  have "short_code (run_encode stale fn opc ops addr)"
    by (cases fn) (simp_all add: run_encode_def code_len split: opcode.split)
  then show "run_encode stale fn opc ops addr = Some bs \<Longrightarrow> length bs \<le> 32" by (simp add: short_code_def)
qed

end
