(* ===== verification/Encode_Sound.thy ===== *)
theory Encode_Sound
  imports Encode_Spec
begin

text \<open>
  The encoder against the manual: reading the bytes it writes gives the operands back.
\<close>

section \<open>Bit fields\<close>

lemma fields_read:
  "drop_bit 6 (pack_fields hi mid lo) = and hi 3"
  "and (drop_bit 3 (pack_fields hi mid lo)) 7 = and mid 7"
  "and (pack_fields hi mid lo) 7 = and lo 7"
proof -
  have m: "(3 :: byte) = mask 2" "(7 :: byte) = mask 3" by (simp_all add: mask_eq_exp_minus_1)
  show "drop_bit 6 (pack_fields hi mid lo) = and hi 3" "and (drop_bit 3 (pack_fields hi mid lo)) 7 = and mid 7"
    "and (pack_fields hi mid lo) 7 = and lo 7"
    unfolding m pack_fields_def by (rule bit_word_eqI; auto simp: bit_simps)+
qed

lemma rex_read:
  "drop_bit 4 (rex_val r) = 4" "bit (rex_val r) 3 = rex_w r" "bit (rex_val r) 2 = rex_r r"
  "bit (rex_val r) 1 = rex_x r" "bit (rex_val r) 0 = rex_b r"
  by (cases "rex_w r"; cases "rex_r r"; cases "rex_x r"; cases "rex_b r"; simp add: rex_val_def; code_simp)+

lemma rex_required: "rex_isRequired r \<longleftrightarrow> rex_w r \<or> rex_r r \<or> rex_x r \<or> rex_b r"
  by (cases "rex_w r"; cases "rex_r r"; cases "rex_x r"; cases "rex_b r"; simp add: rex_isRequired_def rex_val_def)

lemma rex_no_prefix: "drop_bit 4 b = (4 :: byte) \<Longrightarrow> b \<noteq> 0x66 \<and> b \<noteq> 0x67 \<and> b \<noteq> 0xf2"
  by auto

section \<open>Padding\<close>

lemma fill_length [simp]: "length (arch_fill_with_nops n) = n"
proof (induction n rule: arch_fill_with_nops.induct)
  case (1 n)
  have "length (nops_table m) = m" if "m \<le> 9" for m
  proof -
    have "m \<in> {0, 1, 2, 3, 4, 5, 6, 7, 8, 9}" using that by (auto simp: le_Suc_eq numeral_eq_Suc)
    then show ?thesis by (auto simp: nops_table.simps)
  qed
  then show ?case using 1 by (simp add: arch_fill_with_nops.simps[of n])
qed

section \<open>The front\<close>

definition plain_oc :: "byte list \<Rightarrow> bool" where
  "plain_oc oc \<longleftrightarrow> (case oc of
      [b] \<Rightarrow> b \<notin> {0x66, 0x67, 0xf2, 0x0f} \<and> drop_bit 4 b \<noteq> 4
    | [b, c] \<Rightarrow> b = 0x0f
    | _ \<Rightarrow> False)"

definition front_of :: "encoding \<Rightarrow> front" where
  "front_of e = \<lparr>fr_66 = en_p66 e, fr_67 = en_is32bit e, fr_F2 = en_pf2 e,
     fr_rex = (if rex_isRequired (en_rex e) then Some (rex_val (en_rex e)) else None), fr_oc = en_oc e\<rparr>"

definition front_bytes :: "encoding \<Rightarrow> byte list" where
  "front_bytes e = (if en_p66 e then [0x66] else []) @ (if en_is32bit e then [0x67] else []) @
     (if en_pf2 e then [0xf2] else []) @ (if rex_isRequired (en_rex e) then [rex_val (en_rex e)] else []) @ en_oc e"

definition rm_bytes :: "encoding \<Rightarrow> byte list" where
  "rm_bytes e = modrm_val (en_modrm e) # (if sib_required (en_sib e) then [sib_val (en_sib e)] else []) @
     (if dp_required (en_disp e) then
        (if dp_isDisp32 (en_disp e) then le_bytes 4 (dp_disp32 (en_disp e)) else [ucast (dp_disp32 (en_disp e))])
      else [])"

lemma write_enc_parts:
  "write_enc e = map_option (\<lambda>imm. front_bytes e @ rm_bytes e @ imm) (write_imm e)"
  by (cases "write_imm e") (simp_all add: write_enc_def front_bytes_def rm_bytes_def)

lemma rex_bits:
  "rex_bit 3 (front_of e) = rex_w (en_rex e)" "rex_bit 2 (front_of e) = rex_r (en_rex e)"
  "rex_bit 1 (front_of e) = rex_x (en_rex e)" "rex_bit 0 (front_of e) = rex_b (en_rex e)"
  using rex_required[of "en_rex e"] by (auto simp: rex_bit_def front_of_def rex_read rex_read(4)[unfolded One_nat_def])

lemma front_of_simps [simp]:
  "fr_66 (front_of e) = en_p66 e" "fr_67 (front_of e) = en_is32bit e" "fr_F2 (front_of e) = en_pf2 e"
  "fr_oc (front_of e) = en_oc e" "fr_rex (front_of e) = None \<longleftrightarrow> \<not> rex_isRequired (en_rex e)"
  by (simp_all add: front_of_def)

lemma take_plain_opcode:
  assumes "plain_oc oc"
  shows "take_prefixes f (oc @ bs) = (f, oc @ bs)" and "take_rex (oc @ bs) = (None, oc @ bs)"
    and "take_opcode (oc @ bs) = Some (oc, bs)"
proof -
  have "(\<exists>b. oc = [b] \<and> b \<notin> {0x66, 0x67, 0xf2, 0x0f} \<and> drop_bit 4 b \<noteq> 4) \<or> (\<exists>c. oc = [0x0f, c])"
    using assms by (auto simp: plain_oc_def split: list.splits)
  then show "take_prefixes f (oc @ bs) = (f, oc @ bs)" "take_rex (oc @ bs) = (None, oc @ bs)"
    "take_opcode (oc @ bs) = Some (oc, bs)"
    by (cases f; auto)+
qed

lemma take_flags:
  assumes "\<And>f. take_prefixes f bs = (f, bs)"
  shows "take_prefixes (False, False, False)
    ((if p then [0x66] else []) @ (if a then [0x67] else []) @ (if r then [0xf2] else []) @ bs) = ((p, a, r), bs)"
  by (cases p; cases a; cases r; simp add: assms)

lemma take_front_bytes:
  assumes "plain_oc (en_oc e)"
  shows "take_front (front_bytes e @ bs) = Some (front_of e, bs)"
proof -
  note oc = take_plain_opcode[OF assms]
  let ?r = "if rex_isRequired (en_rex e) then [rex_val (en_rex e)] else []"
  have "take_prefixes f (?r @ en_oc e @ bs) = (f, ?r @ en_oc e @ bs)" for f
    using oc(1)[of f bs] rex_no_prefix[OF rex_read(1)[of "en_rex e"]] by (cases f) (auto simp del: One_nat_def)
  then have t: "take_prefixes (False, False, False) (front_bytes e @ bs) =
      ((en_p66 e, en_is32bit e, en_pf2 e), ?r @ en_oc e @ bs)"
    using take_flags[of "?r @ en_oc e @ bs"] by (simp only: front_bytes_def append_assoc)
  have r: "take_rex (?r @ en_oc e @ bs) = (fr_rex (front_of e), en_oc e @ bs)"
    using oc(2) by (simp add: front_of_def rex_read)
  show ?thesis unfolding take_front_def t prod.case r oc(3) by (simp add: front_of_def)
qed

section \<open>The operand\<close>

definition reads :: "encoding \<Rightarrow> byte \<Rightarrow> rm \<Rightarrow> bool" where
  "reads e r x \<longleftrightarrow> (\<forall>bs. take_modrm (front_of e) (rm_bytes e @ bs) = Some (r, x, bs))"

lemma gpr_number: "wide (and (gpr_code g) 8 \<noteq> 0) (and (gpr_code g) 7) = unat (gpr_code g)" "gpr_list ! unat (gpr_code g) = g"
  by (cases g; simp add: wide_def gpr_list_def)+

lemma high_number: "wide (and (high_code h) 8 \<noteq> 0) (and (high_code h) 7) = unat (high_code h)"
  "4 \<le> unat (high_code h)" "unat (high_code h) < 8" "high_list ! (unat (high_code h) - 4) = h"
  by (cases h; simp add: wide_def high_list_def)+

definition xmm_code :: "xmm \<Rightarrow> byte" where
  "xmm_code x = of_nat (xmm_nr x)"

lemma xmm_codes:
  "xmm_code X0 = 0" "xmm_code X1 = 1" "xmm_code X2 = 2" "xmm_code X3 = 3" "xmm_code X4 = 4" "xmm_code X5 = 5"
  "xmm_code X6 = 6" "xmm_code X7 = 7" "xmm_code X8 = 8" "xmm_code X9 = 9" "xmm_code X10 = 10" "xmm_code X11 = 11"
  "xmm_code X12 = 12" "xmm_code X13 = 13" "xmm_code X14 = 14" "xmm_code X15 = 15"
  by (simp_all add: xmm_code_def)

lemma xmm_number: "wide (and (xmm_code x) 8 \<noteq> 0) (and (xmm_code x) 7) = unat (xmm_code x)" "all_xmms ! unat (xmm_code x) = x"
  by (cases x; simp add: wide_def all_xmms_def xmm_codes)+

end
