(* ===== verification/Codegen_Sound.thy ===== *)
theory Codegen_Sound
  imports Codegen Code_Length Pool_Steps Operand_Sound Encode_Sound
begin

text \<open>
  What the generated code is. A reader of branches and calls says where the bytes at an address
  lead to; the code of a block is its instructions one after the other, each what it has to be:
  a branch or a call to the code of its target, an encoding, or a copy. The invariant of the
  pass keeps a list of all places in the code; those whose target is not known yet are pending.
\<close>

section \<open>Reading branches and calls\<close>

datatype transfer = ToJump | ToCond jcc_opcode | ToCall

text \<open>The conditions in the order of their numbers.\<close>

definition conditions :: "jcc_opcode list" where
  "conditions = [JOa, JNOa, JBa, JNBa, JZa, JNZa, JBEa, JNBEa, JSa, JNSa, JPa, JNPa, JLa, JNLa, JLEa, JNLEa]"

definition rel8_target :: "u64 \<Rightarrow> nat \<Rightarrow> byte list \<Rightarrow> u64" where
  "rel8_target a len bs = a + of_nat len + scast (bs ! (len - 1))"

definition rel32_target :: "u64 \<Rightarrow> nat \<Rightarrow> byte list \<Rightarrow> u64" where
  "rel32_target a len bs = a + of_nat len + scast (le_word (drop (len - 4) bs) :: u32)"

text \<open>The instruction at an address whose bytes are all of the given ones, and where it leads to.\<close>

definition read_transfer :: "u64 \<Rightarrow> byte list \<Rightarrow> (transfer \<times> u64) option" where
  "read_transfer a bs =
     (if length bs = 2 \<and> hd bs = 0xeb then Some (ToJump, rel8_target a 2 bs)
      else if length bs = 5 \<and> hd bs = 0xe9 then Some (ToJump, rel32_target a 5 bs)
      else if length bs = 5 \<and> hd bs = 0xe8 then Some (ToCall, rel32_target a 5 bs)
      else if length bs = 2 \<and> and (hd bs) 0xf0 = 0x70 then
        Some (ToCond (conditions ! unat (and (hd bs) 0x0f)), rel8_target a 2 bs)
      else if length bs = 6 \<and> hd bs = 0x0f \<and> and (bs ! 1) 0xf0 = 0x80 then
        Some (ToCond (conditions ! unat (and (bs ! 1) 0x0f)), rel32_target a 6 bs)
      else None)"

definition transfer_of :: "opcode \<Rightarrow> transfer" where
  "transfer_of opc = (case opc of Jcc x \<Rightarrow> ToCond x | _ \<Rightarrow> ToJump)"

definition is_jcxz :: "opcode \<Rightarrow> bool" where
  "is_jcxz opc \<longleftrightarrow> opc = Jcc JCXZ32a \<or> opc = Jcc JCXZ64a"

lemma read_transfer_jump:
  "read_transfer a [0xeb, d] = Some (ToJump, a + 2 + scast d)"
  "read_transfer a (0xe9 # le_bytes 4 w) = Some (ToJump, a + 5 + scast (w :: u32))"
  "read_transfer a (0xe8 # le_bytes 4 w) = Some (ToCall, a + 5 + scast (w :: u32))"
  by (simp_all add: read_transfer_def rel8_target_def rel32_target_def le_word_le_bytes)

lemma read_transfer_cond:
  assumes "cond_opcode x = Some oc"
  shows "read_transfer a [oc - 0x10, d] = Some (ToCond x, a + 2 + scast d)"
    and "read_transfer a ([0x0f, oc] @ le_bytes 4 w) = Some (ToCond x, a + 6 + scast (w :: u32))"
  using assms
  by (cases x; simp add: read_transfer_def rel8_target_def rel32_target_def le_word_le_bytes conditions_def)+

section \<open>Displacements\<close>

lemma scast_cut: "(scast (ucast (word_of_int z :: u64) :: u32) :: u64) = word_of_int (signed_take_bit 31 z)"
  by (rule bit_word_eqI) (auto simp: bit_simps min_def)

lemma near_disp:
  assumes "unat (s :: u64) \<le> unat t" "unat t \<le> unat s + 4096" "unat s \<le> unat f" "unat f \<le> unat s + 4096"
  shows "scast (disp32 t f) = t - f"
proof -
  have i: "- 4096 \<le> int (unat t) - int (unat f)" "int (unat t) - int (unat f) \<le> 4096" using assms by linarith+
  have d: "t - f = word_of_int (int (unat t) - int (unat f))" by simp
  have s: "signed_take_bit 31 (int (unat t) - int (unat f)) = int (unat t) - int (unat f)"
    by (rule signed_take_bit_int_eq_self) (use i in simp_all)
  show ?thesis unfolding disp32_def d scast_cut s ..
qed

lemma near_disp8: "fits8 d \<Longrightarrow> scast (ucast d :: byte) = (scast d :: u64)"
proof -
  have "(ucast (scast d :: u64) :: byte) = ucast d" by (rule bit_word_eqI) (auto simp: bit_simps min_def)
  then show "fits8 d \<Longrightarrow> scast (ucast d :: byte) = (scast d :: u64)" by (simp add: fits8_def is_rel8_def)
qed

section \<open>Effects on the pool\<close>

lemma poke_nothing [simp]: "poke a [] st = st"
  by (simp add: poke_def)

lemma poke_fields [simp]:
  "cg_write (poke a bs st) = cg_write st" "cg_functionMap (poke a bs st) = cg_functionMap st"
  "cg_blockMap (poke a bs st) = cg_blockMap st" "cg_branches (poke a bs st) = cg_branches st"
  "cg_calls (poke a bs st) = cg_calls st" "cg_short (poke a bs st) = cg_short st"
  "pl_start (cg_pool (poke a bs st)) = pl_start (cg_pool st)"
  "pl_nextInstr (cg_pool (poke a bs st)) = pl_nextInstr (cg_pool st)"
  by (simp_all add: poke_def)

text \<open>The code read at an address.\<close>

abbreviation code_at :: "codegen \<Rightarrow> u64 \<Rightarrow> nat \<Rightarrow> byte list" where
  "code_at st a n \<equiv> host_bytes (pl_mem (cg_pool st)) a n"

lemma code_at_poke: "length bs \<le> 4096 \<Longrightarrow> code_at (poke a bs st) a (length bs) = bs"
  by (rule nth_equalityI) (simp_all add: host_bytes_def poke_def write_bytes_in)

lemma code_at_poke_apart:
  assumes "unat a + length bs \<le> 2 ^ 64" and "unat b + n \<le> 2 ^ 64"
    and "unat b + n \<le> unat a \<or> unat a + length bs \<le> unat b"
  shows "code_at (poke a bs st) b n = code_at st b n"
proof (rule nth_equalityI)
  fix i assume "i < length (code_at (poke a bs st) b n)"
  then have i: "i < n" by simp
  have "unat (b + of_nat i) = unat b + i" by (rule unat_offset[OF assms(2) i])
  then have "write_bytes a bs (pl_mem (cg_pool st)) (b + of_nat i) = pl_mem (cg_pool st) (b + of_nat i)"
    by (intro write_bytes_out) (use assms(1,3) i in auto)
  then show "code_at (poke a bs st) b n ! i = code_at st b n ! i" using i by (simp add: host_bytes_def poke_def)
qed simp

lemma poke_ok:
  assumes "pool_ok (cg_pool st)" and "unat a + length bs \<le> unat (pl_start (cg_pool st)) + 4096"
  shows "pool_ok (cg_pool (poke a bs st))"
proof -
  have c: "pool_code (cg_pool st)" using assms(1) by (simp add: pool_ok_def)
  from pool_ok_code(1)[OF assms(1) _ _ assms(2), of "pl_nextInstr (cg_pool st)"] c
  show ?thesis by (simp add: pool_code_def poke_def)
qed

lemma pool_page:
  assumes "pool_ok p"
  shows "unat (pl_start p) + 4096 < 2 ^ 64" and "unat (pl_start p) \<le> unat (pl_nextInstr p)"
    and "unat (pl_nextInstr p) \<le> unat (pl_start p) + 4096"
  using assms by (simp_all add: pool_ok_def pool_parts)

text \<open>Space is taken where the next instruction goes, whatever its size.\<close>

lemma alloc_result:
  assumes os: "os_ok (ge_os env)" and ok: "pool_ok (cg_pool st)" and n: "n \<le> 4096"
    and al: "alloc env n st = Some (a, st')"
  shows "a = pl_nextInstr (cg_pool st)" and "st' = st\<lparr>cg_pool := (cg_pool st)\<lparr>pl_nextInstr := a + of_nat n\<rparr>\<rparr>"
    and "unat a + n \<le> unat (pl_start (cg_pool st)) + 4096" and "pool_ok (cg_pool st')"
    and "unat (pl_nextInstr (cg_pool st')) = unat a + n"
proof -
  let ?p = "cg_pool st"
  note parts = pool_okD[OF ok] and page = pool_page[OF ok]
  have r: "allocCode (ge_os env) (of_nat n) ?p = Some (pl_nextInstr ?p, ?p\<lparr>pl_nextInstr := pl_nextInstr ?p + of_nat n\<rparr>) \<and>
    unat (pl_nextInstr ?p) + n \<le> unat (pl_start ?p) + 4096"
  proof (cases "n = 0")
    case True
    have "ge_os env ProtRWX (Some (pl_instrPage ?p + 1)) page_size \<noteq> pl_instrPage ?p + 1"
      by (rule no_next_page[OF os parts(1,2)])
    then show ?thesis using al True page(3)
      by (auto simp: alloc_def allocCode_def Let_def drob_assert_def bind_eq_Some_conv split: if_splits)
  next
    case False
    have u: "unat (of_nat n :: u64) = n" using n by (simp add: unat_of_nat)
    show ?thesis using al allocCode_result[OF os parts(1,2), of "of_nat n"] False n
      by (auto simp: alloc_def u bind_eq_Some_conv split: if_splits)
  qed
  then show a: "a = pl_nextInstr ?p" and st: "st' = st\<lparr>cg_pool := ?p\<lparr>pl_nextInstr := a + of_nat n\<rparr>\<rparr>"
    using al by (auto simp: alloc_def bind_eq_Some_conv)
  show le: "unat a + n \<le> unat (pl_start ?p) + 4096" using r a by simp
  then have u: "unat (a + of_nat n) = unat a + n"
    using page(1) n by (simp add: unat_word_ariths unat_of_nat)
  then show "unat (pl_nextInstr (cg_pool st')) = unat a + n" by (simp add: st)
  have lo: "unat (pl_start ?p) \<le> unat (a + of_nat n)" using u page(2) a by simp
  have hi: "unat (a + of_nat n) \<le> unat (pl_start ?p) + 4096" using u le by simp
  from pool_ok_code(1)[OF ok lo hi, of "pl_start ?p" "[]"] show "pool_ok (cg_pool st')" by (simp add: st)
qed

lemma new_block_result:
  assumes ok: "pool_ok (cg_pool st)" and nb: "new_block st = (a, st')"
  shows "\<exists>bs. st' = (poke (pl_nextInstr (cg_pool st)) bs st)\<lparr>cg_pool := (cg_pool (poke (pl_nextInstr (cg_pool st)) bs st))\<lparr>pl_nextInstr := a\<rparr>\<rparr> \<and>
      unat (pl_nextInstr (cg_pool st)) + length bs \<le> unat a"
    and "unat a \<le> unat (pl_start (cg_pool st)) + 4096" and "unat (pl_nextInstr (cg_pool st)) \<le> unat a"
    and "pool_ok (cg_pool st')"
proof -
  let ?p = "cg_pool st"
  let ?a = "align_up (pl_nextInstr ?p) 16"
  note parts = pool_okD[OF ok] and page = pool_page[OF ok]
  note up = newBlock_up[OF parts(1,2)]
  obtain p' where p': "newBlock arch_fill_with_nops (cg_write st) ?p = (a, p')" "st' = st\<lparr>cg_pool := p'\<rparr>"
    using nb by (auto simp: new_block_def split: prod.splits)
  let ?bs = "if cg_write st then arch_fill_with_nops (unat (?a - pl_nextInstr ?p)) else []"
  have len: "unat (pl_nextInstr ?p) + length ?bs \<le> unat ?a" using up(2) by (simp add: unat_sub_if_size)
  show "\<exists>bs. st' = (poke (pl_nextInstr ?p) bs st)\<lparr>cg_pool := (cg_pool (poke (pl_nextInstr ?p) bs st))\<lparr>pl_nextInstr := a\<rparr>\<rparr> \<and>
      unat (pl_nextInstr ?p) + length bs \<le> unat a"
  proof (cases "is_aligned (pl_nextInstr ?p) 16")
    case True
    then have "a = pl_nextInstr ?p" "p' = ?p" using p'(1) by (auto simp: newBlock_def Let_def)
    then show ?thesis using p'(2) by (intro exI[of _ "[]"]) simp
  next
    case False
    then have "a = ?a" "p' = ?p\<lparr>pl_mem := write_bytes (pl_nextInstr ?p) ?bs (pl_mem ?p), pl_nextInstr := ?a\<rparr>"
      using p'(1) by (auto simp: newBlock_def Let_def)
    then show ?thesis using p'(2) len by (intro exI[of _ ?bs]) (simp add: poke_def)
  qed
  show "unat a \<le> unat (pl_start ?p) + 4096" "unat (pl_nextInstr ?p) \<le> unat a"
    using p'(1) up page by (auto simp: newBlock_def Let_def split: if_splits)
  show "pool_ok (cg_pool st')" using newBlock_ok(1)[OF ok _ p'(1)] p'(2) by simp
qed

section \<open>Places\<close>

text \<open>The edge of a branch that has one.\<close>

definition branch_to :: "instr \<Rightarrow> nat option" where
  "branch_to i = (if isBranch i then is_branchEdge i else None)"

text \<open>
  What the bytes of a place are to be: a branch or a call to the code of the target, the
  encoding of an instruction at this place, or a copy of the original.
\<close>

definition plain_code :: "codegen_env \<Rightarrow> instr \<Rightarrow> location \<Rightarrow> byte list \<Rightarrow> bool" where
  "plain_code env i lo bs \<longleftrightarrow>
     (if is_reencode i then
        case in_info (is_ins i) of
          Some oc \<Rightarrow> run_encode (ge_stale env (lo_instr lo)) (oc_encode oc) (in_opcode (is_ins i)) (in_operands (is_ins i))
            (lo_itext lo) = Some bs
        | None \<Rightarrow> bs = []
      else bs = original env i)"

definition branch_code :: "icfg \<Rightarrow> (nat \<rightharpoonup> u64) \<Rightarrow> instr \<Rightarrow> nat \<Rightarrow> location \<Rightarrow> byte list \<Rightarrow> bool" where
  "branch_code g bm i e lo bs \<longleftrightarrow>
     (\<exists>ed t. ic_be g e = Some ed \<and> bm (be_dst ed) = Some t \<and>
        (is_jcxz (in_opcode (is_ins i)) \<or>
         read_transfer (lo_itext lo) bs = Some (transfer_of (in_opcode (is_ins i)), t)))"

definition call_code :: "icfg \<Rightarrow> (nat \<rightharpoonup> u64) \<Rightarrow> nat \<Rightarrow> location \<Rightarrow> byte list \<Rightarrow> bool" where
  "call_code g fm e lo bs \<longleftrightarrow>
     (\<exists>ed t. ic_ce g e = Some ed \<and> fm (ce_dst ed) = Some t \<and> read_transfer (lo_itext lo) bs = Some (ToCall, t))"

definition place_code :: "codegen_env \<Rightarrow> icfg \<Rightarrow> (nat \<rightharpoonup> u64) \<Rightarrow> (nat \<rightharpoonup> u64) \<Rightarrow> location \<Rightarrow> byte list \<Rightarrow> bool" where
  "place_code env g fm bm lo bs \<longleftrightarrow>
     (\<exists>i. ic_is g (lo_instr lo) = Some i \<and>
        (case branch_to i of
           Some e \<Rightarrow> branch_code g bm i e lo bs
         | None \<Rightarrow>
             if isCall i \<and> is_callEdge i \<noteq> None then call_code g fm (the (is_callEdge i)) lo bs
             else plain_code env i lo bs))"

abbreviation settled :: "codegen_env \<Rightarrow> icfg \<Rightarrow> codegen \<Rightarrow> location \<Rightarrow> bool" where
  "settled env g st lo \<equiv>
     place_code env g (cg_functionMap st) (cg_blockMap st) lo (code_at st (lo_itext lo) (lo_ilen lo))"

lemma edge_code_mono:
  "branch_code g bm i e lo bs \<Longrightarrow> bm \<subseteq>\<^sub>m bm' \<Longrightarrow> branch_code g bm' i e lo bs"
  "call_code g fm e lo bs \<Longrightarrow> fm \<subseteq>\<^sub>m fm' \<Longrightarrow> call_code g fm' e lo bs"
  unfolding branch_code_def call_code_def map_le_def by (metis domI)+

lemma place_code_mono:
  "place_code env g fm bm lo bs \<Longrightarrow> fm \<subseteq>\<^sub>m fm' \<Longrightarrow> bm \<subseteq>\<^sub>m bm' \<Longrightarrow> place_code env g fm' bm' lo bs"
proof -
  assume p: "place_code env g fm bm lo bs" and m: "fm \<subseteq>\<^sub>m fm'" "bm \<subseteq>\<^sub>m bm'"
  obtain i where "ic_is g (lo_instr lo) = Some i" using p by (auto simp: place_code_def)
  then show "place_code env g fm' bm' lo bs"
    using p m by (cases "branch_to i") (auto simp: place_code_def intro: edge_code_mono split: if_splits)
qed

text \<open>A list of instructions is there from an address on.\<close>

primrec laid :: "(location \<Rightarrow> bool) \<Rightarrow> u64 \<Rightarrow> nat list \<Rightarrow> bool" where
  "laid P a [] = True"
| "laid P a (i # is) = (\<exists>n. P \<lparr>lo_itext = a, lo_ilen = n, lo_instr = i\<rparr> \<and> laid P (a + of_nat n) is)"

lemma laid_mono: "laid P a is \<Longrightarrow> (\<And>lo. P lo \<Longrightarrow> Q lo) \<Longrightarrow> laid Q a is"
  by (induction "is" arbitrary: a) auto

definition lo_end :: "location \<Rightarrow> nat" where
  "lo_end lo = unat (lo_itext lo) + lo_ilen lo"

abbreviation next_code :: "codegen \<Rightarrow> u64" where
  "next_code st \<equiv> pl_nextInstr (cg_pool st)"

abbreviation first_code :: "codegen \<Rightarrow> u64" where
  "first_code st \<equiv> pl_start (cg_pool st)"

definition in_order :: "location list \<Rightarrow> bool" where
  "in_order L \<longleftrightarrow> sorted_wrt (\<lambda>x y. lo_end x \<le> unat (lo_itext y)) L"

lemma in_order_apart:
  "in_order L \<Longrightarrow> x \<in> set L \<Longrightarrow> y \<in> set L \<Longrightarrow> x \<noteq> y \<Longrightarrow> lo_end x \<le> unat (lo_itext y) \<or> lo_end y \<le> unat (lo_itext x)"
  unfolding in_order_def by (induction L) auto

definition in_page :: "codegen \<Rightarrow> u64 \<Rightarrow> bool" where
  "in_page st a \<longleftrightarrow> unat (first_code st) \<le> unat a \<and> unat a \<le> unat (first_code st) + 4096"

text \<open>The places of \<open>P\<close> are pending, all others of \<open>L\<close> are what they are to be.\<close>

definition places_ok :: "codegen_env \<Rightarrow> icfg \<Rightarrow> location list \<Rightarrow> location set \<Rightarrow> codegen \<Rightarrow> bool" where
  "places_ok env g L P st \<longleftrightarrow>
     cg_write st \<and> pool_ok (cg_pool st) \<and> in_order L \<and>
     (\<forall>lo \<in> set L. unat (first_code st) \<le> unat (lo_itext lo) \<and> lo_end lo \<le> unat (next_code st)) \<and>
     P \<subseteq> set L \<and> (\<forall>lo \<in> set L - P. settled env g st lo) \<and>
     (\<forall>a \<in> ran (cg_functionMap st) \<union> ran (cg_blockMap st). in_page st a)"

lemma places_okD:
  assumes "places_ok env g L P st"
  shows "cg_write st" "pool_ok (cg_pool st)" "in_order L" "P \<subseteq> set L"
    "\<And>lo. lo \<in> set L \<Longrightarrow> unat (first_code st) \<le> unat (lo_itext lo)" "\<And>lo. lo \<in> set L \<Longrightarrow> lo_end lo \<le> unat (next_code st)"
    "\<And>lo. lo \<in> set L \<Longrightarrow> lo \<notin> P \<Longrightarrow> settled env g st lo"
    "\<And>f a. cg_functionMap st f = Some a \<Longrightarrow> in_page st a" "\<And>b a. cg_blockMap st b = Some a \<Longrightarrow> in_page st a"
  using assms unfolding places_ok_def by (blast intro: ranI)+

lemma places_settle:
  "places_ok env g L P st \<Longrightarrow> settled env g st lo \<Longrightarrow> Q \<subseteq> P \<Longrightarrow> P \<subseteq> insert lo Q \<Longrightarrow> places_ok env g L Q st"
  unfolding places_ok_def by blast

text \<open>Writing into a place that is pending disturbs no other.\<close>

lemma places_poke:
  assumes ok: "places_ok env g L P st" and lo: "lo \<in> P" and len: "length bs \<le> lo_ilen lo"
  shows "places_ok env g L P (poke (lo_itext lo) bs st)"
proof -
  note D = places_okD[OF ok] and page = pool_page[OF places_okD(2)[OF ok]]
  have end64: "lo_end x < 2 ^ 64" if "x \<in> set L" for x using D(6)[OF that] page by linarith
  have l: "lo \<in> set L" using lo D(4) by blast
  have e: "unat (lo_itext lo) + length bs \<le> lo_end lo" using len by (simp add: lo_end_def)
  have "settled env g (poke (lo_itext lo) bs st) x" if x: "x \<in> set L" "x \<notin> P" for x
  proof -
    have "x \<noteq> lo" using lo x(2) by blast
    then have "lo_end x \<le> unat (lo_itext lo) \<or> lo_end lo \<le> unat (lo_itext x)" by (rule in_order_apart[OF D(3) x(1) l])
    then have "code_at (poke (lo_itext lo) bs st) (lo_itext x) (lo_ilen x) = code_at st (lo_itext x) (lo_ilen x)"
      using end64[OF x(1)] end64[OF l] e by (intro code_at_poke_apart) (auto simp: lo_end_def)
    then show ?thesis using D(7)[OF x] by simp
  qed
  moreover have "pool_ok (cg_pool (poke (lo_itext lo) bs st))"
    using e D(6)[OF l] page(3) by (intro poke_ok[OF D(2)]) linarith
  ultimately show ?thesis using ok unfolding places_ok_def by (simp add: in_page_def)
qed

section \<open>Filling a place\<close>

lemma disp_short: "fits8 (disp32 t f) \<Longrightarrow> scast (disp32 t f) = t - f \<Longrightarrow> scast (ucast (disp32 t f) :: byte) = t - f"
  by (simp add: near_disp8)

lemma near_target:
  assumes ok: "places_ok env g L P st" and lo: "lo \<in> P" and t: "in_page st t"
  shows "scast (disp32 t (lo_itext lo + of_nat (lo_ilen lo))) = t - (lo_itext lo + of_nat (lo_ilen lo))"
proof -
  note D = places_okD[OF ok] and page = pool_page[OF places_okD(2)[OF ok]]
  have l: "lo \<in> set L" using lo D(4) by blast
  have e: "lo_end lo \<le> unat (first_code st) + 4096" using D(6)[OF l] page(3) by linarith
  have "unat (lo_itext lo + of_nat (lo_ilen lo)) = lo_end lo"
    using e page(1) by (simp add: lo_end_def unat_word_ariths unat_of_nat)
  then show ?thesis using t e D(5)[OF l] by (intro near_disp[of "first_code st"]) (simp_all add: in_page_def lo_end_def)
qed

text \<open>All that a fixup writes is the place; but for JCXZ it is then a transfer to the target.\<close>

definition filled :: "location \<Rightarrow> codegen \<Rightarrow> codegen \<Rightarrow> bool" where
  "filled lo st st' \<longleftrightarrow> (\<exists>bs cs. length bs \<le> lo_ilen lo \<and> length cs \<le> lo_ilen lo \<and>
     st' = poke (lo_itext lo) bs (poke (lo_itext lo) cs st))"

lemma filled_once: "length bs \<le> lo_ilen lo \<Longrightarrow> filled lo st (poke (lo_itext lo) bs st)"
  unfolding filled_def by (intro exI[of _ bs] exI[of _ "[]"]) simp

lemma filled_places: "filled lo st st' \<Longrightarrow> places_ok env g L P st \<Longrightarrow> lo \<in> P \<Longrightarrow> places_ok env g L P st'"
  by (auto simp: filled_def intro: places_poke)

lemma filled_fields:
  assumes "filled lo st st'"
  shows "cg_functionMap st' = cg_functionMap st" "cg_blockMap st' = cg_blockMap st" "cg_branches st' = cg_branches st"
    "cg_calls st' = cg_calls st" "next_code st' = next_code st" "first_code st' = first_code st"
    "cg_write st' = cg_write st"
  using assms by (auto simp: filled_def)

lemma special_branch_filled:
  assumes "fixupSpecialCondBranch pre lo t True st = Some st'"
  shows "filled lo st st'"
proof -
  let ?cs = "if pre then [0x67] else []"
  obtain bs where "st' = poke (lo_itext lo) bs (poke (lo_itext lo) ?cs st)" "length bs \<le> lo_ilen lo" "1 \<le> lo_ilen lo"
    using assms by (auto simp: fixupSpecialCondBranch_def Let_def drob_assert_def split: if_splits)
  then show ?thesis unfolding filled_def by (intro exI[of _ bs] exI[of _ ?cs]) simp
qed

lemma plain_branch_filled:
  assumes "arch_fixup_branch opc lo t True st = Some st'" and "\<not> is_jcxz opc"
    and near: "scast (disp32 t (lo_itext lo + of_nat (lo_ilen lo))) = t - (lo_itext lo + of_nat (lo_ilen lo))"
  obtains bs where "st' = poke (lo_itext lo) bs st" "length bs = lo_ilen lo" "length bs \<le> 6"
    "read_transfer (lo_itext lo) bs = Some (transfer_of opc, t)"
proof -
  have "\<exists>bs. st' = poke (lo_itext lo) bs st \<and> length bs = lo_ilen lo \<and> length bs \<le> 6 \<and>
    read_transfer (lo_itext lo) bs = Some (transfer_of opc, t)"
  proof (cases opc)
    case (Jmp j)
    then show ?thesis using assms
      by (auto simp: arch_fixup_branch_def fixupBranch_def Let_def drob_assert_def transfer_of_def read_transfer_jump
          disp_short split: if_splits)
  next
    case (Jcc x)
    then obtain oc where oc: "cond_opcode x = Some oc" using assms(2) by (cases x) (simp_all add: is_jcxz_def)
    show ?thesis using assms Jcc oc read_transfer_cond[OF oc]
      by (auto simp: arch_fixup_branch_def Let_def drob_assert_def transfer_of_def disp_short split: if_splits)
  qed (use assms in \<open>simp_all add: arch_fixup_branch_def\<close>)
  then show thesis using that by blast
qed

lemma fixup_branch_filled:
  assumes ok: "places_ok env g L P st" and lo: "lo \<in> P" and t: "cg_blockMap st (be_dst ed) = Some t"
    and i: "ic_is g (lo_instr lo) = Some i" "branch_to i = Some e" "ic_be g e = Some ed"
    and fx: "arch_fixup_branch (in_opcode (is_ins i)) lo t True st = Some st'"
  shows "filled lo st st'" and "settled env g st' lo"
proof -
  note near = near_target[OF ok lo places_okD(9)[OF ok t]]
  have "filled lo st st' \<and> branch_code g (cg_blockMap st') i e lo (code_at st' (lo_itext lo) (lo_ilen lo))"
  proof (cases "is_jcxz (in_opcode (is_ins i))")
    case True
    then have "filled lo st st'" using fx special_branch_filled by (auto simp: is_jcxz_def arch_fixup_branch_def)
    then show ?thesis using i(3) t True filled_fields(2) by (fastforce simp: branch_code_def)
  next
    case False
    obtain bs where bs: "st' = poke (lo_itext lo) bs st" "length bs = lo_ilen lo" "length bs \<le> 6"
      "read_transfer (lo_itext lo) bs = Some (transfer_of (in_opcode (is_ins i)), t)"
      by (rule plain_branch_filled[OF fx False near])
    have "code_at st' (lo_itext lo) (lo_ilen lo) = bs"
      using code_at_poke[of bs "lo_itext lo" st] bs(1-3) by simp
    then show ?thesis using bs filled_once[of bs lo st] i(3) t by (simp add: branch_code_def)
  qed
  then show "filled lo st st'" "settled env g st' lo" using i(1,2) by (simp_all add: place_code_def)
qed

lemma fixup_call_filled:
  assumes ok: "places_ok env g L P st" and lo: "lo \<in> P" and t: "cg_functionMap st (ce_dst ed) = Some t"
    and i: "ic_is g (lo_instr lo) = Some i" "branch_to i = None" "isCall i" "is_callEdge i = Some e" "ic_ce g e = Some ed"
    and fx: "arch_fixup_call lo t True st = Some st'"
  shows "filled lo st st'" and "settled env g st' lo"
proof -
  note near = near_target[OF ok lo places_okD(8)[OF ok t]]
  let ?bs = "0xe8 # le_bytes 4 (disp32 t (lo_itext lo + of_nat (lo_ilen lo)))"
  have st': "st' = poke (lo_itext lo) ?bs st" "lo_ilen lo = 5"
    using fx by (simp_all add: arch_fixup_call_def Let_def drob_assert_def split: if_splits)
  then show "filled lo st st'" using filled_once[of ?bs lo st] by simp
  have "code_at st' (lo_itext lo) (lo_ilen lo) = ?bs" using code_at_poke[of ?bs "lo_itext lo" st] st' by simp
  moreover have "read_transfer (lo_itext lo) ?bs = Some (ToCall, t)"
    using near st'(2) by (simp add: read_transfer_jump)
  ultimately show "settled env g st' lo" using i t st'(1) by (simp add: place_code_def call_code_def)
qed

section \<open>Instructions\<close>

text \<open>Places are added at the end.\<close>

lemma add_place:
  assumes ok: "places_ok env g L P st" and p: "pool_ok (cg_pool st')"
    and st': "st' = st\<lparr>cg_pool := (cg_pool st)\<lparr>pl_nextInstr := next_code st + of_nat n\<rparr>\<rparr>"
    and n: "unat (next_code st') = unat (next_code st) + n"
  shows "places_ok env g (L @ [\<lparr>lo_itext = next_code st, lo_ilen = n, lo_instr = i\<rparr>])
    (insert \<lparr>lo_itext = next_code st, lo_ilen = n, lo_instr = i\<rparr> P) st'"
proof -
  note D = places_okD[OF ok]
  let ?lo = "\<lparr>lo_itext = next_code st, lo_ilen = n, lo_instr = i\<rparr>"
  have "in_order (L @ [?lo])" using D(3,6) by (simp add: in_order_def sorted_wrt_append)
  moreover have "unat (first_code st') \<le> unat (lo_itext x) \<and> lo_end x \<le> unat (next_code st')" if "x \<in> set (L @ [?lo])" for x
  proof (cases "x = ?lo")
    case True
    then show ?thesis using n pool_page(2)[OF D(2)] st' by (simp add: lo_end_def)
  next
    case False
    then have "x \<in> set L" using that by simp
    then show ?thesis using D(5)[of x] D(6)[of x] n st' by simp
  qed
  moreover have "settled env g st' x" if "x \<in> set (L @ [?lo]) - insert ?lo P" for x
    using D(7)[of x] that st' by simp
  moreover have "cg_write st'" "ran (cg_functionMap st') \<union> ran (cg_blockMap st') = ran (cg_functionMap st) \<union> ran (cg_blockMap st)"
    "in_page st' = in_page st"
    using D(1) st' by (simp_all add: in_page_def fun_eq_iff)
  ultimately show ?thesis using ok p unfolding places_ok_def by auto
qed

definition frame :: "codegen \<Rightarrow> codegen \<Rightarrow> bool" where
  "frame st st' \<longleftrightarrow> cg_functionMap st' = cg_functionMap st \<and> cg_blockMap st' = cg_blockMap st \<and> first_code st' = first_code st"

lemma frame_trans: "frame a b \<Longrightarrow> frame b c \<Longrightarrow> frame a c"
  by (simp add: frame_def)

text \<open>What is noted for later is a branch with an edge and a call with an edge.\<close>

definition pending :: "codegen \<Rightarrow> location set" where
  "pending st = set (cg_branches st) \<union> set (cg_calls st)"

definition branch_place :: "icfg \<Rightarrow> location \<Rightarrow> bool" where
  "branch_place g lo \<longleftrightarrow> (\<exists>i. ic_is g (lo_instr lo) = Some i \<and> branch_to i \<noteq> None)"

definition call_place :: "icfg \<Rightarrow> location \<Rightarrow> bool" where
  "call_place g lo \<longleftrightarrow> (\<exists>i. ic_is g (lo_instr lo) = Some i \<and> branch_to i = None \<and> isCall i \<and> is_callEdge i \<noteq> None)"

definition cg_inv :: "codegen_env \<Rightarrow> icfg \<Rightarrow> location list \<Rightarrow> codegen \<Rightarrow> bool" where
  "cg_inv env g L st \<longleftrightarrow> places_ok env g L (pending st) st \<and>
     (\<forall>lo \<in> set (cg_branches st). branch_place g lo) \<and> (\<forall>lo \<in> set (cg_calls st). call_place g lo)"

lemma place_step:
  assumes os: "os_ok (ge_os env)" and ok: "places_ok env g L P st" and len: "length bs \<le> 4096"
    and pl: "emit env bs st = Some st'"
    and good: "place_code env g (cg_functionMap st) (cg_blockMap st) \<lparr>lo_itext = next_code st, lo_ilen = length bs, lo_instr = i\<rparr> bs"
  shows "places_ok env g (L @ [\<lparr>lo_itext = next_code st, lo_ilen = length bs, lo_instr = i\<rparr>]) P st'"
    and "next_code st' = next_code st + of_nat (length bs)" and "frame st st'"
    and "cg_branches st' = cg_branches st" "cg_calls st' = cg_calls st"
proof -
  let ?lo = "\<lparr>lo_itext = next_code st, lo_ilen = length bs, lo_instr = i\<rparr>"
  note D = places_okD[OF ok]
  obtain a st1 where al: "alloc env (length bs) st = Some (a, st1)" and st': "st' = poke a bs st1"
    using pl D(1) by (auto simp: emit_def alloc_def bind_eq_Some_conv)
  note R = alloc_result[OF os D(2) len al]
  have a: "places_ok env g (L @ [?lo]) (insert ?lo P) st1"
    by (rule add_place[OF ok R(4) R(2)[unfolded R(1)] R(5)[unfolded R(1)]])
  have "places_ok env g (L @ [?lo]) (insert ?lo P) st'" using places_poke[OF a, of ?lo bs] st' R(1) by simp
  moreover have "code_at st' (next_code st) (length bs) = bs" using code_at_poke[OF len, of a st1] st' R(1) by simp
  then have "settled env g st' ?lo" using good st' R(2) by simp
  ultimately show "places_ok env g (L @ [?lo]) P st'" by (rule places_settle) auto
  show "next_code st' = next_code st + of_nat (length bs)" "frame st st'"
    "cg_branches st' = cg_branches st" "cg_calls st' = cg_calls st"
    using st' R(1,2) by (simp_all add: frame_def)
qed

lemma original_length: "length (original env i) \<le> 4096"
proof -
  have "unat (is_ilen i) < 256" using unsigned_less[of "is_ilen i"] by simp
  then show ?thesis by (simp add: original_def)
qed

definition added :: "codegen_env \<Rightarrow> icfg \<Rightarrow> location list \<Rightarrow> nat \<Rightarrow> codegen \<Rightarrow> codegen \<Rightarrow> bool" where
  "added env g L a st st' \<longleftrightarrow> (\<exists>n. cg_inv env g (L @ [\<lparr>lo_itext = next_code st, lo_ilen = n, lo_instr = a\<rparr>]) st' \<and>
     next_code st' = next_code st + of_nat n \<and> frame st st')"

lemma generateCode_step:
  assumes os: "os_ok (ge_os env)" and inv: "cg_inv env g L st"
    and i: "ic_is g a = Some i" "branch_to i = None" "\<not> (isCall i \<and> is_callEdge i \<noteq> None)"
    and gc: "generateCode env a i st = Some st'"
  shows "added env g L a st st'"
proof -
  let ?lo = "\<lambda>n. \<lparr>lo_itext = next_code st, lo_ilen = n, lo_instr = a\<rparr>"
  have ok: "places_ok env g L (pending st) st" using inv by (simp add: cg_inv_def)
  have plain: "place_code env g fm bm (?lo n) bs = plain_code env i (?lo n) bs" for fm bm n bs
    using i by (auto simp: place_code_def)
  have placed: "added env g L a st st'" if "emit env bs st = Some st'" "length bs \<le> 4096" "plain_code env i (?lo (length bs)) bs" for bs
    unfolding added_def
    using place_step[OF os ok that(2,1), of a] that(3) inv
    by (intro exI[of _ "length bs"]) (simp add: plain cg_inv_def pending_def)
  show ?thesis
  proof (cases "is_reencode i")
    case True
    show ?thesis
    proof (cases "in_info (is_ins i)")
      case None
      then have st': "st' = st" using gc True by (simp add: generateCode_def)
      have "places_ok env g (L @ [?lo 0]) (insert (?lo 0) (pending st)) st"
        using add_place[OF ok places_okD(2)[OF ok], of 0 a] by simp
      moreover have "settled env g st (?lo 0)"
        using None True by (simp add: plain plain_code_def host_bytes_def)
      ultimately have "places_ok env g (L @ [?lo 0]) (pending st) st" by (rule places_settle) auto
      then show ?thesis unfolding added_def using inv st' by (intro exI[of _ 0]) (simp add: cg_inv_def frame_def)
    next
      case (Some oc)
      then obtain bs where bs: "run_encode (ge_stale env a) (oc_encode oc) (in_opcode (is_ins i)) (in_operands (is_ins i))
          (next_code st) = Some bs" "emit env bs st = Some st'"
        using gc True by (auto simp: generateCode_def nextCode_def bind_eq_Some_conv)
      show ?thesis by (rule placed[OF bs(2)]) (use run_encode_short[OF bs(1)] bs(1) Some True in \<open>simp_all add: plain_code_def\<close>)
    qed
  next
    case False
    then have "emit env (original env i) st = Some st'"
      using gc by (simp add: generateCode_def drob_assert_def split: if_splits)
    then show ?thesis by (rule placed) (use original_length[of env i] False in \<open>simp_all add: plain_code_def\<close>)
  qed
qed

text \<open>The graph may have other marks than the one the places are about.\<close>

definition code_kept :: "icfg \<Rightarrow> icfg \<Rightarrow> bool" where
  "code_kept g h \<longleftrightarrow> ic_is h = ic_is g \<and> ic_be h = ic_be g \<and> ic_ce h = ic_ce g \<and> ic_functions h = ic_functions g \<and>
     ic_entry h = ic_entry g \<and> (\<forall>b. map_option sb_instrs (ic_sb h b) = map_option sb_instrs (ic_sb g b)) \<and>
     (\<forall>f. map_option (\<lambda>fn. (fn_entry fn, fn_blocks fn)) (ic_fn h f) = map_option (\<lambda>fn. (fn_entry fn, fn_blocks fn)) (ic_fn g f))"

lemma branch_ilen_bounds: "branch_ilen opc s = Some n \<Longrightarrow> 0 < n \<and> n \<le> 10"
  by (auto simp: branch_ilen_def split: opcode.splits if_splits)

lemma reserve:
  fixes a :: nat
  assumes os: "os_ok (ge_os env)" and inv: "cg_inv env g L st" and n: "n \<le> 10" and al: "alloc env n st = Some (x, st1)"
  defines "lo \<equiv> \<lparr>lo_itext = next_code st, lo_ilen = n, lo_instr = a\<rparr>"
  shows "places_ok env g (L @ [lo]) (insert lo (pending st)) st1" and "x = next_code st" and "frame st st1"
    and "next_code st1 = next_code st + of_nat n" and "cg_branches st1 = cg_branches st" "cg_calls st1 = cg_calls st"
proof -
  have ok: "places_ok env g L (pending st) st" using inv by (simp add: cg_inv_def)
  have n': "n \<le> 4096" using n by simp
  note R = alloc_result[OF os places_okD(2)[OF ok] n' al]
  show "places_ok env g (L @ [lo]) (insert lo (pending st)) st1"
    unfolding lo_def by (rule add_place[OF ok R(4) R(2)[unfolded R(1)] R(5)[unfolded R(1)]])
  show "x = next_code st" by (rule R(1))
  show "frame st st1" "next_code st1 = next_code st + of_nat n" "cg_branches st1 = cg_branches st" "cg_calls st1 = cg_calls st"
    using R(2)[unfolded R(1)] by (simp_all add: frame_def)
qed

lemma branch_step:
  assumes os: "os_ok (ge_os env)" and inv: "cg_inv env g L st" and h: "code_kept g h"
    and i: "ic_is g a = Some i" "branch_to i = Some e" and step: "cg_instruction env h a st = Some st'"
  shows "added env g L a st st'"
proof -
  obtain n st1 x ed where n: "branch_ilen (in_opcode (is_ins i)) (a \<in> cg_short st) = Some n" "alloc env n st = Some (x, st1)"
    and ed: "ic_be g e = Some ed"
    and fx: "case cg_blockMap st1 (be_dst ed) of
        Some target \<Rightarrow> arch_fixup_branch (in_opcode (is_ins i)) \<lparr>lo_itext = x, lo_ilen = n, lo_instr = a\<rparr> target (cg_write st1) st1 = Some st'
      | None \<Rightarrow> st' = st1\<lparr>cg_branches := cg_branches st1 @ [\<lparr>lo_itext = x, lo_ilen = n, lo_instr = a\<rparr>]\<rparr>"
    using step i h
    by (auto simp: cg_instruction_def arch_prepare_branch_def code_kept_def branch_to_def bind_eq_Some_conv
        split: option.splits if_splits)
  have n10: "n \<le> 10" using branch_ilen_bounds[OF n(1)] by simp
  let ?lo = "\<lparr>lo_itext = next_code st, lo_ilen = n, lo_instr = a\<rparr>"
  note R = reserve(1)[OF os inv n10 n(2), of a] reserve(2-6)[OF os inv n10 n(2)]
  have w: "cg_write st1" using places_okD(1)[OF R(1)] .
  show ?thesis
  proof (cases "cg_blockMap st1 (be_dst ed)")
    case None
    then have st': "st' = st1\<lparr>cg_branches := cg_branches st1 @ [?lo]\<rparr>" using fx R(2) by simp
    have "places_ok env g (L @ [?lo]) (insert ?lo (pending st)) st'" using R(1) st' by (simp add: places_ok_def in_page_def)
    moreover have "pending st' = insert ?lo (pending st)" "branch_place g ?lo" using st' R(5,6) i
      by (auto simp: pending_def branch_place_def)
    ultimately show ?thesis unfolding added_def using inv R(3-6) st'
      by (intro exI[of _ n]) (auto simp: cg_inv_def frame_def)
  next
    case (Some t)
    have fx: "arch_fixup_branch (in_opcode (is_ins i)) ?lo t True st1 = Some st'" using fx Some w R(2) by simp
    have i': "ic_is g (lo_instr ?lo) = Some i" using i(1) by simp
    note F = fixup_branch_filled[OF R(1) insertI1 Some i' i(2) ed fx]
    have "places_ok env g (L @ [?lo]) (pending st) st'"
      by (rule places_settle[OF filled_places[OF F(1) R(1) insertI1] F(2)]) auto
    then show ?thesis unfolding added_def using inv R(3-6) filled_fields[OF F(1)]
      by (intro exI[of _ n]) (simp add: cg_inv_def pending_def frame_def)
  qed
qed

lemma call_step:
  assumes os: "os_ok (ge_os env)" and inv: "cg_inv env g L st" and h: "code_kept g h"
    and i: "ic_is g a = Some i" "branch_to i = None" "isCall i" "is_callEdge i \<noteq> None"
    and step: "cg_instruction env h a st = Some st'"
  shows "added env g L a st st'"
proof -
  obtain x st1 where n: "alloc env 5 st = Some (x, st1)"
    and st': "st' = st1\<lparr>cg_calls := cg_calls st1 @ [\<lparr>lo_itext = x, lo_ilen = 5, lo_instr = a\<rparr>]\<rparr>"
    using step i h
    by (auto simp: cg_instruction_def arch_prepare_call_def code_kept_def branch_to_def bind_eq_Some_conv
        split: option.splits if_splits)
  let ?lo = "\<lparr>lo_itext = next_code st, lo_ilen = 5, lo_instr = a\<rparr>"
  have n10: "(5 :: nat) \<le> 10" by simp
  note R = reserve(1)[OF os inv n10 n, of a] reserve(2-6)[OF os inv n10 n]
  have "places_ok env g (L @ [?lo]) (insert ?lo (pending st)) st'" using R(1) st' by (simp add: places_ok_def in_page_def)
  moreover have "pending st' = insert ?lo (pending st)" "call_place g ?lo" using st' R(2,5,6) i
    by (auto simp: pending_def call_place_def)
  ultimately show ?thesis unfolding added_def using inv R(2-6) st'
    by (intro exI[of _ 5]) (auto simp: cg_inv_def frame_def)
qed

lemma instruction_step:
  assumes os: "os_ok (ge_os env)" and inv: "cg_inv env g L st" and h: "code_kept g h"
    and step: "cg_instruction env h a st = Some st'"
  shows "added env g L a st st'"
proof -
  obtain i where i: "ic_is g a = Some i" using step h by (auto simp: cg_instruction_def code_kept_def bind_eq_Some_conv)
  show ?thesis
  proof (cases "branch_to i")
    case None
    show ?thesis
    proof (cases "isCall i \<and> is_callEdge i \<noteq> None")
      case True
      then show ?thesis using call_step[OF os inv h i None _ _ step] by blast
    next
      case False
      then have "generateCode env a i st = Some st'"
        using step h i None
        by (auto simp: cg_instruction_def code_kept_def branch_to_def drob_assert_def split: option.splits if_splits)
      then show ?thesis using generateCode_step[OF os inv i None] False by blast
    qed
  qed (use branch_step[OF os inv h i _ step] in blast)
qed

lemma instructions_step:
  assumes os: "os_ok (ge_os env)" and h: "code_kept g h"
  shows "cg_inv env g L st \<Longrightarrow> for_each is (cg_instruction env h) st = Some st' \<Longrightarrow>
    \<exists>L'. cg_inv env g (L @ L') st' \<and> laid (\<lambda>lo. lo \<in> set L') (next_code st) is \<and> frame st st'"
proof (induction "is" arbitrary: L st)
  case Nil
  then show ?case by (intro exI[of _ "[]"]) (simp add: frame_def)
next
  case (Cons a as)
  obtain st1 where st1: "cg_instruction env h a st = Some st1" "for_each as (cg_instruction env h) st1 = Some st'"
    using Cons.prems(2) by (auto simp: bind_eq_Some_conv)
  obtain n where n: "cg_inv env g (L @ [\<lparr>lo_itext = next_code st, lo_ilen = n, lo_instr = a\<rparr>]) st1"
    "next_code st1 = next_code st + of_nat n" "frame st st1"
    using instruction_step[OF os Cons.prems(1) h st1(1)] unfolding added_def by blast
  let ?lo = "\<lparr>lo_itext = next_code st, lo_ilen = n, lo_instr = a\<rparr>"
  obtain L' where L': "cg_inv env g ((L @ [?lo]) @ L') st'" "laid (\<lambda>lo. lo \<in> set L') (next_code st1) as" "frame st1 st'"
    using Cons.IH[OF n(1) st1(2)] by blast
  have "laid (\<lambda>lo. lo \<in> set (?lo # L')) (next_code st + of_nat n) as"
    using laid_mono[OF L'(2), of "\<lambda>lo. lo \<in> set (?lo # L')"] n(2) by simp
  then show ?case using L' frame_trans[OF n(3) L'(3)] by (intro exI[of _ "?lo # L'"]) auto
qed

end
