(* ===== verification/Codegen_Graph.thy ===== *)
theory Codegen_Graph
  imports Codegen_Sound
begin

text \<open>
  The code of blocks and functions: what the traversals of the graph keep, and what holds when
  the pass has generated the code of all functions and filled the calls.
\<close>

section \<open>Invariants of the traversals\<close>

lemma walk_keeps:
  assumes walk: "walk push cb cur ws s = Some r" and start: "I s"
    and mark: "\<And>b x h h'. I (x, h) \<Longrightarrow> upd_sb b (set_visited True) h = Some h' \<Longrightarrow> I (x, h')"
    and cb: "\<And>b s s' stop. I s \<Longrightarrow> cb b s = Some (stop, s') \<Longrightarrow> I s'"
  shows "I (snd r)"
proof -
  let ?ok = "\<lambda>cb. (\<forall>b x h h'. I (x, h) \<longrightarrow> upd_sb b (set_visited True) h = Some h' \<longrightarrow> I (x, h')) \<and>
    (\<forall>b s s' stop. I s \<longrightarrow> cb b s = Some (stop, s') \<longrightarrow> I s')"
  let ?P = "\<lambda>push cb cur ws s r. ?ok cb \<longrightarrow> I s \<longrightarrow> I (snd r)"
  have "?P push cb cur ws s r" if "walk push cb cur ws s = Some r"
    for push :: "nat list \<Rightarrow> nat list \<Rightarrow> nat list" and cb cur ws s r
    using that
  proof (rule walk.raw_induct[of ?P, rotated], intro impI)
    fix walk' :: "(nat list \<Rightarrow> nat list \<Rightarrow> nat list) \<Rightarrow> 'a visitor \<Rightarrow> nat option \<Rightarrow> nat list \<Rightarrow> 'a \<times> icfg \<Rightarrow>
        (bool \<times> 'a \<times> icfg) option"
      and push and cb :: "'a visitor" and cur ws s r
    assume hyp: "\<And>push cb cur ws s r. walk' push cb cur ws s = Some r \<Longrightarrow> ?P push cb cur ws s r"
      and body: "(case cur of
        None \<Rightarrow>
          (case ws of
             [] \<Rightarrow> Some (False, s)
           | b # ws \<Rightarrow> do { v \<leftarrow> is_visited (snd s) b; walk' push cb (if v then None else Some b) ws s })
      | Some b \<Rightarrow>
          do { sb \<leftarrow> ic_sb (snd s) b;
               if nd_visited (sb_node sb) then walk' push cb (sb_next sb) ws s
               else
                 do { g \<leftarrow> upd_sb b (set_visited True) (snd s);
                      (stop, s) \<leftarrow> cb b (fst s, g);
                      if stop then Some (True, s)
                      else
                        do { sb \<leftarrow> ic_sb (snd s) b;
                             ts \<leftarrow> branch_targets (snd s) b (sb_out sb);
                             walk' push cb (sb_next sb) (push ts ws) s } } }) = Some r"
      and ok: "?ok cb" and Is: "I s"
    have IH: "walk' push cb cur ws s = Some r \<Longrightarrow> I s \<Longrightarrow> I (snd r)" for cur ws s using hyp ok by blast
    show "I (snd r)"
    proof (cases cur)
      case None
      then show ?thesis using body Is IH[OF _ Is] by (auto simp: bind_eq_Some_conv split: list.splits)
    next
      case (Some b)
      then obtain sb where sb: "ic_sb (snd s) b = Some sb" using body by (auto simp: bind_eq_Some_conv)
      show ?thesis
      proof (cases "nd_visited (sb_node sb)")
        case True
        then have "walk' push cb (sb_next sb) ws s = Some r" using body Some sb by simp
        then show ?thesis using IH Is by blast
      next
        case False
        then obtain g' stop s' where s': "upd_sb b (set_visited True) (snd s) = Some g'" "cb b (fst s, g') = Some (stop, s')"
          and rest: "(if stop then Some (True, s') else do { sb \<leftarrow> ic_sb (snd s') b;
             ts \<leftarrow> branch_targets (snd s') b (sb_out sb); walk' push cb (sb_next sb) (push ts ws) s' }) = Some r"
          using body Some sb by (auto simp: bind_eq_Some_conv)
        have "I (fst s, g')" using ok Is s'(1) by (metis prod.collapse)
        then have "I s'" using ok s'(2) by blast
        from this IH[OF _ this] show ?thesis using rest by (auto simp: bind_eq_Some_conv split: if_splits)
      qed
    qed
  qed
  then show ?thesis using assms by blast
qed

lemma walk_functions_keeps:
  assumes walk: "walk_functions push asked cb ws s = Some r" and start: "I s"
    and mark: "\<And>f x h h'. I (x, h) \<Longrightarrow> upd_fn f (set_fn_visited True) h = Some h' \<Longrightarrow> I (x, h')"
    and cb: "\<And>f s s' stop. I s \<Longrightarrow> cb f s = Some (stop, s') \<Longrightarrow> I s'"
  shows "I (snd r)"
proof -
  let ?ok = "\<lambda>cb. (\<forall>f x h h'. I (x, h) \<longrightarrow> upd_fn f (set_fn_visited True) h = Some h' \<longrightarrow> I (x, h')) \<and>
    (\<forall>f s s' stop. I s \<longrightarrow> cb f s = Some (stop, s') \<longrightarrow> I s')"
  let ?P = "\<lambda>push asked cb ws s r. ?ok cb \<longrightarrow> I s \<longrightarrow> I (snd r)"
  have "?P push asked cb ws s r" if "walk_functions push asked cb ws s = Some r"
    for push :: "nat list \<Rightarrow> nat list \<Rightarrow> nat list" and asked :: "nat \<Rightarrow> nat \<Rightarrow> nat" and cb ws s r
    using that
  proof (rule walk_functions.raw_induct[of ?P, rotated], intro impI)
    fix walk' :: "(nat list \<Rightarrow> nat list \<Rightarrow> nat list) \<Rightarrow> (nat \<Rightarrow> nat \<Rightarrow> nat) \<Rightarrow> 'a visitor \<Rightarrow> nat list \<Rightarrow> 'a \<times> icfg \<Rightarrow>
        (bool \<times> 'a \<times> icfg) option"
      and push and asked :: "nat \<Rightarrow> nat \<Rightarrow> nat" and cb :: "'a visitor" and ws s r
    assume hyp: "\<And>push asked cb ws s r. walk' push asked cb ws s = Some r \<Longrightarrow> ?P push asked cb ws s r"
      and body: "(case ws of
        [] \<Rightarrow> Some (False, s)
      | f # ws \<Rightarrow>
          do { v \<leftarrow> fn_visited (snd s) f;
               if v then walk' push asked cb ws s
               else
                 do { g \<leftarrow> upd_fn f (set_fn_visited True) (snd s);
                      (stop, s) \<leftarrow> cb f (fst s, g);
                      if stop then Some (True, s)
                      else
                        do { fn \<leftarrow> ic_fn (snd s) f;
                             ts \<leftarrow> call_targets asked (snd s) f (fn_out fn);
                             walk' push asked cb (push ts ws) s } } }) = Some r"
      and ok: "?ok cb" and Is: "I s"
    have IH: "walk' push asked cb ws s = Some r \<Longrightarrow> I s \<Longrightarrow> I (snd r)" for ws s using hyp ok by blast
    show "I (snd r)"
    proof (cases ws)
      case Nil
      then show ?thesis using body Is by auto
    next
      case (Cons f ws')
      then obtain v where v: "fn_visited (snd s) f = Some v" using body by (auto simp: bind_eq_Some_conv)
      show ?thesis
      proof (cases v)
        case True
        then have "walk' push asked cb ws' s = Some r" using body Cons v by simp
        then show ?thesis using IH Is by blast
      next
        case False
        then obtain g' stop s' where s': "upd_fn f (set_fn_visited True) (snd s) = Some g'" "cb f (fst s, g') = Some (stop, s')"
          and rest: "(if stop then Some (True, s') else do { fn \<leftarrow> ic_fn (snd s') f;
             ts \<leftarrow> call_targets asked (snd s') f (fn_out fn); walk' push asked cb (push ts ws') s' }) = Some r"
          using body Cons v by (auto simp: bind_eq_Some_conv)
        have "I (fst s, g')" using ok Is s'(1) by (metis prod.collapse)
        then have "I s'" using ok s'(2) by blast
        from this IH[OF _ this] show ?thesis using rest by (auto simp: bind_eq_Some_conv split: if_splits)
      qed
    qed
  qed
  then show ?thesis using assms by blast
qed

text \<open>A traversal that starts at something not visited visits it first.\<close>

lemma walk_first:
  assumes w: "walk push cb None [e] (x, h) = Some r" and v: "is_visited h e = Some False"
  shows "\<exists>h' stop s'. upd_sb e (set_visited True) h = Some h' \<and> cb e (x, h') = Some (stop, s') \<and>
    (if stop then r = (True, s') else \<exists>cur ws. walk push cb cur ws s' = Some r)"
proof -
  have w1: "walk push cb (Some e) [] (x, h) = Some r" using w v by (subst (asm) walk.simps) simp
  obtain sb where sb: "ic_sb h e = Some sb" "\<not> nd_visited (sb_node sb)"
    using v by (auto simp: is_visited_def bind_eq_Some_conv)
  obtain h' stop s' where s': "upd_sb e (set_visited True) h = Some h'" "cb e (x, h') = Some (stop, s')"
    "(if stop then Some (True, s') else do { sb \<leftarrow> ic_sb (snd s') e;
       ts \<leftarrow> branch_targets (snd s') e (sb_out sb); walk push cb (sb_next sb) (push ts []) s' }) = Some r"
    using w1 sb by (subst (asm) walk.simps) (auto simp: bind_eq_Some_conv)
  then have "if stop then r = (True, s') else \<exists>cur ws. walk push cb cur ws s' = Some r"
    by (auto simp: bind_eq_Some_conv split: if_splits)
  then show ?thesis using s'(1,2) by blast
qed

lemma walk_functions_first:
  assumes w: "walk_functions push asked cb [f] (x, h) = Some r" and v: "fn_visited h f = Some False"
  shows "\<exists>h' stop s'. upd_fn f (set_fn_visited True) h = Some h' \<and> cb f (x, h') = Some (stop, s') \<and>
    (if stop then r = (True, s') else \<exists>ws. walk_functions push asked cb ws s' = Some r)"
proof -
  obtain h' stop s' where s': "upd_fn f (set_fn_visited True) h = Some h'" "cb f (x, h') = Some (stop, s')"
    "(if stop then Some (True, s') else do { fn \<leftarrow> ic_fn (snd s') f;
       ts \<leftarrow> call_targets asked (snd s') f (fn_out fn); walk_functions push asked cb (push ts []) s' }) = Some r"
    using w v by (subst (asm) walk_functions.simps) (auto simp: bind_eq_Some_conv)
  then have "if stop then r = (True, s') else \<exists>ws. walk_functions push asked cb ws s' = Some r"
    by (auto simp: bind_eq_Some_conv split: if_splits)
  then show ?thesis using s'(1,2) by blast
qed

section \<open>Marks\<close>

lemma unmark_one:
  "for_each bs (\<lambda>b. upd_sb b (set_visited False)) h = Some h' \<Longrightarrow> e \<in> set bs \<or> is_visited h e = Some False \<Longrightarrow>
   is_visited h' e = Some False"
proof (induction bs arbitrary: h)
  case (Cons b bs)
  obtain h1 where h1: "upd_sb b (set_visited False) h = Some h1" "for_each bs (\<lambda>b. upd_sb b (set_visited False)) h1 = Some h'"
    using Cons.prems(1) by (auto simp: bind_eq_Some_conv)
  have "e \<in> set bs \<or> is_visited h1 e = Some False"
    using h1(1) Cons.prems(2) by (auto simp: upd_sb_def is_visited_def set_visited_def bind_eq_Some_conv split: if_splits)
  then show ?case using Cons.IH[OF h1(2)] by blast
qed simp

lemma unmark_function:
  "for_each fs (\<lambda>f. upd_fn f (set_fn_visited False)) h = Some h' \<Longrightarrow> e \<in> set fs \<or> fn_visited h e = Some False \<Longrightarrow>
   fn_visited h' e = Some False"
proof (induction fs arbitrary: h)
  case (Cons f fs)
  obtain h1 where h1: "upd_fn f (set_fn_visited False) h = Some h1" "for_each fs (\<lambda>f. upd_fn f (set_fn_visited False)) h1 = Some h'"
    using Cons.prems(1) by (auto simp: bind_eq_Some_conv)
  have "e \<in> set fs \<or> fn_visited h1 e = Some False"
    using h1(1) Cons.prems(2) by (auto simp: upd_fn_def fn_visited_def set_fn_visited_def bind_eq_Some_conv split: if_splits)
  then show ?case using Cons.IH[OF h1(2)] by blast
qed simp

lemma code_kept_refl [simp]: "code_kept g g"
  by (simp add: code_kept_def)

lemma code_kept_mark:
  "code_kept g h \<Longrightarrow> upd_sb b (set_visited v) h = Some h' \<Longrightarrow> code_kept g h'"
  "code_kept g h \<Longrightarrow> upd_fn f (set_fn_visited v) h = Some h' \<Longrightarrow> code_kept g h'"
proof -
  assume g: "code_kept g h" and u: "upd_sb b (set_visited v) h = Some h'"
  obtain sb where "ic_sb h b = Some sb" "h' = h\<lparr>ic_sb := (ic_sb h)(b \<mapsto> set_visited v sb)\<rparr>"
    using u by (auto simp: upd_sb_def bind_eq_Some_conv)
  moreover from this have "map_option sb_instrs (ic_sb h' c) = map_option sb_instrs (ic_sb h c)" for c
    by (simp add: set_visited_def)
  ultimately show "code_kept g h'" using g by (simp add: code_kept_def)
next
  assume g: "code_kept g h" and u: "upd_fn f (set_fn_visited v) h = Some h'"
  obtain fn where "ic_fn h f = Some fn" "h' = h\<lparr>ic_fn := (ic_fn h)(f \<mapsto> set_fn_visited v fn)\<rparr>"
    using u by (auto simp: upd_fn_def bind_eq_Some_conv)
  moreover from this have "map_option (\<lambda>fn. (fn_entry fn, fn_blocks fn)) (ic_fn h' c) =
      map_option (\<lambda>fn. (fn_entry fn, fn_blocks fn)) (ic_fn h c)" for c
    by (simp add: set_fn_visited_def)
  ultimately show "code_kept g h'" using g by (simp add: code_kept_def)
qed

lemma code_kept_unmark:
  "code_kept g h \<Longrightarrow> for_each bs (\<lambda>b. upd_sb b (set_visited v)) h = Some h' \<Longrightarrow> code_kept g h'"
  "code_kept g h \<Longrightarrow> for_each fs (\<lambda>f. upd_fn f (set_fn_visited v)) h = Some h' \<Longrightarrow> code_kept g h'"
  by (erule for_each_inv; (assumption | erule (1) code_kept_mark))+

section \<open>Blocks\<close>

definition block_at :: "icfg \<Rightarrow> location list \<Rightarrow> u64 \<Rightarrow> nat \<Rightarrow> bool" where
  "block_at g L a b \<longleftrightarrow> (\<exists>sb. ic_sb g b = Some sb \<and> laid (\<lambda>lo. lo \<in> set L) a (sb_instrs sb))"

definition blocks_laid :: "icfg \<Rightarrow> location list \<Rightarrow> (nat \<rightharpoonup> u64) \<Rightarrow> bool" where
  "blocks_laid g L bm \<longleftrightarrow> (\<forall>b a. bm b = Some a \<longrightarrow> block_at g L a b)"

text \<open>The functions of \<open>F\<close> are still to be done.\<close>

definition functions_laid :: "icfg \<Rightarrow> location list \<Rightarrow> nat set \<Rightarrow> (nat \<rightharpoonup> u64) \<Rightarrow> bool" where
  "functions_laid g L F fm \<longleftrightarrow> (\<forall>f a. fm f = Some a \<longrightarrow> f \<in> F \<or>
     (\<exists>fn e. ic_fn g f = Some fn \<and> fn_entry fn = Some e \<and> block_at g L a e))"

definition built :: "codegen_env \<Rightarrow> icfg \<Rightarrow> nat set \<Rightarrow> location list \<Rightarrow> codegen \<Rightarrow> bool" where
  "built env g F L st \<longleftrightarrow> cg_inv env g L st \<and> blocks_laid g L (cg_blockMap st) \<and> functions_laid g L F (cg_functionMap st)"

lemma block_at_mono: "block_at g L a b \<Longrightarrow> block_at g (L @ L') a b"
  by (auto simp: block_at_def elim: laid_mono)

lemma laid_mono_all:
  "blocks_laid g L bm \<Longrightarrow> blocks_laid g (L @ L') bm" "functions_laid g L F fm \<Longrightarrow> functions_laid g (L @ L') F fm"
  unfolding blocks_laid_def functions_laid_def using block_at_mono by blast+

lemma cg_inv_page: "cg_inv env g L st \<Longrightarrow> in_page st (next_code st)"
  using places_okD(2) pool_page(2,3) by (auto simp: cg_inv_def in_page_def)

lemma new_block_step:
  assumes inv: "cg_inv env g L st" and nb: "new_block st = (a, st')"
  shows "cg_inv env g L st'" and "next_code st' = a" and "frame st st'" and "unat a mod 16 = 0"
proof -
  let ?n = "next_code st"
  have ok: "places_ok env g L (pending st) st" using inv by (simp add: cg_inv_def)
  note D = places_okD[OF ok] and page = pool_page[OF places_okD(2)[OF ok]]
  note R = new_block_result[OF D(2) nb]
  obtain bs where st': "st' = (poke ?n bs st)\<lparr>cg_pool := (cg_pool (poke ?n bs st))\<lparr>pl_nextInstr := a\<rparr>\<rparr>"
    and bs: "unat ?n + length bs \<le> unat a" using R(1) by blast
  have "settled env g st' x" if x: "x \<in> set L" "x \<notin> pending st" for x
  proof -
    have "code_at (poke ?n bs st) (lo_itext x) (lo_ilen x) = code_at st (lo_itext x) (lo_ilen x)"
      using D(6)[OF x(1)] bs R(2) page by (intro code_at_poke_apart) (simp_all add: lo_end_def)
    then show ?thesis using D(7)[OF x] st' by simp
  qed
  moreover have "lo_end x \<le> unat a" if "x \<in> set L" for x using D(6)[OF that] R(3) by linarith
  ultimately have "places_ok env g L (pending st) st'"
    using ok R(4) st' unfolding places_ok_def by (simp add: in_page_def)
  then show "cg_inv env g L st'" using inv st' by (simp add: cg_inv_def pending_def)
  show "next_code st' = a" "frame st st'" using st' by (simp_all add: frame_def)
  obtain p' where "newBlock arch_fill_with_nops (cg_write st) (cg_pool st) = (a, p')"
    using nb by (auto simp: new_block_def split: prod.splits)
  from newBlock_ok(3)[OF D(2) _ this] show "unat a mod 16 = 0" by simp
qed

lemma new_block_again:
  assumes "unat (next_code st) mod 16 = 0"
  shows "new_block st = (next_code st, st)"
  using assms is_aligned_unat[of 4 "next_code st"] by (simp add: new_block_def newBlock_def Let_def)

lemma map_insert_le: "m \<subseteq>\<^sub>m map_insert k v m"
  by (auto simp: map_insert_def map_le_def split: option.splits)

lemma map_insert_cases: "map_insert k v m x = Some y \<Longrightarrow> m x = Some y \<or> x = k \<and> y = v"
  by (auto simp: map_insert_def split: option.splits if_splits)

lemma map_insert_ran: "y \<in> ran (map_insert k v m) \<Longrightarrow> y = v \<or> y \<in> ran m"
  using map_insert_cases by (fastforce simp: ran_def)

lemma cg_inv_maps:
  assumes inv: "cg_inv env g L st" and le: "cg_functionMap st \<subseteq>\<^sub>m fm" "cg_blockMap st \<subseteq>\<^sub>m bm"
    and page: "\<And>y. y \<in> ran fm \<union> ran bm \<Longrightarrow> in_page st y"
  shows "cg_inv env g L (st\<lparr>cg_functionMap := fm, cg_blockMap := bm\<rparr>)"
proof -
  let ?st = "st\<lparr>cg_functionMap := fm, cg_blockMap := bm\<rparr>"
  have "settled env g ?st lo" if "settled env g st lo" for lo using place_code_mono[OF that le] by simp
  moreover have "in_page ?st y" if "y \<in> ran fm \<union> ran bm" for y using page[OF that] by (simp add: in_page_def)
  moreover have "pending ?st = pending st" by (simp add: pending_def)
  ultimately show ?thesis using inv by (auto simp: cg_inv_def places_ok_def)
qed

lemma cg_inv_block:
  assumes inv: "cg_inv env g L st" and a: "in_page st a"
  shows "cg_inv env g L (st\<lparr>cg_blockMap := map_insert b a (cg_blockMap st)\<rparr>)"
proof -
  have "in_page st y" if "y \<in> ran (cg_functionMap st) \<union> ran (map_insert b a (cg_blockMap st))" for y
    using that map_insert_ran[of y b a "cg_blockMap st"] a inv by (auto simp: cg_inv_def places_ok_def)
  from cg_inv_maps[OF inv map_le_refl map_insert_le this] show ?thesis by simp
qed

lemma cg_inv_function:
  assumes inv: "cg_inv env g L st" and a: "in_page st a"
  shows "cg_inv env g L (st\<lparr>cg_functionMap := map_insert b a (cg_functionMap st)\<rparr>)"
proof -
  have "in_page st y" if "y \<in> ran (map_insert b a (cg_functionMap st)) \<union> ran (cg_blockMap st)" for y
    using that map_insert_ran[of y b a "cg_functionMap st"] a inv by (auto simp: cg_inv_def places_ok_def)
  from cg_inv_maps[OF inv map_insert_le map_le_refl this] show ?thesis by simp
qed

lemma block_step:
  assumes os: "os_ok (ge_os env)" and h: "code_kept g h" and bt: "built env g F L st"
    and step: "cg_block env b (st, h) = Some (stop, st', h')"
  shows "\<exists>L'. built env g F (L @ L') st' \<and> block_at g (L @ L') (fst (new_block st)) b"
    and "h' = h" "\<not> stop" "cg_functionMap st' = cg_functionMap st" "first_code st' = first_code st"
proof -
  obtain sb where sb: "ic_sb h b = Some sb" using step by (auto simp: cg_block_def bind_eq_Some_conv)
  obtain a st1 where nb: "new_block st = (a, st1)" by (cases "new_block st")
  define st2 where st2: "st2 = st1\<lparr>cg_blockMap := map_insert b a (cg_blockMap st1)\<rparr>"
  have each: "for_each (sb_instrs sb) (cg_instruction env h) st2 = Some st'" and h': "h' = h" "\<not> stop"
    using step sb nb
    by (auto simp: cg_block_def Let_def drob_assert_def st2 bind_eq_Some_conv split: if_splits)
  have inv: "cg_inv env g L st" using bt by (simp add: built_def)
  note N = new_block_step[OF inv nb]
  have "in_page st1 a" using cg_inv_page[OF N(1)] N(2) by simp
  then have inv2: "cg_inv env g L st2" unfolding st2 by (rule cg_inv_block[OF N(1)])
  obtain L' where L': "cg_inv env g (L @ L') st'" "laid (\<lambda>lo. lo \<in> set L') (next_code st2) (sb_instrs sb)" "frame st2 st'"
    using instructions_step[OF os h inv2 each] by blast
  obtain sb' where sb': "ic_sb g b = Some sb'" "sb_instrs sb' = sb_instrs sb"
    using h sb unfolding code_kept_def by (metis map_option_eq_Some)
  have new: "block_at g (L @ L') a b" unfolding block_at_def
    using sb' laid_mono[OF L'(2), of "\<lambda>lo. lo \<in> set (L @ L')"] N(2) st2 by auto
  have fr: "cg_functionMap st' = cg_functionMap st" "cg_blockMap st' = map_insert b a (cg_blockMap st)"
    "first_code st' = first_code st"
    using L'(3) N(3) st2 by (simp_all add: frame_def)
  have "blocks_laid g (L @ L') (cg_blockMap st')"
    using new laid_mono_all(1)[of g L "cg_blockMap st" L'] bt map_insert_cases unfolding blocks_laid_def built_def fr
    by blast
  then have "built env g F (L @ L') st'"
    using L'(1) laid_mono_all(2)[of g L F "cg_functionMap st" L'] bt fr by (simp add: built_def)
  then show "\<exists>L'. built env g F (L @ L') st' \<and> block_at g (L @ L') (fst (new_block st)) b" using new nb by auto
  show "h' = h" "\<not> stop" "cg_functionMap st' = cg_functionMap st" "first_code st' = first_code st"
    using h' fr by simp_all
qed

section \<open>Fixing what is pending\<close>

lemma fix_branches:
  assumes h: "code_kept g h"
  shows "places_ok env g L (set rs \<union> C) st \<Longrightarrow> \<forall>lo \<in> set rs. branch_place g lo \<Longrightarrow>
    for_each rs (fixup_branch h) st = Some st' \<Longrightarrow>
    places_ok env g L C st' \<and> frame st st' \<and> cg_calls st' = cg_calls st"
proof (induction rs arbitrary: st)
  case (Cons lo rs)
  obtain st1 where st1: "fixup_branch h lo st = Some st1" "for_each rs (fixup_branch h) st1 = Some st'"
    using Cons.prems(3) by (auto simp: bind_eq_Some_conv)
  obtain i e where i: "ic_is g (lo_instr lo) = Some i" "branch_to i = Some e"
    using Cons.prems(2) by (auto simp: branch_place_def)
  then have e: "is_branchEdge i = Some e" by (simp add: branch_to_def split: if_splits)
  have w: "cg_write st" using places_okD(1)[OF Cons.prems(1)] .
  obtain ed t where ed: "ic_be g e = Some ed" "cg_blockMap st (be_dst ed) = Some t"
    "arch_fixup_branch (in_opcode (is_ins i)) lo t True st = Some st1"
    using st1(1) h i e w by (auto simp: fixup_branch_def code_kept_def bind_eq_Some_conv)
  have lo: "lo \<in> set (lo # rs) \<union> C" by simp
  note F = fixup_branch_filled[OF Cons.prems(1) lo ed(2) i ed(1,3)]
  have "places_ok env g L (set rs \<union> C) st1"
    by (rule places_settle[OF filled_places[OF F(1) Cons.prems(1) lo] F(2)]) auto
  from Cons.IH[OF this _ st1(2)] Cons.prems(2) filled_fields[OF F(1)] show ?case by (simp add: frame_def)
qed (simp add: frame_def)

lemma fix_calls:
  assumes h: "code_kept g h"
  shows "places_ok env g L (set rs \<union> C) st \<Longrightarrow> \<forall>lo \<in> set rs. call_place g lo \<Longrightarrow>
    for_each rs (fixup_call h) st = Some st' \<Longrightarrow> places_ok env g L C st' \<and> frame st st'"
proof (induction rs arbitrary: st)
  case (Cons lo rs)
  obtain st1 where st1: "fixup_call h lo st = Some st1" "for_each rs (fixup_call h) st1 = Some st'"
    using Cons.prems(3) by (auto simp: bind_eq_Some_conv)
  obtain i e where i: "ic_is g (lo_instr lo) = Some i" "branch_to i = None" "isCall i" "is_callEdge i = Some e"
    using Cons.prems(2) by (auto simp: call_place_def)
  have w: "cg_write st" using places_okD(1)[OF Cons.prems(1)] .
  obtain ed t where ed: "ic_ce g e = Some ed" "cg_functionMap st (ce_dst ed) = Some t"
    "arch_fixup_call lo t True st = Some st1"
    using st1(1) h i w by (auto simp: fixup_call_def code_kept_def bind_eq_Some_conv)
  have lo: "lo \<in> set (lo # rs) \<union> C" by simp
  note F = fixup_call_filled[OF Cons.prems(1) lo ed(2) i ed(1,3)]
  have "places_ok env g L (set rs \<union> C) st1"
    by (rule places_settle[OF filled_places[OF F(1) Cons.prems(1) lo] F(2)]) auto
  from Cons.IH[OF this _ st1(2)] Cons.prems(2) filled_fields[OF F(1)] show ?case by (simp add: frame_def)
qed (simp add: frame_def)

section \<open>Functions\<close>

text \<open>What the traversal of a function keeps; the blocks of \<open>X\<close> are laid where \<open>X\<close> says.\<close>

definition in_function :: "codegen_env \<Rightarrow> icfg \<Rightarrow> nat set \<Rightarrow> codegen \<Rightarrow> (u64 \<times> nat) set \<Rightarrow> codegen \<times> icfg \<Rightarrow> bool" where
  "in_function env g F st0 X s \<longleftrightarrow> code_kept g (snd s) \<and>
     (\<exists>L. built env g F L (fst s) \<and> (\<forall>(a, b) \<in> X. block_at g L a b)) \<and>
     cg_functionMap (fst s) = cg_functionMap st0 \<and> first_code (fst s) = first_code st0"

lemma in_function_block:
  assumes os: "os_ok (ge_os env)" and s: "in_function env g F st0 X (st, h)"
    and step: "cg_block env b (st, h) = Some (stop, s')"
  shows "in_function env g F st0 (insert (fst (new_block st), b) X) s'" and "\<not> stop"
proof -
  obtain st' h' where s': "s' = (st', h')" by (cases s')
  obtain L where L: "code_kept g h" "built env g F L st" "\<forall>(a, b) \<in> X. block_at g L a b"
    "cg_functionMap st = cg_functionMap st0" "first_code st = first_code st0"
    using s by (auto simp: in_function_def)
  note B = block_step[OF os L(1,2) step[unfolded s']]
  obtain L' where L': "built env g F (L @ L') st'" "block_at g (L @ L') (fst (new_block st)) b" using B(1) by blast
  moreover have "\<forall>(a, b) \<in> X. block_at g (L @ L') a b" using L(3) block_at_mono by blast
  ultimately show "in_function env g F st0 (insert (fst (new_block st), b) X) s'"
    using L B s' unfolding in_function_def by auto
  show "\<not> stop" by (rule B(3))
qed

lemma in_function_weaken: "in_function env g F st0 X s \<Longrightarrow> Y \<subseteq> X \<Longrightarrow> in_function env g F st0 Y s"
  unfolding in_function_def by blast

lemma in_function_walk:
  assumes os: "os_ok (ge_os env)" and s: "in_function env g F st0 X s"
    and walk: "walk push (cg_block env) cur ws s = Some r"
  shows "in_function env g F st0 X (snd r)"
proof (rule walk_keeps[where I = "in_function env g F st0 X", OF walk s])
  fix b x h h' assume "in_function env g F st0 X (x, h)" "upd_sb b (set_visited True) h = Some h'"
  then show "in_function env g F st0 X (x, h')" using code_kept_mark(1) by (auto simp: in_function_def)
next
  fix b s s' stop assume s: "in_function env g F st0 X s" "cg_block env b s = Some (stop, s')"
  obtain st h where "s = (st, h)" by (cases s)
  then show "in_function env g F st0 X s'"
    using in_function_block(1)[OF os, of g F st0 X st h b stop s'] s by (blast intro: in_function_weaken)
qed

text \<open>The entry block of a function is one of its blocks, the entry function one of the graph.\<close>

definition entries_in :: "icfg \<Rightarrow> bool" where
  "entries_in g \<longleftrightarrow> (\<forall>f fn e. ic_fn g f = Some fn \<longrightarrow> fn_entry fn = Some e \<longrightarrow> e \<in> set (fn_blocks fn)) \<and>
     (\<forall>f. ic_entry g = Some f \<longrightarrow> f \<in> set (ic_functions g))"

lemma code_kept_function:
  assumes "code_kept g h" and "ic_fn h f = Some fn"
  shows "\<exists>fn'. ic_fn g f = Some fn' \<and> fn_entry fn' = fn_entry fn \<and> fn_blocks fn' = fn_blocks fn"
proof -
  have "map_option (\<lambda>fn. (fn_entry fn, fn_blocks fn)) (ic_fn h f) = map_option (\<lambda>fn. (fn_entry fn, fn_blocks fn)) (ic_fn g f)"
    using assms(1) unfolding code_kept_def by blast
  then show ?thesis using assms(2) by (cases "ic_fn g f") auto
qed

text \<open>The blocks of a function: its entry block comes first, where the function begins.\<close>

lemma function_blocks:
  assumes os: "os_ok (ge_os env)" and en: "entries_in g" and s: "in_function env g F st X (st, h)"
    and a: "unat (next_code st) mod 16 = 0" and fn: "ic_fn h f = Some fn" "fn_entry fn = Some e"
    and walk: "for_each_block_dfs f (cg_block env) (st, h) = Some (stop, s')"
  shows "in_function env g F st (insert (next_code st, e) X) s'"
proof -
  obtain v h1 where v: "is_visited h e = Some v" and h1: "(if v then mark_all_blocks f False h else Some h) = Some h1"
    and w: "walk push_dfs (cg_block env) None [e] (st, h1) = Some (stop, s')"
    using walk fn by (auto simp: for_each_block_dfs_def walk_function_def bind_eq_Some_conv cong: if_cong)
  have same: "code_kept g h" using s by (simp add: in_function_def)
  have "e \<in> set (fn_blocks fn)" using en fn code_kept_function[OF same fn(1)] unfolding entries_in_def by metis
  then have u: "is_visited h1 e = Some False" and same1: "code_kept g h1"
    using h1 v fn same unmark_one[of "fn_blocks fn" h h1 e] code_kept_unmark(1)[of g h "fn_blocks fn" False h1]
    by (auto simp: mark_all_blocks_def split: if_splits)
  obtain h2 stop2 s2 where s2: "upd_sb e (set_visited True) h1 = Some h2" "cg_block env e (st, h2) = Some (stop2, s2)"
    "if stop2 then (stop, s') = (True, s2) else \<exists>cur ws. walk push_dfs (cg_block env) cur ws s2 = Some (stop, s')"
    using walk_first[OF w u] by blast
  have "in_function env g F st X (st, h2)"
    using s code_kept_mark(1)[OF same1 s2(1)] by (simp add: in_function_def)
  note B = in_function_block[OF os this s2(2)]
  have "in_function env g F st (insert (next_code st, e) X) s2" using B(1) new_block_again[OF a] by simp
  moreover obtain cur ws where "walk push_dfs (cg_block env) cur ws s2 = Some (stop, s')" using s2(3) B(2) by auto
  ultimately show ?thesis using in_function_walk[OF os] by fastforce
qed

lemma function_step:
  assumes os: "os_ok (ge_os env)" and en: "entries_in g" and h: "code_kept g h" and bt: "built env g {} L st"
    and br: "cg_branches st = []" and step: "cg_function env f (st, h) = Some (stop, st', h')"
  shows "\<exists>L. built env g {} L st'" and "code_kept g h'" and "cg_branches st' = []" and "\<not> stop"
    and "cg_functionMap st' = map_insert f (fst (new_block st)) (cg_functionMap st)"
    and "first_code st' = first_code st"
proof -
  obtain fn e where fn: "ic_fn h f = Some fn" "fn_entry fn = Some e"
    using step by (auto simp: cg_function_def drob_assert_def bind_eq_Some_conv split: if_splits)
  obtain a st1 where nb: "new_block st = (a, st1)" by (cases "new_block st")
  define st2 where st2: "st2 = st1\<lparr>cg_functionMap := map_insert f a (cg_functionMap st1)\<rparr>"
  obtain x st3 h3 st4 where walk: "for_each_block_dfs f (cg_block env) (st2, h) = Some (x, st3, h3)"
    and fixd: "for_each (cg_branches st3) (fixup_branch h3) st3 = Some st4"
    and out: "\<not> stop" "st' = st4\<lparr>cg_branches := []\<rparr>" "h' = h3"
    using step fn nb
    by (auto simp: cg_function_def Let_def drob_assert_def st2 bind_eq_Some_conv split: if_splits)
  have inv: "cg_inv env g L st" using bt by (simp add: built_def)
  note N = new_block_step[OF inv nb]
  have "in_page st1 a" using cg_inv_page[OF N(1)] N(2) by simp
  then have inv2: "cg_inv env g L st2" unfolding st2 by (rule cg_inv_function[OF N(1)])
  have bt2: "built env g {f} L st2"
    using bt inv2 N(3) st2 map_insert_cases unfolding built_def functions_laid_def frame_def by fastforce
  have nx: "next_code st2 = a" "unat (next_code st2) mod 16 = 0" using N(2,4) st2 by simp_all
  obtain fn' where fn': "ic_fn g f = Some fn'" "fn_entry fn' = Some e" using code_kept_function[OF h fn(1)] fn(2) by auto
  let ?X = "{(y, e) | y. cg_functionMap st f = Some y}"
  have "\<forall>(y, b) \<in> ?X. block_at g L y b" using bt fn' by (fastforce simp: built_def functions_laid_def)
  then have "in_function env g {f} st2 ?X (st2, h)" using h bt2 unfolding in_function_def by auto
  from function_blocks[OF os en this nx(2) fn walk]
  have w: "in_function env g {f} st2 (insert (a, e) ?X) (st3, h3)" using nx(1) by simp
  then obtain M where M: "code_kept g h3" "built env g {f} M st3" "block_at g M a e"
    "cg_functionMap st3 = cg_functionMap st2" "first_code st3 = first_code st2"
    "\<And>y. cg_functionMap st f = Some y \<Longrightarrow> block_at g M y e"
    by (auto simp: in_function_def)
  then have "places_ok env g M (set (cg_branches st3) \<union> set (cg_calls st3)) st3" "\<forall>lo \<in> set (cg_branches st3). branch_place g lo"
    by (simp_all add: built_def cg_inv_def pending_def)
  note X = fix_branches[OF M(1) this fixd]
  have fm: "cg_functionMap st' = map_insert f a (cg_functionMap st)" "cg_blockMap st' = cg_blockMap st3"
    "first_code st' = first_code st"
    using X M(4,5) N(3) out st2 by (simp_all add: frame_def)
  have "places_ok env g M (pending st') st'" using X out by (simp add: pending_def places_ok_def in_page_def)
  then have inv': "cg_inv env g M st'" using M(2) X out by (simp add: cg_inv_def built_def)
  have "block_at g M y e" if "cg_functionMap st' f = Some y" for y
    using that fm(1) M(3,6) map_insert_cases by metis
  moreover have "functions_laid g M {f} (cg_functionMap st')" using M(2,4) fm(1) st2 N(3) by (simp add: built_def frame_def)
  ultimately have "functions_laid g M {} (cg_functionMap st')" using fn' unfolding functions_laid_def by blast
  then have "built env g {} M st'" using inv' M(2) fm(2) by (simp add: built_def)
  then show "\<exists>L. built env g {} L st'" by blast
  show "code_kept g h'" "cg_branches st' = []" "\<not> stop" using M(1) out by simp_all
  show "cg_functionMap st' = map_insert f (fst (new_block st)) (cg_functionMap st)" "first_code st' = first_code st"
    using fm nb by simp_all
qed

section \<open>The graph\<close>

text \<open>
  The generated code: of every block and every function with an address, and of everything
  these branch to or call.
\<close>

definition generated :: "codegen_env \<Rightarrow> icfg \<Rightarrow> codegen \<Rightarrow> bool" where
  "generated env g st \<longleftrightarrow>
     (\<forall>b a. cg_blockMap st b = Some a \<longrightarrow> (\<exists>sb. ic_sb g b = Some sb \<and> laid (settled env g st) a (sb_instrs sb))) \<and>
     (\<forall>f a. cg_functionMap st f = Some a \<longrightarrow>
        (\<exists>fn e sb. ic_fn g f = Some fn \<and> fn_entry fn = Some e \<and> ic_sb g e = Some sb \<and> laid (settled env g st) a (sb_instrs sb)))"

lemma places_generated:
  assumes ok: "places_ok env g L {} st" and bl: "blocks_laid g L (cg_blockMap st)"
    and fl: "functions_laid g L {} (cg_functionMap st)"
  shows "generated env g st"
proof -
  have "laid (settled env g st) a is" if "laid (\<lambda>lo. lo \<in> set L) a is" for a "is"
    by (rule laid_mono[OF that], rule places_okD(7)[OF ok]) simp_all
  then have at: "\<exists>sb. ic_sb g b = Some sb \<and> laid (settled env g st) a (sb_instrs sb)" if "block_at g L a b" for a b
    using that by (auto simp: block_at_def)
  show ?thesis unfolding generated_def
  proof (intro conjI allI impI)
    fix b a assume "cg_blockMap st b = Some a"
    then show "\<exists>sb. ic_sb g b = Some sb \<and> laid (settled env g st) a (sb_instrs sb)"
      using at bl by (simp add: blocks_laid_def)
  next
    fix f a assume "cg_functionMap st f = Some a"
    then obtain fn e where "ic_fn g f = Some fn" "fn_entry fn = Some e" "block_at g L a e"
      using fl by (fastforce simp: functions_laid_def)
    then show "\<exists>fn e sb. ic_fn g f = Some fn \<and> fn_entry fn = Some e \<and> ic_sb g e = Some sb \<and> laid (settled env g st) a (sb_instrs sb)"
      using at by blast
  qed
qed

definition in_graph :: "codegen_env \<Rightarrow> icfg \<Rightarrow> u64 \<Rightarrow> (nat \<rightharpoonup> u64) \<Rightarrow> codegen \<times> icfg \<Rightarrow> bool" where
  "in_graph env g s0 fm s \<longleftrightarrow> code_kept g (snd s) \<and> (\<exists>L. built env g {} L (fst s)) \<and> cg_branches (fst s) = [] \<and>
     first_code (fst s) = s0 \<and> fm \<subseteq>\<^sub>m cg_functionMap (fst s)"

lemma in_graph_function:
  assumes os: "os_ok (ge_os env)" and en: "entries_in g" and s: "in_graph env g s0 fm (st, h)"
    and step: "cg_function env f (st, h) = Some (stop, s')"
  shows "in_graph env g s0 fm s'" and "\<not> stop"
    and "cg_functionMap st = Map.empty \<Longrightarrow> in_graph env g s0 [f \<mapsto> fst (new_block st)] s'"
proof -
  obtain st' h' where s': "s' = (st', h')" by (cases s')
  obtain L where L: "code_kept g h" "built env g {} L st" "cg_branches st = []" "first_code st = s0" "fm \<subseteq>\<^sub>m cg_functionMap st"
    using s by (auto simp: in_graph_def)
  note S = function_step[OF os en L(1-3) step[unfolded s']]
  have le: "fm \<subseteq>\<^sub>m cg_functionMap st'" using L(5) map_insert_le[of "cg_functionMap st"] S(5) map_le_trans by metis
  show "in_graph env g s0 fm s'" using S L(4) s' le by (simp add: in_graph_def)
  show "\<not> stop" by (rule S(4))
  assume "cg_functionMap st = Map.empty"
  then have "cg_functionMap st' = [f \<mapsto> fst (new_block st)]" using S(5) by (simp add: map_insert_def)
  then show "in_graph env g s0 [f \<mapsto> fst (new_block st)] s'" using S L(4) s' by (simp add: in_graph_def)
qed

lemma in_graph_walk:
  assumes os: "os_ok (ge_os env)" and en: "entries_in g" and s: "in_graph env g s0 fm s"
    and walk: "walk_functions push asked (cg_function env) ws s = Some r"
  shows "in_graph env g s0 fm (snd r)"
proof (rule walk_functions_keeps[where I = "in_graph env g s0 fm", OF walk s])
  fix f x h h' assume "in_graph env g s0 fm (x, h)" "upd_fn f (set_fn_visited True) h = Some h'"
  then show "in_graph env g s0 fm (x, h')" using code_kept_mark(2) by (auto simp: in_graph_def)
next
  fix f s s' stop assume s: "in_graph env g s0 fm s" "cg_function env f s = Some (stop, s')"
  obtain st h where "s = (st, h)" by (cases s)
  then show "in_graph env g s0 fm s'" using in_graph_function(1)[OF os en] s by blast
qed

text \<open>The entry function is the first, at the start of the pool.\<close>

lemma graph_functions:
  assumes os: "os_ok (ge_os env)" and en: "entries_in g" and s: "in_graph env g s0 Map.empty (st, g)"
    and fm: "cg_functionMap st = Map.empty" and nx: "next_code st = s0" and a: "unat s0 mod 16 = 0"
    and ent: "ic_entry g = Some f" and walk: "for_each_function_dfs (cg_function env) (st, g) = Some r"
  shows "in_graph env g s0 [f \<mapsto> s0] (snd r)"
proof -
  obtain v h1 where v: "fn_visited g f = Some v" and h1: "(if v then mark_all_functions False g else Some g) = Some h1"
    and w: "walk_functions push_dfs (\<lambda>f d. d) (cg_function env) [f] (st, h1) = Some r"
    using walk ent by (auto simp: for_each_function_dfs_def walk_icfg_def bind_eq_Some_conv cong: if_cong)
  have "f \<in> set (ic_functions g)" using en ent by (simp add: entries_in_def)
  then have u: "fn_visited h1 f = Some False" and same1: "code_kept g h1"
    using h1 v unmark_function[of "ic_functions g" g h1 f] code_kept_unmark(2)[of g g "ic_functions g" False h1]
    by (auto simp: mark_all_functions_def split: if_splits)
  obtain h2 stop s2 where s2: "upd_fn f (set_fn_visited True) h1 = Some h2" "cg_function env f (st, h2) = Some (stop, s2)"
    "if stop then r = (True, s2) else \<exists>ws. walk_functions push_dfs (\<lambda>f d. d) (cg_function env) ws s2 = Some r"
    using walk_functions_first[OF w u] by blast
  have "in_graph env g s0 Map.empty (st, h2)" using s code_kept_mark(2)[OF same1 s2(1)] by (simp add: in_graph_def)
  note F = in_graph_function[OF os en this s2(2)]
  have "fst (new_block st) = s0" using new_block_again[of st] nx a by simp
  then have "in_graph env g s0 [f \<mapsto> s0] s2" using F(3)[OF fm] by simp
  moreover obtain ws where "walk_functions push_dfs (\<lambda>f d. d) (cg_function env) ws s2 = Some r" using s2(3) F(2) by auto
  ultimately show ?thesis by (rule in_graph_walk[OF os en])
qed

lemma generated_run:
  assumes os: "os_ok (ge_os env)" and pool: "pool_ok (cg_pool st)" and en: "entries_in g" and ent: "ic_entry g = Some f"
    and st: "cg_write st" "cg_functionMap st = Map.empty" "cg_blockMap st = Map.empty" "cg_branches st = []" "cg_calls st = []"
    and run: "cg_generate env (st, g) = Some (st', g')"
  shows "generated env g st'" and "cg_functionMap st' f = Some (first_code st)"
proof -
  obtain p x st1 where p: "resetCodePool (ge_os env) (cg_pool st) = Some p"
    and walk: "for_each_function_dfs (cg_function env) (st\<lparr>cg_pool := p\<rparr>, g) = Some (x, st1, g')"
    and calls: "for_each (cg_calls st1) (fixup_call g') st1 = Some st'"
    using run by (auto simp: cg_generate_def bind_eq_Some_conv)
  have pok: "pool_ok p" by (rule resets_keep_ok(1)[OF pool p])
  have pf: "pl_nextInstr p = first_code st" "pl_start p = first_code st"
    using resets_keep_ok(5)[OF pool p] by simp_all
  have "unat (first_code st) mod 4096 = 0" using pool by (simp add: pool_ok_def pool_area_def)
  then have a: "unat (first_code st) mod 16 = 0" using mod_mod_cancel[of 16 4096 "unat (first_code st)"] by simp
  have "built env g {} [] (st\<lparr>cg_pool := p\<rparr>)"
    using st pok by (simp add: built_def cg_inv_def places_ok_def in_order_def pending_def blocks_laid_def functions_laid_def)
  then have "in_graph env g (first_code st) Map.empty (st\<lparr>cg_pool := p\<rparr>, g)" using st pf by (auto simp: in_graph_def)
  from graph_functions[OF os en this _ _ a ent walk] have "in_graph env g (first_code st) [f \<mapsto> first_code st] (st1, g')"
    using st pf by simp
  then obtain L where L: "code_kept g g'" "built env g {} L st1" "cg_branches st1 = []" "[f \<mapsto> first_code st] \<subseteq>\<^sub>m cg_functionMap st1"
    by (auto simp: in_graph_def)
  then have "places_ok env g L (set (cg_calls st1) \<union> {}) st1" "\<forall>lo \<in> set (cg_calls st1). call_place g lo"
    by (simp_all add: built_def cg_inv_def pending_def)
  note C = fix_calls[OF L(1) this calls]
  show "generated env g st'"
    using places_generated[of env g L st'] C L(2) by (simp add: built_def frame_def)
  show "cg_functionMap st' f = Some (first_code st)" using L(4) C by (simp add: frame_def map_le_def)
qed

section \<open>Branches on RCX\<close>

text \<open>
  The long form: what the jump at its end reads as. The prefix is lost and the displacement is
  that of an instruction one byte further on.
\<close>

lemma code_at_drop:
  "k \<le> n \<Longrightarrow> code_at st (a + of_nat k) (n - k) = drop k (code_at st a n)"
  by (rule nth_equalityI) (simp_all add: host_bytes_def algebra_simps less_diff_conv)

lemma jcxz_long:
  assumes fx: "arch_fixup_branch (Jcc x) lo t True st = Some st'" and x: "x = JCXZ32a \<or> x = JCXZ64a"
    and long: "lo_instr lo \<notin> cg_short st"
    and near: "scast (disp32 t (lo_itext lo + 5 + 5)) = t - (lo_itext lo + 5 + 5)"
  shows "take 4 (code_at st' (lo_itext lo) 9) = [0xe3, 2, 0xeb, 5]"
    and "read_transfer (lo_itext lo + 4) (code_at st' (lo_itext lo + 4) 5) = Some (ToJump, t - 1)"
proof -
  let ?bs = "[0xe3, 2, 0xeb, 5, 0xe9] @ le_bytes 4 (disp32 t (lo_itext lo + 5 + 5))"
  obtain st1 where "st' = poke (lo_itext lo) ?bs st1"
    using fx x long by (auto simp: arch_fixup_branch_def fixupSpecialCondBranch_def Let_def drob_assert_def split: if_splits)
  then have c: "code_at st' (lo_itext lo) 9 = ?bs" using code_at_poke[of ?bs "lo_itext lo" st1] by simp
  then show "take 4 (code_at st' (lo_itext lo) 9) = [0xe3, 2, 0xeb, 5]" by simp
  have "code_at st' (lo_itext lo + 4) 5 = 0xe9 # le_bytes 4 (disp32 t (lo_itext lo + 5 + 5))"
    using code_at_drop[of 4 9 st' "lo_itext lo"] c by simp
  then show "read_transfer (lo_itext lo + 4) (code_at st' (lo_itext lo + 4) 5) = Some (ToJump, t - 1)"
    using near by (simp add: read_transfer_jump)
qed

lemma jcxz_short:
  assumes fx: "arch_fixup_branch (Jcc JCXZ64a) lo t True st = Some st'" and short: "lo_instr lo \<in> cg_short st"
  shows "code_at st' (lo_itext lo) 3 = [0xe3, ucast (disp32 t (lo_itext lo + 3)), pl_mem (cg_pool st) (lo_itext lo + 2)]"
proof -
  have "st' = poke (lo_itext lo) [0xe3, ucast (disp32 t (lo_itext lo + 3))] (poke (lo_itext lo) [0x67] st)"
    using fx short by (simp add: arch_fixup_branch_def fixupSpecialCondBranch_def Let_def drob_assert_def split: if_splits)
  then show ?thesis by (simp add: host_bytes_def upt_rec poke_def write_bytes_def)
qed

end
