(* ===== verification/Liveness.thy ===== *)
theory Liveness
  imports Icfg_Ops
begin

text \<open>
  The liveness analysis (\<open>src/passes/LivenessAnalysisPass.hpp\<close>): the registers that may still
  be read, computed backwards over the instructions of a block and over the edges of a
  function until nothing changes.
\<close>

section \<open>One instruction\<close>

record flow_info =
  fi_read :: mask
  fi_written :: mask
  fi_condWritten :: mask
  fi_predicate :: mask
  fi_willExecute :: tristate
  fi_mayWriteMem :: bool

text \<open>The evaluated information when there is some, otherwise what is known of the opcode.\<close>

definition flow_info_of :: "instr \<Rightarrow> flow_info option" where
  "flow_info_of i =
     (case is_dynInfo i of
        Some d \<Rightarrow> Some \<lparr>fi_read = di_readRegs d, fi_written = di_writtenRegs d, fi_condWritten = di_condWrittenRegs d,
          fi_predicate = di_predicateRegs d, fi_willExecute = di_willExecute d, fi_mayWriteMem = di_mayWriteMem d\<rparr>
      | None \<Rightarrow>
          do { info \<leftarrow> getInfo (is_ins i);
               Some \<lparr>fi_read = ii_readRegs info, fi_written = ii_writtenRegs info, fi_condWritten = ii_condWrittenRegs info,
                 fi_predicate = ii_predicateRegs info,
                 fi_willExecute = (if getPredicate i \<noteq> None then TUnknown else TTrue),
                 fi_mayWriteMem = ii_mayWriteMem info\<rparr> })"

text \<open>An instruction that writes no memory and no live register, and is not control flow.\<close>

definition is_dead :: "instr \<Rightarrow> flow_info \<Rightarrow> mask \<Rightarrow> bool" where
  "is_dead i fi live \<longleftrightarrow>
     \<not> isBranch i \<and> \<not> isCall i \<and> \<not> isRet i \<and> \<not> fi_mayWriteMem fi \<and>
     mask_eq (mask_sub (mask_sub live (fi_written fi)) (fi_condWritten fi)) live"

text \<open>What is live at the target of a branch, as far as it is known.\<close>

definition branch_live :: "icfg \<Rightarrow> instr \<Rightarrow> mask \<Rightarrow> mask option" where
  "branch_live g i l =
     (if isBranch i then
        (case is_branchEdge i of
           Some e \<Rightarrow> do { ed \<leftarrow> ic_be g e; db \<leftarrow> ic_sb g (be_dst ed);
                          Some (case sb_liveness db of Some d \<Rightarrow> mask_add l (ld_in d) | None \<Rightarrow> l) }
         | None \<Rightarrow> Some mask_fill)
      else Some l)"

definition live_before :: "mask \<Rightarrow> icfg \<Rightarrow> instr \<Rightarrow> flow_info \<Rightarrow> mask \<Rightarrow> mask option" where
  "live_before live_ret g i fi live =
     do { l \<leftarrow> (case fi_willExecute fi of
               TFalse \<Rightarrow> Some live
             | x \<Rightarrow>
                 do { let l = (if x = TTrue then mask_sub live (fi_written fi) else live);
                      let l = mask_add l (fi_read fi);
                      let l = (if isRet i then live_ret else l);
                      let l = (if isCall i then mask_fill else l);
                      branch_live g i l });
          Some (mask_add l (fi_predicate fi)) }"

definition set_is_liveness :: "liveness_data option \<Rightarrow> instr \<Rightarrow> instr" where
  "set_is_liveness d i = i\<lparr>is_liveness := d\<rparr>"

definition processInstruction :: "mask \<Rightarrow> nat \<Rightarrow> mask \<Rightarrow> icfg \<Rightarrow> (mask \<times> icfg) option" where
  "processInstruction live_ret a live g =
     do { i \<leftarrow> ic_is g a;
          fi \<leftarrow> flow_info_of i;
          if is_dead i fi live then
            do { g \<leftarrow> upd_is a (set_is_liveness None) g; Some (live, g) }
          else
            do { live_in \<leftarrow> live_before live_ret g i fi live;
                 g \<leftarrow> upd_is a (set_is_liveness (Some \<lparr>ld_out = live, ld_in = live_in\<rparr>)) g;
                 Some (live_in, g) } }"

text \<open>The instructions of a block, from the last to the first.\<close>

primrec process_instructions :: "mask \<Rightarrow> nat list \<Rightarrow> mask \<Rightarrow> icfg \<Rightarrow> (mask \<times> icfg) option" where
  "process_instructions live_ret [] live g = Some (live, g)"
| "process_instructions live_ret (a # as) live g =
     do { (live, g) \<leftarrow> processInstruction live_ret a live g; process_instructions live_ret as live g }"

section \<open>One block\<close>

text \<open>The pass keeps a queue of blocks; a block knows whether it is in it.\<close>

type_synonym live_pass = "nat list \<times> icfg"

definition set_queued :: "bool \<Rightarrow> super_block \<Rightarrow> super_block" where
  "set_queued q sb = sb\<lparr>sb_node := (sb_node sb)\<lparr>nd_queued := q\<rparr>\<rparr>"

definition set_livenessValid :: "bool \<Rightarrow> super_block \<Rightarrow> super_block" where
  "set_livenessValid v sb = sb\<lparr>sb_node := (sb_node sb)\<lparr>nd_livenessValid := v\<rparr>\<rparr>"

definition set_sb_liveness :: "liveness_data option \<Rightarrow> super_block \<Rightarrow> super_block" where
  "set_sb_liveness d sb = sb\<lparr>sb_liveness := d\<rparr>"

definition enqueue :: "nat \<Rightarrow> live_pass \<Rightarrow> live_pass option" where
  "enqueue b = (\<lambda>(q, g). do { g \<leftarrow> upd_sb b (set_queued True) g; Some (q @ [b], g) })"

text \<open>A predecessor is analysed again when the entry of the block has changed.\<close>

definition requeue :: "bool \<Rightarrow> nat \<Rightarrow> live_pass \<Rightarrow> live_pass option" where
  "requeue changed p = (\<lambda>(q, g).
     do { g \<leftarrow> (if changed then upd_sb p (set_livenessValid False) g else Some g);
          pb \<leftarrow> ic_sb g p;
          if \<not> nd_livenessValid (sb_node pb) \<and> \<not> nd_queued (sb_node pb) then enqueue p (q, g) else Some (q, g) })"

definition requeue_edge :: "bool \<Rightarrow> nat \<Rightarrow> live_pass \<Rightarrow> live_pass option" where
  "requeue_edge changed e = (\<lambda>(q, g). do { ed \<leftarrow> ic_be g e; requeue changed (be_src ed) (q, g) })"

definition live_zero :: liveness_data where
  "live_zero = \<lparr>ld_out = mask_zero, ld_in = mask_zero\<rparr>"

text \<open>
  \<open>analyse_block\<close> is the part of \<open>processBlock\<close> behind its early return: \<open>out\<close> is what is live
  at the start of the next block.
\<close>

definition analyse_block :: "mask \<Rightarrow> nat \<Rightarrow> super_block \<Rightarrow> mask \<Rightarrow> live_pass \<Rightarrow> live_pass option" where
  "analyse_block live_ret b sb out = (\<lambda>(q, g).
     do { let old = (case sb_liveness sb of Some d \<Rightarrow> d | None \<Rightarrow> live_zero);
          g \<leftarrow> upd_sb b (set_sb_liveness (Some (old\<lparr>ld_out := out\<rparr>))) g;
          (live, g) \<leftarrow> process_instructions live_ret (rev (sb_instrs sb)) out g;
          let changed = (\<not> mask_eq (ld_in old) live);
          g \<leftarrow> upd_sb b (\<lambda>sb. set_livenessValid True
                 (if changed then set_sb_liveness (Some \<lparr>ld_out = out, ld_in = live\<rparr>) sb else sb)) g;
          (q, g) \<leftarrow> for_each (sb_in sb) (requeue_edge changed) (q, g);
          (case sb_prev sb of Some p \<Rightarrow> requeue changed p (q, g) | None \<Rightarrow> Some (q, g)) })"

definition processBlock :: "mask \<Rightarrow> nat \<Rightarrow> live_pass \<Rightarrow> live_pass option" where
  "processBlock live_ret b = (\<lambda>(q, g).
     do { sb \<leftarrow> ic_sb g b;
          drob_assert (\<not> nd_livenessValid (sb_node sb));
          case sb_next sb of
            None \<Rightarrow> analyse_block live_ret b sb mask_zero (q, g)
          | Some n \<Rightarrow>
              do { nb \<leftarrow> ic_sb g n;
                   case sb_liveness nb of
                     None \<Rightarrow>
                       do { drob_assert (\<not> nd_livenessValid (sb_node nb));
                            if \<not> nd_queued (sb_node nb) then enqueue n (q, g) else Some (q, g) }
                   | Some d \<Rightarrow> analyse_block live_ret b sb (ld_in d) (q, g) } })"

section \<open>One function\<close>

definition clearLivenessData :: "nat \<Rightarrow> icfg \<Rightarrow> icfg option" where
  "clearLivenessData b = upd_sb b (\<lambda>sb. set_livenessValid False (set_sb_liveness None sb))"

text \<open>The loop over the queue. It may not end, so it has no value then.\<close>

partial_function (option) process_queue :: "mask \<Rightarrow> live_pass \<Rightarrow> icfg option" where
  "process_queue live_ret s =
     (case fst s of
        [] \<Rightarrow> Some (snd s)
      | b # q \<Rightarrow>
          do { g \<leftarrow> upd_sb b (set_queued False) (snd s);
               s \<leftarrow> processBlock live_ret b (q, g);
               process_queue live_ret s })"

declare process_queue.simps [code]

definition start_queue :: "nat list \<Rightarrow> icfg \<Rightarrow> live_pass option" where
  "start_queue rs g = for_each rs (\<lambda>r (q, g). do { ed \<leftarrow> ic_re g r; enqueue (re_src ed) (q, g) }) ([], g)"

definition set_fn_livenessValid :: "func \<Rightarrow> func" where
  "set_fn_livenessValid fn = fn\<lparr>fn_node := (fn_node fn)\<lparr>nd_livenessValid := True\<rparr>\<rparr>"

definition liveness_function :: "nat \<Rightarrow> icfg \<Rightarrow> icfg option" where
  "liveness_function f g =
     do { fn \<leftarrow> ic_fn g f;
          if nd_livenessValid (fn_node fn) then Some g
          else case fn_info fn of
            None \<Rightarrow> Some g
          | Some spec \<Rightarrow>
              do { let live_ret = mask_add (ro_out spec) (ro_preserved spec);
                   g \<leftarrow> for_each_block_any clearLivenessData f g;
                   drob_assert (fn_returns fn \<noteq> []);
                   s \<leftarrow> start_queue (fn_returns fn) g;
                   g \<leftarrow> process_queue live_ret s;
                   upd_fn f set_fn_livenessValid g } }"

definition liveness_run :: "icfg \<Rightarrow> icfg option" where
  "liveness_run g =
     (if nd_livenessValid (ic_node g) then Some g
      else case ic_entry g of
        None \<Rightarrow> Some g
      | Some f \<Rightarrow>
          do { g \<leftarrow> liveness_function f g;
               Some (g\<lparr>ic_node := (ic_node g)\<lparr>nd_livenessValid := True\<rparr>\<rparr>) })"

end
