(* ===== verification/Passes.thy ===== *)
theory Passes
  imports Liveness
begin

text \<open>
  The passes that rewrite the graph: dead writes
  (\<open>src/passes/DeadWriteEliminationPass.hpp\<close>), dead code
  (\<open>src/passes/DeadCodeEliminationPass.hpp\<close>), the layout of blocks
  (\<open>src/passes/BlockLayoutOptimizationPass.hpp\<close>) and the unrolling of simple loops
  (\<open>src/passes/SimpleLoopUnrollingPass.hpp\<close>). A pass goes over the graph, collects what it is
  going to change in lists, and changes it afterwards.
\<close>

section \<open>Dead writes\<close>

definition note_dead :: "nat \<Rightarrow> icfg \<Rightarrow> nat \<Rightarrow> (nat \<times> nat) list \<Rightarrow> (nat \<times> nat) list option" where
  "note_dead b g a acc = do { i \<leftarrow> ic_is g a; Some (if is_liveness i = None then acc @ [(a, b)] else acc) }"

definition collect_dead :: "nat \<Rightarrow> icfg \<Rightarrow> (nat \<times> nat) list option" where
  "collect_dead f g =
     do { fn \<leftarrow> ic_fn g f;
          for_each (fn_blocks fn) (\<lambda>b acc. do { sb \<leftarrow> ic_sb g b; for_each (sb_instrs sb) (note_dead b g) acc }) [] }"

definition unset_live_icfg :: "icfg \<Rightarrow> icfg" where
  "unset_live_icfg g = g\<lparr>ic_node := (ic_node g)\<lparr>nd_livenessValid := False\<rparr>\<rparr>"

definition unset_live_fn :: "func \<Rightarrow> func" where
  "unset_live_fn fn = fn\<lparr>fn_node := (fn_node fn)\<lparr>nd_livenessValid := False\<rparr>\<rparr>"

definition delete_dead :: "nat \<Rightarrow> nat \<times> nat \<Rightarrow> icfg \<Rightarrow> icfg option" where
  "delete_dead f = (\<lambda>(a, b) g.
     do { g \<leftarrow> removeInstruction b a g;
          g \<leftarrow> upd_fn f unset_live_fn (unset_live_icfg g);
          upd_sb b (set_livenessValid False) g })"

definition dead_writes_run :: "icfg \<Rightarrow> icfg option" where
  "dead_writes_run g =
     (case ic_entry g of
        None \<Rightarrow> Some g
      | Some f \<Rightarrow> do { dead \<leftarrow> collect_dead f g; for_each dead (delete_dead f) g })"

section \<open>Dead code\<close>

record dead_code =
  dc_functions :: "nat list"
  dc_blocks :: "(nat \<times> nat) list"
  dc_instrs :: "(nat \<times> nat) list"
  dc_branches :: "(nat \<times> nat) list"

definition dead_code_init :: dead_code where
  "dead_code_init = \<lparr>dc_functions = [], dc_blocks = [], dc_instrs = [], dc_branches = []\<rparr>"

definition dc_instruction :: "nat \<Rightarrow> icfg \<Rightarrow> nat \<Rightarrow> dead_code \<Rightarrow> dead_code option" where
  "dc_instruction b g a dc =
     do { i \<leftarrow> ic_is g a;
          case is_dynInfo i of
            None \<Rightarrow> Some (dc\<lparr>dc_instrs := dc_instrs dc @ [(a, b)]\<rparr>)
          | Some d \<Rightarrow>
              if di_willExecute d = TFalse then Some (dc\<lparr>dc_instrs := dc_instrs dc @ [(a, b)]\<rparr>)
              else if isBranch i \<and> getPredicate i \<noteq> None \<and> di_willExecute d = TTrue
              then Some (dc\<lparr>dc_branches := dc_branches dc @ [(a, b)]\<rparr>)
              else Some dc }"

definition dc_block :: "nat \<Rightarrow> icfg \<Rightarrow> nat \<Rightarrow> dead_code \<Rightarrow> dead_code option" where
  "dc_block f g b dc =
     do { sb \<leftarrow> ic_sb g b;
          case sb_entryState sb of
            None \<Rightarrow> Some (dc\<lparr>dc_blocks := dc_blocks dc @ [(b, f)]\<rparr>)
          | Some _ \<Rightarrow> for_each (sb_instrs sb) (dc_instruction b g) dc }"

text \<open>
  A function whose entry block has no state is left alone; the second test of the same
  condition is never true.
\<close>

definition dc_function :: "icfg \<Rightarrow> nat \<Rightarrow> dead_code \<Rightarrow> dead_code option" where
  "dc_function g f dc =
     do { fn \<leftarrow> ic_fn g f;
          e \<leftarrow> fn_entry fn;
          eb \<leftarrow> ic_sb g e;
          if sb_entryState eb = None then Some dc
          else if sb_entryState eb = None then Some (dc\<lparr>dc_functions := dc_functions dc @ [f]\<rparr>)
          else for_each (fn_blocks fn) (dc_block f g) dc }"

definition unchain :: "nat \<Rightarrow> icfg \<Rightarrow> icfg option" where
  "unchain b g =
     do { sb \<leftarrow> ic_sb g b;
          case sb_next sb of
            None \<Rightarrow> Some g
          | Some n \<Rightarrow> do { g \<leftarrow> setPrev n None g; setNext b None g } }"

definition make_unconditional :: "nat \<times> nat \<Rightarrow> icfg \<Rightarrow> icfg option" where
  "make_unconditional = (\<lambda>(a, b) g.
     do { g \<leftarrow> unchain b g;
          g \<leftarrow> upd_is a (setOpcode (Jmp JMPa)) g;
          g \<leftarrow> invalidate_sb AnStack b g;
          invalidate_sb AnLiveness b g })"

definition dead_code_run :: "icfg \<Rightarrow> icfg option" where
  "dead_code_run g =
     do { dc \<leftarrow> for_each (ic_functions g) (dc_function g) dead_code_init;
          g \<leftarrow> for_each (dc_instrs dc) (\<lambda>(a, b). removeInstruction b a) g;
          g \<leftarrow> for_each (dc_branches dc) make_unconditional g;
          g \<leftarrow> for_each (dc_blocks dc) (\<lambda>(b, f). removeBlock f b) g;
          for_each (dc_functions dc) removeFunction g }"

section \<open>The layout of blocks\<close>

text \<open>
  A block that ends in a jump to a block with nothing in front of it is put there, and the
  jump removed. The first result says that the block is done: it has no jump to remove.
\<close>

definition chain_jump :: "nat \<Rightarrow> super_block \<Rightarrow> icfg \<Rightarrow> (bool \<times> icfg) option" where
  "chain_jump b sb g =
     do { let a = last (sb_instrs sb);
          i \<leftarrow> ic_is g a;
          case is_branchEdge i of
            None \<Rightarrow> Some (True, g)
          | Some e \<Rightarrow>
              if \<not> isBranch i \<or> getPredicate i \<noteq> None then Some (True, g)
              else do { ed \<leftarrow> ic_be g e;
                        db \<leftarrow> ic_sb g (be_dst ed);
                        if sb_prev db \<noteq> None then Some (True, g)
                        else do { g \<leftarrow> setPrev (be_dst ed) (Some b) g;
                                  g \<leftarrow> setNext b (Some (be_dst ed)) g;
                                  g \<leftarrow> removeInstruction b a g;
                                  Some (False, g) } } }"

type_synonym layout = "(nat \<times> nat) list \<times> icfg"

definition layout_block :: "nat \<Rightarrow> nat \<Rightarrow> layout \<Rightarrow> layout option" where
  "layout_block f b = (\<lambda>(ms, g).
     do { sb \<leftarrow> ic_sb g b;
          if sb_instrs sb = [] then do { drob_assert (sb_next sb \<noteq> None); Some (ms @ [(b, f)], g) }
          else
            do { (stop, g) \<leftarrow> (if sb_next sb = None then chain_jump b sb g else Some (False, g));
                 if stop then Some (ms, g)
                 else
                   do { sb \<leftarrow> ic_sb g b;
                        case sb_next sb of
                          None \<Rightarrow> Some (ms, g)
                        | Some n \<Rightarrow> do { nb \<leftarrow> ic_sb g n; Some (if sb_in nb = [] then ms @ [(b, f)] else ms, g) } } } })"

definition layout_function :: "nat \<Rightarrow> layout \<Rightarrow> layout option" where
  "layout_function f = (\<lambda>(ms, g). do { fn \<leftarrow> ic_fn g f; for_each (fn_blocks fn) (layout_block f) (ms, g) })"

definition layout_run :: "icfg \<Rightarrow> icfg option" where
  "layout_run g =
     do { (ms, g) \<leftarrow> for_each (ic_functions g) layout_function ([], g);
          for_each ms (\<lambda>(b, f). mergeBlockIntoNext f b) g }"

section \<open>Unrolling loops of one block\<close>

definition is_self_edge :: "icfg \<Rightarrow> nat \<Rightarrow> nat \<Rightarrow> bool option" where
  "is_self_edge g b e = do { ed \<leftarrow> ic_be g e; Some (be_dst ed = b) }"

text \<open>The instruction of the last edge back to the block.\<close>

primrec last_self_branch :: "icfg \<Rightarrow> nat \<Rightarrow> nat list \<Rightarrow> nat option" where
  "last_self_branch g b [] = None"
| "last_self_branch g b (e # es) =
     do { ed \<leftarrow> ic_be g e; if be_dst ed = b then Some (be_instr ed) else last_self_branch g b es }"

text \<open>The edges back to the block lead to its copy.\<close>

definition redirect :: "nat \<Rightarrow> nat \<Rightarrow> nat \<Rightarrow> icfg \<Rightarrow> icfg option" where
  "redirect b copy e g =
     do { self \<leftarrow> is_self_edge g b e;
          if self then
            do { g \<leftarrow> removeIncomingEdge b e g;
                 g \<leftarrow> upd_be e (\<lambda>ed. ed\<lparr>be_dst := copy\<rparr>) g;
                 addIncomingEdge copy e g }
          else Some g }"

text \<open>The copy follows the block if the condition of the branch to it can be inverted.\<close>

definition chain_copy :: "nat \<Rightarrow> nat \<Rightarrow> icfg \<Rightarrow> icfg option" where
  "chain_copy b copy g =
     do { sb \<leftarrow> ic_sb g b;
          drob_assert (sb_instrs sb \<noteq> []);
          let a = last (sb_instrs sb);
          i \<leftarrow> ic_is g a;
          own \<leftarrow> getBranchEdge i;
          e \<leftarrow> own;
          ed \<leftarrow> ic_be g e;
          if be_dst ed = copy then Some g
          else
            do { drob_assert (getPredicate i = None);
                 drob_assert (butlast (sb_instrs sb) \<noteq> []);
                 let c = last (butlast (sb_instrs sb));
                 j \<leftarrow> ic_is g c;
                 let opc = arch_invert_branch (in_opcode (is_ins j));
                 if opc = NONE then Some g
                 else
                   do { g \<leftarrow> removeInstruction b c g;
                        g \<leftarrow> upd_is a (setOpcode opc) g;
                        cb \<leftarrow> ic_sb g copy;
                        drob_assert (sb_prev cb = None);
                        g \<leftarrow> setNext b (Some copy) g;
                        setPrev copy (Some b) g } } }"

primrec unroll_loop :: "nat \<Rightarrow> nat \<Rightarrow> nat \<Rightarrow> icfg \<Rightarrow> icfg option" where
  "unroll_loop 0 f b g = Some g"
| "unroll_loop (Suc n) f b g =
     do { (copy, g) \<leftarrow> copyBlock f b g;
          sb \<leftarrow> ic_sb g b;
          g \<leftarrow> for_each (sb_out sb) (redirect b copy) g;
          g \<leftarrow> chain_copy b copy g;
          unroll_loop n f copy g }"

definition unrollSingleBlockLoop :: "nat \<Rightarrow> nat \<Rightarrow> nat \<Rightarrow> icfg \<Rightarrow> icfg option" where
  "unrollSingleBlockLoop cnt f b g =
     do { sb \<leftarrow> ic_sb g b;
          a \<leftarrow> last_self_branch g b (rev (sb_out sb));
          drob_assert (sb_instrs sb \<noteq> []);
          g \<leftarrow> (if a \<noteq> last (sb_instrs sb) then do { (_, g) \<leftarrow> splitBlockAfter f b a g; Some g } else Some g);
          g \<leftarrow> unchainNext b g;
          unroll_loop cnt f b g }"

text \<open>A block is a simple loop if one of its edges leads back to it.\<close>

primrec is_simple_loop :: "icfg \<Rightarrow> nat \<Rightarrow> nat list \<Rightarrow> bool option" where
  "is_simple_loop g b [] = Some False"
| "is_simple_loop g b (e # es) = do { self \<leftarrow> is_self_edge g b e; if self then Some True else is_simple_loop g b es }"

definition note_loop :: "icfg \<Rightarrow> nat \<Rightarrow> nat \<Rightarrow> (nat \<times> nat) list \<Rightarrow> (nat \<times> nat) list option" where
  "note_loop g f b acc =
     do { sb \<leftarrow> ic_sb g b; loop \<leftarrow> is_simple_loop g b (sb_out sb); Some (if loop then acc @ [(b, f)] else acc) }"

definition unroll_run :: "nat \<Rightarrow> icfg \<Rightarrow> icfg option" where
  "unroll_run cnt g =
     (if cnt = 0 then Some g
      else
        do { bs \<leftarrow> for_each (ic_functions g) (\<lambda>f acc. do { fn \<leftarrow> ic_fn g f; for_each (fn_blocks fn) (note_loop g f) acc }) [];
             for_each bs (\<lambda>(b, f). unrollSingleBlockLoop cnt f b) g })"

end
