(* ===== verification/Icfg_Ok.thy ===== *)
theory Icfg_Ok
  imports Icfg_Ops
begin

text \<open>
  What every operation keeps of the graph: the lists of blocks, instructions and edges and the
  pointers back agree, and nothing points to a deleted object. An operation is compared with
  an edit of the graph that says what it changes, up to the data of the analyses, which the
  invariant does not speak of.
\<close>

section \<open>The invariant\<close>

definition live_be :: "icfg \<Rightarrow> nat \<Rightarrow> branch_edge \<Rightarrow> bool" where
  "live_be g e ed \<longleftrightarrow> ic_be g e = Some ed \<and> \<not> be_invalidated ed"

definition live_ce :: "icfg \<Rightarrow> nat \<Rightarrow> call_edge \<Rightarrow> bool" where
  "live_ce g e ed \<longleftrightarrow> ic_ce g e = Some ed \<and> \<not> ce_invalidated ed"

definition live_re :: "icfg \<Rightarrow> nat \<Rightarrow> return_edge \<Rightarrow> bool" where
  "live_re g e ed \<longleftrightarrow> ic_re g e = Some ed \<and> \<not> re_invalidated ed"

lemmas live_defs = live_be_def live_ce_def live_re_def

definition blocks_ok :: "icfg \<Rightarrow> bool" where
  "blocks_ok g \<longleftrightarrow>
     (\<forall>f fn. ic_fn g f = Some fn \<longrightarrow> distinct (fn_blocks fn) \<and>
        (\<forall>b\<in>set (fn_blocks fn). \<exists>sb. ic_sb g b = Some sb \<and> sb_function sb = f) \<and>
        (\<forall>b. fn_entry fn = Some b \<longrightarrow> b \<in> set (fn_blocks fn))) \<and>
     (\<forall>b sb. ic_sb g b = Some sb \<longrightarrow>
        (\<exists>fn. ic_fn g (sb_function sb) = Some fn \<and> b \<in> set (fn_blocks fn)))"

definition instrs_ok :: "icfg \<Rightarrow> bool" where
  "instrs_ok g \<longleftrightarrow>
     (\<forall>b sb. ic_sb g b = Some sb \<longrightarrow> distinct (sb_instrs sb) \<and>
        (\<forall>a\<in>set (sb_instrs sb). \<exists>i. ic_is g a = Some i)) \<and>
     (\<forall>b sb c sc a. ic_sb g b = Some sb \<longrightarrow> ic_sb g c = Some sc \<longrightarrow>
        a \<in> set (sb_instrs sb) \<longrightarrow> a \<in> set (sb_instrs sc) \<longrightarrow> b = c)"

definition chain_ok :: "icfg \<Rightarrow> bool" where
  "chain_ok g \<longleftrightarrow>
     (\<forall>b sb n. ic_sb g b = Some sb \<longrightarrow> sb_next sb = Some n \<longrightarrow>
        (\<exists>nb. ic_sb g n = Some nb \<and> sb_prev nb = Some b)) \<and>
     (\<forall>b sb p. ic_sb g b = Some sb \<longrightarrow> sb_prev sb = Some p \<longrightarrow>
        (\<exists>pb. ic_sb g p = Some pb \<and> sb_next pb = Some b))"

definition edges_ok :: "icfg \<Rightarrow> bool" where
  "edges_ok g \<longleftrightarrow>
     (\<forall>b sb. ic_sb g b = Some sb \<longrightarrow> distinct (sb_in sb) \<and> distinct (sb_out sb) \<and>
        (\<forall>e\<in>set (sb_out sb). \<exists>ed. live_be g e ed \<and> be_src ed = b) \<and>
        (\<forall>e\<in>set (sb_in sb). \<exists>ed. live_be g e ed \<and> be_dst ed = b)) \<and>
     (\<forall>e ed. live_be g e ed \<longrightarrow>
        (\<exists>sb. ic_sb g (be_src ed) = Some sb \<and> e \<in> set (sb_out sb) \<and> be_instr ed \<in> set (sb_instrs sb)) \<and>
        (\<exists>db. ic_sb g (be_dst ed) = Some db \<and> e \<in> set (sb_in db)) \<and>
        (\<exists>i. ic_is g (be_instr ed) = Some i \<and> isBranch i \<and> is_branchEdge i = Some e)) \<and>
     (\<forall>a i e. ic_is g a = Some i \<longrightarrow> is_branchEdge i = Some e \<longrightarrow> (\<exists>ed. live_be g e ed \<and> be_instr ed = a))"

definition calls_ok :: "icfg \<Rightarrow> bool" where
  "calls_ok g \<longleftrightarrow>
     (\<forall>f fn. ic_fn g f = Some fn \<longrightarrow> distinct (fn_in fn) \<and> distinct (fn_out fn) \<and>
        (\<forall>e\<in>set (fn_out fn). \<exists>ed. live_ce g e ed \<and> ce_src ed = f) \<and>
        (\<forall>e\<in>set (fn_in fn). \<exists>ed. live_ce g e ed \<and> ce_dst ed = f)) \<and>
     (\<forall>e ed. live_ce g e ed \<longrightarrow>
        (\<exists>fn. ic_fn g (ce_src ed) = Some fn \<and> e \<in> set (fn_out fn)) \<and>
        (\<exists>fn. ic_fn g (ce_dst ed) = Some fn \<and> e \<in> set (fn_in fn)) \<and>
        (\<exists>i. ic_is g (ce_instr ed) = Some i \<and> isCall i \<and> is_callEdge i = Some e)) \<and>
     (\<forall>a i e. ic_is g a = Some i \<longrightarrow> is_callEdge i = Some e \<longrightarrow> (\<exists>ed. live_ce g e ed \<and> ce_instr ed = a))"

definition returns_ok :: "icfg \<Rightarrow> bool" where
  "returns_ok g \<longleftrightarrow>
     (\<forall>f fn. ic_fn g f = Some fn \<longrightarrow> distinct (fn_returns fn) \<and>
        (\<forall>e\<in>set (fn_returns fn). \<exists>ed. live_re g e ed \<and> re_dst ed = f)) \<and>
     (\<forall>e ed. live_re g e ed \<longrightarrow>
        (\<exists>fn. ic_fn g (re_dst ed) = Some fn \<and> e \<in> set (fn_returns fn)) \<and>
        (\<exists>sb. ic_sb g (re_src ed) = Some sb \<and> re_instr ed \<in> set (sb_instrs sb)) \<and>
        (\<exists>i. ic_is g (re_instr ed) = Some i \<and> isRet i \<and> is_returnEdge i = Some e)) \<and>
     (\<forall>a i e. ic_is g a = Some i \<longrightarrow> is_returnEdge i = Some e \<longrightarrow> (\<exists>ed. live_re g e ed \<and> re_instr ed = a))"

definition fresh_ok :: "icfg \<Rightarrow> bool" where
  "fresh_ok g \<longleftrightarrow> (\<forall>a\<ge>ic_fresh g. ic_fn g a = None \<and> ic_sb g a = None \<and> ic_is g a = None \<and>
     ic_be g a = None \<and> ic_ce g a = None \<and> ic_re g a = None)"

definition icfg_ok :: "icfg \<Rightarrow> bool" where
  "icfg_ok g \<longleftrightarrow> blocks_ok g \<and> instrs_ok g \<and> chain_ok g \<and> edges_ok g \<and> calls_ok g \<and> returns_ok g \<and> fresh_ok g"

lemma icfg_okD: "icfg_ok g \<Longrightarrow> blocks_ok g" "icfg_ok g \<Longrightarrow> instrs_ok g" "icfg_ok g \<Longrightarrow> chain_ok g"
  "icfg_ok g \<Longrightarrow> edges_ok g" "icfg_ok g \<Longrightarrow> calls_ok g" "icfg_ok g \<Longrightarrow> returns_ok g" "icfg_ok g \<Longrightarrow> fresh_ok g"
  by (simp_all add: icfg_ok_def)

lemma icfg_ok_init: "icfg_ok icfg_init"
  by (simp add: icfg_ok_def icfg_init_def blocks_ok_def instrs_ok_def chain_ok_def edges_ok_def calls_ok_def
      returns_ok_def fresh_ok_def live_defs)

lemma edges_okD:
  assumes "edges_ok g"
  shows "ic_sb g b = Some sb \<Longrightarrow> distinct (sb_in sb)" "ic_sb g b = Some sb \<Longrightarrow> distinct (sb_out sb)"
    and "ic_sb g b = Some sb \<Longrightarrow> e \<in> set (sb_out sb) \<Longrightarrow> \<exists>ed. live_be g e ed \<and> be_src ed = b"
    and "ic_sb g b = Some sb \<Longrightarrow> e \<in> set (sb_in sb) \<Longrightarrow> \<exists>ed. live_be g e ed \<and> be_dst ed = b"
    and "live_be g e ed \<Longrightarrow> \<exists>sb. ic_sb g (be_src ed) = Some sb \<and> e \<in> set (sb_out sb) \<and> be_instr ed \<in> set (sb_instrs sb)"
    and "live_be g e ed \<Longrightarrow> \<exists>db. ic_sb g (be_dst ed) = Some db \<and> e \<in> set (sb_in db)"
    and "live_be g e ed \<Longrightarrow> \<exists>i. ic_is g (be_instr ed) = Some i \<and> isBranch i \<and> is_branchEdge i = Some e"
    and "ic_is g a = Some i \<Longrightarrow> is_branchEdge i = Some e \<Longrightarrow> \<exists>ed. live_be g e ed \<and> be_instr ed = a"
  using assms unfolding edges_ok_def by blast+

lemma edges_okI:
  assumes "\<And>b sb. ic_sb g b = Some sb \<Longrightarrow> distinct (sb_in sb)" "\<And>b sb. ic_sb g b = Some sb \<Longrightarrow> distinct (sb_out sb)"
    and "\<And>b sb e. ic_sb g b = Some sb \<Longrightarrow> e \<in> set (sb_out sb) \<Longrightarrow> \<exists>ed. live_be g e ed \<and> be_src ed = b"
    and "\<And>b sb e. ic_sb g b = Some sb \<Longrightarrow> e \<in> set (sb_in sb) \<Longrightarrow> \<exists>ed. live_be g e ed \<and> be_dst ed = b"
    and "\<And>e ed. live_be g e ed \<Longrightarrow>
      \<exists>sb. ic_sb g (be_src ed) = Some sb \<and> e \<in> set (sb_out sb) \<and> be_instr ed \<in> set (sb_instrs sb)"
    and "\<And>e ed. live_be g e ed \<Longrightarrow> \<exists>db. ic_sb g (be_dst ed) = Some db \<and> e \<in> set (sb_in db)"
    and "\<And>e ed. live_be g e ed \<Longrightarrow> \<exists>i. ic_is g (be_instr ed) = Some i \<and> isBranch i \<and> is_branchEdge i = Some e"
    and "\<And>a i e. ic_is g a = Some i \<Longrightarrow> is_branchEdge i = Some e \<Longrightarrow> \<exists>ed. live_be g e ed \<and> be_instr ed = a"
  shows "edges_ok g"
  unfolding edges_ok_def using assms by (intro conjI allI impI ballI) blast+

lemma calls_okD:
  assumes "calls_ok g"
  shows "ic_fn g f = Some fn \<Longrightarrow> distinct (fn_in fn)" "ic_fn g f = Some fn \<Longrightarrow> distinct (fn_out fn)"
    and "ic_fn g f = Some fn \<Longrightarrow> e \<in> set (fn_out fn) \<Longrightarrow> \<exists>ed. live_ce g e ed \<and> ce_src ed = f"
    and "ic_fn g f = Some fn \<Longrightarrow> e \<in> set (fn_in fn) \<Longrightarrow> \<exists>ed. live_ce g e ed \<and> ce_dst ed = f"
    and "live_ce g e ed \<Longrightarrow> \<exists>fn. ic_fn g (ce_src ed) = Some fn \<and> e \<in> set (fn_out fn)"
    and "live_ce g e ed \<Longrightarrow> \<exists>fn. ic_fn g (ce_dst ed) = Some fn \<and> e \<in> set (fn_in fn)"
    and "live_ce g e ed \<Longrightarrow> \<exists>i. ic_is g (ce_instr ed) = Some i \<and> isCall i \<and> is_callEdge i = Some e"
    and "ic_is g a = Some i \<Longrightarrow> is_callEdge i = Some e \<Longrightarrow> \<exists>ed. live_ce g e ed \<and> ce_instr ed = a"
  using assms unfolding calls_ok_def by blast+

lemma calls_okI:
  assumes "\<And>f fn. ic_fn g f = Some fn \<Longrightarrow> distinct (fn_in fn)" "\<And>f fn. ic_fn g f = Some fn \<Longrightarrow> distinct (fn_out fn)"
    and "\<And>f fn e. ic_fn g f = Some fn \<Longrightarrow> e \<in> set (fn_out fn) \<Longrightarrow> \<exists>ed. live_ce g e ed \<and> ce_src ed = f"
    and "\<And>f fn e. ic_fn g f = Some fn \<Longrightarrow> e \<in> set (fn_in fn) \<Longrightarrow> \<exists>ed. live_ce g e ed \<and> ce_dst ed = f"
    and "\<And>e ed. live_ce g e ed \<Longrightarrow> \<exists>fn. ic_fn g (ce_src ed) = Some fn \<and> e \<in> set (fn_out fn)"
    and "\<And>e ed. live_ce g e ed \<Longrightarrow> \<exists>fn. ic_fn g (ce_dst ed) = Some fn \<and> e \<in> set (fn_in fn)"
    and "\<And>e ed. live_ce g e ed \<Longrightarrow> \<exists>i. ic_is g (ce_instr ed) = Some i \<and> isCall i \<and> is_callEdge i = Some e"
    and "\<And>a i e. ic_is g a = Some i \<Longrightarrow> is_callEdge i = Some e \<Longrightarrow> \<exists>ed. live_ce g e ed \<and> ce_instr ed = a"
  shows "calls_ok g"
  unfolding calls_ok_def using assms by (intro conjI allI impI ballI) blast+

lemma returns_okD:
  assumes "returns_ok g"
  shows "ic_fn g f = Some fn \<Longrightarrow> distinct (fn_returns fn)"
    and "ic_fn g f = Some fn \<Longrightarrow> e \<in> set (fn_returns fn) \<Longrightarrow> \<exists>ed. live_re g e ed \<and> re_dst ed = f"
    and "live_re g e ed \<Longrightarrow> \<exists>fn. ic_fn g (re_dst ed) = Some fn \<and> e \<in> set (fn_returns fn)"
    and "live_re g e ed \<Longrightarrow> \<exists>sb. ic_sb g (re_src ed) = Some sb \<and> re_instr ed \<in> set (sb_instrs sb)"
    and "live_re g e ed \<Longrightarrow> \<exists>i. ic_is g (re_instr ed) = Some i \<and> isRet i \<and> is_returnEdge i = Some e"
    and "ic_is g a = Some i \<Longrightarrow> is_returnEdge i = Some e \<Longrightarrow> \<exists>ed. live_re g e ed \<and> re_instr ed = a"
  using assms unfolding returns_ok_def by blast+

lemma returns_okI:
  assumes "\<And>f fn. ic_fn g f = Some fn \<Longrightarrow> distinct (fn_returns fn)"
    and "\<And>f fn e. ic_fn g f = Some fn \<Longrightarrow> e \<in> set (fn_returns fn) \<Longrightarrow> \<exists>ed. live_re g e ed \<and> re_dst ed = f"
    and "\<And>e ed. live_re g e ed \<Longrightarrow> \<exists>fn. ic_fn g (re_dst ed) = Some fn \<and> e \<in> set (fn_returns fn)"
    and "\<And>e ed. live_re g e ed \<Longrightarrow> \<exists>sb. ic_sb g (re_src ed) = Some sb \<and> re_instr ed \<in> set (sb_instrs sb)"
    and "\<And>e ed. live_re g e ed \<Longrightarrow> \<exists>i. ic_is g (re_instr ed) = Some i \<and> isRet i \<and> is_returnEdge i = Some e"
    and "\<And>a i e. ic_is g a = Some i \<Longrightarrow> is_returnEdge i = Some e \<Longrightarrow> \<exists>ed. live_re g e ed \<and> re_instr ed = a"
  shows "returns_ok g"
  unfolding returns_ok_def using assms by (intro conjI allI impI ballI) blast+

text \<open>
  The parts of the invariant look at few fields each. \<open>agree m n V\<close>: the stores have objects at
  the same addresses, with the same values of the fields \<open>V\<close>.
\<close>

definition agree :: "('a \<Rightarrow> 'v) \<Rightarrow> (nat \<rightharpoonup> 'a) \<Rightarrow> (nat \<rightharpoonup> 'a) \<Rightarrow> bool" where
  "agree V m n \<longleftrightarrow> (\<forall>a. map_option V (m a) = map_option V (n a))"

lemma agreeD: "agree V m n \<Longrightarrow> n a = Some x \<Longrightarrow> \<exists>y. m a = Some y \<and> V y = V x"
  by (metis agree_def map_option_eq_Some)

lemma agree_sym: "agree V m n \<Longrightarrow> agree V n m"
  by (simp add: agree_def)

lemma agree_refl [simp]: "agree V m m"
  by (simp add: agree_def)

lemma agree_trans: "agree V m n \<Longrightarrow> agree V n k \<Longrightarrow> agree V m k"
  by (simp add: agree_def)

lemma agree_map [simp]: "(\<And>a x. V (f a x) = V x) \<Longrightarrow> agree V (\<lambda>a. map_option (f a) (m a)) m"
  by (auto simp: agree_def option.map_comp o_def intro: option.map_cong)

lemma agree_map_comp [simp]: "(\<And>x. V (f x) = V x) \<Longrightarrow> agree V (map_option f \<circ> m) m"
  by (auto simp: agree_def option.map_comp o_def intro: option.map_cong)

lemma agree_put: "m a = Some x \<Longrightarrow> V y = V x \<Longrightarrow> agree V (m(a \<mapsto> y)) m"
  by (auto simp: agree_def)

abbreviation call_fields :: "func \<Rightarrow> nat list \<times> nat list" where
  "call_fields fn \<equiv> (fn_in fn, fn_out fn)"

lemma calls_cong:
  assumes "calls_ok g" and F: "agree call_fields (ic_fn g) (ic_fn h)"
    and I: "agree (\<lambda>i. (isCall i, is_callEdge i)) (ic_is g) (ic_is h)" and L: "live_ce h = live_ce g"
  shows "calls_ok h"
proof -
  note C = calls_okD[OF assms(1)]
  note FD = agreeD[OF F] agreeD[OF agree_sym[OF F]] and ID = agreeD[OF I] agreeD[OF agree_sym[OF I]]
  show ?thesis
  proof (rule calls_okI, unfold L, goal_cases)
    case (1 f fn) then show ?case using FD(1)[OF 1] C(1) by fastforce
  next
    case (2 f fn) then show ?case using FD(1)[OF 2] C(2) by fastforce
  next
    case (3 f fn e) then show ?case using FD(1)[OF 3(1)] C(3) by auto
  next
    case (4 f fn e) then show ?case using FD(1)[OF 4(1)] C(4) by auto
  next
    case (5 e ed) then show ?case using C(5)[OF 5] FD(2) by fastforce
  next
    case (6 e ed) then show ?case using C(6)[OF 6] FD(2) by fastforce
  next
    case (7 e ed) then show ?case using C(7)[OF 7] ID(2) by fastforce
  next
    case (8 a i e) then show ?case using ID(1)[OF 8(1)] C(8) by auto
  qed
qed

lemma returns_cong:
  assumes "returns_ok g" and F: "agree fn_returns (ic_fn g) (ic_fn h)"
    and B: "\<And>b sb. ic_sb g b = Some sb \<Longrightarrow> \<exists>sb'. ic_sb h b = Some sb' \<and> set (sb_instrs sb) \<subseteq> set (sb_instrs sb')"
    and I: "agree (\<lambda>i. (isRet i, is_returnEdge i)) (ic_is g) (ic_is h)" and L: "live_re h = live_re g"
  shows "returns_ok h"
proof -
  note C = returns_okD[OF assms(1)]
  note FD = agreeD[OF F] agreeD[OF agree_sym[OF F]] and ID = agreeD[OF I] agreeD[OF agree_sym[OF I]]
  show ?thesis
  proof (rule returns_okI, unfold L, goal_cases)
    case (1 f fn) then show ?case using FD(1)[OF 1] C(1) by fastforce
  next
    case (2 f fn e) then show ?case using FD(1)[OF 2(1)] C(2) by auto
  next
    case (3 e ed) then show ?case using C(3)[OF 3] FD(2) by fastforce
  next
    case (4 e ed) then show ?case using C(4)[OF 4] B by fastforce
  next
    case (5 e ed) then show ?case using C(5)[OF 5] ID(2) by fastforce
  next
    case (6 a i e) then show ?case using ID(1)[OF 6(1)] C(6) by auto
  qed
qed

abbreviation edge_fields :: "super_block \<Rightarrow> nat list \<times> nat list \<times> nat list" where
  "edge_fields sb \<equiv> (sb_in sb, sb_out sb, sb_instrs sb)"

lemma edges_cong:
  assumes "edges_ok g" and B: "agree edge_fields (ic_sb g) (ic_sb h)"
    and I: "agree (\<lambda>i. (isBranch i, is_branchEdge i)) (ic_is g) (ic_is h)" and L: "live_be h = live_be g"
  shows "edges_ok h"
proof -
  note C = edges_okD[OF assms(1)]
  note BD = agreeD[OF B] agreeD[OF agree_sym[OF B]] and ID = agreeD[OF I] agreeD[OF agree_sym[OF I]]
  show ?thesis
  proof (rule edges_okI, unfold L, goal_cases)
    case (1 f fn) then show ?case using BD(1)[OF 1] C(1) by fastforce
  next
    case (2 f fn) then show ?case using BD(1)[OF 2] C(2) by fastforce
  next
    case (3 f fn e) then show ?case using BD(1)[OF 3(1)] C(3) by auto
  next
    case (4 f fn e) then show ?case using BD(1)[OF 4(1)] C(4) by auto
  next
    case (5 e ed) then show ?case using C(5)[OF 5] BD(2) by fastforce
  next
    case (6 e ed) then show ?case using C(6)[OF 6] BD(2) by fastforce
  next
    case (7 e ed) then show ?case using C(7)[OF 7] ID(2) by fastforce
  next
    case (8 a i e) then show ?case using ID(1)[OF 8(1)] C(8) by auto
  qed
qed

lemma blocks_okD:
  assumes "blocks_ok g"
  shows "ic_fn g f = Some fn \<Longrightarrow> distinct (fn_blocks fn)"
    and "ic_fn g f = Some fn \<Longrightarrow> b \<in> set (fn_blocks fn) \<Longrightarrow> \<exists>sb. ic_sb g b = Some sb \<and> sb_function sb = f"
    and "ic_fn g f = Some fn \<Longrightarrow> fn_entry fn = Some b \<Longrightarrow> b \<in> set (fn_blocks fn)"
    and "ic_sb g b = Some sb \<Longrightarrow> \<exists>fn. ic_fn g (sb_function sb) = Some fn \<and> b \<in> set (fn_blocks fn)"
  using assms unfolding blocks_ok_def by blast+

lemma blocks_okI:
  assumes "\<And>f fn. ic_fn g f = Some fn \<Longrightarrow> distinct (fn_blocks fn)"
    and "\<And>f fn b. ic_fn g f = Some fn \<Longrightarrow> b \<in> set (fn_blocks fn) \<Longrightarrow> \<exists>sb. ic_sb g b = Some sb \<and> sb_function sb = f"
    and "\<And>f fn b. ic_fn g f = Some fn \<Longrightarrow> fn_entry fn = Some b \<Longrightarrow> b \<in> set (fn_blocks fn)"
    and "\<And>b sb. ic_sb g b = Some sb \<Longrightarrow> \<exists>fn. ic_fn g (sb_function sb) = Some fn \<and> b \<in> set (fn_blocks fn)"
  shows "blocks_ok g"
  unfolding blocks_ok_def using assms by (intro conjI allI impI ballI) blast+

lemma blocks_cong:
  assumes "blocks_ok g" and F: "agree (\<lambda>fn. (fn_blocks fn, fn_entry fn)) (ic_fn g) (ic_fn h)"
    and B: "agree sb_function (ic_sb g) (ic_sb h)"
  shows "blocks_ok h"
proof -
  note C = blocks_okD[OF assms(1)]
  note FD = agreeD[OF F] agreeD[OF agree_sym[OF F]] and BD = agreeD[OF B] agreeD[OF agree_sym[OF B]]
  show ?thesis
  proof (rule blocks_okI, goal_cases)
    case (1 f fn) then show ?case using FD(1)[OF 1] C(1) by fastforce
  next
    case (2 f fn b) then show ?case using FD(1)[OF 2(1)] C(2) BD(2) by fastforce
  next
    case (3 f fn b) then show ?case using FD(1)[OF 3(1)] C(3) by fastforce
  next
    case (4 b sb) then show ?case using BD(1)[OF 4] C(4) FD(2) by fastforce
  qed
qed

lemma chain_okD:
  assumes "chain_ok g"
  shows "ic_sb g b = Some sb \<Longrightarrow> sb_next sb = Some n \<Longrightarrow> \<exists>nb. ic_sb g n = Some nb \<and> sb_prev nb = Some b"
    and "ic_sb g b = Some sb \<Longrightarrow> sb_prev sb = Some n \<Longrightarrow> \<exists>nb. ic_sb g n = Some nb \<and> sb_next nb = Some b"
  using assms unfolding chain_ok_def by blast+

lemma chain_okI:
  assumes "\<And>b sb n. ic_sb g b = Some sb \<Longrightarrow> sb_next sb = Some n \<Longrightarrow> \<exists>nb. ic_sb g n = Some nb \<and> sb_prev nb = Some b"
    and "\<And>b sb n. ic_sb g b = Some sb \<Longrightarrow> sb_prev sb = Some n \<Longrightarrow> \<exists>nb. ic_sb g n = Some nb \<and> sb_next nb = Some b"
  shows "chain_ok g"
  unfolding chain_ok_def using assms by (intro conjI allI impI) blast+

lemma chain_cong:
  assumes "chain_ok g" and B: "agree (\<lambda>sb. (sb_next sb, sb_prev sb)) (ic_sb g) (ic_sb h)"
  shows "chain_ok h"
proof -
  note C = chain_okD[OF assms(1)]
  note BD = agreeD[OF B] agreeD[OF agree_sym[OF B]]
  show ?thesis
  proof (rule chain_okI, goal_cases)
    case (1 b sb n)
    then obtain sb' where "ic_sb g b = Some sb'" "sb_next sb' = Some n" using BD(1)[OF 1(1)] by auto
    then show ?case using C(1)[of b sb' n] BD(2) by fastforce
  next
    case (2 b sb n)
    then obtain sb' where "ic_sb g b = Some sb'" "sb_prev sb' = Some n" using BD(1)[OF 2(1)] by auto
    then show ?case using C(2)[of b sb' n] BD(2) by fastforce
  qed
qed

lemma instrs_okD:
  assumes "instrs_ok g"
  shows "ic_sb g b = Some sb \<Longrightarrow> distinct (sb_instrs sb)"
    and "ic_sb g b = Some sb \<Longrightarrow> a \<in> set (sb_instrs sb) \<Longrightarrow> \<exists>i. ic_is g a = Some i"
    and "ic_sb g b = Some sb \<Longrightarrow> ic_sb g c = Some sc \<Longrightarrow> a \<in> set (sb_instrs sb) \<Longrightarrow> a \<in> set (sb_instrs sc) \<Longrightarrow> b = c"
  using assms unfolding instrs_ok_def by blast+

lemma instrs_okI:
  assumes "\<And>b sb. ic_sb g b = Some sb \<Longrightarrow> distinct (sb_instrs sb)"
    and "\<And>b sb a. ic_sb g b = Some sb \<Longrightarrow> a \<in> set (sb_instrs sb) \<Longrightarrow> \<exists>i. ic_is g a = Some i"
    and "\<And>b sb c sc a. ic_sb g b = Some sb \<Longrightarrow> ic_sb g c = Some sc \<Longrightarrow> a \<in> set (sb_instrs sb) \<Longrightarrow>
      a \<in> set (sb_instrs sc) \<Longrightarrow> b = c"
  shows "instrs_ok g"
  unfolding instrs_ok_def using assms by (intro conjI allI impI ballI) blast+

lemma instrs_cong:
  assumes "instrs_ok g" and B: "agree sb_instrs (ic_sb g) (ic_sb h)"
    and I: "\<And>a i. ic_is g a = Some i \<Longrightarrow> \<exists>j. ic_is h a = Some j"
  shows "instrs_ok h"
proof -
  note C = instrs_okD[OF assms(1)] and BD = agreeD[OF B]
  show ?thesis
  proof (rule instrs_okI, goal_cases)
    case (1 b sb) then show ?case using C(1) BD[OF 1] by fastforce
  next
    case (2 b sb a) then show ?case using C(2) BD[OF 2(1)] I by fastforce
  next
    case (3 b sb c sc a)
    obtain sb' sc' where "ic_sb g b = Some sb'" "sb_instrs sb' = sb_instrs sb"
      "ic_sb g c = Some sc'" "sb_instrs sc' = sb_instrs sc"
      using BD[OF 3(1)] BD[OF 3(2)] by blast
    then show ?case using C(3)[of b sb' c sc' a] 3(3,4) by simp
  qed
qed

lemma fresh_okD: "fresh_ok g \<Longrightarrow> ic_fresh g \<le> a \<Longrightarrow> ic_fn g a = None \<and> ic_sb g a = None \<and> ic_is g a = None \<and>
     ic_be g a = None \<and> ic_ce g a = None \<and> ic_re g a = None"
  by (simp add: fresh_ok_def)

section \<open>Up to analysis data\<close>

definition er_sb :: "super_block \<Rightarrow> super_block" where
  "er_sb sb = sb\<lparr>sb_node := node_init, sb_entryState := None, sb_liveness := None\<rparr>"

definition er_fn :: "func \<Rightarrow> func" where
  "er_fn fn = fn\<lparr>fn_node := node_init\<rparr>"

definition er_is :: "instr \<Rightarrow> instr" where
  "er_is i = i\<lparr>is_reencode := True, is_dynInfo := None, is_liveness := None\<rparr>"

definition er :: "icfg \<Rightarrow> icfg" where
  "er g = g\<lparr>ic_node := node_init, ic_fn := map_option er_fn \<circ> ic_fn g, ic_sb := map_option er_sb \<circ> ic_sb g,
     ic_is := map_option er_is \<circ> ic_is g\<rparr>"

lemma er_sb_simps [simp]: "sb_function (er_sb sb) = sb_function sb" "sb_instrs (er_sb sb) = sb_instrs sb"
  "sb_next (er_sb sb) = sb_next sb" "sb_prev (er_sb sb) = sb_prev sb" "sb_in (er_sb sb) = sb_in sb"
  "sb_out (er_sb sb) = sb_out sb" "er_sb (er_sb sb) = er_sb sb"
  "er_sb (sb\<lparr>sb_node := nd\<rparr>) = er_sb sb" "er_sb (sb\<lparr>sb_liveness := l\<rparr>) = er_sb sb"
  "er_sb (sb\<lparr>sb_entryState := s\<rparr>) = er_sb sb"
  by (simp_all add: er_sb_def)

lemma er_fn_simps [simp]: "fn_entry (er_fn fn) = fn_entry fn" "fn_blocks (er_fn fn) = fn_blocks fn"
  "fn_in (er_fn fn) = fn_in fn" "fn_out (er_fn fn) = fn_out fn" "fn_returns (er_fn fn) = fn_returns fn"
  "fn_info (er_fn fn) = fn_info fn" "er_fn (er_fn fn) = er_fn fn" "er_fn (fn\<lparr>fn_node := nd\<rparr>) = er_fn fn"
  by (simp_all add: er_fn_def)

lemma er_is_simps [simp]: "is_ins (er_is i) = is_ins i" "is_branchEdge (er_is i) = is_branchEdge i"
  "is_callEdge (er_is i) = is_callEdge i" "is_returnEdge (er_is i) = is_returnEdge i" "er_is (er_is i) = er_is i"
  "has_type t (er_is i) = has_type t i" "isBranch (er_is i) = isBranch i" "isCall (er_is i) = isCall i"
  "isRet (er_is i) = isRet i"
  by (simp_all add: er_is_def has_type_def isBranch_def isCall_def isRet_def)

lemma er_simps [simp]: "ic_fn (er g) a = map_option er_fn (ic_fn g a)" "ic_sb (er g) a = map_option er_sb (ic_sb g a)"
  "ic_is (er g) a = map_option er_is (ic_is g a)" "ic_be (er g) = ic_be g" "ic_ce (er g) = ic_ce g" "ic_re (er g) = ic_re g"
  "ic_fresh (er g) = ic_fresh g" "ic_functions (er g) = ic_functions g" "ic_entry (er g) = ic_entry g"
  by (simp_all add: er_def)

lemma live_er [simp]: "live_be (er g) = live_be g" "live_ce (er g) = live_ce g" "live_re (er g) = live_re g"
  by (simp_all add: fun_eq_iff live_defs)

text \<open>Two graphs that differ in analysis data only are alike, and the invariant does not tell them apart.\<close>

definition alike :: "icfg \<Rightarrow> icfg \<Rightarrow> bool" where
  "alike g h \<longleftrightarrow> er g = er h"

lemma alike_refl [simp]: "alike g g"
  and alike_sym: "alike g h \<Longrightarrow> alike h g"
  and alike_trans [trans]: "alike g h \<Longrightarrow> alike h k \<Longrightarrow> alike g k"
  by (simp_all add: alike_def)

lemma ok_er: "icfg_ok (er g) = icfg_ok g"
proof -
  have "blocks_ok (er g) = blocks_ok g" by (fastforce simp: blocks_ok_def)
  moreover have "instrs_ok (er g) = instrs_ok g" unfolding instrs_ok_def by fastforce
  moreover have "chain_ok (er g) = chain_ok g" unfolding chain_ok_def by fastforce
  moreover have "edges_ok (er g) = edges_ok g" unfolding edges_ok_def by fastforce
  moreover have "calls_ok (er g) = calls_ok g" unfolding calls_ok_def by fastforce
  moreover have "returns_ok (er g) = returns_ok g" unfolding returns_ok_def by fastforce
  moreover have "fresh_ok (er g) = fresh_ok g" unfolding fresh_ok_def by simp
  ultimately show ?thesis by (simp add: icfg_ok_def)
qed

lemma alike_ok: "alike g h \<Longrightarrow> icfg_ok g \<longleftrightarrow> icfg_ok h"
  using ok_er by (metis alike_def)

lemma er_push [simp]:
  "er_sb (sb\<lparr>sb_function := f\<rparr>) = (er_sb sb)\<lparr>sb_function := f\<rparr>"
  "er_sb (sb\<lparr>sb_instrs := is\<rparr>) = (er_sb sb)\<lparr>sb_instrs := is\<rparr>"
  "er_sb (sb\<lparr>sb_next := n\<rparr>) = (er_sb sb)\<lparr>sb_next := n\<rparr>"
  "er_sb (sb\<lparr>sb_prev := n\<rparr>) = (er_sb sb)\<lparr>sb_prev := n\<rparr>"
  "er_sb (sb\<lparr>sb_in := es\<rparr>) = (er_sb sb)\<lparr>sb_in := es\<rparr>"
  "er_sb (sb\<lparr>sb_out := es\<rparr>) = (er_sb sb)\<lparr>sb_out := es\<rparr>"
  "er_fn (fn\<lparr>fn_entry := b\<rparr>) = (er_fn fn)\<lparr>fn_entry := b\<rparr>"
  "er_fn (fn\<lparr>fn_blocks := bs\<rparr>) = (er_fn fn)\<lparr>fn_blocks := bs\<rparr>"
  "er_fn (fn\<lparr>fn_in := es\<rparr>) = (er_fn fn)\<lparr>fn_in := es\<rparr>"
  "er_fn (fn\<lparr>fn_out := es\<rparr>) = (er_fn fn)\<lparr>fn_out := es\<rparr>"
  "er_fn (fn\<lparr>fn_returns := es\<rparr>) = (er_fn fn)\<lparr>fn_returns := es\<rparr>"
  "er_is (i\<lparr>is_branchEdge := x\<rparr>) = (er_is i)\<lparr>is_branchEdge := x\<rparr>"
  "er_is (i\<lparr>is_callEdge := x\<rparr>) = (er_is i)\<lparr>is_callEdge := x\<rparr>"
  "er_is (i\<lparr>is_returnEdge := x\<rparr>) = (er_is i)\<lparr>is_returnEdge := x\<rparr>"
  by (simp_all add: er_sb_def er_fn_def er_is_def)

lemma er_upd [simp]:
  "er (g\<lparr>ic_sb := m\<rparr>) = (er g)\<lparr>ic_sb := map_option er_sb \<circ> m\<rparr>"
  "er (g\<lparr>ic_fn := mf\<rparr>) = (er g)\<lparr>ic_fn := map_option er_fn \<circ> mf\<rparr>"
  "er (g\<lparr>ic_is := mi\<rparr>) = (er g)\<lparr>ic_is := map_option er_is \<circ> mi\<rparr>"
  "er (g\<lparr>ic_be := mb\<rparr>) = (er g)\<lparr>ic_be := mb\<rparr>"
  "er (g\<lparr>ic_ce := mc\<rparr>) = (er g)\<lparr>ic_ce := mc\<rparr>"
  "er (g\<lparr>ic_re := mr\<rparr>) = (er g)\<lparr>ic_re := mr\<rparr>"
  "er (g\<lparr>ic_fresh := n\<rparr>) = (er g)\<lparr>ic_fresh := n\<rparr>"
  "er (g\<lparr>ic_node := nd\<rparr>) = er g"
  by (simp_all add: er_def)

lemma alike_sb: "alike h g \<Longrightarrow> ic_sb g b = Some sb \<Longrightarrow> \<exists>sb'. ic_sb h b = Some sb' \<and> er_sb sb' = er_sb sb"
  by (metis alike_def er_simps(2) map_option_eq_Some)

lemma alike_is: "alike h g \<Longrightarrow> ic_is g b = Some i \<Longrightarrow> \<exists>i'. ic_is h b = Some i' \<and> er_is i' = er_is i"
  by (metis alike_def er_simps(3) map_option_eq_Some)

lemma alike_fn: "alike h g \<Longrightarrow> ic_fn g f = Some fn \<Longrightarrow> \<exists>fn'. ic_fn h f = Some fn' \<and> er_fn fn' = er_fn fn"
  by (metis alike_def er_simps(1) map_option_eq_Some)

lemma alike_edges: "alike h g \<Longrightarrow> ic_be h = ic_be g" "alike h g \<Longrightarrow> ic_ce h = ic_ce g"
  "alike h g \<Longrightarrow> ic_re h = ic_re g" "alike h g \<Longrightarrow> ic_fresh h = ic_fresh g" "alike h g \<Longrightarrow> ic_functions h = ic_functions g"
  by (metis alike_def er_simps(4), metis alike_def er_simps(5), metis alike_def er_simps(6), metis alike_def er_simps(7),
      metis alike_def er_simps(8))

lemma er_sbD: "er_sb x = er_sb y \<Longrightarrow> sb_function x = sb_function y \<and> sb_instrs x = sb_instrs y \<and>
    sb_next x = sb_next y \<and> sb_prev x = sb_prev y \<and> sb_in x = sb_in y \<and> sb_out x = sb_out y"
  by (metis er_sb_simps(1-6))

lemma er_fnD: "er_fn x = er_fn y \<Longrightarrow> fn_entry x = fn_entry y \<and> fn_blocks x = fn_blocks y \<and>
    fn_in x = fn_in y \<and> fn_out x = fn_out y \<and> fn_returns x = fn_returns y"
  by (metis er_fn_simps(1-5))

lemma er_isD: "er_is x = er_is y \<Longrightarrow> is_ins x = is_ins y \<and> is_branchEdge x = is_branchEdge y \<and>
    is_callEdge x = is_callEdge y \<and> is_returnEdge x = is_returnEdge y \<and> isBranch x = isBranch y \<and>
    isCall x = isCall y \<and> isRet x = isRet y"
  by (metis er_is_simps)

text \<open>Writing an object to two graphs that are alike.\<close>

lemma alike_put:
  "alike h g \<Longrightarrow> er_sb x = er_sb y \<Longrightarrow> alike (h\<lparr>ic_sb := (ic_sb h)(b \<mapsto> x)\<rparr>) (g\<lparr>ic_sb := (ic_sb g)(b \<mapsto> y)\<rparr>)"
  "alike h g \<Longrightarrow> er_fn fx = er_fn fy \<Longrightarrow> alike (h\<lparr>ic_fn := (ic_fn h)(b \<mapsto> fx)\<rparr>) (g\<lparr>ic_fn := (ic_fn g)(b \<mapsto> fy)\<rparr>)"
  "alike h g \<Longrightarrow> er_is i = er_is j \<Longrightarrow> alike (h\<lparr>ic_is := (ic_is h)(b \<mapsto> i)\<rparr>) (g\<lparr>ic_is := (ic_is g)(b \<mapsto> j)\<rparr>)"
  "alike h g \<Longrightarrow> alike (h\<lparr>ic_be := (ic_be h)(b \<mapsto> ed)\<rparr>) (g\<lparr>ic_be := (ic_be g)(b \<mapsto> ed)\<rparr>)"
  "alike h g \<Longrightarrow> alike (h\<lparr>ic_ce := (ic_ce h)(b \<mapsto> ce)\<rparr>) (g\<lparr>ic_ce := (ic_ce g)(b \<mapsto> ce)\<rparr>)"
  "alike h g \<Longrightarrow> alike (h\<lparr>ic_re := (ic_re h)(b \<mapsto> re)\<rparr>) (g\<lparr>ic_re := (ic_re g)(b \<mapsto> re)\<rparr>)"
proof -
  assume a: "alike h g"
  then have e: "er h = er g" by (simp add: alike_def)
  have m: "map_option er_sb \<circ> ic_sb h = map_option er_sb \<circ> ic_sb g" "map_option er_fn \<circ> ic_fn h = map_option er_fn \<circ> ic_fn g"
    "map_option er_is \<circ> ic_is h = map_option er_is \<circ> ic_is g"
    using er_simps(1-3)[of h] er_simps(1-3)[of g] e by (auto simp: fun_eq_iff)
  note E = alike_edges[OF a]
  show "er_sb x = er_sb y \<Longrightarrow> alike (h\<lparr>ic_sb := (ic_sb h)(b \<mapsto> x)\<rparr>) (g\<lparr>ic_sb := (ic_sb g)(b \<mapsto> y)\<rparr>)"
    "er_fn fx = er_fn fy \<Longrightarrow> alike (h\<lparr>ic_fn := (ic_fn h)(b \<mapsto> fx)\<rparr>) (g\<lparr>ic_fn := (ic_fn g)(b \<mapsto> fy)\<rparr>)"
    "er_is i = er_is j \<Longrightarrow> alike (h\<lparr>ic_is := (ic_is h)(b \<mapsto> i)\<rparr>) (g\<lparr>ic_is := (ic_is g)(b \<mapsto> j)\<rparr>)"
    "alike (h\<lparr>ic_be := (ic_be h)(b \<mapsto> ed)\<rparr>) (g\<lparr>ic_be := (ic_be g)(b \<mapsto> ed)\<rparr>)"
    "alike (h\<lparr>ic_ce := (ic_ce h)(b \<mapsto> ce)\<rparr>) (g\<lparr>ic_ce := (ic_ce g)(b \<mapsto> ce)\<rparr>)"
    "alike (h\<lparr>ic_re := (ic_re h)(b \<mapsto> re)\<rparr>) (g\<lparr>ic_re := (ic_re g)(b \<mapsto> re)\<rparr>)"
    using m E e by (simp_all add: alike_def map_option_o_map_upd)
qed

section \<open>Invalidating\<close>

definition parents :: "icfg \<Rightarrow> bool" where
  "parents g \<longleftrightarrow> (\<forall>b sb. ic_sb g b = Some sb \<longrightarrow> (\<exists>fn. ic_fn g (sb_function sb) = Some fn))"

lemma ok_parents: "icfg_ok g \<Longrightarrow> parents g"
  unfolding icfg_ok_def blocks_ok_def parents_def by blast

lemma parents_alike: "alike h g \<Longrightarrow> parents h = parents g"
proof -
  have "parents (er g) = parents g" for g by (fastforce simp: parents_def)
  then show "alike h g \<Longrightarrow> parents h = parents g" by (metis alike_def)
qed

lemma parents_put [simp]: "parents g \<Longrightarrow> ic_sb g b = Some sb \<Longrightarrow> sb_function sb' = sb_function sb \<Longrightarrow>
    parents (g\<lparr>ic_sb := (ic_sb g)(b \<mapsto> sb')\<rparr>)"
  by (auto simp: parents_def)

lemma er_invalid [simp]: "er_sb (sb\<lparr>sb_node := set_invalid an nd\<rparr>) = er_sb sb"
  by simp

lemma alike_node [simp]: "alike (g\<lparr>ic_node := nd\<rparr>) g"
  by (simp add: alike_def)

lemma alike_same_fn: "ic_fn g f = Some fn \<Longrightarrow> er_fn x = er_fn fn \<Longrightarrow> alike (g\<lparr>ic_fn := (ic_fn g)(f \<mapsto> x)\<rparr>) g"
  using alike_put(2)[OF alike_refl, of x fn g f] by (simp add: fun_upd_idem)

lemma alike_same_sb: "ic_sb g b = Some sb \<Longrightarrow> er_sb x = er_sb sb \<Longrightarrow> alike (g\<lparr>ic_sb := (ic_sb g)(b \<mapsto> x)\<rparr>) g"
  using alike_put(1)[OF alike_refl, of x sb g b] by (simp add: fun_upd_idem)

lemma alike_same_is: "ic_is g a = Some i \<Longrightarrow> er_is x = er_is i \<Longrightarrow> alike (g\<lparr>ic_is := (ic_is g)(a \<mapsto> x)\<rparr>) g"
  using alike_put(3)[OF alike_refl, of x i g a] by (simp add: fun_upd_idem)

lemma invalidate_fn_total:
  assumes "ic_fn g f = Some fn"
  shows "\<exists>h. invalidate_fn an f g = Some h \<and> alike h g"
proof -
  have "alike (g\<lparr>ic_fn := (ic_fn g)(f \<mapsto> fn\<lparr>fn_node := set_invalid an (fn_node fn)\<rparr>)\<rparr>) g"
    by (rule alike_same_fn[OF assms]) simp
  moreover have "alike (invalidate_icfg an g) g" for g
    by (simp add: invalidate_icfg_def)
  ultimately show ?thesis
    using assms by (auto simp: invalidate_fn_def upd_fn_def intro: alike_trans)
qed

lemma invalidate_total:
  assumes "parents g" and "ic_sb g b = Some sb"
  shows "\<exists>h. invalidate_sb an b g = Some h \<and> alike h g"
proof -
  obtain fn where fn: "ic_fn g (sb_function sb) = Some fn" using assms by (auto simp: parents_def)
  let ?g = "g\<lparr>ic_sb := (ic_sb g)(b \<mapsto> sb\<lparr>sb_node := set_invalid an (sb_node sb)\<rparr>)\<rparr>"
  have "alike ?g g" by (rule alike_same_sb[OF assms(2)]) simp
  moreover obtain h where "invalidate_fn an (sb_function sb) ?g = Some h" "alike h ?g"
    using invalidate_fn_total[of ?g "sb_function sb" fn an] fn by auto
  ultimately show ?thesis
    using assms(2) by (auto simp: invalidate_sb_def upd_sb_def intro: alike_trans)
qed

end
