(* ===== verification/Liveness_Flow.thy ===== *)
theory Liveness_Flow
  imports Liveness Icfg_Ok
begin

text \<open>
  What the analysis of one instruction and of the instructions of a block computes, on sets of
  registers, and that \<open>processInstruction\<close> and \<open>process_instructions\<close> compute it.
\<close>

instance subregister :: finite
proof
  have "UNIV \<subseteq> set all_subregisters" using in_all_subregisters by blast
  then show "finite (UNIV :: subregister set)" by (rule finite_subset) simp
qed

type_synonym regs = "subregister set"

section \<open>One instruction\<close>

definition dead_on :: "instr \<Rightarrow> flow_info \<Rightarrow> regs \<Rightarrow> bool" where
  "dead_on i fi L \<longleftrightarrow> \<not> isBranch i \<and> \<not> isCall i \<and> \<not> isRet i \<and> \<not> fi_mayWriteMem fi \<and>
     L \<inter> (regs_in (fi_written fi) \<union> regs_in (fi_condWritten fi)) = {}"

definition before_regs :: "regs \<Rightarrow> (nat \<Rightarrow> regs) \<Rightarrow> instr \<Rightarrow> flow_info \<Rightarrow> regs \<Rightarrow> regs" where
  "before_regs R d i fi L =
     (if fi_willExecute fi = TFalse then L
      else if isRet i then R
      else if isCall i then UNIV
      else if isBranch i \<and> is_branchEdge i = None then UNIV
      else (if fi_willExecute fi = TTrue then L - regs_in (fi_written fi) else L) \<union> regs_in (fi_read fi) \<union>
        (case is_branchEdge i of Some e \<Rightarrow> if isBranch i then d e else {} | None \<Rightarrow> {})) \<union>
     regs_in (fi_predicate fi)"

definition live_regs :: "regs \<Rightarrow> (nat \<Rightarrow> regs) \<Rightarrow> instr \<Rightarrow> flow_info \<Rightarrow> regs \<Rightarrow> regs" where
  "live_regs R d i fi L = (if dead_on i fi L then L else before_regs R d i fi L)"

lemma is_dead_iff: "is_dead i fi live \<longleftrightarrow> dead_on i fi (regs_in live)"
  by (auto simp: is_dead_def dead_on_def mask_simps)

lemma live_regs_mono:
  assumes "\<And>e. d e \<subseteq> d' e" and "L \<subseteq> L'"
  shows "live_regs R d i fi L \<subseteq> live_regs R d' i fi L'"
proof (cases "dead_on i fi L'")
  case True
  then have "dead_on i fi L" using assms(2) by (auto simp: dead_on_def)
  then show ?thesis using True assms(2) by (simp add: live_regs_def)
next
  case False
  show ?thesis
  proof (cases "dead_on i fi L")
    case True
    then have "\<not> isBranch i" "\<not> isCall i" "\<not> isRet i" "L \<inter> regs_in (fi_written fi) = {}" by (auto simp: dead_on_def)
    then have "L \<subseteq> before_regs R d' i fi L'" using assms(2) by (auto simp: before_regs_def split: option.split)
    then show ?thesis using True False by (simp add: live_regs_def)
  next
    case nd: False
    have "before_regs R d i fi L \<subseteq> before_regs R d' i fi L'"
      using assms(2) assms(1)[of "the (is_branchEdge i)"] by (auto simp: before_regs_def split: option.split)
    then show ?thesis using nd False by (simp add: live_regs_def)
  qed
qed

text \<open>What the analysis leaves in an instruction: nothing in a dead one.\<close>

type_synonym remark = "(regs \<times> regs) option"

definition remark_of :: "instr \<Rightarrow> remark" where
  "remark_of i = map_option (\<lambda>d. (regs_in (ld_out d), regs_in (ld_in d))) (is_liveness i)"

definition remark_for :: "regs \<Rightarrow> (nat \<Rightarrow> regs) \<Rightarrow> instr \<Rightarrow> flow_info \<Rightarrow> regs \<Rightarrow> remark" where
  "remark_for R d i fi L = (if dead_on i fi L then None else Some (L, before_regs R d i fi L))"

section \<open>The instructions of a block, from the last to the first\<close>

abbreviation info_at :: "icfg \<Rightarrow> nat \<Rightarrow> flow_info" where
  "info_at g a \<equiv> the (flow_info_of (the (ic_is g a)))"

primrec live_list :: "regs \<Rightarrow> icfg \<Rightarrow> (nat \<Rightarrow> regs) \<Rightarrow> nat list \<Rightarrow> regs \<Rightarrow> regs" where
  "live_list R g d [] L = L"
| "live_list R g d (a # as) L = live_list R g d as (live_regs R d (the (ic_is g a)) (info_at g a) L)"

primrec remark_list :: "regs \<Rightarrow> icfg \<Rightarrow> (nat \<Rightarrow> regs) \<Rightarrow> nat list \<Rightarrow> regs \<Rightarrow> remark list" where
  "remark_list R g d [] L = []"
| "remark_list R g d (a # as) L = remark_for R d (the (ic_is g a)) (info_at g a) L #
     remark_list R g d as (live_regs R d (the (ic_is g a)) (info_at g a) L)"

lemma live_list_mono: "(\<And>e. d e \<subseteq> d' e) \<Longrightarrow> L \<subseteq> L' \<Longrightarrow> live_list R g d as L \<subseteq> live_list R g d' as L'"
proof (induction as arbitrary: L L')
  case (Cons a as)
  show ?case by (simp, rule Cons.IH[OF Cons.prems(1) live_regs_mono[OF Cons.prems]])
qed simp

text \<open>The data is read at the edges of the branches of the list only.\<close>

definition same_targets :: "icfg \<Rightarrow> nat list \<Rightarrow> (nat \<Rightarrow> regs) \<Rightarrow> (nat \<Rightarrow> regs) \<Rightarrow> bool" where
  "same_targets g as d d' \<longleftrightarrow> (\<forall>a\<in>set as. \<forall>i e. ic_is g a = Some i \<longrightarrow> is_branchEdge i = Some e \<longrightarrow> d e = d' e)"

lemma before_regs_cong: "(\<And>e. is_branchEdge i = Some e \<Longrightarrow> d e = d' e) \<Longrightarrow> before_regs R d i fi L = before_regs R d' i fi L"
  by (auto simp: before_regs_def split: option.split)

lemma lists_cong:
  assumes "same_targets g as d d'" and "\<forall>a\<in>set as. ic_is g a \<noteq> None"
  shows "live_list R g d as L = live_list R g d' as L" "remark_list R g d as L = remark_list R g d' as L"
proof -
  have b: "before_regs R d (the (ic_is g a)) fi L = before_regs R d' (the (ic_is g a)) fi L" if "a \<in> set as" for a fi L
    using assms that by (intro before_regs_cong) (auto simp: same_targets_def)
  then show "live_list R g d as L = live_list R g d' as L" "remark_list R g d as L = remark_list R g d' as L"
    by (induction as arbitrary: L) (simp_all add: live_regs_def remark_for_def)
qed

section \<open>Graphs that differ in liveness data only\<close>

definition strip_is :: "instr \<Rightarrow> instr" where
  "strip_is i = i\<lparr>is_liveness := None\<rparr>"

definition strip_sb :: "super_block \<Rightarrow> super_block" where
  "strip_sb sb = sb\<lparr>sb_liveness := None, sb_node := (sb_node sb)\<lparr>nd_livenessValid := False, nd_queued := False\<rparr>\<rparr>"

definition same_code :: "icfg \<Rightarrow> icfg \<Rightarrow> bool" where
  "same_code g h \<longleftrightarrow> agree strip_is (ic_is g) (ic_is h) \<and> agree strip_sb (ic_sb g) (ic_sb h) \<and>
     g\<lparr>ic_is := Map.empty, ic_sb := Map.empty\<rparr> = h\<lparr>ic_is := Map.empty, ic_sb := Map.empty\<rparr>"

lemma same_code_refl [simp]: "same_code g g"
  and same_code_trans [trans]: "same_code g h \<Longrightarrow> same_code h k \<Longrightarrow> same_code g k"
  by (auto simp: same_code_def intro: agree_trans)

lemma same_code_sym: "same_code g h \<Longrightarrow> same_code h g"
  by (simp add: same_code_def agree_sym)

lemma strip_is_simps [simp]: "is_ins (strip_is i) = is_ins i" "is_dynInfo (strip_is i) = is_dynInfo i"
  "is_branchEdge (strip_is i) = is_branchEdge i" "isBranch (strip_is i) = isBranch i" "isCall (strip_is i) = isCall i"
  "isRet (strip_is i) = isRet i" "er_is (strip_is i) = er_is i" "getPredicate (strip_is i) = getPredicate i"
  by (simp_all add: strip_is_def isBranch_def isCall_def isRet_def has_type_def getPredicate_def er_is_def)

lemma strip_is_flow [simp]: "flow_info_of (strip_is i) = flow_info_of i"
  by (simp only: flow_info_of_def strip_is_simps)

lemma strip_isD:
  assumes "strip_is i = strip_is j"
  shows "is_ins i = is_ins j" "is_dynInfo i = is_dynInfo j" "is_branchEdge i = is_branchEdge j" "isBranch i = isBranch j"
    "isCall i = isCall j" "isRet i = isRet j" "flow_info_of i = flow_info_of j" "er_is i = er_is j"
  using assms by (metis strip_is_simps strip_is_flow)+

lemma strip_sbD: "strip_sb x = strip_sb y \<Longrightarrow> sb_function x = sb_function y \<and> sb_instrs x = sb_instrs y \<and>
    sb_next x = sb_next y \<and> sb_prev x = sb_prev y \<and> sb_in x = sb_in y \<and> sb_out x = sb_out y \<and> er_sb x = er_sb y"
  by (cases x, cases y) (simp add: strip_sb_def er_sb_def)

lemma same_code_is: "same_code g h \<Longrightarrow> ic_is h a = Some i \<Longrightarrow> \<exists>j. ic_is g a = Some j \<and> strip_is j = strip_is i"
  unfolding same_code_def by (blast dest: agreeD)

lemma same_code_sb: "same_code g h \<Longrightarrow> ic_sb h a = Some i \<Longrightarrow> \<exists>j. ic_sb g a = Some j \<and> strip_sb j = strip_sb i"
  unfolding same_code_def by (blast dest: agreeD)

lemma same_code_rest:
  assumes "same_code g h"
  shows "ic_be g = ic_be h" "ic_fn g = ic_fn h" "ic_re g = ic_re h" "ic_ce g = ic_ce h" "ic_fresh g = ic_fresh h"
    "ic_functions g = ic_functions h" "ic_entry g = ic_entry h" "ic_node g = ic_node h"
  using assms by (cases g, cases h, simp add: same_code_def)+

lemma same_code_put_is: "ic_is g a = Some i \<Longrightarrow> strip_is j = strip_is i \<Longrightarrow> same_code (g\<lparr>ic_is := (ic_is g)(a \<mapsto> j)\<rparr>) g"
  by (simp add: same_code_def agree_put)

lemma same_code_put_sb: "ic_sb g b = Some x \<Longrightarrow> strip_sb y = strip_sb x \<Longrightarrow> same_code (g\<lparr>ic_sb := (ic_sb g)(b \<mapsto> y)\<rparr>) g"
  by (simp add: same_code_def agree_put)

lemma same_code_alike:
  assumes "same_code g h"
  shows "alike g h"
proof -
  have "map_option er_is (ic_is g a) = map_option er_is (ic_is h a)" for a
    using assms same_code_is[OF assms, of a] same_code_is[OF same_code_sym[OF assms], of a]
    by (cases "ic_is g a"; cases "ic_is h a") (auto dest: strip_isD)
  moreover have "map_option er_sb (ic_sb g a) = map_option er_sb (ic_sb h a)" for a
    using assms same_code_sb[OF assms, of a] same_code_sb[OF same_code_sym[OF assms], of a]
    by (cases "ic_sb g a"; cases "ic_sb h a") (auto dest: strip_sbD)
  ultimately show ?thesis
    using same_code_rest[OF assms] by (simp add: alike_def er_def fun_eq_iff)
qed

section \<open>The data of a graph as sets\<close>

definition data_in :: "icfg \<Rightarrow> nat \<Rightarrow> regs" where
  "data_in g b = (case ic_sb g b of Some sb \<Rightarrow> (case sb_liveness sb of Some d \<Rightarrow> regs_in (ld_in d) | None \<Rightarrow> {}) | None \<Rightarrow> {})"

abbreviation at_edge :: "icfg \<Rightarrow> (nat \<Rightarrow> regs) \<Rightarrow> nat \<Rightarrow> regs" where
  "at_edge g d e \<equiv> d (be_dst (the (ic_be g e)))"

definition edge_known :: "icfg \<Rightarrow> nat \<Rightarrow> bool" where
  "edge_known g a \<longleftrightarrow> (\<exists>i. ic_is g a = Some i \<and> flow_info_of i \<noteq> None \<and>
     (\<forall>e. is_branchEdge i = Some e \<longrightarrow> (\<exists>ed. ic_be g e = Some ed \<and> ic_sb g (be_dst ed) \<noteq> None)))"

lemma branch_live_regs:
  assumes "\<And>e. is_branchEdge i = Some e \<Longrightarrow> \<exists>ed. ic_be g e = Some ed \<and> ic_sb g (be_dst ed) \<noteq> None"
  shows "\<exists>l. branch_live g i m = Some l \<and> regs_in l =
      (if isBranch i \<and> is_branchEdge i = None then UNIV
       else regs_in m \<union> (case is_branchEdge i of Some e \<Rightarrow> if isBranch i then at_edge g (data_in g) e else {} | None \<Rightarrow> {}))"
proof (cases "is_branchEdge i")
  case (Some e)
  then obtain ed db where "ic_be g e = Some ed" "ic_sb g (be_dst ed) = Some db" using assms by fastforce
  then show ?thesis using Some
    by (cases "isBranch i"; cases "sb_liveness db") (simp_all add: branch_live_def data_in_def mask_simps)
qed (simp add: branch_live_def mask_simps)

lemma live_before_regs:
  assumes "\<And>e. is_branchEdge i = Some e \<Longrightarrow> \<exists>ed. ic_be g e = Some ed \<and> ic_sb g (be_dst ed) \<noteq> None"
  shows "\<exists>l. live_before ret g i fi live = Some l \<and>
    regs_in l = before_regs (regs_in ret) (at_edge g (data_in g)) i fi (regs_in live)"
proof (cases "fi_willExecute fi = TFalse")
  case True
  then show ?thesis by (simp add: live_before_def before_regs_def mask_simps)
next
  case False
  let ?m = "mask_add (if fi_willExecute fi = TTrue then mask_sub live (fi_written fi) else live) (fi_read fi)"
  let ?m = "if isCall i then mask_fill else if isRet i then ret else ?m"
  obtain l where l: "branch_live g i ?m = Some l" "regs_in l =
      (if isBranch i \<and> is_branchEdge i = None then UNIV
       else regs_in ?m \<union> (case is_branchEdge i of Some e \<Rightarrow> if isBranch i then at_edge g (data_in g) e else {} | None \<Rightarrow> {}))"
    using branch_live_regs[OF assms] by blast
  have e: "live_before ret g i fi live = Some (mask_add l (fi_predicate fi))"
    using False l(1) by (cases "fi_willExecute fi"; cases "isCall i"; cases "isRet i") (simp_all add: live_before_def Let_def)
  have t: "isCall i \<longrightarrow> \<not> isBranch i" "isRet i \<longrightarrow> \<not> isBranch i" "isRet i \<longrightarrow> \<not> isCall i"
    using one_type by blast+
  have "regs_in l \<union> regs_in (fi_predicate fi) = before_regs (regs_in ret) (at_edge g (data_in g)) i fi (regs_in live)"
    using False t unfolding l(2) before_regs_def by (auto simp: mask_simps split: option.splits)
  then show ?thesis by (simp add: e mask_simps)
qed

section \<open>The analysis of instructions\<close>

abbreviation remarks_at :: "icfg \<Rightarrow> nat list \<Rightarrow> remark list" where
  "remarks_at g as \<equiv> map (\<lambda>a. remark_of (the (ic_is g a))) as"

lemma processInstruction_spec:
  assumes "edge_known g a"
  shows "\<exists>live' j. processInstruction ret a live g = Some (live', g\<lparr>ic_is := (ic_is g)(a \<mapsto> j)\<rparr>) \<and>
    strip_is j = strip_is (the (ic_is g a)) \<and>
    regs_in live' = live_regs (regs_in ret) (at_edge g (data_in g)) (the (ic_is g a)) (info_at g a) (regs_in live) \<and>
    remark_of j = remark_for (regs_in ret) (at_edge g (data_in g)) (the (ic_is g a)) (info_at g a) (regs_in live)"
proof -
  obtain i fi where i: "ic_is g a = Some i" and fi: "flow_info_of i = Some fi"
    using assms by (auto simp: edge_known_def)
  have "\<exists>l. live_before ret g i fi live = Some l \<and>
      regs_in l = before_regs (regs_in ret) (at_edge g (data_in g)) i fi (regs_in live)"
    by (rule live_before_regs) (use assms i in \<open>auto simp: edge_known_def\<close>)
  then obtain l where l: "live_before ret g i fi live = Some l"
    "regs_in l = before_regs (regs_in ret) (at_edge g (data_in g)) i fi (regs_in live)" by blast
  note defs = processInstruction_def upd_is_def is_dead_iff live_regs_def remark_for_def remark_of_def strip_is_def
    set_is_liveness_def
  show ?thesis
  proof (cases "dead_on i fi (regs_in live)")
    case True
    then show ?thesis using i fi
      by (intro exI[of _ live] exI[of _ "i\<lparr>is_liveness := None\<rparr>"]) (simp add: defs)
  next
    case False
    then show ?thesis using i fi l
      by (intro exI[of _ l] exI[of _ "i\<lparr>is_liveness := Some \<lparr>ld_out = live, ld_in = l\<rparr>\<rparr>"]) (simp add: defs)
  qed
qed

lemma data_in_is [simp]: "data_in (g\<lparr>ic_is := m\<rparr>) = data_in g"
  by (simp add: data_in_def fun_eq_iff)

lemma process_instructions_spec:
  assumes "\<forall>a\<in>set as. edge_known g a" and "distinct as"
  shows "\<exists>live' m. process_instructions ret as live g = Some (live', g\<lparr>ic_is := m\<rparr>) \<and>
    same_code (g\<lparr>ic_is := m\<rparr>) g \<and>
    regs_in live' = live_list (regs_in ret) g (at_edge g (data_in g)) as (regs_in live) \<and>
    remarks_at (g\<lparr>ic_is := m\<rparr>) as = remark_list (regs_in ret) g (at_edge g (data_in g)) as (regs_in live) \<and>
    (\<forall>a. a \<notin> set as \<longrightarrow> m a = ic_is g a)"
  using assms
proof (induction as arbitrary: g live)
  case Nil
  then show ?case by (intro exI[of _ live] exI[of _ "ic_is g"]) simp
next
  case (Cons a as)
  let ?d = "at_edge g (data_in g)" and ?R = "regs_in ret"
  obtain l j where j: "processInstruction ret a live g = Some (l, g\<lparr>ic_is := (ic_is g)(a \<mapsto> j)\<rparr>)"
    "strip_is j = strip_is (the (ic_is g a))"
    "regs_in l = live_regs ?R ?d (the (ic_is g a)) (info_at g a) (regs_in live)"
    "remark_of j = remark_for ?R ?d (the (ic_is g a)) (info_at g a) (regs_in live)"
    using processInstruction_spec[of g a ret live] Cons.prems(1) by auto
  let ?g = "g\<lparr>ic_is := (ic_is g)(a \<mapsto> j)\<rparr>"
  have a: "a \<notin> set as" "distinct as" using Cons.prems(2) by auto
  obtain i where i: "ic_is g a = Some i" using Cons.prems(1) by (auto simp: edge_known_def)
  have same: "same_code ?g g" by (rule same_code_put_is[OF i]) (use j(2) i in simp)
  have "\<forall>b\<in>set as. edge_known ?g b" using Cons.prems a by (auto simp: edge_known_def)
  from Cons.IH[OF this a(2), of l] obtain live' m where m: "process_instructions ret as l ?g = Some (live', ?g\<lparr>ic_is := m\<rparr>)"
    "same_code (?g\<lparr>ic_is := m\<rparr>) ?g"
    "regs_in live' = live_list ?R ?g (at_edge ?g (data_in ?g)) as (regs_in l)"
    "remarks_at (?g\<lparr>ic_is := m\<rparr>) as = remark_list ?R ?g (at_edge ?g (data_in ?g)) as (regs_in l)"
    "\<forall>b. b \<notin> set as \<longrightarrow> m b = ic_is ?g b"
    by blast
  have lists: "live_list ?R ?g d as L = live_list ?R g d as L" "remark_list ?R ?g d as L = remark_list ?R g d as L" for d L
    using a(1) by (induction as arbitrary: L) auto
  have ma: "m a = Some j" using m(5) a(1) by simp
  show ?case
    using same_code_trans[OF m(2) same] m(1,3-5) j(1,3,4) ma a(1)
    by (intro exI[of _ live'] exI[of _ m]) (simp add: lists)
qed

end
