(* ===== verification/Worklist.thy ===== *)
theory Worklist
  imports Prelude
begin

text \<open>
  The backward analysis with a queue of blocks, as an interface: a client gives the successor
  in the fallthrough chain, the blocks that branch to a block, and a monotone transfer
  function, and gets that the loop ends, that its assertions hold, and that what it computes
  is the least solution on the blocks from which a start block can be reached.
\<close>

record ('b, 'r, 'n) work =
  wk_data :: "'b \<Rightarrow> 'r set"     \<comment> \<open>what is live at the start; empty without data\<close>
  wk_has :: "'b set"           \<comment> \<open>the blocks with data\<close>
  wk_note :: "'b \<Rightarrow> 'n"       \<comment> \<open>what the last analysis of a block has left in it\<close>
  wk_valid :: "'b set"
  wk_queue :: "'b list"

text \<open>Blocks that are in the queue, or that wait for a successor in the chain that is.\<close>

inductive waiting :: "('b \<Rightarrow> 'b option) \<Rightarrow> 'b set \<Rightarrow> 'b set \<Rightarrow> 'b \<Rightarrow> bool" for nxt has q where
  queued: "b \<in> q \<Longrightarrow> waiting nxt has q b"
| next_waits: "nxt b = Some n \<Longrightarrow> n \<notin> has \<Longrightarrow> waiting nxt has q n \<Longrightarrow> waiting nxt has q b"

inductive_cases waitingE: "waiting nxt has q b"

locale backward_analysis =
  fixes blocks :: "'b set"
    and nxt :: "'b \<Rightarrow> 'b option"
    and preds :: "'b \<Rightarrow> 'b list"        \<comment> \<open>the sources of the edges into a block, and the block in front of it\<close>
    and transfer :: "('b \<Rightarrow> 'r::finite set) \<Rightarrow> 'b \<Rightarrow> 'r set \<Rightarrow> 'r set"
    and remark :: "('b \<Rightarrow> 'r set) \<Rightarrow> 'b \<Rightarrow> 'r set \<Rightarrow> 'n"
    and note0 :: "'b \<Rightarrow> 'n"
    and starts :: "'b list"
  assumes finite_blocks: "finite blocks"
    and next_in: "b \<in> blocks \<Longrightarrow> nxt b = Some n \<Longrightarrow> n \<in> blocks"
    and preds_in: "b \<in> blocks \<Longrightarrow> set (preds b) \<subseteq> blocks"
    and next_pred: "b \<in> blocks \<Longrightarrow> nxt b = Some n \<Longrightarrow> b \<in> set (preds n)"
    and no_cycle: "acyclic {(b, n). nxt b = Some n}"
    and transfer_mono: "(\<And>c. d c \<subseteq> d' c) \<Longrightarrow> l \<subseteq> l' \<Longrightarrow> transfer d b l \<subseteq> transfer d' b l'"
    and transfer_local: "b \<in> blocks \<Longrightarrow> (\<And>c. c \<in> blocks \<Longrightarrow> b \<in> set (preds c) \<Longrightarrow> d c = d' c) \<Longrightarrow> transfer d b l = transfer d' b l"
    and notes_local: "b \<in> blocks \<Longrightarrow> (\<And>c. c \<in> blocks \<Longrightarrow> b \<in> set (preds c) \<Longrightarrow> d c = d' c) \<Longrightarrow> remark d b l = remark d' b l"
    and starts_in: "set starts \<subseteq> blocks" and starts_distinct: "distinct starts"
begin

definition out_of :: "('b \<Rightarrow> 'r set) \<Rightarrow> 'b \<Rightarrow> 'r set" where
  "out_of d b = (case nxt b of Some n \<Rightarrow> d n | None \<Rightarrow> {})"

abbreviation entry :: "('b \<Rightarrow> 'r set) \<Rightarrow> 'b \<Rightarrow> 'r set" where
  "entry d b \<equiv> transfer d b (out_of d b)"

abbreviation entry_notes :: "('b \<Rightarrow> 'r set) \<Rightarrow> 'b \<Rightarrow> 'n" where
  "entry_notes d b \<equiv> remark d b (out_of d b)"

text \<open>Appending the predecessors that are neither valid nor queued.\<close>

primrec push :: "'b list \<Rightarrow> 'b set \<Rightarrow> 'b list \<Rightarrow> 'b list" where
  "push [] valid q = q"
| "push (p # ps) valid q = push ps valid (if p \<notin> valid \<and> p \<notin> set q then q @ [p] else q)"

definition step :: "'b \<Rightarrow> ('b, 'r, 'n) work \<Rightarrow> ('b, 'r, 'n) work" where
  "step b s =
     (case nxt b of
        Some n \<Rightarrow>
          if n \<notin> wk_has s then s\<lparr>wk_queue := (if n \<notin> set (wk_queue s) then wk_queue s @ [n] else wk_queue s)\<rparr>
          else let new = entry (wk_data s) b;
                   valid = insert b (wk_valid s) - (if new \<noteq> wk_data s b then set (preds b) else {}) in
               \<lparr>wk_data = (wk_data s)(b := new), wk_has = insert b (wk_has s),
                wk_note = (wk_note s)(b := entry_notes (wk_data s) b), wk_valid = valid,
                wk_queue = push (preds b) valid (wk_queue s)\<rparr>
      | None \<Rightarrow>
          let new = entry (wk_data s) b;
              valid = insert b (wk_valid s) - (if new \<noteq> wk_data s b then set (preds b) else {}) in
          \<lparr>wk_data = (wk_data s)(b := new), wk_has = insert b (wk_has s),
                wk_note = (wk_note s)(b := entry_notes (wk_data s) b), wk_valid = valid,
           wk_queue = push (preds b) valid (wk_queue s)\<rparr>)"

text \<open>Whether the block goes back because its successor has no data yet.\<close>

definition stalls :: "'b \<Rightarrow> ('b, 'r, 'n) work \<Rightarrow> bool" where
  "stalls b s \<longleftrightarrow> (\<exists>n. nxt b = Some n \<and> n \<notin> wk_has s)"

abbreviation new_valid :: "'b \<Rightarrow> ('b, 'r, 'n) work \<Rightarrow> 'b set" where
  "new_valid b s \<equiv> insert b (wk_valid s) - (if entry (wk_data s) b \<noteq> wk_data s b then set (preds b) else {})"

lemma step_stalls: "nxt b = Some n \<Longrightarrow> n \<notin> wk_has s \<Longrightarrow>
    step b s = s\<lparr>wk_queue := (if n \<notin> set (wk_queue s) then wk_queue s @ [n] else wk_queue s)\<rparr>"
  by (simp add: step_def)

lemma step_works: "\<not> stalls b s \<Longrightarrow>
    step b s = \<lparr>wk_data = (wk_data s)(b := entry (wk_data s) b), wk_has = insert b (wk_has s),
      wk_note = (wk_note s)(b := entry_notes (wk_data s) b), wk_valid = new_valid b s,
      wk_queue = push (preds b) (new_valid b s) (wk_queue s)\<rparr>"
  by (auto simp: step_def stalls_def Let_def split: option.splits)

lemma push_set: "set (push ps valid q) = set q \<union> (set ps - valid)"
  by (induction ps arbitrary: q) auto

lemma push_distinct: "distinct q \<Longrightarrow> distinct (push ps valid q)"
  by (induction ps arbitrary: q) auto

subsection \<open>The invariant\<close>

definition inv :: "('b, 'r, 'n) work \<Rightarrow> bool" where
  "inv s \<longleftrightarrow>
     distinct (wk_queue s) \<and> set (wk_queue s) \<subseteq> blocks \<and> wk_has s \<subseteq> blocks \<and> wk_valid s \<subseteq> wk_has s \<and>
     set (wk_queue s) \<inter> wk_valid s = {} \<and>
     (\<forall>b. b \<notin> wk_has s \<longrightarrow> wk_data s b = {}) \<and>
     (\<forall>b\<in>wk_has s. wk_data s b \<subseteq> entry (wk_data s) b \<and> (\<forall>n. nxt b = Some n \<longrightarrow> n \<in> wk_has s)) \<and>
     (\<forall>b\<in>wk_valid s. wk_data s b = entry (wk_data s) b) \<and>
     (\<forall>b\<in>wk_valid s. wk_note s b = entry_notes (wk_data s) b) \<and>
     wk_has s \<subseteq> wk_valid s \<union> set (wk_queue s) \<and>
     (\<forall>c\<in>wk_has s. \<forall>p\<in>set (preds c). p \<in> wk_has s \<or> waiting nxt (wk_has s) (set (wk_queue s)) p) \<and>
     (\<forall>b\<in>set starts. b \<in> wk_has s \<or> waiting nxt (wk_has s) (set (wk_queue s)) b)"

lemma invD:
  assumes "inv s"
  shows "distinct (wk_queue s)" "set (wk_queue s) \<subseteq> blocks" "wk_has s \<subseteq> blocks" "wk_valid s \<subseteq> wk_has s"
    and "set (wk_queue s) \<inter> wk_valid s = {}" "\<And>b. b \<notin> wk_has s \<Longrightarrow> wk_data s b = {}"
    and "\<And>b. b \<in> wk_has s \<Longrightarrow> wk_data s b \<subseteq> entry (wk_data s) b" "\<And>b n. b \<in> wk_has s \<Longrightarrow> nxt b = Some n \<Longrightarrow> n \<in> wk_has s"
    and "\<And>b. b \<in> wk_valid s \<Longrightarrow> wk_data s b = entry (wk_data s) b" "wk_has s \<subseteq> wk_valid s \<union> set (wk_queue s)"
    and "\<And>c p. c \<in> wk_has s \<Longrightarrow> p \<in> set (preds c) \<Longrightarrow> p \<in> wk_has s \<or> waiting nxt (wk_has s) (set (wk_queue s)) p"
    and "\<And>b. b \<in> set starts \<Longrightarrow> b \<in> wk_has s \<or> waiting nxt (wk_has s) (set (wk_queue s)) b"
    and "\<And>b. b \<in> wk_valid s \<Longrightarrow> wk_note s b = entry_notes (wk_data s) b"
proof -
  note I = assms[unfolded inv_def]
  show "distinct (wk_queue s)" "set (wk_queue s) \<subseteq> blocks" "wk_has s \<subseteq> blocks" "wk_valid s \<subseteq> wk_has s"
    "set (wk_queue s) \<inter> wk_valid s = {}" "wk_has s \<subseteq> wk_valid s \<union> set (wk_queue s)"
    using I by - (elim conjE, assumption)+
  show "\<And>b. b \<notin> wk_has s \<Longrightarrow> wk_data s b = {}"
    "\<And>b. b \<in> wk_has s \<Longrightarrow> wk_data s b \<subseteq> entry (wk_data s) b" "\<And>b n. b \<in> wk_has s \<Longrightarrow> nxt b = Some n \<Longrightarrow> n \<in> wk_has s"
    "\<And>b. b \<in> wk_valid s \<Longrightarrow> wk_data s b = entry (wk_data s) b"
    "\<And>c p. c \<in> wk_has s \<Longrightarrow> p \<in> set (preds c) \<Longrightarrow> p \<in> wk_has s \<or> waiting nxt (wk_has s) (set (wk_queue s)) p"
    "\<And>b. b \<in> set starts \<Longrightarrow> b \<in> wk_has s \<or> waiting nxt (wk_has s) (set (wk_queue s)) b"
    "\<And>b. b \<in> wk_valid s \<Longrightarrow> wk_note s b = entry_notes (wk_data s) b"
    using I by meson+
qed

lemma invI:
  assumes "distinct (wk_queue s)" "set (wk_queue s) \<subseteq> blocks" "wk_has s \<subseteq> blocks" "wk_valid s \<subseteq> wk_has s"
    and "set (wk_queue s) \<inter> wk_valid s = {}" "\<And>b. b \<notin> wk_has s \<Longrightarrow> wk_data s b = {}"
    and "\<And>b. b \<in> wk_has s \<Longrightarrow> wk_data s b \<subseteq> entry (wk_data s) b" "\<And>b n. b \<in> wk_has s \<Longrightarrow> nxt b = Some n \<Longrightarrow> n \<in> wk_has s"
    and "\<And>b. b \<in> wk_valid s \<Longrightarrow> wk_data s b = entry (wk_data s) b" "wk_has s \<subseteq> wk_valid s \<union> set (wk_queue s)"
    and "\<And>c p. c \<in> wk_has s \<Longrightarrow> p \<in> set (preds c) \<Longrightarrow> p \<in> wk_has s \<or> waiting nxt (wk_has s) (set (wk_queue s)) p"
    and "\<And>b. b \<in> set starts \<Longrightarrow> b \<in> wk_has s \<or> waiting nxt (wk_has s) (set (wk_queue s)) b"
    and "\<And>b. b \<in> wk_valid s \<Longrightarrow> wk_note s b = entry_notes (wk_data s) b"
  shows "inv s"
  unfolding inv_def by (intro conjI allI impI ballI) (rule assms; assumption)+

text \<open>Data only grows, so the transfer does; waiting blocks keep waiting until they are queued.\<close>

lemma out_mono: "(\<And>c. d c \<subseteq> d' c) \<Longrightarrow> out_of d b \<subseteq> out_of d' b"
  by (simp add: out_of_def split: option.splits)

lemma entry_mono: "(\<And>c. d c \<subseteq> d' c) \<Longrightarrow> entry d b \<subseteq> entry d' b"
  by (intro transfer_mono out_mono)

lemma entry_local:
  assumes "b \<in> blocks" and "\<And>c. c \<in> blocks \<Longrightarrow> b \<in> set (preds c) \<Longrightarrow> d c = d' c"
  shows "entry d b = entry d' b"
proof -
  have "out_of d b = out_of d' b"
    using assms(2) next_pred[OF assms(1)] next_in[OF assms(1)] by (simp add: out_of_def split: option.splits)
  then show ?thesis using transfer_local[OF assms(1), of d d'] assms(2) by simp
qed

lemma entry_notes_local:
  assumes "b \<in> blocks" and "\<And>c. c \<in> blocks \<Longrightarrow> b \<in> set (preds c) \<Longrightarrow> d c = d' c"
  shows "entry_notes d b = entry_notes d' b"
proof -
  have "out_of d b = out_of d' b"
    using assms(2) next_pred[OF assms(1)] next_in[OF assms(1)] by (simp add: out_of_def split: option.splits)
  then show ?thesis using notes_local[OF assms(1), of d d'] assms(2) by simp
qed

lemma waiting_mono:
  assumes "waiting nxt has q b" and "q \<subseteq> q'"
  shows "waiting nxt has q' b"
  using assms by (induction) (auto intro: waiting.intros)

text \<open>A block that waited waits still, has data, or waits for the block that was taken out.\<close>

lemma waiting_has:
  assumes "waiting nxt has q b" and "has \<subseteq> has'" and "q \<subseteq> q' \<union> has'"
    and "\<And>x n. x \<in> blocks \<Longrightarrow> nxt x = Some n \<Longrightarrow> n \<in> has' \<Longrightarrow> x \<in> has' \<or> x \<in> q'" and "b \<in> blocks"
  shows "b \<in> has' \<or> waiting nxt has' q' b"
  using assms(1,5)
proof induction
  case (queued b)
  then show ?case using assms(3) by (auto intro: waiting.queued)
next
  case (next_waits b n)
  then have "n \<in> has' \<or> waiting nxt has' q' n" using next_in by blast
  then show ?case using assms(4)[OF next_waits.prems next_waits.hyps(1)] next_waits.hyps(1)
    by (metis waiting.next_waits waiting.queued)
qed

text \<open>A block whose successor has no data goes back; the successor is queued now.\<close>

lemma waiting_stall:
  assumes "waiting nxt has (insert b q) x" and "nxt b = Some n" "n \<notin> has" "n \<in> q'" "q \<subseteq> q'"
  shows "waiting nxt has q' x"
  using assms(1)
proof induction
  case (queued x)
  then show ?case
    using assms(2-5) by (metis insertE subsetD waiting.queued waiting.next_waits)
qed (rule waiting.next_waits)

lemma inv_stall:
  assumes i: "inv s" and q: "wk_queue s = b # q" and n: "nxt b = Some n" "n \<notin> wk_has s"
  shows "inv (step b (s\<lparr>wk_queue := q\<rparr>))"
proof -
  note I = invD[OF i]
  let ?q = "if n \<notin> set q then q @ [n] else q"
  have s: "step b (s\<lparr>wk_queue := q\<rparr>) = \<lparr>wk_data = wk_data s, wk_has = wk_has s, wk_note = wk_note s, wk_valid = wk_valid s, wk_queue = ?q\<rparr>"
    using step_stalls[of b n "s\<lparr>wk_queue := q\<rparr>"] n by (cases s) simp
  have b: "b \<in> blocks" "b \<notin> wk_has s" using I(2) q I(8)[of b n] n by auto
  have w: "waiting nxt (wk_has s) (set ?q) x" if "waiting nxt (wk_has s) (set (wk_queue s)) x" for x
    by (rule waiting_stall[OF _ n, of "set q"]) (use that q in auto)
  have h: "wk_has s \<subseteq> wk_valid s \<union> set ?q" using I(10) q b by auto
  have d: "distinct ?q" "set ?q \<subseteq> blocks" "set ?q \<inter> wk_valid s = {}"
    using I(1,2,4,5) q n b next_in[OF b(1)] by auto
  show ?thesis
    unfolding s
  proof (rule invI, unfold work.simps, goal_cases)
    case (11 c p) then show ?case using I(11) w by blast
  next
    case (12 x) then show ?case using I(12) w by blast
  next
    case (9 x) then show ?case by (rule I(9))
  next
    case (13 x) then show ?case by (rule I(13))
  qed (fact d h I(3,4) | rule I(6-8); assumption)+
qed

lemma inv_work:
  assumes i: "inv s" and q: "wk_queue s = b # q" and ns: "\<not> stalls b s"
  shows "inv (step b (s\<lparr>wk_queue := q\<rparr>))"
    and "wk_data s b \<subseteq> entry (wk_data s) b"
proof -
  note I = invD[OF i]
  let ?d = "wk_data s" and ?new = "entry (wk_data s) b"
  let ?d' = "?d(b := ?new)" and ?v = "new_valid b s"
  let ?q = "push (preds b) ?v q"
  have s: "step b (s\<lparr>wk_queue := q\<rparr>) = \<lparr>wk_data = ?d', wk_has = insert b (wk_has s),
      wk_note = (wk_note s)(b := entry_notes ?d b), wk_valid = ?v, wk_queue = ?q\<rparr>"
    using step_works[of b "s\<lparr>wk_queue := q\<rparr>"] ns by (simp add: stalls_def)
  have b: "b \<in> blocks" "b \<notin> wk_valid s" "b \<notin> set q" using I(1,2,5) q by auto
  show up: "?d b \<subseteq> ?new" using I(6,7) by (cases "b \<in> wk_has s") auto
  have grow: "?d c \<subseteq> ?d' c" for c using up by auto
  have qs: "set ?q = set q \<union> (set (preds b) - ?v)" by (rule push_set)
  have same: "?d' = ?d" if "?new = ?d b" using that by auto
  have stable: "entry ?d' c = entry ?d c" if "c \<in> blocks" "c \<notin> set (preds b)" for c
    by (rule entry_local[OF that(1)]) (use that(2) in auto)
  have stable_n: "entry_notes ?d' c = entry_notes ?d c" if "c \<in> blocks" "c \<notin> set (preds b)" for c
    by (rule entry_notes_local[OF that(1)]) (use that(2) in auto)
  have waits: "x \<in> insert b (wk_has s) \<or> waiting nxt (insert b (wk_has s)) (set ?q) x"
    if "x \<in> wk_has s \<or> waiting nxt (wk_has s) (set (wk_queue s)) x" "x \<in> blocks" for x
  proof (cases "x \<in> wk_has s")
    case False
    then have w: "waiting nxt (wk_has s) (set (wk_queue s)) x" using that(1) by blast
    show ?thesis
    proof (rule waiting_has[OF w _ _ _ that(2)])
      show "set (wk_queue s) \<subseteq> set ?q \<union> insert b (wk_has s)" using q qs by auto
      fix y n assume y: "y \<in> blocks" "nxt y = Some n" "n \<in> insert b (wk_has s)"
      show "y \<in> insert b (wk_has s) \<or> y \<in> set ?q"
      proof (cases "n = b")
        case True
        then have "y \<in> set (preds b)" using next_pred[OF y(1,2)] by simp
        then show ?thesis using qs I(4) by blast
      next
        case False
        then have n: "n \<in> wk_has s" using y(3) by simp
        then have "y \<in> wk_has s \<or> waiting nxt (wk_has s) (set (wk_queue s)) y" using I(11) next_pred[OF y(1,2)] by blast
        then show ?thesis
        proof
          assume "waiting nxt (wk_has s) (set (wk_queue s)) y"
          then have "y \<in> set (wk_queue s)" by (rule waitingE) (use y(2) n in auto)
          then show ?thesis using q qs by auto
        qed simp
      qed
    qed auto
  qed auto
  show "inv (step b (s\<lparr>wk_queue := q\<rparr>))"
    unfolding s
  proof (rule invI, unfold work.simps, goal_cases)
    case 1
    then show ?case using push_distinct I(1) q by simp
  next
    case 2
    then show ?case using qs I(2) q preds_in[OF b(1)] by auto
  next
    case 3
    then show ?case using I(3) b by simp
  next
    case 4
    then show ?case using I(4) by auto
  next
    case 5
    then show ?case using I(5) q b qs by auto
  next
    case (6 c)
    then show ?case using I(6) by simp
  next
    case (7 c)
    show ?case
    proof (cases "c = b")
      case True
      then show ?thesis using entry_mono[of ?d ?d' b] grow by simp
    next
      case False
      then show ?thesis using 7 I(7)[of c] entry_mono[of ?d ?d' c] grow by auto
    qed
  next
    case (8 c n)
    then show ?case using I(8)[of c n] ns by (auto simp: stalls_def)
  next
    case (9 c)
    show ?case
    proof (cases "?new = ?d b")
      case True
      then show ?thesis using 9 I(9)[of c] same by auto
    next
      case False
      then have c: "c \<notin> set (preds b)" "c = b \<or> c \<in> wk_valid s" using 9 by auto
      then have "c \<in> blocks" using b I(3,4) by auto
      then show ?thesis using stable[OF _ c(1)] c(2) I(9)[of c] b by auto
    qed
  next
    case 10
    then show ?case using I(10) q qs by auto
  next
    case (11 c p)
    show ?case
    proof (cases "c = b")
      case True
      show ?thesis
      proof (cases "p \<in> ?v")
        case True
        then show ?thesis using I(4) by blast
      next
        case False
        then have "p \<in> set ?q" using 11(2) \<open>c = b\<close> unfolding qs by blast
        then show ?thesis by (rule disjI2[OF waiting.queued])
      qed
    next
      case False
      then have c: "c \<in> wk_has s" using 11(1) by simp
      have "p \<in> blocks" using preds_in I(3) c 11(2) by blast
      then show ?thesis using waits I(11)[OF c 11(2)] by blast
    qed
  next
    case (12 x)
    then show ?case using waits I(12) starts_in by blast
  next
    case (13 c)
    show ?case
    proof (cases "?new = ?d b")
      case True
      then show ?thesis using 13 I(13)[of c] same by auto
    next
      case False
      then have c: "c \<notin> set (preds b)" "c = b \<or> c \<in> wk_valid s" using 13 by auto
      then have "c \<in> blocks" using b I(3,4) by auto
      then show ?thesis using stable_n[OF _ c(1)] c(2) I(13)[of c] b by auto
    qed
  qed
qed

lemma inv_step:
  assumes i: "inv s" and q: "wk_queue s = b # q"
  shows "inv (step b (s\<lparr>wk_queue := q\<rparr>))"
proof (cases "stalls b s")
  case True
  then show ?thesis using inv_stall[OF i q] by (auto simp: stalls_def)
next
  case False
  then show ?thesis by (rule inv_work(1)[OF i q])
qed

subsection \<open>The loop ends\<close>

definition depth :: "'b \<Rightarrow> nat" where
  "depth b = card {x \<in> blocks. (b, x) \<in> {(b, n). nxt b = Some n}\<^sup>*}"

lemma depth_next:
  assumes "b \<in> blocks" and "nxt b = Some n"
  shows "depth n < depth b"
proof -
  let ?r = "{(b, n). nxt b = Some n}"
  have "(b, n) \<in> ?r" using assms(2) by simp
  then have sub: "{x \<in> blocks. (n, x) \<in> ?r\<^sup>*} \<subseteq> {x \<in> blocks. (b, x) \<in> ?r\<^sup>*}"
    by (auto intro: converse_rtrancl_into_rtrancl)
  have "(n, b) \<notin> ?r\<^sup>*"
  proof
    assume "(n, b) \<in> ?r\<^sup>*"
    then have "(b, b) \<in> ?r\<^sup>+" using \<open>(b, n) \<in> ?r\<close> by (rule rtrancl_into_trancl2[rotated])
    then show False using no_cycle by (simp add: acyclic_def)
  qed
  then have "{x \<in> blocks. (n, x) \<in> ?r\<^sup>*} \<subset> {x \<in> blocks. (b, x) \<in> ?r\<^sup>*}" using sub assms(1) by blast
  then show ?thesis unfolding depth_def by (rule psubset_card_mono[rotated]) (simp add: finite_blocks)
qed

definition missing :: "('b, 'r, 'n) work \<Rightarrow> 'b \<Rightarrow> nat" where
  "missing s b = Suc CARD('r) - (if b \<in> wk_has s then Suc (card (wk_data s b)) else 0)"

definition rank :: "('b, 'r, 'n) work \<Rightarrow> nat \<times> nat \<times> nat" where
  "rank s = (\<Sum>b\<in>blocks. missing s b, card (wk_has s - wk_valid s), \<Sum>b\<in>set (wk_queue s). Suc (depth b))"

lemma missing_cong: "wk_data s' = wk_data s \<Longrightarrow> wk_has s' = wk_has s \<Longrightarrow> missing s' = missing s"
  by (rule ext) (simp add: missing_def)

abbreviation "smaller \<equiv> inv_image (less_than <*lex*> less_than <*lex*> less_than) rank"

lemma wf_smaller: "wf smaller"
  by (intro wf_inv_image wf_lex_prod wf_less_than)

lemma stall_smaller:
  assumes i: "inv s" and q: "wk_queue s = b # q" and n: "nxt b = Some n" "n \<notin> wk_has s"
  shows "(step b (s\<lparr>wk_queue := q\<rparr>), s) \<in> smaller"
proof -
  note I = invD[OF i]
  let ?s = "step b (s\<lparr>wk_queue := q\<rparr>)"
  have s: "?s = \<lparr>wk_data = wk_data s, wk_has = wk_has s, wk_note = wk_note s, wk_valid = wk_valid s,
      wk_queue = (if n \<notin> set q then q @ [n] else q)\<rparr>"
    using step_stalls[of b n "s\<lparr>wk_queue := q\<rparr>"] n by (cases s) simp
  have b: "b \<in> blocks" "b \<notin> set q" using I(1,2) q by auto
  have "(\<Sum>x\<in>set (wk_queue ?s). Suc (depth x)) \<le> (\<Sum>x\<in>set q. Suc (depth x)) + Suc (depth n)"
    by (simp add: s)
  also have "\<dots> < (\<Sum>x\<in>set (wk_queue s). Suc (depth x))"
    using depth_next[OF b(1) n(1)] b(2) q by simp
  finally have "(\<Sum>x\<in>set (wk_queue ?s). Suc (depth x)) < (\<Sum>x\<in>set (wk_queue s). Suc (depth x))" .
  moreover have "missing ?s = missing s" by (rule missing_cong) (simp_all add: s)
  ultimately show ?thesis by (simp add: rank_def) (simp add: s)
qed

lemma work_smaller:
  assumes i: "inv s" and q: "wk_queue s = b # q" and ns: "\<not> stalls b s"
  shows "(step b (s\<lparr>wk_queue := q\<rparr>), s) \<in> smaller"
proof -
  note I = invD[OF i]
  let ?s = "step b (s\<lparr>wk_queue := q\<rparr>)" and ?new = "entry (wk_data s) b"
  have s: "?s = \<lparr>wk_data = (wk_data s)(b := ?new), wk_has = insert b (wk_has s),
      wk_note = (wk_note s)(b := entry_notes (wk_data s) b), wk_valid = new_valid b s,
      wk_queue = push (preds b) (new_valid b s) q\<rparr>"
    using step_works[of b "s\<lparr>wk_queue := q\<rparr>"] ns by (simp add: stalls_def)
  have up: "wk_data s b \<subseteq> ?new" by (rule inv_work(2)[OF i q ns])
  have b: "b \<in> blocks" "b \<notin> wk_valid s" using I(2,5) q by auto
  have card: "card (x :: 'r set) \<le> CARD('r)" for x by (rule card_mono) simp_all
  have "card (wk_data s b) \<le> card ?new" by (rule card_mono) (simp_all add: up)
  then have le: "missing ?s c \<le> missing s c" for c
    by (auto simp: missing_def s intro: diff_le_mono2)
  show ?thesis
  proof (cases "b \<in> wk_has s \<and> ?new = wk_data s b")
    case True
    then have "wk_data ?s = wk_data s" "wk_has ?s = wk_has s" "wk_valid ?s = insert b (wk_valid s)"
      by (auto simp: s)
    moreover have "card (wk_has s - insert b (wk_valid s)) < card (wk_has s - wk_valid s)"
      by (rule psubset_card_mono) (use True b I(3) finite_blocks finite_subset in auto)
    moreover have "missing ?s = missing s" using calculation(1,2) by (rule missing_cong)
    ultimately show ?thesis by (simp add: rank_def)
  next
    case False
    have "missing ?s b < missing s b"
    proof (cases "b \<in> wk_has s")
      case True
      then have "wk_data s b \<subset> ?new" using False up by auto
      then have "card (wk_data s b) < card ?new" by (rule psubset_card_mono[rotated]) simp
      then show ?thesis using True card[of ?new] by (simp add: missing_def s)
    next
      case False
      then show ?thesis by (simp add: missing_def s)
    qed
    then have "(\<Sum>c\<in>blocks. missing ?s c) < (\<Sum>c\<in>blocks. missing s c)"
      by (intro sum_strict_mono_ex1 finite_blocks ballI le) (use b(1) in blast)
    then show ?thesis by (simp add: rank_def)
  qed
qed

lemma step_smaller: "inv s \<Longrightarrow> wk_queue s = b # q \<Longrightarrow> (step b (s\<lparr>wk_queue := q\<rparr>), s) \<in> smaller"
  using stall_smaller work_smaller by (metis stalls_def)

text \<open>The induction a client uses for its loop.\<close>

lemma work_induct [consumes 1, case_names stop step]:
  assumes "inv s" and "\<And>s. inv s \<Longrightarrow> wk_queue s = [] \<Longrightarrow> P s"
    and "\<And>s b q. inv s \<Longrightarrow> wk_queue s = b # q \<Longrightarrow> inv (step b (s\<lparr>wk_queue := q\<rparr>)) \<Longrightarrow>
      P (step b (s\<lparr>wk_queue := q\<rparr>)) \<Longrightarrow> P s"
  shows "P s"
  using wf_smaller assms(1)
proof (induction s rule: wf_induct_rule)
  case (less s)
  show ?case
  proof (cases "wk_queue s")
    case Nil
    then show ?thesis using assms(2) less.prems by blast
  next
    case (Cons b q)
    then show ?thesis using assms(3) less.prems less.IH inv_step step_smaller by blast
  qed
qed

subsection \<open>The result\<close>

definition start :: "('b, 'r, 'n) work" where
  "start = \<lparr>wk_data = (\<lambda>_. {}), wk_has = {}, wk_note = note0, wk_valid = {}, wk_queue = starts\<rparr>"

lemma inv_start: "inv start"
  using starts_in starts_distinct by (auto simp: inv_def start_def intro: waiting.queued)

lemma not_waiting: "\<not> waiting nxt has {} b"
proof
  assume "waiting nxt has {} b"
  then show False by (induction) auto
qed

text \<open>
  A solution on a set of blocks: the start blocks are in it, and every block that branches or
  falls into it.
\<close>

definition solved :: "('b, 'r, 'n) work \<Rightarrow> bool" where
  "solved s \<longleftrightarrow> set starts \<subseteq> wk_has s \<and> wk_has s \<subseteq> blocks \<and> (\<forall>c\<in>wk_has s. set (preds c) \<subseteq> wk_has s) \<and>
     (\<forall>b\<in>wk_has s. wk_data s b = entry (wk_data s) b \<and> (\<forall>n. nxt b = Some n \<longrightarrow> n \<in> wk_has s)) \<and>
     (\<forall>b. b \<notin> wk_has s \<longrightarrow> wk_data s b = {}) \<and> (\<forall>b\<in>wk_has s. wk_note s b = entry_notes (wk_data s) b)"

lemma inv_solved:
  assumes "inv s" and "wk_queue s = []"
  shows "solved s"
proof -
  note I = invD[OF assms(1)]
  have v: "wk_has s \<subseteq> wk_valid s" using I(10) assms(2) by simp
  show ?thesis
    unfolding solved_def
  proof (intro conjI ballI allI impI subsetI)
    show "b \<in> wk_has s \<Longrightarrow> wk_data s b = entry (wk_data s) b" for b using v I(9) by blast
    show "b \<in> wk_has s \<Longrightarrow> wk_note s b = entry_notes (wk_data s) b" for b using v I(13) by blast
    show "b \<in> wk_has s \<Longrightarrow> nxt b = Some n \<Longrightarrow> n \<in> wk_has s" for b n by (rule I(8))
    show "b \<notin> wk_has s \<Longrightarrow> wk_data s b = {}" for b by (rule I(6))
    show "b \<in> set starts \<Longrightarrow> b \<in> wk_has s" for b using I(12)[of b] assms(2) not_waiting by simp
    show "b \<in> wk_has s \<Longrightarrow> b \<in> blocks" for b using I(3) by blast
    show "c \<in> wk_has s \<Longrightarrow> p \<in> set (preds c) \<Longrightarrow> p \<in> wk_has s" for c p using I(11)[of c p] assms(2) not_waiting by simp
  qed
qed

text \<open>
  It stays within every set that contains the start blocks and is closed under going back and
  falling through, and below everything that satisfies the inequations there.
\<close>

definition closed_blocks :: "'b set \<Rightarrow> bool" where
  "closed_blocks U \<longleftrightarrow> (\<forall>b\<in>U. set (preds b) \<subseteq> U \<and> (\<forall>n. nxt b = Some n \<longrightarrow> n \<in> U))"

lemma step_within:
  assumes "closed_blocks U" and "b \<in> U" and "set (wk_queue s) \<subseteq> U" and "wk_has s \<subseteq> U"
  shows "set (wk_queue (step b s)) \<subseteq> U \<and> wk_has (step b s) \<subseteq> U"
proof (cases "stalls b s")
  case True
  then show ?thesis using assms by (auto simp: stalls_def step_stalls closed_blocks_def split: if_splits)
next
  case False
  then show ?thesis using assms by (auto simp: step_works push_set closed_blocks_def)
qed

lemma step_below:
  assumes "entry x b \<subseteq> x b" and "\<And>c. wk_data s c \<subseteq> x c"
  shows "wk_data (step b s) c \<subseteq> x c"
proof -
  have "entry (wk_data s) b \<subseteq> x b" using entry_mono[of "wk_data s" x b] assms by blast
  then show ?thesis using assms(2) by (auto simp: step_def Let_def split: option.splits)
qed

end

end
