(* ===== verification/Liveness_Work.thy ===== *)
theory Liveness_Work
  imports Liveness_Flow Worklist
begin

text \<open>
  The liveness analysis of a function is an instance of the backward analysis with a queue:
  its loop makes the steps of the interface, so it ends and computes the least solution.
\<close>

section \<open>The functions the analysis is for\<close>

text \<open>
  Blocks, edges and the fallthrough chain stay inside the function, the information on every
  instruction is there, no block falls through in a circle, and the queue is empty.
\<close>

definition blocks_in :: "nat \<Rightarrow> icfg \<Rightarrow> nat list" where
  "blocks_in f g = (case ic_fn g f of Some fn \<Rightarrow> fn_blocks fn | None \<Rightarrow> [])"

definition return_blocks :: "nat \<Rightarrow> icfg \<Rightarrow> nat list" where
  "return_blocks f g = (case ic_fn g f of Some fn \<Rightarrow> map (\<lambda>r. re_src (the (ic_re g r))) (fn_returns fn) | None \<Rightarrow> [])"

definition falls :: "icfg \<Rightarrow> (nat \<times> nat) set" where
  "falls g = {(b, n). \<exists>sb. ic_sb g b = Some sb \<and> sb_next sb = Some n}"

definition block_closed :: "nat list \<Rightarrow> icfg \<Rightarrow> nat \<Rightarrow> bool" where
  "block_closed bs g b \<longleftrightarrow>
     (case ic_sb g b of
        None \<Rightarrow> False
      | Some sb \<Rightarrow>
          \<not> nd_queued (sb_node sb) \<and>
          (case sb_next sb of Some n \<Rightarrow> n \<in> set bs | None \<Rightarrow> True) \<and>
          (case sb_prev sb of Some p \<Rightarrow> p \<in> set bs | None \<Rightarrow> True) \<and>
          (\<forall>e\<in>set (sb_in sb). be_src (the (ic_be g e)) \<in> set bs) \<and>
          (\<forall>e\<in>set (sb_out sb). be_dst (the (ic_be g e)) \<in> set bs) \<and>
          (\<forall>a\<in>set (sb_instrs sb). flow_info_of (the (ic_is g a)) \<noteq> None))"

definition flow_ok :: "nat \<Rightarrow> icfg \<Rightarrow> bool" where
  "flow_ok f g \<longleftrightarrow> icfg_ok g \<and> (\<forall>b\<in>set (blocks_in f g). block_closed (blocks_in f g) g b) \<and>
     return_blocks f g \<noteq> [] \<and> distinct (return_blocks f g) \<and> set (return_blocks f g) \<subseteq> set (blocks_in f g) \<and>
     acyclic (falls g)"

section \<open>The equations of a block\<close>

definition lv_blocks :: "nat \<Rightarrow> icfg \<Rightarrow> nat set" where
  "lv_blocks f g = (if flow_ok f g then set (blocks_in f g) else {})"

definition lv_next :: "nat \<Rightarrow> icfg \<Rightarrow> nat \<Rightarrow> nat option" where
  "lv_next f g b = (if b \<in> lv_blocks f g then sb_next (the (ic_sb g b)) else None)"

definition block_preds :: "icfg \<Rightarrow> super_block \<Rightarrow> nat list" where
  "block_preds g sb = map (\<lambda>e. be_src (the (ic_be g e))) (sb_in sb) @ (case sb_prev sb of Some p \<Rightarrow> [p] | None \<Rightarrow> [])"

definition lv_preds :: "nat \<Rightarrow> icfg \<Rightarrow> nat \<Rightarrow> nat list" where
  "lv_preds f g b = (if b \<in> lv_blocks f g then block_preds g (the (ic_sb g b)) else [])"

definition lv_list :: "icfg \<Rightarrow> nat \<Rightarrow> nat list" where
  "lv_list g b = (case ic_sb g b of Some sb \<Rightarrow> rev (sb_instrs sb) | None \<Rightarrow> [])"

definition lv_transfer :: "regs \<Rightarrow> icfg \<Rightarrow> (nat \<Rightarrow> regs) \<Rightarrow> nat \<Rightarrow> regs \<Rightarrow> regs" where
  "lv_transfer R g d b L = live_list R g (at_edge g d) (lv_list g b) L"

definition lv_remark :: "regs \<Rightarrow> icfg \<Rightarrow> (nat \<Rightarrow> regs) \<Rightarrow> nat \<Rightarrow> regs \<Rightarrow> remark list" where
  "lv_remark R g d b L = remark_list R g (at_edge g d) (lv_list g b) L"

definition lv_starts :: "nat \<Rightarrow> icfg \<Rightarrow> nat list" where
  "lv_starts f g = (if flow_ok f g then return_blocks f g else [])"

lemma flow_okD:
  assumes "flow_ok f g"
  shows "icfg_ok g" "b \<in> set (blocks_in f g) \<Longrightarrow> block_closed (blocks_in f g) g b"
    "return_blocks f g \<noteq> []" "distinct (return_blocks f g)" "set (return_blocks f g) \<subseteq> set (blocks_in f g)" "acyclic (falls g)"
  using assms by (auto simp: flow_ok_def)

lemma closed_block: "flow_ok f g \<Longrightarrow> b \<in> set (blocks_in f g) \<Longrightarrow> \<exists>sb. ic_sb g b = Some sb"
  using flow_okD(2)[of f g b] unfolding block_closed_def by (cases "ic_sb g b") auto

lemma closedD:
  assumes "flow_ok f g" and "b \<in> set (blocks_in f g)" and "ic_sb g b = Some sb"
  shows "\<not> nd_queued (sb_node sb)"
    "sb_next sb = Some n \<Longrightarrow> n \<in> set (blocks_in f g)" "sb_prev sb = Some n \<Longrightarrow> n \<in> set (blocks_in f g)"
    "e \<in> set (sb_in sb) \<Longrightarrow> be_src (the (ic_be g e)) \<in> set (blocks_in f g)"
    "e \<in> set (sb_out sb) \<Longrightarrow> be_dst (the (ic_be g e)) \<in> set (blocks_in f g)"
    "a \<in> set (sb_instrs sb) \<Longrightarrow> flow_info_of (the (ic_is g a)) \<noteq> None"
  using flow_okD(2)[OF assms(1,2)] assms(3) by (simp_all add: block_closed_def)

lemma lv_blocks_ok: "flow_ok f g \<Longrightarrow> lv_blocks f g = set (blocks_in f g)"
  and lv_blocks_flow: "b \<in> lv_blocks f g \<Longrightarrow> flow_ok f g"
  by (auto simp: lv_blocks_def split: if_splits)

text \<open>The branches of a block lead to blocks of the function that have it as a predecessor.\<close>

lemma branch_target:
  assumes "flow_ok f g" and "b \<in> set (blocks_in f g)" and "ic_sb g b = Some sb" and "a \<in> set (sb_instrs sb)"
    and "ic_is g a = Some i" and "is_branchEdge i = Some e"
  obtains ed db where "ic_be g e = Some ed" "be_src ed = b" "ic_sb g (be_dst ed) = Some db" "e \<in> set (sb_in db)"
    "be_dst ed \<in> set (blocks_in f g)"
proof -
  have ok: "icfg_ok g" by (rule flow_okD[OF assms(1)])
  note E = edges_okD[OF icfg_okD(4)[OF ok]]
  obtain ed where ed: "live_be g e ed" "be_instr ed = a" using E(8)[OF assms(5,6)] by blast
  obtain sc where sc: "ic_sb g (be_src ed) = Some sc" "e \<in> set (sb_out sc)" "a \<in> set (sb_instrs sc)" using E(5)[OF ed(1)] ed(2) by blast
  have b: "be_src ed = b" by (rule instrs_okD(3)[OF icfg_okD(2)[OF ok] sc(1) assms(3) sc(3) assms(4)])
  obtain db where db: "ic_sb g (be_dst ed) = Some db" "e \<in> set (sb_in db)" using E(6)[OF ed(1)] by blast
  have be: "ic_be g e = Some ed" using ed(1) by (simp add: live_be_def)
  have "be_dst ed \<in> set (blocks_in f g)"
    using closedD(5)[OF assms(1-3), of e] sc(1,2) assms(3) b be by simp
  then show ?thesis using that be b db by blast
qed

lemma same_targets_preds:
  assumes "b \<in> lv_blocks f g" and "\<And>c. c \<in> lv_blocks f g \<Longrightarrow> b \<in> set (lv_preds f g c) \<Longrightarrow> d c = d' c"
  shows "same_targets g (lv_list g b) (at_edge g d) (at_edge g d')" and "\<forall>a\<in>set (lv_list g b). ic_is g a \<noteq> None"
proof -
  have ok: "flow_ok f g" and b: "b \<in> set (blocks_in f g)" using assms(1) lv_blocks_flow lv_blocks_ok by blast+
  obtain sb where sb: "ic_sb g b = Some sb" using closed_block[OF ok b] by blast
  show "same_targets g (lv_list g b) (at_edge g d) (at_edge g d')"
    unfolding same_targets_def
  proof (intro ballI allI impI)
    fix a i e assume "a \<in> set (lv_list g b)" and i: "ic_is g a = Some i" "is_branchEdge i = Some e"
    then have a: "a \<in> set (sb_instrs sb)" using sb by (simp add: lv_list_def)
    obtain ed db where "ic_be g e = Some ed" "be_src ed = b" "ic_sb g (be_dst ed) = Some db" "e \<in> set (sb_in db)"
      "be_dst ed \<in> set (blocks_in f g)" by (rule branch_target[OF ok b sb a i])
    then show "d (be_dst (the (ic_be g e))) = d' (be_dst (the (ic_be g e)))"
      using assms(2)[of "be_dst ed"] ok by (force simp: lv_preds_def lv_blocks_ok block_preds_def)
  qed
  show "\<forall>a\<in>set (lv_list g b). ic_is g a \<noteq> None"
    using instrs_okD(2)[OF icfg_okD(2)[OF flow_okD(1)[OF ok]] sb] sb by (fastforce simp: lv_list_def)
qed

interpretation lv: backward_analysis "lv_blocks f g" "lv_next f g" "lv_preds f g" "lv_transfer R g" "lv_remark R g"
  "\<lambda>b. remarks_at g (lv_list g b)" "lv_starts f g" for f g R
proof
  show "finite (lv_blocks f g)" by (simp add: lv_blocks_def)
  show "n \<in> lv_blocks f g" if "b \<in> lv_blocks f g" "lv_next f g b = Some n" for b n
    using that lv_blocks_flow[OF that(1)] closed_block[of f g b] closedD(2)[of f g b] by (auto simp: lv_next_def lv_blocks_ok)
  show "set (lv_preds f g b) \<subseteq> lv_blocks f g" if "b \<in> lv_blocks f g" for b
  proof -
    have ok: "flow_ok f g" by (rule lv_blocks_flow[OF that])
    have b: "b \<in> set (blocks_in f g)" using that ok lv_blocks_ok by simp
    obtain sb where "ic_sb g b = Some sb" using closed_block[OF ok b] by blast
    then show ?thesis using that ok closedD(3,4)[OF ok b]
      by (auto simp: lv_preds_def block_preds_def lv_blocks_ok split: option.splits)
  qed
  show "b \<in> set (lv_preds f g n)" if "b \<in> lv_blocks f g" "lv_next f g b = Some n" for b n
  proof -
    have ok: "flow_ok f g" by (rule lv_blocks_flow[OF that(1)])
    have b: "b \<in> set (blocks_in f g)" using that(1) ok lv_blocks_ok by simp
    obtain sb where sb: "ic_sb g b = Some sb" using closed_block[OF ok b] by blast
    have n: "sb_next sb = Some n" using that sb by (simp add: lv_next_def)
    obtain nb where "ic_sb g n = Some nb" "sb_prev nb = Some b"
      using chain_okD(1)[OF icfg_okD(3)[OF flow_okD(1)[OF ok]] sb n] by blast
    then show ?thesis using closedD(2)[OF ok b sb n] ok by (simp add: lv_preds_def block_preds_def lv_blocks_ok)
  qed
  show "acyclic {(b, n). lv_next f g b = Some n}"
  proof (cases "flow_ok f g")
    case True
    have "{(b, n). lv_next f g b = Some n} \<subseteq> falls g"
    proof clarify
      fix b n assume n: "lv_next f g b = Some n"
      then have b: "b \<in> set (blocks_in f g)" using True by (simp add: lv_next_def lv_blocks_ok split: if_splits)
      obtain sb where "ic_sb g b = Some sb" using closed_block[OF True b] by blast
      then show "(b, n) \<in> falls g" using n by (auto simp: falls_def lv_next_def split: if_splits)
    qed
    then show ?thesis using flow_okD(6)[OF True] acyclic_subset by blast
  next
    case False
    then have "{(b, n). lv_next f g b = Some n} = {}" by (simp add: lv_next_def lv_blocks_def)
    then show ?thesis by (simp only: acyclic_def) simp
  qed
  show "lv_transfer R g d b l \<subseteq> lv_transfer R g d' b l'" if "\<And>c. d c \<subseteq> d' c" "l \<subseteq> l'" for d d' b l l'
    using that by (simp add: lv_transfer_def live_list_mono)
  show "lv_transfer R g d b l = lv_transfer R g d' b l"
    if "b \<in> lv_blocks f g" "\<And>c. c \<in> lv_blocks f g \<Longrightarrow> b \<in> set (lv_preds f g c) \<Longrightarrow> d c = d' c" for b d d' l
    unfolding lv_transfer_def by (rule lists_cong(1)) (rule same_targets_preds[OF that(1)]; simp add: that(2))+
  show "lv_remark R g d b l = lv_remark R g d' b l"
    if "b \<in> lv_blocks f g" "\<And>c. c \<in> lv_blocks f g \<Longrightarrow> b \<in> set (lv_preds f g c) \<Longrightarrow> d c = d' c" for b d d' l
    unfolding lv_remark_def by (rule lists_cong(2)) (rule same_targets_preds[OF that(1)]; simp add: that(2))+
  show "set (lv_starts f g) \<subseteq> lv_blocks f g" "distinct (lv_starts f g)"
    using flow_okD(4,5)[of f g] by (auto simp: lv_starts_def lv_blocks_def)
qed

section \<open>The state of the pass as a state of the interface\<close>

definition has_data :: "icfg \<Rightarrow> nat \<Rightarrow> bool" where
  "has_data g b \<longleftrightarrow> (\<exists>sb. ic_sb g b = Some sb \<and> sb_liveness sb \<noteq> None)"

definition is_valid :: "icfg \<Rightarrow> nat \<Rightarrow> bool" where
  "is_valid g b \<longleftrightarrow> (\<exists>sb. ic_sb g b = Some sb \<and> nd_livenessValid (sb_node sb))"

definition is_queued :: "icfg \<Rightarrow> nat \<Rightarrow> bool" where
  "is_queued g b \<longleftrightarrow> (\<exists>sb. ic_sb g b = Some sb \<and> nd_queued (sb_node sb))"

definition absw :: "nat \<Rightarrow> icfg \<Rightarrow> nat list \<Rightarrow> icfg \<Rightarrow> (nat, subregister, remark list) work" where
  "absw f g0 q g =
     \<lparr>wk_data = (\<lambda>b. if b \<in> lv_blocks f g0 then data_in g b else {}),
      wk_has = {b \<in> lv_blocks f g0. has_data g b}, wk_note = (\<lambda>b. remarks_at g (lv_list g0 b)),
      wk_valid = {b \<in> lv_blocks f g0. is_valid g b}, wk_queue = q\<rparr>"

definition linked :: "nat \<Rightarrow> icfg \<Rightarrow> nat list \<Rightarrow> icfg \<Rightarrow> bool" where
  "linked f g0 q g \<longleftrightarrow> same_code g g0 \<and> (\<forall>b\<in>lv_blocks f g0. is_queued g b \<longleftrightarrow> b \<in> set q)"

lemma absw_sel [simp]: "wk_queue (absw f g0 q g) = q" "wk_has (absw f g0 q g) = {b \<in> lv_blocks f g0. has_data g b}"
  "wk_valid (absw f g0 q g) = {b \<in> lv_blocks f g0. is_valid g b}"
  "wk_data (absw f g0 q g) = (\<lambda>b. if b \<in> lv_blocks f g0 then data_in g b else {})"
  "wk_note (absw f g0 q g) = (\<lambda>b. remarks_at g (lv_list g0 b))"
  "(absw f g0 q g)\<lparr>wk_queue := q'\<rparr> = absw f g0 q' g"
  by (simp_all add: absw_def)

lemma put_sb_sel:
  fixes g :: icfg and b :: nat
  defines "g' y \<equiv> g\<lparr>ic_sb := (ic_sb g)(b \<mapsto> y)\<rparr>"
  shows "data_in (g' y) = (data_in g)(b := (case sb_liveness y of Some d \<Rightarrow> regs_in (ld_in d) | None \<Rightarrow> {}))"
    "has_data (g' y) c \<longleftrightarrow> (if c = b then sb_liveness y \<noteq> None else has_data g c)"
    "is_valid (g' y) c \<longleftrightarrow> (if c = b then nd_livenessValid (sb_node y) else is_valid g c)"
    "is_queued (g' y) c \<longleftrightarrow> (if c = b then nd_queued (sb_node y) else is_queued g c)"
  by (auto simp: g'_def data_in_def has_data_def is_valid_def is_queued_def fun_eq_iff)

lemma has_data_is: "has_data (g\<lparr>ic_is := m\<rparr>) = has_data g" "is_valid (g\<lparr>ic_is := m\<rparr>) = is_valid g"
  "is_queued (g\<lparr>ic_is := m\<rparr>) = is_queued g"
  by (simp_all add: has_data_def is_valid_def is_queued_def fun_eq_iff)

lemma linked_block:
  assumes "linked f g0 q g" and "b \<in> lv_blocks f g0"
  shows "\<exists>sb sb0. ic_sb g b = Some sb \<and> ic_sb g0 b = Some sb0 \<and> strip_sb sb = strip_sb sb0"
  using assms closed_block[OF lv_blocks_flow[OF assms(2)], of b] same_code_sb[of g g0 b]
  by (auto simp: linked_def lv_blocks_ok[OF lv_blocks_flow[OF assms(2)]])

lemma linked_put:
  assumes l: "linked f g0 q g" and sb: "ic_sb g b = Some sb" and y: "strip_sb y = strip_sb sb"
    and n: "nd_queued (sb_node y) \<longleftrightarrow> b \<in> set q'" "\<And>c. c \<noteq> b \<Longrightarrow> c \<in> set q' \<longleftrightarrow> c \<in> set q"
  shows "linked f g0 q' (g\<lparr>ic_sb := (ic_sb g)(b \<mapsto> y)\<rparr>)"
  unfolding linked_def
proof (intro conjI ballI)
  show "same_code (g\<lparr>ic_sb := (ic_sb g)(b \<mapsto> y)\<rparr>) g0"
    by (rule same_code_trans[OF same_code_put_sb[OF sb y]]) (use l in \<open>simp add: linked_def\<close>)
  fix c assume "c \<in> lv_blocks f g0"
  then have "is_queued g c \<longleftrightarrow> c \<in> set q" using l by (simp add: linked_def)
  then show "is_queued (g\<lparr>ic_sb := (ic_sb g)(b \<mapsto> y)\<rparr>) c \<longleftrightarrow> c \<in> set q'"
    using n unfolding put_sb_sel by (cases "c = b") auto
qed

lemma requeue_spec:
  fixes c :: bool
  assumes l: "linked f g0 q g" and p: "p \<in> lv_blocks f g0"
    and V_def: "V = {b \<in> lv_blocks f g0. is_valid g b} - (if c then {p} else {})"
    and q'_def: "q' = (if p \<notin> V \<and> p \<notin> set q then q @ [p] else q)"
  shows "\<exists>g'. requeue c p (q, g) = Some (q', g') \<and> linked f g0 q' g' \<and>
    absw f g0 q' g' = (absw f g0 q g)\<lparr>wk_valid := V, wk_queue := q'\<rparr>"
proof -
  obtain sb sb0 where sb: "ic_sb g p = Some sb" "ic_sb g0 p = Some sb0" "strip_sb sb = strip_sb sb0"
    using linked_block[OF l p] by blast
  let ?s = "if c then set_livenessValid False sb else sb"
  let ?e = "p \<notin> V \<and> p \<notin> set q"
  let ?y = "if ?e then set_queued True ?s else ?s"
  let ?g = "g\<lparr>ic_sb := (ic_sb g)(p \<mapsto> ?y)\<rparr>"
  have node: "nd_queued (sb_node sb) \<longleftrightarrow> p \<in> set q" "nd_livenessValid (sb_node ?s) \<longleftrightarrow> p \<in> V"
    using l p sb(1) by (auto simp: linked_def is_queued_def V_def is_valid_def set_livenessValid_def)
  have y: "strip_sb ?y = strip_sb sb" "sb_liveness ?y = sb_liveness sb"
    by (auto simp: strip_sb_def set_queued_def set_livenessValid_def)
  have n: "nd_queued (sb_node ?y) \<longleftrightarrow> p \<in> set q'" "nd_livenessValid (sb_node ?y) \<longleftrightarrow> p \<in> V"
    using node by (auto simp: set_queued_def set_livenessValid_def q'_def)
  have idem: "g\<lparr>ic_sb := (ic_sb g)(p \<mapsto> sb)\<rparr> = g" using sb(1) by (simp add: fun_upd_idem)
  have "requeue c p (q, g) = Some (q', ?g)"
    using sb(1) node idem
    by (cases c) (auto simp: requeue_def enqueue_def upd_sb_def q'_def set_livenessValid_def)
  moreover have "linked f g0 q' ?g"
    by (rule linked_put[OF l sb(1) y(1) n(1)]) (auto simp: q'_def)
  moreover have d: "data_in ?g = data_in g" "has_data ?g = has_data g"
    using sb(1) unfolding put_sb_sel y(2) fun_eq_iff by (simp_all add: data_in_def has_data_def)
  have v: "{b \<in> lv_blocks f g0. is_valid ?g b} = V"
    using n(2) p unfolding put_sb_sel V_def by auto
  have "absw f g0 q' ?g = (absw f g0 q g)\<lparr>wk_valid := V, wk_queue := q'\<rparr>"
    unfolding absw_def d v by simp
  ultimately show ?thesis by blast
qed

lemma requeue_list:
  fixes c :: bool
  assumes "linked f g0 q g" and "set ps \<subseteq> lv_blocks f g0"
    and "V = {b \<in> lv_blocks f g0. is_valid g b} - (if c then set ps else {})"
  shows "\<exists>g'. for_each ps (requeue c) (q, g) = Some (lv.push ps V q, g') \<and> linked f g0 (lv.push ps V q) g' \<and>
    absw f g0 (lv.push ps V q) g' = (absw f g0 q g)\<lparr>wk_valid := V, wk_queue := lv.push ps V q\<rparr>"
  using assms
proof (induction ps arbitrary: q g V)
  case (Cons p ps)
  let ?V = "{b \<in> lv_blocks f g0. is_valid g b}"
  let ?V1 = "?V - (if c then {p} else {})"
  let ?q = "if p \<notin> ?V1 \<and> p \<notin> set q then q @ [p] else q"
  obtain h where h: "requeue c p (q, g) = Some (?q, h)" "linked f g0 ?q h"
    "absw f g0 ?q h = (absw f g0 q g)\<lparr>wk_valid := ?V1, wk_queue := ?q\<rparr>"
    using requeue_spec[OF Cons.prems(1) _ refl refl, of p c] Cons.prems(2) by auto
  have V: "{b \<in> lv_blocks f g0. is_valid h b} = ?V1"
    using arg_cong[OF h(3), of wk_valid] by simp
  have V': "V = {b \<in> lv_blocks f g0. is_valid h b} - (if c then set ps else {})"
    using Cons.prems(3) unfolding V by auto
  have p: "p \<notin> ?V1 \<longleftrightarrow> p \<notin> V" using Cons.prems(3) by auto
  obtain g' where "for_each ps (requeue c) (?q, h) = Some (lv.push ps V ?q, g')" "linked f g0 (lv.push ps V ?q) g'"
    "absw f g0 (lv.push ps V ?q) g' = (absw f g0 ?q h)\<lparr>wk_valid := V, wk_queue := lv.push ps V ?q\<rparr>"
    using Cons.IH[OF h(2) _ V'] Cons.prems(2) by auto
  then show ?case using h(1,3) p by simp
qed (simp add: absw_def)

lemma requeue_edges:
  assumes "\<forall>e\<in>set es. ic_be g e \<noteq> None"
  shows "for_each es (requeue_edge c) (q, g) = for_each (map (\<lambda>e. be_src (the (ic_be g e))) es) (requeue c) (q, g)"
  using assms
proof (induction es arbitrary: q g)
  case (Cons e es)
  obtain ed where e: "ic_be g e = Some ed" using Cons.prems by auto
  have keep: "ic_be h = ic_be g" if "requeue c p (q, g) = Some (q', h)" for p q' h
    using that by (auto simp: requeue_def enqueue_def upd_sb_def bind_eq_Some_conv split: if_splits)
  show ?case
  proof (cases "requeue c (be_src ed) (q, g)")
    case (Some x)
    obtain q' h where x: "x = (q', h)" by (cases x)
    have "\<forall>e\<in>set es. ic_be h e \<noteq> None" using Cons.prems keep Some x by simp
    from Cons.IH[OF this, of q'] show ?thesis
      using Some x e keep[of "be_src ed" q' h] by (simp add: requeue_edge_def)
  qed (simp add: e requeue_edge_def)
qed simp

section \<open>One block is one step\<close>

lemma unchanged_block: "ic_sb g b = Some sb \<Longrightarrow> g\<lparr>ic_sb := (ic_sb g)(b \<mapsto> sb)\<rparr> = g"
  by (simp add: fun_upd_idem)

lemma edge_known_blocks:
  assumes "linked f g0 q g" and b: "b \<in> lv_blocks f g0" and "ic_sb g b = Some sb" and "a \<in> set (sb_instrs sb)"
  shows "edge_known g a"
proof -
  have ok: "flow_ok f g0" and b: "b \<in> set (blocks_in f g0)" using b lv_blocks_flow lv_blocks_ok by blast+
  have s: "same_code g g0" using assms(1) by (simp add: linked_def)
  obtain sb0 where sb0: "ic_sb g0 b = Some sb0" "strip_sb sb = strip_sb sb0"
    using linked_block[OF assms(1,2)] assms(3) by auto
  have a: "a \<in> set (sb_instrs sb0)" using assms(4) strip_sbD[OF sb0(2)] by simp
  obtain i0 where i0: "ic_is g0 a = Some i0" using instrs_okD(2)[OF icfg_okD(2)[OF flow_okD(1)[OF ok]] sb0(1) a] by blast
  obtain i where i: "ic_is g a = Some i" "strip_is i = strip_is i0" using same_code_is[OF s i0] by blast
  note I = strip_isD[OF i(2)]
  have "flow_info_of i \<noteq> None" using closedD(6)[OF ok b sb0(1) a] i0 I by simp
  moreover have "\<exists>ed. ic_be g e = Some ed \<and> ic_sb g (be_dst ed) \<noteq> None" if "is_branchEdge i = Some e" for e
  proof -
    have e0: "is_branchEdge i0 = Some e" using that I by simp
    obtain ed db where ed: "ic_be g0 e = Some ed" "ic_sb g0 (be_dst ed) = Some db"
      by (rule branch_target[OF ok b sb0(1) a i0 e0])
    then show ?thesis using same_code_rest(1)[OF s] same_code_sb[OF s ed(2)] by auto
  qed
  ultimately show ?thesis using i(1) by (auto simp: edge_known_def)
qed

text \<open>The lists of the interface are those of the first graph, which has the same code.\<close>

lemma lists_same_code:
  assumes "same_code g g0" and "\<forall>a\<in>set as. ic_is g0 a \<noteq> None"
  shows "live_list R g d as L = live_list R g0 d as L" "remark_list R g d as L = remark_list R g0 d as L"
proof -
  have e: "dead_on (the (ic_is g a)) = dead_on (the (ic_is g0 a)) \<and>
      before_regs R d (the (ic_is g a)) = before_regs R d (the (ic_is g0 a)) \<and> info_at g a = info_at g0 a"
    if a: "a \<in> set as" for a
  proof -
    obtain i0 where i0: "ic_is g0 a = Some i0" using assms(2) a by auto
    obtain i where i: "ic_is g a = Some i" "strip_is i = strip_is i0" using same_code_is[OF assms(1) i0] by blast
    note I = strip_isD[OF i(2)]
    show ?thesis unfolding i(1) i0 option.sel fun_eq_iff dead_on_def before_regs_def I by simp
  qed
  then show "live_list R g d as L = live_list R g0 d as L" "remark_list R g d as L = remark_list R g0 d as L"
    by (induction as arbitrary: L) (simp_all add: live_regs_def remark_for_def)
qed

lemma lv_out:
  assumes l: "linked f g0 q g" and b: "b \<in> lv_blocks f g0" and sb: "ic_sb g b = Some sb"
  shows "lv_next f g0 b = sb_next sb" "lv_preds f g0 b = block_preds g sb" "lv_list g0 b = rev (sb_instrs sb)"
proof -
  obtain sb0 where sb0: "ic_sb g0 b = Some sb0" "strip_sb sb = strip_sb sb0"
    using linked_block[OF l b] sb by auto
  note S = strip_sbD[OF sb0(2)]
  have "ic_be g = ic_be g0" using l same_code_rest(1) by (auto simp: linked_def)
  then show "lv_next f g0 b = sb_next sb" "lv_preds f g0 b = block_preds g sb" "lv_list g0 b = rev (sb_instrs sb)"
    using b sb0(1) S by (simp_all add: lv_next_def lv_preds_def lv_list_def block_preds_def)
qed

lemma stall_spec:
  assumes l: "linked f g0 q g" and b: "b \<in> lv_blocks f g0" and sb: "ic_sb g b = Some sb" and n: "sb_next sb = Some n"
    and nd: "\<not> has_data g n" and nv: "\<not> is_valid g b" and iv: "\<And>c. is_valid g c \<Longrightarrow> c \<in> lv_blocks f g0 \<Longrightarrow> has_data g c"
  shows "\<exists>q' g'. processBlock ret b (q, g) = Some (q', g') \<and> linked f g0 q' g' \<and>
    absw f g0 q' g' = lv.step f g0 (regs_in ret) b (absw f g0 q g)"
proof -
  note L = lv_out[OF l b sb]
  have nb: "n \<in> lv_blocks f g0" using lv.next_in[OF b] L(1) n by simp
  obtain nsb nsb0 where nsb: "ic_sb g n = Some nsb" using linked_block[OF l nb] by blast
  have "is_queued g n \<longleftrightarrow> n \<in> set q" using l nb by (simp add: linked_def)
  then have q: "nd_queued (sb_node nsb) \<longleftrightarrow> n \<in> set q" using nsb by (simp add: is_queued_def)
  have f: "sb_liveness nsb = None" "\<not> nd_livenessValid (sb_node nsb)" "\<not> nd_livenessValid (sb_node sb)"
    using nd iv[OF _ nb] nsb nv sb by (auto simp: has_data_def is_valid_def)
  have st: "lv.step f g0 (regs_in ret) b (absw f g0 q g) = absw f g0 (if n \<notin> set q then q @ [n] else q) g"
    using lv.step_stalls[of f g0 b n "absw f g0 q g" "regs_in ret"] L(1) n nd by simp
  show ?thesis
  proof (cases "n \<in> set q")
    case True
    then show ?thesis using l sb n nsb f q st by (simp add: processBlock_def)
  next
    case False
    let ?y = "set_queued True nsb"
    let ?g = "g\<lparr>ic_sb := (ic_sb g)(n \<mapsto> ?y)\<rparr>"
    have "processBlock ret b (q, g) = Some (q @ [n], ?g)"
      using sb n nsb f q False by (simp add: processBlock_def enqueue_def upd_sb_def)
    moreover have "linked f g0 (q @ [n]) ?g"
      by (rule linked_put[OF l nsb]) (auto simp: strip_sb_def set_queued_def)
    moreover have d: "data_in ?g = data_in g" "has_data ?g = has_data g" "is_valid ?g = is_valid g"
      using nsb unfolding put_sb_sel fun_eq_iff by (simp_all add: data_in_def has_data_def is_valid_def set_queued_def)
    have "absw f g0 (q @ [n]) ?g = absw f g0 (q @ [n]) g" unfolding absw_def d by simp
    ultimately show ?thesis using st False by simp
  qed
qed

lemma analyse_spec:
  assumes l: "linked f g0 q g" and b: "b \<in> lv_blocks f g0" and sb: "ic_sb g b = Some sb"
    and ns: "\<And>n. sb_next sb = Some n \<Longrightarrow> has_data g n"
    and out: "regs_in out = lv.out_of f g0 (wk_data (absw f g0 q g)) b"
  shows "\<exists>q' g'. analyse_block ret b sb out (q, g) = Some (q', g') \<and> linked f g0 q' g' \<and>
    absw f g0 q' g' = lv.step f g0 (regs_in ret) b (absw f g0 q g)"
proof -
  note L = lv_out[OF l b sb]
  let ?R = "regs_in ret" and ?w = "absw f g0 q g"
  let ?old = "case sb_liveness sb of Some d \<Rightarrow> d | None \<Rightarrow> live_zero"
  let ?sb1 = "set_sb_liveness (Some (?old\<lparr>ld_out := out\<rparr>)) sb"
  define g1 where "g1 = g\<lparr>ic_sb := (ic_sb g)(b \<mapsto> ?sb1)\<rparr>"
  have g1: "upd_sb b (set_sb_liveness (Some (?old\<lparr>ld_out := out\<rparr>))) g = Some g1"
    using sb by (simp add: upd_sb_def g1_def)
  have d1: "data_in g1 = data_in g"
    unfolding g1_def put_sb_sel using sb
    by (auto simp: fun_eq_iff data_in_def set_sb_liveness_def live_zero_def mask_simps split: option.splits)
  have s1: "strip_sb ?sb1 = strip_sb sb" by (simp add: strip_sb_def set_sb_liveness_def)
  have l1: "linked f g0 q g1"
    unfolding g1_def by (rule linked_put[OF l sb s1]) (use l b sb in \<open>auto simp: linked_def is_queued_def set_sb_liveness_def\<close>)
  have sb1: "ic_sb g1 b = Some ?sb1" by (simp add: g1_def)
  have i1: "sb_instrs ?sb1 = sb_instrs sb" "sb_in ?sb1 = sb_in sb" "sb_prev ?sb1 = sb_prev sb" by (simp_all add: set_sb_liveness_def)
  have known: "\<forall>a\<in>set (rev (sb_instrs sb)). edge_known g1 a"
    using edge_known_blocks[OF l1 b sb1] i1 by simp
  have ok: "flow_ok f g0" by (rule lv_blocks_flow[OF b])
  have c1: "same_code g1 g0" using l1 by (simp add: linked_def)
  obtain sb0 where sb0: "ic_sb g0 b = Some sb0" "strip_sb sb = strip_sb sb0" using linked_block[OF l b] sb by auto
  have dist: "distinct (rev (sb_instrs sb))"
    using instrs_okD(1)[OF icfg_okD(2)[OF flow_okD(1)[OF ok]] sb0(1)] strip_sbD[OF sb0(2)] by simp
  obtain live m where m: "process_instructions ret (rev (sb_instrs sb)) out g1 = Some (live, g1\<lparr>ic_is := m\<rparr>)"
    "same_code (g1\<lparr>ic_is := m\<rparr>) g1"
    "regs_in live = live_list ?R g1 (at_edge g1 (data_in g1)) (rev (sb_instrs sb)) (regs_in out)"
    "remarks_at (g1\<lparr>ic_is := m\<rparr>) (rev (sb_instrs sb)) = remark_list ?R g1 (at_edge g1 (data_in g1)) (rev (sb_instrs sb)) (regs_in out)"
    "\<And>a. a \<notin> set (rev (sb_instrs sb)) \<Longrightarrow> m a = ic_is g1 a"
    using process_instructions_spec[OF known dist, of ret out] by blast
  let ?g2 = "g1\<lparr>ic_is := m\<rparr>"
  have l2: "linked f g0 q ?g2"
    using l1 same_code_trans[OF m(2) c1] by (simp add: linked_def is_queued_def)
  let ?new = "lv.entry f g0 ?R (wk_data ?w) b"
  have be: "ic_be g1 = ic_be g0" by (rule same_code_rest(1)[OF c1])
  have t: "same_targets g0 (lv_list g0 b) (at_edge g0 (data_in g)) (at_edge g0 (wk_data ?w))" "\<forall>a\<in>set (lv_list g0 b). ic_is g0 a \<noteq> None"
    by (rule same_targets_preds[OF b]; simp)+
  have new: "regs_in live = ?new"
    using m(3) lists_cong(1)[OF t, of ?R "regs_in out"] lists_same_code(1)[OF c1 t(2), of ?R]
    unfolding d1 out lv_transfer_def be L(3) by simp
  have rem: "remarks_at ?g2 (lv_list g0 b) = lv.entry_notes f g0 ?R (wk_data ?w) b"
    using m(4) lists_cong(2)[OF t, of ?R "regs_in out"] lists_same_code(2)[OF c1 t(2), of ?R]
    unfolding d1 out lv_remark_def be L(3) by simp
  define changed where "changed = (\<not> mask_eq (ld_in ?old) live)"
  have ch: "changed \<longleftrightarrow> ?new \<noteq> wk_data ?w b"
    using sb b new by (auto simp: changed_def mask_simps data_in_def live_zero_def split: option.splits)
  define y where "y = set_livenessValid True
      (if changed then set_sb_liveness (Some \<lparr>ld_out = out, ld_in = live\<rparr>) ?sb1 else ?sb1)"
  define g3 where "g3 = ?g2\<lparr>ic_sb := (ic_sb ?g2)(b \<mapsto> y)\<rparr>"
  have y: "strip_sb y = strip_sb ?sb1" "nd_livenessValid (sb_node y)" "nd_queued (sb_node y) = nd_queued (sb_node sb)"
    "sb_liveness y \<noteq> None" "(case sb_liveness y of Some d \<Rightarrow> regs_in (ld_in d) | None \<Rightarrow> {}) = ?new"
    using new by (auto simp: y_def strip_sb_def set_livenessValid_def set_sb_liveness_def changed_def mask_simps)
  have sb2: "ic_sb ?g2 b = Some ?sb1" using sb1 by simp
  have l3: "linked f g0 q g3"
    unfolding g3_def by (rule linked_put[OF l2 sb2 y(1)]) (use l b sb y(3) in \<open>auto simp: linked_def is_queued_def\<close>)
  have up3: "upd_sb b (\<lambda>sb. set_livenessValid True
      (if changed then set_sb_liveness (Some \<lparr>ld_out = out, ld_in = live\<rparr>) sb else sb)) ?g2 = Some g3"
    using sb2 by (simp add: upd_sb_def g3_def y_def)
  have rem_all: "(\<lambda>c. remarks_at g3 (lv_list g0 c)) = (wk_note ?w)(b := lv.entry_notes f g0 ?R (wk_data ?w) b)"
  proof (rule ext)
    fix c
    show "remarks_at g3 (lv_list g0 c) =
      ((wk_note ?w)(b := lv.entry_notes f g0 ?R (wk_data ?w) b)) c"
    proof (cases "c = b")
      case True
      then show ?thesis using rem by (simp add: g3_def)
    next
      case False
      have "ic_is g3 a = ic_is g a" if a: "a \<in> set (lv_list g0 c)" for a
      proof -
        obtain sc where sc: "ic_sb g0 c = Some sc" "a \<in> set (sb_instrs sc)"
          using a by (cases "ic_sb g0 c") (auto simp: lv_list_def)
        have "a \<notin> set (sb_instrs sb0)"
          using instrs_okD(3)[OF icfg_okD(2)[OF flow_okD(1)[OF ok]] sc(1) sb0(1) sc(2)] False by blast
        then show ?thesis using m(5) strip_sbD[OF sb0(2)] by (simp add: g3_def g1_def)
      qed
      then show ?thesis using False by simp
    qed
  qed
  have a3: "absw f g0 q g3 = \<lparr>wk_data = (wk_data ?w)(b := ?new), wk_has = insert b (wk_has ?w),
      wk_note = (wk_note ?w)(b := lv.entry_notes f g0 ?R (wk_data ?w) b), wk_valid = insert b (wk_valid ?w), wk_queue = q\<rparr>"
  proof -
    have "data_in g3 = (data_in g)(b := ?new)" unfolding g3_def put_sb_sel y(5) by (simp add: d1)
    then have "(\<lambda>c. if c \<in> lv_blocks f g0 then data_in g3 c else {}) = (wk_data ?w)(b := ?new)"
      using b by (simp add: fun_eq_iff)
    moreover have "has_data g3 c \<longleftrightarrow> c = b \<or> has_data g c" for c
      unfolding g3_def put_sb_sel(2) g1_def has_data_is put_sb_sel(2) using y(4) by simp
    then have "{c \<in> lv_blocks f g0. has_data g3 c} = insert b (wk_has ?w)" using b by auto
    moreover have "is_valid g3 c \<longleftrightarrow> c = b \<or> is_valid g c" for c
      unfolding g3_def put_sb_sel(3) g1_def has_data_is put_sb_sel(3) using y(2) by simp
    then have "{c \<in> lv_blocks f g0. is_valid g3 c} = insert b (wk_valid ?w)" using b by auto
    ultimately show ?thesis unfolding absw_def[of f g0 q g3] rem_all by simp
  qed
  have ps: "set (block_preds g sb) \<subseteq> lv_blocks f g0" using lv.preds_in[OF b] L(2) by simp
  let ?V = "{c \<in> lv_blocks f g0. is_valid g3 c} - (if changed then set (block_preds g sb) else {})"
  obtain g4 where g4: "for_each (block_preds g sb) (requeue changed) (q, g3) = Some (lv.push (block_preds g sb) ?V q, g4)"
    "linked f g0 (lv.push (block_preds g sb) ?V q) g4"
    "absw f g0 (lv.push (block_preds g sb) ?V q) g4 = (absw f g0 q g3)\<lparr>wk_valid := ?V, wk_queue := lv.push (block_preds g sb) ?V q\<rparr>"
    using requeue_list[OF l3 ps refl, of changed] by blast
  have preds: "block_preds g sb = map (\<lambda>e. be_src (the (ic_be g3 e))) (sb_in sb) @ (case sb_prev sb of Some p \<Rightarrow> [p] | None \<Rightarrow> [])"
    by (simp add: block_preds_def g3_def g1_def)
  have es: "\<forall>e\<in>set (sb_in sb). ic_be g3 e \<noteq> None"
  proof
    fix e assume "e \<in> set (sb_in sb)"
    then obtain ed where "ic_be g0 e = Some ed"
      using edges_okD(4)[OF icfg_okD(4)[OF flow_okD(1)[OF ok]] sb0(1), of e] strip_sbD[OF sb0(2)] by (auto simp: live_be_def)
    then show "ic_be g3 e \<noteq> None" using be by (simp add: g3_def g1_def)
  qed
  have "analyse_block ret b sb out (q, g) =
      Option.bind (for_each (sb_in sb) (requeue_edge changed) (q, g3))
        (\<lambda>(q, g). case sb_prev sb of Some p \<Rightarrow> requeue changed p (q, g) | None \<Rightarrow> Some (q, g))"
    using g1 m(1) up3 by (simp add: analyse_block_def Let_def changed_def[symmetric] cong: option.case_cong)
  also have "\<dots> = for_each (block_preds g sb) (requeue changed) (q, g3)"
    unfolding preds requeue_edges[OF es] for_each_append
    by (rule Option.bind_cong) (auto simp: ext[of "for_each [] (requeue changed)" Some] split: option.split)
  finally have run: "analyse_block ret b sb out (q, g) = Some (lv.push (block_preds g sb) ?V q, g4)" using g4(1) by simp
  have V: "?V = insert b (wk_valid ?w) - (if ?new \<noteq> wk_data ?w b then set (lv_preds f g0 b) else {})"
    using arg_cong[OF a3, of wk_valid] unfolding ch L(2) by simp
  have works: "\<not> lv.stalls f g0 b ?w"
    using L(1) ns lv.next_in[OF b] by (auto simp: lv.stalls_def)
  note g4(3)
  also have "(absw f g0 q g3)\<lparr>wk_valid := ?V, wk_queue := lv.push (block_preds g sb) ?V q\<rparr> = lv.step f g0 ?R b ?w"
    unfolding a3 V lv.step_works[OF works, of ?R] L(2) by simp
  finally show ?thesis using run g4(2) by blast
qed

lemma processBlock_spec:
  assumes l: "linked f g0 q g" and b: "b \<in> lv_blocks f g0" and nv: "\<not> is_valid g b"
    and iv: "\<And>c. is_valid g c \<Longrightarrow> c \<in> lv_blocks f g0 \<Longrightarrow> has_data g c"
  shows "\<exists>q' g'. processBlock ret b (q, g) = Some (q', g') \<and> linked f g0 q' g' \<and>
    absw f g0 q' g' = lv.step f g0 (regs_in ret) b (absw f g0 q g)"
proof -
  obtain sb where sb: "ic_sb g b = Some sb" using linked_block[OF l b] by blast
  have v: "\<not> nd_livenessValid (sb_node sb)" using nv sb by (simp add: is_valid_def)
  note L = lv_out[OF l b sb]
  show ?thesis
  proof (cases "sb_next sb")
    case None
    have "regs_in mask_zero = lv.out_of f g0 (wk_data (absw f g0 q g)) b"
      using L(1) None by (simp add: lv.out_of_def mask_simps)
    from analyse_spec[OF l b sb _ this] show ?thesis using sb v None by (simp add: processBlock_def)
  next
    case (Some n)
    have n: "n \<in> lv_blocks f g0" using lv.next_in[OF b] L(1) Some by simp
    obtain nsb where nsb: "ic_sb g n = Some nsb" using linked_block[OF l n] by blast
    show ?thesis
    proof (cases "sb_liveness nsb")
      case None
      then have "\<not> has_data g n" using nsb by (simp add: has_data_def)
      from stall_spec[OF l b sb Some this nv iv] show ?thesis by blast
    next
      case d: (Some d)
      have "regs_in (ld_in d) = lv.out_of f g0 (wk_data (absw f g0 q g)) b"
        using L(1) Some n nsb d by (simp add: lv.out_of_def data_in_def)
      moreover have "has_data g m" if "sb_next sb = Some m" for m
        using that Some nsb d by (auto simp: has_data_def)
      ultimately show ?thesis
        using analyse_spec[OF l b sb, of "ld_in d"] sb v Some nsb d by (simp add: processBlock_def)
    qed
  qed
qed

lemma pop_spec:
  assumes l: "linked f g0 (b # q) g" and d: "distinct (b # q)" and b: "b \<in> lv_blocks f g0"
  shows "\<exists>g'. upd_sb b (set_queued False) g = Some g' \<and> linked f g0 q g' \<and> absw f g0 q g' = absw f g0 q g \<and>
    is_valid g' = is_valid g \<and> has_data g' = has_data g"
proof -
  obtain sb where sb: "ic_sb g b = Some sb" using linked_block[OF l b] by blast
  let ?g = "g\<lparr>ic_sb := (ic_sb g)(b \<mapsto> set_queued False sb)\<rparr>"
  have "linked f g0 q ?g"
    by (rule linked_put[OF l sb]) (use d in \<open>auto simp: strip_sb_def set_queued_def\<close>)
  moreover have e: "data_in ?g = data_in g" "has_data ?g = has_data g" "is_valid ?g = is_valid g"
    using sb unfolding put_sb_sel fun_eq_iff by (simp_all add: data_in_def has_data_def is_valid_def set_queued_def)
  have "absw f g0 q ?g = absw f g0 q g" unfolding absw_def e by simp
  ultimately show ?thesis using sb e by (simp add: upd_sb_def)
qed

section \<open>The loop\<close>

text \<open>
  The blocks that get data: those with a return, those from which one of them is reached, and
  what they fall through to.
\<close>

inductive_set lv_reach :: "nat \<Rightarrow> icfg \<Rightarrow> nat set" for f g where
  returns: "b \<in> set (lv_starts f g) \<Longrightarrow> b \<in> lv_reach f g"
| goes_back: "c \<in> lv_reach f g \<Longrightarrow> b \<in> set (lv_preds f g c) \<Longrightarrow> b \<in> lv_reach f g"
| falls_to: "b \<in> lv_reach f g \<Longrightarrow> lv_next f g b = Some n \<Longrightarrow> n \<in> lv_reach f g"

lemma lv_reach_closed: "lv.closed_blocks f g (lv_reach f g)"
  by (auto simp: lv.closed_blocks_def intro: lv_reach.intros)

lemma lv_reach_least:
  assumes "set (lv_starts f g) \<subseteq> U" and "lv.closed_blocks f g U"
  shows "lv_reach f g \<subseteq> U"
proof
  show "b \<in> U" if "b \<in> lv_reach f g" for b
    using that assms by induction (auto simp: lv.closed_blocks_def)
qed

definition below :: "nat \<Rightarrow> icfg \<Rightarrow> regs \<Rightarrow> nat set \<Rightarrow> (nat \<Rightarrow> regs) \<Rightarrow> bool" where
  "below f g R U x \<longleftrightarrow> lv.closed_blocks f g U \<and> (\<forall>b\<in>U. lv.entry f g R x b \<subseteq> x b)"

text \<open>What the loop never leaves: a closed set of blocks, and a bound of the data.\<close>

definition within :: "nat set \<Rightarrow> (nat \<Rightarrow> regs) \<Rightarrow> (nat, subregister, 'n) work \<Rightarrow> bool" where
  "within U x s \<longleftrightarrow> set (wk_queue s) \<subseteq> U \<and> wk_has s \<subseteq> U \<and> (\<forall>c. wk_data s c \<subseteq> x c)"

lemma step_stays_within:
  assumes "below f g R U x" and "within U x s" and "wk_queue s = b # p"
  shows "within U x (lv.step f g R b (s\<lparr>wk_queue := p\<rparr>))"
proof -
  note A = assms[unfolded below_def within_def]
  have b: "b \<in> U" using A by simp
  have "set (wk_queue (lv.step f g R b (s\<lparr>wk_queue := p\<rparr>))) \<subseteq> U \<and> wk_has (lv.step f g R b (s\<lparr>wk_queue := p\<rparr>)) \<subseteq> U"
    by (rule lv.step_within) (use A b in auto)
  moreover have "wk_data (lv.step f g R b (s\<lparr>wk_queue := p\<rparr>)) c \<subseteq> x c" for c
    by (rule lv.step_below) (use A b in simp_all)
  ultimately show ?thesis by (simp add: within_def)
qed

lemma process_queue_spec:
  assumes "lv.inv f g0 (regs_in ret) (absw f g0 q g)" and "linked f g0 q g"
  shows "\<exists>g'. process_queue ret (q, g) = Some g' \<and> linked f g0 [] g' \<and> lv.inv f g0 (regs_in ret) (absw f g0 [] g') \<and>
    (\<forall>U x. below f g0 (regs_in ret) U x \<longrightarrow> within U x (absw f g0 q g) \<longrightarrow> within U x (absw f g0 [] g'))"
proof -
  let ?R = "regs_in ret"
  have "\<forall>q g. s = absw f g0 q g \<longrightarrow> linked f g0 q g \<longrightarrow> (\<exists>g'. process_queue ret (q, g) = Some g' \<and> linked f g0 [] g' \<and>
    lv.inv f g0 ?R (absw f g0 [] g') \<and>
    (\<forall>U x. below f g0 ?R U x \<longrightarrow> within U x s \<longrightarrow> within U x (absw f g0 [] g')))"
    if "lv.inv f g0 ?R s" for s
    using that
  proof (induction s rule: lv.work_induct)
    case (stop s)
    show ?case
    proof (intro allI impI)
      fix q g assume s: "s = absw f g0 q g" and l: "linked f g0 q g"
      then have "q = []" using stop(2) by simp
      then show "\<exists>g'. process_queue ret (q, g) = Some g' \<and> linked f g0 [] g' \<and> lv.inv f g0 ?R (absw f g0 [] g') \<and>
        (\<forall>U x. below f g0 ?R U x \<longrightarrow> within U x s \<longrightarrow> within U x (absw f g0 [] g'))"
        using l stop(1) s by (subst process_queue.simps) auto
    qed
  next
    case (step s b p)
    show ?case
    proof (intro allI impI)
      fix q g assume s: "s = absw f g0 q g" and l: "linked f g0 q g"
      have q: "q = b # p" using step.hyps(2) s by simp
      note I = lv.invD[OF step.hyps(1)]
      have b: "b \<in> lv_blocks f g0" "distinct (b # p)" using I(1,2) s q by auto
      obtain g1 where g1: "upd_sb b (set_queued False) g = Some g1" "linked f g0 p g1" "absw f g0 p g1 = absw f g0 p g"
        "is_valid g1 = is_valid g" "has_data g1 = has_data g"
        using pop_spec[OF l[unfolded q] b(2,1)] by blast
      have nv: "\<not> is_valid g1 b" using I(5) s q b(1) g1(4) by auto
      have iv: "has_data g1 c" if "is_valid g1 c" "c \<in> lv_blocks f g0" for c using I(4) s that g1(4,5) by auto
      obtain q' g' where g': "processBlock ret b (p, g1) = Some (q', g')" "linked f g0 q' g'"
        "absw f g0 q' g' = lv.step f g0 ?R b (absw f g0 p g1)"
        using processBlock_spec[OF g1(2) b(1) nv iv, of ret] by blast
      have st: "lv.step f g0 ?R b (s\<lparr>wk_queue := p\<rparr>) = absw f g0 q' g'" using g'(3) g1(3) s by simp
      obtain h where h: "process_queue ret (q', g') = Some h" "linked f g0 [] h" "lv.inv f g0 ?R (absw f g0 [] h)"
        "\<forall>U x. below f g0 ?R U x \<longrightarrow> within U x (absw f g0 q' g') \<longrightarrow> within U x (absw f g0 [] h)"
        using step.IH[unfolded st, THEN spec[of _ q'], THEN spec[of _ g'], THEN mp[OF _ refl], THEN mp[OF _ g'(2)]]
        by (elim exE conjE)
      have "process_queue ret (q, g) = Some h"
        by (subst process_queue.simps) (simp add: q g1(1) g'(1) h(1))
      moreover have "\<forall>U x. below f g0 ?R U x \<longrightarrow> within U x s \<longrightarrow> within U x (absw f g0 [] h)"
        using h(4) step_stays_within[of f g0 ?R _ _ s b p, OF _ _ step.hyps(2), unfolded st] by blast
      ultimately show "\<exists>g'. process_queue ret (q, g) = Some g' \<and> linked f g0 [] g' \<and> lv.inv f g0 ?R (absw f g0 [] g') \<and>
        (\<forall>U x. below f g0 ?R U x \<longrightarrow> within U x s \<longrightarrow> within U x (absw f g0 [] g'))"
        using h(2,3) by blast
    qed
  qed
  from this[OF assms(1), THEN spec[of _ q], THEN spec[of _ g], THEN mp[OF _ refl], THEN mp[OF _ assms(2)]]
  show ?thesis .
qed

section \<open>The pass on a function\<close>

lemma clear_spec:
  assumes "set bs \<subseteq> {b. ic_sb g b \<noteq> None}"
  shows "\<exists>h. for_each bs clearLivenessData g = Some h \<and> same_code h g \<and> ic_is h = ic_is g \<and>
    (\<forall>b. is_queued h b = is_queued g b) \<and> (\<forall>b\<in>set bs. \<not> has_data h b \<and> \<not> is_valid h b) \<and>
    (\<forall>b. b \<notin> set bs \<longrightarrow> ic_sb h b = ic_sb g b)"
  using assms
proof (induction bs rule: rev_induct)
  case (snoc b bs)
  then obtain h where h: "for_each bs clearLivenessData g = Some h" "same_code h g" "ic_is h = ic_is g"
    "\<And>b. is_queued h b = is_queued g b" "\<And>b. b \<in> set bs \<Longrightarrow> \<not> has_data h b \<and> \<not> is_valid h b"
    "\<And>b. b \<notin> set bs \<Longrightarrow> ic_sb h b = ic_sb g b" by auto
  obtain x where "ic_sb g b = Some x" using snoc.prems by auto
  then obtain sb where sb: "ic_sb h b = Some sb" using same_code_sb[OF h(2)] by blast
  let ?y = "set_livenessValid False (set_sb_liveness None sb)"
  let ?h = "h\<lparr>ic_sb := (ic_sb h)(b \<mapsto> ?y)\<rparr>"
  have y: "strip_sb ?y = strip_sb sb" "sb_liveness ?y = None" "\<not> nd_livenessValid (sb_node ?y)"
    "nd_queued (sb_node ?y) = nd_queued (sb_node sb)"
    by (simp_all add: strip_sb_def set_livenessValid_def set_sb_liveness_def)
  have "for_each (bs @ [b]) clearLivenessData g = Some ?h"
    using sb by (simp add: for_each_append h(1) clearLivenessData_def upd_sb_def)
  moreover have "same_code ?h g" by (rule same_code_trans[OF same_code_put_sb[OF sb y(1)] h(2)])
  moreover have "is_queued ?h c = is_queued g c" for c
    unfolding put_sb_sel h(4)[symmetric] y(4) using sb by (simp add: is_queued_def)
  moreover have "\<not> has_data ?h c \<and> \<not> is_valid ?h c" if "c \<in> set (bs @ [b])" for c
    unfolding put_sb_sel using that h(5) y(2,3) by auto
  moreover have "ic_sb ?h c = ic_sb g c" if "c \<notin> set (bs @ [b])" for c using that h(6) by simp
  ultimately show ?case using h(3) by (intro exI[of _ ?h]) simp
qed simp

lemma start_queue_spec:
  assumes "\<forall>r\<in>set rs. ic_re g r \<noteq> None" and "\<forall>r\<in>set rs. ic_sb g (re_src (the (ic_re g r))) \<noteq> None"
  shows "\<exists>h. start_queue rs g = Some (map (\<lambda>r. re_src (the (ic_re g r))) rs, h) \<and> same_code h g \<and> ic_is h = ic_is g \<and>
    (\<forall>b. is_queued h b \<longleftrightarrow> is_queued g b \<or> b \<in> set (map (\<lambda>r. re_src (the (ic_re g r))) rs)) \<and>
    has_data h = has_data g \<and> is_valid h = is_valid g"
  using assms
proof (induction rs rule: rev_induct)
  case Nil
  then show ?case by (simp add: start_queue_def)
next
  case (snoc r rs)
  let ?src = "\<lambda>r. re_src (the (ic_re g r))"
  from snoc obtain h where h: "start_queue rs g = Some (map ?src rs, h)" "same_code h g" "ic_is h = ic_is g"
    "\<And>b. is_queued h b \<longleftrightarrow> is_queued g b \<or> b \<in> set (map ?src rs)" "has_data h = has_data g" "is_valid h = is_valid g"
    by auto
  obtain ed x where ed: "ic_re g r = Some ed" "ic_sb g (re_src ed) = Some x" using snoc.prems by fastforce
  obtain sb where sb: "ic_sb h (re_src ed) = Some sb" using same_code_sb[OF h(2) ed(2)] by blast
  let ?h = "h\<lparr>ic_sb := (ic_sb h)(re_src ed \<mapsto> set_queued True sb)\<rparr>"
  have "start_queue (rs @ [r]) g = Some (map ?src (rs @ [r]), ?h)"
    using h(1) ed sb same_code_rest(3)[OF h(2)] by (simp add: start_queue_def for_each_append enqueue_def upd_sb_def)
  moreover have "same_code ?h g"
    by (rule same_code_trans[OF same_code_put_sb[OF sb] h(2)]) (simp add: strip_sb_def set_queued_def)
  moreover have "is_queued ?h b \<longleftrightarrow> is_queued g b \<or> b \<in> set (map ?src (rs @ [r]))" for b
    unfolding put_sb_sel h(4) using ed by (auto simp: set_queued_def)
  moreover have "has_data ?h = has_data g" "is_valid ?h = is_valid g"
    unfolding put_sb_sel fun_eq_iff h(5,6)[symmetric] using sb by (simp_all add: has_data_def is_valid_def set_queued_def)
  ultimately show ?case using h(3) by (intro exI[of _ ?h]) simp
qed

text \<open>
  What the pass leaves in a function: exactly the blocks above have data; there it solves the
  equations of liveness, where a block without data adds nothing, and it is below every other
  solution on them.
\<close>

definition live_result :: "nat \<Rightarrow> icfg \<Rightarrow> regs \<Rightarrow> icfg \<Rightarrow> bool" where
  "live_result f g R h \<longleftrightarrow> {b \<in> lv_blocks f g. has_data h b} = lv_reach f g \<and>
     lv.solved f g R (absw f g [] h) \<and>
     (\<forall>x. (\<forall>b\<in>lv_reach f g. lv.entry f g R x b \<subseteq> x b) \<longrightarrow> (\<forall>b\<in>lv_reach f g. data_in h b \<subseteq> x b))"

lemma sets_fn: "data_in (h\<lparr>ic_fn := m\<rparr>) = data_in h" "has_data (h\<lparr>ic_fn := m\<rparr>) = has_data h"
  "is_valid (h\<lparr>ic_fn := m\<rparr>) = is_valid h"
  by (simp_all add: data_in_def has_data_def is_valid_def fun_eq_iff)

lemma fn_flag:
  "absw f g0 q (h\<lparr>ic_fn := m\<rparr>) = absw f g0 q h" "linked f g0 q h \<Longrightarrow> same_code h g0"
  unfolding absw_def sets_fn linked_def by simp_all

lemma liveness_function_total:
  assumes ok: "flow_ok f g" and fn: "ic_fn g f = Some fn" and nv: "\<not> nd_livenessValid (fn_node fn)" and spec: "fn_info fn = Some spec"
  defines "R \<equiv> regs_in (ro_out spec) \<union> regs_in (ro_preserved spec)"
  shows "\<exists>h0. liveness_function f g = Some (h0\<lparr>ic_fn := (ic_fn h0)(f \<mapsto> set_fn_livenessValid fn)\<rparr>) \<and> same_code h0 g \<and>
    live_result f g R h0 \<and> (\<forall>b\<in>lv_blocks f g. \<not> is_queued h0 b)"
proof -
  let ?ret = "mask_add (ro_out spec) (ro_preserved spec)"
  have R: "regs_in ?ret = R" by (simp add: R_def mask_simps)
  have bs: "blocks_in f g = fn_blocks fn" "return_blocks f g = map (\<lambda>r. re_src (the (ic_re g r))) (fn_returns fn)"
    using fn by (simp_all add: blocks_in_def return_blocks_def)
  have B: "lv_blocks f g = set (fn_blocks fn)" using lv_blocks_ok[OF ok] bs(1) by simp
  have "set (fn_blocks fn) \<subseteq> {b. ic_sb g b \<noteq> None}" using closed_block[OF ok] bs(1) by auto
  then obtain g1 where g1: "for_each (fn_blocks fn) clearLivenessData g = Some g1" "same_code g1 g" "ic_is g1 = ic_is g"
    "\<And>b. is_queued g1 b = is_queued g b" "\<And>b. b \<in> set (fn_blocks fn) \<Longrightarrow> \<not> has_data g1 b \<and> \<not> is_valid g1 b"
    using clear_spec[of "fn_blocks fn" g] by blast
  have re: "ic_re g1 = ic_re g" by (rule same_code_rest(3)[OF g1(2)])
  have rs: "\<forall>r\<in>set (fn_returns fn). ic_re g1 r \<noteq> None"
    using returns_okD(2)[OF icfg_okD(6)[OF flow_okD(1)[OF ok]] fn] by (auto simp: re live_re_def)
  have "\<forall>r\<in>set (fn_returns fn). re_src (the (ic_re g r)) \<in> set (blocks_in f g)"
    using flow_okD(5)[OF ok] bs(2) by auto
  then have rb: "\<forall>r\<in>set (fn_returns fn). ic_sb g1 (re_src (the (ic_re g1 r))) \<noteq> None"
    using closed_block[OF ok] same_code_sb[OF g1(2)] unfolding re by blast
  obtain g2 where g2: "start_queue (fn_returns fn) g1 = Some (return_blocks f g, g2)" "same_code g2 g1" "ic_is g2 = ic_is g1"
    "\<And>b. is_queued g2 b \<longleftrightarrow> is_queued g1 b \<or> b \<in> set (return_blocks f g)" "has_data g2 = has_data g1" "is_valid g2 = is_valid g1"
    using start_queue_spec[OF rs rb] unfolding re bs(2) by blast
  have nq: "\<not> is_queued g b" if "b \<in> lv_blocks f g" for b
  proof -
    have "b \<in> set (blocks_in f g)" using that lv_blocks_ok[OF ok] by simp
    then show ?thesis using closedD(1)[OF ok] by (auto simp: is_queued_def)
  qed
  have l2: "linked f g (return_blocks f g) g2"
    using same_code_trans[OF g2(2) g1(2)] g1(4) g2(4) nq by (simp add: linked_def)
  have nd: "\<not> has_data g2 b" "\<not> is_valid g2 b" "data_in g2 b = {}" if "b \<in> lv_blocks f g" for b
  proof -
    show "\<not> has_data g2 b" "\<not> is_valid g2 b" using that g1(5) g2(5,6) B by auto
    then show "data_in g2 b = {}" by (auto simp: has_data_def data_in_def split: option.splits)
  qed
  have a2: "absw f g (return_blocks f g) g2 = lv.start g f"
  proof -
    have "(\<lambda>b. if b \<in> lv_blocks f g then data_in g2 b else {}) = (\<lambda>_. {})" by (rule ext) (simp add: nd)
    moreover have "{b \<in> lv_blocks f g. has_data g2 b} = {}"
      "{b \<in> lv_blocks f g. is_valid g2 b} = {}" "ic_is g2 = ic_is g"
      using nd g2(3) g1(3) by auto
    ultimately show ?thesis unfolding absw_def lv.start_def by (simp add: lv_starts_def ok)
  qed
  obtain h where h: "process_queue ?ret (return_blocks f g, g2) = Some h" "linked f g [] h"
    "lv.inv f g R (absw f g [] h)"
    "\<forall>U x. below f g R U x \<longrightarrow> within U x (lv.start g f) \<longrightarrow> within U x (absw f g [] h)"
    using process_queue_spec[of f g ?ret "return_blocks f g" g2] lv.inv_start l2 unfolding a2 R by blast
  have sol: "lv.solved f g R (absw f g [] h)" by (rule lv.inv_solved[OF h(3)]) simp
  have start: "within (lv_reach f g) x (lv.start g f)" for x
    by (auto simp: within_def lv.start_def intro: lv_reach.returns)
  have least: "within (lv_reach f g) x (absw f g [] h)" if "\<forall>b\<in>lv_reach f g. lv.entry f g R x b \<subseteq> x b" for x
    using h(4) start lv_reach_closed that by (auto simp: below_def)
  have "wk_has (absw f g [] h) \<subseteq> lv_reach f g" using least[of "\<lambda>_. UNIV"] by (simp add: within_def)
  moreover have "lv_reach f g \<subseteq> wk_has (absw f g [] h)"
    by (rule lv_reach_least) (use sol in \<open>unfold lv.solved_def lv.closed_blocks_def, blast+\<close>)
  ultimately have has: "wk_has (absw f g [] h) = lv_reach f g" by blast
  have "data_in h b \<subseteq> x b" if "\<forall>b\<in>lv_reach f g. lv.entry f g R x b \<subseteq> x b" "b \<in> lv_reach f g" for x b
  proof -
    have "wk_data (absw f g [] h) b \<subseteq> x b" using least[OF that(1)] by (simp add: within_def)
    moreover have "b \<in> lv_blocks f g" using that(2) has by auto
    ultimately show ?thesis by simp
  qed
  then have res: "live_result f g R h" using sol has by (simp add: live_result_def)
  have "ic_fn h f = Some fn" using same_code_rest(2)[OF fn_flag(2)[OF h(2)]] fn by simp
  then have "liveness_function f g = Some (h\<lparr>ic_fn := (ic_fn h)(f \<mapsto> set_fn_livenessValid fn)\<rparr>)"
    using fn nv spec g1(1) g2(1) h(1) flow_okD(3)[OF ok] bs(2)
    by (simp add: liveness_function_def for_each_block_any_def Let_def upd_fn_def)
  then show ?thesis using res fn_flag(2)[OF h(2)] h(2) by (auto simp: linked_def)
qed

end
