(* ===== verification/Flow_Run.thy ===== *)
theory Flow_Run
  imports Liveness_Work
begin

text \<open>
  What a function does when its blocks run, on a processor that is a parameter, and that the
  instructions the liveness analysis leaves without data can be skipped.
\<close>

section \<open>Running a function\<close>

text \<open>
  The registers of a machine hold one value per subregister; what lies beyond them is memory.
  A processor runs an instruction and tells whether control leaves it: a branch is taken, or a
  return leaves the function.
\<close>

type_synonym ('v, 'm) mach = "(subregister \<Rightarrow> 'v) \<times> 'm"
type_synonym ('v, 'm) processor = "instruction \<Rightarrow> ('v, 'm) mach \<Rightarrow> ('v, 'm) mach \<times> bool"

datatype ('v, 'm) outcome =
    Falls "('v, 'm) mach"        \<comment> \<open>behind the last instruction\<close>
  | Jumps nat "('v, 'm) mach"    \<comment> \<open>to a block of the graph\<close>
  | Leaves "('v, 'm) mach"       \<comment> \<open>to unknown code\<close>
  | Returns "('v, 'm) mach"      \<comment> \<open>at a return instruction, before it pops the address\<close>

primrec run_instrs :: "('v, 'm) processor \<Rightarrow> icfg \<Rightarrow> (nat \<Rightarrow> bool) \<Rightarrow> nat list \<Rightarrow> ('v, 'm) mach \<Rightarrow> ('v, 'm) outcome" where
  "run_instrs cpu g keep [] s = Falls s"
| "run_instrs cpu g keep (a # as) s =
     (let i = the (ic_is g a); (s', leave) = cpu (is_ins i) s in
      if \<not> keep a then run_instrs cpu g keep as s
      else if isRet i \<and> leave then Returns s
      else if isBranch i \<and> leave then
        (case is_branchEdge i of Some e \<Rightarrow> Jumps (be_dst (the (ic_be g e))) s' | None \<Rightarrow> Leaves s')
      else run_instrs cpu g keep as s')"

text \<open>A run of at most \<open>n\<close> blocks from block \<open>b\<close> that ends in a return.\<close>

primrec returns_from :: "('v, 'm) processor \<Rightarrow> icfg \<Rightarrow> (nat \<Rightarrow> bool) \<Rightarrow> nat \<Rightarrow> nat \<Rightarrow> ('v, 'm) mach \<Rightarrow> ('v, 'm) mach option" where
  "returns_from cpu g keep 0 b s = None"
| "returns_from cpu g keep (Suc n) b s =
     (case ic_sb g b of
        None \<Rightarrow> None
      | Some sb \<Rightarrow>
          (case run_instrs cpu g keep (sb_instrs sb) s of
             Returns t \<Rightarrow> Some t
           | Jumps c t \<Rightarrow> returns_from cpu g keep n c t
           | Falls t \<Rightarrow> (case sb_next sb of Some c \<Rightarrow> returns_from cpu g keep n c t | None \<Rightarrow> None)
           | Leaves t \<Rightarrow> None))"

section \<open>Processors the analysis is right for\<close>

text \<open>
  What the information on an instruction promises: only the written registers change and only
  an instruction that may write memory changes it; what is written, and whether control leaves,
  depends on the registers read and on memory; a register that may be left alone depends on
  itself too; an instruction that is known not to run does nothing; a return returns.
\<close>

definition keeps_to :: "('v, 'm) processor \<Rightarrow> instr \<Rightarrow> flow_info \<Rightarrow> bool" where
  "keeps_to cpu i fi \<longleftrightarrow>
     (let W = regs_in (fi_written fi); C = regs_in (fi_condWritten fi);
          Rd = regs_in (fi_read fi) \<union> regs_in (fi_predicate fi) in
      (\<forall>s r. r \<notin> W \<union> C \<longrightarrow> fst (fst (cpu (is_ins i) s)) r = fst s r) \<and>
      (\<not> fi_mayWriteMem fi \<longrightarrow> (\<forall>s. snd (fst (cpu (is_ins i) s)) = snd s)) \<and>
      (fi_willExecute fi = TFalse \<longrightarrow> (\<forall>s. cpu (is_ins i) s = (s, False))) \<and>
      (isRet i \<longrightarrow> fi_willExecute fi \<noteq> TFalse \<longrightarrow> (\<forall>s. snd (cpu (is_ins i) s))) \<and>
      (\<forall>s t. (\<forall>r\<in>Rd. fst s r = fst t r) \<longrightarrow> snd s = snd t \<longrightarrow>
         snd (cpu (is_ins i) s) = snd (cpu (is_ins i) t) \<and>
         snd (fst (cpu (is_ins i) s)) = snd (fst (cpu (is_ins i) t)) \<and>
         (\<forall>r\<in>W \<union> C. fst s r = fst t r \<or> (r \<in> W \<and> fi_willExecute fi = TTrue) \<longrightarrow>
            fst (fst (cpu (is_ins i) s)) r = fst (fst (cpu (is_ins i) t)) r)))"

definition agree_on :: "regs \<Rightarrow> ('v, 'm) mach \<Rightarrow> ('v, 'm) mach \<Rightarrow> bool" where
  "agree_on L s t \<longleftrightarrow> (\<forall>r\<in>L. fst s r = fst t r) \<and> snd s = snd t"

lemma agree_mono: "agree_on L s t \<Longrightarrow> K \<subseteq> L \<Longrightarrow> agree_on K s t"
  by (auto simp: agree_on_def)

lemma agree_all: "agree_on UNIV s t \<longleftrightarrow> s = t"
  by (auto simp: agree_on_def prod_eq_iff)

lemma keeps_toD:
  assumes "keeps_to cpu i fi"
  shows "r \<notin> regs_in (fi_written fi) \<Longrightarrow> r \<notin> regs_in (fi_condWritten fi) \<Longrightarrow> fst (fst (cpu (is_ins i) s)) r = fst s r"
    and "\<not> fi_mayWriteMem fi \<Longrightarrow> snd (fst (cpu (is_ins i) s)) = snd s"
    and "fi_willExecute fi = TFalse \<Longrightarrow> cpu (is_ins i) s = (s, False)"
    and "isRet i \<Longrightarrow> fi_willExecute fi \<noteq> TFalse \<Longrightarrow> snd (cpu (is_ins i) s)"
    and "agree_on (regs_in (fi_read fi) \<union> regs_in (fi_predicate fi)) s t \<Longrightarrow> snd (cpu (is_ins i) s) = snd (cpu (is_ins i) t)"
    and "agree_on (regs_in (fi_read fi) \<union> regs_in (fi_predicate fi)) s t \<Longrightarrow>
      snd (fst (cpu (is_ins i) s)) = snd (fst (cpu (is_ins i) t))"
    and "agree_on (regs_in (fi_read fi) \<union> regs_in (fi_predicate fi)) s t \<Longrightarrow>
      fst s r = fst t r \<or> (r \<in> regs_in (fi_written fi) \<and> fi_willExecute fi = TTrue) \<Longrightarrow>
      fst (fst (cpu (is_ins i) s)) r = fst (fst (cpu (is_ins i) t)) r"
proof -
  note D = assms[unfolded keeps_to_def Let_def]
  show one: "r \<notin> regs_in (fi_written fi) \<Longrightarrow> r \<notin> regs_in (fi_condWritten fi) \<Longrightarrow> fst (fst (cpu (is_ins i) s)) r = fst s r" for r s
    using D by blast
  show "\<not> fi_mayWriteMem fi \<Longrightarrow> snd (fst (cpu (is_ins i) s)) = snd s"
    "fi_willExecute fi = TFalse \<Longrightarrow> cpu (is_ins i) s = (s, False)"
    "isRet i \<Longrightarrow> fi_willExecute fi \<noteq> TFalse \<Longrightarrow> snd (cpu (is_ins i) s)"
    using D by blast+
  assume a: "agree_on (regs_in (fi_read fi) \<union> regs_in (fi_predicate fi)) s t"
  show "snd (cpu (is_ins i) s) = snd (cpu (is_ins i) t)" "snd (fst (cpu (is_ins i) s)) = snd (fst (cpu (is_ins i) t))"
    using D a unfolding agree_on_def by blast+
  assume r: "fst s r = fst t r \<or> (r \<in> regs_in (fi_written fi) \<and> fi_willExecute fi = TTrue)"
  show "fst (fst (cpu (is_ins i) s)) r = fst (fst (cpu (is_ins i) t)) r"
  proof (cases "r \<in> regs_in (fi_written fi) \<union> regs_in (fi_condWritten fi)")
    case True
    then show ?thesis using D a r unfolding agree_on_def by blast
  next
    case False
    then show ?thesis using one[of r s] one[of r t] r by simp
  qed
qed

section \<open>One instruction\<close>

text \<open>A live instruction runs the same way, and leaves machines that agree on what is live then.\<close>

lemma live_step:
  assumes k: "keeps_to cpu i fi" and nd: "\<not> dead_on i fi L" and a: "agree_on (before_regs R d i fi L) s t" and nr: "\<not> isRet i"
  shows "snd (cpu (is_ins i) s) = snd (cpu (is_ins i) t)"
    and "agree_on L (fst (cpu (is_ins i) s)) (fst (cpu (is_ins i) t))"
    and "isBranch i \<Longrightarrow> is_branchEdge i = Some e \<Longrightarrow> snd (cpu (is_ins i) s) \<Longrightarrow>
      agree_on (d e) (fst (cpu (is_ins i) s)) (fst (cpu (is_ins i) t))"
    and "isBranch i \<Longrightarrow> is_branchEdge i = None \<Longrightarrow> snd (cpu (is_ins i) s) \<Longrightarrow> fst (cpu (is_ins i) s) = fst (cpu (is_ins i) t)"
proof -
  note K = keeps_toD[OF k]
  let ?s = "cpu (is_ins i) s" and ?t = "cpu (is_ins i) t"
  have "snd ?s = snd ?t \<and> agree_on L (fst ?s) (fst ?t) \<and>
    (\<forall>e. isBranch i \<longrightarrow> is_branchEdge i = Some e \<longrightarrow> snd ?s \<longrightarrow> agree_on (d e) (fst ?s) (fst ?t)) \<and>
    (isBranch i \<longrightarrow> is_branchEdge i = None \<longrightarrow> snd ?s \<longrightarrow> fst ?s = fst ?t)"
  proof (cases "fi_willExecute fi = TFalse")
    case True
    then have "?s = (s, False)" "?t = (t, False)" using K(3) by blast+
    then show ?thesis using True a by (auto simp: before_regs_def agree_on_def)
  next
    case False
    note ex = False
    show ?thesis
    proof (cases "isCall i \<or> isBranch i \<and> is_branchEdge i = None")
      case True
      then have "before_regs R d i fi L = UNIV" using ex nr by (auto simp: before_regs_def)
      then have "s = t" using a by (simp add: agree_all)
      then show ?thesis by (simp add: agree_on_def)
    next
      case False
      let ?W = "if fi_willExecute fi = TTrue then regs_in (fi_written fi) else {}"
      have b: "before_regs R d i fi L = (L - ?W) \<union> regs_in (fi_read fi) \<union> regs_in (fi_predicate fi) \<union>
          (case is_branchEdge i of Some e \<Rightarrow> if isBranch i then d e else {} | None \<Rightarrow> {})"
        using ex nr False by (auto simp: before_regs_def split: option.splits)
      have rd: "agree_on (regs_in (fi_read fi) \<union> regs_in (fi_predicate fi)) s t"
        by (rule agree_mono[OF a]) (auto simp: b)
      note K' = K(5)[OF rd] K(6)[OF rd] K(7)[OF rd]
      have L: "agree_on L (fst ?s) (fst ?t)"
        unfolding agree_on_def
      proof (intro conjI ballI)
        fix r assume r: "r \<in> L"
        have "fst s r = fst t r \<or> (r \<in> regs_in (fi_written fi) \<and> fi_willExecute fi = TTrue)"
          using a r unfolding b agree_on_def by (cases "fi_willExecute fi = TTrue") auto
        then show "fst (fst ?s) r = fst (fst ?t) r" by (rule K'(3))
      qed (rule K'(2))
      have D: "agree_on (d e) (fst ?s) (fst ?t)" if "isBranch i" "is_branchEdge i = Some e" for e
        unfolding agree_on_def
      proof (intro conjI ballI)
        fix r assume "r \<in> d e"
        then have "fst s r = fst t r" using a that unfolding b agree_on_def by auto
        then show "fst (fst ?s) r = fst (fst ?t) r" using K'(3) by blast
      qed (rule K'(2))
      show ?thesis using K'(1) L D False by blast
    qed
  qed
  then show "snd ?s = snd ?t" "agree_on L (fst ?s) (fst ?t)"
    "isBranch i \<Longrightarrow> is_branchEdge i = Some e \<Longrightarrow> snd ?s \<Longrightarrow> agree_on (d e) (fst ?s) (fst ?t)"
    "isBranch i \<Longrightarrow> is_branchEdge i = None \<Longrightarrow> snd ?s \<Longrightarrow> fst ?s = fst ?t"
    by blast+
qed

text \<open>A dead instruction changes nothing that is live.\<close>

lemma dead_step:
  assumes k: "keeps_to cpu i fi" and d: "dead_on i fi L" and a: "agree_on L s t"
  shows "agree_on L (fst (cpu (is_ins i) s)) t"
proof -
  note K = keeps_toD[OF k]
  have "fst (fst (cpu (is_ins i) s)) r = fst t r" if "r \<in> L" for r
    using K(1)[of r s] d a that by (auto simp: dead_on_def agree_on_def)
  moreover have "snd (fst (cpu (is_ins i) s)) = snd t" using K(2)[of s] d a by (simp add: dead_on_def agree_on_def)
  ultimately show ?thesis by (simp add: agree_on_def)
qed

section \<open>The instructions of a block\<close>

lemma live_list_append: "live_list R g d (xs @ ys) L = live_list R g d ys (live_list R g d xs L)"
  by (induction xs arbitrary: L) simp_all

lemma remark_list_append:
  "remark_list R g d (xs @ ys) L = remark_list R g d xs L @ remark_list R g d ys (live_list R g d xs L)"
  by (induction xs arbitrary: L) simp_all

lemma length_remark_list [simp]: "length (remark_list R g d as L) = length as"
  by (induction as arbitrary: L) simp_all

fun alike_out :: "regs \<Rightarrow> (nat \<Rightarrow> regs) \<Rightarrow> regs \<Rightarrow> ('v, 'm) outcome \<Rightarrow> ('v, 'm) outcome \<Rightarrow> bool" where
  "alike_out R D L (Falls s) (Falls t) \<longleftrightarrow> agree_on L s t"
| "alike_out R D L (Jumps c s) (Jumps c' t) \<longleftrightarrow> c = c' \<and> agree_on (D c) s t"
| "alike_out R D L (Leaves s) (Leaves t) \<longleftrightarrow> s = t"
| "alike_out R D L (Returns s) (Returns t) \<longleftrightarrow> agree_on R s t"
| "alike_out R D L _ _ \<longleftrightarrow> False"

lemma run_block:
  assumes "\<forall>a\<in>set as. keeps_to cpu (the (ic_is g a)) (info_at g a)"
    and "map rm (rev as) = remark_list R g (at_edge g D) (rev as) L"
    and "agree_on (live_list R g (at_edge g D) (rev as) L) s t"
  shows "alike_out R D L (run_instrs cpu g (\<lambda>_. True) as s) (run_instrs cpu g (\<lambda>a. rm a \<noteq> None) as t)"
  using assms
proof (induction as arbitrary: s t)
  case (Cons a as)
  let ?i = "the (ic_is g a)" and ?fi = "info_at g a" and ?d = "at_edge g D" and ?K = "\<lambda>a. rm a \<noteq> None"
  let ?L = "live_list R g ?d (rev as) L"
  let ?s = "cpu (is_ins ?i) s" and ?t = "cpu (is_ins ?i) t"
  have k: "keeps_to cpu ?i ?fi" using Cons.prems(1) by simp
  have rm: "map rm (rev as) = remark_list R g ?d (rev as) L" "rm a = remark_for R ?d ?i ?fi ?L"
    using Cons.prems(2) by (simp_all add: remark_list_append)
  have ag: "agree_on (live_regs R ?d ?i ?fi ?L) s t" using Cons.prems(3) by (simp add: live_list_append)
  have IH: "alike_out R D L (run_instrs cpu g (\<lambda>_. True) as s') (run_instrs cpu g ?K as t')" if "agree_on ?L s' t'" for s' t'
    using Cons.IH[OF _ rm(1) that] Cons.prems(1) by simp
  show ?case
  proof (cases "dead_on ?i ?fi ?L")
    case True
    then have "agree_on ?L (fst ?s) t" using dead_step[OF k True] ag by (simp add: live_regs_def)
    moreover have "\<not> isRet ?i" "\<not> isBranch ?i" using True by (simp_all add: dead_on_def)
    ultimately show ?thesis using IH[of "fst ?s" t] True rm(2) by (simp add: remark_for_def Let_def split_beta)
  next
    case False
    then have ag: "agree_on (before_regs R ?d ?i ?fi ?L) s t" and keep: "?K a" using ag rm(2) by (simp_all add: live_regs_def remark_for_def)
    show ?thesis
    proof (cases "isRet ?i")
      case True
      note r = True
      show ?thesis
      proof (cases "fi_willExecute ?fi = TFalse")
        case True
        then have "?s = (s, False)" "?t = (t, False)" using keeps_toD(3)[OF k] by blast+
        moreover have "agree_on ?L s t" by (rule agree_mono[OF ag]) (use True in \<open>simp add: before_regs_def\<close>)
        ultimately show ?thesis using IH keep by simp
      next
        case False
        have "agree_on R s t" by (rule agree_mono[OF ag]) (use False r in \<open>simp add: before_regs_def\<close>)
        moreover have "snd ?s" "snd ?t" using keeps_toD(4)[OF k r False] by blast+
        ultimately show ?thesis using r keep by (simp add: Let_def split_beta)
      qed
    next
      case nr: False
      note S = live_step[OF k False ag nr]
      show ?thesis
      proof (cases "isBranch ?i \<and> snd ?s")
        case True
        then show ?thesis using S(1,3,4) nr keep by (cases "is_branchEdge ?i") (simp_all add: Let_def split_beta)
      next
        case nb: False
        then show ?thesis using IH[OF S(2)] S(1) nr keep by (auto simp: Let_def split_beta)
      qed
    qed
  qed
qed simp

lemma run_ends:
  assumes "run_instrs cpu g keep as s = out"
  shows "out = Returns t \<Longrightarrow> \<exists>a\<in>set as. isRet (the (ic_is g a))"
    and "out = Jumps c t \<Longrightarrow> \<exists>a\<in>set as. \<exists>e. is_branchEdge (the (ic_is g a)) = Some e \<and> c = be_dst (the (ic_be g e))"
  using assms
proof (induction as arbitrary: s)
  case (Cons a as)
  { case 1
    then show ?case using Cons.IH(1) by (auto simp: Let_def split_beta split: if_splits option.splits) }
  { case 2
    then show ?case using Cons.IH(2) by (auto simp: Let_def split_beta split: if_splits option.splits) }
qed simp_all

section \<open>The function\<close>

text \<open>Every return instruction has its edge to the function.\<close>

definition rets_known :: "nat \<Rightarrow> icfg \<Rightarrow> bool" where
  "rets_known f g \<longleftrightarrow> (\<forall>b\<in>set (blocks_in f g). \<forall>a\<in>set (sb_instrs (the (ic_sb g b))).
     isRet (the (ic_is g a)) \<longrightarrow>
       (\<exists>e ed. is_returnEdge (the (ic_is g a)) = Some e \<and> ic_re g e = Some ed \<and> re_dst ed = f))"

lemma ret_block:
  assumes ok: "flow_ok f g" and r: "rets_known f g" and b: "b \<in> set (blocks_in f g)" and sb: "ic_sb g b = Some sb"
    and a: "a \<in> set (sb_instrs sb)" and i: "isRet (the (ic_is g a))"
  shows "b \<in> set (return_blocks f g)"
proof -
  note ig = flow_okD(1)[OF ok]
  obtain e ed where e: "is_returnEdge (the (ic_is g a)) = Some e" "ic_re g e = Some ed" "re_dst ed = f"
    using r b sb a i by (fastforce simp: rets_known_def)
  obtain ia where ia: "ic_is g a = Some ia" using instrs_okD(2)[OF icfg_okD(2)[OF ig] sb a] by blast
  note RO = returns_okD[OF icfg_okD(6)[OF ig]]
  obtain ed' where "live_re g e ed'" "re_instr ed' = a" using RO(6)[OF ia] e(1) ia by auto
  then have l: "live_re g e ed" "re_instr ed = a" using e(2) by (simp_all add: live_re_def)
  obtain sc where sc: "ic_sb g (re_src ed) = Some sc" "a \<in> set (sb_instrs sc)" using RO(4)[OF l(1)] l(2) by blast
  have "re_src ed = b" by (rule instrs_okD(3)[OF icfg_okD(2)[OF ig] sc(1) sb sc(2) a])
  moreover obtain fn where "ic_fn g f = Some fn" "e \<in> set (fn_returns fn)" using RO(3)[OF l(1)] e(3) by blast
  ultimately show ?thesis using e(2) by (force simp: return_blocks_def)
qed

lemma solvedD:
  assumes "live_result f g R h" and ok: "flow_ok f g"
  shows "set (return_blocks f g) \<subseteq> {b. has_data h b}"
    and "c \<in> lv_blocks f g \<Longrightarrow> has_data h c \<Longrightarrow> b \<in> set (lv_preds f g c) \<Longrightarrow> has_data h b"
    and "b \<in> lv_blocks f g \<Longrightarrow> has_data h b \<Longrightarrow> data_in h b = lv.entry f g R (wk_data (absw f g [] h)) b"
    and "b \<in> lv_blocks f g \<Longrightarrow> has_data h b \<Longrightarrow>
      remarks_at h (lv_list g b) = lv.entry_notes f g R (wk_data (absw f g [] h)) b"
proof -
  have S: "lv.solved f g R (absw f g [] h)" using assms(1) by (simp add: live_result_def)
  have D: "set (lv_starts f g) \<subseteq> wk_has (absw f g [] h)" "\<forall>c\<in>wk_has (absw f g [] h). set (lv_preds f g c) \<subseteq> wk_has (absw f g [] h)"
    "\<forall>b\<in>wk_has (absw f g [] h). wk_data (absw f g [] h) b = lv.entry f g R (wk_data (absw f g [] h)) b \<and>
       (\<forall>n. lv_next f g b = Some n \<longrightarrow> n \<in> wk_has (absw f g [] h))"
    "\<forall>b\<in>wk_has (absw f g [] h). wk_note (absw f g [] h) b = lv.entry_notes f g R (wk_data (absw f g [] h)) b"
    using S unfolding lv.solved_def by - (elim conjE, assumption)+
  show "set (return_blocks f g) \<subseteq> {b. has_data h b}" using D(1) ok by (auto simp: lv_starts_def)
  show "c \<in> lv_blocks f g \<Longrightarrow> has_data h c \<Longrightarrow> b \<in> set (lv_preds f g c) \<Longrightarrow> has_data h b"
    using bspec[OF D(2), of c] by auto
  assume b: "b \<in> lv_blocks f g" "has_data h b"
  then have h: "b \<in> wk_has (absw f g [] h)" by simp
  show "data_in h b = lv.entry f g R (wk_data (absw f g [] h)) b"
    using bspec[OF D(3) h] b(1) by (metis absw_sel(4))
  show "remarks_at h (lv_list g b) = lv.entry_notes f g R (wk_data (absw f g [] h)) b"
    using bspec[OF D(4) h] by simp
qed

lemma jump_inside:
  assumes ok: "flow_ok f g" and b: "b \<in> set (blocks_in f g)" and sb: "ic_sb g b = Some sb"
    and j: "run_instrs cpu g keep (sb_instrs sb) s = Jumps c t"
  shows "c \<in> lv_blocks f g \<and> b \<in> set (lv_preds f g c)"
proof -
  obtain a e where a: "a \<in> set (sb_instrs sb)" "is_branchEdge (the (ic_is g a)) = Some e" "c = be_dst (the (ic_be g e))"
    using run_ends(2)[OF refl j] by blast
  obtain i where i: "ic_is g a = Some i" using instrs_okD(2)[OF icfg_okD(2)[OF flow_okD(1)[OF ok]] sb a(1)] by blast
  obtain ed db where "ic_be g e = Some ed" "be_src ed = b" "ic_sb g (be_dst ed) = Some db" "e \<in> set (sb_in db)"
    "be_dst ed \<in> set (blocks_in f g)" by (rule branch_target[OF ok b sb a(1) i]) (use a(2) i in auto)
  then show ?thesis using a(3) lv_blocks_ok[OF ok] by (force simp: lv_preds_def block_preds_def)
qed

text \<open>
  A run of the function that returns goes through blocks with data only. If it starts in a
  machine that agrees on what is live, the run without the dead instructions takes the same
  way and returns with the same results.
\<close>

definition live_instr :: "icfg \<Rightarrow> nat \<Rightarrow> bool" where
  "live_instr h a \<longleftrightarrow> is_liveness (the (ic_is h a)) \<noteq> None"

definition cpu_for :: "('v, 'm) processor \<Rightarrow> nat \<Rightarrow> icfg \<Rightarrow> bool" where
  "cpu_for cpu f g \<longleftrightarrow> (\<forall>b\<in>set (blocks_in f g). \<forall>a\<in>set (sb_instrs (the (ic_sb g b))).
     keeps_to cpu (the (ic_is g a)) (info_at g a))"

lemma returns_live:
  assumes res: "live_result f g R h" and ok: "flow_ok f g" and rets: "rets_known f g" and cpu: "cpu_for cpu f g"
    and run: "returns_from cpu g (\<lambda>_. True) n b s = Some s'" and b: "b \<in> lv_blocks f g"
  shows "has_data h b \<and> (agree_on (data_in h b) s t \<longrightarrow>
    (\<exists>t'. returns_from cpu g (live_instr h) n b t = Some t' \<and> agree_on R s' t'))"
  using run b
proof (induction n arbitrary: b s t)
  case (Suc n)
  let ?D = "wk_data (absw f g [] h)"
  note B = lv_blocks_ok[OF ok]
  have bb: "b \<in> set (blocks_in f g)" using Suc.prems(2) B by simp
  obtain sb where sb: "ic_sb g b = Some sb" using closed_block[OF ok bb] by blast
  let ?run = "run_instrs cpu g (\<lambda>_. True) (sb_instrs sb) s"
  have pred: "has_data h c \<Longrightarrow> has_data h b" if "c \<in> lv_blocks f g" "b \<in> set (lv_preds f g c)" for c
    using solvedD(2)[OF res ok that(1) _ that(2)] by blast
  have jump: "c \<in> lv_blocks f g \<and> b \<in> set (lv_preds f g c)" if j: "?run = Jumps c s1" for c s1
    by (rule jump_inside[OF ok bb sb j])
  have fall: "c \<in> lv_blocks f g \<and> b \<in> set (lv_preds f g c)" if "sb_next sb = Some c" for c
  proof -
    have "lv_next f g b = Some c" using that sb Suc.prems(2) by (simp add: lv_next_def)
    then show ?thesis using lv.next_in[OF Suc.prems(2)] lv.next_pred[OF Suc.prems(2)] by blast
  qed
  have has: "has_data h b"
  proof (cases ?run)
    case (Returns s1)
    then obtain a where "a \<in> set (sb_instrs sb)" "isRet (the (ic_is g a))" using run_ends(1)[OF refl] by blast
    then show ?thesis using ret_block[OF ok rets bb sb] solvedD(1)[OF res ok] by blast
  next
    case (Jumps c s1)
    then show ?thesis using Suc.prems(1) sb Suc.IH jump pred by fastforce
  next
    case (Falls s1)
    then obtain c where "sb_next sb = Some c" "returns_from cpu g (\<lambda>_. True) n c s1 = Some s'"
      using Suc.prems(1) sb by (auto split: option.splits)
    then show ?thesis using Suc.IH fall pred by blast
  qed (use Suc.prems(1) sb in simp)
  have list: "lv_list g b = rev (sb_instrs sb)" by (simp add: lv_list_def sb)
  let ?out = "lv.out_of f g ?D b"
  have rm: "map (\<lambda>a. remark_of (the (ic_is h a))) (rev (sb_instrs sb)) = remark_list R g (at_edge g ?D) (rev (sb_instrs sb)) ?out"
    using solvedD(4)[OF res ok Suc.prems(2) has] unfolding list lv_remark_def .
  have keep: "(\<lambda>a. remark_of (the (ic_is h a)) \<noteq> None) = live_instr h"
    by (simp add: fun_eq_iff live_instr_def remark_of_def)
  have "\<exists>t'. returns_from cpu g (live_instr h) (Suc n) b t = Some t' \<and> agree_on R s' t'" if a: "agree_on (data_in h b) s t"
  proof -
    have "agree_on (live_list R g (at_edge g ?D) (rev (sb_instrs sb)) ?out) s t"
      using a solvedD(3)[OF res ok Suc.prems(2) has] unfolding lv_transfer_def list by simp
    from run_block[OF _ rm this, of cpu] have o: "alike_out R ?D ?out ?run (run_instrs cpu g (live_instr h) (sb_instrs sb) t)"
      using cpu bb sb unfolding keep by (auto simp: cpu_for_def)
    show ?thesis
    proof (cases ?run)
      case (Returns s1)
      then show ?thesis using o Suc.prems(1) sb
        by (cases "run_instrs cpu g (live_instr h) (sb_instrs sb) t") auto
    next
      case (Jumps c s1)
      then obtain t1 where t1: "run_instrs cpu g (live_instr h) (sb_instrs sb) t = Jumps c t1" "agree_on (?D c) s1 t1"
        using o by (cases "run_instrs cpu g (live_instr h) (sb_instrs sb) t") auto
      then show ?thesis using Suc.IH[of c s1 t1] Suc.prems(1) sb Jumps jump[OF Jumps] by simp
    next
      case (Falls s1)
      then obtain t1 where t1: "run_instrs cpu g (live_instr h) (sb_instrs sb) t = Falls t1" "agree_on ?out s1 t1"
        using o by (cases "run_instrs cpu g (live_instr h) (sb_instrs sb) t") auto
      obtain c where c: "sb_next sb = Some c" "returns_from cpu g (\<lambda>_. True) n c s1 = Some s'"
        using Suc.prems(1) sb Falls by (auto split: option.splits)
      have "?out = data_in h c" using c(1) sb Suc.prems(2) fall[OF c(1)] by (simp add: lv.out_of_def lv_next_def)
      then show ?thesis using Suc.IH[OF c(2), of t1] fall[OF c(1)] t1 sb c(1) by simp
    next
      case (Leaves s1)
      then show ?thesis using Suc.prems(1) sb by simp
    qed
  qed
  then show ?case using has by blast
qed simp

end
