(* ===== verification/Icfg_Edges.thy ===== *)
theory Icfg_Edges
  imports Icfg_Ok
begin

text \<open>
  Taking edges out of the graph and adding them: the assertions of the code hold on every
  graph that is in order, and the graph stays in order.
\<close>

section \<open>What the list operations do\<close>

lemma addIncoming_total:
  assumes "parents g" and "ic_sb g b = Some sb" and "ic_be g e = Some ed" "be_dst ed = b"
  shows "\<exists>h. addIncomingEdge b e g = Some h \<and>
    alike h (g\<lparr>ic_sb := (ic_sb g)(b \<mapsto> sb\<lparr>sb_in := sb_in sb @ [e]\<rparr>)\<rparr>)"
proof -
  obtain h where h: "invalidate_sb AnStack b g = Some h" "alike h g"
    using invalidate_total[OF assms(1,2)] by blast
  obtain sb' where sb': "ic_sb h b = Some sb'" "er_sb sb' = er_sb sb" using alike_sb[OF h(2) assms(2)] by blast
  have "alike (h\<lparr>ic_sb := (ic_sb h)(b \<mapsto> sb'\<lparr>sb_in := sb_in sb' @ [e]\<rparr>)\<rparr>)
    (g\<lparr>ic_sb := (ic_sb g)(b \<mapsto> sb\<lparr>sb_in := sb_in sb @ [e]\<rparr>)\<rparr>)"
    by (rule alike_put(1)[OF h(2)]) (use sb'(2) er_sbD[OF sb'(2)] in simp)
  then show ?thesis using h sb'(1) assms(3,4) alike_edges(1)[OF h(2)] by (simp add: addIncomingEdge_def upd_sb_def)
qed

lemma removeIncoming_total:
  assumes "parents g" and "ic_sb g b = Some sb" and "e \<in> set (sb_in sb)"
  shows "\<exists>h. removeIncomingEdge b e g = Some h \<and>
    alike h (g\<lparr>ic_sb := (ic_sb g)(b \<mapsto> sb\<lparr>sb_in := remove1 e (sb_in sb)\<rparr>)\<rparr>)"
proof -
  obtain h where h: "invalidate_sb AnStack b g = Some h" "alike h g"
    using invalidate_total[OF assms(1,2)] by blast
  obtain sb' where sb': "ic_sb h b = Some sb'" "er_sb sb' = er_sb sb" using alike_sb[OF h(2) assms(2)] by blast
  have "alike (h\<lparr>ic_sb := (ic_sb h)(b \<mapsto> sb'\<lparr>sb_in := remove1 e (sb_in sb')\<rparr>)\<rparr>)
    (g\<lparr>ic_sb := (ic_sb g)(b \<mapsto> sb\<lparr>sb_in := remove1 e (sb_in sb)\<rparr>)\<rparr>)"
    by (rule alike_put(1)[OF h(2)]) (use sb'(2) er_sbD[OF sb'(2)] in simp)
  then show ?thesis using h sb'(1) assms(3) er_sbD[OF sb'(2)] by (simp add: removeIncomingEdge_def upd_sb_def)
qed

lemma addOutgoing_total:
  assumes "parents g" and "ic_sb g b = Some sb" and "ic_be g e = Some ed" "be_src ed = b"
  shows "\<exists>h. addOutgoingEdge b e g = Some h \<and>
    alike h (g\<lparr>ic_sb := (ic_sb g)(b \<mapsto> sb\<lparr>sb_out := sb_out sb @ [e]\<rparr>)\<rparr>)"
proof -
  obtain h where h: "invalidate_sb AnLiveness b g = Some h" "alike h g"
    using invalidate_total[OF assms(1,2)] by blast
  obtain sb' where sb': "ic_sb h b = Some sb'" "er_sb sb' = er_sb sb" using alike_sb[OF h(2) assms(2)] by blast
  have "alike (h\<lparr>ic_sb := (ic_sb h)(b \<mapsto> sb'\<lparr>sb_out := sb_out sb' @ [e]\<rparr>)\<rparr>)
    (g\<lparr>ic_sb := (ic_sb g)(b \<mapsto> sb\<lparr>sb_out := sb_out sb @ [e]\<rparr>)\<rparr>)"
    by (rule alike_put(1)[OF h(2)]) (use sb'(2) er_sbD[OF sb'(2)] in simp)
  then show ?thesis using h sb'(1) assms(3,4) alike_edges(1)[OF h(2)] by (simp add: addOutgoingEdge_def upd_sb_def)
qed

lemma removeOutgoing_total:
  assumes "parents g" and "ic_sb g b = Some sb" and "e \<in> set (sb_out sb)"
  shows "\<exists>h. removeOutgoingEdge b e g = Some h \<and>
    alike h (g\<lparr>ic_sb := (ic_sb g)(b \<mapsto> sb\<lparr>sb_out := remove1 e (sb_out sb)\<rparr>)\<rparr>)"
proof -
  obtain h where h: "invalidate_sb AnLiveness b g = Some h" "alike h g"
    using invalidate_total[OF assms(1,2)] by blast
  obtain sb' where sb': "ic_sb h b = Some sb'" "er_sb sb' = er_sb sb" using alike_sb[OF h(2) assms(2)] by blast
  have "alike (h\<lparr>ic_sb := (ic_sb h)(b \<mapsto> sb'\<lparr>sb_out := remove1 e (sb_out sb')\<rparr>)\<rparr>)
    (g\<lparr>ic_sb := (ic_sb g)(b \<mapsto> sb\<lparr>sb_out := remove1 e (sb_out sb)\<rparr>)\<rparr>)"
    by (rule alike_put(1)[OF h(2)]) (use sb'(2) er_sbD[OF sb'(2)] in simp)
  then show ?thesis using h sb'(1) assms(3) er_sbD[OF sb'(2)] by (simp add: removeOutgoingEdge_def upd_sb_def)
qed

section \<open>Cutting an edge\<close>

definition cut_branch :: "nat \<Rightarrow> icfg \<Rightarrow> icfg" where
  "cut_branch e g = g\<lparr>
     ic_sb := (\<lambda>b. map_option (\<lambda>sb. sb\<lparr>sb_in := remove1 e (sb_in sb), sb_out := remove1 e (sb_out sb)\<rparr>) (ic_sb g b)),
     ic_is := (\<lambda>a. map_option (\<lambda>i. if is_branchEdge i = Some e then i\<lparr>is_branchEdge := None\<rparr> else i) (ic_is g a)),
     ic_be := (\<lambda>x. map_option (\<lambda>ed. if x = e then ed\<lparr>be_invalidated := True\<rparr> else ed) (ic_be g x))\<rparr>"

definition cut_call :: "nat \<Rightarrow> icfg \<Rightarrow> icfg" where
  "cut_call e g = g\<lparr>
     ic_fn := (\<lambda>f. map_option (\<lambda>fn. fn\<lparr>fn_in := remove1 e (fn_in fn), fn_out := remove1 e (fn_out fn)\<rparr>) (ic_fn g f)),
     ic_is := (\<lambda>a. map_option (\<lambda>i. if is_callEdge i = Some e then i\<lparr>is_callEdge := None\<rparr> else i) (ic_is g a)),
     ic_ce := (\<lambda>x. map_option (\<lambda>ed. if x = e then ed\<lparr>ce_invalidated := True\<rparr> else ed) (ic_ce g x))\<rparr>"

definition cut_return :: "nat \<Rightarrow> icfg \<Rightarrow> icfg" where
  "cut_return e g = g\<lparr>
     ic_fn := (\<lambda>f. map_option (\<lambda>fn. fn\<lparr>fn_returns := remove1 e (fn_returns fn)\<rparr>) (ic_fn g f)),
     ic_is := (\<lambda>a. map_option (\<lambda>i. if is_returnEdge i = Some e then i\<lparr>is_returnEdge := None\<rparr> else i) (ic_is g a)),
     ic_re := (\<lambda>x. map_option (\<lambda>ed. if x = e then ed\<lparr>re_invalidated := True\<rparr> else ed) (ic_re g x))\<rparr>"

lemma type_upd [simp]:
  "isBranch (i\<lparr>is_branchEdge := x\<rparr>) = isBranch i" "isCall (i\<lparr>is_branchEdge := x\<rparr>) = isCall i"
  "isRet (i\<lparr>is_branchEdge := x\<rparr>) = isRet i" "isBranch (i\<lparr>is_callEdge := x\<rparr>) = isBranch i"
  "isCall (i\<lparr>is_callEdge := x\<rparr>) = isCall i" "isRet (i\<lparr>is_callEdge := x\<rparr>) = isRet i"
  "isBranch (i\<lparr>is_returnEdge := x\<rparr>) = isBranch i" "isCall (i\<lparr>is_returnEdge := x\<rparr>) = isCall i"
  "isRet (i\<lparr>is_returnEdge := x\<rparr>) = isRet i"
  by (simp_all add: isBranch_def isCall_def isRet_def has_type_def)

lemma cut_branch_ok:
  assumes ok: "icfg_ok g"
  shows "icfg_ok (cut_branch e g)"
proof -
  have live: "live_be (cut_branch e g) x ed \<longleftrightarrow> live_be g x ed \<and> x \<noteq> e" for x ed
    by (cases "ic_be g x") (auto simp: live_be_def cut_branch_def)
  have other: "live_ce (cut_branch e g) = live_ce g" "live_re (cut_branch e g) = live_re g"
    by (simp_all add: fun_eq_iff live_defs cut_branch_def)
  have "blocks_ok (cut_branch e g)"
    by (rule blocks_cong[OF icfg_okD(1)[OF ok]]) (simp_all add: cut_branch_def agree_sym)
  moreover have "instrs_ok (cut_branch e g)"
    by (rule instrs_cong[OF icfg_okD(2)[OF ok]]) (simp_all add: cut_branch_def agree_sym)
  moreover have "chain_ok (cut_branch e g)"
    by (rule chain_cong[OF icfg_okD(3)[OF ok]]) (simp_all add: cut_branch_def agree_sym)
  moreover have "edges_ok (cut_branch e g)"
  proof -
    note E = edges_okD[OF icfg_okD(4)[OF ok]]
    have sbD: "\<exists>sb'. ic_sb g b = Some sb' \<and> sb_in sb = remove1 e (sb_in sb') \<and> sb_out sb = remove1 e (sb_out sb')"
      if "ic_sb (cut_branch e g) b = Some sb" for b sb
      using that by (auto simp: cut_branch_def)
    have sbI: "ic_sb g b = Some sb \<Longrightarrow> \<exists>sb'. ic_sb (cut_branch e g) b = Some sb' \<and>
       sb_in sb' = remove1 e (sb_in sb) \<and> sb_out sb' = remove1 e (sb_out sb) \<and> sb_instrs sb' = sb_instrs sb" for b sb
      by (simp add: cut_branch_def)
    have isI: "ic_is g a = Some i \<Longrightarrow> is_branchEdge i = Some x \<Longrightarrow> x \<noteq> e \<Longrightarrow> ic_is (cut_branch e g) a = Some i" for a i x
      by (auto simp: cut_branch_def)
    have isD: "ic_is g a = Some i \<and> x \<noteq> e" if "ic_is (cut_branch e g) a = Some i" "is_branchEdge i = Some x" for a i x
      using that by (cases "ic_is g a") (auto simp: cut_branch_def split: if_splits)
    show ?thesis
    proof (rule edges_okI, unfold live, goal_cases)
      case (1 b sb)
      then show ?case using E(1) sbD[OF 1] by (auto intro: distinct_remove1)
    next
      case (2 b sb)
      then show ?case using E(2) sbD[OF 2] by (auto intro: distinct_remove1)
    next
      case (3 b sb x)
      then show ?case using E(2,3) sbD[OF 3(1)] by (auto simp: set_remove1_eq)
    next
      case (4 b sb x)
      then show ?case using E(1,4) sbD[OF 4(1)] by (auto simp: set_remove1_eq)
    next
      case (5 x ed)
      then show ?case using E(5)[of x ed] sbI by fastforce
    next
      case (6 x ed)
      then show ?case using E(6)[of x ed] sbI by fastforce
    next
      case (7 x ed)
      then show ?case using E(7)[of x ed] isI by blast
    next
      case (8 a i x)
      then show ?case using E(8) isD by blast
    qed
  qed
  moreover have "calls_ok (cut_branch e g)"
    by (rule calls_cong[OF icfg_okD(5)[OF ok] _ _ other(1)]) (simp_all add: cut_branch_def agree_sym)
  moreover have "returns_ok (cut_branch e g)"
    by (rule returns_cong[OF icfg_okD(6)[OF ok] _ _ _ other(2)]) (simp_all add: cut_branch_def agree_sym)
  moreover have "fresh_ok (cut_branch e g)"
    using icfg_okD(7)[OF ok] by (simp add: fresh_ok_def cut_branch_def)
  ultimately show ?thesis by (simp add: icfg_ok_def)
qed

lemma cut_call_ok:
  assumes ok: "icfg_ok g"
  shows "icfg_ok (cut_call e g)"
proof -
  have live: "live_ce (cut_call e g) x ed \<longleftrightarrow> live_ce g x ed \<and> x \<noteq> e" for x ed
    by (cases "ic_ce g x") (auto simp: live_ce_def cut_call_def)
  have other: "live_be (cut_call e g) = live_be g" "live_re (cut_call e g) = live_re g"
    by (simp_all add: fun_eq_iff live_defs cut_call_def)
  have "blocks_ok (cut_call e g)"
    by (rule blocks_cong[OF icfg_okD(1)[OF ok]]) (simp_all add: cut_call_def agree_sym)
  moreover have "instrs_ok (cut_call e g)"
    by (rule instrs_cong[OF icfg_okD(2)[OF ok]]) (simp_all add: cut_call_def agree_sym)
  moreover have "chain_ok (cut_call e g)"
    by (rule chain_cong[OF icfg_okD(3)[OF ok]]) (simp_all add: cut_call_def agree_sym)
  moreover have "edges_ok (cut_call e g)"
    by (rule edges_cong[OF icfg_okD(4)[OF ok] _ _ other(1)]) (simp_all add: cut_call_def agree_sym)
  moreover have "calls_ok (cut_call e g)"
  proof -
    note E = calls_okD[OF icfg_okD(5)[OF ok]]
    have fnD: "\<exists>fn'. ic_fn g f = Some fn' \<and> fn_in fn = remove1 e (fn_in fn') \<and> fn_out fn = remove1 e (fn_out fn')"
      if "ic_fn (cut_call e g) f = Some fn" for f fn
      using that by (auto simp: cut_call_def)
    have fnI: "ic_fn g f = Some fn \<Longrightarrow> \<exists>fn'. ic_fn (cut_call e g) f = Some fn' \<and>
       fn_in fn' = remove1 e (fn_in fn) \<and> fn_out fn' = remove1 e (fn_out fn)" for f fn
      by (simp add: cut_call_def)
    have isI: "ic_is g a = Some i \<Longrightarrow> is_callEdge i = Some x \<Longrightarrow> x \<noteq> e \<Longrightarrow> ic_is (cut_call e g) a = Some i" for a i x
      by (auto simp: cut_call_def)
    have isD: "ic_is g a = Some i \<and> x \<noteq> e" if "ic_is (cut_call e g) a = Some i" "is_callEdge i = Some x" for a i x
      using that by (cases "ic_is g a") (auto simp: cut_call_def split: if_splits)
    show ?thesis
    proof (rule calls_okI, unfold live, goal_cases)
      case (1 f fn)
      then show ?case using E(1) fnD[OF 1] by (auto intro: distinct_remove1)
    next
      case (2 f fn)
      then show ?case using E(2) fnD[OF 2] by (auto intro: distinct_remove1)
    next
      case (3 f fn x)
      then show ?case using E(2,3) fnD[OF 3(1)] by (auto simp: set_remove1_eq)
    next
      case (4 f fn x)
      then show ?case using E(1,4) fnD[OF 4(1)] by (auto simp: set_remove1_eq)
    next
      case (5 x ed)
      then show ?case using E(5)[of x ed] fnI by fastforce
    next
      case (6 x ed)
      then show ?case using E(6)[of x ed] fnI by fastforce
    next
      case (7 x ed)
      then show ?case using E(7)[of x ed] isI by blast
    next
      case (8 a i x)
      then show ?case using E(8) isD by blast
    qed
  qed
  moreover have "returns_ok (cut_call e g)"
    by (rule returns_cong[OF icfg_okD(6)[OF ok] _ _ _ other(2)]) (simp_all add: cut_call_def agree_sym)
  moreover have "fresh_ok (cut_call e g)"
    using icfg_okD(7)[OF ok] by (simp add: fresh_ok_def cut_call_def)
  ultimately show ?thesis by (simp add: icfg_ok_def)
qed

lemma cut_return_ok:
  assumes ok: "icfg_ok g"
  shows "icfg_ok (cut_return e g)"
proof -
  have live: "live_re (cut_return e g) x ed \<longleftrightarrow> live_re g x ed \<and> x \<noteq> e" for x ed
    by (cases "ic_re g x") (auto simp: live_re_def cut_return_def)
  have other: "live_be (cut_return e g) = live_be g" "live_ce (cut_return e g) = live_ce g"
    by (simp_all add: fun_eq_iff live_defs cut_return_def)
  have "blocks_ok (cut_return e g)"
    by (rule blocks_cong[OF icfg_okD(1)[OF ok]]) (simp_all add: cut_return_def agree_sym)
  moreover have "instrs_ok (cut_return e g)"
    by (rule instrs_cong[OF icfg_okD(2)[OF ok]]) (simp_all add: cut_return_def agree_sym)
  moreover have "chain_ok (cut_return e g)"
    by (rule chain_cong[OF icfg_okD(3)[OF ok]]) (simp_all add: cut_return_def agree_sym)
  moreover have "edges_ok (cut_return e g)"
    by (rule edges_cong[OF icfg_okD(4)[OF ok] _ _ other(1)]) (simp_all add: cut_return_def agree_sym)
  moreover have "calls_ok (cut_return e g)"
    by (rule calls_cong[OF icfg_okD(5)[OF ok] _ _ other(2)]) (simp_all add: cut_return_def agree_sym)
  moreover have "returns_ok (cut_return e g)"
  proof -
    note E = returns_okD[OF icfg_okD(6)[OF ok]]
    have fnD: "\<exists>fn'. ic_fn g f = Some fn' \<and> fn_returns fn = remove1 e (fn_returns fn')"
      if "ic_fn (cut_return e g) f = Some fn" for f fn
      using that by (auto simp: cut_return_def)
    have fnI: "ic_fn g f = Some fn \<Longrightarrow> \<exists>fn'. ic_fn (cut_return e g) f = Some fn' \<and>
       fn_returns fn' = remove1 e (fn_returns fn)" for f fn
      by (simp add: cut_return_def)
    have isI: "ic_is g a = Some i \<Longrightarrow> is_returnEdge i = Some x \<Longrightarrow> x \<noteq> e \<Longrightarrow> ic_is (cut_return e g) a = Some i" for a i x
      by (auto simp: cut_return_def)
    have isD: "ic_is g a = Some i \<and> x \<noteq> e" if "ic_is (cut_return e g) a = Some i" "is_returnEdge i = Some x" for a i x
      using that by (cases "ic_is g a") (auto simp: cut_return_def split: if_splits)
    show ?thesis
    proof (rule returns_okI, unfold live, goal_cases)
      case (1 f fn)
      then show ?case using E(1) fnD[OF 1] by (auto intro: distinct_remove1)
    next
      case (2 f fn x)
      then show ?case using E(1,2) fnD[OF 2(1)] by (auto simp: set_remove1_eq)
    next
      case (3 x ed)
      then show ?case using E(3)[of x ed] fnI by fastforce
    next
      case (4 x ed)
      then show ?case using E(4)[of x ed] by (simp add: cut_return_def)
    next
      case (5 x ed)
      then show ?case using E(5)[of x ed] isI by blast
    next
      case (6 a i x)
      then show ?case using E(6) isD by blast
    qed
  qed
  moreover have "fresh_ok (cut_return e g)"
    using icfg_okD(7)[OF ok] by (simp add: fresh_ok_def cut_return_def)
  ultimately show ?thesis by (simp add: icfg_ok_def)
qed

section \<open>Invalidating an edge\<close>

lemma remove1_other: "distinct xs \<Longrightarrow> e \<notin> set xs \<Longrightarrow> remove1 e xs = xs"
  by (rule remove1_idem)

lemma cut_branch_heaps:
  assumes ok: "icfg_ok g" and e: "live_be g e ed"
    and sb: "ic_sb g (be_src ed) = Some sb" and db: "ic_sb (g\<lparr>ic_sb := (ic_sb g)(be_src ed \<mapsto> sb\<lparr>sb_out := remove1 e (sb_out sb)\<rparr>)\<rparr>) (be_dst ed) = Some db"
    and i: "ic_is g (be_instr ed) = Some i"
  shows "cut_branch e g = g\<lparr>ic_sb := (ic_sb g)(be_src ed \<mapsto> sb\<lparr>sb_out := remove1 e (sb_out sb)\<rparr>,
       be_dst ed \<mapsto> db\<lparr>sb_in := remove1 e (sb_in db)\<rparr>),
     ic_be := (ic_be g)(e \<mapsto> ed\<lparr>be_invalidated := True\<rparr>),
     ic_is := (ic_is g)(be_instr ed \<mapsto> i\<lparr>is_branchEdge := None\<rparr>)\<rparr>"
proof -
  note E = edges_okD[OF icfg_okD(4)[OF ok]]
  have out: "x = be_src ed" if "ic_sb g x = Some b" "e \<in> set (sb_out b)" for x b
    using E(3)[OF that] e by (auto simp: live_be_def)
  have inc: "x = be_dst ed" if "ic_sb g x = Some b" "e \<in> set (sb_in b)" for x b
    using E(4)[OF that] e by (auto simp: live_be_def)
  have own: "a = be_instr ed" if "ic_is g a = Some j" "is_branchEdge j = Some e" for a j
    using E(8)[OF that] e by (auto simp: live_be_def)
  have "(\<lambda>b. map_option (\<lambda>sb. sb\<lparr>sb_in := remove1 e (sb_in sb), sb_out := remove1 e (sb_out sb)\<rparr>) (ic_sb g b)) x =
      ((ic_sb g)(be_src ed \<mapsto> sb\<lparr>sb_out := remove1 e (sb_out sb)\<rparr>, be_dst ed \<mapsto> db\<lparr>sb_in := remove1 e (sb_in db)\<rparr>)) x" for x
  proof (cases "ic_sb g x")
    case (Some b)
    have "remove1 e (sb_out b) = sb_out b" if "x \<noteq> be_src ed"
      by (rule remove1_idem) (use out Some that in blast)
    moreover have "remove1 e (sb_in b) = sb_in b" if "x \<noteq> be_dst ed"
      by (rule remove1_idem) (use inc Some that in blast)
    ultimately show ?thesis using Some sb db by (auto split: if_splits)
  qed (use sb db in \<open>auto split: if_splits\<close>)
  moreover have "map_option (\<lambda>i. if is_branchEdge i = Some e then i\<lparr>is_branchEdge := None\<rparr> else i) (ic_is g a) =
      ((ic_is g)(be_instr ed \<mapsto> i\<lparr>is_branchEdge := None\<rparr>)) a" for a
  proof (cases "a = be_instr ed")
    case True
    then show ?thesis using i E(7)[OF e] by auto
  next
    case False
    then show ?thesis using own by (cases "ic_is g a") auto
  qed
  moreover have "map_option (\<lambda>ed. if x = e then ed\<lparr>be_invalidated := True\<rparr> else ed) (ic_be g x) =
      ((ic_be g)(e \<mapsto> ed\<lparr>be_invalidated := True\<rparr>)) x" for x
    using e by (cases "ic_be g x") (auto simp: live_be_def)
  ultimately show ?thesis by (simp add: cut_branch_def fun_eq_iff)
qed

lemma invalidate_branch_total:
  assumes ok: "icfg_ok g" and e: "live_be g e ed"
  shows "\<exists>h. invalidate_branch e g = Some h \<and> alike h (cut_branch e g)"
proof -
  note E = edges_okD[OF icfg_okD(4)[OF ok]]
  have ed: "ic_be g e = Some ed" "\<not> be_invalidated ed" using e by (simp_all add: live_be_def)
  obtain sb where sb: "ic_sb g (be_src ed) = Some sb" "e \<in> set (sb_out sb)" using E(5)[OF e] by blast
  obtain d0 where d0: "ic_sb g (be_dst ed) = Some d0" "e \<in> set (sb_in d0)" using E(6)[OF e] by blast
  obtain i where i: "ic_is g (be_instr ed) = Some i" "isBranch i" "is_branchEdge i = Some e" using E(7)[OF e] by blast
  let ?g1 = "g\<lparr>ic_sb := (ic_sb g)(be_src ed \<mapsto> sb\<lparr>sb_out := remove1 e (sb_out sb)\<rparr>)\<rparr>"
  obtain h1 where h1: "removeOutgoingEdge (be_src ed) e g = Some h1" "alike h1 ?g1"
    using removeOutgoing_total[OF ok_parents[OF ok] sb] by blast
  have p1: "parents h1" using parents_alike[OF h1(2)] ok_parents[OF ok] sb(1) by simp
  obtain db where db: "ic_sb ?g1 (be_dst ed) = Some db" "e \<in> set (sb_in db)"
    using d0 sb(1) by (cases "be_dst ed = be_src ed") auto
  obtain db' where db': "ic_sb h1 (be_dst ed) = Some db'" "er_sb db' = er_sb db" using alike_sb[OF h1(2) db(1)] by blast
  have "e \<in> set (sb_in db')" using db(2) er_sbD[OF db'(2)] by simp
  then obtain h2 where h2: "removeIncomingEdge (be_dst ed) e h1 = Some h2"
    "alike h2 (h1\<lparr>ic_sb := (ic_sb h1)(be_dst ed \<mapsto> db'\<lparr>sb_in := remove1 e (sb_in db')\<rparr>)\<rparr>)"
    using removeIncoming_total[OF p1 db'(1)] by blast
  let ?g2 = "?g1\<lparr>ic_sb := (ic_sb ?g1)(be_dst ed \<mapsto> db\<lparr>sb_in := remove1 e (sb_in db)\<rparr>)\<rparr>"
  have "alike (h1\<lparr>ic_sb := (ic_sb h1)(be_dst ed \<mapsto> db'\<lparr>sb_in := remove1 e (sb_in db')\<rparr>)\<rparr>) ?g2"
    by (rule alike_put(1)[OF h1(2)]) (use db'(2) er_sbD[OF db'(2)] in simp)
  then have h2': "alike h2 ?g2" by (rule alike_trans[OF h2(2)])
  let ?h3 = "h2\<lparr>ic_be := (ic_be h2)(e \<mapsto> ed\<lparr>be_invalidated := True\<rparr>)\<rparr>"
  let ?g3 = "?g2\<lparr>ic_be := (ic_be ?g2)(e \<mapsto> ed\<lparr>be_invalidated := True\<rparr>)\<rparr>"
  have h3: "alike ?h3 ?g3" by (rule alike_put(4)[OF h2'])
  obtain j where j: "ic_is h2 (be_instr ed) = Some j" using alike_is[OF h2', of "be_instr ed" i] i(1) by auto
  have "alike (?h3\<lparr>ic_is := (ic_is ?h3)(be_instr ed \<mapsto> i\<lparr>is_branchEdge := None\<rparr>)\<rparr>)
     (?g3\<lparr>ic_is := (ic_is ?g3)(be_instr ed \<mapsto> i\<lparr>is_branchEdge := None\<rparr>)\<rparr>)"
    by (rule alike_put(3)[OF h3 refl])
  moreover have "?g3\<lparr>ic_is := (ic_is ?g3)(be_instr ed \<mapsto> i\<lparr>is_branchEdge := None\<rparr>)\<rparr> = cut_branch e g"
    unfolding cut_branch_heaps[OF ok e sb(1) db(1) i(1)] by simp
  moreover have "ic_be h2 e = Some ed" using alike_edges(1)[OF h2'] ed by simp
  ultimately show ?thesis
    using ed i h1(1) h2(1) j
    by (simp add: invalidate_branch_def getBranchEdge_def setBranchEdge_def store_is_def upd_be_def upd_is_def)
qed

lemma cut_call_heaps:
  assumes ok: "icfg_ok g" and e: "live_ce g e ed"
    and fn: "ic_fn g (ce_src ed) = Some fn" and dn: "ic_fn (g\<lparr>ic_fn := (ic_fn g)(ce_src ed \<mapsto> fn\<lparr>fn_out := remove1 e (fn_out fn)\<rparr>)\<rparr>) (ce_dst ed) = Some dn"
    and i: "ic_is g (ce_instr ed) = Some i"
  shows "cut_call e g = g\<lparr>ic_fn := (ic_fn g)(ce_src ed \<mapsto> fn\<lparr>fn_out := remove1 e (fn_out fn)\<rparr>,
       ce_dst ed \<mapsto> dn\<lparr>fn_in := remove1 e (fn_in dn)\<rparr>),
     ic_ce := (ic_ce g)(e \<mapsto> ed\<lparr>ce_invalidated := True\<rparr>),
     ic_is := (ic_is g)(ce_instr ed \<mapsto> i\<lparr>is_callEdge := None\<rparr>)\<rparr>"
proof -
  note E = calls_okD[OF icfg_okD(5)[OF ok]]
  have out: "x = ce_src ed" if "ic_fn g x = Some b" "e \<in> set (fn_out b)" for x b
    using E(3)[OF that] e by (auto simp: live_ce_def)
  have inc: "x = ce_dst ed" if "ic_fn g x = Some b" "e \<in> set (fn_in b)" for x b
    using E(4)[OF that] e by (auto simp: live_ce_def)
  have own: "a = ce_instr ed" if "ic_is g a = Some j" "is_callEdge j = Some e" for a j
    using E(8)[OF that] e by (auto simp: live_ce_def)
  have "(\<lambda>b. map_option (\<lambda>fn. fn\<lparr>fn_in := remove1 e (fn_in fn), fn_out := remove1 e (fn_out fn)\<rparr>) (ic_fn g b)) x =
      ((ic_fn g)(ce_src ed \<mapsto> fn\<lparr>fn_out := remove1 e (fn_out fn)\<rparr>, ce_dst ed \<mapsto> dn\<lparr>fn_in := remove1 e (fn_in dn)\<rparr>)) x" for x
  proof (cases "ic_fn g x")
    case (Some b)
    have "remove1 e (fn_out b) = fn_out b" if "x \<noteq> ce_src ed"
      by (rule remove1_idem) (use out Some that in blast)
    moreover have "remove1 e (fn_in b) = fn_in b" if "x \<noteq> ce_dst ed"
      by (rule remove1_idem) (use inc Some that in blast)
    ultimately show ?thesis using Some fn dn by (auto split: if_splits)
  qed (use fn dn in \<open>auto split: if_splits\<close>)
  moreover have "map_option (\<lambda>i. if is_callEdge i = Some e then i\<lparr>is_callEdge := None\<rparr> else i) (ic_is g a) =
      ((ic_is g)(ce_instr ed \<mapsto> i\<lparr>is_callEdge := None\<rparr>)) a" for a
  proof (cases "a = ce_instr ed")
    case True
    then show ?thesis using i E(7)[OF e] by auto
  next
    case False
    then show ?thesis using own by (cases "ic_is g a") auto
  qed
  moreover have "map_option (\<lambda>ed. if x = e then ed\<lparr>ce_invalidated := True\<rparr> else ed) (ic_ce g x) =
      ((ic_ce g)(e \<mapsto> ed\<lparr>ce_invalidated := True\<rparr>)) x" for x
    using e by (cases "ic_ce g x") (auto simp: live_ce_def)
  ultimately show ?thesis by (simp add: cut_call_def fun_eq_iff)
qed

lemma invalidate_call_total:
  assumes ok: "icfg_ok g" and e: "live_ce g e ed"
  shows "invalidate_call e g = Some (cut_call e g)"
proof -
  note E = calls_okD[OF icfg_okD(5)[OF ok]]
  have ed: "ic_ce g e = Some ed" "\<not> ce_invalidated ed" using e by (simp_all add: live_ce_def)
  obtain fn where fn: "ic_fn g (ce_src ed) = Some fn" "e \<in> set (fn_out fn)" using E(5)[OF e] by blast
  obtain d0 where d0: "ic_fn g (ce_dst ed) = Some d0" "e \<in> set (fn_in d0)" using E(6)[OF e] by blast
  obtain i where i: "ic_is g (ce_instr ed) = Some i" "isCall i" "is_callEdge i = Some e" using E(7)[OF e] by blast
  let ?g1 = "g\<lparr>ic_fn := (ic_fn g)(ce_src ed \<mapsto> fn\<lparr>fn_out := remove1 e (fn_out fn)\<rparr>)\<rparr>"
  obtain dn where dn: "ic_fn ?g1 (ce_dst ed) = Some dn" "e \<in> set (fn_in dn)"
    using d0 fn(1) by (cases "ce_dst ed = ce_src ed") auto
  show ?thesis
    unfolding cut_call_heaps[OF ok e fn(1) dn(1) i(1)]
    using ed i fn dn
    by (simp add: invalidate_call_def getCallEdge_def setCallEdge_def store_is_def upd_ce_def upd_is_def
        removeOutgoingCall_def removeIncomingCall_def upd_fn_def split: if_splits)
qed

lemma cut_return_heaps:
  assumes ok: "icfg_ok g" and e: "live_re g e ed"
    and fn: "ic_fn g (re_dst ed) = Some fn" and i: "ic_is g (re_instr ed) = Some i"
  shows "cut_return e g = g\<lparr>ic_fn := (ic_fn g)(re_dst ed \<mapsto> fn\<lparr>fn_returns := remove1 e (fn_returns fn)\<rparr>),
     ic_re := (ic_re g)(e \<mapsto> ed\<lparr>re_invalidated := True\<rparr>),
     ic_is := (ic_is g)(re_instr ed \<mapsto> i\<lparr>is_returnEdge := None\<rparr>)\<rparr>"
proof -
  note E = returns_okD[OF icfg_okD(6)[OF ok]]
  have inc: "x = re_dst ed" if "ic_fn g x = Some b" "e \<in> set (fn_returns b)" for x b
    using E(2)[OF that] e by (auto simp: live_re_def)
  have own: "a = re_instr ed" if "ic_is g a = Some j" "is_returnEdge j = Some e" for a j
    using E(6)[OF that] e by (auto simp: live_re_def)
  have "(\<lambda>b. map_option (\<lambda>fn. fn\<lparr>fn_returns := remove1 e (fn_returns fn)\<rparr>) (ic_fn g b)) x =
      ((ic_fn g)(re_dst ed \<mapsto> fn\<lparr>fn_returns := remove1 e (fn_returns fn)\<rparr>)) x" for x
  proof (cases "ic_fn g x")
    case (Some b)
    have "remove1 e (fn_returns b) = fn_returns b" if "x \<noteq> re_dst ed"
      by (rule remove1_idem) (use inc Some that in blast)
    then show ?thesis using Some fn by auto
  qed (use fn in auto)
  moreover have "map_option (\<lambda>i. if is_returnEdge i = Some e then i\<lparr>is_returnEdge := None\<rparr> else i) (ic_is g a) =
      ((ic_is g)(re_instr ed \<mapsto> i\<lparr>is_returnEdge := None\<rparr>)) a" for a
  proof (cases "a = re_instr ed")
    case True
    then show ?thesis using i E(5)[OF e] by auto
  next
    case False
    then show ?thesis using own by (cases "ic_is g a") auto
  qed
  moreover have "map_option (\<lambda>ed. if x = e then ed\<lparr>re_invalidated := True\<rparr> else ed) (ic_re g x) =
      ((ic_re g)(e \<mapsto> ed\<lparr>re_invalidated := True\<rparr>)) x" for x
    using e by (cases "ic_re g x") (auto simp: live_re_def)
  ultimately show ?thesis by (simp add: cut_return_def fun_eq_iff)
qed

lemma invalidate_return_total:
  assumes ok: "icfg_ok g" and e: "live_re g e ed"
  shows "invalidate_return e g = Some (cut_return e g)"
proof -
  note E = returns_okD[OF icfg_okD(6)[OF ok]]
  have ed: "ic_re g e = Some ed" "\<not> re_invalidated ed" using e by (simp_all add: live_re_def)
  obtain fn where fn: "ic_fn g (re_dst ed) = Some fn" "e \<in> set (fn_returns fn)" using E(3)[OF e] by blast
  obtain i where i: "ic_is g (re_instr ed) = Some i" "isRet i" "is_returnEdge i = Some e" using E(5)[OF e] by blast
  show ?thesis
    unfolding cut_return_heaps[OF ok e fn(1) i(1)]
    using ed i fn
    by (simp add: invalidate_return_def getReturnEdge_def setReturnEdge_def store_is_def upd_re_def upd_is_def
        removeReturnEdge_def upd_fn_def)
qed

section \<open>Cleaning up an instruction\<close>

text \<open>The edit behind \<open>cleanupInstruction\<close>: the edge of the instruction, if it has one, is cut.\<close>

definition cut_edges :: "instr \<Rightarrow> icfg \<Rightarrow> icfg" where
  "cut_edges i g =
     (case is_branchEdge i of Some e \<Rightarrow> cut_branch e g
      | None \<Rightarrow> (case is_callEdge i of Some e \<Rightarrow> cut_call e g
      | None \<Rightarrow> (case is_returnEdge i of Some e \<Rightarrow> cut_return e g | None \<Rightarrow> g)))"

lemma cut_edges_ok: "icfg_ok g \<Longrightarrow> icfg_ok (cut_edges i g)"
  by (simp add: cut_edges_def cut_branch_ok cut_call_ok cut_return_ok split: option.splits)

lemma edge_owner:
  assumes "icfg_ok g" and "ic_is g a = Some i"
  shows "is_branchEdge i = Some e \<Longrightarrow> \<exists>ed. live_be g e ed \<and> be_instr ed = a \<and> isBranch i"
    and "is_callEdge i = Some e \<Longrightarrow> \<exists>ed. live_ce g e ed \<and> ce_instr ed = a \<and> isCall i"
    and "is_returnEdge i = Some e \<Longrightarrow> \<exists>ed. live_re g e ed \<and> re_instr ed = a \<and> isRet i"
proof -
  assume "is_branchEdge i = Some e"
  then obtain ed where "live_be g e ed" "be_instr ed = a"
    using edges_okD(8)[OF icfg_okD(4)[OF assms(1)] assms(2)] by blast
  then show "\<exists>ed. live_be g e ed \<and> be_instr ed = a \<and> isBranch i"
    using edges_okD(7)[OF icfg_okD(4)[OF assms(1)]] assms(2) by (metis option.inject)
next
  assume "is_callEdge i = Some e"
  then obtain ed where "live_ce g e ed" "ce_instr ed = a"
    using calls_okD(8)[OF icfg_okD(5)[OF assms(1)] assms(2)] by blast
  then show "\<exists>ed. live_ce g e ed \<and> ce_instr ed = a \<and> isCall i"
    using calls_okD(7)[OF icfg_okD(5)[OF assms(1)]] assms(2) by (metis option.inject)
next
  assume "is_returnEdge i = Some e"
  then obtain ed where "live_re g e ed" "re_instr ed = a"
    using returns_okD(6)[OF icfg_okD(6)[OF assms(1)] assms(2)] by blast
  then show "\<exists>ed. live_re g e ed \<and> re_instr ed = a \<and> isRet i"
    using returns_okD(5)[OF icfg_okD(6)[OF assms(1)]] assms(2) by (metis option.inject)
qed

lemma edge_types:
  assumes "icfg_ok g" and "ic_is g a = Some i"
  shows "is_branchEdge i \<noteq> None \<Longrightarrow> isBranch i" "is_callEdge i \<noteq> None \<Longrightarrow> isCall i" "is_returnEdge i \<noteq> None \<Longrightarrow> isRet i"
  using edge_owner[OF assms] by blast+

lemma cleanup_total:
  assumes ok: "icfg_ok g" and i: "ic_is g a = Some i"
  shows "\<exists>h. cleanupInstruction a g = Some h \<and> alike h (cut_edges i g)"
proof -
  note T = edge_types[OF ok i]
  show ?thesis
  proof (cases "is_branchEdge i")
    case (Some e)
    then have "\<exists>h. invalidate_branch e g = Some h \<and> alike h (cut_branch e g)"
      using edge_owner(1)[OF ok i] invalidate_branch_total[OF ok] by blast
    then show ?thesis using T Some i by (simp add: cleanupInstruction_def cut_edges_def)
  next
    case None
    show ?thesis
    proof (cases "is_callEdge i")
      case (Some e)
      then have "invalidate_call e g = Some (cut_call e g)"
        using edge_owner(2)[OF ok i] invalidate_call_total[OF ok] by blast
      moreover have "isCall i" using T(2) Some by simp
      ultimately show ?thesis using one_type(4)[of i] None Some i by (simp add: cleanupInstruction_def cut_edges_def)
    next
      case none: None
      show ?thesis
      proof (cases "is_returnEdge i")
        case (Some e)
        then have "invalidate_return e g = Some (cut_return e g)"
          using edge_owner(3)[OF ok i] invalidate_return_total[OF ok] by blast
        moreover have "isRet i" using T(3) Some by simp
        ultimately show ?thesis using one_type(5,6)[of i] None none Some i by (simp add: cleanupInstruction_def cut_edges_def)
      qed (use None none i in \<open>simp add: cleanupInstruction_def cut_edges_def\<close>)
    qed
  qed
qed

end
