(* ===== verification/Icfg_Remove.thy ===== *)
theory Icfg_Remove
  imports Icfg_Edges
begin

text \<open>Removing instructions and blocks from a graph that is in order.\<close>

section \<open>Dropping instructions without edges\<close>

definition no_edges :: "instr \<Rightarrow> bool" where
  "no_edges i \<longleftrightarrow> is_branchEdge i = None \<and> is_callEdge i = None \<and> is_returnEdge i = None"

definition drop_instrs :: "nat \<Rightarrow> nat list \<Rightarrow> icfg \<Rightarrow> icfg" where
  "drop_instrs b as g = g\<lparr>
     ic_sb := (\<lambda>x. map_option (\<lambda>sb. if x = b then sb\<lparr>sb_instrs := filter (\<lambda>a. a \<notin> set as) (sb_instrs sb)\<rparr> else sb) (ic_sb g x)),
     ic_is := (\<lambda>a. if a \<in> set as then None else ic_is g a)\<rparr>"

lemma drop_instrs_ok:
  assumes ok: "icfg_ok g" and sb: "ic_sb g b = Some sb" "set as \<subseteq> set (sb_instrs sb)"
    and as: "\<And>a. a \<in> set as \<Longrightarrow> \<exists>i. ic_is g a = Some i \<and> no_edges i"
  shows "icfg_ok (drop_instrs b as g)"
proof -
  let ?h = "drop_instrs b as g"
  have live: "live_be ?h = live_be g" "live_ce ?h = live_ce g" "live_re ?h = live_re g"
    by (simp_all add: fun_eq_iff live_defs drop_instrs_def)
  have at: "ic_is ?h a = Some i \<longleftrightarrow> a \<notin> set as \<and> ic_is g a = Some i" for a i
    by (simp add: drop_instrs_def)
  have keep: "a \<notin> set as" if "ic_is g a = Some i" "\<not> no_edges i" for a i
    using as that by force
  have sbD: "\<exists>sc'. ic_sb g x = Some sc' \<and> sb_in sc = sb_in sc' \<and> sb_out sc = sb_out sc' \<and>
      sb_instrs sc = (if x = b then filter (\<lambda>a. a \<notin> set as) (sb_instrs sc') else sb_instrs sc')"
    if "ic_sb ?h x = Some sc" for x sc
    using that by (auto simp: drop_instrs_def)
  have sbI: "\<exists>sc'. ic_sb ?h x = Some sc' \<and> sb_in sc' = sb_in sc \<and> sb_out sc' = sb_out sc \<and>
      set (sb_instrs sc) - set as \<subseteq> set (sb_instrs sc')"
    if "ic_sb g x = Some sc" for x sc
    using that by (auto simp: drop_instrs_def)
  have fn: "ic_fn ?h = ic_fn g" by (simp add: drop_instrs_def)
  have "blocks_ok ?h"
    by (rule blocks_cong[OF icfg_okD(1)[OF ok]]) (auto simp: drop_instrs_def intro!: agree_sym[OF agree_map])
  moreover have "chain_ok ?h"
    by (rule chain_cong[OF icfg_okD(3)[OF ok]]) (auto simp: drop_instrs_def intro!: agree_sym[OF agree_map])
  moreover have "instrs_ok ?h"
  proof (rule instrs_okI, goal_cases)
    case (1 x sc)
    then show ?case using sbD[OF 1] instrs_okD(1)[OF icfg_okD(2)[OF ok]] by fastforce
  next
    case (2 x sc a)
    obtain sc' where sc': "ic_sb g x = Some sc'"
      "sb_instrs sc = (if x = b then filter (\<lambda>a. a \<notin> set as) (sb_instrs sc') else sb_instrs sc')"
      using sbD[OF 2(1)] by blast
    then have "a \<in> set (sb_instrs sc')" "x = b \<Longrightarrow> a \<notin> set as" using 2(2) by (auto split: if_splits)
    moreover have "x = b" if "a \<in> set as"
      using instrs_okD(3)[OF icfg_okD(2)[OF ok] sc'(1) sb(1) calculation(1)] that sb(2) by blast
    ultimately show ?case using instrs_okD(2)[OF icfg_okD(2)[OF ok] sc'(1)] at by blast
  next
    case (3 x sx y sy a)
    obtain sx' sy' where "ic_sb g x = Some sx'" "a \<in> set (sb_instrs sx')" "ic_sb g y = Some sy'" "a \<in> set (sb_instrs sy')"
      using sbD[OF 3(1)] sbD[OF 3(2)] 3(3,4) by (auto split: if_splits)
    then show ?case using instrs_okD(3)[OF icfg_okD(2)[OF ok]] by blast
  qed
  moreover have "edges_ok ?h"
  proof -
    note E = edges_okD[OF icfg_okD(4)[OF ok]]
    show ?thesis
    proof (rule edges_okI, unfold live at, goal_cases)
      case (1 x sc)
      then show ?case using E(1) sbD[OF 1] by auto
    next
      case (2 x sc)
      then show ?case using E(2) sbD[OF 2] by auto
    next
      case (3 x sc e)
      then show ?case using E(3) sbD[OF 3(1)] by auto
    next
      case (4 x sc e)
      then show ?case using E(4) sbD[OF 4(1)] by auto
    next
      case (5 e ed)
      obtain i where "ic_is g (be_instr ed) = Some i" "is_branchEdge i = Some e" using E(7)[OF 5] by blast
      then have "be_instr ed \<notin> set as" using keep by (simp add: no_edges_def)
      then show ?case using E(5)[OF 5] sbI by fastforce
    next
      case (6 e ed)
      then show ?case using E(6) sbI by fastforce
    next
      case (7 e ed)
      then show ?case using E(7)[OF 7] keep by (fastforce simp: no_edges_def)
    next
      case (8 a i e)
      then show ?case using E(8) by blast
    qed
  qed
  moreover have "calls_ok ?h"
  proof -
    note E = calls_okD[OF icfg_okD(5)[OF ok]]
    show ?thesis
    proof (rule calls_okI, unfold live at fn, goal_cases)
      case (7 e ed)
      then show ?case using E(7)[OF 7] keep by (fastforce simp: no_edges_def)
    next
      case (8 a i e)
      then show ?case using E(8) by blast
    qed (use E(1-6) in blast)+
  qed
  moreover have "returns_ok ?h"
  proof -
    note E = returns_okD[OF icfg_okD(6)[OF ok]]
    show ?thesis
    proof (rule returns_okI, unfold live at fn, goal_cases)
      case (4 e ed)
      obtain i where "ic_is g (re_instr ed) = Some i" "is_returnEdge i = Some e" using E(5)[OF 4] by blast
      then have "re_instr ed \<notin> set as" using keep by (simp add: no_edges_def)
      then show ?case using E(4)[OF 4] sbI by fastforce
    next
      case (5 e ed)
      then show ?case using E(5)[OF 5] keep by (fastforce simp: no_edges_def)
    next
      case (6 a i e)
      then show ?case using E(6) by blast
    qed (use E(1-3) in blast)+
  qed
  moreover have "fresh_ok ?h"
    using icfg_okD(7)[OF ok] by (simp add: fresh_ok_def drop_instrs_def)
  ultimately show ?thesis by (simp add: icfg_ok_def)
qed

section \<open>Edits do not see analysis data\<close>

lemma map_map_eq: "(\<And>x. f (g x) = h (k x)) \<Longrightarrow> map_option f (map_option g y) = map_option h (map_option k y)"
  by (cases y) auto

lemma er_cut_branch: "er (cut_branch e g) = cut_branch e (er g)"
proof -
  have "map_option er_sb \<circ> ic_sb (cut_branch e g) = ic_sb (cut_branch e (er g))"
    "map_option er_is \<circ> ic_is (cut_branch e g) = ic_is (cut_branch e (er g))"
    by (auto simp: fun_eq_iff cut_branch_def intro!: map_map_eq)
  then show ?thesis by (simp add: cut_branch_def)
qed

lemma er_cut_call: "er (cut_call e g) = cut_call e (er g)"
proof -
  have "map_option er_fn \<circ> ic_fn (cut_call e g) = ic_fn (cut_call e (er g))"
    "map_option er_is \<circ> ic_is (cut_call e g) = ic_is (cut_call e (er g))"
    by (auto simp: fun_eq_iff cut_call_def intro!: map_map_eq)
  then show ?thesis by (simp add: cut_call_def)
qed

lemma er_cut_return: "er (cut_return e g) = cut_return e (er g)"
proof -
  have "map_option er_fn \<circ> ic_fn (cut_return e g) = ic_fn (cut_return e (er g))"
    "map_option er_is \<circ> ic_is (cut_return e g) = ic_is (cut_return e (er g))"
    by (auto simp: fun_eq_iff cut_return_def intro!: map_map_eq)
  then show ?thesis by (simp add: cut_return_def)
qed

lemma er_cut_edges: "er (cut_edges i g) = cut_edges (er_is i) (er g)"
  by (simp add: cut_edges_def er_cut_branch er_cut_call er_cut_return split: option.splits)

lemma er_drop: "er (drop_instrs b as g) = drop_instrs b as (er g)"
proof -
  have "map_option er_sb \<circ> ic_sb (drop_instrs b as g) = ic_sb (drop_instrs b as (er g))"
    "map_option er_is \<circ> ic_is (drop_instrs b as g) = ic_is (drop_instrs b as (er g))"
    by (auto simp: fun_eq_iff drop_instrs_def intro!: map_map_eq)
  then show ?thesis by (simp add: drop_instrs_def)
qed

lemma alike_cut_edges: "alike h g \<Longrightarrow> er_is i = er_is j \<Longrightarrow> alike (cut_edges i h) (cut_edges j g)"
  by (simp add: alike_def er_cut_edges)

lemma alike_drop: "alike h g \<Longrightarrow> alike (drop_instrs b as h) (drop_instrs b as g)"
  by (simp add: alike_def er_drop)

section \<open>Removing an instruction\<close>

lemma cut_edges_sb: "ic_sb g b = Some sb \<Longrightarrow> \<exists>sb'. ic_sb (cut_edges i g) b = Some sb' \<and> sb_instrs sb' = sb_instrs sb \<and>
    sb_function sb' = sb_function sb \<and> sb_next sb' = sb_next sb \<and> sb_prev sb' = sb_prev sb \<and>
    set (sb_in sb') \<subseteq> set (sb_in sb) \<and> set (sb_out sb') \<subseteq> set (sb_out sb)"
  using set_remove1_subset
  by (fastforce simp: cut_edges_def cut_branch_def cut_call_def cut_return_def split: option.splits)

lemma cut_edges_fn: "ic_fn g f = Some fn \<Longrightarrow> \<exists>fn'. ic_fn (cut_edges i g) f = Some fn' \<and>
    fn_blocks fn' = fn_blocks fn \<and> fn_entry fn' = fn_entry fn"
  by (simp add: cut_edges_def cut_branch_def cut_call_def cut_return_def split: option.splits)

lemma cut_edges_is: "ic_is g c = Some j \<Longrightarrow> \<exists>j'. ic_is (cut_edges i g) c = Some j' \<and> is_ins j' = is_ins j \<and>
    (no_edges j \<longrightarrow> no_edges j')"
  by (auto simp: cut_edges_def cut_branch_def cut_call_def cut_return_def no_edges_def split: option.splits)

lemma cut_edges_own:
  assumes ok: "icfg_ok g" and i: "ic_is g a = Some i"
  shows "\<exists>j. ic_is (cut_edges i g) a = Some j \<and> no_edges j"
proof -
  note T = edge_types[OF ok i]
  have one: "is_branchEdge i \<noteq> None \<Longrightarrow> is_callEdge i = None \<and> is_returnEdge i = None"
    "is_callEdge i \<noteq> None \<Longrightarrow> is_returnEdge i = None"
    using T one_type by blast+
  show ?thesis
    using i one by (auto simp: cut_edges_def cut_branch_def cut_call_def cut_return_def no_edges_def split: option.splits)
qed

lemma alike_erase:
  assumes ok: "icfg_ok g" and h: "alike h g" and sb: "ic_sb h b = Some sb" "a \<in> set (sb_instrs sb)"
  shows "alike (delete_is [a] (h\<lparr>ic_sb := (ic_sb h)(b \<mapsto> sb\<lparr>sb_instrs := remove1 a (sb_instrs sb)\<rparr>)\<rparr>)) (drop_instrs b [a] g)"
proof -
  have "icfg_ok h" using ok alike_ok[OF h] by simp
  then have d: "distinct (sb_instrs sb)" using instrs_okD(1)[OF icfg_okD(2)] sb by blast
  have "delete_is [a] (h\<lparr>ic_sb := (ic_sb h)(b \<mapsto> sb\<lparr>sb_instrs := remove1 a (sb_instrs sb)\<rparr>)\<rparr>) = drop_instrs b [a] h"
  proof -
    have "remove1 a (sb_instrs sb) = filter (\<lambda>x. x \<noteq> a) (sb_instrs sb)"
      using d by (simp add: distinct_remove1_removeAll removeAll_filter_not_eq neq_commute[of a])
    moreover have "map_option (\<lambda>sb. if x = b then sb\<lparr>sb_instrs := filter (\<lambda>y. y \<noteq> a) (sb_instrs sb)\<rparr> else sb) (ic_sb h x) = ic_sb h x"
      if "x \<noteq> b" for x using that by (simp add: option.map_ident)
    ultimately show ?thesis
      using sb by (auto simp: delete_is_def drop_instrs_def fun_eq_iff option.map_ident)
  qed
  then show ?thesis using alike_drop[OF h] by simp
qed

lemma removeInstruction_total:
  assumes ok: "icfg_ok g" and sb: "ic_sb g b = Some sb" "a \<in> set (sb_instrs sb)" and i: "ic_is g a = Some i"
  shows "\<exists>h. removeInstruction b a g = Some h \<and> alike h (drop_instrs b [a] (cut_edges i g)) \<and> icfg_ok h"
proof -
  obtain h1 where h1: "invalidate_sb AnLiveness b g = Some h1" "alike h1 g"
    using invalidate_total[OF ok_parents[OF ok] sb(1)] by blast
  obtain sb1 where sb1: "ic_sb h1 b = Some sb1" using alike_sb[OF h1(2) sb(1)] by blast
  have ok1: "icfg_ok h1" using alike_ok[OF h1(2)] ok by simp
  obtain h2 where h2: "invalidate_sb AnStack b h1 = Some h2" "alike h2 h1"
    using invalidate_total[OF ok_parents[OF ok1] sb1] by blast
  have ok2: "icfg_ok h2" using alike_ok[OF h2(2)] ok1 by simp
  have a2: "alike h2 g" by (rule alike_trans[OF h2(2) h1(2)])
  obtain i2 where i2: "ic_is h2 a = Some i2" "er_is i2 = er_is i" using alike_is[OF a2 i] by blast
  obtain h3 where h3: "cleanupInstruction a h2 = Some h3" "alike h3 (cut_edges i2 h2)"
    using cleanup_total[OF ok2 i2(1)] by blast
  have a3: "alike h3 (cut_edges i g)" by (rule alike_trans[OF h3(2) alike_cut_edges[OF a2 i2(2)]])
  obtain sc where sc: "ic_sb (cut_edges i g) b = Some sc" "sb_instrs sc = sb_instrs sb"
    using cut_edges_sb[OF sb(1)] by blast
  obtain sb3 where sb3: "ic_sb h3 b = Some sb3" "sb_instrs sb3 = sb_instrs sb"
    using alike_sb[OF a3 sc(1)] sc(2) er_sbD by metis
  let ?h = "delete_is [a] (h3\<lparr>ic_sb := (ic_sb h3)(b \<mapsto> sb3\<lparr>sb_instrs := remove1 a (sb_instrs sb3)\<rparr>)\<rparr>)"
  have "removeInstruction b a g = Some ?h"
    using h1(1) h2(1) h3(1) sb3 sb(2) by (simp add: removeInstruction_def upd_sb_def)
  moreover have al: "alike ?h (drop_instrs b [a] (cut_edges i g))"
    by (rule alike_erase[OF cut_edges_ok[OF ok] a3 sb3(1)]) (use sb3 sb in simp)
  moreover have "icfg_ok (drop_instrs b [a] (cut_edges i g))"
    by (rule drop_instrs_ok[OF cut_edges_ok[OF ok] sc(1)]) (use sc sb cut_edges_own[OF ok i] in auto)
  ultimately show ?thesis using alike_ok[OF al] by blast
qed

section \<open>Removing all instructions of a block\<close>

text \<open>\<open>pruned g h\<close>: \<open>h\<close> is in order and is \<open>g\<close> with some edges taken out, up to analysis data.\<close>

abbreviation place_fields :: "super_block \<Rightarrow> nat \<times> nat option \<times> nat option" where
  "place_fields sb \<equiv> (sb_function sb, sb_next sb, sb_prev sb)"

definition pruned :: "icfg \<Rightarrow> icfg \<Rightarrow> bool" where
  "pruned g h \<longleftrightarrow> icfg_ok h \<and> agree (\<lambda>sb. (sb_instrs sb, place_fields sb)) (ic_sb h) (ic_sb g) \<and>
     (\<forall>b sb sb'. ic_sb g b = Some sb \<longrightarrow> ic_sb h b = Some sb' \<longrightarrow>
        set (sb_in sb') \<subseteq> set (sb_in sb) \<and> set (sb_out sb') \<subseteq> set (sb_out sb)) \<and>
     agree (\<lambda>fn. (fn_blocks fn, fn_entry fn)) (ic_fn h) (ic_fn g) \<and>
     (\<forall>a i. ic_is g a = Some i \<longrightarrow> (\<exists>j. ic_is h a = Some j \<and> (no_edges i \<longrightarrow> no_edges j)))"

lemma prunedD:
  assumes "pruned g h"
  shows "icfg_ok h" "agree (\<lambda>sb. (sb_instrs sb, place_fields sb)) (ic_sb h) (ic_sb g)"
    and "ic_sb g b = Some sb \<Longrightarrow> \<exists>sb'. ic_sb h b = Some sb' \<and> sb_instrs sb' = sb_instrs sb \<and> place_fields sb' = place_fields sb \<and>
       set (sb_in sb') \<subseteq> set (sb_in sb) \<and> set (sb_out sb') \<subseteq> set (sb_out sb)"
    and "ic_is g a = Some i \<Longrightarrow> \<exists>j. ic_is h a = Some j \<and> (no_edges i \<longrightarrow> no_edges j)"
    and "agree (\<lambda>fn. (fn_blocks fn, fn_entry fn)) (ic_fn h) (ic_fn g)"
proof -
  show "icfg_ok h" "agree (\<lambda>sb. (sb_instrs sb, place_fields sb)) (ic_sb h) (ic_sb g)"
    "agree (\<lambda>fn. (fn_blocks fn, fn_entry fn)) (ic_fn h) (ic_fn g)"
    "ic_is g a = Some i \<Longrightarrow> \<exists>j. ic_is h a = Some j \<and> (no_edges i \<longrightarrow> no_edges j)"
    using assms by (simp_all add: pruned_def)
  assume "ic_sb g b = Some sb"
  then show "\<exists>sb'. ic_sb h b = Some sb' \<and> sb_instrs sb' = sb_instrs sb \<and> place_fields sb' = place_fields sb \<and>
       set (sb_in sb') \<subseteq> set (sb_in sb) \<and> set (sb_out sb') \<subseteq> set (sb_out sb)"
    using assms agreeD[of "\<lambda>sb. (sb_instrs sb, place_fields sb)" "ic_sb h" "ic_sb g" b sb] by (auto simp: pruned_def)
qed

lemma pruned_refl: "icfg_ok g \<Longrightarrow> pruned g g"
  by (simp add: pruned_def)

lemma pruned_trans:
  assumes "pruned g h" and "pruned h k"
  shows "pruned g k"
proof -
  note G = prunedD[OF assms(1)] and H = prunedD[OF assms(2)]
  have "set (sb_in sb') \<subseteq> set (sb_in sb) \<and> set (sb_out sb') \<subseteq> set (sb_out sb)"
    if s: "ic_sb g b = Some sb" "ic_sb k b = Some sb'" for b sb sb'
  proof -
    obtain sh where sh: "ic_sb h b = Some sh" "set (sb_in sh) \<subseteq> set (sb_in sb)" "set (sb_out sh) \<subseteq> set (sb_out sb)"
      using G(3)[OF s(1)] by blast
    then show ?thesis using H(3)[OF sh(1)] s(2) by auto
  qed
  moreover have "\<exists>j. ic_is k a = Some j \<and> (no_edges i \<longrightarrow> no_edges j)" if "ic_is g a = Some i" for a i
    using G(4)[OF that] H(4) by blast
  ultimately show ?thesis
    using H(1) agree_trans[OF H(2) G(2)] agree_trans[OF H(5) G(5)] by (simp add: pruned_def)
qed

lemma pruned_alike:
  assumes "icfg_ok g" and "alike h g"
  shows "pruned g h"
proof -
  have S: "ic_sb g b = Some sb \<Longrightarrow> \<exists>sb'. ic_sb h b = Some sb' \<and> er_sb sb' = er_sb sb" for b sb by (rule alike_sb[OF assms(2)])
  have none1: "ic_sb h b = None" if "ic_sb g b = None" for b
    using alike_sb[OF alike_sym[OF assms(2)], of b] that by (metis not_None_eq)
  have none2: "ic_fn h b = None" if "ic_fn g b = None" for b
    using alike_fn[OF alike_sym[OF assms(2)], of b] that by (metis not_None_eq)
  have "map_option (\<lambda>sb. (sb_instrs sb, place_fields sb)) (ic_sb h b) = map_option (\<lambda>sb. (sb_instrs sb, place_fields sb)) (ic_sb g b)" for b
    using S[of b] none1[of b] by (cases "ic_sb g b") (auto dest: er_sbD)
  moreover have "map_option (\<lambda>fn. (fn_blocks fn, fn_entry fn)) (ic_fn h b) = map_option (\<lambda>fn. (fn_blocks fn, fn_entry fn)) (ic_fn g b)" for b
    using alike_fn[OF assms(2), of b] none2[of b] by (cases "ic_fn g b") (auto dest: er_fnD)
  moreover have "\<exists>j. ic_is h a = Some j \<and> (no_edges i \<longrightarrow> no_edges j)" if "ic_is g a = Some i" for a i
    using alike_is[OF assms(2) that] by (auto simp: no_edges_def dest: er_isD)
  moreover have "set (sb_in sb') \<subseteq> set (sb_in sb) \<and> set (sb_out sb') \<subseteq> set (sb_out sb)"
    if "ic_sb g b = Some sb" "ic_sb h b = Some sb'" for b sb sb'
    using S[OF that(1)] that(2) by (auto dest: er_sbD)
  moreover have "icfg_ok h" using assms alike_ok by blast
  ultimately show ?thesis by (simp add: pruned_def agree_def)
qed

lemma pruned_cut:
  assumes "icfg_ok g"
  shows "pruned g (cut_edges i g)"
proof -
  have "ic_sb (cut_edges i g) b = None" if "ic_sb g b = None" for b
    using that by (simp add: cut_edges_def cut_branch_def cut_call_def cut_return_def split: option.splits)
  then have "map_option (\<lambda>sb. (sb_instrs sb, place_fields sb)) (ic_sb (cut_edges i g) b) =
      map_option (\<lambda>sb. (sb_instrs sb, place_fields sb)) (ic_sb g b)" for b
    using cut_edges_sb[of g b _ i] by (cases "ic_sb g b") fastforce+
  moreover have "ic_fn (cut_edges i g) f = None" if "ic_fn g f = None" for f
    using that by (simp add: cut_edges_def cut_branch_def cut_call_def cut_return_def split: option.splits)
  then have "map_option (\<lambda>fn. (fn_blocks fn, fn_entry fn)) (ic_fn (cut_edges i g) f) =
      map_option (\<lambda>fn. (fn_blocks fn, fn_entry fn)) (ic_fn g f)" for f
    using cut_edges_fn[of g f _ i] by (cases "ic_fn g f") fastforce+
  moreover have "set (sb_in sb') \<subseteq> set (sb_in sb) \<and> set (sb_out sb') \<subseteq> set (sb_out sb)"
    if "ic_sb g b = Some sb" "ic_sb (cut_edges i g) b = Some sb'" for b sb sb'
    using cut_edges_sb[OF that(1), of i] that(2) by auto
  moreover have "\<exists>j'. ic_is (cut_edges i g) a = Some j' \<and> (no_edges j \<longrightarrow> no_edges j')" if "ic_is g a = Some j" for a j
    using cut_edges_is[OF that] by blast
  ultimately show ?thesis using cut_edges_ok[OF assms] by (simp add: pruned_def agree_def)
qed

lemma cleanup_prunes:
  assumes "icfg_ok g" and "ic_is g a = Some i"
  shows "\<exists>h. cleanupInstruction a g = Some h \<and> pruned g h \<and> (\<exists>j. ic_is h a = Some j \<and> no_edges j)"
proof -
  obtain h where h: "cleanupInstruction a g = Some h" "alike h (cut_edges i g)" using cleanup_total[OF assms] by blast
  have p: "pruned (cut_edges i g) h" by (rule pruned_alike[OF cut_edges_ok[OF assms(1)] h(2)])
  have "\<exists>j. ic_is h a = Some j \<and> no_edges j" using cut_edges_own[OF assms] prunedD(4)[OF p] by blast
  then show ?thesis using h(1) pruned_trans[OF pruned_cut[OF assms(1)] p] by blast
qed

lemma cleanup_list:
  assumes "icfg_ok g" and "\<And>a. a \<in> set as \<Longrightarrow> \<exists>i. ic_is g a = Some i"
  shows "\<exists>h. for_each as cleanupInstruction g = Some h \<and> pruned g h \<and> (\<forall>a\<in>set as. \<exists>j. ic_is h a = Some j \<and> no_edges j)"
  using assms
proof (induction as arbitrary: g)
  case Nil
  then show ?case using pruned_refl by simp
next
  case (Cons a as)
  obtain i where "ic_is g a = Some i" using Cons.prems(2)[of a] by auto
  then obtain h where h: "cleanupInstruction a g = Some h" "pruned g h" "\<exists>j. ic_is h a = Some j \<and> no_edges j"
    using cleanup_prunes[OF Cons.prems(1)] by blast
  have "\<exists>i. ic_is h x = Some i" if "x \<in> set as" for x
    using Cons.prems(2)[of x] that prunedD(4)[OF h(2)] by fastforce
  then obtain k where k: "for_each as cleanupInstruction h = Some k" "pruned h k"
    "\<forall>a\<in>set as. \<exists>j. ic_is k a = Some j \<and> no_edges j"
    using Cons.IH[OF prunedD(1)[OF h(2)]] by blast
  have "\<exists>j. ic_is k a = Some j \<and> no_edges j" using h(3) prunedD(4)[OF k(2)] by blast
  then show ?case using h(1) k pruned_trans[OF h(2) k(2)] by auto
qed

lemma invalidate_list:
  assumes "icfg_ok g" and "distinct es" and "ic_sb g b = Some sb" "set (sb_in sb) = set es"
  shows "\<exists>h sb'. for_each es invalidate_branch g = Some h \<and> pruned g h \<and> ic_sb h b = Some sb' \<and> sb_in sb' = []"
  using assms
proof (induction es arbitrary: g sb)
  case Nil
  then show ?case using pruned_refl[OF Nil.prems(1)] by auto
next
  case (Cons e es)
  have "e \<in> set (sb_in sb)" using Cons.prems(4) by simp
  then obtain ed where ed: "live_be g e ed" "be_dst ed = b"
    using edges_okD(4)[OF icfg_okD(4)[OF Cons.prems(1)] Cons.prems(3)] by blast
  then obtain h where h: "invalidate_branch e g = Some h" "alike h (cut_branch e g)"
    using invalidate_branch_total[OF Cons.prems(1)] by blast
  obtain i :: instr where i: "is_branchEdge i = Some e" using edges_okD(7)[OF icfg_okD(4)[OF Cons.prems(1)] ed(1)] by blast
  have c: "cut_edges i g = cut_branch e g" using i by (simp add: cut_edges_def)
  have p: "pruned g h"
    using pruned_trans[OF pruned_cut[OF Cons.prems(1), of i]] pruned_alike[OF cut_edges_ok[OF Cons.prems(1), of i]] h(2) c
    by simp
  have "ic_sb (cut_branch e g) b = Some (sb\<lparr>sb_in := remove1 e (sb_in sb), sb_out := remove1 e (sb_out sb)\<rparr>)"
    using Cons.prems(3) by (simp add: cut_branch_def)
  then obtain sh where s: "ic_sb h b = Some sh"
    "er_sb sh = er_sb (sb\<lparr>sb_in := remove1 e (sb_in sb), sb_out := remove1 e (sb_out sb)\<rparr>)"
    using alike_sb[OF h(2)] by blast
  then have sh: "ic_sb h b = Some sh" "sb_in sh = remove1 e (sb_in sb)" using er_sbD[OF s(2)] by simp_all
  have "set (sb_in sh) = set es"
    using sh(2) Cons.prems(2,4) edges_okD(1)[OF icfg_okD(4)[OF Cons.prems(1)] Cons.prems(3)] by (auto simp: set_remove1_eq)
  then obtain k sb' where "for_each es invalidate_branch h = Some k" "pruned h k" "ic_sb k b = Some sb'" "sb_in sb' = []"
    using Cons.IH[OF prunedD(1)[OF p] _ sh(1)] Cons.prems(2) by auto
  then show ?case using h(1) pruned_trans[OF p] by auto
qed

lemma removeAll_total:
  assumes ok: "icfg_ok g" and sb: "ic_sb g b = Some sb"
  shows "\<exists>h k. removeAllInstructions b g = Some h \<and> pruned g k \<and> h = drop_instrs b (sb_instrs sb) k \<and> icfg_ok h \<and>
    (\<exists>sb'. ic_sb h b = Some sb' \<and> sb_instrs sb' = [] \<and> sb_in sb' = [] \<and> sb_out sb' = [] \<and> place_fields sb' = place_fields sb)"
proof -
  obtain h1 where h1: "invalidate_sb AnLiveness b g = Some h1" "alike h1 g"
    using invalidate_total[OF ok_parents[OF ok] sb(1)] by blast
  obtain sb1 where sb1: "ic_sb h1 b = Some sb1" using alike_sb[OF h1(2) sb(1)] by blast
  have ok1: "icfg_ok h1" using alike_ok[OF h1(2)] ok by simp
  obtain h2 where h2: "invalidate_sb AnStack b h1 = Some h2" "alike h2 h1"
    using invalidate_total[OF ok_parents[OF ok1] sb1] by blast
  have a2: "alike h2 g" by (rule alike_trans[OF h2(2) h1(2)])
  have ok2: "icfg_ok h2" using alike_ok[OF a2] ok by simp
  have p2: "pruned g h2" by (rule pruned_alike[OF ok a2])
  obtain sb2 where sb2: "ic_sb h2 b = Some sb2" "sb_instrs sb2 = sb_instrs sb" using alike_sb[OF a2 sb] er_sbD by metis
  obtain h3 where h3: "for_each (sb_instrs sb2) cleanupInstruction h2 = Some h3" "pruned h2 h3"
    "\<forall>a\<in>set (sb_instrs sb2). \<exists>j. ic_is h3 a = Some j \<and> no_edges j"
    using cleanup_list[OF ok2, of "sb_instrs sb2"] instrs_okD(2)[OF icfg_okD(2)[OF ok2] sb2(1)] by blast
  have ok3: "icfg_ok h3" by (rule prunedD(1)[OF h3(2)])
  obtain sb3 where sb3: "ic_sb h3 b = Some sb3" "sb_instrs sb3 = sb_instrs sb2" using prunedD(3)[OF h3(2) sb2(1)] by blast
  have out: "sb_out sb3 = []"
  proof (rule ccontr)
    assume "sb_out sb3 \<noteq> []"
    then obtain e where "e \<in> set (sb_out sb3)" by (cases "sb_out sb3") auto
    then obtain ed where ed: "live_be h3 e ed" "be_src ed = b" using edges_okD(3)[OF icfg_okD(4)[OF ok3] sb3(1)] by blast
    have "be_instr ed \<in> set (sb_instrs sb2)" using edges_okD(5)[OF icfg_okD(4)[OF ok3] ed(1)] ed(2) sb3 by auto
    then show False using edges_okD(7)[OF icfg_okD(4)[OF ok3] ed(1)] h3(3) by (fastforce simp: no_edges_def)
  qed
  obtain h4 sb4 where h4: "for_each (sb_in sb3) invalidate_branch h3 = Some h4" "pruned h3 h4" "ic_sb h4 b = Some sb4" "sb_in sb4 = []"
    using invalidate_list[OF ok3 edges_okD(1)[OF icfg_okD(4)[OF ok3] sb3(1)] sb3(1) refl] by blast
  have ok4: "icfg_ok h4" by (rule prunedD(1)[OF h4(2)])
  have f4: "sb_instrs sb4 = sb_instrs sb" "sb_out sb4 = []"
    using prunedD(3)[OF h4(2) sb3(1)] h4(3) sb3 sb2 out by auto
  have p4: "pruned g h4" by (rule pruned_trans[OF pruned_trans[OF p2 h3(2)] h4(2)])
  let ?h = "drop_instrs b (sb_instrs sb) h4"
  have eq: "delete_is (sb_instrs sb) (h4\<lparr>ic_sb := (ic_sb h4)(b \<mapsto> sb4\<lparr>sb_instrs := []\<rparr>)\<rparr>) = ?h"
    using h4(3) f4 by (auto simp: delete_is_def drop_instrs_def fun_eq_iff option.map_ident filter_empty_conv)
  have "removeAllInstructions b g = Some ?h"
    using h1(1) h2(1) sb2(1) h3(1) sb3(1) out h4(1,3,4) f4 eq by (simp add: removeAllInstructions_def upd_sb_def)
  moreover have "icfg_ok ?h"
  proof (rule drop_instrs_ok[OF ok4 h4(3)])
    show "\<exists>i. ic_is h4 a = Some i \<and> no_edges i" if "a \<in> set (sb_instrs sb)" for a
      using h3(3) prunedD(4)[OF h4(2)] that sb2(2) by fastforce
  qed (simp add: f4)
  moreover have "\<exists>sb'. ic_sb ?h b = Some sb' \<and> sb_instrs sb' = [] \<and> sb_in sb' = [] \<and> sb_out sb' = [] \<and> place_fields sb' = place_fields sb"
    using h4(3,4) f4 prunedD(3)[OF p4 sb] by (auto simp: drop_instrs_def filter_empty_conv)
  ultimately show ?thesis using p4 by blast
qed

end
