(* ===== verification/Dead_Writes.thy ===== *)
theory Dead_Writes
  imports Passes Flow_Run Icfg_Remove
begin

text \<open>
  Removing the instructions without liveness data never fails, keeps the graph in order, and
  what is left runs as the function did with these instructions skipped.
\<close>

section \<open>A graph without some of its instructions\<close>

definition without :: "icfg \<Rightarrow> nat set \<Rightarrow> icfg \<Rightarrow> bool" where
  "without g X h \<longleftrightarrow>
     (\<forall>b sb. ic_sb g b = Some sb \<longrightarrow> (\<exists>sb'. ic_sb h b = Some sb' \<and>
        sb_instrs sb' = filter (\<lambda>a. a \<notin> X) (sb_instrs sb) \<and> sb_next sb' = sb_next sb)) \<and>
     (\<forall>a i. ic_is g a = Some i \<longrightarrow> a \<notin> X \<longrightarrow> (\<exists>j. ic_is h a = Some j \<and> is_ins j = is_ins i \<and>
        is_branchEdge j = is_branchEdge i)) \<and>
     (\<forall>e. map_option be_dst (ic_be h e) = map_option be_dst (ic_be g e)) \<and>
     (\<forall>f. map_option fn_blocks (ic_fn h f) = map_option fn_blocks (ic_fn g f))"

lemma withoutD:
  assumes "without g X h"
  shows "ic_sb g b = Some sb \<Longrightarrow> \<exists>sb'. ic_sb h b = Some sb' \<and>
      sb_instrs sb' = filter (\<lambda>a. a \<notin> X) (sb_instrs sb) \<and> sb_next sb' = sb_next sb"
    and "ic_is g a = Some i \<Longrightarrow> a \<notin> X \<Longrightarrow> \<exists>j. ic_is h a = Some j \<and> is_ins j = is_ins i \<and> is_branchEdge j = is_branchEdge i"
    and "map_option be_dst (ic_be h e) = map_option be_dst (ic_be g e)"
    and "map_option fn_blocks (ic_fn h f) = map_option fn_blocks (ic_fn g f)"
  using assms unfolding without_def by blast+

lemma without_refl: "without g {} g"
  by (simp add: without_def)

lemma without_trans:
  assumes g: "without g X h" and h: "without h Y k"
  shows "without g (X \<union> Y) k"
  unfolding without_def
proof (intro conjI allI impI)
  note G = withoutD[OF g] and H = withoutD[OF h]
  fix b sb assume "ic_sb g b = Some sb"
  from G(1)[OF this] obtain sh where sh: "ic_sb h b = Some sh" "sb_instrs sh = filter (\<lambda>a. a \<notin> X) (sb_instrs sb)"
    "sb_next sh = sb_next sb" by blast
  from H(1)[OF sh(1)] obtain sk where "ic_sb k b = Some sk" "sb_instrs sk = filter (\<lambda>a. a \<notin> Y) (sb_instrs sh)"
    "sb_next sk = sb_next sh" by blast
  then show "\<exists>sb'. ic_sb k b = Some sb' \<and> sb_instrs sb' = filter (\<lambda>a. a \<notin> X \<union> Y) (sb_instrs sb) \<and> sb_next sb' = sb_next sb"
    using sh by (auto intro: filter_cong)
next
  fix a i assume i: "ic_is g a = Some i" "a \<notin> X \<union> Y"
  then obtain j where j: "ic_is h a = Some j" "is_ins j = is_ins i" "is_branchEdge j = is_branchEdge i"
    using withoutD(2)[OF g i(1)] by blast
  then show "\<exists>j. ic_is k a = Some j \<and> is_ins j = is_ins i \<and> is_branchEdge j = is_branchEdge i"
    using withoutD(2)[OF h j(1)] i(2) by auto
qed (simp_all add: withoutD(3,4)[OF g] withoutD(3,4)[OF h])

lemma without_alike:
  assumes "without g X h" and "alike k h"
  shows "without g X k"
  unfolding without_def
proof (intro conjI allI impI)
  note G = withoutD[OF assms(1)]
  fix b sb assume "ic_sb g b = Some sb"
  from G(1)[OF this] obtain sh where sh: "ic_sb h b = Some sh" "sb_instrs sh = filter (\<lambda>a. a \<notin> X) (sb_instrs sb)"
    "sb_next sh = sb_next sb" by blast
  obtain sk where "ic_sb k b = Some sk" "er_sb sk = er_sb sh" using alike_sb[OF assms(2) sh(1)] by blast
  moreover have "sb_instrs sk = sb_instrs sh" "sb_next sk = sb_next sh" using er_sbD[OF calculation(2)] by blast+
  ultimately show "\<exists>sb'. ic_sb k b = Some sb' \<and> sb_instrs sb' = filter (\<lambda>a. a \<notin> X) (sb_instrs sb) \<and> sb_next sb' = sb_next sb"
    using sh(2,3) by metis
next
  fix a i assume i: "ic_is g a = Some i" "a \<notin> X"
  then obtain j where j: "ic_is h a = Some j" "is_ins j = is_ins i" "is_branchEdge j = is_branchEdge i"
    using withoutD(2)[OF assms(1)] by blast
  obtain x where "ic_is k a = Some x" "er_is x = er_is j" using alike_is[OF assms(2) j(1)] by blast
  moreover have "is_ins x = is_ins j" "is_branchEdge x = is_branchEdge j" using er_isD[OF calculation(2)] by blast+
  ultimately show "\<exists>j. ic_is k a = Some j \<and> is_ins j = is_ins i \<and> is_branchEdge j = is_branchEdge i"
    using j(2,3) by metis
next
  fix e show "map_option be_dst (ic_be k e) = map_option be_dst (ic_be g e)"
    using withoutD(3)[OF assms(1)] alike_edges(1)[OF assms(2)] by simp
next
  fix f
  have "map_option fn_blocks (ic_fn k f) = map_option fn_blocks (ic_fn h f)"
  proof (cases "ic_fn h f")
    case None
    then show ?thesis using alike_fn[OF alike_sym[OF assms(2)], of f] by (cases "ic_fn k f") auto
  next
    case (Some y)
    then obtain x where "ic_fn k f = Some x" "er_fn x = er_fn y" using alike_fn[OF assms(2)] by blast
    then show ?thesis using Some er_fnD[of x y] by simp
  qed
  then show "map_option fn_blocks (ic_fn k f) = map_option fn_blocks (ic_fn g f)" using withoutD(4)[OF assms(1)] by simp
qed

section \<open>Removing one instruction\<close>

lemma cut_edges_branches:
  assumes ok: "icfg_ok g" and i: "ic_is g a = Some i" and j: "ic_is g c = Some j" and "c \<noteq> a"
  shows "\<exists>k. ic_is (cut_edges i g) c = Some k \<and> is_ins k = is_ins j \<and> is_branchEdge k = is_branchEdge j"
proof -
  have "is_branchEdge j \<noteq> Some e" if "is_branchEdge i = Some e" for e
  proof
    assume "is_branchEdge j = Some e"
    then show False
      using edges_okD(8)[OF icfg_okD(4)[OF ok] i that] edges_okD(8)[OF icfg_okD(4)[OF ok] j] assms(4)
      by (auto simp: live_be_def)
  qed
  then show ?thesis
    using j by (auto simp: cut_edges_def cut_branch_def cut_call_def cut_return_def split: option.split)
qed

lemma without_one:
  assumes ok: "icfg_ok g" and sb: "ic_sb g b = Some sb" "a \<in> set (sb_instrs sb)" and i: "ic_is g a = Some i"
  shows "without g {a} (drop_instrs b [a] (cut_edges i g))"
  unfolding without_def
proof (intro conjI allI impI)
  fix c sc assume sc: "ic_sb g c = Some sc"
  obtain s where s: "ic_sb (cut_edges i g) c = Some s" "sb_instrs s = sb_instrs sc" "sb_next s = sb_next sc"
    using cut_edges_sb[OF sc, of i] by blast
  have "c \<noteq> b \<Longrightarrow> a \<notin> set (sb_instrs sc)"
    using instrs_okD(3)[OF icfg_okD(2)[OF ok] sc sb(1) _ sb(2)] by blast
  then show "\<exists>sb'. ic_sb (drop_instrs b [a] (cut_edges i g)) c = Some sb' \<and>
      sb_instrs sb' = filter (\<lambda>x. x \<notin> {a}) (sb_instrs sc) \<and> sb_next sb' = sb_next sc"
    using s by (cases "c = b") (auto simp: drop_instrs_def intro: filter_True[symmetric])
next
  fix c j assume j: "ic_is g c = Some j" "c \<notin> {a}"
  then show "\<exists>k. ic_is (drop_instrs b [a] (cut_edges i g)) c = Some k \<and> is_ins k = is_ins j \<and> is_branchEdge k = is_branchEdge j"
    using cut_edges_branches[OF ok i j(1)] by (simp add: drop_instrs_def)
next
  fix e
  show "map_option be_dst (ic_be (drop_instrs b [a] (cut_edges i g)) e) = map_option be_dst (ic_be g e)"
    by (cases "ic_be g e") (auto simp: drop_instrs_def cut_edges_def cut_branch_def cut_call_def cut_return_def split: option.split)
next
  fix f
  show "map_option fn_blocks (ic_fn (drop_instrs b [a] (cut_edges i g)) f) = map_option fn_blocks (ic_fn g f)"
    by (cases "ic_fn g f") (auto simp: drop_instrs_def cut_edges_def cut_branch_def cut_call_def cut_return_def split: option.split)
qed

lemma delete_dead_total:
  assumes ok: "icfg_ok g" and sb: "ic_sb g b = Some sb" "a \<in> set (sb_instrs sb)" and f: "ic_fn g f = Some fn"
  shows "\<exists>h. delete_dead f (a, b) g = Some h \<and> icfg_ok h \<and> without g {a} h"
proof -
  obtain i where i: "ic_is g a = Some i" using instrs_okD(2)[OF icfg_okD(2)[OF ok] sb] by blast
  obtain h where h: "removeInstruction b a g = Some h" "alike h (drop_instrs b [a] (cut_edges i g))" "icfg_ok h"
    using removeInstruction_total[OF ok sb i] by blast
  have w: "without g {a} h" by (rule without_alike[OF without_one[OF ok sb i] h(2)])
  obtain fh where fh: "ic_fn h f = Some fh" using withoutD(4)[OF w, of f] f by auto
  obtain sh where sh: "ic_sb h b = Some sh" using withoutD(1)[OF w sb(1)] by blast
  let ?h1 = "unset_live_icfg h"
  let ?h2 = "?h1\<lparr>ic_fn := (ic_fn ?h1)(f \<mapsto> unset_live_fn fh)\<rparr>"
  let ?h3 = "?h2\<lparr>ic_sb := (ic_sb ?h2)(b \<mapsto> set_livenessValid False sh)\<rparr>"
  have "alike ?h1 h" by (simp add: unset_live_icfg_def)
  also have e1: "ic_fn ?h1 f = Some fh" "ic_sb ?h2 b = Some sh" using fh sh by (simp_all add: unset_live_icfg_def)
  have "alike ?h2 ?h1" by (rule alike_same_fn[OF e1(1)]) (simp add: unset_live_fn_def)
  moreover have "alike ?h3 ?h2" by (rule alike_same_sb[OF e1(2)]) (simp add: set_livenessValid_def)
  ultimately have al: "alike ?h3 h" using alike_trans by blast
  have "delete_dead f (a, b) g = Some ?h3"
    using h(1) e1 by (simp add: delete_dead_def upd_fn_def upd_sb_def)
  then show ?thesis using al h(3) alike_ok[OF al] without_alike[OF w al] by blast
qed

section \<open>The pass\<close>

lemma delete_list:
  assumes "icfg_ok g" and "ic_fn g f = Some fn" and "distinct (map fst ds)"
    and "\<forall>(a, b)\<in>set ds. \<exists>sb. ic_sb g b = Some sb \<and> a \<in> set (sb_instrs sb)"
  shows "\<exists>h. for_each ds (delete_dead f) g = Some h \<and> icfg_ok h \<and> without g (fst ` set ds) h"
  using assms
proof (induction ds arbitrary: g fn)
  case Nil
  then show ?case by (simp add: without_refl)
next
  case (Cons d ds)
  obtain a b where d: "d = (a, b)" by (cases d)
  obtain sb where sb: "ic_sb g b = Some sb" "a \<in> set (sb_instrs sb)" using Cons.prems(4) d by auto
  obtain h where h: "delete_dead f (a, b) g = Some h" "icfg_ok h" "without g {a} h"
    using delete_dead_total[OF Cons.prems(1) sb Cons.prems(2)] by blast
  obtain fh where fh: "ic_fn h f = Some fh" using withoutD(4)[OF h(3), of f] Cons.prems(2) by auto
  have "\<exists>sc. ic_sb h y = Some sc \<and> x \<in> set (sb_instrs sc)" if xy: "(x, y) \<in> set ds" for x y
  proof -
    obtain sc where sc: "ic_sb g y = Some sc" "x \<in> set (sb_instrs sc)" using Cons.prems(4) xy by auto
    have "x \<noteq> a" using Cons.prems(3) xy d by force
    then show ?thesis using withoutD(1)[OF h(3) sc(1)] sc(2) by auto
  qed
  then have "\<forall>(x, y)\<in>set ds. \<exists>sc. ic_sb h y = Some sc \<and> x \<in> set (sb_instrs sc)" by blast
  from Cons.IH[OF h(2) fh _ this] Cons.prems(3) obtain k where k: "for_each ds (delete_dead f) h = Some k" "icfg_ok k"
    "without h (fst ` set ds) k" by auto
  then show ?case using h(1) d without_trans[OF h(3) k(3)] by simp
qed

definition dead_in :: "icfg \<Rightarrow> nat \<Rightarrow> nat list" where
  "dead_in g b = filter (\<lambda>a. \<not> live_instr g a) (sb_instrs (the (ic_sb g b)))"

lemma note_dead_list:
  assumes "\<forall>a\<in>set as. ic_is g a \<noteq> None"
  shows "for_each as (note_dead b g) acc = Some (acc @ map (\<lambda>a. (a, b)) (filter (\<lambda>a. \<not> live_instr g a) as))"
  using assms by (induction as arbitrary: acc) (auto simp: note_dead_def live_instr_def)

lemma collect_dead_list:
  assumes "\<forall>b\<in>set bs. \<exists>sb. ic_sb g b = Some sb \<and> (\<forall>a\<in>set (sb_instrs sb). ic_is g a \<noteq> None)"
  shows "for_each bs (\<lambda>b acc. do { sb \<leftarrow> ic_sb g b; for_each (sb_instrs sb) (note_dead b g) acc }) acc =
    Some (acc @ concat (map (\<lambda>b. map (\<lambda>a. (a, b)) (dead_in g b)) bs))"
  using assms
proof (induction bs arbitrary: acc)
  case (Cons b bs)
  then obtain sb where "ic_sb g b = Some sb" "\<forall>a\<in>set (sb_instrs sb). ic_is g a \<noteq> None" by auto
  then show ?case using Cons by (simp add: note_dead_list dead_in_def)
qed simp

lemma dead_distinct:
  assumes ok: "icfg_ok g" and "distinct bs" and "\<forall>b\<in>set bs. ic_sb g b \<noteq> None"
  shows "distinct (concat (map (dead_in g) bs))"
  using assms(2,3)
proof (induction bs)
  case (Cons b bs)
  obtain sb where sb: "ic_sb g b = Some sb" using Cons.prems(2) by auto
  have "distinct (dead_in g b)" using instrs_okD(1)[OF icfg_okD(2)[OF ok] sb] sb by (simp add: dead_in_def)
  moreover have "set (dead_in g b) \<inter> set (dead_in g c) = {}" if c: "c \<in> set bs" for c
  proof -
    obtain sc where sc: "ic_sb g c = Some sc" using Cons.prems(2) c by auto
    have "c \<noteq> b" using Cons.prems(1) c by auto
    then show ?thesis using instrs_okD(3)[OF icfg_okD(2)[OF ok] sc sb] sb sc by (auto simp: dead_in_def)
  qed
  ultimately show ?case using Cons by auto
qed simp

lemma dead_writes_total:
  assumes ok: "icfg_ok g" and f: "ic_entry g = Some f" "ic_fn g f = Some fn"
  shows "\<exists>h. dead_writes_run g = Some h \<and> icfg_ok h \<and> without g (\<Union>b\<in>set (fn_blocks fn). set (dead_in g b)) h"
proof -
  let ?ds = "concat (map (\<lambda>b. map (\<lambda>a. (a, b)) (dead_in g b)) (fn_blocks fn))"
  have bl: "\<exists>sb. ic_sb g b = Some sb" if "b \<in> set (fn_blocks fn)" for b
    using blocks_okD(2)[OF icfg_okD(1)[OF ok] f(2) that] by blast
  have "\<forall>b\<in>set (fn_blocks fn). \<exists>sb. ic_sb g b = Some sb \<and> (\<forall>a\<in>set (sb_instrs sb). ic_is g a \<noteq> None)"
    using bl instrs_okD(2)[OF icfg_okD(2)[OF ok]] by fastforce
  then have c: "collect_dead f g = Some ?ds" using collect_dead_list[of "fn_blocks fn" g "[]"] f(2) by (simp add: collect_dead_def)
  have m: "map fst ?ds = concat (map (dead_in g) (fn_blocks fn))"
    by (simp add: map_concat o_def)
  have d: "distinct (map fst ?ds)"
    unfolding m by (rule dead_distinct[OF ok blocks_okD(1)[OF icfg_okD(1)[OF ok] f(2)]]) (use bl in auto)
  have i: "\<forall>(a, b)\<in>set ?ds. \<exists>sb. ic_sb g b = Some sb \<and> a \<in> set (sb_instrs sb)"
    using bl by (fastforce simp: dead_in_def)
  have s: "fst ` set ?ds = (\<Union>b\<in>set (fn_blocks fn). set (dead_in g b))" by force
  show ?thesis using delete_list[OF ok f(2) d i] c f(1) unfolding s by (simp add: dead_writes_run_def)
qed

section \<open>What is left runs as before\<close>

lemma run_without:
  assumes w: "without g X h" and "\<forall>a\<in>set as. ic_is g a \<noteq> None" and "\<forall>a\<in>set as. a \<notin> X \<longleftrightarrow> keep a"
  shows "run_instrs cpu h (\<lambda>_. True) (filter (\<lambda>a. a \<notin> X) as) s = run_instrs cpu g keep as s"
  using assms(2,3)
proof (induction as arbitrary: s)
  case (Cons a as)
  show ?case
  proof (cases "a \<in> X")
    case True
    then show ?thesis using Cons by (simp add: Let_def split_beta)
  next
    case False
    then have k: "keep a" using Cons.prems(2) by simp
    obtain i where i: "ic_is g a = Some i" using Cons.prems(1) by auto
    obtain j where j: "ic_is h a = Some j" "is_ins j = is_ins i" "is_branchEdge j = is_branchEdge i"
      using withoutD(2)[OF w i False] by blast
    have t: "isRet j = isRet i" "isBranch j = isBranch i" using j(2) by (simp_all add: isRet_def isBranch_def has_type_def)
    have e: "be_dst (the (ic_be h e)) = be_dst (the (ic_be g e))" for e
      using withoutD(3)[OF w, of e] by (cases "ic_be g e"; cases "ic_be h e") auto
    show ?thesis using Cons i j t e False k by (simp add: Let_def split_beta cong: option.case_cong)
  qed
qed simp

lemma returns_without:
  assumes w: "without g X h" and ok: "flow_ok f g" and b: "b \<in> lv_blocks f g"
    and keep: "\<And>b sb a. b \<in> lv_blocks f g \<Longrightarrow> ic_sb g b = Some sb \<Longrightarrow> a \<in> set (sb_instrs sb) \<Longrightarrow> a \<notin> X \<longleftrightarrow> keep a"
  shows "returns_from cpu h (\<lambda>_. True) n b s = returns_from cpu g keep n b s"
  using b
proof (induction n arbitrary: b s)
  case (Suc n)
  have bb: "b \<in> set (blocks_in f g)" using Suc.prems lv_blocks_ok[OF ok] by simp
  obtain sb where sb: "ic_sb g b = Some sb" using closed_block[OF ok bb] by blast
  obtain sh where sh: "ic_sb h b = Some sh" "sb_instrs sh = filter (\<lambda>a. a \<notin> X) (sb_instrs sb)" "sb_next sh = sb_next sb"
    using withoutD(1)[OF w sb] by blast
  have ex: "\<forall>a\<in>set (sb_instrs sb). ic_is g a \<noteq> None" using instrs_okD(2)[OF icfg_okD(2)[OF flow_okD(1)[OF ok]] sb] by fastforce
  have r: "run_instrs cpu h (\<lambda>_. True) (sb_instrs sh) s = run_instrs cpu g keep (sb_instrs sb) s"
    unfolding sh(2) by (rule run_without[OF w ex]) (use keep[OF Suc.prems sb] in blast)
  have n: "c \<in> lv_blocks f g" if "sb_next sb = Some c" for c
    using lv.next_in[OF Suc.prems] that sb Suc.prems by (simp add: lv_next_def)
  show ?case
  proof (cases "run_instrs cpu g keep (sb_instrs sb) s")
    case (Jumps c t)
    then show ?thesis using r sb sh(1) Suc.IH jump_inside[OF ok bb sb Jumps] by simp
  next
    case (Falls t)
    then show ?thesis using r sb sh(1,3) Suc.IH n by (cases "sb_next sb") simp_all
  qed (use r sb sh(1) in simp_all)
qed simp

text \<open>
  The two passes together: the function that is left returns whenever the function did, from
  the same start and with the same results and preserved registers and the same memory.
\<close>

lemma dead_writes_keep_results:
  assumes ok: "flow_ok f g" and e: "ic_entry g = Some f" and nv: "\<not> nd_livenessValid (ic_node g)"
    and fn: "ic_fn g f = Some fn" "\<not> nd_livenessValid (fn_node fn)" "fn_info fn = Some spec"
    and rets: "rets_known f g" and cpu: "cpu_for cpu f g"
  defines "R \<equiv> regs_in (ro_out spec) \<union> regs_in (ro_preserved spec)"
  shows "\<exists>h. Option.bind (liveness_run g) dead_writes_run = Some h \<and> icfg_ok h \<and>
    (\<forall>n b s s'. b \<in> set (fn_blocks fn) \<longrightarrow> returns_from cpu g (\<lambda>_. True) n b s = Some s' \<longrightarrow>
       (\<exists>t'. returns_from cpu h (\<lambda>_. True) n b s = Some t' \<and> agree_on R s' t'))"
proof -
  obtain h0 where h0: "liveness_function f g = Some (h0\<lparr>ic_fn := (ic_fn h0)(f \<mapsto> set_fn_livenessValid fn)\<rparr>)" "same_code h0 g"
    "live_result f g R h0"
    using liveness_function_total[OF ok fn] unfolding R_def by blast
  let ?g1 = "h0\<lparr>ic_fn := (ic_fn h0)(f \<mapsto> set_fn_livenessValid fn)\<rparr>"
  let ?g2 = "?g1\<lparr>ic_node := (ic_node ?g1)\<lparr>nd_livenessValid := True\<rparr>\<rparr>"
  have run: "liveness_run g = Some ?g2" using h0(1) nv e by (simp add: liveness_run_def)
  have f0: "ic_fn h0 f = Some fn" using same_code_rest(2)[OF h0(2)] fn(1) by simp
  have a1: "alike ?g1 h0" by (rule alike_same_fn[OF f0]) (simp add: set_fn_livenessValid_def)
  have al: "alike ?g2 g"
    using alike_node[of _ ?g1] a1 same_code_alike[OF h0(2)] alike_trans by blast
  have ok2: "icfg_ok ?g2" using alike_ok[OF al] flow_okD(1)[OF ok] by simp
  have e2: "ic_entry ?g2 = Some f" using same_code_rest(7)[OF h0(2)] e by simp
  have f2: "ic_fn ?g2 f = Some (set_fn_livenessValid fn)" by simp
  obtain h where h: "dead_writes_run ?g2 = Some h" "icfg_ok h"
    "without ?g2 (\<Union>b\<in>set (fn_blocks (set_fn_livenessValid fn)). set (dead_in ?g2 b)) h"
    using dead_writes_total[OF ok2 e2 f2] by blast
  have bl: "lv_blocks f g = set (fn_blocks fn)" using lv_blocks_ok[OF ok] fn(1) by (simp add: blocks_in_def)
  let ?X = "\<Union>b\<in>set (fn_blocks fn). set (dead_in ?g2 b)"
  have w: "without g ?X h"
    using without_trans[OF without_alike[OF without_refl al] h(3)] by (simp add: set_fn_livenessValid_def)
  have live: "live_instr ?g2 = live_instr h0" by (simp add: live_instr_def fun_eq_iff)
  have keep: "a \<notin> ?X \<longleftrightarrow> live_instr h0 a" if b: "b \<in> lv_blocks f g" "ic_sb g b = Some sb" "a \<in> set (sb_instrs sb)" for b sb a
  proof -
    obtain x where x: "ic_sb h0 b = Some x" "strip_sb x = strip_sb sb" using same_code_sb[OF h0(2) b(2)] by blast
    then have "sb_instrs x = sb_instrs sb" using strip_sbD by blast
    then have "\<not> live_instr h0 a \<Longrightarrow> a \<in> set (dead_in ?g2 b)" using x(1) b(3) live by (simp add: dead_in_def)
    moreover have "a \<in> ?X \<Longrightarrow> \<not> live_instr h0 a" using live by (auto simp: dead_in_def)
    ultimately show ?thesis using b(1) bl by blast
  qed
  have "\<exists>t'. returns_from cpu h (\<lambda>_. True) n b s = Some t' \<and> agree_on R s' t'"
    if "b \<in> set (fn_blocks fn)" "returns_from cpu g (\<lambda>_. True) n b s = Some s'" for n b s s'
  proof -
    have b: "b \<in> lv_blocks f g" using that(1) bl by simp
    have "agree_on (data_in h0 b) s s" by (simp add: agree_on_def)
    moreover have "returns_from cpu h (\<lambda>_. True) n b s = returns_from cpu g (live_instr h0) n b s"
      by (rule returns_without[OF w ok b]) (rule keep)
    ultimately show ?thesis using returns_live[OF h0(3) ok rets cpu that(2) b, of s] by simp
  qed
  then show ?thesis using run h(1,2) by auto
qed

end
