(* ===== verification/Graph_Demo.thy ===== *)
theory Graph_Demo
  imports Dead_Writes Table_Sound Traverse
begin

text \<open>
  Concrete functions for the graph and its passes: one that returns or goes round in a loop
  of two blocks, with a write nobody reads.
\<close>

section \<open>A function with a loop that does not end\<close>

text \<open>
  Block 1 moves RAX to RCX, branches to block 2 if ZF is set, and returns; blocks 2 and 3
  jump to one another. Nobody reads RCX.
\<close>

definition jump_to :: static_operand where
  "jump_to = SopMem (MpDirect \<lparr>i64_val = 0, i64_usrPtrNr = - 1, i64_usrPtrOffset = 0\<rparr>)"

definition mov_rcx_rax :: instr where
  "mov_rcx_rax = new_instruction (Mov MOV64rr) [SopReg (Gpr64 GC), SopReg (Gpr64 GA)]"

definition demo_branch :: "opcode \<Rightarrow> nat \<Rightarrow> instr" where
  "demo_branch opc e = (new_instruction opc [jump_to])\<lparr>is_branchEdge := Some e\<rparr>"

definition demo_ret :: instr where
  "demo_ret = (new_instruction (Stack RET) [])\<lparr>is_returnEdge := Some 31\<rparr>"

definition demo_block :: "nat list \<Rightarrow> nat list \<Rightarrow> nat list \<Rightarrow> super_block" where
  "demo_block as ins outs = \<lparr>sb_node = node_init, sb_function = 0, sb_instrs = as, sb_next = None, sb_prev = None,
     sb_in = ins, sb_out = outs, sb_entryState = None, sb_liveness = None\<rparr>"

definition demo_edge :: "nat \<Rightarrow> nat \<Rightarrow> nat \<Rightarrow> branch_edge" where
  "demo_edge dst src a = \<lparr>be_dst = dst, be_src = src, be_instr = a, be_invalidated = False\<rparr>"

definition demo_spec :: reg_operands where
  "demo_spec = \<lparr>ro_in = mask_fill, ro_out = subregister_mask (MaskReg (Gpr64 GA)), ro_preserved = mask_zero\<rparr>"

definition demo_fn :: func where
  "demo_fn = \<lparr>fn_node = node_init, fn_itext = 0, fn_entry = Some 1, fn_blocks = [1, 2, 3], fn_in = [], fn_out = [],
     fn_returns = [31], fn_info = Some demo_spec\<rparr>"

definition demo_graph :: icfg where
  "demo_graph = \<lparr>ic_node = node_init, ic_entry = Some 0, ic_functions = [0], ic_fn = [0 \<mapsto> demo_fn],
     ic_sb = [1 \<mapsto> demo_block [11, 12, 13] [] [21], 2 \<mapsto> demo_block [16, 14] [21, 23] [22], 3 \<mapsto> demo_block [17, 15] [22] [23]],
     ic_is = [11 \<mapsto> mov_rcx_rax, 12 \<mapsto> demo_branch (Jcc JZa) 21, 13 \<mapsto> demo_ret, 14 \<mapsto> demo_branch (Jmp JMPa) 22,
       15 \<mapsto> demo_branch (Jmp JMPa) 23, 16 \<mapsto> mov_rcx_rax, 17 \<mapsto> mov_rcx_rax],
     ic_be = [21 \<mapsto> demo_edge 2 1 12, 22 \<mapsto> demo_edge 3 2 14, 23 \<mapsto> demo_edge 2 3 15], ic_ce = Map.empty,
     ic_re = [31 \<mapsto> \<lparr>re_dst = 0, re_src = 1, re_instr = 13, re_invalidated = False\<rparr>], ic_fresh = 40\<rparr>"

lemmas demo_defs = demo_graph_def demo_fn_def demo_block_def demo_edge_def mov_rcx_rax_def demo_branch_def demo_ret_def
  new_instruction_def node_init_def

lemma demo_types:
  "isBranch (demo_branch (Jcc JZa) e)" "isBranch (demo_branch (Jmp JMPa) e)" "isRet demo_ret"
  "\<not> isBranch mov_rcx_rax" "\<not> isRet mov_rcx_rax" "\<not> isCall mov_rcx_rax"
  "\<not> isRet (demo_branch (Jcc JZa) e)" "\<not> isRet (demo_branch (Jmp JMPa) e)"
  by (simp_all add: isBranch_def isRet_def isCall_def has_type_def demo_defs def_opc_def)

lemma demo_ok: "icfg_ok demo_graph"
proof -
  have "blocks_ok demo_graph" "instrs_ok demo_graph" "chain_ok demo_graph" "calls_ok demo_graph" "fresh_ok demo_graph"
    by (auto simp: blocks_ok_def instrs_ok_def chain_ok_def calls_ok_def fresh_ok_def live_defs demo_defs split: if_splits)
  moreover have "edges_ok demo_graph"
    using demo_types
    by (auto simp: edges_ok_def live_defs demo_graph_def demo_fn_def demo_block_def demo_edge_def demo_branch_def
        mov_rcx_rax_def demo_ret_def new_instruction_def split: if_splits)
  moreover have "returns_ok demo_graph"
    using demo_types
    by (auto simp: returns_ok_def live_defs demo_graph_def demo_fn_def demo_block_def demo_edge_def demo_branch_def
        mov_rcx_rax_def demo_ret_def new_instruction_def split: if_splits)
  ultimately show ?thesis by (simp add: icfg_ok_def)
qed

lemma demo_info:
  assumes "arch_get_opcode_info opc = Some oc" and "\<not> shift_by_cl opc" and "operands_fit oc ops"
  shows "flow_info_of (new_instruction opc ops) \<noteq> None" "flow_info_of ((new_instruction opc ops)\<lparr>is_branchEdge := be\<rparr>) \<noteq> None"
    "flow_info_of ((new_instruction opc ops)\<lparr>is_returnEdge := re\<rparr>) \<noteq> None"
  using table_info[OF assms] assms(1) by (auto simp: flow_info_of_def new_instruction_def instr_of_def)

lemma demo_infos:
  "flow_info_of mov_rcx_rax \<noteq> None" "flow_info_of (demo_branch (Jcc JZa) e) \<noteq> None"
  "flow_info_of (demo_branch (Jmp JMPa) e) \<noteq> None" "flow_info_of demo_ret \<noteq> None"
proof -
  note S = shift_by_cl_def operands_fit_def def_opc_def reg_has_type_def def_reg_simple_def jump_to_def
  show "flow_info_of mov_rcx_rax \<noteq> None" unfolding mov_rcx_rax_def
    by (rule demo_info(1)[of _ "mov_info MOV64rr"]) (simp_all add: S)
  show "flow_info_of (demo_branch (Jcc JZa) e) \<noteq> None" unfolding demo_branch_def
    by (rule demo_info(2)[of _ "jcc_info JZa"]) (simp_all add: S)
  show "flow_info_of (demo_branch (Jmp JMPa) e) \<noteq> None" unfolding demo_branch_def
    by (rule demo_info(2)[of _ "jmp_info JMPa"]) (simp_all add: S)
  show "flow_info_of demo_ret \<noteq> None" unfolding demo_ret_def
    by (rule demo_info(3)[of _ "stack_info RET"]) (simp_all add: S)
qed

lemma demo_flow: "flow_ok 0 demo_graph"
proof -
  have "block_closed [1, 2, 3] demo_graph b" if "b \<in> {1, 2, 3}" for b
    using that demo_infos
    by (auto simp: block_closed_def demo_graph_def demo_block_def demo_edge_def node_init_def)
  moreover have "falls demo_graph = {}"
    by (auto simp: falls_def demo_graph_def demo_block_def split: if_splits)
  ultimately show ?thesis
    using demo_ok by (simp add: flow_ok_def blocks_in_def return_blocks_def demo_graph_def demo_fn_def acyclic_def)
qed

lemma demo_rets: "rets_known 0 demo_graph"
  using demo_types by (auto simp: rets_known_def blocks_in_def demo_graph_def demo_fn_def demo_block_def demo_ret_def)

text \<open>A processor that writes zero to every register an instruction writes and takes no branch.\<close>

definition zero_cpu :: "(nat, unit) processor" where
  "zero_cpu ins s =
     ((\<lambda>r. if r \<in> regs_in (ii_writtenRegs (the (getInfo ins))) then 0 else fst s r, ()),
      (case in_info ins of Some oc \<Rightarrow> oc_type oc = CfRet | None \<Rightarrow> False))"

lemma zero_cpu_ok:
  assumes "is_dynInfo i = None" and "flow_info_of i = Some fi"
  shows "keeps_to zero_cpu i fi"
proof -
  obtain info where info: "getInfo (is_ins i) = Some info" "fi_written fi = ii_writtenRegs info"
    "fi_willExecute fi \<noteq> TFalse"
    using assms by (auto simp: flow_info_of_def bind_eq_Some_conv)
  show ?thesis using info by (auto simp: keeps_to_def Let_def zero_cpu_def isRet_def has_type_def split: option.splits)
qed

lemma demo_cpu: "cpu_for zero_cpu 0 demo_graph"
proof -
  have "keeps_to zero_cpu i (the (flow_info_of i))" if "is_dynInfo i = None" "flow_info_of i \<noteq> None" for i
    using zero_cpu_ok[OF that(1)] that(2) by auto
  then have "keeps_to zero_cpu mov_rcx_rax (the (flow_info_of mov_rcx_rax))"
    "keeps_to zero_cpu demo_ret (the (flow_info_of demo_ret))"
    "keeps_to zero_cpu (demo_branch (Jcc JZa) e) (the (flow_info_of (demo_branch (Jcc JZa) e)))"
    "keeps_to zero_cpu (demo_branch (Jmp JMPa) e) (the (flow_info_of (demo_branch (Jmp JMPa) e)))" for e
    using demo_infos by (simp_all add: demo_defs)
  then show ?thesis
    by (auto simp: cpu_for_def blocks_in_def demo_graph_def demo_fn_def demo_block_def)
qed

section \<open>Its layout\<close>

text \<open>The two jumps of the loop become a chain of one block that follows itself.\<close>

definition demo_layout :: icfg where
  "demo_layout = (case layout_run demo_graph of Some h \<Rightarrow> h | None \<Rightarrow> icfg_init)"

lemma demo_layout_run: "layout_run demo_graph = Some demo_layout"
proof -
  have "layout_run demo_graph \<noteq> None" by code_simp
  then show ?thesis by (auto simp: demo_layout_def)
qed

lemma demo_layout_facts:
  "map_option (\<lambda>fn. (fn_entry fn, fn_blocks fn)) (ic_fn demo_layout 0) = Some (Some 1, [1, 3])"
  "map_option block_view (ic_sb demo_layout 1) = Some (None, [21])"
  "map_option block_view (ic_sb demo_layout 3) = Some (Some 3, [])"
  "map_option edge_view (ic_be demo_layout 21) = Some (3, False)"
  "is_visited demo_layout 1 = Some False" "is_visited demo_layout 3 = Some False"
  by code_simp+

lemma demo_layout_walkable: "walkable demo_layout {1, 3}"
  using demo_layout_facts by (auto simp: walkable_def block_view_def edge_view_def)

lemma demo_layout_circle: "circling demo_layout (reached demo_layout 1) \<noteq> {}"
proof -
  have "3 \<in> succs demo_layout 1"
    using demo_layout_facts(2,4) by (auto simp: succs_def succ_branch_def block_view_def edge_view_def)
  then have "{3} \<subseteq> reached demo_layout 1" using reached.step[OF reached.start] by blast
  moreover have "next_closed demo_layout {3}"
    using demo_layout_facts(3) by (auto simp: next_closed_def succ_next_def block_view_def)
  ultimately show ?thesis using circlingI by blast
qed

lemma demo_layout_diverges:
  assumes "harmless cb" and "push_ok push"
  shows "walk_function push 0 cb (x, demo_layout) = None"
proof -
  obtain fn where fn: "ic_fn demo_layout 0 = Some fn" "fn_entry fn = Some 1" "fn_blocks fn = [1, 3]"
    using demo_layout_facts(1) by auto
  have "marks_ok demo_layout 0" using fn demo_layout_facts(5,6) by (auto simp: marks_ok_def visited_def)
  then show ?thesis
    using walk_function_ends_iff[OF fn(1,2) _ _ _ assms, of x] fn(3) demo_layout_walkable demo_layout_circle by auto
qed

text \<open>A callback that only notes the blocks.\<close>

definition trace :: "nat list visitor" where
  "trace b = (\<lambda>(bs, g). Some (False, bs @ [b], g))"

lemma trace_harmless: "harmless trace"
  by (auto simp: harmless_def trace_def)

lemma demo_walkable: "walkable demo_graph {1, 2, 3}"
  by (auto simp: walkable_def demo_graph_def demo_block_def demo_edge_def)

lemma demo_marks: "marks_ok demo_graph 0"
  by (auto simp: marks_ok_def visited_def is_visited_def demo_graph_def demo_fn_def demo_block_def node_init_def)

lemma demo_chains: "circling demo_graph R = {}"
proof -
  have "succ_next demo_graph b = None" for b by (simp add: succ_next_def demo_graph_def demo_block_def)
  then have "C = {}" if "next_closed demo_graph C" for C using that by (auto simp: next_closed_def)
  then show ?thesis by (auto simp: circling_def)
qed

end
