(* ===== verification/Codegen_Demo.thy ===== *)
theory Codegen_Demo
  imports Codegen_Graph Graph_Demo Spec_Demo
begin

text \<open>
  Runs of the code generation on small graphs: the graph of \<open>Graph_Demo\<close>, a block that falls
  through to one that is laid out before it, and a branch that is short only before others
  shrink.
\<close>

section \<open>Running\<close>

definition demo_genv :: codegen_env where
  "demo_genv = \<lparr>ge_os = small_os, ge_host = (\<lambda>_. 0x90), ge_stale = (\<lambda>_ _. 0)\<rparr>"

text \<open>The state of the pass when it comes to its second run.\<close>

definition second_run :: "nat set \<Rightarrow> codegen" where
  "second_run short = (codegen_init demo_pool)\<lparr>cg_write := True, cg_short := short\<rparr>"

text \<open>The branches the first run finds to be short.\<close>

definition short_branches :: "icfg \<Rightarrow> nat set option" where
  "short_branches g = map_option (\<lambda>(again, st, g). cg_short st) (cg_run demo_genv (codegen_init demo_pool, g))"

text \<open>Where the blocks and the end of the code are after the second run.\<close>

definition code_layout :: "nat set \<Rightarrow> icfg \<Rightarrow> nat list \<Rightarrow> (u64 option list \<times> u64) option" where
  "code_layout short g bs =
     map_option (\<lambda>(st, g). (map (cg_blockMap st) bs, next_code st)) (cg_generate demo_genv (second_run short, g))"

lemma second_run_fresh [simp]:
  "cg_write (second_run short)" "cg_functionMap (second_run short) = Map.empty" "cg_blockMap (second_run short) = Map.empty"
  "cg_branches (second_run short) = []" "cg_calls (second_run short) = []" "cg_pool (second_run short) = demo_pool"
  by (simp_all add: second_run_def codegen_init_def)

lemma demo_genv_os [simp]: "ge_os demo_genv = small_os"
  by (simp add: demo_genv_def)

lemma demo_entries: "entries_in demo_graph"
  by (simp add: entries_in_def demo_graph_def demo_fn_def)

section \<open>Graphs\<close>

definition filler :: "byte \<Rightarrow> instr" where
  "filler n = (new_instruction (Mov MOV64rr) [SopReg (Gpr64 GC), SopReg (Gpr64 GA)])
     \<lparr>is_itext := 0x5000, is_ilen := n, is_reencode := False\<rparr>"

text \<open>
  The first block jumps to the third when zero, the second, which comes after it, to the fourth; the third
  falls through to the fourth, which returns.
\<close>

definition join_graph :: icfg where
  "join_graph = demo_graph
     \<lparr>ic_fn := [0 \<mapsto> demo_fn\<lparr>fn_blocks := [1, 2, 3, 4]\<rparr>],
      ic_sb := [1 \<mapsto> (demo_block [11] [] [21])\<lparr>sb_next := Some 2\<rparr>, 2 \<mapsto> (demo_block [12] [] [22])\<lparr>sb_prev := Some 1\<rparr>,
        3 \<mapsto> (demo_block [13] [21] [])\<lparr>sb_next := Some 4\<rparr>, 4 \<mapsto> (demo_block [14] [22] [])\<lparr>sb_prev := Some 3\<rparr>],
      ic_is := [11 \<mapsto> demo_branch (Jcc JZa) 21, 12 \<mapsto> demo_branch (Jmp JMPa) 22, 13 \<mapsto> mov_rcx_rax, 14 \<mapsto> demo_ret],
      ic_be := [21 \<mapsto> demo_edge 3 1 11, 22 \<mapsto> demo_edge 4 2 12],
      ic_re := [31 \<mapsto> \<lparr>re_dst = 0, re_src = 4, re_instr = 14, re_invalidated = False\<rparr>]\<rparr>"

text \<open>Two branches out of the first block, to the second and to the third.\<close>

definition ret_with :: "nat \<Rightarrow> instr" where
  "ret_with e = demo_ret\<lparr>is_returnEdge := Some e\<rparr>"

definition far_graph :: icfg where
  "far_graph = demo_graph
     \<lparr>ic_fn := [0 \<mapsto> demo_fn\<lparr>fn_returns := [31, 32, 33]\<rparr>],
      ic_sb := [1 \<mapsto> demo_block [10, 11, 12, 13, 14] [] [21, 22], 2 \<mapsto> demo_block [15, 16, 17, 18, 19, 20, 24, 25] [21] [],
        3 \<mapsto> demo_block [26] [22] []],
      ic_is := [10 \<mapsto> filler 9, 11 \<mapsto> demo_branch (Jcc JZa) 21, 12 \<mapsto> demo_branch (Jcc JZa) 22, 13 \<mapsto> filler 5, 14 \<mapsto> ret_with 31,
        15 \<mapsto> filler 15, 16 \<mapsto> filler 15, 17 \<mapsto> filler 15, 18 \<mapsto> filler 15, 19 \<mapsto> filler 15, 20 \<mapsto> filler 15, 24 \<mapsto> filler 15,
        25 \<mapsto> ret_with 32, 26 \<mapsto> ret_with 33],
      ic_be := [21 \<mapsto> demo_edge 2 1 11, 22 \<mapsto> demo_edge 3 1 12],
      ic_re := [31 \<mapsto> \<lparr>re_dst = 0, re_src = 1, re_instr = 14, re_invalidated = False\<rparr>,
        32 \<mapsto> \<lparr>re_dst = 0, re_src = 2, re_instr = 25, re_invalidated = False\<rparr>,
        33 \<mapsto> \<lparr>re_dst = 0, re_src = 3, re_instr = 26, re_invalidated = False\<rparr>]\<rparr>"

lemma filler_types: "\<not> isBranch (filler n)" "\<not> isRet (filler n)" "\<not> isCall (filler n)"
  "is_branchEdge (filler n) = None" "is_returnEdge (filler n) = None" "is_callEdge (filler n) = None"
  "isRet (ret_with e)" "\<not> isBranch (ret_with e)" "is_returnEdge (ret_with e) = Some e" "is_branchEdge (ret_with e) = None"
  "\<not> isCall (ret_with e)" "is_callEdge (ret_with e) = None"
  by (simp_all add: isBranch_def isRet_def isCall_def has_type_def filler_def new_instruction_def def_opc_def ret_with_def
      demo_ret_def)

lemmas graph_goal = live_defs demo_graph_def demo_fn_def demo_block_def demo_edge_def demo_branch_def mov_rcx_rax_def
  demo_ret_def new_instruction_def node_init_def

lemmas far_goal = live_defs demo_graph_def demo_fn_def demo_block_def demo_edge_def node_init_def

lemma demo_branch_edges: "is_branchEdge (demo_branch opc e) = Some e" "is_returnEdge (demo_branch opc e) = None"
  "is_callEdge (demo_branch opc e) = None" "\<not> isCall (demo_branch (Jcc JZa) e)"
  by (simp_all add: demo_branch_def new_instruction_def isCall_def has_type_def def_opc_def)

lemma join_ok: "icfg_ok join_graph"
proof -
  have "blocks_ok join_graph" "instrs_ok join_graph" "chain_ok join_graph" "calls_ok join_graph" "fresh_ok join_graph"
    by (auto simp: blocks_ok_def instrs_ok_def chain_ok_def calls_ok_def fresh_ok_def join_graph_def graph_goal split: if_splits)
  moreover have "edges_ok join_graph"
    using demo_types by (auto simp: edges_ok_def join_graph_def graph_goal split: if_splits)
  moreover have "returns_ok join_graph"
    using demo_types by (auto simp: returns_ok_def join_graph_def graph_goal split: if_splits)
  ultimately show ?thesis by (simp add: icfg_ok_def)
qed

lemma far_ok: "icfg_ok far_graph"
proof -
  have "blocks_ok far_graph" "instrs_ok far_graph" "chain_ok far_graph" "calls_ok far_graph" "fresh_ok far_graph"
    by (auto simp: blocks_ok_def instrs_ok_def chain_ok_def calls_ok_def fresh_ok_def far_graph_def filler_def ret_with_def graph_goal
        split: if_splits)
  moreover have "edges_ok far_graph"
    using demo_types filler_types demo_branch_edges by (auto simp: edges_ok_def far_graph_def far_goal split: if_splits)
  moreover have "returns_ok far_graph"
    using demo_types filler_types demo_branch_edges by (auto simp: returns_ok_def far_graph_def far_goal split: if_splits)
  ultimately show ?thesis by (simp add: icfg_ok_def)
qed

section \<open>Their code\<close>

lemma demo_code:
  "short_branches demo_graph = Some {12, 14, 15}"
  "code_layout {12, 14, 15} demo_graph [1, 2, 3] = Some ([Some 0x10000, Some 0x10010, Some 0x10020], 0x10025)"
  by code_simp+

lemma join_code:
  "short_branches join_graph = Some {11, 12}"
  "code_layout {11, 12} join_graph [1, 2, 3, 4] = Some ([Some 0x10000, Some 0x10010, Some 0x10030, Some 0x10020], 0x10033)"
  by code_simp+

lemma far_code:
  "short_branches far_graph = Some {11, 12}"
  "code_layout {11, 12} far_graph [1, 2, 3] = None"
  "code_layout {11} far_graph [1, 2, 3] = Some ([Some 0x10000, Some 0x10020, Some 0x10090], 0x10091)"
  by code_simp+

lemma demo_generates: "\<exists>st' g'. cg_generate demo_genv (second_run {12, 14, 15}, demo_graph) = Some (st', g')"
  using demo_code(2) by (auto simp: code_layout_def)

end
