(* ===== verification/Mem_Operands.thy ===== *)
theory Mem_Operands
  imports Icfg_Ops Binary_Pool Encoder
begin

text \<open>
  The optimization of memory operands (\<open>src/passes/MemoryOperandOptimizationPass.hpp\<close>): an
  operand that reads constant memory is copied to the constant pool, and base and index are
  taken into the displacement where they are known.
\<close>

section \<open>One operand\<close>

text \<open>
  An address or a displacement out of a tracked value; the offset is only used with the number
  of a pointer.
\<close>

definition direct_addr :: "dyn_value \<Rightarrow> u64 \<Rightarrow> immediate64" where
  "direct_addr v ptrVal =
     (if isImm v then \<lparr>i64_val = ptrVal, i64_usrPtrNr = -1, i64_usrPtrOffset = 0\<rparr>
      else \<lparr>i64_val = ptrVal, i64_usrPtrNr = sint (getNr v), i64_usrPtrOffset = getPtrOffset v\<rparr>)"

definition merged_disp :: "dyn_value \<Rightarrow> u64 \<Rightarrow> signed_immediate32" where
  "merged_disp v ptrVal =
     (if isImm v then \<lparr>s32_val = ucast ptrVal, s32_usrPtrNr = -1, s32_usrPtrOffset = 0\<rparr>
      else \<lparr>s32_val = ucast ptrVal, s32_usrPtrNr = sint (getNr v), s32_usrPtrOffset = getPtrOffset v\<rparr>)"

definition plain_addr :: "u64 \<Rightarrow> static_operand" where
  "plain_addr a = SopMem (MpDirect \<lparr>i64_val = a, i64_usrPtrNr = -1, i64_usrPtrOffset = 0\<rparr>)"

text \<open>The address when it is known and fits a displacement of 32 bits.\<close>

definition known_disp32 :: "rw_env \<Rightarrow> dyn_value \<Rightarrow> u64 option option" where
  "known_disp32 env v = map_option (\<lambda>k. case k of Some p \<Rightarrow> if isDisp32 p then Some p else None | None \<Rightarrow> None) (ptrToInt env v)"

text \<open>What is read from memory that does not change can be put into the pool.\<close>

definition into_pool :: "mmap_fn \<Rightarrow> rw_env \<Rightarrow> dyn_operand \<Rightarrow> mem_access \<Rightarrow> pool \<Rightarrow> (static_operand option \<times> pool) option" where
  "into_pool os env d ma p =
     (let sz = mem_bytes (ma_size ma) in
      if do_isInput d \<and> \<not> do_isOutput d \<and> sz \<noteq> 0 then
        do { k \<leftarrow> ptrToInt env (ma_ptrVal ma);
             case k of
               None \<Rightarrow> Some (None, p)
             | Some a \<Rightarrow>
                 if isAddrContained p a then Some (None, p)
                 else
                   do { c \<leftarrow> isConstant (env_prot env) a (of_nat sz);
                        if c then
                          do { (x, p) \<leftarrow> allocBytes os (map (\<lambda>i. env_host env (a + of_nat i)) [0..<sz]) p;
                               Some (Some (plain_addr x), p) }
                        else Some (None, p) } }
      else Some (None, p))"

text \<open>The parts of the operand itself, which may already hold a pointer.\<close>

definition drop_base :: "rw_env \<Rightarrow> mem_ptr \<Rightarrow> static_mem_ptr \<Rightarrow> static_operand option option" where
  "drop_base env dyn ptr =
     (case (dyn, ptr) of
        (DmSIB bv iv dv s, MpSIB b i d sc) \<Rightarrow>
          if b \<noteq> NoReg then
            do { let tmp = addDynamicValues bv dv;
                 k \<leftarrow> known_disp32 env tmp;
                 Some (map_option (\<lambda>v. SopMem (MpSIB NoReg i (merged_disp tmp v) sc)) k) }
          else Some None
      | _ \<Rightarrow> throw)"

definition drop_index :: "rw_env \<Rightarrow> mem_ptr \<Rightarrow> static_mem_ptr \<Rightarrow> static_operand option option" where
  "drop_index env dyn ptr =
     (case (dyn, ptr) of
        (DmSIB bv iv dv s, MpSIB b i d sc) \<Rightarrow>
          if i \<noteq> NoReg then
            do { let tmp = addDynamicValues (multiplyDynamicValue iv s) dv;
                 k \<leftarrow> known_disp32 env tmp;
                 Some (map_option (\<lambda>v. SopMem (MpSIB b NoReg (merged_disp tmp v) 0)) k) }
          else Some None
      | _ \<Rightarrow> throw)"

definition simpler_address :: "rw_env \<Rightarrow> static_operand list \<Rightarrow> dyn_operand \<Rightarrow> mem_access \<Rightarrow> static_operand option option" where
  "simpler_address env ops d ma =
     (if ma_mode ma = AmNone then Some (Some (plain_addr 0))
      else
        do { k \<leftarrow> known_disp32 env (ma_ptrVal ma);
             case k of
               Some v \<Rightarrow> Some (Some (SopMem (MpDirect (direct_addr (ma_ptrVal ma) v))))
             | None \<Rightarrow>
                 do { op \<leftarrow> raw_op ops (do_nr d);
                      case op of
                        SopMem ptr \<Rightarrow>
                          do { r \<leftarrow> drop_base env (ma_ptr ma) ptr;
                               if r \<noteq> None then Some r else drop_index env (ma_ptr ma) ptr }
                      | _ \<Rightarrow> throw } })"

definition new_mem_operand :: "mmap_fn \<Rightarrow> rw_env \<Rightarrow> static_operand list \<Rightarrow> dyn_operand \<Rightarrow> mem_access \<Rightarrow> pool \<Rightarrow>
    (static_operand option \<times> pool) option" where
  "new_mem_operand os env ops d ma p =
     do { (r, p) \<leftarrow> into_pool os env d ma p;
          if r \<noteq> None then Some (r, p)
          else
            case ma_ptr ma of
              DmSIB _ _ _ _ \<Rightarrow> do { r \<leftarrow> simpler_address env ops d ma; Some (r, p) }
            | _ \<Rightarrow> Some (None, p) }"

section \<open>The pass\<close>

text \<open>The first explicit memory operand for which there is a better one.\<close>

primrec mo_operands :: "mmap_fn \<Rightarrow> rw_env \<Rightarrow> static_operand list \<Rightarrow> dyn_operand list \<Rightarrow> pool \<Rightarrow>
    ((nat \<times> static_operand) option \<times> pool) option" where
  "mo_operands os env ops [] p = Some (None, p)"
| "mo_operands os env ops (d # ds) p =
     (if do_isImpl d then Some (None, p)
      else
        case do_loc d of
          DlMem ma \<Rightarrow>
            do { (r, p) \<leftarrow> new_mem_operand os env ops d ma p;
                 case r of
                   Some op \<Rightarrow> Some (Some (do_nr d, op), p)
                 | None \<Rightarrow> mo_operands os env ops ds p }
        | _ \<Rightarrow> mo_operands os env ops ds p)"

definition mo_instruction :: "mmap_fn \<Rightarrow> rw_env \<Rightarrow> nat \<Rightarrow> nat \<Rightarrow> pool \<times> icfg \<Rightarrow> (pool \<times> icfg) option" where
  "mo_instruction os env b a = (\<lambda>(p, g).
     do { i \<leftarrow> ic_is g a;
          case is_dynInfo i of
            None \<Rightarrow> Some (p, g)
          | Some di \<Rightarrow>
              do { (r, p) \<leftarrow> mo_operands os env (in_operands (is_ins i)) (di_operands di) p;
                   case r of
                     None \<Rightarrow> Some (p, g)
                   | Some (nr, op) \<Rightarrow>
                       do { i \<leftarrow> setOperand nr op i;
                            g \<leftarrow> upd_is a (\<lambda>_. i) g;
                            g \<leftarrow> invalidate_sb AnStack b g;
                            g \<leftarrow> invalidate_sb AnLiveness b g;
                            Some (p, g) } } })"

text \<open>\<open>for_each_instruction_any\<close> of a block, a function and the graph.\<close>

definition block_instructions :: "(nat \<Rightarrow> nat \<Rightarrow> 'x \<times> icfg \<Rightarrow> ('x \<times> icfg) option) \<Rightarrow> nat \<Rightarrow> 'x \<times> icfg \<Rightarrow> ('x \<times> icfg) option" where
  "block_instructions cb b s = do { sb \<leftarrow> ic_sb (snd s) b; for_each (sb_instrs sb) (cb b) s }"

definition function_instructions :: "(nat \<Rightarrow> nat \<Rightarrow> 'x \<times> icfg \<Rightarrow> ('x \<times> icfg) option) \<Rightarrow> nat \<Rightarrow> 'x \<times> icfg \<Rightarrow> ('x \<times> icfg) option" where
  "function_instructions cb f s = do { fn \<leftarrow> ic_fn (snd s) f; for_each (fn_blocks fn) (block_instructions cb) s }"

definition for_each_instruction_any :: "(nat \<Rightarrow> nat \<Rightarrow> 'x \<times> icfg \<Rightarrow> ('x \<times> icfg) option) \<Rightarrow> 'x \<times> icfg \<Rightarrow> ('x \<times> icfg) option" where
  "for_each_instruction_any cb s = for_each (ic_functions (snd s)) (function_instructions cb) s"

definition mem_operands_run :: "mmap_fn \<Rightarrow> rw_env \<Rightarrow> pool \<times> icfg \<Rightarrow> (pool \<times> icfg) option" where
  "mem_operands_run os env = for_each_instruction_any (mo_instruction os env)"

end
