(* ===== verification/Mem_Operands_Sound.thy ===== *)
theory Mem_Operands_Sound
  imports Mem_Operands Spec_Forms
begin

text \<open>
  A new memory operand names the same address, or a place in the constant pool with the bytes
  that are read, so the instruction keeps its effect.
\<close>

section \<open>Known addresses\<close>

lemma ptrToInt_word:
  assumes k: "ptrToInt env v = Some (Some a)" and base: "cfg_base env base" and w: "word_conc base v x"
  shows "x = a"
proof (cases "isImm v")
  case True
  then show ?thesis using k w word_conc_imm by (simp add: ptrToInt_def)
next
  case False
  then obtain nr off where v: "v = Ptr UsrPtr nr off"
    using k by (cases v) (auto simp: ptrToInt_def dyn_simps split: if_splits)
  then have "unat nr < length (env_usrPtrs env)" "up_isKnown (env_usrPtrs env ! unat nr)"
    "a = up_val (env_usrPtrs env ! unat nr) + off"
    using k by (auto simp: ptrToInt_def dyn_simps getUsrPtrCfg_def split: if_splits)
  then show ?thesis using base w v by (auto simp: cfg_base_def word_conc_def)
qed

lemma known_disp32_word:
  assumes "known_disp32 env v = Some (Some a)" and "cfg_base env base" and "word_conc base v x"
  shows "x = a" and "isDisp32 a"
  using assms ptrToInt_word by (auto simp: known_disp32_def split: option.splits if_splits)

lemma ptr_of_known:
  assumes "ptrToInt env v = Some (Some a)" and "\<not> isImm v"
  shows "\<exists>nr off. v = Ptr UsrPtr nr off"
  using assms by (cases v) (auto simp: ptrToInt_def dyn_simps split: if_splits)

lemma direct_addr_word:
  assumes k: "ptrToInt env v = Some (Some a)" and base: "cfg_base env base" and w: "word_conc base v x"
  shows "imm_word base (direct_addr v a) = x"
proof (cases "isImm v")
  case True
  then show ?thesis using ptrToInt_word[OF assms] by (simp add: direct_addr_def imm_word_def)
next
  case False
  then obtain nr off where "v = Ptr UsrPtr nr off" using ptr_of_known[OF k] by blast
  then show ?thesis using False w ptrToInt_word[OF assms]
    by (simp add: direct_addr_def imm_word_def dyn_simps word_conc_def)
qed

lemma merged_disp_word:
  assumes k: "ptrToInt env v = Some (Some a)" and d: "isDisp32 a" and base: "cfg_base env base" and w: "word_conc base v x"
  shows "disp_word base (merged_disp v a) = x"
proof (cases "isImm v")
  case True
  then show ?thesis using ptrToInt_word[OF k base w] d by (simp add: merged_disp_def disp_word_def isDisp32_def)
next
  case False
  then obtain nr off where "v = Ptr UsrPtr nr off" using ptr_of_known[OF k] by blast
  then show ?thesis using False w ptrToInt_word[OF k base w] d
    by (simp add: merged_disp_def disp_word_def dyn_simps word_conc_def isDisp32_def)
qed

lemma known_disp32_int: "known_disp32 env v = Some (Some a) \<Longrightarrow> ptrToInt env v = Some (Some a) \<and> isDisp32 a"
  by (auto simp: known_disp32_def split: option.splits if_splits)

section \<open>A simpler address\<close>

lemma access_parts:
  assumes wf: "wf_ps ps" and m: "ps_conc base ps m" and ptr: "ptr_ok (MpSIB b i d sc)"
    and ma: "createMemAccess \<lparr>sma_ptr = MpSIB b i d sc, sma_mode = mode, sma_size = sz\<rparr> ps = Some ma"
  obtains bv iv dv where "ma_ptr ma = DmSIB bv iv dv sc" "word_conc base bv (addr_word m b)" "word_conc base iv (addr_word m i)"
    "word_conc base dv (disp_word base d)" "b = NoReg \<Longrightarrow> bv = Imm64 0" "i = NoReg \<Longrightarrow> iv = Imm64 0"
    "dv = usr_or_imm (s32_usrPtrNr d) (s32_usrPtrOffset d) (scast (s32_val d))"
    "calculateMemPtr (DmSIB bv iv dv sc) = Some (ma_ptrVal ma)"
proof -
  let ?dv = "usr_or_imm (s32_usrPtrNr d) (s32_usrPtrOffset d) (scast (s32_val d))"
  obtain bv iv where r: "addr_register ps b = Some bv" "addr_register ps i = Some iv"
    and c: "calculateMemPtr (DmSIB bv iv ?dv sc) = Some (ma_ptrVal ma)" "ma_ptr ma = DmSIB bv iv ?dv sc"
    using ma by (auto simp: createMemAccess_def Let_def bind_eq_Some_conv)
  have "word_conc base bv (addr_word m b)" "word_conc base iv (addr_word m i)"
    using addr_register_word[OF wf m] r ptr by fastforce+
  moreover have "word_conc base ?dv (disp_word base d)" by (simp add: usr_or_imm_def disp_word_def word_conc_def)
  ultimately show thesis by (rule that[OF c(2)]) (use r c(1) in \<open>auto simp: addr_register_def\<close>)
qed

text \<open>Without an index the sum of base and displacement is the address.\<close>

lemma no_index_known:
  assumes "calculateMemPtr (DmSIB bv (Imm64 0) dv sc) = Some v"
  shows "known_disp32 env v = known_disp32 env (addDynamicValues bv dv)"
proof -
  have "ptrToInt env v = ptrToInt env (addDynamicValues bv dv)"
    using assms
    by (cases bv; cases dv) (auto simp: calculateMemPtr_def addDynamicValues_def multiplyDynamicValue_def dyn_simps add_to_ptr_def
        ptrToInt_def ac_simps cong: if_cong split: if_splits ptr_kind.splits)
  then show ?thesis by (simp add: known_disp32_def)
qed

lemma no_base_known:
  assumes "calculateMemPtr (DmSIB (Imm64 0) iv dv sc) = Some v"
  shows "known_disp32 env v = known_disp32 env (addDynamicValues (multiplyDynamicValue iv sc) dv)"
proof -
  have "ptrToInt env v = ptrToInt env (addDynamicValues (multiplyDynamicValue iv sc) dv)"
    using assms
    by (cases iv; cases dv) (auto simp: calculateMemPtr_def addDynamicValues_def multiplyDynamicValue_def dyn_simps add_to_ptr_def
        ptrToInt_def ac_simps cong: if_cong split: if_splits ptr_kind.splits)
  then show ?thesis by (simp add: known_disp32_def)
qed

text \<open>An address the encoder takes.\<close>

fun addressed :: "static_mem_ptr \<Rightarrow> bool" where
  "addressed MpNone = False"
| "addressed (MpDirect _) = True"
| "addressed (MpSIB b i _ _) = (b \<noteq> NoReg \<or> i \<noteq> NoReg)"

lemma simpler_address_sound:
  assumes wf: "wf_ps ps" and m: "ps_conc base ps m" and base: "cfg_base env base" and ptr: "ptr_ok ptr"
    and op: "raw_op ops (do_nr d) = Some (SopMem ptr)" and mode: "mode \<noteq> AmNone"
    and ma: "createMemAccess \<lparr>sma_ptr = ptr, sma_mode = mode, sma_size = sz\<rparr> ps = Some ma"
    and sib: "ma_ptr ma = DmSIB x1 x2 x3 x4" and r: "simpler_address env ops d ma = Some (Some op')"
  shows "\<exists>q. op' = SopMem q \<and> ptr_ok q \<and> addressed q \<and> address_of base m q = address_of base m ptr"
proof -
  obtain b i di sc where p: "ptr = MpSIB b i di sc"
    using ma sib ptr by (cases ptr) (auto simp: createMemAccess_def)
  have mm: "ma_mode ma = mode" using ma by (auto simp: createMemAccess_def Let_def bind_eq_Some_conv split: static_mem_ptr.splits)
  obtain bv iv dv where A: "ma_ptr ma = DmSIB bv iv dv sc" "word_conc base bv (addr_word m b)" "word_conc base iv (addr_word m i)"
    "word_conc base dv (disp_word base di)" "b = NoReg \<Longrightarrow> bv = Imm64 0" "i = NoReg \<Longrightarrow> iv = Imm64 0"
    "calculateMemPtr (DmSIB bv iv dv sc) = Some (ma_ptrVal ma)"
    using access_parts[OF wf m ptr[unfolded p] ma[unfolded p]] by metis
  have w: "word_conc base (ma_ptrVal ma) (address_of base m ptr)"
    using createMemAccess_sound[OF wf m, where raw = "\<lparr>sma_ptr = ptr, sma_mode = mode, sma_size = sz\<rparr>"] ptr ma by auto
  have regs: "addr_reg_ok b" "addr_reg_ok i" using ptr p by simp_all
  have none: "addr_reg_ok NoReg" "addr_word m NoReg = 0" by (simp_all add: addr_reg_ok_def addr_word_def)
  note merged = merged_disp_word[OF _ _ base]
  obtain k where k: "known_disp32 env (ma_ptrVal ma) = Some k" using r mm mode by (auto simp: simpler_address_def bind_eq_Some_conv)
  show ?thesis
  proof (cases k)
    case (Some v)
    then have "op' = SopMem (MpDirect (direct_addr (ma_ptrVal ma) v))" using r k mm mode by (simp add: simpler_address_def)
    moreover have "imm_word base (direct_addr (ma_ptrVal ma) v) = address_of base m ptr"
      using direct_addr_word[OF _ base w] known_disp32_int k Some by blast
    ultimately show ?thesis by simp
  next
    case None
    obtain r1 where r1: "drop_base env (DmSIB bv iv dv sc) (MpSIB b i di sc) = Some r1"
      and r2: "if r1 \<noteq> None then r1 = Some op' else drop_index env (DmSIB bv iv dv sc) (MpSIB b i di sc) = Some (Some op')"
      using r k None mm mode op A(1) p by (auto simp: simpler_address_def bind_eq_Some_conv split: if_splits)
    show ?thesis
    proof (cases r1)
      case (Some x)
      then obtain v where b: "b \<noteq> NoReg" and v: "known_disp32 env (addDynamicValues bv dv) = Some (Some v)"
        and op': "op' = SopMem (MpSIB NoReg i (merged_disp (addDynamicValues bv dv) v) sc)"
        using r1 r2 by (auto simp: drop_base_def Let_def bind_eq_Some_conv split: if_splits)
      have "i \<noteq> NoReg" using no_index_known[of bv dv sc "ma_ptrVal ma" env] A(6,7) v k None by auto
      moreover have "disp_word base (merged_disp (addDynamicValues bv dv) v) = addr_word m b + disp_word base di"
        by (rule merged[OF conjunct1[OF known_disp32_int[OF v]] conjunct2[OF known_disp32_int[OF v]] add_sound[OF A(2,4)]])
      ultimately show ?thesis unfolding op' p
        by (intro exI[of _ "MpSIB NoReg i (merged_disp (addDynamicValues bv dv) v) sc"])
          (simp add: none regs add.commute add.left_commute)
    next
      case None': None
      then obtain v where i: "i \<noteq> NoReg" and v: "known_disp32 env (addDynamicValues (multiplyDynamicValue iv sc) dv) = Some (Some v)"
        and op': "op' = SopMem (MpSIB b NoReg (merged_disp (addDynamicValues (multiplyDynamicValue iv sc) dv) v) 0)"
        using r2 by (auto simp: drop_index_def Let_def bind_eq_Some_conv split: if_splits)
      have "b \<noteq> NoReg" using no_base_known[of iv dv sc "ma_ptrVal ma" env] A(5,7) v k None by auto
      moreover have "disp_word base (merged_disp (addDynamicValues (multiplyDynamicValue iv sc) dv) v) =
          ucast sc * addr_word m i + disp_word base di"
        by (rule merged[OF conjunct1[OF known_disp32_int[OF v]] conjunct2[OF known_disp32_int[OF v]]
            add_sound[OF multiply_sound[OF A(3)] A(4)]])
      ultimately show ?thesis unfolding op' p
        by (intro exI[of _ "MpSIB b NoReg (merged_disp (addDynamicValues (multiplyDynamicValue iv sc) dv) v) 0"])
          (simp add: none regs add.assoc)
    qed
  qed
qed

section \<open>The pool\<close>

lemma power_size: "is_power_of_2 (of_nat (mem_bytes sz)) \<Longrightarrow> const_size (mem_bytes sz)"
  by (cases sz) (simp_all add: is_power_of_2_def const_size_def)

lemma into_pool_sound:
  assumes os: "os_ok os" and ok: "pool_ok p" and base: "cfg_base env base" and w: "word_conc base (ma_ptrVal ma) x"
    and r: "into_pool os env d ma p = Some (r, p')"
  shows "pool_ok p'" and "const_at p a bs \<Longrightarrow> const_at p' a bs"
    and "r = Some op \<Longrightarrow> \<exists>a. op = plain_addr a \<and> const_at p' a (host_bytes (env_host env) x (mem_bytes (ma_size ma))) \<and>
      do_isInput d \<and> \<not> do_isOutput d \<and> mem_bytes (ma_size ma) \<noteq> 0 \<and>
      isConstant (env_prot env) x (of_nat (mem_bytes (ma_size ma))) = Some True"
proof -
  let ?n = "mem_bytes (ma_size ma)"
  consider (no) "r = None" "p' = p"
    | (yes) y a where "ptrToInt env (ma_ptrVal ma) = Some (Some y)" "r = Some (plain_addr a)"
        "allocBytes os (host_bytes (env_host env) y ?n) p = Some (a, p')" "do_isInput d" "\<not> do_isOutput d" "?n \<noteq> 0"
        "isConstant (env_prot env) y (of_nat ?n) = Some True"
    using r by (auto simp: into_pool_def Let_def host_bytes_def bind_eq_Some_conv split: if_splits option.splits)
  then have "pool_ok p' \<and> (const_at p a bs \<longrightarrow> const_at p' a bs) \<and> (r = Some op \<longrightarrow>
    (\<exists>a. op = plain_addr a \<and> const_at p' a (host_bytes (env_host env) x ?n) \<and> do_isInput d \<and> \<not> do_isOutput d \<and>
      ?n \<noteq> 0 \<and> isConstant (env_prot env) x (of_nat ?n) = Some True))"
  proof cases
    case no
    then show ?thesis using ok by simp
  next
    case (yes y c)
    have y: "x = y" by (rule ptrToInt_word[OF yes(1) base w])
    have n: "const_size (length (host_bytes (env_host env) y ?n))"
      using yes(3) power_size[of "ma_size ma"] by (auto simp: allocBytes_def Let_def drob_assert_def split: if_splits)
    note P = allocBytes_ok[OF os ok n yes(3)]
    show ?thesis using P yes y by auto
  qed
  then show "pool_ok p'" "const_at p a bs \<Longrightarrow> const_at p' a bs"
    "r = Some op \<Longrightarrow> \<exists>a. op = plain_addr a \<and> const_at p' a (host_bytes (env_host env) x (mem_bytes (ma_size ma))) \<and>
      do_isInput d \<and> \<not> do_isOutput d \<and> mem_bytes (ma_size ma) \<noteq> 0 \<and>
      isConstant (env_prot env) x (of_nat (mem_bytes (ma_size ma))) = Some True"
    by blast+
qed

section \<open>The operand and its instruction\<close>

text \<open>The same address, or a constant with the bytes that are read there.\<close>

definition operand_kept :: "rw_env \<Rightarrow> base \<Rightarrow> machine \<Rightarrow> dyn_operand \<Rightarrow> mem_access_size \<Rightarrow> pool \<Rightarrow> static_mem_ptr \<Rightarrow> static_mem_ptr \<Rightarrow> bool" where
  "operand_kept env base m d sz p ptr q \<longleftrightarrow>
     address_of base m q = address_of base m ptr \<or>
     do_isInput d \<and> \<not> do_isOutput d \<and> mem_bytes sz \<noteq> 0 \<and>
     isConstant (env_prot env) (address_of base m ptr) (of_nat (mem_bytes sz)) = Some True \<and>
     const_at p (address_of base m q) (host_bytes (env_host env) (address_of base m ptr) (mem_bytes sz))"

lemma new_mem_operand_sound:
  assumes os: "os_ok os" and ok: "pool_ok p" and wf: "wf_ps ps" and m: "ps_conc base ps m" and base: "cfg_base env base"
    and ptr: "ptr_ok ptr" and op: "raw_op ops (do_nr d) = Some (SopMem ptr)" and mode: "mode \<noteq> AmNone"
    and ma: "createMemAccess \<lparr>sma_ptr = ptr, sma_mode = mode, sma_size = sz\<rparr> ps = Some ma"
    and r: "new_mem_operand os env ops d ma p = Some (r, p')"
  shows "pool_ok p'" and "const_at p a bs \<Longrightarrow> const_at p' a bs"
    and "r = Some op' \<Longrightarrow> \<exists>q. op' = SopMem q \<and> ptr_ok q \<and> addressed q \<and> operand_kept env base m d sz p' ptr q"
proof -
  have w: "word_conc base (ma_ptrVal ma) (address_of base m ptr)" and sz: "ma_size ma = sz"
    using createMemAccess_sound[OF wf m, where raw = "\<lparr>sma_ptr = ptr, sma_mode = mode, sma_size = sz\<rparr>"] ptr ma by auto
  obtain r1 where r1: "into_pool os env d ma p = Some (r1, p')"
    and r2: "if r1 \<noteq> None then r = r1 else
      case ma_ptr ma of DmSIB _ _ _ _ \<Rightarrow> simpler_address env ops d ma = Some r | _ \<Rightarrow> r = None"
    using r by (auto simp: new_mem_operand_def bind_eq_Some_conv split: if_splits mem_ptr.splits)
  note P = into_pool_sound[OF os ok base w r1]
  show "pool_ok p'" "const_at p a bs \<Longrightarrow> const_at p' a bs" by (rule P(1), rule P(2))
  assume "r = Some op'"
  show "\<exists>q. op' = SopMem q \<and> ptr_ok q \<and> addressed q \<and> operand_kept env base m d sz p' ptr q"
  proof (cases r1)
    case (Some x)
    then have "r1 = Some op'" using r2 \<open>r = Some op'\<close> by simp
    from P(3)[OF this] sz show ?thesis
      by (auto simp: plain_addr_def operand_kept_def imm_word_def)
  next
    case None
    then obtain b i dv s where "ma_ptr ma = DmSIB b i dv s" "simpler_address env ops d ma = Some (Some op')"
      using r2 \<open>r = Some op'\<close> by (auto split: mem_ptr.splits)
    from simpler_address_sound[OF wf m base ptr op mode ma this] show ?thesis by (auto simp: operand_kept_def)
  qed
qed

text \<open>The machine's memory is the host's where that is constant.\<close>

definition host_constant :: "rw_env \<Rightarrow> hw \<Rightarrow> bool" where
  "host_constant env h \<longleftrightarrow> (\<forall>a n. isConstant (env_prot env) a (of_nat n) = Some True \<longrightarrow> n \<le> 16 \<longrightarrow>
     host_bytes (hw_mem h) a n = host_bytes (env_host env) a n)"

lemma same_operand_bytes:
  assumes s: "operand_kept env base (hw_m h) d sz p ptr q" and ld: "pool_loaded h p" and c: "host_constant env h"
    and in_out: "do_isInput d \<Longrightarrow> mode \<noteq> AmAddress" "do_isOutput d = isWrite mode"
  shows "operand_bytes base h (EoiMem mode sz) (SopMem q) = operand_bytes base h (EoiMem mode sz) (SopMem ptr)"
    and "operand_target base h (EoiMem mode sz) (SopMem q) = operand_target base h (EoiMem mode sz) (SopMem ptr)"
    and "mem_bytes sz = 16 \<Longrightarrow> unat (address_of base (hw_m h) ptr) mod 16 = 0 \<Longrightarrow> unat (address_of base (hw_m h) q) mod 16 = 0"
proof -
  have "host_bytes (hw_mem h) (address_of base (hw_m h) q) (mem_bytes sz) =
      host_bytes (hw_mem h) (address_of base (hw_m h) ptr) (mem_bytes sz)"
    using s ld c mem_bytes_le[of sz] unfolding operand_kept_def pool_loaded_def host_constant_def by (metis length_host_bytes)
  then show "operand_bytes base h (EoiMem mode sz) (SopMem q) = operand_bytes base h (EoiMem mode sz) (SopMem ptr)"
    using s in_out(1) by (auto simp: operand_kept_def Let_def)
  show "operand_target base h (EoiMem mode sz) (SopMem q) = operand_target base h (EoiMem mode sz) (SopMem ptr)"
    using s in_out(2) by (auto simp: operand_kept_def)
  show "mem_bytes sz = 16 \<Longrightarrow> unat (address_of base (hw_m h) ptr) mod 16 = 0 \<Longrightarrow> unat (address_of base (hw_m h) q) mod 16 = 0"
    using s by (auto simp: operand_kept_def const_at_def)
qed

text \<open>Every row of an instruction that faults on its alignment reads 16 bytes.\<close>

lemma aligned_rows:
  "needs_alignment opc \<Longrightarrow> \<exists>oc t m r w. arch_get_opcode_info opc = Some oc \<and>
     oc_opInfo oc = [EoiReg t m r w, EoiMem AmRead MB16]"
  by (auto simp: needs_alignment_def def_opc_def)

lemma new_operand_effect:
  assumes row: "arch_get_opcode_info opc = Some oc" "nr < length (oc_opInfo oc)" "oc_opInfo oc ! nr = EoiMem mode sz"
    and op: "nr < length ops" "ops ! nr = SopMem ptr" and e: "effect_of cpu base h opc ops = Some e"
    and s: "operand_kept env base (hw_m h) d sz p ptr q" and ld: "pool_loaded h p" and c: "host_constant env h"
    and in_out: "do_isInput d \<Longrightarrow> mode \<noteq> AmAddress" "do_isOutput d = isWrite mode"
  shows "effect_of cpu base h opc (ops[nr := SopMem q]) = Some e"
proof -
  note B = same_operand_bytes[OF s ld c in_out]
  have bytes: "operand_bytes base h (oc_opInfo oc ! i) (ops[nr := SopMem q] ! i) = operand_bytes base h (oc_opInfo oc ! i) (ops ! i)"
    if "i < length (oc_opInfo oc)" for i
    using B(1) row(3) op by (cases "i = nr") simp_all
  then have b: "in_bytes base h opc (ops[nr := SopMem q]) i = in_bytes base h opc ops i" for i
    using row(1) by (simp add: in_bytes_def)
  have t: "target_of base h opc (ops[nr := SopMem q]) = target_of base h opc ops"
    using B(2) row op by (cases nr) (auto simp: target_of_def split: opcode.splits)
  have "\<not> faults base h opc (ops[nr := SopMem q])"
  proof
    assume f: "faults base h opc (ops[nr := SopMem q])"
    then have al: "needs_alignment opc" by (simp add: faults_def)
    obtain t m r w where oc: "oc_opInfo oc = [EoiReg t m r w, EoiMem AmRead MB16]" using aligned_rows[OF al] row(1) by auto
    then have nr: "nr = 1" "sz = MB16" using row(2,3) by (cases nr; simp)+
    have "unat (address_of base (hw_m h) ptr) mod 16 = 0"
      using effect_ofD(1)[OF e] al op(2) nr(1) by (simp add: faults_def)
    then show False using f B(3) nr op by (simp add: faults_def)
  qed
  then show ?thesis using effect_ofD[OF e] b t e by (simp add: effect_of_def split: if_splits)
qed

end
