(* ===== verification/Mem_Demo.thy ===== *)
theory Mem_Demo
  imports Mem_Operands_Sound Spec_Demo
begin

text \<open>A load whose base register is known, and what becomes of its operand.\<close>

definition ps_rbx :: program_state where
  "ps_rbx = put_reg (LGprs64 (gpr_nr GB)) (replicate 8 (imm_elem 0xff)) ps_init"

definition rbx_mem :: static_mem_ptr where
  "rbx_mem = MpSIB RBX RCX \<lparr>s32_val = -4, s32_usrPtrNr = -1, s32_usrPtrOffset = 0\<rparr> 8"

definition rbx_access :: mem_access where
  "rbx_access = \<lparr>ma_ptrVal = Unknown, ma_ptr = DmSIB (Imm64 (- 1)) Dead (Imm64 (- 4)) 8, ma_mode = AmRead, ma_size = MB8\<rparr>"

definition rbx_operand :: dyn_operand where
  "rbx_operand = \<lparr>do_loc = DlMem rbx_access, do_nr = 1, do_isImpl = False, do_isInput = True, do_isCondInput = False,
     do_isOutput = False, do_isCondOutput = False, do_input = Unknown, do_output = Unknown\<rparr>"

lemma rbx_state: "wf_ps ps_rbx" "ps_conc (\<lambda>_ _. 0) ps_rbx (hw_m ones_hw)"
  by code_simp+

lemma rbx_created: "createMemAccess \<lparr>sma_ptr = rbx_mem, sma_mode = AmRead, sma_size = MB8\<rparr> ps_rbx = Some rbx_access"
  by code_simp

lemma rbx_rewritten:
  "new_mem_operand small_os bare_env [SopReg RAX, SopMem rbx_mem] rbx_operand rbx_access demo_pool =
   Some (Some (SopMem (MpSIB NoReg RCX \<lparr>s32_val = -5, s32_usrPtrNr = -1, s32_usrPtrOffset = 0\<rparr> 8)), demo_pool)"
proof -
  have "ptrToInt bare_env Unknown = Some None" by code_simp
  moreover have "into_pool small_os bare_env rbx_operand rbx_access demo_pool = Some (None, demo_pool)"
    by (simp add: into_pool_def rbx_operand_def rbx_access_def ptrToInt_def dyn_simps)
  moreover have "simpler_address bare_env [SopReg RAX, SopMem rbx_mem] rbx_operand rbx_access =
      Some (Some (SopMem (MpSIB NoReg RCX \<lparr>s32_val = -5, s32_usrPtrNr = -1, s32_usrPtrOffset = 0\<rparr> 8)))"
    by code_simp
  ultimately show ?thesis by (simp add: new_mem_operand_def rbx_access_def)
qed

lemma bare_host: "host_constant bare_env h"
  unfolding host_constant_def
proof (intro allI impI)
  fix a :: u64 and n :: nat assume c: "isConstant (env_prot bare_env) a (of_nat n) = Some True" and n: "n \<le> 16"
  have "findMemoryRange (env_prot bare_env) a = None" by (simp add: bare_env_def findMemoryRange_def)
  then have "of_nat n = (0 :: u64)"
    using c by (auto simp: isConstant_def drob_assert_def constant_loop.simps[of "env_prot bare_env"] split: if_splits)
  then have "n = 0" using n by (simp add: word_unat_eq_iff unat_of_nat)
  then show "host_bytes (hw_mem h) a n = host_bytes (env_host bare_env) a n" by (simp add: host_bytes_def)
qed

lemma rbx_effect: "\<exists>e. effect_of ref_cpu (\<lambda>_ _. 0) ones_hw (Mov MOV64rm) [SopReg RAX, SopMem rbx_mem] = Some e"
proof -
  have "effect_of ref_cpu (\<lambda>_ _. 0) ones_hw (Mov MOV64rm) [SopReg RAX, SopMem rbx_mem] \<noteq> None" by code_simp
  then show ?thesis by blast
qed

end
