(* ===== verification/Upper_Half.thy ===== *)
theory Upper_Half
  imports
    Spec_Demo
begin

text \<open>
  What becomes of the registers when the specialization deletes a 32-bit instruction or replaces
  a scalar operation by a load: the register as a whole after an effect, its upper half
  included.
\<close>

section \<open>Registers after an effect\<close>

text \<open>
  All bytes at a location after an effect. A write of 32 bits to a general purpose register
  clears the rest of it (\<open>FullZeroParent\<close>), a scalar load clears the upper 8 bytes.
\<close>

definition loc_after :: "hw \<Rightarrow> effect \<Rightarrow> reg_loc \<Rightarrow> byte list" where
  "loc_after h e loc =
     (case ef_target e of
        TgReg r acc \<Rightarrow>
          let bs = m_reg (store_place (hw_m h) (PlReg r acc) (ef_value e)) loc in
          if ef_clears e \<and> fst (reg_range r acc) = loc then take 8 bs @ replicate 8 0 else bs
      | _ \<Rightarrow> m_reg (hw_m h) loc)"

lemma range32: "reg_range (Gpr32 g) FullZeroParent = (LGprs64 (gpr_nr g), 0, 8)"
  "reg_range (Gpr32 g) Full = (LGprs64 (gpr_nr g), 0, 4)"
  by (simp_all add: reg_range_def getRegisterData_def def_reg_simple_def)

lemma range_low: "reg_range (XmmReg x) H0 = (LSse128 (xmm_nr x), 0, 8)"
  by (simp add: reg_range_def getRegisterData_def def_reg_xmm_def)

lemma is_gpr32: "reg_has_type r RTGprs32 \<Longrightarrow> \<exists>g. r = Gpr32 g"
  by (cases r) (auto simp: reg_has_type_def def_reg_simple_def def_reg_xmm_def)

lemma is_xmm: "reg_has_type r RTSse128 \<Longrightarrow> \<exists>x. r = XmmReg x"
  by (cases r) (auto simp: reg_has_type_def def_reg_simple_def)

lemma loc_sizes:
  assumes "hw_ok h"
  shows "length (m_reg (hw_m h) (LGprs64 (gpr_nr g))) = 8" "length (m_reg (hw_m h) (LSse128 (xmm_nr x))) = 16"
proof -
  have "loc_ok (LGprs64 (gpr_nr g))" "loc_size (LGprs64 (gpr_nr g)) = 8" by (cases g; simp)+
  then show "length (m_reg (hw_m h) (LGprs64 (gpr_nr g))) = 8" using assms by (simp add: hw_ok_def)
  have "loc_ok (LSse128 (xmm_nr x))" "loc_size (LSse128 (xmm_nr x)) = 16" by (cases x; simp)+
  then show "length (m_reg (hw_m h) (LSse128 (xmm_nr x))) = 16" using assms by (simp add: hw_ok_def)
qed

text \<open>A write to the lower half clears a general purpose register above it, a vector register keeps what is there.\<close>

lemma upper_after:
  assumes "hw_ok h"
  shows "ef_target e = TgReg (Gpr32 g) FullZeroParent \<Longrightarrow> length (ef_value e) = 4 \<Longrightarrow> \<not> ef_clears e \<Longrightarrow>
      drop 4 (loc_after h e (LGprs64 (gpr_nr g))) = replicate 4 0"
    and "ef_target e = TgReg (XmmReg x) H0 \<Longrightarrow> length (ef_value e) = 8 \<Longrightarrow>
      drop 8 (loc_after h e (LSse128 (xmm_nr x))) =
        (if ef_clears e then replicate 8 0 else drop 8 (m_reg (hw_m h) (LSse128 (xmm_nr x))))"
  using loc_sizes[OF assms]
  by (auto simp: loc_after_def range32 range_low own_access_def splice_reg_def splice_def Let_def)

section \<open>Deleted instructions of 32 bits\<close>

definition clears_upper :: "opcode \<Rightarrow> bool" where
  "clears_upper opc \<longleftrightarrow> opc \<in> {Mov MOV32rr, Xor XOR32rr, Xor XOR32rm, Xor XOR32ri}"

lemma upper_cleared:
  assumes "clears_upper opc" and "row_fits opc ops" and "2 \<le> length ops" and "hw_ok h"
    and e: "effect_of cpu base h opc ops = Some e"
  obtains g where "ops ! 0 = SopReg (Gpr32 g)" and "drop 4 (loc_after h e (LGprs64 (gpr_nr g))) = replicate 4 0"
    and "no_effect fl h e \<Longrightarrow> drop 4 (m_reg (hw_m h) (LGprs64 (gpr_nr g))) = replicate 4 0"
proof -
  note E = effect_ofD[OF e]
  obtain g where g: "ops ! 0 = SopReg (Gpr32 g)"
    using assms(1-3) is_gpr32 by (fastforce simp: clears_upper_def row_simps)
  have "length (in_bytes base h opc ops 1) = 4" if "opc = Mov MOV32rr"
    using that assms(2,3) is_gpr32 loc_sizes(1)[OF assms(4)]
    by (fastforce simp: row_simps in_bytes_def count_in_cl_def range32)
  then have v: "ef_target e = TgReg (Gpr32 g) FullZeroParent" "length (ef_value e) = 4" "\<not> ef_clears e"
    using assms(1) E(2-4) g
    by (auto simp: clears_upper_def target_of_def row_simps alu_defs Let_def split: prod.splits
        dest!: arg_cong[of "le_bytes 4 _" _ length])
  note up = upper_after(1)[OF assms(4) v]
  have "loc_after h e (LGprs64 (gpr_nr g)) = m_reg (hw_m h) (LGprs64 (gpr_nr g))" if "no_effect fl h e"
    using that v(1,3) by (simp add: loc_after_def no_effect_def del: store_place.simps)
  then show thesis using that[OF g up] up by metis
qed


section \<open>Scalar operations that become loads\<close>

lemma not_into_load:
  "imm_form opc \<noteq> Some (MovX MOVSDrm, t, n)" "mem_form opc \<noteq> Some (MovX MOVSDrm, n)"
  "result_move opc \<noteq> Some (MovX MOVSDrm, t, n, fl)" "zero_form opc \<noteq> Some (MovX MOVSDrm, n, fl)"
  "add_to_move opc \<noteq> Some (MovX MOVSDrm)" "swap_form opc \<noteq> Some (MovX MOVSDrm, t, n)"
  "push_form opc \<noteq> Some (MovX MOVSDrm, t, n)" "result_load opc = Some (MovX MOVSDrm, n) \<Longrightarrow> opc = MovX MOVSDrm"
  by (cases opc; simp split: if_splits)+

lemma rule_into_load: "spec_rule c opc ops p Change (MovX MOVSDrm) ops' p' \<Longrightarrow> opc = MovX MOVSDrm"
  by (erule spec_ruleE) (auto simp: not_into_load dest: not_into_load(8))

lemma load_instead:
  assumes "arch_get_opcode_info opc = Some oc" and "oc_specialize oc = Some f"
    and r: "run_specialize f c opc ops p = Some (Change, MovX MOVSDrm, ops', p')" and "opc \<noteq> MovX MOVSDrm"
  shows "opc \<in> {Sse ADDSDrm, Sse ADDSDrr, Sse MULSDrm, Sse MULSDrr} \<and> (\<exists>a. ops' = ops[1 := pool_operand a])"
proof -
  have "ok_result c opc ops p (run_specialize f c opc ops p)" by (rule run_specialize_result[OF assms(1,2)])
  moreover have "\<not> spec_rule c opc ops p Change (MovX MOVSDrm) ops' p'" using rule_into_load assms(4) by blast
  ultimately obtain x a where "opc = Sse x" "ops' = ops[1 := pool_operand a]" using r by (auto simp: ok_result_def)
  then show ?thesis
    using assms(1,2) r
    by (cases x) (auto simp: def_opc_def ending_defs specialize_addpd_def specialize_mulpd_def specialize_pxor_def
        split: bind_splits if_splits)
qed

lemma upper_kept:
  assumes "opc \<in> {Sse ADDSDrm, Sse ADDSDrr, Sse MULSDrm, Sse MULSDrr}" and "row_fits opc ops" and "2 \<le> length ops"
    and "hw_ok h" and e: "effect_of cpu base h opc ops = Some e"
  obtains x where "ops ! 0 = SopReg (XmmReg x)"
    and "drop 8 (loc_after h e (LSse128 (xmm_nr x))) = drop 8 (m_reg (hw_m h) (LSse128 (xmm_nr x)))"
proof -
  note E = effect_ofD[OF e]
  obtain x where x: "ops ! 0 = SopReg (XmmReg x)"
    using assms(1-3) is_xmm by (fastforce simp: row_simps)
  have "ef_target e = TgReg (XmmReg x) H0" "length (ef_value e) = 8" "\<not> ef_clears e"
    using assms(1) E(2-4) x
    by (auto simp: target_of_def row_simps alu_defs dest!: arg_cong[of "le_bytes 8 _" _ length])
  then show thesis using that[OF x] upper_after(2)[OF assms(4)] by simp
qed

lemma load_clears_upper:
  assumes "ops ! 0 = SopReg (XmmReg x)" and "hw_ok h"
    and e: "effect_of cpu base h (MovX MOVSDrm) ops = Some e" and "length (in_bytes base h (MovX MOVSDrm) ops 1) = 8"
  shows "drop 8 (loc_after h e (LSse128 (xmm_nr x))) = replicate 8 0"
proof -
  have "ef_target e = TgReg (XmmReg x) H0" "length (ef_value e) = 8" "ef_clears e"
    using effect_ofD(2-4)[OF e] assms(1,4) by (auto simp: target_of_def row_simps alu_defs)
  then show ?thesis using upper_after(2)[OF assms(2)] by simp
qed


section \<open>What is lost\<close>

lemma upper_lost:
  assumes h: "handle_instruction os cfg di live ins p = Some (ins', del, p')" and ok: "instr_ok ins"
    and drops: "drops_upper_half (in_opcode ins) (if del then Delete else Change) (in_opcode ins')"
    and hw: "hw_ok hw" and e: "effect_of cpu base hw (in_opcode ins) (in_operands ins) = Some e"
  shows "if del
    then \<exists>g. in_operands ins ! 0 = SopReg (Gpr32 g) \<and> drop 4 (loc_after hw e (LGprs64 (gpr_nr g))) = replicate 4 0 \<and>
      (drop 4 (m_reg (hw_m hw) (LGprs64 (gpr_nr g))) \<noteq> replicate 4 0 \<longrightarrow> \<not> no_effect False hw e)
    else \<exists>x e'. in_operands ins ! 0 = SopReg (XmmReg x) \<and>
      effect_of cpu base hw (in_opcode ins') (in_operands ins') = Some e' \<and>
      drop 8 (loc_after hw e (LSse128 (xmm_nr x))) = drop 8 (m_reg (hw_m hw) (LSse128 (xmm_nr x))) \<and>
      drop 8 (loc_after hw e' (LSse128 (xmm_nr x))) = replicate 8 0 \<and> \<not> same_effect False e e'"
  using h ok
proof (cases rule: handle_instruction_cases)
  case same
  then show ?thesis using drops by (auto simp: drops_upper_half_def)
next
  case (spec oc f ret opc' ops')
  have row: "arch_get_opcode_info (in_opcode ins) = Some oc" and fit: "operands_fit oc (in_operands ins)"
    and len: "2 \<le> length (in_operands ins)"
    using ok spec(1) by (auto simp: instr_ok_def)
  then have fits: "row_fits (in_opcode ins) (in_operands ins)" by simp
  from spec(4) show ?thesis
  proof (elim disjE conjE)
    assume "ret = Delete" "del" "ins' = ins"
    then have "clears_upper (in_opcode ins)" using drops by (simp add: drops_upper_half_def clears_upper_def)
    from upper_cleared[OF this fits len hw e, of _ False] show ?thesis using \<open>del\<close> by (metis (full_types))
  next
    assume c: "ret = Change" "\<not> del" "in_opcode ins' = opc'"
      "in_operands ins' = set_operands (case arch_get_opcode_info opc' of Some oc \<Rightarrow> length (oc_opInfo oc) | None \<Rightarrow> 0)
           ops' (in_operands ins)"
    then have opc': "opc' = MovX MOVSDrm" "in_opcode ins \<noteq> MovX MOVSDrm" using drops by (auto simp: drops_upper_half_def)
    obtain a where L: "in_opcode ins \<in> {Sse ADDSDrm, Sse ADDSDrr, Sse MULSDrm, Sse MULSDrr}"
      "ops' = (in_operands ins)[1 := pool_operand a]"
      using load_instead[OF row spec(2) _ opc'(2)] spec(3) c(1) opc'(1) by blast
    obtain x where x: "in_operands ins ! 0 = SopReg (XmmReg x)"
      "drop 8 (loc_after hw e (LSse128 (xmm_nr x))) = drop 8 (m_reg (hw_m hw) (LSse128 (xmm_nr x)))"
      by (rule upper_kept[OF L(1) fits len hw e])
    obtain oc' where oc': "arch_get_opcode_info opc' = Some oc'" "operands_fit oc' ops'"
      "length ops' = length (in_operands ins)"
      using handle_instruction_change[OF row fit len spec(2)] spec(3) c(1) by blast
    have same: "effect_of cpu base hw (in_opcode ins') (in_operands ins') = effect_of cpu base hw (MovX MOVSDrm) ops'"
      using c oc'(1) set_operands_effect(1)[OF oc'(3) len oc'(1,2)] opc'(1) by simp
    have b: "length (in_bytes base hw (MovX MOVSDrm) ops' 1) = 8"
      using len by (simp add: L(2) in_bytes_def count_in_cl_def def_opc_def pool_operand_def)
    obtain e' where e': "effect_of cpu base hw (MovX MOVSDrm) ops' = Some e'"
      by (simp add: effect_of_def faults_def needs_alignment_def alu_defs)
    have "ops' ! 0 = SopReg (XmmReg x)" using x(1) len by (simp add: L(2))
    then have "drop 8 (loc_after hw e' (LSse128 (xmm_nr x))) = replicate 8 0"
      by (rule load_clears_upper[OF _ hw e' b])
    moreover have "\<not> same_effect False e e'"
      using effect_ofD(3)[OF e] effect_ofD(3)[OF e'] opc'(2) by (simp add: same_effect_def)
    ultimately show ?thesis using x same e' c(2) by auto
  qed
qed

end
