(* ===== verification/Encode_Memory.thy ===== *)
theory Encode_Memory
  imports Encode_Sound
begin

text \<open>
  The memory operands of the encoder: what \<open>encodeMemory\<close> writes reads back as the operand.
\<close>

section \<open>Displacements\<close>

lemma le_word_le4: "(le_word (le_bytes 4 v) :: u32) = v" for v :: u32
  by (subst le_word_le_bytes) auto

lemma take_le_front: "take n (le_bytes n v @ bs) = le_bytes n v" "drop n (le_bytes n v @ bs) = bs"
  by simp_all

lemma take_disp_32: "take_disp 4 (le_bytes 4 v @ bs) = Some (scast v, bs)" for v :: u32
  by (simp add: le_word_le4)

lemma take_disp_8: "take_disp 1 (ucast v # bs) = Some (scast (ucast v :: byte), bs)" for v :: u32
  by simp

lemma ucast_byte: "(ucast (ucast x :: u32) :: byte) = ucast x" for x :: byte
  by (rule bit_word_eqI) (simp add: bit_simps)

text \<open>What follows the byte, for an encoding of memory: the displacement.\<close>

definition disp_of :: "Disp \<Rightarrow> u64" where
  "disp_of d = (if dp_required d then
     (if dp_isDisp32 d then scast (dp_disp32 d) else scast (ucast (dp_disp32 d) :: byte)) else 0)"

definition disp_mode :: "Disp \<Rightarrow> byte" where
  "disp_mode d = (if dp_required d then if dp_isDisp32 d then 2 else 1 else 0)"

definition disp_part :: "Disp \<Rightarrow> byte list" where
  "disp_part d = (if dp_required d then
     (if dp_isDisp32 d then le_bytes 4 (dp_disp32 d) else [ucast (dp_disp32 d)]) else [])"

lemma take_disp_of: "take_disp (disp_bytes (disp_mode d)) (disp_part d @ bs) = Some (disp_of d, bs)"
  by (simp add: disp_bytes_def disp_mode_def disp_of_def disp_part_def take_disp_32 del: take_disp.simps)
    (simp add: take_disp_8)

lemma take_disp_part_32:
  "dp_required d \<Longrightarrow> dp_isDisp32 d \<Longrightarrow> take_disp 4 (disp_part d @ bs) = Some (scast (dp_disp32 d), bs)"
  by (simp add: disp_part_def take_disp_32 del: take_disp.simps)

lemma rm_bytes_disp:
  "rm_bytes e = modrm_val (en_modrm e) # (if sib_required (en_sib e) then [sib_val (en_sib e)] else []) @ disp_part (en_disp e)"
  by (simp add: rm_bytes_def disp_part_def)

lemma compress_disp_spec:
  assumes "\<not> dp_isDisp32 (en_disp e)" "dp_disp32 (en_disp e) = 0" and e'_def: "e' = compress_disp v e"
  shows "disp_of (en_disp e') = scast v" "mr_mod (en_modrm e') = disp_mode (en_disp e')"
    "dp_required (en_disp e) \<Longrightarrow> disp_mode (en_disp e') \<noteq> 0" "disp_mode (en_disp e') \<noteq> 3"
    "mr_reg (en_modrm e') = mr_reg (en_modrm e)" "mr_rm (en_modrm e') = mr_rm (en_modrm e)"
    "en_sib e' = en_sib e" "en_rex e' = en_rex e" "front_of e' = front_of e" "en_is32bit e' = en_is32bit e"
    "en_oc e' = en_oc e" "en_imm e' = en_imm e" "en_immLen e' = en_immLen e" "en_p66 e' = en_p66 e" "en_pf2 e' = en_pf2 e"
proof -
  have eight: "scast (ucast v :: byte) = v \<Longrightarrow> (scast (ucast v :: byte) :: u64) = scast v"
  proof -
    assume "scast (ucast v :: byte) = v"
    moreover have "(scast (scast (ucast v :: byte) :: u32) :: u64) = scast (ucast v :: byte)" for v :: u32
      by (rule bit_word_eqI) (auto simp: bit_simps min_def)
    ultimately show ?thesis by metis
  qed
  show "disp_of (en_disp e') = scast v"
    using assms(1,2) eight by (simp add: e'_def compress_disp_def Let_def set_disp_def set_modrm_def disp_of_def ucast_byte)
qed (simp_all add: e'_def compress_disp_def Let_def set_disp_def set_modrm_def disp_mode_def front_of_def)


lemma modrm_fields:
  "drop_bit 6 (modrm_val m) = and (mr_mod m) 3" "and (drop_bit 3 (modrm_val m)) 7 = and (mr_reg m) 7"
  "and (modrm_val m) 7 = and (mr_rm m) 7"
  by (simp_all add: modrm_val_def fields_read)

lemma sib_fields:
  "drop_bit 6 (sib_val s) = and (sib_scale s) 3" "and (drop_bit 3 (sib_val s)) 7 = and (sib_index s) 7"
  "and (sib_val s) 7 = and (sib_base s) 7"
  by (simp_all add: sib_val_def fields_read)

lemma reads_register:
  assumes "mr_mod (en_modrm e) = 3" "\<not> sib_required (en_sib e)" "\<not> dp_required (en_disp e)"
  shows "reads e (and (mr_reg (en_modrm e)) 7) (RmReg (wide (rex_b (en_rex e)) (and (mr_rm (en_modrm e)) 7)))"
  using assms by (simp add: reads_def rm_bytes_disp disp_part_def modrm_fields rex_bits)

text \<open>An absolute address, an address relative to the next instruction.\<close>

lemma reads_absolute:
  assumes "mr_mod (en_modrm e) = 0" "mr_rm (en_modrm e) = 4" "sib_required (en_sib e)" "sib_base (en_sib e) = 5"
    "sib_index (en_sib e) = 4" "sib_scale (en_sib e) = 0" "\<not> rex_x (en_rex e)"
    "dp_required (en_disp e)" "dp_isDisp32 (en_disp e)"
  shows "reads e (and (mr_reg (en_modrm e)) 7) (RmMem NoReg NoReg 1 (scast (dp_disp32 (en_disp e))))"
  using assms by (simp add: reads_def rm_bytes_disp modrm_fields sib_fields rex_bits rex_bits(3)[unfolded One_nat_def] take_mem_def
      Let_def wide_def take_disp_part_32 del: take_disp.simps)

lemma reads_relative:
  assumes "mr_mod (en_modrm e) = 0" "mr_rm (en_modrm e) = 5" "\<not> sib_required (en_sib e)"
    "dp_required (en_disp e)" "dp_isDisp32 (en_disp e)"
  shows "reads e (and (mr_reg (en_modrm e)) 7) (RmRip (scast (dp_disp32 (en_disp e))))"
  using assms by (simp add: reads_def rm_bytes_disp modrm_fields take_mem_def Let_def take_disp_part_32 del: take_disp.simps)

lemma reads_base:
  assumes "mr_mod (en_modrm e) = disp_mode (en_disp e)" "\<not> sib_required (en_sib e)"
    "and (mr_rm (en_modrm e)) 7 \<noteq> 4" "and (mr_rm (en_modrm e)) 7 = 5 \<Longrightarrow> disp_mode (en_disp e) \<noteq> 0"
  shows "reads e (and (mr_reg (en_modrm e)) 7)
    (RmMem (addr_reg (en_is32bit e) (wide (rex_b (en_rex e)) (and (mr_rm (en_modrm e)) 7))) NoReg 1 (disp_of (en_disp e)))"
proof -
  have m: "and (disp_mode d) 3 = disp_mode d" "disp_mode d \<noteq> 3" for d by (simp_all add: disp_mode_def)
  show ?thesis
    using assms by (auto simp: reads_def rm_bytes_disp modrm_fields rex_bits rex_bits(3)[unfolded One_nat_def] take_mem_def Let_def take_disp_of m simp del: take_disp.simps)
qed

lemma reads_index:
  assumes "mr_mod (en_modrm e) = 0" "mr_rm (en_modrm e) = 4" "sib_required (en_sib e)" "sib_base (en_sib e) = 5"
    "wide (rex_x (en_rex e)) (and (sib_index (en_sib e)) 7) \<noteq> 4" "dp_required (en_disp e)" "dp_isDisp32 (en_disp e)"
  shows "reads e (and (mr_reg (en_modrm e)) 7)
    (RmMem NoReg (addr_reg (en_is32bit e) (wide (rex_x (en_rex e)) (and (sib_index (en_sib e)) 7)))
      (2 ^ unat (and (sib_scale (en_sib e)) 3)) (scast (dp_disp32 (en_disp e))))"
  using assms by (simp add: reads_def rm_bytes_disp modrm_fields sib_fields rex_bits rex_bits(3)[unfolded One_nat_def] take_mem_def
      Let_def take_disp_part_32 del: take_disp.simps)

lemma reads_base_index:
  assumes "mr_mod (en_modrm e) = disp_mode (en_disp e)" "mr_rm (en_modrm e) = 4" "sib_required (en_sib e)"
    "and (sib_base (en_sib e)) 7 = 5 \<Longrightarrow> disp_mode (en_disp e) \<noteq> 0"
    "wide (rex_x (en_rex e)) (and (sib_index (en_sib e)) 7) \<noteq> 4"
  shows "reads e (and (mr_reg (en_modrm e)) 7)
    (RmMem (addr_reg (en_is32bit e) (wide (rex_b (en_rex e)) (and (sib_base (en_sib e)) 7)))
      (addr_reg (en_is32bit e) (wide (rex_x (en_rex e)) (and (sib_index (en_sib e)) 7)))
      (2 ^ unat (and (sib_scale (en_sib e)) 3)) (disp_of (en_disp e)))"
proof -
  have m: "and (disp_mode d) 3 = disp_mode d" "disp_mode d \<noteq> 3" for d by (simp_all add: disp_mode_def)
  show ?thesis
    using assms by (auto simp: reads_def rm_bytes_disp modrm_fields sib_fields rex_bits rex_bits(3)[unfolded One_nat_def]
        take_mem_def Let_def take_disp_of m simp del: take_disp.simps)
qed


section \<open>Memory operands\<close>

fun addr_ok :: "register \<Rightarrow> bool" where
  "addr_ok (Gpr64 g) = True"
| "addr_ok (Gpr32 g) = (gpr_code g < 8)"
| "addr_ok _ = False"

definition is_32 :: "register \<Rightarrow> bool" where
  "is_32 r \<longleftrightarrow> (case r of Gpr32 _ \<Rightarrow> True | _ \<Rightarrow> False)"

definition is_sp :: "register \<Rightarrow> bool" where
  "is_sp r \<longleftrightarrow> r = Gpr32 GSP \<or> r = Gpr64 GSP"

text \<open>The memory operands the encoder can express; 15 bytes are the longest instruction.\<close>

fun mem_encodable :: "u64 \<Rightarrow> static_mem_ptr \<Rightarrow> bool" where
  "mem_encodable addr (MpDirect a) \<longleftrightarrow>
     isDisp32 (i64_val a) \<or> list_all (\<lambda>n. is_rel32 (i64_val a - (addr + of_nat n))) [0..<16]"
| "mem_encodable addr (MpSIB b i d s) \<longleftrightarrow>
     s \<in> {0, 1, 2, 4, 8} \<and> (b \<noteq> NoReg \<or> i \<noteq> NoReg) \<and>
     (b \<noteq> NoReg \<longrightarrow> addr_ok b \<and> \<not> is_sp b) \<and> (i \<noteq> NoReg \<longrightarrow> addr_ok i \<and> \<not> is_sp i) \<and>
     (i = NoReg \<longrightarrow> b \<noteq> Gpr64 G12) \<and> (b \<noteq> NoReg \<longrightarrow> i \<noteq> NoReg \<longrightarrow> is_32 b = is_32 i)"
| "mem_encodable addr MpNone \<longleftrightarrow> False"

lemma encodeAddrReg_ok:
  assumes "addr_ok r"
  obtains g where "r = (if is_32 r then Gpr32 g else Gpr64 g)" "encodeAddrReg r f = Some (gpr_code g, f \<or> is_32 r)"
    "addr_reg (is_32 r) (wide (and (gpr_code g) 8 \<noteq> 0) (and (gpr_code g) 7)) = r"
  using assms by (cases r) (auto simp: is_32_def addr_reg_def gpr_number)

lemma gpr_low: "and (gpr_code g) 7 = 4 \<longleftrightarrow> g = GSP \<or> g = G12" "and (gpr_code g) 7 = 5 \<longleftrightarrow> g = GBP \<or> g = G13"
  "wide (and (gpr_code g) 8 \<noteq> 0) (and (gpr_code g) 7) = 4 \<longleftrightarrow> g = GSP"
  "and (and (gpr_code g) 7) 7 = and (gpr_code g) 7"
  by (cases g; simp add: wide_def)+

lemma scale_ok:
  assumes "s \<in> {0, 1, 2, 4, 8 :: byte}"
  obtains sc where "encode_scale s = Some sc" "2 ^ unat (and sc 3) = max 1 (unat s)" "and sc 3 = sc"
  using assms by auto

text \<open>What the encoding of the memory operand leaves as it is.\<close>

definition same_rest :: "encoding \<Rightarrow> encoding \<Rightarrow> bool" where
  "same_rest e e' \<longleftrightarrow> en_oc e' = en_oc e \<and> en_imm e' = en_imm e \<and> en_immLen e' = en_immLen e \<and> en_p66 e' = en_p66 e \<and>
     en_pf2 e' = en_pf2 e \<and> rex_w (en_rex e') = rex_w (en_rex e) \<and> rex_r (en_rex e') = rex_r (en_rex e) \<and>
     mr_reg (en_modrm e') = mr_reg (en_modrm e)"

definition fresh :: "encoding \<Rightarrow> bool" where
  "fresh e \<longleftrightarrow> \<not> en_is32bit e \<and> \<not> rex_x (en_rex e) \<and> \<not> rex_b (en_rex e) \<and>
     en_sib e = \<lparr>sib_required = False, sib_base = 0, sib_index = 0, sib_scale = 0\<rparr> \<and>
     en_disp e = \<lparr>dp_required = False, dp_isDisp32 = False, dp_disp32 = 0\<rparr>"

definition enc_length :: "encoding \<Rightarrow> nat" where
  "enc_length e = length (front_bytes e) + length (rm_bytes e) + en_immLen e"

text \<open>The encoding reads back as the memory operand; it needs REX where a register is one of the later eight.\<close>

definition extended :: "register \<Rightarrow> bool" where
  "extended r \<longleftrightarrow> (case encodeReg r of Some n \<Rightarrow> and n 8 \<noteq> 0 | None \<Rightarrow> False)"

fun op_extended :: "static_operand \<Rightarrow> bool" where
  "op_extended (SopReg r) = extended r"
| "op_extended (SopMem (MpSIB b i d s)) = (extended b \<or> extended i)"
| "op_extended _ = False"

definition reads_mem :: "encoding \<Rightarrow> u64 \<Rightarrow> static_mem_ptr \<Rightarrow> bool" where
  "reads_mem e addr m \<longleftrightarrow> (rex_x (en_rex e) \<or> rex_b (en_rex e) \<longleftrightarrow> op_extended (SopMem m)) \<and> (\<exists>x. reads e (and (mr_reg (en_modrm e)) 7) x \<and>
     (\<forall>c. same_operand (SopMem m) (rm_operand c (front_of e) (addr + of_nat (enc_length e)) x)))"

lemma extended_simps [simp]:
  "\<not> extended NoReg" "extended (Gpr32 g) \<longleftrightarrow> and (gpr_code g) 8 \<noteq> 0" "extended (Gpr64 g) \<longleftrightarrow> and (gpr_code g) 8 \<noteq> 0"
  by (simp_all add: extended_def)

lemma encodeMemoryDirect_ok:
  assumes "fresh e" "mem_encodable addr (MpDirect a)" "length (en_oc e) + en_immLen e \<le> 5"
  obtains e' where "encodeMemoryDirect (i64_val a) addr e = Some e'" "same_rest e e'" "reads_mem e' addr (MpDirect a)"
proof (cases "isDisp32 (i64_val a)")
  case True
  define e' where "e' = set_disp (\<lambda>d. d\<lparr>dp_required := True, dp_isDisp32 := True, dp_disp32 := ucast (i64_val a)\<rparr>)
          (set_sib (\<lambda>s. s\<lparr>sib_required := True, sib_base := 5, sib_index := 4\<rparr>)
            (set_modrm (\<lambda>m. m\<lparr>mr_mod := 0, mr_rm := 4\<rparr>) e))"
  have "reads e' (and (mr_reg (en_modrm e')) 7) (RmMem NoReg NoReg 1 (scast (dp_disp32 (en_disp e'))))"
    by (rule reads_absolute) (use assms(1) in \<open>simp_all add: e'_def set_disp_def set_sib_def set_modrm_def fresh_def\<close>)
  moreover have "scast (dp_disp32 (en_disp e')) = i64_val a" "\<not> en_is32bit e'"
    using True assms(1) by (simp_all add: e'_def set_disp_def set_sib_def set_modrm_def isDisp32_def fresh_def)
  moreover have "rex_x (en_rex e') \<or> rex_b (en_rex e') \<longleftrightarrow> op_extended (SopMem (MpDirect a))"
    using assms(1) by (simp add: e'_def set_disp_def set_sib_def set_modrm_def fresh_def)
  ultimately have "reads_mem e' addr (MpDirect a)" by (auto simp: reads_mem_def address_def simp del: op_extended.simps intro!: exI)
  moreover have "encodeMemoryDirect (i64_val a) addr e = Some e'" using True by (simp add: encodeMemoryDirect_def isDisp32_def e'_def)
  moreover have "same_rest e e'" by (simp add: same_rest_def e'_def set_disp_def set_sib_def set_modrm_def)
  ultimately show ?thesis using that by blast
next
  case False
  define n where "n = length (en_oc e) + 5 + en_immLen e + (if en_p66 e then 1 else 0) + (if en_is32bit e then 1 else 0)
               + (if en_pf2 e then 1 else 0) + (if rex_isRequired (en_rex e) then 1 else 0)"
  define rel where "rel = i64_val a - (addr + of_nat n)"
  have "n < 16" using assms(3) by (auto simp: n_def)
  then have rel: "is_rel32 rel" using False assms(2) by (auto simp: list_all_iff rel_def)
  define e' where "e' = set_disp (\<lambda>d. d\<lparr>dp_required := True, dp_isDisp32 := True, dp_disp32 := ucast rel\<rparr>)
                       (set_modrm (\<lambda>m. m\<lparr>mr_mod := 0, mr_rm := 5\<rparr>) e)"
  note S = e'_def set_disp_def set_sib_def set_modrm_def
  have "reads e' (and (mr_reg (en_modrm e')) 7) (RmRip (scast (dp_disp32 (en_disp e'))))"
    by (rule reads_relative) (use assms(1) in \<open>simp_all add: S fresh_def\<close>)
  moreover have "scast (dp_disp32 (en_disp e')) = rel" "\<not> en_is32bit e'"
    using rel assms(1) by (simp_all add: S is_rel32_def fresh_def)
  moreover have "enc_length e' = n"
    using assms(1) by (simp add: enc_length_def front_bytes_def rm_bytes_def n_def S fresh_def)
  moreover have "rex_x (en_rex e') \<or> rex_b (en_rex e') \<longleftrightarrow> op_extended (SopMem (MpDirect a))"
    using assms(1) by (simp add: S fresh_def)
  ultimately have "reads_mem e' addr (MpDirect a)" by (auto simp: reads_mem_def address_def rel_def simp del: op_extended.simps intro!: exI)
  moreover have "encodeMemoryDirect (i64_val a) addr e = Some e'"
    using False rel assms(1) unfolding encodeMemoryDirect_def Let_def n_def[symmetric] rel_def[symmetric]
    by (simp add: isDisp32_def S fresh_def)
  moreover have "same_rest e e'" by (simp add: same_rest_def S)
  ultimately show ?thesis using that by blast
qed


text \<open>The encoding before the displacement and the registers are put in.\<close>

definition indirect_start :: "register \<Rightarrow> byte \<Rightarrow> encoding \<Rightarrow> encoding" where
  "indirect_start b sc e =
     (let e = (if b = Gpr32 GBP then e\<lparr>en_is32bit := True\<rparr> else e);
          e = (if b \<in> {Gpr32 GBP, Gpr64 GBP, Gpr64 G13} then set_disp (\<lambda>d. d\<lparr>dp_required := True\<rparr>) e else e)
      in set_sib (\<lambda>s. s\<lparr>sib_scale := sc\<rparr>) e)"

lemma indirect_started:
  assumes "s \<in> {0, 1, 2, 4, 8}" "b \<noteq> NoReg \<or> i \<noteq> NoReg" "\<not> is_sp b"
  obtains sc where "2 ^ unat (and sc 3) = max 1 (unat s)" "encodeMemoryIndirect b i v s e =
    (if i = NoReg then encode_base_only b v (indirect_start b sc e)
     else if b = NoReg then encode_index_only i v (indirect_start b sc e)
     else encode_base_index b i v (indirect_start b sc e))"
proof -
  obtain sc where sc: "encode_scale s = Some sc" "2 ^ unat (and sc 3) = max 1 (unat s)"
    using scale_ok[OF assms(1)] by metis
  show ?thesis
    by (rule that[OF sc(2)])
      (use assms(2,3) sc(1) in \<open>simp add: encodeMemoryIndirect_def indirect_start_def is_sp_def Let_def drob_assert_def del: encode_scale.simps\<close>)
qed

lemma indirect_start_simps:
  assumes "fresh e"
  fixes b :: register and sc :: byte
  defines "e' \<equiv> indirect_start b sc e"
  shows "same_rest e e'" "en_is32bit e' \<longleftrightarrow> b = Gpr32 GBP" "\<not> dp_isDisp32 (en_disp e')" "dp_disp32 (en_disp e') = 0"
    "dp_required (en_disp e') \<longleftrightarrow> b \<in> {Gpr32 GBP, Gpr64 GBP, Gpr64 G13}" "\<not> sib_required (en_sib e')"
    "sib_scale (en_sib e') = sc" "\<not> rex_x (en_rex e')" "\<not> rex_b (en_rex e')"
  using assms(1) by (simp_all add: e'_def indirect_start_def Let_def set_disp_def set_sib_def same_rest_def fresh_def)

lemma same_rest_trans: "same_rest e1 e2 \<Longrightarrow> same_rest e2 e3 \<Longrightarrow> same_rest e1 e3"
  by (simp add: same_rest_def)

lemma encode_base_only_ok:
  assumes "fresh e" "mem_encodable addr (MpSIB b NoReg d s)"
  obtains e' where "encode_base_only b (s32_val d) (indirect_start b sc e) = Some e'" "same_rest e e'"
    "reads_mem e' addr (MpSIB b NoReg d s)"
proof -
  let ?e1 = "indirect_start b sc e" and ?v = "s32_val d"
  note I = indirect_start_simps[OF assms(1), of b sc]
  define e2 where "e2 = compress_disp ?v ?e1"
  note C = compress_disp_spec[OF I(3,4) e2_def]
  have b: "addr_ok b" "\<not> is_sp b" "b \<noteq> Gpr64 G12" using assms(2) by auto
  obtain g where g: "b = (if is_32 b then Gpr32 g else Gpr64 g)" "encodeAddrReg b (en_is32bit e2) = Some (gpr_code g, en_is32bit e2 \<or> is_32 b)"
    "addr_reg (is_32 b) (wide (and (gpr_code g) 8 \<noteq> 0) (and (gpr_code g) 7)) = b"
    by (rule encodeAddrReg_ok[OF b(1), where f = "en_is32bit e2"]) (rule that)
  have a32: "en_is32bit e2 \<or> is_32 b \<longleftrightarrow> is_32 b" using C(10) I(2) by (auto simp: is_32_def)
  define e' where "e' = set_rex (\<lambda>x. x\<lparr>rex_b := and (gpr_code g) 8 \<noteq> 0\<rparr>)
    (set_modrm (\<lambda>m. m\<lparr>mr_rm := and (gpr_code g) 7\<rparr>) (e2\<lparr>en_is32bit := is_32 b\<rparr>))"
  note S = e'_def set_rex_def set_modrm_def
  have low: "g \<noteq> GSP" "g \<noteq> G12" "g = GBP \<or> g = G13 \<Longrightarrow> b \<in> {Gpr32 GBP, Gpr64 GBP, Gpr64 G13}"
    using b g(1) by (auto simp: is_sp_def split: if_splits)
  have "reads e' (and (mr_reg (en_modrm e')) 7)
    (RmMem (addr_reg (en_is32bit e') (wide (rex_b (en_rex e')) (and (mr_rm (en_modrm e')) 7))) NoReg 1 (disp_of (en_disp e')))"
    by (rule reads_base) (use C I low in \<open>simp_all add: S gpr_low\<close>)
  moreover have "addr_reg (en_is32bit e') (wide (rex_b (en_rex e')) (and (mr_rm (en_modrm e')) 7)) = b"
    using g(3) by (simp add: S gpr_low)
  moreover have "disp_of (en_disp e') = scast ?v" using C(1) by (simp add: S)
  moreover have "rex_x (en_rex e') \<or> rex_b (en_rex e') \<longleftrightarrow> op_extended (SopMem (MpSIB b NoReg d s))"
    using C(8) I(8) by (subst g(1)) (simp add: S)
  ultimately have "reads_mem e' addr (MpSIB b NoReg d s)" using b(1) by (auto simp: reads_mem_def simp del: op_extended.simps intro!: exI)
  moreover have "encode_base_only b ?v ?e1 = Some e'"
    using g(2) a32 by (simp add: encode_base_only_def Let_def S flip: e2_def)
  moreover have "same_rest ?e1 e'" using C by (simp add: same_rest_def S)
  ultimately show ?thesis using that same_rest_trans[OF I(1)] by blast
qed

lemma encode_index_only_ok:
  assumes "fresh e" "mem_encodable addr (MpSIB NoReg i d s)" "2 ^ unat (and sc 3) = max 1 (unat s)"
  obtains e' where "encode_index_only i (s32_val d) (indirect_start NoReg sc e) = Some e'" "same_rest e e'"
    "reads_mem e' addr (MpSIB NoReg i d s)"
proof -
  let ?e1 = "indirect_start NoReg sc e" and ?v = "s32_val d"
  note I = indirect_start_simps[OF assms(1), of NoReg sc]
  have i: "addr_ok i" "\<not> is_sp i" "i \<noteq> NoReg" using assms(2) by auto
  obtain g where g: "i = (if is_32 i then Gpr32 g else Gpr64 g)" "encodeAddrReg i (en_is32bit ?e1) = Some (gpr_code g, en_is32bit ?e1 \<or> is_32 i)"
    "addr_reg (is_32 i) (wide (and (gpr_code g) 8 \<noteq> 0) (and (gpr_code g) 7)) = i"
    by (rule encodeAddrReg_ok[OF i(1), where f = "en_is32bit ?e1"]) (rule that)
  have low: "g \<noteq> GSP" using i g(1) by (auto simp: is_sp_def split: if_splits)
  define e' where "e' = set_disp (\<lambda>d. d\<lparr>dp_required := True, dp_isDisp32 := True, dp_disp32 := ?v\<rparr>)
    (set_rex (\<lambda>x. x\<lparr>rex_x := and (gpr_code g) 8 \<noteq> 0\<rparr>) (set_sib (\<lambda>s. s\<lparr>sib_index := and (gpr_code g) 7\<rparr>)
      (set_sib (\<lambda>s. s\<lparr>sib_required := True, sib_base := 5\<rparr>) (set_modrm (\<lambda>m. m\<lparr>mr_mod := 0, mr_rm := 4\<rparr>) ?e1)
        \<lparr>en_is32bit := is_32 i\<rparr>)))"
  note S = e'_def set_rex_def set_modrm_def set_sib_def set_disp_def
  have "reads e' (and (mr_reg (en_modrm e')) 7)
    (RmMem NoReg (addr_reg (en_is32bit e') (wide (rex_x (en_rex e')) (and (sib_index (en_sib e')) 7)))
      (2 ^ unat (and (sib_scale (en_sib e')) 3)) (scast (dp_disp32 (en_disp e'))))"
    by (rule reads_index) (use I low in \<open>simp_all add: S gpr_low\<close>)
  moreover have "addr_reg (en_is32bit e') (wide (rex_x (en_rex e')) (and (sib_index (en_sib e')) 7)) = i"
    using g(3) by (simp add: S gpr_low)
  moreover have "scast (dp_disp32 (en_disp e')) = (scast ?v :: u64)" "sib_scale (en_sib e') = sc" using I(7) by (simp_all add: S)
  moreover have "rex_x (en_rex e') \<or> rex_b (en_rex e') \<longleftrightarrow> op_extended (SopMem (MpSIB NoReg i d s))"
    using I(9) by (subst g(1)) (simp add: S)
  ultimately have "reads_mem e' addr (MpSIB NoReg i d s)" using i(3) assms(3) by (auto simp: reads_mem_def simp del: op_extended.simps intro!: exI)
  moreover have "encode_index_only i ?v ?e1 = Some e'"
    using g(2) I(2) by (simp add: encode_index_only_def Let_def S)
  moreover have "same_rest ?e1 e'" by (simp add: same_rest_def S)
  ultimately show ?thesis using that same_rest_trans[OF I(1)] by blast
qed

lemma encode_base_index_ok:
  assumes "fresh e" "mem_encodable addr (MpSIB b i d s)" "2 ^ unat (and sc 3) = max 1 (unat s)" "b \<noteq> NoReg" "i \<noteq> NoReg"
  obtains e' where "encode_base_index b i (s32_val d) (indirect_start b sc e) = Some e'" "same_rest e e'"
    "reads_mem e' addr (MpSIB b i d s)"
proof -
  let ?e1 = "indirect_start b sc e" and ?v = "s32_val d"
  note I = indirect_start_simps[OF assms(1), of b sc]
  define e2 where "e2 = compress_disp ?v ?e1"
  note C = compress_disp_spec[OF I(3,4) e2_def]
  have b: "addr_ok b" "\<not> is_sp b" and i: "addr_ok i" "\<not> is_sp i" and same: "is_32 i = is_32 b" using assms(2,4,5) by auto
  obtain g where g: "b = (if is_32 b then Gpr32 g else Gpr64 g)" "encodeAddrReg b (en_is32bit e2) = Some (gpr_code g, en_is32bit e2 \<or> is_32 b)"
    "addr_reg (is_32 b) (wide (and (gpr_code g) 8 \<noteq> 0) (and (gpr_code g) 7)) = b"
    by (rule encodeAddrReg_ok[OF b(1), where f = "en_is32bit e2"]) (rule that)
  obtain h where h: "i = (if is_32 i then Gpr32 h else Gpr64 h)" "encodeAddrReg i False = Some (gpr_code h, False \<or> is_32 i)"
    "addr_reg (is_32 i) (wide (and (gpr_code h) 8 \<noteq> 0) (and (gpr_code h) 7)) = i"
    by (rule encodeAddrReg_ok[OF i(1), where f = False]) (rule that)
  have a32: "en_is32bit e2 \<or> is_32 b \<longleftrightarrow> is_32 b" using C(10) I(2) by (auto simp: is_32_def)
  have low: "g = GBP \<or> g = G13 \<Longrightarrow> b \<in> {Gpr32 GBP, Gpr64 GBP, Gpr64 G13}" "h \<noteq> GSP"
    using b i g(1) h(1) by (auto simp: is_sp_def split: if_splits)
  define e' where "e' = set_rex (\<lambda>x. x\<lparr>rex_x := and (gpr_code h) 8 \<noteq> 0\<rparr>) (set_sib (\<lambda>s. s\<lparr>sib_index := and (gpr_code h) 7\<rparr>)
    (set_rex (\<lambda>x. x\<lparr>rex_b := and (gpr_code g) 8 \<noteq> 0\<rparr>) (set_sib (\<lambda>s. s\<lparr>sib_base := and (gpr_code g) 7\<rparr>)
      (set_sib (\<lambda>s. s\<lparr>sib_required := True\<rparr>) (set_modrm (\<lambda>m. m\<lparr>mr_rm := 4\<rparr>) e2)\<lparr>en_is32bit := is_32 b\<rparr>))))"
  note S = e'_def set_rex_def set_modrm_def set_sib_def
  have "reads e' (and (mr_reg (en_modrm e')) 7)
    (RmMem (addr_reg (en_is32bit e') (wide (rex_b (en_rex e')) (and (sib_base (en_sib e')) 7)))
      (addr_reg (en_is32bit e') (wide (rex_x (en_rex e')) (and (sib_index (en_sib e')) 7)))
      (2 ^ unat (and (sib_scale (en_sib e')) 3)) (disp_of (en_disp e')))"
    by (rule reads_base_index) (use C I low in \<open>simp_all add: S gpr_low\<close>)
  moreover have "addr_reg (en_is32bit e') (wide (rex_b (en_rex e')) (and (sib_base (en_sib e')) 7)) = b"
    "addr_reg (en_is32bit e') (wide (rex_x (en_rex e')) (and (sib_index (en_sib e')) 7)) = i"
    using g(3) h(3) same by (simp_all add: S gpr_low)
  moreover have "disp_of (en_disp e') = scast ?v" "sib_scale (en_sib e') = sc" using C(1,7) I(7) by (simp_all add: S)
  moreover have "rex_x (en_rex e') \<or> rex_b (en_rex e') \<longleftrightarrow> op_extended (SopMem (MpSIB b i d s))"
    by (subst g(1), subst h(1)) (auto simp: S)
  ultimately have "reads_mem e' addr (MpSIB b i d s)" using assms(3,4,5) by (auto simp: reads_mem_def simp del: op_extended.simps intro!: exI)
  moreover have "encode_base_index b i ?v ?e1 = Some e'"
    using g(2) h(2) a32 same C(10) by (simp add: encode_base_index_def Let_def S drob_assert_def flip: e2_def)
  moreover have "same_rest ?e1 e'" using C by (simp add: same_rest_def S)
  ultimately show ?thesis using that same_rest_trans[OF I(1)] by blast
qed

lemma encodeMemory_ok:
  assumes "fresh e" "mem_encodable addr m" "length (en_oc e) + en_immLen e \<le> 5"
  obtains e' where "encodeMemory m addr e = Some e'" "same_rest e e'" "reads_mem e' addr m"
proof (cases m)
  case (MpDirect a)
  then show ?thesis using encodeMemoryDirect_ok[OF assms(1) _ assms(3)] assms(2) that by (auto simp: encodeMemory_def)
next
  case (MpSIB b i d s)
  have c: "s \<in> {0, 1, 2, 4, 8}" "b \<noteq> NoReg \<or> i \<noteq> NoReg" "\<not> is_sp b" using assms(2) MpSIB by (auto simp: is_sp_def)
  obtain sc where sc: "2 ^ unat (and sc 3) = max 1 (unat s)" "encodeMemoryIndirect b i (s32_val d) s e =
    (if i = NoReg then encode_base_only b (s32_val d) (indirect_start b sc e)
     else if b = NoReg then encode_index_only i (s32_val d) (indirect_start b sc e)
     else encode_base_index b i (s32_val d) (indirect_start b sc e))"
    using indirect_started[OF c] by metis
  have m: "mem_encodable addr (MpSIB b i d s)" using assms(2) MpSIB by simp
  have "\<exists>e'. encodeMemoryIndirect b i (s32_val d) s e = Some e' \<and> same_rest e e' \<and> reads_mem e' addr (MpSIB b i d s)"
  proof (cases "i = NoReg")
    case True
    then show ?thesis using encode_base_only_ok[OF assms(1), of addr b d s sc] m sc(2) by auto
  next
    case False
    then show ?thesis
      using encode_index_only_ok[OF assms(1) _ sc(1), of addr i d] encode_base_index_ok[OF assms(1) m sc(1)] m sc(2)
      by (cases "b = NoReg") auto
  qed
  then show ?thesis using that MpSIB by (auto simp: encodeMemory_def)
qed (use assms(2) in simp)

end
