(* ===== verification/Encode_Formats.thy ===== *)
theory Encode_Formats
  imports Encode_Memory Spec_Forms
begin

text \<open>
  The formats of the encoder: what every writer writes is read back, in the format it stands
  for, as the operands it was given.
\<close>

section \<open>Reading what was written\<close>

text \<open>The prefixes the flags ask for are those of the format.\<close>

definition flags_fit :: "format \<Rightarrow> enc_flags \<Rightarrow> bool" where
  "flags_fit fm flags \<longleftrightarrow> (fm_66 fm = None \<or> fm_66 fm = Some (and flags ENC_FLAG_66 \<noteq> 0)) \<and>
     fm_F2 fm = (and flags ENC_FLAG_F2 \<noteq> 0) \<and> fm_W fm = (and flags ENC_FLAG_REXW \<noteq> 0)"

definition written :: "byte list option \<Rightarrow> format \<Rightarrow> u64 \<Rightarrow> static_operand list \<Rightarrow> bool" where
  "written w fm addr ops \<longleftrightarrow> (\<exists>bs os. w = Some bs \<and> length bs \<le> 15 \<and> read_format fm addr bs = Some os \<and>
     list_all2 same_operand ops os)"

lemma read_modrm_format:
  assumes "plain_oc (en_oc e)" "write_imm e = Some imm" "reads e r x"
    and "has_modrm fm" "\<not> in_opcode_field fm" "fm_oc fm = en_oc e" "fm_ext fm = None \<or> fm_ext fm = Some r"
    and "fm_66 fm = None \<or> fm_66 fm = Some (en_p66 e)" "fm_F2 fm = en_pf2 e" "fm_W fm = rex_w (en_rex e)"
  obtains bs where "write_enc e = Some bs" "length bs = enc_length e"
    "read_format fm addr bs = read_fields (front_of e) (addr + of_nat (enc_length e)) r x (fm_fields fm) imm"
proof -
  have l: "length imm = en_immLen e"
    using assms(2) by (auto simp: write_imm_def drob_assert_def split: if_splits)
  let ?bs = "front_bytes e @ rm_bytes e @ imm"
  have w: "write_enc e = Some ?bs" by (simp add: write_enc_parts assms(2))
  have n: "length ?bs = enc_length e" by (simp add: enc_length_def l)
  have f: "front_fits fm (front_of e)"
    using assms by (auto simp: front_fits_def rex_bits rex_bits(1)[unfolded numeral_3_eq_3])
  have "read_format fm addr ?bs = read_fields (front_of e) (addr + of_nat (length ?bs)) r x (fm_fields fm) imm"
    using assms(3,4,7) f by (simp add: read_format_def take_front_bytes[OF assms(1)] drob_assert_def reads_def)
  then show ?thesis using that[OF w n] unfolding n by blast
qed

lemma enc_length_bound:
  assumes "length (en_oc e) + en_immLen e \<le> 5"
  shows "enc_length e \<le> 15"
  using assms by (simp add: enc_length_def front_bytes_def rm_bytes_def)

section \<open>Registers\<close>

text \<open>The register is what its number means, given whether there is a REX byte.\<close>

definition names_reg :: "reg_class \<Rightarrow> bool \<Rightarrow> register \<Rightarrow> bool" where
  "names_reg c rex r \<longleftrightarrow> (\<exists>n. encodeReg r = Some n \<and> reg_of c rex (wide (and n 8 \<noteq> 0) (and n 7)) = r)"

definition byte_ok :: "bool \<Rightarrow> register \<Rightarrow> bool" where
  "byte_ok rex r \<longleftrightarrow> (case r of Gpr8 g \<Rightarrow> gpr_code g < 4 \<or> 8 \<le> gpr_code g \<or> rex | Gpr8H _ \<Rightarrow> \<not> rex | _ \<Rightarrow> True)"

definition in_class :: "reg_class \<Rightarrow> register \<Rightarrow> bool" where
  "in_class c r \<longleftrightarrow> (case c of
     C8 \<Rightarrow> (case r of Gpr8 _ \<Rightarrow> True | Gpr8H _ \<Rightarrow> True | _ \<Rightarrow> False)
   | C16 \<Rightarrow> (case r of Gpr16 _ \<Rightarrow> True | _ \<Rightarrow> False)
   | C32 \<Rightarrow> (case r of Gpr32 _ \<Rightarrow> True | _ \<Rightarrow> False)
   | C64 \<Rightarrow> (case r of Gpr64 _ \<Rightarrow> True | _ \<Rightarrow> False)
   | CX \<Rightarrow> (case r of XmmReg _ \<Rightarrow> True | _ \<Rightarrow> False))"

lemma low_code: "4 \<le> unat (gpr_code g) \<and> unat (gpr_code g) < 8 \<longleftrightarrow> \<not> (gpr_code g < 4 \<or> 8 \<le> gpr_code g)"
  by (cases g) simp_all

lemma in_class_names: "in_class c r \<Longrightarrow> byte_ok rex r \<Longrightarrow> names_reg c rex r"
  using low_code by (cases r; cases c)
    (auto simp: in_class_def names_reg_def byte_ok_def gpr_number high_number xmm_number simp flip: xmm_code_def)

lemma types_class:
  "reg_has_type r RTGprs8 \<Longrightarrow> in_class C8 r" "reg_has_type r RTGprs16 \<Longrightarrow> in_class C16 r"
  "reg_has_type r RTGprs32 \<Longrightarrow> in_class C32 r" "reg_has_type r RTGprs64 \<Longrightarrow> in_class C64 r"
  "reg_has_type r RTSse128 \<Longrightarrow> in_class CX r"
  by (cases r; simp add: in_class_def reg_has_type_def def_reg_simple_def def_reg_xmm_def)+

section \<open>Immediates\<close>

text \<open>The bytes of the immediate, extended by their sign, give the operand at its width.\<close>

definition imm_ok :: "nat \<Rightarrow> nat \<Rightarrow> u64 \<Rightarrow> bool" where
  "imm_ok k w v \<longleftrightarrow> take_bit w (signed_take_bit (8 * k - 1) v) = take_bit w v"

lemma le_word_take: "(le_word (le_bytes k v) :: u64) = take_bit (8 * k) v" for v :: u64
proof (rule bit_word_eqI)
  fix n assume n: "n < LENGTH(64)"
  have "n div 8 < k \<longleftrightarrow> n < 8 * k" by auto
  then show "bit (le_word (le_bytes k v) :: u64) n = bit (take_bit (8 * k) v) n"
    using n by (auto simp: bit_le_word bit_le_bytes_nth bit_simps)
qed

lemma sign_extended_le_bytes:
  "0 < k \<Longrightarrow> sign_extended (le_bytes k v) = signed_take_bit (8 * k - 1) v" for v :: u64
  by (rule bit_word_eqI) (auto simp: sign_extended_def le_word_take bit_simps)

lemma imm_ok_same: "0 < k \<Longrightarrow> imm_ok k (8 * k) v"
  unfolding imm_ok_def by (rule bit_word_eqI) (auto simp: bit_simps)

lemma simm8_ok: "is_simm8 v \<Longrightarrow> imm_ok 1 w v"
proof -
  assume "is_simm8 v"
  moreover have "scast (ucast v :: byte) = signed_take_bit 7 v" for v :: u64
    by (rule bit_word_eqI) (auto simp: bit_simps min_def)
  ultimately show ?thesis by (simp add: imm_ok_def is_simm8_def)
qed

lemma simm32_ok: "is_simm32 v \<Longrightarrow> imm_ok 4 w v"
proof -
  assume "is_simm32 v"
  moreover have "scast (ucast v :: u32) = signed_take_bit 31 v" for v :: u64
    by (rule bit_word_eqI) (auto simp: bit_simps min_def)
  ultimately show ?thesis by (simp add: imm_ok_def is_simm32_def)
qed

section \<open>Register and memory formats\<close>

text \<open>Whether the instruction gets a REX byte.\<close>

definition rex_of :: "enc_flags \<Rightarrow> static_operand list \<Rightarrow> bool" where
  "rex_of flags ops \<longleftrightarrow> and flags ENC_FLAG_REXW \<noteq> 0 \<or> list_ex op_extended ops"

lemma started:
  fixes r oc imm len flags
  defines "e \<equiv> encode_reg_field r (encoding_new oc imm len flags)"
  shows "fresh e" "mr_reg (en_modrm e) = and r 7" "rex_r (en_rex e) \<longleftrightarrow> and r 8 \<noteq> 0" "en_oc e = oc" "en_imm e = imm"
    "en_immLen e = len" "en_p66 e \<longleftrightarrow> and flags ENC_FLAG_66 \<noteq> 0" "en_pf2 e \<longleftrightarrow> and flags ENC_FLAG_F2 \<noteq> 0"
    "rex_w (en_rex e) \<longleftrightarrow> and flags ENC_FLAG_REXW \<noteq> 0"
  by (simp_all add: e_def encode_reg_field_def encoding_new_def set_modrm_def set_rex_def fresh_def rex_new_def)

lemma low_twice: "and (and r 7) 7 = and r (7 :: byte)"
  by (simp add: and.assoc)

lemma plain_oc_length: "plain_oc oc \<Longrightarrow> length oc \<le> 2"
  by (auto simp: plain_oc_def split: list.splits)

text \<open>The encoding of an operand, memory or register, and what it needs.\<close>

definition rm_encoding :: "static_operand \<Rightarrow> u64 \<Rightarrow> encoding \<Rightarrow> encoding option" where
  "rm_encoding op addr e = (case op of
     SopMem m \<Rightarrow> encodeMemory m addr e
   | SopReg b \<Rightarrow> map_option (\<lambda>b. encode_rm_field b e) (encodeReg b)
   | SopImm _ \<Rightarrow> None)"

definition rm_ok :: "reg_class \<Rightarrow> bool \<Rightarrow> u64 \<Rightarrow> static_operand \<Rightarrow> bool" where
  "rm_ok c rex addr op \<longleftrightarrow> (case op of SopMem m \<Rightarrow> mem_encodable addr m | SopReg b \<Rightarrow> names_reg c rex b | SopImm _ \<Rightarrow> False)"

lemma rm_encoding_ok:
  assumes "fresh e" "length (en_oc e) + en_immLen e \<le> 5" "rm_ok c rex addr op"
    and rex: "rex \<longleftrightarrow> rex_w (en_rex e) \<or> rex_r (en_rex e) \<or> op_extended op"
  obtains e' x where "rm_encoding op addr e = Some e'" "same_rest e e'" "reads e' (and (mr_reg (en_modrm e)) 7) x"
    "same_operand op (rm_operand c (front_of e') (addr + of_nat (enc_length e')) x)" "fr_rex (front_of e') \<noteq> None \<longleftrightarrow> rex"
proof (cases op)
  case (SopMem m)
  then have m: "mem_encodable addr m" using assms(3) by (simp add: rm_ok_def)
  obtain e' where e': "encodeMemory m addr e = Some e'" "same_rest e e'" "reads_mem e' addr m"
    using encodeMemory_ok[OF assms(1) m assms(2)] by metis
  then obtain x where x: "reads e' (and (mr_reg (en_modrm e')) 7) x"
    "same_operand (SopMem m) (rm_operand c (front_of e') (addr + of_nat (enc_length e')) x)"
    by (auto simp: reads_mem_def)
  show ?thesis
    using that[of e' x] e' x SopMem rex by (auto simp: rm_encoding_def same_rest_def rex_required reads_mem_def simp del: same_operand.simps)
next
  case (SopReg b)
  then obtain n where n: "encodeReg b = Some n" "reg_of c rex (wide (and n 8 \<noteq> 0) (and n 7)) = b"
    using assms(3) by (auto simp: rm_ok_def names_reg_def)
  define e' where "e' = encode_rm_field n e"
  have S: "same_rest e e'" by (simp add: e'_def encode_rm_field_def set_modrm_def set_rex_def same_rest_def)
  have "reads e' (and (mr_reg (en_modrm e')) 7) (RmReg (wide (rex_b (en_rex e')) (and (mr_rm (en_modrm e')) 7)))"
    by (rule reads_register) (use assms(1) in \<open>simp_all add: e'_def encode_rm_field_def set_modrm_def set_rex_def fresh_def\<close>)
  moreover have "wide (rex_b (en_rex e')) (and (mr_rm (en_modrm e')) 7) = wide (and n 8 \<noteq> 0) (and n 7)"
    by (simp add: e'_def encode_rm_field_def set_modrm_def set_rex_def low_twice)
  moreover have "fr_rex (front_of e') \<noteq> None \<longleftrightarrow> rex"
    using rex n(1) SopReg assms(1)
    by (auto simp: rex_required e'_def encode_rm_field_def set_modrm_def set_rex_def extended_def fresh_def)
  ultimately show ?thesis
    using that[of e' "RmReg (wide (and n 8 \<noteq> 0) (and n 7))"] n S SopReg
    by (simp add: rm_encoding_def same_rest_def flip: e'_def)
qed (use assms(3) in \<open>simp add: rm_ok_def\<close>)

text \<open>The operand in the byte for register and memory, another register in its middle field.\<close>

lemma reg_rm_written:
  assumes "plain_oc oc" "flags_fit fm flags" "fm_oc fm = oc" "fm_ext fm = None" "\<not> in_opcode_field fm"
    and "names_reg c (rex_of flags [SopReg r, op]) r" "rm_ok c' (rex_of flags [SopReg r, op]) addr op"
    and shape: "fm_fields fm = [FRm c', FReg c] \<and> ops = [op, SopReg r] \<or> fm_fields fm = [FReg c, FRm c'] \<and> ops = [SopReg r, op]"
  shows "written (do { n \<leftarrow> encodeReg r; e \<leftarrow> rm_encoding op addr (encode_reg_field n (encoding_new oc 0 0 flags)); write_enc e }) fm addr ops"
proof -
  obtain n where n: "encodeReg r = Some n" "reg_of c (rex_of flags [SopReg r, op]) (wide (and n 8 \<noteq> 0) (and n 7)) = r"
    using assms(6) by (auto simp: names_reg_def)
  note S = started[of n oc 0 0 flags]
  let ?e = "encode_reg_field n (encoding_new oc 0 0 flags)"
  have rex: "rex_of flags [SopReg r, op] \<longleftrightarrow> rex_w (en_rex ?e) \<or> rex_r (en_rex ?e) \<or> op_extended op"
    using n(1) by (auto simp: rex_of_def S extended_def)
  have len: "length (en_oc ?e) + en_immLen ?e \<le> 5" using plain_oc_length[OF assms(1)] by (simp add: S)
  obtain e' x where e': "rm_encoding op addr ?e = Some e'" "same_rest ?e e'" "reads e' (and n 7) x"
    "same_operand op (rm_operand c' (front_of e') (addr + of_nat (enc_length e')) x)"
    "fr_rex (front_of e') \<noteq> None \<longleftrightarrow> rex_of flags [SopReg r, op]"
    by (rule rm_encoding_ok[OF S(1) len assms(7) rex]) (use that in \<open>simp add: S low_twice\<close>)
  have same: "en_oc e' = oc" "en_immLen e' = 0" "en_p66 e' \<longleftrightarrow> and flags ENC_FLAG_66 \<noteq> 0" "en_pf2 e' \<longleftrightarrow> and flags ENC_FLAG_F2 \<noteq> 0"
    "rex_w (en_rex e') \<longleftrightarrow> and flags ENC_FLAG_REXW \<noteq> 0" "rex_r (en_rex e') \<longleftrightarrow> and n 8 \<noteq> 0"
    using e'(2) by (simp_all add: same_rest_def S)
  have imm: "write_imm e' = Some []" by (simp add: write_imm_def same drob_assert_def)
  have has: "has_modrm fm" using shape by (auto simp: has_modrm_def)
  obtain bs where bs: "write_enc e' = Some bs" "length bs = enc_length e'"
    "read_format fm addr bs = read_fields (front_of e') (addr + of_nat (enc_length e')) (and n 7) x (fm_fields fm) []"
    by (rule read_modrm_format[of e' "[]" "and n 7" x fm addr, OF _ imm e'(3) has assms(5)])
      (use assms(1-4) that in \<open>simp_all add: same flags_fit_def\<close>)
  have reg: "reg_of c (fr_rex (front_of e') \<noteq> None) (wide (rex_bit 2 (front_of e')) (and n 7)) = r"
    using n(2) e'(5) same(6) by (simp add: rex_bits)
  have "length bs \<le> 15" using bs(2) enc_length_bound[of e'] plain_oc_length[OF assms(1)] by (simp add: same)
  then show ?thesis
    using shape n(1) e'(1,4) bs reg by (elim disjE) (simp_all add: written_def Let_def)
qed


text \<open>The operand and an extension of the opcode in the middle field, perhaps an immediate.\<close>

lemma ext_rm_written:
  assumes "plain_oc oc" "length oc = 1" "flags_fit fm flags" "fm_oc fm = oc" "fm_ext fm = Some k" "and k 7 = k" "\<not> in_opcode_field fm"
    and "rm_ok c (rex_of flags [op]) addr op"
    and shape: "fm_fields fm = [FRm c] \<and> ops = [op] \<and> len = 0 \<or>
      fm_fields fm = [FRm c, FImm len w] \<and> ops = [op, SopImm i] \<and> i64_val i = v \<and> len \<in> {1, 2, 4} \<and> imm_ok len w v"
  shows "written (do { e \<leftarrow> rm_encoding op addr (encode_reg_field k (encoding_new oc v len flags)); write_enc e }) fm addr ops"
proof -
  note S = started[of k oc v len flags]
  let ?e = "encode_reg_field k (encoding_new oc v len flags)"
  have k8: "and k 8 = 0"
  proof -
    have "and k 8 = and (and k 7) 8" using assms(6) by simp
    then show ?thesis by (simp add: and.assoc)
  qed
  have rex: "rex_of flags [op] \<longleftrightarrow> rex_w (en_rex ?e) \<or> rex_r (en_rex ?e) \<or> op_extended op"
    by (auto simp: rex_of_def S k8)
  have l4: "len \<le> 4" using shape by auto
  then have len: "length (en_oc ?e) + en_immLen ?e \<le> 5" using assms(2) by (simp add: S)
  obtain e' x where e': "rm_encoding op addr ?e = Some e'" "same_rest ?e e'" "reads e' k x"
    "same_operand op (rm_operand c (front_of e') (addr + of_nat (enc_length e')) x)"
    "fr_rex (front_of e') \<noteq> None \<longleftrightarrow> rex_of flags [op]"
    by (rule rm_encoding_ok[OF S(1) len assms(8) rex]) (use that in \<open>simp add: S assms(6)\<close>)
  have same: "en_oc e' = oc" "en_immLen e' = len" "en_imm e' = v" "en_p66 e' \<longleftrightarrow> and flags ENC_FLAG_66 \<noteq> 0"
    "en_pf2 e' \<longleftrightarrow> and flags ENC_FLAG_F2 \<noteq> 0" "rex_w (en_rex e') \<longleftrightarrow> and flags ENC_FLAG_REXW \<noteq> 0"
    using e'(2) by (simp_all add: same_rest_def S)
  have imm: "write_imm e' = Some (le_bytes len v)"
    using shape by (auto simp: write_imm_def same drob_assert_def le_bytes_def)
  have has: "has_modrm fm" using shape by (auto simp: has_modrm_def)
  obtain bs where bs: "write_enc e' = Some bs" "length bs = enc_length e'"
    "read_format fm addr bs = read_fields (front_of e') (addr + of_nat (enc_length e')) k x (fm_fields fm) (le_bytes len v)"
    by (rule read_modrm_format[of e' "le_bytes len v" k x fm addr, OF _ imm e'(3) has assms(7)])
      (use assms(1-5) that in \<open>simp_all add: same flags_fit_def\<close>)
  have "length bs \<le> 15" using bs(2) enc_length_bound[of e'] l4 assms(2) by (simp add: same)
  moreover have "le_bytes 0 v = []" by (simp add: le_bytes_def)
  ultimately show ?thesis
    using shape e'(1,4) bs
    by (elim disjE conjE) (auto simp add: written_def sign_extended_le_bytes imm_ok_def)
qed

section \<open>Formats without operands in a byte of their own\<close>

definition plain_front :: "enc_flags \<Rightarrow> bool \<Rightarrow> byte \<Rightarrow> front" where
  "plain_front flags b oc = front_of (set_rex (\<lambda>r. r\<lparr>rex_b := b\<rparr>) (encoding_new [oc] 0 0 flags))"

lemma plain_front_simps:
  "fr_66 (plain_front flags b oc) \<longleftrightarrow> and flags ENC_FLAG_66 \<noteq> 0" "\<not> fr_67 (plain_front flags b oc)"
  "fr_F2 (plain_front flags b oc) \<longleftrightarrow> and flags ENC_FLAG_F2 \<noteq> 0" "fr_oc (plain_front flags b oc) = [oc]"
  "fr_rex (plain_front flags b oc) \<noteq> None \<longleftrightarrow> and flags ENC_FLAG_REXW \<noteq> 0 \<or> b"
  "rex_bit 0 (plain_front flags b oc) = b" "rex_bit 3 (plain_front flags b oc) \<longleftrightarrow> and flags ENC_FLAG_REXW \<noteq> 0"
  by (simp_all add: plain_front_def set_rex_def encoding_new_def rex_required rex_bits rex_new_def)

lemma read_plain_format:
  fixes b :: bool and rest :: "byte list"
  assumes "plain_oc [oc]" "flags_fit fm flags" "\<not> has_modrm fm" "fm_ext fm = None"
    and "if in_opcode_field fm then [and oc 0xf8] = fm_oc fm else fm_oc fm = [oc]"
  defines "fr \<equiv> plain_front flags b oc" and "bytes \<equiv> write_prefixes flags b @ oc # rest"
  shows "read_format fm addr bytes = read_fields fr (addr + of_nat (length bytes)) 0 (RmReg 0) (fm_fields fm) rest"
proof -
  let ?e = "set_rex (\<lambda>r. r\<lparr>rex_b := b\<rparr>) (encoding_new [oc] 0 0 flags)"
  have e: "en_oc ?e = [oc]" "front_bytes ?e = write_prefixes flags b @ [oc]"
    by (simp_all add: set_rex_def encoding_new_def front_bytes_def write_prefixes_def Let_def)
  have "take_front bytes = Some (fr, rest)"
    using take_front_bytes[of ?e rest] assms(1) by (simp add: e fr_def bytes_def plain_front_def)
  moreover have "front_fits fm fr" using assms(2,5) by (auto simp: front_fits_def fr_def plain_front_simps flags_fit_def)
  ultimately show ?thesis using assms(3,4) by (simp add: read_format_def drob_assert_def)
qed

lemma write_prefixes_length: "length (write_prefixes flags b) \<le> 3"
  by (simp add: write_prefixes_def Let_def)

lemma opcode_with_register:
  assumes "b \<in> {0x50, 0x58, 0xb8}"
  shows "plain_oc [or b (and n 7)]" "and (or b (and n 7)) 0xf8 = b" "and (or b (and n 7)) 7 = and n (7 :: byte)"
proof -
  have "and n 7 \<le> 7" by (rule word_and_le1)
  then have "and n 7 \<in> {0, 1, 2, 3, 4, 5, 6, 7}" by (simp add: word_le_nat_alt) (simp add: word_unat_eq_iff; linarith)
  then show "plain_oc [or b (and n 7)]" "and (or b (and n 7)) 0xf8 = b" "and (or b (and n 7)) 7 = and n 7"
    using assms by (auto simp: plain_oc_def)
qed

text \<open>A register in the opcode, perhaps an immediate behind it.\<close>

lemma reg_written:
  assumes "b \<in> {0x50, 0x58, 0xb8}" "flags_fit fm flags" "fm_oc fm = [b]" "fm_ext fm = None" "in_class c r" "c \<noteq> C8"
    and shape: "fm_fields fm = [FOc c] \<and> ops = [SopReg r] \<and> rest = [] \<or>
      fm_fields fm = [FOc c, FImm k w] \<and> ops = [SopReg r, SopImm i] \<and> rest = le_bytes k (i64_val i) \<and> 0 < k \<and> k \<le> 8 \<and> imm_ok k w (i64_val i)"
  shows "written (do { n \<leftarrow> encodeReg r; Some (write_prefixes flags (and n 8 \<noteq> 0) @ [or b (and n 7)] @ rest) }) fm addr ops"
proof -
  have "byte_ok rex r" for rex using assms(5,6) by (cases r) (auto simp: byte_ok_def in_class_def split: reg_class.splits)
  then have "names_reg c True r" using in_class_names[OF assms(5)] by blast
  then obtain n where n: "encodeReg r = Some n" "reg_of c True (wide (and n 8 \<noteq> 0) (and n 7)) = r"
    by (auto simp: names_reg_def)
  have any: "reg_of c rex (wide (and n 8 \<noteq> 0) (and n 7)) = r" for rex using n(2) assms(6) by (cases c) auto
  let ?bs = "write_prefixes flags (and n 8 \<noteq> 0) @ or b (and n 7) # rest"
  note O = opcode_with_register[OF assms(1), of n]
  have f: "in_opcode_field fm" "\<not> has_modrm fm" using shape by (auto simp: in_opcode_field_def has_modrm_def)
  have r: "read_format fm addr ?bs = read_fields (plain_front flags (and n 8 \<noteq> 0) (or b (and n 7)))
      (addr + of_nat (length ?bs)) 0 (RmReg 0) (fm_fields fm) rest"
    by (rule read_plain_format) (use O f assms in simp_all)
  have l: "length ?bs \<le> 15" using shape write_prefixes_length[of flags "and n 8 \<noteq> 0"] by auto
  show ?thesis
    using shape n(1) any l r by (elim disjE conjE)
      (auto simp: written_def plain_front_simps plain_front_simps(6)[unfolded numeral_eq_Suc] O sign_extended_le_bytes imm_ok_def Let_def)
qed

text \<open>An immediate or an address, perhaps with the accumulator.\<close>

lemma plain_written:
  assumes "plain_oc [oc]" "flags_fit fm flags" "fm_oc fm = [oc]" "fm_ext fm = None"
    and shape: "fm_fields fm = [] \<and> ops = [] \<and> rest = [] \<or>
      fm_fields fm = [FImm k w] \<and> ops = [SopImm i] \<and> rest = le_bytes k (i64_val i) \<and> 0 < k \<and> k \<le> 8 \<and> imm_ok k w (i64_val i) \<or>
      fm_fields fm = [FAcc c, FImm k w] \<and> ops = [SopReg r, SopImm i] \<and> rest = le_bytes k (i64_val i) \<and> 0 < k \<and> k \<le> 8 \<and>
        imm_ok k w (i64_val i) \<and> (\<forall>rex. reg_of c rex 0 = r) \<or>
      (fm_fields fm = [FAcc c, FMoffs] \<and> ops = [SopReg r, SopMem (MpDirect a)] \<or>
       fm_fields fm = [FMoffs, FAcc c] \<and> ops = [SopMem (MpDirect a), SopReg r]) \<and>
        rest = le_bytes 8 (i64_val a) \<and> (\<forall>rex. reg_of c rex 0 = r)"
  shows "written (Some (write_prefixes flags False @ [oc] @ rest)) fm addr ops"
proof -
  let ?bs = "write_prefixes flags False @ oc # rest"
  have f: "\<not> in_opcode_field fm" "\<not> has_modrm fm" using shape by (auto simp: in_opcode_field_def has_modrm_def)
  have r: "read_format fm addr ?bs = read_fields (plain_front flags False oc) (addr + of_nat (length ?bs)) 0 (RmReg 0) (fm_fields fm) rest"
    by (rule read_plain_format) (use f assms in simp_all)
  have l: "length ?bs \<le> 15" using shape write_prefixes_length[of flags False] by auto
  have "(le_word (le_bytes 8 v) :: u64) = v" for v :: u64 by (simp add: le_word_take take_bit_word_eq_self)
  then show ?thesis
    using shape l r by (elim disjE conjE) (auto simp: written_def sign_extended_le_bytes imm_ok_def Let_def)
qed

end
