(* ===== verification/Encode_Arith.thy ===== *)
theory Encode_Arith
  imports Encode_Formats
begin

text \<open>
  The writers of the formats, and the opcodes for arithmetic, which share one shape.
\<close>

section \<open>Arithmetic\<close>

definition class_flags :: "reg_class \<Rightarrow> enc_flags" where
  "class_flags c = (case c of C16 \<Rightarrow> ENC_FLAG_66 | C64 \<Rightarrow> ENC_FLAG_REXW | _ \<Rightarrow> ENC_FLAG_NONE)"

definition write_long_imm :: "reg_class \<Rightarrow> byte \<Rightarrow> u64 \<Rightarrow> byte list option" where
  "write_long_imm c oc v = (case c of
     C8 \<Rightarrow> write_imm8 oc (ucast v) (class_flags c)
   | C16 \<Rightarrow> write_imm16 oc (ucast v) (class_flags c)
   | _ \<Rightarrow> write_imm32 oc (ucast v) (class_flags c))"

definition imm_size :: "reg_class \<Rightarrow> nat" where
  "imm_size c = (case c of C8 \<Rightarrow> 1 | C16 \<Rightarrow> 2 | _ \<Rightarrow> 4)"

text \<open>The functions for arithmetic have one shape; \<open>acc\<close> is the register they take for the accumulator.\<close>

definition encode_alu :: "byte \<Rightarrow> byte \<Rightarrow> (reg_class \<Rightarrow> register) \<Rightarrow> shape \<times> reg_class \<Rightarrow>
    static_operand list \<Rightarrow> u64 \<Rightarrow> byte list option" where
  "encode_alu b k acc = (\<lambda>(s, c) ops addr. let fl = class_flags c in
     case s of
       Mr \<Rightarrow> write_modrm_m_reg (wide_oc c b) ops fl addr
     | Rr \<Rightarrow> write_modrm_r_reg (wide_oc c b) ops fl
     | Rm \<Rightarrow> write_modrm_reg_m (wide_oc c (b + 2)) ops fl addr
     | Mi \<Rightarrow>
         (if c = C8 then write_modrm_m_imm8 0x80 k ops fl addr
          else do { v \<leftarrow> op_imm ops 1;
                    if is_simm8 v then write_modrm_m_imm8 0x83 k ops fl addr
                    else if c = C16 then write_modrm_m_imm16 0x81 k ops fl addr
                    else write_modrm_m_imm32 0x81 k ops fl addr })
     | Ri \<Rightarrow>
         do { v \<leftarrow> op_imm ops 1;
              r \<leftarrow> op_reg ops 0;
              if c = C8 then (if r = acc c then write_long_imm c (b + 4) v else write_modrm_r_imm8 0x80 k ops fl)
              else if is_simm8 v then write_modrm_r_imm8 0x83 k ops fl
              else if r = acc c then write_long_imm c (b + 5) v
              else if c = C16 then write_modrm_r_imm16 0x81 k ops fl
              else write_modrm_r_imm32 0x81 k ops fl })"

definition acc_of :: "reg_class \<Rightarrow> register" where
  "acc_of c = (case c of C8 \<Rightarrow> Gpr8 GA | C16 \<Rightarrow> Gpr16 GA | C32 \<Rightarrow> Gpr32 GA | C64 \<Rightarrow> Gpr64 GA | CX \<Rightarrow> NoReg)"

lemma encode_add_alu: "encode_add x = encode_alu 0 0 acc_of (add_shape x)"
  by (intro ext, cases x) (simp_all add: encode_alu_def class_flags_def wide_oc_def write_long_imm_def acc_of_def cong: if_cong)

lemma encode_cmp_alu: "encode_cmp x = encode_alu 0x38 7 (\<lambda>c. if c = C16 then Gpr32 GA else acc_of c) (cmp_shape x)"
  by (intro ext, cases x) (simp_all add: encode_alu_def class_flags_def wide_oc_def write_long_imm_def acc_of_def cong: if_cong)

lemma encode_sub_alu: "fst (sub_shape x) \<noteq> Rm \<Longrightarrow> encode_sub x = encode_alu 0x28 5 acc_of (sub_shape x)"
  by (intro ext, cases x) (simp_all add: encode_alu_def class_flags_def wide_oc_def write_long_imm_def acc_of_def cong: if_cong)

lemma encode_xor_alu: "x \<noteq> XOR32mi \<Longrightarrow> encode_xor x = encode_alu 0x30 6 (\<lambda>c. if c = C32 then Gpr64 GA else acc_of c) (xor_shape x)"
  by (intro ext, cases x) (simp_all add: encode_alu_def class_flags_def wide_oc_def write_long_imm_def acc_of_def cong: if_cong)

lemma encode_xor32mi: "op_imm ops 1 = Some v \<Longrightarrow> is_simm8 v \<Longrightarrow>
    encode_xor XOR32mi ops addr = encode_alu 0x30 6 acc (xor_shape XOR32mi) ops addr"
  by (simp add: encode_alu_def class_flags_def)

text \<open>The functions, on operands that are there.\<close>

lemma ops_there [simp]:
  "op_reg (SopReg r # os) 0 = Some r" "op_reg (o1 # SopReg r # os) (Suc 0) = Some r"
  "op_imm (SopImm i # os) 0 = Some (i64_val i)" "op_imm (o1 # SopImm i # os) (Suc 0) = Some (i64_val i)"
  "op_mem (SopMem m # os) 0 = Some m" "op_mem (o1 # SopMem m # os) (Suc 0) = Some m"
  by (simp_all add: op_reg_def op_imm_def op_mem_def raw_op_def)

lemma rm_encoding_simps:
  "encodeMemory m addr e = rm_encoding (SopMem m) addr e"
  "(do { b \<leftarrow> encodeReg r; f (encode_rm_field b e) }) = (do { e \<leftarrow> rm_encoding (SopReg r) addr e; f e })"
  by (simp add: rm_encoding_def, cases "encodeReg r", simp_all add: rm_encoding_def)

lemma reg_rm_writers:
  "write_modrm_m_reg oc (SopMem m # SopReg r # os) fl addr =
     do { n \<leftarrow> encodeReg r; e \<leftarrow> rm_encoding (SopMem m) addr (encode_reg_field n (encoding_new [oc] 0 0 fl)); write_enc e }"
  "write_modrm_m_reg2 o1 o2 (SopMem m # SopReg r # os) fl addr =
     do { n \<leftarrow> encodeReg r; e \<leftarrow> rm_encoding (SopMem m) addr (encode_reg_field n (encoding_new [o1, o2] 0 0 fl)); write_enc e }"
  "write_modrm_reg_m oc (SopReg r # SopMem m # os) fl addr =
     do { n \<leftarrow> encodeReg r; e \<leftarrow> rm_encoding (SopMem m) addr (encode_reg_field n (encoding_new [oc] 0 0 fl)); write_enc e }"
  "write_modrm_reg_m2 o1 o2 (SopReg r # SopMem m # os) fl addr =
     do { n \<leftarrow> encodeReg r; e \<leftarrow> rm_encoding (SopMem m) addr (encode_reg_field n (encoding_new [o1, o2] 0 0 fl)); write_enc e }"
  "write_modrm_r_reg oc (SopReg b # SopReg r # os) fl =
     do { n \<leftarrow> encodeReg r; e \<leftarrow> rm_encoding (SopReg b) addr (encode_reg_field n (encoding_new [oc] 0 0 fl)); write_enc e }"
  "write_modrm_r_reg2 o1 o2 (SopReg b # SopReg r # os) fl =
     do { n \<leftarrow> encodeReg r; e \<leftarrow> rm_encoding (SopReg b) addr (encode_reg_field n (encoding_new [o1, o2] 0 0 fl)); write_enc e }"
  "write_modrm_reg_r oc (SopReg r # SopReg b # os) fl =
     do { n \<leftarrow> encodeReg r; e \<leftarrow> rm_encoding (SopReg b) addr (encode_reg_field n (encoding_new [oc] 0 0 fl)); write_enc e }"
  "write_modrm_reg_r2 o1 o2 (SopReg r # SopReg b # os) fl =
     do { n \<leftarrow> encodeReg r; e \<leftarrow> rm_encoding (SopReg b) addr (encode_reg_field n (encoding_new [o1, o2] 0 0 fl)); write_enc e }"
  by (simp_all add: write_modrm_m_reg_def write_modrm_m_reg2_def write_modrm_reg_m_def write_modrm_reg_m2_def
      write_modrm_r_reg_def write_modrm_r_reg2_def write_modrm_reg_r_def write_modrm_reg_r2_def
      ModRM_reg_mem_def ModRM_reg_reg_def rm_encoding_def Option.bind_assoc split: Option.bind_split option.split)

lemma ext_rm_writers:
  "write_modrm_m oc k (SopMem m # os) fl addr =
     do { e \<leftarrow> rm_encoding (SopMem m) addr (encode_reg_field k (encoding_new [oc] 0 0 fl)); write_enc e }"
  "write_modrm_r oc k (SopReg r # os) fl =
     do { e \<leftarrow> rm_encoding (SopReg r) addr (encode_reg_field k (encoding_new [oc] 0 0 fl)); write_enc e }"
  "write_modrm_m_imm8 oc k (SopMem m # SopImm i # os) fl addr =
     do { e \<leftarrow> rm_encoding (SopMem m) addr (encode_reg_field k (encoding_new [oc] (i64_val i) 1 fl)); write_enc e }"
  "write_modrm_m_imm16 oc k (SopMem m # SopImm i # os) fl addr =
     do { e \<leftarrow> rm_encoding (SopMem m) addr (encode_reg_field k (encoding_new [oc] (i64_val i) 2 fl)); write_enc e }"
  "write_modrm_m_imm32 oc k (SopMem m # SopImm i # os) fl addr =
     do { e \<leftarrow> rm_encoding (SopMem m) addr (encode_reg_field k (encoding_new [oc] (i64_val i) 4 fl)); write_enc e }"
  "write_modrm_r_imm8 oc k (SopReg r # SopImm i # os) fl =
     do { e \<leftarrow> rm_encoding (SopReg r) addr (encode_reg_field k (encoding_new [oc] (i64_val i) 1 fl)); write_enc e }"
  "write_modrm_r_imm16 oc k (SopReg r # SopImm i # os) fl =
     do { e \<leftarrow> rm_encoding (SopReg r) addr (encode_reg_field k (encoding_new [oc] (i64_val i) 2 fl)); write_enc e }"
  "write_modrm_r_imm32 oc k (SopReg r # SopImm i # os) fl =
     do { e \<leftarrow> rm_encoding (SopReg r) addr (encode_reg_field k (encoding_new [oc] (i64_val i) 4 fl)); write_enc e }"
  by (simp_all add: write_modrm_m_def write_modrm_r_def write_modrm_m_imm8_def write_modrm_m_imm16_def write_modrm_m_imm32_def
      write_modrm_r_imm8_def write_modrm_r_imm16_def write_modrm_r_imm32_def ModRM_ext_mem_def ModRM_ext_mem_imm_def
      ModRM_ext_reg_def ModRM_ext_reg_imm_def rm_encoding_def split: Option.bind_split option.split)


section \<open>Arithmetic is written as the manual has it\<close>

text \<open>What the encoder can express of an operand; \<open>rex\<close> tells whether the operands ask for REX.\<close>

definition operand_encodable :: "u64 \<Rightarrow> bool \<Rightarrow> static_operand \<Rightarrow> bool" where
  "operand_encodable addr rex op \<longleftrightarrow> (case op of
     SopMem m \<Rightarrow> mem_encodable addr m | SopReg r \<Rightarrow> byte_ok rex r | SopImm _ \<Rightarrow> True)"

definition operands_encodable :: "u64 \<Rightarrow> static_operand list \<Rightarrow> bool" where
  "operands_encodable addr ops \<longleftrightarrow> list_all (operand_encodable addr (list_ex op_extended ops)) ops"

fun shape_fits :: "shape \<Rightarrow> reg_class \<Rightarrow> static_operand \<Rightarrow> static_operand \<Rightarrow> bool" where
  "shape_fits Mr c o1 o2 \<longleftrightarrow> (\<exists>m r. o1 = SopMem m \<and> o2 = SopReg r \<and> in_class c r)"
| "shape_fits Rr c o1 o2 \<longleftrightarrow> (\<exists>b r. o1 = SopReg b \<and> o2 = SopReg r \<and> in_class c b \<and> in_class c r)"
| "shape_fits Rm c o1 o2 \<longleftrightarrow> (\<exists>m r. o1 = SopReg r \<and> o2 = SopMem m \<and> in_class c r)"
| "shape_fits Mi c o1 o2 \<longleftrightarrow> (\<exists>m i. o1 = SopMem m \<and> o2 = SopImm i)"
| "shape_fits Ri c o1 o2 \<longleftrightarrow> (\<exists>r i. o1 = SopReg r \<and> o2 = SopImm i \<and> in_class c r)"

lemma mk_simps [simp]:
  "fm_oc (mk c oc e fs) = oc" "fm_ext (mk c oc e fs) = e" "fm_fields (mk c oc e fs) = fs"
  "fm_oc (mk64 c oc e fs) = oc" "fm_ext (mk64 c oc e fs) = e" "fm_fields (mk64 c oc e fs) = fs"
  "fm_oc (sse p f2 o2 fs) = [0x0f, o2]" "fm_ext (sse p f2 o2 fs) = None" "fm_fields (sse p f2 o2 fs) = fs"
  by (simp_all add: mk_def mk64_def sse_def)

lemma flags_fit_mk: "flags_fit (mk c oc e fs) (class_flags c)"
  by (cases c) (simp_all add: flags_fit_def mk_def class_flags_def)

lemma class_names:
  assumes "in_class c r" "byte_ok (list_ex op_extended ops) r" "list_ex op_extended ops' = list_ex op_extended ops"
    and "c = C8 \<Longrightarrow> and fl ENC_FLAG_REXW = 0"
  shows "names_reg c (rex_of fl ops') r"
proof (rule in_class_names[OF assms(1)])
  show "byte_ok (rex_of fl ops') r"
  proof (cases "c = C8")
    case True
    then show ?thesis using assms(2-4) by (simp add: rex_of_def)
  next
    case False
    then show ?thesis using assms(1) by (cases r; cases c) (simp_all add: in_class_def byte_ok_def)
  qed
qed

definition class_operand :: "reg_class \<Rightarrow> static_operand \<Rightarrow> bool" where
  "class_operand c op \<longleftrightarrow> (case op of SopReg r \<Rightarrow> in_class c r | SopMem _ \<Rightarrow> True | SopImm _ \<Rightarrow> False)"

lemma class_operand_simps [simp]:
  "class_operand c (SopReg r) = in_class c r" "class_operand c (SopMem m)" "\<not> class_operand c (SopImm i)"
  by (simp_all add: class_operand_def)

lemma class_rm:
  assumes "operand_encodable addr (list_ex op_extended ops) op" "list_ex op_extended ops' = list_ex op_extended ops"
    and "class_operand c op" and "c = C8 \<Longrightarrow> and fl ENC_FLAG_REXW = 0"
  shows "rm_ok c (rex_of fl ops') addr op"
  using assms class_names[OF _ _ assms(2,4)] by (cases op) (auto simp: rm_ok_def operand_encodable_def)

text \<open>One lemma for two operands, one for one operand, one for an immediate, one for the accumulator.\<close>

lemma class_reg_rm:
  assumes "plain_oc oc" "flags_fit fm fl" "c = C8 \<Longrightarrow> and fl ENC_FLAG_REXW = 0" "fm_oc fm = oc" "fm_ext fm = None"
    and "in_class c r" "class_operand c op" "operands_encodable addr ops"
    and "fm_fields fm = [FRm c, FReg c] \<and> ops = [op, SopReg r] \<or> fm_fields fm = [FReg c, FRm c] \<and> ops = [SopReg r, op]"
  shows "written (do { n \<leftarrow> encodeReg r; e \<leftarrow> rm_encoding op addr (encode_reg_field n (encoding_new oc 0 0 fl)); write_enc e }) fm addr ops"
proof -
  have same: "list_ex op_extended [SopReg r, op] = list_ex op_extended ops" using assms(9) by auto
  have "operand_encodable addr (list_ex op_extended ops) op" "operand_encodable addr (list_ex op_extended ops) (SopReg r)"
    using assms(8,9) by (auto simp: operands_encodable_def)
  then have "operand_encodable addr (list_ex op_extended ops) op" "byte_ok (list_ex op_extended ops) r"
    by (simp_all add: operand_encodable_def)
  then have ok: "rm_ok c (rex_of fl [SopReg r, op]) addr op" "names_reg c (rex_of fl [SopReg r, op]) r"
    using class_rm[OF _ same assms(7,3)] class_names[OF assms(6) _ same assms(3)] by blast+
  have "\<not> in_opcode_field fm" using assms(9) by (auto simp: in_opcode_field_def)
  then show ?thesis
    by (intro reg_rm_written[where c = c and c' = c]) (use assms(1,2,4,5,9) ok in auto)
qed

lemma class_one:
  assumes "plain_oc [oc]" "and k 7 = k" "flags_fit fm fl" "c = C8 \<Longrightarrow> and fl ENC_FLAG_REXW = 0" "fm_oc fm = [oc]"
    and "fm_ext fm = Some k" "class_operand c op" "operands_encodable addr [op]" "fm_fields fm = [FRm c]"
  shows "written (do { e \<leftarrow> rm_encoding op addr (encode_reg_field k (encoding_new [oc] 0 0 fl)); write_enc e }) fm addr [op]"
proof -
  have "rm_ok c (rex_of fl [op]) addr op" by (rule class_rm[where ops = "[op]"]) (use assms in \<open>simp_all add: operands_encodable_def\<close>)
  then show ?thesis by (intro ext_rm_written[where c = c]) (use assms in \<open>auto simp: in_opcode_field_def\<close>)
qed

lemma class_ext_rm:
  assumes "plain_oc [oc]" "and k 7 = k" "flags_fit fm fl" "c = C8 \<Longrightarrow> and fl ENC_FLAG_REXW = 0" "fm_oc fm = [oc]"
    and "fm_ext fm = Some k" "class_operand c op" "operands_encodable addr [op, SopImm i]" "fm_fields fm = [FRm c, FImm len w]"
    and "len \<in> {1, 2, 4}" "imm_ok len w (i64_val i)"
  shows "written (do { e \<leftarrow> rm_encoding op addr (encode_reg_field k (encoding_new [oc] (i64_val i) len fl)); write_enc e })
    fm addr [op, SopImm i]"
proof -
  have "rm_ok c (rex_of fl [op]) addr op"
    by (rule class_rm[where ops = "[op, SopImm i]"]) (use assms in \<open>simp_all add: operands_encodable_def\<close>)
  then show ?thesis
    by (intro ext_rm_written[where c = c]) (use assms in \<open>auto simp: in_opcode_field_def\<close>)
qed

lemma le_bytes_cast:
  "le_bytes 1 (ucast v :: byte) = le_bytes 1 v" "le_bytes 2 (ucast v :: u16) = le_bytes 2 v" "le_bytes 4 (ucast v :: u32) = le_bytes 4 v"
  for v :: u64
  using le_bytes_ucast[where 'b = 8 and 'a = 64 and n = 1] le_bytes_ucast[where 'b = 16 and 'a = 64 and n = 2]
    le_bytes_ucast[where 'b = 32 and 'a = 64 and n = 4] by simp_all

lemma imm_field_eq: "imm_field c = FImm (imm_size c) (bits_of_class c)"
  by (simp add: imm_field_def imm_size_def)

lemma long_imm_ok:
  assumes "c = C64 \<Longrightarrow> is_simm32 v" "c \<noteq> CX"
  shows "imm_ok (imm_size c) (bits_of_class c) v"
  using assms imm_ok_same[of 1 v] imm_ok_same[of 2 v] imm_ok_same[of 4 v] simm32_ok[of v]
  by (cases c) (simp_all add: imm_size_def bits_of_class_def)

lemma class_acc:
  assumes "plain_oc [oc]" "in_class c r" "r \<in> {Gpr8 GA, Gpr16 GA, Gpr32 GA, Gpr64 GA}" "c = C64 \<Longrightarrow> is_simm32 (i64_val i)"
  shows "written (write_long_imm c oc (i64_val i)) (mk c [oc] None [FAcc c, imm_field c]) addr [SopReg r, SopImm i]"
proof -
  have c: "c \<noteq> CX" using assms(2,3) by (auto simp: in_class_def)
  have acc: "reg_of c rex 0 = r" for rex using assms(2,3) by (cases c) (auto simp: in_class_def gpr_list_def)
  have "write_long_imm c oc (i64_val i) =
      Some (write_prefixes (class_flags c) False @ [oc] @ le_bytes (imm_size c) (i64_val i))"
    using c by (cases c) (simp_all add: write_long_imm_def write_imm8_def write_imm16_def write_imm32_def imm_size_def
        le_bytes_cast le_bytes_cast(1)[unfolded One_nat_def])
  moreover have "written (Some (write_prefixes (class_flags c) False @ [oc] @ le_bytes (imm_size c) (i64_val i)))
      (mk c [oc] None [FAcc c, imm_field c]) addr [SopReg r, SopImm i]"
    by (rule plain_written[where c = c and k = "imm_size c" and w = "bits_of_class c" and i = i and r = r])
      (use assms(1) c acc long_imm_ok[OF assms(4)] flags_fit_mk in \<open>auto simp: imm_field_eq imm_size_def split: reg_class.splits\<close>)
  ultimately show ?thesis by simp
qed


lemma alu_written:
  assumes b: "b \<in> {0, 0x28, 0x30, 0x38}" and k: "and k 7 = k"
    and acc: "acc c \<in> {Gpr8 GA, Gpr16 GA, Gpr32 GA, Gpr64 GA}"
    and fits: "shape_fits s c o1 o2" and c: "c \<noteq> CX" and ok: "operands_encodable addr [o1, o2]"
    and wide: "\<And>i. o2 = SopImm i \<Longrightarrow> c = C64 \<Longrightarrow> is_simm32 (i64_val i)"
  shows "\<exists>fm \<in> set (alu_forms b k (s, c)). written (encode_alu b k acc (s, c) (o1 # o2 # os) addr) fm addr [o1, o2]"
proof -
  have oc: "plain_oc [wide_oc c b]" "plain_oc [wide_oc c (b + 2)]" "plain_oc [b + 4]" "plain_oc [b + 5]"
    "plain_oc [0x80]" "plain_oc [0x81]" "plain_oc [0x83]"
    using b by (auto simp: plain_oc_def wide_oc_def)
  have fl: "c = C8 \<Longrightarrow> and (class_flags c) ENC_FLAG_REXW = 0" by (simp add: class_flags_def)
  have size: "imm_size c \<in> {1, 2, 4}" by (cases c) (simp_all add: imm_size_def)
  have short: "written (do { e \<leftarrow> rm_encoding op addr (encode_reg_field k (encoding_new [oc] (i64_val i) 1 (class_flags c))); write_enc e })
      (mk c [oc] (Some k) [FRm c, FImm 1 (bits_of_class c)]) addr [op, SopImm i]"
    if "plain_oc [oc]" "operands_encodable addr [op, SopImm i]" "class_operand c op"
      "is_simm8 (i64_val i) \<or> c = C8" for oc op i
    by (rule class_ext_rm[where c = c and len = 1 and w = "bits_of_class c"]) (use that k fl flags_fit_mk simm8_ok[of "i64_val i"] imm_ok_same[of 1 "i64_val i"] in \<open>auto simp: bits_of_class_def\<close>)
  have long: "written (do { e \<leftarrow> rm_encoding op addr (encode_reg_field k (encoding_new [oc] (i64_val i) (imm_size c) (class_flags c))); write_enc e })
      (mk c [oc] (Some k) [FRm c, imm_field c]) addr [op, SopImm i]"
    if "plain_oc [oc]" "operands_encodable addr [op, SopImm i]" "class_operand c op"
      "c = C64 \<Longrightarrow> is_simm32 (i64_val i)" for oc op i
    unfolding imm_field_eq by (rule class_ext_rm[where c = c and len = "imm_size c" and w = "bits_of_class c"]) (use that k size fl flags_fit_mk long_imm_ok[OF that(4) c] in auto)
  show ?thesis
  proof (cases s)
    case Mr
    then obtain m r where o: "o1 = SopMem m" "o2 = SopReg r" "in_class c r" using fits by auto
    have "written (encode_alu b k acc (s, c) (o1 # o2 # os) addr) (mk c [wide_oc c b] None [FRm c, FReg c]) addr [o1, o2]"
      unfolding encode_alu_def Mr o Let_def prod.case shape.case reg_rm_writers
      by (rule class_reg_rm[where c = c]) (use oc o ok fl flags_fit_mk in auto)
    then show ?thesis using Mr by (simp add: alu_forms_def)
  next
    case Rr
    then obtain m r where o: "o1 = SopReg m" "o2 = SopReg r" "in_class c r" "in_class c m" using fits by auto
    have "written (encode_alu b k acc (s, c) (o1 # o2 # os) addr) (mk c [wide_oc c b] None [FRm c, FReg c]) addr [o1, o2]"
      unfolding encode_alu_def Rr o Let_def prod.case shape.case reg_rm_writers(5)[where addr = addr]
      by (rule class_reg_rm[where c = c]) (use oc o ok fl flags_fit_mk in auto)
    then show ?thesis using Rr by (simp add: alu_forms_def)
  next
    case Rm
    then obtain m r where o: "o1 = SopReg r" "o2 = SopMem m" "in_class c r" using fits by auto
    have "written (encode_alu b k acc (s, c) (o1 # o2 # os) addr) (mk c [wide_oc c (b + 2)] None [FReg c, FRm c]) addr [o1, o2]"
      unfolding encode_alu_def Rm o Let_def prod.case shape.case reg_rm_writers
      by (rule class_reg_rm[where c = c]) (use oc o ok fl flags_fit_mk in auto)
    then show ?thesis using Rm by (simp add: alu_forms_def)
  next
    case Mi
    then obtain m i where o: "o1 = SopMem m" "o2 = SopImm i" using fits by auto
    have ok': "operands_encodable addr [SopMem m, SopImm i]" using ok o by simp
    note S = short[where op = "SopMem m" and i = i, OF _ ok'] and L = long[where op = "SopMem m" and i = i, OF _ ok' _ wide[OF o(2)]]
    show ?thesis
      using S[where oc = "0x80"] S[where oc = "0x83"] L[where oc = "0x81"] oc(5-7) c
      by (cases c; cases "is_simm8 (i64_val i)")
        (simp_all add: encode_alu_def alu_forms_def Mi o ext_rm_writers imm_field_eq imm8_field_def imm_size_def bits_of_class_def)
  next
    case Ri
    then obtain r i where o: "o1 = SopReg r" "o2 = SopImm i" "in_class c r" using fits by auto
    have ok': "operands_encodable addr [SopReg r, SopImm i]" using ok o by simp
    have cl: "class_operand c (SopReg r)" using o(3) by simp
    note S = short[where op = "SopReg r" and i = i, OF _ ok' cl] and L = long[where op = "SopReg r" and i = i, OF _ ok' cl wide[OF o(2)]]
    have A: "written (write_long_imm c oc (i64_val i)) (mk c [oc] None [FAcc c, imm_field c]) addr [SopReg r, SopImm i]"
      if "plain_oc [oc]" "r = acc c" for oc
      by (rule class_acc) (use that o acc wide[OF o(2)] in auto)
    show ?thesis
      using S[where oc = "0x80"] S[where oc = "0x83"] L[where oc = "0x81"] oc(3-7) A[where oc = "b + 4"] A[where oc = "b + 5"] c
      by (cases c; cases "r = acc c"; cases "is_simm8 (i64_val i)")
        (simp_all add: encode_alu_def alu_forms_def Ri o ext_rm_writers(6-8)[where addr = addr] imm_field_eq imm8_field_def
          imm_size_def bits_of_class_def wide_oc_def add.commute[of 5 b])
  qed
qed


section \<open>The writers\<close>

definition fm_class :: "format \<Rightarrow> reg_class" where
  "fm_class fm = (case fm_fields fm of FRm c # _ \<Rightarrow> c | FReg c # _ \<Rightarrow> c | FOc c # _ \<Rightarrow> c | FAcc c # _ \<Rightarrow> c | _ \<Rightarrow> C64)"

text \<open>The opcode and the prefixes are those of the format.\<close>

definition good_format :: "byte list \<Rightarrow> byte option \<Rightarrow> enc_flags \<Rightarrow> format \<Rightarrow> bool" where
  "good_format oc e fl fm \<longleftrightarrow> plain_oc oc \<and> flags_fit fm fl \<and> (fm_class fm = C8 \<longrightarrow> and fl ENC_FLAG_REXW = 0) \<and>
     fm_oc fm = oc \<and> fm_ext fm = e \<and> (\<forall>k. e = Some k \<longrightarrow> and k 7 = k)"

abbreviation fields_are :: "format \<Rightarrow> (reg_class \<Rightarrow> field list) \<Rightarrow> bool" where
  "fields_are fm fs \<equiv> fm_fields fm = fs (fm_class fm)"

lemma two_operands_written:
  fixes fl and fm
  defines "G \<equiv> \<lambda>oc. good_format oc None fl fm" and "c \<equiv> fm_class fm"
  shows "G [oc] \<Longrightarrow> fields_are fm (\<lambda>c. [FRm c, FReg c]) \<Longrightarrow> in_class c r \<Longrightarrow> operands_encodable addr [SopMem m, SopReg r] \<Longrightarrow>
      written (write_modrm_m_reg oc (SopMem m # SopReg r # os) fl addr) fm addr [SopMem m, SopReg r]"
    and "G [oc, oc2] \<Longrightarrow> fields_are fm (\<lambda>c. [FRm c, FReg c]) \<Longrightarrow> in_class c r \<Longrightarrow> operands_encodable addr [SopMem m, SopReg r] \<Longrightarrow>
      written (write_modrm_m_reg2 oc oc2 (SopMem m # SopReg r # os) fl addr) fm addr [SopMem m, SopReg r]"
    and "G [oc] \<Longrightarrow> fields_are fm (\<lambda>c. [FReg c, FRm c]) \<Longrightarrow> in_class c r \<Longrightarrow> operands_encodable addr [SopReg r, SopMem m] \<Longrightarrow>
      written (write_modrm_reg_m oc (SopReg r # SopMem m # os) fl addr) fm addr [SopReg r, SopMem m]"
    and "G [oc, oc2] \<Longrightarrow> fields_are fm (\<lambda>c. [FReg c, FRm c]) \<Longrightarrow> in_class c r \<Longrightarrow> operands_encodable addr [SopReg r, SopMem m] \<Longrightarrow>
      written (write_modrm_reg_m2 oc oc2 (SopReg r # SopMem m # os) fl addr) fm addr [SopReg r, SopMem m]"
    and "G [oc] \<Longrightarrow> fields_are fm (\<lambda>c. [FRm c, FReg c]) \<Longrightarrow> in_class c r \<Longrightarrow> in_class c b \<Longrightarrow> operands_encodable addr [SopReg b, SopReg r] \<Longrightarrow>
      written (write_modrm_r_reg oc (SopReg b # SopReg r # os) fl) fm addr [SopReg b, SopReg r]"
    and "G [oc, oc2] \<Longrightarrow> fields_are fm (\<lambda>c. [FReg c, FRm c]) \<Longrightarrow> in_class c r \<Longrightarrow> in_class c b \<Longrightarrow> operands_encodable addr [SopReg r, SopReg b] \<Longrightarrow>
      written (write_modrm_reg_r2 oc oc2 (SopReg r # SopReg b # os) fl) fm addr [SopReg r, SopReg b]"
  unfolding reg_rm_writers(1-4) reg_rm_writers(5-8)[where addr = addr] G_def c_def good_format_def
  by (rule class_reg_rm[where c = "fm_class fm"]; simp)+

lemma one_operand_written:
  fixes fl and fm and k
  defines "G \<equiv> \<lambda>oc. good_format [oc] (Some k) fl fm" and "c \<equiv> fm_class fm"
  shows "G oc \<Longrightarrow> fields_are fm (\<lambda>c. [FRm c]) \<Longrightarrow> operands_encodable addr [SopMem m] \<Longrightarrow>
      written (write_modrm_m oc k (SopMem m # os) fl addr) fm addr [SopMem m]"
    and "G oc \<Longrightarrow> fields_are fm (\<lambda>c. [FRm c]) \<Longrightarrow> in_class c r \<Longrightarrow> operands_encodable addr [SopReg r] \<Longrightarrow>
      written (write_modrm_r oc k (SopReg r # os) fl) fm addr [SopReg r]"
  unfolding ext_rm_writers(1) ext_rm_writers(2)[where addr = addr] G_def c_def good_format_def
  by (rule class_one[where c = "fm_class fm"]; simp)+

lemma immediate_written:
  fixes fl and fm and k
  defines "G \<equiv> \<lambda>oc. good_format [oc] (Some k) fl fm" and "c \<equiv> fm_class fm"
  shows "G oc \<Longrightarrow> fields_are fm (\<lambda>c. [FRm c, FImm 1 w]) \<Longrightarrow> imm_ok 1 w (i64_val i) \<Longrightarrow> operands_encodable addr [SopMem m, SopImm i] \<Longrightarrow>
      written (write_modrm_m_imm8 oc k (SopMem m # SopImm i # os) fl addr) fm addr [SopMem m, SopImm i]"
    and "G oc \<Longrightarrow> fields_are fm (\<lambda>c. [FRm c, FImm 2 w]) \<Longrightarrow> imm_ok 2 w (i64_val i) \<Longrightarrow> operands_encodable addr [SopMem m, SopImm i] \<Longrightarrow>
      written (write_modrm_m_imm16 oc k (SopMem m # SopImm i # os) fl addr) fm addr [SopMem m, SopImm i]"
    and "G oc \<Longrightarrow> fields_are fm (\<lambda>c. [FRm c, FImm 4 w]) \<Longrightarrow> imm_ok 4 w (i64_val i) \<Longrightarrow> operands_encodable addr [SopMem m, SopImm i] \<Longrightarrow>
      written (write_modrm_m_imm32 oc k (SopMem m # SopImm i # os) fl addr) fm addr [SopMem m, SopImm i]"
    and "G oc \<Longrightarrow> fields_are fm (\<lambda>c. [FRm c, FImm 1 w]) \<Longrightarrow> imm_ok 1 w (i64_val i) \<Longrightarrow> in_class c r \<Longrightarrow> operands_encodable addr [SopReg r, SopImm i] \<Longrightarrow>
      written (write_modrm_r_imm8 oc k (SopReg r # SopImm i # os) fl) fm addr [SopReg r, SopImm i]"
    and "G oc \<Longrightarrow> fields_are fm (\<lambda>c. [FRm c, FImm 2 w]) \<Longrightarrow> imm_ok 2 w (i64_val i) \<Longrightarrow> in_class c r \<Longrightarrow> operands_encodable addr [SopReg r, SopImm i] \<Longrightarrow>
      written (write_modrm_r_imm16 oc k (SopReg r # SopImm i # os) fl) fm addr [SopReg r, SopImm i]"
    and "G oc \<Longrightarrow> fields_are fm (\<lambda>c. [FRm c, FImm 4 w]) \<Longrightarrow> imm_ok 4 w (i64_val i) \<Longrightarrow> in_class c r \<Longrightarrow> operands_encodable addr [SopReg r, SopImm i] \<Longrightarrow>
      written (write_modrm_r_imm32 oc k (SopReg r # SopImm i # os) fl) fm addr [SopReg r, SopImm i]"
  unfolding ext_rm_writers(3-5) ext_rm_writers(6-8)[where addr = addr] G_def c_def good_format_def
  by (rule class_ext_rm[where c = "fm_class fm" and w = w]; simp del: One_nat_def)+

text \<open>The other writers, each with its immediate.\<close>

lemma opcode_register_written:
  fixes fl and fm
  defines "G \<equiv> \<lambda>oc :: byte. oc \<in> {0x50, 0x58, 0xb8} \<and> flags_fit fm fl \<and> fm_oc fm = [oc] \<and> fm_ext fm = None \<and> fm_class fm \<noteq> C8" and "c \<equiv> fm_class fm"
  shows "G oc \<Longrightarrow> fields_are fm (\<lambda>c. [FOc c]) \<Longrightarrow> in_class c r \<Longrightarrow> written (write_reg oc (SopReg r # os) fl) fm addr [SopReg r]"
    and "G oc \<Longrightarrow> fields_are fm (\<lambda>c. [FOc c, FImm 4 w]) \<Longrightarrow> in_class c r \<Longrightarrow> imm_ok 4 w (i64_val i) \<Longrightarrow>
      written (write_reg_imm32 oc (SopReg r # SopImm i # os) fl) fm addr [SopReg r, SopImm i]"
    and "G oc \<Longrightarrow> fields_are fm (\<lambda>c. [FOc c, FImm 8 w]) \<Longrightarrow> in_class c r \<Longrightarrow> imm_ok 8 w (i64_val i) \<Longrightarrow>
      written (write_reg_imm64 oc (SopReg r # SopImm i # os) fl) fm addr [SopReg r, SopImm i]"
proof -
  have "written (do { n \<leftarrow> encodeReg r; Some (write_prefixes fl (and n 8 \<noteq> 0) @ [or oc (and n 7)] @ rest) }) fm addr ops"
    if "G oc" "in_class c r" "fm_fields fm = [FOc c] \<and> ops = [SopReg r] \<and> rest = [] \<or>
      fm_fields fm = [FOc c, FImm k w] \<and> ops = [SopReg r, SopImm i] \<and> rest = le_bytes k (i64_val i) \<and> 0 < k \<and> k \<le> 8 \<and> imm_ok k w (i64_val i)"
    for rest ops k w i
    by (rule reg_written[where c = c and r = r and k = k and w = w and i = i]) (use that in \<open>auto simp: G_def c_def\<close>)
  note R = this[of "[SopReg r]" "[]"] this[of "[SopReg r, SopImm i]" "le_bytes 4 (i64_val i)" 4 w i] this[of "[SopReg r, SopImm i]" "le_bytes 8 (i64_val i)" 8 w i]
  show "G oc \<Longrightarrow> fields_are fm (\<lambda>c. [FOc c]) \<Longrightarrow> in_class c r \<Longrightarrow> written (write_reg oc (SopReg r # os) fl) fm addr [SopReg r]"
    using R(1) by (simp add: write_reg_def c_def)
  show "G oc \<Longrightarrow> fields_are fm (\<lambda>c. [FOc c, FImm 4 w]) \<Longrightarrow> in_class c r \<Longrightarrow> imm_ok 4 w (i64_val i) \<Longrightarrow>
      written (write_reg_imm32 oc (SopReg r # SopImm i # os) fl) fm addr [SopReg r, SopImm i]"
    using R(2) by (simp add: write_reg_imm32_def write_reg_def c_def Option.bind_assoc)
  show "G oc \<Longrightarrow> fields_are fm (\<lambda>c. [FOc c, FImm 8 w]) \<Longrightarrow> in_class c r \<Longrightarrow> imm_ok 8 w (i64_val i) \<Longrightarrow>
      written (write_reg_imm64 oc (SopReg r # SopImm i # os) fl) fm addr [SopReg r, SopImm i]"
    using R(3) by (simp add: write_reg_imm64_def write_reg_def c_def Option.bind_assoc)
qed

end
