(* ===== verification/Encode_Table.thy ===== *)
theory Encode_Table
  imports Encode_Arith
begin

text \<open>
  The encoder on every row of the opcode table: what it writes is the instruction with its
  operands, but for the rows and operands it gets wrong, which are named here.
\<close>

section \<open>The other opcodes\<close>

lemma imm_ok_all [simp]: "imm_ok 1 8 v" "imm_ok (Suc 0) 8 v" "imm_ok 2 16 v" "imm_ok 4 32 v" "imm_ok 8 64 v"
  using imm_ok_same[of 1 v] imm_ok_same[of 2 v] imm_ok_same[of 4 v] imm_ok_same[of 8 v] by simp_all

lemma immediate_only_written:
  fixes fl and fm
  defines "G \<equiv> \<lambda>oc. plain_oc [oc] \<and> flags_fit fm fl \<and> fm_oc fm = [oc] \<and> fm_ext fm = None" and "c \<equiv> fm_class fm"
  shows "G oc \<Longrightarrow> fields_are fm (\<lambda>c. [FAcc c, FImm 1 w]) \<Longrightarrow> imm_ok 1 w (i64_val i) \<Longrightarrow> reg_of c True 0 = r \<Longrightarrow>
      written (write_imm8 oc (ucast (i64_val i)) fl) fm addr [SopReg r, SopImm i]"
    and "G oc \<Longrightarrow> fields_are fm (\<lambda>c. [FAcc c, FImm 2 w]) \<Longrightarrow> imm_ok 2 w (i64_val i) \<Longrightarrow> reg_of c True 0 = r \<Longrightarrow>
      written (write_imm16 oc (ucast (i64_val i)) fl) fm addr [SopReg r, SopImm i]"
    and "G oc \<Longrightarrow> fields_are fm (\<lambda>c. [FAcc c, FImm 4 w]) \<Longrightarrow> imm_ok 4 w (i64_val i) \<Longrightarrow> reg_of c True 0 = r \<Longrightarrow>
      written (write_imm32 oc (ucast (i64_val i)) fl) fm addr [SopReg r, SopImm i]"
    and "G oc \<Longrightarrow> fields_are fm (\<lambda>c. [FImm 1 w]) \<Longrightarrow> imm_ok 1 w (i64_val i) \<Longrightarrow>
      written (write_imm8 oc (ucast (i64_val i)) fl) fm addr [SopImm i]"
    and "G oc \<Longrightarrow> fields_are fm (\<lambda>c. [FImm 2 w]) \<Longrightarrow> imm_ok 2 w (i64_val i) \<Longrightarrow>
      written (write_imm16 oc (ucast (i64_val i)) fl) fm addr [SopImm i]"
    and "G oc \<Longrightarrow> fields_are fm (\<lambda>c. [FImm 4 w]) \<Longrightarrow> imm_ok 4 w (i64_val i) \<Longrightarrow>
      written (write_imm32 oc (ucast (i64_val i)) fl) fm addr [SopImm i]"
proof -
  have P: "written (Some (write_prefixes fl False @ [oc] @ le_bytes k (i64_val i))) fm addr ops"
    if "G oc" "0 < k" "k \<le> 8" "imm_ok k w (i64_val i)" "fm_fields fm = [FImm k w] \<and> ops = [SopImm i] \<or>
      fm_fields fm = [FAcc c, FImm k w] \<and> ops = [SopReg r, SopImm i] \<and> reg_of c True 0 = r" for k ops
  proof -
    have "reg_of c rex 0 = reg_of c True 0" for rex by (cases c) simp_all
    then show ?thesis
      by (intro plain_written[where c = c and k = k and w = w and i = i and r = r]) (use that in \<open>auto simp: G_def\<close>)
  qed
  note D = write_imm8_def write_imm16_def write_imm32_def le_bytes_cast
  show "G oc \<Longrightarrow> fields_are fm (\<lambda>c. [FAcc c, FImm 1 w]) \<Longrightarrow> imm_ok 1 w (i64_val i) \<Longrightarrow> reg_of c True 0 = r \<Longrightarrow>
      written (write_imm8 oc (ucast (i64_val i)) fl) fm addr [SopReg r, SopImm i]"
    unfolding D by (rule P) (simp_all add: c_def)
  show "G oc \<Longrightarrow> fields_are fm (\<lambda>c. [FAcc c, FImm 2 w]) \<Longrightarrow> imm_ok 2 w (i64_val i) \<Longrightarrow> reg_of c True 0 = r \<Longrightarrow>
      written (write_imm16 oc (ucast (i64_val i)) fl) fm addr [SopReg r, SopImm i]"
    unfolding D by (rule P) (simp_all add: c_def)
  show "G oc \<Longrightarrow> fields_are fm (\<lambda>c. [FAcc c, FImm 4 w]) \<Longrightarrow> imm_ok 4 w (i64_val i) \<Longrightarrow> reg_of c True 0 = r \<Longrightarrow>
      written (write_imm32 oc (ucast (i64_val i)) fl) fm addr [SopReg r, SopImm i]"
    unfolding D by (rule P) (simp_all add: c_def)
  show "G oc \<Longrightarrow> fields_are fm (\<lambda>c. [FImm 1 w]) \<Longrightarrow> imm_ok 1 w (i64_val i) \<Longrightarrow>
      written (write_imm8 oc (ucast (i64_val i)) fl) fm addr [SopImm i]"
    unfolding D by (rule P) simp_all
  show "G oc \<Longrightarrow> fields_are fm (\<lambda>c. [FImm 2 w]) \<Longrightarrow> imm_ok 2 w (i64_val i) \<Longrightarrow>
      written (write_imm16 oc (ucast (i64_val i)) fl) fm addr [SopImm i]"
    unfolding D by (rule P) simp_all
  show "G oc \<Longrightarrow> fields_are fm (\<lambda>c. [FImm 4 w]) \<Longrightarrow> imm_ok 4 w (i64_val i) \<Longrightarrow>
      written (write_imm32 oc (ucast (i64_val i)) fl) fm addr [SopImm i]"
    unfolding D by (rule P) simp_all
qed

lemma moffs_written:
  "written (Some (write_moffs 0xa3 (i64_val a))) (mk C64 [0xa3] None [FMoffs, FAcc C64]) addr [SopMem (MpDirect a), SopReg (Gpr64 GA)]"
  "written (Some (write_moffs 0xa1 (i64_val a))) (mk C64 [0xa1] None [FAcc C64, FMoffs]) addr [SopReg (Gpr64 GA), SopMem (MpDirect a)]"
proof -
  have W: "write_moffs oc v = write_prefixes ENC_FLAG_REXW False @ [oc] @ le_bytes 8 v" for oc v
    by (simp add: write_moffs_def write_prefixes_def rex_isRequired_def rex_val_def rex_new_def)
  have F: "flags_fit (mk C64 oc e fs) ENC_FLAG_REXW" for oc e fs using flags_fit_mk[of C64] by (simp add: class_flags_def)
  show "written (Some (write_moffs 0xa3 (i64_val a))) (mk C64 [0xa3] None [FMoffs, FAcc C64]) addr [SopMem (MpDirect a), SopReg (Gpr64 GA)]"
    unfolding W by (rule plain_written[where c = C64 and r = "Gpr64 GA" and a = a]) (use F in \<open>simp_all add: plain_oc_def gpr_list_def\<close>)
  show "written (Some (write_moffs 0xa1 (i64_val a))) (mk C64 [0xa1] None [FAcc C64, FMoffs]) addr [SopReg (Gpr64 GA), SopMem (MpDirect a)]"
    unfolding W by (rule plain_written[where c = C64 and r = "Gpr64 GA" and a = a]) (use F in \<open>simp_all add: plain_oc_def gpr_list_def\<close>)
qed

lemma ret_written: "written (Some encode_ret) (mk64 C64 [0xc3] None []) addr []"
proof -
  have "written (Some (write_prefixes ENC_FLAG_NONE False @ [0xc3] @ [])) (mk64 C64 [0xc3] None []) addr []"
    by (rule plain_written) (simp_all add: plain_oc_def flags_fit_def mk64_def mk_def)
  then show ?thesis by (simp add: encode_ret_def write_prefixes_def Let_def rex_isRequired_def rex_val_def rex_new_def)
qed

lemmas writers_ok = two_operands_written one_operand_written immediate_written opcode_register_written immediate_only_written

lemmas format_simps = good_format_def flags_fit_def fm_class_def plain_oc_def mk_def mk64_def sse_def gpr_list_def

definition some_format :: "opcode \<Rightarrow> byte list option \<Rightarrow> u64 \<Rightarrow> static_operand list \<Rightarrow> bool" where
  "some_format opc w addr ops \<longleftrightarrow> (\<exists>fm \<in> set (forms opc). written w fm addr ops)"

lemma test_written:
  assumes "shape_fits s c o1 o2" "test_shape x = (s, c)" "operands_encodable addr [o1, o2]"
    and "\<And>i. o2 = SopImm i \<Longrightarrow> c = C64 \<Longrightarrow> is_simm32 (i64_val i)"
  shows "some_format (Test x) (encode_test x (o1 # o2 # os) addr) addr [o1, o2]"
  using assms by (cases x) (auto simp: some_format_def test_forms_def wide_oc_def imm_field_def bits_of_class_def writers_ok format_simps simm32_ok)


section \<open>The table\<close>

lemma two_fit:
  "length (oc_opInfo oc) = 2 \<Longrightarrow> operands_fit oc ops \<longleftrightarrow>
     (\<exists>o1 o2 os. ops = o1 # o2 # os \<and> operand_fits (oc_opInfo oc ! 0) o1 \<and> operand_fits (oc_opInfo oc ! 1) o2)"
  by (cases ops; cases "tl ops") (auto simp: operands_fit_2)

lemma one_fits:
  "length (oc_opInfo oc) = 1 \<Longrightarrow> operands_fit oc ops \<longleftrightarrow> (\<exists>o1 os. ops = o1 # os \<and> operand_fits (oc_opInfo oc ! 0) o1)"
  by (cases ops) (auto simp: operands_fit_1)

lemmas fit_rows = two_fit one_fits reg_fits fits_mem fits_imm def_opc_def

lemma alu_rows:
  "operands_fit (add_info a) ops \<Longrightarrow> \<exists>o1 o2 os. ops = o1 # o2 # os \<and> shape_fits (fst (add_shape a)) (snd (add_shape a)) o1 o2"
  "operands_fit (cmp_info b) ops \<Longrightarrow> \<exists>o1 o2 os. ops = o1 # o2 # os \<and> shape_fits (fst (cmp_shape b)) (snd (cmp_shape b)) o1 o2"
  "operands_fit (sub_info d) ops \<Longrightarrow> \<exists>o1 o2 os. ops = o1 # o2 # os \<and> shape_fits (fst (sub_shape d)) (snd (sub_shape d)) o1 o2"
  "operands_fit (test_info e) ops \<Longrightarrow> \<exists>o1 o2 os. ops = o1 # o2 # os \<and> shape_fits (fst (test_shape e)) (snd (test_shape e)) o1 o2"
  "operands_fit (xor_info f) ops \<Longrightarrow> \<exists>o1 o2 os. ops = o1 # o2 # os \<and> shape_fits (fst (xor_shape f)) (snd (xor_shape f)) o1 o2"
  by ((cases a; fastforce simp: fit_rows types_class), (cases b; fastforce simp: fit_rows types_class),
      (cases d; fastforce simp: fit_rows types_class), (cases e; fastforce simp: fit_rows types_class),
      (cases f; fastforce simp: fit_rows types_class))

lemma alu_row_fields:
  "length (oc_opInfo (add_info a)) = 2" "oc_encode (add_info a) = Enc_add" "snd (add_shape a) \<noteq> CX"
  "length (oc_opInfo (cmp_info b)) = 2" "oc_encode (cmp_info b) = Enc_cmp" "snd (cmp_shape b) \<noteq> CX"
  "length (oc_opInfo (sub_info d)) = 2" "oc_encode (sub_info d) = Enc_sub" "snd (sub_shape d) \<noteq> CX"
  "length (oc_opInfo (test_info e)) = 2" "oc_encode (test_info e) = Enc_test"
  "length (oc_opInfo (xor_info f)) = 2" "oc_encode (xor_info f) = Enc_xor" "snd (xor_shape f) \<noteq> CX"
  by ((cases a; simp add: def_opc_def; fail)+, (cases b; simp add: def_opc_def; fail)+, (cases d; simp add: def_opc_def; fail)+,
      (cases e; simp add: def_opc_def; fail)+, (cases f; simp add: def_opc_def; fail)+)

text \<open>Immediates of 32 bits that 64-bit operations extend by their sign.\<close>

fun takes_imm32 :: "opcode \<Rightarrow> bool" where
  "takes_imm32 (Add x) = (snd (add_shape x) = C64)"
| "takes_imm32 (Cmp x) = (snd (cmp_shape x) = C64)"
| "takes_imm32 (Sub x) = (snd (sub_shape x) = C64)"
| "takes_imm32 (Test x) = (snd (test_shape x) = C64)"
| "takes_imm32 (Xor x) = (snd (xor_shape x) = C64)"
| "takes_imm32 (Mov x) = (x = MOV64mi)"
| "takes_imm32 (Stack x) = (x = PUSH64i)"
| "takes_imm32 _ = False"

definition imms_fit :: "opcode \<Rightarrow> static_operand list \<Rightarrow> bool" where
  "imms_fit opc ops \<longleftrightarrow> (takes_imm32 opc \<longrightarrow> list_all (\<lambda>op. case op of SopImm i \<Rightarrow> is_simm32 (i64_val i) | _ \<Rightarrow> True) ops)"

text \<open>The rows the encoder gets wrong, with what it looks at: some always, some for some operands.\<close>

fun miscoded :: "(nat \<Rightarrow> u64) \<Rightarrow> opcode \<Rightarrow> static_operand list \<Rightarrow> bool" where
  "miscoded stale (Sub x) ops = (fst (sub_shape x) = Rm)"
| "miscoded stale (Call x) ops = True"
| "miscoded stale (Jmp x) ops = True"
| "miscoded stale (Jcc x) ops = True"
| "miscoded stale (Xor x) ops =
     (x = XOR32mi \<and> (case ops of _ # SopImm i # _ \<Rightarrow> \<not> is_simm8 (i64_val i) | _ \<Rightarrow> True))"
| "miscoded stale (Mov x) ops =
     (x = MOV64ri \<and> is_simm32 (union_imm stale ops 0) \<and> (case ops of _ # SopImm i # _ \<Rightarrow> \<not> is_simm32 (i64_val i) | _ \<Rightarrow> True))"
| "miscoded stale (Shift x) ops = (x \<in> {SHL64mi, SHL64ri, SHR64mi, SHR64ri} \<and> union_imm stale ops 2 = 1)"
| "miscoded stale _ ops = False"

text \<open>The accumulator is moved from and to any address.\<close>

fun far_accumulator :: "opcode \<Rightarrow> static_operand list \<Rightarrow> bool" where
  "far_accumulator (Mov MOV64mr) (SopMem (MpDirect a) # SopReg r # os) = (r = Gpr64 GA \<and> \<not> isDisp32 (i64_val a))"
| "far_accumulator (Mov MOV64rm) (SopReg r # SopMem (MpDirect a) # os) = (r = Gpr64 GA \<and> \<not> isDisp32 (i64_val a))"
| "far_accumulator _ _ = False"

definition encodable :: "(nat \<Rightarrow> u64) \<Rightarrow> opcode \<Rightarrow> nat \<Rightarrow> static_operand list \<Rightarrow> u64 \<Rightarrow> bool" where
  "encodable stale opc n ops addr \<longleftrightarrow>
     (operands_encodable addr (take n ops) \<or> far_accumulator opc ops) \<and> imms_fit opc (take n ops) \<and> \<not> miscoded stale opc ops"

abbreviation row_written :: "(nat \<Rightarrow> u64) \<Rightarrow> opcode \<Rightarrow> opcode_info \<Rightarrow> static_operand list \<Rightarrow> u64 \<Rightarrow> bool" where
  "row_written stale opc oc ops addr \<equiv>
     some_format opc (run_encode stale (oc_encode oc) opc ops addr) addr (take (length (oc_opInfo oc)) ops)"

lemma alu_row_written:
  assumes rows: "length (oc_opInfo oc) = 2" "forms opc = alu_forms b k sh" "takes_imm32 opc \<longleftrightarrow> snd sh = C64" "snd sh \<noteq> CX"
    and "\<not> far_accumulator opc ops" and fits: "\<exists>o1 o2 os. ops = o1 # o2 # os \<and> shape_fits (fst sh) (snd sh) o1 o2" and ok: "encodable stale opc 2 ops addr"
    and run: "run_encode stale (oc_encode oc) opc ops addr = encode_alu b k acc sh ops addr"
    and b: "b \<in> {0, 0x28, 0x30, 0x38}" "and k 7 = k" "acc (snd sh) \<in> {Gpr8 GA, Gpr16 GA, Gpr32 GA, Gpr64 GA}"
  shows "row_written stale opc oc ops addr"
proof -
  obtain o1 o2 os where o: "ops = o1 # o2 # os" "shape_fits (fst sh) (snd sh) o1 o2" using fits by auto
  have "some_format opc (encode_alu b k acc (fst sh, snd sh) (o1 # o2 # os) addr) addr [o1, o2]"
    unfolding some_format_def rows(2) by (subst surjective_pairing[of sh], rule alu_written)
      (use assms o in \<open>auto simp: encodable_def imms_fit_def\<close>)
  then show ?thesis unfolding run rows(1) by (simp add: o(1))
qed

lemma acc_of_ok: "c \<noteq> CX \<Longrightarrow> acc_of c \<in> {Gpr8 GA, Gpr16 GA, Gpr32 GA, Gpr64 GA}"
  by (cases c) (simp_all add: acc_of_def)

lemma add_row_written:
  assumes "operands_fit (add_info x) ops" "encodable stale (Add x) 2 ops addr"
  shows "row_written stale (Add x) (add_info x) ops addr"
  by (rule alu_row_written[where b = 0 and k = 0 and sh = "add_shape x" and acc = acc_of, OF _ _ _ _ _ alu_rows(1)[OF assms(1)] assms(2)])
    (use acc_of_ok alu_row_fields(3) in \<open>simp_all add: alu_row_fields run_encode_def encode_add_alu\<close>)

lemma cmp_row_written:
  assumes "operands_fit (cmp_info x) ops" "encodable stale (Cmp x) 2 ops addr"
  shows "row_written stale (Cmp x) (cmp_info x) ops addr"
  by (rule alu_row_written[where b = "0x38" and k = 7 and sh = "cmp_shape x" and acc = "\<lambda>c. if c = C16 then Gpr32 GA else acc_of c", OF _ _ _ _ _ alu_rows(2)[OF assms(1)] assms(2)])
    (use acc_of_ok alu_row_fields(6) in \<open>simp_all add: alu_row_fields run_encode_def encode_cmp_alu\<close>)

lemma sub_row_written:
  assumes "operands_fit (sub_info x) ops" "encodable stale (Sub x) 2 ops addr"
  shows "row_written stale (Sub x) (sub_info x) ops addr"
  by (rule alu_row_written[where b = "0x28" and k = 5 and sh = "sub_shape x" and acc = acc_of, OF _ _ _ _ _ alu_rows(3)[OF assms(1)] assms(2)])
    (use acc_of_ok alu_row_fields(9) assms(2) in \<open>simp_all add: alu_row_fields run_encode_def encode_sub_alu encodable_def\<close>)

lemma test_row_written:
  assumes "operands_fit (test_info x) ops" "encodable stale (Test x) 2 ops addr"
  shows "row_written stale (Test x) (test_info x) ops addr"
proof -
  obtain o1 o2 os where o: "ops = o1 # o2 # os" "shape_fits (fst (test_shape x)) (snd (test_shape x)) o1 o2" using alu_rows(4)[OF assms(1)] by auto
  have "some_format (Test x) (encode_test x (o1 # o2 # os) addr) addr [o1, o2]"
    by (rule test_written[OF o(2)]) (use assms(2) o(1) in \<open>auto simp: encodable_def imms_fit_def\<close>)
  then show ?thesis by (simp add: run_encode_def alu_row_fields o(1))
qed

lemma xor_row_written:
  assumes "operands_fit (xor_info x) ops" "encodable stale (Xor x) 2 ops addr"
  shows "row_written stale (Xor x) (xor_info x) ops addr"
proof (rule alu_row_written[where b = "0x30" and k = 6 and sh = "xor_shape x" and acc = "\<lambda>c. if c = C32 then Gpr64 GA else acc_of c", OF _ _ _ _ _ alu_rows(5)[OF assms(1)] assms(2)])
  have "encode_xor x ops addr = encode_alu 0x30 6 (\<lambda>c. if c = C32 then Gpr64 GA else acc_of c) (xor_shape x) ops addr"
  proof (cases "x = XOR32mi")
    case True
    then show ?thesis using alu_rows(5)[OF assms(1)] assms(2)
      by (auto simp: encodable_def intro!: encode_xor32mi[simplified])
  qed (simp add: encode_xor_alu)
  then show "run_encode stale (oc_encode (xor_info x)) (Xor x) ops addr =
      encode_alu 0x30 6 (\<lambda>c. if c = C32 then Gpr64 GA else acc_of c) (xor_shape x) ops addr"
    by (simp add: run_encode_def alu_row_fields)
qed (use acc_of_ok alu_row_fields(14) in \<open>simp_all add: alu_row_fields\<close>)

lemmas row_goal = some_format_def run_encode_def encodable_def imms_fit_def fit_rows types_class writers_ok format_simps

lemma sse_row_written:
  assumes "operands_fit (sse_info x) ops" "encodable stale (Sse x) 2 ops addr"
  shows "row_written stale (Sse x) (sse_info x) ops addr"
  using assms by (cases x) (auto simp: row_goal sse_load_def encode_addpd_def encode_addsd_def encode_mulpd_def encode_mulsd_def encode_pxor_def)

lemma movx_row_written:
  assumes "operands_fit (movx_info x) ops" "encodable stale (MovX x) 2 ops addr"
  shows "row_written stale (MovX x) (movx_info x) ops addr"
  using assms by (cases x) (auto simp: row_goal sse_load_def sse_store_def encode_movapd_def encode_movsd_def encode_movupd_def encode_movups_def)

lemma lea_row_written:
  assumes "operands_fit (lea_info x) ops" "encodable stale (Lea x) 2 ops addr"
  shows "row_written stale (Lea x) (lea_info x) ops addr"
  using assms by (cases x) (auto simp: row_goal)

lemma shift_row_written:
  assumes "operands_fit (shift_info x) ops" "encodable stale (Shift x) (length (oc_opInfo (shift_info x))) ops addr"
  shows "row_written stale (Shift x) (shift_info x) ops addr"
  using assms by (cases x) (auto simp: row_goal encode_shl_def encode_shr_def)

lemma stack_row_written:
  assumes "operands_fit (stack_info x) ops" "encodable stale (Stack x) (length (oc_opInfo (stack_info x))) ops addr"
  shows "row_written stale (Stack x) (stack_info x) ops addr"
  using assms ret_written by (cases x) (auto simp: row_goal encode_pop_def encode_push_def simm8_ok[unfolded One_nat_def] simm32_ok)


lemma mov_row_written:
  assumes "operands_fit (mov_info x) ops" "encodable stale (Mov x) 2 ops addr"
  shows "row_written stale (Mov x) (mov_info x) ops addr"
proof (cases "x \<in> {MOV64mr, MOV64rm}")
  case True
  then show ?thesis
  proof (elim insertE)
    assume x: "x = MOV64mr"
    then obtain m r os where o: "ops = SopMem m # SopReg r # os" "in_class C64 r" using assms(1) by (auto simp: fit_rows types_class)
    have "some_format (Mov MOV64mr) (write_modrm_m_reg 0x89 ops ENC_FLAG_REXW addr) addr [SopMem m, SopReg r]"
      if "\<not> far_accumulator (Mov x) ops"
      using assms(2) x o that by (auto simp: row_goal)
    then show ?thesis
      using x o moffs_written(1) by (auto simp: run_encode_def def_opc_def uses_moffs_def some_format_def split: static_mem_ptr.splits)
  next
    assume x: "x = MOV64rm"
    then obtain m r os where o: "ops = SopReg r # SopMem m # os" "in_class C64 r" using assms(1) by (auto simp: fit_rows types_class)
    have "some_format (Mov MOV64rm) (write_modrm_reg_m 0x8b ops ENC_FLAG_REXW addr) addr [SopReg r, SopMem m]"
      if "\<not> far_accumulator (Mov x) ops"
      using assms(2) x o that by (auto simp: row_goal)
    then show ?thesis
      using x o moffs_written(2) by (auto simp: run_encode_def def_opc_def uses_moffs_def some_format_def split: static_mem_ptr.splits)
  qed simp
next
  case False
  then show ?thesis using assms by (cases x) (auto simp: row_goal simm32_ok)
qed

lemma row_lengths:
  "length (oc_opInfo (sse_info a)) = 2" "length (oc_opInfo (lea_info b)) = 2" "length (oc_opInfo (mov_info d)) = 2"
  "length (oc_opInfo (movx_info e)) = 2"
  by ((cases a; simp add: def_opc_def; fail), (cases b; simp add: def_opc_def; fail), (cases d; simp add: def_opc_def; fail),
      (cases e; simp add: def_opc_def; fail))

text \<open>Every row: what the encoder writes is the instruction, and no longer than an instruction may be.\<close>

lemma encodes_iff:
  "encodes opc ops addr bs \<longleftrightarrow> (\<exists>fm \<in> set (forms opc). \<exists>os. read_format fm addr bs = Some os \<and> list_all2 same_operand ops os)"
  by (auto simp: encodes_def list_ex_iff split: option.splits)

lemma table_written:
  assumes "arch_get_opcode_info opc = Some oc" "operands_fit oc ops" "encodable stale opc (length (oc_opInfo oc)) ops addr"
  shows "row_written stale opc oc ops addr"
  using assms add_row_written[of _ ops stale addr] cmp_row_written[of _ ops stale addr] sub_row_written[of _ ops stale addr]
    test_row_written[of _ ops stale addr] xor_row_written[of _ ops stale addr] shift_row_written[of _ ops stale addr]
    stack_row_written[of _ ops stale addr] sse_row_written[of _ ops stale addr] movx_row_written[of _ ops stale addr]
    lea_row_written[of _ ops stale addr] mov_row_written[of _ ops stale addr]
  by (cases opc) (auto simp: alu_row_fields row_lengths, simp_all add: encodable_def)

lemma encoder_sound:
  assumes "arch_get_opcode_info opc = Some oc" "operands_fit oc ops" "encodable stale opc (length (oc_opInfo oc)) ops addr"
  shows "\<exists>bs. run_encode stale (oc_encode oc) opc ops addr = Some bs \<and> length bs \<le> 15 \<and>
    encodes opc (take (length (oc_opInfo oc)) ops) addr bs"
  using table_written[OF assms] by (auto simp: some_format_def written_def encodes_iff)

section \<open>Examples\<close>

text \<open>Eight bytes below the sum of R12 and four times RCX.\<close>

definition demo_mem :: static_mem_ptr where
  "demo_mem = MpSIB (Gpr64 G12) (Gpr64 GC) \<lparr>s32_val = -8, s32_usrPtrNr = -1, s32_usrPtrOffset = 0\<rparr> 4"

text \<open>The subtractions from a register that are written with the opcode of the other direction.\<close>

fun reversed :: "sub_opcode \<Rightarrow> sub_opcode option" where
  "reversed SUB8rm = Some SUB8mr"
| "reversed SUB16rm = Some SUB16mr"
| "reversed SUB32rm = Some SUB32mr"
| "reversed SUB64rm = Some SUB64mr"
| "reversed _ = None"

end
