(* ===== verification/Encode_Wrong.thy ===== *)
theory Encode_Wrong
  imports
    Encode_Table
begin

text \<open>
  The rows the encoder gets wrong, for every operand: what the bytes of calls and jumps through
  a register or memory are, and of the low bytes of RSP, RBP, RSI and RDI.
\<close>

section \<open>Calls and jumps\<close>

text \<open>The far call, and the near jump with the prefix for 16-bit operands.\<close>

definition far_call :: format where
  "far_call = mk64 C64 [0xff] (Some 3) [FRm C64]"

definition short_jump :: format where
  "short_jump = (mk64 C64 [0xff] (Some 4) [FRm C64])\<lparr>fm_66 := Some True\<rparr>"

definition through :: "u64 \<Rightarrow> static_operand \<Rightarrow> bool" where
  "through addr op \<longleftrightarrow> (case op of SopReg r \<Rightarrow> in_class C64 r | SopMem m \<Rightarrow> mem_encodable addr m | SopImm _ \<Rightarrow> False)"

lemma through_ok: "through addr op \<Longrightarrow> class_operand C64 op \<and> operands_encodable addr [op]"
  by (cases op) (auto simp: through_def operands_encodable_def operand_encodable_def in_class_def byte_ok_def split: register.splits)

text \<open>Other bytes for the extension or the prefix are another instruction.\<close>

lemma other_extension:
  assumes "read_format fm addr bs = Some os" and "fm_oc fm' = fm_oc fm" and "fm_fields fm' = fm_fields fm"
    and "fm_ext fm = Some k" "fm_ext fm' = Some k'" "k \<noteq> k'"
  shows "read_format fm' addr bs = None"
  using assms by (auto simp: read_format_def has_modrm_def drob_assert_def split: bind_splits if_splits)

lemma other_prefix:
  assumes "read_format fm addr bs = Some os" and "fm_oc fm' = fm_oc fm"
    and "fm_66 fm = Some b" "fm_66 fm' = Some b'" "b \<noteq> b'"
  shows "read_format fm' addr bs = None"
  using assms by (auto simp: read_format_def front_fits_def drob_assert_def split: bind_splits if_splits)

lemma call_through:
  assumes "through addr op"
  obtains bs os where "run_encode stale Enc_call (Call (case op of SopReg _ \<Rightarrow> CALLr | _ \<Rightarrow> CALLm)) [op] addr = Some bs"
    and "read_format far_call addr bs = Some os" "list_all2 same_operand [op] os"
    and "\<not> encodes (Call (case op of SopReg _ \<Rightarrow> CALLr | _ \<Rightarrow> CALLm)) [op] addr bs"
proof -
  let ?w = "do { e \<leftarrow> rm_encoding op addr (encode_reg_field 3 (encoding_new [0xff] 0 0 ENC_FLAG_NONE)); write_enc e }"
  have "written ?w far_call addr [op]"
    using through_ok[OF assms] by (intro class_one[where c = C64]) (simp_all add: far_call_def flags_fit_def mk64_def mk_def plain_oc_def)
  then obtain bs os where bs: "?w = Some bs" "read_format far_call addr bs = Some os" "list_all2 same_operand [op] os"
    by (auto simp: written_def)
  have "run_encode stale Enc_call (Call (case op of SopReg _ \<Rightarrow> CALLr | _ \<Rightarrow> CALLm)) [op] addr = ?w"
    using assms by (cases op) (auto simp: through_def run_encode_def ext_rm_writers)
  moreover have "read_format (mk64 C64 [0xff] (Some 2) [FRm C64]) addr bs = None"
    by (rule other_extension[OF bs(2)]) (auto simp: far_call_def)
  then have "\<not> encodes (Call (case op of SopReg _ \<Rightarrow> CALLr | _ \<Rightarrow> CALLm)) [op] addr bs"
    by (cases op) (simp_all add: encodes_def)
  ultimately show thesis using that bs by simp
qed

lemma jump_through:
  assumes "through addr op"
  obtains bs os where "run_encode stale Enc_jmp (Jmp (case op of SopReg _ \<Rightarrow> JMPr | _ \<Rightarrow> JMPm)) [op] addr = Some bs"
    and "read_format short_jump addr bs = Some os" "list_all2 same_operand [op] os"
    and "\<not> encodes (Jmp (case op of SopReg _ \<Rightarrow> JMPr | _ \<Rightarrow> JMPm)) [op] addr bs"
proof -
  let ?w = "do { e \<leftarrow> rm_encoding op addr (encode_reg_field 4 (encoding_new [0xff] 0 0 ENC_FLAG_66)); write_enc e }"
  have "written ?w short_jump addr [op]"
    using through_ok[OF assms] by (intro class_one[where c = C64]) (simp_all add: short_jump_def flags_fit_def mk64_def mk_def plain_oc_def)
  then obtain bs os where bs: "?w = Some bs" "read_format short_jump addr bs = Some os" "list_all2 same_operand [op] os"
    by (auto simp: written_def)
  have "run_encode stale Enc_jmp (Jmp (case op of SopReg _ \<Rightarrow> JMPr | _ \<Rightarrow> JMPm)) [op] addr = ?w"
    using assms by (cases op) (auto simp: through_def run_encode_def ext_rm_writers)
  moreover have "read_format (mk64 C64 [0xff] (Some 4) [FRm C64]) addr bs = None"
    by (rule other_prefix[OF bs(2), of _ True False]) (auto simp: short_jump_def mk64_def mk_def)
  then have "\<not> encodes (Jmp (case op of SopReg _ \<Rightarrow> JMPr | _ \<Rightarrow> JMPm)) [op] addr bs"
    by (cases op) (simp_all add: encodes_def)
  ultimately show thesis using that bs by simp
qed

section \<open>Low bytes\<close>

text \<open>The register without a REX prefix that has the number of the low byte.\<close>

fun high_twin :: "gpr \<Rightarrow> gpr_high option" where
  "high_twin GSP = Some HA" | "high_twin GBP = Some HC" | "high_twin GSI = Some HD" | "high_twin GDI = Some HB"
| "high_twin _ = None"

lemma twin_code: "high_twin g = Some h \<Longrightarrow> encodeReg (Gpr8 g) = encodeReg (Gpr8H h)"
  by (cases g) auto

lemma other_opcode:
  assumes "read_format fm addr bs = Some os" and "read_format fm' addr bs = Some os'"
    and "\<not> in_opcode_field fm" "\<not> in_opcode_field fm'"
  shows "fm_oc fm = fm_oc fm'"
  using assms by (auto simp: read_format_def front_fits_def drob_assert_def split: bind_splits if_splits)

lemma add8_forms: "forms (Add ADD8rr) = [mk C8 [0] None [FRm C8, FReg C8], mk C8 [2] None [FReg C8, FRm C8]]"
  by (simp add: alu_forms_def wide_oc_def)

lemma add8_unique:
  assumes "encodes (Add ADD8rr) [SopReg a, SopReg b] addr bs" and "encodes (Add ADD8rr) [SopReg c, SopReg d] addr bs"
  shows "a = c \<and> b = d"
proof -
  have plain: "\<not> in_opcode_field fm" if "fm \<in> set (forms (Add ADD8rr))" for fm
    using that unfolding add8_forms by (auto simp: in_opcode_field_def)
  obtain fm os where f: "fm \<in> set (forms (Add ADD8rr))" "read_format fm addr bs = Some os" "list_all2 same_operand [SopReg a, SopReg b] os"
    using assms(1) by (auto simp: encodes_def list_ex_iff simp del: forms.simps split: option.splits)
  obtain fm' os' where f': "fm' \<in> set (forms (Add ADD8rr))" "read_format fm' addr bs = Some os'" "list_all2 same_operand [SopReg c, SopReg d] os'"
    using assms(2) by (auto simp: encodes_def list_ex_iff simp del: forms.simps split: option.splits)
  have "fm_oc fm = fm_oc fm'" by (rule other_opcode[OF f(2) f'(2) plain[OF f(1)] plain[OF f'(1)]])
  then have "fm = fm'" using f(1) f'(1) unfolding add8_forms by auto
  then have "os = os'" using f(2) f'(2) by simp
  moreover have "r = r'" if "same_operand (SopReg r) o'" "same_operand (SopReg r') o'" for r r' o'
    using that by (cases o') auto
  ultimately show ?thesis using f(3) f'(3) by (auto simp: list_all2_Cons1)
qed

lemma low_byte_add:
  assumes h: "high_twin g = Some h" and a: "a \<in> {GA, GB, GC, GD}"
  obtains bs where "run_encode stale Enc_add (Add ADD8rr) [SopReg (Gpr8 g), SopReg (Gpr8 a)] addr = Some bs"
    and "encodes (Add ADD8rr) [SopReg (Gpr8H h), SopReg (Gpr8 a)] addr bs"
    and "\<not> encodes (Add ADD8rr) [SopReg (Gpr8 g), SopReg (Gpr8 a)] addr bs"
proof -
  have same: "run_encode stale Enc_add (Add ADD8rr) [SopReg (Gpr8 g), SopReg (Gpr8 a)] addr =
      run_encode stale Enc_add (Add ADD8rr) [SopReg (Gpr8H h), SopReg (Gpr8 a)] addr"
    using twin_code[OF h] by (simp add: run_encode_def write_modrm_r_reg_def ModRM_reg_reg_def)
  have fit: "operands_fit (add_info ADD8rr) [SopReg (Gpr8H h), SopReg (Gpr8 a)]"
    by (simp add: fit_rows reg_has_type_def def_reg_simple_def)
  have "encodable stale (Add ADD8rr) 2 [SopReg (Gpr8H h), SopReg (Gpr8 a)] addr"
    using a by (cases h) (auto simp: encodable_def imms_fit_def operands_encodable_def operand_encodable_def byte_ok_def extended_def)
  then obtain bs where bs: "run_encode stale Enc_add (Add ADD8rr) [SopReg (Gpr8H h), SopReg (Gpr8 a)] addr = Some bs"
    "encodes (Add ADD8rr) [SopReg (Gpr8H h), SopReg (Gpr8 a)] addr bs"
    using encoder_sound[of "Add ADD8rr" "add_info ADD8rr" "[SopReg (Gpr8H h), SopReg (Gpr8 a)]" stale addr] fit
    by (auto simp: alu_row_fields simp del: add_info.simps)
  moreover have "\<not> encodes (Add ADD8rr) [SopReg (Gpr8 g), SopReg (Gpr8 a)] addr bs"
    using add8_unique[OF bs(2)] by auto
  ultimately show thesis using that same by simp
qed

end
