(* ===== verification/Icfg_Blocks.thy ===== *)
theory Icfg_Blocks
  imports Icfg_Remove
begin

text \<open>Removing, merging, splitting and copying blocks of a graph that is in order.\<close>

section \<open>Deleting an isolated block\<close>

definition isolated :: "super_block \<Rightarrow> bool" where
  "isolated sb \<longleftrightarrow> sb_instrs sb = [] \<and> sb_in sb = [] \<and> sb_out sb = []"

definition relink :: "nat \<Rightarrow> super_block \<Rightarrow> super_block \<Rightarrow> super_block" where
  "relink b bb sb = sb\<lparr>sb_next := (if sb_next sb = Some b then sb_next bb else sb_next sb),
     sb_prev := (if sb_prev sb = Some b then sb_prev bb else sb_prev sb)\<rparr>"

lemma relink_simps [simp]: "sb_function (relink b bb sb) = sb_function sb" "sb_in (relink b bb sb) = sb_in sb"
  "sb_out (relink b bb sb) = sb_out sb" "sb_instrs (relink b bb sb) = sb_instrs sb"
  "sb_next (relink b bb sb) = (if sb_next sb = Some b then sb_next bb else sb_next sb)"
  "sb_prev (relink b bb sb) = (if sb_prev sb = Some b then sb_prev bb else sb_prev sb)"
  by (simp_all add: relink_def)

definition del_block :: "nat \<Rightarrow> super_block \<Rightarrow> icfg \<Rightarrow> icfg" where
  "del_block b bb g = g\<lparr>
     ic_sb := (\<lambda>x. if x = b then None else map_option (relink b bb) (ic_sb g x)),
     ic_fn := (\<lambda>f. map_option (\<lambda>fn. fn\<lparr>fn_entry := (if fn_entry fn = Some b then None else fn_entry fn),
         fn_blocks := remove1 b (fn_blocks fn)\<rparr>) (ic_fn g f))\<rparr>"

lemma del_block_ok:
  assumes ok: "icfg_ok g" and bb: "ic_sb g b = Some bb" "isolated bb"
  shows "icfg_ok (del_block b bb g)"
proof -
  let ?h = "del_block b bb g"
  have live: "live_be ?h = live_be g" "live_ce ?h = live_ce g" "live_re ?h = live_re g"
    by (simp_all add: fun_eq_iff live_defs del_block_def)
  have at: "ic_is ?h = ic_is g" by (simp add: del_block_def)
  have sbD: "\<exists>sc'. ic_sb g x = Some sc' \<and> x \<noteq> b \<and> sb_function sc = sb_function sc' \<and> sb_in sc = sb_in sc' \<and>
      sb_out sc = sb_out sc' \<and> sb_instrs sc = sb_instrs sc' \<and>
      sb_next sc = (if sb_next sc' = Some b then sb_next bb else sb_next sc') \<and>
      sb_prev sc = (if sb_prev sc' = Some b then sb_prev bb else sb_prev sc')"
    if "ic_sb ?h x = Some sc" for x sc
    using that by (cases "x = b") (auto simp: del_block_def)
  have sbI: "\<exists>sc'. ic_sb ?h x = Some sc' \<and> sb_function sc' = sb_function sc \<and> sb_in sc' = sb_in sc \<and>
      sb_out sc' = sb_out sc \<and> sb_instrs sc' = sb_instrs sc \<and>
      sb_next sc' = (if sb_next sc = Some b then sb_next bb else sb_next sc) \<and>
      sb_prev sc' = (if sb_prev sc = Some b then sb_prev bb else sb_prev sc)"
    if "ic_sb g x = Some sc" "x \<noteq> b" for x sc
    using that by (simp add: del_block_def)
  have fnD: "\<exists>fn'. ic_fn g f = Some fn' \<and> fn_blocks fn = remove1 b (fn_blocks fn') \<and>
      fn_entry fn = (if fn_entry fn' = Some b then None else fn_entry fn')"
    if "ic_fn ?h f = Some fn" for f fn
    using that by (auto simp: del_block_def)
  have fnI: "\<exists>fn'. ic_fn ?h f = Some fn' \<and> fn_blocks fn' = remove1 b (fn_blocks fn)" if "ic_fn g f = Some fn" for f fn
    using that by (simp add: del_block_def)
  have "blocks_ok ?h"
  proof -
    note B = blocks_okD[OF icfg_okD(1)[OF ok]]
    show ?thesis
    proof (rule blocks_okI, goal_cases)
      case (1 f fn)
      then show ?case using B(1) fnD[OF 1] by auto
    next
      case (2 f fn x)
      obtain fn' where fn': "ic_fn g f = Some fn'" "fn_blocks fn = remove1 b (fn_blocks fn')" using fnD[OF 2(1)] by blast
      then have "x \<in> set (fn_blocks fn')" "x \<noteq> b" using 2(2) B(1)[OF fn'(1)] by (auto simp: set_remove1_eq)
      then show ?case using B(2)[OF fn'(1)] sbI by metis
    next
      case (3 f fn x)
      obtain fn' where fn': "ic_fn g f = Some fn'" "fn_blocks fn = remove1 b (fn_blocks fn')"
        "fn_entry fn = (if fn_entry fn' = Some b then None else fn_entry fn')"
        using fnD[OF 3(1)] by blast
      then have "fn_entry fn' = Some x" "x \<noteq> b" using 3(2) by (metis option.distinct(1))+
      then show ?case using B(3)[OF fn'(1)] fn'(2) by (simp add: in_set_remove1)
    next
      case (4 x sc)
      obtain sc' where sc': "ic_sb g x = Some sc'" "x \<noteq> b" "sb_function sc = sb_function sc'" using sbD[OF 4] by blast
      then show ?case using B(4)[OF sc'(1)] fnI by (fastforce simp: in_set_remove1)
    qed
  qed
  moreover have "instrs_ok ?h"
  proof -
    note I = instrs_okD[OF icfg_okD(2)[OF ok]]
    show ?thesis
    proof (rule instrs_okI, unfold at, goal_cases)
      case (1 x sc)
      then show ?case using I(1) sbD[OF 1] by auto
    next
      case (2 x sc a)
      then show ?case using I(2) sbD[OF 2(1)] by auto
    next
      case (3 x sx y sy a)
      obtain sx' sy' where "ic_sb g x = Some sx'" "a \<in> set (sb_instrs sx')" "ic_sb g y = Some sy'" "a \<in> set (sb_instrs sy')"
        using sbD[OF 3(1)] sbD[OF 3(2)] 3(3,4) by auto
      then show ?case using I(3) by blast
    qed
  qed
  moreover have "chain_ok ?h"
  proof -
    note C = chain_okD[OF icfg_okD(3)[OF ok]]
    have self: "sb_prev bb = Some x" if "ic_sb g x = Some sx" "sb_next sx = Some b" for x sx
      using C(1)[OF that] bb by auto
    have self': "sb_next bb = Some x" if "ic_sb g x = Some sx" "sb_prev sx = Some b" for x sx
      using C(2)[OF that] bb by auto
    show ?thesis
    proof (rule chain_okI, goal_cases)
      case (1 x sc n)
      obtain sc' where sc': "ic_sb g x = Some sc'" "x \<noteq> b" "Some n = (if sb_next sc' = Some b then sb_next bb else sb_next sc')"
        using sbD[OF 1(1)] 1(2) by auto
      show ?case
      proof (cases "sb_next sc' = Some b")
        case True
        then have pb: "sb_prev bb = Some x" and nb: "sb_next bb = Some n" using self[OF sc'(1)] sc'(3) by simp_all
        obtain nn where nn: "ic_sb g n = Some nn" "sb_prev nn = Some b" using C(1)[OF bb(1) nb] by blast
        have "n \<noteq> b" using nn pb bb(1) sc'(2) by auto
        then show ?thesis using sbI[OF nn(1)] nn(2) pb by auto
      next
        case False
        then have "sb_next sc' = Some n" using sc'(3) by simp
        then obtain nn where nn: "ic_sb g n = Some nn" "sb_prev nn = Some x" using C(1)[OF sc'(1)] by blast
        have "n \<noteq> b" using False sc'(3) by auto
        then show ?thesis using sbI[OF nn(1)] nn(2) sc'(2) by auto
      qed
    next
      case (2 x sc n)
      obtain sc' where sc': "ic_sb g x = Some sc'" "x \<noteq> b" "Some n = (if sb_prev sc' = Some b then sb_prev bb else sb_prev sc')"
        using sbD[OF 2(1)] 2(2) by auto
      show ?case
      proof (cases "sb_prev sc' = Some b")
        case True
        then have pb: "sb_next bb = Some x" and nb: "sb_prev bb = Some n" using self'[OF sc'(1)] sc'(3) by simp_all
        obtain nn where nn: "ic_sb g n = Some nn" "sb_next nn = Some b" using C(2)[OF bb(1) nb] by blast
        have "n \<noteq> b" using nn pb bb(1) sc'(2) by auto
        then show ?thesis using sbI[OF nn(1)] nn(2) pb by auto
      next
        case False
        then have "sb_prev sc' = Some n" using sc'(3) by simp
        then obtain nn where nn: "ic_sb g n = Some nn" "sb_next nn = Some x" using C(2)[OF sc'(1)] by blast
        have "n \<noteq> b" using False sc'(3) by auto
        then show ?thesis using sbI[OF nn(1)] nn(2) sc'(2) by auto
      qed
    qed
  qed
  moreover have "edges_ok ?h"
  proof -
    note E = edges_okD[OF icfg_okD(4)[OF ok]]
    have src: "be_src ed \<noteq> b" "be_dst ed \<noteq> b" if "live_be g e ed" for e ed
      using E(5)[OF that] E(6)[OF that] bb by (auto simp: isolated_def)
    show ?thesis
    proof (rule edges_okI, unfold live at, goal_cases)
      case (1 x sc) then show ?case using E(1) sbD[OF 1] by auto
    next
      case (2 x sc) then show ?case using E(2) sbD[OF 2] by auto
    next
      case (3 x sc e) then show ?case using E(3) sbD[OF 3(1)] by auto
    next
      case (4 x sc e) then show ?case using E(4) sbD[OF 4(1)] by auto
    next
      case (5 e ed) then show ?case using E(5)[OF 5] sbI src[OF 5] by fastforce
    next
      case (6 e ed) then show ?case using E(6)[OF 6] sbI src[OF 6] by fastforce
    next
      case (7 e ed) then show ?case using E(7) by blast
    next
      case (8 a i e) then show ?case using E(8) by blast
    qed
  qed
  moreover have "calls_ok ?h"
    by (rule calls_cong[OF icfg_okD(5)[OF ok] _ _ live(2)]) (auto simp: del_block_def intro!: agree_sym[OF agree_map])
  moreover have "returns_ok ?h"
  proof -
    note E = returns_okD[OF icfg_okD(6)[OF ok]]
    have R: "agree fn_returns (ic_fn g) (ic_fn ?h)" by (auto simp: del_block_def intro!: agree_sym[OF agree_map])
    note RD = agreeD[OF R] agreeD[OF agree_sym[OF R]]
    show ?thesis
    proof (rule returns_okI, unfold live at, goal_cases)
      case (1 f fn) then show ?case using E(1) RD(1)[OF 1] by fastforce
    next
      case (2 f fn e) then show ?case using E(2) RD(1)[OF 2(1)] by auto
    next
      case (3 e ed) then show ?case using E(3)[OF 3] RD(2) by fastforce
    next
      case (4 e ed)
      obtain sb where sb: "ic_sb g (re_src ed) = Some sb" "re_instr ed \<in> set (sb_instrs sb)" using E(4)[OF 4] by blast
      then have "re_src ed \<noteq> b" using bb by (auto simp: isolated_def)
      then show ?case using sbI[OF sb(1)] sb(2) by auto
    next
      case (5 e ed) then show ?case using E(5) by blast
    next
      case (6 a i e) then show ?case using E(6) by blast
    qed
  qed
  moreover have "fresh_ok ?h"
    using icfg_okD(7)[OF ok] by (simp add: fresh_ok_def del_block_def)
  ultimately show ?thesis by (simp add: icfg_ok_def)
qed

lemma er_del_block: "er (del_block b bb g) = del_block b bb (er g)"
proof -
  have "er_sb (relink b bb sb) = relink b bb (er_sb sb)" for sb
    by (cases "sb_next sb = Some b"; cases "sb_prev sb = Some b") (simp_all add: relink_def)
  then have "map_option er_sb \<circ> ic_sb (del_block b bb g) = ic_sb (del_block b bb (er g))"
    by (auto simp: fun_eq_iff del_block_def intro!: map_map_eq)
  moreover have "map_option er_fn \<circ> ic_fn (del_block b bb g) = ic_fn (del_block b bb (er g))"
    by (auto simp: fun_eq_iff del_block_def intro!: map_map_eq)
  ultimately show ?thesis by (simp add: del_block_def)
qed

section \<open>Removing a block\<close>

text \<open>Only the two neighbours of a block point to it.\<close>

lemma relink_neighbours:
  assumes "chain_ok g" and "ic_sb g b = Some bb" and "ic_sb g x = Some sx"
  shows "relink b bb sx = sx\<lparr>sb_next := (if sb_prev bb = Some x then sb_next bb else sb_next sx),
     sb_prev := (if sb_next bb = Some x then sb_prev bb else sb_prev sx)\<rparr>"
proof -
  have "sb_next sx = Some b \<longleftrightarrow> sb_prev bb = Some x" "sb_prev sx = Some b \<longleftrightarrow> sb_next bb = Some x"
    using chain_okD[OF assms(1)] assms(2,3) by (metis option.inject)+
  then show ?thesis by (simp add: relink_def)
qed

lemma cleanupBlock_total:
  assumes ok: "icfg_ok g" and sb: "ic_sb g b = Some sb"
  shows "\<exists>h k bb m. cleanupBlock b g = Some (h\<lparr>ic_sb := m\<rparr>) \<and> pruned g k \<and> h = drop_instrs b (sb_instrs sb) k \<and> icfg_ok h \<and>
    ic_sb h b = Some bb \<and> isolated bb \<and> place_fields bb = place_fields sb \<and>
    (\<forall>x. x \<noteq> b \<longrightarrow> m x = map_option (relink b bb) (ic_sb h x))"
proof -
  obtain h k bb where h: "removeAllInstructions b g = Some h" "pruned g k" "h = drop_instrs b (sb_instrs sb) k" "icfg_ok h"
    "ic_sb h b = Some bb" "isolated bb" "place_fields bb = place_fields sb"
    using removeAll_total[OF ok sb] unfolding isolated_def by blast
  note C = chain_okD[OF icfg_okD(3)[OF h(4)] h(5)]
  define m1 where "m1 = (case sb_prev bb of None \<Rightarrow> ic_sb h
    | Some p \<Rightarrow> (ic_sb h)(p := map_option (\<lambda>s. s\<lparr>sb_next := sb_next bb\<rparr>) (ic_sb h p)))"
  have s1: "(case sb_prev bb of Some p \<Rightarrow> setNext p (sb_next bb) h | None \<Rightarrow> Some h) = Some (h\<lparr>ic_sb := m1\<rparr>)"
    using C(2) by (cases "sb_prev bb") (auto simp: setNext_def upd_sb_def m1_def)
  have b1: "m1 b = Some bb" using h(5) by (cases "sb_prev bb") (auto simp: m1_def)
  define m2 where "m2 = (case sb_next bb of None \<Rightarrow> m1
    | Some n \<Rightarrow> m1(n := map_option (\<lambda>s. s\<lparr>sb_prev := sb_prev bb\<rparr>) (m1 n)))"
  have "\<exists>s. m1 n = Some s" if "sb_next bb = Some n" for n
    using C(1)[OF that] by (cases "sb_prev bb") (auto simp: m1_def)
  then have s2: "(case sb_next bb of Some n \<Rightarrow> setPrev n (sb_prev bb) (h\<lparr>ic_sb := m1\<rparr>) | None \<Rightarrow> Some (h\<lparr>ic_sb := m1\<rparr>)) =
      Some (h\<lparr>ic_sb := m2\<rparr>)"
    by (cases "sb_next bb") (auto simp: setPrev_def upd_sb_def m2_def)
  have "m2 x = map_option (relink b bb) (ic_sb h x)" if "x \<noteq> b" for x
  proof (cases "ic_sb h x")
    case (Some sx)
    show ?thesis
      using Some unfolding relink_neighbours[OF icfg_okD(3)[OF h(4)] h(5) Some] m2_def m1_def
      by (simp add: relink_neighbours[OF icfg_okD(3)[OF h(4)] h(5) Some] split: option.splits)
  qed (simp add: m2_def m1_def split: option.splits)
  moreover have "cleanupBlock b g = Some (h\<lparr>ic_sb := m2\<rparr>)"
    using h(1,5) s1 s2 b1 by (simp add: cleanupBlock_def)
  ultimately show ?thesis using h(2-7) by blast
qed

lemma clear_entry_ok:
  assumes ok: "icfg_ok g" and fn: "ic_fn g f = Some fn"
  shows "icfg_ok (g\<lparr>ic_fn := (ic_fn g)(f \<mapsto> fn\<lparr>fn_entry := None\<rparr>)\<rparr>)"
proof -
  let ?h = "g\<lparr>ic_fn := (ic_fn g)(f \<mapsto> fn\<lparr>fn_entry := None\<rparr>)\<rparr>"
  have live: "live_be ?h = live_be g" "live_ce ?h = live_ce g" "live_re ?h = live_re g"
    by (simp_all add: fun_eq_iff live_defs)
  have "blocks_ok ?h"
  proof (rule blocks_okI, goal_cases)
    case (2 x fx b)
    then show ?case using blocks_okD(2)[OF icfg_okD(1)[OF ok], of x _ b] fn by (auto split: if_splits)
  next
    case (4 b sb)
    then show ?case using blocks_okD(4)[OF icfg_okD(1)[OF ok]] fn by (fastforce split: if_splits)
  qed (use blocks_okD[OF icfg_okD(1)[OF ok]] fn in \<open>auto split: if_splits\<close>)
  moreover have "instrs_ok ?h" by (rule instrs_cong[OF icfg_okD(2)[OF ok]]) simp_all
  moreover have "chain_ok ?h" by (rule chain_cong[OF icfg_okD(3)[OF ok]]) simp_all
  moreover have "edges_ok ?h" by (rule edges_cong[OF icfg_okD(4)[OF ok] _ _ live(1)]) simp_all
  moreover have "calls_ok ?h"
    by (rule calls_cong[OF icfg_okD(5)[OF ok] _ _ live(2)]) (use fn in \<open>auto intro!: agree_sym[OF agree_put]\<close>)
  moreover have "returns_ok ?h"
    by (rule returns_cong[OF icfg_okD(6)[OF ok] _ _ _ live(3)]) (use fn in \<open>auto intro!: agree_sym[OF agree_put]\<close>)
  moreover have "fresh_ok ?h" using icfg_okD(7)[OF ok] fn by (auto simp: fresh_ok_def)
  ultimately show ?thesis by (simp add: icfg_ok_def)
qed

lemma clear_entry_cases:
  assumes ok: "icfg_ok g" and fn: "ic_fn g f = Some fn"
  shows "\<exists>g1. upd_fn f (\<lambda>fn. if fn_entry fn = Some b then fn\<lparr>fn_entry := None\<rparr> else fn) g = Some g1 \<and> icfg_ok g1 \<and>
     ic_sb g1 = ic_sb g \<and> ic_is g1 = ic_is g \<and>
     (\<exists>fn1. ic_fn g1 f = Some fn1 \<and> fn_entry fn1 \<noteq> Some b \<and> fn_blocks fn1 = fn_blocks fn) \<and>
     (\<forall>x. x \<noteq> f \<longrightarrow> ic_fn g1 x = ic_fn g x)"
proof (cases "fn_entry fn = Some b")
  case True
  then show ?thesis using clear_entry_ok[OF ok fn] fn by (simp add: upd_fn_def)
next
  case False
  have "g\<lparr>ic_fn := (ic_fn g)(f \<mapsto> fn)\<rparr> = g" using fn by (simp add: fun_upd_idem)
  then show ?thesis using False fn ok by (simp add: upd_fn_def)
qed

lemma invalidate_neighbour:
  assumes ok: "icfg_ok g" and n: "\<And>x. n = Some x \<Longrightarrow> \<exists>nb. ic_sb g x = Some nb"
  shows "\<exists>h. (case n of Some x \<Rightarrow> invalidate_sb an x g | None \<Rightarrow> Some g) = Some h \<and> alike h g"
  using n invalidate_total[OF ok_parents[OF ok]] by (cases n) auto

text \<open>
  What is left of the graph: the edges of the block are cut, its neighbours are chained, and
  the other blocks keep their instructions.
\<close>

definition block_removed :: "nat \<Rightarrow> nat \<Rightarrow> icfg \<Rightarrow> icfg \<Rightarrow> bool" where
  "block_removed f b g h \<longleftrightarrow> ic_sb h b = None \<and>
     (\<forall>x. x \<noteq> b \<longrightarrow> map_option (\<lambda>sb. (sb_instrs sb, sb_function sb)) (ic_sb h x) =
        map_option (\<lambda>sb. (sb_instrs sb, sb_function sb)) (ic_sb g x)) \<and>
     (\<forall>x. map_option fn_blocks (ic_fn h x) =
        map_option (\<lambda>fn. if x = f then remove1 b (fn_blocks fn) else fn_blocks fn) (ic_fn g x))"

lemma removeBlock_total:
  assumes ok: "icfg_ok g" and sb: "ic_sb g b = Some sb" "sb_function sb = f"
  shows "\<exists>h. removeBlock f b g = Some h \<and> icfg_ok h \<and> block_removed f b g h"
proof -
  obtain fn where fn: "ic_fn g f = Some fn" "b \<in> set (fn_blocks fn)"
    using blocks_okD(4)[OF icfg_okD(1)[OF ok] sb(1)] sb(2) by blast
  obtain g1 fn1 where g1: "upd_fn f (\<lambda>fn. if fn_entry fn = Some b then fn\<lparr>fn_entry := None\<rparr> else fn) g = Some g1"
    "icfg_ok g1" "ic_sb g1 = ic_sb g" "ic_is g1 = ic_is g" "ic_fn g1 f = Some fn1" "fn_entry fn1 \<noteq> Some b"
    "fn_blocks fn1 = fn_blocks fn" "\<And>x. x \<noteq> f \<Longrightarrow> ic_fn g1 x = ic_fn g x"
    using clear_entry_cases[OF ok fn(1)] by blast
  note C = chain_okD[OF icfg_okD(3)[OF g1(2)]]
  have sb1: "ic_sb g1 b = Some sb" using sb(1) g1(3) by simp
  obtain g2 where g2: "(case sb_next sb of Some n \<Rightarrow> invalidate_sb AnStack n g1 | None \<Rightarrow> Some g1) = Some g2" "alike g2 g1"
    using invalidate_neighbour[OF g1(2)] C(1)[OF sb1] by blast
  have ok2: "icfg_ok g2" using alike_ok[OF g2(2)] g1(2) by simp
  have "\<exists>nb. ic_sb g2 x = Some nb" if "sb_prev sb = Some x" for x
    using C(2)[OF sb1 that] alike_sb[OF g2(2)] by blast
  then obtain g3 where g3: "(case sb_prev sb of Some p \<Rightarrow> invalidate_sb AnLiveness p g2 | None \<Rightarrow> Some g2) = Some g3" "alike g3 g2"
    using invalidate_neighbour[OF ok2] by blast
  have a3: "alike g3 g1" by (rule alike_trans[OF g3(2) g2(2)])
  have ok3: "icfg_ok g3" using alike_ok[OF a3] g1(2) by simp
  obtain sb3 where sb3: "ic_sb g3 b = Some sb3" "er_sb sb3 = er_sb sb" using alike_sb[OF a3 sb1] by blast
  obtain h k bb m where h: "cleanupBlock b g3 = Some (h\<lparr>ic_sb := m\<rparr>)" "pruned g3 k" "h = drop_instrs b (sb_instrs sb3) k" "icfg_ok h"
    "ic_sb h b = Some bb" "isolated bb" "place_fields bb = place_fields sb3" "\<forall>x. x \<noteq> b \<longrightarrow> m x = map_option (relink b bb) (ic_sb h x)"
    using cleanupBlock_total[OF ok3 sb3(1)] by blast
  have p: "pruned g1 k" by (rule pruned_trans[OF pruned_alike[OF g1(2) a3] h(2)])
  have hk: "ic_fn h = ic_fn k" "\<And>x. x \<noteq> b \<Longrightarrow> ic_sb h x = ic_sb k x"
    by (simp_all add: h(3) drop_instrs_def option.map_ident)
  obtain fn4 where fn4: "ic_fn h f = Some fn4" "fn_entry fn4 \<noteq> Some b" "fn_blocks fn4 = fn_blocks fn"
    using agreeD[OF prunedD(5)[OF p] g1(5)] g1(6,7) hk(1) by auto
  let ?r = "h\<lparr>ic_sb := m(b := None), ic_fn := (ic_fn h)(f \<mapsto> fn4\<lparr>fn_blocks := remove1 b (fn_blocks fn4)\<rparr>)\<rparr>"
  have "?r = del_block b bb h"
  proof -
    have "m(b := None) = ic_sb (del_block b bb h)" using h(8) by (auto simp: fun_eq_iff del_block_def)
    moreover have "((ic_fn h)(f \<mapsto> fn4\<lparr>fn_blocks := remove1 b (fn_blocks fn4)\<rparr>)) x = ic_fn (del_block b bb h) x" for x
    proof (cases "x = f")
      case True
      then show ?thesis using fn4 by (simp add: del_block_def)
    next
      case False
      show ?thesis
      proof (cases "ic_fn h x")
        case (Some fx)
        have nb: "b \<notin> set (fn_blocks fx)"
          using blocks_okD(2)[OF icfg_okD(1)[OF h(4)] Some, of b] h(5,7) er_sbD[OF sb3(2)] sb(2) False by auto
        then have "fn_entry fx \<noteq> Some b" using blocks_okD(3)[OF icfg_okD(1)[OF h(4)] Some] by blast
        then show ?thesis using Some False nb by (simp add: del_block_def remove1_idem)
      qed (use False in \<open>simp add: del_block_def\<close>)
    qed
    ultimately show ?thesis by (simp add: del_block_def fun_eq_iff)
  qed
  then have okr: "icfg_ok ?r" using del_block_ok[OF h(4-6)] by simp
  have "removeBlock f b g = Some ?r"
    using g1(1) sb1 g2(1) g3(1) h(1) fn4(1,3) fn(2) by (simp add: removeBlock_def upd_fn_def)
  moreover have "block_removed f b g ?r"
  proof -
    have "map_option (\<lambda>sb. (sb_instrs sb, sb_function sb)) (m x) = map_option (\<lambda>sb. (sb_instrs sb, sb_function sb)) (ic_sb g x)"
      if "x \<noteq> b" for x
    proof -
      have "map_option (\<lambda>sb. (sb_instrs sb, place_fields sb)) (ic_sb k x) = map_option (\<lambda>sb. (sb_instrs sb, place_fields sb)) (ic_sb g x)"
        using prunedD(2)[OF p] g1(3) by (simp add: agree_def)
      then show ?thesis using that h(8) hk(2) by (cases "ic_sb k x"; cases "ic_sb g x") auto
    qed
    moreover have "map_option fn_blocks (ic_fn k x) = map_option fn_blocks (ic_fn g x)" if "x \<noteq> f" for x
      using prunedD(5)[OF p] g1(8)[OF that] by (cases "ic_fn k x"; cases "ic_fn g x") (auto simp: agree_def dest: spec[of _ x])
    ultimately show ?thesis using fn4 fn(1) hk(1) by (simp add: block_removed_def)
  qed
  ultimately show ?thesis using okr by blast
qed

end
