(* ===== verification/Stack_Analysis.thy ===== *)
theory Stack_Analysis
  imports Traverse Liveness
begin

text \<open>
  The stack analysis (\<open>src/passes/StackAnalysisPass.hpp\<close>): program states are pushed forward
  through the instructions of a block and merged into the entry states of the blocks control
  may go to, until no entry state changes. Every instruction keeps what was found out about
  it (\<open>emulate\<close> with caching).
\<close>

section \<open>Forwarding a state\<close>

text \<open>The blocks to process and the graph.\<close>

type_synonym stack_pass = "nat list \<times> icfg"

definition set_entryState :: "program_state option \<Rightarrow> super_block \<Rightarrow> super_block" where
  "set_entryState s sb = sb\<lparr>sb_entryState := s\<rparr>"

definition set_stackValid :: "bool \<Rightarrow> super_block \<Rightarrow> super_block" where
  "set_stackValid v sb = sb\<lparr>sb_node := (sb_node sb)\<lparr>nd_stackValid := v\<rparr>\<rparr>"

definition push_block :: "nat \<Rightarrow> stack_pass \<Rightarrow> stack_pass option" where
  "push_block b = (\<lambda>(q, g).
     do { sb \<leftarrow> ic_sb g b;
          if nd_queued (sb_node sb) then Some (q, g)
          else do { g \<leftarrow> upd_sb b (set_queued True) g; Some (q @ [b], g) } })"

text \<open>Merging grows the stacks of both states, so the forwarded state is returned as well.\<close>

definition forwardStateToBlock :: "nat \<Rightarrow> program_state \<Rightarrow> stack_pass \<Rightarrow> (program_state \<times> stack_pass) option" where
  "forwardStateToBlock b ps = (\<lambda>(q, g).
     do { sb \<leftarrow> ic_sb g b;
          case sb_entryState sb of
            Some es \<Rightarrow>
              do { (changed, es, ps) \<leftarrow> merge es ps;
                   g \<leftarrow> upd_sb b (set_entryState (Some es)) g;
                   if changed
                   then do { g \<leftarrow> upd_sb b (set_stackValid False) g; s \<leftarrow> push_block b (q, g); Some (ps, s) }
                   else Some (ps, q, g) }
          | None \<Rightarrow>
              do { g \<leftarrow> upd_sb b (\<lambda>sb. set_stackValid False (set_entryState (Some ps) sb)) g;
                   s \<leftarrow> push_block b (q, g);
                   Some (ps, s) } })"

section \<open>One instruction\<close>

definition regIsDead :: "liveness_data \<Rightarrow> register \<Rightarrow> reg_access \<Rightarrow> bool option" where
  "regIsDead ld reg type = do { m \<leftarrow> getSubRegisterMask reg type; Some (mask_is_empty (mask_and (ld_out ld) m)) }"

text \<open>A register nobody reads any more is forgotten.\<close>

definition kill_reg :: "liveness_data \<Rightarrow> register \<Rightarrow> reg_access \<Rightarrow> program_state \<Rightarrow> program_state option" where
  "kill_reg ld reg type ps =
     do { dead \<leftarrow> regIsDead ld reg type; if dead then setRegister ps reg type Dead False else Some ps }"

fun kill_comparand :: "liveness_data \<Rightarrow> pred_comparand \<Rightarrow> program_state \<Rightarrow> program_state option" where
  "kill_comparand ld (PReg r) ps = kill_reg ld r Full ps"
| "kill_comparand ld (PImm _) ps = Some ps"

fun kill_comparisons :: "liveness_data \<Rightarrow> nat \<Rightarrow> predicate \<Rightarrow> program_state \<Rightarrow> program_state option" where
  "kill_comparisons ld 0 cs ps = Some ps"
| "kill_comparisons ld (Suc n) [] ps = throw"
| "kill_comparisons ld (Suc n) (c # cs) ps =
     do { ps \<leftarrow> kill_comparand ld (pc_lhs c) ps;
          ps \<leftarrow> kill_comparand ld (pc_rhs c) ps;
          if pc_con c = ConNone then Some ps else kill_comparisons ld n cs ps }"

definition kill_address :: "liveness_data \<Rightarrow> register \<Rightarrow> program_state \<Rightarrow> program_state option" where
  "kill_address ld r ps = (if r \<noteq> NoReg then kill_reg ld r Full ps else Some ps)"

definition kill_operand :: "liveness_data \<Rightarrow> operand_info \<Rightarrow> program_state \<Rightarrow> program_state option" where
  "kill_operand ld oi ps =
     (case oi_info oi of
        SoiReg r \<Rightarrow>
          do { ps \<leftarrow> (if isRead (sra_mode r) then kill_reg ld (sra_reg r) (sra_r r) ps else Some ps);
               if isWrite (sra_mode r) then kill_reg ld (sra_reg r) (sra_w r) ps else Some ps }
      | SoiMem m \<Rightarrow>
          (case sma_ptr m of
             MpSIB bs ix _ _ \<Rightarrow> do { ps \<leftarrow> kill_address ld bs ps; kill_address ld ix ps }
           | _ \<Rightarrow> Some ps)
      | SoiImm _ _ \<Rightarrow> Some ps)"

definition forget_dead :: "liveness_data \<Rightarrow> instruction_info \<Rightarrow> instr \<Rightarrow> program_state \<Rightarrow> program_state option" where
  "forget_dead ld info i ps =
     do { ps \<leftarrow> (case getPredicate i of Some p \<Rightarrow> kill_comparisons ld 2 p ps | None \<Rightarrow> Some ps);
          for_each (ii_operands info) (kill_operand ld) ps }"

definition set_dynInfo :: "dyn_info \<Rightarrow> instr \<Rightarrow> instr" where
  "set_dynInfo d i = i\<lparr>is_dynInfo := Some d\<rparr>"

text \<open>
  Where control goes on: a branch that is sure to be taken ends the block. An instruction
  without liveness data is passed over.
\<close>

definition leave_branch :: "instr \<Rightarrow> dyn_info \<Rightarrow> program_state \<Rightarrow> stack_pass \<Rightarrow> (bool \<times> program_state \<times> stack_pass) option" where
  "leave_branch i d ps s =
     (if isCall i then do { ps \<leftarrow> nastyInstruction ps; Some (False, ps, s) }
      else case (if isBranch i then is_branchEdge i else None) of
        None \<Rightarrow> Some (False, ps, s)
      | Some e \<Rightarrow>
          (case di_willExecute d of
             TFalse \<Rightarrow> Some (False, ps, s)
           | w \<Rightarrow>
               do { ed \<leftarrow> ic_be (snd s) e;
                    (ps, s) \<leftarrow> forwardStateToBlock (be_dst ed) ps s;
                    Some (w = TTrue, ps, s) }))"

definition stack_instruction :: "rw_env \<Rightarrow> nat \<Rightarrow> program_state \<Rightarrow> stack_pass \<Rightarrow> (bool \<times> program_state \<times> stack_pass) option" where
  "stack_instruction env a ps = (\<lambda>(q, g).
     do { i \<leftarrow> ic_is g a;
          info \<leftarrow> getInfo (is_ins i);
          case is_liveness i of
            None \<Rightarrow> Some (False, ps, q, g)
          | Some ld \<Rightarrow>
              do { (d, ps) \<leftarrow> emulate env (is_ins i) ps;
                   g \<leftarrow> upd_is a (set_dynInfo d) g;
                   ps \<leftarrow> forget_dead ld info i ps;
                   leave_branch i d ps (q, g) } })"

primrec stack_instructions :: "rw_env \<Rightarrow> nat list \<Rightarrow> program_state \<Rightarrow> stack_pass \<Rightarrow> (bool \<times> program_state \<times> stack_pass) option" where
  "stack_instructions env [] ps s = Some (False, ps, s)"
| "stack_instructions env (a # as) ps s =
     do { (stop, ps, s) \<leftarrow> stack_instruction env a ps s;
          if stop then Some (True, ps, s) else stack_instructions env as ps s }"

section \<open>One block\<close>

text \<open>A block in front of one without state has to push its state into it again.\<close>

definition push_again :: "nat \<Rightarrow> stack_pass \<Rightarrow> stack_pass option" where
  "push_again p = (\<lambda>(q, g).
     do { pb \<leftarrow> ic_sb g p;
          if \<not> nd_queued (sb_node pb) \<and> sb_entryState pb \<noteq> None
          then do { g \<leftarrow> upd_sb p (set_stackValid False) g; push_block p (q, g) }
          else Some (q, g) })"

definition push_again_edge :: "nat \<Rightarrow> stack_pass \<Rightarrow> stack_pass option" where
  "push_again_edge e = (\<lambda>(q, g). do { ed \<leftarrow> ic_be g e; push_again (be_src ed) (q, g) })"

definition stack_block :: "rw_env \<Rightarrow> nat \<Rightarrow> stack_pass \<Rightarrow> stack_pass option" where
  "stack_block env b = (\<lambda>(q, g).
     do { sb \<leftarrow> ic_sb g b;
          if nd_stackValid (sb_node sb) then Some (q, g)
          else do {
            g \<leftarrow> upd_sb b (set_stackValid True) g;
            case sb_entryState sb of
              None \<Rightarrow>
                do { (q, g) \<leftarrow> (case sb_prev sb of Some p \<Rightarrow> push_again p (q, g) | None \<Rightarrow> Some (q, g));
                     for_each (sb_in sb) push_again_edge (q, g) }
            | Some ps \<Rightarrow>
                do { (stop, ps, s) \<leftarrow> stack_instructions env (sb_instrs sb) ps (q, g);
                     case (if stop then None else sb_next sb) of
                       Some n \<Rightarrow> do { (ps, s) \<leftarrow> forwardStateToBlock n ps s; Some s }
                     | None \<Rightarrow> Some s } } })"

section \<open>One function\<close>

definition stack_queue :: "nat list visitor" where
  "stack_queue b = (\<lambda>(q, g).
     do { sb \<leftarrow> ic_sb g b;
          if \<not> nd_queued (sb_node sb) \<and> \<not> nd_stackValid (sb_node sb)
          then do { g \<leftarrow> upd_sb b (set_queued True) g; Some (False, q @ [b], g) }
          else Some (False, q, g) })"

partial_function (option) stack_loop :: "rw_env \<Rightarrow> stack_pass \<Rightarrow> icfg option" where
  "stack_loop env s =
     (case fst s of
        [] \<Rightarrow> Some (snd s)
      | b # q \<Rightarrow>
          do { g \<leftarrow> upd_sb b (set_queued False) (snd s);
               s \<leftarrow> stack_block env b (q, g);
               stack_loop env s })"

declare stack_loop.simps [code]

definition set_fn_stackValid :: "func \<Rightarrow> func" where
  "set_fn_stackValid fn = fn\<lparr>fn_node := (fn_node fn)\<lparr>nd_stackValid := True\<rparr>\<rparr>"

definition stack_function :: "rw_env \<Rightarrow> nat \<Rightarrow> icfg \<Rightarrow> icfg option" where
  "stack_function env f g =
     do { fn \<leftarrow> ic_fn g f;
          if nd_stackValid (fn_node fn) then Some g
          else
            do { (_, s) \<leftarrow> for_each_block_bfs f stack_queue ([], g);
                 g \<leftarrow> stack_loop env s;
                 upd_fn f set_fn_stackValid g } }"

definition stack_run :: "rw_env \<Rightarrow> program_state \<Rightarrow> icfg \<Rightarrow> icfg option" where
  "stack_run env entry g =
     (case ic_entry g of
        None \<Rightarrow> Some g
      | Some f \<Rightarrow>
          if nd_stackValid (ic_node g) then Some g
          else
            do { fn \<leftarrow> ic_fn g f;
                 case fn_entry fn of
                   None \<Rightarrow> Some g
                 | Some e \<Rightarrow>
                     do { sb \<leftarrow> ic_sb g e;
                          g \<leftarrow> (if sb_entryState sb = None then upd_sb e (set_entryState (Some entry)) g else Some g);
                          g \<leftarrow> stack_function env f g;
                          Some (g\<lparr>ic_node := (ic_node g)\<lparr>nd_stackValid := True\<rparr>\<rparr>) } })"

end
