(* ===== verification/Abi.thy ===== *)
theory Abi
  imports Config Icfg
begin

text \<open>
  What the calling convention says about the function that is rewritten
  (\<open>src/x86/Abi.cpp\<close>): where its parameters are, which registers it returns its result in
  and which it must preserve. \<open>arch_translate_cfg\<close> turns a configuration into the
  specification of the function and the program state at its entry (\<open>src/RewriterCfg.hpp\<close>).
\<close>

section \<open>What is built\<close>

record stack_range =
  sr_offset :: int
  sr_length :: int

record function_spec =
  fs_stack_in :: "stack_range list"
  fs_reg :: reg_operands

record rewriter_cfg =
  rc_spec :: function_spec
  rc_state :: program_state
  rc_usrPtrs :: "usr_ptr_cfg list"

definition rewriter_init :: rewriter_cfg where
  "rewriter_init = \<lparr>rc_spec = \<lparr>fs_stack_in = [],
       fs_reg = \<lparr>ro_in = mask_zero, ro_out = mask_zero, ro_preserved = mask_zero\<rparr>\<rparr>,
     rc_state = ps_init, rc_usrPtrs = []\<rparr>"

text \<open>\<open>emplace_back\<close> with no argument clears the members without initialiser as well.\<close>

definition nextUsrPtr :: "rewriter_cfg \<Rightarrow> nat \<times> rewriter_cfg" where
  "nextUsrPtr c = (length (rc_usrPtrs c),
     c\<lparr>rc_usrPtrs := rc_usrPtrs c @ [\<lparr>up_isKnown = False, up_isConst = False, up_isRestrict = False,
        up_isNotNull = False, up_align = 0, up_val = 0\<rparr>]\<rparr>)"

section \<open>Classes\<close>

datatype amd64_class = ClNone | Integer8 | Integer16 | Integer32 | Integer64 | Integer128
  | Sse32 | Sse64 | Sse128

fun drobParamTypeToAMD64 :: "param_type \<Rightarrow> amd64_class option" where
  "drobParamTypeToAMD64 TyVoid = Some ClNone"
| "drobParamTypeToAMD64 TyBool = Some Integer8" | "drobParamTypeToAMD64 TyChar = Some Integer8"
| "drobParamTypeToAMD64 TyUchar = Some Integer8" | "drobParamTypeToAMD64 TyInt8 = Some Integer8"
| "drobParamTypeToAMD64 TyUint8 = Some Integer8"
| "drobParamTypeToAMD64 TyShort = Some Integer16" | "drobParamTypeToAMD64 TyUshort = Some Integer16"
| "drobParamTypeToAMD64 TyInt16 = Some Integer16" | "drobParamTypeToAMD64 TyUint16 = Some Integer16"
| "drobParamTypeToAMD64 TyInt = Some Integer32" | "drobParamTypeToAMD64 TyUint = Some Integer32"
| "drobParamTypeToAMD64 TyUint32 = Some Integer32" | "drobParamTypeToAMD64 TyInt32 = Some Integer32"
| "drobParamTypeToAMD64 TyLong = Some Integer64" | "drobParamTypeToAMD64 TyUlong = Some Integer64"
| "drobParamTypeToAMD64 TyLonglong = Some Integer64" | "drobParamTypeToAMD64 TyUlonglong = Some Integer64"
| "drobParamTypeToAMD64 TyInt64 = Some Integer64" | "drobParamTypeToAMD64 TyUint64 = Some Integer64"
| "drobParamTypeToAMD64 TyPtr = Some Integer64"
| "drobParamTypeToAMD64 TyInt128 = Some Integer128" | "drobParamTypeToAMD64 TyUint128 = Some Integer128"
| "drobParamTypeToAMD64 TyFloat = Some Sse32" | "drobParamTypeToAMD64 TyDouble = Some Sse64"
| "drobParamTypeToAMD64 TyM128 = Some Sse128" | "drobParamTypeToAMD64 TyFloat128 = Some Sse128"
| "drobParamTypeToAMD64 (TyOther _) = throw"

section \<open>Registers and stack ranges of the entry\<close>

text \<open>The three things every case does: note the registers, note the range, set the value.\<close>

definition upd_regs :: "(reg_operands \<Rightarrow> reg_operands) \<Rightarrow> rewriter_cfg \<Rightarrow> rewriter_cfg" where
  "upd_regs f c = c\<lparr>rc_spec := (rc_spec c)\<lparr>fs_reg := f (fs_reg (rc_spec c))\<rparr>\<rparr>"

definition add_in :: "register \<Rightarrow> reg_access \<Rightarrow> rewriter_cfg \<Rightarrow> rewriter_cfg option" where
  "add_in r a c = do { m \<leftarrow> getSubRegisterMask r a; Some (upd_regs (\<lambda>x. x\<lparr>ro_in := mask_add (ro_in x) m\<rparr>) c) }"

definition add_out :: "register \<Rightarrow> reg_access \<Rightarrow> rewriter_cfg \<Rightarrow> rewriter_cfg option" where
  "add_out r a c = do { m \<leftarrow> getSubRegisterMask r a; Some (upd_regs (\<lambda>x. x\<lparr>ro_out := mask_add (ro_out x) m\<rparr>) c) }"

definition add_preserved :: "register \<Rightarrow> rewriter_cfg \<Rightarrow> rewriter_cfg option" where
  "add_preserved r c =
     do { m \<leftarrow> getSubRegisterMask r Full; Some (upd_regs (\<lambda>x. x\<lparr>ro_preserved := mask_add (ro_preserved x) m\<rparr>) c) }"

definition add_range :: "int \<Rightarrow> int \<Rightarrow> rewriter_cfg \<Rightarrow> rewriter_cfg" where
  "add_range off len c = c\<lparr>rc_spec := (rc_spec c)\<lparr>fs_stack_in :=
     fs_stack_in (rc_spec c) @ [\<lparr>sr_offset = off, sr_length = len\<rparr>]\<rparr>\<rparr>"

definition entry_reg :: "register \<Rightarrow> reg_access \<Rightarrow> dyn_value \<Rightarrow> rewriter_cfg \<Rightarrow> rewriter_cfg option" where
  "entry_reg r a v c = do { ps \<leftarrow> setRegister (rc_state c) r a v False; Some (c\<lparr>rc_state := ps\<rparr>) }"

definition entry_stack :: "int \<Rightarrow> mem_access_size \<Rightarrow> dyn_value \<Rightarrow> rewriter_cfg \<Rightarrow> rewriter_cfg option" where
  "entry_stack off sz v c = do { ps \<leftarrow> setStack (rc_state c) off sz v False; Some (c\<lparr>rc_state := ps\<rparr>) }"

definition pass_reg :: "register \<Rightarrow> reg_access \<Rightarrow> dyn_value \<Rightarrow> rewriter_cfg \<Rightarrow> rewriter_cfg option" where
  "pass_reg r a v c = do { c \<leftarrow> add_in r a c; entry_reg r a v c }"

definition pass_stack :: "int \<Rightarrow> mem_access_size \<Rightarrow> dyn_value \<Rightarrow> rewriter_cfg \<Rightarrow> rewriter_cfg option" where
  "pass_stack off sz v c = entry_stack off sz v (add_range off (int (mem_bytes sz)) c)"

section \<open>The result\<close>

definition translateRet :: "param_type \<Rightarrow> rewriter_cfg \<Rightarrow> rewriter_cfg option" where
  "translateRet t c =
     do { c \<leftarrow> entry_stack 0 MB8 (Ptr ReturnPtr 0 0) (add_range 0 8 c);
          cl \<leftarrow> drobParamTypeToAMD64 t;
          case cl of
            ClNone \<Rightarrow> Some c
          | Integer8 \<Rightarrow> add_out (Gpr8 GA) Full c
          | Integer16 \<Rightarrow> add_out (Gpr16 GA) Full c
          | Integer32 \<Rightarrow> add_out (Gpr32 GA) Full c
          | Integer64 \<Rightarrow> add_out (Gpr64 GA) Full c
          | Integer128 \<Rightarrow> do { c \<leftarrow> add_out (Gpr64 GD) Full c; add_out (Gpr64 GA) Full c }
          | Sse32 \<Rightarrow> add_out (XmmReg X0) F0 c
          | Sse64 \<Rightarrow> add_out (XmmReg X0) H0 c
          | Sse128 \<Rightarrow> add_out (XmmReg X0) Full c }"

section \<open>Parameters\<close>

text \<open>The C conversions: a signed member is extended by its sign, the other ones by zeros.\<close>

definition drobParamToImm32 :: "param_cfg \<Rightarrow> u32 option" where
  "drobParamToImm32 p =
     do { drob_assert (pc_state p = ParamConst);
          let v = pc_value p;
          case pc_type p of
            TyBool \<Rightarrow> Some (ucast (ucast v :: byte))
          | TyChar \<Rightarrow> Some (scast (ucast v :: byte))
          | TyUchar \<Rightarrow> Some (ucast (ucast v :: byte))
          | TyInt8 \<Rightarrow> Some (scast (ucast v :: byte))
          | TyUint8 \<Rightarrow> Some (ucast (ucast v :: byte))
          | TyShort \<Rightarrow> Some (scast (ucast v :: u16))
          | TyUshort \<Rightarrow> Some (ucast (ucast v :: u16))
          | TyInt16 \<Rightarrow> Some (scast (ucast v :: u16))
          | TyUint16 \<Rightarrow> Some (ucast (ucast v :: u16))
          | TyInt \<Rightarrow> Some (ucast v)
          | TyUint \<Rightarrow> Some (ucast v)
          | TyInt32 \<Rightarrow> Some (ucast v)
          | TyUint32 \<Rightarrow> Some (ucast v)
          | _ \<Rightarrow> throw }"

definition integer64_regs :: "register list" where
  "integer64_regs = [Gpr64 GDI, Gpr64 GSI, Gpr64 GD, Gpr64 GC, Gpr64 G8, Gpr64 G9]"

definition integer32_regs :: "register list" where
  "integer32_regs = [Gpr32 GDI, Gpr32 GSI, Gpr32 GD, Gpr32 GC, Gpr32 G8, Gpr32 G9]"

definition sse_regs :: "register list" where
  "sse_regs = [XmmReg X0, XmmReg X1, XmmReg X2, XmmReg X3, XmmReg X4, XmmReg X5, XmmReg X6, XmmReg X7]"

text \<open>What the translation carries from one parameter to the next.\<close>

record abi =
  ab_cfg :: rewriter_cfg
  ab_intIdx :: nat
  ab_sseIdx :: nat
  ab_off :: int    \<comment> \<open>\<open>stackOffset\<close>\<close>

definition next_int :: "rewriter_cfg \<Rightarrow> abi \<Rightarrow> abi" where
  "next_int c s = s\<lparr>ab_cfg := c, ab_intIdx := ab_intIdx s + 1\<rparr>"

definition next_sse :: "rewriter_cfg \<Rightarrow> abi \<Rightarrow> abi" where
  "next_sse c s = s\<lparr>ab_cfg := c, ab_sseIdx := ab_sseIdx s + 1\<rparr>"

definition next_stack :: "int \<Rightarrow> rewriter_cfg \<Rightarrow> abi \<Rightarrow> abi" where
  "next_stack n c s = s\<lparr>ab_cfg := c, ab_off := ab_off s + n\<rparr>"

definition known :: "param_cfg \<Rightarrow> dyn_value \<Rightarrow> dyn_value" where
  "known p v = (if pc_state p = ParamConst then v else Unknown)"

definition known_imm32 :: "param_cfg \<Rightarrow> dyn_value option" where
  "known_imm32 p =
     (if pc_state p = ParamConst then do { w \<leftarrow> drobParamToImm32 p; Some (Imm64 (ucast w)) } else Some Unknown)"

definition translateInt32 :: "param_cfg \<Rightarrow> abi \<Rightarrow> abi option" where
  "translateInt32 p s =
     do { v \<leftarrow> known_imm32 p;
          if ab_intIdx s < 6
          then do { c \<leftarrow> pass_reg (integer32_regs ! ab_intIdx s) Full v (ab_cfg s); Some (next_int c s) }
          else do { c \<leftarrow> pass_stack (ab_off s) MB4 v (ab_cfg s); Some (next_stack 8 c s) } }"

definition translateInt64 :: "param_cfg \<Rightarrow> abi \<Rightarrow> abi option" where
  "translateInt64 p s =
     do { let v = known p (Imm64 (ucast (pc_value p)));
          if ab_intIdx s < 6
          then do { c \<leftarrow> pass_reg (integer64_regs ! ab_intIdx s) Full v (ab_cfg s); Some (next_int c s) }
          else do { c \<leftarrow> pass_stack (ab_off s) MB8 v (ab_cfg s); Some (next_stack 8 c s) } }"

definition translateInt128 :: "param_cfg \<Rightarrow> abi \<Rightarrow> abi option" where
  "translateInt128 p s =
     do { let lo = Imm64 (ucast (pc_value p));
          let hi = Imm64 (ucast (drop_bit 64 (pc_value p)));
          if ab_intIdx s + 1 < 6
          then do { c \<leftarrow> pass_reg (integer64_regs ! ab_intIdx s) Full (known p lo) (ab_cfg s);
                    let s = next_int c s;
                    c \<leftarrow> pass_reg (integer64_regs ! ab_intIdx s) Full (known p hi) (ab_cfg s);
                    Some (next_int c s) }
          else do { let s = (if ab_off s mod 16 \<noteq> 0 then next_stack 8 (ab_cfg s) s else s);
                    drob_assert (ab_off s mod 16 = 0);
                    c \<leftarrow> pass_stack (ab_off s) MB16 (known p (Imm128 (pc_value p))) (ab_cfg s);
                    Some (next_stack 16 c s) } }"

text \<open>The three cases of vector registers differ in the access and the size of the value.\<close>

definition translateSse :: "reg_access \<Rightarrow> mem_access_size \<Rightarrow> int \<Rightarrow> dyn_value \<Rightarrow> param_cfg \<Rightarrow> abi \<Rightarrow> abi option" where
  "translateSse a sz slot v p s =
     (if ab_sseIdx s < 8
      then do { c \<leftarrow> pass_reg (sse_regs ! ab_sseIdx s) a (known p v) (ab_cfg s); Some (next_sse c s) }
      else do { c \<leftarrow> pass_stack (ab_off s) sz (known p v) (ab_cfg s); Some (next_stack slot c s) })"

definition translateParam :: "param_cfg \<Rightarrow> abi \<Rightarrow> abi option" where
  "translateParam p s =
     do { cl \<leftarrow> drobParamTypeToAMD64 (pc_type p);
          case cl of
            Integer8 \<Rightarrow> translateInt32 p s
          | Integer16 \<Rightarrow> translateInt32 p s
          | Integer32 \<Rightarrow> translateInt32 p s
          | Integer64 \<Rightarrow> translateInt64 p s
          | Integer128 \<Rightarrow> translateInt128 p s
          | Sse32 \<Rightarrow> translateSse F0 MB4 8 (Imm64 (ucast (ucast (pc_value p) :: u32))) p s
          | Sse64 \<Rightarrow> translateSse H0 MB8 8 (Imm64 (ucast (pc_value p))) p s
          | Sse128 \<Rightarrow> translateSse Full MB16 16 (Imm128 (pc_value p)) p s
          | ClNone \<Rightarrow> throw }"

definition usr_ptr_of :: "param_cfg \<Rightarrow> usr_ptr_cfg \<Rightarrow> usr_ptr_cfg" where
  "usr_ptr_of p u =
     (let u = (if pc_state p = ParamConst then u\<lparr>up_isKnown := True, up_val := ucast (pc_value p)\<rparr> else u);
          u = (if bit (pc_ptr_flags p) 0 then u\<lparr>up_isConst := True\<rparr> else u);
          u = (if bit (pc_ptr_flags p) 1 then u\<lparr>up_isRestrict := True\<rparr> else u);
          u = (if bit (pc_ptr_flags p) 2 then u\<lparr>up_isNotNull := True\<rparr> else u)
      in u\<lparr>up_align := pc_ptr_align p\<rparr>)"

definition translatePtr :: "param_cfg \<Rightarrow> abi \<Rightarrow> abi option" where
  "translatePtr p s =
     do { let (nr, c) = nextUsrPtr (ab_cfg s);
          let v = Ptr UsrPtr (of_nat nr) 0;
          s \<leftarrow> (if ab_intIdx s < 6
                then do { c \<leftarrow> pass_reg (integer64_regs ! ab_intIdx s) Full v c; Some (next_int c s) }
                else do { c \<leftarrow> pass_stack (ab_off s) MB8 v c; Some (next_stack 8 c s) });
          let c = ab_cfg s;
          Some (s\<lparr>ab_cfg := c\<lparr>rc_usrPtrs := (rc_usrPtrs c)[nr := usr_ptr_of p (rc_usrPtrs c ! nr)]\<rparr>\<rparr>) }"

definition translate_one :: "param_cfg \<Rightarrow> abi \<Rightarrow> abi option" where
  "translate_one p s = (if pc_type p = TyPtr then translatePtr p s else translateParam p s)"

section \<open>The whole translation\<close>

definition callee_saved :: "register list" where
  "callee_saved = [Gpr64 GB, Gpr64 GBP, Gpr64 G12, Gpr64 G13, Gpr64 G14, Gpr64 G15]"

definition save_callee :: "register \<Rightarrow> rewriter_cfg \<Rightarrow> rewriter_cfg option" where
  "save_callee r c = do { c \<leftarrow> add_preserved r c; entry_reg r Full Unknown c }"

definition arch_translate_cfg :: "drob_cfg \<Rightarrow> rewriter_cfg \<Rightarrow> rewriter_cfg option" where
  "arch_translate_cfg cfg c =
     do { let c = upd_regs (\<lambda>_. \<lparr>ro_in = mask_zero, ro_out = mask_zero, ro_preserved = mask_zero\<rparr>) c;
          c \<leftarrow> translateRet (dc_ret cfg) c;
          s \<leftarrow> for_each [0..<nat (dc_count cfg)] (\<lambda>i s. do { p \<leftarrow> param_at cfg (int i); translate_one p s })
                 \<lparr>ab_cfg = c, ab_intIdx = 0, ab_sseIdx = 0, ab_off = 8\<rparr>;
          c \<leftarrow> add_in (Gpr64 GSP) Full (ab_cfg s);
          c \<leftarrow> add_preserved (Gpr64 GSP) c;
          c \<leftarrow> entry_reg (Gpr64 GSP) Full (Ptr StackPtr 0 0) c;
          for_each callee_saved save_callee c }"

end
