(* ===== verification/Abi_Sound.thy ===== *)
theory Abi_Sound
  imports Abi
begin

text \<open>
  The translation of a configuration against the calling convention itself. The first
  sections say, without the code, where the System V convention puts every argument and
  which bytes it has there; the rest shows that the program state at the entry describes
  every machine that passes its arguments that way, and that the specification names the
  registers they are in.
\<close>

section \<open>Where the convention puts the arguments\<close>

text \<open>
  The integer and vector registers that are left, and the next offset on the stack. The
  stack pointer at the entry is 8 modulo 16: the return address is at 0, and an argument
  that has to be aligned to 16 bytes is at an offset that is 8 modulo 16.
\<close>

type_synonym slots = "gpr list \<times> xmm list \<times> int"

definition arg_gprs :: "gpr list" where
  "arg_gprs = [GDI, GSI, GD, GC, G8, G9]"

definition arg_xmms :: "xmm list" where
  "arg_xmms = [X0, X1, X2, X3, X4, X5, X6, X7]"

definition vector_type :: "param_type \<Rightarrow> bool" where
  "vector_type t \<longleftrightarrow> t \<in> {TyFloat, TyDouble, TyM128, TyFloat128}"

definition arg_size :: "param_type \<Rightarrow> nat" where
  "arg_size t = max 4 (member_size t)"

definition arg_mem :: "nat \<Rightarrow> mem_access_size" where
  "arg_mem n = (if n = 4 then MB4 else if n = 8 then MB8 else MB16)"

definition arg_align :: "nat \<Rightarrow> int \<Rightarrow> int" where
  "arg_align n off = (if n = 16 \<and> off mod 16 \<noteq> 8 then off + 8 else off)"

fun stack_slot :: "nat \<Rightarrow> slots \<Rightarrow> place list \<times> slots" where
  "stack_slot n (gs, xs, off) =
     ([PlStack (arg_align n off) (arg_mem n)], (gs, xs, arg_align n off + int (max 8 n)))"

fun sysv_step :: "param_type \<Rightarrow> slots \<Rightarrow> place list \<times> slots" where
  "sysv_step t (gs, xs, off) =
     (let n = arg_size t in
      if vector_type t then
        (case xs of
           x # xs \<Rightarrow> ([PlReg (XmmReg x) (if n = 4 then F0 else if n = 8 then H0 else Full)], (gs, xs, off))
         | [] \<Rightarrow> stack_slot n (gs, xs, off))
      else if n = 16 then
        (case gs of
           a # b # gs \<Rightarrow> ([PlReg (Gpr64 a) Full, PlReg (Gpr64 b) Full], (gs, xs, off))
         | _ \<Rightarrow> stack_slot n (gs, xs, off))
      else
        (case gs of
           g # gs \<Rightarrow> ([PlReg (if n = 4 then Gpr32 g else Gpr64 g) Full], (gs, xs, off))
         | [] \<Rightarrow> stack_slot n (gs, xs, off)))"

primrec sysv_from :: "slots \<Rightarrow> param_type list \<Rightarrow> place list list" where
  "sysv_from s [] = []"
| "sysv_from s (t # ts) = (case sysv_step t s of (pls, s') \<Rightarrow> pls # sysv_from s' ts)"

definition sysv_places :: "param_type list \<Rightarrow> place list list" where
  "sysv_places ts = sysv_from (arg_gprs, arg_xmms, 8) ts"

text \<open>No argument of 16 bytes lies on the stack.\<close>

definition wide_on_stack :: "place list list \<Rightarrow> bool" where
  "wide_on_stack = list_ex (list_ex (\<lambda>pl. case pl of PlStack _ sz \<Rightarrow> sz = MB16 | _ \<Rightarrow> False))"

section \<open>The bytes of an argument\<close>

text \<open>The C value of a narrow integer; it is passed extended to 32 bits.\<close>

definition arg_int :: "param_type \<Rightarrow> u128 \<Rightarrow> int" where
  "arg_int t v =
     (if t \<in> {TyChar, TyInt8} then sint (ucast v :: byte)
      else if t \<in> {TyBool, TyUchar, TyUint8} then uint (ucast v :: byte)
      else if t \<in> {TyShort, TyInt16} then sint (ucast v :: u16)
      else if t \<in> {TyUshort, TyUint16} then uint (ucast v :: u16)
      else uint v)"

definition arg_bytes :: "param_type \<Rightarrow> u128 \<Rightarrow> byte list" where
  "arg_bytes t v = le_bytes (arg_size t) (of_int (arg_int t v) :: u128)"

definition load_all :: "machine \<Rightarrow> place list \<Rightarrow> byte list" where
  "load_all m pls = concat (map (load_place m) pls)"

text \<open>
  The machine has the argument of one parameter, of all parameters from the \<open>k\<close>-th pointer
  on, and the stack pointer with the return address.
\<close>

definition arg_at :: "base \<Rightarrow> machine \<Rightarrow> place list \<Rightarrow> param_cfg \<Rightarrow> nat \<Rightarrow> bool" where
  "arg_at base m pls p k \<longleftrightarrow>
     (if pc_type p = TyPtr then le_word (load_all m pls) = base UsrPtr (of_nat k)
      else pc_state p = ParamConst \<longrightarrow> load_all m pls = arg_bytes (pc_type p) (pc_value p))"

fun args_at :: "base \<Rightarrow> machine \<Rightarrow> nat \<Rightarrow> place list list \<Rightarrow> param_cfg list \<Rightarrow> bool" where
  "args_at base m k (pls # r) (p # ps) =
     (arg_at base m pls p k \<and> args_at base m (if pc_type p = TyPtr then k + 1 else k) r ps)"
| "args_at base m k r [] = True"
| "args_at base m k [] (p # ps) = False"

definition at_entry :: "base \<Rightarrow> machine \<Rightarrow> bool" where
  "at_entry base m \<longleftrightarrow>
     (\<forall>loc. loc_ok loc \<longrightarrow> length (m_reg m loc) = loc_size loc) \<and>
     le_word (load_place m (PlReg (Gpr64 GSP) Full)) = base StackPtr 0 \<and>
     le_word (load_place m (PlStack 0 MB8)) = base ReturnPtr 0"

section \<open>Noting what the machine has\<close>

definition shaped :: "machine \<Rightarrow> bool" where
  "shaped m \<longleftrightarrow> (\<forall>loc. loc_ok loc \<longrightarrow> length (m_reg m loc) = loc_size loc)"

lemma shapedD: "shaped m \<Longrightarrow> loc_ok loc \<Longrightarrow> length (m_reg m loc) = loc_size loc"
  by (simp add: shaped_def)

text \<open>Writing the value the machine has at a place keeps the state a description of it.\<close>

lemma note_reg:
  assumes wf: "wf_ps ps" and acc: "access_ok r a" "a \<noteq> FullZeroParent"
    and d: "getRegisterData r a = Some (loc, off, n)"
    and inner: "no_inner_head (reg_elems ps loc) off n" and sz: "size_ok v n"
  shows "\<exists>ps'. setRegister ps r a v False = Some ps' \<and> wf_ps ps' \<and> ps_stack ps' = ps_stack ps \<and>
    (\<forall>l. loc_ok l \<longrightarrow> l \<noteq> loc \<longrightarrow> reg_elems ps' l = reg_elems ps l) \<and>
    (\<forall>base m. shaped m \<longrightarrow> ps_conc base ps m \<longrightarrow> bytes_conc base v (load_place m (PlReg r a)) \<longrightarrow>
       ps_conc base ps' m)"
proof -
  have b: "loc_ok loc" "0 < n" "off + n \<le> loc_size loc" using access_bounds[OF acc(1)] d by auto
  obtain es where es: "set_elements (reg_elems ps loc) off n v False = Some es" "wf_ps (put_reg loc es ps)"
    "\<forall>base m bs. ps_conc base ps m \<longrightarrow> bytes_conc base v bs \<longrightarrow> length bs = n \<longrightarrow>
       ps_conc base (put_reg loc es ps) (splice_reg loc off bs m)"
    using set_loc_elements[OF wf b inner sz] by blast
  have "ps_conc base (put_reg loc es ps) m"
    if s: "shaped m" and c: "ps_conc base ps m" and v: "bytes_conc base v (load_place m (PlReg r a))" for base m
  proof -
    let ?bs = "segment (m_reg m loc) off n"
    have l: "off + n \<le> length (m_reg m loc)" using shapedD[OF s b(1)] b(3) by simp
    have "load_place m (PlReg r a) = ?bs" using d by (simp add: reg_range_def)
    then have "ps_conc base (put_reg loc es ps) (splice_reg loc off ?bs m)" using es(3) c v l by simp
    moreover have "splice_reg loc off ?bs m = m" using splice_segment[OF l] by (simp add: splice_reg_def)
    ultimately show ?thesis by simp
  qed
  then show ?thesis using es(1,2) d acc(2) b(1) wf
    by (intro exI[of _ "put_reg loc es ps"]) (simp add: setRegister_def)
qed

lemma store_same_stack: "store_place m (PlStack off sz) (load_place m (PlStack off sz)) = m"
proof -
  have "(\<lambda>a. if off \<le> a \<and> a < off + int (mem_bytes sz)
      then map (\<lambda>i. m_stack m (off + int i)) [0..<mem_bytes sz] ! nat (a - off) else m_stack m a) = m_stack m"
    (is "?f = _")
  proof
    fix a
    show "?f a = m_stack m a"
    proof (cases "off \<le> a \<and> a < off + int (mem_bytes sz)")
      case True
      then have "nat (a - off) < mem_bytes sz" by linarith
      then show ?thesis using True by simp
    next
      case False
      then show ?thesis by (simp only: if_False)
    qed
  qed
  then show ?thesis by simp
qed

text \<open>A stack of which nothing is known from an offset on.\<close>

definition fresh_from :: "int \<Rightarrow> stack_state \<Rightarrow> bool" where
  "fresh_from off st \<longleftrightarrow> \<not> st_dead st \<and> st_base st = 0 \<and> int (length (st_elems st)) \<le> off"

lemma note_stack:
  assumes wf: "wf_ps ps" and fr: "fresh_from off (ps_stack ps)" and off: "0 \<le> off" "off + 16 < 2 ^ 32"
    and n: "mem_bytes sz \<in> {1, 2, 4, 8, 16}" and sz: "size_ok v (mem_bytes sz)"
  shows "\<exists>ps'. setStack ps off sz v False = Some ps' \<and> wf_ps ps' \<and>
    fresh_from (off + int (mem_bytes sz)) (ps_stack ps') \<and>
    (\<forall>l. reg_elems ps' l = reg_elems ps l) \<and>
    (\<forall>base m. ps_conc base ps m \<longrightarrow> bytes_conc base v (load_place m (PlStack off sz)) \<longrightarrow> ps_conc base ps' m)"
proof -
  let ?n = "mem_bytes sz"
  let ?st = "grow off ?n (ps_stack ps)"
  have g: "?st = (ps_stack ps)\<lparr>st_elems := resize (nat (off + int ?n)) (st_elems (ps_stack ps))\<rparr>"
    using fr off n by (auto simp: fresh_from_def grow_def grow_old_def grow_new_def oldStackSize_def newStackSize_def)
  have len: "length (st_elems ?st) = nat (off + int ?n)" "st_base ?st = 0" "\<not> st_dead ?st"
    using fr off by (auto simp: g resize_def fresh_from_def)
  have room: "stack_room ps off sz" using len(1) off n by (auto simp: stack_room_def)
  have idx: "getStackIdx ?st off = nat off" using off len(2) by (simp add: getStackIdx_def)
  have dead: "st_elems ?st ! i = dead_elem" if "nat off \<le> i" "i < length (st_elems ?st)" for i
    using that fr len(1) by (auto simp: g resize_def fresh_from_def nth_append)
  have "no_inner_head (st_elems ?st) (nat off) ?n"
    using dead by (auto simp: no_inner_head_def list_all_iff head_at_def)
  then have ok: "write_place_ok ps (PlStack off sz) v" using room sz idx by (simp add: Let_def)
  obtain ps' where ps': "setStack ps off sz v False = Some ps'" "wf_ps ps'"
    "\<forall>base m bs. ps_conc base ps m \<longrightarrow> bytes_conc base v bs \<longrightarrow> length bs = ?n \<longrightarrow>
       ps_conc base ps' (store_place m (PlStack off sz) bs)"
    using write_stack_place[OF wf ok] by blast
  have su: "sz \<noteq> MUnknown" using n by auto
  obtain es where es: "set_elements (st_elems ?st) (getStackIdx ?st off) ?n v False = Some es"
    "ps' = put_stack es (grow_stack off ?n ps)"
    using ps'(1) fr su by (auto simp: setStack_def isStackDead_def fresh_from_def bind_eq_Some_conv Let_def)
  have "length es = length (st_elems ?st)"
  proof -
    have w: "wf_elems (st_elems ?st)"
      using grow_facts(1)[OF _ wf_ps_stack[OF wf], of off ?n] fr by (simp add: wf_stack_def fresh_from_def)
    show ?thesis
      using set_elements_spec[OF w mem_bytes_pos[OF su], of "getStackIdx ?st off" v] ok es(1) idx len(1) off
      by (auto simp: Let_def)
  qed
  then have "fresh_from (off + int ?n) (ps_stack ps')"
    using len off by (simp add: fresh_from_def es(2) put_stack_def)
  moreover have "reg_elems ps' l = reg_elems ps l" for l by (simp add: es(2) put_stack_def)
  moreover have "ps_conc base ps' m"
    if "ps_conc base ps m" "bytes_conc base v (load_place m (PlStack off sz))" for base m
    using ps'(3) that store_same_stack[of m off sz] by (metis length_map length_upt load_place.simps(2) minus_nat.diff_0)
  ultimately show ?thesis using ps'(1,2) by blast
qed

section \<open>The steps of the translation\<close>

fun place_regs :: "place \<Rightarrow> subregister set" where
  "place_regs (PlReg r a) = (case getSubRegisterMask r a of Some m \<Rightarrow> regs_in m | None \<Rightarrow> {})"
| "place_regs (PlStack _ _) = {}"

fun place_ranges :: "place \<Rightarrow> stack_range list" where
  "place_ranges (PlReg r a) = []"
| "place_ranges (PlStack off sz) = [\<lparr>sr_offset = off, sr_length = int (mem_bytes sz)\<rparr>]"

definition holds_all :: "base \<Rightarrow> machine \<Rightarrow> (place \<times> dyn_value) list \<Rightarrow> bool" where
  "holds_all base m pvs \<longleftrightarrow> (\<forall>(pl, v) \<in> set pvs. bytes_conc base v (load_place m pl))"

text \<open>The places and values were added to the specification and to the state.\<close>

definition noted :: "(place \<times> dyn_value) list \<Rightarrow> rewriter_cfg \<Rightarrow> rewriter_cfg \<Rightarrow> bool" where
  "noted pvs c c' \<longleftrightarrow>
     wf_ps (rc_state c') \<and>
     regs_in (ro_in (fs_reg (rc_spec c'))) = regs_in (ro_in (fs_reg (rc_spec c))) \<union> (\<Union>pv \<in> set pvs. place_regs (fst pv)) \<and>
     ro_out (fs_reg (rc_spec c')) = ro_out (fs_reg (rc_spec c)) \<and>
     ro_preserved (fs_reg (rc_spec c')) = ro_preserved (fs_reg (rc_spec c)) \<and>
     fs_stack_in (rc_spec c') = fs_stack_in (rc_spec c) @ concat (map (place_ranges \<circ> fst) pvs) \<and>
     (\<forall>base m. shaped m \<longrightarrow> ps_conc base (rc_state c) m \<longrightarrow> holds_all base m pvs \<longrightarrow> ps_conc base (rc_state c') m)"

lemma noted_trans: "noted p c c' \<Longrightarrow> noted q c' c'' \<Longrightarrow> noted (p @ q) c c''"
  by (auto simp: noted_def holds_all_def)

lemma noted_usr [simp]:
  "noted p (c\<lparr>rc_usrPtrs := u\<rparr>) c' \<longleftrightarrow> noted p c c'" "noted p c (c'\<lparr>rc_usrPtrs := u\<rparr>) \<longleftrightarrow> noted p c c'"
  by (simp_all add: noted_def)

text \<open>The state can take the next argument.\<close>

definition cfg_ready :: "xmm list \<Rightarrow> int \<Rightarrow> rewriter_cfg \<Rightarrow> bool" where
  "cfg_ready xs off c \<longleftrightarrow>
     wf_ps (rc_state c) \<and> fresh_from off (ps_stack (rc_state c)) \<and> 8 \<le> off \<and> distinct xs \<and>
     (\<forall>x \<in> set xs. reg_elems (rc_state c) (LSse128 (xmm_nr x)) = replicate 16 dead_elem)"

lemma cfg_ready_usr [simp]: "cfg_ready xs off (c\<lparr>rc_usrPtrs := u\<rparr>) \<longleftrightarrow> cfg_ready xs off c"
  by (simp add: cfg_ready_def)

lemma pass_gpr:
  assumes rd: "cfg_ready xs off c" and r: "(r, n) \<in> {(Gpr64 g, 8), (Gpr32 g, 4)}" and sz: "size_ok v n"
  shows "\<exists>c'. pass_reg r Full v c = Some c' \<and> noted [(PlReg r Full, v)] c c' \<and> cfg_ready xs off c' \<and>
    rc_usrPtrs c' = rc_usrPtrs c"
proof -
  have wf: "wf_ps (rc_state c)" using rd by (simp add: cfg_ready_def)
  have d: "getRegisterData r Full = Some (LGprs64 (gpr_nr g), 0, n)" "access_ok r Full"
    using r by (auto simp: reg_data_simps access_ok_def getSubRegisterMask_def)
  obtain mk where mk: "getSubRegisterMask r Full = Some mk" using d(2) by (auto simp: access_ok_def)
  have inner: "no_inner_head (reg_elems (rc_state c) (LGprs64 (gpr_nr g))) 0 n"
    using wf_psD[OF wf, of "LGprs64 (gpr_nr g)"] by (intro gpr_no_inner) auto
  obtain ps' where ps': "setRegister (rc_state c) r Full v False = Some ps'" "wf_ps ps'"
    "ps_stack ps' = ps_stack (rc_state c)"
    "\<forall>l. loc_ok l \<longrightarrow> l \<noteq> LGprs64 (gpr_nr g) \<longrightarrow> reg_elems ps' l = reg_elems (rc_state c) l"
    "\<forall>base m. shaped m \<longrightarrow> ps_conc base (rc_state c) m \<longrightarrow>
       bytes_conc base v (load_place m (PlReg r Full)) \<longrightarrow> ps_conc base ps' m"
    using note_reg[OF wf d(2) _ d(1) inner sz] by auto
  have x: "reg_elems ps' (LSse128 (xmm_nr x)) = reg_elems (rc_state c) (LSse128 (xmm_nr x))" for x
    using ps'(4)[rule_format, of "LSse128 (xmm_nr x)"] by simp
  show ?thesis
    using ps' mk rd x
    by (simp add: pass_reg_def add_in_def entry_reg_def upd_regs_def noted_def cfg_ready_def holds_all_def mask_simps
        del: load_place.simps reg_elems.simps)
qed

lemma pass_xmm:
  assumes rd: "cfg_ready (x # xs) off c" and a: "(a, n) \<in> {(F0, 4), (H0, 8), (Full, 16)}" and sz: "size_ok v n"
  shows "\<exists>c'. pass_reg (XmmReg x) a v c = Some c' \<and> noted [(PlReg (XmmReg x) a, v)] c c' \<and>
    cfg_ready xs off c' \<and> rc_usrPtrs c' = rc_usrPtrs c"
proof -
  let ?l = "LSse128 (xmm_nr x)"
  have wf: "wf_ps (rc_state c)" using rd by (simp add: cfg_ready_def)
  have d: "getRegisterData (XmmReg x) a = Some (?l, 0, n)" "access_ok (XmmReg x) a" "a \<noteq> FullZeroParent"
    using a by (auto simp: reg_data_simps access_ok_def getSubRegisterMask_def nth_opt_def)
  obtain mk where mk: "getSubRegisterMask (XmmReg x) a = Some mk" using d(2) by (auto simp: access_ok_def)
  have "reg_elems (rc_state c) ?l = replicate 16 dead_elem" using rd by (simp add: cfg_ready_def)
  then have inner: "no_inner_head (reg_elems (rc_state c) ?l) 0 n"
    by (auto simp: no_inner_head_def list_all_iff head_at_def)
  obtain ps' where ps': "setRegister (rc_state c) (XmmReg x) a v False = Some ps'" "wf_ps ps'"
    "ps_stack ps' = ps_stack (rc_state c)"
    "\<forall>l. loc_ok l \<longrightarrow> l \<noteq> ?l \<longrightarrow> reg_elems ps' l = reg_elems (rc_state c) l"
    "\<forall>base m. shaped m \<longrightarrow> ps_conc base (rc_state c) m \<longrightarrow>
       bytes_conc base v (load_place m (PlReg (XmmReg x) a)) \<longrightarrow> ps_conc base ps' m"
    using note_reg[OF wf d(2,3,1) inner sz] by auto
  have xs: "reg_elems ps' (LSse128 (xmm_nr y)) = reg_elems (rc_state c) (LSse128 (xmm_nr y))" if "y \<in> set xs" for y
    using ps'(4)[rule_format, of "LSse128 (xmm_nr y)"] that rd by (auto simp: cfg_ready_def)
  show ?thesis
    using ps' mk rd xs
    by (simp add: pass_reg_def add_in_def entry_reg_def upd_regs_def noted_def cfg_ready_def holds_all_def mask_simps
        del: load_place.simps reg_elems.simps)
qed

lemma pass_stack_ok:
  assumes rd: "cfg_ready xs off c" and sz: "(sz, n) \<in> {(MB4, 4), (MB8, 8)}" "size_ok v n" and off: "off + 16 < 2 ^ 32"
  shows "\<exists>c'. pass_stack off sz v c = Some c' \<and> noted [(PlStack off sz, v)] c c' \<and>
    cfg_ready xs (off + 8) c' \<and> rc_usrPtrs c' = rc_usrPtrs c"
proof -
  have wf: "wf_ps (rc_state c)" "fresh_from off (ps_stack (rc_state c))" "0 \<le> off"
    using rd by (auto simp: cfg_ready_def)
  have n: "mem_bytes sz \<in> {1, 2, 4, 8, 16}" "size_ok v (mem_bytes sz)" "mem_bytes sz \<le> 8" using sz by auto
  obtain ps' where "setStack (rc_state c) off sz v False = Some ps'" "wf_ps ps'"
    "fresh_from (off + int (mem_bytes sz)) (ps_stack ps')" "\<forall>l. reg_elems ps' l = reg_elems (rc_state c) l"
    "\<forall>base m. ps_conc base (rc_state c) m \<longrightarrow> bytes_conc base v (load_place m (PlStack off sz)) \<longrightarrow> ps_conc base ps' m"
    using note_stack[OF wf(1,2,3) off n(1,2)] by blast
  moreover from this(3) have "fresh_from (off + 8) (ps_stack ps')" using n(3) by (auto simp: fresh_from_def)
  ultimately show ?thesis using rd
    by (simp add: pass_stack_def add_range_def entry_stack_def noted_def cfg_ready_def holds_all_def
        del: load_place.simps reg_elems.simps)
qed

section \<open>The values of arguments\<close>

lemma le_bytes_of_int:
  assumes "8 * n \<le> LENGTH('a::len)" and "8 * n \<le> LENGTH('b::len)"
  shows "le_bytes n (of_int i :: 'a word) = le_bytes n (of_int i :: 'b word)"
proof (rule nth_equalityI)
  fix j assume "j < length (le_bytes n (of_int i :: 'a word))"
  then have j: "j < n" by simp
  show "le_bytes n (of_int i :: 'a word) ! j = le_bytes n (of_int i :: 'b word) ! j"
  proof (rule bit_word_eqI)
    fix k assume "k < LENGTH(8)"
    then have "8 * j + k < 8 * n" using j by simp
    then show "bit (le_bytes n (of_int i :: 'a word) ! j) k = bit (le_bytes n (of_int i :: 'b word) ! j) k"
      using j assms by (auto simp: bit_le_bytes_nth bit_of_int_iff)
  qed
qed simp

lemma conc_imm64:
  "bs = le_bytes n w \<Longrightarrow> bytes_conc base (Imm64 w) bs" "bs = le_bytes n w' \<Longrightarrow> bytes_conc base (Imm128 w') bs"
  by (simp_all add: bytes_conc_def)

lemma le_bytes_imm32:
  assumes "drobParamToImm32 p = Some w"
  shows "arg_bytes (pc_type p) (pc_value p) = le_bytes 4 (ucast w :: u64)" and "arg_size (pc_type p) = 4"
proof -
  have w: "w = of_int (arg_int (pc_type p) (pc_value p)) \<and> arg_size (pc_type p) = 4"
    using assms
    by (cases "pc_type p") (auto simp: drobParamToImm32_def arg_int_def arg_size_def split: if_splits)
  have "arg_bytes (pc_type p) (pc_value p) = le_bytes 4 (of_int (arg_int (pc_type p) (pc_value p)) :: u32)"
    using w le_bytes_of_int[where 'a = 128 and 'b = 32 and n = 4] by (simp add: arg_bytes_def)
  also have "\<dots> = le_bytes 4 (ucast w :: u64)" using w le_bytes_ucast[where 'a = 32 and 'b = 64 and n = 4] by simp
  finally show "arg_bytes (pc_type p) (pc_value p) = le_bytes 4 (ucast w :: u64)" .
  show "arg_size (pc_type p) = 4" using w by simp
qed

lemma raw_bytes:
  assumes "\<not> t \<in> {TyChar, TyInt8, TyBool, TyUchar, TyUint8, TyShort, TyInt16, TyUshort, TyUint16}"
  shows "arg_bytes t v = le_bytes (arg_size t) v"
  using assms by (simp add: arg_bytes_def arg_int_def)

lemma le_bytes_low:
  "le_bytes 8 (ucast (v :: u128) :: u64) = le_bytes 8 v" "le_bytes 4 (ucast (ucast v :: u32) :: u64) = le_bytes 4 v"
  "le_bytes 4 (ucast v :: u64) = le_bytes 4 v"
proof -
  show "le_bytes 8 (ucast v :: u64) = le_bytes 8 v" using le_bytes_ucast[where 'a = 128 and 'b = 64 and n = 8] by simp
  show "le_bytes 4 (ucast v :: u64) = le_bytes 4 v" using le_bytes_ucast[where 'a = 128 and 'b = 64 and n = 4] by simp
  have "le_bytes 4 (ucast (ucast v :: u32) :: u64) = le_bytes 4 (ucast v :: u32)"
    using le_bytes_ucast[where 'a = 32 and 'b = 64 and n = 4] by simp
  also have "\<dots> = le_bytes 4 v" using le_bytes_ucast[where 'a = 128 and 'b = 32 and n = 4] by simp
  finally show "le_bytes 4 (ucast (ucast v :: u32) :: u64) = le_bytes 4 v" .
qed

lemma le_bytes_halves:
  "le_bytes 16 (v :: u128) = le_bytes 8 (ucast v :: u64) @ le_bytes 8 (ucast (drop_bit 64 v) :: u64)"
proof -
  have h: "le_bytes 8 (ucast (drop_bit 64 v) :: u64) = le_bytes 8 (drop_bit 64 v)"
    using le_bytes_ucast[where 'a = 128 and 'b = 64 and n = 8] by simp
  have "le_bytes 16 v = le_bytes 8 v @ le_bytes 8 (drop_bit 64 v)"
  proof (rule nth_equalityI)
    fix i assume "i < length (le_bytes 16 v)"
    then have i: "i < 16" by simp
    show "le_bytes 16 v ! i = (le_bytes 8 v @ le_bytes 8 (drop_bit 64 v)) ! i"
    proof (cases "i < 8")
      case False
      then obtain j where "i = 8 + j" "j < 8" using i by (metis add_diff_inverse_nat nat_add_left_cancel_less numeral_Bit0)
      then show ?thesis using i by (simp add: le_bytes_def nth_append add.commute)
    qed (use i in \<open>simp add: le_bytes_def nth_append\<close>)
  qed simp
  then show ?thesis by (simp only: h le_bytes_low(1))
qed

lemma load_length_at:
  assumes "shaped m" and "getRegisterData r a = Some (loc, off, n)" and "access_ok r a"
  shows "length (load_place m (PlReg r a)) = n"
  using access_bounds[OF assms(3)] assms(2) shapedD[OF assms(1)] by (auto simp: reg_range_def)

lemma load_length_gpr:
  assumes "shaped m"
  shows "length (load_place m (PlReg (Gpr64 g) Full)) = 8"
  by (rule load_length_at[OF assms, of _ _ "LGprs64 (gpr_nr g)" 0])
    (auto simp: reg_data_simps access_ok_def getSubRegisterMask_def)

lemma load_all_one [simp]: "load_all m [pl] = load_place m pl"
  by (simp add: load_all_def)

lemma load_length_place:
  assumes "shaped m" and "pl = PlReg (Gpr64 g) Full \<or> pl = PlStack off MB8"
  shows "length (load_place m pl) = 8"
  using assms(2) load_length_gpr[OF assms(1)] by auto

lemma conc_usr:
  assumes "shaped m" and "pl = PlReg (Gpr64 g) Full \<or> pl = PlStack off MB8" and "le_word (load_place m pl) = base k nr"
  shows "bytes_conc base (Ptr k nr 0) (load_place m pl)"
  using assms(3) load_length_place[OF assms(1,2)] by (simp add: bytes_conc_def)

section \<open>One parameter\<close>

definition ready :: "slots \<Rightarrow> abi \<Rightarrow> bool" where
  "ready sl s \<longleftrightarrow> ab_intIdx s \<le> 6 \<and> ab_sseIdx s \<le> 8 \<and>
     sl = (drop (ab_intIdx s) arg_gprs, drop (ab_sseIdx s) arg_xmms, ab_off s) \<and>
     cfg_ready (drop (ab_sseIdx s) arg_xmms) (ab_off s) (ab_cfg s)"

lemma int_regs_nth:
  "i < 6 \<Longrightarrow> integer64_regs ! i = Gpr64 (arg_gprs ! i)" "i < 6 \<Longrightarrow> integer32_regs ! i = Gpr32 (arg_gprs ! i)"
  "i < 8 \<Longrightarrow> sse_regs ! i = XmmReg (arg_xmms ! i)"
  by (simp_all add: integer64_regs_def integer32_regs_def arg_gprs_def sse_regs_def arg_xmms_def nth_Cons' )

lemma arg_regs_length [simp]: "length arg_gprs = 6" "length arg_xmms = 8"
  by (simp_all add: arg_gprs_def arg_xmms_def)

lemma drop_arg_gprs: "i < 6 \<Longrightarrow> drop i arg_gprs = arg_gprs ! i # drop (i + 1) arg_gprs"
  by (simp add: Cons_nth_drop_Suc)

lemma drop_arg_xmms: "i < 8 \<Longrightarrow> drop i arg_xmms = arg_xmms ! i # drop (i + 1) arg_xmms"
  by (simp add: Cons_nth_drop_Suc)

text \<open>An integer argument of 4 or 8 bytes; the same code serves pointers.\<close>

definition one_place :: "place \<Rightarrow> dyn_value \<Rightarrow> slots \<Rightarrow> rewriter_cfg \<Rightarrow> abi \<Rightarrow> abi \<Rightarrow> bool" where
  "one_place pl v sl c s s' \<longleftrightarrow> ready sl s' \<and> noted [(pl, v)] c (ab_cfg s') \<and>
     rc_usrPtrs (ab_cfg s') = rc_usrPtrs c \<and> ab_off s' \<le> ab_off s + 8"

lemma int_slot:
  assumes rd: "ready (gs, xs, off) s" and k: "(n, sz, mk, R) \<in> {(4, MB4, Gpr32, integer32_regs), (8, MB8, Gpr64, integer64_regs)}"
    and sz: "size_ok v n" and off: "off + 16 < 2 ^ 32" and c: "c = (ab_cfg s)\<lparr>rc_usrPtrs := u\<rparr>"
  shows "\<exists>s' pl sl'. (if ab_intIdx s < 6
       then do { c' \<leftarrow> pass_reg (R ! ab_intIdx s) Full v c; Some (next_int c' s) }
       else do { c' \<leftarrow> pass_stack (ab_off s) sz v c; Some (next_stack 8 c' s) }) = Some s' \<and>
    (case gs of g # gs \<Rightarrow> ([PlReg (mk g) Full], (gs, xs, off)) | [] \<Rightarrow> stack_slot n (gs, xs, off)) = ([pl], sl') \<and>
    one_place pl v sl' c s s' \<and> ((\<exists>g. pl = PlReg (mk g) Full) \<or> pl = PlStack off sz)"
proof -
  have r: "ab_intIdx s \<le> 6" "ab_sseIdx s \<le> 8" "gs = drop (ab_intIdx s) arg_gprs" "xs = drop (ab_sseIdx s) arg_xmms"
    "off = ab_off s" "cfg_ready xs off c"
    using rd by (auto simp: ready_def c)
  show ?thesis
  proof (cases "ab_intIdx s < 6")
    case True
    let ?g = "arg_gprs ! ab_intIdx s"
    have R: "R ! ab_intIdx s = mk ?g" using k int_regs_nth True by auto
    have "\<exists>c'. pass_reg (mk ?g) Full v c = Some c' \<and> noted [(PlReg (mk ?g) Full, v)] c c' \<and> cfg_ready xs off c' \<and>
      rc_usrPtrs c' = rc_usrPtrs c"
      using pass_gpr[OF r(6), of "mk ?g" n ?g v] k sz by auto
    then obtain c' where "pass_reg (mk ?g) Full v c = Some c'" "noted [(PlReg (mk ?g) Full, v)] c c'"
      "cfg_ready xs off c'" "rc_usrPtrs c' = rc_usrPtrs c" by blast
    then show ?thesis using True R r drop_arg_gprs[OF True]
      by (auto simp: next_int_def one_place_def ready_def)
  next
    case False
    obtain c' where "pass_stack off sz v c = Some c'" "noted [(PlStack off sz, v)] c c'"
      "cfg_ready xs (off + 8) c'" "rc_usrPtrs c' = rc_usrPtrs c"
      using pass_stack_ok[OF r(6), of sz n v] k sz off by auto
    then show ?thesis using False r k
      by (auto simp: next_stack_def one_place_def ready_def arg_align_def arg_mem_def)
  qed
qed

lemma sse_slot:
  assumes rd: "ready (gs, xs, off) s"
    and k: "(n, sz, a, slot) \<in> {(4, MB4, F0, 8), (8, MB8, H0, 8), (16, MB16, Full, 16)}" and wide: "n = 16 \<Longrightarrow> xs \<noteq> []"
    and sz: "size_ok (known p v) n" and off: "off + 16 < 2 ^ 32"
  shows "\<exists>s' pl sl'. translateSse a sz slot v p s = Some s' \<and>
    (case xs of x # xs \<Rightarrow> ([PlReg (XmmReg x) a], (gs, xs, off)) | [] \<Rightarrow> stack_slot n (gs, xs, off)) = ([pl], sl') \<and>
    one_place pl (known p v) sl' (ab_cfg s) s s'"
proof -
  have r: "ab_intIdx s \<le> 6" "ab_sseIdx s \<le> 8" "gs = drop (ab_intIdx s) arg_gprs" "xs = drop (ab_sseIdx s) arg_xmms"
    "off = ab_off s" "cfg_ready xs off (ab_cfg s)"
    using rd by (auto simp: ready_def)
  show ?thesis
  proof (cases "ab_sseIdx s < 8")
    case True
    let ?x = "arg_xmms ! ab_sseIdx s"
    have x: "xs = ?x # drop (ab_sseIdx s + 1) arg_xmms" using r(4) drop_arg_xmms[OF True] by simp
    obtain c' where "pass_reg (XmmReg ?x) a (known p v) (ab_cfg s) = Some c'"
      "noted [(PlReg (XmmReg ?x) a, known p v)] (ab_cfg s) c'"
      "cfg_ready (drop (ab_sseIdx s + 1) arg_xmms) off c'" "rc_usrPtrs c' = rc_usrPtrs (ab_cfg s)"
      using pass_xmm[of ?x "drop (ab_sseIdx s + 1) arg_xmms" off "ab_cfg s" a n "known p v"] r(6) x k sz by auto
    then show ?thesis using True r(1,2,3,5) int_regs_nth(3)[OF True] unfolding x
      by (simp add: translateSse_def next_sse_def one_place_def ready_def)
  next
    case False
    then have xs: "xs = []" using r(2,4) by simp
    then have n: "(sz, n) \<in> {(MB4, 4), (MB8, 8)}" "slot = 8" using k wide by auto
    obtain c' where "pass_stack off sz (known p v) (ab_cfg s) = Some c'"
      "noted [(PlStack off sz, known p v)] (ab_cfg s) c'"
      "cfg_ready xs (off + 8) c'" "rc_usrPtrs c' = rc_usrPtrs (ab_cfg s)"
      using pass_stack_ok[OF r(6) n(1) sz off] by blast
    then show ?thesis using False r n xs
      by (auto simp: translateSse_def next_stack_def one_place_def ready_def arg_align_def arg_mem_def)
  qed
qed

text \<open>What a parameter adds: its places with values that allow the bytes of the argument.\<close>

definition step_ok :: "param_cfg \<Rightarrow> place list \<Rightarrow> slots \<Rightarrow> abi \<Rightarrow> abi \<Rightarrow> bool" where
  "step_ok p pls sl s s' \<longleftrightarrow>
     (\<exists>pvs. noted pvs (ab_cfg s) (ab_cfg s') \<and> map fst pvs = pls \<and>
        (\<forall>base m. shaped m \<longrightarrow> arg_at base m pls p (length (rc_usrPtrs (ab_cfg s))) \<longrightarrow> holds_all base m pvs)) \<and>
     ready sl s' \<and> ab_off s' \<le> ab_off s + 8 \<and>
     length (rc_usrPtrs (ab_cfg s')) = length (rc_usrPtrs (ab_cfg s)) + (if pc_type p = TyPtr then 1 else 0)"

lemma step_okI:
  assumes "one_place pl v sl (ab_cfg s) s s'" and "pc_type p \<noteq> TyPtr"
    and "\<And>base m. shaped m \<Longrightarrow> arg_at base m [pl] p (length (rc_usrPtrs (ab_cfg s))) \<Longrightarrow> bytes_conc base v (load_place m pl)"
  shows "step_ok p [pl] sl s s'"
  using assms by (auto simp: step_ok_def one_place_def holds_all_def intro!: exI[of _ "[(pl, v)]"])

lemma size_known: "size_ok (known p (Imm64 w)) n \<longleftrightarrow> n \<in> {1, 2, 4, 8, 16} \<or> pc_state p \<noteq> ParamConst \<and> 0 < n"
  "size_ok (known p (Imm128 w')) n \<longleftrightarrow> n \<in> {1, 2, 4, 8, 16} \<or> pc_state p \<noteq> ParamConst \<and> 0 < n"
  by (auto simp: known_def size_ok_def)

lemma known_conc:
  assumes "pc_state p = ParamConst \<Longrightarrow> bytes_conc base v bs"
  shows "bytes_conc base (known p v) bs"
  using assms by (simp add: known_def) (simp add: bytes_conc_def)

lemma arg_at_raw:
  assumes "arg_at base m pls p k" and "pc_type p \<noteq> TyPtr" and "pc_state p = ParamConst"
  shows "load_all m pls = arg_bytes (pc_type p) (pc_value p)"
  using assms by (simp add: arg_at_def)

lemma step_int32:
  assumes rd: "ready (gs, xs, off) s" and off: "off + 16 < 2 ^ 32"
    and ty: "drobParamTypeToAMD64 (pc_type p) \<in> {Some Integer8, Some Integer16, Some Integer32}"
  shows "\<exists>s' pls sl. translateInt32 p s = Some s' \<and> sysv_step (pc_type p) (gs, xs, off) = (pls, sl) \<and> step_ok p pls sl s s'"
proof -
  have t: "\<not> vector_type (pc_type p)" "arg_size (pc_type p) = 4" "pc_type p \<noteq> TyPtr"
    using ty by (cases "pc_type p"; simp add: vector_type_def arg_size_def)+
  have imm: "\<exists>w. drobParamToImm32 p = Some w" if "pc_state p = ParamConst"
    using ty that by (cases "pc_type p") (simp_all add: drobParamToImm32_def)
  obtain v where v: "known_imm32 p = Some v" "size_ok v 4"
    "pc_state p = ParamConst \<longrightarrow> (\<exists>w. drobParamToImm32 p = Some w \<and> v = Imm64 (ucast w))"
    "pc_state p \<noteq> ParamConst \<longrightarrow> v = Unknown"
    using imm by (cases "pc_state p") (auto simp: known_imm32_def size_ok_def)
  obtain s' pl sl where st: "(if ab_intIdx s < 6
       then do { c' \<leftarrow> pass_reg (integer32_regs ! ab_intIdx s) Full v (ab_cfg s); Some (next_int c' s) }
       else do { c' \<leftarrow> pass_stack (ab_off s) MB4 v (ab_cfg s); Some (next_stack 8 c' s) }) = Some s'"
    and sl: "(case gs of g # gs \<Rightarrow> ([PlReg (Gpr32 g) Full], (gs, xs, off)) | [] \<Rightarrow> stack_slot 4 (gs, xs, off)) = ([pl], sl)"
    and one: "one_place pl v sl (ab_cfg s) s s'"
    using int_slot[OF rd, of 4 MB4 Gpr32 integer32_regs v "ab_cfg s" "rc_usrPtrs (ab_cfg s)"] v(2) off
    by (simp del: stack_slot.simps) blast
  have "bytes_conc base v (load_place m pl)" if "arg_at base m [pl] p k" for base m k
  proof (cases "pc_state p = ParamConst")
    case True
    then obtain w where w: "drobParamToImm32 p = Some w" "v = Imm64 (ucast w)" using v(3) by blast
    have "load_place m pl = arg_bytes (pc_type p) (pc_value p)" using arg_at_raw[OF that t(3) True] by simp
    also have "\<dots> = le_bytes 4 (ucast w :: u64)" using le_bytes_imm32(1)[OF w(1)] .
    finally show ?thesis by (simp add: w(2) bytes_conc_def)
  qed (use v(4) in \<open>simp add: bytes_conc_def\<close>)
  then have "step_ok p [pl] sl s s'" using step_okI[OF one t(3)] by blast
  moreover have "translateInt32 p s = Some s'" using st v(1) by (simp add: translateInt32_def)
  moreover have "sysv_step (pc_type p) (gs, xs, off) = ([pl], sl)" using t sl by (simp cong: list.case_cong)
  ultimately show ?thesis by blast
qed

lemma step_int64:
  assumes rd: "ready (gs, xs, off) s" and off: "off + 16 < 2 ^ 32"
    and ty: "drobParamTypeToAMD64 (pc_type p) = Some Integer64" "pc_type p \<noteq> TyPtr"
  shows "\<exists>s' pls sl. translateInt64 p s = Some s' \<and> sysv_step (pc_type p) (gs, xs, off) = (pls, sl) \<and> step_ok p pls sl s s'"
proof -
  let ?v = "known p (Imm64 (ucast (pc_value p)))"
  have t: "\<not> vector_type (pc_type p)" "arg_size (pc_type p) = 8"
    "arg_bytes (pc_type p) (pc_value p) = le_bytes 8 (pc_value p)"
    using ty by (cases "pc_type p"; simp add: vector_type_def arg_size_def raw_bytes)+
  have sz: "size_ok ?v 8" by (simp add: size_known)
  obtain s' pl sl where st: "(if ab_intIdx s < 6
       then do { c' \<leftarrow> pass_reg (integer64_regs ! ab_intIdx s) Full ?v (ab_cfg s); Some (next_int c' s) }
       else do { c' \<leftarrow> pass_stack (ab_off s) MB8 ?v (ab_cfg s); Some (next_stack 8 c' s) }) = Some s'"
    and sl: "(case gs of g # gs \<Rightarrow> ([PlReg (Gpr64 g) Full], (gs, xs, off)) | [] \<Rightarrow> stack_slot 8 (gs, xs, off)) = ([pl], sl)"
    and one: "one_place pl ?v sl (ab_cfg s) s s'"
    using int_slot[OF rd, of 8 MB8 Gpr64 integer64_regs ?v "ab_cfg s" "rc_usrPtrs (ab_cfg s)"] sz off
    by (simp del: stack_slot.simps) blast
  have "bytes_conc base ?v (load_place m pl)" if "arg_at base m [pl] p k" for base m k
    using arg_at_raw[OF that ty(2)] t(3) le_bytes_low(1) by (intro known_conc conc_imm64(1)[of _ 8]) simp
  then have "step_ok p [pl] sl s s'" using step_okI[OF one ty(2)] by blast
  moreover have "translateInt64 p s = Some s'" using st by (simp add: translateInt64_def)
  moreover have "sysv_step (pc_type p) (gs, xs, off) = ([pl], sl)" using t sl by (simp cong: list.case_cong)
  ultimately show ?thesis by blast
qed

lemma step_ptr:
  assumes rd: "ready (gs, xs, off) s" and off: "off + 16 < 2 ^ 32" and ty: "pc_type p = TyPtr"
    and nr: "length (rc_usrPtrs (ab_cfg s)) < 256"
  shows "\<exists>s' pls sl. translatePtr p s = Some s' \<and> sysv_step (pc_type p) (gs, xs, off) = (pls, sl) \<and> step_ok p pls sl s s'"
proof -
  let ?k = "length (rc_usrPtrs (ab_cfg s))"
  let ?v = "Ptr UsrPtr (of_nat ?k) 0"
  obtain nr' c where nx: "nextUsrPtr (ab_cfg s) = (nr', c)" by (cases "nextUsrPtr (ab_cfg s)")
  obtain u where c: "nr' = ?k" "c = (ab_cfg s)\<lparr>rc_usrPtrs := u\<rparr>" "length u = ?k + 1"
    using nx by (auto simp: nextUsrPtr_def)
  have "unat (of_nat ?k :: u32) = ?k" using nr by (simp add: unsigned_of_nat take_bit_nat_eq_self)
  then have sz: "size_ok ?v 8" using nr by (simp add: size_ok_def word_less_nat_alt)
  obtain s' pl sl where st: "(if ab_intIdx s < 6
       then do { c' \<leftarrow> pass_reg (integer64_regs ! ab_intIdx s) Full ?v c; Some (next_int c' s) }
       else do { c' \<leftarrow> pass_stack (ab_off s) MB8 ?v c; Some (next_stack 8 c' s) }) = Some s'"
    and sl: "(case gs of g # gs \<Rightarrow> ([PlReg (Gpr64 g) Full], (gs, xs, off)) | [] \<Rightarrow> stack_slot 8 (gs, xs, off)) = ([pl], sl)"
    and one: "one_place pl ?v sl c s s'" and pl: "(\<exists>g. pl = PlReg (Gpr64 g) Full) \<or> pl = PlStack off MB8"
    using int_slot[OF rd, of 8 MB8 Gpr64 integer64_regs ?v c u] sz off c(2)
    by (simp del: stack_slot.simps) blast
  define s2 where "s2 = s'\<lparr>ab_cfg := (ab_cfg s')\<lparr>rc_usrPtrs :=
    (rc_usrPtrs (ab_cfg s'))[nr' := usr_ptr_of p (rc_usrPtrs (ab_cfg s') ! nr')]\<rparr>\<rparr>"
  have tr: "translatePtr p s = Some s2" using st nx c(1) by (simp add: translatePtr_def s2_def Let_def)
  have v: "bytes_conc base ?v (load_place m pl)" if "shaped m" "arg_at base m [pl] p ?k" for base m
    using conc_usr[OF that(1), of pl _ off] pl that(2) ty by (auto simp: arg_at_def simp del: load_place.simps)
  have "noted [(pl, ?v)] (ab_cfg s) (ab_cfg s2)" "ready sl s2" "ab_off s2 \<le> ab_off s + 8"
    "length (rc_usrPtrs (ab_cfg s2)) = ?k + 1"
    using one c by (auto simp: one_place_def s2_def ready_def)
  then have "step_ok p [pl] sl s s2"
    using v ty by (auto simp: step_ok_def holds_all_def intro!: exI[of _ "[(pl, ?v)]"] simp del: load_place.simps)
  moreover have "sysv_step (pc_type p) (gs, xs, off) = ([pl], sl)"
    using sl by (simp add: ty vector_type_def arg_size_def cong: list.case_cong)
  ultimately show ?thesis using tr by blast
qed

lemma step_sse:
  assumes rd: "ready (gs, xs, off) s" and off: "off + 16 < 2 ^ 32" and vt: "vector_type (pc_type p)"
    and wide: "\<not> wide_on_stack [fst (sysv_step (pc_type p) (gs, xs, off))]"
  shows "\<exists>s' pls sl. translateParam p s = Some s' \<and> sysv_step (pc_type p) (gs, xs, off) = (pls, sl) \<and> step_ok p pls sl s s'"
proof -
  let ?t = "pc_type p"
  let ?n = "arg_size ?t"
  obtain a sz slot v where tr: "translateParam p s = translateSse a sz slot v p s"
    and k: "(?n, sz, a, slot) \<in> {(4, MB4, F0, 8), (8, MB8, H0, 8), (16, MB16, Full, 16)}"
    and v: "size_ok (known p v) ?n" "\<And>base bs. bs = arg_bytes ?t (pc_value p) \<Longrightarrow> bytes_conc base v bs"
    and np: "?t \<noteq> TyPtr"
    using vt le_bytes_low
    by (auto simp: vector_type_def translateParam_def arg_size_def size_known raw_bytes bytes_conc_def)
  have a: "a = (if ?n = 4 then F0 else if ?n = 8 then H0 else Full)" using k by auto
  have w: "?n = 16 \<Longrightarrow> xs \<noteq> []" using wide vt by (auto simp: wide_on_stack_def arg_mem_def)
  obtain s' pl sl where st: "translateSse a sz slot v p s = Some s'"
    "(case xs of x # xs \<Rightarrow> ([PlReg (XmmReg x) a], (gs, xs, off)) | [] \<Rightarrow> stack_slot ?n (gs, xs, off)) = ([pl], sl)"
    and one: "one_place pl (known p v) sl (ab_cfg s) s s'"
    using sse_slot[OF rd k w v(1) off] by (simp del: stack_slot.simps) blast
  have "bytes_conc base (known p v) (load_place m pl)" if "arg_at base m [pl] p k" for base m k
    using arg_at_raw[OF that np] by (intro known_conc v(2)) simp
  then have "step_ok p [pl] sl s s'" using step_okI[OF one np] by blast
  moreover have "sysv_step ?t (gs, xs, off) = ([pl], sl)"
    using st(2) vt by (simp add: a Let_def cong: list.case_cong del: stack_slot.simps)
  ultimately show ?thesis using tr st(1) by metis
qed

lemma step_int128:
  assumes rd: "ready (gs, xs, off) s" and off: "off + 16 < 2 ^ 32"
    and ty: "drobParamTypeToAMD64 (pc_type p) = Some Integer128"
    and wide: "\<not> wide_on_stack [fst (sysv_step (pc_type p) (gs, xs, off))]"
  shows "\<exists>s' pls sl. translateInt128 p s = Some s' \<and> sysv_step (pc_type p) (gs, xs, off) = (pls, sl) \<and> step_ok p pls sl s s'"
proof -
  let ?lo = "known p (Imm64 (ucast (pc_value p)))"
  let ?hi = "known p (Imm64 (ucast (drop_bit 64 (pc_value p))))"
  let ?i = "ab_intIdx s"
  have t: "\<not> vector_type (pc_type p)" "arg_size (pc_type p) = 16" "pc_type p \<noteq> TyPtr"
    "arg_bytes (pc_type p) (pc_value p) = le_bytes 16 (pc_value p)"
    using ty by (cases "pc_type p"; simp add: vector_type_def arg_size_def raw_bytes)+
  have r: "?i \<le> 6" "ab_sseIdx s \<le> 8" "gs = drop ?i arg_gprs" "xs = drop (ab_sseIdx s) arg_xmms"
    "off = ab_off s" "cfg_ready xs off (ab_cfg s)"
    using rd by (auto simp: ready_def)
  have i: "?i + 1 < 6"
  proof (rule ccontr)
    assume "\<not> ?i + 1 < 6"
    then have "length gs < 2" using r(1,3) by simp
    then have "\<exists>pl. fst (sysv_step (pc_type p) (gs, xs, off)) = [PlStack pl MB16]"
      using t by (cases gs rule: remdups_adj.cases) (auto simp: arg_mem_def)
    then show False using wide by (auto simp: wide_on_stack_def)
  qed
  let ?a = "arg_gprs ! ?i" and ?b = "arg_gprs ! (?i + 1)"
  have gs: "gs = ?a # ?b # drop (?i + 2) arg_gprs"
    using r(3) drop_arg_gprs[of ?i] drop_arg_gprs[of "?i + 1"] i by simp
  have z: "size_ok ?lo 8" "size_ok ?hi 8" by (simp_all add: size_known)
  obtain c1 where c1: "pass_reg (Gpr64 ?a) Full ?lo (ab_cfg s) = Some c1" "noted [(PlReg (Gpr64 ?a) Full, ?lo)] (ab_cfg s) c1"
    "cfg_ready xs off c1" "rc_usrPtrs c1 = rc_usrPtrs (ab_cfg s)"
    using pass_gpr[OF r(6), of "Gpr64 ?a" 8 ?a ?lo] z by auto
  obtain c2 where c2: "pass_reg (Gpr64 ?b) Full ?hi c1 = Some c2" "noted [(PlReg (Gpr64 ?b) Full, ?hi)] c1 c2"
    "cfg_ready xs off c2" "rc_usrPtrs c2 = rc_usrPtrs c1"
    using pass_gpr[OF c1(3), of "Gpr64 ?b" 8 ?b ?hi] z by auto
  let ?s' = "next_int c2 (next_int c1 s)"
  let ?pls = "[PlReg (Gpr64 ?a) Full, PlReg (Gpr64 ?b) Full]"
  let ?pvs = "[(PlReg (Gpr64 ?a) Full, ?lo), (PlReg (Gpr64 ?b) Full, ?hi)]"
  have tr: "translateInt128 p s = Some ?s'"
    using c1(1) c2(1) i int_regs_nth(1)[of ?i] int_regs_nth(1)[of "?i + 1"]
    by (simp add: translateInt128_def next_int_def)
  have sy: "sysv_step (pc_type p) (gs, xs, off) = (?pls, (drop (?i + 2) arg_gprs, xs, off))"
    using t unfolding gs by simp
  have v: "holds_all base m ?pvs" if m: "shaped m" and a: "arg_at base m ?pls p k" for base m k
  proof -
    let ?x = "load_place m (PlReg (Gpr64 ?a) Full)" and ?y = "load_place m (PlReg (Gpr64 ?b) Full)"
    have "bytes_conc base ?lo ?x \<and> bytes_conc base ?hi ?y"
    proof (cases "pc_state p = ParamConst")
      case True
      have "?x @ ?y = le_bytes 16 (pc_value p)" using arg_at_raw[OF a t(3) True] t(4) by (simp add: load_all_def)
      then have "?x = le_bytes 8 (ucast (pc_value p) :: u64)" "?y = le_bytes 8 (ucast (drop_bit 64 (pc_value p)) :: u64)"
        using le_bytes_halves[of "pc_value p"] load_length_gpr[OF m] by auto
      then show ?thesis using conc_imm64(1) True by (simp add: known_def del: load_place.simps)
    qed (simp add: known_def bytes_conc_def)
    then show ?thesis by (simp add: holds_all_def)
  qed
  have "noted ?pvs (ab_cfg s) c2" using noted_trans[OF c1(2) c2(2)] by simp
  moreover have "ready (drop (?i + 2) arg_gprs, xs, off) ?s'"
    using r c2(3) i by (simp add: ready_def next_int_def)
  moreover have "ab_cfg ?s' = c2" "ab_off ?s' = ab_off s" by (simp_all add: next_int_def)
  ultimately have "step_ok p ?pls (drop (?i + 2) arg_gprs, xs, off) s ?s'"
    using v t(3) c1(4) c2(4) unfolding step_ok_def by (intro conjI exI[of _ ?pvs]) auto
  then show ?thesis using tr sy by blast
qed

lemma translate_one_step:
  assumes rd: "ready (gs, xs, off) s" and off: "off + 16 < 2 ^ 32" and ty: "param_ok (pc_type p)"
    and nr: "length (rc_usrPtrs (ab_cfg s)) < 256"
    and wide: "\<not> wide_on_stack [fst (sysv_step (pc_type p) (gs, xs, off))]"
  shows "\<exists>s' pls sl. translate_one p s = Some s' \<and> sysv_step (pc_type p) (gs, xs, off) = (pls, sl) \<and> step_ok p pls sl s s'"
proof (cases "pc_type p = TyPtr")
  case True
  then show ?thesis using step_ptr[OF rd off True nr] by (simp add: translate_one_def del: sysv_step.simps)
next
  case False
  note np = this
  show ?thesis
  proof (cases "vector_type (pc_type p)")
    case True
    then show ?thesis using step_sse[OF rd off True wide] np by (simp add: translate_one_def del: sysv_step.simps)
  next
    case False
    then consider (a) "drobParamTypeToAMD64 (pc_type p) \<in> {Some Integer8, Some Integer16, Some Integer32}"
        "translateParam p s = translateInt32 p s"
      | (b) "drobParamTypeToAMD64 (pc_type p) = Some Integer64" "translateParam p s = translateInt64 p s"
      | (c) "drobParamTypeToAMD64 (pc_type p) = Some Integer128" "translateParam p s = translateInt128 p s"
      using ty np by (cases "pc_type p") (auto simp: vector_type_def param_ok_def translateParam_def)
    then show ?thesis
      using step_int32[OF rd off] step_int64[OF rd off _ np] step_int128[OF rd off _ wide] np
      by cases (simp_all add: translate_one_def del: sysv_step.simps)
  qed
qed

section \<open>All parameters\<close>

lemma translate_all:
  assumes "ready sl s" and "ab_off s + 8 * int (length ps) + 16 < 2 ^ 32"
    and "list_all (\<lambda>p. param_ok (pc_type p)) ps" and "length (rc_usrPtrs (ab_cfg s)) + length ps \<le> 256"
    and "\<not> wide_on_stack (sysv_from sl (map pc_type ps))"
  shows "\<exists>s' sl' pvs. for_each ps translate_one s = Some s' \<and> ready sl' s' \<and> noted pvs (ab_cfg s) (ab_cfg s') \<and>
    map fst pvs = concat (sysv_from sl (map pc_type ps)) \<and>
    (\<forall>base m. shaped m \<longrightarrow> args_at base m (length (rc_usrPtrs (ab_cfg s))) (sysv_from sl (map pc_type ps)) ps \<longrightarrow>
       holds_all base m pvs)"
  using assms
proof (induction ps arbitrary: sl s)
  case Nil
  then have "noted [] (ab_cfg s) (ab_cfg s)"
    by (auto simp: noted_def ready_def cfg_ready_def)
  then show ?case using Nil.prems(1)
    by (intro exI[of _ s] exI[of _ sl] exI[of _ "[]"]) (simp add: holds_all_def)
next
  case (Cons p ps)
  let ?k = "length (rc_usrPtrs (ab_cfg s))"
  obtain gs xs off where sl: "sl = (gs, xs, off)" by (cases sl)
  have off: "off = ab_off s" using Cons.prems(1) sl by (simp add: ready_def)
  obtain pls0 sl0 where st0: "sysv_step (pc_type p) (gs, xs, off) = (pls0, sl0)"
    by (cases "sysv_step (pc_type p) (gs, xs, off)")
  have w: "\<not> wide_on_stack [pls0]" "\<not> wide_on_stack (sysv_from sl0 (map pc_type ps))"
    using Cons.prems(5) st0 by (auto simp: sl wide_on_stack_def simp del: sysv_step.simps)
  obtain s1 where s1: "translate_one p s = Some s1" "step_ok p pls0 sl0 s s1"
    using translate_one_step[of gs xs off s p] Cons.prems(1-4) w(1) st0
    by (auto simp: sl off simp del: sysv_step.simps)
  obtain qs where qs: "noted qs (ab_cfg s) (ab_cfg s1)" "map fst qs = pls0"
    "\<forall>base m. shaped m \<longrightarrow> arg_at base m pls0 p ?k \<longrightarrow> holds_all base m qs"
    using s1(2) unfolding step_ok_def by blast
  have r1: "ready sl0 s1" "ab_off s1 \<le> ab_off s + 8"
    "length (rc_usrPtrs (ab_cfg s1)) = ?k + (if pc_type p = TyPtr then 1 else 0)"
    using s1(2) unfolding step_ok_def by blast+
  have "\<exists>s' sl' pvs. for_each ps translate_one s1 = Some s' \<and> ready sl' s' \<and> noted pvs (ab_cfg s1) (ab_cfg s') \<and>
    map fst pvs = concat (sysv_from sl0 (map pc_type ps)) \<and>
    (\<forall>base m. shaped m \<longrightarrow> args_at base m (length (rc_usrPtrs (ab_cfg s1))) (sysv_from sl0 (map pc_type ps)) ps \<longrightarrow>
       holds_all base m pvs)"
    using Cons.prems(2-4) r1 w(2) by (intro Cons.IH) (auto split: if_splits)
  then obtain s' sl' pvs where h: "for_each ps translate_one s1 = Some s'" "ready sl' s'" "noted pvs (ab_cfg s1) (ab_cfg s')"
    "map fst pvs = concat (sysv_from sl0 (map pc_type ps))"
    "\<forall>base m. shaped m \<longrightarrow> args_at base m (length (rc_usrPtrs (ab_cfg s1))) (sysv_from sl0 (map pc_type ps)) ps \<longrightarrow>
       holds_all base m pvs"
    by blast
  have from_eq: "sysv_from sl (map pc_type (p # ps)) = pls0 # sysv_from sl0 (map pc_type ps)"
    using st0 by (simp add: sl del: sysv_step.simps)
  have v: "holds_all base m (qs @ pvs)"
    if m: "shaped m" and a: "args_at base m ?k (pls0 # sysv_from sl0 (map pc_type ps)) (p # ps)" for base m
  proof -
    have "holds_all base m qs" using qs(3) m a by simp
    moreover have "holds_all base m pvs" using h(5) m a r1(3) by (simp split: if_splits)
    ultimately show ?thesis by (auto simp: holds_all_def)
  qed
  show ?case
    unfolding from_eq
    by (rule exI[of _ s'], rule exI[of _ sl'], rule exI[of _ "qs @ pvs"])
      (use s1(1) h(1,2,4) qs(2) noted_trans[OF qs(1) h(3)] v in auto)
qed

lemma for_each_params:
  assumes "cfg_ok cfg"
  shows "for_each [0..<nat (dc_count cfg)] (\<lambda>i s. do { p \<leftarrow> param_at cfg (int i); f p s }) s = for_each (dc_params cfg) f s"
proof -
  let ?ps = "dc_params cfg"
  have n: "nat (dc_count cfg) = length ?ps" using assms by (simp add: cfg_ok_def)
  have "for_each [0..<length ?ps] (\<lambda>i s. do { p \<leftarrow> param_at cfg (int i); f p s }) s =
      for_each [0..<length ?ps] (\<lambda>i. f (?ps ! i)) s"
    by (rule for_each_cong) (auto simp: param_at_def)
  also have "\<dots> = for_each (map ((!) ?ps) [0..<length ?ps]) f s"
  proof -
    have "for_each (map g xs) f s = for_each xs (\<lambda>i. f (g i)) s" for g :: "nat \<Rightarrow> param_cfg" and xs
      by (induction xs arbitrary: s) (auto intro!: Option.bind_cong)
    then show ?thesis by simp
  qed
  finally show ?thesis by (simp add: n map_nth)
qed

section \<open>The result and the registers to preserve\<close>

definition ret_places :: "param_type \<Rightarrow> place list" where
  "ret_places t =
     (if t = TyVoid then []
      else if vector_type t then
        [PlReg (XmmReg X0) (if member_size t = 4 then F0 else if member_size t = 8 then H0 else Full)]
      else if member_size t = 16 then [PlReg (Gpr64 GD) Full, PlReg (Gpr64 GA) Full]
      else [PlReg (if member_size t = 1 then Gpr8 GA else if member_size t = 2 then Gpr16 GA
                   else if member_size t = 4 then Gpr32 GA else Gpr64 GA) Full])"

definition preserved_gprs :: "gpr list" where
  "preserved_gprs = [GSP, GB, GBP, G12, G13, G14, G15]"

definition spec_regs :: "(reg_operands \<Rightarrow> mask) \<Rightarrow> rewriter_cfg \<Rightarrow> subregister set" where
  "spec_regs f c = regs_in (f (fs_reg (rc_spec c)))"

fun add_place_out :: "place \<Rightarrow> rewriter_cfg \<Rightarrow> rewriter_cfg option" where
  "add_place_out (PlReg r a) c = add_out r a c"
| "add_place_out _ c = Some c"

lemma add_outs:
  "list_all (\<lambda>pl. case pl of PlReg r a \<Rightarrow> access_ok r a | _ \<Rightarrow> True) pls \<Longrightarrow>
   \<exists>f. for_each pls add_place_out c = Some (upd_regs f c) \<and> (\<forall>x. ro_in (f x) = ro_in x \<and> ro_preserved (f x) = ro_preserved x) \<and>
     (\<forall>x. regs_in (ro_out (f x)) = regs_in (ro_out x) \<union> (\<Union>pl \<in> set pls. place_regs pl))"
proof (induction pls arbitrary: c)
  case Nil
  show ?case by (intro exI[of _ "\<lambda>x. x"]) (simp add: upd_regs_def)
next
  case (Cons pl pls)
  have "\<exists>h. add_place_out pl c = Some (upd_regs h c) \<and> (\<forall>x. ro_in (h x) = ro_in x \<and> ro_preserved (h x) = ro_preserved x) \<and>
     (\<forall>x. regs_in (ro_out (h x)) = regs_in (ro_out x) \<union> place_regs pl)"
  proof (cases pl)
    case (PlReg r a)
    then obtain mk where "getSubRegisterMask r a = Some mk" using Cons.prems by (auto simp: access_ok_def)
    then show ?thesis using PlReg
      by (intro exI[of _ "\<lambda>x. x\<lparr>ro_out := mask_add (ro_out x) mk\<rparr>"]) (simp add: add_out_def mask_simps)
  qed (auto simp: upd_regs_def intro!: exI[of _ "\<lambda>x. x"])
  then obtain h where h: "add_place_out pl c = Some (upd_regs h c)"
    "\<forall>x. ro_in (h x) = ro_in x \<and> ro_preserved (h x) = ro_preserved x"
    "\<forall>x. regs_in (ro_out (h x)) = regs_in (ro_out x) \<union> place_regs pl" by blast
  have "\<exists>f. for_each pls add_place_out (upd_regs h c) = Some (upd_regs f (upd_regs h c)) \<and>
     (\<forall>x. ro_in (f x) = ro_in x \<and> ro_preserved (f x) = ro_preserved x) \<and>
     (\<forall>x. regs_in (ro_out (f x)) = regs_in (ro_out x) \<union> (\<Union>pl \<in> set pls. place_regs pl))"
    using Cons.prems by (intro Cons.IH) simp
  then obtain f where f: "for_each pls add_place_out (upd_regs h c) = Some (upd_regs f (upd_regs h c))"
    "\<forall>x. ro_in (f x) = ro_in x \<and> ro_preserved (f x) = ro_preserved x"
    "\<forall>x. regs_in (ro_out (f x)) = regs_in (ro_out x) \<union> (\<Union>pl \<in> set pls. place_regs pl)" by blast
  have "upd_regs f (upd_regs h c) = upd_regs (\<lambda>x. f (h x)) c" by (simp add: upd_regs_def)
  then show ?case using h f by (intro exI[of _ "\<lambda>x. f (h x)"]) (simp add: Un_assoc)
qed

lemma ret_places_ok: "list_all (\<lambda>pl. case pl of PlReg r a \<Rightarrow> access_ok r a | _ \<Rightarrow> True) (ret_places t)"
  by (simp add: ret_places_def access_ok_def getSubRegisterMask_def nth_opt_def def_reg_xmm_def del: member_size.simps)

lemma for_each_short: "Option.bind x (for_each [] f) = x" "for_each [y] f = f y"
proof -
  show nil: "Option.bind x (for_each [] f) = x" for x by (cases x) simp_all
  show "for_each [y] f = f y" by (rule ext) (simp add: nil)
qed

lemma translateRet_ok:
  assumes t: "t = TyVoid \<or> param_ok t" and c: "rc_state c = ps_init" and z: "ro_out (fs_reg (rc_spec c)) = mask_zero"
  shows "\<exists>c'. translateRet t c = Some c' \<and> cfg_ready arg_xmms 8 c' \<and> rc_usrPtrs c' = rc_usrPtrs c \<and>
    ro_in (fs_reg (rc_spec c')) = ro_in (fs_reg (rc_spec c)) \<and>
    ro_preserved (fs_reg (rc_spec c')) = ro_preserved (fs_reg (rc_spec c)) \<and>
    spec_regs ro_out c' = (\<Union>pl \<in> set (ret_places t). place_regs pl) \<and>
    fs_stack_in (rc_spec c') = fs_stack_in (rc_spec c) @ [\<lparr>sr_offset = 0, sr_length = 8\<rparr>] \<and>
    (\<forall>base m. at_entry base m \<longrightarrow> ps_conc base (rc_state c') m)"
proof -
  have fr: "fresh_from 0 (ps_stack ps_init)" by (simp add: fresh_from_def ps_init_def stack_init_def)
  have sz: "size_ok (Ptr ReturnPtr 0 0) (mem_bytes MB8)" by (simp add: size_ok_def)
  obtain ps where ps: "setStack ps_init 0 MB8 (Ptr ReturnPtr 0 0) False = Some ps" "wf_ps ps"
    "fresh_from 8 (ps_stack ps)" "\<forall>l. reg_elems ps l = reg_elems ps_init l"
    "\<forall>base m. ps_conc base ps_init m \<longrightarrow> bytes_conc base (Ptr ReturnPtr 0 0) (load_place m (PlStack 0 MB8)) \<longrightarrow> ps_conc base ps m"
    using note_stack[OF wf_ps_init fr _ _ _ sz] by auto
  define c1 where "c1 = (add_range 0 8 c)\<lparr>rc_state := ps\<rparr>"
  have e: "entry_stack 0 MB8 (Ptr ReturnPtr 0 0) (add_range 0 8 c) = Some c1"
    using ps(1) c by (simp add: entry_stack_def add_range_def c1_def)
  have rd: "cfg_ready arg_xmms 8 (upd_regs f c1)" for f
    using ps(2,3) ps(4)[rule_format, of "LSse128 _"] reg_elems_init[of "LSse128 _"]
    by (auto simp: cfg_ready_def c1_def upd_regs_def arg_xmms_def simp del: reg_elems.simps)
  have conc: "ps_conc base ps m" if "at_entry base m" for base m
  proof -
    have "ps_conc base ps_init m"
      using that reg_elems_init
      by (auto simp: ps_conc_def list_all_iff in_all_locs at_entry_def conc_def conc_at_def stack_conc_def
          ps_init_def stack_init_def stack_bytes_def simp del: reg_elems.simps)
    then show ?thesis using ps(5) that by (auto simp: at_entry_def bytes_conc_def)
  qed
  have out: "\<exists>f. translateRet t c = Some (upd_regs f c1) \<and> (\<forall>x. ro_in (f x) = ro_in x \<and> ro_preserved (f x) = ro_preserved x) \<and>
    regs_in (ro_out (f (fs_reg (rc_spec c1)))) = (\<Union>pl \<in> set (ret_places t). place_regs pl)"
  proof -
    have z1: "regs_in (ro_out (fs_reg (rc_spec c1))) = {}" using z by (simp add: c1_def add_range_def mask_simps)
    have "translateRet t c = for_each (ret_places t) add_place_out c1"
      using t by (cases t) (simp_all add: translateRet_def e ret_places_def vector_type_def param_ok_def for_each_short)
    moreover obtain f where "for_each (ret_places t) add_place_out c1 = Some (upd_regs f c1)"
      "\<forall>x. ro_in (f x) = ro_in x \<and> ro_preserved (f x) = ro_preserved x"
      "\<forall>x. regs_in (ro_out (f x)) = regs_in (ro_out x) \<union> (\<Union>pl \<in> set (ret_places t). place_regs pl)"
      using add_outs[OF ret_places_ok, of t c1] by blast
    ultimately show ?thesis using z1 by (intro exI[of _ f]) simp
  qed
  then obtain f where f: "translateRet t c = Some (upd_regs f c1)" "\<forall>x. ro_in (f x) = ro_in x \<and> ro_preserved (f x) = ro_preserved x"
    "regs_in (ro_out (f (fs_reg (rc_spec c1)))) = (\<Union>pl \<in> set (ret_places t). place_regs pl)"
    by blast
  show ?thesis
    using f rd[of f] conc
    by (intro exI[of _ "upd_regs f c1"]) (simp add: spec_regs_def upd_regs_def c1_def add_range_def)
qed

section \<open>The whole translation\<close>

lemma note_gpr:
  assumes wf: "wf_ps ps" and sz: "size_ok v 8"
  shows "\<exists>ps'. setRegister ps (Gpr64 g) Full v False = Some ps' \<and> wf_ps ps' \<and>
    (\<forall>base m. shaped m \<longrightarrow> ps_conc base ps m \<longrightarrow> bytes_conc base v (load_place m (PlReg (Gpr64 g) Full)) \<longrightarrow>
       ps_conc base ps' m)"
proof -
  have d: "getRegisterData (Gpr64 g) Full = Some (LGprs64 (gpr_nr g), 0, 8)" "access_ok (Gpr64 g) Full"
    by (auto simp: reg_data_simps access_ok_def getSubRegisterMask_def)
  have inner: "no_inner_head (reg_elems ps (LGprs64 (gpr_nr g))) 0 8"
    using wf_psD[OF wf, of "LGprs64 (gpr_nr g)"] by (intro gpr_no_inner) auto
  show ?thesis using note_reg[OF wf d(2) _ d(1) inner sz] by auto
qed

definition gpr_regs :: "gpr \<Rightarrow> subregister set" where
  "gpr_regs g = {GprSub g B0, GprSub g B1, GprSub g W1, GprSub g D1}"

lemma gpr_mask: "\<exists>mk. getSubRegisterMask (Gpr64 g) Full = Some mk \<and> regs_in mk = gpr_regs g"
  by (simp add: getSubRegisterMask_def def_reg_simple_def mask_simps gpr_regs_def)

definition unchanged_but_preserved :: "gpr list \<Rightarrow> rewriter_cfg \<Rightarrow> rewriter_cfg \<Rightarrow> bool" where
  "unchanged_but_preserved gs c c' \<longleftrightarrow>
     ro_in (fs_reg (rc_spec c')) = ro_in (fs_reg (rc_spec c)) \<and> ro_out (fs_reg (rc_spec c')) = ro_out (fs_reg (rc_spec c)) \<and>
     fs_stack_in (rc_spec c') = fs_stack_in (rc_spec c) \<and> rc_usrPtrs c' = rc_usrPtrs c \<and>
     spec_regs ro_preserved c' = spec_regs ro_preserved c \<union> (\<Union>g \<in> set gs. gpr_regs g)"

lemma save_callee_all:
  "wf_ps (rc_state c) \<Longrightarrow>
   \<exists>c'. for_each (map Gpr64 gs) save_callee c = Some c' \<and> wf_ps (rc_state c') \<and> unchanged_but_preserved gs c c' \<and>
     (\<forall>base m. shaped m \<longrightarrow> ps_conc base (rc_state c) m \<longrightarrow> ps_conc base (rc_state c') m)"
proof (induction gs arbitrary: c)
  case (Cons g gs)
  obtain mk where mk: "getSubRegisterMask (Gpr64 g) Full = Some mk" "regs_in mk = gpr_regs g" using gpr_mask by blast
  obtain ps where ps: "setRegister (rc_state c) (Gpr64 g) Full Unknown False = Some ps" "wf_ps ps"
    "\<forall>base m. shaped m \<longrightarrow> ps_conc base (rc_state c) m \<longrightarrow> ps_conc base ps m"
    using note_gpr[OF Cons.prems, of Unknown g] by (auto simp: size_ok_def bytes_conc_def)
  define c1 where "c1 = (upd_regs (\<lambda>x. x\<lparr>ro_preserved := mask_add (ro_preserved x) mk\<rparr>) c)\<lparr>rc_state := ps\<rparr>"
  have st: "save_callee (Gpr64 g) c = Some c1"
    using mk(1) ps(1) by (simp add: save_callee_def add_preserved_def entry_reg_def upd_regs_def c1_def)
  have u: "unchanged_but_preserved [g] c c1"
    using mk(2) by (simp add: unchanged_but_preserved_def c1_def upd_regs_def spec_regs_def mask_simps)
  have "wf_ps (rc_state c1)" using ps(2) by (simp add: c1_def)
  then obtain c' where c': "for_each (map Gpr64 gs) save_callee c1 = Some c'" "wf_ps (rc_state c')"
    "unchanged_but_preserved gs c1 c'"
    "\<forall>base m. shaped m \<longrightarrow> ps_conc base (rc_state c1) m \<longrightarrow> ps_conc base (rc_state c') m"
    using Cons.IH by blast
  have "unchanged_but_preserved (g # gs) c c'" using u c'(3) by (auto simp: unchanged_but_preserved_def)
  moreover have "ps_conc base (rc_state c') m" if "shaped m" "ps_conc base (rc_state c) m" for base m
    using c'(4) ps(3) that by (simp add: c1_def)
  ultimately show ?case using st c'(1,2) by auto
qed (simp add: unchanged_but_preserved_def)

lemma callee_saved_gprs: "callee_saved = map Gpr64 [GB, GBP, G12, G13, G14, G15]"
  by (simp add: callee_saved_def)

text \<open>The stack pointer and the registers to preserve.\<close>

lemma finish_ok:
  assumes wf: "wf_ps (rc_state c)"
  shows "\<exists>c'. do { c \<leftarrow> add_in (Gpr64 GSP) Full c; c \<leftarrow> add_preserved (Gpr64 GSP) c;
       c \<leftarrow> entry_reg (Gpr64 GSP) Full (Ptr StackPtr 0 0) c; for_each callee_saved save_callee c } = Some c' \<and>
    wf_ps (rc_state c') \<and> spec_regs ro_in c' = spec_regs ro_in c \<union> gpr_regs GSP \<and> spec_regs ro_out c' = spec_regs ro_out c \<and>
    spec_regs ro_preserved c' = spec_regs ro_preserved c \<union> (\<Union>g \<in> set preserved_gprs. gpr_regs g) \<and>
    fs_stack_in (rc_spec c') = fs_stack_in (rc_spec c) \<and> rc_usrPtrs c' = rc_usrPtrs c \<and>
    (\<forall>base m. at_entry base m \<longrightarrow> ps_conc base (rc_state c) m \<longrightarrow> ps_conc base (rc_state c') m)"
proof -
  obtain mk where mk: "getSubRegisterMask (Gpr64 GSP) Full = Some mk" "regs_in mk = gpr_regs GSP" using gpr_mask by blast
  have sz: "size_ok (Ptr StackPtr 0 0) 8" by (simp add: size_ok_def)
  obtain ps where ps: "setRegister (rc_state c) (Gpr64 GSP) Full (Ptr StackPtr 0 0) False = Some ps" "wf_ps ps"
    "\<forall>base m. shaped m \<longrightarrow> ps_conc base (rc_state c) m \<longrightarrow>
       bytes_conc base (Ptr StackPtr 0 0) (load_place m (PlReg (Gpr64 GSP) Full)) \<longrightarrow> ps_conc base ps m"
    using note_gpr[OF wf sz, of GSP] by blast
  define c1 where "c1 = (upd_regs (\<lambda>x. x\<lparr>ro_in := mask_add (ro_in x) mk, ro_preserved := mask_add (ro_preserved x) mk\<rparr>) c)
    \<lparr>rc_state := ps\<rparr>"
  have st: "do { c \<leftarrow> add_in (Gpr64 GSP) Full c; c \<leftarrow> add_preserved (Gpr64 GSP) c; entry_reg (Gpr64 GSP) Full (Ptr StackPtr 0 0) c } = Some c1"
    using mk(1) ps(1) by (simp add: add_in_def add_preserved_def entry_reg_def upd_regs_def c1_def)
  obtain c' where c': "for_each callee_saved save_callee c1 = Some c'" "wf_ps (rc_state c')"
    "unchanged_but_preserved [GB, GBP, G12, G13, G14, G15] c1 c'"
    "\<forall>base m. shaped m \<longrightarrow> ps_conc base (rc_state c1) m \<longrightarrow> ps_conc base (rc_state c') m"
    using save_callee_all[of c1 "[GB, GBP, G12, G13, G14, G15]"] ps(2) unfolding callee_saved_gprs
    by (auto simp: c1_def)
  have "do { c \<leftarrow> add_in (Gpr64 GSP) Full c; c \<leftarrow> add_preserved (Gpr64 GSP) c;
       c \<leftarrow> entry_reg (Gpr64 GSP) Full (Ptr StackPtr 0 0) c; for_each callee_saved save_callee c } = Some c'"
    using st c'(1) by (auto simp: bind_eq_Some_conv)
  moreover have "ps_conc base (rc_state c') m" if e: "at_entry base m" and c: "ps_conc base (rc_state c) m" for base m
  proof -
    have sh: "shaped m" using e by (simp add: at_entry_def shaped_def)
    have "bytes_conc base (Ptr StackPtr 0 0) (load_place m (PlReg (Gpr64 GSP) Full))"
      using e load_length_gpr[OF sh, of GSP] by (simp add: at_entry_def bytes_conc_def del: load_place.simps)
    then show ?thesis using c'(4) ps(3) sh c by (simp add: c1_def)
  qed
  moreover have "spec_regs ro_in c1 = spec_regs ro_in c \<union> gpr_regs GSP" "spec_regs ro_out c1 = spec_regs ro_out c"
    "spec_regs ro_preserved c1 = spec_regs ro_preserved c \<union> gpr_regs GSP" "fs_stack_in (rc_spec c1) = fs_stack_in (rc_spec c)"
    "rc_usrPtrs c1 = rc_usrPtrs c"
    using mk(2) by (simp_all add: c1_def upd_regs_def spec_regs_def mask_simps)
  ultimately show ?thesis
    using c'(2,3) by (auto simp: unchanged_but_preserved_def spec_regs_def preserved_gprs_def)
qed

text \<open>What the translation promises of a configuration.\<close>

definition entry_ok :: "drob_cfg \<Rightarrow> rewriter_cfg \<Rightarrow> bool" where
  "entry_ok cfg c \<longleftrightarrow>
     (let pls = sysv_places (map pc_type (dc_params cfg)) in
      wf_ps (rc_state c) \<and>
      spec_regs ro_in c = (\<Union>pl \<in> set (concat pls). place_regs pl) \<union> gpr_regs GSP \<and>
      spec_regs ro_out c = (\<Union>pl \<in> set (ret_places (dc_ret cfg)). place_regs pl) \<and>
      spec_regs ro_preserved c = (\<Union>g \<in> set preserved_gprs. gpr_regs g) \<and>
      fs_stack_in (rc_spec c) = place_ranges (PlStack 0 MB8) @ concat (map place_ranges (concat pls)) \<and>
      (\<forall>base m. at_entry base m \<longrightarrow> args_at base m 0 pls (dc_params cfg) \<longrightarrow> ps_conc base (rc_state c) m))"

lemma arch_translate_sound:
  assumes ok: "cfg_ok cfg" and ret: "dc_ret cfg = TyVoid \<or> param_ok (dc_ret cfg)" and n: "dc_count cfg \<le> 256"
    and wide: "\<not> wide_on_stack (sysv_places (map pc_type (dc_params cfg)))"
  shows "\<exists>c. arch_translate_cfg cfg rewriter_init = Some c \<and> entry_ok cfg c"
proof -
  let ?z = "upd_regs (\<lambda>_. \<lparr>ro_in = mask_zero, ro_out = mask_zero, ro_preserved = mask_zero\<rparr>) rewriter_init"
  let ?pls = "sysv_places (map pc_type (dc_params cfg))"
  obtain c1 where c1: "translateRet (dc_ret cfg) ?z = Some c1" "cfg_ready arg_xmms 8 c1" "rc_usrPtrs c1 = rc_usrPtrs ?z"
    "ro_in (fs_reg (rc_spec c1)) = ro_in (fs_reg (rc_spec ?z))"
    "ro_preserved (fs_reg (rc_spec c1)) = ro_preserved (fs_reg (rc_spec ?z))"
    "spec_regs ro_out c1 = (\<Union>pl \<in> set (ret_places (dc_ret cfg)). place_regs pl)"
    "fs_stack_in (rc_spec c1) = fs_stack_in (rc_spec ?z) @ [\<lparr>sr_offset = 0, sr_length = 8\<rparr>]"
    "\<forall>base m. at_entry base m \<longrightarrow> ps_conc base (rc_state c1) m"
    using translateRet_ok[OF ret, of ?z] by (auto simp: rewriter_init_def upd_regs_def)
  let ?s = "\<lparr>ab_cfg = c1, ab_intIdx = 0, ab_sseIdx = 0, ab_off = 8\<rparr>"
  have rd: "ready (arg_gprs, arg_xmms, 8) ?s" using c1(2) by (simp add: ready_def)
  have len: "length (dc_params cfg) \<le> 256" using ok n by (simp add: cfg_ok_def)
  have u: "rc_usrPtrs c1 = []" using c1(3) by (simp add: rewriter_init_def upd_regs_def)
  obtain s' sl' pvs where l: "for_each (dc_params cfg) translate_one ?s = Some s'" "ready sl' s'" "noted pvs c1 (ab_cfg s')"
    "map fst pvs = concat ?pls"
    "\<forall>base m. shaped m \<longrightarrow> args_at base m 0 ?pls (dc_params cfg) \<longrightarrow> holds_all base m pvs"
    using translate_all[OF rd, of "dc_params cfg"] ok len wide u by (auto simp: cfg_ok_def sysv_places_def)
  have wf: "wf_ps (rc_state (ab_cfg s'))" using l(3) by (simp add: noted_def)
  obtain c where c: "do { c \<leftarrow> add_in (Gpr64 GSP) Full (ab_cfg s'); c \<leftarrow> add_preserved (Gpr64 GSP) c;
       c \<leftarrow> entry_reg (Gpr64 GSP) Full (Ptr StackPtr 0 0) c; for_each callee_saved save_callee c } = Some c"
    "wf_ps (rc_state c)" "spec_regs ro_in c = spec_regs ro_in (ab_cfg s') \<union> gpr_regs GSP"
    "spec_regs ro_out c = spec_regs ro_out (ab_cfg s')"
    "spec_regs ro_preserved c = spec_regs ro_preserved (ab_cfg s') \<union> (\<Union>g \<in> set preserved_gprs. gpr_regs g)"
    "fs_stack_in (rc_spec c) = fs_stack_in (rc_spec (ab_cfg s'))"
    "\<forall>base m. at_entry base m \<longrightarrow> ps_conc base (rc_state (ab_cfg s')) m \<longrightarrow> ps_conc base (rc_state c) m"
    using finish_ok[OF wf] by blast
  have tr: "arch_translate_cfg cfg rewriter_init = Some c"
    using c1(1) l(1) c(1) by (simp add: arch_translate_cfg_def for_each_params[OF ok] Let_def)
  have z: "spec_regs ro_in c1 = {}" "spec_regs ro_preserved c1 = {}" "fs_stack_in (rc_spec c1) = place_ranges (PlStack 0 MB8)"
    using c1(4,5,7) by (simp_all add: spec_regs_def upd_regs_def rewriter_init_def mask_simps)
  have pl: "concat (map (place_ranges \<circ> fst) pvs) = concat (map place_ranges (concat ?pls))"
    "(\<Union>pv \<in> set pvs. place_regs (fst pv)) = (\<Union>pl \<in> set (concat ?pls). place_regs pl)"
    unfolding l(4)[symmetric] by (simp_all add: comp_def)
  have "ps_conc base (rc_state c) m" if e: "at_entry base m" and a: "args_at base m 0 ?pls (dc_params cfg)" for base m
  proof -
    have sh: "shaped m" using e by (simp add: at_entry_def shaped_def)
    have "ps_conc base (rc_state (ab_cfg s')) m"
      using l(3,5) c1(8) e a sh by (simp add: noted_def)
    then show ?thesis using c(7) e by blast
  qed
  then have "entry_ok cfg c"
    using c(2-6) l(3) z c1(6) pl unfolding entry_ok_def Let_def noted_def spec_regs_def by simp
  then show ?thesis using tr by blast
qed

end
