(* ===== verification/Config_Sound.thy ===== *)
theory Config_Sound
  imports Abi_Sound
begin

text \<open>
  The setters of the configuration: they keep it well formed, and the value set is the one
  the calling convention passes. Their check of the parameter number is off by one.
\<close>

section \<open>Values set\<close>

lemma ucast_low:
  fixes x y :: u128
  assumes "take_bit n x = take_bit n y" and "LENGTH('b::len) \<le> n"
  shows "(ucast x :: 'b word) = ucast y"
proof (rule bit_word_eqI)
  fix k assume k: "k < LENGTH('b)"
  have "bit (take_bit n x) k = bit (take_bit n y) k" using assms(1) by simp
  then show "bit (ucast x :: 'b word) k = bit (ucast y :: 'b word) k"
    using k assms(2) by (auto simp: bit_simps)
qed

lemma le_bytes_take:
  fixes x y :: u128
  assumes "take_bit (8 * n) x = take_bit (8 * n) y"
  shows "le_bytes n x = le_bytes n y"
proof (rule nth_equalityI)
  fix i assume "i < length (le_bytes n x)"
  then have i: "i < n" by simp
  show "le_bytes n x ! i = le_bytes n y ! i"
  proof (rule bit_word_eqI)
    fix k assume "k < LENGTH(8)"
    then have k: "8 * i + k < 8 * n" using i by simp
    have "bit (take_bit (8 * n) x) (8 * i + k) = bit (take_bit (8 * n) y) (8 * i + k)" using assms by simp
    then show "bit (le_bytes n x ! i) k = bit (le_bytes n y ! i) k" using i k by (simp add: bit_le_bytes_nth bit_simps)
  qed
qed simp

lemma set_member_low: "take_bit (8 * member_size t) (set_member t v old) = take_bit (8 * member_size t) v"
  by (rule bit_word_eqI) (auto simp: set_member_def Let_def bit_simps simp del: member_size.simps)

lemma member_size_cases: "member_size t \<in> {1, 2, 4, 8, 16}"
  by (cases t) auto

lemma arg_bytes_low:
  assumes "take_bit (8 * member_size t) x = take_bit (8 * member_size t) y"
  shows "arg_bytes t x = arg_bytes t y"
proof -
  consider "member_size t = 1" | "member_size t = 2" | "member_size t \<in> {4, 8, 16}"
    using member_size_cases[of t] by blast
  then show ?thesis
  proof cases
    case 1
    then have t: "t \<in> {TyBool, TyChar, TyUchar, TyInt8, TyUint8}" by (simp split: if_splits)
    have "(ucast x :: byte) = ucast y" by (rule ucast_low[OF assms]) (simp only: 1, simp)
    then show ?thesis using t by (auto simp: arg_bytes_def arg_int_def)
  next
    case 2
    then have t: "t \<in> {TyShort, TyUshort, TyInt16, TyUint16}" by (simp split: if_splits)
    have "(ucast x :: u16) = ucast y" by (rule ucast_low[OF assms]) (simp only: 2, simp)
    then show ?thesis using t by (auto simp: arg_bytes_def arg_int_def)
  next
    case 3
    then have t: "\<not> t \<in> {TyChar, TyInt8, TyBool, TyUchar, TyUint8, TyShort, TyInt16, TyUshort, TyUint16}"
      by (simp split: if_splits)
    have "arg_size t = member_size t" using 3 by (auto simp: arg_size_def simp del: member_size.simps)
    then show ?thesis using raw_bytes[OF t] le_bytes_take[OF assms] by simp
  qed
qed

text \<open>What a setter promises of the parameter it is for.\<close>

definition param_set :: "drob_cfg \<Rightarrow> int \<Rightarrow> drob_cfg \<Rightarrow> bool" where
  "param_set cfg nr cfg' \<longleftrightarrow>
     cfg_ok cfg' \<and> dc_count cfg' = dc_count cfg \<and> dc_ret cfg' = dc_ret cfg \<and> dc_ranges cfg' = dc_ranges cfg \<and>
     map pc_type (dc_params cfg') = map pc_type (dc_params cfg) \<and>
     (\<forall>k. int k \<noteq> nr \<longrightarrow> k < length (dc_params cfg) \<longrightarrow> dc_params cfg' ! k = dc_params cfg ! k)"

lemma put_param_set:
  assumes ok: "cfg_ok cfg" and p: "param_at cfg nr = Some p" and q: "pc_type q = pc_type p"
  shows "param_set cfg nr (put_param nr q cfg)" and "dc_params (put_param nr q cfg) ! nat nr = q"
proof -
  have n: "0 \<le> nr" "nat nr < length (dc_params cfg)" "dc_params cfg ! nat nr = p"
    using p by (auto simp: param_at_def split: if_splits)
  have "map pc_type ((dc_params cfg)[nat nr := q]) = map pc_type (dc_params cfg)"
    using n q by (metis list_update_id map_update)
  then show "param_set cfg nr (put_param nr q cfg)"
    using put_param_ok[OF ok p q] n by (auto simp: param_set_def put_param_def nth_list_update)
  show "dc_params (put_param nr q cfg) ! nat nr = q" using n by (simp add: put_param_def)
qed

lemma set_param_spec:
  assumes ok: "cfg_ok cfg" and nr: "0 \<le> nr" "nr < dc_count cfg" and t: "pc_type (dc_params cfg ! nat nr) = t"
  shows "\<exists>cfg'. drob_cfg_set_param t cfg nr v = Some (0, cfg') \<and> param_set cfg nr cfg' \<and>
    pc_state (dc_params cfg' ! nat nr) = ParamConst \<and> arg_bytes t (pc_value (dc_params cfg' ! nat nr)) = arg_bytes t v"
proof -
  let ?p = "dc_params cfg ! nat nr"
  let ?q = "?p\<lparr>pc_value := set_member t v (pc_value ?p), pc_state := ParamConst\<rparr>"
  have p: "param_at cfg nr = Some ?p" using param_at_ok[OF ok nr] by simp
  have "drob_cfg_set_param t cfg nr v = Some (0, put_param nr ?q cfg)"
    using nr p t by (simp add: drob_cfg_set_param_def)
  moreover have "arg_bytes t (pc_value ?q) = arg_bytes t v"
    by (rule arg_bytes_low) (simp add: set_member_low del: member_size.simps)
  ultimately show ?thesis using put_param_set[OF ok p, of ?q] by simp
qed

lemma set_param_wrong_type:
  assumes "cfg_ok cfg" and "0 \<le> nr" "nr < dc_count cfg" and "pc_type (dc_params cfg ! nat nr) \<noteq> t"
  shows "drob_cfg_set_param t cfg nr v = Some (- EINVAL, cfg)"
  using assms param_at_ok[OF assms(1-3)] by (simp add: drob_cfg_set_param_def)

lemma set_flag_spec:
  assumes ok: "cfg_ok cfg" and nr: "0 \<le> nr" "nr < dc_count cfg" and t: "pc_type (dc_params cfg ! nat nr) = TyPtr"
    and k: "ptr_flag_bit flag = Some k"
  shows "\<exists>cfg'. drob_cfg_set_ptr_flag cfg nr flag = Some (0, cfg') \<and> param_set cfg nr cfg' \<and>
    bit (pc_ptr_flags (dc_params cfg' ! nat nr)) k"
proof -
  let ?p = "dc_params cfg ! nat nr"
  let ?q = "?p\<lparr>pc_ptr_flags := set_bit k (pc_ptr_flags ?p)\<rparr>"
  have p: "param_at cfg nr = Some ?p" using param_at_ok[OF ok nr] by simp
  have "k < 64" using k by (cases flag) auto
  then have "bit (pc_ptr_flags ?q) k" by (simp add: bit_simps)
  moreover have "drob_cfg_set_ptr_flag cfg nr flag = Some (0, put_param nr ?q cfg)"
    using nr p t k by (simp add: drob_cfg_set_ptr_flag_def)
  ultimately show ?thesis using put_param_set[OF ok p, of ?q] by simp
qed

lemma set_align_spec:
  assumes ok: "cfg_ok cfg" and nr: "0 \<le> nr" "nr < dc_count cfg" and t: "pc_type (dc_params cfg ! nat nr) = TyPtr"
  shows "\<exists>cfg'. drob_cfg_set_ptr_align cfg nr al = Some (if al = 0 \<or> IS_POWER_OF_2 al then 0 else - EINVAL, cfg') \<and>
    param_set cfg nr cfg' \<and> (al = 0 \<or> IS_POWER_OF_2 al \<longrightarrow> pc_ptr_align (dc_params cfg' ! nat nr) = al)"
proof -
  let ?p = "dc_params cfg ! nat nr"
  let ?q = "?p\<lparr>pc_ptr_align := al\<rparr>"
  have p: "param_at cfg nr = Some ?p" using param_at_ok[OF ok nr] by simp
  show ?thesis
  proof (cases "al = 0 \<or> IS_POWER_OF_2 al")
    case True
    then have "drob_cfg_set_ptr_align cfg nr al = Some (0, put_param nr ?q cfg)"
      using nr p t by (auto simp: drob_cfg_set_ptr_align_def)
    then show ?thesis using True put_param_set[OF ok p, of ?q] by simp
  next
    case False
    then show ?thesis using nr p t ok by (auto simp: drob_cfg_set_ptr_align_def param_set_def)
  qed
qed

lemma add_range_spec:
  assumes "cfg_ok cfg"
  shows "case drob_cfg_add_const_range can cfg start sz of (ret, cfg') \<Rightarrow> cfg_ok cfg' \<and> dc_params cfg' = dc_params cfg \<and>
    (ret = 0 \<and> dc_ranges cfg' = Some ((case dc_ranges cfg of Some rs \<Rightarrow> rs | None \<Rightarrow> []) @ [\<lparr>mc_start = start, mc_size = sz\<rparr>]) \<or>
     ret = - ENOMEM \<and> cfg' = cfg)"
  using assms by (auto simp: drob_cfg_add_const_range_def cfg_ok_def split: option.split)

section \<open>The check of the parameter number\<close>

lemma param_number_checked:
  assumes ok: "cfg_ok cfg"
  shows "drob_cfg_set_param t cfg nr v = None \<longleftrightarrow> nr < 0 \<or> nr = dc_count cfg"
    "drob_cfg_set_ptr_flag cfg nr flag = None \<longleftrightarrow> nr < 0 \<or> nr = dc_count cfg"
    "drob_cfg_set_ptr_align cfg nr al = None \<longleftrightarrow> nr < 0 \<or> nr = dc_count cfg"
proof -
  have p: "param_at cfg nr = None \<longleftrightarrow> nr < 0 \<or> nr \<ge> dc_count cfg" using ok by (auto simp: param_at_def cfg_ok_def)
  have "0 \<le> dc_count cfg" using ok by (auto simp: cfg_ok_def)
  then have same: "nr < 0 \<or> nr = dc_count cfg \<longleftrightarrow> \<not> dc_count cfg < nr \<and> param_at cfg nr = None"
    unfolding p by linarith
  show "drob_cfg_set_param t cfg nr v = None \<longleftrightarrow> nr < 0 \<or> nr = dc_count cfg"
    unfolding same by (cases "param_at cfg nr") (simp_all add: drob_cfg_set_param_def)
  show "drob_cfg_set_ptr_flag cfg nr flag = None \<longleftrightarrow> nr < 0 \<or> nr = dc_count cfg"
    unfolding same by (cases "param_at cfg nr"; cases "ptr_flag_bit flag") (simp_all add: drob_cfg_set_ptr_flag_def)
  show "drob_cfg_set_ptr_align cfg nr al = None \<longleftrightarrow> nr < 0 \<or> nr = dc_count cfg"
    unfolding same by (cases "param_at cfg nr") (simp_all add: drob_cfg_set_ptr_align_def)
qed

lemma param_number_refused:
  assumes "dc_count cfg < nr"
  shows "drob_cfg_set_param t cfg nr v = Some (- EINVAL, cfg)" "drob_cfg_set_ptr_flag cfg nr flag = Some (- EINVAL, cfg)"
    "drob_cfg_set_ptr_align cfg nr al = Some (- EINVAL, cfg)"
  using assms by (simp_all add: drob_cfg_set_param_def drob_cfg_set_ptr_flag_def drob_cfg_set_ptr_align_def)

section \<open>Wide integers on the stack\<close>

text \<open>
  A 128-bit integer that does not fit into the integer registers is looked for at an offset
  divisible by 16. The stack pointer at the entry is not divisible by 16, so the argument is
  8 bytes off.
\<close>

lemma note_wide:
  assumes rd: "cfg_ready xs off c" and o': "off \<le> off'" "off' + 16 < 2 ^ 32" and sz: "size_ok v 16"
  shows "\<exists>c'. pass_stack off' MB16 v c = Some c' \<and>
    fs_stack_in (rc_spec c') = fs_stack_in (rc_spec c) @ [\<lparr>sr_offset = off', sr_length = 16\<rparr>]"
proof -
  have wf: "wf_ps (rc_state c)" "fresh_from off' (ps_stack (rc_state c))" "0 \<le> off'"
    using rd o' by (auto simp: cfg_ready_def fresh_from_def)
  show ?thesis using note_stack[OF wf o'(2), of MB16 v] sz
    by (auto simp: pass_stack_def entry_stack_def add_range_def)
qed

lemma mod_add8: "(x + 8) mod 16 = (x mod 16 + 8) mod 16" for x :: int
  by (simp add: mod_add_left_eq)

lemma misplaced_offset:
  fixes off :: int
  assumes "off mod 8 = 0"
  defines "off' \<equiv> if off mod 16 \<noteq> 0 then off + 8 else off"
  shows "off' mod 16 = 0" "off \<le> off'" "off' \<le> off + 8" "off' \<noteq> arg_align 16 off" "arg_align 16 off mod 16 = 8"
proof -
  have m: "off mod 16 = 0 \<or> off mod 16 = 8" using assms(1) by presburger
  then have a: "arg_align 16 off mod 16 = 8" by (elim disjE) (simp_all add: arg_align_def mod_add8)
  show o': "off' mod 16 = 0" using m by (elim disjE) (simp_all add: off'_def mod_add8)
  show "off \<le> off'" "off' \<le> off + 8" by (simp_all add: off'_def)
  show "off' \<noteq> arg_align 16 off" using a o' by auto
  show "arg_align 16 off mod 16 = 8" by (rule a)
qed

lemma int128_misplaced:
  assumes rd: "ready (gs, xs, off) s" and few: "length gs < 2" and al: "off mod 8 = 0" and off: "off + 32 < 2 ^ 32"
  shows "\<exists>s' o'. translateInt128 p s = Some s' \<and>
    fs_stack_in (rc_spec (ab_cfg s')) = fs_stack_in (rc_spec (ab_cfg s)) @ [\<lparr>sr_offset = o', sr_length = 16\<rparr>] \<and>
    o' mod 16 = 0 \<and> o' \<noteq> arg_align 16 off \<and> arg_align 16 off mod 16 = 8"
proof -
  have r: "gs = drop (ab_intIdx s) arg_gprs" "off = ab_off s" "cfg_ready xs off (ab_cfg s)"
    using rd by (auto simp: ready_def)
  have i: "\<not> ab_intIdx s + 1 < 6" using few r(1) by simp
  let ?s = "if ab_off s mod 16 \<noteq> 0 then next_stack 8 (ab_cfg s) s else s"
  let ?o = "ab_off ?s"
  have o': "?o mod 16 = 0" "off \<le> ?o" "?o \<le> off + 8" "ab_cfg ?s = ab_cfg s" "?o \<noteq> arg_align 16 off" "arg_align 16 off mod 16 = 8"
    using misplaced_offset[OF al] r(2) by (auto simp: next_stack_def)
  have sz: "size_ok (known p (Imm128 (pc_value p))) 16" by (simp add: size_known)
  obtain c' where c': "pass_stack ?o MB16 (known p (Imm128 (pc_value p))) (ab_cfg s) = Some c'"
    "fs_stack_in (rc_spec c') = fs_stack_in (rc_spec (ab_cfg s)) @ [\<lparr>sr_offset = ?o, sr_length = 16\<rparr>]"
    using note_wide[OF r(3) o'(2) _ sz] off o'(3) by auto
  have "translateInt128 p s = Some (next_stack 16 c' ?s)"
    using i c'(1) o'(1,4) by (simp add: translateInt128_def Let_def split del: if_split)
  moreover have "ab_cfg (next_stack 16 c' ?s) = c'" by (simp add: next_stack_def)
  ultimately show ?thesis using c'(2) o'(1,5,6) by auto
qed

text \<open>A vector is put at the next offset as it is.\<close>

lemma sse128_unaligned:
  assumes rd: "ready (gs, xs, off) s" and none: "xs = []" and off: "off + 32 < 2 ^ 32"
  shows "\<exists>s'. translateSse Full MB16 16 (Imm128 (pc_value p)) p s = Some s' \<and>
    fs_stack_in (rc_spec (ab_cfg s')) = fs_stack_in (rc_spec (ab_cfg s)) @ [\<lparr>sr_offset = off, sr_length = 16\<rparr>]"
proof -
  have r: "off = ab_off s" "cfg_ready xs off (ab_cfg s)" "\<not> ab_sseIdx s < 8"
    using rd none by (auto simp: ready_def arg_xmms_def)
  have sz: "size_ok (known p (Imm128 (pc_value p))) 16" by (simp add: size_known)
  obtain c' where "pass_stack off MB16 (known p (Imm128 (pc_value p))) (ab_cfg s) = Some c'"
    "fs_stack_in (rc_spec c') = fs_stack_in (rc_spec (ab_cfg s)) @ [\<lparr>sr_offset = off, sr_length = 16\<rparr>]"
    using note_wide[OF r(2) order_refl _ sz] off by auto
  then show ?thesis using r(1,3) by (simp add: translateSse_def next_stack_def)
qed

end
