(* ===== verification/Spec2Isabelle.thy ===== *)
theory Spec2Isabelle
  imports Convert_Demo Codegen_Demo Mem_Demo Upper_Half Encode_Wrong Icfg_Blocks Graph_Demo Stack_Analysis Encode_Table Config_Sound
begin

text \<open>
  Drob rewrites x86-64 machine code at run time: it takes a function with a configuration that
  says which parameters are constant, decodes it into a control flow graph, analyses and
  optimises the graph, and generates code into a fresh region of memory. This development is a
  model of that program and the proofs of what makes its parts correct.

  The parts, in the order a rewriting uses them, with the theories that model them:

  Configuration (\<open>src/drob.c\<close>): \<open>Config\<close>, \<open>Config_Sound\<close>. The calling convention
  (\<open>src/x86/Abi.cpp\<close>), which turns it into the registers, stack and values at the entry:
  \<open>Abi\<close>, \<open>Abi_Sound\<close>.

  Registers and masks of them (\<open>src/RegisterInfo.hpp\<close>, \<open>src/x86/RegisterInfo.cpp\<close>,
  \<open>src/util/bitmap.c\<close>): \<open>Bitmap\<close>, \<open>Registers\<close>.

  Tracked values and states (\<open>src/DynamicValue.cpp\<close>, \<open>src/ProgramState.cpp\<close>): \<open>Dyn_Value\<close>;
  \<open>Elements\<close> for the arrays of tracked bytes, with soundness and merging in \<open>Elements_Sound\<close>,
  \<open>Elements_Conc\<close> and \<open>Elements_Merge\<close>; \<open>Program_State\<close> with \<open>Program_State_Sound\<close>,
  \<open>State_Props\<close>, \<open>State_Merge\<close> and \<open>Places\<close>. The abstract specification is the set of
  machines a state describes (\<open>ps_conc\<close>); every operation is a refinement of the operation on
  machines.

  Instructions (\<open>src/OpcodeInfo.cpp\<close>, \<open>src/x86/OpcodeInfo.cpp\<close>, \<open>src/x86/Opcodes.inc.h\<close>,
  \<open>src/Instruction.cpp\<close>, \<open>src/x86/Emulator.cpp\<close>, \<open>src/MemProtCache.cpp\<close>): \<open>Operands\<close>,
  \<open>Opcodes\<close> (all rows of the table), \<open>Mem_Prot\<close>, \<open>Emulator\<close>, \<open>Instr\<close>, and what they promise
  in \<open>Table_Sound\<close>, \<open>Operand_Sound\<close>, \<open>Emulator_Sound\<close>, \<open>Instr_Sound\<close>.

  Memory for code and constants (\<open>src/BinaryPool.cpp\<close>): \<open>Binary_Pool\<close>,
  \<open>Binary_Pool_Sound\<close>, \<open>Pool_Steps\<close>.

  Decoding (\<open>src/x86/Decoder.cpp\<close>, \<open>src/x86/Converter.cpp\<close>): \<open>Converter\<close> turns what the library
  Intel XED says of an instruction into the program's own; \<open>Convert_Sound\<close> shows that mnemonic,
  width and operands stay but for the upper half of absolute addresses, \<open>Convert_Loop\<close> what LOOP
  is expanded to, against the manual.

  Specialization (\<open>src/x86/Specialize.cpp\<close>): \<open>Specialize\<close>; the reference is the effect of an
  instruction on a processor (\<open>Processor\<close>), the handlers are shown to follow rules
  (\<open>Spec_Rules\<close>, \<open>Spec_Handlers\<close>), the rules to keep the effect (\<open>Spec_Forms\<close>, \<open>Spec_Sound\<close>), and the
  handlers that do not follow them to lose the upper half of a register (\<open>Upper_Half\<close>).

  The graph (\<open>src/ICFG.cpp\<close>, \<open>src/Function.cpp\<close>, \<open>src/SuperBlock.cpp\<close>): \<open>Icfg\<close>, \<open>Icfg_Ops\<close>,
  \<open>Traverse\<close>. Objects are numbers, the graph maps them to records, and what the code keeps in
  pointers back and forth is the invariant \<open>icfg_ok\<close> (\<open>Icfg_Ok\<close>, \<open>Icfg_Edges\<close>, \<open>Icfg_Remove\<close>,
  \<open>Icfg_Blocks\<close>).

  The passes (\<open>src/passes\<close>): \<open>Liveness\<close> with \<open>Liveness_Flow\<close>, \<open>Worklist\<close> and \<open>Liveness_Work\<close>;
  \<open>Stack_Analysis\<close>; \<open>Passes\<close> for dead writes, dead code, layout and unrolling, with \<open>Flow_Run\<close>
  and \<open>Dead_Writes\<close> for what a run of a function does before and after. \<open>Mem_Operands\<close>
  for the addresses of memory operands, \<open>Mem_Operands_Sound\<close> that they stay the same.

  The encoder (\<open>src/x86/Encoder.cpp\<close>): \<open>Encoder\<close>, \<open>Encode_Ops\<close>; \<open>Encode_Spec\<close> says what bytes
  mean without the encoder, \<open>Encode_Sound\<close>, \<open>Encode_Memory\<close>, \<open>Encode_Formats\<close>, \<open>Encode_Arith\<close>
  and \<open>Encode_Table\<close> that it writes them, \<open>Encode_Wrong\<close> what it writes where it does not. Code generation
  (\<open>src/passes/CodeGenerationPass.hpp\<close>): \<open>Codegen\<close>, \<open>Codegen_Sound\<close>, \<open>Codegen_Graph\<close>, with the
  bound on the length of an encoding in \<open>Code_Length\<close>.

  \<open>Prelude\<close> holds what they share, \<open>Divergences\<close>, \<open>Spec_Demo\<close>, \<open>Graph_Demo\<close>,
  \<open>Codegen_Demo\<close>, \<open>Mem_Demo\<close> and \<open>Convert_Demo\<close> the concrete instances.

  Conventions. A C++ function that can throw (\<open>drob_throw\<close>, \<open>drob_assert\<close>) returns an option;
  None is the exception. Integers have the width of the code. Members of objects are passed
  and returned. Loops over lists are \<open>for_each\<close>; the loops of the traversals and of the
  analyses, which may not end, are partial functions whose None also stands for not returning,
  and that they end is proved: for the traversals exactly when no chain of reachable blocks is
  a circle, for the liveness analysis always on a graph in order. No definition uses fuel; the other
  recursions are structural or have a measure.

  Interfaces are locales, each interpreted on the code's own definitions: \<open>bit_set\<close> (masks of
  registers), \<open>tracked_store\<close> (what emulation relies on of a state), \<open>join_state\<close> (merging),
  \<open>constant_pool\<close> (what the specialization relies on of the pool), \<open>backward_analysis\<close> (the
  queue of the liveness analysis).

  The theorems of this theory. Tracking a machine: a state keeps describing it through writes
  that do not run into a tracked pointer, reads, merges, addresses, emulated instructions,
  predicates. Instructions: the table, what will execute, the emulated arithmetic.
  Specialization keeps the effect, but for the rewritings shown to lose an upper half. The graph
  stays in order, the traversals visit what is reachable. The liveness analysis ends with the
  least solution on the blocks a return is reached from, and removing dead writes keeps what a
  run returns. The entry state describes every machine that passes its arguments as the
  convention has it, when there are at most 256 parameters and no 16-byte value is on the stack.
  The encoder writes what reads back as the instruction, for operands the formats can express
  and rows not miscoded; the generated code is the graph's instructions with branches and
  calls to the right places, but for the branches on RCX. Where the code falls short of what
  it is meant to do, a theorem of kind error says where. The text in front of each theorem names
  its conditions.

  Parameters. What the repository does not define is a parameter, with what is relied on as a
  hypothesis: mapping pages (\<open>os_ok\<close>), the memory of the process and its protections, what
  the processor computes in the inline assembly of the emulator (\<open>cpu_ok\<close>), the bytes of an
  operand union that the code reads without having set them (\<open>stale\<close>).

  Bounds. The pools hand out one page each, since the code asks for the next page at an
  address that is not the start of one; code of more than 4096 bytes has no value in the
  model as it throws in the program.

  Not modelled. Intel XED is not in the repository: what it says of an instruction is a parameter.
  \<open>ICFGReconstructionPass\<close> builds the graph with the decoder; the graph is the input of the
  passes here. Dumping and logging print. \<open>MemProtCache\<close>
  reads the mappings of the process from a file. The driver (\<open>src/Rewriter.cpp\<close>,
  \<open>src/drob_internal.cpp\<close>) only runs the passes in order. Registers and pointers the
  inline assembly touches are outside C++.
\<close>

section \<open>Tracking a machine\<close>





text \<open>
  C2. Merging two well-formed program states never fails; the result describes every machine
  either side describes, and when no difference is reported the left state already described
  them, so the analysis may stop there.
\<close>

theorem merge_is_upper_bound:
  assumes "wf_ps l" and "wf_ps r"
  shows "\<exists>d l' r'. merge l r = Some (d, l', r') \<and>
    (ps_conc base l m \<or> ps_conc base r m \<longrightarrow> ps_conc base l' m) \<and>
    (\<not> d \<longrightarrow> ps_conc base l' m \<longrightarrow> ps_conc base l m) \<and>
    (ps_conc base r' m \<longleftrightarrow> ps_conc base r m)"
  using assms by (rule merge_spec)

theorem merge_is_upper_bound_witness:
  "\<exists>d l' r'. merge ps_cf0 ps_init = Some (d, l', r') \<and> ps_conc (\<lambda>_ _. 0) l' m_zf"
proof -
  have "wf_ps ps_cf0" by code_simp
  moreover have "ps_conc (\<lambda>_ _. 0) ps_cf0 m_zf" by (rule cf0_describes_zf)
  ultimately show ?thesis
    using merge_is_upper_bound[OF _ wf_ps_init, of ps_cf0 "\<lambda>_ _. 0" m_zf] by blast
qed

text \<open>
  Merging the states that arrive over several edges one after the other: the result
  describes what any of them describes, and if no merge reported a difference the state at the
  start already did.
\<close>

theorem merge_over_edges:
  assumes "pj.all_joinable l rs" and "s \<in> set rs" and "ps_conc base s m"
  shows "\<exists>d l'. pj.join_all l rs = Some (d, l') \<and> ps_conc base l' m \<and> (\<not> d \<longrightarrow> ps_conc base l m)"
proof -
  obtain d l' where j: "pj.join_all l rs = Some (d, l')" "ps_conc base l' m"
    using pj.join_all_upper[OF assms(1), of base m] assms(2,3) by auto
  moreover have "ps_conc base l m" if "\<not> d"
    using pj.join_all_stable[OF assms(1), of l' s base m] j(1) that assms(2,3) by simp
  ultimately show ?thesis by blast
qed

theorem merge_over_edges_witness:
  "\<exists>d l'. pj.join_all ps_init [ps_cf0] = Some (d, l') \<and> ps_conc (\<lambda>_ _. 0) l' m_zf"
proof -
  have "pj.all_joinable ps_init [ps_cf0]"
    unfolding pj.all_joinable.simps by code_simp
  then show ?thesis using merge_over_edges[of ps_init "[ps_cf0]" ps_cf0 "\<lambda>_ _. 0" m_zf] cf0_describes_zf
    by auto
qed

section \<open>Will it execute?\<close>

text \<open>
  C10. When the analysis says that an instruction of the table will not execute, its condition
  is false on every machine the state describes.
\<close>

theorem will_not_execute:
  assumes "wf_ps ps" and "ps_conc base ps m" and "willExecute (instr_of opc ops) ps = Some TFalse"
  shows "\<not> executes m (instr_of opc ops)"
proof (rule will_execute_false[OF assms(1,2) _ assms(3)])
  show "instr_predicate_ok (instr_of opc ops)"
    using table_predicates_ok[of opc] by (cases "arch_get_opcode_info opc") (auto simp: instr_of_def instr_predicate_ok_def)
qed

theorem will_not_execute_witness: "\<not> executes m_zf (instr_of (Jcc JBa) [])"
proof (rule will_not_execute[OF _ cf0_describes_zf])
  show "wf_ps ps_cf0" by code_simp
  show "willExecute (instr_of (Jcc JBa) []) ps_cf0 = Some TFalse" by code_simp
qed

text \<open>
  C11. When the analysis says that an instruction whose condition has no conjunction will
  execute, the condition holds on every machine the state describes.
\<close>

theorem will_surely_execute:
  assumes "wf_ps ps" and "ps_conc base ps m" and "and_free (instr_of opc ops)"
    and "willExecute (instr_of opc ops) ps = Some TTrue"
  shows "executes m (instr_of opc ops)"
proof (rule will_execute_true[OF assms(1,2) _ assms(3,4)])
  show "instr_predicate_ok (instr_of opc ops)"
    using table_predicates_ok[of opc] by (cases "arch_get_opcode_info opc") (auto simp: instr_of_def instr_predicate_ok_def)
qed

theorem will_surely_execute_witness: "executes m_zf (instr_of (Jcc JNBa) [])"
proof (rule will_surely_execute[OF _ cf0_describes_zf])
  show "wf_ps ps_cf0" by code_simp
  show "and_free (instr_of (Jcc JNBa) [])" by code_simp
  show "willExecute (instr_of (Jcc JNBa) []) ps_cf0 = Some TTrue" by code_simp
qed

text \<open>
  C12. With a conjunction the answer can be wrong: with CF known to be clear and nothing known
  of ZF, "jump if above" is said to execute, although a described machine with ZF set does not
  take it. The three-valued "and" keeps True when the other side is unknown.
\<close>

theorem conjunction_loses_unknown:
  assumes "wf_ps ps" and "getRegister ps CF Full = Some (Imm64 0)" and "getRegister ps ZF Full = Some v"
    and "\<not> isImm v"
  shows "willExecute (instr_of (Jcc JNBEa) ops) ps = Some TTrue"
  using assms
  by (simp add: willExecute_def instr_of_def def_opc_def pred_defs eval_comparison_def comparand_value_def
      combine_def tri_and_def dyn_simps)

theorem conjunction_loses_unknown_witness:
  "willExecute (instr_of (Jcc JNBEa) []) ps_cf0 = Some TTrue \<and> ps_conc (\<lambda>_ _. 0) ps_cf0 m_zf \<and>
   \<not> executes m_zf (instr_of (Jcc JNBEa) [])"
proof -
  have "wf_ps ps_cf0" "getRegister ps_cf0 CF Full = Some (Imm64 0)" "getRegister ps_cf0 ZF Full = Some Dead"
    by code_simp+
  then show ?thesis
    using conjunction_loses_unknown[of ps_cf0 Dead "[]"] cf0_describes_zf jnbe_will_execute(2)
    by (simp add: dyn_simps)
qed

text \<open>
  C14. Inverting a conditional branch gives a branch that is taken exactly when the first one
  is not, and inverting twice gives the branch back.
\<close>

theorem inverted_branch:
  assumes "arch_invert_branch opc \<noteq> NONE" and "flags_binary m"
  shows "(executes m (instr_of (arch_invert_branch opc) ops) \<longleftrightarrow> \<not> executes m (instr_of opc ops)) \<and>
    arch_invert_branch (arch_invert_branch opc) = opc"
  using invert_complement[OF assms] invert_involution[OF assms(1)] by blast+

theorem inverted_branch_witness:
  "executes m_zf (instr_of (Jcc JNZa) []) \<longleftrightarrow> \<not> executes m_zf (instr_of (Jcc JZa) [])"
proof -
  have "flags_binary m_zf" by code_simp
  then show ?thesis using inverted_branch[of "Jcc JZa" m_zf "[]"] by simp
qed

section \<open>The opcode table\<close>

text \<open>
  C15. For every opcode but the shifts by CL and every operand list of the form the table asks
  for, the static information of an instruction is computed without an error, and has one
  entry for each explicit and each implicit operand.
\<close>

theorem table_information:
  assumes "arch_get_opcode_info opc = Some oc" and "\<not> shift_by_cl opc" and "operands_fit oc ops"
  shows "\<exists>info. getInfo (instr_of opc ops) = Some info \<and> \<not> ii_nasty info \<and>
    length (ii_operands info) = length (oc_opInfo oc) + length (oc_iOpInfo oc)"
  using assms by (rule table_info)

theorem table_information_witness:
  "\<exists>info. getInfo (instr_of (Add ADD64rr) [SopReg RAX, SopReg RBX]) = Some info \<and> \<not> ii_nasty info \<and>
    length (ii_operands info) = 8"
proof -
  obtain oc where oc: "arch_get_opcode_info (Add ADD64rr) = Some oc" by simp
  have "operands_fit oc [SopReg RAX, SopReg RBX]" "length (oc_opInfo oc) + length (oc_iOpInfo oc) = 8"
    using oc by (auto simp: def_opc_def operands_fit_def reg_has_type_def def_reg_simple_def ioi_defs)
  then show ?thesis
    using table_information[OF oc, of "[SopReg RAX, SopReg RBX]"] by (simp add: shift_by_cl_def)
qed

text \<open>
  For the four shifts by CL the information can never be computed: the row of the count
  register names its parts in the wrong order, so the mask of "no access" is asked for.
\<close>

theorem shift_by_cl_has_no_information:
  assumes "shift_by_cl opc"
  shows "getInfo (instr_of opc ops) = None"
  using assms by (rule shift_by_cl_throws)

theorem shift_by_cl_has_no_information_witness: "getInfo (instr_of (Shift SHL64r) [SopReg RAX]) = None"
  by (rule shift_by_cl_has_no_information) (simp add: shift_by_cl_def)

section \<open>Emulating\<close>

text \<open>
  C16. The value the emulator computes for a 64-bit addition allows the sum the processor
  computes, whenever the two input values allow the inputs, pointers included.
\<close>

theorem emulated_addition:
  assumes "cpu_ok cpu" and "emulate_add64 cpu di = Some (ret, di')"
    and "word_conc base (in_of di 0) x" and "word_conc base (in_of di 1) y"
  shows "word_conc base (out_of di' 0) (x + y)"
  using assms by (rule add64_sound)

definition demo_operand :: "dyn_location \<Rightarrow> dyn_value \<Rightarrow> dyn_operand" where
  "demo_operand loc v =
     \<lparr>do_loc = loc, do_nr = 0, do_isImpl = False, do_isInput = True, do_isCondInput = False,
      do_isOutput = True, do_isCondOutput = False, do_input = v, do_output = Unknown\<rparr>"

definition demo_info :: "dyn_value \<Rightarrow> dyn_value \<Rightarrow> dyn_info" where
  "demo_info a b =
     (dyn_info_init info_empty TTrue)\<lparr>di_operands :=
       map (demo_operand (DlImm OtImmediate64)) [a, b] @
       map (\<lambda>f. demo_operand (DlReg \<lparr>sra_reg = FlagReg f, sra_mode = AmWrite, sra_r = RANone, sra_w = Full\<rparr>)
         Unknown) all_flags\<rparr>"

theorem emulated_addition_witness:
  "\<exists>ret di'. emulate_add64 ref_cpu (demo_info (Ptr UsrPtr 0 3) (Imm64 5)) = Some (ret, di') \<and>
    word_conc (\<lambda>_ _. 100) (out_of di' 0) (103 + 5)"
proof -
  have "emulate_add64 ref_cpu (demo_info (Ptr UsrPtr 0 3) (Imm64 5)) \<noteq> None" by code_simp
  then obtain ret di' where e: "emulate_add64 ref_cpu (demo_info (Ptr UsrPtr 0 3) (Imm64 5)) = Some (ret, di')"
    by auto
  have i: "in_of (demo_info (Ptr UsrPtr 0 3) (Imm64 5)) 0 = Ptr UsrPtr 0 3"
    "in_of (demo_info (Ptr UsrPtr 0 3) (Imm64 5)) 1 = Imm64 5" by code_simp+
  show ?thesis using emulated_addition[OF ref_cpu_ok e, of "\<lambda>_ _. 100" 103 5] e i by (auto simp: word_conc_def)
qed

text \<open>
  The same for a subtraction, unless a pointer is subtracted from a number.
\<close>

theorem emulated_subtraction:
  assumes "cpu_ok cpu" and "emulate_sub64 cpu di = Some (ret, di')"
    and "word_conc base (in_of di 0) x" and "word_conc base (in_of di 1) y"
    and "\<not> (isImm (in_of di 0) \<and> isPtr (in_of di 1))"
  shows "word_conc base (out_of di' 0) (x - y)"
  using assms by (rule sub64_sound)

theorem emulated_subtraction_witness:
  "\<exists>ret di'. emulate_sub64 ref_cpu (demo_info (Ptr UsrPtr 0 3) (Imm64 5)) = Some (ret, di') \<and>
    word_conc (\<lambda>_ _. 100) (out_of di' 0) (103 - 5)"
proof -
  have "emulate_sub64 ref_cpu (demo_info (Ptr UsrPtr 0 3) (Imm64 5)) \<noteq> None" by code_simp
  then obtain ret di' where e: "emulate_sub64 ref_cpu (demo_info (Ptr UsrPtr 0 3) (Imm64 5)) = Some (ret, di')"
    by auto
  have i: "in_of (demo_info (Ptr UsrPtr 0 3) (Imm64 5)) 0 = Ptr UsrPtr 0 3"
    "in_of (demo_info (Ptr UsrPtr 0 3) (Imm64 5)) 1 = Imm64 5" by code_simp+
  show ?thesis using emulated_subtraction[OF ref_cpu_ok e, of "\<lambda>_ _. 100" 103 5] e i
    by (auto simp: word_conc_def dyn_simps)
qed

text \<open>
  Subtracting a pointer from a number gives a pointer to the same object, with the number
  taken off its offset: it allows the difference of two words only if twice the pointer is
  twice the number.
\<close>

theorem number_minus_pointer:
  assumes "cpu_ok cpu" and "emulate_sub64 cpu di = Some (ret, di')"
    and "in_of di 0 = Imm64 i" and "in_of di 1 = Ptr k nr off"
  shows "word_conc base (out_of di' 0) (i - (base k nr + off)) \<longleftrightarrow> 2 * (base k nr + off) = 2 * i"
proof -
  have "out_of di' 0 = Ptr k nr (off - i)"
    using arith64_out[of "cpu_sub64 cpu" di ret di'] assms
    by (simp add: emulate_sub64_def arith64_result_def dyn_simps with_offset_def cpu_ok_def)
  moreover have "i - (base k nr + off) = base k nr + (off - i) \<longleftrightarrow> 2 * (base k nr + off) = 2 * i"
    by (simp add: algebra_simps) (metis add.commute add.left_commute mult_2 numeral_code(1))
  ultimately show ?thesis by (simp add: word_conc_def)
qed

theorem number_minus_pointer_witness:
  "\<exists>ret di'. emulate_sub64 ref_cpu (demo_info (Imm64 5) (Ptr UsrPtr 0 3)) = Some (ret, di') \<and>
    \<not> word_conc (\<lambda>_ _. 100) (out_of di' 0) (5 - 103)"
proof -
  have "emulate_sub64 ref_cpu (demo_info (Imm64 5) (Ptr UsrPtr 0 3)) \<noteq> None" by code_simp
  then obtain ret di' where e: "emulate_sub64 ref_cpu (demo_info (Imm64 5) (Ptr UsrPtr 0 3)) = Some (ret, di')"
    by auto
  have i: "in_of (demo_info (Imm64 5) (Ptr UsrPtr 0 3)) 0 = Imm64 5"
    "in_of (demo_info (Imm64 5) (Ptr UsrPtr 0 3)) 1 = Ptr UsrPtr 0 3" by code_simp+
  show ?thesis using number_minus_pointer[OF ref_cpu_ok e i, of "\<lambda>_ _. 100"] e by simp
qed

text \<open>
  A 64-bit shift left allows the shifted word when the count is known or the word is not.
\<close>

theorem emulated_shift_left:
  assumes "cpu_ok cpu" and "emulate_shl64 cpu di = Some (ret, di')"
    and "word_conc base (in_of di 0) x" and "word_conc base (in_of di 1) s"
    and "isImm (in_of di 1) \<or> \<not> isImm (in_of di 0)"
  shows "word_conc base (out_of di' 0) (push_bit (unat (ucast s :: byte) mod 64) x)"
proof -
  have "fst (cpu_shl64 cpu x (ucast s)) = push_bit (unat (ucast s :: byte) mod 64) x"
    using assms(1) unfolding cpu_ok_def by blast
  then show ?thesis
    using shift_sound[of "cpu_shl64 cpu" di ret di' base x s] assms(2-5) by (simp add: emulate_shl64_def)
qed

theorem emulated_shift_left_witness:
  "\<exists>ret di'. emulate_shl64 ref_cpu (demo_info (Imm64 5) (Imm64 3)) = Some (ret, di') \<and>
    word_conc (\<lambda>_ _. 0) (out_of di' 0) 40"
proof -
  have "emulate_shl64 ref_cpu (demo_info (Imm64 5) (Imm64 3)) \<noteq> None" by code_simp
  then obtain ret di' where e: "emulate_shl64 ref_cpu (demo_info (Imm64 5) (Imm64 3)) = Some (ret, di')"
    by auto
  have i: "in_of (demo_info (Imm64 5) (Imm64 3)) 0 = Imm64 5"
    "in_of (demo_info (Imm64 5) (Imm64 3)) 1 = Imm64 3" by code_simp+
  have "push_bit (unat (ucast (3 :: u64) :: byte) mod 64) (5 :: u64) = 40" by code_simp
  then show ?thesis
    using emulated_shift_left[OF ref_cpu_ok e, of "\<lambda>_ _. 0" 5 3] e i
    by (auto simp: word_conc_def dyn_simps)
qed

text \<open>
  With a count nothing is known of, a known word is passed on as it is, so the result
  names one word although the processor shifts by whatever the register holds.
\<close>

theorem shift_by_unknown_count:
  assumes "emulate_shl64 cpu di = Some (ret, di')" and "in_of di 0 = Imm64 i" and "in_of di 1 = Unknown"
  shows "word_conc base (out_of di' 0) w \<longleftrightarrow> w = i"
  using shift_out[of "cpu_shl64 cpu" di ret di'] assms
  by (simp add: emulate_shl64_def shift_result_def dyn_simps word_conc_def)

theorem shift_by_unknown_count_witness:
  "\<exists>ret di'. emulate_shl64 ref_cpu (demo_info (Imm64 1) Unknown) = Some (ret, di') \<and>
    \<not> word_conc (\<lambda>_ _. 0) (out_of di' 0) (push_bit 3 1)"
proof -
  have "emulate_shl64 ref_cpu (demo_info (Imm64 1) Unknown) \<noteq> None" by code_simp
  then obtain ret di' where e: "emulate_shl64 ref_cpu (demo_info (Imm64 1) Unknown) = Some (ret, di')"
    by auto
  have i: "in_of (demo_info (Imm64 1) Unknown) 0 = Imm64 1" "in_of (demo_info (Imm64 1) Unknown) 1 = Unknown"
    by code_simp+
  have "push_bit 3 1 \<noteq> (1 :: u64)" by code_simp
  then show ?thesis using shift_by_unknown_count[OF e i, of "\<lambda>_ _. 0" "push_bit 3 1"] e by auto
qed

text \<open>
  The address computed for a memory operand allows the address the machine computes from
  its base and index registers, the scale and the displacement.
\<close>

theorem memory_operand_address:
  assumes "wf_ps ps" and "ps_conc base ps m" and "ptr_ok (sma_ptr raw)"
  shows "\<exists>ma. createMemAccess raw ps = Some ma \<and> ma_mode ma = sma_mode raw \<and> ma_size ma = sma_size raw \<and>
    word_conc base (ma_ptrVal ma) (address_of base m (sma_ptr raw))"
  using assms by (rule createMemAccess_sound)

definition demo_sib :: static_mem_access where
  "demo_sib = \<lparr>sma_ptr = MpSIB RAX RBX \<lparr>s32_val = -4, s32_usrPtrNr = -1, s32_usrPtrOffset = 0\<rparr> 8,
     sma_mode = AmRead, sma_size = MB8\<rparr>"

theorem memory_operand_address_witness:
  "\<exists>ma. createMemAccess demo_sib ps_cf0 = Some ma \<and>
    word_conc (\<lambda>_ _. 0) (ma_ptrVal ma) (address_of (\<lambda>_ _. 0) m_zf (sma_ptr demo_sib))"
proof -
  have "wf_ps ps_cf0" "ptr_ok (sma_ptr demo_sib)" by code_simp+
  then show ?thesis using memory_operand_address[OF _ cf0_describes_zf, of demo_sib] by blast
qed

text \<open>
  A stack pointer among the parts of an address is never lost: the address is then a
  stack pointer or marked as tainted by one.
\<close>

theorem address_keeps_taint:
  assumes "may_be_stack b \<or> may_be_stack i \<or> may_be_stack d"
    and "calculateMemPtr (DmSIB b i d s) = Some v"
  shows "may_be_stack v"
  using assms by (rule calculateMemPtr_taint)

theorem address_keeps_taint_witness:
  "calculateMemPtr (DmSIB (Imm64 4) (Ptr StackPtr 0 8) (Imm64 0) 2) = Some Tainted \<and> may_be_stack Tainted"
proof
  show c: "calculateMemPtr (DmSIB (Imm64 4) (Ptr StackPtr 0 8) (Imm64 0) 2) = Some Tainted" by code_simp
  show "may_be_stack Tainted"
    by (rule address_keeps_taint[OF _ c]) (simp add: may_be_stack_def dyn_simps)
qed

text \<open>
  C19. What a read through a pointer that is not to the stack gives is nothing, or the bytes
  the memory has at an address that is known and whose contents are constant, through the
  protection of the mapping or because the pointer is declared to point to constant data.
\<close>

theorem read_of_memory:
  assumes "emulateReadAccess env ma ps = Some (v, ps')" and "\<not> isStackPtr (ma_ptrVal ma)"
  shows "ps' = ps \<and> (v \<in> {Unknown, Tainted} \<or>
    (\<exists>a. known_address env (ma_ptrVal ma) = Some a \<and>
       (\<forall>base. bytes_conc base v (host_bytes (env_host env) a (mem_bytes (ma_size ma)))) \<and>
       (declared_const env (ma_ptrVal ma) \<or>
        isConstant (env_prot env) a (of_nat (mem_bytes (ma_size ma))) = Some True)))"
  using assms by (rule read_known)

definition demo_env :: rw_env where
  "demo_env = \<lparr>env_usrPtrs = [], env_prot = \<lparr>mp_ranges = [\<lparr>mr_start = 0x1000, mr_end = 0x2000,
     mr_r = True, mr_w = False, mr_x = False\<rparr>], mp_cfg = []\<rparr>,
     env_host = (\<lambda>a. ucast a), env_cpu = ref_cpu\<rparr>"

definition demo_access :: mem_access where
  "demo_access = \<lparr>ma_ptrVal = Imm64 0x1010, ma_ptr = DmNone, ma_mode = AmRead, ma_size = MB2\<rparr>"

theorem read_of_memory_witness:
  "emulateReadAccess demo_env demo_access ps_init = Some (Imm64 0x1110, ps_init) \<and>
   bytes_conc (\<lambda>_ _. 0) (Imm64 0x1110) (host_bytes (env_host demo_env) 0x1010 2)"
proof
  show e: "emulateReadAccess demo_env demo_access ps_init = Some (Imm64 0x1110, ps_init)" by code_simp
  have k: "known_address demo_env (ma_ptrVal demo_access) = Some 0x1010"
    "mem_bytes (ma_size demo_access) = 2" "\<not> isStackPtr (ma_ptrVal demo_access)" by code_simp+
  show "bytes_conc (\<lambda>_ _. 0) (Imm64 0x1110) (host_bytes (env_host demo_env) 0x1010 2)"
    using read_of_memory[OF e k(3)] k by auto
qed

text \<open>
  C20. When the protection cache calls a range constant, every byte of it is mapped readable
  and is either not writable or in a range the user declared constant.
\<close>

theorem constant_memory:
  assumes "isConstant mp addr sz = Some True" and "addr \<le> x" and "x < addr + sz"
  shows "constant_at mp x"
  using assms by (rule isConstant_bytes)

theorem constant_memory_witness: "constant_at (env_prot demo_env) 0x1011"
  by (rule constant_memory[of _ "0x1010" 2]) code_simp+

text \<open>
  A range that does not wrap and lies in readable mappings that are not writable is always
  called constant, however many mappings it spans.
\<close>

theorem constant_memory_found:
  assumes "addr < addr + sz"
    and "\<forall>x. addr \<le> x \<and> x < addr + sz \<longrightarrow> (\<exists>r. findMemoryRange mp x = Some r \<and> mr_r r \<and> \<not> mr_w r)"
  shows "isConstant mp addr sz = Some True"
  using constant_loop_complete[OF assms(2), of sz] assms(1) by (auto simp: isConstant_def)

theorem constant_memory_found_witness: "isConstant (env_prot demo_env) 0x1ff0 16 = Some True"
proof (rule constant_memory_found)
  show "\<forall>x. 0x1ff0 \<le> x \<and> x < 0x1ff0 + 16 \<longrightarrow>
      (\<exists>r. findMemoryRange (env_prot demo_env) x = Some r \<and> mr_r r \<and> \<not> mr_w r)"
  proof (intro allI impI)
    fix x :: u64
    assume x: "0x1ff0 \<le> x \<and> x < 0x1ff0 + 16"
    then have "0x1000 \<le> x" by (intro order_trans[of "0x1000" "0x1ff0" x]) simp_all
    then show "\<exists>r. findMemoryRange (env_prot demo_env) x = Some r \<and> mr_r r \<and> \<not> mr_w r"
      using x by (simp add: findMemoryRange_def demo_env_def)
  qed
qed simp

section \<open>Registers and stack\<close>



text \<open>The same for a range of a live stack.\<close>

theorem stack_written_is_read:
  assumes "wf_ps ps" and "\<not> isStackDead ps" and "write_place_ok ps (PlStack off sz) v"
  shows "\<exists>ps'. setStack ps off sz v False = Some ps' \<and>
    map_option fst (getStack ps' off sz) = Some (read_back v (mem_bytes sz))"
  using assms by (rule stack_read_back)

theorem stack_written_is_read_witness:
  "\<exists>ps'. setStack ps_init (-16) MB8 (Ptr StackPtr 0 24) False = Some ps' \<and>
    map_option fst (getStack ps' (-16) MB8) = Some (Ptr StackPtr 0 24)"
proof -
  have "\<not> isStackDead ps_init" "write_place_ok ps_init (PlStack (-16) MB8) (Ptr StackPtr 0 24)"
    "read_back (Ptr StackPtr 0 24) (mem_bytes MB8) = Ptr StackPtr 0 24"
    by code_simp+
  then show ?thesis using stack_written_is_read[OF wf_ps_init, of "-16" MB8 "Ptr StackPtr 0 24"] by simp
qed

text \<open>
  Writing an immediate to a 32-bit register clears the upper half of its 64-bit register.
\<close>

theorem write_32_clears_upper:
  assumes "wf_ps ps"
  shows "\<exists>ps'. setRegister ps (Gpr32 g) FullZeroParent (Imm64 w) False = Some ps' \<and>
    getRegister ps' (Gpr64 g) Full = Some (Imm64 (take_bit 32 w))"
  using assms by (rule zero_extension)

theorem write_32_clears_upper_witness:
  "\<exists>ps'. setRegister ps_init EAX FullZeroParent (Imm64 0xffffffffffffffff) False = Some ps' \<and>
    getRegister ps' RAX Full = Some (Imm64 0xffffffff)"
  using write_32_clears_upper[OF wf_ps_init, of GA "0xffffffffffffffff"] by (simp add: take_bit_eq_mask mask_numeral)

text \<open>
  C23. If any byte an access covers may be part of a stack pointer, reading it gives a stack
  pointer or a tainted value.
\<close>

theorem read_keeps_taint:
  assumes "wf_ps ps" and "access_ok r a" and "getRegister ps r a = Some v" and "touches_stackish ps r a"
  shows "may_be_stack v"
  using assms by (rule register_taint)

definition ps_sp :: program_state where
  "ps_sp = put_reg (LGprs64 (gpr_nr GSP)) (ptr_elems StackPtr) ps_init"

theorem read_keeps_taint_witness:
  "getRegister ps_sp (Gpr32 GSP) Full = Some Tainted \<and> may_be_stack Tainted"
proof
  show g: "getRegister ps_sp (Gpr32 GSP) Full = Some Tainted" by code_simp
  show "may_be_stack Tainted"
    by (rule read_keeps_taint[OF _ _ g]) code_simp+
qed

text \<open>
  C24. The mask of a register access names exactly the subregisters the bytes of the access
  belong to.
\<close>

theorem access_mask_is_its_bytes:
  assumes "getSubRegisterMask reg access = Some m" and "getRegisterData reg access = Some (loc, off, n)"
  shows "(off \<le> i \<and> i < off + n) \<longleftrightarrow> (\<exists>s \<in> regs_in m. byte_of loc i s)"
  using assms by (rule access_mask_bytes)

theorem access_mask_is_its_bytes_witness:
  "\<exists>m. getSubRegisterMask XMM0 H1 = Some m \<and> (\<exists>s \<in> regs_in m. byte_of (LSse128 0) 12 s)"
proof -
  have d: "getRegisterData XMM0 H1 = Some (LSse128 0, 8, 8)" by code_simp
  obtain m where m: "getSubRegisterMask XMM0 H1 = Some m"
    using access_cases by (auto simp: getSubRegisterMask_def def_reg_xmm_def nth_opt_def)
  show ?thesis using access_mask_is_its_bytes[OF m d, of 12] m by simp
qed

text \<open>
  Growing the tracked stack makes room for the access and keeps what is known at every
  offset.
\<close>

theorem stack_grows:
  assumes "\<not> st_dead st" and "wf_stack st"
  shows "wf_stack (grow off n st) \<and> 0 \<le> st_base (grow off n st) + off \<and>
    st_base (grow off n st) + off + int n \<le> int (length (st_elems (grow off n st))) \<and>
    stack_at (grow off n st) o' = stack_at st o'"
  using grow_facts[OF assms, of off n] by blast

theorem stack_grows_witness:
  "stack_at (grow (-16) 8 \<lparr>st_elems = [imm_elem 7], st_base = 0, st_dead = False\<rparr>) 0 = imm_elem 7"
proof -
  have "wf_stack \<lparr>st_elems = [imm_elem 7], st_base = 0, st_dead = False\<rparr>"
    "stack_at \<lparr>st_elems = [imm_elem 7], st_base = 0, st_dead = False\<rparr> 0 = imm_elem 7"
    by code_simp+
  then show ?thesis using stack_grows[of "\<lparr>st_elems = [imm_elem 7], st_base = 0, st_dead = False\<rparr>" "-16" 8 0]
    by simp
qed

text \<open>
  C25. After an instruction nothing is known of, the state describes every machine, as long as
  no tracked pointer starts in the upper half of an XMM register.
\<close>

theorem nasty_forgets:
  assumes "wf_ps ps" and "\<forall>x < 16. inner_free ps (LSse128 x)"
  shows "\<exists>ps'. nastyInstruction ps = Some ps' \<and> wf_ps ps' \<and>
    (\<forall>base m. (\<forall>loc. loc_ok loc \<longrightarrow> length (m_reg m loc) = loc_size loc) \<longrightarrow> ps_conc base ps' m)"
  using assms by (rule nasty_opaque)

theorem nasty_forgets_witness:
  "\<exists>ps'. nastyInstruction ps_cf0 = Some ps' \<and> ps_conc (\<lambda>_ _. 0) ps' (m_zf\<lparr>m_stack := of_int\<rparr>)"
proof -
  have "wf_ps ps_cf0" by code_simp
  moreover have "\<forall>x < 16. inner_free ps_cf0 (LSse128 x)"
    by (simp add: inner_free_def ps_cf0_def ps_init_def no_inner_head_def list_all_iff head_at_def dead_elem_def)
  ultimately show ?thesis using nasty_forgets[of ps_cf0] by (auto simp: m_zf_def)
qed

section \<open>Elements\<close>

text \<open>
  Writing to an element array: the range holds the value afterwards, elements that are in
  no pointer the range cuts are untouched, the rest of a cut pointer is unknown, and outside
  the range a mark of a stack pointer stays.
\<close>

theorem elements_written:
  assumes "wf_elems es" and "0 < n" and "off + n \<le> length es" and "no_inner_head es off n" and "size_ok v n"
  shows "\<exists>es'. set_elements es off n v False = Some es' \<and> length es' = length es \<and>
    wf_elems es' \<and> holds_value v off n es' \<and>
    (\<forall>i < length es. \<not> erased es off n i \<longrightarrow> es' ! i = es ! i) \<and>
    (\<forall>i < length es. erased es off n i \<longrightarrow> \<not> (off \<le> i \<and> i < off + n) \<longrightarrow>
       etype (es' ! i) = EUnknown \<or> etype (es' ! i) = ETainted) \<and>
    (\<forall>i < length es. \<not> (off \<le> i \<and> i < off + n) \<longrightarrow> stackish (etype (es ! i)) \<longrightarrow> stackish (etype (es' ! i)))"
  using assms by (rule set_elements_spec)

theorem elements_written_witness:
  "\<exists>es'. set_elements (ptr_elems StackPtr) 2 2 (Imm64 5) False = Some es' \<and> wf_elems es' \<and>
    stackish (etype (es' ! 7))"
proof -
  have "wf_elems (ptr_elems StackPtr)" "no_inner_head (ptr_elems StackPtr) 2 2" "size_ok (Imm64 5) 2"
    "2 + 2 \<le> length (ptr_elems StackPtr)" "length (ptr_elems StackPtr) = 8"
    "stackish (etype (ptr_elems StackPtr ! 7))"
    by code_simp+
  then show ?thesis using elements_written[of "ptr_elems StackPtr" 2 2 "Imm64 5"] by force
qed

text \<open>
  A write that starts in front of a tracked pointer and covers it fails: the search for
  the pointer's tails starts at the first byte of the write.
\<close>

theorem overwritten_inner_pointer:
  "wf_elems (any_elems 8 @ ptr_elems UsrPtr) \<and>
   set_elements (any_elems 8 @ ptr_elems UsrPtr) 0 16 (Imm128 0) False = None"
  using overwrite_inner_pointer overwrite_inner_pointer_wf by blast

text \<open>
  C30. A merge of element arrays loses weight whenever it reports a difference, unless the
  difference is that a dead element became unknown; so between such changes only finitely many
  merges can report one.
\<close>

theorem merge_progress:
  assumes "wf_elems l" and "length r = length l" and "merge_elements l r = Some (d, m)"
  shows "weight m \<le> weight l \<and>
    (d \<longrightarrow> weight m < weight l \<or> (\<exists>j < length l. etype (l ! j) = EDead \<and> etype (m ! j) = EUnknown))"
  using merge_weight[OF assms] by blast

theorem merge_progress_witness:
  "\<exists>m. merge_elements [imm_elem 1] [imm_elem 2] = Some (True, m) \<and> weight m < weight [imm_elem 1]"
proof -
  have "map_option (\<lambda>(d, m). (d, map etype m)) (merge_elements [imm_elem 1] [imm_elem 2]) = Some (True, [EUnknown])"
    by code_simp
  then obtain m where m: "merge_elements [imm_elem 1] [imm_elem 2] = Some (True, m)" by auto
  have "wf_elems [imm_elem 1]" "etype ([imm_elem 1] ! 0) = EImmediate" by code_simp+
  then show ?thesis using merge_progress[OF _ _ m] m by simp
qed

text \<open>
  A write that starts in front of a tracked pointer and ends inside it does not fail, but leaves
  the rest of the pointer's tails, which then read as zeros: after eight bytes of a pointer at
  the stack offset 0 and four bytes at -3, eight bytes at 0 read as the number 0x44, where a
  machine has the pointer's other bytes.
\<close>

definition tail_writes :: "(place \<times> dyn_value) list" where
  "tail_writes = [(PlStack 0 MB8, Ptr UsrPtr 1 0), (PlStack (-3) MB4, Imm64 0x44332211)]"

definition tail_bytes :: "(place \<times> byte list) list" where
  "tail_bytes = [(PlStack 0 MB8, [1, 2, 3, 4, 5, 6, 7, 8]), (PlStack (-3) MB4, [0x11, 0x22, 0x33, 0x44])]"

theorem overwritten_pointer_leaves_tails:
  "ps.allows (\<lambda>_ _. 0x0807060504030201) tail_writes tail_bytes \<and>
   Option.bind (ps.write_all ps_init tail_writes) (\<lambda>s. map_option fst (read_place s (PlStack 0 MB8))) = Some (Imm64 0x44) \<and>
   load_place (ps.store_all m_zf tail_bytes) (PlStack 0 MB8) = [0x44, 2, 3, 4, 5, 6, 7, 8]"
proof (intro conjI)
  show "ps.allows (\<lambda>_ _. 0x0807060504030201) tail_writes tail_bytes"
    unfolding tail_writes_def tail_bytes_def ps.allows_def by code_simp
  show "Option.bind (ps.write_all ps_init tail_writes) (\<lambda>s. map_option fst (read_place s (PlStack 0 MB8))) = Some (Imm64 0x44)"
    unfolding tail_writes_def ps.write_all.simps by code_simp
  show "load_place (ps.store_all m_zf tail_bytes) (PlStack 0 MB8) = [0x44, 2, 3, 4, 5, 6, 7, 8]"
    unfolding tail_bytes_def ps.store_all.simps by code_simp
qed

text \<open>
  Merging a pointer to user data with the return pointer at the same place leaves tail
  elements behind that no pointer owns. After one byte is written there, eight bytes read as a
  known number, although the merged state describes machines with other bytes there.
\<close>

theorem merged_pointers_leave_tails:
  "\<not> wf_elems merged_kinds \<and> conc base merged_kinds [9, 9, 9, 9, 9, 9, 9, 9] \<and>
   (\<exists>es. set_elements merged_kinds 0 1 (Imm64 7) False = Some es \<and> get_elements es 0 8 = Some (Imm64 7) \<and>
     \<not> bytes_conc base (Imm64 7) [7, 9, 9, 9, 9, 9, 9, 9])"
proof (intro conjI)
  show "\<not> wf_elems merged_kinds" by code_simp
  have "map etype merged_kinds = EUnknown # replicate 7 ETail" by code_simp
  then have t: "i < 8 \<Longrightarrow> etype (merged_kinds ! i) = (if i = 0 then EUnknown else ETail)" "length merged_kinds = 8" for i
    by (auto simp: list_eq_iff_nth_eq nth_Cons')
  then show "conc base merged_kinds [9, 9, 9, 9, 9, 9, 9, 9]"
    by (intro concI) (auto simp: conc_at_def)
  have "\<not> bytes_conc base (Imm64 7) [7, 9, 9, 9, 9, 9, 9, 9]" by code_simp
  then show "\<exists>es. set_elements merged_kinds 0 1 (Imm64 7) False = Some es \<and> get_elements es 0 8 = Some (Imm64 7) \<and>
     \<not> bytes_conc base (Imm64 7) [7, 9, 9, 9, 9, 9, 9, 9]"
    using merged_kinds_read by (auto simp: bind_eq_Some_conv)
qed

section \<open>Masks and names of registers\<close>

text \<open>
  The register masks are sets of subregisters: every operation of the bitmaps is the
  operation on sets, equality compares the sets and nothing else, and subtracting changes a
  mask exactly when the two share a register.
\<close>

theorem masks_are_sets:
  "regs_in mask_zero = {} \<and> regs_in mask_fill = UNIV \<and>
   regs_in (mask_add a b) = regs_in a \<union> regs_in b \<and>
   regs_in (mask_sub a b) = regs_in a - regs_in b \<and>
   regs_in (mask_and a b) = regs_in a \<inter> regs_in b \<and>
   (mask_eq a b \<longleftrightarrow> regs_in a = regs_in b) \<and> (mask_is_empty a \<longleftrightarrow> regs_in a = {}) \<and>
   (mask_eq (mask_sub a b) a \<longleftrightarrow> mask_is_empty (mask_and a b))"
  by (auto simp: mask_simps)

text \<open>
  The enumerators of the subregisters number the bits of a mask without a gap or an
  overlap, and a register that has a parent holds part of the parent's subregisters.
\<close>

theorem subregisters_numbered:
  "bij_betw subregister_index UNIV {..<subregister_bits} \<and>
   (\<forall>r info m. arch_get_register_info r = Some info \<and> ri_parent info \<noteq> NoReg \<and>
      getSubRegisterMask r Full = Some m \<longrightarrow>
      (\<exists>p. getSubRegisterMask r FullZeroParent = Some p \<and> regs_in m \<subseteq> regs_in p))"
proof -
  have "bij_betw subregister_index UNIV {..<subregister_bits}"
    using subregister_index_onto by (fastforce simp: bij_betw_def inj_def)
  then show ?thesis using sub_of_parent by blast
qed

theorem subregisters_numbered_witness:
  "\<exists>p. getSubRegisterMask EAX FullZeroParent = Some p \<and> regs_in (subregister_mask (MaskReg EAX)) \<subseteq> regs_in p"
proof -
  have "arch_get_register_info EAX = Some (def_reg_simple EAX RTGprs32 RAX 0 0)"
    "ri_parent (def_reg_simple EAX RTGprs32 RAX 0 0) \<noteq> NoReg"
    "getSubRegisterMask EAX Full = Some (subregister_mask (MaskReg EAX))"
    by (simp_all add: getSubRegisterMask_def def_reg_simple_def)
  then show ?thesis
    using subregisters_numbered by blast
qed

section \<open>Where emulation goes wrong\<close>

text \<open>
  Moving a 32-bit register to itself clears it: the direct move zeroes the whole parent
  of the target before it copies the source, which is the same register.
\<close>

theorem move_to_itself_clears:
  "run_one [(RAX, Imm64 5)] (Mov MOV32rr) [SopReg EAX, SopReg EAX] RAX = Some (Imm64 0) \<and>
   run_one [(RAX, Imm64 5)] (Mov MOV32rr) [SopReg (Gpr32 GB), SopReg EAX] RBX = Some (Imm64 5)"
  using run_mov_same run_mov_other by blast

text \<open>
  The byte comparison with an immediate is emulated as a 16-bit comparison, so its
  overflow flag differs from that of the same comparison between registers.
\<close>

theorem byte_comparison_is_wide:
  "run_one [(AL, Imm64 0x80)] (Cmp CMP8ri) [SopReg AL, imm_op 1] OvF = Some (Imm64 0) \<and>
   run_one [(AL, Imm64 0x80), (Gpr8 GB, Imm64 1)] (Cmp CMP8rr) [SopReg AL, SopReg (Gpr8 GB)] OvF = Some (Imm64 1)"
  using run_cmp8 run_cmp8_rr by blast

section \<open>Specialization and the pools\<close>

text \<open>
  C3. The specialization of an instruction keeps what it does, but for the rewritings that lose
  the upper half of a register (\<open>drops_upper_half\<close>: a deleted move of a 32-bit register to
  itself or 32-bit xor with zero, a scalar operation that becomes a load; what they do is shown
  further down): on a machine its evaluated operands describe, an instruction that is
  rewritten has the same effect as before, up to flags nobody reads, and one that is deleted
  had none. The pool keeps its constants. The processor adds and combines bits as the manual has
  it (\<open>cpu_ok\<close>, \<open>cpu_logic_ok\<close>), and the memory holds the constants of the pool.
\<close>

theorem specialization_keeps_effect:
  assumes "handle_instruction os cfg di live ins p = Some (ins', del, p')" and "instr_ok ins"
    and "\<not> drops_upper_half (in_opcode ins) (if del then Delete else Change) (in_opcode ins')"
    and "cpu_ok cpu" "cpu_logic_ok cpu" and "os_ok os" "pool_ok p" and "pool_loaded hw p'"
    and "effect_of cpu base hw (in_opcode ins) (in_operands ins) = Some e"
    and "described base hw \<lparr>sc_di = di, sc_live = live, sc_env = cfg, sc_os = os\<rparr> (in_opcode ins) (in_operands ins) e"
  shows "(if del then no_effect (registersWillBeRead live eflags_mask) hw e
    else \<exists>e'. effect_of cpu base hw (in_opcode ins') (in_operands ins') = Some e' \<and>
      same_effect (registersWillBeRead live eflags_mask) e e') \<and> pool_kept p p'"
  using assms by (rule handle_instruction_effect)

theorem specialization_keeps_effect_witness:
  "\<exists>e e'. effect_of ref_cpu (\<lambda>_ _. 0) ones_hw (Add ADD64rr) [SopReg RAX, SopReg RBX] = Some e \<and>
     effect_of ref_cpu (\<lambda>_ _. 0) ones_hw (Add ADD64ri) [SopReg RAX, SopImm (plain_imm (- 1))] = Some e' \<and>
     same_effect (registersWillBeRead mask_fill eflags_mask) e e'"
proof -
  have "instr_ok add_ins" by code_simp
  moreover have "\<not> drops_upper_half (in_opcode add_ins) (if False then Delete else Change) (Add ADD64ri)" by code_simp
  moreover have "pool_loaded ones_hw demo_pool" by (rule demo_pool_loaded)
  ultimately show ?thesis 
    using add_effect specialization_keeps_effect[OF add_rewritten, of ref_cpu ones_hw "\<lambda>_ _. 0"]
      small_os_ok demo_pool_ok ref_cpu_ok ref_cpu_logic
    by (fastforce simp: add_ins_def demo_ins_def)
qed

text \<open>
  C26. The specialization gives an instruction whose operands have the kinds its new row of
  the table asks for.
\<close>

theorem specialized_operands_fit:
  assumes "handle_instruction os cfg di live ins p = Some (ins', del, p')" and "instr_ok ins"
  shows "instr_ok ins'"
  using assms by (rule handle_instruction_ok)

theorem specialized_operands_fit_witness:
  "instr_ok (demo_ins (Add ADD64ri) [SopReg RAX, SopImm (plain_imm (- 1))])"
proof -
  have "instr_ok add_ins" by code_simp
  then show ?thesis by (rule specialized_operands_fit[OF add_rewritten])
qed

text \<open>
  C27. The address a pool handed out for a 64- or 128-bit constant holds it and is handed out again
  for the same value, whatever code and constants follow and however often the code is thrown
  away; constants of 8, 16 and 32 bits keep their bytes as well. It is so from any state of the
  pool, until \<open>resetConstantPool\<close> throws the constants away.
\<close>

theorem constants_persist:
  assumes "os_ok os" and "pool_reachable os arch_fill_with_nops p" and "pool_run os arch_fill_with_nops p q"
  shows "pool_ok q \<and> (\<forall>a bs. const_at p a bs \<longrightarrow> const_at q a bs) \<and>
    (\<forall>v a. pl_map64 p v = Some a \<longrightarrow>
       const_at q a (le_bytes 8 v) \<and> allocConstant64 os v q = Some (a, q)) \<and>
    (\<forall>v a. pl_map128 p v = Some a \<longrightarrow>
       const_at q a (le_bytes 16 v) \<and> allocConstant128 os v q = Some (a, q))"
proof -
  have nops: "nops_ok arch_fill_with_nops" by simp
  have "pool_kept p q" by (rule pool_run_kept[OF assms(1) nops assms(3) pool_reachable_ok[OF assms(1) nops assms(2)]])
  moreover from this have "pool_maps q" by (simp add: pool_kept_def pool_okD)
  ultimately show ?thesis
    by (simp add: pool_kept_def pool_maps_def allocConstant64_def allocConstant128_def)
qed

theorem constants_persist_witness:
  "\<exists>a p q. allocConstant64 small_os 5 demo_pool = Some (a, p) \<and> allocConstant64 small_os 7 p \<noteq> None \<and>
     (\<forall>b q. allocConstant64 small_os 7 p = Some (b, q) \<longrightarrow>
        const_at q a (le_bytes 8 (5 :: u64)) \<and> allocConstant64 small_os 5 q = Some (a, q))"
proof -
  have "allocConstant64 small_os 5 demo_pool \<noteq> None" by code_simp
  then obtain a p where a: "allocConstant64 small_os 5 demo_pool = Some (a, p)" by auto
  have "Option.bind (allocConstant64 small_os 5 demo_pool) (\<lambda>(a, p). allocConstant64 small_os 7 p) \<noteq> None"
    by code_simp
  then have more: "allocConstant64 small_os 7 p \<noteq> None" by (simp add: a)
  have r: "pool_reachable small_os arch_fill_with_nops p"
    using pool_reachable.new[OF demo_pool_new] pool_reachable.step pool_step.const64[OF a] by blast
  have m: "pl_map64 p 5 = Some a"
    using allocConstant64_ok(3)[OF small_os_ok demo_pool_ok a] .
  have "const_at q a (le_bytes 8 (5 :: u64)) \<and> allocConstant64 small_os 5 q = Some (a, q)"
    if "allocConstant64 small_os 7 p = Some (b, q)" for b q
    using constants_persist[OF small_os_ok r pool_run.more[OF pool_run.stop pool_step.const64[OF that]]] m
    by blast
  then show ?thesis using a more by blast
qed

text \<open>
  C28. A pool hands out code and constants from one page each, however large it is: an
  allocation succeeds exactly when it fits into the first page.
\<close>

theorem pools_hold_one_page:
  assumes "os_ok os" and "pool_reachable os arch_fill_with_nops p" and "0 < unat sz" "unat sz \<le> 4096"
    and "const_size (length bs)"
  shows "allocCode os sz p =
      (if unat (pl_nextInstr p) + unat sz \<le> unat (pl_start p) + 4096
       then Some (pl_nextInstr p, p\<lparr>pl_nextInstr := pl_nextInstr p + sz\<rparr>) else None) \<and>
    (allocBytes os bs p = None \<longleftrightarrow>
       unat (pl_nextConst p) + 1 < unat (pl_start p) + unat (pl_size p) - 4096 + length bs)"
proof -
  have nops: "nops_ok arch_fill_with_nops" by simp
  note P = pool_okD[OF pool_reachable_ok[OF assms(1) nops assms(2)]]
  have "unat (pl_constPage p) = unat (pl_start p) + unat (pl_size p) - 4096"
    using P(3) by (simp add: pool_const_def)
  then show ?thesis
    using allocCode_result[OF assms(1) P(1,2) assms(3,4)] allocBytes_result[OF assms(1) P(1,3) assms(5)]
    by (simp add: Let_def)
qed

theorem pools_hold_one_page_witness:
  "Option.bind (allocCode small_os 0x1000 demo_pool) (\<lambda>(a, p). allocCode small_os 1 p) = None \<and>
   allocBytes small_os [1, 2, 3, 4] demo_pool \<noteq> None"
proof -
  note R = pools_hold_one_page[OF small_os_ok pool_reachable.new[OF demo_pool_new]]
  note at = demo_pool_fields
  have "allocCode small_os 0x1000 demo_pool = Some (0x10000, demo_pool\<lparr>pl_nextInstr := 0x11000\<rparr>)"
    using R[of "0x1000" "[1]"] at by (simp add: const_size_def)
  moreover have "allocCode small_os 1 (demo_pool\<lparr>pl_nextInstr := 0x11000\<rparr>) = None"
    by code_simp
  moreover have "allocBytes small_os [1, 2, 3, 4] demo_pool \<noteq> None"
    using R[of 1 "[1, 2, 3, 4]"] at by (simp add: const_size_def)
  ultimately show ?thesis by simp
qed

text \<open>
  C13. The rewritings left out of the claim on specialization lose the upper half of a register,
  always. An instruction among them that is deleted writes a 32-bit register and so clears the
  upper half of the 64-bit one: it had an effect unless that half was zero before. One
  that becomes a load is a scalar addition or multiplication, which keeps the upper eight bytes
  of the vector register; the load clears them. The witness has one of each kind: \<open>mov eax, eax\<close>,
  \<open>xor eax, 0\<close> and an \<open>addsd\<close> with a known sum.
\<close>

theorem upper_half_lost:
  assumes "handle_instruction os cfg di live ins p = Some (ins', del, p')" and "instr_ok ins"
    and "drops_upper_half (in_opcode ins) (if del then Delete else Change) (in_opcode ins')"
    and "hw_ok hw" and "effect_of cpu base hw (in_opcode ins) (in_operands ins) = Some e"
  shows "if del
    then \<exists>g. in_operands ins ! 0 = SopReg (Gpr32 g) \<and> drop 4 (loc_after hw e (LGprs64 (gpr_nr g))) = replicate 4 0 \<and>
      (drop 4 (m_reg (hw_m hw) (LGprs64 (gpr_nr g))) \<noteq> replicate 4 0 \<longrightarrow> \<not> no_effect False hw e)
    else \<exists>x e'. in_operands ins ! 0 = SopReg (XmmReg x) \<and>
      effect_of cpu base hw (in_opcode ins') (in_operands ins') = Some e' \<and>
      drop 8 (loc_after hw e (LSse128 (xmm_nr x))) = drop 8 (m_reg (hw_m hw) (LSse128 (xmm_nr x))) \<and>
      drop 8 (loc_after hw e' (LSse128 (xmm_nr x))) = replicate 8 0 \<and> \<not> same_effect False e e'"
  using assms by (rule upper_lost)

theorem upper_half_lost_witness:
  "(\<exists>e. effect_of ref_cpu (\<lambda>_ _. 0) ones_hw (Mov MOV32rr) [SopReg EAX, SopReg EAX] = Some e \<and> \<not> no_effect False ones_hw e) \<and>
   (\<exists>e. effect_of ref_cpu (\<lambda>_ _. 0) ones_hw (Xor XOR32ri) [SopReg EAX, SopImm (plain_imm 0)] = Some e \<and>
      \<not> no_effect False ones_hw e) \<and>
   (\<exists>ins' p' e'. handle_instruction small_os bare_env (io_info [io_operand Unknown (Imm64 5), io_operand Unknown Unknown])
      no_flags (demo_ins (Sse ADDSDrr) [SopReg (XmmReg X0), SopReg (XmmReg X1)]) demo_pool = Some (ins', False, p') \<and>
      effect_of ref_cpu (\<lambda>_ _. 0) ones_hw (in_opcode ins') (in_operands ins') = Some e' \<and>
      drop 8 (m_reg (hw_m ones_hw) (LSse128 0)) = replicate 8 0xff \<and> drop 8 (loc_after ones_hw e' (LSse128 0)) = replicate 8 0)"
proof (intro conjI)
  have ones: "drop 4 (m_reg (hw_m ones_hw) (LGprs64 (gpr_nr g))) \<noteq> replicate 4 0" for g
    by (simp add: ones_hw_def)
  have lost: "\<not> no_effect False ones_hw e"
    if a: "map_option (\<lambda>(i, del, p). del) (handle_instruction small_os bare_env di no_flags (demo_ins opc ops) demo_pool) = Some True"
      "instr_ok (demo_ins opc ops)" "drops_upper_half opc Delete opc"
      "effect_of ref_cpu (\<lambda>_ _. 0) ones_hw opc ops = Some e" for di opc ops e
  proof -
    obtain ins' p' where r: "handle_instruction small_os bare_env di no_flags (demo_ins opc ops) demo_pool = Some (ins', True, p')"
      using a(1) by auto
    show ?thesis
      using upper_half_lost[OF r a(2) _ ones_hw_ok, of ref_cpu "\<lambda>_ _. 0" e] a(3,4) ones
      by (auto simp: demo_ins_def drops_upper_half_def)
  qed
  obtain e where e: "effect_of ref_cpu (\<lambda>_ _. 0) ones_hw (Mov MOV32rr) [SopReg EAX, SopReg EAX] = Some e"
    using mov32_effect by blast
  have "instr_ok (demo_ins (Mov MOV32rr) [SopReg EAX, SopReg EAX])" by code_simp
  from lost[OF mov32_deleted this _ e] show "\<exists>e. effect_of ref_cpu (\<lambda>_ _. 0) ones_hw (Mov MOV32rr) [SopReg EAX, SopReg EAX] = Some e \<and> \<not> no_effect False ones_hw e"
    using e by (simp add: drops_upper_half_def)
  obtain e2 where e2: "effect_of ref_cpu (\<lambda>_ _. 0) ones_hw (Xor XOR32ri) [SopReg EAX, SopImm (plain_imm 0)] = Some e2"
    using xor32_effect by blast
  have "instr_ok (demo_ins (Xor XOR32ri) [SopReg EAX, SopImm (plain_imm 0)])" by code_simp
  from lost[OF xor32_deleted this _ e2] show "\<exists>e. effect_of ref_cpu (\<lambda>_ _. 0) ones_hw (Xor XOR32ri) [SopReg EAX, SopImm (plain_imm 0)] = Some e \<and>
      \<not> no_effect False ones_hw e"
    using e2 by (simp add: drops_upper_half_def)
  let ?ins = "demo_ins (Sse ADDSDrr) [SopReg (XmmReg X0), SopReg (XmmReg X1)]"
  obtain ins' del p' where r: "handle_instruction small_os bare_env (io_info [io_operand Unknown (Imm64 5), io_operand Unknown Unknown])
      no_flags ?ins demo_pool = Some (ins', del, p')" and opc: "in_opcode ins' = MovX MOVSDrm"
    using addsd_becomes_load by auto
  have ok: "instr_ok ?ins" by code_simp
  have d: "\<not> del"
    using r ok by (cases rule: handle_instruction_cases) (use opc in \<open>auto simp: demo_ins_def\<close>)
  obtain e3 where e3: "effect_of ref_cpu (\<lambda>_ _. 0) ones_hw (Sse ADDSDrr) [SopReg (XmmReg X0), SopReg (XmmReg X1)] = Some e3"
    by (simp add: effect_of_def faults_def needs_alignment_def alu_defs)
  from upper_half_lost[OF r ok _ ones_hw_ok, of ref_cpu "\<lambda>_ _. 0" e3]
  obtain e' where "effect_of ref_cpu (\<lambda>_ _. 0) ones_hw (in_opcode ins') (in_operands ins') = Some e'"
    "drop 8 (loc_after ones_hw e' (LSse128 0)) = replicate 8 0"
    using d opc e3 by (auto simp: demo_ins_def drops_upper_half_def)
  then show "\<exists>ins' p' e'. handle_instruction small_os bare_env (io_info [io_operand Unknown (Imm64 5), io_operand Unknown Unknown])
      no_flags ?ins demo_pool = Some (ins', False, p') \<and>
      effect_of ref_cpu (\<lambda>_ _. 0) ones_hw (in_opcode ins') (in_operands ins') = Some e' \<and>
      drop 8 (m_reg (hw_m ones_hw) (LSse128 0)) = replicate 8 0xff \<and> drop 8 (loc_after ones_hw e' (LSse128 0)) = replicate 8 0"
    using r d by (simp add: ones_hw_def)
qed


section \<open>The control flow graph\<close>

text \<open>
  C7. The graph stays in order when things are removed from it: from a well-formed graph every
  instruction of a block, all of its instructions, and the block itself can be removed without
  an error. The graph is well formed afterwards: every list and pointer of functions, blocks,
  instructions and edges agrees with the one that points back, and nothing points to what was
  removed. Other blocks keep their instructions.
\<close>

theorem graph_stays_in_order:
  assumes "icfg_ok g" and "ic_sb g b = Some sb" and "a \<in> set (sb_instrs sb)"
  shows "(\<exists>h. removeInstruction b a g = Some h \<and> icfg_ok h) \<and>
    (\<exists>h sb'. removeAllInstructions b g = Some h \<and> icfg_ok h \<and>
       ic_sb h b = Some sb' \<and> sb_instrs sb' = [] \<and> sb_in sb' = [] \<and> sb_out sb' = []) \<and>
    (\<exists>h. removeBlock (sb_function sb) b g = Some h \<and> icfg_ok h \<and> block_removed (sb_function sb) b g h)"
proof -
  obtain i where "ic_is g a = Some i" using instrs_okD(2)[OF icfg_okD(2)[OF assms(1)] assms(2,3)] by blast
  then show ?thesis
    using removeInstruction_total[OF assms] removeAll_total[OF assms(1,2)] removeBlock_total[OF assms(1,2) refl] by blast
qed

theorem graph_stays_in_order_witness: "\<exists>h. removeBlock 0 2 demo_graph = Some h \<and> icfg_ok h \<and> block_removed 0 2 demo_graph h"
proof -
  have "ic_sb demo_graph 2 = Some (demo_block [16, 14] [21, 23] [22])" by (simp add: demo_graph_def)
  then show ?thesis using graph_stays_in_order[OF demo_ok, of 2 _ 16] by (simp add: demo_block_def)
qed

text \<open>
  C8. A traversal in depth-first or breadth-first order with a callback that does not stop it
  and leaves the graph alone ends if no chain of blocks a run can come to is a circle. It has
  called back once for every block that can be reached from the entry then, and for no other.
  If there is such a circle the traversal does not end.
\<close>

theorem traversal_visits_reachable:
  assumes "ic_fn g f = Some fn" and "fn_entry fn = Some e" and "e \<in> set (fn_blocks fn)"
    and "walkable g (set (fn_blocks fn))" and "marks_ok g f" and "harmless cb"
    and "traverse = for_each_block_dfs f cb \<or> traverse = for_each_block_bfs f cb"
  shows "(circling g (reached g e) = {} \<and>
      (\<exists>bs g0 s'. traverse (x, g) = Some (False, s') \<and> distinct bs \<and> set bs = reached g e \<and>
         same_shape g g0 \<and> for_each bs (visit cb) (x, g0) = Some s')) \<or>
    (circling g (reached g e) \<noteq> {} \<and> traverse (x, g) = None)"
proof -
  obtain push where push: "push_ok push" "traverse = walk_function push f cb"
    using assms(7) push_ok unfolding for_each_block_dfs_def for_each_block_bfs_def by blast
  show ?thesis
  proof (cases "circling g (reached g e) = {}")
    case True
    then have "chains_end g (reached g e)" using chain_rank[of g e] by (simp add: chains_end_def)
    then show ?thesis
      using walk_function_total[OF assms(1-4) _ assms(5,6) push(1), of x] push(2) True by blast
  next
    case False
    then show ?thesis using walk_function_ends_iff[OF assms(1-6) push(1), of x] push(2) by auto
  qed
qed

theorem traversal_visits_reachable_witness:
  "\<exists>bs g0 s'. for_each_block_bfs 0 trace ([], demo_graph) = Some (False, s') \<and> distinct bs \<and>
     set bs = reached demo_graph 1 \<and> same_shape demo_graph g0 \<and> for_each bs (visit trace) ([], g0) = Some s'"
proof -
  have "ic_fn demo_graph 0 = Some demo_fn" "fn_entry demo_fn = Some 1" "set (fn_blocks demo_fn) = {1, 2, 3}"
    by (auto simp: demo_graph_def demo_fn_def)
  then show ?thesis
    using traversal_visits_reachable[OF _ _ _ _ demo_marks trace_harmless, of demo_fn 1] demo_walkable demo_chains by auto
qed



section \<open>Liveness and dead writes\<close>



text \<open>
  C5. Removing dead writes after the liveness analysis keeps what the function computes: on
  every processor that keeps to what is known of the instructions, whenever a run from a block
  of the function returns, the run of the function that is left returns too, with the same
  memory and the same values in the result registers and in the preserved registers.
\<close>

theorem dead_writes_safe:
  fixes cpu :: "('v, 'm) processor"
  assumes "flow_ok f g" and "ic_entry g = Some f" and "\<not> nd_livenessValid (ic_node g)"
    and "ic_fn g f = Some fn" and "\<not> nd_livenessValid (fn_node fn)" and "fn_info fn = Some spec"
    and "rets_known f g" and "cpu_for cpu f g"
  shows "\<exists>h. Option.bind (liveness_run g) dead_writes_run = Some h \<and> icfg_ok h \<and>
    (\<forall>n. \<forall>b \<in> set (fn_blocks fn). \<forall>s s'. returns_from cpu g (\<lambda>_. True) n b s = Some s' \<longrightarrow>
       (\<exists>t'. returns_from cpu h (\<lambda>_. True) n b s = Some t' \<and>
          agree_on (regs_in (ro_out spec) \<union> regs_in (ro_preserved spec)) s' t'))"
  using dead_writes_keep_results[OF assms] by blast

theorem dead_writes_safe_witness:
  "\<exists>h. Option.bind (liveness_run demo_graph) dead_writes_run = Some h \<and> icfg_ok h \<and>
     (\<forall>n s s'. returns_from zero_cpu demo_graph (\<lambda>_. True) n 1 s = Some s' \<longrightarrow>
        (\<exists>t'. returns_from zero_cpu h (\<lambda>_. True) n 1 s = Some t' \<and>
           agree_on (regs_in (ro_out demo_spec) \<union> regs_in (ro_preserved demo_spec)) s' t'))"
proof -
  have "ic_entry demo_graph = Some 0" "\<not> nd_livenessValid (ic_node demo_graph)" "ic_fn demo_graph 0 = Some demo_fn"
    "\<not> nd_livenessValid (fn_node demo_fn)" "fn_info demo_fn = Some demo_spec" "1 \<in> set (fn_blocks demo_fn)"
    by (simp_all add: demo_graph_def demo_fn_def node_init_def)
  then show ?thesis
    using dead_writes_safe[OF demo_flow _ _ _ _ _ demo_rets demo_cpu, of demo_fn demo_spec] by blast
qed


section \<open>The configuration and the calling convention\<close>

text \<open>
  C4. Every configuration with up to 256 parameters of which none is a 16-byte value on the
  stack is translated without an error. The state at the entry describes every machine that
  passes its arguments as the System V convention has it, with the configured values; the
  registers noted as read are those of the arguments and the stack pointer, the registers
  noted as written and preserved are the convention's, and the stack ranges noted are the
  return address and the arguments on the stack, in order.
\<close>

theorem entry_state_describes:
  assumes "cfg_ok cfg" and "dc_ret cfg = TyVoid \<or> param_ok (dc_ret cfg)" and "dc_count cfg \<le> 256"
    and "\<not> wide_on_stack (sysv_places (map pc_type (dc_params cfg)))"
  shows "\<exists>c. arch_translate_cfg cfg rewriter_init = Some c \<and> entry_ok cfg c"
  using assms by (rule arch_translate_sound)

definition demo_param :: "param_type \<Rightarrow> param_state \<Rightarrow> u128 \<Rightarrow> param_cfg" where
  "demo_param t st v = \<lparr>pc_type = t, pc_state = st, pc_value = v, pc_ptr_flags = 0, pc_ptr_align = 0\<rparr>"

definition demo_cfg :: drob_cfg where
  "demo_cfg = cfg_cleared\<lparr>dc_ret := TyInt, dc_count := 8, dc_params :=
     [demo_param TyPtr ParamUnknown 0, demo_param TyChar ParamConst 0xFF, demo_param TyDouble ParamUnknown 0,
      demo_param TyInt128 ParamConst 5, demo_param TyLong ParamUnknown 0, demo_param TyInt ParamConst 7,
      demo_param TyPtr ParamConst 0x1000, demo_param TyShort ParamConst 3]\<rparr>"

theorem entry_state_describes_witness:
  "\<exists>c. arch_translate_cfg demo_cfg rewriter_init = Some c \<and> entry_ok demo_cfg c"
  by (rule entry_state_describes)
    (simp_all add: demo_cfg_def cfg_cleared_def cfg_ok_def param_ok_def demo_param_def wide_on_stack_def sysv_places_def
      arg_gprs_def arg_xmms_def arg_size_def arg_mem_def arg_align_def vector_type_def)



text \<open>
  Setting the value of a parameter of the right type makes it known: it is the value the
  convention passes, whatever was in the other bytes of the union. Nothing else in the
  configuration changes and it stays well formed. The setter of another type is refused.
\<close>

theorem parameter_set:
  assumes "cfg_ok cfg" and "0 \<le> nr" and "nr < dc_count cfg"
  shows "if pc_type (dc_params cfg ! nat nr) \<noteq> t then drob_cfg_set_param t cfg nr v = Some (- EINVAL, cfg)
    else \<exists>cfg'. drob_cfg_set_param t cfg nr v = Some (0, cfg') \<and> param_set cfg nr cfg' \<and>
      pc_state (dc_params cfg' ! nat nr) = ParamConst \<and> arg_bytes t (pc_value (dc_params cfg' ! nat nr)) = arg_bytes t v"
  using set_param_spec[OF assms] set_param_wrong_type[OF assms] by simp

theorem parameter_set_witness:
  "\<exists>cfg'. drob_cfg_set_param TyLong demo_cfg 4 9 = Some (0, cfg') \<and> param_set demo_cfg 4 cfg' \<and>
     pc_state (dc_params cfg' ! 4) = ParamConst \<and> arg_bytes TyLong (pc_value (dc_params cfg' ! 4)) = arg_bytes TyLong 9"
proof -
  have "cfg_ok demo_cfg" by (simp add: demo_cfg_def cfg_cleared_def cfg_ok_def param_ok_def demo_param_def)
  then show ?thesis
    using parameter_set[of demo_cfg 4 TyLong 9] by (simp add: demo_cfg_def cfg_cleared_def demo_param_def)
qed

text \<open>
  C33. The setters check the number of the parameter, but let the number of parameters itself
  and every negative number through: they read outside the array exactly then. A larger number
  is refused.
\<close>

theorem parameter_number_check:
  assumes "cfg_ok cfg"
  shows "(drob_cfg_set_param t cfg nr v = None \<longleftrightarrow> nr < 0 \<or> nr = dc_count cfg) \<and>
    (drob_cfg_set_ptr_flag cfg nr flag = None \<longleftrightarrow> nr < 0 \<or> nr = dc_count cfg) \<and>
    (drob_cfg_set_ptr_align cfg nr al = None \<longleftrightarrow> nr < 0 \<or> nr = dc_count cfg) \<and>
    (dc_count cfg < nr \<longrightarrow> drob_cfg_set_param t cfg nr v = Some (- EINVAL, cfg))"
  using param_number_checked[OF assms] param_number_refused[of cfg nr] by simp

theorem parameter_number_check_witness: "drob_cfg_set_param TyInt demo_cfg 8 1 = None"
proof -
  have "cfg_ok demo_cfg" by (simp add: demo_cfg_def cfg_cleared_def cfg_ok_def param_ok_def demo_param_def)
  then show ?thesis using parameter_number_check[of demo_cfg TyInt 8 1] by (simp add: demo_cfg_def cfg_cleared_def)
qed

section \<open>Encoding\<close>

text \<open>
  C9. For the operands the formats can express, and but for the rows listed as miscoded, the
  encoder writes bytes that are the instruction of the row with these operands when they are
  read as the processor manual has it, at most 15 of them.

  What is left out (\<open>encodable\<close>). Rows: all calls, jumps and conditional branches; subtractions
  of memory from a register; \<open>XOR32mi\<close> with an immediate of more than 8 bits; \<open>MOV64ri\<close> and
  the shifts by an immediate where stale bytes of the operand union decide. Operands: RSP or ESP
  as base or index, R12 as base without index, a base and an index of different widths, a memory
  operand without any register in the indirect form, scales that are no power of two up to 8;
  addresses neither of 32 bits with sign nor within 2 GB of every end the instruction could
  have; SPL, BPL, SIL, DIL when no operand asks for REX, AH to DH when one does; immediates of
  64-bit operations that are not 32 bits with sign.
\<close>

theorem encoded_instruction:
  assumes "arch_get_opcode_info opc = Some oc" and "operands_fit oc ops"
    and "encodable stale opc (length (oc_opInfo oc)) ops addr"
  shows "\<exists>bs. run_encode stale (oc_encode oc) opc ops addr = Some bs \<and> length bs \<le> 15 \<and>
    encodes opc (take (length (oc_opInfo oc)) ops) addr bs"
  by (rule encoder_sound[OF assms])

theorem encoded_instruction_witness:
  "run_encode (\<lambda>_. 0) Enc_add (Add ADD64rm) [SopReg (Gpr64 G9), SopMem demo_mem] 0x2000 = Some [0x4d, 0x03, 0x4c, 0x8c, 0xf8] \<and>
    encodes (Add ADD64rm) [SopReg (Gpr64 G9), SopMem demo_mem] 0x2000 [0x4d, 0x03, 0x4c, 0x8c, 0xf8]"
proof -
  have "operands_fit (add_info ADD64rm) [SopReg (Gpr64 G9), SopMem demo_mem]"
    by (simp add: def_opc_def operands_fit_def reg_has_type_def def_reg_simple_def)
  moreover have "encodable (\<lambda>_. 0) (Add ADD64rm) 2 [SopReg (Gpr64 G9), SopMem demo_mem] 0x2000"
    by (simp add: encodable_def operands_encodable_def operand_encodable_def demo_mem_def is_sp_def is_32_def byte_ok_def imms_fit_def)
  moreover have "run_encode (\<lambda>_. 0) Enc_add (Add ADD64rm) [SopReg (Gpr64 G9), SopMem demo_mem] 0x2000 = Some [0x4d, 0x03, 0x4c, 0x8c, 0xf8]"
    by code_simp
  ultimately show ?thesis
    using encoded_instruction[of "Add ADD64rm" "add_info ADD64rm" "[SopReg (Gpr64 G9), SopMem demo_mem]" "\<lambda>_. 0" "0x2000"]
    by (auto simp: def_opc_def numeral_2_eq_2)
qed

text \<open>
  C35. A subtraction of memory from a register is written as the subtraction of the register
  from the memory, for every width, register and memory operand the format can express.
\<close>

theorem subtraction_reversed:
  assumes "reversed x = Some y" and "operands_fit (sub_info x) [SopReg r, SopMem m]"
    and "operands_encodable addr [SopMem m, SopReg r]"
  shows "\<exists>bs. run_encode stale Enc_sub (Sub x) [SopReg r, SopMem m] addr = Some bs \<and>
    encodes (Sub y) [SopMem m, SopReg r] addr bs"
proof -
  have "run_encode stale Enc_sub (Sub x) [SopReg r, SopMem m] addr =
      run_encode stale Enc_sub (Sub y) [SopMem m, SopReg r] addr"
    using assms(1) by (cases x) (auto simp: run_encode_def write_modrm_m_reg_def write_modrm_reg_m_def)
  moreover have "operands_fit (sub_info y) [SopMem m, SopReg r]"
    using assms(1,2) by (cases x) (auto simp: fit_rows)
  moreover have "encodable stale (Sub y) 2 [SopMem m, SopReg r] addr"
    using assms(1,3) by (cases x) (auto simp: encodable_def imms_fit_def)
  ultimately show ?thesis
    using encoder_sound[of "Sub y" "sub_info y" "[SopMem m, SopReg r]" stale addr] by (auto simp: alu_row_fields)
qed

theorem subtraction_reversed_witness:
  "\<exists>bs. run_encode (\<lambda>_. 0) Enc_sub (Sub SUB64rm) [SopReg (Gpr64 GA), SopMem demo_mem] 0 = Some bs \<and>
    encodes (Sub SUB64mr) [SopMem demo_mem, SopReg (Gpr64 GA)] 0 bs \<and> \<not> encodes (Sub SUB64rm) [SopReg (Gpr64 GA), SopMem demo_mem] 0 bs"
proof -
  have "operands_fit (sub_info SUB64rm) [SopReg (Gpr64 GA), SopMem demo_mem]"
    by (simp add: def_opc_def operands_fit_def reg_has_type_def def_reg_simple_def)
  moreover have "operands_encodable 0 [SopMem demo_mem, SopReg (Gpr64 GA)]"
    by (simp add: operands_encodable_def operand_encodable_def demo_mem_def is_sp_def is_32_def byte_ok_def)
  ultimately have "\<exists>bs. run_encode (\<lambda>_. 0) Enc_sub (Sub SUB64rm) [SopReg (Gpr64 GA), SopMem demo_mem] 0 = Some bs \<and>
      encodes (Sub SUB64mr) [SopMem demo_mem, SopReg (Gpr64 GA)] 0 bs"
    using subtraction_reversed[of SUB64rm SUB64mr "Gpr64 GA" demo_mem 0 "\<lambda>_. 0"] by simp
  moreover have "run_encode (\<lambda>_. 0) Enc_sub (Sub SUB64rm) [SopReg (Gpr64 GA), SopMem demo_mem] 0 = Some [0x49, 0x29, 0x44, 0x8c, 0xf8]"
    by code_simp
  moreover have "\<not> encodes (Sub SUB64rm) [SopReg (Gpr64 GA), SopMem demo_mem] 0 [0x49, 0x29, 0x44, 0x8c, 0xf8]" by code_simp
  ultimately show ?thesis by auto
qed

text \<open>
  C36. A call through a register or memory is written with the opcode extension of the far call, a
  jump with the prefix for operands of 16 bits, for every operand the formats can express: these
  bytes read as that, and not as the near call or jump. An addition to the low byte of RSP, RBP,
  RSI or RDI of one of AL to DL is written without the REX prefix it needs: the bytes name AH,
  CH, DH or BH.
\<close>

theorem miscoded_rows:
  assumes "through addr op" and "high_twin g = Some h" and "a \<in> {GA, GB, GC, GD}"
  shows "(\<exists>bs os. run_encode stale Enc_call (Call (case op of SopReg _ \<Rightarrow> CALLr | _ \<Rightarrow> CALLm)) [op] addr = Some bs \<and>
      read_format far_call addr bs = Some os \<and> list_all2 same_operand [op] os \<and>
      \<not> encodes (Call (case op of SopReg _ \<Rightarrow> CALLr | _ \<Rightarrow> CALLm)) [op] addr bs) \<and>
    (\<exists>bs os. run_encode stale Enc_jmp (Jmp (case op of SopReg _ \<Rightarrow> JMPr | _ \<Rightarrow> JMPm)) [op] addr = Some bs \<and>
      read_format short_jump addr bs = Some os \<and> list_all2 same_operand [op] os \<and>
      \<not> encodes (Jmp (case op of SopReg _ \<Rightarrow> JMPr | _ \<Rightarrow> JMPm)) [op] addr bs) \<and>
    (\<exists>bs. run_encode stale Enc_add (Add ADD8rr) [SopReg (Gpr8 g), SopReg (Gpr8 a)] addr = Some bs \<and>
      encodes (Add ADD8rr) [SopReg (Gpr8H h), SopReg (Gpr8 a)] addr bs \<and>
      \<not> encodes (Add ADD8rr) [SopReg (Gpr8 g), SopReg (Gpr8 a)] addr bs)"
  using call_through[OF assms(1), of stale] jump_through[OF assms(1), of stale] low_byte_add[OF assms(2,3), of stale addr]
  by (metis (no_types))

theorem miscoded_rows_witness:
  "(\<exists>bs. run_encode (\<lambda>_. 0) Enc_call (Call CALLm) [SopMem demo_mem] 0x2000 = Some bs \<and> \<not> encodes (Call CALLm) [SopMem demo_mem] 0x2000 bs) \<and>
   (\<exists>bs. run_encode (\<lambda>_. 0) Enc_jmp (Jmp JMPm) [SopMem demo_mem] 0x2000 = Some bs \<and> \<not> encodes (Jmp JMPm) [SopMem demo_mem] 0x2000 bs) \<and>
   (\<exists>bs. run_encode (\<lambda>_. 0) Enc_add (Add ADD8rr) [SopReg (Gpr8 GSI), SopReg (Gpr8 GA)] 0x2000 = Some bs \<and>
      encodes (Add ADD8rr) [SopReg (Gpr8H HD), SopReg (Gpr8 GA)] 0x2000 bs)"
proof -
  have "through 0x2000 (SopMem demo_mem)"
    by (simp add: through_def demo_mem_def is_sp_def is_32_def)
  from miscoded_rows[OF this, of GSI HD GA "\<lambda>_. 0"] show ?thesis by auto
qed

section \<open>Generated code\<close>

text \<open>
  C37. When the second run of the code generation succeeds, every block it gave an address is there:
  its instructions one after the other, each the encoding of the instruction at its place, a
  copy of the original, or a branch or call that reads as one to the code of its target (but
  for the branches on RCX). The same holds of every function and its entry block, and the entry
  function is at the start of the pool.
\<close>

theorem generated_code:
  assumes "os_ok (ge_os env)" and "pool_ok (cg_pool st)" and "entries_in g" and "ic_entry g = Some f"
    and "cg_write st" and "cg_functionMap st = Map.empty" and "cg_blockMap st = Map.empty"
    and "cg_branches st = []" and "cg_calls st = []" and "cg_generate env (st, g) = Some (st', g')"
  shows "generated env g st' \<and> cg_functionMap st' f = Some (pl_start (cg_pool st))"
  using generated_run[OF assms] by blast

theorem generated_code_witness:
  "\<exists>st' g'. cg_generate demo_genv (second_run {12, 14, 15}, demo_graph) = Some (st', g') \<and>
     generated demo_genv demo_graph st' \<and> cg_functionMap st' 0 = Some 0x10000"
proof -
  obtain st' g' where run: "cg_generate demo_genv (second_run {12, 14, 15}, demo_graph) = Some (st', g')"
    using demo_generates by blast
  moreover have "generated demo_genv demo_graph st' \<and> cg_functionMap st' 0 = Some (pl_start (cg_pool (second_run {12, 14, 15})))"
    by (rule generated_code[OF _ _ demo_entries _ _ _ _ _ _ run])
      (simp_all add: small_os_ok demo_pool_ok demo_graph_def)
  ultimately show ?thesis by (simp add: demo_pool_fields)
qed

text \<open>
  C38. The long form of a branch on RCX ends in a jump to the byte before its target: the address
  prefix is overwritten, so the jump is one byte before the place its displacement is
  computed for.
\<close>

theorem jcxz_misses_target:
  assumes "arch_fixup_branch (Jcc x) lo t True st = Some st'" and "x = JCXZ32a \<or> x = JCXZ64a"
    and "lo_instr lo \<notin> cg_short st" and "scast (disp32 t (lo_itext lo + 10)) = t - (lo_itext lo + 10)"
  shows "take 4 (code_at st' (lo_itext lo) 9) = [0xe3, 2, 0xeb, 5] \<and>
    read_transfer (lo_itext lo + 4) (code_at st' (lo_itext lo + 4) 5) = Some (ToJump, t - 1)"
proof -
  have "lo_itext lo + 5 + 5 = lo_itext lo + 10" by simp
  then show ?thesis using jcxz_long[OF assms(1-3)] assms(4) by metis
qed

definition jcxz_place :: location where
  "jcxz_place = \<lparr>lo_itext = 0x10000, lo_ilen = 10, lo_instr = 7\<rparr>"

theorem jcxz_misses_target_witness:
  "\<exists>st'. arch_fixup_branch (Jcc JCXZ64a) jcxz_place 0x10080 True (second_run {}) = Some st' \<and>
     read_transfer 0x10004 (code_at st' 0x10004 5) = Some (ToJump, 0x1007f)"
proof -
  obtain st' where fx: "arch_fixup_branch (Jcc JCXZ64a) jcxz_place 0x10080 True (second_run {}) = Some st'"
    by (simp add: arch_fixup_branch_def fixupSpecialCondBranch_def second_run_def codegen_init_def jcxz_place_def)
  have d: "scast (disp32 0x10080 (lo_itext jcxz_place + 10)) = (0x10080 :: u64) - (lo_itext jcxz_place + 10)" by code_simp
  have "lo_instr jcxz_place \<notin> cg_short (second_run {})" by (simp add: second_run_def)
  then show ?thesis using jcxz_misses_target[OF fx _ _ d] fx by (auto simp: jcxz_place_def)
qed



section \<open>Memory operands\<close>

text \<open>
  C32. An instruction keeps its effect when the optimization of memory operands gives it a new
  operand, in every state that describes the machine: the operand has the same address, or it
  is a copy in the constant pool of bytes that do not change. The new operand has an address the
  encoder takes, and the pool stays in order.
\<close>

theorem memory_operand_keeps_effect:
  assumes "os_ok os" and "pool_ok p" and "wf_ps ps" and "ps_conc base ps (hw_m h)" and "cfg_base env base"
    and "arch_get_opcode_info opc = Some oc" and "do_nr d < length (oc_opInfo oc)" and "oc_opInfo oc ! do_nr d = EoiMem mode sz"
    and "raw_op ops (do_nr d) = Some (SopMem ptr)" and "ptr_ok ptr" and "mode \<noteq> AmNone"
    and "createMemAccess \<lparr>sma_ptr = ptr, sma_mode = mode, sma_size = sz\<rparr> ps = Some ma"
    and "do_isInput d \<Longrightarrow> mode \<noteq> AmAddress" and "do_isOutput d = isWrite mode"
    and "new_mem_operand os env ops d ma p = Some (Some op, p')" and "pool_loaded h p'" and "host_constant env h"
    and "effect_of cpu base h opc ops = Some e"
  shows "\<exists>q. op = SopMem q \<and> addressed q \<and> effect_of cpu base h opc (ops[do_nr d := SopMem q]) = Some e \<and> pool_ok p'"
proof -
  obtain q where q: "op = SopMem q" "addressed q" "operand_kept env base (hw_m h) d sz p' ptr q"
    using new_mem_operand_sound(3)[OF assms(1-5,10,9,11,12,15)] by blast
  have "do_nr d < length ops" "ops ! do_nr d = SopMem ptr" using assms(9) by (auto simp: raw_op_def split: if_splits)
  from new_operand_effect[OF assms(6-8) this assms(18) q(3) assms(16,17,13,14)]
  show ?thesis using q(1,2) new_mem_operand_sound(1)[OF assms(1-5,10,9,11,12,15)] by blast
qed

theorem memory_operand_keeps_effect_witness:
  "\<exists>e q. effect_of ref_cpu (\<lambda>_ _. 0) ones_hw (Mov MOV64rm) [SopReg RAX, SopMem rbx_mem] = Some e \<and>
     new_mem_operand small_os bare_env [SopReg RAX, SopMem rbx_mem] rbx_operand rbx_access demo_pool = Some (Some (SopMem q), demo_pool) \<and>
     q \<noteq> rbx_mem \<and> effect_of ref_cpu (\<lambda>_ _. 0) ones_hw (Mov MOV64rm) [SopReg RAX, SopMem q] = Some e"
proof -
  obtain e where e: "effect_of ref_cpu (\<lambda>_ _. 0) ones_hw (Mov MOV64rm) [SopReg RAX, SopMem rbx_mem] = Some e"
    using rbx_effect by blast
  have base: "cfg_base bare_env (\<lambda>_ _. 0)" by (simp add: cfg_base_def bare_env_def)
  have "\<exists>q. SopMem (MpSIB NoReg RCX \<lparr>s32_val = -5, s32_usrPtrNr = -1, s32_usrPtrOffset = 0\<rparr> 8) = SopMem q \<and> addressed q \<and>
    effect_of ref_cpu (\<lambda>_ _. 0) ones_hw (Mov MOV64rm) ([SopReg RAX, SopMem rbx_mem][do_nr rbx_operand := SopMem q]) = Some e \<and> pool_ok demo_pool"
    by (rule memory_operand_keeps_effect[OF small_os_ok demo_pool_ok rbx_state base _ _ _ _ _ _ rbx_created _ _ rbx_rewritten demo_pool_loaded bare_host e,
          of "mov_info MOV64rm"])
      (simp_all add: def_opc_def rbx_operand_def raw_op_def rbx_mem_def addr_reg_ok_def)
  then show ?thesis using e rbx_rewritten by (auto simp: rbx_operand_def rbx_mem_def)
qed

section \<open>From decoded instructions\<close>

text \<open>
  C17. An instruction the converter finds a row of the table for gets one of the mnemonic and the
  width it was decoded with, that asks for operands of the kinds it has, and its operands are
  those that were decoded, in order: the same registers, addresses and immediates. A memory
  operand must be as \<open>mem_described\<close> has it: with registers, a displacement of 32 bits and
  a scale between 1 and 255; without, an address that fits 32 bits without sign (otherwise its
  upper half is lost, as shown further down). The two rows of JCXZ, for the two widths of its
  count, are not told apart.
\<close>

theorem converted_instruction:
  assumes "convert_simple x stale = Some (opc, ops, Some oc)" and "length stale = ARCH_MAX_OPERANDS"
    and "mem_described x" and "explicit_operands x ks" and "ks \<in> set (operand_lists (xd_iclass x))"
  shows "row_of x ks opc oc \<and> operands_mean x ops ks"
  using simple_converted[OF assms(2-5)] assms(1) by (simp add: well_converted_def)

theorem converted_instruction_witness:
  "row_of add_decoded [REG0, MEM0] (Add ADD64rm) (add_info ADD64rm) \<and> operands_mean add_decoded add_operands [REG0, MEM0]"
  by (rule converted_instruction[OF add_converted _ add_described])
     (simp_all add: zero_operands_def add_fields two_operands_def)

text \<open>
  C18. What LOOP, LOOPE and LOOPNE are converted to does what such an instruction does by the
  manual (count in RCX without the address size prefix, in ECX with it; down by one, flags kept,
  back or on as count and ZF say) exactly when RCX is between 1 and 2^32. For other values it
  does not, since the converter takes the count of the other width.
\<close>

theorem loop_expansion:
  assumes "loop_ready (hw_m h)" and "xd_length x < 256"
    and "xd_iclass x \<in> {XED_ICLASS_LOOP, XED_ICLASS_LOOPE, XED_ICLASS_LOOPNE}"
  shows "run_converted cpu base (snd (convert_loop x [])) h = Some (loop_instruction (\<not> xd_prefix67 x) x h) \<longleftrightarrow>
    1 \<le> reg_word (hw_m h) RCX \<and> reg_word (hw_m h) RCX \<le> 0x100000000"
  using assms by (rule run_loop_right)

theorem loop_expansion_witness:
  "run_converted ref_cpu (\<lambda>_ _. 0) (snd (convert_loop loop_decoded [])) (count_hw [2, 0, 0, 0, 0, 0, 0, 0]) =
     Some (loop_instruction True loop_decoded (count_hw [2, 0, 0, 0, 0, 0, 0, 0])) \<and>
   snd (loop_instruction True loop_decoded (count_hw [2, 0, 0, 0, 0, 0, 0, 0])) = Some 0xff8"
proof
  let ?h = "count_hw [2, 0, 0, 0, 0, 0, 0, 0]"
  have f: "xd_prefix67 loop_decoded = False" "xd_length loop_decoded < 256" "xd_iclass loop_decoded = XED_ICLASS_LOOP"
    by (simp_all add: loop_decoded_def nothing_decoded_def)
  have w: "reg_word (hw_m ?h) RCX = 2" using count_word[of "[2, 0, 0, 0, 0, 0, 0, 0]"] by (simp add: le_word_def)
  have "loop_ready (hw_m ?h)" by (rule count_ready) simp
  then show "run_converted ref_cpu (\<lambda>_ _. 0) (snd (convert_loop loop_decoded [])) ?h = Some (loop_instruction True loop_decoded ?h)"
    using loop_expansion[of ?h loop_decoded ref_cpu "\<lambda>_ _. 0"] f w by simp
  show "snd (loop_instruction True loop_decoded ?h) = Some 0xff8"
    by (simp add: loop_instruction_def loop_taken_def loop_count_def w loop_decoded_def nothing_decoded_def next_addr_def)
qed


text \<open>
  C22. Of an address without registers only the lower 32 bits are converted: the operands are those
  of the instruction with the address cut to 32 bits, and so they are not those that were
  decoded when the address does not fit 32 bits without sign. Among these are the
  addresses in the upper half of the address space that a 32-bit displacement stands for, and
  the 64-bit addresses of the accumulator moves.
\<close>

theorem high_address_lost:
  assumes "convert_simple x stale = Some (opc, ops, Some oc)" and "length stale = ARCH_MAX_OPERANDS"
    and "explicit_operands x ks" and "ks \<in> set (operand_lists (xd_iclass x))"
    and "absolute x" and "MEM0 \<in> set ks \<or> AGEN \<in> set ks"
  shows "row_of x ks opc oc \<and> operands_mean (cut_address x) ops ks \<and>
    (xm_disp (xd_mem x 0) \<noteq> ucast (ucast (xm_disp (xd_mem x 0)) :: u32) \<longrightarrow> \<not> operands_mean x ops ks)"
  using absolute_converted[OF assms] by blast

theorem high_address_lost_witness:
  "operands_mean (cut_address high_load) [SopReg RAX, direct_operand 0x80000000, SopReg NoReg] [REG0, MEM0] \<and>
   \<not> operands_mean high_load [SopReg RAX, direct_operand 0x80000000, SopReg NoReg] [REG0, MEM0] \<and>
   meaning high_load MEM0 = Some (OpAddr 0xffffffff80000000)"
proof -
  have "row_of high_load [REG0, MEM0] (Mov MOV64rm) (mov_info MOV64rm) \<and>
     operands_mean (cut_address high_load) [SopReg RAX, direct_operand 0x80000000, SopReg NoReg] [REG0, MEM0] \<and>
     (xm_disp (xd_mem high_load 0) \<noteq> ucast (ucast (xm_disp (xd_mem high_load 0)) :: u32) \<longrightarrow>
      \<not> operands_mean high_load [SopReg RAX, direct_operand 0x80000000, SopReg NoReg] [REG0, MEM0])"
    by (rule high_address_lost[OF high_load_converted _ high_load_operands(1) _ high_load_operands(2)])
      (simp_all add: zero_operands_def high_load_fields two_operands_def)
  then show ?thesis using high_load_fields(8) by (simp add: high_load_operands(3))
qed

text \<open>
  A move of 8 or 16 bits is refused, also where instructions that are not modelled are allowed;
  an addition of a width that is not modelled is not.
\<close>

theorem narrow_move_refused:
  assumes "xd_iclass x = XED_ICLASS_MOV" and "xd_operand_width x \<notin> {32, 64}"
  shows "convert_decoded cfg stale x instrs = None"
  using assms by (rule narrow_move)

end
